(* ===== verification/Prelude.thy ===== *)
theory Prelude imports Main "HOL-Library.Word" begin

text \<open>
  Shared library of the development: the machine word types, the bit-field structs of the C and
  C++ headers (\<open>layout\<close>, \<open>getf\<close>, \<open>putf\<close>) with the laws of reading after writing, and the index
  arithmetic of ring buffers (\<open>rdist\<close>, the locale \<open>index_ring\<close>).

  A struct of bit-fields is the list of its members with their widths in declaration order; the
  compilers of these drivers allocate members from the least significant bit, so a member's offset
  is the sum of the widths before it.
\<close>

unbundle bit_operations_syntax

type_synonym u8 = "8 word"
type_synonym u16 = "16 word"
type_synonym u32 = "32 word"
type_synonym u64 = "64 word"
type_synonym u128 = "128 word"

named_theorems layout_defs "definitions of the register and descriptor layouts"
named_theorems word_bounds "bounds on unat of machine words"

section \<open>Machine words\<close>

lemma unat_plus_one: "i < n \<Longrightarrow> unat (i + 1) = Suc (unat (i::'a::len word))"
proof -
  assume "i < n"
  then have "unat i < unat n" by (simp add: word_less_nat_alt)
  moreover have "unat n < 2 ^ LENGTH('a)" by (rule unsigned_less)
  ultimately have lt: "unat i + 1 < 2 ^ LENGTH('a)" by linarith
  have "unat (i + 1) = (unat i + unat (1::'a word)) mod 2 ^ LENGTH('a)" by (simp only: unat_word_ariths)
  then show ?thesis using lt by simp
qed

lemma unat_ucast_widen:
  fixes x :: "'a::len word"
  assumes le: "LENGTH('a) \<le> LENGTH('b)"
  shows "unat (ucast x :: 'b::len word) = unat x"
proof -
  have "unat x < 2 ^ LENGTH('a)" by (rule unsigned_less)
  also have "\<dots> \<le> 2 ^ LENGTH('b)" using le by simp
  finally show ?thesis by (simp add: unsigned_ucast_eq take_bit_nat_eq_self)
qed

lemma unat_take_bit_small: "unat x < 2 ^ n \<Longrightarrow> unat (take_bit n (x :: 'a::len word)) = unat x"
  by (simp add: unsigned_take_bit_eq take_bit_nat_eq_self)

lemma unat_field: "LENGTH('a) \<le> LENGTH('b) \<Longrightarrow> unat (take_bit n (ucast (x::'a::len word) :: 'b::len word)) = unat x mod 2 ^ n"
  using take_bit_eq_mod [of n "unat x"] by (simp add: unsigned_take_bit_eq unat_ucast_widen)

lemma high_bit_clear: "unat (x :: 'a::len word) < 2 ^ k \<Longrightarrow> k \<le> n \<Longrightarrow> \<not> bit x n"
proof -
  assume "unat x < 2 ^ k" "k \<le> n"
  then have "take_bit k x = x" using unat_take_bit_small by (simp add: word_unat_eq_iff)
  then show "\<not> bit x n" using \<open>k \<le> n\<close> by (metis bit_take_bit_iff not_le)
qed

section \<open>Bit-field structs\<close>

type_synonym layout = "(string \<times> nat) list"

fun width :: "layout \<Rightarrow> nat" where
  "width [] = 0"
| "width ((f, w) # L) = w + width L"

text \<open>Offset and width of a member; \<open>(0, 0)\<close> for a name the struct does not have.\<close>

fun member :: "layout \<Rightarrow> string \<Rightarrow> nat \<times> nat" where
  "member [] f = (0, 0)"
| "member ((g, w) # L) f =
     (if f = g then (0, w)
      else (case member L f of (off, v) \<Rightarrow> if v = 0 then (0, 0) else (w + off, v)))"

definition get_bits :: "nat \<Rightarrow> nat \<Rightarrow> 'a::len word \<Rightarrow> 'a word" where
  "get_bits off w r = take_bit w (drop_bit off r)"

definition set_bits :: "nat \<Rightarrow> nat \<Rightarrow> 'a::len word \<Rightarrow> 'a word \<Rightarrow> 'a word" where
  "set_bits off w v r = (r AND NOT (push_bit off (mask w))) OR push_bit off (take_bit w v)"

definition getf :: "layout \<Rightarrow> string \<Rightarrow> 'a::len word \<Rightarrow> 'a word" where
  "getf L f r = (case member L f of (off, w) \<Rightarrow> get_bits off w r)"

definition putf :: "layout \<Rightarrow> string \<Rightarrow> 'a::len word \<Rightarrow> 'a word \<Rightarrow> 'a word" where
  "putf L f v r = (case member L f of (off, w) \<Rightarrow> set_bits off w v r)"

text \<open>A union filled member by member, in the order of the assignments.\<close>

fun putfs :: "layout \<Rightarrow> (string \<times> 'a::len word) list \<Rightarrow> 'a word \<Rightarrow> 'a word" where
  "putfs L [] r = r"
| "putfs L ((f, v) # fvs) r = putfs L fvs (putf L f v r)"

text \<open>A member assigned from or tested as a C++ \<open>bool\<close>.\<close>

definition flag :: "bool \<Rightarrow> 'a::len word" where
  "flag b = (if b then 1 else 0)"

definition isset :: "layout \<Rightarrow> string \<Rightarrow> 'a::len word \<Rightarrow> bool" where
  "isset L f r \<longleftrightarrow> getf L f r \<noteq> 0"

lemma get_set_bits_same:
  "off + w \<le> LENGTH('a) \<Longrightarrow> get_bits off w (set_bits off w v (r::'a::len word)) = take_bit w v"
  by (rule bit_word_eqI) (auto simp: get_bits_def set_bits_def bit_simps)

lemma get_set_bits_other:
  assumes "off + w \<le> off' \<or> off' + w' \<le> off"
  shows "get_bits off w (set_bits off' w' v (r::'a::len word)) = get_bits off w r"
  by (rule bit_word_eqI)
     (use assms in \<open>auto simp: get_bits_def set_bits_def bit_simps dest: bit_imp_le_length\<close>)

lemma take_bit_get_bits [simp]: "take_bit w (get_bits off w r) = get_bits off w r"
  by (simp add: get_bits_def)

lemma get_bits_zero [simp]: "get_bits off w 0 = 0"
  by (simp add: get_bits_def)

lemma getf_zero [simp]: "getf L f 0 = 0"
  by (simp add: getf_def split: prod.split)

lemma isset_zero [simp]: "\<not> isset L f 0"
  by (simp add: isset_def)

lemma member_absent: "f \<notin> fst ` set L \<Longrightarrow> member L f = (0, 0)"
  by (induction L) auto

lemma member_bound: "member L f = (off, w) \<Longrightarrow> off + w \<le> width L"
  by (induction L f arbitrary: off w rule: member.induct) (auto split: if_splits prod.splits)

lemma member_disjoint:
  "f \<noteq> g \<Longrightarrow> member L f = (off, w) \<Longrightarrow> member L g = (off', w') \<Longrightarrow> w \<noteq> 0 \<Longrightarrow> w' \<noteq> 0
     \<Longrightarrow> off + w \<le> off' \<or> off' + w' \<le> off"
proof (induction L f arbitrary: off w off' w' rule: member.induct)
  case (1 f)
  then show ?case by simp
next
  case (2 h v L f)
  then show ?case by (fastforce split: if_splits prod.splits)
qed

lemma set_bits_empty [simp]: "set_bits off 0 v r = r"
  by (rule bit_word_eqI) (auto simp: set_bits_def bit_simps)

lemma get_bits_empty [simp]: "get_bits off 0 r = 0"
  by (simp add: get_bits_def)

text \<open>
  The contract of a bit-field struct: its member names are distinct and its members fill the
  storage unit exactly (what the headers' \<open>static_assert\<close>s on sizes rely on). Inside it the laws
  of member access hold for any two members; every union of the registers and every descriptor
  view is an instance.
\<close>

locale bitfields =
  fixes L :: layout and ty :: "'a::len itself"
  assumes names: "distinct (map fst L)"
    and fills: "width L = LENGTH('a)"
begin

lemma getf_putf_same:
  "getf L f (putf L f v (r::'a word)) = take_bit (snd (member L f)) v"
proof -
  obtain off w where m: "member L f = (off, w)" by (cases "member L f")
  then have "off + w \<le> LENGTH('a)" using member_bound fills by metis
  then show ?thesis by (simp add: getf_def putf_def m get_set_bits_same)
qed

lemma getf_putf_other:
  assumes "f \<noteq> g"
  shows "getf L f (putf L g v (r::'a word)) = getf L f r"
proof -
  obtain off w where m: "member L f = (off, w)" by (cases "member L f")
  obtain off' w' where m': "member L g = (off', w')" by (cases "member L g")
  show ?thesis
  proof (cases "w = 0 \<or> w' = 0")
    case True
    then show ?thesis by (auto simp: getf_def putf_def m m')
  next
    case False
    then show ?thesis
      using member_disjoint [OF assms m m'] by (simp add: getf_def putf_def m m' get_set_bits_other)
  qed
qed

lemma getf_putf:
  "getf L f (putf L g v (r::'a word)) = (if f = g then take_bit (snd (member L f)) v else getf L f r)"
  by (simp add: getf_putf_same getf_putf_other)

lemma getf_putfs:
  "getf L f (putfs L fvs (r::'a word)) =
     (case map_of (rev fvs) f of None \<Rightarrow> getf L f r | Some v \<Rightarrow> take_bit (snd (member L f)) v)"
proof (induction fvs arbitrary: r)
  case (Cons p fvs)
  then show ?case by (cases p) (auto simp: getf_putf map_add_def split: option.split)
qed simp

lemma isset_putf_flag:
  assumes "0 < snd (member L f)"
  shows "isset L f (putf L f (flag b) (r::'a word)) = b"
  using assms by (cases "snd (member L f)") (auto simp: isset_def getf_putf_same flag_def)

lemma isset_putf_other:
  "f \<noteq> g \<Longrightarrow> isset L f (putf L g v (r::'a word)) = isset L f r"
  by (simp add: isset_def getf_putf_other)

end

section \<open>Ring indices\<close>

lemma map_upt_shift: "map f [m..<m + k] = map (\<lambda>j. f (m + j)) [0..<k]"
  by (induction k) auto


text \<open>
  The number of steps from index \<open>a\<close> to index \<open>b\<close> going forward around a ring of \<open>n\<close> slots.
\<close>

definition rdist :: "nat \<Rightarrow> u32 \<Rightarrow> u32 \<Rightarrow> nat" where
  "rdist n a b = (unat b + n - unat a) mod n"

lemma rdist_less: "0 < n \<Longrightarrow> rdist n a b < n"
  by (simp add: rdist_def)

lemma rdist_cases:
  assumes "unat a < n" "unat b < n"
  shows "rdist n a b = (if unat a \<le> unat b then unat b - unat a else unat b + n - unat a)"
  using assms by (auto simp: rdist_def mod_if)

lemma rdist_self [simp]: "rdist n a a = 0"
  by (simp add: rdist_def)

lemma rdist_zero_iff: "unat a < n \<Longrightarrow> unat b < n \<Longrightarrow> rdist n a b = 0 \<longleftrightarrow> a = b"
  by (auto simp: rdist_cases word_unat_eq_iff split: if_splits)

lemma rdist_inj:
  assumes "unat a < n" "unat b < n" "unat e < n" "rdist n a e = rdist n b e"
  shows "a = b"
  using assms by (auto simp: rdist_cases word_unat_eq_iff split: if_splits)

lemma rdist_step:
  assumes "unat a < n" "unat b < n" "a \<noteq> b" "unat a' = Suc (unat a) mod n"
  shows "rdist n a b = Suc (rdist n a' b)"
proof -
  have "unat a \<noteq> unat b" using assms(3) by (simp add: word_unat_eq_iff)
  moreover have "unat a' < n" using assms by simp
  ultimately show ?thesis using assms by (auto simp: rdist_cases mod_Suc mod_if split: if_splits)
qed

text \<open>
  The interface of an index ring: a valid ring \<open>r\<close> has \<open>len r\<close> slots and \<open>nxt\<close> moves to the next
  index, wrapping at the end. The descriptor rings of the Ethernet driver provide it by masking
  (theory QueueCommon); the NetAdapterCx rings provide it by their documented increment function.
  The clients are the loops of the transmit and receive queues.
\<close>

text \<open>The indices from \<open>a\<close> up to, not including, \<open>e\<close>.\<close>

definition walk :: "(u32 \<Rightarrow> u32) \<Rightarrow> nat \<Rightarrow> u32 \<Rightarrow> u32 \<Rightarrow> u32 list" where
  "walk f n a e = map (\<lambda>k. (f ^^ k) a) [0..<rdist n a e]"

lemma walk_self [simp]: "walk f n a a = []"
  by (simp add: walk_def)

locale index_ring =
  fixes ok :: "'r \<Rightarrow> bool" and len :: "'r \<Rightarrow> nat" and nxt :: "'r \<Rightarrow> u32 \<Rightarrow> u32"
  assumes len_pos: "ok r \<Longrightarrow> 0 < len r"
    and nxt_mod: "ok r \<Longrightarrow> unat i < len r \<Longrightarrow> unat (nxt r i) = Suc (unat i) mod len r"
begin

lemma nxt_less: "ok r \<Longrightarrow> unat i < len r \<Longrightarrow> unat (nxt r i) < len r"
  using len_pos by (simp add: nxt_mod)

lemma dist_nxt:
  "ok r \<Longrightarrow> unat i < len r \<Longrightarrow> unat e < len r \<Longrightarrow> i \<noteq> e
     \<Longrightarrow> rdist (len r) i e = Suc (rdist (len r) (nxt r i) e)"
  by (rule rdist_step) (auto simp: nxt_mod)

text \<open>Induction for a loop that walks an index forward until it meets \<open>e\<close>.\<close>

lemma walk_induct [consumes 3, case_names stop step]:
  assumes "ok r" "unat i < len r" "unat e < len r"
    and stop: "P e"
    and step: "\<And>i. unat i < len r \<Longrightarrow> i \<noteq> e \<Longrightarrow> P (nxt r i) \<Longrightarrow> P i"
  shows "P i"
  using assms(2)
proof (induction "rdist (len r) i e" arbitrary: i)
  case 0
  then show ?case using stop assms(3) by (simp add: rdist_zero_iff)
next
  case (Suc d)
  then have ne: "i \<noteq> e" by auto
  with Suc.hyps(2) Suc.prems have "d = rdist (len r) (nxt r i) e"
    using dist_nxt [OF assms(1) Suc.prems assms(3) ne] by simp
  then show ?case using Suc.hyps(1) Suc.prems ne step nxt_less [OF assms(1)] by blast
qed

lemma iterate_mod:
  "ok r \<Longrightarrow> unat i < len r \<Longrightarrow> unat ((nxt r ^^ k) i) = (unat i + k) mod len r"
proof (induction k)
  case 0
  then show ?case by simp
next
  case (Suc k)
  then show ?case using len_pos by (simp add: nxt_mod mod_Suc_eq)
qed

lemma dist_iterate:
  assumes "ok r" "unat i < len r" "unat b < len r" "rdist (len r) b i + k < len r"
  shows "rdist (len r) b ((nxt r ^^ k) i) = rdist (len r) b i + k"
proof -
  have j: "unat ((nxt r ^^ k) i) = (unat i + k) mod len r" using iterate_mod assms by blast
  then have "unat ((nxt r ^^ k) i) < len r" using assms by simp
  then show ?thesis using assms j by (auto simp: rdist_cases mod_if split: if_splits)
qed

lemma walk_step:
  assumes "ok r" "unat a < len r" "unat e < len r" "a \<noteq> e"
  shows "walk (nxt r) (len r) a e = a # walk (nxt r) (len r) (nxt r a) e"
proof -
  have up: "[0..<Suc m] = 0 # map Suc [0..<m]" for m
    by (simp add: upt_conv_Cons map_Suc_upt del: upt_Suc)
  show ?thesis
    unfolding walk_def dist_nxt [OF assms] up by (simp add: comp_def funpow_swap1)
qed

lemma walk_extend:
  assumes "ok r" "unat a < len r" "unat e < len r" "rdist (len r) a e + k < len r"
  shows "walk (nxt r) (len r) a ((nxt r ^^ k) e) = walk (nxt r) (len r) a e @ map (\<lambda>j. (nxt r ^^ j) e) [0..<k]"
proof -
  have e: "(nxt r ^^ (rdist (len r) a e)) a = e"
  proof -
    have "unat ((nxt r ^^ rdist (len r) a e) a) = unat e"
      using assms by (simp add: iterate_mod rdist_cases mod_if)
    then show ?thesis by (simp add: word_unat_eq_iff)
  qed
  have "(nxt r ^^ (rdist (len r) a e + j)) a = (nxt r ^^ j) e" for j
    by (subst add.commute) (simp add: funpow_add e)
  then have shift: "map (\<lambda>k. (nxt r ^^ k) a) [rdist (len r) a e..<rdist (len r) a e + k] =
      map (\<lambda>j. (nxt r ^^ j) e) [0..<k]"
    by (subst map_upt_shift) simp
  have "walk (nxt r) (len r) a ((nxt r ^^ k) e) = map (\<lambda>k. (nxt r ^^ k) a) [0..<rdist (len r) a e + k]"
    using assms by (simp add: walk_def dist_iterate)
  also have "[0..<rdist (len r) a e + k] = [0..<rdist (len r) a e] @ [rdist (len r) a e..<rdist (len r) a e + k]"
    by (rule upt_add_eq_append) simp
  finally show ?thesis by (simp add: shift walk_def)
qed

lemma dist_remaining:
  assumes "ok r" "unat a < len r" "unat e < len r"
  shows "k \<le> rdist (len r) a e \<Longrightarrow> rdist (len r) ((nxt r ^^ k) a) e = rdist (len r) a e - k"
proof (induction k)
  case 0
  then show ?case by simp
next
  case (Suc k)
  let ?i = "(nxt r ^^ k) a"
  have i: "unat ?i < len r" using iterate_mod [OF assms(1,2)] len_pos [OF assms(1)] by simp
  have d: "rdist (len r) ?i e = rdist (len r) a e - k" using Suc by simp
  then have "?i \<noteq> e" using Suc.prems by auto
  from dist_nxt [OF assms(1) i assms(3) this] d show ?case by simp
qed

lemma in_walk_less: "ok r \<Longrightarrow> unat a < len r \<Longrightarrow> j \<in> set (walk (nxt r) (len r) a e) \<Longrightarrow> unat j < len r"
  using len_pos by (auto simp: walk_def iterate_mod)

lemma in_walk_dist:
  assumes "ok r" "unat a < len r" "unat e < len r" "j \<in> set (walk (nxt r) (len r) a e)"
  shows "rdist (len r) a j < rdist (len r) a e"
proof -
  obtain k where k: "k < rdist (len r) a e" and j: "j = (nxt r ^^ k) a"
    using assms(4) by (auto simp: walk_def)
  have "rdist (len r) a e < len r" using len_pos assms(1) by (simp add: rdist_less)
  then have "rdist (len r) a j = k" using dist_iterate [OF assms(1,2,2), of k] k j by simp
  then show ?thesis using k by simp
qed

lemma walk_drop:
  assumes "ok r" "unat a < len r" "unat e < len r" "k \<le> rdist (len r) a e"
  shows "walk (nxt r) (len r) ((nxt r ^^ k) a) e = drop k (walk (nxt r) (len r) a e)"
proof -
  have "drop k (walk (nxt r) (len r) a e) = map (\<lambda>j. (nxt r ^^ j) a) [k..<k + (rdist (len r) a e - k)]"
    using assms(4) by (simp add: walk_def drop_map)
  also have "\<dots> = map (\<lambda>j. (nxt r ^^ (j + k)) a) [0..<rdist (len r) a e - k]"
    by (subst map_upt_shift) (simp add: add.commute)
  finally show ?thesis by (simp add: walk_def dist_remaining [OF assms] funpow_add)
qed

text \<open>An index closer to the end than the start of a walk lies on the walk.\<close>

lemma in_walk_closer:
  assumes "ok r" "unat a < len r" "unat e < len r" "unat d < len r" "d \<noteq> e"
    "rdist (len r) d e \<le> rdist (len r) a e"
  shows "d \<in> set (walk (nxt r) (len r) a e)"
proof -
  let ?k = "rdist (len r) a e - rdist (len r) d e"
  have "0 < rdist (len r) d e" using assms(3-5) rdist_zero_iff by auto
  then have lt: "?k < rdist (len r) a e" using assms(6) by simp
  have j: "unat ((nxt r ^^ ?k) a) < len r"
    using iterate_mod [OF assms(1,2)] len_pos [OF assms(1)] by simp
  have "rdist (len r) ((nxt r ^^ ?k) a) e = rdist (len r) d e"
    using assms(6) by (subst dist_remaining [OF assms(1-3)]) auto
  then have "d = (nxt r ^^ ?k) a" using rdist_inj [OF j assms(4,3)] by simp
  moreover have "(nxt r ^^ ?k) a \<in> set (walk (nxt r) (len r) a e)"
    unfolding walk_def set_map by (rule imageI) (simp add: lt)
  ultimately show ?thesis by simp
qed

lemma iterate_less: "ok r \<Longrightarrow> unat i < len r \<Longrightarrow> unat ((nxt r ^^ k) i) < len r"
  using len_pos by (simp add: iterate_mod)

lemma iterate_inj:
  assumes "ok r" "unat i < len r" "j < len r" "k < len r" "(nxt r ^^ j) i = (nxt r ^^ k) i"
  shows "j = k"
proof -
  have eq: "(unat i + j) mod len r = (unat i + k) mod len r"
    using assms iterate_mod by metis
  have wrap: "(unat i + m) mod len r = (if unat i + m < len r then unat i + m else unat i + m - len r)"
    if "m < len r" for m
    using that assms(2) by (simp add: mod_if)
  show ?thesis
    using eq assms(2-4) unfolding wrap [OF assms(3)] wrap [OF assms(4)] by (auto split: if_splits)
qed

end

end
