(* ===== verification/QueueCommon.thy ===== *)
theory QueueCommon imports Prelude begin

text \<open>
  Definitions shared by the transmit and receive queues
  (src/drivers/net/dwc_eqos/queue_common.h and queue_common.cpp): the size of a descriptor ring, the
  conversion between descriptor addresses and indices, the masked index arithmetic both queues write
  out, and the effect of filling consecutive descriptors.
\<close>

section \<open>Ring sizes\<close>

definition PAGE_SIZE :: u32 where "PAGE_SIZE = 4096"
definition QueueDescriptorSize :: u32 where "QueueDescriptorSize = 64"
definition QueueDescriptorMinCount :: u32 where "QueueDescriptorMinCount = PAGE_SIZE div QueueDescriptorSize"
definition QueueDescriptorMaxCount :: u32 where "QueueDescriptorMaxCount = 0x400"
definition QueueDescriptorLengthMax :: u32 where "QueueDescriptorLengthMax = 0x3FFF"
definition QueueDescriptorAlignment :: u32 where
  "QueueDescriptorAlignment = QueueDescriptorMaxCount * QueueDescriptorSize"

lemmas queue_constants = PAGE_SIZE_def QueueDescriptorSize_def QueueDescriptorMinCount_def
  QueueDescriptorMaxCount_def QueueDescriptorLengthMax_def QueueDescriptorAlignment_def

text \<open>The intrinsic \<open>_BitScanReverse\<close>: the position of the most significant set bit.\<close>

fun bit_scan_reverse :: "nat \<Rightarrow> nat" where
  "bit_scan_reverse n = (if n \<le> 1 then 0 else Suc (bit_scan_reverse (n div 2)))"

declare bit_scan_reverse.simps [simp del]

definition QueueDescriptorCount :: "u32 \<Rightarrow> u32" where
  "QueueDescriptorCount fragmentCount =
     (let clamped = (if fragmentCount < QueueDescriptorMinCount then QueueDescriptorMinCount
                     else if fragmentCount > QueueDescriptorMaxCount then QueueDescriptorMaxCount
                     else fragmentCount);
          bits = bit_scan_reverse (unat (clamped - 1))
      in push_bit bits 2)"

definition QueueDescriptorAddressToIndex :: "u32 \<Rightarrow> u32" where
  "QueueDescriptorAddressToIndex address =
     (address AND (QueueDescriptorAlignment - 1)) div QueueDescriptorSize"

lemma bit_scan_reverse_bounds:
  "0 < n \<Longrightarrow> 2 ^ bit_scan_reverse n \<le> n \<and> n < 2 * 2 ^ bit_scan_reverse n"
proof (induction n rule: bit_scan_reverse.induct)
  case (1 n)
  show ?case
  proof (cases "n \<le> 1")
    case True
    with 1 show ?thesis by (simp add: bit_scan_reverse.simps [of n])
  next
    case False
    then have "0 < n div 2" by simp
    with 1 False have "2 ^ bit_scan_reverse (n div 2) \<le> n div 2 \<and> n div 2 < 2 * 2 ^ bit_scan_reverse (n div 2)"
      by simp
    with False show ?thesis by (subst (1 2) bit_scan_reverse.simps) auto
  qed
qed

text \<open>The sizes a descriptor ring can have.\<close>

definition count_ok :: "u32 \<Rightarrow> bool" where
  "count_ok c \<longleftrightarrow> c = 64 \<or> c = 128 \<or> c = 256 \<or> c = 512 \<or> c = 1024"

lemma count_ok_bounds: "count_ok c \<Longrightarrow> 64 \<le> unat c \<and> unat c \<le> 1024"
  by (auto simp: count_ok_def)

lemma count_ok_pos [simp]: "count_ok c \<Longrightarrow> 0 < unat c"
  by (auto simp: count_ok_def)

lemma count_ok_power: "6 \<le> k \<Longrightarrow> k \<le> 10 \<Longrightarrow> count_ok (2 ^ k)"
proof -
  assume "6 \<le> k" "k \<le> 10"
  then have "k = 6 \<or> k = 7 \<or> k = 8 \<or> k = 9 \<or> k = 10" by arith
  then show ?thesis by (auto simp: count_ok_def)
qed

lemma and_mask_mod:
  assumes "count_ok c"
  shows "unat (x AND (c - 1)) = unat x mod unat c"
proof -
  have *: "unat (x AND mask k) = unat x mod 2 ^ k" for k
    by (simp flip: take_bit_eq_mask add: unsigned_take_bit_eq) (simp add: take_bit_eq_mod)
  show ?thesis
    using assms * [of 6] * [of 7] * [of 8] * [of 9] * [of 10]
    by (auto simp: count_ok_def mask_eq_exp_minus_1)
qed

lemma and_mask_less: "count_ok c \<Longrightarrow> unat (x AND (c - 1)) < unat c"
  by (simp add: and_mask_mod)

section \<open>Masked index arithmetic\<close>

text \<open>\<open>(descIndex + 1) & descMask\<close>, and the macro \<open>EMPTY_DESC_REMAINING\<close>.\<close>

definition desc_next :: "u32 \<Rightarrow> u32 \<Rightarrow> u32" where
  "desc_next c i = (i + 1) AND (c - 1)"

definition EMPTY_DESC_REMAINING :: "u32 \<Rightarrow> u32 \<Rightarrow> u32 \<Rightarrow> u32" where
  "EMPTY_DESC_REMAINING c descBegin descIndex = (descBegin - 1 - descIndex) AND (c - 1)"

lemma count_ok_dvd: "count_ok c \<Longrightarrow> unat c dvd 2 ^ 32"
  by (auto simp: count_ok_def)

lemma desc_next_mod:
  assumes "count_ok c" "unat i < unat c"
  shows "unat (desc_next c i) = Suc (unat i) mod unat c"
proof -
  have "unat (i + 1) = Suc (unat i)"
    using assms count_ok_bounds [of c] by (simp add: unat_word_ariths)
  then show ?thesis using assms by (simp add: desc_next_def and_mask_mod)
qed

interpretation desc: index_ring count_ok unat desc_next
  by unfold_locales (simp_all add: desc_next_mod)

lemma unat_sub_mod:
  assumes "n dvd 2 ^ 32" "0 < n"
  shows "unat (a - b :: u32) mod n = nat ((int (unat a) - int (unat b)) mod int n)"
proof -
  have d: "int n dvd 2 ^ 32" using assms(1) by (metis int_dvd_int_iff of_nat_numeral of_nat_power)
  have "uint (a - b) mod int n = ((uint a - uint b) mod 2 ^ 32) mod int n"
    by (simp add: uint_word_ariths)
  also have "\<dots> = (uint a - uint b) mod int n" using d by (rule mod_mod_cancel)
  finally have "uint (a - b) mod int n = (uint a - uint b) mod int n" .
  then have "int (unat (a - b) mod n) = (int (unat a) - int (unat b)) mod int n"
    by (simp add: zmod_int)
  then show ?thesis by (metis nat_int)
qed

lemma back_mod:
  assumes "B < N" "I < N"
  shows "nat ((int B - int (Suc I)) mod int N) = N - 1 - (if B \<le> I then I - B else I + N - B)"
proof (cases "B \<le> I")
  case True
  then have "(int B - int (Suc I)) mod int N = (int B - int (Suc I) + int N) mod int N" by simp
  also have "\<dots> = int B - int (Suc I) + int N"
    using True assms by (intro mod_pos_pos_trivial) auto
  finally show ?thesis using True assms by simp
next
  case False
  then have "(int B - int (Suc I)) mod int N = int B - int (Suc I)"
    using assms by (intro mod_pos_pos_trivial) auto
  then show ?thesis using False assms by simp
qed

lemma remaining_eq:
  assumes "count_ok c" "unat b < unat c" "unat i < unat c"
  shows "unat (EMPTY_DESC_REMAINING c b i) = unat c - 1 - rdist (unat c) b i"
proof -
  let ?n = "unat c"
  have n: "64 \<le> ?n" using assms count_ok_bounds by blast
  have "unat (EMPTY_DESC_REMAINING c b i) = unat (b - (i + 1)) mod ?n"
    using assms by (simp add: EMPTY_DESC_REMAINING_def and_mask_mod algebra_simps)
  also have "\<dots> = nat ((int (unat b) - int (unat (i + 1))) mod int ?n)"
    using assms count_ok_dvd by (simp add: unat_sub_mod)
  also have "unat (i + 1) = Suc (unat i)"
    using assms count_ok_bounds [of c] by (simp add: unat_word_ariths)
  also have "nat ((int (unat b) - int (Suc (unat i))) mod int ?n) = ?n - 1 - rdist ?n b i"
    using assms by (simp only: back_mod rdist_cases)
  finally show ?thesis .
qed

text \<open>The slot before \<open>b\<close>, where the receive queue is full.\<close>

lemma before_mod:
  assumes "count_ok c" "unat b < unat c"
  shows "unat ((b - 1) AND (c - 1)) = (if unat b = 0 then unat c - 1 else unat b - 1)"
proof (cases "unat b = 0")
  case True
  then have "b = 0" by (simp add: word_unat_eq_iff)
  then show ?thesis using assms(1) by (auto simp: count_ok_def)
next
  case False
  then have "unat (b - 1) = unat b - 1" by (subst unat_sub) (auto simp: word_le_nat_alt)
  then show ?thesis using assms False by (simp add: and_mask_mod)
qed

lemma before_dist:
  assumes "count_ok c" "unat b < unat c" "unat e < unat c"
  shows "rdist (unat c) e ((b - 1) AND (c - 1)) = unat c - 1 - rdist (unat c) b e"
proof -
  have "unat ((b - 1) AND (c - 1)) < unat c" by (rule and_mask_less [OF assms(1)])
  then show ?thesis
    using assms by (auto simp: rdist_cases before_mod split: if_splits)
qed

section \<open>Filling consecutive descriptors\<close>

text \<open>
  \<open>context->descVirtual[descIndex] = desc; descIndex = (descIndex + 1) & descMask\<close>, repeated for a
  list of descriptors: what the fill loops of both queues do to the ring memory.
\<close>

type_synonym desc_memory = "u32 \<Rightarrow> u128"

fun write_seq :: "u32 \<Rightarrow> (u32 \<Rightarrow> 'a) \<times> u32 \<Rightarrow> 'a list \<Rightarrow> (u32 \<Rightarrow> 'a) \<times> u32" where
  "write_seq c s [] = s"
| "write_seq c (m, i) (d # ds) = write_seq c (m(i := d), desc_next c i) ds"

lemma write_seq_append: "write_seq c s (xs @ ys) = write_seq c (write_seq c s xs) ys"
  by (induction c s xs rule: write_seq.induct) auto

lemma write_seq_index: "snd (write_seq c (m, i) ds) = (desc_next c ^^ length ds) i"
proof (induction ds arbitrary: m i)
  case Nil
  then show ?case by simp
next
  case (Cons d ds)
  then show ?case by (simp add: funpow_swap1)
qed

lemma write_seq_frame:
  "(\<And>k. k < length ds \<Longrightarrow> (desc_next c ^^ k) i \<noteq> j) \<Longrightarrow> fst (write_seq c (m, i) ds) j = m j"
proof (induction ds arbitrary: m i)
  case Nil
  then show ?case by simp
next
  case (Cons d ds)
  have "(desc_next c ^^ k) (desc_next c i) \<noteq> j" if "k < length ds" for k
    using Cons.prems [of "Suc k"] that by (simp add: funpow_swap1)
  then have "fst (write_seq c (m(i := d), desc_next c i) ds) j = (m(i := d)) j"
    by (rule Cons.IH)
  moreover have "j \<noteq> i" using Cons.prems [of 0] by auto
  ultimately show ?case by simp
qed

lemma write_seq_nth:
  assumes "count_ok c" "unat i < unat c" "length ds \<le> unat c" "k < length ds"
  shows "fst (write_seq c (m, i) ds) ((desc_next c ^^ k) i) = ds ! k"
  using assms(2-)
proof (induction ds arbitrary: m i k)
  case Nil
  then show ?case by simp
next
  case (Cons d ds)
  have nx: "unat (desc_next c i) < unat c" using desc.nxt_less assms(1) Cons.prems(1) by blast
  show ?case
  proof (cases k)
    case 0
    have "(desc_next c ^^ j) (desc_next c i) \<noteq> i" if "j < length ds" for j
    proof
      assume "(desc_next c ^^ j) (desc_next c i) = i"
      then have "(desc_next c ^^ Suc j) i = (desc_next c ^^ 0) i" by (simp add: funpow_swap1)
      then have "Suc j = 0"
        by (rule desc.iterate_inj [OF assms(1) Cons.prems(1), rotated 2])
           (use that Cons.prems in auto)
      then show False by simp
    qed
    then show ?thesis using 0 by (simp add: write_seq_frame)
  next
    case (Suc k')
    then show ?thesis using Cons.IH [OF nx] Cons.prems by (simp add: funpow_swap1)
  qed
qed

text \<open>A slot \<open>j\<close> lies in the region of \<open>k\<close> slots from \<open>i\<close>.\<close>

definition in_region :: "u32 \<Rightarrow> u32 \<Rightarrow> nat \<Rightarrow> u32 \<Rightarrow> bool" where
  "in_region c i k j \<longleftrightarrow> unat j < unat c \<and> rdist (unat c) i j < k"

lemma write_seq_outside:
  assumes "count_ok c" "unat i < unat c" "length ds \<le> unat c" "\<not> in_region c i (length ds) j"
  shows "fst (write_seq c (m, i) ds) j = m j"
proof (rule write_seq_frame)
  fix k assume k: "k < length ds"
  show "(desc_next c ^^ k) i \<noteq> j"
  proof
    assume j: "(desc_next c ^^ k) i = j"
    then have "unat j = (unat i + k) mod unat c" using desc.iterate_mod assms by metis
    then have "unat j < unat c \<and> rdist (unat c) i j = k"
      using assms k by (auto simp: rdist_def mod_if)
    with k assms(4) show False by (simp add: in_region_def)
  qed
qed

text \<open>New descriptors do not touch the slots in flight, and extend them.\<close>

lemma write_seq_keeps:
  assumes "count_ok c" "unat b < unat c" "unat e < unat c" "rdist (unat c) b e + length ds < unat c"
    "j \<in> set (walk (desc_next c) (unat c) b e)"
  shows "fst (write_seq c (m, e) ds) j = m j"
proof (rule write_seq_outside [OF assms(1,3)])
  show "length ds \<le> unat c" using assms(4) by simp
  have jl: "unat j < unat c" and jd: "rdist (unat c) b j < rdist (unat c) b e"
    using desc.in_walk_less desc.in_walk_dist assms by blast+
  show "\<not> in_region c e (length ds) j"
  proof
    assume "in_region c e (length ds) j"
    then have "rdist (unat c) e j < length ds" by (simp add: in_region_def)
    then show False using jl jd assms by (auto simp: rdist_cases split: if_splits)
  qed
qed

lemma write_seq_walk:
  assumes "count_ok c" "unat b < unat c" "unat e < unat c" "rdist (unat c) b e + length ds < unat c"
  shows "map (fst (write_seq c (m, e) ds)) (walk (desc_next c) (unat c) b (snd (write_seq c (m, e) ds)))
    = map m (walk (desc_next c) (unat c) b e) @ ds"
proof -
  have "walk (desc_next c) (unat c) b (snd (write_seq c (m, e) ds))
      = walk (desc_next c) (unat c) b e @ map (\<lambda>j. (desc_next c ^^ j) e) [0..<length ds]"
    unfolding write_seq_index using assms by (rule desc.walk_extend)
  moreover have "map (\<lambda>j. fst (write_seq c (m, e) ds) ((desc_next c ^^ j) e)) [0..<length ds] = ds"
    using assms by (intro nth_equalityI) (auto simp: write_seq_nth)
  moreover have "map (fst (write_seq c (m, e) ds)) (walk (desc_next c) (unat c) b e) = map m (walk (desc_next c) (unat c) b e)"
    using write_seq_keeps [OF assms] by simp
  ultimately show ?thesis by (simp add: comp_def)
qed

end
