(* ===== verification/EqosRegisters.thy ===== *)
theory EqosRegisters imports Prelude begin

text \<open>
  The register file of the Ethernet controller (src/drivers/net/dwc_eqos/registers.h): one layout per
  bit-field union, each shown to fill its 32 bits with distinct members, the registers the driver
  accesses, and memory-mapped access as a store together with the ordered list of writes.
\<close>

section \<open>Unions\<close>

definition ChannelDmaControl_t :: layout where
  "ChannelDmaControl_t = [(''MaxSegmentSize'', 14), (''Reserved14'', 2), (''PblX8'', 1), (''Reserved17'', 1),
     (''DescriptorSkipLength'', 3), (''Reserved21'', 11)]"

definition ChannelTxControl_t :: layout where
  "ChannelTxControl_t = [(''Start'', 1), (''Reserved1'', 3), (''OperateOnSecondPacket'', 1), (''Reserved5'', 7),
     (''TcpSegmentation'', 1), (''TcpSegmentationMode'', 2), (''IgnorePbl'', 1), (''TxPbl'', 6),
     (''Reserved22'', 10)]"

definition ChannelRxControl_t :: layout where
  "ChannelRxControl_t = [(''Start'', 1), (''ReceiveBufferSize'', 14), (''Reserved15'', 1), (''RxPbl'', 6),
     (''Reserved22'', 9), (''RxPacketFlush'', 1)]"

definition ChannelInterruptEnable_t :: layout where
  "ChannelInterruptEnable_t = [(''Tx'', 1), (''TxStopped'', 1), (''TxBufferUnavailable'', 1), (''Reserved3'', 3),
     (''Rx'', 1), (''RxBufferUnavailable'', 1), (''RxStopped'', 1), (''RxWatchdogTimeout'', 1),
     (''EarlyTx'', 1), (''EarlyRx'', 1), (''FatalBusError'', 1),
     (''ContextDescriptorError'', 1), (''AbnormalInterruptSummary'', 1),
     (''NormalInterruptSummary'', 1), (''Reserved16'', 16)]"

definition ChannelStatus_t :: layout where
  "ChannelStatus_t = [(''Tx'', 1), (''TxStopped'', 1), (''TxBufferUnavailable'', 1), (''Reserved3'', 3),
     (''Rx'', 1), (''RxBufferUnavailable'', 1), (''RxStopped'', 1), (''RxWatchdogTimeout'', 1),
     (''EarlyTx'', 1), (''EarlyRx'', 1), (''FatalBusError'', 1),
     (''ContextDescriptorError'', 1), (''AbnormalInterruptSummary'', 1),
     (''NormalInterruptSummary'', 1), (''TxDmaError'', 3), (''RxDmaError'', 3),
     (''Reserved22'', 10)]"

definition MtlTxOperationMode_t :: layout where
  "MtlTxOperationMode_t = [(''FlushTxQueue'', 1), (''StoreAndForward'', 1), (''QueueEnable'', 2),
     (''ThresholdControl'', 3), (''Reserved7'', 9), (''QueueSize'', 12), (''Reserved28'', 4)]"

definition MtlTxDebug_t :: layout where
  "MtlTxDebug_t = [(''Paused'', 1), (''ReadStatus'', 2), (''WriteStatus'', 1), (''NotEmpty'', 1),
     (''FifoFull'', 1), (''Reserved6'', 10), (''QueuePackets'', 3), (''Reserved19'', 1),
     (''QueueStatusWords'', 3), (''Reserved23'', 9)]"

definition MtlRxOperationMode_t :: layout where
  "MtlRxOperationMode_t = [(''ThresholdControl'', 2), (''Reserved2'', 1), (''ForwardUndersizedGoodPackets'', 1),
     (''ForwardErrorPackets'', 1), (''StoreAndForward'', 1),
     (''DisableDropTcpChecksumError'', 1), (''HardwareFlowControl'', 1),
     (''FlowControlActivate'', 6), (''FlowControlDeactivate'', 6), (''QueueSize'', 12)]"

definition MacAddressHigh_t :: layout where
  "MacAddressHigh_t = [(''Addr4'', 8), (''Addr5'', 8), (''DmaChannelSelect'', 8), (''MaskByteControl'', 6),
     (''SourceAddress'', 1), (''AddressEnable'', 1)]"

definition MacAddressLow_t :: layout where
  "MacAddressLow_t = [(''Addr0'', 8), (''Addr1'', 8), (''Addr2'', 8), (''Addr3'', 8)]"

definition MacConfiguration_t :: layout where
  "MacConfiguration_t = [(''ReceiverEnable'', 1), (''TransmitterEnable'', 1), (''PreambleLength'', 2),
     (''DeferralCheck'', 1), (''BackOffLimit'', 2), (''Reserved7'', 1), (''DisableRetry'', 1),
     (''DisableCarrierSenseDuringTransmit'', 1), (''DisableReceiveOwn'', 1),
     (''EnableCarrierSenseBeforeTransmit'', 1), (''LoopbackMode'', 1), (''FullDuplex'', 1),
     (''PortSelectSpeed'', 2), (''JumboPacketEnable'', 1), (''JabberDisable'', 1),
     (''PacketBurstEnable'', 1), (''WatchdogDisable'', 1), (''PadOrCrcStripEnable'', 1),
     (''CrcStripEnableForType'', 1), (''Support2kPackets'', 1),
     (''GiantPacketSizeLimitControlEnable'', 1), (''InterPacketGap'', 3),
     (''ChecksumOffloadEnable'', 1), (''SourceAddrInsertionControl'', 3),
     (''ArpOffloadEnable'', 1)]"

definition MacExtConfiguration_t :: layout where
  "MacExtConfiguration_t = [(''GiantPacketSizeLimit'', 14), (''Reserved14'', 2), (''DisableCrcCheckRx'', 1),
     (''SlowProtocolDetect'', 1), (''UnicastSlowProtocolPacketDetect'', 1), (''Reserved19'', 1),
     (''HeaderSplitMaxSize'', 3), (''Reserved23'', 1), (''ExtendedIpgEnable'', 1),
     (''ExtendedIpg'', 5), (''Reserved30'', 2)]"

definition MacPacketFilter_t :: layout where
  "MacPacketFilter_t = [(''PromiscuousMode'', 1), (''HashUnicast'', 1), (''HashMulticast'', 1),
     (''DestInverseFilter'', 1), (''PassAllMulticast'', 1), (''DisableBroadcast'', 1),
     (''PassControl'', 2), (''SourceInverseFilter'', 1), (''SourceFilter'', 1),
     (''HashPerfectFilter'', 1), (''Reserved11'', 5), (''VlanTagFilter'', 1),
     (''Reserved17'', 3), (''L3L4Filter'', 1), (''DropNonTcpUdp'', 1), (''Reserved22'', 9),
     (''ReceiveAll'', 1)]"

definition MacVlanTagCtrl_t :: layout where
  "MacVlanTagCtrl_t = [(''OperationBusy'', 1), (''CommandType'', 1), (''Offset'', 5), (''Reserved7'', 1),
     (''Reserved8'', 8), (''Reserved16'', 1), (''InverseMatchEnable'', 1), (''SvlanEnable'', 1),
     (''Reserved19'', 2), (''StripOnReceive'', 2), (''Reserved23'', 1), (''RxStatusEnable'', 1),
     (''HashTableMatchEnable'', 1), (''DoubleVlanEnable'', 1), (''InnerEnable'', 1),
     (''InnerStripOnReceive'', 2), (''Reserved30'', 1), (''InnerRxStatusEnable'', 1)]"

definition MacVlanIncl_t :: layout where
  "MacVlanIncl_t = [(''VlanTagTx'', 16), (''VlanControl'', 2), (''VlanControlPriority'', 1), (''VlanS'', 1),
     (''VlanInput'', 1), (''VLanChannelInsertion'', 1), (''Reserved22'', 2), (''Addr'', 6),
     (''ReadWriteControl'', 1), (''Busy'', 1)]"

definition MacInterruptStatus_t :: layout where
  "MacInterruptStatus_t = [(''LinkStatus'', 1), (''Reserved1'', 2), (''Phy'', 1), (''Pmt'', 1), (''Lpi'', 1),
     (''Reserved6'', 2), (''Mmc'', 1), (''MmcRx'', 1), (''MmcTx'', 1), (''MmcRxChecksum'', 1),
     (''Timestamp'', 1), (''Tx'', 1), (''Rx'', 1), (''Reserved15'', 2),
     (''FramePreemption'', 1), (''Mdio'', 1), (''MmcFpeTx'', 1), (''MmcFpeRx'', 1),
     (''Reserved21'', 11)]"

definition MacInterruptEnable_t :: layout where
  "MacInterruptEnable_t = [(''LinkStatus'', 1), (''Reserved1'', 2), (''Phy'', 1), (''Pmt'', 1), (''Lpi'', 1),
     (''Reserved6'', 6), (''Timestamp'', 1), (''Tx'', 1), (''Rx'', 1), (''Reserved15'', 2),
     (''FramePreemption'', 1), (''Mdio'', 1), (''Reserved19'', 13)]"

definition MacPhyIfControlStatus_t :: layout where
  "MacPhyIfControlStatus_t = [(''TransmitConfig'', 1), (''LinkUpDuringConfig'', 1), (''Reserved2'', 14),
     (''FullDuplex'', 1), (''Speed'', 2), (''LinkUp'', 1), (''Reserved20'', 12)]"

definition MacLpiControlStatus_t :: layout where
  "MacLpiControlStatus_t = [(''TransmitLpiEntry'', 1), (''TransmitLpiExit'', 1), (''ReceiveLpiEntry'', 1),
     (''ReceiveLpiExit'', 1), (''Reserved4'', 4), (''TransmitLpiState'', 1),
     (''ReceiveLpiState'', 1), (''Reserved10'', 6), (''LpiEnable'', 1), (''PhyLinkStatus'', 1),
     (''PhyLinkStatusEnable'', 1), (''LpTxAutomate'', 1), (''LpiTimerEnable'', 1),
     (''LpiTxClockStopEnable'', 1), (''Reserved22'', 10)]"

definition MacVersion_t :: layout where
  "MacVersion_t = [(''RkVer'', 8), (''UserVer'', 8), (''Reserved'', 16)]"

definition MacHwFeature0_t :: layout where
  "MacHwFeature0_t = [(''Mii'', 1), (''Gmii'', 1), (''HalfDuplex'', 1), (''PcsSel'', 1), (''VlanHash'', 1),
     (''Mdio'', 1), (''RemoteWake'', 1), (''MagicPacket'', 1), (''ManagementCounters'', 1),
     (''ArpOffload'', 1), (''Reserved10'', 2), (''Timestamp'', 1), (''EnergyEfficient'', 1),
     (''TxChecksumOffload'', 1), (''Reserved15'', 1), (''RxChecksumOffload'', 1),
     (''Reserved17'', 1), (''MacAddrCount'', 7), (''TimestampSource'', 2), (''SaVlanIns'', 1),
     (''ActivePhy'', 4)]"

definition MacHwFeature1_t :: layout where
  "MacHwFeature1_t = [(''RxFifoSize'', 5), (''SinglePortRam'', 1), (''TxFifoSize'', 5), (''OsTen'', 1),
     (''PtpOff'', 1), (''AdvTHword'', 1), (''AddressWidth'', 2), (''DcbEn'', 1),
     (''SplitHeader'', 1), (''TsoEn'', 1), (''DmaDebug'', 1), (''AvSel'', 1), (''RavSel'', 1),
     (''Reserved22'', 1), (''PtpOneStep'', 1), (''HashTableSize'', 2), (''Reserved26'', 1),
     (''L3L4Filters'', 4), (''Reserved31'', 1)]"

definition MacHwFeature2_t :: layout where
  "MacHwFeature2_t = [(''RxQCnt'', 4), (''Reserved4'', 2), (''TxQCnt'', 4), (''Reserved10'', 2),
     (''RxChCnt'', 4), (''Reserved16'', 2), (''TxChCnt'', 4), (''Reserved22'', 2),
     (''PpsOutputs'', 3), (''Reserved27'', 1), (''AuxSnapNum'', 3), (''Reserved31'', 1)]"

definition MacHwFeature3_t :: layout where
  "MacHwFeature3_t = [(''ExtendedVlanTagFilters'', 3), (''Reserved3'', 1), (''ChannelVlanTx'', 1),
     (''DoubleVlanTag'', 1), (''Reserved6'', 3), (''PacketDuplication'', 1),
     (''FlexibleReceiveParser'', 1), (''FlexibleReceiveBufferSize'', 2),
     (''FlexibleReceiveEntries'', 2), (''Reserved15'', 1), (''EnhancedScheduling'', 1),
     (''GateControlDepth'', 3), (''GateControlTime'', 2), (''Reserved22'', 4),
     (''FramePreemption'', 1), (''TimeBasedScheduling'', 1), (''AutomotiveSafety'', 2),
     (''Reserved31'', 2)]"

definition DmaSysBusMode_t :: layout where
  "DmaSysBusMode_t = [(''FixedBurst'', 1), (''BurstLengths'', 7), (''Reserved4'', 2), (''AutoAxiLpi'', 1),
     (''EnhancedAddressMode'', 1), (''AddressAlignedBeats'', 1), (''Reserved13'', 1),
     (''Reserved14'', 1), (''Reserved15'', 1), (''AxiMaxReadOutstanding'', 4),
     (''Reserved20'', 4), (''AxiMaxWriteOutstanding'', 4), (''Reserved28'', 2),
     (''UnlockOnPacket'', 1), (''EnableLpi'', 1)]"

definition MacTxFlowCtrl_t :: layout where
  "MacTxFlowCtrl_t = [(''FlowControlBusyActivate'', 1), (''TransmitFlowControlEnable'', 1), (''Reserved2'', 2),
     (''PauseLowThreshold'', 3), (''DisableZeroQuantaPause'', 1), (''Reserved8'', 8),
     (''PauseTime'', 16)]"

definition MacWatchdogTimeout_t :: layout where
  "MacWatchdogTimeout_t = [(''WatchdogTimeout'', 8), (''ProgrammableWatchdogEnable'', 1), (''Reserved9'', 7),
     (''Reserved16'', 8), (''Reserved24'', 8)]"

section \<open>Every union fills its storage unit\<close>

interpretation channelDmaControl: bitfields ChannelDmaControl_t "TYPE(32)"
  by unfold_locales (simp_all add: ChannelDmaControl_t_def)

interpretation channelTxControl: bitfields ChannelTxControl_t "TYPE(32)"
  by unfold_locales (simp_all add: ChannelTxControl_t_def)

interpretation channelRxControl: bitfields ChannelRxControl_t "TYPE(32)"
  by unfold_locales (simp_all add: ChannelRxControl_t_def)

interpretation channelInterruptEnable: bitfields ChannelInterruptEnable_t "TYPE(32)"
  by unfold_locales (simp_all add: ChannelInterruptEnable_t_def)

interpretation channelStatus: bitfields ChannelStatus_t "TYPE(32)"
  by unfold_locales (simp_all add: ChannelStatus_t_def)

interpretation mtlTxOperationMode: bitfields MtlTxOperationMode_t "TYPE(32)"
  by unfold_locales (simp_all add: MtlTxOperationMode_t_def)

interpretation mtlTxDebug: bitfields MtlTxDebug_t "TYPE(32)"
  by unfold_locales (simp_all add: MtlTxDebug_t_def)

interpretation mtlRxOperationMode: bitfields MtlRxOperationMode_t "TYPE(32)"
  by unfold_locales (simp_all add: MtlRxOperationMode_t_def)

interpretation macAddressHigh: bitfields MacAddressHigh_t "TYPE(32)"
  by unfold_locales (simp_all add: MacAddressHigh_t_def)

interpretation macAddressLow: bitfields MacAddressLow_t "TYPE(32)"
  by unfold_locales (simp_all add: MacAddressLow_t_def)

interpretation macConfiguration: bitfields MacConfiguration_t "TYPE(32)"
  by unfold_locales (simp_all add: MacConfiguration_t_def)

interpretation macExtConfiguration: bitfields MacExtConfiguration_t "TYPE(32)"
  by unfold_locales (simp_all add: MacExtConfiguration_t_def)

interpretation macPacketFilter: bitfields MacPacketFilter_t "TYPE(32)"
  by unfold_locales (simp_all add: MacPacketFilter_t_def)

interpretation macVlanTagCtrl: bitfields MacVlanTagCtrl_t "TYPE(32)"
  by unfold_locales (simp_all add: MacVlanTagCtrl_t_def)

interpretation macVlanIncl: bitfields MacVlanIncl_t "TYPE(32)"
  by unfold_locales (simp_all add: MacVlanIncl_t_def)

interpretation macInterruptStatus: bitfields MacInterruptStatus_t "TYPE(32)"
  by unfold_locales (simp_all add: MacInterruptStatus_t_def)

interpretation macInterruptEnable: bitfields MacInterruptEnable_t "TYPE(32)"
  by unfold_locales (simp_all add: MacInterruptEnable_t_def)

interpretation macPhyIfControlStatus: bitfields MacPhyIfControlStatus_t "TYPE(32)"
  by unfold_locales (simp_all add: MacPhyIfControlStatus_t_def)

interpretation macLpiControlStatus: bitfields MacLpiControlStatus_t "TYPE(32)"
  by unfold_locales (simp_all add: MacLpiControlStatus_t_def)

interpretation macVersion: bitfields MacVersion_t "TYPE(32)"
  by unfold_locales (simp_all add: MacVersion_t_def)

interpretation macHwFeature0: bitfields MacHwFeature0_t "TYPE(32)"
  by unfold_locales (simp_all add: MacHwFeature0_t_def)

interpretation macHwFeature1: bitfields MacHwFeature1_t "TYPE(32)"
  by unfold_locales (simp_all add: MacHwFeature1_t_def)

interpretation macHwFeature2: bitfields MacHwFeature2_t "TYPE(32)"
  by unfold_locales (simp_all add: MacHwFeature2_t_def)

interpretation macHwFeature3: bitfields MacHwFeature3_t "TYPE(32)"
  by unfold_locales (simp_all add: MacHwFeature3_t_def)

interpretation dmaSysBusMode: bitfields DmaSysBusMode_t "TYPE(32)"
  by unfold_locales (simp_all add: DmaSysBusMode_t_def)

interpretation macTxFlowCtrl: bitfields MacTxFlowCtrl_t "TYPE(32)"
  by unfold_locales (simp_all add: MacTxFlowCtrl_t_def)

interpretation macWatchdogTimeout: bitfields MacWatchdogTimeout_t "TYPE(32)"
  by unfold_locales (simp_all add: MacWatchdogTimeout_t_def)

section \<open>Registers and access\<close>

text \<open>
  The registers of \<open>MacRegisters\<close>, \<open>ChannelRegisters\<close> (channel 0) and \<open>MtlQueueRegisters\<close>
  (queue 0) that the driver reads or writes. \<open>Mac_Address_High i\<close> is
  \<open>regs->Mac_Address[i].High\<close>.
\<close>

datatype reg =
    Mac_Configuration | Mac_Ext_Configuration | Mac_Packet_Filter | Mac_Watchdog_Timeout
  | Mac_Vlan_Tag_Ctrl | Mac_Vlan_Incl | Mac_Tx_Flow_Ctrl | Mac_Rx_Flow_Ctrl | Mac_RxQ_Ctrl0
  | Mac_Interrupt_Status | Mac_Interrupt_Enable | Mac_PhyIf_Control_Status | Mac_1us_Tic_Counter
  | Mac_Address_High u32 | Mac_Address_Low u32
  | Mmc_Rx_Interrupt_Mask | Mmc_Tx_Interrupt_Mask | Mmc_Ipc_Rx_Interrupt_Mask
  | Mmc_Fpe_Tx_Interrupt_Mask | Mmc_Fpe_Rx_Interrupt_Mask
  | Mtl_Tx_Operation_Mode | Mtl_Rx_Operation_Mode | Mtl_Tx_Debug
  | Dma_Mode | Dma_SysBus_Mode | Axi_Lpi_Entry_Interval
  | Ch_Control | Ch_Tx_Control | Ch_Rx_Control | Ch_Status | Ch_Interrupt_Enable
  | TxDesc_List_Address_Hi | TxDesc_List_Address | TxDesc_Ring_Length | TxDesc_Tail_Pointer
  | RxDesc_List_Address_Hi | RxDesc_List_Address | RxDesc_Ring_Length | RxDesc_Tail_Pointer
  | Current_App_TxDesc | Current_App_RxDesc

text \<open>
  Registers that hold what was last written are read from \<open>regs\<close>; a register the device changes by
  itself (status, debug, current-descriptor registers) is an argument of the operation that reads it.
\<close>

record mmio =
  regs :: "reg \<Rightarrow> u32"
  wlog :: "(reg \<times> u32) list"

definition Write32 :: "reg \<Rightarrow> u32 \<Rightarrow> mmio \<Rightarrow> mmio" where
  "Write32 r v m = m\<lparr>regs := (regs m)(r := v), wlog := wlog m @ [(r, v)]\<rparr>"

definition Read32 :: "reg \<Rightarrow> mmio \<Rightarrow> u32" where
  "Read32 r m = regs m r"

lemma Read32_Write32 [simp]: "Read32 r (Write32 s v m) = (if r = s then v else Read32 r m)"
  by (simp add: Read32_def Write32_def)

lemma wlog_Write32 [simp]: "wlog (Write32 r v m) = wlog m @ [(r, v)]"
  by (simp add: Write32_def)

lemma regs_Write32 [simp]: "regs (Write32 r v m) = (regs m)(r := v)"
  by (simp add: Write32_def)

end
