(* ===== verification/EqosDescriptors.thy ===== *)
theory EqosDescriptors imports Prelude begin

text \<open>
  DMA descriptors (src/drivers/net/dwc_eqos/descriptors.h). A descriptor slot's first 16 bytes are
  one 128-bit word; each view of the unions \<open>TxDescriptor\<close> and \<open>RxDescriptor\<close> is a layout of those
  bits, so that writing one view and reading another is the aliasing of the C++ union. The layouts
  are those of the release build (\<open>DBG\<close> undefined): the debug members after the 16 bytes carry
  indices that only assertions read.
\<close>

section \<open>Descriptor views\<close>

definition TxDescriptorRead :: layout where
  "TxDescriptorRead = [(''Buf1Ap'', 32), (''Buf2Ap'', 32), (''Buf1Length'', 14), (''VlanTagControl'', 2),
     (''Buf2Length'', 14), (''TransmitTimestampEnable'', 1), (''InterruptOnCompletion'', 1),
     (''FrameLength'', 16), (''ChecksumInsertion'', 2), (''TcpSegmentationEnable'', 1),
     (''SlotNumber'', 4), (''SourceAddressInsertionControl'', 3), (''CrcPadControl'', 2),
     (''LastDescriptor'', 1), (''FirstDescriptor'', 1), (''ContextType'', 1), (''Own'', 1)]"

definition TxDescriptorReadTso :: layout where
  "TxDescriptorReadTso = [(''Buf1Ap'', 32), (''Buf2Ap'', 32), (''Buf1Length'', 14), (''VlanTagControl'', 2),
     (''Buf2Length'', 14), (''TsoMemoryWriteDisable'', 1), (''InterruptOnCompletion'', 1),
     (''TcpPayloadLength'', 18), (''TcpSegmentationEnable'', 1), (''TcpHeaderLength'', 4),
     (''SourceAddressInsertionControl'', 3), (''Reserved26'', 2), (''LastDescriptor'', 1),
     (''FirstDescriptor'', 1), (''ContextType'', 1), (''Own'', 1)]"

definition TxDescriptorWrite :: layout where
  "TxDescriptorWrite = [(''TimestampLow'', 32), (''TimestampHigh'', 32), (''Reserved'', 32),
     (''IpHeaderError'', 1), (''DeferredBit'', 1), (''UnderflowError'', 1),
     (''ExcessiveDeferral'', 1), (''CollisionCount'', 4), (''ExcessiveCollision'', 1),
     (''LateCollision'', 1), (''NoCarrier'', 1), (''LossOfCarrier'', 1),
     (''PayloadChecksumError'', 1), (''PacketFlushed'', 1), (''JabberTimeout'', 1),
     (''ErrorSummary'', 1), (''EccUncorrectableError'', 1), (''TimestampStatus'', 1),
     (''Reserved18'', 5), (''DescriptorError'', 1), (''Reserved24'', 4),
     (''LastDescriptor'', 1), (''FirstDescriptor'', 1), (''ContextType'', 1), (''Own'', 1)]"

definition TxDescriptorContext :: layout where
  "TxDescriptorContext = [(''TimestampLow'', 32), (''TimestampHigh'', 32), (''MaximumSegmentSize'', 14),
     (''Reserved14'', 2), (''InnerVlanTag'', 16), (''VlanTag'', 16), (''VlanTagValid'', 1),
     (''InnerVlanTagValid'', 1), (''InnerVlanTagControl'', 2), (''Reserved20'', 3),
     (''DescriptorError'', 1), (''Reserved24'', 2), (''OneStepInputOrMssValid'', 1),
     (''OneStepEnable'', 1), (''Reserved28'', 2), (''ContextType'', 1), (''Own'', 1)]"

definition RxDescriptorRead :: layout where
  "RxDescriptorRead = [(''Buf1ApLow'', 32), (''Buf1ApHigh'', 32), (''Buf2Ap'', 32), (''Reserved0'', 16),
     (''Reserved16'', 8), (''Buf1Valid'', 1), (''Buf2Valid'', 1), (''Reserved26'', 4),
     (''InterruptOnCompletion'', 1), (''Own'', 1)]"

definition RxDescriptorWrite :: layout where
  "RxDescriptorWrite = [(''OuterVlanTag'', 16), (''InnerVlanTag'', 16), (''PayloadType'', 3),
     (''IPHeaderError'', 1), (''IPv4HeaderPresent'', 1), (''IPv6HeaderPresent'', 1),
     (''IPChecksumBypassed'', 1), (''IPPayloadError'', 1), (''PtpMessageType'', 4),
     (''PtpPacketType'', 1), (''PtpVersion'', 1), (''TimestampAvailable'', 1),
     (''TimestampDropped'', 1), (''OamSubtype'', 16), (''L3L4HeaderLength'', 10),
     (''ArpReplyNotGenerated'', 1), (''Reserved11'', 3), (''InnerVlanTagStatus'', 1),
     (''VlanFilterStatus'', 1), (''SourceFilterFail'', 1), (''DestinationFilterFail'', 1),
     (''HashFilterStatus'', 1), (''MacAddressMatchHashValue'', 8), (''L3FilterMatch'', 1),
     (''L4FilterMatch'', 1), (''L3L4FilterNumber'', 3), (''PacketLength'', 15),
     (''ErrorSummary'', 1), (''LengthType'', 3), (''DribbleBitError'', 1),
     (''ReceiveError'', 1), (''OverflowError'', 1), (''ReceiveWatchdogTimeout'', 1),
     (''GiantPacket'', 1), (''CrcError'', 1), (''Rdes0Valid'', 1), (''Rdes1Valid'', 1),
     (''Rdes2Valid'', 1), (''LastDescriptor'', 1), (''FirstDescriptor'', 1),
     (''ContextType'', 1), (''Own'', 1)]"

definition RxDescriptorContext :: layout where
  "RxDescriptorContext = [(''TimestampLow'', 32), (''TimestampHigh'', 32), (''Reserved2'', 32), (''Reserved3a'', 16),
     (''Reserved3b'', 8), (''Reserved3c'', 5), (''DescriptorError'', 1), (''ContextType'', 1),
     (''Own'', 1)]"

section \<open>Every view fills its 128 bits\<close>

interpretation txDescriptorRead: bitfields TxDescriptorRead "TYPE(128)"
  by unfold_locales (simp_all add: TxDescriptorRead_def)

interpretation txDescriptorReadTso: bitfields TxDescriptorReadTso "TYPE(128)"
  by unfold_locales (simp_all add: TxDescriptorReadTso_def)

interpretation txDescriptorWrite: bitfields TxDescriptorWrite "TYPE(128)"
  by unfold_locales (simp_all add: TxDescriptorWrite_def)

interpretation txDescriptorContext: bitfields TxDescriptorContext "TYPE(128)"
  by unfold_locales (simp_all add: TxDescriptorContext_def)

interpretation rxDescriptorRead: bitfields RxDescriptorRead "TYPE(128)"
  by unfold_locales (simp_all add: RxDescriptorRead_def)

interpretation rxDescriptorWrite: bitfields RxDescriptorWrite "TYPE(128)"
  by unfold_locales (simp_all add: RxDescriptorWrite_def)

interpretation rxDescriptorContext: bitfields RxDescriptorContext "TYPE(128)"
  by unfold_locales (simp_all add: RxDescriptorContext_def)


text \<open>The enumerations stored in descriptor members.\<close>

definition TxChecksumInsertionDisabled :: u128 where "TxChecksumInsertionDisabled = 0"
definition TxChecksumInsertionEnabledHeaderOnly :: u128 where "TxChecksumInsertionEnabledHeaderOnly = 1"
definition TxChecksumInsertionEnabledIncludingPseudo :: u128 where "TxChecksumInsertionEnabledIncludingPseudo = 3"
definition TxVlanTagControlNone :: u128 where "TxVlanTagControlNone = 0"
definition TxVlanTagControlInsert :: u128 where "TxVlanTagControlInsert = 2"
definition RxPayloadTypeUdp :: u128 where "RxPayloadTypeUdp = 1"
definition RxPayloadTypeTcp :: u128 where "RxPayloadTypeTcp = 2"

section \<open>Where the views agree\<close>

text \<open>
  The ownership bit and the descriptor-kind bits sit at the same place in the view software writes
  and in the view the device writes back: what the driver stores through one it can test through
  the other.
\<close>

lemma own_position:
  "member TxDescriptorRead ''Own'' = (127, 1)" "member TxDescriptorReadTso ''Own'' = (127, 1)"
  "member TxDescriptorWrite ''Own'' = (127, 1)" "member TxDescriptorContext ''Own'' = (127, 1)"
  "member RxDescriptorRead ''Own'' = (127, 1)" "member RxDescriptorWrite ''Own'' = (127, 1)"
  by (simp_all add: TxDescriptorRead_def TxDescriptorReadTso_def TxDescriptorWrite_def
      TxDescriptorContext_def RxDescriptorRead_def RxDescriptorWrite_def)

lemma context_position:
  "member TxDescriptorRead ''ContextType'' = (126, 1)" "member TxDescriptorReadTso ''ContextType'' = (126, 1)"
  "member TxDescriptorWrite ''ContextType'' = (126, 1)" "member TxDescriptorContext ''ContextType'' = (126, 1)"
  by (simp_all add: TxDescriptorRead_def TxDescriptorReadTso_def TxDescriptorWrite_def
      TxDescriptorContext_def)

lemma last_position:
  "member TxDescriptorRead ''LastDescriptor'' = (124, 1)"
  "member TxDescriptorReadTso ''LastDescriptor'' = (124, 1)"
  "member TxDescriptorWrite ''LastDescriptor'' = (124, 1)"
  by (simp_all add: TxDescriptorRead_def TxDescriptorReadTso_def TxDescriptorWrite_def)

lemma isset_same_member: "member L f = member L' f' \<Longrightarrow> isset L f = isset L' f'"
  by (rule ext) (simp add: isset_def getf_def)

lemma tx_write_view_own:
  "isset TxDescriptorWrite ''Own'' d = isset TxDescriptorRead ''Own'' d"
  "isset TxDescriptorWrite ''Own'' d = isset TxDescriptorReadTso ''Own'' d"
  "isset TxDescriptorWrite ''Own'' d = isset TxDescriptorContext ''Own'' d"
  by (simp_all add: isset_def getf_def own_position)

lemma rx_write_view_own:
  "isset RxDescriptorWrite ''Own'' d = isset RxDescriptorRead ''Own'' d"
  by (simp add: isset_def getf_def own_position)

end
