(* ===== verification/NetRings.thy ===== *)
theory NetRings imports Prelude begin

text \<open>
  What the queues use of NetAdapterCx: the rings of packets and fragments the framework shares with
  the driver, and the packet and fragment data. NetAdapterCx is not part of the repository: its index
  functions are parameters (\<open>net_api\<close>), and the locale \<open>net_rings\<close> states what the driver relies on,
  the documented behaviour of \<open>NetRingIncrementIndex\<close> and \<open>NetRingAdvanceIndex\<close>.
\<close>

section \<open>Shared rings and packet data\<close>

record NET_RING =
  NumberOfElements :: u32
  BeginIndex :: u32
  NextIndex :: u32
  EndIndex :: u32

datatype layer2_type = Layer2Unspecified | Layer2Ethernet
datatype layer3_type = Layer3Unspecified | IPv4UnspecifiedOptions | IPv6UnspecifiedExtensions
datatype layer4_type = Layer4Unspecified | Layer4Tcp | Layer4Udp

record NET_PACKET_LAYOUT =
  Layer2Type :: layer2_type
  Layer2HeaderLength :: u16
  Layer3Type :: layer3_type
  Layer3HeaderLength :: u16
  Layer4Type :: layer4_type
  Layer4HeaderLength :: u16

definition empty_layout :: NET_PACKET_LAYOUT where
  "empty_layout = \<lparr>Layer2Type = Layer2Unspecified, Layer2HeaderLength = 0,
     Layer3Type = Layer3Unspecified, Layer3HeaderLength = 0,
     Layer4Type = Layer4Unspecified, Layer4HeaderLength = 0\<rparr>"

record NET_PACKET =
  FragmentIndex :: u32
  FragmentCount :: u16
  Ignore :: bool
  Layout :: NET_PACKET_LAYOUT

text \<open>
  The 802.1Q extension; \<open>TxPriorityRequired\<close> and \<open>TxVlanRequired\<close> say whether the two action flags
  are set in \<open>TxTagging\<close>.
\<close>

record NET_PACKET_IEEE8021Q =
  PriorityCodePoint :: u16
  VlanIdentifier :: u16
  TxPriorityRequired :: bool
  TxVlanRequired :: bool

section \<open>The framework's index functions\<close>

text \<open>
  \<open>vlan_member\<close> is what the framework's type of \<open>VlanIdentifier\<close> keeps of a 16-bit value stored in it.
\<close>

record net_api =
  NetRingIncrementIndex :: "NET_RING \<Rightarrow> u32 \<Rightarrow> u32"
  NetRingAdvanceIndex :: "NET_RING \<Rightarrow> u32 \<Rightarrow> u32 \<Rightarrow> u32"
  vlan_member :: "u16 \<Rightarrow> u16"

definition ring_size :: "NET_RING \<Rightarrow> nat" where
  "ring_size r = unat (NumberOfElements r)"

definition sized :: "NET_RING \<Rightarrow> bool" where
  "sized r \<longleftrightarrow> 0 < ring_size r"

text \<open>A ring whose three indices lie inside it.\<close>

definition ring_ok :: "NET_RING \<Rightarrow> bool" where
  "ring_ok r \<longleftrightarrow> unat (BeginIndex r) < ring_size r \<and> unat (NextIndex r) < ring_size r
     \<and> unat (EndIndex r) < ring_size r"

lemma ring_ok_sized: "ring_ok r \<Longrightarrow> sized r"
  by (auto simp: ring_ok_def sized_def)

locale net_rings = index_ring sized ring_size "NetRingIncrementIndex api" for api :: net_api +
  assumes advance: "sized r \<Longrightarrow> unat i < ring_size r
    \<Longrightarrow> NetRingAdvanceIndex api r i k = (NetRingIncrementIndex api r ^^ unat k) i"
begin

lemma inc_less: "sized r \<Longrightarrow> unat i < ring_size r \<Longrightarrow> unat (NetRingIncrementIndex api r i) < ring_size r"
  by (rule nxt_less)

lemma advance_less: "sized r \<Longrightarrow> unat i < ring_size r \<Longrightarrow> unat (NetRingAdvanceIndex api r i k) < ring_size r"
  by (simp add: advance iterate_less)

text \<open>The index functions look at the size of the ring only.\<close>

lemma iterate_same:
  assumes "sized r" "NumberOfElements s = NumberOfElements r" "unat i < ring_size r"
  shows "(NetRingIncrementIndex api s ^^ k) i = (NetRingIncrementIndex api r ^^ k) i"
proof -
  have s: "sized s" "ring_size s = ring_size r" using assms by (simp_all add: sized_def ring_size_def)
  then have "unat ((NetRingIncrementIndex api s ^^ k) i) = unat ((NetRingIncrementIndex api r ^^ k) i)"
    using iterate_mod [OF assms(1,3), of k] iterate_mod [of s i k] assms(3) by simp
  then show ?thesis by (simp add: word_unat_eq_iff)
qed

lemma walk_same:
  assumes "sized r" "NumberOfElements s = NumberOfElements r" "unat i < ring_size r"
  shows "walk (NetRingIncrementIndex api s) n i e = walk (NetRingIncrementIndex api r) n i e"
  by (simp add: walk_def iterate_same [OF assms])

end

text \<open>
  An implementation with the documented behaviour: the next index, back to 0 after the last one. It
  shows that the contract can be met, and the witnesses evaluate the driver with it.
\<close>

definition wrap_increment :: "NET_RING \<Rightarrow> u32 \<Rightarrow> u32" where
  "wrap_increment r i = (if unat i + 1 < unat (NumberOfElements r) then i + 1 else 0)"

definition wrap_api :: net_api where
  "wrap_api = \<lparr>NetRingIncrementIndex = wrap_increment,
               NetRingAdvanceIndex = (\<lambda>r i k. (wrap_increment r ^^ unat k) i),
               vlan_member = take_bit 12\<rparr>"

lemma wrap_increment_mod:
  "unat i < unat (NumberOfElements r) \<Longrightarrow> unat (wrap_increment r i) = Suc (unat i) mod unat (NumberOfElements r)"
proof -
  assume i: "unat i < unat (NumberOfElements r)"
  show ?thesis
  proof (cases "unat i + 1 < unat (NumberOfElements r)")
    case True
    moreover have "unat (NumberOfElements r) < 2 ^ LENGTH(32)" by (rule unsigned_less)
    ultimately have "unat i + 1 < 2 ^ 32" by simp
    then have "unat (i + 1) = Suc (unat i)" by (simp add: unat_word_ariths)
    with True show ?thesis by (simp add: wrap_increment_def)
  next
    case False
    with i have "Suc (unat i) = unat (NumberOfElements r)" by simp
    then show ?thesis using False by (simp add: wrap_increment_def)
  qed
qed

interpretation wrap: net_rings wrap_api
  by unfold_locales (auto simp: wrap_api_def sized_def ring_size_def wrap_increment_mod)

end
