(* ===== verification/TxQueue.thy ===== *)
theory TxQueue imports QueueCommon EqosRegisters EqosDescriptors NetRings begin

text \<open>
  The transmit queue (src/drivers/net/dwc_eqos/txqueue.cpp): its context, and every handler that
  changes it. The packet and fragment data the framework owns are the argument \<open>tx_view\<close>; loops that
  walk a ring are partial functions (\<open>None\<close> is a loop that does not end), and theory TxQueueProofs
  proves that they end.
\<close>

section \<open>State\<close>

record TxQueueContext =
  channelRegs :: mmio
  packetRing :: NET_RING
  fragmentRing :: NET_RING
  descVirtual :: desc_memory
  descPhysical :: u64
  descCount :: u32
  vlanId :: u16
  txPbl :: u8
  lastMss :: u16
  lastVlanTag :: u16
  descBegin :: u32
  descEnd :: u32

text \<open>
  What the queue reads of packets and fragments: \<open>frag_len\<close> is \<open>ValidLength\<close>, \<open>frag_addr\<close> the
  fragment's logical address, \<open>gso_mss\<close> the segment size of the GSO extension, and
  \<open>csum_l3\<close>/\<open>csum_l4\<close> whether the checksum extension asks for layer 3 or layer 4.
\<close>

record tx_view =
  pkt :: "u32 \<Rightarrow> NET_PACKET"
  frag_len :: "u32 \<Rightarrow> u64"
  frag_addr :: "u32 \<Rightarrow> u64"
  ieee8021Q :: "u32 \<Rightarrow> NET_PACKET_IEEE8021Q"
  gso_mss :: "u32 \<Rightarrow> u32"
  csum_l3 :: "u32 \<Rightarrow> bool"
  csum_l4 :: "u32 \<Rightarrow> bool"

definition LowPart :: "u64 \<Rightarrow> u32" where "LowPart a = ucast a"
definition HighPart :: "u64 \<Rightarrow> u32" where "HighPart a = ucast (drop_bit 32 a)"

text \<open>The limits txqueue.h advertises.\<close>

definition TxMaximumNumberOfFragments :: nat where
  "TxMaximumNumberOfFragments = unat QueueDescriptorMinCount - 3"

definition TxLayer4HeaderOffsetLimit :: nat where "TxLayer4HeaderOffsetLimit = 0x3FF"
definition TxMaximumOffloadSize :: nat where "TxMaximumOffloadSize = 0x3FFFF"

section \<open>Start\<close>

definition TxSetDescEnd :: "u32 \<Rightarrow> TxQueueContext \<Rightarrow> TxQueueContext" where
  "TxSetDescEnd index ctx =
     (let offset = index * QueueDescriptorSize
      in ctx\<lparr>channelRegs := Write32 TxDesc_Tail_Pointer (LowPart (descPhysical ctx) + offset) (channelRegs ctx),
             descEnd := index\<rparr>)"

definition tx_start_control :: "u8 \<Rightarrow> u32" where
  "tx_start_control pbl =
     putf ChannelTxControl_t ''TxPbl'' (ucast pbl)
      (putf ChannelTxControl_t ''TcpSegmentationMode'' 0
       (putf ChannelTxControl_t ''TcpSegmentation'' (flag True)
        (putf ChannelTxControl_t ''OperateOnSecondPacket'' (flag True)
         (putf ChannelTxControl_t ''Start'' (flag True) 0))))"

definition TxQueueStart :: "TxQueueContext \<Rightarrow> TxQueueContext" where
  "TxQueueStart ctx0 =
     (let ctx1 = ctx0\<lparr>lastMss := 0xFFFF, lastVlanTag := 0, descBegin := 0, descEnd := 0\<rparr>;
          io = Write32 TxDesc_Ring_Length (descCount ctx1 - 1)
                (Write32 TxDesc_List_Address (LowPart (descPhysical ctx1))
                  (Write32 TxDesc_List_Address_Hi (HighPart (descPhysical ctx1)) (channelRegs ctx1)));
          ctx2 = TxSetDescEnd (descEnd ctx1) (ctx1\<lparr>channelRegs := io\<rparr>)
      in ctx2\<lparr>channelRegs := Write32 Ch_Tx_Control (tx_start_control (txPbl ctx2)) (channelRegs ctx2)\<rparr>)"

section \<open>Advance: returning transmitted packets\<close>

partial_function (option) SkipIgnorePackets ::
    "net_api \<Rightarrow> tx_view \<Rightarrow> NET_RING \<Rightarrow> u32 \<Rightarrow> u32 \<Rightarrow> (u32 \<times> u32) option" where
  "SkipIgnorePackets api v ring pktIndex pktFragIndex =
     (if pktIndex = NextIndex ring then Some (pktIndex, pktFragIndex)
      else if \<not> Ignore (pkt v pktIndex) then Some (pktIndex, FragmentIndex (pkt v pktIndex))
      else SkipIgnorePackets api v ring (NetRingIncrementIndex api ring pktIndex) pktFragIndex)"

text \<open>
  The loop over the descriptors handed back by the adapter; the result is \<open>descIndex\<close>, \<open>pktIndex\<close>
  and \<open>pktFragIndex\<close> when it stops.
\<close>

partial_function (option) tx_reap ::
    "net_api \<Rightarrow> tx_view \<Rightarrow> TxQueueContext \<Rightarrow> u32 \<Rightarrow> u32 \<Rightarrow> u32 \<Rightarrow> (u32 \<times> u32 \<times> u32) option" where
  "tx_reap api v ctx descIndex pktIndex pktFragIndex =
     (if descIndex = descEnd ctx then Some (descIndex, pktIndex, pktFragIndex)
      else if isset TxDescriptorWrite ''Own'' (descVirtual ctx descIndex)
      then Some (descIndex, pktIndex, pktFragIndex)
      else if isset TxDescriptorWrite ''ContextType'' (descVirtual ctx descIndex)
      then tx_reap api v ctx (desc_next (descCount ctx) descIndex) pktIndex pktFragIndex
      else if isset TxDescriptorWrite ''LastDescriptor'' (descVirtual ctx descIndex)
      then Option.bind
             (SkipIgnorePackets api v (packetRing ctx)
               (NetRingIncrementIndex api (packetRing ctx) pktIndex)
               (NetRingAdvanceIndex api (fragmentRing ctx) (FragmentIndex (pkt v pktIndex))
                 (ucast (FragmentCount (pkt v pktIndex)))))
             (\<lambda>r. tx_reap api v ctx (desc_next (descCount ctx) descIndex) (fst r) (snd r))
      else tx_reap api v ctx (desc_next (descCount ctx) descIndex) pktIndex pktFragIndex)"

definition tx_indicate :: "net_api \<Rightarrow> tx_view \<Rightarrow> TxQueueContext \<Rightarrow> TxQueueContext option" where
  "tx_indicate api v ctx =
     Option.bind (SkipIgnorePackets api v (packetRing ctx) (BeginIndex (packetRing ctx))
                   (BeginIndex (fragmentRing ctx)))
       (\<lambda>(pktIndex, pktFragIndex).
          map_option (\<lambda>(descIndex, pktIndex, pktFragIndex).
              ctx\<lparr>packetRing := (packetRing ctx)\<lparr>BeginIndex := pktIndex\<rparr>,
                  fragmentRing := (fragmentRing ctx)\<lparr>BeginIndex := pktFragIndex\<rparr>,
                  descBegin := descIndex\<rparr>)
            (tx_reap api v ctx (descBegin ctx) pktIndex pktFragIndex))"

section \<open>Advance: descriptors of one packet\<close>

definition tx_vlan_tag :: "tx_view \<Rightarrow> TxQueueContext \<Rightarrow> u32 \<Rightarrow> u16" where
  "tx_vlan_tag v ctx pktIndex =
     (let q = ieee8021Q v pktIndex;
          prio = (if TxPriorityRequired q then PriorityCodePoint q else 0);
          vlan = (if TxVlanRequired q then VlanIdentifier q else vlanId ctx)
      in push_bit 13 prio OR vlan)"

definition tx_vlan_control :: "u16 \<Rightarrow> u128" where
  "tx_vlan_control tag = (if tag \<noteq> 0 then TxVlanTagControlInsert else TxVlanTagControlNone)"

definition tx_context_tag_needed :: "TxQueueContext \<Rightarrow> u16 \<Rightarrow> bool" where
  "tx_context_tag_needed ctx tag \<longleftrightarrow> tag \<noteq> 0 \<and> tag \<noteq> lastVlanTag ctx"

definition tx_checksum_insertion :: "tx_view \<Rightarrow> u32 \<Rightarrow> u128" where
  "tx_checksum_insertion v pktIndex =
     (if csum_l4 v pktIndex then TxChecksumInsertionEnabledIncludingPseudo
      else if csum_l3 v pktIndex then TxChecksumInsertionEnabledHeaderOnly
      else TxChecksumInsertionDisabled)"

text \<open>\<open>descVirtual[descIndex] = desc; descIndex = (descIndex + 1) & descMask\<close>.\<close>

definition tx_put :: "u128 \<Rightarrow> TxQueueContext \<times> u32 \<Rightarrow> TxQueueContext \<times> u32" where
  "tx_put desc s =
     (case s of (ctx, descIndex) \<Rightarrow>
        (ctx\<lparr>descVirtual := (descVirtual ctx)(descIndex := desc)\<rparr>, desc_next (descCount ctx) descIndex))"

text \<open>The descriptors the driver writes, member by member.\<close>

definition tx_desc_context_plain :: "u16 \<Rightarrow> u128" where
  "tx_desc_context_plain vlanTag =
     putf TxDescriptorContext ''Own'' (flag True)
      (putf TxDescriptorContext ''ContextType'' (flag True)
       (putf TxDescriptorContext ''VlanTagValid'' (flag True)
        (putf TxDescriptorContext ''VlanTag'' (ucast vlanTag) 0)))"

definition tx_desc_context_gso :: "u16 \<Rightarrow> u16 \<Rightarrow> bool \<Rightarrow> u128" where
  "tx_desc_context_gso mss vlanTag contextTagNeeded =
     putf TxDescriptorContext ''Own'' (flag True)
      (putf TxDescriptorContext ''ContextType'' (flag True)
       (putf TxDescriptorContext ''OneStepInputOrMssValid'' (flag True)
        (putf TxDescriptorContext ''VlanTagValid'' (flag contextTagNeeded)
         (putf TxDescriptorContext ''VlanTag'' (ucast vlanTag)
          (putf TxDescriptorContext ''MaximumSegmentSize'' (ucast mss) 0)))))"

definition tx_desc_tso :: "u64 \<Rightarrow> u16 \<Rightarrow> u128 \<Rightarrow> u32 \<Rightarrow> u16 \<Rightarrow> u128" where
  "tx_desc_tso addr headerLength vlanTagControl payloadLength l4HeaderLength =
     putf TxDescriptorReadTso ''Own'' (flag True)
      (putf TxDescriptorReadTso ''FirstDescriptor'' (flag True)
       (putf TxDescriptorReadTso ''TcpHeaderLength'' (ucast (l4HeaderLength div 4))
        (putf TxDescriptorReadTso ''TcpSegmentationEnable'' (flag True)
         (putf TxDescriptorReadTso ''TcpPayloadLength'' (ucast payloadLength)
          (putf TxDescriptorReadTso ''VlanTagControl'' vlanTagControl
           (putf TxDescriptorReadTso ''Buf1Length'' (ucast headerLength)
            (putf TxDescriptorReadTso ''Buf2Ap'' (ucast (drop_bit 32 addr))
             (putf TxDescriptorReadTso ''Buf1Ap'' (ucast addr) 0))))))))"

definition tx_desc_payload :: "u64 \<Rightarrow> u32 \<Rightarrow> u128 \<Rightarrow> bool \<Rightarrow> u128" where
  "tx_desc_payload addr bufLength vlanTagControl lastDesc =
     putf TxDescriptorRead ''Own'' (flag True)
      (putf TxDescriptorRead ''FirstDescriptor'' (flag False)
       (putf TxDescriptorRead ''LastDescriptor'' (flag lastDesc)
        (putf TxDescriptorRead ''InterruptOnCompletion'' (flag lastDesc)
         (putf TxDescriptorRead ''VlanTagControl'' vlanTagControl
          (putf TxDescriptorRead ''Buf1Length'' (ucast bufLength)
           (putf TxDescriptorRead ''Buf2Ap'' (ucast (drop_bit 32 addr))
            (putf TxDescriptorRead ''Buf1Ap'' (ucast addr) 0)))))))"

definition tx_desc_plain :: "u64 \<Rightarrow> u64 \<Rightarrow> u128 \<Rightarrow> u16 \<Rightarrow> u128 \<Rightarrow> bool \<Rightarrow> bool \<Rightarrow> u128" where
  "tx_desc_plain addr validLength vlanTagControl frameLength checksumInsertion firstDesc lastDesc =
     putf TxDescriptorRead ''Own'' (flag True)
      (putf TxDescriptorRead ''FirstDescriptor'' (flag firstDesc)
       (putf TxDescriptorRead ''LastDescriptor'' (flag lastDesc)
        (putf TxDescriptorRead ''ChecksumInsertion'' checksumInsertion
         (putf TxDescriptorRead ''FrameLength'' (ucast frameLength)
          (putf TxDescriptorRead ''InterruptOnCompletion'' (flag lastDesc)
           (putf TxDescriptorRead ''VlanTagControl'' vlanTagControl
            (putf TxDescriptorRead ''Buf1Length'' (ucast validLength)
             (putf TxDescriptorRead ''Buf2Ap'' (ucast (drop_bit 32 addr))
              (putf TxDescriptorRead ''Buf1Ap'' (ucast addr) 0)))))))))"

subsection \<open>Segmentation offload disabled\<close>

text \<open>The sum of the fragment lengths; \<open>i\<close> counts the fragments left.\<close>

fun tx_frame_length :: "net_api \<Rightarrow> tx_view \<Rightarrow> NET_RING \<Rightarrow> nat \<Rightarrow> u32 \<Rightarrow> u32 \<Rightarrow> u32" where
  "tx_frame_length api v ring 0 fragIndex frameLength = frameLength"
| "tx_frame_length api v ring (Suc i) fragIndex frameLength =
     tx_frame_length api v ring i (NetRingIncrementIndex api ring fragIndex)
       (frameLength + ucast (frag_len v fragIndex))"

text \<open>
  \<open>for (i = 0; i != fragmentCount; i += 1)\<close>: one descriptor per fragment.
\<close>

function tx_plain_frags :: "net_api \<Rightarrow> tx_view \<Rightarrow> u128 \<Rightarrow> u128 \<Rightarrow> u32 \<Rightarrow> u32 \<Rightarrow> u32 \<Rightarrow> u32
    \<Rightarrow> TxQueueContext \<times> u32 \<Rightarrow> TxQueueContext \<times> u32" where
  "tx_plain_frags api v vtc csum frameLength fragmentCount i fragIndex s =
     (if i = fragmentCount then s
      else tx_plain_frags api v vtc csum frameLength fragmentCount (i + 1)
             (NetRingIncrementIndex api (fragmentRing (fst s)) fragIndex)
             (tx_put (tx_desc_plain (frag_addr v fragIndex) (frag_len v fragIndex) vtc
                        (ucast frameLength) csum (i = 0) (i = fragmentCount - 1)) s))"
  by pat_completeness auto
termination
proof (relation "measure (\<lambda>(api, v, vtc, csum, fl, fragmentCount, i, f, s). unat (fragmentCount - i))")
  fix i fragmentCount :: u32
  assume "i \<noteq> fragmentCount"
  then have "fragmentCount - i \<noteq> 0" by simp
  then have "unat (fragmentCount - i - 1) < unat (fragmentCount - i)"
    by (metis measure_unat)
  then show "((api, v, vtc, csum, fl, fragmentCount, i + 1, f, s'), (api, v, vtc, csum, fl, fragmentCount, i, f', s))
      \<in> measure (\<lambda>(api, v, vtc, csum, fl, fragmentCount, i, f, s). unat (fragmentCount - i))"
    for api v vtc csum fl f f' s s'
    by (simp add: diff_diff_eq [symmetric])
qed simp

text \<open>
  One packet without segmentation offload: \<open>None\<close> is the break that waits for free descriptors.
\<close>

definition tx_fill_plain :: "net_api \<Rightarrow> tx_view \<Rightarrow> u32 \<Rightarrow> u32 \<Rightarrow> TxQueueContext \<times> u32
    \<Rightarrow> (TxQueueContext \<times> u32) option" where
  "tx_fill_plain api v descBegin0 pktIndex s =
     (let (ctx, descIndex) = s;
          p = pkt v pktIndex;
          fragIndex = FragmentIndex p;
          fragmentCount = ucast (FragmentCount p);
          vlanTag = tx_vlan_tag v ctx pktIndex;
          contextTagNeeded = tx_context_tag_needed ctx vlanTag
      in if fragmentCount + flag contextTagNeeded > EMPTY_DESC_REMAINING (descCount ctx) descBegin0 descIndex
         then None
         else
           (let (ctx1, descIndex1) =
                  (if contextTagNeeded
                   then (case tx_put (tx_desc_context_plain vlanTag) s of
                           (c, d) \<Rightarrow> (c\<lparr>lastVlanTag := vlanTag\<rparr>, d))
                   else s);
                frameLength = tx_frame_length api v (fragmentRing ctx) (unat fragmentCount) fragIndex 0
            in Some (tx_plain_frags api v (tx_vlan_control vlanTag) (tx_checksum_insertion v pktIndex)
                      frameLength fragmentCount 0 fragIndex (ctx1, descIndex1))))"

subsection \<open>Segmentation offload enabled\<close>

text \<open>\<open>packetLength\<close> and \<open>userDescriptorsNeeded\<close>; the count runs over the fragments left.\<close>

fun tx_gso_scan :: "net_api \<Rightarrow> tx_view \<Rightarrow> NET_RING \<Rightarrow> nat \<Rightarrow> u32 \<Rightarrow> u32 \<times> u32 \<Rightarrow> u32 \<times> u32" where
  "tx_gso_scan api v ring 0 fragIndex acc = acc"
| "tx_gso_scan api v ring (Suc i) fragIndex (packetLength, needed) =
     (let fragLength = ucast (frag_len v fragIndex)
      in tx_gso_scan api v ring i (NetRingIncrementIndex api ring fragIndex)
           (packetLength + fragLength,
            needed + (fragLength + QueueDescriptorLengthMax - 1) div QueueDescriptorLengthMax))"

definition tx_buf_length :: "u32 \<Rightarrow> u32 \<Rightarrow> u32" where
  "tx_buf_length fragLength fragPos =
     (if fragLength - fragPos < QueueDescriptorLengthMax then fragLength - fragPos
      else QueueDescriptorLengthMax)"

text \<open>\<open>while (fragPos != fragLength)\<close>: the buffers of one fragment.\<close>

function tx_gso_buffers :: "u64 \<Rightarrow> u32 \<Rightarrow> u128 \<Rightarrow> bool \<Rightarrow> u32 \<Rightarrow> TxQueueContext \<times> u32 \<Rightarrow> TxQueueContext \<times> u32" where
  "tx_gso_buffers addr fragLength vtc lastFrag fragPos s =
     (if fragPos = fragLength then s
      else (let bufLength = tx_buf_length fragLength fragPos;
                fragPos' = fragPos + bufLength
            in tx_gso_buffers addr fragLength vtc lastFrag fragPos'
                 (tx_put (tx_desc_payload (addr + ucast fragPos) bufLength vtc
                            (fragPos' = fragLength \<and> lastFrag)) s)))"
  by pat_completeness auto
termination
proof (relation "measure (\<lambda>(addr, fragLength, vtc, l, fragPos, s). unat (fragLength - fragPos))")
  fix fragLength fragPos :: u32 and bufLength fragPos'
  assume "fragPos \<noteq> fragLength" and b: "bufLength = tx_buf_length fragLength fragPos"
    and p: "fragPos' = fragPos + bufLength"
  then have "fragLength - fragPos \<noteq> 0" by simp
  then have "bufLength \<noteq> 0" and "bufLength \<le> fragLength - fragPos"
    by (auto simp: b tx_buf_length_def QueueDescriptorLengthMax_def)
  then have "unat (fragLength - fragPos - bufLength) = unat (fragLength - fragPos) - unat bufLength"
      "0 < unat bufLength" "unat bufLength \<le> unat (fragLength - fragPos)"
    by (auto simp: unat_sub word_le_nat_alt unat_gt_0)
  then have "unat (fragLength - fragPos - bufLength) < unat (fragLength - fragPos)" by arith
  then show "((addr, fragLength, vtc, l, fragPos', s'), (addr, fragLength, vtc, l, fragPos, s))
      \<in> measure (\<lambda>(addr, fragLength, vtc, l, fragPos, s). unat (fragLength - fragPos))"
    for addr vtc l s s'
    by (simp add: p diff_diff_eq [symmetric])
qed simp

text \<open>
  The loop over the fragments; \<open>nextFragmentStart\<close> skips the headers in the first one.
\<close>

function tx_gso_frags :: "net_api \<Rightarrow> tx_view \<Rightarrow> u128 \<Rightarrow> u32 \<Rightarrow> u32 \<Rightarrow> u32 \<Rightarrow> u32
    \<Rightarrow> TxQueueContext \<times> u32 \<Rightarrow> TxQueueContext \<times> u32" where
  "tx_gso_frags api v vtc fragmentCount i nextFragmentStart fragIndex s =
     (if i = fragmentCount then s
      else tx_gso_frags api v vtc fragmentCount (i + 1) 0
             (NetRingIncrementIndex api (fragmentRing (fst s)) fragIndex)
             (tx_gso_buffers (frag_addr v fragIndex) (ucast (frag_len v fragIndex)) vtc
                (i = fragmentCount - 1) nextFragmentStart s))"
  by pat_completeness auto
termination
proof (relation "measure (\<lambda>(api, v, vtc, fragmentCount, i, n, f, s). unat (fragmentCount - i))")
  fix i fragmentCount :: u32
  assume "i \<noteq> fragmentCount"
  then have "fragmentCount - i \<noteq> 0" by simp
  then have "unat (fragmentCount - i - 1) < unat (fragmentCount - i)"
    by (metis measure_unat)
  then show "((api, v, vtc, fragmentCount, i + 1, n', f, s'), (api, v, vtc, fragmentCount, i, n, f', s))
      \<in> measure (\<lambda>(api, v, vtc, fragmentCount, i, n, f, s). unat (fragmentCount - i))"
    for api v vtc n n' f f' s s'
    by (simp add: diff_diff_eq [symmetric])
qed simp

declare tx_plain_frags.simps [simp del] tx_gso_buffers.simps [simp del] tx_gso_frags.simps [simp del]

definition tx_header_length :: "NET_PACKET_LAYOUT \<Rightarrow> u16" where
  "tx_header_length l = Layer2HeaderLength l + Layer3HeaderLength l + Layer4HeaderLength l"

definition tx_fill_gso :: "net_api \<Rightarrow> tx_view \<Rightarrow> u32 \<Rightarrow> u32 \<Rightarrow> TxQueueContext \<times> u32
    \<Rightarrow> (TxQueueContext \<times> u32) option" where
  "tx_fill_gso api v descBegin0 pktIndex s =
     (let (ctx, descIndex) = s;
          p = pkt v pktIndex;
          fragIndex = FragmentIndex p;
          fragmentCount = ucast (FragmentCount p);
          vlanTag = tx_vlan_tag v ctx pktIndex;
          contextTagNeeded = tx_context_tag_needed ctx vlanTag;
          gsoMss = ucast (gso_mss v pktIndex) :: u16;
          headerLength = tx_header_length (Layout p);
          (packetLength, userDescriptorsNeeded) =
            tx_gso_scan api v (fragmentRing ctx) (unat fragmentCount) fragIndex (0, 0);
          contextMssNeeded = (gsoMss \<noteq> lastMss ctx);
          contextNeeded = (contextTagNeeded \<or> contextMssNeeded)
      in if userDescriptorsNeeded + flag contextNeeded + 1
              > EMPTY_DESC_REMAINING (descCount ctx) descBegin0 descIndex
         then None
         else
           (let (ctx1, descIndex1) =
                  (if contextNeeded
                   then (case tx_put (tx_desc_context_gso gsoMss vlanTag contextTagNeeded) s of
                           (c, d) \<Rightarrow> (c\<lparr>lastMss := gsoMss,
                                        lastVlanTag := (if contextTagNeeded then vlanTag else lastVlanTag c)\<rparr>, d))
                   else s)
            in Some (tx_gso_frags api v (tx_vlan_control vlanTag) fragmentCount 0 (ucast headerLength) fragIndex
                      (tx_put (tx_desc_tso (frag_addr v fragIndex) headerLength (tx_vlan_control vlanTag)
                                (packetLength - ucast headerLength) (Layer4HeaderLength (Layout p)))
                              (ctx1, descIndex1)))))"

subsection \<open>All pending packets\<close>

definition tx_fill_packet :: "net_api \<Rightarrow> tx_view \<Rightarrow> u32 \<Rightarrow> u32 \<Rightarrow> TxQueueContext \<times> u32
    \<Rightarrow> (TxQueueContext \<times> u32) option" where
  "tx_fill_packet api v descBegin0 pktIndex s =
     (if Ignore (pkt v pktIndex) then Some s
      else if (ucast (gso_mss v pktIndex) :: u16) \<noteq> 0 then tx_fill_gso api v descBegin0 pktIndex s
      else tx_fill_plain api v descBegin0 pktIndex s)"

text \<open>
  The loop over the new packets; the result is the context, \<open>descIndex\<close> and \<open>pktIndex\<close> when it stops.
\<close>

partial_function (option) tx_fill :: "net_api \<Rightarrow> tx_view \<Rightarrow> u32 \<Rightarrow> u32 \<Rightarrow> TxQueueContext \<times> u32
    \<Rightarrow> ((TxQueueContext \<times> u32) \<times> u32) option" where
  "tx_fill api v descBegin0 pktIndex s =
     (if EMPTY_DESC_REMAINING (descCount (fst s)) descBegin0 (snd s) = 0 then Some (s, pktIndex)
      else if pktIndex = EndIndex (packetRing (fst s)) then Some (s, pktIndex)
      else (case tx_fill_packet api v descBegin0 pktIndex s of
              None \<Rightarrow> Some (s, pktIndex)
            | Some s' \<Rightarrow> tx_fill api v descBegin0 (NetRingIncrementIndex api (packetRing (fst s)) pktIndex) s'))"

definition tx_publish :: "u32 \<Rightarrow> u32 \<Rightarrow> u32 \<Rightarrow> TxQueueContext \<Rightarrow> TxQueueContext" where
  "tx_publish descEnd0 descIndex pktIndex ctx =
     (if descIndex \<noteq> descEnd0
      then (TxSetDescEnd descIndex ctx)\<lparr>packetRing := (packetRing ctx)\<lparr>NextIndex := pktIndex\<rparr>\<rparr>
      else ctx)"

text \<open>
  \<open>TxQueueAdvance\<close>. The second component is the \<open>doneFrags\<close> passed to
  \<open>DeviceAddStatisticsTxQueue\<close>: the local the code initialises to 0.
\<close>

definition TxQueueAdvance :: "net_api \<Rightarrow> tx_view \<Rightarrow> TxQueueContext \<Rightarrow> (TxQueueContext \<times> u32) option" where
  "TxQueueAdvance api v ctx =
     Option.bind (tx_indicate api v ctx) (\<lambda>ctx1.
       map_option (\<lambda>((ctx2, descIndex), pktIndex).
           (tx_publish (descEnd ctx) descIndex pktIndex ctx2, 0))
         (tx_fill api v (descBegin ctx1) (NextIndex (packetRing ctx1)) (ctx1, descEnd ctx)))"

section \<open>Cancel and stop\<close>

text \<open>
  \<open>TxQueueCancel\<close>. \<open>tx_debug k\<close> is the value of \<open>Tx_Debug\<close> at the k-th poll; \<open>flushing k\<close> says whether
  \<open>FlushTxQueue\<close> still reads as set at the k-th poll after it was written (\<open>None\<close> is a flush that
  never completes: the code polls without a limit).
\<close>

definition tx_idle :: "u32 \<Rightarrow> bool" where
  "tx_idle debug \<longleftrightarrow> getf MtlTxDebug_t ''ReadStatus'' debug \<noteq> 1 \<and> getf MtlTxDebug_t ''NotEmpty'' debug = 0"

fun tx_wait_idle :: "(nat \<Rightarrow> u32) \<Rightarrow> nat \<Rightarrow> nat \<Rightarrow> nat" where
  "tx_wait_idle tx_debug 0 retry = retry"
| "tx_wait_idle tx_debug (Suc n) retry =
     (if tx_idle (tx_debug retry) then retry else tx_wait_idle tx_debug n (Suc retry))"

partial_function (option) tx_wait_flush :: "(nat \<Rightarrow> bool) \<Rightarrow> nat \<Rightarrow> nat option" where
  "tx_wait_flush flushing retry =
     (if \<not> flushing retry then Some retry else tx_wait_flush flushing (Suc retry))"

definition tx_max_retry :: nat where "tx_max_retry = 100"

definition tx_discard :: "TxQueueContext \<Rightarrow> TxQueueContext" where
  "tx_discard ctx = ctx\<lparr>packetRing := (packetRing ctx)\<lparr>BeginIndex := EndIndex (packetRing ctx)\<rparr>,
     fragmentRing := (fragmentRing ctx)\<lparr>BeginIndex := EndIndex (fragmentRing ctx)\<rparr>\<rparr>"

definition tx_reset_queue :: "TxQueueContext \<Rightarrow> TxQueueContext" where
  "tx_reset_queue ctx =
     ctx\<lparr>channelRegs := Write32 Mtl_Tx_Operation_Mode
            (putf MtlTxOperationMode_t ''FlushTxQueue'' (flag True) (Read32 Mtl_Tx_Operation_Mode (channelRegs ctx)))
            (channelRegs ctx),
         descBegin := 0, descEnd := 0\<rparr>"

definition TxQueueCancel :: "net_api \<Rightarrow> tx_view \<Rightarrow> (nat \<Rightarrow> u32) \<Rightarrow> (nat \<Rightarrow> bool) \<Rightarrow> TxQueueContext
    \<Rightarrow> TxQueueContext option" where
  "TxQueueCancel api v tx_debug flushing ctx0 =
     (let ctx = ctx0\<lparr>channelRegs := Write32 Ch_Tx_Control
                        (putf ChannelTxControl_t ''Start'' (flag False) 0) (channelRegs ctx0)\<rparr>
      in if BeginIndex (packetRing ctx) = EndIndex (packetRing ctx) then Some ctx
         else if tx_wait_idle tx_debug tx_max_retry 0 \<noteq> tx_max_retry
         then map_option (\<lambda>r. tx_discard (fst r)) (TxQueueAdvance api v ctx)
         else map_option (\<lambda>_. tx_discard (tx_reset_queue ctx)) (tx_wait_flush flushing 0))"

text \<open>\<open>TxQueueStop\<close>, apart from the call that drops the notification (theory EqosInterrupts).\<close>

definition TxQueueStop :: "TxQueueContext \<Rightarrow> TxQueueContext" where
  "TxQueueStop ctx = ctx\<lparr>descBegin := 0, descEnd := 0\<rparr>"

end
