(* ===== verification/TxQueueProofs.thy ===== *)
theory TxQueueProofs imports TxQueue begin

text \<open>
  Correctness of the transmit queue: the loops that write descriptors are shown to write exactly the
  list of descriptors a specification gives for each packet (\<open>tx_packet_descs\<close>), in order, at
  consecutive slots; ring safety, hand-over to the device, termination and the properties of the
  handlers follow from that.
\<close>

section \<open>Writing a list of descriptors\<close>

lemma tx_put_Pair [simp]:
  "tx_put d (ctx, i) = (ctx\<lparr>descVirtual := (descVirtual ctx)(i := d)\<rparr>, desc_next (descCount ctx) i)"
  by (simp add: tx_put_def)

abbreviation tx_put_all :: "u128 list \<Rightarrow> TxQueueContext \<times> u32 \<Rightarrow> TxQueueContext \<times> u32" where
  "tx_put_all ds s \<equiv> fold tx_put ds s"

lemma tx_put_all_write_seq:
  "tx_put_all ds (ctx, i) =
     (ctx\<lparr>descVirtual := fst (write_seq (descCount ctx) (descVirtual ctx, i) ds)\<rparr>,
      snd (write_seq (descCount ctx) (descVirtual ctx, i) ds))"
  by (induction ds arbitrary: ctx i) simp_all

lemma tx_put_fields [simp]:
  "fragmentRing (fst (tx_put d s)) = fragmentRing (fst s)"
  "packetRing (fst (tx_put d s)) = packetRing (fst s)"
  "descCount (fst (tx_put d s)) = descCount (fst s)"
  by (simp_all add: tx_put_def split: prod.split)

lemma tx_put_all_fields [simp]:
  "fragmentRing (fst (tx_put_all ds s)) = fragmentRing (fst s)"
  "packetRing (fst (tx_put_all ds s)) = packetRing (fst s)"
  "descCount (fst (tx_put_all ds s)) = descCount (fst s)"
  by (induction ds arbitrary: s) simp_all

section \<open>Packets without segmentation offload\<close>

text \<open>The fragment index \<open>k\<close> places after \<open>f\<close>.\<close>

abbreviation frag_at :: "net_api \<Rightarrow> NET_RING \<Rightarrow> u32 \<Rightarrow> nat \<Rightarrow> u32" where
  "frag_at api ring f k \<equiv> (NetRingIncrementIndex api ring ^^ k) f"

definition tx_plain_desc_at :: "net_api \<Rightarrow> tx_view \<Rightarrow> NET_RING \<Rightarrow> u128 \<Rightarrow> u128 \<Rightarrow> u32 \<Rightarrow> nat \<Rightarrow> u32 \<Rightarrow> nat \<Rightarrow> u128" where
  "tx_plain_desc_at api v ring vtc csum frameLength n f k =
     tx_desc_plain (frag_addr v (frag_at api ring f k)) (frag_len v (frag_at api ring f k)) vtc
       (ucast frameLength) csum (k = 0) (Suc k = n)"

lemma last_index: "i < fragmentCount \<Longrightarrow> (i = fragmentCount - 1) = (Suc (unat i) = unat (fragmentCount :: u32))"
proof -
  assume "i < fragmentCount"
  then have "unat (i + 1) = Suc (unat i)" by (rule unat_plus_one)
  then show ?thesis by (metis add_diff_cancel diff_add_cancel word_unat_eq_iff)
qed

lemma tx_plain_frags_fold:
  assumes "unat i \<le> unat cnt"
  shows "tx_plain_frags api v vtc csum fl cnt i (frag_at api (fragmentRing (fst s)) f (unat i)) s =
    tx_put_all (map (tx_plain_desc_at api v (fragmentRing (fst s)) vtc csum fl (unat cnt) f) [unat i..<unat cnt]) s"
  using assms
proof (induction "unat cnt - unat i" arbitrary: i s)
  case 0
  then have "i = cnt" by (simp add: word_unat_eq_iff)
  then show ?case by (simp add: tx_plain_frags.simps)
next
  case (Suc d)
  then have lt: "i < cnt" by (simp add: word_less_nat_alt)
  then have si: "unat (i + 1) = Suc (unat i)" by (rule unat_plus_one)
  have up: "[unat i..<unat cnt] = unat i # [Suc (unat i)..<unat cnt]"
    using lt by (simp add: upt_conv_Cons word_less_nat_alt)
  let ?r = "fragmentRing (fst s)"
  let ?s = "tx_put (tx_plain_desc_at api v ?r vtc csum fl (unat cnt) f (unat i)) s"
  have "tx_plain_frags api v vtc csum fl cnt i (frag_at api ?r f (unat i)) s =
     tx_plain_frags api v vtc csum fl cnt (i + 1) (frag_at api (fragmentRing (fst ?s)) f (unat (i + 1))) ?s"
    using lt less_imp_neq [OF lt] by (subst tx_plain_frags.simps)
      (simp add: si tx_plain_desc_at_def last_index unat_eq_zero word_neq_0_conv)
  also have "\<dots> = tx_put_all (map (tx_plain_desc_at api v (fragmentRing (fst ?s)) vtc csum fl (unat cnt) f)
                   [unat (i + 1)..<unat cnt]) ?s"
    by (rule Suc.hyps(1)) (use Suc.hyps(2) si lt in \<open>simp_all add: word_less_nat_alt\<close>)
  finally show ?case by (simp add: si up)
qed

definition tx_plain_needs_tag :: "tx_view \<Rightarrow> TxQueueContext \<Rightarrow> u32 \<Rightarrow> bool" where
  "tx_plain_needs_tag v ctx p = tx_context_tag_needed ctx (tx_vlan_tag v ctx p)"

definition tx_plain_descs :: "net_api \<Rightarrow> tx_view \<Rightarrow> TxQueueContext \<Rightarrow> u32 \<Rightarrow> u128 list" where
  "tx_plain_descs api v ctx p =
     (let tag = tx_vlan_tag v ctx p; n = unat (FragmentCount (pkt v p)); f = FragmentIndex (pkt v p);
          fl = tx_frame_length api v (fragmentRing ctx) n f 0
      in (if tx_context_tag_needed ctx tag then [tx_desc_context_plain tag] else [])
         @ map (tx_plain_desc_at api v (fragmentRing ctx) (tx_vlan_control tag)
                 (tx_checksum_insertion v p) fl n f) [0..<n])"

definition tx_plain_ctx :: "tx_view \<Rightarrow> TxQueueContext \<Rightarrow> u32 \<Rightarrow> TxQueueContext" where
  "tx_plain_ctx v ctx p =
     (if tx_context_tag_needed ctx (tx_vlan_tag v ctx p)
      then ctx\<lparr>lastVlanTag := tx_vlan_tag v ctx p\<rparr> else ctx)"

lemma tx_update_commute:
  "ctx\<lparr>lastVlanTag := t, descVirtual := m\<rparr> = ctx\<lparr>descVirtual := m, lastVlanTag := t\<rparr>"
  "ctx\<lparr>lastMss := u, descVirtual := m\<rparr> = ctx\<lparr>descVirtual := m, lastMss := u\<rparr>"
  by (cases ctx, simp)+

lemma tx_fill_plain_spec:
  "tx_fill_plain api v b p (ctx, i) =
     (if unat (EMPTY_DESC_REMAINING (descCount ctx) b i) < length (tx_plain_descs api v ctx p) then None
      else Some (tx_put_all (tx_plain_descs api v ctx p) (tx_plain_ctx v ctx p, i)))"
proof -
  let ?n = "ucast (FragmentCount (pkt v p)) :: u32"
  let ?need = "tx_context_tag_needed ctx (tx_vlan_tag v ctx p)"
  have n: "unat ?n = unat (FragmentCount (pkt v p))" by (simp add: unat_ucast_widen)
  have "unat (FragmentCount (pkt v p)) < 2 ^ LENGTH(16)" by (rule unsigned_less)
  then have len: "unat (?n + flag ?need) = length (tx_plain_descs api v ctx p)"
    using n by (simp add: tx_plain_descs_def Let_def flag_def unat_word_ariths)
  have guard: "(EMPTY_DESC_REMAINING (descCount ctx) b i < ?n + flag ?need)
      = (unat (EMPTY_DESC_REMAINING (descCount ctx) b i) < length (tx_plain_descs api v ctx p))"
    by (simp add: word_less_nat_alt len)
  have frags: "tx_plain_frags api v vtc csum fl ?n 0 f s =
      tx_put_all (map (tx_plain_desc_at api v (fragmentRing (fst s)) vtc csum fl (unat ?n) f) [0..<unat ?n]) s"
    for vtc csum fl f s
    using tx_plain_frags_fold [of 0 ?n api v vtc csum fl s f] by simp
  show ?thesis
    unfolding tx_fill_plain_def Let_def prod.case guard
    by (auto simp: frags n tx_plain_descs_def tx_plain_ctx_def Let_def tx_update_commute)
qed

section \<open>Packets with segmentation offload\<close>

text \<open>
  The buffers of a fragment of length \<open>L\<close> from position \<open>p\<close>: consecutive pieces of at most
  \<open>QueueDescriptorLengthMax\<close> bytes.
\<close>

function gso_chunks :: "nat \<Rightarrow> nat \<Rightarrow> (nat \<times> nat) list" where
  "gso_chunks L p =
     (if L \<le> p then [] else (p, min (L - p) 0x3FFF) # gso_chunks L (p + min (L - p) 0x3FFF))"
  by pat_completeness auto
termination
  by (relation "measure (\<lambda>(L, p). L - p)") auto

declare gso_chunks.simps [simp del]

lemma gso_chunks_done [simp]: "gso_chunks L L = []"
  by (simp add: gso_chunks.simps)

lemma gso_chunks_sum: "p \<le> L \<Longrightarrow> sum_list (map snd (gso_chunks L p)) = L - p"
proof (induction L p rule: gso_chunks.induct)
  case (1 L p)
  then show ?case by (subst gso_chunks.simps) auto
qed

lemma gso_chunks_bounds:
  "c \<in> set (gso_chunks L p) \<Longrightarrow> p \<le> fst c \<and> 0 < snd c \<and> snd c \<le> 0x3FFF \<and> fst c + snd c \<le> L"
proof (induction L p rule: gso_chunks.induct)
  case (1 L p)
  then show ?case by (subst (asm) (2) gso_chunks.simps) (fastforce split: if_splits)
qed

lemma gso_chunks_length: "p \<le> L \<Longrightarrow> length (gso_chunks L p) = (L - p + 0x3FFE) div 0x3FFF"
proof (induction L p rule: gso_chunks.induct)
  case (1 L p)
  show ?case
  proof (cases "L = p")
    case True
    then show ?thesis by simp
  next
    case False
    let ?b = "min (L - p) 0x3FFF"
    have "length (gso_chunks L (p + ?b)) = (L - (p + ?b) + 0x3FFE) div 0x3FFF"
      using 1 False by auto
    moreover have "Suc ((L - (p + ?b) + 0x3FFE) div 0x3FFF) = (L - p + 0x3FFE) div 0x3FFF"
    proof (cases "L - p \<le> 0x3FFF")
      case True
      with False "1.prems" show ?thesis by (auto simp: min_def intro!: div_nat_eqI [symmetric])
    next
      case False
      then have "L - p + 0x3FFE = L - (p + 0x3FFF) + 0x3FFE + 0x3FFF" by simp
      with False show ?thesis by (simp add: min_def div_add_self2)
    qed
    ultimately show ?thesis using False "1.prems" by (subst gso_chunks.simps) simp
  qed
qed

definition tx_gso_buffer_descs :: "u64 \<Rightarrow> nat \<Rightarrow> u128 \<Rightarrow> bool \<Rightarrow> nat \<Rightarrow> u128 list" where
  "tx_gso_buffer_descs addr L vtc lastFrag p =
     map (\<lambda>(q, b). tx_desc_payload (addr + of_nat q) (of_nat b) vtc (q + b = L \<and> lastFrag)) (gso_chunks L p)"

lemma tx_gso_buffers_fold:
  assumes "unat fp \<le> unat fl"
  shows "tx_gso_buffers addr fl vtc lst fp s =
    tx_put_all (tx_gso_buffer_descs addr (unat fl) vtc lst (unat fp)) s"
  using assms
proof (induction addr fl vtc lst fp s rule: tx_gso_buffers.induct)
  case (1 addr fl vtc lst fp s)
  show ?case
  proof (cases "fp = fl")
    case True
    then show ?thesis by (simp add: tx_gso_buffers.simps tx_gso_buffer_descs_def)
  next
    case False
    define b where "b = tx_buf_length fl fp"
    have lt: "unat fp < unat fl" using "1.prems" False by (simp add: word_unat_eq_iff)
    have sub: "unat (fl - fp) = unat fl - unat fp" using "1.prems" by (simp add: unat_sub word_le_nat_alt)
    have ub: "unat b = min (unat fl - unat fp) 0x3FFF"
      using sub by (auto simp: b_def tx_buf_length_def QueueDescriptorLengthMax_def word_less_nat_alt)
    have "unat fl < 2 ^ LENGTH(32)" by (rule unsigned_less)
    moreover have "unat fp + unat b \<le> unat fl" using ub lt by linarith
    ultimately have "unat fp + unat b < 2 ^ LENGTH(32)" by linarith
    then have up: "unat (fp + b) = unat fp + unat b" by (simp add: unat_word_ariths)
    have le: "unat (fp + b) \<le> unat fl" using up ub lt by simp
    have eqv: "(fp + b = fl) = (unat fp + unat b = unat fl)" by (simp add: word_unat_eq_iff up)
    have chunks: "gso_chunks (unat fl) (unat fp) =
        (unat fp, unat b) # gso_chunks (unat fl) (unat (fp + b))"
      using lt by (subst gso_chunks.simps) (simp add: ub up)
    let ?D = "tx_desc_payload (addr + ucast fp) b vtc (fp + b = fl \<and> lst)"
    have "tx_gso_buffers addr fl vtc lst fp s = tx_gso_buffers addr fl vtc lst (fp + b) (tx_put ?D s)"
      using False by (subst tx_gso_buffers.simps) (simp only: if_False Let_def b_def)
    also have "\<dots> = tx_put_all (tx_gso_buffer_descs addr (unat fl) vtc lst (unat (fp + b))) (tx_put ?D s)"
      using "1.IH" [OF False b_def refl le] by simp
    also have "tx_gso_buffer_descs addr (unat fl) vtc lst (unat fp) =
        ?D # tx_gso_buffer_descs addr (unat fl) vtc lst (unat (fp + b))"
      unfolding tx_gso_buffer_descs_def chunks eqv by simp
    then have "tx_put_all (tx_gso_buffer_descs addr (unat fl) vtc lst (unat (fp + b))) (tx_put ?D s) =
        tx_put_all (tx_gso_buffer_descs addr (unat fl) vtc lst (unat fp)) s"
      by (simp only: fold_Cons comp_apply)
    finally show ?thesis .
  qed
qed

text \<open>Length of fragment \<open>k\<close> of a packet, as the driver reads it (the low 32 bits).\<close>

definition frag_size :: "net_api \<Rightarrow> tx_view \<Rightarrow> NET_RING \<Rightarrow> u32 \<Rightarrow> nat \<Rightarrow> nat" where
  "frag_size api v ring f k = unat (ucast (frag_len v (frag_at api ring f k)) :: u32)"

definition tx_gso_frag_descs :: "net_api \<Rightarrow> tx_view \<Rightarrow> NET_RING \<Rightarrow> u128 \<Rightarrow> nat \<Rightarrow> nat \<Rightarrow> u32 \<Rightarrow> nat \<Rightarrow> u128 list" where
  "tx_gso_frag_descs api v ring vtc n hdr f k =
     tx_gso_buffer_descs (frag_addr v (frag_at api ring f k)) (frag_size api v ring f k) vtc (Suc k = n)
       (if k = 0 then hdr else 0)"

lemma tx_gso_frags_fold:
  assumes "unat i \<le> unat cnt" "unat st = (if i = 0 then hdr else 0)"
    "hdr \<le> frag_size api v (fragmentRing (fst s)) f 0"
  shows "tx_gso_frags api v vtc cnt i st (frag_at api (fragmentRing (fst s)) f (unat i)) s =
    tx_put_all (concat (map (tx_gso_frag_descs api v (fragmentRing (fst s)) vtc (unat cnt) hdr f) [unat i..<unat cnt])) s"
  using assms
proof (induction "unat cnt - unat i" arbitrary: i st s)
  case 0
  then have "i = cnt" by (simp add: word_unat_eq_iff)
  then show ?case by (simp add: tx_gso_frags.simps)
next
  case (Suc d)
  then have lt: "i < cnt" by (simp add: word_less_nat_alt)
  then have si: "unat (i + 1) = Suc (unat i)" by (rule unat_plus_one)
  then have nz: "i + 1 \<noteq> 0" by (metis nat.distinct(1) unat_0)
  have up: "[unat i..<unat cnt] = unat i # [Suc (unat i)..<unat cnt]"
    using lt by (simp add: upt_conv_Cons word_less_nat_alt)
  let ?r = "fragmentRing (fst s)"
  let ?fi = "frag_at api ?r f (unat i)"
  let ?s = "tx_gso_buffers (frag_addr v ?fi) (ucast (frag_len v ?fi)) vtc (i = cnt - 1) st s"
  have st: "unat st \<le> unat (ucast (frag_len v ?fi) :: u32)"
    using Suc.prems(2,3) by (auto simp: frag_size_def split: if_splits)
  have here: "?s = tx_put_all (tx_gso_frag_descs api v ?r vtc (unat cnt) hdr f (unat i)) s"
    using Suc.prems(2) lt
    by (simp add: tx_gso_buffers_fold [OF st] tx_gso_frag_descs_def frag_size_def last_index unat_eq_zero)
  then have r: "fragmentRing (fst ?s) = ?r" by simp
  have "tx_gso_frags api v vtc cnt i st ?fi s =
      tx_gso_frags api v vtc cnt (i + 1) 0 (frag_at api (fragmentRing (fst ?s)) f (unat (i + 1))) ?s"
    unfolding r using less_imp_neq [OF lt] by (subst tx_gso_frags.simps) (simp add: si)
  also have "\<dots> = tx_put_all (concat (map (tx_gso_frag_descs api v (fragmentRing (fst ?s)) vtc (unat cnt) hdr f)
                   [unat (i + 1)..<unat cnt])) ?s"
    by (rule Suc.hyps(1)) (use Suc.hyps(2) Suc.prems(3) si nz lt r in \<open>simp_all add: word_less_nat_alt\<close>)
  finally show ?case using here r by (simp add: si up)
qed

lemma ceil_word:
  assumes "unat L + 0x3FFE < 2 ^ 32"
  shows "(L + QueueDescriptorLengthMax - 1) div QueueDescriptorLengthMax
     = (of_nat ((unat L + 0x3FFE) div 0x3FFF) :: u32)"
proof -
  have eq: "L + QueueDescriptorLengthMax - 1 = L + 0x3FFE" by (simp add: QueueDescriptorLengthMax_def)
  have "unat (L + 0x3FFE) = unat L + 0x3FFE" using assms by (simp add: unat_word_ariths)
  moreover have "unat ((L + 0x3FFE) div 0x3FFF) = unat (L + 0x3FFE) div unat (0x3FFF :: u32)" by (rule unat_div)
  ultimately have "unat ((L + QueueDescriptorLengthMax - 1) div QueueDescriptorLengthMax) = (unat L + 0x3FFE) div 0x3FFF"
    unfolding eq by (simp add: QueueDescriptorLengthMax_def)
  then show ?thesis by (metis of_nat_unat ucast_id)
qed

lemma tx_gso_scan_sum:
  assumes "\<forall>k<n. frag_size api v ring f k + 0x3FFE < 2 ^ 32"
  shows "tx_gso_scan api v ring n f (a, b) =
    (a + of_nat (sum_list (map (frag_size api v ring f) [0..<n])),
     b + of_nat (sum_list (map (\<lambda>k. (frag_size api v ring f k + 0x3FFE) div 0x3FFF) [0..<n])))"
  using assms
proof (induction n arbitrary: f a b)
  case 0
  then show ?case by simp
next
  case (Suc n)
  let ?L = "ucast (frag_len v f) :: u32"
  have step: "frag_size api v ring (NetRingIncrementIndex api ring f) k = frag_size api v ring f (Suc k)" for k
    by (simp add: frag_size_def funpow_swap1)
  have zero: "frag_size api v ring f 0 = unat ?L" by (simp add: frag_size_def)
  have ceil: "(?L + QueueDescriptorLengthMax - 1) div QueueDescriptorLengthMax = of_nat ((unat ?L + 0x3FFE) div 0x3FFF)"
    using Suc.prems zero by (intro ceil_word) auto
  have IH: "tx_gso_scan api v ring n (NetRingIncrementIndex api ring f) (a', b') =
     (a' + of_nat (sum_list (map (\<lambda>k. frag_size api v ring f (Suc k)) [0..<n])),
      b' + of_nat (sum_list (map (\<lambda>k. (frag_size api v ring f (Suc k) + 0x3FFE) div 0x3FFF) [0..<n])))" for a' b'
    using Suc.IH [of "NetRingIncrementIndex api ring f" a' b'] Suc.prems by (simp add: step)
  have up: "map g [0..<Suc n] = g 0 # map (\<lambda>k. g (Suc k)) [0..<n]" for g :: "nat \<Rightarrow> nat"
    by (simp add: upt_conv_Cons map_Suc_upt [symmetric] comp_def del: upt_Suc)
  show ?case
    unfolding up tx_gso_scan.simps Let_def IH ceil
    by (simp add: zero algebra_simps)
qed

definition tx_gso_needs_context :: "tx_view \<Rightarrow> TxQueueContext \<Rightarrow> u32 \<Rightarrow> bool" where
  "tx_gso_needs_context v ctx p \<longleftrightarrow>
     tx_context_tag_needed ctx (tx_vlan_tag v ctx p) \<or> (ucast (gso_mss v p) :: u16) \<noteq> lastMss ctx"

definition tx_packet_sizes :: "net_api \<Rightarrow> tx_view \<Rightarrow> NET_RING \<Rightarrow> u32 \<Rightarrow> nat list" where
  "tx_packet_sizes api v ring p =
     map (frag_size api v ring (FragmentIndex (pkt v p))) [0..<unat (FragmentCount (pkt v p))]"

text \<open>
  What the assertions of the code demand of a packet with segmentation offload: it has a fragment, the
  headers are in the first one, and the packet is no longer than the advertised offload size.
\<close>

definition tx_gso_wf :: "net_api \<Rightarrow> tx_view \<Rightarrow> NET_RING \<Rightarrow> u32 \<Rightarrow> bool" where
  "tx_gso_wf api v ring p \<longleftrightarrow>
     (let hdr = unat (tx_header_length (Layout (pkt v p))); sizes = tx_packet_sizes api v ring p
      in sizes \<noteq> [] \<and> hdr \<le> sizes ! 0 \<and> sum_list sizes \<le> TxMaximumOffloadSize + hdr)"

definition tx_gso_descs :: "net_api \<Rightarrow> tx_view \<Rightarrow> TxQueueContext \<Rightarrow> u32 \<Rightarrow> u128 list" where
  "tx_gso_descs api v ctx p =
     (let tag = tx_vlan_tag v ctx p; hdr = tx_header_length (Layout (pkt v p));
          f = FragmentIndex (pkt v p); n = unat (FragmentCount (pkt v p)); ring = fragmentRing ctx
      in (if tx_gso_needs_context v ctx p
          then [tx_desc_context_gso (ucast (gso_mss v p)) tag (tx_context_tag_needed ctx tag)] else [])
         @ tx_desc_tso (frag_addr v f) hdr (tx_vlan_control tag)
             (of_nat (sum_list (tx_packet_sizes api v ring p)) - ucast hdr) (Layer4HeaderLength (Layout (pkt v p)))
         # concat (map (tx_gso_frag_descs api v ring (tx_vlan_control tag) n (unat hdr) f) [0..<n]))"

definition tx_gso_ctx :: "tx_view \<Rightarrow> TxQueueContext \<Rightarrow> u32 \<Rightarrow> TxQueueContext" where
  "tx_gso_ctx v ctx p =
     (let tag = tx_vlan_tag v ctx p
      in if tx_gso_needs_context v ctx p
         then ctx\<lparr>lastMss := ucast (gso_mss v p),
                  lastVlanTag := (if tx_context_tag_needed ctx tag then tag else lastVlanTag ctx)\<rparr>
         else ctx)"

definition tx_gso_needed :: "net_api \<Rightarrow> tx_view \<Rightarrow> TxQueueContext \<Rightarrow> u32 \<Rightarrow> nat" where
  "tx_gso_needed api v ctx p =
     sum_list (map (\<lambda>L. (L + 0x3FFE) div 0x3FFF) (tx_packet_sizes api v (fragmentRing ctx) p))
     + of_bool (tx_gso_needs_context v ctx p) + 1"

lemma sum_ceil_le: "sum_list (map (\<lambda>L. (L + 0x3FFE) div 0x3FFF) xs) \<le> sum_list (xs :: nat list)"
proof (induction xs)
  case Nil
  then show ?case by simp
next
  case (Cons x xs)
  have "(x + 0x3FFE) div 0x3FFF \<le> x" by (cases x) auto
  then show ?case using Cons by simp
qed

lemma sum_ceil_tail:
  "(\<And>k. k \<in> set ks \<Longrightarrow> g k \<le> (h k :: nat)) \<Longrightarrow> sum_list (map g ks) \<le> sum_list (map h ks)"
  by (induction ks) (auto intro: add_mono)

lemma tx_gso_descs_length:
  assumes "tx_gso_wf api v (fragmentRing ctx) p"
  shows "length (tx_gso_descs api v ctx p) \<le> tx_gso_needed api v ctx p"
proof -
  let ?f = "FragmentIndex (pkt v p)" and ?n = "unat (FragmentCount (pkt v p))"
  let ?hdr = "unat (tx_header_length (Layout (pkt v p)))" and ?ring = "fragmentRing ctx"
  have sz: "tx_packet_sizes api v ?ring p = map (frag_size api v ?ring ?f) [0..<?n]"
    by (simp add: tx_packet_sizes_def)
  have hdr: "?hdr \<le> frag_size api v ?ring ?f 0" and n: "0 < ?n"
    using assms by (auto simp: tx_gso_wf_def Let_def sz)
  have one: "length (tx_gso_frag_descs api v ?ring vtc ?n ?hdr ?f k) \<le> (frag_size api v ?ring ?f k + 0x3FFE) div 0x3FFF"
    for vtc k
    using hdr by (auto simp: tx_gso_frag_descs_def tx_gso_buffer_descs_def gso_chunks_length intro!: div_le_mono)
  then show ?thesis
    by (simp add: tx_gso_descs_def Let_def tx_gso_needed_def sz length_concat comp_def sum_ceil_tail)
qed

lemma tx_fill_gso_spec:
  assumes "tx_gso_wf api v (fragmentRing ctx) p"
  shows "tx_fill_gso api v b p (ctx, i) =
     (if unat (EMPTY_DESC_REMAINING (descCount ctx) b i) < tx_gso_needed api v ctx p then None
      else Some (tx_put_all (tx_gso_descs api v ctx p) (tx_gso_ctx v ctx p, i)))"
proof -
  let ?f = "FragmentIndex (pkt v p)" and ?cnt = "ucast (FragmentCount (pkt v p)) :: u32"
  let ?n = "unat (FragmentCount (pkt v p))" and ?ring = "fragmentRing ctx"
  let ?hdr = "tx_header_length (Layout (pkt v p))" and ?tag = "tx_vlan_tag v ctx p"
  have n: "unat ?cnt = ?n" by (simp add: unat_ucast_widen)
  have sz: "tx_packet_sizes api v ?ring p = map (frag_size api v ?ring ?f) [0..<?n]"
    by (simp add: tx_packet_sizes_def)
  have pos: "0 < ?n" and hdr: "unat ?hdr \<le> frag_size api v ?ring ?f 0"
    and sum: "sum_list (map (frag_size api v ?ring ?f) [0..<?n]) \<le> TxMaximumOffloadSize + unat ?hdr"
    using assms by (auto simp: tx_gso_wf_def Let_def sz)
  have "unat ?hdr < 2 ^ LENGTH(16)" by (rule unsigned_less)
  then have small: "sum_list (map (frag_size api v ?ring ?f) [0..<?n]) < 0x4FFFF"
    using sum by (simp add: TxMaximumOffloadSize_def)
  have "frag_size api v ?ring ?f k \<le> sum_list (map (frag_size api v ?ring ?f) [0..<?n])" if "k < ?n" for k
    using that by (intro member_le_sum_list) auto
  then have "\<forall>k<?n. frag_size api v ?ring ?f k + 0x3FFE < 2 ^ 32" using small by fastforce
  then have scan: "tx_gso_scan api v ?ring ?n ?f (0, 0) =
      (of_nat (sum_list (tx_packet_sizes api v ?ring p)),
       of_nat (sum_list (map (\<lambda>L. (L + 0x3FFE) div 0x3FFF) (tx_packet_sizes api v ?ring p))))"
    by (simp add: tx_gso_scan_sum sz comp_def)
  have "sum_list (map (\<lambda>L. (L + 0x3FFE) div 0x3FFF) (tx_packet_sizes api v ?ring p)) < 0x4FFFF"
    using sum_ceil_le [of "tx_packet_sizes api v ?ring p"] small by (simp add: sz)
  then have need: "unat (of_nat (sum_list (map (\<lambda>L. (L + 0x3FFE) div 0x3FFF) (tx_packet_sizes api v ?ring p)))
        + flag (tx_gso_needs_context v ctx p) + 1 :: u32) = tx_gso_needed api v ctx p"
    by (simp add: tx_gso_needed_def flag_def unat_word_ariths unat_of_nat)
  have frags: "tx_gso_frags api v vtc ?cnt 0 (ucast ?hdr) ?f s =
      tx_put_all (concat (map (tx_gso_frag_descs api v ?ring vtc ?n (unat ?hdr) ?f) [0..<?n])) s"
    if "fragmentRing (fst s) = ?ring" for vtc s
    using tx_gso_frags_fold [of 0 ?cnt "ucast ?hdr" "unat ?hdr" api v s ?f vtc] hdr that n
    by (simp add: unat_ucast_widen)
  show ?thesis
    unfolding tx_fill_gso_def Let_def prod.case n scan
    by (auto simp: word_less_nat_alt need frags tx_gso_descs_def tx_gso_ctx_def Let_def tx_update_commute
        tx_gso_needs_context_def [symmetric])
qed

end
