(* ===== verification/TxQueueCorrect.thy ===== *)
theory TxQueueCorrect imports TxQueueProofs begin

text \<open>
  The whole advance handler of the transmit queue: the descriptors it fills are the concatenation of
  the packets' descriptor lists, it never writes outside the empty region of the ring, it hands only
  owned descriptors to the device and returns only descriptors the device has given back; plus start,
  cancel and stop. The lemmas about rings are proved once in the context of \<open>net_rings\<close>.
\<close>

section \<open>One packet\<close>

definition tx_packet_wf :: "net_api \<Rightarrow> tx_view \<Rightarrow> NET_RING \<Rightarrow> u32 \<Rightarrow> bool" where
  "tx_packet_wf api v ring p \<longleftrightarrow>
     Ignore (pkt v p) \<or> (ucast (gso_mss v p) :: u16) = 0 \<or> tx_gso_wf api v ring p"

definition tx_packet_descs :: "net_api \<Rightarrow> tx_view \<Rightarrow> TxQueueContext \<Rightarrow> u32 \<Rightarrow> u128 list" where
  "tx_packet_descs api v ctx p =
     (if Ignore (pkt v p) then []
      else if (ucast (gso_mss v p) :: u16) \<noteq> 0 then tx_gso_descs api v ctx p
      else tx_plain_descs api v ctx p)"

definition tx_packet_ctx :: "tx_view \<Rightarrow> TxQueueContext \<Rightarrow> u32 \<Rightarrow> TxQueueContext" where
  "tx_packet_ctx v ctx p =
     (if Ignore (pkt v p) then ctx
      else if (ucast (gso_mss v p) :: u16) \<noteq> 0 then tx_gso_ctx v ctx p
      else tx_plain_ctx v ctx p)"

definition tx_packet_needed :: "net_api \<Rightarrow> tx_view \<Rightarrow> TxQueueContext \<Rightarrow> u32 \<Rightarrow> nat" where
  "tx_packet_needed api v ctx p =
     (if Ignore (pkt v p) then 0
      else if (ucast (gso_mss v p) :: u16) \<noteq> 0 then tx_gso_needed api v ctx p
      else length (tx_plain_descs api v ctx p))"

lemma tx_packet_ctx_fields [simp]:
  "descVirtual (tx_packet_ctx v ctx p) = descVirtual ctx"
  "packetRing (tx_packet_ctx v ctx p) = packetRing ctx"
  "fragmentRing (tx_packet_ctx v ctx p) = fragmentRing ctx"
  "descCount (tx_packet_ctx v ctx p) = descCount ctx"
  "descBegin (tx_packet_ctx v ctx p) = descBegin ctx"
  "descEnd (tx_packet_ctx v ctx p) = descEnd ctx"
  "descPhysical (tx_packet_ctx v ctx p) = descPhysical ctx"
  "channelRegs (tx_packet_ctx v ctx p) = channelRegs ctx"
  by (simp_all add: tx_packet_ctx_def tx_gso_ctx_def tx_plain_ctx_def Let_def)

lemma tx_fill_packet_spec:
  assumes "tx_packet_wf api v (fragmentRing ctx) p"
  shows "tx_fill_packet api v b p (ctx, i) =
     (if unat (EMPTY_DESC_REMAINING (descCount ctx) b i) < tx_packet_needed api v ctx p then None
      else Some (tx_put_all (tx_packet_descs api v ctx p) (tx_packet_ctx v ctx p, i)))"
  using assms
  by (auto simp: tx_packet_wf_def tx_fill_packet_def tx_packet_needed_def tx_packet_descs_def
      tx_packet_ctx_def tx_fill_plain_spec tx_fill_gso_spec)

lemma tx_packet_descs_length:
  "tx_packet_wf api v (fragmentRing ctx) p \<Longrightarrow>
     length (tx_packet_descs api v ctx p) \<le> tx_packet_needed api v ctx p"
  by (auto simp: tx_packet_wf_def tx_packet_descs_def tx_packet_needed_def tx_gso_descs_length)

text \<open>The descriptor lists do not look at the ring memory.\<close>

lemma tx_tag_memory [simp]:
  "tx_vlan_tag v (ctx\<lparr>descVirtual := m\<rparr>) p = tx_vlan_tag v ctx p"
  "tx_context_tag_needed (ctx\<lparr>descVirtual := m\<rparr>) t = tx_context_tag_needed ctx t"
  "tx_gso_needs_context v (ctx\<lparr>descVirtual := m\<rparr>) p = tx_gso_needs_context v ctx p"
  by (simp_all add: tx_vlan_tag_def tx_context_tag_needed_def tx_gso_needs_context_def Let_def cong: if_cong)

lemma tx_packet_memory [simp]:
  "tx_packet_descs api v (ctx\<lparr>descVirtual := m\<rparr>) p = tx_packet_descs api v ctx p"
  "tx_packet_needed api v (ctx\<lparr>descVirtual := m\<rparr>) p = tx_packet_needed api v ctx p"
  "tx_packet_ctx v (ctx\<lparr>descVirtual := m\<rparr>) p = (tx_packet_ctx v ctx p)\<lparr>descVirtual := m\<rparr>"
  by (simp_all add: tx_packet_descs_def tx_packet_needed_def tx_packet_ctx_def tx_gso_descs_def
      tx_plain_descs_def tx_gso_needed_def tx_gso_ctx_def tx_plain_ctx_def Let_def tx_update_commute)

section \<open>A run of packets\<close>

text \<open>
  The specification of the fill loop: the descriptors of \<open>k\<close> packets from index \<open>p\<close> one after the
  other, and the context with the MSS and VLAN tag the last context descriptors announced.
\<close>

fun tx_stream :: "net_api \<Rightarrow> tx_view \<Rightarrow> TxQueueContext \<Rightarrow> u32 \<Rightarrow> nat \<Rightarrow> u128 list \<times> TxQueueContext" where
  "tx_stream api v ctx p 0 = ([], ctx)"
| "tx_stream api v ctx p (Suc k) =
     (case tx_stream api v (tx_packet_ctx v ctx p) (NetRingIncrementIndex api (packetRing ctx) p) k of
        (ds, c) \<Rightarrow> (tx_packet_descs api v ctx p @ ds, c))"

lemma tx_stream_memory:
  "tx_stream api v (ctx\<lparr>descVirtual := m\<rparr>) p k =
     (case tx_stream api v ctx p k of (ds, c) \<Rightarrow> (ds, c\<lparr>descVirtual := m\<rparr>))"
  by (induction k arbitrary: ctx p) (auto split: prod.split)

lemma tx_stream_fields:
  "tx_stream api v ctx p k = (ds, c) \<Longrightarrow>
     descVirtual c = descVirtual ctx \<and> packetRing c = packetRing ctx \<and> fragmentRing c = fragmentRing ctx
     \<and> descCount c = descCount ctx \<and> descBegin c = descBegin ctx \<and> descEnd c = descEnd ctx
     \<and> descPhysical c = descPhysical ctx \<and> channelRegs c = channelRegs ctx"
  by (induction k arbitrary: ctx p ds) (auto split: prod.splits)

text \<open>Why the fill loop stops in front of packet \<open>p\<close>.\<close>

definition tx_fill_stops :: "net_api \<Rightarrow> tx_view \<Rightarrow> TxQueueContext \<Rightarrow> u32 \<Rightarrow> u32 \<Rightarrow> u32 \<Rightarrow> bool" where
  "tx_fill_stops api v ctx b i p \<longleftrightarrow>
     EMPTY_DESC_REMAINING (descCount ctx) b i = 0 \<or> p = EndIndex (packetRing ctx)
     \<or> unat (EMPTY_DESC_REMAINING (descCount ctx) b i) < tx_packet_needed api v ctx p"

definition tx_fill_result :: "u128 list \<times> TxQueueContext \<Rightarrow> u32 \<Rightarrow> TxQueueContext \<times> u32" where
  "tx_fill_result st i = tx_put_all (fst st) (snd st, i)"

definition tx_pending_wf :: "net_api \<Rightarrow> tx_view \<Rightarrow> TxQueueContext \<Rightarrow> u32 \<Rightarrow> bool" where
  "tx_pending_wf api v ctx p \<longleftrightarrow>
     (\<forall>k < rdist (ring_size (packetRing ctx)) p (EndIndex (packetRing ctx)).
        tx_packet_wf api v (fragmentRing ctx) ((NetRingIncrementIndex api (packetRing ctx) ^^ k) p))"

context net_rings begin

lemma pending_step:
  assumes "sized (packetRing ctx)" "unat p < ring_size (packetRing ctx)"
    "unat (EndIndex (packetRing ctx)) < ring_size (packetRing ctx)" "p \<noteq> EndIndex (packetRing ctx)"
    "tx_pending_wf api v ctx p" "packetRing c = packetRing ctx" "fragmentRing c = fragmentRing ctx"
  shows "tx_packet_wf api v (fragmentRing ctx) p"
    "tx_pending_wf api v c (NetRingIncrementIndex api (packetRing ctx) p)"
proof -
  let ?inc = "NetRingIncrementIndex api (packetRing ctx)"
  let ?d = "rdist (ring_size (packetRing ctx)) (?inc p) (EndIndex (packetRing ctx))"
  have d: "rdist (ring_size (packetRing ctx)) p (EndIndex (packetRing ctx)) = Suc ?d"
    using assms(1-4) by (rule dist_nxt)
  have wf: "tx_packet_wf api v (fragmentRing ctx) ((?inc ^^ k) p)" if "k < Suc ?d" for k
    using assms(5) that by (simp add: tx_pending_wf_def d)
  from wf [of 0] show "tx_packet_wf api v (fragmentRing ctx) p" by simp
  have "tx_packet_wf api v (fragmentRing ctx) ((?inc ^^ k) (?inc p))" if "k < ?d" for k
    using wf [of "Suc k"] that by (simp add: funpow_swap1)
  then show "tx_pending_wf api v c (?inc p)" by (simp add: tx_pending_wf_def assms(6,7))
qed

text \<open>The fill loop ends, and it has written the stream of a prefix of the pending packets.\<close>

lemma tx_fill_correct:
  assumes "sized (packetRing ctx)" "unat p < ring_size (packetRing ctx)"
    "unat (EndIndex (packetRing ctx)) < ring_size (packetRing ctx)"
    "count_ok (descCount ctx)" "unat b < unat (descCount ctx)" "unat i < unat (descCount ctx)"
    "tx_pending_wf api v ctx p"
  shows "\<exists>k \<le> rdist (ring_size (packetRing ctx)) p (EndIndex (packetRing ctx)).
     tx_fill api v b p (ctx, i) =
       Some (tx_fill_result (tx_stream api v ctx p k) i, (NetRingIncrementIndex api (packetRing ctx) ^^ k) p)
     \<and> rdist (unat (descCount ctx)) b i + length (fst (tx_stream api v ctx p k)) < unat (descCount ctx)
     \<and> tx_fill_stops api v (snd (tx_stream api v ctx p k)) b
         (snd (tx_fill_result (tx_stream api v ctx p k) i)) ((NetRingIncrementIndex api (packetRing ctx) ^^ k) p)"
  using assms
proof (induction "rdist (ring_size (packetRing ctx)) p (EndIndex (packetRing ctx))" arbitrary: ctx p i rule: less_induct)
  case less
  let ?n = "unat (descCount ctx)" and ?e = "EndIndex (packetRing ctx)"
  let ?inc = "NetRingIncrementIndex api (packetRing ctx)"
  have room: "rdist ?n b i < ?n" using less.prems(4) by (simp add: rdist_less)
  show ?case
  proof (cases "tx_fill_stops api v ctx b i p")
    case True
    then have "tx_fill api v b p (ctx, i) = Some ((ctx, i), p)"
    proof (cases "EMPTY_DESC_REMAINING (descCount ctx) b i = 0 \<or> p = ?e")
      case False
      with less.prems have "tx_packet_wf api v (fragmentRing ctx) p" using pending_step(1) by blast
      with True False show ?thesis
        by (subst tx_fill.simps) (simp add: tx_fill_stops_def tx_fill_packet_spec)
    qed (auto simp: tx_fill.simps)
    with True room show ?thesis
      by (intro exI [of _ 0]) (simp add: tx_fill_result_def)
  next
    case False
    then have ne: "p \<noteq> ?e" and rem: "EMPTY_DESC_REMAINING (descCount ctx) b i \<noteq> 0"
      and fits: "tx_packet_needed api v ctx p \<le> unat (EMPTY_DESC_REMAINING (descCount ctx) b i)"
      by (auto simp: tx_fill_stops_def)
    let ?ds = "tx_packet_descs api v ctx p" and ?c = "tx_packet_ctx v ctx p"
    let ?w = "write_seq (descCount ctx) (descVirtual ctx, i) ?ds"
    let ?c' = "?c\<lparr>descVirtual := fst ?w\<rparr>" and ?i' = "snd ?w" and ?p' = "?inc p"
    have wf: "tx_packet_wf api v (fragmentRing ctx) p" and pend: "tx_pending_wf api v ?c' ?p'"
      using pending_step [OF less.prems(1-3) ne less.prems(7), of ?c'] by simp_all
    have "length ?ds \<le> unat (EMPTY_DESC_REMAINING (descCount ctx) b i)"
      using tx_packet_descs_length [OF wf] fits by simp
    then have le: "rdist ?n b i + length ?ds < ?n"
      using room less.prems(4-6) by (simp add: remaining_eq)
    have i': "?i' = (desc_next (descCount ctx) ^^ length ?ds) i" by (rule write_seq_index)
    have dist': "rdist ?n b ?i' = rdist ?n b i + length ?ds"
      using less.prems(4-6) le by (simp add: i' desc.dist_iterate)
    have lt': "unat ?i' < ?n" unfolding i' by (rule desc.iterate_less [OF less.prems(4,6)])
    have step: "tx_fill api v b p (ctx, i) = tx_fill api v b ?p' (?c', ?i')"
      using rem ne fits wf
      by (subst tx_fill.simps) (simp add: tx_fill_packet_spec tx_put_all_write_seq)
    have d: "rdist (ring_size (packetRing ctx)) p ?e = Suc (rdist (ring_size (packetRing ctx)) ?p' ?e)"
      using less.prems(1-3) ne by (rule dist_nxt)
    obtain k where k: "k \<le> rdist (ring_size (packetRing ?c')) ?p' (EndIndex (packetRing ?c'))"
      and fill: "tx_fill api v b ?p' (?c', ?i') =
         Some (tx_fill_result (tx_stream api v ?c' ?p' k) ?i', (NetRingIncrementIndex api (packetRing ?c') ^^ k) ?p')"
      and bound: "rdist (unat (descCount ?c')) b ?i' + length (fst (tx_stream api v ?c' ?p' k)) < unat (descCount ?c')"
      and stops: "tx_fill_stops api v (snd (tx_stream api v ?c' ?p' k)) b
         (snd (tx_fill_result (tx_stream api v ?c' ?p' k) ?i')) ((NetRingIncrementIndex api (packetRing ?c') ^^ k) ?p')"
      using less.hyps [of ?c' ?p' ?i'] d less.prems inc_less [OF less.prems(1,2)] lt' pend by auto
    obtain ds c where st: "tx_stream api v ?c ?p' k = (ds, c)" by fastforce
    note fields = tx_stream_fields [OF st]
    have st': "tx_stream api v ?c' ?p' k = (ds, c\<lparr>descVirtual := fst ?w\<rparr>)"
      by (simp add: tx_stream_memory st)
    have whole: "tx_stream api v ctx p (Suc k) = (?ds @ ds, c)" by (simp add: st)
    have res: "tx_fill_result (tx_stream api v ?c' ?p' k) ?i' = tx_fill_result (tx_stream api v ctx p (Suc k)) i"
      unfolding whole st' using fields by (simp add: tx_fill_result_def tx_put_all_write_seq write_seq_append)
    have stops': "tx_fill_stops api v c b j q = tx_fill_stops api v (c\<lparr>descVirtual := m\<rparr>) b j q" for j q m
      by (simp add: tx_fill_stops_def)
    show ?thesis
    proof (intro exI [of _ "Suc k"] conjI)
      show "Suc k \<le> rdist (ring_size (packetRing ctx)) p ?e" using k d by simp
      show "tx_fill api v b p (ctx, i) =
         Some (tx_fill_result (tx_stream api v ctx p (Suc k)) i, (?inc ^^ Suc k) p)"
        unfolding step fill res by (simp add: funpow_swap1)
      show "rdist ?n b i + length (fst (tx_stream api v ctx p (Suc k))) < ?n"
        using bound dist' unfolding whole st' by simp
      show "tx_fill_stops api v (snd (tx_stream api v ctx p (Suc k))) b
         (snd (tx_fill_result (tx_stream api v ctx p (Suc k)) i)) ((?inc ^^ Suc k) p)"
        using stops unfolding res unfolding st' whole by (simp add: stops' [symmetric] funpow_swap1)
    qed
  qed
qed

end

end
