(* ===== verification/TxAccounting.thy ===== *)
theory TxAccounting imports TxQueueCorrect begin

text \<open>
  Accounting of packets against descriptors: every packet the queue has accepted and not yet returned
  has exactly one last descriptor in the ring. This invariant, kept by the advance handler and by the
  device's write-back, is what makes it safe that the handler returns a packet for each last
  descriptor it finds completed.
\<close>

section \<open>Last descriptors and live packets\<close>

definition tx_end_mark :: "u128 \<Rightarrow> bool" where
  "tx_end_mark d \<longleftrightarrow> \<not> isset TxDescriptorWrite ''ContextType'' d \<and> isset TxDescriptorWrite ''LastDescriptor'' d"

definition tx_ends :: "desc_memory \<Rightarrow> u32 \<Rightarrow> u32 \<Rightarrow> u32 \<Rightarrow> nat" where
  "tx_ends m c b e = length (filter (\<lambda>i. tx_end_mark (m i)) (walk (desc_next c) (unat c) b e))"

definition tx_live :: "net_api \<Rightarrow> tx_view \<Rightarrow> NET_RING \<Rightarrow> u32 \<Rightarrow> nat" where
  "tx_live api v ring p = length (filter (\<lambda>i. \<not> Ignore (pkt v i))
     (walk (NetRingIncrementIndex api ring) (ring_size ring) p (NextIndex ring)))"

text \<open>A packet index is at a packet to return, or at the end of the returned region.\<close>

definition tx_settled :: "tx_view \<Rightarrow> NET_RING \<Rightarrow> u32 \<Rightarrow> bool" where
  "tx_settled v ring p \<longleftrightarrow> p = NextIndex ring \<or> \<not> Ignore (pkt v p)"

lemma tx_ends_step:
  assumes "count_ok c" "unat d < unat c" "unat e < unat c" "d \<noteq> e"
  shows "tx_ends m c d e = (if tx_end_mark (m d) then 1 else 0) + tx_ends m c (desc_next c d) e"
  using desc.walk_step [OF assms] by (simp add: tx_ends_def)

context net_rings begin

lemma tx_live_step:
  assumes "sized ring" "unat p < ring_size ring" "unat (NextIndex ring) < ring_size ring" "p \<noteq> NextIndex ring"
  shows "tx_live api v ring p =
    (if Ignore (pkt v p) then 0 else 1) + tx_live api v ring (NetRingIncrementIndex api ring p)"
  using walk_step [OF assms] by (simp add: tx_live_def)

lemma skip_correct:
  assumes "sized ring" "unat p < ring_size ring" "unat (NextIndex ring) < ring_size ring"
  shows "\<exists>q f'. SkipIgnorePackets api v ring p f = Some (q, f') \<and> unat q < ring_size ring
     \<and> tx_settled v ring q \<and> rdist (ring_size ring) q (NextIndex ring) \<le> rdist (ring_size ring) p (NextIndex ring)
     \<and> tx_live api v ring q = tx_live api v ring p"
  using assms
proof (induction rule: walk_induct [where i = p])
  case stop
  then show ?case using assms(3) by (simp add: SkipIgnorePackets.simps tx_settled_def)
next
  case (step i)
  show ?case
  proof (cases "Ignore (pkt v i)")
    case False
    with step.hyps show ?thesis by (simp add: SkipIgnorePackets.simps tx_settled_def)
  next
    case True
    with step.hyps step.IH dist_nxt [OF assms(1) step.hyps(1) assms(3) step.hyps(2)]
      tx_live_step [OF assms(1) step.hyps(1) assms(3) step.hyps(2), of v]
    show ?thesis by (subst SkipIgnorePackets.simps) auto
  qed
qed

text \<open>
  The loop over the completed descriptors ends; it stops at the end of the filled region or at the
  first descriptor the device still owns, and it has gone past one packet for each last descriptor.
\<close>

lemma reap_correct:
  assumes "sized (packetRing ctx)" "unat (NextIndex (packetRing ctx)) < ring_size (packetRing ctx)"
    "count_ok (descCount ctx)" "unat d < unat (descCount ctx)" "unat (descEnd ctx) < unat (descCount ctx)"
    "unat p < ring_size (packetRing ctx)" "tx_settled v (packetRing ctx) p"
    "tx_ends (descVirtual ctx) (descCount ctx) d (descEnd ctx) = tx_live api v (packetRing ctx) p"
  shows "\<exists>d' p' f'. tx_reap api v ctx d p f = Some (d', p', f')
     \<and> unat d' < unat (descCount ctx) \<and> unat p' < ring_size (packetRing ctx)
     \<and> rdist (unat (descCount ctx)) d' (descEnd ctx) \<le> rdist (unat (descCount ctx)) d (descEnd ctx)
     \<and> rdist (ring_size (packetRing ctx)) p' (NextIndex (packetRing ctx))
         \<le> rdist (ring_size (packetRing ctx)) p (NextIndex (packetRing ctx))
     \<and> tx_ends (descVirtual ctx) (descCount ctx) d' (descEnd ctx) = tx_live api v (packetRing ctx) p'
     \<and> tx_settled v (packetRing ctx) p'
     \<and> (d' = descEnd ctx \<or> isset TxDescriptorWrite ''Own'' (descVirtual ctx d'))
     \<and> (\<forall>j. j \<in> set (walk (desc_next (descCount ctx)) (unat (descCount ctx)) d (descEnd ctx))
           - set (walk (desc_next (descCount ctx)) (unat (descCount ctx)) d' (descEnd ctx))
           \<longrightarrow> \<not> isset TxDescriptorWrite ''Own'' (descVirtual ctx j))"
  using assms(3-8)
proof (induction arbitrary: p f rule: desc.walk_induct [where i = d])
  case (stop p f)
  then show ?case using assms(5) by (simp add: tx_reap.simps)
next
  case (step i p f)
  let ?c = "descCount ctx" and ?e = "descEnd ctx" and ?m = "descVirtual ctx" and ?ring = "packetRing ctx"
  let ?w = "walk (desc_next ?c) (unat ?c)"
  note dd = desc.dist_nxt [OF assms(3) step.hyps(1) assms(5) step.hyps(2)]
  note ww = desc.walk_step [OF assms(3) step.hyps(1) assms(5) step.hyps(2)]
  note ends = tx_ends_step [OF assms(3) step.hyps(1) assms(5) step.hyps(2), of ?m]
  show ?case
  proof (cases "isset TxDescriptorWrite ''Own'' (?m i)")
    case True
    with step.hyps step.prems show ?thesis by (simp add: tx_reap.simps)
  next
    case own: False
    show ?thesis
    proof (cases "tx_end_mark (?m i)")
      case False
      with own step.hyps have run: "tx_reap api v ctx i p f = tx_reap api v ctx (desc_next ?c i) p f"
        by (subst tx_reap.simps) (auto simp: tx_end_mark_def)
      have "tx_ends ?m ?c (desc_next ?c i) ?e = tx_live api v ?ring p"
        using ends False step.prems(3) by simp
      from step.IH [OF step.prems(1,2) this, of f] own dd ww show ?thesis
        unfolding run by fastforce
    next
      case True
      have "p \<noteq> NextIndex ?ring"
      proof
        assume "p = NextIndex ?ring"
        then have "tx_live api v ?ring p = 0" by (simp add: tx_live_def)
        with ends True step.prems(3) show False by simp
      qed
      note pn = this
      then have ni: "\<not> Ignore (pkt v p)" using step.prems(2) by (simp add: tx_settled_def)
      let ?p = "NetRingIncrementIndex api ?ring p"
      let ?f = "NetRingAdvanceIndex api (fragmentRing ctx) (FragmentIndex (pkt v p)) (ucast (FragmentCount (pkt v p)))"
      have p': "unat ?p < ring_size ?ring" using inc_less [OF assms(1) step.prems(1)] .
      have "tx_live api v ?ring ?p + 1 = tx_live api v ?ring p"
        using tx_live_step [OF assms(1) step.prems(1) assms(2) pn, of v] ni by simp
      then have live: "tx_ends ?m ?c (desc_next ?c i) ?e = tx_live api v ?ring ?p"
        using ends True step.prems(3) by simp
      obtain q f' where skip: "SkipIgnorePackets api v ?ring ?p ?f = Some (q, f')"
        and q: "unat q < ring_size ?ring" "tx_settled v ?ring q"
          "rdist (ring_size ?ring) q (NextIndex ?ring) \<le> rdist (ring_size ?ring) ?p (NextIndex ?ring)"
          "tx_live api v ?ring q = tx_live api v ?ring ?p"
        using skip_correct [OF assms(1) p' assms(2)] by metis
      have pd: "rdist (ring_size ?ring) p (NextIndex ?ring) = Suc (rdist (ring_size ?ring) ?p (NextIndex ?ring))"
        using dist_nxt [OF assms(1) step.prems(1) assms(2) pn] .
      have run: "tx_reap api v ctx i p f = tx_reap api v ctx (desc_next ?c i) q f'"
        using own True step.hyps skip by (subst tx_reap.simps) (auto simp: tx_end_mark_def)
      have "tx_ends ?m ?c (desc_next ?c i) ?e = tx_live api v ?ring q" using live q by simp
      from step.IH [OF q(1,2) this, of f'] own dd ww q(3) pd show ?thesis
        unfolding run by fastforce
    qed
  qed
qed

end

end
