(* ===== verification/TxInvariant.thy ===== *)
theory TxInvariant imports TxAccounting begin

text \<open>
  The invariant of the transmit queue and its preservation by the advance handler: the indices stay
  inside their rings, the ring never overflows, the tail pointer register says \<open>descEnd\<close>, and the
  region of filled descriptors holds one last descriptor for each accepted packet.
\<close>

section \<open>Which of the written descriptors are last descriptors\<close>

named_theorems tx_marks "end marks of the descriptors the driver writes"

lemma write_view_context:
  "isset TxDescriptorWrite ''ContextType'' = (isset TxDescriptorRead ''ContextType'' :: u128 \<Rightarrow> bool)"
  "isset TxDescriptorWrite ''ContextType'' = (isset TxDescriptorReadTso ''ContextType'' :: u128 \<Rightarrow> bool)"
  "isset TxDescriptorWrite ''ContextType'' = (isset TxDescriptorContext ''ContextType'' :: u128 \<Rightarrow> bool)"
  by (rule isset_same_member, simp only: context_position)+

lemma write_view_last:
  "isset TxDescriptorWrite ''LastDescriptor'' = (isset TxDescriptorRead ''LastDescriptor'' :: u128 \<Rightarrow> bool)"
  "isset TxDescriptorWrite ''LastDescriptor'' = (isset TxDescriptorReadTso ''LastDescriptor'' :: u128 \<Rightarrow> bool)"
  by (rule isset_same_member, simp only: last_position)+

lemma one_bit:
  "0 < snd (member TxDescriptorRead ''LastDescriptor'')" "0 < snd (member TxDescriptorContext ''ContextType'')"
  by (simp_all only: last_position context_position snd_conv)

lemma end_mark_payload [tx_marks]: "tx_end_mark (tx_desc_payload a l t z) = z"
proof -
  have "\<not> isset TxDescriptorRead ''ContextType'' (tx_desc_payload a l t z)"
    by (simp add: tx_desc_payload_def txDescriptorRead.isset_putf_other)
  moreover have "isset TxDescriptorRead ''LastDescriptor'' (tx_desc_payload a l t z) = z"
    by (simp add: tx_desc_payload_def txDescriptorRead.isset_putf_other txDescriptorRead.isset_putf_flag [OF one_bit(1)])
  ultimately show ?thesis by (simp add: tx_end_mark_def write_view_context(1) write_view_last(1))
qed

lemma end_mark_plain [tx_marks]: "tx_end_mark (tx_desc_plain a l t f k y z) = z"
proof -
  have "\<not> isset TxDescriptorRead ''ContextType'' (tx_desc_plain a l t f k y z)"
    by (simp add: tx_desc_plain_def txDescriptorRead.isset_putf_other)
  moreover have "isset TxDescriptorRead ''LastDescriptor'' (tx_desc_plain a l t f k y z) = z"
    by (simp add: tx_desc_plain_def txDescriptorRead.isset_putf_other txDescriptorRead.isset_putf_flag [OF one_bit(1)])
  ultimately show ?thesis by (simp add: tx_end_mark_def write_view_context(1) write_view_last(1))
qed

lemma end_mark_tso [tx_marks]: "\<not> tx_end_mark (tx_desc_tso a h t p l)"
  by (simp add: tx_end_mark_def write_view_last(2) tx_desc_tso_def txDescriptorReadTso.isset_putf_other)

lemma end_mark_context [tx_marks]:
  "\<not> tx_end_mark (tx_desc_context_plain t)" "\<not> tx_end_mark (tx_desc_context_gso m t b)"
  by (simp_all add: tx_end_mark_def write_view_context(3) tx_desc_context_plain_def tx_desc_context_gso_def
      txDescriptorContext.isset_putf_other txDescriptorContext.isset_putf_flag [OF one_bit(2)])

text \<open>Every descriptor the driver writes is owned by the device, in the view it is read back with.\<close>

lemma one_bit_own:
  "0 < snd (member TxDescriptorRead ''Own'')" "0 < snd (member TxDescriptorReadTso ''Own'')"
  "0 < snd (member TxDescriptorContext ''Own'')"
  by (simp_all only: own_position snd_conv)

lemma new_owned [simp]:
  "isset TxDescriptorWrite ''Own'' (tx_desc_plain a l t f k y z)"
  "isset TxDescriptorWrite ''Own'' (tx_desc_payload a n t z)"
  "isset TxDescriptorWrite ''Own'' (tx_desc_tso a h t q l4)"
  "isset TxDescriptorWrite ''Own'' (tx_desc_context_plain tag)"
  "isset TxDescriptorWrite ''Own'' (tx_desc_context_gso mss tag b)"
proof -
  note read = txDescriptorRead.isset_putf_flag [OF one_bit_own(1)]
    and context_view = txDescriptorContext.isset_putf_flag [OF one_bit_own(3)]
  show "isset TxDescriptorWrite ''Own'' (tx_desc_plain a l t f k y z)"
    by (simp add: tx_write_view_own(1) tx_desc_plain_def read)
  show "isset TxDescriptorWrite ''Own'' (tx_desc_payload a n t z)"
    by (simp add: tx_write_view_own(1) tx_desc_payload_def read)
  show "isset TxDescriptorWrite ''Own'' (tx_desc_tso a h t q l4)"
    by (simp add: tx_write_view_own(2) tx_desc_tso_def txDescriptorReadTso.isset_putf_flag [OF one_bit_own(2)])
  show "isset TxDescriptorWrite ''Own'' (tx_desc_context_plain tag)"
    by (simp add: tx_write_view_own(3) tx_desc_context_plain_def context_view)
  show "isset TxDescriptorWrite ''Own'' (tx_desc_context_gso mss tag b)"
    by (simp add: tx_write_view_own(3) tx_desc_context_gso_def context_view)
qed

section \<open>One last descriptor per packet\<close>

text \<open>
  A packet the hardware can send: the assertions of the code hold (theory TxQueueCorrect), it has a
  fragment and a valid fragment index, and with segmentation its last fragment has payload.
\<close>

definition tx_framed :: "net_api \<Rightarrow> tx_view \<Rightarrow> NET_RING \<Rightarrow> u32 \<Rightarrow> bool" where
  "tx_framed api v ring p \<longleftrightarrow>
     Ignore (pkt v p)
     \<or> (tx_packet_wf api v ring p \<and> FragmentCount (pkt v p) \<noteq> 0
        \<and> unat (FragmentIndex (pkt v p)) < ring_size ring
        \<and> ((ucast (gso_mss v p) :: u16) = 0
           \<or> (let sizes = tx_packet_sizes api v ring p
              in last sizes > (if length sizes = 1 then unat (tx_header_length (Layout (pkt v p))) else 0))))"

lemma tx_framed_wf: "tx_framed api v ring p \<Longrightarrow> tx_packet_wf api v ring p"
  by (auto simp: tx_framed_def tx_packet_wf_def)

abbreviation marks :: "u128 list \<Rightarrow> nat" where
  "marks ds \<equiv> length (filter tx_end_mark ds)"

lemma marks_only_last:
  "marks (map (\<lambda>k. d k (Suc k = n)) [0..<n]) = of_bool (0 < n)" if "\<And>k b. tx_end_mark (d k b) = b"
proof (cases n)
  case 0
  then show ?thesis by simp
next
  case (Suc m)
  have "filter tx_end_mark (map (\<lambda>k. d k (Suc k = Suc m)) [0..<m]) = []"
    by (auto simp: filter_empty_conv that)
  then show ?thesis by (simp add: Suc that)
qed

lemma marks_plain:
  assumes "FragmentCount (pkt v p) \<noteq> 0"
  shows "marks (tx_plain_descs api v ctx p) = 1"
proof -
  have "0 < unat (FragmentCount (pkt v p))" using assms by (simp add: unat_gt_0)
  then show ?thesis
    using marks_only_last [of "\<lambda>k b. tx_desc_plain (A k) (B k) vt fl cs (k = 0) b" for A B vt fl cs]
    by (simp add: tx_plain_descs_def Let_def tx_plain_desc_at_def [abs_def] comp_def tx_marks)
qed

lemma marks_buffers:
  "p \<le> L \<Longrightarrow> marks (tx_gso_buffer_descs a L vtc z p) = of_bool (z \<and> p < L)"
proof (induction L p rule: gso_chunks.induct)
  case (1 L p)
  show ?case
  proof (cases "p < L")
    case False
    then show ?thesis using 1 by (simp add: tx_gso_buffer_descs_def)
  next
    case True
    let ?b = "min (L - p) 0x3FFF"
    have "marks (tx_gso_buffer_descs a L vtc z (p + ?b)) = of_bool (z \<and> p + ?b < L)"
      using 1 True by auto
    moreover have "p + ?b = L \<or> p + ?b < L" using True by auto
    ultimately show ?thesis
      using True by (subst tx_gso_buffer_descs_def, subst gso_chunks.simps)
        (auto simp: tx_gso_buffer_descs_def [symmetric] tx_marks)
  qed
qed

lemma marks_concat: "marks (concat xss) = sum_list (map marks xss)"
  by (induction xss) auto

lemma sum_only_last:
  "(\<And>k. Suc k < n \<Longrightarrow> f k = 0) \<Longrightarrow> 0 < n \<Longrightarrow> sum_list (map f [0..<n]) = (f (n - 1) :: nat)"
  by (cases n) (auto simp: sum_list_eq_0_iff)

lemma marks_gso:
  assumes "tx_gso_wf api v (fragmentRing ctx) p" "FragmentCount (pkt v p) \<noteq> 0"
    and last: "let sizes = tx_packet_sizes api v (fragmentRing ctx) p
       in last sizes > (if length sizes = 1 then unat (tx_header_length (Layout (pkt v p))) else 0)"
  shows "marks (tx_gso_descs api v ctx p) = 1"
proof -
  let ?n = "unat (FragmentCount (pkt v p))" and ?f = "FragmentIndex (pkt v p)"
  let ?hdr = "unat (tx_header_length (Layout (pkt v p)))" and ?ring = "fragmentRing ctx"
  let ?size = "frag_size api v ?ring ?f"
  have n: "0 < ?n" using assms(2) by (simp add: unat_gt_0)
  have hdr: "?hdr \<le> ?size 0"
    using assms(1) n by (simp add: tx_gso_wf_def Let_def tx_packet_sizes_def)
  have lst: "(if ?n = 1 then ?hdr else 0) < ?size (?n - 1)"
    using last n by (simp add: tx_packet_sizes_def Let_def last_map)
  have one: "marks (tx_gso_frag_descs api v ?ring t ?n ?hdr ?f k)
      = of_bool (Suc k = ?n \<and> (if k = 0 then ?hdr else 0) < ?size k)" for t k
    using hdr by (auto simp: tx_gso_frag_descs_def marks_buffers)
  have "sum_list (map (\<lambda>k. marks (tx_gso_frag_descs api v ?ring t ?n ?hdr ?f k)) [0..<?n]) = 1" for t
    using lst n unfolding one by (subst sum_only_last) auto
  then show ?thesis
    by (simp add: tx_gso_descs_def Let_def tx_marks marks_concat comp_def)
qed

lemma marks_packet:
  "tx_framed api v (fragmentRing ctx) p \<Longrightarrow> marks (tx_packet_descs api v ctx p) = of_bool (\<not> Ignore (pkt v p))"
  by (auto simp: tx_framed_def tx_packet_wf_def tx_packet_descs_def marks_plain marks_gso)

lemma marks_stream:
  assumes "\<And>j. j < k \<Longrightarrow> tx_framed api v (fragmentRing ctx) ((NetRingIncrementIndex api (packetRing ctx) ^^ j) p)"
  shows "marks (fst (tx_stream api v ctx p k)) =
    length (filter (\<lambda>i. \<not> Ignore (pkt v i)) (map (\<lambda>j. (NetRingIncrementIndex api (packetRing ctx) ^^ j) p) [0..<k]))"
  using assms
proof (induction k arbitrary: ctx p)
  case 0
  then show ?case by simp
next
  case (Suc k)
  let ?inc = "NetRingIncrementIndex api (packetRing ctx)"
  have up: "[0..<Suc k] = 0 # map Suc [0..<k]"
    by (simp add: upt_conv_Cons map_Suc_upt del: upt_Suc)
  have "tx_framed api v (fragmentRing ctx) p" using Suc.prems [of 0] by simp
  moreover have "marks (fst (tx_stream api v (tx_packet_ctx v ctx p) (?inc p) k)) =
      length (filter (\<lambda>i. \<not> Ignore (pkt v i)) (map (\<lambda>j. (?inc ^^ j) (?inc p)) [0..<k]))"
    using Suc.IH [of "tx_packet_ctx v ctx p" "?inc p"] Suc.prems [of "Suc _"] by (simp add: funpow_swap1)
  moreover obtain ds c where "tx_stream api v (tx_packet_ctx v ctx p) (?inc p) k = (ds, c)" by fastforce
  ultimately show ?case
    unfolding up by (simp add: marks_packet comp_def funpow_swap1)
qed

context net_rings begin

lemma tx_framed_sizes:
  assumes "tx_framed api v r p" "NumberOfElements s = NumberOfElements r" "\<not> Ignore (pkt v p)"
  shows "tx_packet_sizes api v s p = tx_packet_sizes api v r p"
proof -
  have f: "unat (FragmentIndex (pkt v p)) < ring_size r" using assms(1,3) by (simp add: tx_framed_def)
  then have "sized r" by (simp add: sized_def)
  then show ?thesis
    using assms(2) f by (simp add: tx_packet_sizes_def frag_size_def iterate_same [of r s])
qed

lemma tx_framed_same:
  assumes "tx_framed api v r p" "NumberOfElements s = NumberOfElements r"
  shows "tx_framed api v s p"
proof (cases "Ignore (pkt v p)")
  case True
  then show ?thesis by (simp add: tx_framed_def)
next
  case False
  have "ring_size s = ring_size r" using assms(2) by (simp add: ring_size_def)
  then show ?thesis
    using assms(1) tx_framed_sizes [OF assms False] by (simp add: tx_framed_def tx_packet_wf_def tx_gso_wf_def)
qed

end

end
