(* ===== verification/TxSafety.thy ===== *)
theory TxSafety imports TxInvariant begin

text \<open>
  The advance handler keeps the invariant of the transmit queue: it ends, the rings stay in bounds and
  never overflow, every descriptor the device still owns survives, and the count of last descriptors
  stays the count of live packets.
\<close>

section \<open>The invariant\<close>

definition tx_tail_ok :: "TxQueueContext \<Rightarrow> bool" where
  "tx_tail_ok ctx \<longleftrightarrow>
     Read32 TxDesc_Tail_Pointer (channelRegs ctx) = LowPart (descPhysical ctx) + descEnd ctx * QueueDescriptorSize"

definition tx_rings_ok :: "TxQueueContext \<Rightarrow> bool" where
  "tx_rings_ok ctx \<longleftrightarrow>
     ring_ok (packetRing ctx) \<and> count_ok (descCount ctx)
     \<and> unat (descBegin ctx) < unat (descCount ctx) \<and> unat (descEnd ctx) < unat (descCount ctx)
     \<and> rdist (ring_size (packetRing ctx)) (BeginIndex (packetRing ctx)) (NextIndex (packetRing ctx))
       + rdist (ring_size (packetRing ctx)) (NextIndex (packetRing ctx)) (EndIndex (packetRing ctx))
       < ring_size (packetRing ctx)"

definition tx_counted :: "net_api \<Rightarrow> tx_view \<Rightarrow> TxQueueContext \<Rightarrow> bool" where
  "tx_counted api v ctx \<longleftrightarrow>
     tx_ends (descVirtual ctx) (descCount ctx) (descBegin ctx) (descEnd ctx)
     = tx_live api v (packetRing ctx) (BeginIndex (packetRing ctx))"

definition tx_inv :: "net_api \<Rightarrow> tx_view \<Rightarrow> TxQueueContext \<Rightarrow> bool" where
  "tx_inv api v ctx \<longleftrightarrow> tx_rings_ok ctx \<and> tx_counted api v ctx \<and> tx_tail_ok ctx"

definition tx_pending_framed :: "net_api \<Rightarrow> tx_view \<Rightarrow> TxQueueContext \<Rightarrow> bool" where
  "tx_pending_framed api v ctx \<longleftrightarrow>
     (\<forall>p \<in> set (walk (NetRingIncrementIndex api (packetRing ctx)) (ring_size (packetRing ctx))
                  (NextIndex (packetRing ctx)) (EndIndex (packetRing ctx))).
        tx_framed api v (fragmentRing ctx) p)"

text \<open>The slots of the descriptors handed to the device and not yet taken back.\<close>

definition tx_in_flight :: "TxQueueContext \<Rightarrow> u32 list" where
  "tx_in_flight ctx = walk (desc_next (descCount ctx)) (unat (descCount ctx)) (descBegin ctx) (descEnd ctx)"

abbreviation tx_owned :: "TxQueueContext \<Rightarrow> u32 \<Rightarrow> bool" where
  "tx_owned ctx j \<equiv> isset TxDescriptorWrite ''Own'' (descVirtual ctx j)"

text \<open>What no operation on the ring changes.\<close>

definition tx_same_ring :: "TxQueueContext \<Rightarrow> TxQueueContext \<Rightarrow> bool" where
  "tx_same_ring c d \<longleftrightarrow> descPhysical d = descPhysical c \<and> descCount d = descCount c
     \<and> NumberOfElements (packetRing d) = NumberOfElements (packetRing c)
     \<and> EndIndex (packetRing d) = EndIndex (packetRing c)
     \<and> NumberOfElements (fragmentRing d) = NumberOfElements (fragmentRing c)
     \<and> Read32 Ch_Tx_Control (channelRegs d) = Read32 Ch_Tx_Control (channelRegs c)"

section \<open>Returning packets\<close>

context net_rings begin

lemma indicate_correct:
  assumes "tx_inv api v ctx"
  shows "\<exists>d p f. tx_indicate api v ctx =
       Some (ctx\<lparr>packetRing := (packetRing ctx)\<lparr>BeginIndex := p\<rparr>,
                 fragmentRing := (fragmentRing ctx)\<lparr>BeginIndex := f\<rparr>, descBegin := d\<rparr>)
     \<and> unat d < unat (descCount ctx) \<and> unat p < ring_size (packetRing ctx)
     \<and> rdist (unat (descCount ctx)) d (descEnd ctx) \<le> rdist (unat (descCount ctx)) (descBegin ctx) (descEnd ctx)
     \<and> rdist (ring_size (packetRing ctx)) p (NextIndex (packetRing ctx))
         \<le> rdist (ring_size (packetRing ctx)) (BeginIndex (packetRing ctx)) (NextIndex (packetRing ctx))
     \<and> tx_ends (descVirtual ctx) (descCount ctx) d (descEnd ctx) = tx_live api v (packetRing ctx) p
     \<and> tx_settled v (packetRing ctx) p \<and> (d = descEnd ctx \<or> tx_owned ctx d)
     \<and> (\<forall>j. j \<in> set (tx_in_flight ctx)
             - set (walk (desc_next (descCount ctx)) (unat (descCount ctx)) d (descEnd ctx)) \<longrightarrow> \<not> tx_owned ctx j)"
proof -
  let ?ring = "packetRing ctx"
  have ok: "ring_ok ?ring" "count_ok (descCount ctx)" "unat (descBegin ctx) < unat (descCount ctx)"
    "unat (descEnd ctx) < unat (descCount ctx)"
    and cnt: "tx_ends (descVirtual ctx) (descCount ctx) (descBegin ctx) (descEnd ctx)
      = tx_live api v ?ring (BeginIndex ?ring)"
    using assms by (simp_all add: tx_inv_def tx_rings_ok_def tx_counted_def)
  then have r: "sized ?ring" "unat (BeginIndex ?ring) < ring_size ?ring" "unat (NextIndex ?ring) < ring_size ?ring"
    by (simp_all add: ring_ok_sized ring_ok_def)
  obtain q f where skip: "SkipIgnorePackets api v ?ring (BeginIndex ?ring) (BeginIndex (fragmentRing ctx)) = Some (q, f)"
    and q: "unat q < ring_size ?ring" "tx_settled v ?ring q"
      "rdist (ring_size ?ring) q (NextIndex ?ring) \<le> rdist (ring_size ?ring) (BeginIndex ?ring) (NextIndex ?ring)"
      "tx_live api v ?ring q = tx_live api v ?ring (BeginIndex ?ring)"
    using skip_correct [OF r] by metis
  have "tx_ends (descVirtual ctx) (descCount ctx) (descBegin ctx) (descEnd ctx) = tx_live api v ?ring q"
    using cnt q by simp
  from reap_correct [OF r(1,3) ok(2-4) q(1,2) this, of f] q(3) show ?thesis
    by (fastforce simp: tx_indicate_def skip tx_in_flight_def)
qed

section \<open>Filling descriptors\<close>

lemma ends_extend:
  assumes "count_ok c" "unat b < unat c" "unat e < unat c" "rdist (unat c) b e + length ds < unat c"
  shows "tx_ends (fst (write_seq c (m, e) ds)) c b (snd (write_seq c (m, e) ds)) = tx_ends m c b e + marks ds"
proof -
  have ends: "tx_ends m' c b x = marks (map m' (walk (desc_next c) (unat c) b x))" for m' x
    by (simp add: tx_ends_def filter_map comp_def)
  show ?thesis unfolding ends write_seq_walk [OF assms] by simp
qed

lemma live_extend:
  assumes "sized ring" "unat p < ring_size ring" "unat (NextIndex ring) < ring_size ring"
    "rdist (ring_size ring) p (NextIndex ring) + k < ring_size ring"
  shows "tx_live api v (ring\<lparr>NextIndex := (NetRingIncrementIndex api ring ^^ k) (NextIndex ring)\<rparr>) p
    = tx_live api v ring p
      + length (filter (\<lambda>i. \<not> Ignore (pkt v i))
          (map (\<lambda>j. (NetRingIncrementIndex api ring ^^ j) (NextIndex ring)) [0..<k]))"
proof -
  let ?inc = "NetRingIncrementIndex api ring"
  have "walk (NetRingIncrementIndex api (ring\<lparr>NextIndex := q\<rparr>)) n p e = walk ?inc n p e" for q n e
    using assms by (intro walk_same) simp_all
  then show ?thesis
    using walk_extend [OF assms] by (simp add: tx_live_def ring_size_def)
qed

lemma rings_begin:
  assumes "sized ring" "unat p < ring_size ring"
  shows "tx_live api v (ring\<lparr>BeginIndex := q\<rparr>) p = tx_live api v ring p"
  using walk_same [OF assms(1) _ assms(2), of "ring\<lparr>BeginIndex := q\<rparr>"] by (simp add: tx_live_def ring_size_def)

lemma pending_framed_same:
  assumes "tx_pending_framed api v c" "ring_ok (packetRing c)"
    "NumberOfElements (packetRing d) = NumberOfElements (packetRing c)"
    "NextIndex (packetRing d) = NextIndex (packetRing c)" "EndIndex (packetRing d) = EndIndex (packetRing c)"
    "NumberOfElements (fragmentRing d) = NumberOfElements (fragmentRing c)"
  shows "tx_pending_framed api v d"
proof -
  have "walk (NetRingIncrementIndex api (packetRing d)) n (NextIndex (packetRing c)) e
      = walk (NetRingIncrementIndex api (packetRing c)) n (NextIndex (packetRing c)) e" for n e
    using assms(2,3) by (intro walk_same) (simp_all add: ring_ok_sized ring_ok_def)
  then show ?thesis
    using assms tx_framed_same by (fastforce simp: tx_pending_framed_def ring_size_def)
qed

lemma pending_framed_suffix:
  assumes "tx_pending_framed api v c" "ring_ok (packetRing c)"
    "k \<le> rdist (ring_size (packetRing c)) (NextIndex (packetRing c)) (EndIndex (packetRing c))"
  shows "tx_pending_framed api v (c\<lparr>packetRing := (packetRing c)
    \<lparr>NextIndex := (NetRingIncrementIndex api (packetRing c) ^^ k) (NextIndex (packetRing c))\<rparr>\<rparr>)"
proof -
  let ?r = "packetRing c"
  let ?inc = "NetRingIncrementIndex api ?r"
  let ?q = "(?inc ^^ k) (NextIndex ?r)"
  have r: "sized ?r" "unat (NextIndex ?r) < ring_size ?r" "unat (EndIndex ?r) < ring_size ?r"
    using assms(2) by (simp_all add: ring_ok_sized ring_ok_def)
  have q: "unat ?q < ring_size ?r" using r by (simp add: iterate_less)
  have sub: "set (walk ?inc (ring_size ?r) ?q (EndIndex ?r)) \<subseteq> set (walk ?inc (ring_size ?r) (NextIndex ?r) (EndIndex ?r))"
  proof
    fix j assume j: "j \<in> set (walk ?inc (ring_size ?r) ?q (EndIndex ?r))"
    then obtain m where m: "m < rdist (ring_size ?r) ?q (EndIndex ?r)" and jm: "j = (?inc ^^ m) ?q"
      by (auto simp: walk_def)
    have jj: "j = (?inc ^^ (m + k)) (NextIndex ?r)" by (simp only: jm funpow_add comp_apply)
    have "m + k < rdist (ring_size ?r) (NextIndex ?r) (EndIndex ?r)"
      using m dist_remaining [OF r assms(3)] assms(3) by simp
    then show "j \<in> set (walk ?inc (ring_size ?r) (NextIndex ?r) (EndIndex ?r))"
      unfolding walk_def set_map jj by (intro imageI) simp
  qed
  have "walk (NetRingIncrementIndex api (?r\<lparr>NextIndex := ?q\<rparr>)) n ?q e = walk ?inc n ?q e" for n e
    using r q by (intro walk_same) simp_all
  then show ?thesis using assms(1) sub by (auto simp: tx_pending_framed_def ring_size_def)
qed

lemma indicate_inv:
  assumes inv: "tx_inv api v ctx" and fr: "tx_pending_framed api v ctx"
  shows "\<exists>ctx1. tx_indicate api v ctx = Some ctx1 \<and> tx_inv api v ctx1 \<and> tx_pending_framed api v ctx1
     \<and> tx_same_ring ctx ctx1 \<and> NextIndex (packetRing ctx1) = NextIndex (packetRing ctx)
     \<and> descEnd ctx1 = descEnd ctx \<and> descVirtual ctx1 = descVirtual ctx
     \<and> (\<forall>j. j \<in> set (tx_in_flight ctx) \<and> tx_owned ctx j \<longrightarrow> j \<in> set (tx_in_flight ctx1))"
proof -
  let ?ring = "packetRing ctx" and ?w = "walk (desc_next (descCount ctx)) (unat (descCount ctx))"
  obtain d p f where ind: "tx_indicate api v ctx = Some (ctx\<lparr>packetRing := ?ring\<lparr>BeginIndex := p\<rparr>,
        fragmentRing := (fragmentRing ctx)\<lparr>BeginIndex := f\<rparr>, descBegin := d\<rparr>)"
    and dp: "unat d < unat (descCount ctx)" "unat p < ring_size ?ring"
      "rdist (ring_size ?ring) p (NextIndex ?ring) \<le> rdist (ring_size ?ring) (BeginIndex ?ring) (NextIndex ?ring)"
      "tx_ends (descVirtual ctx) (descCount ctx) d (descEnd ctx) = tx_live api v ?ring p"
    and own: "\<And>j. j \<in> set (tx_in_flight ctx) - set (?w d (descEnd ctx)) \<Longrightarrow> \<not> tx_owned ctx j"
    using indicate_correct [OF inv] by blast
  let ?c = "ctx\<lparr>packetRing := ?ring\<lparr>BeginIndex := p\<rparr>,
        fragmentRing := (fragmentRing ctx)\<lparr>BeginIndex := f\<rparr>, descBegin := d\<rparr>"
  have ok: "tx_rings_ok ctx" "tx_tail_ok ctx" "ring_ok ?ring"
    using inv by (simp_all add: tx_inv_def tx_rings_ok_def)
  have "tx_counted api v ?c"
    using dp(2,4) ok(3) by (simp add: tx_counted_def rings_begin ring_ok_sized)
  moreover have "tx_rings_ok ?c" using ok(1) dp by (auto simp: tx_rings_ok_def ring_ok_def ring_size_def)
  moreover have "tx_tail_ok ?c" using ok(2) by (simp add: tx_tail_ok_def)
  moreover have "tx_pending_framed api v ?c" by (rule pending_framed_same [OF fr ok(3)]) simp_all
  moreover have "tx_same_ring ctx ?c" by (simp add: tx_same_ring_def)
  moreover have "set (tx_in_flight ?c) = set (?w d (descEnd ctx))" by (simp add: tx_in_flight_def)
  ultimately show ?thesis using own unfolding ind by (intro exI [of _ ?c]) (auto simp: tx_inv_def)
qed

lemma fill_runs:
  assumes inv: "tx_inv api v ctx" and fr: "tx_pending_framed api v ctx"
  shows "\<exists>k ds c. k \<le> rdist (ring_size (packetRing ctx)) (NextIndex (packetRing ctx)) (EndIndex (packetRing ctx))
     \<and> tx_stream api v ctx (NextIndex (packetRing ctx)) k = (ds, c)
     \<and> tx_fill api v (descBegin ctx) (NextIndex (packetRing ctx)) (ctx, descEnd ctx) =
         Some (tx_put_all ds (c, descEnd ctx), (NetRingIncrementIndex api (packetRing ctx) ^^ k) (NextIndex (packetRing ctx)))
     \<and> rdist (unat (descCount ctx)) (descBegin ctx) (descEnd ctx) + length ds < unat (descCount ctx)
     \<and> marks ds = length (filter (\<lambda>i. \<not> Ignore (pkt v i))
          (map (\<lambda>j. (NetRingIncrementIndex api (packetRing ctx) ^^ j) (NextIndex (packetRing ctx))) [0..<k]))
     \<and> tx_fill_stops api v c (descBegin ctx) ((desc_next (descCount ctx) ^^ length ds) (descEnd ctx))
          ((NetRingIncrementIndex api (packetRing ctx) ^^ k) (NextIndex (packetRing ctx)))"
proof -
  let ?ring = "packetRing ctx" and ?p = "NextIndex (packetRing ctx)"
  let ?inc = "NetRingIncrementIndex api (packetRing ctx)"
  have ok: "ring_ok ?ring" "count_ok (descCount ctx)" "unat (descBegin ctx) < unat (descCount ctx)"
    "unat (descEnd ctx) < unat (descCount ctx)"
    using inv by (simp_all add: tx_inv_def tx_rings_ok_def)
  then have r: "sized ?ring" "unat ?p < ring_size ?ring" "unat (EndIndex ?ring) < ring_size ?ring"
    by (simp_all add: ring_ok_sized ring_ok_def)
  have framed: "tx_framed api v (fragmentRing ctx) ((?inc ^^ j) ?p)" if "j < rdist (ring_size ?ring) ?p (EndIndex ?ring)" for j
    using fr that by (auto simp: tx_pending_framed_def walk_def)
  then have "tx_pending_wf api v ctx ?p" by (auto simp: tx_pending_wf_def intro!: tx_framed_wf)
  from tx_fill_correct [OF r ok(2-4) this] obtain k
    where k: "k \<le> rdist (ring_size ?ring) ?p (EndIndex ?ring)"
    and run: "tx_fill api v (descBegin ctx) ?p (ctx, descEnd ctx) =
      Some (tx_fill_result (tx_stream api v ctx ?p k) (descEnd ctx), (?inc ^^ k) ?p)"
    and room: "rdist (unat (descCount ctx)) (descBegin ctx) (descEnd ctx) + length (fst (tx_stream api v ctx ?p k))
      < unat (descCount ctx)"
    and stops: "tx_fill_stops api v (snd (tx_stream api v ctx ?p k)) (descBegin ctx)
         (snd (tx_fill_result (tx_stream api v ctx ?p k) (descEnd ctx))) ((?inc ^^ k) ?p)"
    by blast
  obtain ds c where st: "tx_stream api v ctx ?p k = (ds, c)" by fastforce
  have "marks (fst (tx_stream api v ctx ?p k)) = length (filter (\<lambda>i. \<not> Ignore (pkt v i)) (map (\<lambda>j. (?inc ^^ j) ?p) [0..<k]))"
    by (rule marks_stream) (use framed k in simp)
  moreover have "snd (tx_fill_result (ds, c) (descEnd ctx)) = (desc_next (descCount ctx) ^^ length ds) (descEnd ctx)"
    using tx_stream_fields [OF st] by (simp add: tx_fill_result_def tx_put_all_write_seq write_seq_index)
  ultimately show ?thesis using k run room stops by (auto simp: st tx_fill_result_def)
qed

lemma fill_inv:
  assumes inv: "tx_inv api v ctx" and fr: "tx_pending_framed api v ctx"
  shows "\<exists>c i p. tx_fill api v (descBegin ctx) (NextIndex (packetRing ctx)) (ctx, descEnd ctx) = Some ((c, i), p)
     \<and> tx_inv api v (tx_publish (descEnd ctx) i p c) \<and> tx_same_ring ctx (tx_publish (descEnd ctx) i p c)
     \<and> tx_pending_framed api v (tx_publish (descEnd ctx) i p c)
     \<and> (\<forall>j \<in> set (tx_in_flight ctx). j \<in> set (tx_in_flight (tx_publish (descEnd ctx) i p c))
           \<and> descVirtual (tx_publish (descEnd ctx) i p c) j = descVirtual ctx j)"
proof -
  let ?ring = "packetRing ctx" and ?c = "descCount ctx" and ?e = "descEnd ctx" and ?b = "descBegin ctx"
  let ?inc = "NetRingIncrementIndex api ?ring" and ?p = "NextIndex ?ring" and ?N = "ring_size ?ring"
  have ok: "ring_ok ?ring" "count_ok ?c" "unat ?b < unat ?c" "unat ?e < unat ?c"
    and sum: "rdist ?N (BeginIndex ?ring) ?p + rdist ?N ?p (EndIndex ?ring) < ?N"
    and tail: "tx_tail_ok ctx" and cnt: "tx_counted api v ctx"
    using inv by (simp_all add: tx_inv_def tx_rings_ok_def)
  then have r: "sized ?ring" "unat (BeginIndex ?ring) < ?N" "unat ?p < ?N" "unat (EndIndex ?ring) < ?N"
    by (simp_all add: ring_ok_sized ring_ok_def)
  obtain k ds c where k: "k \<le> rdist ?N ?p (EndIndex ?ring)" and st: "tx_stream api v ctx ?p k = (ds, c)"
    and run: "tx_fill api v ?b ?p (ctx, ?e) = Some (tx_put_all ds (c, ?e), (?inc ^^ k) ?p)"
    and room: "rdist (unat ?c) ?b ?e + length ds < unat ?c"
    and mk: "marks ds = length (filter (\<lambda>i. \<not> Ignore (pkt v i)) (map (\<lambda>j. (?inc ^^ j) ?p) [0..<k]))"
    using fill_runs [OF inv fr] by blast
  note fields = tx_stream_fields [OF st]
  let ?m = "fst (write_seq ?c (descVirtual ctx, ?e) ds)" and ?i = "snd (write_seq ?c (descVirtual ctx, ?e) ds)"
  let ?q = "(?inc ^^ k) ?p"
  let ?ctx' = "tx_publish ?e ?i ?q (c\<lparr>descVirtual := ?m\<rparr>)"
  have i: "?i = (desc_next ?c ^^ length ds) ?e" by (rule write_seq_index)
  have keeps: "?m j = descVirtual ctx j" if "j \<in> set (tx_in_flight ctx)" for j
    using write_seq_keeps [OF ok(2-4) room] that by (simp add: tx_in_flight_def)
  have "tx_inv api v ?ctx' \<and> tx_same_ring ctx ?ctx' \<and> tx_pending_framed api v ?ctx'
     \<and> (\<forall>j \<in> set (tx_in_flight ctx). j \<in> set (tx_in_flight ?ctx') \<and> descVirtual ?ctx' j = descVirtual ctx j)"
  proof (cases "ds = []")
    case True
    then show ?thesis
      using fields ok sum cnt tail r pending_framed_same [OF fr ok(1), of "c\<lparr>descVirtual := descVirtual ctx\<rparr>"]
      by (simp add: tx_publish_def tx_inv_def tx_rings_ok_def tx_counted_def tx_tail_ok_def tx_same_ring_def tx_in_flight_def)
  next
    case False
    have ne: "?i \<noteq> ?e"
    proof
      assume "?i = ?e"
      then have "(desc_next ?c ^^ length ds) ?e = (desc_next ?c ^^ 0) ?e" by (simp add: i)
      then have "length ds = 0" by (rule desc.iterate_inj [OF ok(2,4), rotated 2]) (use room in auto)
      with False show False by simp
    qed
    have ctx': "?ctx' = (TxSetDescEnd ?i (c\<lparr>descVirtual := ?m\<rparr>))\<lparr>packetRing := ?ring\<lparr>NextIndex := ?q\<rparr>\<rparr>"
      using ne fields by (simp add: tx_publish_def)
    have q: "unat ?q < ?N" using r by (simp add: iterate_less)
    have il: "unat ?i < unat ?c" unfolding i by (rule desc.iterate_less [OF ok(2,4)])
    have bound: "rdist ?N (BeginIndex ?ring) ?q + rdist ?N ?q (EndIndex ?ring) < ?N"
      using dist_iterate [OF r(1,3,2), of k] dist_remaining [OF r(1,3,4) k] sum k by linarith
    have "tx_rings_ok ?ctx'"
      using ok(2,3) r il q bound fields
      by (simp add: ctx' tx_rings_ok_def TxSetDescEnd_def Let_def ring_ok_def ring_size_def)
    moreover have "tx_counted api v ?ctx'"
    proof -
      have "tx_ends ?m ?c ?b ?i = tx_ends (descVirtual ctx) ?c ?b ?e + marks ds"
        by (rule ends_extend [OF ok(2-4) room])
      moreover have "tx_live api v (?ring\<lparr>NextIndex := ?q\<rparr>) (BeginIndex ?ring) = tx_live api v ?ring (BeginIndex ?ring) + marks ds"
        using live_extend [OF r(1-3), of k v] sum k mk by simp
      ultimately show ?thesis
        using cnt fields by (simp add: ctx' tx_counted_def TxSetDescEnd_def Let_def)
    qed
    moreover have "tx_pending_framed api v ?ctx'"
    proof -
      let ?d = "ctx\<lparr>packetRing := ?ring\<lparr>NextIndex := ?q\<rparr>\<rparr>"
      have "tx_pending_framed api v ?d" by (rule pending_framed_suffix [OF fr ok(1) k])
      moreover have "ring_ok (packetRing ?d)" using r q by (simp add: ring_ok_def ring_size_def)
      ultimately show ?thesis
        by (rule pending_framed_same) (use fields in \<open>simp_all add: ctx' TxSetDescEnd_def Let_def\<close>)
    qed
    moreover have "tx_tail_ok ?ctx'" using fields by (simp add: ctx' tx_tail_ok_def TxSetDescEnd_def Let_def)
    moreover have "tx_same_ring ctx ?ctx'"
      using fields by (simp add: ctx' tx_same_ring_def TxSetDescEnd_def Let_def)
    moreover have "tx_in_flight ?ctx' = tx_in_flight ctx @ map (\<lambda>j. (desc_next ?c ^^ j) ?e) [0..<length ds]"
      using desc.walk_extend [OF ok(2-4) room, folded i] fields
      by (simp add: ctx' tx_in_flight_def TxSetDescEnd_def Let_def)
    moreover have "descVirtual ?ctx' = ?m" by (simp add: ctx' TxSetDescEnd_def Let_def)
    ultimately show ?thesis using keeps by (simp add: tx_inv_def)
  qed
  then show ?thesis using run fields by (simp add: tx_put_all_write_seq)
qed

text \<open>\<open>TxQueueAdvance\<close> ends, keeps the invariant, and leaves what the device owns alone.\<close>

lemma advance_correct:
  assumes inv: "tx_inv api v ctx" and fr: "tx_pending_framed api v ctx"
  shows "\<exists>ctx'. TxQueueAdvance api v ctx = Some (ctx', 0) \<and> tx_inv api v ctx' \<and> tx_pending_framed api v ctx' \<and> tx_same_ring ctx ctx'
     \<and> (\<forall>j. j \<in> set (tx_in_flight ctx) \<and> tx_owned ctx j
          \<longrightarrow> j \<in> set (tx_in_flight ctx') \<and> descVirtual ctx' j = descVirtual ctx j)"
proof -
  obtain ctx1 where ind: "tx_indicate api v ctx = Some ctx1"
    and inv1: "tx_inv api v ctx1" "tx_pending_framed api v ctx1" "tx_same_ring ctx ctx1"
      "descEnd ctx1 = descEnd ctx" "descVirtual ctx1 = descVirtual ctx"
    and own: "\<And>j. j \<in> set (tx_in_flight ctx) \<and> tx_owned ctx j \<Longrightarrow> j \<in> set (tx_in_flight ctx1)"
    using indicate_inv [OF inv fr] by blast
  obtain c i p where run: "tx_fill api v (descBegin ctx1) (NextIndex (packetRing ctx1)) (ctx1, descEnd ctx1) = Some ((c, i), p)"
    and fin: "tx_inv api v (tx_publish (descEnd ctx1) i p c)" "tx_pending_framed api v (tx_publish (descEnd ctx1) i p c)"
      "tx_same_ring ctx1 (tx_publish (descEnd ctx1) i p c)"
      "\<forall>j \<in> set (tx_in_flight ctx1). j \<in> set (tx_in_flight (tx_publish (descEnd ctx1) i p c))
           \<and> descVirtual (tx_publish (descEnd ctx1) i p c) j = descVirtual ctx1 j"
    using fill_inv [OF inv1(1,2)] by blast
  have "TxQueueAdvance api v ctx = Some (tx_publish (descEnd ctx1) i p c, 0)"
    using run inv1(4) by (simp add: TxQueueAdvance_def ind)
  moreover have "tx_same_ring ctx (tx_publish (descEnd ctx1) i p c)"
    using inv1(3) fin(3) by (simp add: tx_same_ring_def)
  ultimately show ?thesis using own fin inv1(5) by auto
qed

text \<open>
  When the device has written back every descriptor, the next advance returns every packet the queue
  had accepted.
\<close>

lemma indicate_all:
  assumes inv: "tx_inv api v ctx" and idle: "\<forall>j. j \<in> set (tx_in_flight ctx) \<longrightarrow> \<not> tx_owned ctx j"
  shows "\<exists>ctx1. tx_indicate api v ctx = Some ctx1 \<and> descBegin ctx1 = descEnd ctx
     \<and> BeginIndex (packetRing ctx1) = NextIndex (packetRing ctx)"
proof -
  let ?ring = "packetRing ctx" and ?w = "walk (desc_next (descCount ctx)) (unat (descCount ctx))"
  have ok: "count_ok (descCount ctx)" "unat (descEnd ctx) < unat (descCount ctx)"
      "unat (descBegin ctx) < unat (descCount ctx)" "ring_ok ?ring"
    using inv by (simp_all add: tx_inv_def tx_rings_ok_def)
  obtain d p f where ind: "tx_indicate api v ctx = Some (ctx\<lparr>packetRing := ?ring\<lparr>BeginIndex := p\<rparr>,
        fragmentRing := (fragmentRing ctx)\<lparr>BeginIndex := f\<rparr>, descBegin := d\<rparr>)"
    and d: "unat d < unat (descCount ctx)" "unat p < ring_size ?ring"
      "rdist (unat (descCount ctx)) d (descEnd ctx) \<le> rdist (unat (descCount ctx)) (descBegin ctx) (descEnd ctx)"
    and cnt: "tx_ends (descVirtual ctx) (descCount ctx) d (descEnd ctx) = tx_live api v ?ring p"
    and settled: "tx_settled v ?ring p" and stop: "d = descEnd ctx \<or> tx_owned ctx d"
    using indicate_correct [OF inv] by blast
  have "d = descEnd ctx"
  proof (rule ccontr)
    assume ne: "d \<noteq> descEnd ctx"
    have "d \<in> set (tx_in_flight ctx)"
      unfolding tx_in_flight_def by (rule desc.in_walk_closer [OF ok(1,3,2) d(1) ne d(3)])
    then show False using stop ne idle by blast
  qed
  moreover from this have "tx_live api v ?ring p = 0" using cnt by (simp add: tx_ends_def)
  then have "p = NextIndex ?ring"
    using settled tx_live_step [OF ring_ok_sized [OF ok(4)] d(2), of v] ok(4)
    by (cases "p = NextIndex ?ring") (auto simp: tx_settled_def ring_ok_def)
  ultimately show ?thesis using ind by simp
qed

end

end
