(* ===== verification/TxSystem.thy ===== *)
theory TxSystem imports TxSafety begin

text \<open>
  The transmit queue in its environment: the framework submits packets and calls the advance handler,
  the device writes descriptors back in any order. The properties of every reachable state, and the
  properties of the single handlers (advance, start, cancel) over the code's definitions.
\<close>

section \<open>The queue, the framework and the device\<close>

text \<open>
  The framework moves the end of the packet ring past new packets, without reusing the packets it has
  not got back; the device gives a descriptor back without changing its kind.
\<close>

definition tx_submits :: "net_api \<Rightarrow> tx_view \<Rightarrow> TxQueueContext \<Rightarrow> tx_view \<Rightarrow> u32 \<Rightarrow> u32 \<Rightarrow> bool" where
  "tx_submits api v ctx v' e f \<longleftrightarrow>
     (let ring = packetRing ctx;
          ctx' = ctx\<lparr>packetRing := ring\<lparr>EndIndex := e\<rparr>, fragmentRing := (fragmentRing ctx)\<lparr>EndIndex := f\<rparr>\<rparr>
      in unat e < ring_size ring
         \<and> rdist (ring_size ring) (BeginIndex ring) (NextIndex ring) + rdist (ring_size ring) (NextIndex ring) e
             < ring_size ring
         \<and> (\<forall>p \<in> set (walk (NetRingIncrementIndex api ring) (ring_size ring) (BeginIndex ring) (NextIndex ring)).
               Ignore (pkt v' p) = Ignore (pkt v p))
         \<and> tx_pending_framed api v' ctx')"

definition tx_write_back :: "u128 \<Rightarrow> u128 \<Rightarrow> bool" where
  "tx_write_back d d' \<longleftrightarrow>
     isset TxDescriptorWrite ''Own'' d \<and> \<not> isset TxDescriptorWrite ''Own'' d'
     \<and> isset TxDescriptorWrite ''ContextType'' d' = isset TxDescriptorWrite ''ContextType'' d
     \<and> isset TxDescriptorWrite ''LastDescriptor'' d' = isset TxDescriptorWrite ''LastDescriptor'' d"

inductive tx_step :: "net_api \<Rightarrow> tx_view \<times> TxQueueContext \<Rightarrow> tx_view \<times> TxQueueContext \<Rightarrow> bool" for api where
  advance: "TxQueueAdvance api v ctx = Some (ctx', n) \<Longrightarrow> tx_step api (v, ctx) (v, ctx')"
| complete: "i \<in> set (tx_in_flight ctx) \<Longrightarrow> tx_write_back (descVirtual ctx i) d \<Longrightarrow>
    tx_step api (v, ctx) (v, ctx\<lparr>descVirtual := (descVirtual ctx)(i := d)\<rparr>)"
| submit: "tx_submits api v ctx v' e f \<Longrightarrow>
    tx_step api (v, ctx) (v', ctx\<lparr>packetRing := (packetRing ctx)\<lparr>EndIndex := e\<rparr>,
                                  fragmentRing := (fragmentRing ctx)\<lparr>EndIndex := f\<rparr>\<rparr>)"

inductive_cases tx_stepE: "tx_step api (v, ctx) s'"

text \<open>A queue just started on empty rings.\<close>

definition tx_initial :: "tx_view \<times> TxQueueContext \<Rightarrow> bool" where
  "tx_initial s \<longleftrightarrow> (\<exists>ctx0. snd s = TxQueueStart ctx0 \<and> ring_ok (packetRing ctx0) \<and> count_ok (descCount ctx0)
     \<and> BeginIndex (packetRing ctx0) = NextIndex (packetRing ctx0)
     \<and> NextIndex (packetRing ctx0) = EndIndex (packetRing ctx0))"

lemma TxQueueStart_fields [simp]:
  "packetRing (TxQueueStart ctx) = packetRing ctx" "fragmentRing (TxQueueStart ctx) = fragmentRing ctx"
  "descVirtual (TxQueueStart ctx) = descVirtual ctx" "descPhysical (TxQueueStart ctx) = descPhysical ctx"
  "descCount (TxQueueStart ctx) = descCount ctx" "descBegin (TxQueueStart ctx) = 0" "descEnd (TxQueueStart ctx) = 0"
  "lastMss (TxQueueStart ctx) = 0xFFFF" "lastVlanTag (TxQueueStart ctx) = 0"
  by (simp_all add: TxQueueStart_def TxSetDescEnd_def Let_def)

lemma TxQueueStart_tail: "tx_tail_ok (TxQueueStart ctx)"
  by (simp add: tx_tail_ok_def) (simp add: TxQueueStart_def TxSetDescEnd_def Let_def)

lemma tx_initial_inv:
  assumes "tx_initial (v, ctx)"
  shows "tx_inv api v ctx \<and> tx_pending_framed api v ctx"
proof -
  obtain ctx0 where c: "ctx = TxQueueStart ctx0" and ok: "ring_ok (packetRing ctx0)" "count_ok (descCount ctx0)"
    and eq: "BeginIndex (packetRing ctx0) = NextIndex (packetRing ctx0)"
      "NextIndex (packetRing ctx0) = EndIndex (packetRing ctx0)"
    using assms by (auto simp: tx_initial_def)
  have "0 < ring_size (packetRing ctx0)" using ok(1) by (auto simp: ring_ok_def)
  then have "tx_rings_ok ctx" using ok eq by (simp add: c tx_rings_ok_def)
  moreover have "tx_counted api v ctx" using eq by (simp add: c tx_counted_def tx_ends_def tx_live_def)
  ultimately show ?thesis
    using eq TxQueueStart_tail by (simp add: tx_inv_def tx_pending_framed_def c)
qed

lemma clear_own: "\<not> isset TxDescriptorWrite ''Own'' (putf TxDescriptorWrite ''Own'' (flag False) (d::u128))"
proof -
  have "0 < snd (member TxDescriptorWrite ''Own'')" by (simp only: own_position snd_conv)
  from txDescriptorWrite.isset_putf_flag [OF this, of False d] show ?thesis by blast
qed

lemma write_back_marks: "tx_write_back d d' \<Longrightarrow> tx_end_mark d' = tx_end_mark d"
  by (simp add: tx_write_back_def tx_end_mark_def)

lemma complete_inv:
  assumes "tx_inv api v ctx" "tx_write_back (descVirtual ctx i) d"
  shows "tx_inv api v (ctx\<lparr>descVirtual := (descVirtual ctx)(i := d)\<rparr>)"
proof -
  have "tx_end_mark (((descVirtual ctx)(i := d)) j) = tx_end_mark (descVirtual ctx j)" for j
    using write_back_marks [OF assms(2)] by simp
  then have "tx_ends ((descVirtual ctx)(i := d)) c b e = tx_ends (descVirtual ctx) c b e" for c b e
    by (simp add: tx_ends_def)
  then show ?thesis
    using assms(1) by (simp add: tx_inv_def tx_rings_ok_def tx_counted_def tx_tail_ok_def)
qed

context net_rings begin

lemma submit_inv:
  assumes inv: "tx_inv api v ctx" and sub: "tx_submits api v ctx v' e f"
  shows "tx_inv api v' (ctx\<lparr>packetRing := (packetRing ctx)\<lparr>EndIndex := e\<rparr>,
                            fragmentRing := (fragmentRing ctx)\<lparr>EndIndex := f\<rparr>\<rparr>)"
proof -
  let ?ring = "packetRing ctx"
  let ?w = "walk (NetRingIncrementIndex api ?ring) (ring_size ?ring) (BeginIndex ?ring) (NextIndex ?ring)"
  have ok: "tx_rings_ok ctx" "tx_counted api v ctx" "tx_tail_ok ctx" using inv by (simp_all add: tx_inv_def)
  then have r: "sized ?ring" "unat (BeginIndex ?ring) < ring_size ?ring"
    by (simp_all add: tx_rings_ok_def ring_ok_sized ring_ok_def)
  have ign: "Ignore (pkt v' p) = Ignore (pkt v p)" if "p \<in> set ?w" for p
    using sub that by (simp add: tx_submits_def Let_def)
  have "walk (NetRingIncrementIndex api (?ring\<lparr>EndIndex := e\<rparr>)) n (BeginIndex ?ring) x
      = walk (NetRingIncrementIndex api ?ring) n (BeginIndex ?ring) x" for n x
    using r by (intro walk_same) simp_all
  moreover have "filter (\<lambda>i. \<not> Ignore (pkt v' i)) ?w = filter (\<lambda>i. \<not> Ignore (pkt v i)) ?w"
    by (rule filter_cong) (simp_all add: ign)
  ultimately have "tx_live api v' (?ring\<lparr>EndIndex := e\<rparr>) (BeginIndex ?ring) = tx_live api v ?ring (BeginIndex ?ring)"
    by (simp add: tx_live_def ring_size_def)
  then show ?thesis
    using ok sub by (auto simp: tx_inv_def tx_rings_ok_def tx_counted_def tx_tail_ok_def tx_submits_def
        ring_ok_def ring_size_def Let_def)
qed

lemma step_inv:
  assumes "tx_step api (v, ctx) (v', ctx')" "tx_inv api v ctx" "tx_pending_framed api v ctx"
  shows "tx_inv api v' ctx' \<and> tx_pending_framed api v' ctx'"
  using assms(1)
proof (cases rule: tx_step.cases)
  case (advance n)
  then show ?thesis using advance_correct [OF assms(2,3)] by auto
next
  case (complete i d)
  then show ?thesis using assms(2,3) complete_inv by (auto simp: tx_pending_framed_def)
next
  case (submit e f)
  then show ?thesis using assms(2) submit_inv [OF assms(2)] by (auto simp: tx_submits_def Let_def)
qed

lemma reachable_inv:
  assumes "(tx_step api)\<^sup>*\<^sup>* s0 s" "tx_initial s0"
  shows "tx_inv api (fst s) (snd s) \<and> tx_pending_framed api (fst s) (snd s)"
  using assms
proof (induction rule: rtranclp_induct)
  case base
  then show ?case using tx_initial_inv [of "fst s0" "snd s0"] by simp
next
  case (step s s')
  then show ?case using step_inv [of "fst s" "snd s" "fst s'" "snd s'"] by simp
qed

end

end
