(* ===== verification/TxProperties.thy ===== *)
theory TxProperties imports TxSystem begin

text \<open>
  The properties of the transmit queue, each with a witness at a concrete queue: a packet ring of four
  packets, a descriptor ring of 64 slots and one pending packet of one fragment.
\<close>

section \<open>A concrete queue\<close>

definition demo_ring :: "u32 \<Rightarrow> NET_RING" where
  "demo_ring e = \<lparr>NumberOfElements = 4, BeginIndex = 0, NextIndex = 0, EndIndex = e\<rparr>"

definition demo_packet :: "u16 \<Rightarrow> NET_PACKET_LAYOUT \<Rightarrow> u32 \<Rightarrow> NET_PACKET" where
  "demo_packet n l i = \<lparr>FragmentIndex = 0, FragmentCount = n, Ignore = False, Layout = l\<rparr>"

definition demo_tx_view :: "u32 \<Rightarrow> NET_PACKET_LAYOUT \<Rightarrow> tx_view" where
  "demo_tx_view mss l = \<lparr>pkt = demo_packet 1 l, frag_len = (\<lambda>i. 100), frag_addr = (\<lambda>i. 0x20000),
     ieee8021Q = (\<lambda>i. \<lparr>PriorityCodePoint = 3, VlanIdentifier = 5, TxPriorityRequired = True, TxVlanRequired = True\<rparr>),
     gso_mss = (\<lambda>i. mss), csum_l3 = (\<lambda>i. True), csum_l4 = (\<lambda>i. True)\<rparr>"

definition demo_layout :: NET_PACKET_LAYOUT where
  "demo_layout = \<lparr>Layer2Type = Layer2Ethernet, Layer2HeaderLength = 14,
     Layer3Type = IPv4UnspecifiedOptions, Layer3HeaderLength = 20,
     Layer4Type = Layer4Tcp, Layer4HeaderLength = 20\<rparr>"

definition demo_mmio :: mmio where
  "demo_mmio = \<lparr>regs = (\<lambda>r. 0), wlog = []\<rparr>"

definition demo_tx0 :: "u32 \<Rightarrow> TxQueueContext" where
  "demo_tx0 e = \<lparr>channelRegs = demo_mmio, packetRing = demo_ring e, fragmentRing = demo_ring e,
     descVirtual = (\<lambda>i. 0), descPhysical = 0x10000, descCount = 64, vlanId = 0, txPbl = 8,
     lastMss = 0, lastVlanTag = 0, descBegin = 0, descEnd = 0\<rparr>"

definition demo_tx :: "u32 \<Rightarrow> TxQueueContext" where
  "demo_tx e = TxQueueStart (demo_tx0 e)"

lemmas demo_defs = demo_tx_def demo_tx0_def demo_ring_def demo_packet_def demo_tx_view_def demo_layout_def
  demo_mmio_def empty_layout_def

lemma demo_pending:
  "walk (NetRingIncrementIndex wrap_api (demo_ring 1)) 4 0 1 = [0]"
  "walk (NetRingIncrementIndex wrap_api (demo_ring 0)) 4 0 0 = []"
  by (simp_all add: walk_def rdist_def)

lemma demo_framed:
  "tx_framed wrap_api (demo_tx_view 0 empty_layout) (demo_ring e) 0"
  "tx_framed wrap_api (demo_tx_view 40 demo_layout) (demo_ring e) 0"
  by (simp_all add: tx_framed_def tx_packet_wf_def tx_gso_wf_def tx_packet_sizes_def frag_size_def
      TxMaximumOffloadSize_def tx_header_length_def demo_defs ring_size_def)

lemma demo_initial: "tx_initial (v, demo_tx 0)"
  by (auto simp: tx_initial_def demo_defs ring_ok_def ring_size_def count_ok_def)

lemma demo_rings: "tx_rings_ok (demo_tx 1)"
  by (simp add: tx_rings_ok_def demo_defs ring_ok_def ring_size_def count_ok_def rdist_def)

lemma demo_inv: "tx_inv wrap_api v (demo_tx 1)"
  using demo_rings TxQueueStart_tail
  by (simp add: tx_inv_def tx_counted_def tx_ends_def tx_live_def demo_tx_def)
    (simp add: demo_tx0_def demo_ring_def)

lemma demo_pending_framed:
  "tx_pending_framed wrap_api (demo_tx_view 0 empty_layout) (demo_tx 1)"
  "tx_pending_framed wrap_api (demo_tx_view 40 demo_layout) (demo_tx 1)"
proof -
  have "packetRing (demo_tx 1) = demo_ring 1" "fragmentRing (demo_tx 1) = demo_ring 1"
    by (simp_all add: demo_tx_def demo_tx0_def)
  moreover have "NextIndex (demo_ring 1) = 0" "EndIndex (demo_ring 1) = 1" "ring_size (demo_ring 1) = 4"
    by (simp_all add: demo_ring_def ring_size_def)
  ultimately show "tx_pending_framed wrap_api (demo_tx_view 0 empty_layout) (demo_tx 1)"
    "tx_pending_framed wrap_api (demo_tx_view 40 demo_layout) (demo_tx 1)"
    by (simp_all add: tx_pending_framed_def demo_pending demo_framed)
qed

lemma demo_submit:
  "tx_step wrap_api (demo_tx_view 0 empty_layout, demo_tx 0) (demo_tx_view 0 empty_layout, demo_tx 1)"
proof -
  let ?v = "demo_tx_view 0 empty_layout"
  let ?c = "(demo_tx 0)\<lparr>packetRing := (packetRing (demo_tx 0))\<lparr>EndIndex := 1\<rparr>,
                fragmentRing := (fragmentRing (demo_tx 0))\<lparr>EndIndex := 1\<rparr>\<rparr>"
  have c: "?c = demo_tx 1"
    by (simp add: demo_tx_def demo_tx0_def demo_ring_def TxQueueStart_def TxSetDescEnd_def Let_def)
  have "tx_submits wrap_api ?v (demo_tx 0) ?v 1 1"
    unfolding tx_submits_def Let_def c using demo_pending_framed
    by (simp add: demo_tx_def demo_tx0_def demo_ring_def ring_size_def rdist_def)
  from tx_step.submit [OF this] show ?thesis unfolding c .
qed

text \<open>The same queue with the packet accepted: one descriptor in flight.\<close>

definition demo_tx_busy :: TxQueueContext where
  "demo_tx_busy = (TxSetDescEnd 1 (demo_tx 1))
     \<lparr>packetRing := (demo_ring 1)\<lparr>NextIndex := 1\<rparr>,
      descVirtual := (\<lambda>i. tx_desc_plain 0x20000 100 0 100 0 True True)\<rparr>"

lemma demo_busy_inv:
  "tx_inv wrap_api (demo_tx_view 0 empty_layout) demo_tx_busy"
  "tx_pending_framed wrap_api v demo_tx_busy" "0 \<in> set (tx_in_flight demo_tx_busy)" "tx_owned demo_tx_busy 0"
proof -
  have ring: "packetRing demo_tx_busy = (demo_ring 1)\<lparr>NextIndex := 1\<rparr>" "descCount demo_tx_busy = 64"
    "descBegin demo_tx_busy = 0" "descEnd demo_tx_busy = 1"
    "descVirtual demo_tx_busy = (\<lambda>i. tx_desc_plain 0x20000 100 0 100 0 True True)"
    by (simp_all add: demo_tx_busy_def TxSetDescEnd_def Let_def demo_tx_def) (simp_all add: demo_tx0_def)
  have w: "walk f 64 0 1 = [0]" "walk f 4 0 1 = [0]" for f by (simp_all add: walk_def rdist_def)
  have "tx_rings_ok demo_tx_busy"
    by (simp add: tx_rings_ok_def ring demo_ring_def ring_ok_def ring_size_def count_ok_def rdist_def)
  moreover have "tx_tail_ok demo_tx_busy"
    by (simp add: tx_tail_ok_def demo_tx_busy_def TxSetDescEnd_def Let_def)
  moreover have "tx_counted wrap_api (demo_tx_view 0 empty_layout) demo_tx_busy"
    by (simp add: tx_counted_def tx_ends_def tx_live_def ring demo_ring_def ring_size_def w tx_marks
        demo_tx_view_def demo_packet_def)
  ultimately show "tx_inv wrap_api (demo_tx_view 0 empty_layout) demo_tx_busy" by (simp add: tx_inv_def)
  show "tx_pending_framed wrap_api v demo_tx_busy"
    by (simp add: tx_pending_framed_def ring demo_ring_def)
  show "0 \<in> set (tx_in_flight demo_tx_busy)" by (simp add: tx_in_flight_def ring w)
  show "tx_owned demo_tx_busy 0" by (simp add: ring new_owned)
qed

text \<open>The same queue after the device has sent the packet.\<close>

definition demo_tx_done :: TxQueueContext where
  "demo_tx_done = demo_tx_busy\<lparr>descVirtual := (descVirtual demo_tx_busy)
     (0 := putf TxDescriptorWrite ''Own'' (flag False) (descVirtual demo_tx_busy 0))\<rparr>"

lemma demo_done:
  "tx_inv wrap_api (demo_tx_view 0 empty_layout) demo_tx_done" "tx_pending_framed wrap_api v demo_tx_done"
  "filter (tx_owned demo_tx_done) (tx_in_flight demo_tx_done) = []"
proof -
  let ?d = "descVirtual demo_tx_busy 0"
  have cleared: "\<not> isset TxDescriptorWrite ''Own'' (putf TxDescriptorWrite ''Own'' (flag False) ?d)"
    by (rule clear_own)
  have "tx_write_back ?d (putf TxDescriptorWrite ''Own'' (flag False) ?d)"
    using demo_busy_inv(4) cleared by (simp add: tx_write_back_def txDescriptorWrite.isset_putf_other)
  then show "tx_inv wrap_api (demo_tx_view 0 empty_layout) demo_tx_done"
    unfolding demo_tx_done_def by (rule complete_inv [OF demo_busy_inv(1)])
  show "tx_pending_framed wrap_api v demo_tx_done"
    using demo_busy_inv(2) by (simp add: demo_tx_done_def tx_pending_framed_def)
  have "tx_in_flight demo_tx_done = [0]"
    by (simp add: tx_in_flight_def demo_tx_done_def demo_tx_busy_def TxSetDescEnd_def Let_def demo_tx_def)
       (simp add: demo_tx0_def walk_def rdist_def)
  then show "filter (tx_owned demo_tx_done) (tx_in_flight demo_tx_done) = []"
    using cleared by (simp add: demo_tx_done_def)
qed

section \<open>Every reachable state\<close>

text \<open>C1: In every state the transmit queue can reach from start, with the framework submitting
  packets, the device writing descriptors back in any order and the handler running at any point, the
  ring indices are in range, the packet ring is not over-committed, the tail pointer register says
  \<open>descEnd\<close>, there is one last descriptor in flight for each packet not returned, and the advance
  handler terminates.\<close>

theorem tx_reachable_safe:
  assumes "net_rings api" "tx_initial s0" "(tx_step api)\<^sup>*\<^sup>* s0 (v, ctx)"
  shows "tx_inv api v ctx \<and> (\<exists>ctx'. TxQueueAdvance api v ctx = Some (ctx', 0))"
  using net_rings.reachable_inv [OF assms(1,3,2)] net_rings.advance_correct [OF assms(1), of v ctx] by auto

theorem tx_reachable_safe_witness:
  "tx_inv wrap_api (demo_tx_view 0 empty_layout) (demo_tx 1)
   \<and> (\<exists>ctx'. TxQueueAdvance wrap_api (demo_tx_view 0 empty_layout) (demo_tx 1) = Some (ctx', 0))"
  by (rule tx_reachable_safe [OF wrap.net_rings_axioms demo_initial r_into_rtranclp [where r = "tx_step wrap_api", OF demo_submit]])

text \<open>C3: The advance handler never takes back, moves or overwrites a descriptor the device still owns.\<close>

theorem tx_device_memory_safe:
  assumes "net_rings api" "tx_inv api v ctx" "tx_pending_framed api v ctx"
    "TxQueueAdvance api v ctx = Some (ctx', n)" "j \<in> set (tx_in_flight ctx)" "tx_owned ctx j"
  shows "j \<in> set (tx_in_flight ctx') \<and> descVirtual ctx' j = descVirtual ctx j"
  using net_rings.advance_correct [OF assms(1-3)] assms(4-6) by auto

theorem tx_device_memory_safe_witness:
  "\<exists>ctx'. TxQueueAdvance wrap_api (demo_tx_view 0 empty_layout) demo_tx_busy = Some (ctx', 0)
     \<and> 0 \<in> set (tx_in_flight ctx') \<and> descVirtual ctx' 0 = descVirtual demo_tx_busy 0"
proof -
  obtain ctx' where run: "TxQueueAdvance wrap_api (demo_tx_view 0 empty_layout) demo_tx_busy = Some (ctx', 0)"
    using wrap.advance_correct [OF demo_busy_inv(1,2)] by blast
  with tx_device_memory_safe [OF wrap.net_rings_axioms demo_busy_inv(1,2) run demo_busy_inv(3,4)] show ?thesis by blast
qed

lemma tx_completed_begin:
  assumes "net_rings api" "tx_inv api v ctx" "tx_pending_framed api v ctx"
    "filter (tx_owned ctx) (tx_in_flight ctx) = []"
  shows "\<exists>ctx'. TxQueueAdvance api v ctx = Some (ctx', 0)
     \<and> descBegin ctx' = descEnd ctx \<and> BeginIndex (packetRing ctx') = NextIndex (packetRing ctx)"
proof -
  have "\<forall>j. j \<in> set (tx_in_flight ctx) \<longrightarrow> \<not> tx_owned ctx j" using assms(4) by (simp add: filter_empty_conv)
  from net_rings.indicate_all [OF assms(1,2) this] obtain ctx1 where
    ind: "tx_indicate api v ctx = Some ctx1" "descBegin ctx1 = descEnd ctx"
      "BeginIndex (packetRing ctx1) = NextIndex (packetRing ctx)" by blast
  have inv: "tx_inv api v ctx1" "tx_pending_framed api v ctx1" "descEnd ctx1 = descEnd ctx"
    using net_rings.indicate_inv [OF assms(1-3)] ind(1) by auto
  obtain k ds c where st: "tx_stream api v ctx1 (NextIndex (packetRing ctx1)) k = (ds, c)"
    and run: "tx_fill api v (descBegin ctx1) (NextIndex (packetRing ctx1)) (ctx1, descEnd ctx1) =
      Some (tx_put_all ds (c, descEnd ctx1), (NetRingIncrementIndex api (packetRing ctx1) ^^ k) (NextIndex (packetRing ctx1)))"
    using net_rings.fill_runs [OF assms(1) inv(1,2)] by blast
  show ?thesis
    using run inv(3) ind(2,3) tx_stream_fields [OF st]
    by (simp add: TxQueueAdvance_def ind(1) tx_put_all_write_seq tx_publish_def TxSetDescEnd_def Let_def)
qed

text \<open>C7: When the device has written back every descriptor in flight, one run of the handler returns
  every accepted packet to the framework and takes back every descriptor.\<close>

theorem tx_completed_returned:
  assumes "net_rings api" "tx_inv api v ctx" "tx_pending_framed api v ctx"
    "filter (tx_owned ctx) (tx_in_flight ctx) = []"
  shows "\<exists>ctx'. TxQueueAdvance api v ctx = Some (ctx', 0)
     \<and> descBegin ctx' = descEnd ctx \<and> BeginIndex (packetRing ctx') = NextIndex (packetRing ctx)"
  using tx_completed_begin [OF assms] .

theorem tx_completed_returned_witness:
  "\<exists>ctx'. TxQueueAdvance wrap_api (demo_tx_view 0 empty_layout) demo_tx_done = Some (ctx', 0)
     \<and> descBegin ctx' = descEnd demo_tx_done
     \<and> BeginIndex (packetRing ctx') = NextIndex (packetRing demo_tx_done)"
  by (rule tx_completed_returned [OF wrap.net_rings_axioms demo_done])

section \<open>What the handler fills\<close>

lemma advance_refines:
  assumes "net_rings api" "tx_inv api v ctx" "tx_pending_framed api v ctx"
  shows "\<exists>ctx1 k ds c m. tx_indicate api v ctx = Some ctx1
     \<and> tx_stream api v ctx1 (NextIndex (packetRing ctx1)) k = (ds, c)
     \<and> m = fst (write_seq (descCount ctx) (descVirtual ctx, descEnd ctx) ds)
     \<and> TxQueueAdvance api v ctx = Some (tx_publish (descEnd ctx) ((desc_next (descCount ctx) ^^ length ds) (descEnd ctx))
           ((NetRingIncrementIndex api (packetRing ctx1) ^^ k) (NextIndex (packetRing ctx1))) (c\<lparr>descVirtual := m\<rparr>), 0)
     \<and> map (\<lambda>j. m ((desc_next (descCount ctx) ^^ j) (descEnd ctx))) [0..<length ds] = ds
     \<and> length ds \<le> unat (EMPTY_DESC_REMAINING (descCount ctx) (descBegin ctx1) (descEnd ctx))
     \<and> tx_fill_stops api v c (descBegin ctx1) ((desc_next (descCount ctx) ^^ length ds) (descEnd ctx))
           ((NetRingIncrementIndex api (packetRing ctx1) ^^ k) (NextIndex (packetRing ctx1)))"
proof -
  obtain ctx1 where ind: "tx_indicate api v ctx = Some ctx1" and inv: "tx_inv api v ctx1" "tx_pending_framed api v ctx1"
    and same: "tx_same_ring ctx ctx1" "descEnd ctx1 = descEnd ctx" "descVirtual ctx1 = descVirtual ctx"
    using net_rings.indicate_inv [OF assms] by blast
  obtain k ds c where st: "tx_stream api v ctx1 (NextIndex (packetRing ctx1)) k = (ds, c)"
    and run: "tx_fill api v (descBegin ctx1) (NextIndex (packetRing ctx1)) (ctx1, descEnd ctx1) =
      Some (tx_put_all ds (c, descEnd ctx1), (NetRingIncrementIndex api (packetRing ctx1) ^^ k) (NextIndex (packetRing ctx1)))"
    and room: "rdist (unat (descCount ctx1)) (descBegin ctx1) (descEnd ctx1) + length ds < unat (descCount ctx1)"
    and stops: "tx_fill_stops api v c (descBegin ctx1) ((desc_next (descCount ctx1) ^^ length ds) (descEnd ctx1))
          ((NetRingIncrementIndex api (packetRing ctx1) ^^ k) (NextIndex (packetRing ctx1)))"
    using net_rings.fill_runs [OF assms(1) inv] by blast
  have cnt: "descCount ctx1 = descCount ctx" using same(1) by (simp add: tx_same_ring_def)
  have ok: "count_ok (descCount ctx)" "unat (descBegin ctx1) < unat (descCount ctx)" "unat (descEnd ctx) < unat (descCount ctx)"
    using inv(1) same(2) cnt by (simp_all add: tx_inv_def tx_rings_ok_def)
  have "map (\<lambda>j. fst (write_seq (descCount ctx) (descVirtual ctx, descEnd ctx) ds) ((desc_next (descCount ctx) ^^ j) (descEnd ctx)))
      [0..<length ds] = ds"
    using ok room cnt by (intro nth_equalityI) (auto simp: write_seq_nth)
  moreover have "length ds \<le> unat (EMPTY_DESC_REMAINING (descCount ctx) (descBegin ctx1) (descEnd ctx))"
    using ok room by (simp add: remaining_eq cnt same(2))
  moreover have "TxQueueAdvance api v ctx = Some (tx_publish (descEnd ctx) ((desc_next (descCount ctx) ^^ length ds) (descEnd ctx))
      ((NetRingIncrementIndex api (packetRing ctx1) ^^ k) (NextIndex (packetRing ctx1)))
      (c\<lparr>descVirtual := fst (write_seq (descCount ctx) (descVirtual ctx, descEnd ctx) ds)\<rparr>), 0)"
    using run same tx_stream_fields [OF st]
    by (simp add: TxQueueAdvance_def ind tx_put_all_write_seq write_seq_index cnt)
  ultimately show ?thesis using ind st stops unfolding cnt same(2) by blast
qed

text \<open>C5: The advance handler refines its specification: after returning completed packets it writes
  the concatenated descriptor lists of a prefix of the pending packets into consecutive slots, no more
  than are free, publishes the new end, and stops only when the ring is full, no packet is left, or the
  next packet does not fit.\<close>

theorem tx_advance_refines:
  assumes "net_rings api" "tx_inv api v ctx" "tx_pending_framed api v ctx"
  shows "\<exists>ctx1 k ds c m. tx_indicate api v ctx = Some ctx1
     \<and> tx_stream api v ctx1 (NextIndex (packetRing ctx1)) k = (ds, c)
     \<and> m = fst (write_seq (descCount ctx) (descVirtual ctx, descEnd ctx) ds)
     \<and> TxQueueAdvance api v ctx = Some (tx_publish (descEnd ctx) ((desc_next (descCount ctx) ^^ length ds) (descEnd ctx))
           ((NetRingIncrementIndex api (packetRing ctx1) ^^ k) (NextIndex (packetRing ctx1))) (c\<lparr>descVirtual := m\<rparr>), 0)
     \<and> map (\<lambda>j. m ((desc_next (descCount ctx) ^^ j) (descEnd ctx))) [0..<length ds] = ds
     \<and> length ds \<le> unat (EMPTY_DESC_REMAINING (descCount ctx) (descBegin ctx1) (descEnd ctx))
     \<and> tx_fill_stops api v c (descBegin ctx1) ((desc_next (descCount ctx) ^^ length ds) (descEnd ctx))
           ((NetRingIncrementIndex api (packetRing ctx1) ^^ k) (NextIndex (packetRing ctx1)))"
  using advance_refines [OF assms] .

theorem tx_advance_refines_witness:
  "\<exists>ctx1 k ds c. tx_indicate wrap_api (demo_tx_view 40 demo_layout) (demo_tx 1) = Some ctx1
     \<and> tx_stream wrap_api (demo_tx_view 40 demo_layout) ctx1 (NextIndex (packetRing ctx1)) k = (ds, c)
     \<and> length ds \<le> unat (EMPTY_DESC_REMAINING (descCount (demo_tx 1)) (descBegin ctx1) (descEnd (demo_tx 1)))"
  using tx_advance_refines [OF wrap.net_rings_axioms demo_inv demo_pending_framed(2)] by blast

definition tx_within_limits :: "net_api \<Rightarrow> tx_view \<Rightarrow> NET_RING \<Rightarrow> u32 \<Rightarrow> bool" where
  "tx_within_limits api v ring p \<longleftrightarrow>
     unat (FragmentCount (pkt v p)) \<le> TxMaximumNumberOfFragments
     \<and> sum_list (map (\<lambda>L. (L + 0x3FFE) div 0x3FFF) (tx_packet_sizes api v ring p)) \<le> TxMaximumNumberOfFragments"

lemma limits_needed:
  "tx_within_limits api v (fragmentRing ctx) p \<Longrightarrow> tx_packet_needed api v ctx p \<le> 63"
  by (auto simp: tx_within_limits_def tx_packet_needed_def tx_gso_needed_def tx_plain_descs_def Let_def
      TxMaximumNumberOfFragments_def QueueDescriptorMinCount_def PAGE_SIZE_def QueueDescriptorSize_def)

lemma framed_descs_nonempty:
  "tx_framed api v (fragmentRing ctx) p \<Longrightarrow> \<not> Ignore (pkt v p) \<Longrightarrow> tx_packet_descs api v ctx p \<noteq> []"
  using marks_packet [of api v ctx p] by auto

lemma tx_progress_end:
  assumes "net_rings api" "tx_inv api v ctx" "tx_pending_framed api v ctx"
    "descBegin ctx = descEnd ctx" "NextIndex (packetRing ctx) \<noteq> EndIndex (packetRing ctx)"
    "\<not> Ignore (pkt v (NextIndex (packetRing ctx)))"
    "tx_within_limits api v (fragmentRing ctx) (NextIndex (packetRing ctx))"
  shows "\<exists>ctx' k. TxQueueAdvance api v ctx = Some (ctx', 0) \<and> 0 < k
     \<and> NextIndex (packetRing ctx') = (NetRingIncrementIndex api (packetRing ctx) ^^ k) (NextIndex (packetRing ctx))
     \<and> descEnd ctx' \<noteq> descEnd ctx"
proof -
  let ?p = "NextIndex (packetRing ctx)" and ?n = "descCount ctx"
  have ok: "count_ok ?n" "unat (descEnd ctx) < unat ?n" "ring_ok (packetRing ctx)"
    using assms(2) by (simp_all add: tx_inv_def tx_rings_ok_def)
  have r: "sized (packetRing ctx)" "unat ?p < ring_size (packetRing ctx)" "unat (EndIndex (packetRing ctx)) < ring_size (packetRing ctx)"
    using ok(3) by (simp_all add: ring_ok_sized ring_ok_def)
  have "?p \<in> set (walk (NetRingIncrementIndex api (packetRing ctx)) (ring_size (packetRing ctx)) ?p (EndIndex (packetRing ctx)))"
    using index_ring.walk_step [OF net_rings.axioms(1) [OF assms(1)] r assms(5)] by simp
  then have fr: "tx_framed api v (fragmentRing ctx) ?p" using assms(3) by (simp add: tx_pending_framed_def)
  obtain ctx1 where ind: "tx_indicate api v ctx = Some ctx1" and same: "tx_same_ring ctx ctx1" "NextIndex (packetRing ctx1) = ?p"
    using net_rings.indicate_inv [OF assms(1-3)] by blast
  have "tx_in_flight ctx = []" using assms(4) by (simp add: tx_in_flight_def)
  with net_rings.indicate_all [OF assms(1,2)] ind have b: "descBegin ctx1 = descEnd ctx" by auto
  have s: "NumberOfElements (fragmentRing ctx1) = NumberOfElements (fragmentRing ctx)"
    "NumberOfElements (packetRing ctx1) = NumberOfElements (packetRing ctx)" "descCount ctx1 = ?n"
    "EndIndex (packetRing ctx1) = EndIndex (packetRing ctx)"
    using same(1) by (simp_all add: tx_same_ring_def)
  have fr1: "tx_framed api v (fragmentRing ctx1) ?p" by (rule net_rings.tx_framed_same [OF assms(1) fr s(1)])
  have "tx_within_limits api v (fragmentRing ctx1) ?p"
    using assms(7) net_rings.tx_framed_sizes [OF assms(1) fr s(1) assms(6)] by (simp add: tx_within_limits_def)
  then have need: "tx_packet_needed api v ctx1 ?p \<le> 63" by (rule limits_needed)
  obtain k ds c where st: "tx_stream api v ctx1 ?p k = (ds, c)"
    and run: "TxQueueAdvance api v ctx = Some (tx_publish (descEnd ctx) ((desc_next ?n ^^ length ds) (descEnd ctx))
         ((NetRingIncrementIndex api (packetRing ctx1) ^^ k) ?p)
         (c\<lparr>descVirtual := fst (write_seq ?n (descVirtual ctx, descEnd ctx) ds)\<rparr>), 0)"
    and room: "length ds \<le> unat (EMPTY_DESC_REMAINING ?n (descEnd ctx) (descEnd ctx))"
    and stops: "tx_fill_stops api v c (descEnd ctx) ((desc_next ?n ^^ length ds) (descEnd ctx))
         ((NetRingIncrementIndex api (packetRing ctx1) ^^ k) ?p)"
    using advance_refines [OF assms(1-3)] ind b same(2) by auto
  have free: "unat (EMPTY_DESC_REMAINING ?n (descEnd ctx) (descEnd ctx)) = unat ?n - 1"
    using ok by (simp add: remaining_eq)
  have k: "k \<noteq> 0"
  proof
    assume "k = 0"
    then have "ds = []" "c = ctx1" using st by auto
    then show False
      using stops need s(3,4) assms(5) \<open>k = 0\<close> free count_ok_bounds [OF ok(1)] by (auto simp: tx_fill_stops_def)
  qed
  then obtain k' where k': "k = Suc k'" by (cases k) auto
  have "ds \<noteq> []"
    using st framed_descs_nonempty [OF fr1 assms(6)] unfolding k' by (auto split: prod.splits)
  have ne: "(desc_next ?n ^^ length ds) (descEnd ctx) \<noteq> descEnd ctx"
  proof
    assume "(desc_next ?n ^^ length ds) (descEnd ctx) = descEnd ctx"
    then have "(desc_next ?n ^^ length ds) (descEnd ctx) = (desc_next ?n ^^ 0) (descEnd ctx)" by simp
    then have "length ds = 0"
      by (rule desc.iterate_inj [OF ok(1,2), rotated 2]) (use room free count_ok_bounds [OF ok(1)] in auto)
    with \<open>ds \<noteq> []\<close> show False by simp
  qed
  have "(NetRingIncrementIndex api (packetRing ctx1) ^^ k) ?p = (NetRingIncrementIndex api (packetRing ctx) ^^ k) ?p"
    using net_rings.iterate_same [OF assms(1) r(1) s(2) r(2)] .
  then show ?thesis
    using run k ne tx_stream_fields [OF st] by (auto simp: tx_publish_def TxSetDescEnd_def Let_def)
qed

text \<open>C31: Progress: with nothing in flight, the handler always accepts the first pending packet when
  the packet keeps within the fragment limit the driver advertises (the limit its assertions check).\<close>

theorem tx_progress:
  assumes "net_rings api" "tx_inv api v ctx" "tx_pending_framed api v ctx"
    "descBegin ctx = descEnd ctx" "NextIndex (packetRing ctx) \<noteq> EndIndex (packetRing ctx)"
    "\<not> Ignore (pkt v (NextIndex (packetRing ctx)))"
    "tx_within_limits api v (fragmentRing ctx) (NextIndex (packetRing ctx))"
  shows "\<exists>ctx' k. TxQueueAdvance api v ctx = Some (ctx', 0) \<and> 0 < k
     \<and> NextIndex (packetRing ctx') = (NetRingIncrementIndex api (packetRing ctx) ^^ k) (NextIndex (packetRing ctx))
     \<and> descEnd ctx' \<noteq> descEnd ctx"
  using tx_progress_end [OF assms] .

theorem tx_progress_witness:
  "\<exists>ctx' k. TxQueueAdvance wrap_api (demo_tx_view 40 demo_layout) (demo_tx 1) = Some (ctx', 0) \<and> 0 < k
     \<and> NextIndex (packetRing ctx') = (NetRingIncrementIndex wrap_api (packetRing (demo_tx 1)) ^^ k)
          (NextIndex (packetRing (demo_tx 1)))
     \<and> descEnd ctx' \<noteq> descEnd (demo_tx 1)"
proof (rule tx_progress [OF wrap.net_rings_axioms demo_inv demo_pending_framed(2)])
  show "descBegin (demo_tx 1) = descEnd (demo_tx 1)"
    "NextIndex (packetRing (demo_tx 1)) \<noteq> EndIndex (packetRing (demo_tx 1))"
    "\<not> Ignore (pkt (demo_tx_view 40 demo_layout) (NextIndex (packetRing (demo_tx 1))))"
    by (simp_all add: demo_tx_def) (simp_all add: demo_tx0_def demo_ring_def demo_tx_view_def demo_packet_def)
  show "tx_within_limits wrap_api (demo_tx_view 40 demo_layout) (fragmentRing (demo_tx 1)) (NextIndex (packetRing (demo_tx 1)))"
    by (simp add: tx_within_limits_def tx_packet_sizes_def frag_size_def TxMaximumNumberOfFragments_def
        queue_constants demo_tx_def) (simp add: frag_size_def demo_tx0_def demo_ring_def demo_tx_view_def demo_packet_def)
qed

section \<open>A packet that never fits\<close>

text \<open>The framework leaves the packet at index \<open>p\<close> as it is: its descriptor, its offload and VLAN
  settings and the lengths of its fragments.\<close>

definition same_packet :: "net_api \<Rightarrow> tx_view \<Rightarrow> tx_view \<Rightarrow> NET_RING \<Rightarrow> u32 \<Rightarrow> bool" where
  "same_packet api v v' ring p \<longleftrightarrow>
     pkt v' p = pkt v p \<and> gso_mss v' p = gso_mss v p \<and> ieee8021Q v' p = ieee8021Q v p
     \<and> tx_packet_sizes api v' ring p = tx_packet_sizes api v ring p"

inductive tx_stuck_step :: "net_api \<Rightarrow> u32 \<Rightarrow> tx_view \<times> TxQueueContext \<Rightarrow> tx_view \<times> TxQueueContext \<Rightarrow> bool" for api p where
  "tx_step api (v, ctx) (v', ctx') \<Longrightarrow> same_packet api v v' (fragmentRing ctx) p \<Longrightarrow> tx_stuck_step api p (v, ctx) (v', ctx')"

lemma needed_same:
  assumes "same_packet api v v' r p" "tx_packet_sizes api v (fragmentRing c) p = tx_packet_sizes api v r p"
    "tx_packet_sizes api v' (fragmentRing d) p = tx_packet_sizes api v' r p"
    "lastMss d = lastMss c" "lastVlanTag d = lastVlanTag c" "vlanId d = vlanId c"
  shows "tx_packet_needed api v' d p = tx_packet_needed api v c p"
proof -
  have "tx_vlan_tag v' d p = tx_vlan_tag v c p"
    using assms(1,6) by (simp add: tx_vlan_tag_def same_packet_def Let_def)
  then show ?thesis
    using assms by (simp add: tx_packet_needed_def tx_gso_needed_def tx_plain_descs_def Let_def
        tx_gso_needs_context_def tx_context_tag_needed_def same_packet_def)
qed

text \<open>The packet at the head of the pending ones needs at least as many descriptors as the ring has slots.\<close>

definition tx_stuck :: "net_api \<Rightarrow> u32 \<Rightarrow> u32 \<Rightarrow> tx_view \<times> TxQueueContext \<Rightarrow> bool" where
  "tx_stuck api p e s \<longleftrightarrow> (case s of (v, ctx) \<Rightarrow>
     tx_inv api v ctx \<and> tx_pending_framed api v ctx \<and> tx_framed api v (fragmentRing ctx) p
     \<and> NextIndex (packetRing ctx) = p \<and> descEnd ctx = e \<and> unat (descCount ctx) \<le> tx_packet_needed api v ctx p)"

lemma stuck_not_ignored: "tx_inv api v ctx \<Longrightarrow> unat (descCount ctx) \<le> tx_packet_needed api v ctx p \<Longrightarrow> \<not> Ignore (pkt v p)"
  using count_ok_bounds [of "descCount ctx"] by (auto simp: tx_packet_needed_def tx_inv_def tx_rings_ok_def)

context net_rings begin

lemma stuck_sizes:
  assumes "tx_stuck api p e (v, ctx)" "NumberOfElements s = NumberOfElements (fragmentRing ctx)"
  shows "tx_packet_sizes api v s p = tx_packet_sizes api v (fragmentRing ctx) p"
proof -
  have st: "tx_inv api v ctx" "tx_framed api v (fragmentRing ctx) p" "unat (descCount ctx) \<le> tx_packet_needed api v ctx p"
    using assms(1) by (simp_all add: tx_stuck_def)
  show ?thesis by (rule tx_framed_sizes [OF st(2) assms(2) stuck_not_ignored [OF st(1,3)]])
qed

lemma stuck_advance:
  assumes st: "tx_stuck api p e (v, ctx)" and run: "TxQueueAdvance api v ctx = Some (ctx', n)"
  shows "\<exists>q f d. ctx' = ctx\<lparr>packetRing := (packetRing ctx)\<lparr>BeginIndex := q\<rparr>,
           fragmentRing := (fragmentRing ctx)\<lparr>BeginIndex := f\<rparr>, descBegin := d\<rparr>"
proof -
  have inv: "tx_inv api v ctx" and fr: "tx_framed api v (fragmentRing ctx) p" and p: "NextIndex (packetRing ctx) = p"
    and need: "unat (descCount ctx) \<le> tx_packet_needed api v ctx p"
    using st by (simp_all add: tx_stuck_def)
  have ok: "count_ok (descCount ctx)" "unat (descEnd ctx) < unat (descCount ctx)"
    using inv by (simp_all add: tx_inv_def tx_rings_ok_def)
  obtain d q f where ind: "tx_indicate api v ctx = Some (ctx\<lparr>packetRing := (packetRing ctx)\<lparr>BeginIndex := q\<rparr>,
        fragmentRing := (fragmentRing ctx)\<lparr>BeginIndex := f\<rparr>, descBegin := d\<rparr>)" and d: "unat d < unat (descCount ctx)"
    using indicate_correct [OF inv] by blast
  let ?c = "ctx\<lparr>packetRing := (packetRing ctx)\<lparr>BeginIndex := q\<rparr>,
        fragmentRing := (fragmentRing ctx)\<lparr>BeginIndex := f\<rparr>, descBegin := d\<rparr>"
  have "tx_packet_needed api v ?c p = tx_packet_needed api v ctx p"
    by (rule needed_same [OF _ refl stuck_sizes [OF st]]) (simp_all add: same_packet_def)
  moreover have "unat (EMPTY_DESC_REMAINING (descCount ctx) d (descEnd ctx)) < unat (descCount ctx)"
    using remaining_eq [OF ok(1) d ok(2)] d by simp
  ultimately have few: "unat (EMPTY_DESC_REMAINING (descCount ctx) d (descEnd ctx)) < tx_packet_needed api v ?c p"
    using need by simp
  have "tx_framed api v (fragmentRing ?c) p" by (rule tx_framed_same [OF fr]) simp
  then have wf: "tx_packet_wf api v (fragmentRing ?c) p" by (rule tx_framed_wf)
  have "tx_fill api v d p (?c, descEnd ctx) = Some ((?c, descEnd ctx), p)"
    using tx_fill_packet_spec [OF wf, of d "descEnd ctx"] few by (subst tx_fill.simps) simp
  then have "ctx' = ?c" using run p by (simp add: TxQueueAdvance_def ind tx_publish_def)
  then show ?thesis by blast
qed

lemma stuck_step:
  assumes st: "tx_stuck api p e (v, ctx)" and step: "tx_stuck_step api p (v, ctx) (v', ctx')"
  shows "tx_stuck api p e (v', ctx')"
proof -
  have step: "tx_step api (v, ctx) (v', ctx')" and same: "same_packet api v v' (fragmentRing ctx) p"
    using step by (auto elim: tx_stuck_step.cases)
  have old: "tx_inv api v ctx" "tx_pending_framed api v ctx" "tx_framed api v (fragmentRing ctx) p"
    "NextIndex (packetRing ctx) = p" "descEnd ctx = e" "unat (descCount ctx) \<le> tx_packet_needed api v ctx p"
    using st by (simp_all add: tx_stuck_def)
  have eqs: "pkt v' p = pkt v p" "gso_mss v' p = gso_mss v p"
    "tx_packet_sizes api v' (fragmentRing ctx) p = tx_packet_sizes api v (fragmentRing ctx) p"
    using same by (simp_all add: same_packet_def)
  have framed: "tx_framed api v' (fragmentRing ctx) p"
    using old(3) unfolding tx_framed_def tx_packet_wf_def tx_gso_wf_def eqs .
  have here: "NextIndex (packetRing ctx') = p \<and> descEnd ctx' = e \<and> descCount ctx' = descCount ctx \<and> lastMss ctx' = lastMss ctx
      \<and> lastVlanTag ctx' = lastVlanTag ctx \<and> vlanId ctx' = vlanId ctx
      \<and> NumberOfElements (fragmentRing ctx') = NumberOfElements (fragmentRing ctx)"
    using step
  proof (cases rule: tx_step.cases)
    case (advance n)
    then show ?thesis using stuck_advance [OF st advance(2)] old(4,5) by auto
  qed (simp_all add: old(4,5))
  have not: "\<not> Ignore (pkt v' p)" using stuck_not_ignored [OF old(1,6)] same by (simp add: same_packet_def)
  have framed': "tx_framed api v' (fragmentRing ctx') p" by (rule tx_framed_same [OF framed]) (simp add: here)
  have "tx_packet_needed api v' ctx' p = tx_packet_needed api v ctx p"
    by (rule needed_same [OF same refl tx_framed_sizes [OF framed _ not]]) (simp_all add: here)
  then show ?thesis using step_inv [OF step old(1,2)] framed' here old(6) by (simp add: tx_stuck_def)
qed

lemma stuck_run:
  assumes "(tx_stuck_step api p)\<^sup>*\<^sup>* s t" "tx_stuck api p e s"
  shows "tx_stuck api p e t"
  using assms
proof (induction rule: rtranclp_induct)
  case (step t u)
  then show ?case using stuck_step [of p e "fst t" "snd t" "fst u" "snd u"] by simp
qed simp

end

text \<open>C32: Starvation: while the packet at the head of the pending ones needs at least as many descriptors
  as the ring has slots, neither it nor any packet behind it is ever accepted: however often the framework
  submits packets (leaving this one as it is), the device writes descriptors back and the advance handler runs,
  the next packet to send stays the same and no descriptor is added. The advertised limits (61 fragments, an
  offload of 0x3FFFF bytes) allow such a packet on the smallest ring, because a fragment longer than 0x3FFF
  bytes needs several descriptors.\<close>

theorem tx_oversized_stalls:
  assumes "net_rings api" "tx_inv api v ctx" "tx_pending_framed api v ctx"
    "NextIndex (packetRing ctx) = p" "p \<noteq> EndIndex (packetRing ctx)"
    "unat (descCount ctx) \<le> tx_packet_needed api v ctx p"
    "(tx_stuck_step api p)\<^sup>*\<^sup>* (v, ctx) (v', ctx')"
  shows "NextIndex (packetRing ctx') = p \<and> descEnd ctx' = descEnd ctx
    \<and> (\<exists>ctx''. TxQueueAdvance api v' ctx' = Some (ctx'', 0) \<and> NextIndex (packetRing ctx'') = p \<and> descEnd ctx'' = descEnd ctx)"
proof -
  have "ring_ok (packetRing ctx)" using assms(2) by (simp add: tx_inv_def tx_rings_ok_def)
  then have r: "sized (packetRing ctx)" "unat p < ring_size (packetRing ctx)" "unat (EndIndex (packetRing ctx)) < ring_size (packetRing ctx)"
    using assms(4) by (auto simp: ring_ok_sized ring_ok_def)
  have "p \<in> set (walk (NetRingIncrementIndex api (packetRing ctx)) (ring_size (packetRing ctx)) p (EndIndex (packetRing ctx)))"
    using index_ring.walk_step [OF net_rings.axioms(1) [OF assms(1)] r assms(5)] by simp
  then have "tx_framed api v (fragmentRing ctx) p" using assms(3,4) by (auto simp: tx_pending_framed_def)
  then have "tx_stuck api p (descEnd ctx) (v, ctx)" using assms by (simp add: tx_stuck_def)
  with net_rings.stuck_run [OF assms(1,7)] have st: "tx_stuck api p (descEnd ctx) (v', ctx')" by blast
  then obtain ctx'' where run: "TxQueueAdvance api v' ctx' = Some (ctx'', 0)"
    using net_rings.advance_correct [OF assms(1), of v' ctx'] by (auto simp: tx_stuck_def)
  then have "NextIndex (packetRing ctx'') = p \<and> descEnd ctx'' = descEnd ctx"
    using net_rings.stuck_advance [OF assms(1) st run] st by (auto simp: tx_stuck_def)
  then show ?thesis using st run by (simp add: tx_stuck_def)
qed

text \<open>A packet of 61 fragments and 250360 bytes.\<close>

definition big_tx_view :: tx_view where
  "big_tx_view = (demo_tx_view 40 demo_layout)\<lparr>pkt := demo_packet 61 demo_layout,
     frag_len := (\<lambda>i. if i < 15 then 16384 else 100)\<rparr>"

definition big_tx :: TxQueueContext where
  "big_tx = (demo_tx 1)\<lparr>fragmentRing := \<lparr>NumberOfElements = 64, BeginIndex = 0, NextIndex = 0, EndIndex = 61\<rparr>\<rparr>"

lemma big_sizes:
  "tx_packet_sizes wrap_api big_tx_view (fragmentRing big_tx) 0 = replicate 15 16384 @ replicate 46 100"
proof -
  let ?r = "\<lparr>NumberOfElements = 64, BeginIndex = 0, NextIndex = 0, EndIndex = 61\<rparr>"
  have at: "frag_at wrap_api ?r 0 k = of_nat k" if "k < 61" for k
  proof -
    have "unat (frag_at wrap_api ?r 0 k) = (unat (0::u32) + k) mod ring_size ?r"
      by (rule wrap.iterate_mod) (simp_all add: sized_def ring_size_def)
    also have "\<dots> = k" using that by (simp add: ring_size_def)
    finally have "unat (frag_at wrap_api ?r 0 k) = k" .
    then show ?thesis by (metis of_nat_unat ucast_id)
  qed
  have lt: "((of_nat k :: u32) < 15) = (k < 15)" if "k < 61" for k
    using that by (simp add: word_less_nat_alt unat_of_nat)
  have size: "frag_size wrap_api big_tx_view ?r 0 k = (if k < 15 then 16384 else 100)" if "k < 61" for k
    using at [OF that] lt [OF that] by (simp add: frag_size_def big_tx_view_def)
  have "tx_packet_sizes wrap_api big_tx_view (fragmentRing big_tx) 0 = map (frag_size wrap_api big_tx_view ?r 0) [0..<61]"
    by (simp add: tx_packet_sizes_def big_tx_def big_tx_view_def demo_packet_def del: upt_rec_numeral)
  also have "\<dots> = replicate 15 16384 @ replicate 46 100"
    by (rule nth_equalityI) (auto simp: nth_append size simp del: upt_rec_numeral)
  finally show ?thesis .
qed

lemma big_needed: "tx_packet_needed wrap_api big_tx_view big_tx 0 \<ge> 77"
proof -
  have "sum_list (map (\<lambda>L. (L + 0x3FFE) div 0x3FFF) (tx_packet_sizes wrap_api big_tx_view (fragmentRing big_tx) 0)) = 76"
    by (simp add: big_sizes sum_list_replicate)
  then show ?thesis
    by (simp add: tx_packet_needed_def tx_gso_needed_def big_tx_view_def demo_packet_def demo_tx_view_def)
qed

lemma big_fields:
  "NextIndex (packetRing big_tx) = 0" "EndIndex (packetRing big_tx) = 1" "descCount big_tx = 64" "descBegin big_tx = 0"
  "descEnd big_tx = 0" "packetRing big_tx = demo_ring 1"
  by (simp_all add: big_tx_def demo_tx_def) (simp_all add: demo_tx0_def demo_ring_def)

lemma big_inv: "tx_inv wrap_api big_tx_view big_tx" "tx_pending_framed wrap_api big_tx_view big_tx"
proof -
  have "tx_inv wrap_api big_tx_view (demo_tx 1)" by (rule demo_inv)
  then show "tx_inv wrap_api big_tx_view big_tx"
    by (simp add: big_tx_def tx_inv_def tx_rings_ok_def tx_counted_def tx_tail_ok_def)
  have sizes: "sum_list (tx_packet_sizes wrap_api big_tx_view (fragmentRing big_tx) 0) = 250360"
    "tx_packet_sizes wrap_api big_tx_view (fragmentRing big_tx) 0 ! 0 = 16384"
    "tx_packet_sizes wrap_api big_tx_view (fragmentRing big_tx) 0 \<noteq> []"
    "last (tx_packet_sizes wrap_api big_tx_view (fragmentRing big_tx) 0) = 100"
    "length (tx_packet_sizes wrap_api big_tx_view (fragmentRing big_tx) 0) = 61"
    by (simp_all add: big_sizes sum_list_replicate nth_append)
  have "unat (tx_header_length (Layout (pkt big_tx_view 0))) = 54"
    by (simp add: big_tx_view_def demo_packet_def demo_layout_def tx_header_length_def)
  then have "tx_framed wrap_api big_tx_view (fragmentRing big_tx) 0"
    unfolding tx_framed_def tx_packet_wf_def tx_gso_wf_def Let_def using sizes
    by (simp add: TxMaximumOffloadSize_def) (simp add: big_tx_view_def demo_packet_def big_tx_def ring_size_def)
  then show "tx_pending_framed wrap_api big_tx_view big_tx"
    by (simp add: tx_pending_framed_def big_fields demo_pending) (simp add: demo_ring_def ring_size_def demo_pending [unfolded demo_ring_def])
qed

theorem tx_oversized_stalls_witness:
  "unat (FragmentCount (pkt big_tx_view 0)) \<le> TxMaximumNumberOfFragments
   \<and> sum_list (tx_packet_sizes wrap_api big_tx_view (fragmentRing big_tx) 0) \<le> TxMaximumOffloadSize
   \<and> (\<exists>ctx'. TxQueueAdvance wrap_api big_tx_view big_tx = Some (ctx', 0)
        \<and> NextIndex (packetRing ctx') = 0 \<and> EndIndex (packetRing big_tx) = 1 \<and> descEnd ctx' = 0)"
proof -
  have "0 \<noteq> EndIndex (packetRing big_tx)" "unat (descCount big_tx) \<le> tx_packet_needed wrap_api big_tx_view big_tx 0"
    using big_needed by (simp_all add: big_fields(2,3))
  from tx_oversized_stalls [OF wrap.net_rings_axioms big_inv big_fields(1) this rtranclp.rtrancl_refl]
  have "\<exists>ctx'. TxQueueAdvance wrap_api big_tx_view big_tx = Some (ctx', 0)
        \<and> NextIndex (packetRing ctx') = 0 \<and> EndIndex (packetRing big_tx) = 1 \<and> descEnd ctx' = 0"
    unfolding big_fields(2,5) by blast
  moreover have "sum_list (tx_packet_sizes wrap_api big_tx_view (fragmentRing big_tx) 0) \<le> TxMaximumOffloadSize"
    by (simp add: big_sizes sum_list_replicate TxMaximumOffloadSize_def)
  ultimately show ?thesis
    by (simp add: big_tx_view_def demo_packet_def TxMaximumNumberOfFragments_def QueueDescriptorMinCount_def PAGE_SIZE_def QueueDescriptorSize_def)
qed

end
