(* ===== verification/TxFormats.thy ===== *)
theory TxFormats imports TxProperties begin

text \<open>
  What the descriptors of a packet say to the device, bit for bit: the framing and buffers of a plain
  packet, the byte accounting of segmentation offload, the VLAN tag; and the handlers start and cancel.
\<close>

section \<open>Field values\<close>

lemma member_widths:
  "snd (member TxDescriptorRead ''Buf1Length'') = 14" "snd (member TxDescriptorRead ''VlanTagControl'') = 2"
  "snd (member TxDescriptorRead ''FirstDescriptor'') = 1" "snd (member TxDescriptorRead ''InterruptOnCompletion'') = 1"
  "snd (member TxDescriptorRead ''Buf1Ap'') = 32" "snd (member TxDescriptorRead ''Buf2Ap'') = 32"
  "snd (member TxDescriptorRead ''LastDescriptor'') = 1"
  "snd (member TxDescriptorReadTso ''Buf1Length'') = 14" "snd (member TxDescriptorReadTso ''TcpPayloadLength'') = 18"
  "snd (member TxDescriptorReadTso ''TcpHeaderLength'') = 4"
  "snd (member TxDescriptorContext ''VlanTag'') = 16" "snd (member TxDescriptorContext ''MaximumSegmentSize'') = 14"
  "snd (member TxDescriptorContext ''VlanTagValid'') = 1" "snd (member TxDescriptorContext ''OneStepInputOrMssValid'') = 1"
  by (simp_all add: TxDescriptorRead_def TxDescriptorReadTso_def TxDescriptorContext_def)

abbreviation buf_length :: "u128 \<Rightarrow> nat" where
  "buf_length d \<equiv> unat (getf TxDescriptorRead ''Buf1Length'' d)"

text \<open>The buffer address of a descriptor: its two address words.\<close>

definition buf_addr :: "u128 \<Rightarrow> u64" where
  "buf_addr d = push_bit 32 (ucast (getf TxDescriptorRead ''Buf2Ap'' d)) OR ucast (getf TxDescriptorRead ''Buf1Ap'' d)"

lemma split_addr: "push_bit 32 (ucast (take_bit 32 (ucast (drop_bit 32 (a::u64)) :: u128))) OR ucast (take_bit 32 (ucast a :: u128)) = a"
  by (rule bit_word_eqI) (auto simp: bit_simps)

lemma payload_fields:
  "buf_length (tx_desc_payload a b t z) = unat b mod 2 ^ 14"
  "buf_addr (tx_desc_payload a b t z) = a"
  "isset TxDescriptorRead ''LastDescriptor'' (tx_desc_payload a b t z) = z"
  "isset TxDescriptorRead ''InterruptOnCompletion'' (tx_desc_payload a b t z) = z"
  "\<not> isset TxDescriptorRead ''FirstDescriptor'' (tx_desc_payload a b t z)"
proof -
  note other = txDescriptorRead.isset_putf_other txDescriptorRead.getf_putf
  show "buf_length (tx_desc_payload a b t z) = unat b mod 2 ^ 14"
    by (simp add: tx_desc_payload_def other member_widths unat_field)
  show "buf_addr (tx_desc_payload a b t z) = a"
    by (simp add: buf_addr_def tx_desc_payload_def other member_widths split_addr)
  show "isset TxDescriptorRead ''LastDescriptor'' (tx_desc_payload a b t z) = z"
    "isset TxDescriptorRead ''InterruptOnCompletion'' (tx_desc_payload a b t z) = z"
    "\<not> isset TxDescriptorRead ''FirstDescriptor'' (tx_desc_payload a b t z)"
    by (simp_all add: tx_desc_payload_def other(1) txDescriptorRead.isset_putf_flag member_widths)
qed

lemma plain_fields:
  "buf_length (tx_desc_plain a n t fl k y z) = unat n mod 2 ^ 14"
  "buf_addr (tx_desc_plain a n t fl k y z) = a"
  "isset TxDescriptorRead ''LastDescriptor'' (tx_desc_plain a n t fl k y z) = z"
  "isset TxDescriptorRead ''InterruptOnCompletion'' (tx_desc_plain a n t fl k y z) = z"
  "isset TxDescriptorRead ''FirstDescriptor'' (tx_desc_plain a n t fl k y z) = y"
proof -
  note other = txDescriptorRead.isset_putf_other txDescriptorRead.getf_putf
  show "buf_length (tx_desc_plain a n t fl k y z) = unat n mod 2 ^ 14"
    by (simp add: tx_desc_plain_def other member_widths unat_field)
  show "buf_addr (tx_desc_plain a n t fl k y z) = a"
    by (simp add: buf_addr_def tx_desc_plain_def other member_widths split_addr)
  show "isset TxDescriptorRead ''LastDescriptor'' (tx_desc_plain a n t fl k y z) = z"
    "isset TxDescriptorRead ''InterruptOnCompletion'' (tx_desc_plain a n t fl k y z) = z"
    "isset TxDescriptorRead ''FirstDescriptor'' (tx_desc_plain a n t fl k y z) = y"
    by (simp_all add: tx_desc_plain_def other(1) txDescriptorRead.isset_putf_flag member_widths)
qed

section \<open>Packets without segmentation offload\<close>

text \<open>A packet without segmentation offload becomes one descriptor per fragment, after the VLAN
  context descriptor if the tag is new: descriptor \<open>k\<close> carries the address and length of the
  packet's \<open>k\<close>-th fragment, the first is marked first, the last is marked last and interrupts, and
  every one of them belongs to the device.\<close>

theorem tx_plain_descriptors:
  assumes "k < unat (FragmentCount (pkt v p))" "frag = (NetRingIncrementIndex api (fragmentRing ctx) ^^ k) (FragmentIndex (pkt v p))"
    "unat (frag_len v frag) \<le> unat QueueDescriptorLengthMax"
    "d = tx_plain_descs api v ctx p ! (k + of_bool (tx_plain_needs_tag v ctx p))"
  shows "length (tx_plain_descs api v ctx p) = unat (FragmentCount (pkt v p)) + of_bool (tx_plain_needs_tag v ctx p)
     \<and> buf_addr d = frag_addr v frag \<and> buf_length d = unat (frag_len v frag)
     \<and> isset TxDescriptorRead ''FirstDescriptor'' d = (k = 0)
     \<and> isset TxDescriptorRead ''LastDescriptor'' d = (k + 1 = unat (FragmentCount (pkt v p)))
     \<and> isset TxDescriptorRead ''InterruptOnCompletion'' d = (k + 1 = unat (FragmentCount (pkt v p)))
     \<and> isset TxDescriptorWrite ''Own'' d"
proof -
  let ?n = "unat (FragmentCount (pkt v p))" and ?f = "FragmentIndex (pkt v p)"
  have "length (tx_plain_descs api v ctx p) = ?n + of_bool (tx_plain_needs_tag v ctx p)"
    by (simp add: tx_plain_descs_def tx_plain_needs_tag_def Let_def)
  moreover have d: "d = tx_desc_plain (frag_addr v frag) (frag_len v frag) (tx_vlan_control (tx_vlan_tag v ctx p))
      (ucast (tx_frame_length api v (fragmentRing ctx) ?n ?f 0)) (tx_checksum_insertion v p) (k = 0) (Suc k = ?n)"
    using assms(1) by (auto simp: assms(2,4) tx_plain_descs_def tx_plain_needs_tag_def Let_def tx_plain_desc_at_def)
  ultimately show ?thesis
    using assms(3) by (simp add: d plain_fields QueueDescriptorLengthMax_def)
qed

theorem tx_plain_descriptors_witness:
  "buf_addr (tx_plain_descs wrap_api (demo_tx_view 0 empty_layout) (demo_tx 1) 0 ! 1) = 0x20000
   \<and> buf_length (tx_plain_descs wrap_api (demo_tx_view 0 empty_layout) (demo_tx 1) 0 ! 1) = 100"
proof -
  have tag: "tx_plain_needs_tag (demo_tx_view 0 empty_layout) (demo_tx 1) 0"
    by (simp add: tx_plain_needs_tag_def tx_context_tag_needed_def tx_vlan_tag_def demo_tx_view_def demo_tx_def)
  then have "tx_plain_descs wrap_api (demo_tx_view 0 empty_layout) (demo_tx 1) 0 ! 1
      = tx_plain_descs wrap_api (demo_tx_view 0 empty_layout) (demo_tx 1) 0
          ! (0 + of_bool (tx_plain_needs_tag (demo_tx_view 0 empty_layout) (demo_tx 1) 0))" by simp
  from tx_plain_descriptors [OF _ _ _ this, of 0] show ?thesis
    by (simp add: demo_tx_view_def demo_packet_def QueueDescriptorLengthMax_def)
qed

section \<open>Segmentation offload\<close>

definition tx_payload_bytes :: "u128 list \<Rightarrow> nat" where
  "tx_payload_bytes ds = sum_list (map buf_length ds)"

lemma buffer_bytes:
  assumes "p \<le> L"
  shows "tx_payload_bytes (tx_gso_buffer_descs a L t z p) = L - p"
proof -
  have small: "unat (of_nat (snd c) :: u32) mod 2 ^ 14 = snd c" if "c \<in> set (gso_chunks L p)" for c
  proof -
    have "snd c \<le> 0x3FFF" using gso_chunks_bounds [OF that] by simp
    then show ?thesis by (simp add: unat_of_nat)
  qed
  have "tx_payload_bytes (tx_gso_buffer_descs a L t z p) = sum_list (map (\<lambda>c. unat (of_nat (snd c) :: u32) mod 2 ^ 14) (gso_chunks L p))"
    by (simp add: tx_payload_bytes_def tx_gso_buffer_descs_def payload_fields comp_def case_prod_beta)
  also have "map (\<lambda>c. unat (of_nat (snd c) :: u32) mod 2 ^ 14) (gso_chunks L p) = map snd (gso_chunks L p)"
    using small by (intro map_cong) auto
  finally show ?thesis using gso_chunks_sum [OF assms] by simp
qed

lemma payload_concat: "tx_payload_bytes (concat xss) = sum_list (map tx_payload_bytes xss)"
  by (induction xss) (auto simp: tx_payload_bytes_def)

lemma sum_tail:
  assumes "0 < n" "h \<le> (f 0 :: nat)"
  shows "sum_list (map (\<lambda>k. f k - (if k = 0 then h else 0)) [0..<n]) + h = sum_list (map f [0..<n])"
proof (cases n)
  case 0
  with assms show ?thesis by simp
next
  case (Suc m)
  have up: "[0..<Suc m] = 0 # map Suc [0..<m]" by (simp add: upt_conv_Cons map_Suc_upt del: upt_Suc)
  show ?thesis unfolding Suc up using assms(2) by (simp add: comp_def)
qed

lemma buffer_bounds:
  "list_all (\<lambda>d. 0 < buf_length d \<and> buf_length d \<le> unat QueueDescriptorLengthMax) (tx_gso_buffer_descs a L t z p)"
proof -
  have "0 < unat (of_nat (snd c) :: u32) mod 2 ^ 14 \<and> unat (of_nat (snd c) :: u32) mod 2 ^ 14 \<le> 0x3FFF"
    if "c \<in> set (gso_chunks L p)" for c
  proof -
    have "0 < snd c \<and> snd c \<le> 0x3FFF" using gso_chunks_bounds [OF that] by simp
    then show ?thesis by (simp add: unat_of_nat)
  qed
  then show ?thesis
    by (auto simp: tx_gso_buffer_descs_def list_all_iff payload_fields QueueDescriptorLengthMax_def)
qed

lemma tso_fields:
  "unat (getf TxDescriptorReadTso ''TcpPayloadLength'' (tx_desc_tso a h t q l4)) = unat q mod 2 ^ 18"
  "unat (getf TxDescriptorReadTso ''Buf1Length'' (tx_desc_tso a h t q l4)) = unat h mod 2 ^ 14"
  "unat (getf TxDescriptorReadTso ''TcpHeaderLength'' (tx_desc_tso a h t q l4)) = unat (l4 div 4) mod 2 ^ 4"
  by (simp_all add: tx_desc_tso_def txDescriptorReadTso.getf_putf member_widths unat_field)

text \<open>The bytes the buffers of a descriptor list address, one after the other, and those of a packet's fragments.\<close>

definition tx_addresses :: "u128 list \<Rightarrow> u64 list" where
  "tx_addresses ds = concat (map (\<lambda>d. map (\<lambda>k. buf_addr d + of_nat k) [0..<buf_length d]) ds)"

definition tx_packet_addresses :: "net_api \<Rightarrow> tx_view \<Rightarrow> NET_RING \<Rightarrow> u32 \<Rightarrow> u64 list" where
  "tx_packet_addresses api v ring p =
     concat (map (\<lambda>k. map (\<lambda>j. frag_addr v (frag_at api ring (FragmentIndex (pkt v p)) k) + of_nat j)
                         [0..<frag_size api v ring (FragmentIndex (pkt v p)) k])
               [0..<unat (FragmentCount (pkt v p))])"

lemma tx_addresses_concat: "tx_addresses (concat xss) = concat (map tx_addresses xss)"
  by (induction xss) (auto simp: tx_addresses_def)

lemma chunk_addresses:
  "p \<le> L \<Longrightarrow> concat (map (\<lambda>(q, b). map (\<lambda>k. a + of_nat q + of_nat k) [0..<b]) (gso_chunks L p))
     = map (\<lambda>j. a + of_nat j :: u64) [p..<L]"
proof (induction L p rule: gso_chunks.induct)
  case (1 L p)
  show ?case
  proof (cases "L = p")
    case False
    let ?b = "min (L - p) 0x3FFF"
    have le: "p + ?b \<le> L" using "1.prems" by simp
    have parts: "[p..<L] = [p..<p + ?b] @ [p + ?b..<L]"
      using upt_add_eq_append [of p "p + ?b" "L - (p + ?b)"] le by simp
    have first: "map (\<lambda>k. a + of_nat p + of_nat k) [0..<?b] = map (\<lambda>j. a + of_nat j) [p..<p + ?b]"
      by (rule nth_equalityI) (simp_all add: add.assoc)
    have "concat (map (\<lambda>(q, b). map (\<lambda>k. a + of_nat q + of_nat k) [0..<b]) (gso_chunks L (p + ?b)))
        = map (\<lambda>j. a + of_nat j) [p + ?b..<L]"
      using 1 False by simp
    then show ?thesis using False "1.prems" first
      by (subst gso_chunks.simps) (simp add: parts)
  qed simp
qed

lemma buffer_addresses:
  assumes "p \<le> L"
  shows "tx_addresses (tx_gso_buffer_descs a L t z p) = map (\<lambda>j. a + of_nat j) [p..<L]"
proof -
  have "tx_addresses (tx_gso_buffer_descs a L t z p)
      = concat (map (\<lambda>(q, b). map (\<lambda>k. a + of_nat q + of_nat k) [0..<unat (of_nat b :: u32) mod 2 ^ 14]) (gso_chunks L p))"
    by (simp add: tx_addresses_def tx_gso_buffer_descs_def payload_fields comp_def case_prod_unfold)
  also have "\<dots> = concat (map (\<lambda>(q, b). map (\<lambda>k. a + of_nat q + of_nat k) [0..<b]) (gso_chunks L p))"
  proof (rule arg_cong [where f = concat], rule map_cong [OF refl])
    fix c assume "c \<in> set (gso_chunks L p)"
    then have "snd c \<le> 0x3FFF" using gso_chunks_bounds by simp
    then have "unat (of_nat (snd c) :: u32) mod 2 ^ 14 = snd c" by (simp add: unat_of_nat)
    then show "(case c of (q, b) \<Rightarrow> map (\<lambda>k. a + of_nat q + of_nat k) [0..<unat (of_nat b :: u32) mod 2 ^ 14])
        = (case c of (q, b) \<Rightarrow> map (\<lambda>k. a + of_nat q + of_nat k) [0..<b])"
      by (simp add: case_prod_unfold)
  qed
  finally show ?thesis using chunk_addresses [OF assms] by simp
qed

lemma concat_tail:
  assumes "0 < n" "h \<le> length (f 0)"
  shows "concat (map (\<lambda>k. drop (if k = 0 then h else 0) (f k)) [0..<n]) = drop h (concat (map f [0..<n]))"
proof (cases n)
  case (Suc m)
  have up: "[0..<Suc m] = 0 # map Suc [0..<m]" by (simp add: upt_conv_Cons map_Suc_upt del: upt_Suc)
  show ?thesis unfolding Suc up using assms(2) by (simp add: comp_def)
qed (use assms in simp)

lemma gso_addresses:
  assumes "0 < unat (FragmentCount (pkt v p))" "h \<le> frag_size api v ring (FragmentIndex (pkt v p)) 0"
  shows "tx_addresses (concat (map (tx_gso_frag_descs api v ring t n h (FragmentIndex (pkt v p))) [0..<unat (FragmentCount (pkt v p))]))
    = drop h (tx_packet_addresses api v ring p)"
proof -
  let ?f = "FragmentIndex (pkt v p)"
  let ?a = "\<lambda>k. map (\<lambda>j. frag_addr v (frag_at api ring ?f k) + of_nat j) [0..<frag_size api v ring ?f k]"
  have "tx_addresses (tx_gso_frag_descs api v ring t n h ?f k) = drop (if k = 0 then h else 0) (?a k)" for k
    using assms(2) by (simp add: tx_gso_frag_descs_def buffer_addresses drop_map)
  then have "tx_addresses (concat (map (tx_gso_frag_descs api v ring t n h ?f) [0..<unat (FragmentCount (pkt v p))]))
      = concat (map (\<lambda>k. drop (if k = 0 then h else 0) (?a k)) [0..<unat (FragmentCount (pkt v p))])"
    by (simp add: tx_addresses_concat comp_def)
  also have "\<dots> = drop h (concat (map ?a [0..<unat (FragmentCount (pkt v p))]))"
    by (rule concat_tail) (use assms in simp_all)
  finally show ?thesis by (simp add: tx_packet_addresses_def)
qed

text \<open>The address the header descriptor of a segmentation packet holds.\<close>

definition tso_addr :: "u128 \<Rightarrow> u64" where
  "tso_addr d = push_bit 32 (ucast (getf TxDescriptorReadTso ''Buf2Ap'' d)) OR ucast (getf TxDescriptorReadTso ''Buf1Ap'' d)"

lemma tso_widths:
  "snd (member TxDescriptorReadTso ''Buf1Ap'') = 32" "snd (member TxDescriptorReadTso ''Buf2Ap'') = 32"
  by (simp_all add: TxDescriptorReadTso_def)

lemma tso_address: "tso_addr (tx_desc_tso a h t q l4) = a"
  by (simp add: tso_addr_def tx_desc_tso_def txDescriptorReadTso.getf_putf tso_widths split_addr)

lemma gso_descs_accounting:
  assumes "tx_gso_wf api v (fragmentRing ctx) p" "unat (tx_header_length (Layout (pkt v p))) < 2 ^ 14"
  shows "\<exists>pre tso pay. tx_gso_descs api v ctx p = pre @ tso # pay
     \<and> length pre = of_bool (tx_gso_needs_context v ctx p)
     \<and> tso_addr tso = frag_addr v (FragmentIndex (pkt v p))
     \<and> unat (getf TxDescriptorReadTso ''Buf1Length'' tso) = unat (tx_header_length (Layout (pkt v p)))
     \<and> tx_addresses pay = drop (unat (tx_header_length (Layout (pkt v p)))) (tx_packet_addresses api v (fragmentRing ctx) p)
     \<and> unat (getf TxDescriptorReadTso ''TcpPayloadLength'' tso) = tx_payload_bytes pay
     \<and> unat (getf TxDescriptorReadTso ''Buf1Length'' tso) + tx_payload_bytes pay
         = sum_list (tx_packet_sizes api v (fragmentRing ctx) p)
     \<and> list_all (\<lambda>d. 0 < buf_length d \<and> buf_length d \<le> unat QueueDescriptorLengthMax) pay"
proof -
  let ?f = "FragmentIndex (pkt v p)" and ?n = "unat (FragmentCount (pkt v p))" and ?ring = "fragmentRing ctx"
  let ?h = "tx_header_length (Layout (pkt v p))" and ?t = "tx_vlan_control (tx_vlan_tag v ctx p)"
  let ?size = "frag_size api v ?ring ?f" and ?tot = "sum_list (tx_packet_sizes api v ?ring p)"
  let ?pay = "concat (map (tx_gso_frag_descs api v ?ring ?t ?n (unat ?h) ?f) [0..<?n])"
  have sz: "tx_packet_sizes api v ?ring p = map ?size [0..<?n]" by (simp add: tx_packet_sizes_def)
  have n: "0 < ?n" and hdr: "unat ?h \<le> ?size 0" and tot: "?tot \<le> TxMaximumOffloadSize + unat ?h"
    using assms(1) by (auto simp: tx_gso_wf_def Let_def sz)
  have frag: "tx_payload_bytes (tx_gso_frag_descs api v ?ring ?t ?n (unat ?h) ?f k) = ?size k - (if k = 0 then unat ?h else 0)" for k
    using hdr by (auto simp: tx_gso_frag_descs_def buffer_bytes)
  have pay: "tx_payload_bytes ?pay + unat ?h = ?tot"
    using sum_tail [of ?n "unat ?h" ?size, OF n hdr] by (simp add: payload_concat comp_def frag sz)
  have small: "?tot < 2 ^ 32"
    using tot assms(2) by (simp add: TxMaximumOffloadSize_def)
  have "unat (of_nat ?tot - ucast ?h :: u32) = ?tot - unat ?h"
  proof -
    have u: "unat (of_nat ?tot :: u32) = ?tot" using small by (simp add: unat_of_nat)
    have "unat (ucast ?h :: u32) = unat ?h" by (simp add: unat_ucast_widen)
    then show ?thesis using u pay by (simp add: unat_sub word_le_nat_alt)
  qed
  then have q: "unat (of_nat ?tot - ucast ?h :: u32) mod 2 ^ 18 = tx_payload_bytes ?pay"
    using pay tot by (simp add: TxMaximumOffloadSize_def)
  have "list_all (\<lambda>d. 0 < buf_length d \<and> buf_length d \<le> unat QueueDescriptorLengthMax) ?pay"
    using buffer_bounds by (auto simp: list_all_iff tx_gso_frag_descs_def)
  moreover have "tx_addresses ?pay = drop (unat ?h) (tx_packet_addresses api v ?ring p)"
    by (rule gso_addresses [OF n hdr])
  ultimately show ?thesis
    using pay q assms(2)
    by (intro exI [of _ "if tx_gso_needs_context v ctx p then _ else []"] exI [of _ "tx_desc_tso _ _ _ _ _"] exI [of _ ?pay])
       (auto simp: tx_gso_descs_def Let_def tso_fields tso_address)
qed

text \<open>What a run of the fill code leaves in the ring: the slots from \<open>i\<close> up to \<open>e\<close>, in order.\<close>

abbreviation tx_slots :: "TxQueueContext \<Rightarrow> u32 \<Rightarrow> u32 \<Rightarrow> u128 list" where
  "tx_slots ctx i e \<equiv> map (descVirtual ctx) (walk (desc_next (descCount ctx)) (unat (descCount ctx)) i e)"

lemma put_slots:
  assumes "count_ok (descCount c)" "unat i < unat (descCount c)" "length ds < unat (descCount c)"
    "tx_put_all ds (c, i) = (ctx', e)"
  shows "tx_slots ctx' i e = ds"
proof -
  have e: "descCount ctx' = descCount c" "descVirtual ctx' = fst (write_seq (descCount c) (descVirtual c, i) ds)"
    "e = snd (write_seq (descCount c) (descVirtual c, i) ds)"
    using assms(4) by (auto simp: tx_put_all_write_seq)
  show ?thesis unfolding e using write_seq_walk [OF assms(1,2,2), of ds "descVirtual c"] assms(3) by simp
qed

text \<open>C8: Segmentation offload accounts for every byte: when the fill code accepts a segmentation packet, the
  slots it has written hold, after the context descriptor if one is needed, a header descriptor that points to
  the packet's first fragment, whose headers it covers, and payload descriptors whose buffers are exactly the
  bytes of the packet's fragments after the headers, each once and in order; the header descriptor announces
  as payload exactly that many bytes, and every payload buffer has between 1 and 0x3FFF bytes, the most a
  descriptor can say. The packet keeps within what the driver asserts (the headers lie in the first fragment,
  the offload is within the advertised size) and its headers are shorter than 2^14 bytes.\<close>

theorem tx_gso_accounting:
  assumes "tx_gso_wf api v (fragmentRing ctx) p" "unat (tx_header_length (Layout (pkt v p))) < 2 ^ 14"
    "count_ok (descCount ctx)" "unat b < unat (descCount ctx)" "unat i < unat (descCount ctx)"
    "tx_fill_gso api v b p (ctx, i) = Some (ctx', e)"
  shows "\<exists>pre tso pay. tx_slots ctx' i e = pre @ tso # pay
     \<and> length pre = of_bool (tx_gso_needs_context v ctx p)
     \<and> tso_addr tso = frag_addr v (FragmentIndex (pkt v p))
     \<and> unat (getf TxDescriptorReadTso ''Buf1Length'' tso) = unat (tx_header_length (Layout (pkt v p)))
     \<and> tx_addresses pay = drop (unat (tx_header_length (Layout (pkt v p)))) (tx_packet_addresses api v (fragmentRing ctx) p)
     \<and> unat (getf TxDescriptorReadTso ''TcpPayloadLength'' tso) = tx_payload_bytes pay
     \<and> unat (getf TxDescriptorReadTso ''Buf1Length'' tso) + tx_payload_bytes pay
         = sum_list (tx_packet_sizes api v (fragmentRing ctx) p)
     \<and> list_all (\<lambda>d. 0 < buf_length d \<and> buf_length d \<le> unat QueueDescriptorLengthMax) pay"
proof -
  let ?ds = "tx_gso_descs api v ctx p"
  have room: "tx_gso_needed api v ctx p \<le> unat (EMPTY_DESC_REMAINING (descCount ctx) b i)"
    and put: "tx_put_all ?ds (tx_gso_ctx v ctx p, i) = (ctx', e)"
    using assms(6) tx_fill_gso_spec [OF assms(1), of b i] by (auto split: if_splits)
  have "length ?ds < unat (descCount ctx)"
    using room tx_gso_descs_length [OF assms(1)] remaining_eq [OF assms(3-5)] assms(4) by linarith
  moreover have "descCount (tx_gso_ctx v ctx p) = descCount ctx" by (simp add: tx_gso_ctx_def Let_def)
  ultimately have slots: "tx_slots ctx' i e = ?ds" using put_slots [OF _ _ _ put] assms(3,5) by simp
  show ?thesis unfolding slots by (rule gso_descs_accounting [OF assms(1,2)])
qed

lemma demo_gso:
  "tx_gso_wf wrap_api (demo_tx_view 40 demo_layout) (fragmentRing (demo_tx 1)) 0"
  "unat (tx_header_length (Layout (pkt (demo_tx_view 40 demo_layout) 0))) = 54"
  "count_ok (descCount (demo_tx 1))" "descCount (demo_tx 1) = 64"
proof -
  have ring: "fragmentRing (demo_tx 1) = demo_ring 1" by (simp add: demo_tx_def demo_tx0_def)
  show "tx_gso_wf wrap_api (demo_tx_view 40 demo_layout) (fragmentRing (demo_tx 1)) 0"
    using demo_framed(2) [of 1] by (simp add: ring tx_framed_def tx_packet_wf_def demo_tx_view_def demo_packet_def)
  show "unat (tx_header_length (Layout (pkt (demo_tx_view 40 demo_layout) 0))) = 54"
    by (simp add: tx_header_length_def demo_tx_view_def demo_packet_def demo_layout_def)
  show "count_ok (descCount (demo_tx 1))" using demo_rings by (simp add: tx_rings_ok_def)
  show "descCount (demo_tx 1) = 64" by (simp add: demo_tx_def demo_tx0_def)
qed

theorem tx_gso_accounting_witness:
  "\<exists>ctx' e pre tso pay. tx_fill_gso wrap_api (demo_tx_view 40 demo_layout) 0 0 (demo_tx 1, 0) = Some (ctx', e)
     \<and> tx_slots ctx' 0 e = pre @ tso # pay
     \<and> tx_addresses pay = drop 54 (tx_packet_addresses wrap_api (demo_tx_view 40 demo_layout) (fragmentRing (demo_tx 1)) 0)
     \<and> unat (getf TxDescriptorReadTso ''TcpPayloadLength'' tso) = 46"
proof -
  let ?v = "demo_tx_view 40 demo_layout"
  have sizes: "tx_packet_sizes wrap_api ?v (fragmentRing (demo_tx 1)) 0 = [100]"
    by (simp add: tx_packet_sizes_def frag_size_def demo_tx_view_def demo_packet_def)
  then have "tx_gso_needed wrap_api ?v (demo_tx 1) 0 \<le> unat (EMPTY_DESC_REMAINING (descCount (demo_tx 1)) 0 0)"
    by (simp add: tx_gso_needed_def demo_gso(4) EMPTY_DESC_REMAINING_def)
  then obtain ctx' e where run: "tx_fill_gso wrap_api ?v 0 0 (demo_tx 1, 0) = Some (ctx', e)"
    using tx_fill_gso_spec [OF demo_gso(1), of 0 0] by (auto simp: tx_put_all_write_seq)
  from tx_gso_accounting [OF demo_gso(1) _ demo_gso(3) _ _ run] obtain pre tso pay where
    "tx_slots ctx' 0 e = pre @ tso # pay"
    "tx_addresses pay = drop 54 (tx_packet_addresses wrap_api ?v (fragmentRing (demo_tx 1)) 0)"
    "unat (getf TxDescriptorReadTso ''Buf1Length'' tso) = 54"
    "unat (getf TxDescriptorReadTso ''TcpPayloadLength'' tso) = tx_payload_bytes pay"
    "unat (getf TxDescriptorReadTso ''Buf1Length'' tso) + tx_payload_bytes pay = 100"
    unfolding demo_gso(2,4) sizes by auto
  then show ?thesis using run by (intro exI conjI) simp_all
qed

section \<open>Context descriptors\<close>

text \<open>
  What the device remembers of the context descriptors it has read: the VLAN tag and the segment size.
\<close>

definition tx_device_sees :: "u128 \<Rightarrow> u16 \<times> u16 \<Rightarrow> u16 \<times> u16" where
  "tx_device_sees d s =
     (if isset TxDescriptorContext ''ContextType'' d
      then (if isset TxDescriptorContext ''VlanTagValid'' d then ucast (getf TxDescriptorContext ''VlanTag'' d) else fst s,
            if isset TxDescriptorContext ''OneStepInputOrMssValid'' d
            then ucast (getf TxDescriptorContext ''MaximumSegmentSize'' d) else snd s)
      else s)"

lemma not_context:
  "\<not> isset TxDescriptorContext ''ContextType'' (tx_desc_payload a l t z)"
  "\<not> isset TxDescriptorContext ''ContextType'' (tx_desc_plain a n t f k y z)"
  "\<not> isset TxDescriptorContext ''ContextType'' (tx_desc_tso a h t q l4)"
proof -
  have eq: "isset TxDescriptorContext ''ContextType'' d = isset TxDescriptorRead ''ContextType'' d"
    "isset TxDescriptorContext ''ContextType'' d = isset TxDescriptorReadTso ''ContextType'' d" for d :: u128
    by (simp_all add: isset_def getf_def context_position)
  show "\<not> isset TxDescriptorContext ''ContextType'' (tx_desc_payload a l t z)"
    "\<not> isset TxDescriptorContext ''ContextType'' (tx_desc_plain a n t f k y z)"
    by (simp_all add: eq(1) tx_desc_payload_def tx_desc_plain_def txDescriptorRead.isset_putf_other)
  show "\<not> isset TxDescriptorContext ''ContextType'' (tx_desc_tso a h t q l4)"
    by (simp add: eq(2) tx_desc_tso_def txDescriptorReadTso.isset_putf_other)
qed

lemma sees_data [simp]:
  "tx_device_sees (tx_desc_payload a l t z) s = s" "tx_device_sees (tx_desc_plain a n t f k y z) s = s"
  "tx_device_sees (tx_desc_tso a h t q l4) s = s"
  by (simp_all add: tx_device_sees_def not_context)

lemma narrow_back:
  "LENGTH('a) \<le> LENGTH('b) \<Longrightarrow> LENGTH('a) \<le> n \<Longrightarrow> ucast (take_bit n (ucast (x::'a::len word) :: 'b::len word)) = x"
  by (rule bit_word_eqI) (auto simp: bit_simps)

lemma narrow_back_small:
  assumes "unat (m :: u16) < 2 ^ 14"
  shows "ucast (take_bit 14 (ucast m :: u128)) = m"
proof -
  have "take_bit 14 m = m" using unat_take_bit_small [OF assms] by (simp add: word_unat_eq_iff)
  moreover have "ucast (take_bit 14 (ucast m :: u128)) = take_bit 14 m"
    by (rule bit_word_eqI) (auto simp: bit_simps)
  ultimately show ?thesis by simp
qed

lemma sees_context:
  "tx_device_sees (tx_desc_context_plain tag) s = (tag, snd s)"
  "unat m < 2 ^ 14 \<Longrightarrow> tx_device_sees (tx_desc_context_gso m tag b) s = (if b then tag else fst s, m)"
proof -
  note fields = txDescriptorContext.isset_putf_other txDescriptorContext.getf_putf
    txDescriptorContext.isset_putf_flag [OF one_bit(2)] txDescriptorContext.isset_putf_flag member_widths
  show "tx_device_sees (tx_desc_context_plain tag) s = (tag, snd s)"
    by (simp add: tx_device_sees_def tx_desc_context_plain_def fields narrow_back)
  show "unat m < 2 ^ 14 \<Longrightarrow> tx_device_sees (tx_desc_context_gso m tag b) s = (if b then tag else fst s, m)"
    by (simp add: tx_device_sees_def tx_desc_context_gso_def fields narrow_back narrow_back_small)
qed

lemma fold_fixed: "(\<And>d. d \<in> set ds \<Longrightarrow> g d s = s) \<Longrightarrow> fold g ds s = s"
  by (induction ds) auto

lemma sees_packet:
  assumes "unat (ucast (gso_mss v p) :: u16) < 2 ^ 14"
  shows "fold tx_device_sees (tx_packet_descs api v ctx p) (lastVlanTag ctx, lastMss ctx)
    = (lastVlanTag (tx_packet_ctx v ctx p), lastMss (tx_packet_ctx v ctx p))"
proof -
  have plain: "fold tx_device_sees (map (tx_plain_desc_at api v r t cs fl n f) xs) s = s" for r t cs fl n f xs s
    by (rule fold_fixed) (auto simp: tx_plain_desc_at_def)
  have gso: "fold tx_device_sees (concat (map (tx_gso_frag_descs api v r t n h f) xs)) s = s" for r t n h f xs s
    by (rule fold_fixed) (auto simp: tx_gso_frag_descs_def tx_gso_buffer_descs_def)
  show ?thesis
    using assms
    by (auto simp: tx_packet_descs_def tx_packet_ctx_def tx_plain_descs_def tx_gso_descs_def Let_def
        tx_plain_ctx_def tx_gso_ctx_def plain gso sees_context tx_gso_needs_context_def)
qed

lemma sees_stream:
  assumes "\<And>i. unat (ucast (gso_mss v i) :: u16) < 2 ^ 14"
  shows "fold tx_device_sees (fst (tx_stream api v ctx p k)) (lastVlanTag ctx, lastMss ctx)
    = (lastVlanTag (snd (tx_stream api v ctx p k)), lastMss (snd (tx_stream api v ctx p k)))"
proof (induction k arbitrary: ctx p)
  case 0
  then show ?case by simp
next
  case (Suc k)
  show ?case using Suc.IH sees_packet [OF assms] by (auto split: prod.split) (metis fst_conv snd_conv)+
qed

lemma indicate_context:
  assumes "net_rings api" "tx_inv api v ctx" "tx_indicate api v ctx = Some ctx1"
  shows "lastVlanTag ctx1 = lastVlanTag ctx" "lastMss ctx1 = lastMss ctx" "unat (descBegin ctx1) < unat (descCount ctx)"
  using net_rings.indicate_correct [OF assms(1,2)] assms(3) by auto

text \<open>C19: The queue's cached \<open>lastVlanTag\<close> and \<open>lastMss\<close> are what the device holds: if they are when the advance
  handler starts, they are when it ends: a device that reads the descriptors the handler has written to the
  ring, in order, from the old end to the new one, ends with exactly the tag and segment size the driver
  remembers, so that a packet sent without a context descriptor is sent with the right ones. The packets'
  segment sizes fit the descriptor's field (14 bits).\<close>

theorem tx_context_mirrors_device:
  assumes "net_rings api" "tx_inv api v ctx" "tx_pending_framed api v ctx"
    "\<And>i. unat (ucast (gso_mss v i) :: u16) < 2 ^ 14" "TxQueueAdvance api v ctx = Some (ctx', n)"
  shows "fold tx_device_sees (tx_slots ctx' (descEnd ctx) (descEnd ctx')) (lastVlanTag ctx, lastMss ctx)
    = (lastVlanTag ctx', lastMss ctx')"
proof -
  obtain ctx1 k ds c m where ind: "tx_indicate api v ctx = Some ctx1"
    and st: "tx_stream api v ctx1 (NextIndex (packetRing ctx1)) k = (ds, c)"
    and m: "m = fst (write_seq (descCount ctx) (descVirtual ctx, descEnd ctx) ds)"
    and run: "TxQueueAdvance api v ctx = Some (tx_publish (descEnd ctx) ((desc_next (descCount ctx) ^^ length ds) (descEnd ctx))
           ((NetRingIncrementIndex api (packetRing ctx1) ^^ k) (NextIndex (packetRing ctx1))) (c\<lparr>descVirtual := m\<rparr>), 0)"
    and room: "length ds \<le> unat (EMPTY_DESC_REMAINING (descCount ctx) (descBegin ctx1) (descEnd ctx))"
    using advance_refines [OF assms(1-3)] by blast
  note old = indicate_context [OF assms(1,2) ind]
  obtain d q f where c1: "ctx1 = ctx\<lparr>packetRing := (packetRing ctx)\<lparr>BeginIndex := q\<rparr>,
      fragmentRing := (fragmentRing ctx)\<lparr>BeginIndex := f\<rparr>, descBegin := d\<rparr>"
    using net_rings.indicate_correct [OF assms(1,2)] ind by auto
  note fields = tx_stream_fields [OF st]
  have ok: "count_ok (descCount ctx)" "unat (descEnd ctx) < unat (descCount ctx)"
    using assms(2) by (simp_all add: tx_inv_def tx_rings_ok_def)
  have len: "length ds < unat (descCount ctx)" using room remaining_eq [OF ok(1) old(3) ok(2)] ok(2) by linarith
  have new: "descCount ctx' = descCount ctx" "descVirtual ctx' = m" "descEnd ctx' = snd (write_seq (descCount ctx) (descVirtual ctx, descEnd ctx) ds)"
    "lastVlanTag ctx' = lastVlanTag c" "lastMss ctx' = lastMss c"
    using run assms(5) fields c1 by (auto simp: tx_publish_def TxSetDescEnd_def Let_def write_seq_index)
  have "tx_slots ctx' (descEnd ctx) (descEnd ctx') = ds"
    unfolding new m using write_seq_walk [OF ok(1,2,2), of ds "descVirtual ctx"] len by simp
  then show ?thesis using sees_stream [OF assms(4), of api ctx1 "NextIndex (packetRing ctx1)" k] old(1,2) st new(4,5) by simp
qed

theorem tx_context_mirrors_device_witness:
  "\<exists>ctx'. TxQueueAdvance wrap_api (demo_tx_view 40 demo_layout) (demo_tx 1) = Some (ctx', 0)
     \<and> fold tx_device_sees (tx_slots ctx' (descEnd (demo_tx 1)) (descEnd ctx')) (lastVlanTag (demo_tx 1), lastMss (demo_tx 1))
       = (lastVlanTag ctx', lastMss ctx')"
proof -
  obtain ctx' where run: "TxQueueAdvance wrap_api (demo_tx_view 40 demo_layout) (demo_tx 1) = Some (ctx', 0)"
    using wrap.advance_correct [OF demo_inv demo_pending_framed(2)] by blast
  have "unat (ucast (gso_mss (demo_tx_view 40 demo_layout) i) :: u16) < 2 ^ 14" for i by (simp add: demo_tx_view_def)
  from tx_context_mirrors_device [OF wrap.net_rings_axioms demo_inv demo_pending_framed(2) this run] run show ?thesis by blast
qed

text \<open>The tag of a packet holds its priority and VLAN identifier where 802.1Q puts them, and a
  packet whose tag is not the one the device holds starts with a context descriptor that announces it.\<close>

theorem tx_vlan_tag_announced:
  assumes "unat (PriorityCodePoint (ieee8021Q v p)) < 8" "unat (VlanIdentifier (ieee8021Q v p)) < 4096"
    "TxPriorityRequired (ieee8021Q v p)" "TxVlanRequired (ieee8021Q v p)" "\<not> Ignore (pkt v p)"
    "tx_vlan_tag v ctx p \<noteq> 0" "tx_vlan_tag v ctx p \<noteq> lastVlanTag ctx"
    "unat (ucast (gso_mss v p) :: u16) < 2 ^ 14"
  shows "drop_bit 13 (tx_vlan_tag v ctx p) = PriorityCodePoint (ieee8021Q v p)
    \<and> take_bit 12 (tx_vlan_tag v ctx p) = VlanIdentifier (ieee8021Q v p)
    \<and> fst (tx_device_sees (hd (tx_packet_descs api v ctx p)) s) = tx_vlan_tag v ctx p
    \<and> lastVlanTag (tx_packet_ctx v ctx p) = tx_vlan_tag v ctx p"
proof -
  let ?q = "ieee8021Q v p"
  have tag: "tx_vlan_tag v ctx p = push_bit 13 (PriorityCodePoint ?q) OR VlanIdentifier ?q"
    using assms(3,4) by (simp add: tx_vlan_tag_def Let_def)
  have pb: "\<not> bit (PriorityCodePoint ?q) n" if "3 \<le> n" for n using assms(1) that high_bit_clear [of _ 3] by simp
  have vb: "\<not> bit (VlanIdentifier ?q) n" if "12 \<le> n" for n using assms(2) that high_bit_clear [of _ 12] by simp
  have "drop_bit 13 (tx_vlan_tag v ctx p) = PriorityCodePoint ?q"
  proof (rule bit_word_eqI)
    fix n assume "n < LENGTH(16)"
    then show "bit (drop_bit 13 (tx_vlan_tag v ctx p)) n = bit (PriorityCodePoint ?q) n"
      using pb [of n] vb [of "n + 13"] by (cases "n < 3") (auto simp: tag bit_simps add.commute)
  qed
  moreover have "take_bit 12 (tx_vlan_tag v ctx p) = VlanIdentifier ?q"
  proof (rule bit_word_eqI)
    fix n assume "n < LENGTH(16)"
    then show "bit (take_bit 12 (tx_vlan_tag v ctx p)) n = bit (VlanIdentifier ?q) n"
      using vb [of n] by (cases "n < 12") (auto simp: tag bit_simps)
  qed
  moreover have need: "tx_context_tag_needed ctx (tx_vlan_tag v ctx p)"
    using assms(6,7) by (simp add: tx_context_tag_needed_def)
  moreover have "fst (tx_device_sees (hd (tx_packet_descs api v ctx p)) s) = tx_vlan_tag v ctx p"
    using assms(5,8) need
    by (simp add: tx_packet_descs_def tx_plain_descs_def tx_gso_descs_def Let_def tx_gso_needs_context_def sees_context)
  moreover have "lastVlanTag (tx_packet_ctx v ctx p) = tx_vlan_tag v ctx p"
    using assms(5) need by (simp add: tx_packet_ctx_def tx_plain_ctx_def tx_gso_ctx_def Let_def tx_gso_needs_context_def)
  ultimately show ?thesis by blast
qed

theorem tx_vlan_tag_announced_witness:
  "drop_bit 13 (tx_vlan_tag (demo_tx_view 40 demo_layout) (demo_tx 1) 0) = 3
    \<and> take_bit 12 (tx_vlan_tag (demo_tx_view 40 demo_layout) (demo_tx 1) 0) = 5
    \<and> fst (tx_device_sees (hd (tx_packet_descs wrap_api (demo_tx_view 40 demo_layout) (demo_tx 1) 0)) (0, 0))
        = tx_vlan_tag (demo_tx_view 40 demo_layout) (demo_tx 1) 0"
proof -
  have q: "ieee8021Q (demo_tx_view 40 demo_layout) 0 =
      \<lparr>PriorityCodePoint = 3, VlanIdentifier = 5, TxPriorityRequired = True, TxVlanRequired = True\<rparr>"
    by (simp add: demo_tx_view_def)
  have tag: "tx_vlan_tag (demo_tx_view 40 demo_layout) (demo_tx 1) 0 = 0x6005"
    by (simp add: tx_vlan_tag_def q)
  have last0: "lastVlanTag (demo_tx 1) = 0" by (simp add: demo_tx_def)
  show ?thesis
    using tx_vlan_tag_announced [of "demo_tx_view 40 demo_layout" 0 "demo_tx 1" wrap_api "(0, 0)"]
    by (simp add: q tag last0) (simp add: demo_tx_view_def demo_packet_def)
qed

end
