(* ===== verification/TxLifecycle.thy ===== *)
theory TxLifecycle imports TxFormats begin

text \<open>
  Start, cancel and stop of the transmit queue, and the ring sizes and descriptor addresses both
  queues share (queue_common.cpp).
\<close>

section \<open>Ring sizes and descriptor addresses\<close>

text \<open>The descriptor ring allocated for a fragment ring has a power-of-two size the hardware
  supports, at least the fragment count where that is possible and less than twice the clamped count,
  so the masked index arithmetic and the one-page granularity hold.\<close>

theorem QueueDescriptorCount_spec:
  "count_ok (QueueDescriptorCount f)
   \<and> min (unat f) 1024 \<le> unat (QueueDescriptorCount f)
   \<and> unat (QueueDescriptorCount f) < 2 * max 64 (min (unat f) 1024)"
proof -
  let ?cl = "if f < QueueDescriptorMinCount then QueueDescriptorMinCount
     else if f > QueueDescriptorMaxCount then QueueDescriptorMaxCount else f"
  define cl where "cl = ?cl"
  define b where "b = bit_scan_reverse (unat (cl - 1))"
  have c: "unat cl = max 64 (min (unat f) 1024)"
    by (auto simp: cl_def queue_constants word_less_nat_alt)
  then have lo: "64 \<le> unat cl" and hi: "unat cl \<le> 1024" by auto
  then have "unat (cl - 1) = unat cl - 1" by (subst unat_sub) (auto simp: word_le_nat_alt)
  then have bnd: "2 ^ b \<le> unat cl - 1" "unat cl - 1 < 2 * 2 ^ b"
    using bit_scan_reverse_bounds [of "unat cl - 1"] lo by (simp_all add: b_def)
  have "5 \<le> b"
  proof (rule ccontr)
    assume "\<not> 5 \<le> b"
    then have "(2::nat) ^ b \<le> 2 ^ 4" by (intro power_increasing) auto
    then show False using bnd(2) lo by simp
  qed
  moreover have "b \<le> 9"
  proof (rule ccontr)
    assume "\<not> b \<le> 9"
    then have "(2::nat) ^ 10 \<le> 2 ^ b" by (intro power_increasing) auto
    then show False using bnd(1) hi lo by simp
  qed
  ultimately have b: "b = 5 \<or> b = 6 \<or> b = 7 \<or> b = 8 \<or> b = 9" by arith
  have q: "QueueDescriptorCount f = push_bit b 2"
    by (simp add: QueueDescriptorCount_def cl_def b_def Let_def)
  have "count_ok (push_bit b 2)" and u: "unat (push_bit b (2::u32)) = 2 * 2 ^ b"
    using b by (auto simp: count_ok_def)
  moreover have "min (unat f) 1024 \<le> 2 * 2 ^ b" "2 * 2 ^ b < 2 * max 64 (min (unat f) 1024)"
    using bnd lo c by linarith+
  ultimately show ?thesis by (simp add: q)
qed

text \<open>For a descriptor ring aligned as it is allocated, the index of the descriptor at a hardware
  pointer is the index the pointer was computed from: the tail-pointer arithmetic and its inverse agree
  for every index of every ring size.\<close>

theorem QueueDescriptorAddressToIndex_roundtrip:
  assumes "LowPart phys AND (QueueDescriptorAlignment - 1) = 0" "count_ok c" "unat i < unat c"
  shows "QueueDescriptorAddressToIndex (LowPart phys + i * QueueDescriptorSize) = i"
proof -
  have i: "unat i < 1024" using assms(2,3) count_ok_bounds [of c] by simp
  have off: "unat (i * QueueDescriptorSize) = unat i * 64"
    using i by (simp add: QueueDescriptorSize_def unat_word_ariths)
  have mask: "QueueDescriptorAlignment - 1 = mask 16"
    by (simp add: queue_constants mask_eq_exp_minus_1)
  have "LowPart phys AND (i * QueueDescriptorSize) = 0"
  proof (rule bit_word_eqI)
    fix n assume n: "n < LENGTH(32)"
    have "\<not> bit (LowPart phys) n" if "n < 16"
    proof -
      have "bit (LowPart phys AND mask 16) n = bit (LowPart phys) n" using that n by (simp add: bit_simps)
      then show ?thesis using assms(1) by (simp add: mask)
    qed
    moreover have "\<not> bit (i * QueueDescriptorSize) n" if "16 \<le> n"
      by (rule high_bit_clear [of _ 16]) (use off i that in auto)
    ultimately show "bit (LowPart phys AND i * QueueDescriptorSize) n = bit (0::u32) n"
      by (cases "n < 16") (auto simp: bit_simps)
  qed
  then have "LowPart phys + i * QueueDescriptorSize = LowPart phys OR i * QueueDescriptorSize"
    by (simp add: disjunctive_add_eq_or)
  moreover have "(i * QueueDescriptorSize) AND mask 16 = i * QueueDescriptorSize"
  proof -
    have "take_bit 16 (i * QueueDescriptorSize) = i * QueueDescriptorSize"
      using unat_take_bit_small [of "i * QueueDescriptorSize" 16] off i by (simp add: word_unat_eq_iff)
    then show ?thesis by (simp add: take_bit_eq_mask)
  qed
  ultimately have "QueueDescriptorAddressToIndex (LowPart phys + i * QueueDescriptorSize)
      = (i * QueueDescriptorSize) div QueueDescriptorSize"
    using assms(1) by (simp add: QueueDescriptorAddressToIndex_def mask bit.conj_disj_distrib2)
  also have "\<dots> = i"
    using off by (simp add: word_unat_eq_iff unat_div QueueDescriptorSize_def)
  finally show ?thesis .
qed

theorem QueueDescriptorAddressToIndex_roundtrip_witness:
  "QueueDescriptorAddressToIndex (LowPart 0x10000 + 63 * QueueDescriptorSize) = 63"
  by (rule QueueDescriptorAddressToIndex_roundtrip [where c = 64])
     (simp_all add: LowPart_def queue_constants count_ok_def)

section \<open>Start\<close>

text \<open>Start programs the ring before it starts the channel: the last register written is the
  channel control with the start and segmentation bits set, after the full 64-bit ring address, the
  ring length and the tail pointer, and the queue starts with nothing in flight and without assuming
  what tag or segment size the device holds.\<close>

theorem TxQueueStart_programs_ring:
  "\<exists>hi lo ctl. wlog (channelRegs (TxQueueStart ctx)) = wlog (channelRegs ctx) @
       [(TxDesc_List_Address_Hi, hi), (TxDesc_List_Address, lo), (TxDesc_Ring_Length, descCount ctx - 1),
        (TxDesc_Tail_Pointer, lo), (Ch_Tx_Control, ctl)]
     \<and> push_bit 32 (ucast hi) OR ucast lo = descPhysical ctx
     \<and> isset ChannelTxControl_t ''Start'' ctl \<and> isset ChannelTxControl_t ''TcpSegmentation'' ctl
     \<and> tx_in_flight (TxQueueStart ctx) = [] \<and> tx_tail_ok (TxQueueStart ctx)
     \<and> (\<forall>v p. (ucast (gso_mss v p) :: u16) = 0xFFFF \<or> tx_gso_needs_context v (TxQueueStart ctx) p)"
proof -
  have w: "wlog (channelRegs (TxQueueStart ctx)) = wlog (channelRegs ctx) @
       [(TxDesc_List_Address_Hi, HighPart (descPhysical ctx)), (TxDesc_List_Address, LowPart (descPhysical ctx)),
        (TxDesc_Ring_Length, descCount ctx - 1), (TxDesc_Tail_Pointer, LowPart (descPhysical ctx)),
        (Ch_Tx_Control, tx_start_control (txPbl ctx))]"
    by (simp add: TxQueueStart_def TxSetDescEnd_def Let_def)
  have addr: "push_bit 32 (ucast (HighPart a)) OR ucast (LowPart a) = a" for a
    by (rule bit_word_eqI) (auto simp: HighPart_def LowPart_def bit_simps)
  have width: "0 < snd (member ChannelTxControl_t ''Start'')" "0 < snd (member ChannelTxControl_t ''TcpSegmentation'')"
    by (simp_all add: ChannelTxControl_t_def)
  have "isset ChannelTxControl_t ''Start'' (tx_start_control (txPbl ctx))"
    "isset ChannelTxControl_t ''TcpSegmentation'' (tx_start_control (txPbl ctx))"
    by (simp_all add: tx_start_control_def channelTxControl.isset_putf_other channelTxControl.isset_putf_flag width)
  moreover have "tx_in_flight (TxQueueStart ctx) = []" by (simp add: tx_in_flight_def)
  moreover have "(ucast (gso_mss v p) :: u16) = 0xFFFF \<or> tx_gso_needs_context v (TxQueueStart ctx) p" for v p
    by (auto simp: tx_gso_needs_context_def)
  ultimately show ?thesis using w addr TxQueueStart_tail by blast
qed

section \<open>Cancel\<close>

lemma flush_ends: "n \<le> k \<Longrightarrow> \<not> flushing k \<Longrightarrow> \<exists>r. tx_wait_flush flushing n = Some r"
proof (induction "k - n" arbitrary: n)
  case 0
  then show ?case by (simp add: tx_wait_flush.simps)
next
  case (Suc d)
  then have "\<exists>r. tx_wait_flush flushing (Suc n) = Some r" by simp
  then show ?case by (subst tx_wait_flush.simps) auto
qed

lemma tx_inv_control:
  "tx_inv api v ctx \<Longrightarrow> tx_inv api v (ctx\<lparr>channelRegs := Write32 Ch_Tx_Control c (channelRegs ctx)\<rparr>)"
  by (simp add: tx_inv_def tx_rings_ok_def tx_counted_def tx_tail_ok_def)

lemma pending_framed_control:
  "tx_pending_framed api v ctx \<Longrightarrow> tx_pending_framed api v (ctx\<lparr>channelRegs := w\<rparr>)"
  by (simp add: tx_pending_framed_def)

text \<open>Cancel ends and hands every packet back to the framework, whether the queue was empty, the
  transmitter went idle within the retries, or it had to be flushed, provided the device completes the
  flush it is asked for.\<close>

theorem tx_cancel_returns_all:
  assumes "net_rings api" "tx_inv api v ctx" "tx_pending_framed api v ctx" "\<not> flushing k"
  shows "\<exists>ctx'. TxQueueCancel api v tx_debug flushing ctx = Some ctx'
     \<and> BeginIndex (packetRing ctx') = EndIndex (packetRing ctx)
     \<and> EndIndex (packetRing ctx') = EndIndex (packetRing ctx)
     \<and> \<not> isset ChannelTxControl_t ''Start'' (Read32 Ch_Tx_Control (channelRegs ctx'))"
proof -
  let ?stop = "putf ChannelTxControl_t ''Start'' (flag False) 0 :: u32"
  let ?c = "ctx\<lparr>channelRegs := Write32 Ch_Tx_Control ?stop (channelRegs ctx)\<rparr>"
  have clear: "\<not> isset ChannelTxControl_t ''Start'' ?stop"
    using channelTxControl.isset_putf_flag [of "''Start''" False 0] by (simp add: ChannelTxControl_t_def)
  show ?thesis
  proof (cases "BeginIndex (packetRing ctx) = EndIndex (packetRing ctx)")
    case True
    then show ?thesis using clear by (simp add: TxQueueCancel_def)
  next
    case busy: False
    show ?thesis
    proof (cases "tx_wait_idle tx_debug tx_max_retry 0 = tx_max_retry")
      case True
      obtain r where "tx_wait_flush flushing 0 = Some r" using flush_ends [of 0 k] assms(4) by auto
      then show ?thesis
        using busy True clear by (simp add: TxQueueCancel_def tx_discard_def tx_reset_queue_def)
    next
      case False
      obtain ctx' where adv: "TxQueueAdvance api v ?c = Some (ctx', 0)" and same: "tx_same_ring ?c ctx'"
        using net_rings.advance_correct [OF assms(1) tx_inv_control [OF assms(2)] pending_framed_control [OF assms(3)]]
        by blast
      have "Read32 Ch_Tx_Control (channelRegs ctx') = ?stop"
        using same by (simp add: tx_same_ring_def)
      then show ?thesis
        using busy False adv same clear
        by (simp add: TxQueueCancel_def tx_discard_def tx_same_ring_def)
    qed
  qed
qed

theorem tx_cancel_returns_all_witness:
  "\<exists>ctx'. TxQueueCancel wrap_api (demo_tx_view 0 empty_layout) (\<lambda>k. 0) (\<lambda>k. False) (demo_tx 1) = Some ctx'
     \<and> BeginIndex (packetRing ctx') = EndIndex (packetRing (demo_tx 1))"
  using tx_cancel_returns_all [OF wrap.net_rings_axioms demo_inv demo_pending_framed(1), of "\<lambda>k. False" 0 "\<lambda>k. 0"]
  by simp blast

text \<open>
  The last chance cancel gives the handler also accepts packets: when a packet is pending and nothing is
  in flight, the handler fills descriptors of the stopped channel, and the assertion after it,
  \<open>descBegin == descEnd\<close>, does not hold.
\<close>

theorem tx_cancel_refills:
  assumes "net_rings api" "tx_inv api v ctx" "tx_pending_framed api v ctx"
    "descBegin ctx = descEnd ctx" "NextIndex (packetRing ctx) \<noteq> EndIndex (packetRing ctx)"
    "\<not> Ignore (pkt v (NextIndex (packetRing ctx)))"
    "tx_within_limits api v (fragmentRing ctx) (NextIndex (packetRing ctx))"
  shows "\<exists>ctx'. TxQueueAdvance api v ctx = Some (ctx', 0) \<and> descBegin ctx' \<noteq> descEnd ctx'"
proof -
  have "filter (tx_owned ctx) (tx_in_flight ctx) = []" using assms(4) by (simp add: tx_in_flight_def)
  from tx_completed_begin [OF assms(1-3) this] tx_progress_end [OF assms] show ?thesis by auto
qed

end
