(* ===== verification/RxQueue.thy ===== *)
theory RxQueue imports QueueCommon EqosRegisters EqosDescriptors NetRings begin

text \<open>
  The receive queue (src/drivers/net/dwc_eqos/rxqueue.cpp): its context and every handler that changes
  it. The packets, fragments and packet extensions the handler writes for the framework are the record
  \<open>rx_data\<close>; the fragments' logical addresses are the argument \<open>addr\<close>, and the value the device
  shows in \<open>Current_App_RxDesc\<close> is the argument \<open>current\<close>. \<open>descFragment\<close> is the debug member
  \<open>FragmentIndex\<close> of the descriptors, which the handler's assertion compares.
\<close>

section \<open>State\<close>

datatype rx_evaluation = RxNotChecked | RxValid | RxInvalid

record NET_PACKET_CHECKSUM =
  Layer2 :: rx_evaluation
  Layer3 :: rx_evaluation
  Layer4 :: rx_evaluation

record rx_data =
  rx_pkt :: "u32 \<Rightarrow> NET_PACKET"
  rx_frag_offset :: "u32 \<Rightarrow> u64"
  rx_frag_len :: "u32 \<Rightarrow> u64"
  rx_ieee8021Q :: "u32 \<Rightarrow> NET_PACKET_IEEE8021Q"
  rx_checksum :: "u32 \<Rightarrow> NET_PACKET_CHECKSUM"

record RxQueueContext =
  channelRegs :: mmio
  packetRing :: NET_RING
  fragmentRing :: NET_RING
  descVirtual :: desc_memory
  descFragment :: "u32 \<Rightarrow> u32"
  descPhysical :: u64
  descCount :: u32
  rxBufferSize :: u16
  rxPbl :: u8
  running :: bool
  descBegin :: u32
  descEnd :: u32

text \<open>\<open>DeviceConfig::RxBufferSize\<close> (device.h), in the 16-bit type of its result.\<close>

definition RxBufferSize :: "u16 \<Rightarrow> u16" where
  "RxBufferSize jumboFrame =
     (let frameSize = jumboFrame + 8 in ucast (((ucast frameSize :: u32) + 7) AND NOT 7))"

section \<open>Start\<close>

definition RxGetDescNext :: "u32 \<Rightarrow> u32" where
  "RxGetDescNext current = QueueDescriptorAddressToIndex current"

definition RxSetDescEnd :: "u32 \<Rightarrow> RxQueueContext \<Rightarrow> RxQueueContext" where
  "RxSetDescEnd index ctx =
     (let offset = index * QueueDescriptorSize
      in ctx\<lparr>channelRegs := Write32 RxDesc_Tail_Pointer (ucast (descPhysical ctx) + offset) (channelRegs ctx),
             descEnd := index\<rparr>)"

definition rx_start_control :: "u16 \<Rightarrow> u8 \<Rightarrow> u32" where
  "rx_start_control bufSize pbl =
     putf ChannelRxControl_t ''RxPbl'' (ucast pbl)
      (putf ChannelRxControl_t ''ReceiveBufferSize'' (ucast bufSize)
       (putf ChannelRxControl_t ''Start'' (flag True) 0))"

definition RxQueueStart :: "RxQueueContext \<Rightarrow> RxQueueContext" where
  "RxQueueStart ctx0 =
     (let ctx1 = ctx0\<lparr>running := True, descBegin := 0, descEnd := 0\<rparr>;
          io = Write32 RxDesc_Ring_Length (descCount ctx1 - 1)
                (Write32 RxDesc_List_Address (ucast (descPhysical ctx1))
                  (Write32 RxDesc_List_Address_Hi (ucast (drop_bit 32 (descPhysical ctx1))) (channelRegs ctx1)));
          ctx2 = RxSetDescEnd (descEnd ctx1) (ctx1\<lparr>channelRegs := io\<rparr>)
      in ctx2\<lparr>channelRegs := Write32 Ch_Rx_Control (rx_start_control (rxBufferSize ctx2) (rxPbl ctx2)) (channelRegs ctx2)\<rparr>)"

section \<open>Advance: one received descriptor\<close>

definition rx_bad :: "u128 \<Rightarrow> bool" where
  "rx_bad d \<longleftrightarrow>
     isset RxDescriptorWrite ''ErrorSummary'' d \<or> isset RxDescriptorWrite ''ContextType'' d
     \<or> \<not> isset RxDescriptorWrite ''FirstDescriptor'' d \<or> \<not> isset RxDescriptorWrite ''LastDescriptor'' d"

definition rx_vlan_update :: "net_api \<Rightarrow> u128 \<Rightarrow> u32 \<Rightarrow> rx_data \<Rightarrow> rx_data" where
  "rx_vlan_update api d pktIndex data =
     (let tag = ucast (getf RxDescriptorWrite ''OuterVlanTag'' d) :: u16
      in if isset RxDescriptorWrite ''Rdes0Valid'' d \<and> tag \<noteq> 0
         then data\<lparr>rx_ieee8021Q := (rx_ieee8021Q data)
                (pktIndex := \<lparr>PriorityCodePoint = drop_bit 13 tag, VlanIdentifier = vlan_member api tag,
                              TxPriorityRequired = False, TxVlanRequired = False\<rparr>)\<rparr>
         else data)"

definition rx_layer4 :: "u128 \<Rightarrow> layer4_type" where
  "rx_layer4 d =
     (let t = getf RxDescriptorWrite ''PayloadType'' d
      in if t = RxPayloadTypeUdp then Layer4Udp
         else if t = RxPayloadTypeTcp then Layer4Tcp
         else Layer4Unspecified)"

definition rx_evaluate :: "bool \<Rightarrow> rx_evaluation" where
  "rx_evaluate err = (if err then RxInvalid else RxValid)"

definition rx_checksum_update :: "u128 \<Rightarrow> u32 \<Rightarrow> rx_data \<Rightarrow> rx_data" where
  "rx_checksum_update d pktIndex data =
     (if isset RxDescriptorWrite ''IPv4HeaderPresent'' d \<or> isset RxDescriptorWrite ''IPv6HeaderPresent'' d
      then let p = rx_pkt data pktIndex;
               layout = (Layout p)\<lparr>Layer2Type := Layer2Ethernet,
                 Layer3Type := (if isset RxDescriptorWrite ''IPv4HeaderPresent'' d
                                then IPv4UnspecifiedOptions else IPv6UnspecifiedExtensions),
                 Layer4Type := rx_layer4 d\<rparr>
           in data\<lparr>rx_pkt := (rx_pkt data)(pktIndex := p\<lparr>Layout := layout\<rparr>),
                   rx_checksum := (rx_checksum data)(pktIndex :=
                     \<lparr>Layer2 = RxValid,
                      Layer3 = rx_evaluate (isset RxDescriptorWrite ''IPHeaderError'' d),
                      Layer4 = rx_evaluate (isset RxDescriptorWrite ''IPPayloadError'' d)\<rparr>)\<rparr>
      else data)"

text \<open>The body of the loop once the descriptor is known to be the driver's.\<close>

definition rx_indicate_one :: "net_api \<Rightarrow> u128 \<Rightarrow> u32 \<Rightarrow> u32 \<Rightarrow> rx_data \<Rightarrow> rx_data" where
  "rx_indicate_one api d pktIndex fragIndex data =
     (let p = (rx_pkt data pktIndex)\<lparr>FragmentIndex := fragIndex, FragmentCount := 1, Layout := empty_layout\<rparr>;
          data1 = data\<lparr>rx_pkt := (rx_pkt data)(pktIndex := p),
                       rx_frag_offset := (rx_frag_offset data)(fragIndex := 0)\<rparr>
      in if rx_bad d
         then data1\<lparr>rx_pkt := (rx_pkt data1)(pktIndex := p\<lparr>Ignore := True\<rparr>),
                    rx_frag_len := (rx_frag_len data1)(fragIndex := 0)\<rparr>
         else rx_checksum_update d pktIndex
               (rx_vlan_update api d pktIndex
                 (data1\<lparr>rx_frag_len := (rx_frag_len data1)
                    (fragIndex := ucast (getf RxDescriptorWrite ''PacketLength'' d) - 4)\<rparr>)))"

section \<open>Advance: the loops\<close>

text \<open>
  Indicating received packets; the result is \<open>descIndex\<close>, \<open>pktIndex\<close>, \<open>fragIndex\<close>, the data and the
  counters \<open>ownDescriptors\<close> and \<open>doneFrags\<close>.
\<close>

partial_function (option) rx_reap ::
    "net_api \<Rightarrow> RxQueueContext \<Rightarrow> u32 \<Rightarrow> u32 \<Rightarrow> u32 \<Rightarrow> u32 \<Rightarrow> rx_data \<Rightarrow> u32
      \<Rightarrow> (u32 \<times> u32 \<times> u32 \<times> rx_data \<times> u32 \<times> u32) option" where
  "rx_reap api ctx descNext descIndex pktIndex fragIndex data doneFrags =
     (if descIndex = descNext then Some (descIndex, pktIndex, fragIndex, data, 0, doneFrags)
      else if pktIndex = EndIndex (packetRing ctx) \<or> fragIndex = EndIndex (fragmentRing ctx)
      then Some (descIndex, pktIndex, fragIndex, data, 0, doneFrags)
      else if isset RxDescriptorWrite ''Own'' (descVirtual ctx descIndex)
      then Some (descIndex, pktIndex, fragIndex, data, 1, doneFrags)
      else rx_reap api ctx descNext (desc_next (descCount ctx) descIndex)
             (NetRingIncrementIndex api (packetRing ctx) pktIndex)
             (NetRingIncrementIndex api (fragmentRing ctx) fragIndex)
             (rx_indicate_one api (descVirtual ctx descIndex) pktIndex fragIndex data)
             (doneFrags + 1))"

definition rx_desc :: "u64 \<Rightarrow> u128" where
  "rx_desc fragLogicalAddress =
     putf RxDescriptorRead ''Own'' (flag True)
      (putf RxDescriptorRead ''InterruptOnCompletion'' (flag True)
       (putf RxDescriptorRead ''Buf1Valid'' (flag True)
        (putf RxDescriptorRead ''Buf1ApHigh'' (ucast (drop_bit 32 fragLogicalAddress))
         (putf RxDescriptorRead ''Buf1ApLow'' (ucast (fragLogicalAddress AND 0xFFFFFFFF)) 0))))"

text \<open>Preparing descriptors for new fragments, up to \<open>descFull\<close>.\<close>

partial_function (option) rx_fill ::
    "net_api \<Rightarrow> (u32 \<Rightarrow> u64) \<Rightarrow> u32 \<Rightarrow> u32 \<Rightarrow> u32 \<Rightarrow> RxQueueContext \<Rightarrow> (RxQueueContext \<times> u32 \<times> u32) option" where
  "rx_fill api addr descFull descIndex fragIndex ctx =
     (if descIndex = descFull then Some (ctx, descIndex, fragIndex)
      else if fragIndex = EndIndex (fragmentRing ctx) then Some (ctx, descIndex, fragIndex)
      else rx_fill api addr descFull (desc_next (descCount ctx) descIndex)
             (NetRingIncrementIndex api (fragmentRing ctx) fragIndex)
             (ctx\<lparr>descVirtual := (descVirtual ctx)(descIndex := rx_desc (addr fragIndex)),
                  descFragment := (descFragment ctx)(descIndex := fragIndex)\<rparr>))"

text \<open>After cancel: the packets left are ignored and both rings handed back.\<close>

partial_function (option) rx_drain_packets :: "net_api \<Rightarrow> NET_RING \<Rightarrow> u32 \<Rightarrow> rx_data \<Rightarrow> rx_data option" where
  "rx_drain_packets api ring pktIndex data =
     (if pktIndex = EndIndex ring then Some data
      else rx_drain_packets api ring (NetRingIncrementIndex api ring pktIndex)
             (data\<lparr>rx_pkt := (rx_pkt data)(pktIndex := (rx_pkt data pktIndex)\<lparr>Ignore := True\<rparr>)\<rparr>))"

definition rx_prepare :: "net_api \<Rightarrow> (u32 \<Rightarrow> u64) \<Rightarrow> u32 \<Rightarrow> RxQueueContext \<Rightarrow> RxQueueContext option" where
  "rx_prepare api addr descNext ctx =
     map_option (\<lambda>(ctx', descIndex, fragIndex).
         if descIndex \<noteq> descNext
         then (RxSetDescEnd descIndex ctx')\<lparr>fragmentRing := (fragmentRing ctx')\<lparr>NextIndex := fragIndex\<rparr>\<rparr>
         else ctx')
       (rx_fill api addr ((descBegin ctx - 1) AND (descCount ctx - 1)) (descEnd ctx)
         (NextIndex (fragmentRing ctx)) ctx)"

definition rx_drain :: "net_api \<Rightarrow> u32 \<Rightarrow> RxQueueContext \<Rightarrow> rx_data \<Rightarrow> (RxQueueContext \<times> rx_data) option" where
  "rx_drain api pktIndex ctx data =
     map_option (\<lambda>data'. (ctx\<lparr>packetRing := (packetRing ctx)\<lparr>BeginIndex := EndIndex (packetRing ctx)\<rparr>,
                              fragmentRing := (fragmentRing ctx)\<lparr>BeginIndex := EndIndex (fragmentRing ctx)\<rparr>\<rparr>, data'))
       (rx_drain_packets api (packetRing ctx) pktIndex data)"

text \<open>
  \<open>RxQueueAdvance\<close>; the last two components of the result are the counters passed to
  \<open>DeviceAddStatisticsRxQueue\<close>.
\<close>

definition RxQueueAdvance :: "net_api \<Rightarrow> (u32 \<Rightarrow> u64) \<Rightarrow> u32 \<Rightarrow> RxQueueContext \<Rightarrow> rx_data
    \<Rightarrow> (RxQueueContext \<times> rx_data \<times> u32 \<times> u32) option" where
  "RxQueueAdvance api addr current ctx data =
     (let descNext = RxGetDescNext current
      in Option.bind
           (rx_reap api ctx descNext (descBegin ctx) (BeginIndex (packetRing ctx)) (BeginIndex (fragmentRing ctx)) data 0)
           (\<lambda>(descIndex, pktIndex, fragIndex, data1, ownDescriptors, doneFrags).
              let ctx1 = ctx\<lparr>descBegin := descIndex,
                             packetRing := (packetRing ctx)\<lparr>BeginIndex := pktIndex\<rparr>,
                             fragmentRing := (fragmentRing ctx)\<lparr>BeginIndex := fragIndex\<rparr>\<rparr>
              in if running ctx1
                 then map_option (\<lambda>ctx2. (ctx2, data1, ownDescriptors, doneFrags)) (rx_prepare api addr descNext ctx1)
                 else if descIndex = descNext
                 then map_option (\<lambda>(ctx2, data2). (ctx2, data2, ownDescriptors, doneFrags)) (rx_drain api pktIndex ctx1 data1)
                 else Some (ctx1, data1, ownDescriptors, doneFrags)))"

section \<open>Cancel\<close>

definition RxQueueCancel :: "RxQueueContext \<Rightarrow> RxQueueContext" where
  "RxQueueCancel ctx =
     ctx\<lparr>running := False,
         channelRegs := Write32 Ch_Rx_Control
           (putf ChannelRxControl_t ''RxPacketFlush'' (flag True)
             (putf ChannelRxControl_t ''Start'' (flag False) 0)) (channelRegs ctx)\<rparr>"

end
