(* ===== verification/RxQueueProofs.thy ===== *)
theory RxQueueProofs imports RxQueue begin

text \<open>
  The loops of the receive queue against their specifications, and the invariant of the queue: the
  descriptors in flight stand, one for one and in order, for the fragments posted to the device.
\<close>

section \<open>The loop over received descriptors\<close>

text \<open>\<open>k\<close> packets indicated from descriptor \<open>d\<close>, packet \<open>p\<close> and fragment \<open>f\<close> on.\<close>

fun rx_run :: "net_api \<Rightarrow> RxQueueContext \<Rightarrow> nat \<Rightarrow> u32 \<Rightarrow> u32 \<Rightarrow> u32 \<Rightarrow> rx_data \<Rightarrow> rx_data" where
  "rx_run api ctx 0 d p f data = data"
| "rx_run api ctx (Suc k) d p f data =
     rx_run api ctx k (desc_next (descCount ctx) d) (NetRingIncrementIndex api (packetRing ctx) p)
       (NetRingIncrementIndex api (fragmentRing ctx) f) (rx_indicate_one api (descVirtual ctx d) p f data)"

abbreviation rx_owned :: "RxQueueContext \<Rightarrow> u32 \<Rightarrow> bool" where
  "rx_owned ctx d \<equiv> isset RxDescriptorWrite ''Own'' (descVirtual ctx d)"

definition rx_stops :: "RxQueueContext \<Rightarrow> u32 \<Rightarrow> u32 \<Rightarrow> u32 \<Rightarrow> u32 \<Rightarrow> u32 \<Rightarrow> bool" where
  "rx_stops ctx descNext d p f own \<longleftrightarrow>
     (if d = descNext \<or> p = EndIndex (packetRing ctx) \<or> f = EndIndex (fragmentRing ctx)
      then own = 0 else rx_owned ctx d \<and> own = 1)"

context net_rings begin

lemma rx_reap_correct:
  assumes "count_ok (descCount ctx)" "unat d < unat (descCount ctx)" "unat descNext < unat (descCount ctx)"
  shows "\<exists>k own. k \<le> rdist (unat (descCount ctx)) d descNext
     \<and> rx_reap api ctx descNext d p f data n =
        Some ((desc_next (descCount ctx) ^^ k) d, (NetRingIncrementIndex api (packetRing ctx) ^^ k) p,
              (NetRingIncrementIndex api (fragmentRing ctx) ^^ k) f, rx_run api ctx k d p f data, own, n + of_nat k)
     \<and> rx_stops ctx descNext ((desc_next (descCount ctx) ^^ k) d)
          ((NetRingIncrementIndex api (packetRing ctx) ^^ k) p) ((NetRingIncrementIndex api (fragmentRing ctx) ^^ k) f) own
     \<and> (\<forall>j<k. \<not> rx_owned ctx ((desc_next (descCount ctx) ^^ j) d)
           \<and> (NetRingIncrementIndex api (packetRing ctx) ^^ j) p \<noteq> EndIndex (packetRing ctx)
           \<and> (NetRingIncrementIndex api (fragmentRing ctx) ^^ j) f \<noteq> EndIndex (fragmentRing ctx))"
  using assms
proof (induction arbitrary: p f data n rule: desc.walk_induct [where i = d])
  case stop
  then show ?case by (intro exI [of _ 0]) (simp add: rx_reap.simps rx_stops_def)
next
  case (step d p f data n)
  let ?c = "descCount ctx" and ?pi = "NetRingIncrementIndex api (packetRing ctx)"
  let ?fi = "NetRingIncrementIndex api (fragmentRing ctx)"
  show ?case
  proof (cases "p = EndIndex (packetRing ctx) \<or> f = EndIndex (fragmentRing ctx) \<or> rx_owned ctx d")
    case True
    then show ?thesis using step.hyps
      by (intro exI [of _ 0] exI [of _ "if p = EndIndex (packetRing ctx) \<or> f = EndIndex (fragmentRing ctx) then 0 else 1"])
        (auto simp: rx_reap.simps rx_stops_def)
  next
    case False
    have run: "rx_reap api ctx descNext d p f data n =
        rx_reap api ctx descNext (desc_next ?c d) (?pi p) (?fi f) (rx_indicate_one api (descVirtual ctx d) p f data) (n + 1)"
      using False step.hyps by (subst rx_reap.simps) simp
    note dd = desc.dist_nxt [OF assms(1) step.hyps(1) assms(3) step.hyps(2)]
    obtain k own where k: "k \<le> rdist (unat ?c) (desc_next ?c d) descNext"
      and res: "rx_reap api ctx descNext (desc_next ?c d) (?pi p) (?fi f)
           (rx_indicate_one api (descVirtual ctx d) p f data) (n + 1) =
        Some ((desc_next ?c ^^ k) (desc_next ?c d), (?pi ^^ k) (?pi p), (?fi ^^ k) (?fi f),
              rx_run api ctx k (desc_next ?c d) (?pi p) (?fi f) (rx_indicate_one api (descVirtual ctx d) p f data),
              own, n + 1 + of_nat k)"
      and stops: "rx_stops ctx descNext ((desc_next ?c ^^ k) (desc_next ?c d)) ((?pi ^^ k) (?pi p)) ((?fi ^^ k) (?fi f)) own"
      and all: "\<forall>j<k. \<not> rx_owned ctx ((desc_next ?c ^^ j) (desc_next ?c d))
           \<and> (?pi ^^ j) (?pi p) \<noteq> EndIndex (packetRing ctx) \<and> (?fi ^^ j) (?fi f) \<noteq> EndIndex (fragmentRing ctx)"
      using step.IH by blast
    have all': "\<forall>j<Suc k. \<not> rx_owned ctx ((desc_next ?c ^^ j) d)
           \<and> (?pi ^^ j) p \<noteq> EndIndex (packetRing ctx) \<and> (?fi ^^ j) f \<noteq> EndIndex (fragmentRing ctx)"
      using all False by (auto simp: less_Suc_eq_0_disj funpow_swap1)
    show ?thesis
      using k res stops all' dd unfolding run
      by (intro exI [of _ "Suc k"] exI [of _ own]) (simp add: funpow_swap1 algebra_simps)
  qed
qed

section \<open>The loop over new fragments\<close>

lemma rx_fill_correct:
  assumes "count_ok (descCount ctx)" "unat d < unat (descCount ctx)" "unat full < unat (descCount ctx)"
    "sized (fragmentRing ctx)" "unat f < ring_size (fragmentRing ctx)"
    "unat (EndIndex (fragmentRing ctx)) < ring_size (fragmentRing ctx)"
    "m = min (rdist (unat (descCount ctx)) d full) (rdist (ring_size (fragmentRing ctx)) f (EndIndex (fragmentRing ctx)))"
    "fs = map (\<lambda>j. (NetRingIncrementIndex api (fragmentRing ctx) ^^ j) f) [0..<m]"
  shows "rx_fill api addr full d f ctx =
     Some (ctx\<lparr>descVirtual := fst (write_seq (descCount ctx) (descVirtual ctx, d) (map (rx_desc \<circ> addr) fs)),
               descFragment := fst (write_seq (descCount ctx) (descFragment ctx, d) fs)\<rparr>,
           (desc_next (descCount ctx) ^^ m) d, (NetRingIncrementIndex api (fragmentRing ctx) ^^ m) f)"
  using assms
proof (induction m arbitrary: ctx d f fs)
  case 0
  then have "d = full \<or> f = EndIndex (fragmentRing ctx)"
    using rdist_zero_iff [of d _ full] rdist_zero_iff [of f _ "EndIndex (fragmentRing ctx)"] by (auto simp: min_def split: if_splits)
  with 0 show ?case by (subst rx_fill.simps) auto
next
  case (Suc m)
  let ?c = "descCount ctx" and ?fi = "NetRingIncrementIndex api (fragmentRing ctx)"
  let ?ctx = "ctx\<lparr>descVirtual := (descVirtual ctx)(d := rx_desc (addr f)), descFragment := (descFragment ctx)(d := f)\<rparr>"
  have ne: "d \<noteq> full" "f \<noteq> EndIndex (fragmentRing ctx)" using Suc.prems(7) by auto
  have step: "rx_fill api addr full d f ctx = rx_fill api addr full (desc_next ?c d) (?fi f) ?ctx"
    using ne by (subst rx_fill.simps) simp
  have dd: "rdist (unat ?c) d full = Suc (rdist (unat ?c) (desc_next ?c d) full)"
    by (rule desc.dist_nxt [OF Suc.prems(1-3) ne(1)])
  have ff: "rdist (ring_size (fragmentRing ctx)) f (EndIndex (fragmentRing ctx))
      = Suc (rdist (ring_size (fragmentRing ctx)) (?fi f) (EndIndex (fragmentRing ctx)))"
    by (rule dist_nxt [OF Suc.prems(4-6) ne(2)])
  have up: "[0..<Suc m] = 0 # map Suc [0..<m]" by (simp add: upt_conv_Cons map_Suc_upt del: upt_Suc)
  define gs where "gs = map (\<lambda>j. (?fi ^^ j) (?fi f)) [0..<m]"
  have fs: "fs = f # gs" unfolding Suc.prems(8) up gs_def by (simp add: comp_def funpow_swap1)
  have "rx_fill api addr full (desc_next ?c d) (?fi f) ?ctx =
     Some (?ctx\<lparr>descVirtual := fst (write_seq ?c (descVirtual ?ctx, desc_next ?c d) (map (rx_desc \<circ> addr) gs)),
               descFragment := fst (write_seq ?c (descFragment ?ctx, desc_next ?c d) gs)\<rparr>,
           (desc_next ?c ^^ m) (desc_next ?c d), (?fi ^^ m) (?fi f))"
  proof -
    have ok: "count_ok (descCount ?ctx)" "unat (desc_next ?c d) < unat (descCount ?ctx)" "unat full < unat (descCount ?ctx)"
      "sized (fragmentRing ?ctx)" "unat (?fi f) < ring_size (fragmentRing ?ctx)"
      "unat (EndIndex (fragmentRing ?ctx)) < ring_size (fragmentRing ?ctx)"
      using Suc.prems(1-6) desc.nxt_less [OF Suc.prems(1,2)] inc_less [OF Suc.prems(4,5)] by simp_all
    have m: "m = min (rdist (unat (descCount ?ctx)) (desc_next ?c d) full)
        (rdist (ring_size (fragmentRing ?ctx)) (?fi f) (EndIndex (fragmentRing ?ctx)))"
      using Suc.prems(7) dd ff by simp
    have gs: "gs = map (\<lambda>j. (NetRingIncrementIndex api (fragmentRing ?ctx) ^^ j) (?fi f)) [0..<m]"
      by (simp add: gs_def)
    show ?thesis using Suc.IH [OF ok m gs] by (simp add: comp_def fun_upd_def)
  qed
  then show ?case unfolding step by (simp add: fs funpow_swap1 comp_def fun_upd_def)
qed

end

section \<open>The invariant\<close>

definition rx_tail_ok :: "RxQueueContext \<Rightarrow> bool" where
  "rx_tail_ok ctx \<longleftrightarrow>
     Read32 RxDesc_Tail_Pointer (channelRegs ctx) = ucast (descPhysical ctx) + descEnd ctx * QueueDescriptorSize"

definition rx_rings_ok :: "RxQueueContext \<Rightarrow> bool" where
  "rx_rings_ok ctx \<longleftrightarrow>
     unat (BeginIndex (packetRing ctx)) < ring_size (packetRing ctx)
     \<and> unat (EndIndex (packetRing ctx)) < ring_size (packetRing ctx)
     \<and> ring_ok (fragmentRing ctx) \<and> count_ok (descCount ctx)
     \<and> unat (descBegin ctx) < unat (descCount ctx) \<and> unat (descEnd ctx) < unat (descCount ctx)
     \<and> rdist (ring_size (fragmentRing ctx)) (BeginIndex (fragmentRing ctx)) (NextIndex (fragmentRing ctx))
       + rdist (ring_size (fragmentRing ctx)) (NextIndex (fragmentRing ctx)) (EndIndex (fragmentRing ctx))
       < ring_size (fragmentRing ctx)"

definition rx_in_flight :: "RxQueueContext \<Rightarrow> u32 list" where
  "rx_in_flight ctx = walk (desc_next (descCount ctx)) (unat (descCount ctx)) (descBegin ctx) (descEnd ctx)"

definition rx_posted :: "net_api \<Rightarrow> RxQueueContext \<Rightarrow> u32 list" where
  "rx_posted api ctx = walk (NetRingIncrementIndex api (fragmentRing ctx)) (ring_size (fragmentRing ctx))
     (BeginIndex (fragmentRing ctx)) (NextIndex (fragmentRing ctx))"

text \<open>The descriptors in flight hold the posted fragments, in order.\<close>

definition rx_matched :: "net_api \<Rightarrow> RxQueueContext \<Rightarrow> bool" where
  "rx_matched api ctx \<longleftrightarrow> map (descFragment ctx) (rx_in_flight ctx) = rx_posted api ctx"

definition rx_inv :: "net_api \<Rightarrow> RxQueueContext \<Rightarrow> bool" where
  "rx_inv api ctx \<longleftrightarrow> rx_rings_ok ctx \<and> rx_matched api ctx \<and> rx_tail_ok ctx"

lemma rx_inv_counts:
  "rx_matched api ctx \<Longrightarrow>
     rdist (unat (descCount ctx)) (descBegin ctx) (descEnd ctx)
     = rdist (ring_size (fragmentRing ctx)) (BeginIndex (fragmentRing ctx)) (NextIndex (fragmentRing ctx))"
  by (drule arg_cong [where f = length, OF rx_matched_def [THEN iffD1]])
     (simp add: rx_in_flight_def rx_posted_def walk_def)

text \<open>The device's current descriptor is one in flight, or the end.\<close>

definition rx_current_ok :: "RxQueueContext \<Rightarrow> u32 \<Rightarrow> bool" where
  "rx_current_ok ctx d \<longleftrightarrow> unat d < unat (descCount ctx)
     \<and> rdist (unat (descCount ctx)) (descBegin ctx) d \<le> rdist (unat (descCount ctx)) (descBegin ctx) (descEnd ctx)"

text \<open>The context after \<open>k\<close> packets have been indicated.\<close>

definition rx_returned :: "net_api \<Rightarrow> RxQueueContext \<Rightarrow> nat \<Rightarrow> RxQueueContext" where
  "rx_returned api ctx k =
     ctx\<lparr>descBegin := (desc_next (descCount ctx) ^^ k) (descBegin ctx),
         packetRing := (packetRing ctx)\<lparr>BeginIndex := (NetRingIncrementIndex api (packetRing ctx) ^^ k) (BeginIndex (packetRing ctx))\<rparr>,
         fragmentRing := (fragmentRing ctx)\<lparr>BeginIndex := (NetRingIncrementIndex api (fragmentRing ctx) ^^ k) (BeginIndex (fragmentRing ctx))\<rparr>\<rparr>"

text \<open>The fragments the handler can post: as many as there are, and as many as fit.\<close>

definition rx_new_frags :: "net_api \<Rightarrow> RxQueueContext \<Rightarrow> u32 list" where
  "rx_new_frags api ctx =
     map (\<lambda>j. (NetRingIncrementIndex api (fragmentRing ctx) ^^ j) (NextIndex (fragmentRing ctx)))
       [0..<min (unat (EMPTY_DESC_REMAINING (descCount ctx) (descBegin ctx) (descEnd ctx)))
                (rdist (ring_size (fragmentRing ctx)) (NextIndex (fragmentRing ctx)) (EndIndex (fragmentRing ctx)))]"

definition rx_filled :: "net_api \<Rightarrow> (u32 \<Rightarrow> u64) \<Rightarrow> RxQueueContext \<Rightarrow> RxQueueContext" where
  "rx_filled api addr ctx =
     (let fs = rx_new_frags api ctx
      in ctx\<lparr>descVirtual := fst (write_seq (descCount ctx) (descVirtual ctx, descEnd ctx) (map (rx_desc \<circ> addr) fs)),
             descFragment := fst (write_seq (descCount ctx) (descFragment ctx, descEnd ctx) fs)\<rparr>)"

context net_rings begin

lemma rx_returned_inv:
  assumes inv: "rx_inv api ctx" and k: "k \<le> rdist (unat (descCount ctx)) (descBegin ctx) (descEnd ctx)"
  shows "rx_inv api (rx_returned api ctx k)"
proof -
  let ?c = "descCount ctx" and ?b = "descBegin ctx" and ?e = "descEnd ctx" and ?fr = "fragmentRing ctx"
  let ?inc = "NetRingIncrementIndex api ?fr" and ?r = "rx_returned api ctx k"
  have ok: "rx_rings_ok ctx" "rx_matched api ctx" "rx_tail_ok ctx" using inv by (simp_all add: rx_inv_def)
  then have d: "count_ok ?c" "unat ?b < unat ?c" "unat ?e < unat ?c" and f: "ring_ok ?fr"
    by (simp_all add: rx_rings_ok_def)
  have fs: "sized ?fr" "unat (BeginIndex ?fr) < ring_size ?fr" "unat (NextIndex ?fr) < ring_size ?fr"
    using f by (simp_all add: ring_ok_sized ring_ok_def)
  have ps: "sized (packetRing ctx)" "unat (BeginIndex (packetRing ctx)) < ring_size (packetRing ctx)"
    using ok(1) by (auto simp: rx_rings_ok_def sized_def)
  have kf: "k \<le> rdist (ring_size ?fr) (BeginIndex ?fr) (NextIndex ?fr)" using k rx_inv_counts [OF ok(2)] by simp
  have rem: "rdist (ring_size ?fr) ((?inc ^^ k) (BeginIndex ?fr)) (NextIndex ?fr)
      = rdist (ring_size ?fr) (BeginIndex ?fr) (NextIndex ?fr) - k" by (rule dist_remaining [OF fs kf])
  have "rx_rings_ok ?r"
  proof -
    have "unat ((?inc ^^ k) (BeginIndex ?fr)) < ring_size ?fr" by (rule iterate_less [OF fs(1,2)])
    moreover have "unat ((NetRingIncrementIndex api (packetRing ctx) ^^ k) (BeginIndex (packetRing ctx))) < ring_size (packetRing ctx)"
      by (rule iterate_less [OF ps])
    moreover have "unat ((desc_next ?c ^^ k) ?b) < unat ?c" by (rule desc.iterate_less [OF d(1,2)])
    moreover have "rdist (ring_size ?fr) ((?inc ^^ k) (BeginIndex ?fr)) (NextIndex ?fr)
        + rdist (ring_size ?fr) (NextIndex ?fr) (EndIndex ?fr) < ring_size ?fr"
      unfolding rem using ok(1) unfolding rx_rings_ok_def by linarith
    ultimately show ?thesis
      using ok(1) by (simp add: rx_rings_ok_def rx_returned_def ring_ok_def ring_size_def)
  qed
  moreover have "rx_matched api ?r"
  proof -
    have "rx_in_flight ?r = drop k (rx_in_flight ctx)"
      using desc.walk_drop [OF d k] by (simp add: rx_in_flight_def rx_returned_def)
    moreover have "rx_posted api ?r = drop k (rx_posted api ctx)"
    proof -
      have "rx_posted api ?r = walk (NetRingIncrementIndex api (fragmentRing ?r)) (ring_size ?fr)
          ((?inc ^^ k) (BeginIndex ?fr)) (NextIndex ?fr)"
        by (simp add: rx_posted_def rx_returned_def ring_size_def)
      also have "\<dots> = walk ?inc (ring_size ?fr) ((?inc ^^ k) (BeginIndex ?fr)) (NextIndex ?fr)"
        by (rule walk_same [OF fs(1) _ iterate_less [OF fs(1,2)]]) (simp add: rx_returned_def)
      also have "\<dots> = drop k (rx_posted api ctx)"
        unfolding rx_posted_def by (rule walk_drop [OF fs kf])
      finally show ?thesis .
    qed
    moreover have "descFragment ?r = descFragment ctx" by (simp add: rx_returned_def)
    ultimately show ?thesis using ok(2) unfolding rx_matched_def by (simp flip: drop_map)
  qed
  moreover have "rx_tail_ok ?r" using ok(3) by (simp add: rx_tail_ok_def rx_returned_def)
  ultimately show ?thesis by (simp add: rx_inv_def)
qed

lemma rx_fill_run:
  assumes "rx_rings_ok ctx"
  shows "rx_fill api addr ((descBegin ctx - 1) AND (descCount ctx - 1)) (descEnd ctx) (NextIndex (fragmentRing ctx)) ctx =
     Some (rx_filled api addr ctx, (desc_next (descCount ctx) ^^ length (rx_new_frags api ctx)) (descEnd ctx),
       (NetRingIncrementIndex api (fragmentRing ctx) ^^ length (rx_new_frags api ctx)) (NextIndex (fragmentRing ctx)))"
proof -
  let ?c = "descCount ctx" and ?fr = "fragmentRing ctx" and ?full = "(descBegin ctx - 1) AND (descCount ctx - 1)"
  have d: "count_ok ?c" "unat (descBegin ctx) < unat ?c" "unat (descEnd ctx) < unat ?c" and f: "ring_ok ?fr"
    using assms by (simp_all add: rx_rings_ok_def)
  have fs: "sized ?fr" "unat (NextIndex ?fr) < ring_size ?fr" "unat (EndIndex ?fr) < ring_size ?fr"
    using f by (simp_all add: ring_ok_sized ring_ok_def)
  have full: "unat ?full < unat ?c" by (rule and_mask_less [OF d(1)])
  have m: "length (rx_new_frags api ctx) = min (rdist (unat ?c) (descEnd ctx) ?full) (rdist (ring_size ?fr) (NextIndex ?fr) (EndIndex ?fr))"
    by (simp add: rx_new_frags_def before_dist [OF d] remaining_eq [OF d])
  have l: "rx_new_frags api ctx = map (\<lambda>j. (NetRingIncrementIndex api ?fr ^^ j) (NextIndex ?fr)) [0..<length (rx_new_frags api ctx)]"
    by (simp add: rx_new_frags_def)
  show ?thesis
    using rx_fill_correct [OF d(1,3) full fs m l] by (simp add: rx_filled_def Let_def)
qed

lemma rx_prepare_correct:
  assumes inv: "rx_inv api ctx" and cur: "rx_current_ok ctx descNext"
  shows "\<exists>ctx'. rx_prepare api addr descNext ctx = Some ctx' \<and> rx_inv api ctx'
     \<and> map (descVirtual ctx') (rx_in_flight ctx')
         = map (descVirtual ctx) (rx_in_flight ctx) @ map (rx_desc \<circ> addr) (rx_new_frags api ctx)
     \<and> rx_posted api ctx' = rx_posted api ctx @ rx_new_frags api ctx
     \<and> descBegin ctx' = descBegin ctx \<and> packetRing ctx' = packetRing ctx
     \<and> channelRegs ctx' = (if descEnd ctx' = descNext then channelRegs ctx
         else Write32 RxDesc_Tail_Pointer (ucast (descPhysical ctx) + descEnd ctx' * QueueDescriptorSize) (channelRegs ctx))"
proof -
  let ?c = "descCount ctx" and ?b = "descBegin ctx" and ?e = "descEnd ctx" and ?fr = "fragmentRing ctx"
  let ?inc = "NetRingIncrementIndex api ?fr" and ?new = "rx_new_frags api ctx"
  let ?m = "length ?new" and ?N = "ring_size ?fr"
  have ok: "rx_rings_ok ctx" "rx_matched api ctx" "rx_tail_ok ctx" using inv by (simp_all add: rx_inv_def)
  then have d: "count_ok ?c" "unat ?b < unat ?c" "unat ?e < unat ?c" and f: "ring_ok ?fr"
    and sum: "rdist ?N (BeginIndex ?fr) (NextIndex ?fr) + rdist ?N (NextIndex ?fr) (EndIndex ?fr) < ?N"
    by (simp_all add: rx_rings_ok_def)
  have fs: "sized ?fr" "unat (BeginIndex ?fr) < ?N" "unat (NextIndex ?fr) < ?N" "unat (EndIndex ?fr) < ?N"
    using f by (simp_all add: ring_ok_sized ring_ok_def)
  have mf: "?m \<le> rdist ?N (NextIndex ?fr) (EndIndex ?fr)" and md: "?m \<le> unat ?c - 1 - rdist (unat ?c) ?b ?e"
    by (simp_all add: rx_new_frags_def remaining_eq [OF d])
  have bnd: "rdist (unat ?c) ?b ?e < unat ?c" using d by (simp add: rdist_less)
  then have room: "rdist (unat ?c) ?b ?e + length ?new < unat ?c" using md by linarith
  let ?d = "(desc_next ?c ^^ ?m) ?e" and ?q = "(?inc ^^ ?m) (NextIndex ?fr)"
  let ?f = "rx_filled api addr ctx"
  let ?ctx' = "if ?d \<noteq> descNext then (RxSetDescEnd ?d ?f)\<lparr>fragmentRing := ?fr\<lparr>NextIndex := ?q\<rparr>\<rparr> else ?f"
  have run: "rx_prepare api addr descNext ctx = Some ?ctx'"
    by (simp add: rx_prepare_def rx_fill_run [OF ok(1)]) (simp add: rx_filled_def Let_def)
  show ?thesis
  proof (cases "?d = descNext")
    case True
    have "rdist (unat ?c) ?b ?d = rdist (unat ?c) ?b ?e + ?m" using room by (intro desc.dist_iterate [OF d(1,3,2)])
    then have "?m = 0" using cur True by (simp add: rx_current_ok_def)
    then have e: "?f = ctx" "?new = []" by (simp_all add: rx_filled_def Let_def)
    then have "?e = descNext" using True by simp
    then show ?thesis using run inv True e by simp
  next
    case False
    let ?r = "(RxSetDescEnd ?d ?f)\<lparr>fragmentRing := ?fr\<lparr>NextIndex := ?q\<rparr>\<rparr>"
    have r: "descVirtual ?r = fst (write_seq ?c (descVirtual ctx, ?e) (map (rx_desc \<circ> addr) ?new))"
      "descFragment ?r = fst (write_seq ?c (descFragment ctx, ?e) ?new)" "descCount ?r = ?c" "descBegin ?r = ?b"
      "descEnd ?r = ?d" "packetRing ?r = packetRing ctx" "fragmentRing ?r = ?fr\<lparr>NextIndex := ?q\<rparr>"
      "descPhysical ?r = descPhysical ctx"
      "channelRegs ?r = Write32 RxDesc_Tail_Pointer (ucast (descPhysical ctx) + ?d * QueueDescriptorSize) (channelRegs ctx)"
      by (simp_all add: rx_filled_def RxSetDescEnd_def Let_def)
    have i: "?d = snd (write_seq ?c (m, ?e) ?new)" for m :: "u32 \<Rightarrow> u32" by (simp add: write_seq_index)
    have i': "?d = snd (write_seq ?c (descVirtual ctx, ?e) (map (rx_desc \<circ> addr) ?new))" by (simp add: write_seq_index)
    have mem: "map (descVirtual ?r) (rx_in_flight ?r) = map (descVirtual ctx) (rx_in_flight ctx) @ map (rx_desc \<circ> addr) ?new"
      unfolding rx_in_flight_def r unfolding i' by (rule write_seq_walk [OF d]) (use room in simp)
    have frags: "map (descFragment ?r) (rx_in_flight ?r) = map (descFragment ctx) (rx_in_flight ctx) @ ?new"
      unfolding rx_in_flight_def r unfolding i [of "descFragment ctx"] by (rule write_seq_walk [OF d room])
    have posted: "rx_posted api ?r = rx_posted api ctx @ ?new"
    proof -
      have "rx_posted api ?r = walk (NetRingIncrementIndex api (fragmentRing ?r)) ?N (BeginIndex ?fr) ?q"
        by (simp add: rx_posted_def r ring_size_def)
      also have "\<dots> = walk ?inc ?N (BeginIndex ?fr) ?q" by (rule walk_same [OF fs(1) _ fs(2)]) (simp add: r)
      also have "\<dots> = rx_posted api ctx @ map (\<lambda>j. (?inc ^^ j) (NextIndex ?fr)) [0..<?m]"
        unfolding rx_posted_def by (rule walk_extend [OF fs(1-3)]) (use sum mf in linarith)
      finally show ?thesis by (simp add: rx_new_frags_def)
    qed
    have "unat ?d < unat ?c" by (rule desc.iterate_less [OF d(1,3)])
    moreover have "unat ?q < ?N" by (rule iterate_less [OF fs(1,3)])
    moreover have "rdist ?N (BeginIndex ?fr) ?q + rdist ?N ?q (EndIndex ?fr) < ?N"
      using dist_iterate [OF fs(1,3,2), of ?m] dist_remaining [OF fs(1,3,4) mf] sum mf by linarith
    ultimately have "rx_rings_ok ?r"
      using ok(1) unfolding rx_rings_ok_def r by (simp add: ring_ok_def ring_size_def)
    moreover have "rx_matched api ?r" using ok(2) frags posted by (simp add: rx_matched_def)
    moreover have "rx_tail_ok ?r" by (simp add: rx_tail_ok_def RxSetDescEnd_def Let_def)
    ultimately show ?thesis using run False mem posted r by (simp add: rx_inv_def)
  qed
qed

end

end
