(* ===== verification/RxProperties.thy ===== *)
theory RxProperties imports RxQueueProofs begin

text \<open>
  The properties of the receive queue: the advance handler against its specification, every state the
  queue reaches with the framework and the device, what a received packet is reported as, and the drain
  after cancel.
\<close>

section \<open>The advance handler\<close>

context net_rings begin

lemma current_after:
  assumes "rx_inv api ctx" "rx_current_ok ctx d" "k \<le> rdist (unat (descCount ctx)) (descBegin ctx) d"
  shows "rx_current_ok (rx_returned api ctx k) d"
proof -
  let ?c = "descCount ctx" and ?b = "descBegin ctx" and ?e = "descEnd ctx"
  have ok: "count_ok ?c" "unat ?b < unat ?c" "unat ?e < unat ?c" "unat d < unat ?c"
    "rdist (unat ?c) ?b d \<le> rdist (unat ?c) ?b ?e"
    using assms(1,2) by (simp_all add: rx_inv_def rx_rings_ok_def rx_current_ok_def)
  have "rdist (unat ?c) ((desc_next ?c ^^ k) ?b) d = rdist (unat ?c) ?b d - k"
    by (rule desc.dist_remaining [OF ok(1,2,4) assms(3)])
  moreover have "rdist (unat ?c) ((desc_next ?c ^^ k) ?b) ?e = rdist (unat ?c) ?b ?e - k"
    by (rule desc.dist_remaining [OF ok(1-3)]) (use assms(3) ok(5) in linarith)
  ultimately show ?thesis using ok(4,5) by (simp add: rx_current_ok_def rx_returned_def)
qed

text \<open>The first half of the handler, in terms of the context after \<open>k\<close> packets.\<close>

lemma rx_reap_run:
  assumes inv: "rx_inv api ctx" and cur: "rx_current_ok ctx d"
  shows "\<exists>k own. k \<le> rdist (unat (descCount ctx)) (descBegin ctx) d
     \<and> rx_reap api ctx d (descBegin ctx) (BeginIndex (packetRing ctx)) (BeginIndex (fragmentRing ctx)) data 0 =
        Some (descBegin (rx_returned api ctx k), BeginIndex (packetRing (rx_returned api ctx k)),
              BeginIndex (fragmentRing (rx_returned api ctx k)),
              rx_run api ctx k (descBegin ctx) (BeginIndex (packetRing ctx)) (BeginIndex (fragmentRing ctx)) data,
              own, of_nat k)
     \<and> rx_stops ctx d (descBegin (rx_returned api ctx k)) (BeginIndex (packetRing (rx_returned api ctx k)))
          (BeginIndex (fragmentRing (rx_returned api ctx k))) own
     \<and> list_all (\<lambda>j. \<not> rx_owned ctx j) (take k (rx_in_flight ctx))
     \<and> rx_inv api (rx_returned api ctx k) \<and> rx_current_ok (rx_returned api ctx k) d"
proof -
  let ?c = "descCount ctx" and ?b = "descBegin ctx"
  have ok: "count_ok ?c" "unat ?b < unat ?c" "unat d < unat ?c" "rdist (unat ?c) ?b d \<le> rdist (unat ?c) ?b (descEnd ctx)"
    using inv cur by (simp_all add: rx_inv_def rx_rings_ok_def rx_current_ok_def)
  obtain k own where k: "k \<le> rdist (unat ?c) ?b d"
    and run: "rx_reap api ctx d ?b (BeginIndex (packetRing ctx)) (BeginIndex (fragmentRing ctx)) data 0 =
        Some ((desc_next ?c ^^ k) ?b, (NetRingIncrementIndex api (packetRing ctx) ^^ k) (BeginIndex (packetRing ctx)),
              (NetRingIncrementIndex api (fragmentRing ctx) ^^ k) (BeginIndex (fragmentRing ctx)),
              rx_run api ctx k ?b (BeginIndex (packetRing ctx)) (BeginIndex (fragmentRing ctx)) data, own, 0 + of_nat k)"
    and stops: "rx_stops ctx d ((desc_next ?c ^^ k) ?b)
          ((NetRingIncrementIndex api (packetRing ctx) ^^ k) (BeginIndex (packetRing ctx)))
          ((NetRingIncrementIndex api (fragmentRing ctx) ^^ k) (BeginIndex (fragmentRing ctx))) own"
    and free: "\<forall>j<k. \<not> rx_owned ctx ((desc_next ?c ^^ j) ?b)"
    using rx_reap_correct [OF ok(1-3), of "BeginIndex (packetRing ctx)" "BeginIndex (fragmentRing ctx)" data 0] by blast
  have ke: "k \<le> rdist (unat ?c) ?b (descEnd ctx)" using k ok(4) by linarith
  have "take k (rx_in_flight ctx) = map (\<lambda>j. (desc_next ?c ^^ j) ?b) [0..<k]"
    using ke by (simp add: rx_in_flight_def walk_def take_map)
  then have "list_all (\<lambda>j. \<not> rx_owned ctx j) (take k (rx_in_flight ctx))"
    using free by (simp add: list_all_iff)
  moreover have "rx_inv api (rx_returned api ctx k)" by (rule rx_returned_inv [OF inv ke])
  moreover have "rx_current_ok (rx_returned api ctx k) d" by (rule current_after [OF inv cur k])
  ultimately show ?thesis using k run stops by (auto simp: rx_returned_def)
qed

lemma rx_advance_running:
  assumes inv: "rx_inv api ctx" and cur: "rx_current_ok ctx (RxGetDescNext current)" and run: "running ctx"
  shows "\<exists>k own ctx'. RxQueueAdvance api addr current ctx data =
        Some (ctx', rx_run api ctx k (descBegin ctx) (BeginIndex (packetRing ctx)) (BeginIndex (fragmentRing ctx)) data,
              own, of_nat k)
     \<and> k \<le> rdist (unat (descCount ctx)) (descBegin ctx) (RxGetDescNext current)
     \<and> rx_stops ctx (RxGetDescNext current) (descBegin ctx') (BeginIndex (packetRing ctx'))
          (BeginIndex (fragmentRing (rx_returned api ctx k))) own
     \<and> list_all (\<lambda>j. \<not> rx_owned ctx j) (take k (rx_in_flight ctx))
     \<and> rx_inv api ctx'
     \<and> rx_posted api ctx' = drop k (rx_posted api ctx) @ rx_new_frags api (rx_returned api ctx k)
     \<and> map (descVirtual ctx') (rx_in_flight ctx')
         = drop k (map (descVirtual ctx) (rx_in_flight ctx)) @ map (rx_desc \<circ> addr) (rx_new_frags api (rx_returned api ctx k))
     \<and> channelRegs ctx' = (if descEnd ctx' = RxGetDescNext current then channelRegs ctx
         else Write32 RxDesc_Tail_Pointer (ucast (descPhysical ctx) + descEnd ctx' * QueueDescriptorSize) (channelRegs ctx))"
proof -
  let ?d = "RxGetDescNext current"
  obtain k own where k: "k \<le> rdist (unat (descCount ctx)) (descBegin ctx) ?d"
    and reap: "rx_reap api ctx ?d (descBegin ctx) (BeginIndex (packetRing ctx)) (BeginIndex (fragmentRing ctx)) data 0 =
        Some (descBegin (rx_returned api ctx k), BeginIndex (packetRing (rx_returned api ctx k)),
              BeginIndex (fragmentRing (rx_returned api ctx k)),
              rx_run api ctx k (descBegin ctx) (BeginIndex (packetRing ctx)) (BeginIndex (fragmentRing ctx)) data,
              own, of_nat k)"
    and stops: "rx_stops ctx ?d (descBegin (rx_returned api ctx k)) (BeginIndex (packetRing (rx_returned api ctx k)))
          (BeginIndex (fragmentRing (rx_returned api ctx k))) own"
    and free: "list_all (\<lambda>j. \<not> rx_owned ctx j) (take k (rx_in_flight ctx))"
    and inv1: "rx_inv api (rx_returned api ctx k)" "rx_current_ok (rx_returned api ctx k) ?d"
    using rx_reap_run [OF inv cur] by blast
  let ?r = "rx_returned api ctx k"
  obtain ctx' where prep: "rx_prepare api addr ?d ?r = Some ctx'" and inv': "rx_inv api ctx'"
    and mem: "map (descVirtual ctx') (rx_in_flight ctx') = map (descVirtual ?r) (rx_in_flight ?r) @ map (rx_desc \<circ> addr) (rx_new_frags api ?r)"
    and posted: "rx_posted api ctx' = rx_posted api ?r @ rx_new_frags api ?r"
    and same: "descBegin ctx' = descBegin ?r" "packetRing ctx' = packetRing ?r"
    and io: "channelRegs ctx' = (if descEnd ctx' = ?d then channelRegs ?r
         else Write32 RxDesc_Tail_Pointer (ucast (descPhysical ?r) + descEnd ctx' * QueueDescriptorSize) (channelRegs ?r))"
    using rx_prepare_correct [OF inv1] by blast
  have ok: "count_ok (descCount ctx)" "unat (descBegin ctx) < unat (descCount ctx)" "unat (descEnd ctx) < unat (descCount ctx)"
    using inv by (simp_all add: rx_inv_def rx_rings_ok_def)
  have ke: "k \<le> rdist (unat (descCount ctx)) (descBegin ctx) (descEnd ctx)"
    using k cur unfolding rx_current_ok_def by linarith
  have flight: "rx_in_flight ?r = drop k (rx_in_flight ctx)"
    using desc.walk_drop [OF ok ke] by (simp add: rx_in_flight_def rx_returned_def)
  have "rx_posted api ?r = map (descFragment ?r) (rx_in_flight ?r)" "rx_posted api ctx = map (descFragment ctx) (rx_in_flight ctx)"
    using inv inv1(1) by (simp_all add: rx_inv_def rx_matched_def)
  then have p: "rx_posted api ?r = drop k (rx_posted api ctx)" by (simp add: flight drop_map) (simp add: rx_returned_def)
  have v: "map (descVirtual ?r) (rx_in_flight ?r) = drop k (map (descVirtual ctx) (rx_in_flight ctx))"
    by (simp add: flight drop_map) (simp add: rx_returned_def)
  have ctx1: "ctx\<lparr>descBegin := descBegin ?r, packetRing := (packetRing ctx)\<lparr>BeginIndex := BeginIndex (packetRing ?r)\<rparr>,
      fragmentRing := (fragmentRing ctx)\<lparr>BeginIndex := BeginIndex (fragmentRing ?r)\<rparr>\<rparr> = ?r"
    by (simp add: rx_returned_def)
  have "RxQueueAdvance api addr current ctx data =
      Some (ctx', rx_run api ctx k (descBegin ctx) (BeginIndex (packetRing ctx)) (BeginIndex (fragmentRing ctx)) data, own, of_nat k)"
    unfolding RxQueueAdvance_def Let_def reap using run by (simp add: ctx1 prep)
  moreover have "channelRegs ?r = channelRegs ctx" "descPhysical ?r = descPhysical ctx" by (simp_all add: rx_returned_def)
  ultimately show ?thesis using k stops free inv' posted mem same p v io
    by (intro exI [of _ k] exI [of _ own] exI [of _ ctx']) simp
qed

lemma rx_assertions:
  assumes inv: "rx_inv api ctx" and cur: "rx_current_ok ctx d" and k: "k < rdist (unat (descCount ctx)) (descBegin ctx) d"
  shows "descFragment ctx ((desc_next (descCount ctx) ^^ k) (descBegin ctx))
       = (NetRingIncrementIndex api (fragmentRing ctx) ^^ k) (BeginIndex (fragmentRing ctx))
     \<and> (NetRingIncrementIndex api (fragmentRing ctx) ^^ k) (BeginIndex (fragmentRing ctx)) \<noteq> EndIndex (fragmentRing ctx)"
proof -
  let ?c = "descCount ctx" and ?b = "descBegin ctx" and ?fr = "fragmentRing ctx" and ?e = "descEnd ctx"
  let ?inc = "NetRingIncrementIndex api ?fr" and ?N = "ring_size (fragmentRing ctx)"
  have ke: "k < rdist (unat ?c) ?b ?e" using k cur unfolding rx_current_ok_def by linarith
  have m: "rx_matched api ctx" and f: "ring_ok ?fr"
    and sum: "rdist ?N (BeginIndex ?fr) (NextIndex ?fr) + rdist ?N (NextIndex ?fr) (EndIndex ?fr) < ?N"
    using inv by (simp_all add: rx_inv_def rx_rings_ok_def)
  have kf: "k < rdist ?N (BeginIndex ?fr) (NextIndex ?fr)" using ke rx_inv_counts [OF m] by simp
  have "map (descFragment ctx) (rx_in_flight ctx) ! k = rx_posted api ctx ! k"
    using m by (simp add: rx_matched_def)
  then have eq: "descFragment ctx ((desc_next ?c ^^ k) ?b) = (?inc ^^ k) (BeginIndex ?fr)"
    using ke kf by (simp add: rx_in_flight_def rx_posted_def walk_def)
  have fs: "sized ?fr" "unat (BeginIndex ?fr) < ?N" "unat (NextIndex ?fr) < ?N" "unat (EndIndex ?fr) < ?N"
    using f by (simp_all add: ring_ok_sized ring_ok_def)
  have whole: "rdist ?N (BeginIndex ?fr) (EndIndex ?fr)
      = rdist ?N (BeginIndex ?fr) (NextIndex ?fr) + rdist ?N (NextIndex ?fr) (EndIndex ?fr)"
    using sum fs by (auto simp: rdist_cases split: if_splits)
  have "rdist ?N ((?inc ^^ k) (BeginIndex ?fr)) (EndIndex ?fr) = rdist ?N (BeginIndex ?fr) (EndIndex ?fr) - k"
    by (rule dist_remaining [OF fs(1,2,4)]) (use kf whole in linarith)
  then have "rdist ?N ((?inc ^^ k) (BeginIndex ?fr)) (EndIndex ?fr) \<noteq> 0" using kf whole by simp
  then have "(?inc ^^ k) (BeginIndex ?fr) \<noteq> EndIndex ?fr" by auto
  with eq show ?thesis by blast
qed

end

section \<open>The queue, the framework and the device\<close>

inductive rx_step :: "net_api \<Rightarrow> RxQueueContext \<times> rx_data \<Rightarrow> RxQueueContext \<times> rx_data \<Rightarrow> bool" for api where
  advance: "rx_current_ok ctx (RxGetDescNext current) \<Longrightarrow>
    RxQueueAdvance api addr current ctx data = Some (ctx', data', own, done_frags) \<Longrightarrow>
    rx_step api (ctx, data) (ctx', data')"
| receive: "i \<in> set (rx_in_flight ctx) \<Longrightarrow>
    rx_step api (ctx, data) (ctx\<lparr>descVirtual := (descVirtual ctx)(i := d)\<rparr>, data)"
| post: "unat e < ring_size (packetRing ctx) \<Longrightarrow> unat f < ring_size (fragmentRing ctx) \<Longrightarrow>
    rdist (ring_size (fragmentRing ctx)) (BeginIndex (fragmentRing ctx)) (NextIndex (fragmentRing ctx))
      + rdist (ring_size (fragmentRing ctx)) (NextIndex (fragmentRing ctx)) f < ring_size (fragmentRing ctx) \<Longrightarrow>
    rx_step api (ctx, data) (ctx\<lparr>packetRing := (packetRing ctx)\<lparr>EndIndex := e\<rparr>,
      fragmentRing := (fragmentRing ctx)\<lparr>EndIndex := f\<rparr>\<rparr>, data')"
| cancel: "rx_step api (ctx, data) (RxQueueCancel ctx, data)"

definition rx_initial :: "RxQueueContext \<Rightarrow> bool" where
  "rx_initial ctx \<longleftrightarrow> (\<exists>ctx0. ctx = RxQueueStart ctx0 \<and> count_ok (descCount ctx0)
     \<and> unat (BeginIndex (packetRing ctx0)) < ring_size (packetRing ctx0)
     \<and> unat (EndIndex (packetRing ctx0)) < ring_size (packetRing ctx0)
     \<and> ring_ok (fragmentRing ctx0) \<and> BeginIndex (fragmentRing ctx0) = NextIndex (fragmentRing ctx0))"

lemma RxQueueStart_fields [simp]:
  "packetRing (RxQueueStart ctx) = packetRing ctx" "fragmentRing (RxQueueStart ctx) = fragmentRing ctx"
  "descVirtual (RxQueueStart ctx) = descVirtual ctx" "descPhysical (RxQueueStart ctx) = descPhysical ctx"
  "descFragment (RxQueueStart ctx) = descFragment ctx" "running (RxQueueStart ctx)"
  "descCount (RxQueueStart ctx) = descCount ctx" "descBegin (RxQueueStart ctx) = 0" "descEnd (RxQueueStart ctx) = 0"
  by (simp_all add: RxQueueStart_def RxSetDescEnd_def Let_def)

lemma RxQueueStart_tail: "rx_tail_ok (RxQueueStart ctx)"
  by (simp add: rx_tail_ok_def) (simp add: RxQueueStart_def RxSetDescEnd_def Let_def)

lemma rx_initial_inv:
  assumes "rx_initial ctx"
  shows "rx_inv api ctx"
proof -
  obtain ctx0 where c: "ctx = RxQueueStart ctx0" and ok: "count_ok (descCount ctx0)"
    "unat (BeginIndex (packetRing ctx0)) < ring_size (packetRing ctx0)"
    "unat (EndIndex (packetRing ctx0)) < ring_size (packetRing ctx0)"
    "ring_ok (fragmentRing ctx0)" "BeginIndex (fragmentRing ctx0) = NextIndex (fragmentRing ctx0)"
    using assms by (auto simp: rx_initial_def)
  have "0 < ring_size (fragmentRing ctx0)" using ok(4) by (auto simp: ring_ok_def)
  then show ?thesis
    using ok RxQueueStart_tail by (simp add: c rx_inv_def rx_rings_ok_def rx_matched_def rx_in_flight_def rx_posted_def rdist_less)
qed

context net_rings begin

lemma rx_post_inv:
  assumes "rx_inv api ctx" "unat e < ring_size (packetRing ctx)" "unat f < ring_size (fragmentRing ctx)"
    "rdist (ring_size (fragmentRing ctx)) (BeginIndex (fragmentRing ctx)) (NextIndex (fragmentRing ctx))
      + rdist (ring_size (fragmentRing ctx)) (NextIndex (fragmentRing ctx)) f < ring_size (fragmentRing ctx)"
  shows "rx_inv api (ctx\<lparr>packetRing := (packetRing ctx)\<lparr>EndIndex := e\<rparr>,
      fragmentRing := (fragmentRing ctx)\<lparr>EndIndex := f\<rparr>\<rparr>)"
proof -
  let ?fr = "fragmentRing ctx"
  have "ring_ok ?fr" using assms(1) by (simp add: rx_inv_def rx_rings_ok_def)
  then have fs: "sized ?fr" "unat (BeginIndex ?fr) < ring_size ?fr" by (simp_all add: ring_ok_sized ring_ok_def)
  have "walk (NetRingIncrementIndex api (?fr\<lparr>EndIndex := f\<rparr>)) n (BeginIndex ?fr) x
      = walk (NetRingIncrementIndex api ?fr) n (BeginIndex ?fr) x" for n x
    using fs by (intro walk_same) simp_all
  then have "rx_posted api (ctx\<lparr>packetRing := (packetRing ctx)\<lparr>EndIndex := e\<rparr>, fragmentRing := ?fr\<lparr>EndIndex := f\<rparr>\<rparr>)
      = rx_posted api ctx"
    by (simp add: rx_posted_def ring_size_def)
  then show ?thesis
    using assms by (simp add: rx_inv_def rx_rings_ok_def rx_matched_def rx_in_flight_def rx_tail_ok_def ring_ok_def ring_size_def)
qed

lemma rx_advance_stopped:
  assumes "RxQueueAdvance api addr current ctx data = Some (ctx', data', own, n)" "\<not> running ctx"
  shows "\<not> running ctx'"
  using assms by (auto simp: RxQueueAdvance_def Let_def rx_drain_def bind_eq_Some_conv split: if_splits)

lemma rx_step_inv:
  assumes "rx_step api (ctx, data) (ctx', data')" "running ctx \<Longrightarrow> rx_inv api ctx" "running ctx'"
  shows "rx_inv api ctx'"
  using assms(1)
proof (cases rule: rx_step.cases)
  case (advance current addr own n)
  then have "running ctx" using rx_advance_stopped assms(3) by blast
  then show ?thesis
    using rx_advance_running [OF assms(2) advance(1), of addr data] advance(2) by auto
next
  case (receive i d)
  then show ?thesis
    using assms(2,3) by (simp add: rx_inv_def rx_rings_ok_def rx_matched_def rx_in_flight_def rx_posted_def rx_tail_ok_def)
next
  case (post e f)
  then show ?thesis using assms(2,3) rx_post_inv by simp
next
  case cancel
  then show ?thesis using assms(3) by (simp add: RxQueueCancel_def)
qed

lemma rx_reachable_inv:
  assumes "(rx_step api)\<^sup>*\<^sup>* s0 s" "rx_initial (fst s0)"
  shows "running (fst s) \<Longrightarrow> rx_inv api (fst s)"
  using assms
proof (induction rule: rtranclp_induct)
  case base
  then show ?case using rx_initial_inv by simp
next
  case (step s s')
  then show ?case using rx_step_inv [of "fst s" "snd s" "fst s'" "snd s'"] by simp
qed

section \<open>The drain after cancel\<close>

lemma rx_drain_packets_correct:
  assumes "sized ring" "unat p < ring_size ring" "unat (EndIndex ring) < ring_size ring"
  shows "\<exists>data'. rx_drain_packets api ring p data = Some data'
     \<and> (\<forall>q. rx_pkt data' q = (if q \<in> set (walk (NetRingIncrementIndex api ring) (ring_size ring) p (EndIndex ring))
                             then (rx_pkt data q)\<lparr>Ignore := True\<rparr> else rx_pkt data q))"
  using assms
proof (induction arbitrary: data rule: walk_induct [where i = p])
  case stop
  then show ?case by (simp add: rx_drain_packets.simps)
next
  case (step i data)
  let ?data = "data\<lparr>rx_pkt := (rx_pkt data)(i := (rx_pkt data i)\<lparr>Ignore := True\<rparr>)\<rparr>"
  obtain data' where run: "rx_drain_packets api ring (NetRingIncrementIndex api ring i) ?data = Some data'"
    and res: "\<forall>q. rx_pkt data' q = (if q \<in> set (walk (NetRingIncrementIndex api ring) (ring_size ring)
        (NetRingIncrementIndex api ring i) (EndIndex ring)) then (rx_pkt ?data q)\<lparr>Ignore := True\<rparr> else rx_pkt ?data q)"
    using step.IH by blast
  have "rx_drain_packets api ring i data = Some data'"
    using step.hyps run by (subst rx_drain_packets.simps) simp
  then show ?case
    using res walk_step [OF assms(1) step.hyps(1) assms(3) step.hyps(2)] by auto
qed

lemma rx_drained:
  assumes inv: "rx_inv api ctx" and cur: "rx_current_ok ctx (RxGetDescNext current)" and stop: "\<not> running ctx"
    and free: "list_all (\<lambda>j. \<not> rx_owned ctx j) (take (rdist (unat (descCount ctx)) (descBegin ctx) (RxGetDescNext current)) (rx_in_flight ctx))"
    and pkts: "rdist (unat (descCount ctx)) (descBegin ctx) (RxGetDescNext current)
       \<le> rdist (ring_size (packetRing ctx)) (BeginIndex (packetRing ctx)) (EndIndex (packetRing ctx))"
  shows "\<exists>ctx' data'. RxQueueAdvance api addr current ctx data =
       Some (ctx', data', 0, of_nat (rdist (unat (descCount ctx)) (descBegin ctx) (RxGetDescNext current)))
     \<and> BeginIndex (packetRing ctx') = EndIndex (packetRing ctx) \<and> BeginIndex (fragmentRing ctx') = EndIndex (fragmentRing ctx)
     \<and> list_all (\<lambda>p. Ignore (rx_pkt data' p))
         (drop (rdist (unat (descCount ctx)) (descBegin ctx) (RxGetDescNext current))
           (walk (NetRingIncrementIndex api (packetRing ctx)) (ring_size (packetRing ctx)) (BeginIndex (packetRing ctx)) (EndIndex (packetRing ctx))))"
proof -
  let ?d = "RxGetDescNext current" and ?c = "descCount ctx" and ?b = "descBegin ctx" and ?pr = "packetRing ctx"
  let ?n = "rdist (unat ?c) ?b ?d" and ?inc = "NetRingIncrementIndex api (packetRing ctx)"
  obtain k own where k: "k \<le> ?n"
    and reap: "rx_reap api ctx ?d ?b (BeginIndex ?pr) (BeginIndex (fragmentRing ctx)) data 0 =
        Some (descBegin (rx_returned api ctx k), BeginIndex (packetRing (rx_returned api ctx k)),
              BeginIndex (fragmentRing (rx_returned api ctx k)),
              rx_run api ctx k ?b (BeginIndex ?pr) (BeginIndex (fragmentRing ctx)) data, own, of_nat k)"
    and stops: "rx_stops ctx ?d (descBegin (rx_returned api ctx k)) (BeginIndex (packetRing (rx_returned api ctx k)))
          (BeginIndex (fragmentRing (rx_returned api ctx k))) own"
    using rx_reap_run [OF inv cur] by blast
  let ?r = "rx_returned api ctx k"
  have ok: "count_ok ?c" "unat ?b < unat ?c" "unat ?d < unat ?c" and nb: "?n \<le> rdist (unat ?c) ?b (descEnd ctx)"
    and ps: "unat (BeginIndex ?pr) < ring_size ?pr" "unat (EndIndex ?pr) < ring_size ?pr" "sized ?pr"
    using inv cur by (auto simp: rx_inv_def rx_rings_ok_def rx_current_ok_def sized_def)
  have kn: "k = ?n"
  proof (rule ccontr)
    assume "k \<noteq> ?n"
    then have lt: "k < ?n" using k by simp
    have "rdist (unat ?c) ((desc_next ?c ^^ k) ?b) ?d = ?n - k" by (rule desc.dist_remaining [OF ok k])
    then have "descBegin ?r \<noteq> ?d" using lt by (auto simp: rx_returned_def)
    moreover have "rdist (ring_size ?pr) ((?inc ^^ k) (BeginIndex ?pr)) (EndIndex ?pr)
        = rdist (ring_size ?pr) (BeginIndex ?pr) (EndIndex ?pr) - k"
      by (rule dist_remaining [OF ps(3,1,2)]) (use lt pkts in linarith)
    then have "BeginIndex (packetRing ?r) \<noteq> EndIndex ?pr" using lt pkts by (auto simp: rx_returned_def)
    moreover have "BeginIndex (fragmentRing ?r) \<noteq> EndIndex (fragmentRing ctx)"
      using rx_assertions [OF inv cur lt] by (simp add: rx_returned_def)
    ultimately have "rx_owned ctx ((desc_next ?c ^^ k) ?b)" using stops by (simp add: rx_stops_def rx_returned_def)
    moreover have "(desc_next ?c ^^ k) ?b = take ?n (rx_in_flight ctx) ! k"
      using lt nb by (simp add: rx_in_flight_def walk_def)
    moreover have "k < length (take ?n (rx_in_flight ctx))" using lt nb by (simp add: rx_in_flight_def walk_def)
    ultimately show False using free by (auto simp: list_all_length)
  qed
  have d: "descBegin ?r = ?d"
  proof -
    have "rdist (unat ?c) ((desc_next ?c ^^ k) ?b) ?d = 0" using desc.dist_remaining [OF ok k] kn by simp
    then show ?thesis using rdist_zero_iff desc.iterate_less [OF ok(1,2)] ok(3) by (simp add: rx_returned_def)
  qed
  then have own: "own = 0" using stops by (simp add: rx_stops_def)
  have kp: "k \<le> rdist (ring_size ?pr) (BeginIndex ?pr) (EndIndex ?pr)" using pkts kn by simp
  let ?data1 = "rx_run api ctx k ?b (BeginIndex ?pr) (BeginIndex (fragmentRing ctx)) data"
  have rp: "sized (packetRing ?r)" "unat (BeginIndex (packetRing ?r)) < ring_size (packetRing ?r)"
    "unat (EndIndex (packetRing ?r)) < ring_size (packetRing ?r)"
    using ps iterate_less [OF ps(3,1)] by (simp_all add: rx_returned_def sized_def ring_size_def)
  obtain data' where run: "rx_drain_packets api (packetRing ?r) (BeginIndex (packetRing ?r)) ?data1 = Some data'"
    and res: "\<forall>q. rx_pkt data' q = (if q \<in> set (walk (NetRingIncrementIndex api (packetRing ?r)) (ring_size (packetRing ?r))
         (BeginIndex (packetRing ?r)) (EndIndex (packetRing ?r))) then (rx_pkt ?data1 q)\<lparr>Ignore := True\<rparr> else rx_pkt ?data1 q)"
    using rx_drain_packets_correct [OF rp] by blast
  have w: "walk (NetRingIncrementIndex api (packetRing ?r)) (ring_size (packetRing ?r)) (BeginIndex (packetRing ?r)) (EndIndex (packetRing ?r))
      = drop ?n (walk ?inc (ring_size ?pr) (BeginIndex ?pr) (EndIndex ?pr))"
  proof -
    have "walk (NetRingIncrementIndex api (packetRing ?r)) (ring_size ?pr) ((?inc ^^ k) (BeginIndex ?pr)) (EndIndex ?pr)
        = walk ?inc (ring_size ?pr) ((?inc ^^ k) (BeginIndex ?pr)) (EndIndex ?pr)"
      by (rule walk_same [OF ps(3) _ iterate_less [OF ps(3,1)]]) (simp add: rx_returned_def)
    also have "\<dots> = drop k (walk ?inc (ring_size ?pr) (BeginIndex ?pr) (EndIndex ?pr))"
      by (rule walk_drop [OF ps(3,1,2) kp])
    finally show ?thesis unfolding kn [symmetric] by (simp add: rx_returned_def ring_size_def)
  qed
  have ign: "list_all (\<lambda>p. Ignore (rx_pkt data' p)) (drop ?n (walk ?inc (ring_size ?pr) (BeginIndex ?pr) (EndIndex ?pr)))"
    using res unfolding w by (simp add: list_all_iff)
  have ctx1: "ctx\<lparr>descBegin := descBegin ?r, packetRing := ?pr\<lparr>BeginIndex := BeginIndex (packetRing ?r)\<rparr>,
      fragmentRing := (fragmentRing ctx)\<lparr>BeginIndex := BeginIndex (fragmentRing ?r)\<rparr>\<rparr> = ?r"
    by (simp add: rx_returned_def)
  have nr: "\<not> running ?r" using stop by (simp add: rx_returned_def)
  have "\<exists>ctx'. RxQueueAdvance api addr current ctx data = Some (ctx', data', 0, of_nat k)
     \<and> BeginIndex (packetRing ctx') = EndIndex ?pr \<and> BeginIndex (fragmentRing ctx') = EndIndex (fragmentRing ctx)"
    unfolding RxQueueAdvance_def Let_def reap bind.bind_lunit prod.case ctx1
    using run nr d own by (simp add: rx_drain_def) (simp add: rx_returned_def)
  then show ?thesis using ign kn by blast
qed

end

end
