(* ===== verification/RxReports.thy ===== *)
theory RxReports imports RxProperties begin

text \<open>
  The properties of the receive queue over the code's definitions, each with a witness at a concrete
  queue, what a received packet is reported as, and the drain after cancel.
\<close>

section \<open>A concrete queue\<close>

definition demo_rx0 :: RxQueueContext where
  "demo_rx0 = \<lparr>channelRegs = \<lparr>regs = (\<lambda>r. 0), wlog = []\<rparr>,
     packetRing = \<lparr>NumberOfElements = 4, BeginIndex = 0, NextIndex = 0, EndIndex = 3\<rparr>,
     fragmentRing = \<lparr>NumberOfElements = 4, BeginIndex = 0, NextIndex = 0, EndIndex = 2\<rparr>,
     descVirtual = (\<lambda>i. 0), descFragment = (\<lambda>i. 0), descPhysical = 0x10000, descCount = 64,
     rxBufferSize = 1528, rxPbl = 8, running = False, descBegin = 0, descEnd = 0\<rparr>"

definition demo_rx :: RxQueueContext where
  "demo_rx = RxQueueStart demo_rx0"

definition demo_rx_data :: rx_data where
  "demo_rx_data = \<lparr>rx_pkt = (\<lambda>i. \<lparr>FragmentIndex = 0, FragmentCount = 0, Ignore = False, Layout = empty_layout\<rparr>),
     rx_frag_offset = (\<lambda>i. 0), rx_frag_len = (\<lambda>i. 0),
     rx_ieee8021Q = (\<lambda>i. \<lparr>PriorityCodePoint = 0, VlanIdentifier = 0, TxPriorityRequired = False, TxVlanRequired = False\<rparr>),
     rx_checksum = (\<lambda>i. \<lparr>Layer2 = RxNotChecked, Layer3 = RxNotChecked, Layer4 = RxNotChecked\<rparr>)\<rparr>"

lemma demo_rx_initial: "rx_initial demo_rx"
  by (auto simp: rx_initial_def demo_rx_def demo_rx0_def ring_ok_def ring_size_def count_ok_def)

lemma demo_rx_current: "rx_current_ok demo_rx (RxGetDescNext 0x10000)"
  by (simp add: rx_current_ok_def RxGetDescNext_def QueueDescriptorAddressToIndex_def queue_constants demo_rx_def)
     (simp add: demo_rx0_def)

lemma demo_rx_running: "running demo_rx"
  by (simp add: demo_rx_def)

text \<open>The same queue with two fragments posted.\<close>

definition demo_rx_busy :: RxQueueContext where
  "demo_rx_busy = (RxSetDescEnd 2 demo_rx)
     \<lparr>fragmentRing := \<lparr>NumberOfElements = 4, BeginIndex = 0, NextIndex = 2, EndIndex = 2\<rparr>, descFragment := (\<lambda>i. i)\<rparr>"

lemma demo_rx_busy_fields:
  "packetRing demo_rx_busy = \<lparr>NumberOfElements = 4, BeginIndex = 0, NextIndex = 0, EndIndex = 3\<rparr>"
  "fragmentRing demo_rx_busy = \<lparr>NumberOfElements = 4, BeginIndex = 0, NextIndex = 2, EndIndex = 2\<rparr>"
  "descFragment demo_rx_busy = (\<lambda>i. i)" "descCount demo_rx_busy = 64" "descBegin demo_rx_busy = 0"
  "descEnd demo_rx_busy = 2" "descVirtual demo_rx_busy = (\<lambda>i. 0)" "running demo_rx_busy"
  by (simp_all add: demo_rx_busy_def RxSetDescEnd_def Let_def demo_rx_def) (simp_all add: demo_rx0_def)

lemma demo_rx_busy_inv: "rx_inv wrap_api demo_rx_busy"
proof -
  have "rx_rings_ok demo_rx_busy"
    by (simp add: rx_rings_ok_def demo_rx_busy_fields ring_ok_def ring_size_def count_ok_def rdist_def)
  moreover have "rx_matched wrap_api demo_rx_busy"
    by (simp add: rx_matched_def rx_in_flight_def rx_posted_def demo_rx_busy_fields ring_size_def walk_def rdist_def
        desc_next_def wrap_api_def wrap_increment_def upt_rec)
  moreover have "rx_tail_ok demo_rx_busy"
    by (simp add: rx_tail_ok_def demo_rx_busy_def RxSetDescEnd_def Let_def)
  ultimately show ?thesis by (simp add: rx_inv_def)
qed

lemma demo_rx_busy_current: "rx_current_ok demo_rx_busy (RxGetDescNext 0x10040)" "RxGetDescNext 0x10040 = 1"
  by (simp_all add: rx_current_ok_def RxGetDescNext_def QueueDescriptorAddressToIndex_def queue_constants
      demo_rx_busy_fields rdist_def)

section \<open>Every reachable state\<close>

text \<open>C2: In every state the receive queue reaches from start, with the framework posting fragments,
  the device writing descriptors and the handler running at any point, the rings are in range, the
  descriptors in flight hold exactly the posted fragments in order, the tail pointer register says
  \<open>descEnd\<close>, and the handler terminates.\<close>

theorem rx_reachable_safe:
  assumes "net_rings api" "rx_initial (fst s0)" "(rx_step api)\<^sup>*\<^sup>* s0 (ctx, data)" "running ctx"
    "rx_current_ok ctx (RxGetDescNext current)"
  shows "rx_inv api ctx \<and> RxQueueAdvance api addr current ctx data \<noteq> None"
proof -
  have inv: "rx_inv api ctx" using net_rings.rx_reachable_inv [OF assms(1,3,2)] assms(4) by simp
  with net_rings.rx_advance_running [OF assms(1) inv assms(5,4), of addr data] show ?thesis by auto
qed

theorem rx_reachable_safe_witness:
  "rx_inv wrap_api demo_rx \<and> RxQueueAdvance wrap_api (\<lambda>f. 0x20000) 0x10000 demo_rx demo_rx_data \<noteq> None"
  by (rule rx_reachable_safe [where ?s0.0 = "(demo_rx, demo_rx_data)", OF wrap.net_rings_axioms])
     (simp_all add: demo_rx_initial demo_rx_running demo_rx_current)



text \<open>The handler's two assertions hold: the descriptor it reads was filled for the fragment it
  reports it in, and it never runs past the fragments the framework gave it.\<close>

theorem rx_fragment_matches_descriptor:
  assumes "net_rings api" "rx_inv api ctx" "rx_current_ok ctx d" "k < rdist (unat (descCount ctx)) (descBegin ctx) d"
  shows "descFragment ctx ((desc_next (descCount ctx) ^^ k) (descBegin ctx))
       = (NetRingIncrementIndex api (fragmentRing ctx) ^^ k) (BeginIndex (fragmentRing ctx))
     \<and> (NetRingIncrementIndex api (fragmentRing ctx) ^^ k) (BeginIndex (fragmentRing ctx)) \<noteq> EndIndex (fragmentRing ctx)"
  by (rule net_rings.rx_assertions [OF assms])

theorem rx_fragment_matches_descriptor_witness:
  "descFragment demo_rx_busy ((desc_next (descCount demo_rx_busy) ^^ 0) (descBegin demo_rx_busy))
       = (NetRingIncrementIndex wrap_api (fragmentRing demo_rx_busy) ^^ 0) (BeginIndex (fragmentRing demo_rx_busy))
   \<and> (NetRingIncrementIndex wrap_api (fragmentRing demo_rx_busy) ^^ 0) (BeginIndex (fragmentRing demo_rx_busy))
       \<noteq> EndIndex (fragmentRing demo_rx_busy)"
  by (rule rx_fragment_matches_descriptor [OF wrap.net_rings_axioms demo_rx_busy_inv demo_rx_busy_current(1)])
     (simp add: demo_rx_busy_current(2) demo_rx_busy_fields rdist_def)

section \<open>What a received packet is reported as\<close>

lemma rx_vlan_update_keeps [simp]:
  "rx_pkt (rx_vlan_update api d p data) = rx_pkt data" "rx_frag_len (rx_vlan_update api d p data) = rx_frag_len data"
  "rx_frag_offset (rx_vlan_update api d p data) = rx_frag_offset data" "rx_checksum (rx_vlan_update api d p data) = rx_checksum data"
  by (simp_all add: rx_vlan_update_def Let_def)

lemma rx_checksum_update_keeps [simp]:
  "rx_frag_len (rx_checksum_update d p data) = rx_frag_len data"
  "rx_frag_offset (rx_checksum_update d p data) = rx_frag_offset data"
  "rx_ieee8021Q (rx_checksum_update d p data) = rx_ieee8021Q data"
  "FragmentIndex (rx_pkt (rx_checksum_update d p data) q) = FragmentIndex (rx_pkt data q)"
  "FragmentCount (rx_pkt (rx_checksum_update d p data) q) = FragmentCount (rx_pkt data q)"
  "Ignore (rx_pkt (rx_checksum_update d p data) q) = Ignore (rx_pkt data q)"
  by (simp_all add: rx_checksum_update_def Let_def)

text \<open>An indicated packet holds exactly the fragment the descriptor was posted with; it is ignored
  with an empty fragment exactly when the device reports an error, a context descriptor or a frame that
  is not whole in its buffer, and otherwise its length is the frame length without the CRC; no other
  packet's or fragment's data change.\<close>

theorem rx_indicate_reports:
  assumes "data' = rx_indicate_one api d p f data" "\<not> Ignore (rx_pkt data p)"
    "4 \<le> unat (getf RxDescriptorWrite ''PacketLength'' d)"
  shows "FragmentIndex (rx_pkt data' p) = f \<and> FragmentCount (rx_pkt data' p) = 1
     \<and> rx_frag_offset data' = (rx_frag_offset data)(f := 0)
     \<and> Ignore (rx_pkt data' p) = rx_bad d
     \<and> (if rx_bad d then rx_frag_len data' = (rx_frag_len data)(f := 0)
         else unat (rx_frag_len data' f) = unat (getf RxDescriptorWrite ''PacketLength'' d) - 4
            \<and> (rx_frag_len data')(f := 0) = (rx_frag_len data)(f := 0))
     \<and> (rx_pkt data')(p := rx_pkt data p) = rx_pkt data"
proof -
  let ?pl = "getf RxDescriptorWrite ''PacketLength'' d"
  have pl: "unat (ucast ?pl :: u64) = unat ?pl"
  proof -
    have m: "member RxDescriptorWrite ''PacketLength'' = (96, 15)" by (simp add: RxDescriptorWrite_def)
    have "unat ?pl = take_bit 15 (unat (drop_bit 96 d))"
      by (simp add: getf_def m get_bits_def unsigned_take_bit_eq)
    then have "unat ?pl < 2 ^ 15" by (metis take_bit_nat_less_exp)
    then show ?thesis by (simp add: unsigned_ucast_eq take_bit_nat_eq_self)
  qed
  then have "unat (ucast ?pl - 4 :: u64) = unat ?pl - 4"
    using assms(3) by (subst unat_sub) (simp_all add: word_le_nat_alt)
  moreover have "(rx_pkt (rx_checksum_update d p x))(p := y) = (rx_pkt x)(p := y)" for x y
    by (simp add: rx_checksum_update_def Let_def)
  ultimately show ?thesis
    using assms(1,2) by (simp add: rx_indicate_one_def Let_def)
qed

theorem rx_indicate_reports_witness:
  "FragmentIndex (rx_pkt (rx_indicate_one wrap_api (putf RxDescriptorWrite ''PacketLength'' 64 0) 1 2 demo_rx_data) 1) = 2
   \<and> Ignore (rx_pkt (rx_indicate_one wrap_api (putf RxDescriptorWrite ''PacketLength'' 64 0) 1 2 demo_rx_data) 1)"
proof -
  let ?d = "putf RxDescriptorWrite ''PacketLength'' 64 0 :: u128"
  have w: "snd (member RxDescriptorWrite ''PacketLength'') = 15" by (simp add: RxDescriptorWrite_def)
  have "4 \<le> unat (getf RxDescriptorWrite ''PacketLength'' ?d)"
    by (simp add: rxDescriptorWrite.getf_putf w)
  moreover have "rx_bad ?d" by (simp add: rx_bad_def rxDescriptorWrite.isset_putf_other)
  ultimately show ?thesis
    using rx_indicate_reports [OF refl, of demo_rx_data 1 ?d wrap_api 2] by (simp add: demo_rx_data_def)
qed

text \<open>For a frame received without error, the checksum evaluations and the packet's layout follow the
  device's status: with an IP header found, layer 3 and layer 4 are invalid exactly when the device says
  so, IPv4 is preferred over IPv6, and layer 4 is the payload type; with none found, the checksum
  extension is left alone and the layout is empty.\<close>

theorem rx_checksum_report:
  assumes "\<not> rx_bad d" "data' = rx_indicate_one api d p f data"
  shows "if isset RxDescriptorWrite ''IPv4HeaderPresent'' d \<or> isset RxDescriptorWrite ''IPv6HeaderPresent'' d
    then rx_checksum data' = (rx_checksum data)(p := \<lparr>Layer2 = RxValid,
           Layer3 = (if isset RxDescriptorWrite ''IPHeaderError'' d then RxInvalid else RxValid),
           Layer4 = (if isset RxDescriptorWrite ''IPPayloadError'' d then RxInvalid else RxValid)\<rparr>)
         \<and> (Layer3Type (Layout (rx_pkt data' p)) = IPv4UnspecifiedOptions) = isset RxDescriptorWrite ''IPv4HeaderPresent'' d
         \<and> Layer2Type (Layout (rx_pkt data' p)) = Layer2Ethernet
         \<and> (Layer4Type (Layout (rx_pkt data' p)) = Layer4Udp) = (getf RxDescriptorWrite ''PayloadType'' d = 1)
         \<and> (Layer4Type (Layout (rx_pkt data' p)) = Layer4Tcp) = (getf RxDescriptorWrite ''PayloadType'' d = 2)
    else rx_checksum data' = rx_checksum data \<and> Layout (rx_pkt data' p) = empty_layout"
  using assms
  by (auto simp: rx_indicate_one_def Let_def rx_checksum_update_def rx_evaluate_def rx_layer4_def
      RxPayloadTypeUdp_def RxPayloadTypeTcp_def)

text \<open>A whole IPv4 TCP frame with a payload checksum error.\<close>

definition demo_rx_frame :: u128 where
  "demo_rx_frame = putf RxDescriptorWrite ''IPPayloadError'' (flag True)
     (putf RxDescriptorWrite ''IPv4HeaderPresent'' (flag True) (putf RxDescriptorWrite ''PayloadType'' 2
       (putf RxDescriptorWrite ''FirstDescriptor'' (flag True) (putf RxDescriptorWrite ''LastDescriptor'' (flag True) 0))))"

lemma demo_rx_frame_fields:
  "\<not> rx_bad demo_rx_frame" "isset RxDescriptorWrite ''IPv4HeaderPresent'' demo_rx_frame"
  "isset RxDescriptorWrite ''IPPayloadError'' demo_rx_frame" "\<not> isset RxDescriptorWrite ''IPHeaderError'' demo_rx_frame"
proof -
  have w: "snd (member RxDescriptorWrite ''FirstDescriptor'') = 1" "snd (member RxDescriptorWrite ''LastDescriptor'') = 1"
    "snd (member RxDescriptorWrite ''IPv4HeaderPresent'') = 1" "snd (member RxDescriptorWrite ''IPPayloadError'') = 1"
    by (simp_all add: RxDescriptorWrite_def)
  show "\<not> rx_bad demo_rx_frame" "isset RxDescriptorWrite ''IPv4HeaderPresent'' demo_rx_frame"
    "isset RxDescriptorWrite ''IPPayloadError'' demo_rx_frame" "\<not> isset RxDescriptorWrite ''IPHeaderError'' demo_rx_frame"
    by (simp_all add: rx_bad_def demo_rx_frame_def rxDescriptorWrite.isset_putf_other rxDescriptorWrite.isset_putf_flag w)
qed

theorem rx_checksum_report_witness:
  "rx_checksum (rx_indicate_one wrap_api demo_rx_frame 1 2 demo_rx_data)
     = (rx_checksum demo_rx_data)(1 := \<lparr>Layer2 = RxValid, Layer3 = RxValid, Layer4 = RxInvalid\<rparr>)"
  using rx_checksum_report [OF demo_rx_frame_fields(1) refl, of wrap_api 1 2 demo_rx_data]
  by (simp add: demo_rx_frame_fields)

text \<open>A descriptor posted to the device carries the fragment's whole 64-bit address, is marked
  valid, interrupts on completion and belongs to the device in the view it is read back with.\<close>

theorem rx_desc_format:
  "push_bit 32 (ucast (getf RxDescriptorRead ''Buf1ApHigh'' (rx_desc a)) :: u64) OR ucast (getf RxDescriptorRead ''Buf1ApLow'' (rx_desc a)) = a
   \<and> isset RxDescriptorRead ''Buf1Valid'' (rx_desc a) \<and> isset RxDescriptorRead ''InterruptOnCompletion'' (rx_desc a)
   \<and> isset RxDescriptorWrite ''Own'' (rx_desc a) \<and> \<not> isset RxDescriptorRead ''Buf2Valid'' (rx_desc a)"
proof -
  have w: "snd (member RxDescriptorRead ''Buf1ApHigh'') = 32" "snd (member RxDescriptorRead ''Buf1ApLow'') = 32"
    "snd (member RxDescriptorRead ''Buf1Valid'') = 1" "snd (member RxDescriptorRead ''InterruptOnCompletion'') = 1"
    "snd (member RxDescriptorRead ''Own'') = 1"
    by (simp_all add: RxDescriptorRead_def)
  have "isset RxDescriptorWrite ''Own'' (rx_desc a)"
    by (simp add: rx_write_view_own rx_desc_def rxDescriptorRead.isset_putf_flag w)
  moreover have "push_bit 32 (ucast (take_bit 32 (ucast (drop_bit 32 a) :: u128)) :: u64)
      OR ucast (take_bit 32 (ucast (a AND 0xFFFFFFFF) :: u128)) = a"
  proof (rule bit_word_eqI)
    fix n assume "n < LENGTH(64)"
    have m: "(0xFFFFFFFF :: u64) = mask 32" by (simp add: mask_eq_exp_minus_1)
    show "bit (push_bit 32 (ucast (take_bit 32 (ucast (drop_bit 32 a) :: u128)) :: u64)
        OR ucast (take_bit 32 (ucast (a AND 0xFFFFFFFF) :: u128))) n = bit a n"
      unfolding m using \<open>n < LENGTH(64)\<close> by (cases "n < 32") (auto simp: bit_simps simp del: mask_numeral)
  qed
  ultimately show ?thesis
    by (simp add: rx_desc_def rxDescriptorRead.getf_putf rxDescriptorRead.isset_putf_other
        rxDescriptorRead.isset_putf_flag w)
qed

text \<open>For every frame size the adapter can be configured with, the receive buffer holds the frame
  with its VLAN tag and CRC, is a multiple of 8 bytes as the hardware asks, wastes less than 8 bytes, and
  the receive control register stores it without truncation.\<close>

theorem RxBufferSize_fits:
  assumes "1514 \<le> unat jumboFrame" "unat jumboFrame \<le> 9014"
  shows "unat jumboFrame + 8 \<le> unat (RxBufferSize jumboFrame) \<and> unat (RxBufferSize jumboFrame) < unat jumboFrame + 16
    \<and> 8 dvd unat (RxBufferSize jumboFrame)
    \<and> unat (getf ChannelRxControl_t ''ReceiveBufferSize'' (rx_start_control (RxBufferSize jumboFrame) pbl))
        = unat (RxBufferSize jumboFrame)"
proof -
  let ?f = "jumboFrame + 8" let ?u = "ucast ?f + 7 :: u32"
  have f: "unat ?f = unat jumboFrame + 8" using assms(2) by (simp add: unat_word_ariths)
  have u: "unat ?u = unat jumboFrame + 15"
    using assms(2) f by (simp add: unat_word_ariths unat_ucast_widen)
  have "?u AND NOT 7 = push_bit 3 (drop_bit 3 ?u)"
  proof (rule bit_word_eqI)
    fix n assume "n < LENGTH(32)"
    have m: "(7 :: u32) = mask 3" by (simp add: mask_eq_exp_minus_1)
    have "bit (w AND NOT 7) n = bit (push_bit 3 (drop_bit 3 w)) n" for w :: u32
      unfolding m using \<open>n < LENGTH(32)\<close> by (cases "n < 3") (auto simp: bit_simps simp del: mask_numeral)
    then show "bit (?u AND NOT 7) n = bit (push_bit 3 (drop_bit 3 ?u)) n" .
  qed
  moreover have d: "unat (drop_bit 3 ?u) = (unat jumboFrame + 15) div 8"
    using u unat_div [of ?u 8] by (simp add: drop_bit_eq_div)
  ultimately have r32: "unat (?u AND NOT 7) = 8 * ((unat jumboFrame + 15) div 8)"
    using assms(2) by (simp add: push_bit_eq_mult unat_word_ariths)
  then have r: "unat (RxBufferSize jumboFrame) = 8 * ((unat jumboFrame + 15) div 8)"
    using assms(2) by (simp add: RxBufferSize_def Let_def unsigned_ucast_eq take_bit_nat_eq_self)
  have w: "snd (member ChannelRxControl_t ''ReceiveBufferSize'') = 14" by (simp add: ChannelRxControl_t_def)
  have lt: "unat (RxBufferSize jumboFrame) < 2 ^ 14" using r assms(2) by simp
  have "unat (take_bit 14 (ucast (RxBufferSize jumboFrame) :: u32)) = unat (RxBufferSize jumboFrame)"
    using lt by (simp add: unsigned_take_bit_eq unat_ucast_widen take_bit_nat_eq_self)
  then have "unat (getf ChannelRxControl_t ''ReceiveBufferSize'' (rx_start_control (RxBufferSize jumboFrame) pbl))
      = unat (RxBufferSize jumboFrame)"
    by (simp add: rx_start_control_def channelRxControl.getf_putf w)
  then show ?thesis using r by presburger
qed

theorem RxBufferSize_fits_witness:
  "unat (RxBufferSize 9014) = 9024 \<and> 8 dvd unat (RxBufferSize 9014)"
  using RxBufferSize_fits [of 9014] by (simp add: RxBufferSize_def)

section \<open>Cancel\<close>

text \<open>After cancel, once the device has given back the descriptors up to its current one, one run
  of the handler indicates them and hands every other packet back marked to be ignored: both rings are
  returned whole.\<close>

theorem rx_cancel_drains:
  assumes "net_rings api" "rx_inv api ctx" "rx_current_ok ctx (RxGetDescNext current)" "\<not> running ctx"
    "list_all (\<lambda>j. \<not> rx_owned ctx j) (take (rdist (unat (descCount ctx)) (descBegin ctx) (RxGetDescNext current)) (rx_in_flight ctx))"
    "rdist (unat (descCount ctx)) (descBegin ctx) (RxGetDescNext current)
       \<le> rdist (ring_size (packetRing ctx)) (BeginIndex (packetRing ctx)) (EndIndex (packetRing ctx))"
  shows "\<exists>ctx' data'. RxQueueAdvance api addr current ctx data =
       Some (ctx', data', 0, of_nat (rdist (unat (descCount ctx)) (descBegin ctx) (RxGetDescNext current)))
     \<and> BeginIndex (packetRing ctx') = EndIndex (packetRing ctx) \<and> BeginIndex (fragmentRing ctx') = EndIndex (fragmentRing ctx)
     \<and> list_all (\<lambda>p. Ignore (rx_pkt data' p))
         (drop (rdist (unat (descCount ctx)) (descBegin ctx) (RxGetDescNext current))
           (walk (NetRingIncrementIndex api (packetRing ctx)) (ring_size (packetRing ctx)) (BeginIndex (packetRing ctx)) (EndIndex (packetRing ctx))))"
  by (rule net_rings.rx_drained [OF assms])

lemma RxQueueCancel_fields [simp]:
  "packetRing (RxQueueCancel ctx) = packetRing ctx" "fragmentRing (RxQueueCancel ctx) = fragmentRing ctx"
  "descVirtual (RxQueueCancel ctx) = descVirtual ctx" "descFragment (RxQueueCancel ctx) = descFragment ctx"
  "descPhysical (RxQueueCancel ctx) = descPhysical ctx" "descCount (RxQueueCancel ctx) = descCount ctx"
  "descBegin (RxQueueCancel ctx) = descBegin ctx" "descEnd (RxQueueCancel ctx) = descEnd ctx"
  "\<not> running (RxQueueCancel ctx)"
  by (simp_all add: RxQueueCancel_def)

lemma RxQueueCancel_inv: "rx_inv api ctx \<Longrightarrow> rx_inv api (RxQueueCancel ctx)"
  by (simp add: rx_inv_def rx_rings_ok_def rx_matched_def rx_in_flight_def rx_posted_def rx_tail_ok_def)
     (simp add: RxQueueCancel_def)

theorem rx_cancel_drains_witness:
  "\<exists>ctx' data'. RxQueueAdvance wrap_api (\<lambda>f. 0) 0x10040 (RxQueueCancel demo_rx_busy) demo_rx_data = Some (ctx', data', 0, 1)
     \<and> BeginIndex (packetRing ctx') = 3 \<and> BeginIndex (fragmentRing ctx') = 2"
proof -
  have cur: "rx_current_ok (RxQueueCancel demo_rx_busy) (RxGetDescNext 0x10040)"
    using demo_rx_busy_current(1) by (simp add: rx_current_ok_def)
  have one: "rdist (unat (descCount (RxQueueCancel demo_rx_busy))) (descBegin (RxQueueCancel demo_rx_busy)) (RxGetDescNext 0x10040) = 1"
    by (simp add: demo_rx_busy_current(2) demo_rx_busy_fields rdist_def)
  have free: "list_all (\<lambda>j. \<not> rx_owned (RxQueueCancel demo_rx_busy) j)
      (take (rdist (unat (descCount (RxQueueCancel demo_rx_busy))) (descBegin (RxQueueCancel demo_rx_busy)) (RxGetDescNext 0x10040))
        (rx_in_flight (RxQueueCancel demo_rx_busy)))"
    by (simp add: list_all_iff demo_rx_busy_fields)
  have pkts: "rdist (unat (descCount (RxQueueCancel demo_rx_busy))) (descBegin (RxQueueCancel demo_rx_busy)) (RxGetDescNext 0x10040)
      \<le> rdist (ring_size (packetRing (RxQueueCancel demo_rx_busy))) (BeginIndex (packetRing (RxQueueCancel demo_rx_busy)))
          (EndIndex (packetRing (RxQueueCancel demo_rx_busy)))"
    unfolding one by (simp add: demo_rx_busy_fields ring_size_def rdist_def)
  from rx_cancel_drains [OF wrap.net_rings_axioms RxQueueCancel_inv [OF demo_rx_busy_inv] cur _ free pkts]
  show ?thesis unfolding one by (simp add: demo_rx_busy_fields) blast
qed

end
