(* ===== verification/EqosInterrupts.thy ===== *)
theory EqosInterrupts imports EqosRegisters begin

text \<open>
  Interrupts and queue notifications of the Ethernet device (src/drivers/net/dwc_eqos/device.cpp): the
  interrupt masks, the service routine, the deferred procedure call, and arming and disarming the
  notification of a queue. Every critical section (interrupt lock, queue lock, interlocked exchange) is
  one function; theory InterruptSystem interleaves them.
\<close>

section \<open>State\<close>

definition InterruptsNone :: u8 where "InterruptsNone = 0"
definition InterruptsState :: u8 where "InterruptsState = 1"
definition InterruptsRx :: u8 where "InterruptsRx = 2"
definition InterruptsTx :: u8 where "InterruptsTx = 4"

definition InterruptLinkStatus :: u32 where "InterruptLinkStatus = 0x80000000"
definition InterruptChannel0StatusMask :: u32 where "InterruptChannel0StatusMask = NOT InterruptLinkStatus"

datatype notification = NotifyMoreReceivedPackets u64 | NotifyMoreCompletedPackets u64

text \<open>
  The fields of \<open>DeviceContext\<close> the interrupt path uses, with the device registers that change by
  themselves: \<open>chStatus\<close> is \<open>Dma_Ch[0].Status\<close> and \<open>macStatus\<close> is \<open>Mac_Interrupt_Status\<close>. \<open>dpcQueued\<close>
  and \<open>linkWork\<close> are the requests handed to the framework, \<open>notified\<close> the notifications sent to it.
\<close>

record DeviceContext =
  mregs :: mmio
  chStatus :: u32
  macStatus :: u32
  interruptStatus :: u32
  interruptsWanted :: u8
  rxQueue :: "u64 option"
  txQueue :: "u64 option"
  dpcQueued :: bool
  linkWork :: bool
  notified :: "notification list"
  isrHandled :: u32
  isrIgnored :: u32
  dpcLinkState :: u32
  dpcRx :: u32
  dpcTx :: u32
  dpcAbnormalStatus :: u32
  dpcFatalBusError :: u32

section \<open>Masks\<close>

definition MakeMacInterruptEnable :: "u8 \<Rightarrow> u32" where
  "MakeMacInterruptEnable wanted =
     putf MacInterruptEnable_t ''LinkStatus'' (flag (wanted AND InterruptsState \<noteq> 0)) 0"

definition MakeChannelInterruptEnable :: "u8 \<Rightarrow> u32" where
  "MakeChannelInterruptEnable wanted =
     putf ChannelInterruptEnable_t ''AbnormalInterruptSummary'' (flag (wanted AND InterruptsState \<noteq> 0))
      (putf ChannelInterruptEnable_t ''FatalBusError'' (flag (wanted AND InterruptsState \<noteq> 0))
       (putf ChannelInterruptEnable_t ''NormalInterruptSummary'' 1
        (putf ChannelInterruptEnable_t ''Tx'' (flag (wanted AND InterruptsTx \<noteq> 0))
         (putf ChannelInterruptEnable_t ''Rx'' (flag (wanted AND InterruptsRx \<noteq> 0)) 0))))"

definition DeviceInterruptSet_Locked :: "u8 \<Rightarrow> mmio \<Rightarrow> mmio" where
  "DeviceInterruptSet_Locked wanted m =
     Write32 Ch_Interrupt_Enable (MakeChannelInterruptEnable wanted)
      (Write32 Mac_Interrupt_Enable (MakeMacInterruptEnable wanted) m)"

definition DeviceInterruptEnable :: "u8 \<Rightarrow> DeviceContext \<Rightarrow> DeviceContext" where
  "DeviceInterruptEnable bitsToEnable c =
     (let newWanted = interruptsWanted c OR bitsToEnable
      in if interruptsWanted c \<noteq> newWanted
         then c\<lparr>interruptsWanted := newWanted, mregs := DeviceInterruptSet_Locked newWanted (mregs c)\<rparr>
         else c)"

definition DeviceInterruptDisable :: "u8 \<Rightarrow> DeviceContext \<Rightarrow> DeviceContext" where
  "DeviceInterruptDisable bitsToDisable c =
     (let newWanted = interruptsWanted c AND NOT bitsToDisable
      in if interruptsWanted c \<noteq> newWanted
         then c\<lparr>interruptsWanted := newWanted, mregs := DeviceInterruptSet_Locked newWanted (mregs c)\<rparr>
         else c)"

section \<open>The interrupt service routine\<close>

definition isr_new_status :: "DeviceContext \<Rightarrow> u32" where
  "isr_new_status c =
     (if isset MacInterruptStatus_t ''LinkStatus'' (macStatus c) then InterruptLinkStatus else 0)
     OR (chStatus c AND InterruptChannel0StatusMask)"

text \<open>
  The routine runs under the interrupt lock. Reading \<open>Mac_PhyIf_Control_Status\<close> clears the link status
  bit, and writing the channel status clears the bits written. The boolean is the routine's result.
\<close>

definition DeviceInterruptIsr :: "DeviceContext \<Rightarrow> bool \<times> DeviceContext" where
  "DeviceInterruptIsr c =
     (let newStatus = isr_new_status c;
          c1 = (if isset MacInterruptStatus_t ''LinkStatus'' (macStatus c)
                then c\<lparr>macStatus := putf MacInterruptStatus_t ''LinkStatus'' 0 (macStatus c)\<rparr> else c)
      in if newStatus \<noteq> 0
         then let w1 = (if isset ChannelStatus_t ''Rx'' newStatus
                        then interruptsWanted c1 AND NOT InterruptsRx else interruptsWanted c1);
                  w2 = (if isset ChannelStatus_t ''Tx'' newStatus then w1 AND NOT InterruptsTx else w1)
              in (True, c1\<lparr>mregs := DeviceInterruptSet_Locked InterruptsNone (Write32 Ch_Status (chStatus c) (mregs c1)),
                           chStatus := chStatus c AND NOT (chStatus c),
                           interruptsWanted := w2,
                           interruptStatus := interruptStatus c1 OR newStatus,
                           dpcQueued := True,
                           isrHandled := isrHandled c1 + 1\<rparr>)
         else (False, c1\<lparr>isrIgnored := isrIgnored c1 + 1\<rparr>))"

section \<open>The deferred procedure call\<close>

text \<open>The interlocked exchange and the link state part of one turn of the loop.\<close>

definition dpc_take :: "DeviceContext \<Rightarrow> u32 \<times> DeviceContext" where
  "dpc_take c =
     (let status = interruptStatus c; c1 = c\<lparr>interruptStatus := 0\<rparr>
      in (status,
          if status AND InterruptLinkStatus \<noteq> 0
          then c1\<lparr>dpcLinkState := dpcLinkState c1 + 1,
                  macStatus := putf MacInterruptStatus_t ''LinkStatus'' 0 (macStatus c1), linkWork := True\<rparr>
          else c1))"

text \<open>The section under the queue lock, and the error counters after it.\<close>

definition dpc_notify_rx :: "u32 \<Rightarrow> DeviceContext \<Rightarrow> DeviceContext" where
  "dpc_notify_rx status c =
     (case rxQueue c of
        Some q \<Rightarrow> if isset ChannelStatus_t ''Rx'' status
                   then c\<lparr>dpcRx := dpcRx c + 1, notified := notified c @ [NotifyMoreReceivedPackets q], rxQueue := None\<rparr>
                   else c
      | None \<Rightarrow> c)"

definition dpc_notify_tx :: "u32 \<Rightarrow> DeviceContext \<Rightarrow> DeviceContext" where
  "dpc_notify_tx status c =
     (case txQueue c of
        Some q \<Rightarrow> if isset ChannelStatus_t ''Tx'' status
                   then c\<lparr>dpcTx := dpcTx c + 1, notified := notified c @ [NotifyMoreCompletedPackets q], txQueue := None\<rparr>
                   else c
      | None \<Rightarrow> c)"

definition dpc_notify :: "u32 \<Rightarrow> DeviceContext \<Rightarrow> DeviceContext" where
  "dpc_notify status c =
     (let c1 = (if isset ChannelStatus_t ''Rx'' status \<or> isset ChannelStatus_t ''Tx'' status
                then dpc_notify_tx status (dpc_notify_rx status c) else c)
      in if isset ChannelStatus_t ''AbnormalInterruptSummary'' status \<or> isset ChannelStatus_t ''FatalBusError'' status
         then c1\<lparr>dpcAbnormalStatus := dpcAbnormalStatus c1 + getf ChannelStatus_t ''AbnormalInterruptSummary'' status,
                 dpcFatalBusError := dpcFatalBusError c1 + getf ChannelStatus_t ''FatalBusError'' status\<rparr>
         else c1)"

text \<open>The section under the interrupt lock that ends the turn.\<close>

definition dpc_reenable :: "DeviceContext \<Rightarrow> DeviceContext" where
  "dpc_reenable c =
     (if interruptsWanted c \<noteq> InterruptsNone
      then c\<lparr>mregs := DeviceInterruptSet_Locked (interruptsWanted c) (mregs c)\<rparr> else c)"

text \<open>
  The whole procedure when nothing else runs; the exchange returns 0 on the second turn then.
\<close>

partial_function (option) DeviceInterruptDpc :: "DeviceContext \<Rightarrow> DeviceContext option" where
  "DeviceInterruptDpc c =
     (let (status, c1) = dpc_take c
      in if status = 0 then Some c1 else DeviceInterruptDpc (dpc_reenable (dpc_notify status c1)))"

section \<open>Arming and disarming a queue's notification\<close>

text \<open>
  \<open>DeviceSetNotificationRxQueue\<close> and \<open>DeviceSetNotificationTxQueue\<close>: the section under the queue lock,
  then the interrupt mask.
\<close>

definition set_rx_queue :: "u64 option \<Rightarrow> DeviceContext \<Rightarrow> DeviceContext" where
  "set_rx_queue q c = c\<lparr>rxQueue := q\<rparr>"

definition set_tx_queue :: "u64 option \<Rightarrow> DeviceContext \<Rightarrow> DeviceContext" where
  "set_tx_queue q c = c\<lparr>txQueue := q\<rparr>"

definition set_mask :: "u8 \<Rightarrow> bool \<Rightarrow> DeviceContext \<Rightarrow> DeviceContext" where
  "set_mask bits on c = (if on then DeviceInterruptEnable bits c else DeviceInterruptDisable bits c)"

definition DeviceSetNotificationRxQueue :: "u64 option \<Rightarrow> DeviceContext \<Rightarrow> DeviceContext" where
  "DeviceSetNotificationRxQueue q c = set_mask InterruptsRx (q \<noteq> None) (set_rx_queue q c)"

definition DeviceSetNotificationTxQueue :: "u64 option \<Rightarrow> DeviceContext \<Rightarrow> DeviceContext" where
  "DeviceSetNotificationTxQueue q c = set_mask InterruptsTx (q \<noteq> None) (set_tx_queue q c)"

section \<open>Lemmas on status and mask bits\<close>

lemma get_bits_or: "get_bits off w (a OR b) = get_bits off w a OR get_bits off w b"
  by (rule bit_word_eqI) (auto simp: get_bits_def bit_simps)

lemma or_zero_iff: "(a OR b = 0) = (a = 0 \<and> b = (0 :: 'a::len word))"
  by (auto simp: bit_eq_iff bit_simps)

lemma isset_or: "isset L f (a OR b) = (isset L f a \<or> isset L f (b :: 'a::len word))"
  by (simp add: isset_def getf_def get_bits_or or_zero_iff split: prod.split)

lemma and_bit: "(w AND 2 ^ k \<noteq> (0 :: 'a::len word)) = bit w k"
  by (simp add: and_exp_eq_0_iff_not_bit)

lemma wanted_bits:
  "(w AND InterruptsState \<noteq> 0) = bit w 0" "(w AND InterruptsRx \<noteq> 0) = bit w 1" "(w AND InterruptsTx \<noteq> 0) = bit w 2"
  using and_bit [of w 0] and_bit [of w 1] and_bit [of w 2]
  by (simp_all add: InterruptsState_def InterruptsRx_def InterruptsTx_def)

lemma mask_bits:
  "bit InterruptsState n = (n = 0)" "bit InterruptsRx n = (n = 1)" "bit InterruptsTx n = (n = 2)"
proof -
  have "bit ((2::u8) ^ k) n = (n = k)" if "k < 8" for k using that by (auto simp: bit_simps)
  from this [of 0] this [of 1] this [of 2]
  show "bit InterruptsState n = (n = 0)" "bit InterruptsRx n = (n = 1)" "bit InterruptsTx n = (n = 2)"
    by (simp_all add: InterruptsState_def InterruptsRx_def InterruptsTx_def)
qed

lemma channel_fields_low:
  "member ChannelStatus_t ''Rx'' = (6, 1)" "member ChannelStatus_t ''Tx'' = (0, 1)"
  by (simp_all add: ChannelStatus_t_def)

lemma mask_keeps_low: "isset ChannelStatus_t f (x AND InterruptChannel0StatusMask) = isset ChannelStatus_t f x"
  if "f = ''Rx'' \<or> f = ''Tx''"
proof -
  have link: "bit InterruptLinkStatus n = (n = 31)" for n
  proof -
    have "InterruptLinkStatus = 2 ^ 31" by (simp add: InterruptLinkStatus_def)
    moreover have "bit ((2::u32) ^ 31) n = (n = 31)" by (subst bit_exp_iff) auto
    ultimately show ?thesis by simp
  qed
  have "get_bits off w (x AND InterruptChannel0StatusMask) = get_bits off w x" if "off + w \<le> 31" for off w
    by (rule bit_word_eqI) (use that in \<open>auto simp: get_bits_def InterruptChannel0StatusMask_def bit_simps link\<close>)
  from this [of 6 1] this [of 0 1] that show ?thesis by (auto simp: isset_def getf_def channel_fields_low)
qed

lemma link_not_low: "\<not> isset ChannelStatus_t ''Rx'' InterruptLinkStatus" "\<not> isset ChannelStatus_t ''Tx'' InterruptLinkStatus"
  by (simp_all add: isset_def getf_def channel_fields_low get_bits_def InterruptLinkStatus_def)

lemma isr_new_status_bits:
  "isset ChannelStatus_t ''Rx'' (isr_new_status c) = isset ChannelStatus_t ''Rx'' (chStatus c)"
  "isset ChannelStatus_t ''Tx'' (isr_new_status c) = isset ChannelStatus_t ''Tx'' (chStatus c)"
  by (simp_all add: isr_new_status_def isset_or mask_keeps_low link_not_low)

end
