(* ===== verification/EqosRegisterMap.thy ===== *)
theory EqosRegisterMap imports EqosRegisters begin

text \<open>
  The register file of the Ethernet device as registers.h lays it out (src/drivers/net/dwc_eqos/
  registers.h, \<open>ChannelRegisters\<close>, \<open>MtlQueueRegisters\<close>, \<open>MacAddressRegisters\<close>, \<open>MacL3L4Registers\<close>,
  \<open>MacRegisters\<close>): each struct is the list of its members with their sizes in bytes, in declaration
  order, padding included. The offsets the compiler gives the members are computed from it, compared
  with the offsets the header documents, and used to show that the register-indexed store of theory
  EqosRegisters is a sound view of the memory window the driver maps.
\<close>

section \<open>The structs\<close>

definition ChannelRegisters :: layout where
  "ChannelRegisters = [
   (''Control'', 4), (''Tx_Control'', 4), (''Rx_Control'', 4), (''Padding0C'', 4),
   (''TxDesc_List_Address_Hi'', 4), (''TxDesc_List_Address'', 4), (''RxDesc_List_Address_Hi'', 4),
   (''RxDesc_List_Address'', 4), (''TxDesc_Tail_Pointer'', 4), (''Padding24'', 4),
   (''RxDesc_Tail_Pointer'', 4), (''TxDesc_Ring_Length'', 4), (''RxDesc_Ring_Length'', 4),
   (''Interrupt_Enable'', 4), (''Rx_Interrupt_WD_Timer'', 4), (''Slot_Func_Ctrl_Status'', 4),
   (''Padding40'', 4), (''Current_App_TxDesc'', 4), (''Padding48'', 4),
   (''Current_App_RxDesc'', 4), (''Padding50'', 4), (''Current_App_TxBuffer'', 4),
   (''Padding58'', 4), (''Current_App_RxBuffer'', 4), (''Status'', 4), (''Miss_Frame_Cnt'', 4),
   (''Rx_Eri_Cnt'', 4), (''Padding6C'', 20)]"

definition MtlQueueRegisters :: layout where
  "MtlQueueRegisters = [
   (''Tx_Operation_Mode'', 4), (''Tx_Underflow'', 4), (''Tx_Debug'', 4), (''Padding0C'', 8),
   (''Tx_Ets_Status'', 4), (''Tx_Quantum_Weight'', 4), (''Padding1C'', 16),
   (''Interrupt_Ctrl_Status'', 4), (''Rx_Operation_Mode'', 4), (''Rx_Miss_Pkt_Ovf_Cnt'', 4),
   (''Rx_Debug'', 4), (''Rx_Control'', 4)]"

definition MacAddressRegisters :: layout where
  "MacAddressRegisters = [
   (''High'', 4), (''Low'', 4)]"

definition MacL3L4Registers :: layout where
  "MacL3L4Registers = [
   (''L3_L4_Control'', 4), (''Layer4_Address'', 4), (''Padding08'', 8), (''Layer3_Addr0_Reg'', 4),
   (''Layer3_Addr1_Reg'', 4), (''Layer3_Addr2_Reg'', 4), (''Layer3_Addr3_Reg'', 4),
   (''Padding20'', 16)]"

text \<open>\<open>MacRegisters\<close>, in nine consecutive parts.\<close>

definition mac_regs_config :: layout where
  "mac_regs_config = [
   (''Mac_Configuration'', 4), (''Mac_Ext_Configuration'', 4), (''Mac_Packet_Filter'', 4),
   (''Mac_Watchdog_Timeout'', 4), (''MAC_Hash_Table_Reg'', 12), (''Padding001C'', 52),
   (''Mac_Vlan_Tag_Ctrl'', 4), (''Mac_Vlan_Tag_Data'', 4), (''Mac_Vlan_Hash_Table'', 4),
   (''Padding005C'', 4), (''Mac_Vlan_Incl'', 4), (''Mac_Inner_Vlan_Incl'', 4),
   (''Padding0068'', 8), (''Mac_Tx_Flow_Ctrl'', 4), (''Padding0074'', 28),
   (''Mac_Rx_Flow_Ctrl'', 4), (''Mac_RxQ_Ctrl4'', 4), (''Padding0098'', 8),
   (''Mac_RxQ_Ctrl0'', 4), (''Mac_RxQ_Ctrl1'', 4), (''Mac_RxQ_Ctrl2'', 4), (''Padding00AC'', 4),
   (''Mac_Interrupt_Status'', 4), (''Mac_Interrupt_Enable'', 4), (''Mac_Rx_Tx_Status'', 4),
   (''Padding00BC'', 4)]"

definition mac_regs_status :: layout where
  "mac_regs_status = [
   (''Mac_Pmt_Control_Status'', 4), (''Mac_Rwk_Packet_Filter'', 4), (''Padding00C8'', 8),
   (''Mac_Lpi_Control_Status'', 4), (''Mac_Lpi_Timers_Control'', 4), (''Mac_Lpi_Entry_Timer'', 4),
   (''Mac_1us_Tic_Counter'', 4), (''Padding00E0'', 24), (''Mac_PhyIf_Control_Status'', 4),
   (''Padding00FC'', 20), (''Mac_Version'', 4), (''Mac_Debug'', 4), (''Padding0118'', 4),
   (''Mac_Hw_Feature0'', 4), (''Mac_Hw_Feature1'', 4), (''Mac_Hw_Feature2'', 4),
   (''Mac_Hw_Feature3'', 4), (''Padding012C'', 212)]"

definition mac_regs_control :: layout where
  "mac_regs_control = [
   (''Mac_Mdio_Address'', 4), (''Mac_Mdio_Data'', 4), (''Padding0208'', 8),
   (''Mac_Arp_Address'', 4), (''Padding0214'', 28), (''Mac_Csr_Sw_Ctrl'', 4),
   (''Mac_Fpe_Ctrl_Sts'', 4), (''Mac_Ext_Cfg1'', 4), (''Padding023C'', 4),
   (''Mac_Presn_Time_NS'', 4), (''Mac_Presn_Time_Updt'', 4), (''Padding0248'', 184),
   (''Mac_Address'', 32), (''Padding0320'', 992)]"

definition mac_regs_counters :: layout where
  "mac_regs_counters = [
   (''Mmc_Control'', 4), (''Mmc_Rx_Interrupt'', 4), (''Mmc_Tx_Interrupt'', 4),
   (''Mmc_Rx_Interrupt_Mask'', 4), (''Mmc_Tx_Interrupt_Mask'', 4),
   (''Tx_Octet_Count_Good_Bad'', 4), (''Tx_Packet_Count_Good_Bad'', 4), (''Padding071C'', 44),
   (''Tx_Underflow_Error_Packets'', 4), (''Padding074C'', 20), (''Tx_Carrier_Error_Packets'', 4),
   (''Tx_Octet_Count_Good'', 4), (''Tx_Packet_Count_Good'', 4), (''Padding076C'', 4),
   (''Tx_Pause_Packets'', 4), (''Padding0774'', 12), (''Rx_Packets_Count_Good_Bad'', 4),
   (''Rx_Octet_Count_Good_Bad'', 4), (''Rx_Octet_Count_Good'', 4), (''Padding078C'', 4),
   (''Rx_Multicast_Packets_Good'', 4), (''Rx_Crc_Error_Packets'', 4), (''Padding0798'', 16),
   (''Rx_Oversize_Packets_Good'', 4), (''Padding07AC'', 28), (''Rx_Length_Error_Packets'', 4),
   (''Padding07CC'', 4), (''Rx_Pause_Packets'', 4), (''Rx_Fifo_Overflow_Packets'', 4),
   (''Padding07D8'', 4), (''Rx_Watchdog_Error_Packets'', 4), (''Padding07E0'', 32)]"

definition mac_regs_ipc_counters :: layout where
  "mac_regs_ipc_counters = [
   (''Mmc_Ipc_Rx_Interrupt_Mask'', 4), (''Padding0804'', 4), (''Mmc_Ipc_Rx_Interrupt'', 4),
   (''Padding080C'', 4), (''RxIPv4_Good_Packets'', 4), (''RxIPv4_Header_Error_Packets'', 4),
   (''Padding0818'', 12), (''RxIPv6_Good_Packets'', 4), (''RxIPv6_Header_Error_Packets'', 4),
   (''Padding082C'', 8), (''RxUdp_Error_Packets'', 4), (''Padding0838'', 4),
   (''RxTcp_Error_Packets'', 4), (''Padding0840'', 4), (''RxIcmp_Error_Packets'', 4),
   (''Padding0848'', 12), (''RxIPv4_Header_Error_Octets'', 4), (''Padding0858'', 16),
   (''RxIPv6_Header_Error_Octets'', 4), (''Padding086C'', 8), (''RxUdp_Error_Octets'', 4),
   (''Padding0878'', 4), (''RxTcp_Error_Octets'', 4), (''Padding0880'', 4),
   (''RxIcmp_Error_Octets'', 4), (''Padding0888'', 24)]"

definition mac_regs_preemption :: layout where
  "mac_regs_preemption = [
   (''Mmc_Fpe_Tx_Interrupt'', 4), (''Mmc_Fpe_Tx_Interrupt_Mask'', 4),
   (''Mmc_Tx_Fpe_Fragment_Cntr'', 4), (''Mmc_Tx_Hold_Req_Cntr'', 4), (''Padding08B0'', 16),
   (''Mmc_Fpe_Rx_Interrupt'', 4), (''Mmc_Fpe_Rx_Interrupt_Mask'', 4),
   (''Mmc_Rx_Packet_Asm_Err_Cntr'', 4), (''Mmc_Rx_Packet_Smd_Err_Cntr'', 4),
   (''Mmc_Rx_Packet_Assembly_OK_Cntr'', 4), (''Mmc_Rx_Fpe_Fragment_Cntr'', 4),
   (''Padding08D8'', 40), (''Mac_L3_L4'', 96), (''Padding0950'', 416)]"

definition mac_regs_time :: layout where
  "mac_regs_time = [
   (''Mac_Timestamp_Control'', 4), (''Mac_Sub_Second_Increment'', 4),
   (''Mac_System_Time_Secs'', 4), (''Mac_System_Time_NS'', 4), (''Mac_Sys_Time_Secs_Update'', 4),
   (''Mac_Sys_Time_NS_Update'', 4), (''Mac_Timestamp_Addend'', 4), (''Padding0B1C'', 4),
   (''Mac_Timestamp_Status'', 4), (''Padding0B24'', 12), (''Mac_Tx_TS_Status_NS'', 4),
   (''Mac_Tx_TS_Status_Secs'', 4), (''Padding0B38'', 8), (''Mac_Auxiliary_Control'', 4),
   (''Padding0B44'', 4), (''Mac_Auxiliary_TS_NS'', 4), (''Mac_Auxiliary_TS_Secs'', 4),
   (''Padding0B50'', 8), (''Mac_TS_Ingress_Corr_NS'', 4), (''Mac_TS_Egress_Corr_NS'', 4),
   (''Padding0B60'', 8), (''Mac_TS_Ingress_Latency'', 4), (''Mac_TS_Egress_Latency'', 4),
   (''Mac_Pps_Control'', 4), (''Padding0B74'', 12), (''Mac_Pps0_Target_Time_Seconds'', 4),
   (''Mac_Pps0_Target_Time_NS'', 4), (''Mac_Pps0_Interval'', 4), (''Mac_Pps0_Width'', 4),
   (''Padding0B90'', 112)]"

definition mac_regs_mtl :: layout where
  "mac_regs_mtl = [
   (''Mtl_Operation_Mode'', 4), (''Padding0C04'', 4), (''Mtl_Dbg_Ctl'', 4), (''Mtl_Dbg_Sts'', 4),
   (''Mtl_Fifo_Debug_Data'', 4), (''Padding0C14'', 12), (''Mtl_Interrupt_Status'', 4),
   (''Padding0C24'', 12), (''Mtl_RxQ_Dma_Map0'', 4), (''Padding0C34'', 12), (''Mtl_Tbs_Ctrl'', 4),
   (''Padding0C44'', 12), (''Mtl_Est_Control'', 4), (''Padding0C54'', 4), (''Mtl_Est_Status'', 4),
   (''Padding0C5C'', 4), (''Mtl_Est_Sch_Error'', 4), (''Mtl_Est_Frm_Size_Error'', 4),
   (''Mtl_Est_Frm_Size_Capture'', 4), (''Padding0C6C'', 4), (''Mtl_Est_Intr_Enable'', 4),
   (''Padding0C74'', 12), (''Mtl_Est_Gcl_Control'', 4), (''Mtl_Est_Gcl_Data'', 4),
   (''Padding0C88'', 8), (''Mtl_Fpe_Ctrl_Sts'', 4), (''Mtl_Fpe_Advance'', 4),
   (''Padding0C98'', 104), (''Mtl_Q'', 128), (''Padding0D80'', 640)]"

definition mac_regs_dma :: layout where
  "mac_regs_dma = [
   (''Dma_Mode'', 4), (''Dma_SysBus_Mode'', 4), (''Dma_Interrupt_Status'', 4),
   (''Dma_Debug_Status0'', 4), (''Padding1010'', 48), (''Axi_Lpi_Entry_Interval'', 4),
   (''Padding1044'', 12), (''Dma_Tbs_Ctrl'', 4), (''Padding1054'', 172), (''Dma_Ch'', 256)]"

definition MacRegisters :: layout where
  "MacRegisters = mac_regs_config @ mac_regs_status @ mac_regs_control @ mac_regs_counters @ mac_regs_ipc_counters
     @ mac_regs_preemption @ mac_regs_time @ mac_regs_mtl @ mac_regs_dma"

lemmas mac_regs_defs = MacRegisters_def mac_regs_config_def mac_regs_status_def
  mac_regs_control_def mac_regs_counters_def mac_regs_ipc_counters_def
  mac_regs_preemption_def mac_regs_time_def mac_regs_mtl_def mac_regs_dma_def

section \<open>Offsets\<close>

definition offset_of :: "layout \<Rightarrow> string \<Rightarrow> nat" where
  "offset_of L f = fst (member L f)"

text \<open>All offsets of a struct in one pass.\<close>

fun offsets :: "nat \<Rightarrow> layout \<Rightarrow> layout" where
  "offsets off [] = []"
| "offsets off ((f, w) # L) = (f, off) # offsets (off + w) L"

text \<open>The offsets the comments of registers.h give (of the first element, for an array).\<close>

definition documented_channel :: layout where
  "documented_channel = [
   (''Control'', 0), (''Tx_Control'', 4), (''Rx_Control'', 8), (''TxDesc_List_Address_Hi'', 0x10),
   (''TxDesc_List_Address'', 0x14), (''RxDesc_List_Address_Hi'', 0x18),
   (''RxDesc_List_Address'', 0x1C), (''TxDesc_Tail_Pointer'', 0x20),
   (''RxDesc_Tail_Pointer'', 0x28), (''TxDesc_Ring_Length'', 0x2C),
   (''RxDesc_Ring_Length'', 0x30), (''Interrupt_Enable'', 0x34),
   (''Rx_Interrupt_WD_Timer'', 0x38), (''Slot_Func_Ctrl_Status'', 0x3C),
   (''Current_App_TxDesc'', 0x44), (''Current_App_RxDesc'', 0x4C),
   (''Current_App_TxBuffer'', 0x54), (''Current_App_RxBuffer'', 0x5C), (''Status'', 0x60),
   (''Miss_Frame_Cnt'', 0x64), (''Rx_Eri_Cnt'', 0x68)]"

definition documented_queue :: layout where
  "documented_queue = [
   (''Tx_Operation_Mode'', 0), (''Tx_Underflow'', 4), (''Tx_Debug'', 8),
   (''Tx_Ets_Status'', 0x14), (''Tx_Quantum_Weight'', 0x18), (''Interrupt_Ctrl_Status'', 0x2C),
   (''Rx_Operation_Mode'', 0x30), (''Rx_Miss_Pkt_Ovf_Cnt'', 0x34), (''Rx_Debug'', 0x38),
   (''Rx_Control'', 0x3C)]"

definition documented_address :: layout where
  "documented_address = [
   (''High'', 0), (''Low'', 4)]"

definition documented_filter :: layout where
  "documented_filter = [
   (''L3_L4_Control'', 0), (''Layer4_Address'', 4), (''Layer3_Addr0_Reg'', 0x10),
   (''Layer3_Addr1_Reg'', 0x14), (''Layer3_Addr2_Reg'', 0x18), (''Layer3_Addr3_Reg'', 0x1C)]"

definition documented_config :: layout where
  "documented_config = [
   (''Mac_Configuration'', 0), (''Mac_Ext_Configuration'', 4), (''Mac_Packet_Filter'', 8),
   (''Mac_Watchdog_Timeout'', 0xC), (''MAC_Hash_Table_Reg'', 0x10), (''Mac_Vlan_Tag_Ctrl'', 0x50),
   (''Mac_Vlan_Tag_Data'', 0x54), (''Mac_Vlan_Hash_Table'', 0x58), (''Mac_Vlan_Incl'', 0x60),
   (''Mac_Inner_Vlan_Incl'', 0x64), (''Mac_Tx_Flow_Ctrl'', 0x70), (''Mac_Rx_Flow_Ctrl'', 0x90),
   (''Mac_RxQ_Ctrl4'', 0x94), (''Mac_RxQ_Ctrl0'', 0xA0), (''Mac_RxQ_Ctrl1'', 0xA4),
   (''Mac_RxQ_Ctrl2'', 0xA8), (''Mac_Interrupt_Status'', 0xB0), (''Mac_Interrupt_Enable'', 0xB4),
   (''Mac_Rx_Tx_Status'', 0xB8)]"

definition documented_status :: layout where
  "documented_status = [
   (''Mac_Pmt_Control_Status'', 0xC0), (''Mac_Rwk_Packet_Filter'', 0xC4),
   (''Mac_Lpi_Control_Status'', 0xD0), (''Mac_Lpi_Timers_Control'', 0xD4),
   (''Mac_Lpi_Entry_Timer'', 0xD8), (''Mac_1us_Tic_Counter'', 0xDC),
   (''Mac_PhyIf_Control_Status'', 0xF8), (''Mac_Version'', 0x110), (''Mac_Debug'', 0x114),
   (''Mac_Hw_Feature0'', 0x11C), (''Mac_Hw_Feature1'', 0x120), (''Mac_Hw_Feature2'', 0x124),
   (''Mac_Hw_Feature3'', 0x128)]"

definition documented_control :: layout where
  "documented_control = [
   (''Mac_Mdio_Address'', 0x200), (''Mac_Mdio_Data'', 0x204), (''Mac_Arp_Address'', 0x210),
   (''Mac_Csr_Sw_Ctrl'', 0x230), (''Mac_Fpe_Ctrl_Sts'', 0x234), (''Mac_Ext_Cfg1'', 0x238),
   (''Mac_Presn_Time_NS'', 0x240), (''Mac_Presn_Time_Updt'', 0x244), (''Mac_Address'', 0x300)]"

definition documented_counters :: layout where
  "documented_counters = [
   (''Mmc_Control'', 0x700), (''Mmc_Rx_Interrupt'', 0x704), (''Mmc_Tx_Interrupt'', 0x708),
   (''Mmc_Rx_Interrupt_Mask'', 0x70C), (''Mmc_Tx_Interrupt_Mask'', 0x710),
   (''Tx_Octet_Count_Good_Bad'', 0x714), (''Tx_Packet_Count_Good_Bad'', 0x718),
   (''Tx_Underflow_Error_Packets'', 0x748), (''Tx_Carrier_Error_Packets'', 0x760),
   (''Tx_Octet_Count_Good'', 0x764), (''Tx_Packet_Count_Good'', 0x768),
   (''Tx_Pause_Packets'', 0x770), (''Rx_Packets_Count_Good_Bad'', 0x780),
   (''Rx_Octet_Count_Good_Bad'', 0x784), (''Rx_Octet_Count_Good'', 0x788),
   (''Rx_Multicast_Packets_Good'', 0x790), (''Rx_Crc_Error_Packets'', 0x794),
   (''Rx_Oversize_Packets_Good'', 0x7A8), (''Rx_Length_Error_Packets'', 0x7C8),
   (''Rx_Pause_Packets'', 0x7D0), (''Rx_Fifo_Overflow_Packets'', 0x7D4),
   (''Rx_Watchdog_Error_Packets'', 0x7DC)]"

definition documented_ipc_counters :: layout where
  "documented_ipc_counters = [
   (''Mmc_Ipc_Rx_Interrupt_Mask'', 0x800), (''Mmc_Ipc_Rx_Interrupt'', 0x808),
   (''RxIPv4_Good_Packets'', 0x810), (''RxIPv4_Header_Error_Packets'', 0x814),
   (''RxIPv6_Good_Packets'', 0x824), (''RxIPv6_Header_Error_Packets'', 0x828),
   (''RxUdp_Error_Packets'', 0x834), (''RxTcp_Error_Packets'', 0x83C),
   (''RxIcmp_Error_Packets'', 0x844), (''RxIPv4_Header_Error_Octets'', 0x854),
   (''RxIPv6_Header_Error_Octets'', 0x868), (''RxUdp_Error_Octets'', 0x874),
   (''RxTcp_Error_Octets'', 0x87C), (''RxIcmp_Error_Octets'', 0x884)]"

definition documented_preemption :: layout where
  "documented_preemption = [
   (''Mmc_Fpe_Tx_Interrupt'', 0x8A0), (''Mmc_Fpe_Tx_Interrupt_Mask'', 0x8A4),
   (''Mmc_Tx_Fpe_Fragment_Cntr'', 0x8A8), (''Mmc_Tx_Hold_Req_Cntr'', 0x8AC),
   (''Mmc_Fpe_Rx_Interrupt'', 0x8C0), (''Mmc_Fpe_Rx_Interrupt_Mask'', 0x8C4),
   (''Mmc_Rx_Packet_Asm_Err_Cntr'', 0x8C8), (''Mmc_Rx_Packet_Smd_Err_Cntr'', 0x8CC),
   (''Mmc_Rx_Packet_Assembly_OK_Cntr'', 0x8D0), (''Mmc_Rx_Fpe_Fragment_Cntr'', 0x8D4),
   (''Mac_L3_L4'', 0x900)]"

definition documented_time :: layout where
  "documented_time = [
   (''Mac_Timestamp_Control'', 0xB00), (''Mac_Sub_Second_Increment'', 0xB04),
   (''Mac_System_Time_Secs'', 0xB08), (''Mac_System_Time_NS'', 0xB0C),
   (''Mac_Sys_Time_Secs_Update'', 0xB10), (''Mac_Sys_Time_NS_Update'', 0xB14),
   (''Mac_Timestamp_Addend'', 0xB18), (''Mac_Timestamp_Status'', 0xB20),
   (''Mac_Tx_TS_Status_NS'', 0xB30), (''Mac_Tx_TS_Status_Secs'', 0xB34),
   (''Mac_Auxiliary_Control'', 0xB40), (''Mac_Auxiliary_TS_NS'', 0xB48),
   (''Mac_Auxiliary_TS_Secs'', 0xB4C), (''Mac_TS_Ingress_Corr_NS'', 0xB58),
   (''Mac_TS_Egress_Corr_NS'', 0xB5C), (''Mac_TS_Ingress_Latency'', 0xB68),
   (''Mac_TS_Egress_Latency'', 0xB6C), (''Mac_Pps_Control'', 0xB70),
   (''Mac_Pps0_Target_Time_Seconds'', 0xB80), (''Mac_Pps0_Target_Time_NS'', 0xB84),
   (''Mac_Pps0_Interval'', 0xB88), (''Mac_Pps0_Width'', 0xB8C)]"

definition documented_mtl :: layout where
  "documented_mtl = [
   (''Mtl_Operation_Mode'', 0xC00), (''Mtl_Dbg_Ctl'', 0xC08), (''Mtl_Dbg_Sts'', 0xC0C),
   (''Mtl_Fifo_Debug_Data'', 0xC10), (''Mtl_Interrupt_Status'', 0xC20),
   (''Mtl_RxQ_Dma_Map0'', 0xC30), (''Mtl_Tbs_Ctrl'', 0xC40), (''Mtl_Est_Control'', 0xC50),
   (''Mtl_Est_Status'', 0xC58), (''Mtl_Est_Sch_Error'', 0xC60),
   (''Mtl_Est_Frm_Size_Error'', 0xC64), (''Mtl_Est_Frm_Size_Capture'', 0xC68),
   (''Mtl_Est_Intr_Enable'', 0xC70), (''Mtl_Est_Gcl_Control'', 0xC80),
   (''Mtl_Est_Gcl_Data'', 0xC84), (''Mtl_Fpe_Ctrl_Sts'', 0xC90), (''Mtl_Fpe_Advance'', 0xC94),
   (''Mtl_Q'', 0xD00)]"

definition documented_dma :: layout where
  "documented_dma = [
   (''Dma_Mode'', 0x1000), (''Dma_SysBus_Mode'', 0x1004), (''Dma_Interrupt_Status'', 0x1008),
   (''Dma_Debug_Status0'', 0x100C), (''Axi_Lpi_Entry_Interval'', 0x1040),
   (''Dma_Tbs_Ctrl'', 0x1050), (''Dma_Ch'', 0x1100)]"

definition documented_mac :: layout where
  "documented_mac = documented_config @ documented_status @ documented_control @ documented_counters
     @ documented_ipc_counters @ documented_preemption @ documented_time @ documented_mtl @ documented_dma"

lemmas documented_parts = documented_config_def documented_status_def documented_control_def
  documented_counters_def documented_ipc_counters_def documented_preemption_def documented_time_def
  documented_mtl_def documented_dma_def

text \<open>The members that are registers, not padding.\<close>

definition named :: "layout \<Rightarrow> layout" where
  "named L = filter (\<lambda>(f, off). take 7 f \<noteq> ''Padding'') L"

lemma offsets_append: "offsets off (A @ B) = offsets off A @ offsets (off + width A) B"
  by (induction off A rule: offsets.induct) (auto simp: add.assoc)

lemma named_append [simp]: "named (A @ B) = named A @ named B"
  by (simp add: named_def)

lemma width_append [simp]: "width (A @ B) = width A + width B"
  by (induction A rule: width.induct) auto

lemma offsets_channel: "named (offsets 0 ChannelRegisters) = documented_channel"
  by (simp add: named_def ChannelRegisters_def documented_channel_def)

lemma offsets_queue: "named (offsets 0 MtlQueueRegisters) = documented_queue"
  by (simp add: named_def MtlQueueRegisters_def documented_queue_def)

lemma offsets_address: "named (offsets 0 MacAddressRegisters) = documented_address"
  by (simp add: named_def MacAddressRegisters_def documented_address_def)

lemma offsets_filter: "named (offsets 0 MacL3L4Registers) = documented_filter"
  by (simp add: named_def MacL3L4Registers_def documented_filter_def)

lemma part_widths:
  "width mac_regs_config = 0xC0"
  "width mac_regs_status = 0x140"
  "width mac_regs_control = 0x500"
  "width mac_regs_counters = 0x100"
  "width mac_regs_ipc_counters = 0xA0"
  "width mac_regs_preemption = 0x260"
  "width mac_regs_time = 0x100"
  "width mac_regs_mtl = 0x400"
  "width mac_regs_dma = 0x200"
  by (simp_all add: mac_regs_defs)

lemma part_offsets:
  "named (offsets 0 mac_regs_config) = documented_config"
  "named (offsets 0xC0 mac_regs_status) = documented_status"
  "named (offsets 0x200 mac_regs_control) = documented_control"
  "named (offsets 0x700 mac_regs_counters) = documented_counters"
  "named (offsets 0x800 mac_regs_ipc_counters) = documented_ipc_counters"
  "named (offsets 0x8A0 mac_regs_preemption) = documented_preemption"
  "named (offsets 0xB00 mac_regs_time) = documented_time"
  "named (offsets 0xC00 mac_regs_mtl) = documented_mtl"
  "named (offsets 0x1000 mac_regs_dma) = documented_dma"
  by (simp_all add: mac_regs_defs named_def documented_parts)

lemma mac_size: "width MacRegisters = 0x1200"
  by (simp add: MacRegisters_def part_widths)

lemma offsets_mac: "named (offsets 0 MacRegisters) = documented_mac"
  by (simp add: MacRegisters_def offsets_append part_widths part_offsets documented_mac_def)

text \<open>Member lookup in a struct given in parts.\<close>

fun has_member :: "layout \<Rightarrow> string \<Rightarrow> bool" where
  "has_member [] f \<longleftrightarrow> False"
| "has_member ((g, w) # L) f \<longleftrightarrow> f = g \<or> has_member L f"

lemma member_empty: "member L f = (k, 0) \<Longrightarrow> k = 0"
  by (induction L f rule: member.induct) (auto split: if_splits prod.splits)

lemma member_append:
  "list_all (\<lambda>(f, w). 0 < w) A \<Longrightarrow> member (A @ B) f =
     (if has_member A f then member A f
      else case member B f of (off, v) \<Rightarrow> if v = 0 then (0, 0) else (width A + off, v))"
proof (induction A f rule: has_member.induct)
  case (1 f)
  then show ?case by (auto split: prod.split dest: member_empty)
next
  case (2 g w L f)
  have "has_member L f \<Longrightarrow> 0 < snd (member L f)" if "list_all (\<lambda>(f, w). 0 < w) L" for L
    using that by (induction L f rule: has_member.induct) (auto split: prod.splits if_splits)
  then show ?case using 2 by (auto split: prod.splits)
qed

lemma part_nonzero:
  "list_all (\<lambda>(f, w). 0 < w) mac_regs_config" "list_all (\<lambda>(f, w). 0 < w) mac_regs_status"
  "list_all (\<lambda>(f, w). 0 < w) mac_regs_control" "list_all (\<lambda>(f, w). 0 < w) mac_regs_counters"
  "list_all (\<lambda>(f, w). 0 < w) mac_regs_ipc_counters" "list_all (\<lambda>(f, w). 0 < w) mac_regs_preemption"
  "list_all (\<lambda>(f, w). 0 < w) mac_regs_time" "list_all (\<lambda>(f, w). 0 < w) mac_regs_mtl"
  "list_all (\<lambda>(f, w). 0 < w) mac_regs_dma"
  by (simp_all add: mac_regs_defs)

section \<open>Addresses of the registers\<close>

text \<open>The byte offset of a register of theory EqosRegisters in the mapped window.\<close>

definition ch_offset :: "string \<Rightarrow> nat" where
  "ch_offset f = offset_of MacRegisters ''Dma_Ch'' + offset_of ChannelRegisters f"

definition mtl_offset :: "string \<Rightarrow> nat" where
  "mtl_offset f = offset_of MacRegisters ''Mtl_Q'' + offset_of MtlQueueRegisters f"

definition addr_offset :: "u32 \<Rightarrow> string \<Rightarrow> nat" where
  "addr_offset i f = offset_of MacRegisters ''Mac_Address'' + unat i * width MacAddressRegisters
     + offset_of MacAddressRegisters f"

fun reg_offset :: "reg \<Rightarrow> nat" where
  "reg_offset Mac_Configuration = offset_of MacRegisters ''Mac_Configuration''"
| "reg_offset Mac_Ext_Configuration = offset_of MacRegisters ''Mac_Ext_Configuration''"
| "reg_offset Mac_Packet_Filter = offset_of MacRegisters ''Mac_Packet_Filter''"
| "reg_offset Mac_Watchdog_Timeout = offset_of MacRegisters ''Mac_Watchdog_Timeout''"
| "reg_offset Mac_Vlan_Tag_Ctrl = offset_of MacRegisters ''Mac_Vlan_Tag_Ctrl''"
| "reg_offset Mac_Vlan_Incl = offset_of MacRegisters ''Mac_Vlan_Incl''"
| "reg_offset Mac_Tx_Flow_Ctrl = offset_of MacRegisters ''Mac_Tx_Flow_Ctrl''"
| "reg_offset Mac_Rx_Flow_Ctrl = offset_of MacRegisters ''Mac_Rx_Flow_Ctrl''"
| "reg_offset Mac_RxQ_Ctrl0 = offset_of MacRegisters ''Mac_RxQ_Ctrl0''"
| "reg_offset Mac_Interrupt_Status = offset_of MacRegisters ''Mac_Interrupt_Status''"
| "reg_offset Mac_Interrupt_Enable = offset_of MacRegisters ''Mac_Interrupt_Enable''"
| "reg_offset Mac_PhyIf_Control_Status = offset_of MacRegisters ''Mac_PhyIf_Control_Status''"
| "reg_offset Mac_1us_Tic_Counter = offset_of MacRegisters ''Mac_1us_Tic_Counter''"
| "reg_offset (Mac_Address_High i) = addr_offset i ''High''"
| "reg_offset (Mac_Address_Low i) = addr_offset i ''Low''"
| "reg_offset Mmc_Rx_Interrupt_Mask = offset_of MacRegisters ''Mmc_Rx_Interrupt_Mask''"
| "reg_offset Mmc_Tx_Interrupt_Mask = offset_of MacRegisters ''Mmc_Tx_Interrupt_Mask''"
| "reg_offset Mmc_Ipc_Rx_Interrupt_Mask = offset_of MacRegisters ''Mmc_Ipc_Rx_Interrupt_Mask''"
| "reg_offset Mmc_Fpe_Tx_Interrupt_Mask = offset_of MacRegisters ''Mmc_Fpe_Tx_Interrupt_Mask''"
| "reg_offset Mmc_Fpe_Rx_Interrupt_Mask = offset_of MacRegisters ''Mmc_Fpe_Rx_Interrupt_Mask''"
| "reg_offset Mtl_Tx_Operation_Mode = mtl_offset ''Tx_Operation_Mode''"
| "reg_offset Mtl_Rx_Operation_Mode = mtl_offset ''Rx_Operation_Mode''"
| "reg_offset Mtl_Tx_Debug = mtl_offset ''Tx_Debug''"
| "reg_offset Dma_Mode = offset_of MacRegisters ''Dma_Mode''"
| "reg_offset Dma_SysBus_Mode = offset_of MacRegisters ''Dma_SysBus_Mode''"
| "reg_offset Axi_Lpi_Entry_Interval = offset_of MacRegisters ''Axi_Lpi_Entry_Interval''"
| "reg_offset Ch_Control = ch_offset ''Control''"
| "reg_offset Ch_Tx_Control = ch_offset ''Tx_Control''"
| "reg_offset Ch_Rx_Control = ch_offset ''Rx_Control''"
| "reg_offset Ch_Status = ch_offset ''Status''"
| "reg_offset Ch_Interrupt_Enable = ch_offset ''Interrupt_Enable''"
| "reg_offset TxDesc_List_Address_Hi = ch_offset ''TxDesc_List_Address_Hi''"
| "reg_offset TxDesc_List_Address = ch_offset ''TxDesc_List_Address''"
| "reg_offset TxDesc_Ring_Length = ch_offset ''TxDesc_Ring_Length''"
| "reg_offset TxDesc_Tail_Pointer = ch_offset ''TxDesc_Tail_Pointer''"
| "reg_offset RxDesc_List_Address_Hi = ch_offset ''RxDesc_List_Address_Hi''"
| "reg_offset RxDesc_List_Address = ch_offset ''RxDesc_List_Address''"
| "reg_offset RxDesc_Ring_Length = ch_offset ''RxDesc_Ring_Length''"
| "reg_offset RxDesc_Tail_Pointer = ch_offset ''RxDesc_Tail_Pointer''"
| "reg_offset Current_App_TxDesc = ch_offset ''Current_App_TxDesc''"
| "reg_offset Current_App_RxDesc = ch_offset ''Current_App_RxDesc''"

lemma in_config:
  "member mac_regs_config ''Mac_Configuration'' = (0, 4)" "has_member mac_regs_config ''Mac_Configuration''"
  "member mac_regs_config ''Mac_Ext_Configuration'' = (4, 4)" "has_member mac_regs_config ''Mac_Ext_Configuration''"
  "member mac_regs_config ''Mac_Packet_Filter'' = (8, 4)" "has_member mac_regs_config ''Mac_Packet_Filter''"
  "member mac_regs_config ''Mac_Watchdog_Timeout'' = (0xC, 4)" "has_member mac_regs_config ''Mac_Watchdog_Timeout''"
  "member mac_regs_config ''Mac_Vlan_Tag_Ctrl'' = (0x50, 4)" "has_member mac_regs_config ''Mac_Vlan_Tag_Ctrl''"
  "member mac_regs_config ''Mac_Vlan_Incl'' = (0x60, 4)" "has_member mac_regs_config ''Mac_Vlan_Incl''"
  "member mac_regs_config ''Mac_Tx_Flow_Ctrl'' = (0x70, 4)" "has_member mac_regs_config ''Mac_Tx_Flow_Ctrl''"
  "member mac_regs_config ''Mac_Rx_Flow_Ctrl'' = (0x90, 4)" "has_member mac_regs_config ''Mac_Rx_Flow_Ctrl''"
  "member mac_regs_config ''Mac_RxQ_Ctrl0'' = (0xA0, 4)" "has_member mac_regs_config ''Mac_RxQ_Ctrl0''"
  "member mac_regs_config ''Mac_Interrupt_Status'' = (0xB0, 4)" "has_member mac_regs_config ''Mac_Interrupt_Status''"
  "member mac_regs_config ''Mac_Interrupt_Enable'' = (0xB4, 4)" "has_member mac_regs_config ''Mac_Interrupt_Enable''"
  by (simp_all add: mac_regs_config_def)

lemma not_in_config:
  "\<not> has_member mac_regs_config ''Mac_PhyIf_Control_Status''"
  "\<not> has_member mac_regs_config ''Mac_1us_Tic_Counter''"
  "\<not> has_member mac_regs_config ''Mac_Address''"
  "\<not> has_member mac_regs_config ''Mmc_Rx_Interrupt_Mask''"
  "\<not> has_member mac_regs_config ''Mmc_Tx_Interrupt_Mask''"
  "\<not> has_member mac_regs_config ''Mmc_Ipc_Rx_Interrupt_Mask''"
  "\<not> has_member mac_regs_config ''Mmc_Fpe_Tx_Interrupt_Mask''"
  "\<not> has_member mac_regs_config ''Mmc_Fpe_Rx_Interrupt_Mask''"
  "\<not> has_member mac_regs_config ''Mtl_Q''"
  "\<not> has_member mac_regs_config ''Dma_Mode''"
  "\<not> has_member mac_regs_config ''Dma_SysBus_Mode''"
  "\<not> has_member mac_regs_config ''Axi_Lpi_Entry_Interval''"
  "\<not> has_member mac_regs_config ''Dma_Ch''"
  by (simp_all add: mac_regs_config_def)

lemma in_status:
  "member mac_regs_status ''Mac_PhyIf_Control_Status'' = (0x38, 4)" "has_member mac_regs_status ''Mac_PhyIf_Control_Status''"
  "member mac_regs_status ''Mac_1us_Tic_Counter'' = (0x1C, 4)" "has_member mac_regs_status ''Mac_1us_Tic_Counter''"
  by (simp_all add: mac_regs_status_def)

lemma not_in_status:
  "\<not> has_member mac_regs_status ''Mac_Address''"
  "\<not> has_member mac_regs_status ''Mmc_Rx_Interrupt_Mask''"
  "\<not> has_member mac_regs_status ''Mmc_Tx_Interrupt_Mask''"
  "\<not> has_member mac_regs_status ''Mmc_Ipc_Rx_Interrupt_Mask''"
  "\<not> has_member mac_regs_status ''Mmc_Fpe_Tx_Interrupt_Mask''"
  "\<not> has_member mac_regs_status ''Mmc_Fpe_Rx_Interrupt_Mask''"
  "\<not> has_member mac_regs_status ''Mtl_Q''"
  "\<not> has_member mac_regs_status ''Dma_Mode''"
  "\<not> has_member mac_regs_status ''Dma_SysBus_Mode''"
  "\<not> has_member mac_regs_status ''Axi_Lpi_Entry_Interval''"
  "\<not> has_member mac_regs_status ''Dma_Ch''"
  by (simp_all add: mac_regs_status_def)

lemma in_control:
  "member mac_regs_control ''Mac_Address'' = (0x100, 32)" "has_member mac_regs_control ''Mac_Address''"
  by (simp_all add: mac_regs_control_def)

lemma not_in_control:
  "\<not> has_member mac_regs_control ''Mmc_Rx_Interrupt_Mask''"
  "\<not> has_member mac_regs_control ''Mmc_Tx_Interrupt_Mask''"
  "\<not> has_member mac_regs_control ''Mmc_Ipc_Rx_Interrupt_Mask''"
  "\<not> has_member mac_regs_control ''Mmc_Fpe_Tx_Interrupt_Mask''"
  "\<not> has_member mac_regs_control ''Mmc_Fpe_Rx_Interrupt_Mask''"
  "\<not> has_member mac_regs_control ''Mtl_Q''"
  "\<not> has_member mac_regs_control ''Dma_Mode''"
  "\<not> has_member mac_regs_control ''Dma_SysBus_Mode''"
  "\<not> has_member mac_regs_control ''Axi_Lpi_Entry_Interval''"
  "\<not> has_member mac_regs_control ''Dma_Ch''"
  by (simp_all add: mac_regs_control_def)

lemma in_counters:
  "member mac_regs_counters ''Mmc_Rx_Interrupt_Mask'' = (0xC, 4)" "has_member mac_regs_counters ''Mmc_Rx_Interrupt_Mask''"
  "member mac_regs_counters ''Mmc_Tx_Interrupt_Mask'' = (0x10, 4)" "has_member mac_regs_counters ''Mmc_Tx_Interrupt_Mask''"
  by (simp_all add: mac_regs_counters_def)

lemma not_in_counters:
  "\<not> has_member mac_regs_counters ''Mmc_Ipc_Rx_Interrupt_Mask''"
  "\<not> has_member mac_regs_counters ''Mmc_Fpe_Tx_Interrupt_Mask''"
  "\<not> has_member mac_regs_counters ''Mmc_Fpe_Rx_Interrupt_Mask''"
  "\<not> has_member mac_regs_counters ''Mtl_Q''"
  "\<not> has_member mac_regs_counters ''Dma_Mode''"
  "\<not> has_member mac_regs_counters ''Dma_SysBus_Mode''"
  "\<not> has_member mac_regs_counters ''Axi_Lpi_Entry_Interval''"
  "\<not> has_member mac_regs_counters ''Dma_Ch''"
  by (simp_all add: mac_regs_counters_def)

lemma in_ipc_counters:
  "member mac_regs_ipc_counters ''Mmc_Ipc_Rx_Interrupt_Mask'' = (0, 4)" "has_member mac_regs_ipc_counters ''Mmc_Ipc_Rx_Interrupt_Mask''"
  by (simp_all add: mac_regs_ipc_counters_def)

lemma not_in_ipc_counters:
  "\<not> has_member mac_regs_ipc_counters ''Mmc_Fpe_Tx_Interrupt_Mask''"
  "\<not> has_member mac_regs_ipc_counters ''Mmc_Fpe_Rx_Interrupt_Mask''"
  "\<not> has_member mac_regs_ipc_counters ''Mtl_Q''"
  "\<not> has_member mac_regs_ipc_counters ''Dma_Mode''"
  "\<not> has_member mac_regs_ipc_counters ''Dma_SysBus_Mode''"
  "\<not> has_member mac_regs_ipc_counters ''Axi_Lpi_Entry_Interval''"
  "\<not> has_member mac_regs_ipc_counters ''Dma_Ch''"
  by (simp_all add: mac_regs_ipc_counters_def)

lemma in_preemption:
  "member mac_regs_preemption ''Mmc_Fpe_Tx_Interrupt_Mask'' = (4, 4)" "has_member mac_regs_preemption ''Mmc_Fpe_Tx_Interrupt_Mask''"
  "member mac_regs_preemption ''Mmc_Fpe_Rx_Interrupt_Mask'' = (0x24, 4)" "has_member mac_regs_preemption ''Mmc_Fpe_Rx_Interrupt_Mask''"
  by (simp_all add: mac_regs_preemption_def)

lemma not_in_preemption:
  "\<not> has_member mac_regs_preemption ''Mtl_Q''"
  "\<not> has_member mac_regs_preemption ''Dma_Mode''"
  "\<not> has_member mac_regs_preemption ''Dma_SysBus_Mode''"
  "\<not> has_member mac_regs_preemption ''Axi_Lpi_Entry_Interval''"
  "\<not> has_member mac_regs_preemption ''Dma_Ch''"
  by (simp_all add: mac_regs_preemption_def)

lemma not_in_time:
  "\<not> has_member mac_regs_time ''Mtl_Q''"
  "\<not> has_member mac_regs_time ''Dma_Mode''"
  "\<not> has_member mac_regs_time ''Dma_SysBus_Mode''"
  "\<not> has_member mac_regs_time ''Axi_Lpi_Entry_Interval''"
  "\<not> has_member mac_regs_time ''Dma_Ch''"
  by (simp_all add: mac_regs_time_def)

lemma in_mtl:
  "member mac_regs_mtl ''Mtl_Q'' = (0x100, 128)" "has_member mac_regs_mtl ''Mtl_Q''"
  by (simp_all add: mac_regs_mtl_def)

lemma not_in_mtl:
  "\<not> has_member mac_regs_mtl ''Dma_Mode''"
  "\<not> has_member mac_regs_mtl ''Dma_SysBus_Mode''"
  "\<not> has_member mac_regs_mtl ''Axi_Lpi_Entry_Interval''"
  "\<not> has_member mac_regs_mtl ''Dma_Ch''"
  by (simp_all add: mac_regs_mtl_def)

lemma in_dma:
  "member mac_regs_dma ''Dma_Mode'' = (0, 4)" "has_member mac_regs_dma ''Dma_Mode''"
  "member mac_regs_dma ''Dma_SysBus_Mode'' = (4, 4)" "has_member mac_regs_dma ''Dma_SysBus_Mode''"
  "member mac_regs_dma ''Axi_Lpi_Entry_Interval'' = (0x40, 4)" "has_member mac_regs_dma ''Axi_Lpi_Entry_Interval''"
  "member mac_regs_dma ''Dma_Ch'' = (0x100, 256)" "has_member mac_regs_dma ''Dma_Ch''"
  by (simp_all add: mac_regs_dma_def)

lemmas part_members = in_config
  in_status
  in_control
  in_counters
  in_ipc_counters
  in_preemption
  in_mtl
  in_dma
  not_in_config not_in_status not_in_control not_in_counters not_in_ipc_counters not_in_preemption not_in_time not_in_mtl

lemma mac_offsets:
  "offset_of MacRegisters ''Mac_Configuration'' = 0"
  "offset_of MacRegisters ''Mac_Ext_Configuration'' = 4"
  "offset_of MacRegisters ''Mac_Packet_Filter'' = 8"
  "offset_of MacRegisters ''Mac_Watchdog_Timeout'' = 0xC"
  "offset_of MacRegisters ''Mac_Vlan_Tag_Ctrl'' = 0x50"
  "offset_of MacRegisters ''Mac_Vlan_Incl'' = 0x60"
  "offset_of MacRegisters ''Mac_Tx_Flow_Ctrl'' = 0x70"
  "offset_of MacRegisters ''Mac_Rx_Flow_Ctrl'' = 0x90"
  "offset_of MacRegisters ''Mac_RxQ_Ctrl0'' = 0xA0"
  "offset_of MacRegisters ''Mac_Interrupt_Status'' = 0xB0"
  "offset_of MacRegisters ''Mac_Interrupt_Enable'' = 0xB4"
  "offset_of MacRegisters ''Mac_PhyIf_Control_Status'' = 0xF8"
  "offset_of MacRegisters ''Mac_1us_Tic_Counter'' = 0xDC"
  "offset_of MacRegisters ''Mac_Address'' = 0x300"
  "offset_of MacRegisters ''Mmc_Rx_Interrupt_Mask'' = 0x70C"
  "offset_of MacRegisters ''Mmc_Tx_Interrupt_Mask'' = 0x710"
  "offset_of MacRegisters ''Mmc_Ipc_Rx_Interrupt_Mask'' = 0x800"
  "offset_of MacRegisters ''Mmc_Fpe_Tx_Interrupt_Mask'' = 0x8A4"
  "offset_of MacRegisters ''Mmc_Fpe_Rx_Interrupt_Mask'' = 0x8C4"
  "offset_of MacRegisters ''Mtl_Q'' = 0xD00"
  "offset_of MacRegisters ''Dma_Mode'' = 0x1000"
  "offset_of MacRegisters ''Dma_SysBus_Mode'' = 0x1004"
  "offset_of MacRegisters ''Axi_Lpi_Entry_Interval'' = 0x1040"
  "offset_of MacRegisters ''Dma_Ch'' = 0x1100"
  by (simp_all add: offset_of_def MacRegisters_def member_append part_nonzero part_members part_widths)

lemma inner_offsets:
  "map (offset_of ChannelRegisters)
     [''Control'', ''Tx_Control'', ''Rx_Control'', ''Status'', ''Interrupt_Enable'', ''TxDesc_List_Address_Hi'',
      ''TxDesc_List_Address'', ''TxDesc_Ring_Length'', ''TxDesc_Tail_Pointer'', ''RxDesc_List_Address_Hi'',
      ''RxDesc_List_Address'', ''RxDesc_Ring_Length'', ''RxDesc_Tail_Pointer'', ''Current_App_TxDesc'', ''Current_App_RxDesc'']
   = [0x0, 0x4, 0x8, 0x60, 0x34, 0x10, 0x14, 0x2C, 0x20, 0x18, 0x1C, 0x30, 0x28, 0x44, 0x4C]"
  "map (offset_of MtlQueueRegisters) [''Tx_Operation_Mode'', ''Rx_Operation_Mode'', ''Tx_Debug''] = [0x0, 0x30, 0x8]"
  "map (offset_of MacAddressRegisters) [''High'', ''Low''] = [0, 4]"
  "width MacAddressRegisters = 8"
  by (simp_all add: offset_of_def ChannelRegisters_def MtlQueueRegisters_def MacAddressRegisters_def)

lemmas reg_offset_values = mac_offsets inner_offsets [simplified] ch_offset_def mtl_offset_def addr_offset_def

section \<open>The register store and the memory window\<close>

text \<open>
  The address registers the driver may write: the feature register can announce up to 127 of them, of
  which the header names four and covers the others with padding.
\<close>

fun valid_reg :: "reg \<Rightarrow> bool" where
  "valid_reg (Mac_Address_High i) \<longleftrightarrow> unat i < 128"
| "valid_reg (Mac_Address_Low i) \<longleftrightarrow> unat i < 128"
| "valid_reg _ \<longleftrightarrow> True"

lemma reg_offset_inj:
  assumes "valid_reg r" "valid_reg s" "reg_offset r = reg_offset s"
  shows "r = s"
  using assms by (cases r; cases s) (simp_all add: reg_offset_values word_unat_eq_iff, presburger+)

lemma reg_offset_aligned: "reg_offset r mod 4 = 0"
  by (cases r) (simp_all add: reg_offset_values mod_eq_0_iff_dvd)

lemma reg_offset_inside: "valid_reg r \<Longrightarrow> reg_offset r + 4 \<le> width MacRegisters"
  by (cases r) (simp_all add: reg_offset_values mac_size)

text \<open>A word-addressed memory window that holds what the store holds.\<close>

definition agrees :: "(nat \<Rightarrow> u32) \<Rightarrow> mmio \<Rightarrow> bool" where
  "agrees win m \<longleftrightarrow> (\<forall>r. valid_reg r \<longrightarrow> win (reg_offset r) = regs m r)"

section \<open>Properties\<close>

lemma struct_sizes:
  "width ChannelRegisters = 128" "width MtlQueueRegisters = 64" "width MacL3L4Registers = 48"
  "width MacAddressRegisters = 8"
  by (simp_all add: ChannelRegisters_def MtlQueueRegisters_def MacL3L4Registers_def MacAddressRegisters_def)

text \<open>Laid out member by member, the register structs put every named register at the byte offset
  the header documents for it, and have the sizes its static assertions demand.\<close>

theorem register_offsets_documented:
  "named (offsets 0 MacRegisters) = documented_mac \<and> width MacRegisters = 0x1200
   \<and> named (offsets 0 ChannelRegisters) = documented_channel \<and> width ChannelRegisters = 128
   \<and> named (offsets 0 MtlQueueRegisters) = documented_queue \<and> width MtlQueueRegisters = 64
   \<and> named (offsets 0 MacL3L4Registers) = documented_filter \<and> width MacL3L4Registers = 48
   \<and> named (offsets 0 MacAddressRegisters) = documented_address \<and> width MacAddressRegisters = 8"
  by (intro conjI offsets_mac mac_size offsets_channel offsets_queue offsets_filter offsets_address struct_sizes)

text \<open>The registers the driver uses are distinct aligned words of the mapped window, so a typed
  register write changes that register and no other, and the store the model keeps is refined by the
  memory the device exposes.\<close>

theorem register_store_refines_window:
  assumes "agrees win m" "valid_reg r"
  shows "agrees (win(reg_offset r := v)) (Write32 r v m) \<and> Read32 r m = win (reg_offset r)
     \<and> reg_offset r mod 4 = 0 \<and> reg_offset r + 4 \<le> width MacRegisters"
proof -
  have "agrees (win(reg_offset r := v)) (Write32 r v m)"
    unfolding agrees_def
  proof (intro allI impI)
    fix s assume s: "valid_reg s"
    have w: "win (reg_offset s) = regs m s" using assms(1) s by (simp only: agrees_def)
    show "(win(reg_offset r := v)) (reg_offset s) = regs (Write32 r v m) s"
    proof (cases "s = r")
      case False
      then have "reg_offset s \<noteq> reg_offset r" using reg_offset_inj [OF assms(2) s] by metis
      then show ?thesis using False w by (simp only: regs_Write32 fun_upd_apply if_False)
    qed simp
  qed
  moreover have "Read32 r m = win (reg_offset r)" using assms by (simp only: agrees_def Read32_def)
  ultimately show ?thesis using reg_offset_aligned reg_offset_inside [OF assms(2)] by blast
qed

theorem register_store_refines_window_witness:
  "agrees ((\<lambda>a. 0)(reg_offset (Mac_Address_High 126) := 5)) (Write32 (Mac_Address_High 126) 5 \<lparr>regs = \<lambda>r. 0, wlog = []\<rparr>)"
  using register_store_refines_window [of "\<lambda>a. 0" "\<lparr>regs = \<lambda>r. 0, wlog = []\<rparr>" "Mac_Address_High 126" 5]
  by (simp add: agrees_def)

end
