(* ===== verification/NtStatus.thy ===== *)
theory NtStatus imports Prelude begin

text \<open>
  NTSTATUS values the drivers name, and the severity test \<open>NT_SUCCESS\<close>. The WDK documents which codes
  are success codes: \<open>STATUS_SUCCESS\<close>, the informational wait results \<open>STATUS_TIMEOUT\<close> and
  \<open>STATUS_PENDING\<close>; warnings (\<open>STATUS_NO_MORE_ENTRIES\<close>, \<open>STATUS_BUFFER_OVERFLOW\<close>) and errors are not.
  A status a framework call returns is \<open>STATUS_OTHER\<close> of its code.
\<close>

datatype NTSTATUS =
    STATUS_SUCCESS
  | STATUS_TIMEOUT
  | STATUS_PENDING
  | STATUS_NO_MORE_ENTRIES
  | STATUS_BUFFER_OVERFLOW
  | STATUS_BUFFER_TOO_SMALL
  | STATUS_INSUFFICIENT_RESOURCES
  | STATUS_INVALID_PARAMETER
  | STATUS_INVALID_PARAMETER_1
  | STATUS_INVALID_PARAMETER_2
  | STATUS_INVALID_PARAMETER_3
  | STATUS_INVALID_PARAMETER_4
  | STATUS_INVALID_PARAMETER_5
  | STATUS_NOT_FOUND
  | STATUS_NOT_SUPPORTED
  | STATUS_IO_TIMEOUT
  | STATUS_DEVICE_CONFIGURATION_ERROR
  | STATUS_NOT_IMPLEMENTED
  | STATUS_INVALID_DEVICE_STATE
  | STATUS_IO_DEVICE_ERROR
  | STATUS_CRC_ERROR
  | STATUS_DEVICE_DATA_ERROR
  | STATUS_DEVICE_PROTOCOL_ERROR
  | STATUS_DEVICE_POWER_FAILURE
  | STATUS_MORE_PROCESSING_REQUIRED
  | STATUS_ACPI_INVALID_ARGTYPE
  | STATUS_ACPI_INVALID_DATA
  | STATUS_ACPI_INCORRECT_ARGUMENT_COUNT
  | STATUS_OTHER u32

fun NT_SUCCESS :: "NTSTATUS \<Rightarrow> bool" where
  "NT_SUCCESS STATUS_SUCCESS = True"
| "NT_SUCCESS STATUS_TIMEOUT = True"
| "NT_SUCCESS STATUS_PENDING = True"
| "NT_SUCCESS (STATUS_OTHER c) = (c < 0x80000000)"
| "NT_SUCCESS _ = False"

end
