(* ===== verification/AcpiUtil.thy ===== *)
theory AcpiUtil imports NtStatus begin

text \<open>
  The ACPI helper library (src/drivers/shared/acpiutil.cpp): walking the arguments of evaluated
  methods, the key/value packages of a \<open>_DSD\<close>, evaluating methods with the two-attempt buffer protocol,
  and building the input of a \<open>_DSM\<close> call.

  The buffers come from the firmware, so they are memory: a byte at every address. The layout of
  \<open>ACPI_METHOD_ARGUMENT\<close> and the macros over it belong to the WDK header acpiioct.h and are a parameter,
  \<open>acpi_api\<close>; the locale \<open>acpi_layout\<close> states what the library relies on. A pointer is an address; where
  the code compares it with null it is an option.
\<close>

section \<open>Argument buffers\<close>

type_synonym memory = "nat \<Rightarrow> u8"

record acpi_api =
  ArgType :: "memory \<Rightarrow> nat \<Rightarrow> u16"
  ArgDataLength :: "memory \<Rightarrow> nat \<Rightarrow> u16"
  ArgArgument :: "memory \<Rightarrow> nat \<Rightarrow> u32"
  ArgData :: "nat \<Rightarrow> nat"
  ARGUMENT_LENGTH :: "nat \<Rightarrow> nat"
  INTEGER_ARGUMENT :: "u32 \<Rightarrow> u8 list"
  sizeof_ARGUMENT :: nat
  sizeof_OUTPUT_BUFFER :: nat
  sizeof_INPUT_BUFFER_COMPLEX :: nat
  OutSignature :: "memory \<Rightarrow> nat \<Rightarrow> u32"
  OutCount :: "memory \<Rightarrow> nat \<Rightarrow> u32"
  OutLength :: "memory \<Rightarrow> nat \<Rightarrow> u32"
  OutArgument :: "nat \<Rightarrow> nat"
  OUTPUT_ARGUMENT_LENGTH :: "memory \<Rightarrow> nat \<Rightarrow> nat"
  OUTPUT_ARGUMENTS_END :: "memory \<Rightarrow> nat \<Rightarrow> nat"
  OUTPUT_BUFFER_SIGNATURE :: u32
  INPUT_BUFFER_COMPLEX_SIGNATURE :: u32
  TYPE_INTEGER :: u16
  TYPE_STRING :: u16
  TYPE_BUFFER :: u16
  TYPE_PACKAGE :: u16
  TYPE_PACKAGE_EX :: u16
  RtlInitAnsiStringEx :: "memory \<Rightarrow> nat \<Rightarrow> NTSTATUS \<times> u8 list"

text \<open>\<open>ACPI_METHOD_NEXT_ARGUMENT\<close>.\<close>

definition next_argument :: "acpi_api \<Rightarrow> memory \<Rightarrow> nat \<Rightarrow> nat" where
  "next_argument api mem a = a + ARGUMENT_LENGTH api (unat (ArgDataLength api mem a))"

definition bytes_at :: "memory \<Rightarrow> nat \<Rightarrow> nat \<Rightarrow> u8 list" where
  "bytes_at mem a n = map (\<lambda>k. mem (a + k)) [0..<n]"

section \<open>Enumeration\<close>

text \<open>
  \<open>AcpiPackageGetNextArgument\<close> and \<open>AcpiOutputBufferGetNextArgument\<close>: the status and the value
  \<open>*ArgumentPptr\<close> has afterwards.
\<close>

definition AcpiPackageGetNextArgument ::
    "acpi_api \<Rightarrow> memory \<Rightarrow> nat \<Rightarrow> nat option \<Rightarrow> NTSTATUS \<times> nat option" where
  "AcpiPackageGetNextArgument api mem PkgPtr ArgumentPptr =
     (if unat (ArgDataLength api mem PkgPtr) < sizeof_ARGUMENT api then (STATUS_NO_MORE_ENTRIES, None)
      else case ArgumentPptr of
          None \<Rightarrow> (STATUS_SUCCESS, Some (ArgData api PkgPtr))
        | Some current \<Rightarrow>
            let currentArgumentPtr = next_argument api mem current
            in if ArgData api PkgPtr + unat (ArgDataLength api mem PkgPtr) \<le> currentArgumentPtr
               then (STATUS_NO_MORE_ENTRIES, ArgumentPptr)
               else (STATUS_SUCCESS, Some currentArgumentPtr))"

definition AcpiOutputBufferGetNextArgument ::
    "acpi_api \<Rightarrow> memory \<Rightarrow> nat \<Rightarrow> nat option \<Rightarrow> NTSTATUS \<times> nat option" where
  "AcpiOutputBufferGetNextArgument api mem OutputBufferPtr ArgumentPptr =
     (if OUTPUT_ARGUMENT_LENGTH api mem OutputBufferPtr < sizeof_ARGUMENT api then (STATUS_NO_MORE_ENTRIES, None)
      else case ArgumentPptr of
          None \<Rightarrow> (STATUS_SUCCESS, Some (OutArgument api OutputBufferPtr))
        | Some current \<Rightarrow>
            let currentArgumentPtr = next_argument api mem current
            in if OUTPUT_ARGUMENTS_END api mem OutputBufferPtr \<le> currentArgumentPtr
               then (STATUS_NO_MORE_ENTRIES, ArgumentPptr)
               else (STATUS_SUCCESS, Some currentArgumentPtr))"

section \<open>Parsing one argument\<close>

definition AcpiArgumentParseGuid :: "acpi_api \<Rightarrow> memory \<Rightarrow> nat \<Rightarrow> NTSTATUS \<times> u8 list option" where
  "AcpiArgumentParseGuid api mem ArgumentPtr =
     (if ArgType api mem ArgumentPtr \<noteq> TYPE_BUFFER api \<or> ArgDataLength api mem ArgumentPtr \<noteq> 16
      then (STATUS_ACPI_INVALID_ARGTYPE, None)
      else (STATUS_SUCCESS, Some (bytes_at mem (ArgData api ArgumentPtr) (unat (ArgDataLength api mem ArgumentPtr)))))"

definition AcpiArgumentParseInteger :: "acpi_api \<Rightarrow> memory \<Rightarrow> nat \<Rightarrow> NTSTATUS \<times> u32 option" where
  "AcpiArgumentParseInteger api mem ArgumentPtr =
     (if ArgType api mem ArgumentPtr \<noteq> TYPE_INTEGER api \<or> ArgDataLength api mem ArgumentPtr \<noteq> 4
      then (STATUS_ACPI_INVALID_ARGTYPE, None)
      else (STATUS_SUCCESS, Some (ArgArgument api mem ArgumentPtr)))"

text \<open>
  \<open>AcpiArgumentParseString\<close>: the status, what it stores to \<open>*OutLength\<close> and the bytes it copies to
  \<open>ValuePtr\<close>.
\<close>

definition AcpiArgumentParseString ::
    "acpi_api \<Rightarrow> memory \<Rightarrow> nat \<Rightarrow> u32 \<Rightarrow> NTSTATUS \<times> u32 option \<times> u8 list option" where
  "AcpiArgumentParseString api mem ArgumentPtr MaxLength =
     (if ArgType api mem ArgumentPtr \<noteq> TYPE_STRING api then (STATUS_ACPI_INVALID_ARGTYPE, None, None)
      else let len = ucast (ArgDataLength api mem ArgumentPtr) :: u32
           in if MaxLength < len then (STATUS_BUFFER_TOO_SMALL, Some len, None)
              else (STATUS_SUCCESS, Some len, Some (bytes_at mem (ArgData api ArgumentPtr) (unat len))))"

section \<open>Device properties\<close>

text \<open>
  One key/value entry of a properties package: \<open>Inr ()\<close> when the entry is well formed and has another
  key (the code's \<open>continue\<close>), otherwise what the query returns.
\<close>

definition acpi_entry :: "acpi_api \<Rightarrow> memory \<Rightarrow> u8 list \<Rightarrow> nat \<Rightarrow> NTSTATUS \<times> nat option + unit" where
  "acpi_entry api mem keyNameStr currentListEntryPtr =
     (if ArgType api mem currentListEntryPtr \<noteq> TYPE_PACKAGE api then Inl (STATUS_ACPI_INVALID_ARGTYPE, None)
      else case AcpiPackageGetNextArgument api mem currentListEntryPtr None of
        (STATUS_SUCCESS, Some key) \<Rightarrow>
          (if ArgType api mem key \<noteq> TYPE_STRING api then Inl (STATUS_ACPI_INVALID_DATA, None)
           else if snd (RtlInitAnsiStringEx api mem (ArgData api key)) \<noteq> keyNameStr then Inr ()
           else case AcpiPackageGetNextArgument api mem currentListEntryPtr (Some key) of
               (STATUS_SUCCESS, value) \<Rightarrow> Inl (STATUS_SUCCESS, value)
             | _ \<Rightarrow> Inl (STATUS_ACPI_INCORRECT_ARGUMENT_COUNT, None))
      | _ \<Rightarrow> Inl (STATUS_ACPI_INCORRECT_ARGUMENT_COUNT, None))"

partial_function (option) acpi_find ::
    "acpi_api \<Rightarrow> memory \<Rightarrow> nat \<Rightarrow> u8 list \<Rightarrow> nat option \<Rightarrow> (NTSTATUS \<times> nat option) option" where
  "acpi_find api mem pkg keyNameStr currentListEntryPtr =
     (case AcpiPackageGetNextArgument api mem pkg currentListEntryPtr of
        (STATUS_SUCCESS, Some entry) \<Rightarrow>
          (case acpi_entry api mem keyNameStr entry of
             Inl r \<Rightarrow> Some r
           | Inr _ \<Rightarrow> acpi_find api mem pkg keyNameStr (Some entry))
      | _ \<Rightarrow> Some (STATUS_NOT_FOUND, None))"

text \<open>
  \<open>AcpiDevicePropertiesQueryValue\<close>; \<open>hasValuePtr\<close> says whether the caller gave a place for the result.
\<close>

definition AcpiDevicePropertiesQueryValue ::
    "acpi_api \<Rightarrow> memory \<Rightarrow> nat option \<Rightarrow> nat option \<Rightarrow> bool \<Rightarrow> (NTSTATUS \<times> nat option) option" where
  "AcpiDevicePropertiesQueryValue api mem DevicePropertiesPkgPtr KeyNamePtr hasValuePtr =
     (case DevicePropertiesPkgPtr of None \<Rightarrow> Some (STATUS_INVALID_PARAMETER_1, None)
      | Some pkg \<Rightarrow> (case KeyNamePtr of None \<Rightarrow> Some (STATUS_INVALID_PARAMETER_2, None)
        | Some keyName \<Rightarrow>
            if \<not> hasValuePtr then Some (STATUS_INVALID_PARAMETER_3, None)
            else if ArgType api mem pkg \<noteq> TYPE_PACKAGE api then Some (STATUS_ACPI_INVALID_ARGTYPE, None)
            else case RtlInitAnsiStringEx api mem keyName of (status, keyNameStr) \<Rightarrow>
              if \<not> NT_SUCCESS status then Some (status, None)
              else acpi_find api mem pkg keyNameStr None))"

definition AcpiDevicePropertiesQueryIntegerValue ::
    "acpi_api \<Rightarrow> memory \<Rightarrow> nat option \<Rightarrow> nat option \<Rightarrow> bool \<Rightarrow> (NTSTATUS \<times> u32 option) option" where
  "AcpiDevicePropertiesQueryIntegerValue api mem DevicePropertiesPkgPtr KeyNamePtr hasValuePtr =
     (case DevicePropertiesPkgPtr of None \<Rightarrow> Some (STATUS_INVALID_PARAMETER_1, None)
      | Some pkg \<Rightarrow>
          if KeyNamePtr = None then Some (STATUS_INVALID_PARAMETER_2, None)
          else if \<not> hasValuePtr then Some (STATUS_INVALID_PARAMETER_3, None)
          else if ArgType api mem pkg \<noteq> TYPE_PACKAGE api then Some (STATUS_ACPI_INVALID_ARGTYPE, None)
          else map_option (\<lambda>r. case r of
              (status, Some value) \<Rightarrow>
                if NT_SUCCESS status then AcpiArgumentParseInteger api mem value else (status, None)
            | (status, None) \<Rightarrow> (status, None))
            (AcpiDevicePropertiesQueryValue api mem DevicePropertiesPkgPtr KeyNamePtr True))"

definition AcpiDevicePropertiesQueryStringValue ::
    "acpi_api \<Rightarrow> memory \<Rightarrow> nat option \<Rightarrow> nat option \<Rightarrow> u32 \<Rightarrow> bool \<Rightarrow> bool
       \<Rightarrow> (NTSTATUS \<times> u32 option \<times> u8 list option) option" where
  "AcpiDevicePropertiesQueryStringValue api mem DevicePropertiesPkgPtr KeyNamePtr MaxLength hasOutLength hasValuePtr =
     (case DevicePropertiesPkgPtr of None \<Rightarrow> Some (STATUS_INVALID_PARAMETER_1, None, None)
      | Some pkg \<Rightarrow>
          if KeyNamePtr = None then Some (STATUS_INVALID_PARAMETER_2, None, None)
          else if \<not> hasOutLength then Some (STATUS_INVALID_PARAMETER_4, None, None)
          else if \<not> hasValuePtr then Some (STATUS_INVALID_PARAMETER_5, None, None)
          else if ArgType api mem pkg \<noteq> TYPE_PACKAGE api then Some (STATUS_ACPI_INVALID_ARGTYPE, None, None)
          else map_option (\<lambda>r. case r of
              (status, Some value) \<Rightarrow>
                if NT_SUCCESS status then AcpiArgumentParseString api mem value MaxLength else (status, None, None)
            | (status, None) \<Rightarrow> (status, None, None))
            (AcpiDevicePropertiesQueryValue api mem DevicePropertiesPkgPtr KeyNamePtr True))"

text \<open>
  \<open>AcpiDevicePropertiesQueryIntegerValueArray\<close>: reads \<open>Count\<close> integers of the next row of a list of
  packages. The results are the status, the values stored so far, and the new value of
  \<open>*currentEntryNextPtr\<close> (\<open>None\<close> where it is not assigned; the argument is \<open>None\<close> for a null pointer).
\<close>

fun acpi_row :: "acpi_api \<Rightarrow> memory \<Rightarrow> nat \<Rightarrow> nat \<Rightarrow> nat option \<Rightarrow> u32 list \<Rightarrow> NTSTATUS \<times> u32 list \<times> nat option" where
  "acpi_row api mem row 0 entry vs = (STATUS_SUCCESS, vs, entry)"
| "acpi_row api mem row (Suc n) entry vs =
     (case AcpiPackageGetNextArgument api mem row entry of
        (STATUS_SUCCESS, Some a) \<Rightarrow>
          (if ArgType api mem a \<noteq> TYPE_INTEGER api then (STATUS_ACPI_INVALID_DATA, vs, Some a)
           else case AcpiArgumentParseInteger api mem a of
               (status, Some v) \<Rightarrow> acpi_row api mem row n (Some a) (vs @ [v])
             | (status, None) \<Rightarrow> (status, vs, Some a))
      | (_, a) \<Rightarrow> (STATUS_ACPI_INCORRECT_ARGUMENT_COUNT, vs, a))"

definition AcpiDevicePropertiesQueryIntegerValueArray ::
    "acpi_api \<Rightarrow> memory \<Rightarrow> nat option \<Rightarrow> bool \<Rightarrow> u32 \<Rightarrow> nat option option \<Rightarrow> NTSTATUS \<times> u32 list \<times> nat option" where
  "AcpiDevicePropertiesQueryIntegerValueArray api mem ListEntryPtr hasValuePtr Count currentEntryNextPtr =
     (case ListEntryPtr of None \<Rightarrow> (STATUS_INVALID_PARAMETER_1, [], None)
      | Some l \<Rightarrow>
          if \<not> hasValuePtr then (STATUS_INVALID_PARAMETER_2, [], None)
          else if Count \<le> 0 then (STATUS_INVALID_PARAMETER_3, [], None)
          else let current = (case currentEntryNextPtr of Some e \<Rightarrow> e | None \<Rightarrow> None)
               in case AcpiPackageGetNextArgument api mem l current of
                    (STATUS_SUCCESS, Some row) \<Rightarrow>
                      (if ArgType api mem row \<noteq> TYPE_PACKAGE api then (STATUS_ACPI_INVALID_ARGTYPE, [], None)
                       else case acpi_row api mem row (unat Count) None [] of (status, vs, entry) \<Rightarrow>
                         (status, vs, if status = STATUS_SUCCESS \<and> currentEntryNextPtr \<noteq> None then entry else None))
                  | _ \<Rightarrow> (STATUS_NOT_FOUND, [], None))"

text \<open>
  \<open>AcpiDevicePropertiesQueryIntegerArrayValue\<close>: the first argument inside the value gives the length
  that is compared with \<open>Length\<close>, and as many arguments are copied.
\<close>

fun acpi_copy :: "acpi_api \<Rightarrow> memory \<Rightarrow> nat \<Rightarrow> nat \<Rightarrow> u32 list" where
  "acpi_copy api mem a 0 = []"
| "acpi_copy api mem a (Suc n) = ArgArgument api mem a # acpi_copy api mem (next_argument api mem a) n"

definition AcpiDevicePropertiesQueryIntegerArrayValue ::
    "acpi_api \<Rightarrow> memory \<Rightarrow> nat option \<Rightarrow> nat option \<Rightarrow> bool \<Rightarrow> u32 \<Rightarrow> (NTSTATUS \<times> u32 list) option" where
  "AcpiDevicePropertiesQueryIntegerArrayValue api mem DevicePropertiesPkgPtr KeyNamePtr hasBufferPtr Length =
     (case DevicePropertiesPkgPtr of None \<Rightarrow> Some (STATUS_INVALID_PARAMETER_1, [])
      | Some pkg \<Rightarrow>
          if KeyNamePtr = None then Some (STATUS_INVALID_PARAMETER_2, [])
          else if \<not> hasBufferPtr then Some (STATUS_INVALID_PARAMETER_3, [])
          else if Length = 0 then Some (STATUS_INVALID_PARAMETER_4, [])
          else if ArgType api mem pkg \<noteq> TYPE_PACKAGE api then Some (STATUS_ACPI_INVALID_ARGTYPE, [])
          else map_option (\<lambda>r. case r of
              (status, Some value) \<Rightarrow>
                if \<not> NT_SUCCESS status then (status, [])
                else let first = ArgData api value;
                         dataLength = ArgDataLength api mem first
                     in if ucast dataLength \<noteq> Length then (STATUS_ACPI_INCORRECT_ARGUMENT_COUNT, [])
                        else (STATUS_SUCCESS, acpi_copy api mem first (unat dataLength))
            | (status, None) \<Rightarrow> (status, []))
            (AcpiDevicePropertiesQueryValue api mem DevicePropertiesPkgPtr KeyNamePtr True))"

section \<open>The _DSD properties package\<close>

text \<open>\<open>ACPI_DEVICE_PROPERTIES_DSD_GUID\<close>, as the bytes of a GUID in memory.\<close>

definition ACPI_DEVICE_PROPERTIES_DSD_GUID :: "u8 list" where
  "ACPI_DEVICE_PROPERTIES_DSD_GUID =
     [0x14, 0xD8, 0xFF, 0xDA, 0xBA, 0x6E, 0x8D, 0x4C, 0x8A, 0x91, 0xBC, 0x9B, 0xBF, 0x4A, 0xA3, 0x01]"

definition AcpiParseDsdAsDeviceProperties ::
    "acpi_api \<Rightarrow> memory \<Rightarrow> nat option \<Rightarrow> bool \<Rightarrow> NTSTATUS \<times> nat option" where
  "AcpiParseDsdAsDeviceProperties api mem DsdBufferPtr hasPkgPptr =
     (case DsdBufferPtr of None \<Rightarrow> (STATUS_INVALID_PARAMETER_1, None)
      | Some dsd \<Rightarrow>
          if \<not> hasPkgPptr then (STATUS_INVALID_PARAMETER_2, None)
          else if OutCount api mem dsd \<noteq> 2 then (STATUS_ACPI_INCORRECT_ARGUMENT_COUNT, None)
          else case AcpiOutputBufferGetNextArgument api mem dsd None of
              (STATUS_SUCCESS, Some a) \<Rightarrow>
                (case AcpiArgumentParseGuid api mem a of
                   (status, None) \<Rightarrow> (status, None)
                 | (status, Some guid) \<Rightarrow>
                     if guid \<noteq> ACPI_DEVICE_PROPERTIES_DSD_GUID then (STATUS_ACPI_INVALID_DATA, None)
                     else case AcpiOutputBufferGetNextArgument api mem dsd (Some a) of
                         (STATUS_SUCCESS, Some pkg) \<Rightarrow>
                           (if ArgType api mem pkg \<noteq> TYPE_PACKAGE api then (STATUS_ACPI_INVALID_ARGTYPE, None)
                            else (STATUS_SUCCESS, Some pkg))
                       | (status, _) \<Rightarrow> (status, None))
            | (status, _) \<Rightarrow> (status, None))"

end
