(* ===== verification/AcpiEvaluate.thy ===== *)
theory AcpiEvaluate imports AcpiUtil begin

text \<open>
  Evaluating ACPI methods (src/drivers/shared/acpiutil.cpp): sending the control request, the
  two-attempt protocol for an output buffer of unknown size, and the \<open>_DSD\<close> and \<open>_DSM\<close> calls built on it.

  What the kernel provides is a parameter: \<open>allocates k\<close> says whether the k-th pool allocation succeeds,
  \<open>driver k input outputSize\<close> is the outcome of the k-th request sent to the ACPI driver. The state
  records which allocations are live, so that leaks and double frees are visible.
\<close>

section \<open>Requests\<close>

text \<open>
  The input of a \<open>_DSM\<close> call. An argument is its type, its \<open>DataLength\<close> and its data bytes; integers
  are stored little-endian.
\<close>

record ACPI_EVAL_INPUT_BUFFER_COMPLEX =
  inSignature :: u32
  inMethodName :: u32
  inSize :: u32
  inArgumentCount :: u32
  inArguments :: "(u16 \<times> u16 \<times> u8 list) list"

definition ACPI_METHOD_ULONG_DSM :: u32 where "ACPI_METHOD_ULONG_DSM = 0x4D53445F"
definition ACPI_METHOD_ULONG_DSD :: u32 where "ACPI_METHOD_ULONG_DSD = 0x4453445F"

text \<open>The input of a method evaluation: a method name alone, or a complex buffer with arguments.\<close>

datatype acpi_input = SimpleInput u32 | ComplexInput ACPI_EVAL_INPUT_BUFFER_COMPLEX

section \<open>Kernel state\<close>

record kernel =
  live :: "nat list"
  allocations :: nat
  requests :: nat
  badFree :: bool

record reply =
  replyStatus :: NTSTATUS
  replyInformation :: nat
  replyBytes :: "u8 list"

record platform =
  acpi :: acpi_api
  allocates :: "nat \<Rightarrow> bool"
  driver :: "nat \<Rightarrow> acpi_input \<times> nat \<Rightarrow> nat \<Rightarrow> reply"

definition allocate :: "platform \<Rightarrow> kernel \<Rightarrow> nat option \<times> kernel" where
  "allocate pf k =
     (if allocates pf (allocations k)
      then (Some (allocations k), k\<lparr>live := allocations k # live k, allocations := Suc (allocations k)\<rparr>)
      else (None, k\<lparr>allocations := Suc (allocations k)\<rparr>))"

definition release :: "nat \<Rightarrow> kernel \<Rightarrow> kernel" where
  "release b k = (if b \<in> set (live k) then k\<lparr>live := remove1 b (live k)\<rparr> else k\<lparr>badFree := True\<rparr>)"

fun release_opt :: "nat option \<Rightarrow> kernel \<Rightarrow> kernel" where
  "release_opt None k = k"
| "release_opt (Some b) k = release b k"

text \<open>A buffer seen as memory.\<close>

definition as_memory :: "u8 list \<Rightarrow> memory" where
  "as_memory bs a = (if a < length bs then bs ! a else 0)"

section \<open>AcpiSendIoctlSynchronously\<close>

text \<open>
  The result is the status, the output buffer's bytes afterwards and the number of bytes returned, which
  is not assigned on the error paths.
\<close>

definition AcpiSendIoctlSynchronously ::
    "platform \<Rightarrow> acpi_input \<times> nat \<Rightarrow> u8 list \<Rightarrow> kernel \<Rightarrow> (NTSTATUS \<times> u8 list \<times> nat option) \<times> kernel" where
  "AcpiSendIoctlSynchronously pf InputBuffer output k =
     (case allocate pf k of
        (None, k) \<Rightarrow> ((STATUS_INSUFFICIENT_RESOURCES, output, None), k)
      | (Some irp, k) \<Rightarrow> (case allocate pf k of
          (None, k) \<Rightarrow> ((STATUS_INSUFFICIENT_RESOURCES, output, None), release irp k)
        | (Some intermediate, k) \<Rightarrow>
            let r = driver pf (requests k) InputBuffer (length output);
                k = release intermediate (release irp (k\<lparr>requests := Suc (requests k)\<rparr>));
                status = replyStatus r;
                output' = (if NT_SUCCESS status \<or> status = STATUS_BUFFER_OVERFLOW \<or> status = STATUS_BUFFER_TOO_SMALL
                           then take (replyInformation r) (replyBytes r) @ drop (replyInformation r) output
                           else output)
            in if \<not> NT_SUCCESS status then ((status, output', None), k)
               else if OutSignature (acpi pf) (as_memory output') 0 \<noteq> OUTPUT_BUFFER_SIGNATURE (acpi pf)
                  \<or> OutCount (acpi pf) (as_memory output') 0 = 0
               then ((STATUS_ACPI_INVALID_DATA, output', None), k)
               else ((status, output', Some (replyInformation r)), k)))"

section \<open>AcpiEvaluateMethod\<close>

text \<open>
  A buffer handed to the caller is its allocation with its contents. \<open>retries\<close> counts down from 2 as in
  the code; the last component says what \<open>*ReturnBufferPptr\<close> is set to, if it is set.
\<close>

type_synonym buffer = "nat \<times> u8 list"

fun acpi_attempts ::
    "platform \<Rightarrow> acpi_input \<times> nat \<Rightarrow> nat \<Rightarrow> nat \<Rightarrow> kernel
       \<Rightarrow> (NTSTATUS \<times> buffer option \<times> nat option) \<times> kernel" where
  "acpi_attempts pf InputBuffer outputBufferSize 0 k = ((STATUS_BUFFER_OVERFLOW, None, None), k)"
| "acpi_attempts pf InputBuffer outputBufferSize (Suc retries) k =
     (case allocate pf k of
        (None, k) \<Rightarrow> ((STATUS_INSUFFICIENT_RESOURCES, None, None), k)
      | (Some out, k) \<Rightarrow>
          (case AcpiSendIoctlSynchronously pf InputBuffer (replicate outputBufferSize 0) k of
             ((status, bytes, sizeReturned), k) \<Rightarrow>
               if status = STATUS_BUFFER_OVERFLOW
               then acpi_attempts pf InputBuffer (unat (OutLength (acpi pf) (as_memory bytes) 0)) retries (release out k)
               else ((status, Some (out, bytes), sizeReturned), k)))"

definition AcpiEvaluateMethod ::
    "platform \<Rightarrow> acpi_input \<times> nat \<Rightarrow> kernel \<Rightarrow> (NTSTATUS \<times> buffer option option) \<times> kernel" where
  "AcpiEvaluateMethod pf InputBuffer k =
     (case acpi_attempts pf InputBuffer (sizeof_OUTPUT_BUFFER (acpi pf)) 2 k of
        ((status, outputBuffer, sizeReturned), k) \<Rightarrow>
          if NT_SUCCESS status
          then ((status, Some (if 0 < the sizeReturned then outputBuffer else None)), k)
          else ((status, None), release_opt (map_option fst outputBuffer) k))"

section \<open>_DSD and _DSM\<close>

definition AcpiQueryDsd :: "platform \<Rightarrow> nat \<Rightarrow> bool \<Rightarrow> bool \<Rightarrow> kernel \<Rightarrow> (NTSTATUS \<times> buffer option option) \<times> kernel" where
  "AcpiQueryDsd pf sizeofInputBuffer hasPdoPtr hasDsdBufferPptr k =
     (if \<not> hasPdoPtr then ((STATUS_INVALID_PARAMETER_1, None), k)
      else if \<not> hasDsdBufferPptr then ((STATUS_INVALID_PARAMETER_2, None), k)
      else case AcpiEvaluateMethod pf (SimpleInput ACPI_METHOD_ULONG_DSD, sizeofInputBuffer) k of
          ((status, dsd), k) \<Rightarrow> if \<not> NT_SUCCESS status then ((status, None), k) else ((STATUS_SUCCESS, dsd), k))"

definition ACPI_DSM_ARGUMENT_COUNT :: nat where "ACPI_DSM_ARGUMENT_COUNT = 4"
definition ACPI_DSM_FUNCTION_IDX_QUERY :: u32 where "ACPI_DSM_FUNCTION_IDX_QUERY = 0"

definition ulong_bytes :: "u32 \<Rightarrow> u8 list" where
  "ulong_bytes v = map (\<lambda>i. ucast (drop_bit (8 * i) v)) [0..<4]"

text \<open>The size the code allocates for a call with \<open>argsSize\<close> bytes of function arguments.\<close>

definition dsm_input_size :: "acpi_api \<Rightarrow> u16 \<Rightarrow> nat" where
  "dsm_input_size api argsSize =
     (sizeof_INPUT_BUFFER_COMPLEX api - sizeof_ARGUMENT api)
     + (sizeof_ARGUMENT api - 4 + 16)
     + sizeof_ARGUMENT api * (ACPI_DSM_ARGUMENT_COUNT - 1)
     + (if 4 < unat argsSize then unat argsSize - 4 else 0)"

definition dsm_input :: "acpi_api \<Rightarrow> u8 list \<Rightarrow> u32 \<Rightarrow> u32 \<Rightarrow> u8 list option \<Rightarrow> u16 \<Rightarrow> ACPI_EVAL_INPUT_BUFFER_COMPLEX" where
  "dsm_input api guid RevisionId FunctionIdx args argsSize =
     \<lparr>inSignature = INPUT_BUFFER_COMPLEX_SIGNATURE api,
      inMethodName = ACPI_METHOD_ULONG_DSM,
      inSize = of_nat (dsm_input_size api argsSize),
      inArgumentCount = of_nat ACPI_DSM_ARGUMENT_COUNT,
      inArguments =
        [(TYPE_BUFFER api, 16, guid),
         (TYPE_INTEGER api, 4, ulong_bytes RevisionId),
         (TYPE_INTEGER api, 4, ulong_bytes FunctionIdx),
         (TYPE_PACKAGE_EX api, argsSize,
           case args of Some bs \<Rightarrow> take (unat argsSize) bs | None \<Rightarrow> replicate (unat argsSize) 0)]\<rparr>"

text \<open>Where the first \<open>n\<close> arguments end, measured with \<open>ACPI_METHOD_NEXT_ARGUMENT\<close> from the buffer's start.\<close>

definition dsm_end :: "acpi_api \<Rightarrow> ACPI_EVAL_INPUT_BUFFER_COMPLEX \<Rightarrow> nat" where
  "dsm_end api b = (sizeof_INPUT_BUFFER_COMPLEX api - sizeof_ARGUMENT api)
     + sum_list (map (\<lambda>(t, len, bs). ARGUMENT_LENGTH api (unat len)) (inArguments b))"

definition AcpiFormatDsmFunctionInputBuffer ::
    "platform \<Rightarrow> u8 list \<Rightarrow> u32 \<Rightarrow> u32 \<Rightarrow> u8 list option \<Rightarrow> u16 \<Rightarrow> kernel
       \<Rightarrow> (NTSTATUS \<times> (nat \<times> ACPI_EVAL_INPUT_BUFFER_COMPLEX \<times> nat) option) \<times> kernel" where
  "AcpiFormatDsmFunctionInputBuffer pf guid RevisionId FunctionIdx args argsSize k =
     (case allocate pf k of
        (None, k) \<Rightarrow> ((STATUS_INSUFFICIENT_RESOURCES, None), k)
      | (Some input, k) \<Rightarrow>
          ((STATUS_SUCCESS, Some (input, dsm_input (acpi pf) guid RevisionId FunctionIdx args argsSize,
              dsm_input_size (acpi pf) argsSize)), k))"

text \<open>\<open>hasReturn\<close> says whether the caller gave \<open>ReturnBufferPptr\<close>.\<close>

definition AcpiExecuteDsmFunction ::
    "platform \<Rightarrow> bool \<Rightarrow> u8 list option \<Rightarrow> u32 \<Rightarrow> u32 \<Rightarrow> u8 list option \<Rightarrow> u16 \<Rightarrow> bool \<Rightarrow> kernel
       \<Rightarrow> (NTSTATUS \<times> buffer option option) \<times> kernel" where
  "AcpiExecuteDsmFunction pf hasPdoPtr GuidPtr RevisionId FunctionIdx args argsSize hasReturn k =
     (if \<not> hasPdoPtr then ((STATUS_INVALID_PARAMETER_1, None), k)
      else case GuidPtr of
        None \<Rightarrow> ((STATUS_INVALID_PARAMETER_2, None), k)
      | Some guid \<Rightarrow>
          (case AcpiFormatDsmFunctionInputBuffer pf guid RevisionId FunctionIdx args argsSize k of
             ((status, None), k) \<Rightarrow> ((status, None), k)
           | ((_, Some (input, contents, inputBufferSize)), k) \<Rightarrow>
               (case AcpiEvaluateMethod pf (ComplexInput contents, inputBufferSize) k of
                  ((status, output), k) \<Rightarrow>
                    if \<not> NT_SUCCESS status then ((status, None), release input k)
                    else if hasReturn then ((status, output), release input k)
                    else ((status, None), release_opt (map_option fst (Option.bind output id)) (release input k)))))"

text \<open>
  \<open>AcpiQueryDsm\<close>: the mask of supported functions, read from a buffer of 1, 2 or 4 bytes.
\<close>

definition little_endian :: "u8 list \<Rightarrow> u32" where
  "little_endian bs = foldr (\<lambda>b v. ucast b OR push_bit 8 v) bs 0"

definition AcpiQueryDsm ::
    "platform \<Rightarrow> bool \<Rightarrow> u8 list option \<Rightarrow> u32 \<Rightarrow> bool \<Rightarrow> kernel \<Rightarrow> (NTSTATUS \<times> u32 option) \<times> kernel" where
  "AcpiQueryDsm pf hasPdoPtr GuidPtr RevisionId hasMaskPtr k =
     (if \<not> hasPdoPtr then ((STATUS_INVALID_PARAMETER_1, None), k)
      else if GuidPtr = None then ((STATUS_INVALID_PARAMETER_2, None), k)
      else if \<not> hasMaskPtr then ((STATUS_INVALID_PARAMETER_4, None), k)
      else case AcpiExecuteDsmFunction pf hasPdoPtr GuidPtr RevisionId ACPI_DSM_FUNCTION_IDX_QUERY None 0 True k of
        ((status, output), k) \<Rightarrow>
          (if \<not> NT_SUCCESS status then ((status, None), k)
           else case output of
             Some (Some (b, bytes)) \<Rightarrow>
               (let api = acpi pf; mem = as_memory bytes; a = OutArgument api 0
                in if unat (OutLength api mem 0) < sizeof_OUTPUT_BUFFER api \<or> OutCount api mem 0 = 0
                     \<or> ArgType api mem a \<noteq> TYPE_BUFFER api
                   then ((STATUS_ACPI_INVALID_DATA, None), release b k)
                   else if ArgDataLength api mem a \<in> {1, 2, 4}
                   then ((status, Some (little_endian (bytes_at mem (ArgData api a) (unat (ArgDataLength api mem a))))), release b k)
                   else ((STATUS_ACPI_INVALID_DATA, None), release b k))
           | _ \<Rightarrow> ((STATUS_ACPI_INVALID_DATA, None), k)))"

section \<open>Property names\<close>

text \<open>
  A property name is a string literal of the driver, outside the firmware's buffer: the memory of a query
  is the buffer followed by the name and zeros.
\<close>

definition ascii :: "string \<Rightarrow> u8 list" where
  "ascii s = map of_char s"

definition query_memory :: "u8 list \<Rightarrow> string \<Rightarrow> memory" where
  "query_memory bytes name = as_memory (bytes @ ascii name)"

end
