(* ===== verification/EqosDevice.thy ===== *)
theory EqosDevice imports EqosInterrupts EqosRegisterMap AcpiEvaluate begin

text \<open>
  The Ethernet device apart from its queues and its interrupt path (src/drivers/net/dwc_eqos/device.cpp):
  MAC addresses, software reset, link state, receive filter, and entering and leaving the working power
  state.
\<close>

section \<open>State\<close>

text \<open>\<open>DeviceConfig\<close> of device.h.\<close>

record DeviceConfig =
  pblX8 :: bool
  pbl :: u8
  cfgTxPbl :: u8
  cfgRxPbl :: u8
  fixed_burst :: bool
  mixed_burst :: bool
  wr_osr_lmt :: u8
  rd_osr_lmt :: u8
  blen :: u8
  txFlowControl :: bool
  rxFlowControl :: bool
  jumboFrame :: u16
  cfgVlanId :: u16

text \<open>What the driver reports to the network stack about the link.\<close>

record link_state =
  linkSpeed :: u64
  linkConnected :: bool
  linkFullDuplex :: bool

text \<open>
  The rest of \<open>DeviceContext\<close>; \<open>irq\<close> holds the fields of the interrupt path (theory EqosInterrupts),
  \<open>pool\<close> is the kernel state the ACPI calls change, \<open>link\<close> the last link state reported.
\<close>

record EqosDevice =
  irq :: DeviceContext
  pool :: kernel
  feature0 :: u32
  feature1 :: u32
  permanentMacAddress :: "u8 list"
  currentMacAddress :: "u8 list"
  config :: DeviceConfig
  updateLinkStateBusy :: bool
  link :: "link_state option"
  rxOwnDescriptors :: u32
  rxDoneFragments :: u32
  txDoneFragments :: u32

definition set_regs :: "mmio \<Rightarrow> EqosDevice \<Rightarrow> EqosDevice" where
  "set_regs m d = d\<lparr>irq := (irq d)\<lparr>mregs := m\<rparr>\<rparr>"

section \<open>MAC addresses and reset\<close>

definition mac_low :: "u8 list \<Rightarrow> u32" where
  "mac_low addr = putfs MacAddressLow_t
     [(''Addr0'', ucast (addr ! 0)), (''Addr1'', ucast (addr ! 1)), (''Addr2'', ucast (addr ! 2)), (''Addr3'', ucast (addr ! 3))] 0"

definition mac_high :: "u8 list \<Rightarrow> bool \<Rightarrow> u32" where
  "mac_high addr enable = putfs MacAddressHigh_t
     [(''Addr4'', ucast (addr ! 4)), (''Addr5'', ucast (addr ! 5)), (''AddressEnable'', flag enable)] 0"

definition SetOneMacAddress :: "u32 \<Rightarrow> u8 list \<Rightarrow> bool \<Rightarrow> mmio \<Rightarrow> mmio" where
  "SetOneMacAddress index addr enable m =
     Write32 (Mac_Address_Low index) (mac_low addr)
       (Write32 (Mac_Address_High index) (mac_high addr enable) m)"

text \<open>The address in register pair \<open>index\<close>, as \<open>DevicePrepareHardware\<close> reads it for index 0.\<close>

definition read_mac_address :: "u32 \<Rightarrow> mmio \<Rightarrow> u8 list" where
  "read_mac_address index m =
     (let hi = Read32 (Mac_Address_High index) m; lo = Read32 (Mac_Address_Low index) m
      in [ucast (getf MacAddressLow_t ''Addr0'' lo), ucast (getf MacAddressLow_t ''Addr1'' lo),
          ucast (getf MacAddressLow_t ''Addr2'' lo), ucast (getf MacAddressLow_t ''Addr3'' lo),
          ucast (getf MacAddressHigh_t ''Addr4'' hi), ucast (getf MacAddressHigh_t ''Addr5'' hi)])"

text \<open>
  The polling loop of \<open>DeviceReset\<close>: \<open>dmaMode k\<close> is what the k-th read of \<open>Dma_Mode\<close> returns. The counter
  is compared with 1000 and goes down from 0, as in the code. The result is the number of the poll that
  saw the reset bit clear.
\<close>

function reset_poll :: "(nat \<Rightarrow> u32) \<Rightarrow> nat \<Rightarrow> u32 \<Rightarrow> nat option" where
  "reset_poll dmaMode k retry =
     (if retry = 1000 then None
      else if dmaMode k AND 1 = 0 then Some k
      else reset_poll dmaMode (Suc k) (retry - 1))"
  by pat_completeness auto

termination
proof (relation "measure (\<lambda>(dmaMode, k, retry). unat (retry - 1000))")
  fix k and retry :: u32
  assume "retry \<noteq> 1000"
  then have "retry - 1000 \<noteq> 0" by simp
  then have "unat (retry - 1000 - 1) < unat (retry - 1000)"
    by (metis measure_unat)
  moreover have "retry - 1 - 1000 = retry - 1000 - 1" by simp
  ultimately have "unat (retry - 1 - 1000) < unat (retry - 1000)" by simp
  then show "((dmaMode, Suc k, retry - 1), dmaMode, k, retry) \<in> measure (\<lambda>(dmaMode, k, retry). unat (retry - 1000))"
    for dmaMode :: "nat \<Rightarrow> u32" by simp
qed simp

declare reset_poll.simps [simp del]

definition DeviceReset :: "(nat \<Rightarrow> u32) \<Rightarrow> u8 list \<Rightarrow> mmio \<Rightarrow> NTSTATUS \<times> mmio" where
  "DeviceReset dmaMode mac0 m0 =
     (let m = Write32 Dma_Mode 1 m0
      in case reset_poll dmaMode 0 0 of
           Some k \<Rightarrow> (STATUS_SUCCESS, SetOneMacAddress 0 mac0 True m)
         | None \<Rightarrow> (STATUS_TIMEOUT, m))"

section \<open>Link state\<close>

definition DsmGuid :: "u8 list" where
  "DsmGuid = [0x8D, 0x82, 0x37, 0xD6, 0x6C, 0x55, 0x29, 0x48, 0x96, 0x6A, 0x23, 0x70, 0x72, 0xF0, 0x0F, 0xF1]"

definition DsmSetTxClockRevision :: u32 where "DsmSetTxClockRevision = 0"
definition DsmSetTxClockIndex :: u32 where "DsmSetTxClockIndex = 1"

text \<open>Speed, clock argument and \<open>PortSelectSpeed\<close> for a \<open>Speed\<close> the PHY reports.\<close>

definition link_speed :: "u32 \<Rightarrow> u64 \<times> u32 \<times> u32 option" where
  "link_speed speed =
     (if speed = 0 then (10000000, 10, Some 2)
      else if speed = 1 then (100000000, 100, Some 3)
      else if speed = 2 then (1000000000, 1000, Some 0)
      else (0, 1000, None))"

definition link_config :: "u32 \<Rightarrow> u32 \<Rightarrow> u32" where
  "link_config controlStatus oldConfig =
     (let c = putf MacConfiguration_t ''FullDuplex'' (getf MacPhyIfControlStatus_t ''FullDuplex'' controlStatus) oldConfig
      in case link_speed (getf MacPhyIfControlStatus_t ''Speed'' controlStatus) of
           (speed, clockVal, Some ps) \<Rightarrow> putf MacConfiguration_t ''PortSelectSpeed'' ps c
         | (speed, clockVal, None) \<Rightarrow> c)"

text \<open>
  \<open>UpdateLinkState\<close>; \<open>controlStatus\<close> is what \<open>Mac_PhyIf_Control_Status\<close> reads as. Reading it clears the
  \<open>LinkStatus\<close> interrupt.
\<close>

definition UpdateLinkState :: "platform \<Rightarrow> u32 \<Rightarrow> EqosDevice \<Rightarrow> EqosDevice" where
  "UpdateLinkState pf controlStatus d =
     (let m = mregs (irq d);
          oldConfig = Read32 Mac_Configuration m;
          newConfig = link_config controlStatus oldConfig
      in case link_speed (getf MacPhyIfControlStatus_t ''Speed'' controlStatus) of (speed, clockVal, ps) \<Rightarrow>
         (case AcpiExecuteDsmFunction pf True (Some DsmGuid) DsmSetTxClockRevision DsmSetTxClockIndex
               (Some (INTEGER_ARGUMENT (acpi pf) clockVal)) (of_nat (sizeof_ARGUMENT (acpi pf))) True (pool d) of
            ((status, returnBuffer), k) \<Rightarrow>
              d\<lparr>irq := (irq d)\<lparr>mregs := (if oldConfig \<noteq> newConfig then Write32 Mac_Configuration newConfig m else m),
                                   macStatus := putf MacInterruptStatus_t ''LinkStatus'' 0 (macStatus (irq d))\<rparr>,
                 pool := release_opt (map_option fst (Option.bind returnBuffer id)) k,
                 link := Some \<lparr>linkSpeed = speed,
                   linkConnected = isset MacPhyIfControlStatus_t ''LinkUp'' controlStatus,
                   linkFullDuplex = isset MacPhyIfControlStatus_t ''FullDuplex'' controlStatus\<rparr>\<rparr>))"

text \<open>
  \<open>DeviceLinkStateWorkItem\<close> as its three steps: taking the busy flag, which fails when another run holds
  it, the update, and clearing the flag.
\<close>

definition link_work_enter :: "EqosDevice \<Rightarrow> bool \<times> EqosDevice" where
  "link_work_enter d = (\<not> updateLinkStateBusy d, d\<lparr>updateLinkStateBusy := True\<rparr>)"

definition DeviceLinkStateWorkItem :: "platform \<Rightarrow> u32 \<Rightarrow> EqosDevice \<Rightarrow> EqosDevice" where
  "DeviceLinkStateWorkItem pf controlStatus d =
     (case link_work_enter d of
        (True, d) \<Rightarrow> (UpdateLinkState pf controlStatus d)\<lparr>updateLinkStateBusy := False\<rparr>
      | (False, d) \<Rightarrow> d)"

section \<open>Receive filter\<close>

text \<open>
  The packet filter flags of NetAdapterCx the code looks at, and one entry of the multicast list.
\<close>

record packet_filter =
  Promiscuous :: bool
  AllMulticast :: bool
  Broadcast :: bool
  Directed :: bool
  Multicast :: bool

record mcast_address =
  mcLength :: u16
  mcAddress :: "u8 list"

definition zero_address :: "u8 list" where
  "zero_address = [0, 0, 0, 0, 0, 0]"

text \<open>The loop over the address registers \<open>i < macAddrCount\<close>; \<open>mcast\<close> is the list with its count.\<close>

function filter_addresses :: "mcast_address list \<Rightarrow> u32 \<Rightarrow> u32 \<Rightarrow> mmio \<Rightarrow> mmio" where
  "filter_addresses mcast macAddrCount i m =
     (if i < macAddrCount
      then let enable = unat (i - 1) < length mcast \<and> 6 \<le> mcLength (mcast ! unat (i - 1));
               addr = (if enable then mcAddress (mcast ! unat (i - 1)) else zero_address)
           in filter_addresses mcast macAddrCount (i + 1) (SetOneMacAddress i addr enable m)
      else m)"
  by pat_completeness auto

termination
proof (relation "measure (\<lambda>(mcast, n, i, m). unat (n - i))")
  fix i n :: u32
  assume "i < n"
  then have "n - i \<noteq> 0" by auto
  then have "unat (n - i - 1) < unat (n - i)" by (metis measure_unat)
  moreover have "n - (i + 1) = n - i - 1" by (simp only: diff_diff_eq)
  ultimately have "unat (n - (i + 1)) < unat (n - i)" by (simp only:)
  then show "((mcast, n, i + 1, m'), mcast, n, i, m) \<in> measure (\<lambda>(mcast, n, i, m). unat (n - i))"
    for mcast :: "mcast_address list" and m m' :: mmio by simp
qed simp

declare filter_addresses.simps [simp del]

definition filter_value :: "packet_filter \<Rightarrow> u32" where
  "filter_value flags =
     (if Promiscuous flags then putf MacPacketFilter_t ''PromiscuousMode'' (flag True) 0
      else putfs MacPacketFilter_t
        [(''PassAllMulticast'', flag (AllMulticast flags)), (''DisableBroadcast'', flag (\<not> Broadcast flags))] 0)"

definition AdapterSetReceiveFilter :: "packet_filter \<Rightarrow> mcast_address list \<Rightarrow> EqosDevice \<Rightarrow> EqosDevice" where
  "AdapterSetReceiveFilter flags mcastList d =
     (let mcast = (if Multicast flags then mcastList else []);
          m = mregs (irq d);
          m' = (if Promiscuous flags then m
                else filter_addresses mcast (getf MacHwFeature0_t ''MacAddrCount'' (feature0 d)) 1
                       (SetOneMacAddress 0 (currentMacAddress d) (Directed flags) m))
      in set_regs (Write32 Mac_Packet_Filter (filter_value flags) m') d)"

section \<open>Power up and power down\<close>

definition QueuesSupported :: u32 where "QueuesSupported = 1"
definition JumboPacketMin :: u16 where "JumboPacketMin = 1514"
definition JumboPacketMax :: u16 where "JumboPacketMax = 9014"

definition fifo_size :: "u32 \<Rightarrow> u32" where
  "fifo_size feature = (if 23 < feature then 0x80000000 else push_bit (unat feature) 128)"

definition queue_size :: "u32 \<Rightarrow> u32" where
  "queue_size fifoSize =
     (if fifoSize div QueuesSupported > 0x100000 then 0x100000 else fifoSize div QueuesSupported)"

definition flow_activate :: "u32 \<Rightarrow> u32" where
  "flow_activate rxQueueSize = (if rxQueueSize < 65536 then rxQueueSize div 2 else 32768)"

definition flow_deactivate :: "u32 \<Rightarrow> u32" where
  "flow_deactivate activate = activate + activate div 2"

definition d0_tx_operation_mode :: "u32 \<Rightarrow> u32" where
  "d0_tx_operation_mode txQueueSize = putfs MtlTxOperationMode_t
     [(''StoreAndForward'', flag True), (''QueueEnable'', 2), (''QueueSize'', txQueueSize div 256 - 1)] 0"

definition d0_rx_operation_mode :: "bool \<Rightarrow> u32 \<Rightarrow> u32" where
  "d0_rx_operation_mode rxFlow rxQueueSize = putfs MtlRxOperationMode_t
     [(''StoreAndForward'', flag True), (''DisableDropTcpChecksumError'', flag True),
      (''ForwardErrorPackets'', flag False), (''ForwardUndersizedGoodPackets'', flag True),
      (''QueueSize'', rxQueueSize div 256 - 1),
      (''HardwareFlowControl'', flag (rxFlow \<and> 2048 \<le> rxQueueSize)),
      (''FlowControlActivate'', flow_activate rxQueueSize div 512 - 2),
      (''FlowControlDeactivate'', flow_deactivate (flow_activate rxQueueSize) div 512 - 2)] 0"

definition d0_mac_configuration :: "u16 \<Rightarrow> u32" where
  "d0_mac_configuration jumbo = putfs MacConfiguration_t
     [(''ReceiverEnable'', flag True), (''TransmitterEnable'', flag True),
      (''DisableCarrierSenseDuringTransmit'', flag True), (''DisableReceiveOwn'', flag True),
      (''JabberDisable'', flag (2000 < jumbo)), (''PacketBurstEnable'', flag True),
      (''GiantPacketSizeLimitControlEnable'', flag (JumboPacketMin < jumbo)),
      (''ChecksumOffloadEnable'', flag True)] 0"

definition d0_mac_ext_configuration :: "u16 \<Rightarrow> u32" where
  "d0_mac_ext_configuration jumbo = putf MacExtConfiguration_t ''GiantPacketSizeLimit'' (ucast jumbo + 4) 0"

text \<open>The watchdog value is computed in C++ \<open>int\<close> and cast to 8 bits; \<open>WatchdogTimeout\<close> is a full byte.\<close>

definition d0_watchdog :: "u16 \<Rightarrow> u32" where
  "d0_watchdog jumbo = putfs MacWatchdogTimeout_t
     [(''WatchdogTimeout'', ucast (word_of_int ((int (unat jumbo) + 8 + 1023) div 1024 - 2) :: u8)),
      (''ProgrammableWatchdogEnable'', flag (2000 < jumbo))] 0"

definition d0_registers :: "EqosDevice \<Rightarrow> mmio \<Rightarrow> mmio" where
  "d0_registers d m0 =
     (let txQueueSize = queue_size (fifo_size (getf MacHwFeature1_t ''TxFifoSize'' (feature1 d)));
          rxQueueSize = queue_size (fifo_size (getf MacHwFeature1_t ''RxFifoSize'' (feature1 d)));
          c = config d;
          m = Write32 Mac_Tx_Flow_Ctrl (putfs MacTxFlowCtrl_t
                [(''TransmitFlowControlEnable'', flag (txFlowControl c)), (''PauseTime'', 0xFFFF)] 0) m0;
          m = Write32 Mtl_Tx_Operation_Mode (d0_tx_operation_mode txQueueSize) m;
          m = Write32 Mac_Rx_Flow_Ctrl (if rxFlowControl c then 3 else 0) m;
          m = Write32 Mac_RxQ_Ctrl0 2 m;
          m = Write32 Mtl_Rx_Operation_Mode (d0_rx_operation_mode (rxFlowControl c) rxQueueSize) m;
          m = Write32 Mac_Configuration (d0_mac_configuration (jumboFrame c)) m;
          m = Write32 Mac_Ext_Configuration (d0_mac_ext_configuration (jumboFrame c)) m;
          m = Write32 Mac_Vlan_Tag_Ctrl (putfs MacVlanTagCtrl_t
                [(''StripOnReceive'', 3), (''RxStatusEnable'', flag True)] 0) m;
          m = Write32 Mac_Vlan_Incl (putf MacVlanIncl_t ''VlanInput'' (flag True) 0) m
      in Write32 Mac_Watchdog_Timeout (d0_watchdog (jumboFrame c)) m)"

text \<open>Writing all ones to \<open>Dma_Ch[0].Status\<close> clears the pending status of the device.\<close>

definition DeviceD0Entry :: "platform \<Rightarrow> u32 \<Rightarrow> EqosDevice \<Rightarrow> NTSTATUS \<times> EqosDevice" where
  "DeviceD0Entry pf controlStatus d0 =
     (let d = UpdateLinkState pf controlStatus (set_regs (d0_registers d0 (mregs (irq d0))) d0);
          c = (irq d)\<lparr>mregs := DeviceInterruptSet_Locked InterruptsState (Write32 Ch_Status (NOT 0) (mregs (irq d))),
                      chStatus := 0, interruptsWanted := InterruptsState\<rparr>
      in (STATUS_SUCCESS, d\<lparr>irq := c\<rparr>))"

definition DeviceD0Exit :: "EqosDevice \<Rightarrow> NTSTATUS \<times> EqosDevice" where
  "DeviceD0Exit d =
     (let m = DeviceInterruptSet_Locked InterruptsNone (mregs (irq d));
          macConfig = putfs MacConfiguration_t [(''ReceiverEnable'', flag False), (''TransmitterEnable'', flag False)]
                        (Read32 Mac_Configuration m)
      in (STATUS_SUCCESS, d\<lparr>irq := (irq d)\<lparr>mregs := Write32 Mac_Configuration macConfig m, interruptsWanted := InterruptsNone\<rparr>\<rparr>))"

definition DeviceAddStatisticsRxQueue :: "u32 \<Rightarrow> u32 \<Rightarrow> EqosDevice \<Rightarrow> EqosDevice" where
  "DeviceAddStatisticsRxQueue ownDescriptors doneFragments d =
     d\<lparr>rxOwnDescriptors := rxOwnDescriptors d + ownDescriptors, rxDoneFragments := rxDoneFragments d + doneFragments\<rparr>"

definition DeviceAddStatisticsTxQueue :: "u32 \<Rightarrow> EqosDevice \<Rightarrow> EqosDevice" where
  "DeviceAddStatisticsTxQueue doneFragments d = d\<lparr>txDoneFragments := txDoneFragments d + doneFragments\<rparr>"

end
