(* ===== verification/AcpiProperties.thy ===== *)
theory AcpiProperties imports AcpiEvaluate begin

text \<open>
  What the ACPI helpers do on well-formed and on arbitrary firmware data: the abstract objects a package
  represents, the lookup of a key as a function on them, and that the pointer walk implements it; that
  every walk ends whatever the bytes are; and the ownership of the buffers a method evaluation allocates.
\<close>

section \<open>The layout contract\<close>

definition cstring_at :: "memory \<Rightarrow> nat \<Rightarrow> u8 list \<Rightarrow> bool" where
  "cstring_at mem a s \<longleftrightarrow> bytes_at mem a (length s) = s \<and> 0 \<notin> set s \<and> mem (a + length s) = 0 \<and> length s < 0xFFFF"

text \<open>The objects a method returns, and what it means that memory holds one.\<close>

datatype acpi_obj =
    AcpiInteger u32
  | AcpiString "u8 list"
  | AcpiBuffer "u8 list"
  | AcpiPackage "acpi_obj list"

fun holds :: "acpi_api \<Rightarrow> memory \<Rightarrow> nat \<Rightarrow> acpi_obj \<Rightarrow> bool"
  and holds_seq :: "acpi_api \<Rightarrow> memory \<Rightarrow> nat \<Rightarrow> acpi_obj list \<Rightarrow> nat \<Rightarrow> bool" where
  "holds api mem a (AcpiInteger v) \<longleftrightarrow>
     ArgType api mem a = TYPE_INTEGER api \<and> ArgDataLength api mem a = 4 \<and> ArgArgument api mem a = v"
| "holds api mem a (AcpiString s) \<longleftrightarrow>
     ArgType api mem a = TYPE_STRING api \<and> cstring_at mem (ArgData api a) s"
| "holds api mem a (AcpiBuffer bs) \<longleftrightarrow>
     ArgType api mem a = TYPE_BUFFER api \<and> unat (ArgDataLength api mem a) = length bs
     \<and> bytes_at mem (ArgData api a) (length bs) = bs"
| "holds api mem a (AcpiPackage os) \<longleftrightarrow>
     ArgType api mem a = TYPE_PACKAGE api
     \<and> holds_seq api mem (ArgData api a) os (ArgData api a + unat (ArgDataLength api mem a))"
| "holds_seq api mem a [] e \<longleftrightarrow> a = e"
| "holds_seq api mem a (x # os) e \<longleftrightarrow> holds api mem a x \<and> holds_seq api mem (next_argument api mem a) os e"

text \<open>The value of a key in a properties package, with the errors the query reports.\<close>

fun dsd_lookup :: "u8 list \<Rightarrow> acpi_obj list \<Rightarrow> NTSTATUS \<times> acpi_obj option" where
  "dsd_lookup key [] = (STATUS_NOT_FOUND, None)"
| "dsd_lookup key (AcpiPackage [] # es) = (STATUS_ACPI_INCORRECT_ARGUMENT_COUNT, None)"
| "dsd_lookup key (AcpiPackage (AcpiString k # vs) # es) =
     (if k \<noteq> key then dsd_lookup key es
      else case vs of [] \<Rightarrow> (STATUS_ACPI_INCORRECT_ARGUMENT_COUNT, None) | v # _ \<Rightarrow> (STATUS_SUCCESS, Some v))"
| "dsd_lookup key (AcpiPackage (k # vs) # es) = (STATUS_ACPI_INVALID_DATA, None)"
| "dsd_lookup key (e # es) = (STATUS_ACPI_INVALID_ARGTYPE, None)"

definition value_at :: "acpi_api \<Rightarrow> memory \<Rightarrow> acpi_obj option \<Rightarrow> nat option \<Rightarrow> bool" where
  "value_at api mem v p \<longleftrightarrow> (case v of None \<Rightarrow> p = None | Some x \<Rightarrow> (\<exists>a. p = Some a \<and> holds api mem a x))"

locale acpi_layout =
  fixes api :: acpi_api
  assumes argument_length: "ARGUMENT_LENGTH api n = sizeof_ARGUMENT api - 4 + max 4 n"
    and argument_size: "4 < sizeof_ARGUMENT api"
    and input_size: "sizeof_ARGUMENT api \<le> sizeof_INPUT_BUFFER_COMPLEX api"
    and types: "distinct [TYPE_INTEGER api, TYPE_STRING api, TYPE_BUFFER api, TYPE_PACKAGE api, TYPE_PACKAGE_EX api]"
    and ansi_string: "cstring_at mem a s \<Longrightarrow> RtlInitAnsiStringEx api mem a = (STATUS_SUCCESS, s)"
    and zero_signature: "OutSignature api (\<lambda>a. 0) 0 = 0" "OUTPUT_BUFFER_SIGNATURE api \<noteq> 0"
begin

lemma length_ge: "sizeof_ARGUMENT api \<le> ARGUMENT_LENGTH api n" "n < ARGUMENT_LENGTH api n"
  using argument_size by (auto simp: argument_length)

lemma next_greater: "a < next_argument api mem a"
  using length_ge(2) [of "unat (ArgDataLength api mem a)"] by (simp add: next_argument_def)

lemma type_neq:
  "TYPE_INTEGER api \<noteq> TYPE_STRING api" "TYPE_STRING api \<noteq> TYPE_INTEGER api"
  "TYPE_PACKAGE api \<noteq> TYPE_STRING api" "TYPE_STRING api \<noteq> TYPE_PACKAGE api"
  "TYPE_BUFFER api \<noteq> TYPE_STRING api" "TYPE_BUFFER api \<noteq> TYPE_PACKAGE api"
  "TYPE_INTEGER api \<noteq> TYPE_PACKAGE api" "TYPE_PACKAGE api \<noteq> TYPE_INTEGER api"
  "TYPE_INTEGER api \<noteq> TYPE_BUFFER api" "TYPE_BUFFER api \<noteq> TYPE_INTEGER api"
  using types by auto

section \<open>Every walk ends\<close>

lemma find_ends: "\<exists>r. acpi_find api mem pkg key (Some c) = Some r"
proof (induction "ArgData api pkg + unat (ArgDataLength api mem pkg) - c" arbitrary: c rule: less_induct)
  case less
  show ?case
  proof (cases "AcpiPackageGetNextArgument api mem pkg (Some c)")
    case (Pair status res)
    show ?thesis
    proof (cases "\<exists>n. status = STATUS_SUCCESS \<and> res = Some n")
      case False
      then show ?thesis
        unfolding acpi_find.simps [of api mem pkg key "Some c"]
        using Pair by (auto split: NTSTATUS.split option.split)
    next
      case True
      then obtain n where n: "status = STATUS_SUCCESS" "res = Some n" by blast
      have "n = next_argument api mem c" "n < ArgData api pkg + unat (ArgDataLength api mem pkg)"
        using Pair n by (auto simp: AcpiPackageGetNextArgument_def Let_def split: if_splits)
      then have "ArgData api pkg + unat (ArgDataLength api mem pkg) - n < ArgData api pkg + unat (ArgDataLength api mem pkg) - c"
        using next_greater [of c mem] by linarith
      from less [OF this] obtain r where r: "acpi_find api mem pkg key (Some n) = Some r" by blast
      show ?thesis
        unfolding acpi_find.simps [of api mem pkg key "Some c"] Pair n using r
        by (auto split: sum.split)
    qed
  qed
qed

lemma find_total: "\<exists>r. acpi_find api mem pkg key c = Some r"
proof (cases c)
  case None
  show ?thesis
  proof (cases "\<exists>n. AcpiPackageGetNextArgument api mem pkg None = (STATUS_SUCCESS, Some n)")
    case True
    then obtain n where n: "AcpiPackageGetNextArgument api mem pkg None = (STATUS_SUCCESS, Some n)" by blast
    obtain r where "acpi_find api mem pkg key (Some n) = Some r" using find_ends by blast
    then show ?thesis
      unfolding None acpi_find.simps [of api mem pkg key None] n by (auto split: sum.split)
  next
    case False
    then show ?thesis
      unfolding None acpi_find.simps [of api mem pkg key None]
      by (auto split: prod.split NTSTATUS.split option.split)
  qed
qed (use find_ends in simp)

section \<open>Walking a well-formed package\<close>

lemma seq_bounds: "holds_seq api mem a os e \<Longrightarrow> a + length os * sizeof_ARGUMENT api \<le> e"
proof (induction os arbitrary: a)
  case (Cons x os)
  then have "next_argument api mem a + length os * sizeof_ARGUMENT api \<le> e" by simp
  moreover have "a + sizeof_ARGUMENT api \<le> next_argument api mem a"
    using length_ge(1) by (simp add: next_argument_def)
  ultimately show ?case by simp
qed simp

lemma package_first:
  assumes "holds_seq api mem (ArgData api p) os (ArgData api p + unat (ArgDataLength api mem p))"
  shows "AcpiPackageGetNextArgument api mem p None =
     (if os = [] then (STATUS_NO_MORE_ENTRIES, None) else (STATUS_SUCCESS, Some (ArgData api p)))"
proof (cases os)
  case Nil
  then show ?thesis using assms argument_size by (simp add: AcpiPackageGetNextArgument_def)
next
  case (Cons x xs)
  then show ?thesis using seq_bounds [OF assms] by (simp add: AcpiPackageGetNextArgument_def)
qed

lemma package_next:
  assumes "holds_seq api mem (next_argument api mem c) rest (ArgData api p + unat (ArgDataLength api mem p))"
    "\<not> unat (ArgDataLength api mem p) < sizeof_ARGUMENT api"
  shows "AcpiPackageGetNextArgument api mem p (Some c) =
     (if rest = [] then (STATUS_NO_MORE_ENTRIES, Some c) else (STATUS_SUCCESS, Some (next_argument api mem c)))"
proof (cases rest)
  case Nil
  then show ?thesis using assms by (simp add: AcpiPackageGetNextArgument_def)
next
  case (Cons x xs)
  then have "next_argument api mem c < ArgData api p + unat (ArgDataLength api mem p)"
    using seq_bounds [OF assms(1)] argument_size by simp
  then show ?thesis using Cons assms(2) by (simp add: AcpiPackageGetNextArgument_def Let_def)
qed

lemma package_size:
  "holds_seq api mem (ArgData api p) (x # os) (ArgData api p + unat (ArgDataLength api mem p))
     \<Longrightarrow> \<not> unat (ArgDataLength api mem p) < sizeof_ARGUMENT api"
  using seq_bounds [of mem "ArgData api p" "x # os"] by fastforce

text \<open>One entry of the list does what one step of the lookup does.\<close>

lemma entry_lookup:
  assumes "holds api mem a x"
  shows "case acpi_entry api mem key a of
      Inr u \<Rightarrow> dsd_lookup key (x # es) = dsd_lookup key es
    | Inl (st, p) \<Rightarrow> fst (dsd_lookup key (x # es)) = st \<and> value_at api mem (snd (dsd_lookup key (x # es))) p"
proof (cases x)
  case (AcpiPackage os)
  then have isPkg: "ArgType api mem a = TYPE_PACKAGE api"
    and seq: "holds_seq api mem (ArgData api a) os (ArgData api a + unat (ArgDataLength api mem a))"
    using assms by simp_all
  show ?thesis
  proof (cases os)
    case Nil
    then show ?thesis
      using package_first [OF seq] isPkg AcpiPackage by (simp add: acpi_entry_def value_at_def)
  next
    case (Cons k vs)
    have first: "AcpiPackageGetNextArgument api mem a None = (STATUS_SUCCESS, Some (ArgData api a))"
      using package_first [OF seq] Cons by simp
    have rest: "holds_seq api mem (next_argument api mem (ArgData api a)) vs (ArgData api a + unat (ArgDataLength api mem a))"
      and k: "holds api mem (ArgData api a) k" using seq Cons by simp_all
    have size: "\<not> unat (ArgDataLength api mem a) < sizeof_ARGUMENT api"
      using package_size seq Cons by blast
    show ?thesis
    proof (cases k)
      case (AcpiString s)
      then have isStr: "ArgType api mem (ArgData api a) = TYPE_STRING api"
        and c: "cstring_at mem (ArgData api (ArgData api a)) s" using k by simp_all
      note s = isStr ansi_string [OF c]
      show ?thesis
      proof (cases vs)
        case Nil
        then show ?thesis
          using package_next [OF rest size] by (simp add: acpi_entry_def isPkg first s AcpiPackage Cons AcpiString value_at_def)
      next
        case (Cons v vs')
        then show ?thesis
          using package_next [OF rest size] rest
          by (simp add: acpi_entry_def isPkg first s AcpiPackage \<open>os = k # vs\<close> AcpiString value_at_def)
      qed
    qed (use k type_neq in \<open>simp_all add: acpi_entry_def isPkg first AcpiPackage Cons value_at_def\<close>)
  qed
qed (use assms type_neq in \<open>simp_all add: acpi_entry_def value_at_def\<close>)

lemma find_lookup_from:
  assumes "holds_seq api mem (next_argument api mem c) es (ArgData api pkg + unat (ArgDataLength api mem pkg))"
    "\<not> unat (ArgDataLength api mem pkg) < sizeof_ARGUMENT api"
  shows "\<exists>st p. acpi_find api mem pkg key (Some c) = Some (st, p)
     \<and> fst (dsd_lookup key es) = st \<and> value_at api mem (snd (dsd_lookup key es)) p"
  using assms(1)
proof (induction es arbitrary: c)
  case Nil
  then show ?case
    unfolding acpi_find.simps [of api mem pkg key "Some c"] package_next [OF Nil assms(2)]
    by (simp add: value_at_def)
next
  case (Cons x es)
  have x: "holds api mem (next_argument api mem c) x"
    and es: "holds_seq api mem (next_argument api mem (next_argument api mem c)) es (ArgData api pkg + unat (ArgDataLength api mem pkg))"
    using Cons.prems by simp_all
  show ?case
    unfolding acpi_find.simps [of api mem pkg key "Some c"] package_next [OF Cons.prems assms(2)]
    using entry_lookup [OF x, of key es] Cons.IH [OF es]
    by (cases "acpi_entry api mem key (next_argument api mem c)") auto
qed

lemma find_lookup:
  assumes "holds api mem pkg (AcpiPackage es)"
  shows "\<exists>st p. acpi_find api mem pkg key None = Some (st, p)
     \<and> fst (dsd_lookup key es) = st \<and> value_at api mem (snd (dsd_lookup key es)) p"
proof -
  have seq: "holds_seq api mem (ArgData api pkg) es (ArgData api pkg + unat (ArgDataLength api mem pkg))"
    using assms by simp
  show ?thesis
  proof (cases es)
    case Nil
    then show ?thesis
      unfolding acpi_find.simps [of api mem pkg key None] package_first [OF seq]
      by (simp add: value_at_def)
  next
    case (Cons x xs)
    have x: "holds api mem (ArgData api pkg) x"
      and xs: "holds_seq api mem (next_argument api mem (ArgData api pkg)) xs (ArgData api pkg + unat (ArgDataLength api mem pkg))"
      using seq Cons by simp_all
    have size: "\<not> unat (ArgDataLength api mem pkg) < sizeof_ARGUMENT api"
      using package_size seq Cons by blast
    show ?thesis
      unfolding acpi_find.simps [of api mem pkg key None] package_first [OF seq]
      using Cons entry_lookup [OF x, of key xs] find_lookup_from [OF xs size, of key]
      by (cases "acpi_entry api mem key (ArgData api pkg)") auto
  qed
qed

lemma query_value_lookup:
  assumes "holds api mem pkg (AcpiPackage es)" "cstring_at mem k key"
  shows "\<exists>st p. AcpiDevicePropertiesQueryValue api mem (Some pkg) (Some k) True = Some (st, p)
     \<and> fst (dsd_lookup key es) = st \<and> value_at api mem (snd (dsd_lookup key es)) p"
  using find_lookup [OF assms(1), of key] assms(1)
  by (simp add: AcpiDevicePropertiesQueryValue_def ansi_string [OF assms(2)])

section \<open>Who owns the buffers\<close>

end

text \<open>The kernel state is consistent: no buffer was freed twice, and numbers are not reused.\<close>

definition kernel_ok :: "kernel \<Rightarrow> bool" where
  "kernel_ok k \<longleftrightarrow> \<not> badFree k \<and> distinct (live k) \<and> (\<forall>b \<in> set (live k). b < allocations k)"

lemma allocate_Some:
  "allocate pf k = (Some b, k') \<Longrightarrow> kernel_ok k \<Longrightarrow>
     live k' = b # live k \<and> b \<notin> set (live k) \<and> kernel_ok k' \<and> requests k' = requests k"
  by (fastforce simp: allocate_def kernel_ok_def split: if_splits)

lemma allocate_None:
  "allocate pf k = (None, k') \<Longrightarrow> kernel_ok k \<Longrightarrow> live k' = live k \<and> kernel_ok k' \<and> requests k' = requests k"
  by (fastforce simp: allocate_def kernel_ok_def split: if_splits)

lemma release_live:
  "kernel_ok k \<Longrightarrow> b \<in> set (live k) \<Longrightarrow>
     live (release b k) = remove1 b (live k) \<and> kernel_ok (release b k) \<and> requests (release b k) = requests k"
  by (auto simp: release_def kernel_ok_def dest: notin_set_remove1)

lemma kernel_ok_requests [simp]: "kernel_ok (k\<lparr>requests := n\<rparr>) = kernel_ok k"
  by (simp add: kernel_ok_def)

context acpi_layout
begin

text \<open>A request leaves the pool as it was; a successful one leaves a signed output buffer.\<close>

lemma send_pool:
  assumes "AcpiSendIoctlSynchronously pf n output k = ((status, bytes, returned), k')" "kernel_ok k" "acpi pf = api"
  shows "live k' = live k \<and> kernel_ok k' \<and> requests k' \<le> Suc (requests k)
    \<and> (NT_SUCCESS status \<longrightarrow> (\<exists>m. returned = Some m \<and> (m = 0 \<longrightarrow> bytes = output))
        \<and> OutSignature api (as_memory bytes) 0 = OUTPUT_BUFFER_SIGNATURE api
        \<and> OutCount api (as_memory bytes) 0 \<noteq> 0)"
proof (cases "allocate pf k")
  case (Pair o1 k1)
  show ?thesis
  proof (cases o1)
    case None
    then show ?thesis using assms allocate_None [of pf k k1] Pair
      by (auto simp: AcpiSendIoctlSynchronously_def)
  next
    case (Some irp)
    have a1: "live k1 = irp # live k" "irp \<notin> set (live k)" "kernel_ok k1" "requests k1 = requests k"
      using allocate_Some [of pf k irp k1] Pair Some assms(2) by simp_all
    show ?thesis
    proof (cases "allocate pf k1")
      case 2: (Pair o2 k2)
      show ?thesis
      proof (cases o2)
        case None
        have "live k2 = irp # live k" "kernel_ok k2" "requests k2 = requests k"
          using allocate_None [of pf k1 k2] 2 None a1 by simp_all
        then have "live (release irp k2) = live k" "kernel_ok (release irp k2)" "requests (release irp k2) = requests k"
          using release_live [of k2 irp] by simp_all
        then show ?thesis using assms Pair Some 2 None by (auto simp: AcpiSendIoctlSynchronously_def)
      next
        case s2: (Some inter)
        have a2: "live k2 = inter # irp # live k" "inter \<noteq> irp" "kernel_ok k2" "requests k2 = requests k"
          using allocate_Some [of pf k1 inter k2] 2 s2 a1 by auto
        define k3 where "k3 = release irp (k2\<lparr>requests := Suc (requests k2)\<rparr>)"
        have a3: "live k3 = inter # live k" "kernel_ok k3" "requests k3 = Suc (requests k)"
          using release_live [of "k2\<lparr>requests := Suc (requests k2)\<rparr>" irp] a2 by (simp_all add: k3_def)
        have a4: "live (release inter k3) = live k" "kernel_ok (release inter k3)" "requests (release inter k3) = Suc (requests k)"
          using release_live [of k3 inter] a3 by simp_all
        show ?thesis
          using assms(1,3) a4 unfolding AcpiSendIoctlSynchronously_def Pair Some 2 s2 prod.case option.case k3_def [symmetric]
          by (auto simp: Let_def split: if_splits)
      qed
    qed
  qed
qed

lemma zero_buffer: "as_memory (replicate m 0) = (\<lambda>a. 0)"
  by (auto simp: as_memory_def fun_eq_iff)

lemma attempts_pool:
  assumes "acpi_attempts pf n sz retries k = ((status, buf, returned), k')" "kernel_ok k" "acpi pf = api"
  shows "kernel_ok k' \<and> requests k' \<le> requests k + retries
    \<and> live k' = (case buf of None \<Rightarrow> live k | Some (b, bytes) \<Rightarrow> b # live k)
    \<and> (NT_SUCCESS status \<longrightarrow> (\<exists>b bytes. buf = Some (b, bytes) \<and> 0 < the returned
        \<and> OutSignature api (as_memory bytes) 0 = OUTPUT_BUFFER_SIGNATURE api
        \<and> OutCount api (as_memory bytes) 0 \<noteq> 0))"
  using assms(1,2)
proof (induction retries arbitrary: sz k)
  case 0
  then show ?case by auto
next
  case (Suc retries)
  obtain o1 k1 where al: "allocate pf k = (o1, k1)" by fastforce
  show ?case
  proof (cases o1)
    case None
    then show ?thesis using Suc.prems allocate_None [of pf k k1] al by auto
  next
    case (Some out)
    have a1: "live k1 = out # live k" "kernel_ok k1" "requests k1 = requests k"
      using allocate_Some [of pf k out k1] al Some Suc.prems(2) by simp_all
    obtain st bytes ret k2 where send: "AcpiSendIoctlSynchronously pf n (replicate sz 0) k1 = ((st, bytes, ret), k2)"
      by (metis prod_cases3 surj_pair)
    note sp = send_pool [OF send a1(2) assms(3)]
    show ?thesis
    proof (cases "st = STATUS_BUFFER_OVERFLOW")
      case True
      have rel: "live (release out k2) = live k" "kernel_ok (release out k2)" "requests (release out k2) = requests k2"
        using release_live [of k2 out] sp a1 by simp_all
      have "acpi_attempts pf n (unat (OutLength (acpi pf) (as_memory bytes) 0)) retries (release out k2) = ((status, buf, returned), k')"
        using Suc.prems(1) al Some send True by simp
      from Suc.IH [OF this rel(2)] show ?thesis using rel sp a1 by (auto split: option.split)
    next
      case False
      then have eq: "status = st" "buf = Some (out, bytes)" "returned = ret" "k' = k2"
        using Suc.prems(1) al Some send by auto
      have "0 < the ret" if ok: "NT_SUCCESS st"
      proof (rule ccontr)
        assume "\<not> 0 < the ret"
        then have "bytes = replicate sz 0" using sp ok by auto
        then show False using sp ok zero_signature by (simp add: zero_buffer)
      qed
      then show ?thesis using eq sp a1 by auto
    qed
  qed
qed

lemma evaluate_pool:
  assumes "AcpiEvaluateMethod pf n k = ((status, ret), k')" "kernel_ok k" "acpi pf = api"
  shows "kernel_ok k' \<and> requests k' \<le> requests k + 2
    \<and> (if NT_SUCCESS status
       then \<exists>b bytes. ret = Some (Some (b, bytes)) \<and> live k' = b # live k
          \<and> OutSignature api (as_memory bytes) 0 = OUTPUT_BUFFER_SIGNATURE api
          \<and> OutCount api (as_memory bytes) 0 \<noteq> 0
       else ret = None \<and> live k' = live k)"
proof -
  obtain st buf returned k1 where at: "acpi_attempts pf n (sizeof_OUTPUT_BUFFER (acpi pf)) 2 k = ((st, buf, returned), k1)"
    by (metis prod_cases3 surj_pair)
  note ap = attempts_pool [OF at assms(2,3)]
  show ?thesis
  proof (cases "NT_SUCCESS st")
    case True
    then show ?thesis using assms(1) ap unfolding AcpiEvaluateMethod_def at by auto
  next
    case False
    then have eq: "status = st" "ret = None" "k' = release_opt (map_option fst buf) k1"
      using assms(1) unfolding AcpiEvaluateMethod_def at by auto
    show ?thesis
    proof (cases buf)
      case None
      then show ?thesis using eq ap False by simp
    next
      case (Some p)
      then show ?thesis using eq ap False release_live [of k1 "fst p"] by (auto split: prod.splits)
    qed
  qed
qed

lemma dsm_pool:
  assumes "AcpiExecuteDsmFunction pf hasPdo guid revision idx args argsSize True k = ((status, ret), k')"
    "kernel_ok k" "acpi pf = api"
  shows "kernel_ok k' \<and> requests k' \<le> requests k + 2
    \<and> (if NT_SUCCESS status then \<exists>b bytes. ret = Some (Some (b, bytes)) \<and> live k' = b # live k
       else ret = None \<and> live k' = live k)"
proof (cases "hasPdo \<and> guid \<noteq> None")
  case False
  then show ?thesis using assms by (auto simp: AcpiExecuteDsmFunction_def split: option.splits if_splits)
next
  case True
  then obtain g where g: "guid = Some g" "hasPdo" by auto
  obtain o1 k1 where al: "allocate pf k = (o1, k1)" by fastforce
  show ?thesis
  proof (cases o1)
    case None
    then show ?thesis using assms g al allocate_None [of pf k k1]
      by (auto simp: AcpiExecuteDsmFunction_def AcpiFormatDsmFunctionInputBuffer_def)
  next
    case (Some input)
    have a1: "live k1 = input # live k" "input \<notin> set (live k)" "kernel_ok k1" "requests k1 = requests k"
      using allocate_Some [of pf k input k1] al Some assms(2) by simp_all
    obtain st out k2 where ev: "AcpiEvaluateMethod pf (ComplexInput (dsm_input (acpi pf) g revision idx args argsSize), dsm_input_size (acpi pf) argsSize) k1 = ((st, out), k2)"
      by (metis surj_pair)
    note ep = evaluate_pool [OF ev a1(3) assms(3)]
    have inl: "input \<in> set (live k2)" using ep a1 by (auto split: if_splits)
    note rel = release_live [of k2 input]
    have eq: "k' = release input k2" "status = st" "ret = (if NT_SUCCESS st then out else None)"
      using assms(1) g al Some ev by (auto simp: AcpiExecuteDsmFunction_def AcpiFormatDsmFunctionInputBuffer_def split: if_splits)
    show ?thesis
    proof (cases "NT_SUCCESS st")
      case True
      then obtain b bytes where b: "out = Some (Some (b, bytes))" "live k2 = b # live k1" using ep by auto
      moreover have "b \<noteq> input" using ep b a1 by (auto simp: kernel_ok_def)
      ultimately show ?thesis using True eq ep rel inl a1 by simp
    next
      case False
      then show ?thesis using eq ep rel inl a1 by simp
    qed
  qed
qed

lemma copy_seq:
  "holds_seq api mem a (map AcpiInteger ns) e \<Longrightarrow> n \<le> length ns \<Longrightarrow> acpi_copy api mem a n = take n ns"
proof (induction n arbitrary: a ns)
  case (Suc n)
  then show ?case by (cases ns) auto
qed simp

lemma query_integer_lookup:
  assumes "holds api mem pkg (AcpiPackage es)" "cstring_at mem k key"
  shows "AcpiDevicePropertiesQueryIntegerValue api mem (Some pkg) (Some k) True
    = Some (case dsd_lookup key es of
        (STATUS_SUCCESS, Some (AcpiInteger v)) \<Rightarrow> (STATUS_SUCCESS, Some v)
      | (STATUS_SUCCESS, Some x) \<Rightarrow> (STATUS_ACPI_INVALID_ARGTYPE, None)
      | (status, x) \<Rightarrow> (status, None))"
proof -
  obtain st p where q: "AcpiDevicePropertiesQueryValue api mem (Some pkg) (Some k) True = Some (st, p)"
    and l: "fst (dsd_lookup key es) = st" "value_at api mem (snd (dsd_lookup key es)) p"
    using query_value_lookup [OF assms] by blast
  obtain v where v: "dsd_lookup key es = (st, v)" using l(1) by (cases "dsd_lookup key es") auto
  have shape: "(st = STATUS_SUCCESS \<longleftrightarrow> v \<noteq> None) \<and> (NT_SUCCESS st \<longrightarrow> st = STATUS_SUCCESS)"
    using v by (induction key es rule: dsd_lookup.induct) (auto split: if_splits list.splits)
  show ?thesis
  proof (cases v)
    case None
    then have "p = None" using l v by (simp add: value_at_def)
    then show ?thesis using assms(1) shape None v
      by (auto simp: AcpiDevicePropertiesQueryIntegerValue_def q split: NTSTATUS.split)
  next
    case (Some x)
    then obtain a where a: "p = Some a" "holds api mem a x" using l v by (auto simp: value_at_def)
    then show ?thesis using assms(1) shape Some v type_neq
      by (cases x) (simp_all add: AcpiDevicePropertiesQueryIntegerValue_def q AcpiArgumentParseInteger_def)
  qed
qed

lemma queries_total:
  "\<exists>r. AcpiDevicePropertiesQueryValue api mem pkg k v = Some r"
  using find_total [of mem] by (auto simp: AcpiDevicePropertiesQueryValue_def split: option.split prod.split)

end

end
