(* ===== verification/AcpiReports.thy ===== *)
theory AcpiReports imports AcpiProperties begin

text \<open>
  The properties of the ACPI helpers (src/drivers/shared/acpiutil.cpp), and the WDK's buffer layout as
  the instance of the layout contract on which they are evaluated.
\<close>

section \<open>The WDK layout\<close>

definition le16 :: "memory \<Rightarrow> nat \<Rightarrow> u16" where
  "le16 mem a = ucast (mem a) OR push_bit 8 (ucast (mem (a + 1)))"

definition le32 :: "memory \<Rightarrow> nat \<Rightarrow> u32" where
  "le32 mem a = ucast (mem a) OR push_bit 8 (ucast (mem (a + 1)))
     OR push_bit 16 (ucast (mem (a + 2))) OR push_bit 24 (ucast (mem (a + 3)))"

definition wdk_acpi :: acpi_api where
  "wdk_acpi = \<lparr>
     ArgType = le16, ArgDataLength = (\<lambda>mem a. le16 mem (a + 2)), ArgArgument = (\<lambda>mem a. le32 mem (a + 4)),
     ArgData = (\<lambda>a. a + 4), ARGUMENT_LENGTH = (\<lambda>n. 4 + max 4 n),
     INTEGER_ARGUMENT = (\<lambda>v. [0, 0, 4, 0] @ ulong_bytes v), sizeof_ARGUMENT = 8,
     sizeof_OUTPUT_BUFFER = 20, sizeof_INPUT_BUFFER_COMPLEX = 24,
     OutSignature = le32, OutCount = (\<lambda>mem a. le32 mem (a + 8)), OutLength = (\<lambda>mem a. le32 mem (a + 4)),
     OutArgument = (\<lambda>a. a + 12),
     OUTPUT_ARGUMENT_LENGTH = (\<lambda>mem a. unat (le32 mem (a + 4) - 12)),
     OUTPUT_ARGUMENTS_END = (\<lambda>mem a. a + unat (le32 mem (a + 4))),
     OUTPUT_BUFFER_SIGNATURE = 0x426F6541, INPUT_BUFFER_COMPLEX_SIGNATURE = 0x436F6541,
     TYPE_INTEGER = 0, TYPE_STRING = 1, TYPE_BUFFER = 2, TYPE_PACKAGE = 3, TYPE_PACKAGE_EX = 4,
     RtlInitAnsiStringEx = (\<lambda>mem a. let bs = bytes_at mem a 0xFFFF in
        if 0 \<in> set bs then (STATUS_SUCCESS, takeWhile (\<lambda>b. b \<noteq> 0) bs) else (STATUS_OTHER 0xC0000106, []))\<rparr>"

lemma wdk_ansi_string:
  assumes "cstring_at mem a s"
  shows "RtlInitAnsiStringEx wdk_acpi mem a = (STATUS_SUCCESS, s)"
proof -
  let ?n = "length s"
  have n: "?n < 0xFFFF" and s: "bytes_at mem a ?n = s" "0 \<notin> set s" and z: "mem (a + ?n) = 0"
    using assms by (simp_all add: cstring_at_def)
  have "[0..<0xFFFF] = [0..<?n] @ ?n # [Suc ?n..<0xFFFF]"
    using n upt_add_eq_append [of 0 ?n "0xFFFF - ?n"] upt_conv_Cons [of ?n "0xFFFF"] by simp
  then have split: "bytes_at mem a 0xFFFF = s @ 0 # map (\<lambda>k. mem (a + k)) [Suc ?n..<0xFFFF]"
    using s z by (simp add: bytes_at_def)
  have "takeWhile (\<lambda>b. b \<noteq> 0) (s @ 0 # xs) = s" for xs
    using s(2) by (induction s) auto
  then show ?thesis unfolding wdk_acpi_def by (simp add: Let_def split)
qed

interpretation wdk: acpi_layout wdk_acpi
proof unfold_locales
  show "cstring_at mem a s \<Longrightarrow> RtlInitAnsiStringEx wdk_acpi mem a = (STATUS_SUCCESS, s)" for mem a s
    by (rule wdk_ansi_string)
qed (simp_all add: wdk_acpi_def le32_def)

text \<open>
  \<open>Package () { Package () { "pbl", 16 }, Package () { "blen", Package () { 7 } } }\<close> at address 0,
  followed by two keys.
\<close>

definition demo_dsd :: memory where
  "demo_dsd = as_memory
     [3, 0, 45, 0,
        3, 0, 16, 0, 1, 0, 4, 0, 0x70, 0x62, 0x6C, 0, 0, 0, 4, 0, 16, 0, 0, 0,
        3, 0, 21, 0, 1, 0, 5, 0, 0x62, 0x6C, 0x65, 0x6E, 0, 3, 0, 8, 0, 0, 0, 4, 0, 7, 0, 0, 0,
      0x70, 0x62, 0x6C, 0, 0x62, 0x6C, 0x65, 0x6E, 0]"

definition demo_props :: "acpi_obj list" where
  "demo_props =
     [AcpiPackage [AcpiString [0x70, 0x62, 0x6C], AcpiInteger 16],
      AcpiPackage [AcpiString [0x62, 0x6C, 0x65, 0x6E], AcpiPackage [AcpiInteger 7]]]"

lemma wdk_fields:
  "ArgType wdk_acpi mem a = le16 mem a"
  "ArgDataLength wdk_acpi mem a = le16 mem (a + 2)"
  "ArgArgument wdk_acpi mem a = le32 mem (a + 4)"
  "ArgData wdk_acpi a = a + 4"
  "ARGUMENT_LENGTH wdk_acpi n = 4 + max 4 n"
  "TYPE_INTEGER wdk_acpi = 0" "TYPE_STRING wdk_acpi = 1" "TYPE_PACKAGE wdk_acpi = 3"
  by (simp_all add: wdk_acpi_def)

lemma demo_bytes: "a < 58 \<Longrightarrow> demo_dsd a = [3, 0, 45, 0,
        3, 0, 16, 0, 1, 0, 4, 0, 0x70, 0x62, 0x6C, 0, 0, 0, 4, 0, 16, 0, 0, 0,
        3, 0, 21, 0, 1, 0, 5, 0, 0x62, 0x6C, 0x65, 0x6E, 0, 3, 0, 8, 0, 0, 0, 4, 0, 7, 0, 0, 0,
      0x70, 0x62, 0x6C, 0, 0x62, 0x6C, 0x65, 0x6E, 0] ! a"
  by (simp add: demo_dsd_def as_memory_def)

lemma demo_dsd_holds: "holds wdk_acpi demo_dsd 0 (AcpiPackage demo_props)"
  by (simp add: demo_props_def wdk_fields le16_def le32_def next_argument_def demo_bytes cstring_at_def bytes_at_def)

lemma demo_keys: "cstring_at demo_dsd 49 [0x70, 0x62, 0x6C]" "cstring_at demo_dsd 53 [0x62, 0x6C, 0x65, 0x6E]"
  by (simp_all add: cstring_at_def bytes_at_def demo_bytes)

section \<open>Properties\<close>

text \<open>C35: On well-formed firmware data, querying an integer device property walks the key/value
  packages to the value the key has in them, and reports a missing key, a malformed entry before it and
  a value of another type with the statuses the abstract lookup gives.\<close>

theorem acpi_integer_refines_lookup:
  assumes "acpi_layout api" "holds api mem pkg (AcpiPackage es)" "cstring_at mem k key"
  shows "AcpiDevicePropertiesQueryIntegerValue api mem (Some pkg) (Some k) True
    = Some (case dsd_lookup key es of
        (STATUS_SUCCESS, Some (AcpiInteger v)) \<Rightarrow> (STATUS_SUCCESS, Some v)
      | (STATUS_SUCCESS, Some x) \<Rightarrow> (STATUS_ACPI_INVALID_ARGTYPE, None)
      | (status, x) \<Rightarrow> (status, None))"
  by (rule acpi_layout.query_integer_lookup [OF assms])

theorem acpi_integer_refines_lookup_witness:
  "AcpiDevicePropertiesQueryIntegerValue wdk_acpi demo_dsd (Some 0) (Some 49) True = Some (STATUS_SUCCESS, Some 16)
   \<and> AcpiDevicePropertiesQueryIntegerValue wdk_acpi demo_dsd (Some 0) (Some 53) True = Some (STATUS_ACPI_INVALID_ARGTYPE, None)"
  using acpi_integer_refines_lookup [OF wdk.acpi_layout_axioms demo_dsd_holds demo_keys(1)]
    acpi_integer_refines_lookup [OF wdk.acpi_layout_axioms demo_dsd_holds demo_keys(2)]
  by (simp add: demo_props_def)

text \<open>Whatever bytes the firmware returns, the walk over a properties package ends and the query
  returns a status: a package cannot make the driver loop.\<close>

theorem acpi_query_terminates:
  assumes "acpi_layout api"
  shows "\<exists>status p. AcpiDevicePropertiesQueryValue api mem pkg key hasValuePtr = Some (status, p)"
  using acpi_layout.queries_total [OF assms, of mem pkg key hasValuePtr] by auto

theorem acpi_query_terminates_witness:
  "\<exists>status p. AcpiDevicePropertiesQueryValue wdk_acpi (\<lambda>a. 3) (Some 0) (Some 8) True = Some (status, p)"
  by (rule acpi_query_terminates [OF wdk.acpi_layout_axioms])

text \<open>Evaluating a method sends at most two requests and keeps its books: on success the caller owns
  exactly one more buffer, and that buffer carries the signature and at least one argument; on every
  failure path nothing stays allocated; no buffer is freed twice.\<close>

theorem acpi_evaluate_ownership:
  assumes "acpi_layout (acpi pf)" "kernel_ok k" "AcpiEvaluateMethod pf n k = ((status, ret), k')"
  shows "kernel_ok k' \<and> requests k' \<le> requests k + 2
    \<and> (if NT_SUCCESS status
       then \<exists>b bytes. ret = Some (Some (b, bytes)) \<and> live k' = b # live k
          \<and> OutSignature (acpi pf) (as_memory bytes) 0 = OUTPUT_BUFFER_SIGNATURE (acpi pf)
          \<and> OutCount (acpi pf) (as_memory bytes) 0 \<noteq> 0
       else ret = None \<and> live k' = live k)"
  by (rule acpi_layout.evaluate_pool [OF assms(1) assms(3) assms(2) refl])

text \<open>A platform whose ACPI driver first asks for 24 bytes and then returns one integer.\<close>

definition demo_platform :: platform where
  "demo_platform = \<lparr>acpi = wdk_acpi, allocates = (\<lambda>k. True),
     driver = (\<lambda>k input outputSize.
       if outputSize < 24 then \<lparr>replyStatus = STATUS_BUFFER_OVERFLOW, replyInformation = 8, replyBytes = [0, 0, 0, 0, 24, 0, 0, 0]\<rparr>
       else \<lparr>replyStatus = STATUS_SUCCESS, replyInformation = 20,
             replyBytes = [0x41, 0x65, 0x6F, 0x42, 20, 0, 0, 0, 1, 0, 0, 0, 0, 0, 4, 0, 9, 0, 0, 0]\<rparr>)\<rparr>"

definition demo_input :: "acpi_input \<times> nat" where
  "demo_input = (SimpleInput ACPI_METHOD_ULONG_DSD, 12)"

definition demo_kernel :: kernel where
  "demo_kernel = \<lparr>live = [], allocations = 0, requests = 0, badFree = False\<rparr>"

lemma demo_kernel_ok: "kernel_ok demo_kernel"
  by (simp add: kernel_ok_def demo_kernel_def)

lemma demo_layout: "acpi_layout (acpi demo_platform)"
  by (simp add: demo_platform_def wdk.acpi_layout_axioms)

lemma demo_platform_fields:
  "acpi demo_platform = wdk_acpi" "allocates demo_platform j = True"
  "driver demo_platform j i n =
     (if n < 24 then \<lparr>replyStatus = STATUS_BUFFER_OVERFLOW, replyInformation = 8, replyBytes = [0, 0, 0, 0, 24, 0, 0, 0]\<rparr>
      else \<lparr>replyStatus = STATUS_SUCCESS, replyInformation = 20,
             replyBytes = [0x41, 0x65, 0x6F, 0x42, 20, 0, 0, 0, 1, 0, 0, 0, 0, 0, 4, 0, 9, 0, 0, 0]\<rparr>)"
  by (simp_all add: demo_platform_def)

lemma wdk_output_fields:
  "OutSignature wdk_acpi mem a = le32 mem a" "OutCount wdk_acpi mem a = le32 mem (a + 8)"
  "OutLength wdk_acpi mem a = le32 mem (a + 4)" "sizeof_OUTPUT_BUFFER wdk_acpi = 20"
  "OUTPUT_BUFFER_SIGNATURE wdk_acpi = 0x426F6541"
  by (simp_all add: wdk_acpi_def)

lemma demo_send:
  "n < 24 \<Longrightarrow> AcpiSendIoctlSynchronously demo_platform i (replicate n 0) k =
     (case allocate demo_platform k of (Some irp, k1) \<Rightarrow> case allocate demo_platform k1 of (Some mid, k2) \<Rightarrow>
        ((STATUS_BUFFER_OVERFLOW, [0, 0, 0, 0, 24, 0, 0, 0] @ replicate (n - 8) 0, None),
         release mid (release irp (k2\<lparr>requests := Suc (requests k2)\<rparr>))))"
  "AcpiSendIoctlSynchronously demo_platform i (replicate 24 0) k =
     (case allocate demo_platform k of (Some irp, k1) \<Rightarrow> case allocate demo_platform k1 of (Some mid, k2) \<Rightarrow>
        ((STATUS_SUCCESS, [0x41, 0x65, 0x6F, 0x42, 20, 0, 0, 0, 1, 0, 0, 0, 0, 0, 4, 0, 9, 0, 0, 0] @ replicate 4 0, Some 20),
         release mid (release irp (k2\<lparr>requests := Suc (requests k2)\<rparr>))))"
  by (simp_all add: AcpiSendIoctlSynchronously_def allocate_def demo_platform_fields wdk_output_fields le32_def as_memory_def)

lemma attempts_2: "acpi_attempts pf n sz 2 k = acpi_attempts pf n sz (Suc (Suc 0)) k"
  by (simp add: numeral_2_eq_2)

lemma demo_evaluate: "fst (fst (AcpiEvaluateMethod demo_platform demo_input demo_kernel)) = STATUS_SUCCESS"
  by (simp add: AcpiEvaluateMethod_def attempts_2 demo_send allocate_def demo_platform_fields wdk_output_fields
      le32_def as_memory_def)

theorem acpi_evaluate_ownership_witness:
  "\<exists>b. live (snd (AcpiEvaluateMethod demo_platform demo_input demo_kernel)) = [b]
     \<and> requests (snd (AcpiEvaluateMethod demo_platform demo_input demo_kernel)) \<le> 2"
proof -
  obtain st ret k' where e: "AcpiEvaluateMethod demo_platform demo_input demo_kernel = ((st, ret), k')"
    by (metis surj_pair)
  from acpi_evaluate_ownership [OF demo_layout demo_kernel_ok e] demo_evaluate e
  show ?thesis by (auto simp: demo_kernel_def)
qed

text \<open>A \<open>_DSM\<close> call releases its input buffer on every path, hands the caller the output buffer
  exactly when it succeeds, and asking for the supported functions leaves nothing allocated.\<close>

theorem acpi_dsm_ownership:
  assumes "acpi_layout (acpi pf)" "kernel_ok k"
    "AcpiExecuteDsmFunction pf hasPdo guid revision idx args argsSize True k = ((status, ret), k')"
    "AcpiQueryDsm pf hasPdo guid revision hasMask k = ((status2, supported), k'')"
  shows "kernel_ok k'
    \<and> (if NT_SUCCESS status then \<exists>b bytes. ret = Some (Some (b, bytes)) \<and> live k' = b # live k
       else ret = None \<and> live k' = live k)
    \<and> kernel_ok k'' \<and> live k'' = live k"
proof -
  note dp = acpi_layout.dsm_pool [OF assms(1) assms(3) assms(2) refl]
  have "kernel_ok k'' \<and> live k'' = live k"
  proof (cases "hasPdo \<and> guid \<noteq> None \<and> hasMask")
    case False
    then show ?thesis using assms(2,4) by (auto simp: AcpiQueryDsm_def split: if_splits)
  next
    case True
    obtain st out k1 where ex: "AcpiExecuteDsmFunction pf hasPdo guid revision ACPI_DSM_FUNCTION_IDX_QUERY None 0 True k = ((st, out), k1)"
      by (metis surj_pair)
    note ep = acpi_layout.dsm_pool [OF assms(1) ex assms(2) refl]
    have run: "AcpiQueryDsm pf hasPdo guid revision hasMask k = ((status2, supported), k'')" by (rule assms(4))
    show ?thesis
    proof (cases "NT_SUCCESS st")
      case False
      then show ?thesis using run ex ep True by (auto simp: AcpiQueryDsm_def)
    next
      case ok: True
      then obtain b bytes where b: "out = Some (Some (b, bytes))" "live k1 = b # live k" using ep by auto
      then have "k'' = release b k1"
        using run ex ok True by (auto simp: AcpiQueryDsm_def Let_def split: if_splits)
      then show ?thesis using release_live [of k1 b] ep b by simp
    qed
  qed
  then show ?thesis using dp by (simp split: if_splits)
qed

lemma demo_guid_length: "length ACPI_DEVICE_PROPERTIES_DSD_GUID = 16"
  by (simp add: ACPI_DEVICE_PROPERTIES_DSD_GUID_def)

theorem acpi_dsm_ownership_witness:
  "live (snd (AcpiQueryDsm demo_platform True (Some ACPI_DEVICE_PROPERTIES_DSD_GUID) 0 True demo_kernel)) = []"
proof -
  let ?g = "Some ACPI_DEVICE_PROPERTIES_DSD_GUID"
  obtain st ret k' where e: "AcpiExecuteDsmFunction demo_platform True ?g 0 1 None 0 True demo_kernel = ((st, ret), k')"
    by (metis surj_pair)
  obtain st2 m k'' where q: "AcpiQueryDsm demo_platform True ?g 0 True demo_kernel = ((st2, m), k'')"
    by (metis surj_pair)
  from acpi_dsm_ownership [OF demo_layout demo_kernel_ok e q] q show ?thesis by (simp add: demo_kernel_def)
qed

text \<open>The input buffer of a \<open>_DSM\<close> call is exactly as long as its four arguments, for any size of
  function arguments; each argument's length matches its data, and the method name it carries is _DSM.\<close>

theorem dsm_input_consistent:
  assumes "acpi_layout api" "length guid = 16" "length args = unat argsSize"
  shows "dsm_end api (dsm_input api guid revision idx (Some args) argsSize) = dsm_input_size api argsSize
    \<and> length (inArguments (dsm_input api guid revision idx (Some args) argsSize)) = ACPI_DSM_ARGUMENT_COUNT
    \<and> list_all (\<lambda>(t, len, bs). length bs = unat len) (inArguments (dsm_input api guid revision idx (Some args) argsSize))
    \<and> ulong_bytes (inMethodName (dsm_input api guid revision idx (Some args) argsSize)) = [0x5F, 0x44, 0x53, 0x4D]"
proof -
  note size = acpi_layout.argument_length [OF assms(1)] acpi_layout.argument_size [OF assms(1)]
  have name: "ulong_bytes ACPI_METHOD_ULONG_DSM = [0x5F, 0x44, 0x53, 0x4D]"
    by (simp add: ulong_bytes_def ACPI_METHOD_ULONG_DSM_def upt_rec)
  show ?thesis
    using size(2) assms(2,3)
    by (simp add: name dsm_end_def dsm_input_def dsm_input_size_def size(1) ACPI_DSM_ARGUMENT_COUNT_def)
      (simp add: ulong_bytes_def)
qed

theorem dsm_input_consistent_witness:
  "dsm_end wdk_acpi (dsm_input wdk_acpi ACPI_DEVICE_PROPERTIES_DSD_GUID 0 1 (Some [0, 0, 4, 0, 100, 0, 0, 0]) 8)
     = dsm_input_size wdk_acpi 8"
  using dsm_input_consistent [OF wdk.acpi_layout_axioms demo_guid_length, of "[0, 0, 4, 0, 100, 0, 0, 0]" 8 0 1]
  by simp

text \<open>The integer-array query takes the byte length of the array's first element for the number of
  elements: for an array of integers it fails for every requested length but 4, whatever the array's
  length is, and for length 4 it copies the first four.\<close>

theorem acpi_integer_array_count:
  assumes "acpi_layout api" "holds api mem pkg (AcpiPackage es)" "cstring_at mem k key"
    "dsd_lookup key es = (STATUS_SUCCESS, Some (AcpiPackage (map AcpiInteger ns)))" "ns \<noteq> []" "n \<noteq> 0"
  shows "\<exists>vs. AcpiDevicePropertiesQueryIntegerArrayValue api mem (Some pkg) (Some k) True n
      = Some (if n = 4 then (STATUS_SUCCESS, vs) else (STATUS_ACPI_INCORRECT_ARGUMENT_COUNT, []))
    \<and> length vs = 4 \<and> take (min 4 (length ns)) vs = take 4 ns"
proof -
  obtain p where q: "AcpiDevicePropertiesQueryValue api mem (Some pkg) (Some k) True = Some (STATUS_SUCCESS, Some p)"
    and h: "holds api mem p (AcpiPackage (map AcpiInteger ns))"
    using acpi_layout.query_value_lookup [OF assms(1-3)] assms(4) by (auto simp: value_at_def)
  obtain i rest where ns: "ns = i # rest" using assms(5) by (cases ns) auto
  have seq: "holds_seq api mem (ArgData api p) (map AcpiInteger ns) (ArgData api p + unat (ArgDataLength api mem p))"
    using h by simp
  then have len: "ArgDataLength api mem (ArgData api p) = 4" using ns by simp
  have copy: "take (min 4 (length ns)) (acpi_copy api mem (ArgData api p) 4) = take 4 ns"
  proof -
    have pre: "m \<le> j \<Longrightarrow> take m (acpi_copy api mem a j) = acpi_copy api mem a m" for m j a
    proof (induction j arbitrary: m a)
      case (Suc j)
      then show ?case by (cases m) auto
    qed simp
    show ?thesis using acpi_layout.copy_seq [OF assms(1) seq, of "min 4 (length ns)"] pre [of "min 4 (length ns)" 4]
      by (simp add: min_def split: if_splits)
  qed
  have l: "length (acpi_copy api mem a j) = j" for a j by (induction j arbitrary: a) auto
  have "ucast (4 :: u16) = (4 :: u32)" by simp
  then show ?thesis using assms(2,6) len copy l
    by (auto simp: AcpiDevicePropertiesQueryIntegerArrayValue_def q Let_def intro!: exI [of _ "acpi_copy api mem (ArgData api p) 4"])
qed

theorem acpi_integer_array_count_witness:
  "AcpiDevicePropertiesQueryIntegerArrayValue wdk_acpi demo_dsd (Some 0) (Some 53) True 1
     = Some (STATUS_ACPI_INCORRECT_ARGUMENT_COUNT, [])"
  using acpi_integer_array_count [OF wdk.acpi_layout_axioms demo_dsd_holds demo_keys(2), of "[7]" 1]
  by (simp add: demo_props_def)

end
