(* ===== verification/InterruptSystem.thy ===== *)
theory InterruptSystem imports EqosInterrupts begin

text \<open>
  The interrupt path as a concurrent system: the device raises status bits, the service routine may run
  at any time, the deferred procedure call runs its turns, and the framework arms and disarms the
  notification of each queue. The steps are the critical sections of device.cpp. The invariant says that
  interrupts never stay masked and that no notification is lost.
\<close>

section \<open>Threads and steps\<close>

datatype dpc_stage = DpcIdle | DpcTake | DpcNotify u32 | DpcReenable

text \<open>A framework thread arming or disarming a queue, between the queue lock and the interrupt lock.\<close>

datatype set_stage = SetIdle | SetEnable | SetDisable

record eqos_sys =
  dev :: DeviceContext
  stage :: dpc_stage
  rxSet :: set_stage
  txSet :: set_stage

definition set_pending :: "u64 option \<Rightarrow> set_stage" where
  "set_pending q = (if q = None then SetDisable else SetEnable)"

inductive intr_step :: "eqos_sys \<Rightarrow> eqos_sys \<Rightarrow> bool" where
  raise: "intr_step s (s\<lparr>dev := (dev s)\<lparr>chStatus := chStatus (dev s) OR x, macStatus := macStatus (dev s) OR y\<rparr>\<rparr>)"
| isr: "intr_step s (s\<lparr>dev := snd (DeviceInterruptIsr (dev s))\<rparr>)"
| dpc_start: "stage s = DpcIdle \<Longrightarrow> dpcQueued (dev s) \<Longrightarrow>
    intr_step s (s\<lparr>dev := (dev s)\<lparr>dpcQueued := False\<rparr>, stage := DpcTake\<rparr>)"
| take_none: "stage s = DpcTake \<Longrightarrow> dpc_take (dev s) = (0, c) \<Longrightarrow> intr_step s (s\<lparr>dev := c, stage := DpcIdle\<rparr>)"
| take_some: "stage s = DpcTake \<Longrightarrow> dpc_take (dev s) = (st, c) \<Longrightarrow> st \<noteq> 0 \<Longrightarrow>
    intr_step s (s\<lparr>dev := c, stage := DpcNotify st\<rparr>)"
| notify: "stage s = DpcNotify st \<Longrightarrow> intr_step s (s\<lparr>dev := dpc_notify st (dev s), stage := DpcReenable\<rparr>)"
| reenable: "stage s = DpcReenable \<Longrightarrow> intr_step s (s\<lparr>dev := dpc_reenable (dev s), stage := DpcTake\<rparr>)"
| set_rx: "rxSet s = SetIdle \<Longrightarrow> intr_step s (s\<lparr>dev := set_rx_queue q (dev s), rxSet := set_pending q\<rparr>)"
| mask_rx: "rxSet s \<noteq> SetIdle \<Longrightarrow>
    intr_step s (s\<lparr>dev := set_mask InterruptsRx (rxSet s = SetEnable) (dev s), rxSet := SetIdle\<rparr>)"
| set_tx: "txSet s = SetIdle \<Longrightarrow> intr_step s (s\<lparr>dev := set_tx_queue q (dev s), txSet := set_pending q\<rparr>)"
| mask_tx: "txSet s \<noteq> SetIdle \<Longrightarrow>
    intr_step s (s\<lparr>dev := set_mask InterruptsTx (txSet s = SetEnable) (dev s), txSet := SetIdle\<rparr>)"

text \<open>The state after \<open>DeviceD0Entry\<close>: nothing pending, state interrupts wanted and enabled.\<close>

definition intr_initial :: "eqos_sys \<Rightarrow> bool" where
  "intr_initial s \<longleftrightarrow> stage s = DpcIdle \<and> rxSet s = SetIdle \<and> txSet s = SetIdle
     \<and> interruptStatus (dev s) = 0 \<and> \<not> dpcQueued (dev s) \<and> rxQueue (dev s) = None \<and> txQueue (dev s) = None
     \<and> interruptsWanted (dev s) = InterruptsState
     \<and> (\<exists>m. mregs (dev s) = DeviceInterruptSet_Locked InterruptsState m)"

section \<open>The invariant\<close>

definition masks_are :: "u8 \<Rightarrow> DeviceContext \<Rightarrow> bool" where
  "masks_are w c \<longleftrightarrow> Read32 Mac_Interrupt_Enable (mregs c) = MakeMacInterruptEnable w
     \<and> Read32 Ch_Interrupt_Enable (mregs c) = MakeChannelInterruptEnable w"

fun stage_status :: "dpc_stage \<Rightarrow> u32" where
  "stage_status (DpcNotify st) = st"
| "stage_status _ = 0"

fun stage_reenables :: "dpc_stage \<Rightarrow> bool" where
  "stage_reenables (DpcNotify st) = True"
| "stage_reenables DpcReenable = True"
| "stage_reenables _ = False"

text \<open>The masks are the wanted ones, or all masked with the procedure call still due to restore them.\<close>

definition masks_inv :: "eqos_sys \<Rightarrow> bool" where
  "masks_inv s \<longleftrightarrow>
     (if interruptStatus (dev s) \<noteq> 0 then dpcQueued (dev s) \<or> stage s \<noteq> DpcIdle else True)
     \<and> (masks_are (interruptsWanted (dev s)) (dev s)
        \<or> masks_are InterruptsNone (dev s) \<and> (interruptStatus (dev s) \<noteq> 0 \<or> stage_reenables (stage s)))"

text \<open>
  An armed queue whose arming is complete is unmasked, or its event is recorded and on its way.
\<close>

definition armed_inv :: "string \<Rightarrow> nat \<Rightarrow> u64 option \<Rightarrow> set_stage \<Rightarrow> u8 \<Rightarrow> u32 \<Rightarrow> u32 \<Rightarrow> bool" where
  "armed_inv f k q pending w recorded taken \<longleftrightarrow>
     (if pending = SetDisable then q = None
      else q = None \<or> pending = SetEnable \<or> bit w k \<or> isset ChannelStatus_t f recorded \<or> isset ChannelStatus_t f taken)"

definition rx_armed_inv :: "eqos_sys \<Rightarrow> bool" where
  "rx_armed_inv s \<longleftrightarrow> armed_inv ''Rx'' 1 (rxQueue (dev s)) (rxSet s) (interruptsWanted (dev s))
     (interruptStatus (dev s)) (stage_status (stage s))"

definition tx_armed_inv :: "eqos_sys \<Rightarrow> bool" where
  "tx_armed_inv s \<longleftrightarrow> armed_inv ''Tx'' 2 (txQueue (dev s)) (txSet s) (interruptsWanted (dev s))
     (interruptStatus (dev s)) (stage_status (stage s))"

definition intr_inv :: "eqos_sys \<Rightarrow> bool" where
  "intr_inv s \<longleftrightarrow> masks_inv s \<and> rx_armed_inv s \<and> tx_armed_inv s"

section \<open>What each section does to the fields of the invariant\<close>

lemma masks_set: "masks_are w (c\<lparr>mregs := DeviceInterruptSet_Locked w m\<rparr>)"
  by (simp add: masks_are_def DeviceInterruptSet_Locked_def)

lemma masks_cong: "mregs c = mregs d \<Longrightarrow> masks_are w c = masks_are w d"
  by (simp add: masks_are_def)

lemma take_fields:
  assumes "dpc_take c = (st, d)"
  shows "st = interruptStatus c" "interruptStatus d = 0" "mregs d = mregs c" "dpcQueued d = dpcQueued c"
    "interruptsWanted d = interruptsWanted c" "rxQueue d = rxQueue c" "txQueue d = txQueue c"
  using assms by (auto simp: dpc_take_def Let_def split: if_splits)

lemma notify_fields:
  "interruptStatus (dpc_notify st c) = interruptStatus c" "mregs (dpc_notify st c) = mregs c"
  "dpcQueued (dpc_notify st c) = dpcQueued c" "interruptsWanted (dpc_notify st c) = interruptsWanted c"
  "rxQueue (dpc_notify st c) = (if isset ChannelStatus_t ''Rx'' st then None else rxQueue c)"
  "txQueue (dpc_notify st c) = (if isset ChannelStatus_t ''Tx'' st then None else txQueue c)"
  by (simp_all add: dpc_notify_def Let_def dpc_notify_rx_def dpc_notify_tx_def split: option.split)

lemma reenable_fields:
  "interruptStatus (dpc_reenable c) = interruptStatus c" "dpcQueued (dpc_reenable c) = dpcQueued c"
  "interruptsWanted (dpc_reenable c) = interruptsWanted c" "rxQueue (dpc_reenable c) = rxQueue c"
  "txQueue (dpc_reenable c) = txQueue c"
  by (simp_all add: dpc_reenable_def)

lemma mask_fields:
  "interruptStatus (set_mask b on c) = interruptStatus c" "dpcQueued (set_mask b on c) = dpcQueued c"
  "rxQueue (set_mask b on c) = rxQueue c" "txQueue (set_mask b on c) = txQueue c"
  "interruptsWanted (set_mask b on c) = (if on then interruptsWanted c OR b else interruptsWanted c AND NOT b)"
  by (simp_all add: set_mask_def DeviceInterruptEnable_def DeviceInterruptDisable_def Let_def)

lemma mask_masks:
  "masks_are (interruptsWanted c) c \<Longrightarrow> masks_are (interruptsWanted (set_mask b on c)) (set_mask b on c)"
  "masks_are InterruptsNone c \<Longrightarrow> masks_are InterruptsNone (set_mask b on c)
     \<or> masks_are (interruptsWanted (set_mask b on c)) (set_mask b on c)"
  by (auto simp: set_mask_def DeviceInterruptEnable_def DeviceInterruptDisable_def Let_def masks_set masks_are_def
      DeviceInterruptSet_Locked_def)

lemma isr_fields:
  fixes c defines "d \<equiv> snd (DeviceInterruptIsr c)"
  shows "rxQueue d = rxQueue c" "txQueue d = txQueue c"
    "interruptStatus d = interruptStatus c OR isr_new_status c"
    "dpcQueued d = (isr_new_status c \<noteq> 0 \<or> dpcQueued c)"
    "bit (interruptsWanted d) 1 = (bit (interruptsWanted c) 1 \<and> \<not> isset ChannelStatus_t ''Rx'' (isr_new_status c))"
    "bit (interruptsWanted d) 2 = (bit (interruptsWanted c) 2 \<and> \<not> isset ChannelStatus_t ''Tx'' (isr_new_status c))"
  unfolding d_def
  by (auto simp: DeviceInterruptIsr_def Let_def bit_simps mask_bits)

lemma isr_masks:
  "isr_new_status c \<noteq> 0 \<Longrightarrow> masks_are InterruptsNone (snd (DeviceInterruptIsr c))"
  "isr_new_status c = 0 \<Longrightarrow> mregs (snd (DeviceInterruptIsr c)) = mregs c
     \<and> interruptsWanted (snd (DeviceInterruptIsr c)) = interruptsWanted c"
  by (auto simp: DeviceInterruptIsr_def Let_def masks_are_def DeviceInterruptSet_Locked_def)

section \<open>Preservation\<close>

lemma masks_inv_step: "intr_step s t \<Longrightarrow> masks_inv s \<Longrightarrow> masks_inv t"
proof (induction rule: intr_step.cases)
  case (raise s x y)
  then show ?case by (simp add: masks_inv_def masks_are_def)
next
  case (isr s)
  then show ?case
    using isr_fields(3,4) [of "dev s"] isr_masks [of "dev s"]
    by (cases "isr_new_status (dev s) = 0") (auto simp: masks_inv_def masks_are_def or_zero_iff split: if_splits)
next
  case (dpc_start s)
  then show ?case by (auto simp: masks_inv_def masks_are_def split: if_splits)
next
  case (take_none s c)
  then show ?case using take_fields [OF take_none(4)] by (auto simp: masks_inv_def masks_are_def split: if_splits)
next
  case (take_some s st c)
  then show ?case using take_fields [OF take_some(4)] by (auto simp: masks_inv_def masks_are_def split: if_splits)
next
  case (notify s st)
  then show ?case by (auto simp: masks_inv_def masks_are_def notify_fields split: if_splits)
next
  case (reenable s)
  then show ?case
    by (cases "interruptsWanted (dev s) = InterruptsNone")
      (auto simp: masks_inv_def reenable_fields masks_set dpc_reenable_def split: if_splits)
next
  case (set_rx s q)
  then show ?case by (auto simp: masks_inv_def masks_are_def set_rx_queue_def split: if_splits)
next
  case (mask_rx s)
  then show ?case using mask_masks [of "dev s" InterruptsRx "rxSet s = SetEnable"]
    by (auto simp: masks_inv_def mask_fields(1,2) split: if_splits)
next
  case (set_tx s q)
  then show ?case by (auto simp: masks_inv_def masks_are_def set_tx_queue_def split: if_splits)
next
  case (mask_tx s)
  then show ?case using mask_masks [of "dev s" InterruptsTx "txSet s = SetEnable"]
    by (auto simp: masks_inv_def mask_fields(1,2) split: if_splits)
qed

lemma rx_armed_step: "intr_step s t \<Longrightarrow> rx_armed_inv s \<Longrightarrow> rx_armed_inv t"
proof (induction rule: intr_step.cases)
  case (isr s)
  then show ?case using isr_fields [of "dev s"]
    by (auto simp: rx_armed_inv_def armed_inv_def isset_or split: if_splits)
next
  case (take_none s c)
  then show ?case using take_fields [OF take_none(4)]
    by (auto simp: rx_armed_inv_def armed_inv_def split: if_splits)
next
  case (take_some s st c)
  then show ?case using take_fields [OF take_some(4)]
    by (auto simp: rx_armed_inv_def armed_inv_def split: if_splits)
qed (auto simp: rx_armed_inv_def armed_inv_def notify_fields reenable_fields mask_fields set_rx_queue_def
      set_tx_queue_def set_pending_def bit_simps mask_bits split: if_splits; (metis set_stage.exhaust)?)+

lemma tx_armed_step: "intr_step s t \<Longrightarrow> tx_armed_inv s \<Longrightarrow> tx_armed_inv t"
proof (induction rule: intr_step.cases)
  case (isr s)
  then show ?case using isr_fields [of "dev s"]
    by (auto simp: tx_armed_inv_def armed_inv_def isset_or split: if_splits)
next
  case (take_none s c)
  then show ?case using take_fields [OF take_none(4)]
    by (auto simp: tx_armed_inv_def armed_inv_def split: if_splits)
next
  case (take_some s st c)
  then show ?case using take_fields [OF take_some(4)]
    by (auto simp: tx_armed_inv_def armed_inv_def split: if_splits)
qed (auto simp: tx_armed_inv_def armed_inv_def notify_fields reenable_fields mask_fields set_rx_queue_def
      set_tx_queue_def set_pending_def bit_simps mask_bits split: if_splits; (metis set_stage.exhaust)?)+

lemma intr_initial_inv: "intr_initial s \<Longrightarrow> intr_inv s"
  by (auto simp: intr_initial_def intr_inv_def masks_inv_def rx_armed_inv_def tx_armed_inv_def armed_inv_def
      masks_are_def DeviceInterruptSet_Locked_def)

lemma intr_reachable_inv: "intr_step\<^sup>*\<^sup>* s t \<Longrightarrow> intr_initial s \<Longrightarrow> intr_inv t"
proof (induction rule: rtranclp_induct)
  case base
  then show ?case by (rule intr_initial_inv)
next
  case (step t u)
  then show ?case
    using masks_inv_step rx_armed_step tx_armed_step unfolding intr_inv_def by blast
qed

section \<open>A concrete device\<close>

definition demo_dev :: DeviceContext where
  "demo_dev = \<lparr>mregs = DeviceInterruptSet_Locked InterruptsState \<lparr>regs = (\<lambda>r. 0), wlog = []\<rparr>,
     chStatus = 0, macStatus = 0, interruptStatus = 0, interruptsWanted = InterruptsState,
     rxQueue = None, txQueue = None, dpcQueued = False, linkWork = False, notified = [],
     isrHandled = 0, isrIgnored = 0, dpcLinkState = 0, dpcRx = 0, dpcTx = 0, dpcAbnormalStatus = 0, dpcFatalBusError = 0\<rparr>"

definition demo_sys :: eqos_sys where
  "demo_sys = \<lparr>dev = demo_dev, stage = DpcIdle, rxSet = SetIdle, txSet = SetIdle\<rparr>"

lemma demo_sys_initial: "intr_initial demo_sys"
  by (auto simp: intr_initial_def demo_sys_def demo_dev_def)

text \<open>Both queues armed.\<close>

definition demo_armed :: eqos_sys where
  "demo_armed = \<lparr>dev = DeviceSetNotificationTxQueue (Some 8) (DeviceSetNotificationRxQueue (Some 7) demo_dev),
     stage = DpcIdle, rxSet = SetIdle, txSet = SetIdle\<rparr>"

lemma demo_armed_reachable: "intr_step\<^sup>*\<^sup>* demo_sys demo_armed"
proof -
  let ?s1 = "demo_sys\<lparr>dev := set_rx_queue (Some 7) (dev demo_sys), rxSet := set_pending (Some 7)\<rparr>"
  let ?s2 = "?s1\<lparr>dev := set_mask InterruptsRx (rxSet ?s1 = SetEnable) (dev ?s1), rxSet := SetIdle\<rparr>"
  let ?s3 = "?s2\<lparr>dev := set_tx_queue (Some 8) (dev ?s2), txSet := set_pending (Some 8)\<rparr>"
  let ?s4 = "?s3\<lparr>dev := set_mask InterruptsTx (txSet ?s3 = SetEnable) (dev ?s3), txSet := SetIdle\<rparr>"
  have "intr_step demo_sys ?s1" by (rule set_rx) (simp add: demo_sys_def)
  moreover have "intr_step ?s1 ?s2" by (rule mask_rx) (simp add: set_pending_def)
  moreover have "intr_step ?s2 ?s3" by (rule set_tx) (simp add: demo_sys_def)
  moreover have "intr_step ?s3 ?s4" by (rule mask_tx) (simp add: set_pending_def)
  ultimately have "intr_step\<^sup>*\<^sup>* demo_sys ?s4" by (meson converse_rtranclp_into_rtranclp rtranclp.rtrancl_refl)
  moreover have "?s4 = demo_armed"
    by (simp add: demo_armed_def demo_sys_def DeviceSetNotificationRxQueue_def DeviceSetNotificationTxQueue_def set_pending_def)
  ultimately show ?thesis by simp
qed

section \<open>The properties\<close>

text \<open>C20: Interrupts never stay masked: in every reachable state in which no procedure call is queued or
  running, the device's interrupt masks are the wanted ones, whatever interleaving of the service
  routine, the procedure call and the framework's threads led there.\<close>

theorem intr_masks_restored:
  assumes "intr_initial s0" "intr_step\<^sup>*\<^sup>* s0 s" "stage s = DpcIdle" "\<not> dpcQueued (dev s)"
  shows "Read32 Mac_Interrupt_Enable (mregs (dev s)) = MakeMacInterruptEnable (interruptsWanted (dev s))
     \<and> Read32 Ch_Interrupt_Enable (mregs (dev s)) = MakeChannelInterruptEnable (interruptsWanted (dev s))
     \<and> interruptStatus (dev s) = 0"
  using intr_reachable_inv [OF assms(2,1)] assms(3,4)
  by (auto simp: intr_inv_def masks_inv_def masks_are_def split: if_splits)

theorem intr_masks_restored_witness:
  "Read32 Ch_Interrupt_Enable (mregs (dev demo_armed)) = MakeChannelInterruptEnable (interruptsWanted (dev demo_armed))"
  using intr_masks_restored [OF demo_sys_initial demo_armed_reachable]
  by (simp add: demo_armed_def DeviceSetNotificationRxQueue_def DeviceSetNotificationTxQueue_def mask_fields
      set_rx_queue_def set_tx_queue_def demo_dev_def)

lemma channel_enable_fields:
  "isset ChannelInterruptEnable_t ''Rx'' (MakeChannelInterruptEnable w) = bit w 1"
  "isset ChannelInterruptEnable_t ''Tx'' (MakeChannelInterruptEnable w) = bit w 2"
  "isset ChannelInterruptEnable_t ''FatalBusError'' (MakeChannelInterruptEnable w) = bit w 0"
  "isset ChannelInterruptEnable_t ''AbnormalInterruptSummary'' (MakeChannelInterruptEnable w) = bit w 0"
  "isset ChannelInterruptEnable_t ''NormalInterruptSummary'' (MakeChannelInterruptEnable w)"
proof -
  have one: "(1 :: u32) = flag True" by (simp add: flag_def)
  have w: "snd (member ChannelInterruptEnable_t ''Rx'') = 1" "snd (member ChannelInterruptEnable_t ''Tx'') = 1"
    "snd (member ChannelInterruptEnable_t ''FatalBusError'') = 1"
    "snd (member ChannelInterruptEnable_t ''AbnormalInterruptSummary'') = 1"
    "snd (member ChannelInterruptEnable_t ''NormalInterruptSummary'') = 1"
    by (simp_all add: ChannelInterruptEnable_t_def)
  note fields = channelInterruptEnable.isset_putf_other channelInterruptEnable.isset_putf_flag w
  show "isset ChannelInterruptEnable_t ''Rx'' (MakeChannelInterruptEnable w) = bit w 1"
    "isset ChannelInterruptEnable_t ''Tx'' (MakeChannelInterruptEnable w) = bit w 2"
    "isset ChannelInterruptEnable_t ''FatalBusError'' (MakeChannelInterruptEnable w) = bit w 0"
    "isset ChannelInterruptEnable_t ''AbnormalInterruptSummary'' (MakeChannelInterruptEnable w) = bit w 0"
    "isset ChannelInterruptEnable_t ''NormalInterruptSummary'' (MakeChannelInterruptEnable w)"
    unfolding MakeChannelInterruptEnable_def wanted_bits one by (simp_all add: fields)
qed

text \<open>
  What is owed to the framework for a queue: the notifications delivered so far, in order, and the one
  an armed queue still has to come. Every step that does not arm or disarm the queue keeps it.
\<close>

fun rx_notice :: "notification \<Rightarrow> bool" where
  "rx_notice (NotifyMoreReceivedPackets q) = True"
| "rx_notice (NotifyMoreCompletedPackets q) = False"

fun tx_notice :: "notification \<Rightarrow> bool" where
  "tx_notice (NotifyMoreReceivedPackets q) = False"
| "tx_notice (NotifyMoreCompletedPackets q) = True"

definition rx_owed :: "DeviceContext \<Rightarrow> notification list" where
  "rx_owed c = filter rx_notice (notified c)
     @ (case rxQueue c of Some q \<Rightarrow> [NotifyMoreReceivedPackets q] | None \<Rightarrow> [])"

definition tx_owed :: "DeviceContext \<Rightarrow> notification list" where
  "tx_owed c = filter tx_notice (notified c)
     @ (case txQueue c of Some q \<Rightarrow> [NotifyMoreCompletedPackets q] | None \<Rightarrow> [])"

text \<open>A step in which the framework does not start to arm or disarm the queue anew.\<close>

definition rx_kept_step :: "eqos_sys \<Rightarrow> eqos_sys \<Rightarrow> bool" where
  "rx_kept_step s t \<longleftrightarrow> intr_step s t \<and> (rxSet t = SetIdle \<or> rxSet s \<noteq> SetIdle)"

definition tx_kept_step :: "eqos_sys \<Rightarrow> eqos_sys \<Rightarrow> bool" where
  "tx_kept_step s t \<longleftrightarrow> intr_step s t \<and> (txSet t = SetIdle \<or> txSet s \<noteq> SetIdle)"

lemma notified_fields:
  "dpc_take c = (st, d) \<Longrightarrow> notified d = notified c"
  "notified (snd (DeviceInterruptIsr c)) = notified c"
  "notified (dpc_reenable c) = notified c"
  "notified (set_mask b on c) = notified c"
  "notified (set_rx_queue r c) = notified c" "notified (set_tx_queue r c) = notified c"
  by (auto simp: dpc_take_def DeviceInterruptIsr_def dpc_reenable_def set_mask_def DeviceInterruptEnable_def
      DeviceInterruptDisable_def set_rx_queue_def set_tx_queue_def Let_def split: if_splits)

lemma notify_rx_notified:
  "\<exists>new. notified (dpc_notify_rx st c) = notified c @ new"
  "rx_owed (dpc_notify_rx st c) = rx_owed c" "tx_owed (dpc_notify_rx st c) = tx_owed c"
  by (cases "rxQueue c"; cases "isset ChannelStatus_t ''Rx'' st"; simp add: dpc_notify_rx_def rx_owed_def tx_owed_def)+

lemma notify_tx_notified:
  "\<exists>new. notified (dpc_notify_tx st c) = notified c @ new"
  "rx_owed (dpc_notify_tx st c) = rx_owed c" "tx_owed (dpc_notify_tx st c) = tx_owed c"
  by (cases "txQueue c"; cases "isset ChannelStatus_t ''Tx'' st"; simp add: dpc_notify_tx_def rx_owed_def tx_owed_def)+

lemma owed_counters:
  "rx_owed (c\<lparr>dpcAbnormalStatus := a, dpcFatalBusError := f\<rparr>) = rx_owed c"
  "tx_owed (c\<lparr>dpcAbnormalStatus := a, dpcFatalBusError := f\<rparr>) = tx_owed c"
  by (simp_all add: rx_owed_def tx_owed_def)

lemma notify_notified:
  "\<exists>new. notified (dpc_notify st c) = notified c @ new"
  "rx_owed (dpc_notify st c) = rx_owed c" "tx_owed (dpc_notify st c) = tx_owed c"
proof -
  obtain n m where "notified (dpc_notify_rx st c) = notified c @ n"
    "notified (dpc_notify_tx st (dpc_notify_rx st c)) = notified (dpc_notify_rx st c) @ m"
    using notify_rx_notified(1) notify_tx_notified(1) by blast
  then show "\<exists>new. notified (dpc_notify st c) = notified c @ new" by (simp add: dpc_notify_def Let_def)
  show "rx_owed (dpc_notify st c) = rx_owed c" "tx_owed (dpc_notify st c) = tx_owed c"
    by (simp_all add: dpc_notify_def Let_def owed_counters notify_rx_notified(2,3) notify_tx_notified(2,3))
qed

lemma other_queue:
  "txQueue (set_rx_queue r c) = txQueue c" "rxQueue (set_tx_queue r c) = rxQueue c"
  by (simp_all add: set_rx_queue_def set_tx_queue_def)

lemma step_notified:
  assumes "intr_step s t"
  shows "\<exists>new. notified (dev t) = notified (dev s) @ new"
  using assms
proof (cases rule: intr_step.cases)
  case (take_none c)
  then show ?thesis using notified_fields(1) [OF take_none(3)] by simp
next
  case (take_some st c)
  then show ?thesis using notified_fields(1) [OF take_some(3)] by simp
next
  case (notify st)
  then show ?thesis using notify_notified(1) [of st "dev s"] by simp
qed (simp_all add: notified_fields(2-))

lemma step_rx_owed:
  assumes "rx_kept_step s t"
  shows "rx_owed (dev t) = rx_owed (dev s)"
proof -
  have kept: "rxSet t = SetIdle \<or> rxSet s \<noteq> SetIdle" and "intr_step s t" using assms by (simp_all add: rx_kept_step_def)
  from this(2) show ?thesis
  proof (cases rule: intr_step.cases)
    case (take_none c)
    then show ?thesis using take_fields [OF take_none(3)] notified_fields(1) [OF take_none(3)] by (simp add: rx_owed_def)
  next
    case (take_some st c)
    then show ?thesis using take_fields [OF take_some(3)] notified_fields(1) [OF take_some(3)] by (simp add: rx_owed_def)
  next
    case (notify st)
    then show ?thesis by (simp add: notify_notified)
  next
    case (set_rx q)
    then show ?thesis using kept by (simp add: set_pending_def split: if_splits)
  qed (simp_all add: rx_owed_def notified_fields(2-) isr_fields reenable_fields mask_fields other_queue)
qed

lemma step_tx_owed:
  assumes "tx_kept_step s t"
  shows "tx_owed (dev t) = tx_owed (dev s)"
proof -
  have kept: "txSet t = SetIdle \<or> txSet s \<noteq> SetIdle" and "intr_step s t" using assms by (simp_all add: tx_kept_step_def)
  from this(2) show ?thesis
  proof (cases rule: intr_step.cases)
    case (take_none c)
    then show ?thesis using take_fields [OF take_none(3)] notified_fields(1) [OF take_none(3)] by (simp add: tx_owed_def)
  next
    case (take_some st c)
    then show ?thesis using take_fields [OF take_some(3)] notified_fields(1) [OF take_some(3)] by (simp add: tx_owed_def)
  next
    case (notify st)
    then show ?thesis by (simp add: notify_notified)
  next
    case (set_tx q)
    then show ?thesis using kept by (simp add: set_pending_def split: if_splits)
  qed (simp_all add: tx_owed_def notified_fields(2-) isr_fields reenable_fields mask_fields other_queue)
qed

lemma rx_kept_run:
  "rx_kept_step\<^sup>*\<^sup>* s t \<Longrightarrow> intr_step\<^sup>*\<^sup>* s t \<and> rx_owed (dev t) = rx_owed (dev s)
     \<and> (\<exists>new. notified (dev t) = notified (dev s) @ new)"
proof (induction rule: rtranclp_induct)
  case (step t u)
  moreover have "intr_step t u" using step(2) by (simp add: rx_kept_step_def)
  ultimately show ?case
    using step_rx_owed [OF step(2)] step_notified [of t u] by (auto intro: rtranclp.rtrancl_into_rtrancl)
qed simp

lemma tx_kept_run:
  "tx_kept_step\<^sup>*\<^sup>* s t \<Longrightarrow> intr_step\<^sup>*\<^sup>* s t \<and> tx_owed (dev t) = tx_owed (dev s)
     \<and> (\<exists>new. notified (dev t) = notified (dev s) @ new)"
proof (induction rule: rtranclp_induct)
  case (step t u)
  moreover have "intr_step t u" using step(2) by (simp add: tx_kept_step_def)
  ultimately show ?case
    using step_tx_owed [OF step(2)] step_notified [of t u] by (auto intro: rtranclp.rtrancl_into_rtrancl)
qed simp

lemma demo_armed_fields:
  "rxQueue (dev demo_armed) = Some 7" "txQueue (dev demo_armed) = Some 8" "rxSet demo_armed = SetIdle"
  "txSet demo_armed = SetIdle" "stage demo_armed = DpcIdle" "\<not> dpcQueued (dev demo_armed)"
  by (simp_all add: demo_armed_def DeviceSetNotificationRxQueue_def DeviceSetNotificationTxQueue_def mask_fields
       set_rx_queue_def set_tx_queue_def demo_dev_def)

lemma kept_idle_step:
  assumes "intr_step s t" "rxSet t = SetIdle" "txSet t = SetIdle" "rx_kept_step\<^sup>*\<^sup>* t u" "tx_kept_step\<^sup>*\<^sup>* t u"
  shows "rx_kept_step\<^sup>*\<^sup>* s u" "tx_kept_step\<^sup>*\<^sup>* s u"
  using assms by (auto simp: rx_kept_step_def tx_kept_step_def intro: converse_rtranclp_into_rtranclp)

text \<open>The device raises both events, the service routine records them and the procedure call delivers them.\<close>

lemma demo_delivered:
  "\<exists>t. rx_kept_step\<^sup>*\<^sup>* demo_armed t \<and> tx_kept_step\<^sup>*\<^sup>* demo_armed t \<and> rxQueue (dev t) = None \<and> txQueue (dev t) = None"
proof -
  let ?e = "0x41 :: u32"
  have ev: "isset ChannelStatus_t ''Rx'' ?e" "isset ChannelStatus_t ''Tx'' ?e"
    by (simp_all add: isset_def getf_def channel_fields_low get_bits_def)
  let ?t1 = "demo_armed\<lparr>dev := (dev demo_armed)\<lparr>chStatus := chStatus (dev demo_armed) OR ?e,
      macStatus := macStatus (dev demo_armed) OR 0\<rparr>\<rparr>"
  let ?t2 = "?t1\<lparr>dev := snd (DeviceInterruptIsr (dev ?t1))\<rparr>"
  let ?t3 = "?t2\<lparr>dev := (dev ?t2)\<lparr>dpcQueued := False\<rparr>, stage := DpcTake\<rparr>"
  let ?st = "interruptStatus (dev ?t3)"
  let ?t4 = "?t3\<lparr>dev := snd (dpc_take (dev ?t3)), stage := DpcNotify ?st\<rparr>"
  let ?t5 = "?t4\<lparr>dev := dpc_notify ?st (dev ?t4), stage := DpcReenable\<rparr>"
  have new: "isset ChannelStatus_t ''Rx'' ?st" "isset ChannelStatus_t ''Tx'' ?st"
    using ev by (simp_all add: isr_fields isr_new_status_bits isset_or)
  then have nz: "?st \<noteq> 0" by (auto simp: isset_def)
  have "isset ChannelStatus_t ''Rx'' (isr_new_status (dev ?t1))" using ev by (simp add: isr_new_status_bits isset_or)
  then have q: "isr_new_status (dev ?t1) \<noteq> 0" by (auto simp: isset_def)
  have steps: "intr_step demo_armed ?t1" "intr_step ?t1 ?t2" by (rule raise, rule isr)
  have "intr_step ?t2 ?t3" by (rule dpc_start) (use q in \<open>simp_all add: demo_armed_fields isr_fields\<close>)
  note steps = steps this
  have "intr_step ?t3 ?t4" by (rule take_some) (use nz in \<open>simp_all add: dpc_take_def Let_def\<close>)
  note steps = steps this
  have "intr_step ?t4 ?t5" by (rule notify) simp
  note steps = steps this
  have idle: "rxSet ?t1 = SetIdle" "txSet ?t1 = SetIdle" "rxSet ?t2 = SetIdle" "txSet ?t2 = SetIdle" "rxSet ?t3 = SetIdle"
    "txSet ?t3 = SetIdle" "rxSet ?t4 = SetIdle" "txSet ?t4 = SetIdle" "rxSet ?t5 = SetIdle" "txSet ?t5 = SetIdle"
    by (simp_all add: demo_armed_fields)
  note k5 = kept_idle_step [OF steps(5) idle(9,10) rtranclp.rtrancl_refl rtranclp.rtrancl_refl]
  note k4 = kept_idle_step [OF steps(4) idle(7,8) k5]
  note k3 = kept_idle_step [OF steps(3) idle(5,6) k4]
  note k2 = kept_idle_step [OF steps(2) idle(3,4) k3]
  note k1 = kept_idle_step [OF steps(1) idle(1,2) k2]
  note k1
  moreover have "rxQueue (dev ?t5) = None" "txQueue (dev ?t5) = None"
    using new by (simp_all add: notify_fields)
  ultimately show ?thesis by blast
qed

text \<open>C4: No receive notification is lost, doubled or made up: take any reachable state in which the
  receive queue is armed for \<open>q\<close>, and any further run, in any interleaving of the service routine, the
  procedure call, the device and the framework, in which the framework does not start to arm or disarm
  this queue again. What is delivered for the queue in that run is then either exactly one notification
  for \<open>q\<close>, and the queue is disarmed, or nothing, and the queue is still armed for \<open>q\<close>; and as long as it
  is armed, the arming is about to unmask the interrupt, or the interrupt is wanted, or its event is
  recorded with a procedure call due to take it, or the procedure call has taken it and is about to
  deliver it.\<close>

theorem rx_notification_not_lost:
  assumes "intr_initial s0" "intr_step\<^sup>*\<^sup>* s0 s" "rxQueue (dev s) = Some q" "rx_kept_step\<^sup>*\<^sup>* s t"
  shows "\<exists>new. notified (dev t) = notified (dev s) @ new
     \<and> (case rxQueue (dev t) of
          None \<Rightarrow> filter rx_notice new = [NotifyMoreReceivedPackets q]
        | Some r \<Rightarrow> r = q \<and> filter rx_notice new = []
            \<and> (rxSet t = SetEnable
               \<or> bit (interruptsWanted (dev t)) 1
               \<or> isset ChannelStatus_t ''Rx'' (interruptStatus (dev t)) \<and> (dpcQueued (dev t) \<or> stage t \<noteq> DpcIdle)
               \<or> isset ChannelStatus_t ''Rx'' (stage_status (stage t))))"
proof -
  obtain new where new: "notified (dev t) = notified (dev s) @ new" and owed: "rx_owed (dev t) = rx_owed (dev s)"
    and "intr_step\<^sup>*\<^sup>* s t"
    using rx_kept_run [OF assms(4)] by blast
  then have inv: "intr_inv t" using intr_reachable_inv [OF rtranclp_trans [OF assms(2)] assms(1)] by simp
  show ?thesis
  proof (cases "rxQueue (dev t)")
    case None
    then show ?thesis using new owed assms(3) by (simp add: rx_owed_def)
  next
    case (Some r)
    then have "filter rx_notice new = []" "r = q" using new owed assms(3) by (auto simp: rx_owed_def)
    moreover have "rxSet t = SetEnable \<or> bit (interruptsWanted (dev t)) 1
        \<or> isset ChannelStatus_t ''Rx'' (interruptStatus (dev t)) \<and> (dpcQueued (dev t) \<or> stage t \<noteq> DpcIdle)
        \<or> isset ChannelStatus_t ''Rx'' (stage_status (stage t))"
      using inv Some by (auto simp: intr_inv_def masks_inv_def rx_armed_inv_def armed_inv_def split: if_splits)
    ultimately show ?thesis using new Some by simp
  qed
qed

theorem rx_notification_not_lost_witness:
  "\<exists>t. rx_kept_step\<^sup>*\<^sup>* demo_armed t \<and> rxQueue (dev t) = None
     \<and> (\<exists>new. notified (dev t) = notified (dev demo_armed) @ new \<and> filter rx_notice new = [NotifyMoreReceivedPackets 7])"
proof -
  from demo_delivered obtain t where t: "rx_kept_step\<^sup>*\<^sup>* demo_armed t" "rxQueue (dev t) = None" by blast
  from rx_notification_not_lost [OF demo_sys_initial demo_armed_reachable demo_armed_fields(1) t(1)] t
  show ?thesis by auto
qed

text \<open>C21: No transmit notification is lost, doubled or made up: take any reachable state in which the
  transmit queue is armed for \<open>q\<close>, and any further run, in any interleaving of the service routine, the
  procedure call, the device and the framework, in which the framework does not start to arm or disarm
  this queue again. What is delivered for the queue in that run is then either exactly one notification
  for \<open>q\<close>, and the queue is disarmed, or nothing, and the queue is still armed for \<open>q\<close>; and as long as it
  is armed, the arming is about to unmask the interrupt, or the interrupt is wanted, or its event is
  recorded with a procedure call due to take it, or the procedure call has taken it and is about to
  deliver it.\<close>

theorem tx_notification_not_lost:
  assumes "intr_initial s0" "intr_step\<^sup>*\<^sup>* s0 s" "txQueue (dev s) = Some q" "tx_kept_step\<^sup>*\<^sup>* s t"
  shows "\<exists>new. notified (dev t) = notified (dev s) @ new
     \<and> (case txQueue (dev t) of
          None \<Rightarrow> filter tx_notice new = [NotifyMoreCompletedPackets q]
        | Some r \<Rightarrow> r = q \<and> filter tx_notice new = []
            \<and> (txSet t = SetEnable
               \<or> bit (interruptsWanted (dev t)) 2
               \<or> isset ChannelStatus_t ''Tx'' (interruptStatus (dev t)) \<and> (dpcQueued (dev t) \<or> stage t \<noteq> DpcIdle)
               \<or> isset ChannelStatus_t ''Tx'' (stage_status (stage t))))"
proof -
  obtain new where new: "notified (dev t) = notified (dev s) @ new" and owed: "tx_owed (dev t) = tx_owed (dev s)"
    and "intr_step\<^sup>*\<^sup>* s t"
    using tx_kept_run [OF assms(4)] by blast
  then have inv: "intr_inv t" using intr_reachable_inv [OF rtranclp_trans [OF assms(2)] assms(1)] by simp
  show ?thesis
  proof (cases "txQueue (dev t)")
    case None
    then show ?thesis using new owed assms(3) by (simp add: tx_owed_def)
  next
    case (Some r)
    then have "filter tx_notice new = []" "r = q" using new owed assms(3) by (auto simp: tx_owed_def)
    moreover have "txSet t = SetEnable \<or> bit (interruptsWanted (dev t)) 2
        \<or> isset ChannelStatus_t ''Tx'' (interruptStatus (dev t)) \<and> (dpcQueued (dev t) \<or> stage t \<noteq> DpcIdle)
        \<or> isset ChannelStatus_t ''Tx'' (stage_status (stage t))"
      using inv Some by (auto simp: intr_inv_def masks_inv_def tx_armed_inv_def armed_inv_def split: if_splits)
    ultimately show ?thesis using new Some by simp
  qed
qed

theorem tx_notification_not_lost_witness:
  "\<exists>t. tx_kept_step\<^sup>*\<^sup>* demo_armed t \<and> txQueue (dev t) = None
     \<and> (\<exists>new. notified (dev t) = notified (dev demo_armed) @ new \<and> filter tx_notice new = [NotifyMoreCompletedPackets 8])"
proof -
  from demo_delivered obtain t where t: "tx_kept_step\<^sup>*\<^sup>* demo_armed t" "txQueue (dev t) = None" by blast
  from tx_notification_not_lost [OF demo_sys_initial demo_armed_reachable demo_armed_fields(2) t(1)] t
  show ?thesis by auto
qed

text \<open>In every reachable state with no procedure call queued or running, the interrupt of every
  queue the framework has armed is enabled at the device.\<close>

theorem armed_queues_enabled:
  assumes "intr_initial s0" "intr_step\<^sup>*\<^sup>* s0 s" "stage s = DpcIdle" "\<not> dpcQueued (dev s)"
    "rxQueue (dev s) = Some q" "rxSet s = SetIdle" "txQueue (dev s) = Some r" "txSet s = SetIdle"
  shows "isset ChannelInterruptEnable_t ''Rx'' (Read32 Ch_Interrupt_Enable (mregs (dev s)))
     \<and> isset ChannelInterruptEnable_t ''Tx'' (Read32 Ch_Interrupt_Enable (mregs (dev s)))"
proof -
  have inv: "masks_inv s" "rx_armed_inv s" "tx_armed_inv s"
    using intr_reachable_inv [OF assms(2,1)] by (simp_all add: intr_inv_def)
  have none: "interruptStatus (dev s) = 0" and m: "masks_are (interruptsWanted (dev s)) (dev s)"
    using inv(1) assms(3,4) by (auto simp: masks_inv_def split: if_splits)
  have "bit (interruptsWanted (dev s)) 1" "bit (interruptsWanted (dev s)) 2"
    using inv(2,3) assms(3,5-8) none by (simp_all add: rx_armed_inv_def tx_armed_inv_def armed_inv_def)
  then show ?thesis using m by (simp add: masks_are_def channel_enable_fields)
qed

theorem armed_queues_enabled_witness:
  "isset ChannelInterruptEnable_t ''Rx'' (Read32 Ch_Interrupt_Enable (mregs (dev demo_armed)))
     \<and> isset ChannelInterruptEnable_t ''Tx'' (Read32 Ch_Interrupt_Enable (mregs (dev demo_armed)))"
  by (rule armed_queues_enabled [OF demo_sys_initial demo_armed_reachable demo_armed_fields(5,6,1,3,2,4)])

text \<open>The service routine claims the interrupt exactly when the device has something to report, and
  then masks every interrupt, clears the status it read, records it without losing what was recorded
  before, and queues the procedure call; otherwise it changes no mask and queues nothing.\<close>

theorem DeviceInterruptIsr_spec:
  "fst (DeviceInterruptIsr c) = (isset MacInterruptStatus_t ''LinkStatus'' (macStatus c)
       \<or> 0 < chStatus c AND InterruptChannel0StatusMask)
   \<and> (if fst (DeviceInterruptIsr c)
      then masks_are InterruptsNone (snd (DeviceInterruptIsr c)) \<and> dpcQueued (snd (DeviceInterruptIsr c))
         \<and> chStatus (snd (DeviceInterruptIsr c)) = 0
         \<and> interruptStatus (snd (DeviceInterruptIsr c)) = interruptStatus c OR isr_new_status c
         \<and> isset ChannelStatus_t ''Rx'' (interruptStatus (snd (DeviceInterruptIsr c)))
             = (isset ChannelStatus_t ''Rx'' (interruptStatus c) \<or> isset ChannelStatus_t ''Rx'' (chStatus c))
         \<and> isset ChannelStatus_t ''Tx'' (interruptStatus (snd (DeviceInterruptIsr c)))
             = (isset ChannelStatus_t ''Tx'' (interruptStatus c) \<or> isset ChannelStatus_t ''Tx'' (chStatus c))
      else mregs (snd (DeviceInterruptIsr c)) = mregs c \<and> interruptStatus (snd (DeviceInterruptIsr c)) = interruptStatus c
         \<and> dpcQueued (snd (DeviceInterruptIsr c)) = dpcQueued c)"
proof -
  have fst: "fst (DeviceInterruptIsr c) = (isr_new_status c \<noteq> 0)" by (simp add: DeviceInterruptIsr_def Let_def)
  have nz: "(isr_new_status c \<noteq> 0) = (isset MacInterruptStatus_t ''LinkStatus'' (macStatus c)
       \<or> 0 < chStatus c AND InterruptChannel0StatusMask)"
    by (simp add: word_gt_0 isr_new_status_def or_zero_iff InterruptLinkStatus_def)
  have cl: "isr_new_status c \<noteq> 0 \<Longrightarrow> chStatus (snd (DeviceInterruptIsr c)) = 0"
    by (simp add: DeviceInterruptIsr_def Let_def)
  show ?thesis
  proof (cases "isr_new_status c = 0")
    case True
    then show ?thesis using nz isr_masks(2) [OF True] isr_fields(3,4) [of c] by (simp add: fst)
  next
    case False
    then show ?thesis
      using nz cl isr_masks(1) [OF False] isr_fields(3,4) [of c] by (simp add: fst isset_or isr_new_status_bits)
  qed
qed

text \<open>The procedure call ends, takes everything the service routine recorded, notifies each armed
  queue whose event is recorded exactly once and disarms it, leaves the other queue alone, and restores
  the wanted masks.\<close>

theorem DeviceInterruptDpc_spec:
  assumes "interruptStatus c \<noteq> 0" "interruptsWanted c \<noteq> InterruptsNone"
  shows "\<exists>d. DeviceInterruptDpc c = Some d \<and> interruptStatus d = 0
     \<and> masks_are (interruptsWanted c) d
     \<and> rxQueue d = (if isset ChannelStatus_t ''Rx'' (interruptStatus c) then None else rxQueue c)
     \<and> txQueue d = (if isset ChannelStatus_t ''Tx'' (interruptStatus c) then None else txQueue c)
     \<and> notified d = notified c
         @ (case rxQueue c of Some q \<Rightarrow> if isset ChannelStatus_t ''Rx'' (interruptStatus c) then [NotifyMoreReceivedPackets q] else []
                            | None \<Rightarrow> [])
         @ (case txQueue c of Some q \<Rightarrow> if isset ChannelStatus_t ''Tx'' (interruptStatus c) then [NotifyMoreCompletedPackets q] else []
                            | None \<Rightarrow> [])
     \<and> linkWork d = (linkWork c \<or> interruptStatus c AND InterruptLinkStatus \<noteq> 0)"
proof -
  let ?st = "interruptStatus c"
  obtain c1 where t1: "dpc_take c = (?st, c1)" and f1: "notified c1 = notified c"
      "linkWork c1 = (linkWork c \<or> ?st AND InterruptLinkStatus \<noteq> 0)"
    by (simp add: dpc_take_def Let_def)
  note tf = take_fields(2-) [OF t1]
  let ?c2 = "dpc_reenable (dpc_notify ?st c1)"
  have zero: "interruptStatus ?c2 = 0" by (simp add: reenable_fields notify_fields tf)
  have same: "interruptStatus x = 0 \<Longrightarrow> x\<lparr>interruptStatus := 0\<rparr> = x" for x :: DeviceContext
    by (cases x) simp
  have t2: "dpc_take ?c2 = (0, ?c2)" using same [OF zero] zero by (simp add: dpc_take_def Let_def)
  have again: "DeviceInterruptDpc ?c2 = Some ?c2"
    unfolding DeviceInterruptDpc.simps [of ?c2] t2 by simp
  have run: "DeviceInterruptDpc c = Some ?c2"
    unfolding DeviceInterruptDpc.simps [of c] t1 using again assms(1) by simp
  have masks: "masks_are (interruptsWanted c) ?c2"
    using assms(2) by (simp add: dpc_reenable_def notify_fields tf masks_set)
  have n: "notified ?c2 = notified c
         @ (case rxQueue c of Some q \<Rightarrow> if isset ChannelStatus_t ''Rx'' ?st then [NotifyMoreReceivedPackets q] else [] | None \<Rightarrow> [])
         @ (case txQueue c of Some q \<Rightarrow> if isset ChannelStatus_t ''Tx'' ?st then [NotifyMoreCompletedPackets q] else [] | None \<Rightarrow> [])"
    using tf f1(1) by (auto simp: dpc_reenable_def dpc_notify_def Let_def dpc_notify_rx_def dpc_notify_tx_def split: option.split)
  have l: "linkWork ?c2 = linkWork c1"
    by (simp add: dpc_reenable_def dpc_notify_def Let_def dpc_notify_rx_def dpc_notify_tx_def split: option.split)
  show ?thesis using run zero masks n l f1(2) by (simp add: reenable_fields notify_fields tf)
qed

theorem DeviceInterruptDpc_spec_witness:
  "\<exists>d. DeviceInterruptDpc (demo_dev\<lparr>interruptStatus := 0x40, rxQueue := Some 7\<rparr>) = Some d
     \<and> masks_are InterruptsState d \<and> notified d = [NotifyMoreReceivedPackets 7]"
proof -
  let ?c = "demo_dev\<lparr>interruptStatus := 0x40, rxQueue := Some 7\<rparr>"
  have rx: "isset ChannelStatus_t ''Rx'' (0x40 :: u32)"
    by (simp add: isset_def getf_def channel_fields_low get_bits_def)
  have "interruptStatus ?c \<noteq> 0" "interruptsWanted ?c \<noteq> InterruptsNone"
    by (simp_all add: demo_dev_def InterruptsState_def InterruptsNone_def)
  from DeviceInterruptDpc_spec [OF this] show ?thesis
    by (auto simp: rx) (auto simp: demo_dev_def)
qed

end
