(* ===== verification/EqosDeviceProperties.thy ===== *)
theory EqosDeviceProperties imports EqosDevice AcpiReports InterruptSystem begin

text \<open>
  Properties of the device operations of theory EqosDevice: the address registers and the receive filter,
  the reset loop, link state, and the values programmed on power up.
\<close>

section \<open>Address registers\<close>

lemma mac_fields:
  "getf MacAddressLow_t ''Addr0'' (mac_low a) = ucast (a ! 0)"
  "getf MacAddressLow_t ''Addr1'' (mac_low a) = ucast (a ! 1)"
  "getf MacAddressLow_t ''Addr2'' (mac_low a) = ucast (a ! 2)"
  "getf MacAddressLow_t ''Addr3'' (mac_low a) = ucast (a ! 3)"
  "getf MacAddressHigh_t ''Addr4'' (mac_high a e) = ucast (a ! 4)"
  "getf MacAddressHigh_t ''Addr5'' (mac_high a e) = ucast (a ! 5)"
  "isset MacAddressHigh_t ''AddressEnable'' (mac_high a e) = e"
proof -
  have small: "take_bit 8 (ucast (b::u8) :: u32) = ucast b" for b
    by (rule bit_word_eqI) (auto simp: bit_simps dest: bit_imp_le_length)
  have en: "take_bit (Suc 0) (flag e) = (flag e :: u32)" by (simp add: flag_def)
  show "getf MacAddressLow_t ''Addr0'' (mac_low a) = ucast (a ! 0)"
    "getf MacAddressLow_t ''Addr1'' (mac_low a) = ucast (a ! 1)"
    "getf MacAddressLow_t ''Addr2'' (mac_low a) = ucast (a ! 2)"
    "getf MacAddressLow_t ''Addr3'' (mac_low a) = ucast (a ! 3)"
    "getf MacAddressHigh_t ''Addr4'' (mac_high a e) = ucast (a ! 4)"
    "getf MacAddressHigh_t ''Addr5'' (mac_high a e) = ucast (a ! 5)"
    by (simp_all add: mac_low_def mac_high_def macAddressLow.getf_putfs macAddressHigh.getf_putfs small
        del: putfs.simps)
      (simp_all add: MacAddressLow_t_def MacAddressHigh_t_def small)
  show "isset MacAddressHigh_t ''AddressEnable'' (mac_high a e) = e"
    by (simp add: isset_def mac_high_def macAddressHigh.getf_putfs del: putfs.simps)
      (simp add: MacAddressHigh_t_def en, simp add: flag_def)
qed

lemma list_of_six: "length a = 6 \<Longrightarrow> [a ! 0, a ! 1, a ! 2, a ! 3, a ! 4, a ! 5] = a"
  by (auto simp: numeral_eq_Suc length_Suc_conv)

lemma ucast_ucast_8: "ucast (ucast (b::u8) :: u32) = b"
  by (rule bit_word_eqI) (auto simp: bit_simps dest: bit_imp_le_length)

definition address_slot :: "u32 \<Rightarrow> mmio \<Rightarrow> u8 list \<times> bool" where
  "address_slot i m = (read_mac_address i m, isset MacAddressHigh_t ''AddressEnable'' (Read32 (Mac_Address_High i) m))"

lemma slot_SetOneMacAddress:
  assumes "length a = 6"
  shows "address_slot j (SetOneMacAddress i a e m) = (if j = i then (a, e) else address_slot j m)"
  using list_of_six [OF assms]
  by (simp add: address_slot_def read_mac_address_def SetOneMacAddress_def Let_def mac_fields ucast_ucast_8)

lemma slot_other_write [simp]:
  "Mac_Address_High j \<noteq> r \<Longrightarrow> Mac_Address_Low j \<noteq> r \<Longrightarrow> address_slot j (Write32 r v m) = address_slot j m"
  by (simp add: address_slot_def read_mac_address_def Let_def)

section \<open>Reset\<close>

lemma reset_poll_result:
  "reset_poll dm k r = None \<longleftrightarrow> (\<forall>j < unat (r - 1000). dm (k + j) AND 1 \<noteq> 0)"
proof (induction dm k r rule: reset_poll.induct)
  case (1 dm k r)
  show ?case
  proof (cases "r = 1000")
    case True
    then show ?thesis by (simp add: reset_poll.simps)
  next
    case False
    then have "r - 1000 \<noteq> 0" by simp
    then have "unat (r - 1000) = Suc (unat (r - 1000 - 1))" by (metis measure_unat unat_minus_one Suc_pred' unat_gt_0 word_neq_0_conv)
    then have u: "unat (r - 1000) = Suc (unat (r - 1 - 1000))" by (simp add: algebra_simps)
    show ?thesis
    proof (cases "dm k AND 1 = 0")
      case True
      then show ?thesis using False u by (subst reset_poll.simps) auto
    next
      case f: False
      have "(\<forall>j < Suc n. P j) \<longleftrightarrow> P 0 \<and> (\<forall>j < n. P (Suc j))" for n and P :: "nat \<Rightarrow> bool"
        by (metis less_Suc_eq_0_disj)
      then show ?thesis using False f u 1 by (subst reset_poll.simps) simp
    qed
  qed
qed

section \<open>The receive filter\<close>

definition mcast_slot :: "mcast_address list \<Rightarrow> u32 \<Rightarrow> u8 list \<times> bool" where
  "mcast_slot mcast i =
     (if unat (i - 1) < length mcast \<and> 6 \<le> mcLength (mcast ! unat (i - 1))
      then (mcAddress (mcast ! unat (i - 1)), True) else (zero_address, False))"

definition mcast_ok :: "mcast_address list \<Rightarrow> bool" where
  "mcast_ok mcast \<longleftrightarrow> list_all (\<lambda>a. length (mcAddress a) = 6) mcast"

lemma zero_address_length: "length zero_address = 6"
  by (simp add: zero_address_def)

lemma filter_slots:
  "mcast_ok mcast \<Longrightarrow> 0 < i \<Longrightarrow>
     address_slot j (filter_addresses mcast n i m)
       = (if i \<le> j \<and> j < n then mcast_slot mcast j else address_slot j m)"
proof (induction mcast n i m rule: filter_addresses.induct)
  case (1 mcast n i m)
  show ?case
  proof (cases "i < n")
    case False
    then show ?thesis by (subst filter_addresses.simps) auto
  next
    case True
    define en where "en = (unat (i - 1) < length mcast \<and> 6 \<le> mcLength (mcast ! unat (i - 1)))"
    define addr where "addr = (if en then mcAddress (mcast ! unat (i - 1)) else zero_address)"
    have len: "length addr = 6"
      using "1.prems"(1) zero_address_length by (auto simp: addr_def en_def mcast_ok_def list_all_length)
    have slot: "mcast_slot mcast i = (addr, en)" by (simp add: mcast_slot_def addr_def en_def)
    have step: "filter_addresses mcast n i m = filter_addresses mcast n (i + 1) (SetOneMacAddress i addr en m)"
      using True by (subst filter_addresses.simps) (simp add: Let_def addr_def en_def)
    have u: "unat (i + 1) = Suc (unat i)" using True by (rule unat_plus_one)
    then have nx: "0 < i + 1" "i < i + 1" "i + 1 \<le> j \<longleftrightarrow> i < j"
      by (auto simp: word_less_nat_alt word_le_nat_alt)
    have "address_slot j (filter_addresses mcast n i m)
        = (if i + 1 \<le> j \<and> j < n then mcast_slot mcast j else address_slot j (SetOneMacAddress i addr en m))"
      unfolding step using "1.IH" [OF True] "1.prems"(1) nx(1) by (simp add: addr_def en_def)
    then show ?thesis using slot slot_SetOneMacAddress [OF len] nx True by auto
  qed
qed

text \<open>Everything the loop writes is a register of the mapped window.\<close>

definition logs_valid :: "mmio \<Rightarrow> mmio \<Rightarrow> bool" where
  "logs_valid m m' \<longleftrightarrow> (\<exists>ws. wlog m' = wlog m @ ws \<and> list_all (\<lambda>(r, v). valid_reg r) ws)"

lemma logs_valid_refl: "logs_valid m m"
  by (simp add: logs_valid_def)

lemma logs_valid_Write32: "logs_valid m m' \<Longrightarrow> valid_reg r \<Longrightarrow> logs_valid m (Write32 r v m')"
  by (auto simp: logs_valid_def)

lemma logs_valid_SetOneMacAddress: "logs_valid m m' \<Longrightarrow> unat i < 128 \<Longrightarrow> logs_valid m (SetOneMacAddress i a e m')"
  by (simp add: SetOneMacAddress_def logs_valid_Write32)

lemma logs_valid_filter:
  "unat n \<le> 128 \<Longrightarrow> logs_valid m0 m \<Longrightarrow> logs_valid m0 (filter_addresses mcast n i m)"
proof (induction mcast n i m rule: filter_addresses.induct)
  case (1 mcast n i m)
  show ?case
  proof (cases "i < n")
    case False
    then show ?thesis using "1.prems" by (subst filter_addresses.simps) simp
  next
    case True
    then have "unat i < 128" using "1.prems"(1) by (simp add: word_less_nat_alt)
    then show ?thesis
      using True "1.IH" [OF True refl refl "1.prems"(1)] "1.prems"(2)
      by (subst filter_addresses.simps) (simp add: Let_def logs_valid_SetOneMacAddress)
  qed
qed

lemma getf_less: "unat (getf L f (r::u32)) < 2 ^ snd (member L f)"
proof -
  obtain off w where m: "member L f = (off, w)" by (cases "member L f")
  have "take_bit w (unat (drop_bit off r)) < 2 ^ w" by simp
  then show ?thesis by (simp add: getf_def m get_bits_def unsigned_take_bit_eq)
qed

lemma take_getf: "snd (member L f) = n \<Longrightarrow> take_bit n (getf L f (r::u32)) = getf L f r"
  by (auto simp: getf_def split: prod.splits)

lemma mac_addr_count: "unat (getf MacHwFeature0_t ''MacAddrCount'' (x::u32)) < 128"
  using getf_less [of MacHwFeature0_t "''MacAddrCount''" x] by (simp add: MacHwFeature0_t_def)

lemma take_flag: "take_bit (Suc 0) (flag e) = (flag e :: u32)" "flag e = (0 :: u32) \<longleftrightarrow> \<not> e"
  by (simp_all add: flag_def)

lemma filter_widths:
  "snd (member MacPacketFilter_t ''PromiscuousMode'') = Suc 0"
  "snd (member MacPacketFilter_t ''PassAllMulticast'') = Suc 0"
  "snd (member MacPacketFilter_t ''DisableBroadcast'') = Suc 0"
  by (simp_all add: MacPacketFilter_t_def)

lemma filter_value_fields:
  "isset MacPacketFilter_t ''PromiscuousMode'' (filter_value f) = Promiscuous f"
  "\<not> Promiscuous f \<Longrightarrow> isset MacPacketFilter_t ''PassAllMulticast'' (filter_value f) = AllMulticast f"
  "\<not> Promiscuous f \<Longrightarrow> isset MacPacketFilter_t ''DisableBroadcast'' (filter_value f) = (\<not> Broadcast f)"
  by (simp_all add: filter_value_def isset_def macPacketFilter.getf_putfs macPacketFilter.getf_putf_same
      filter_widths take_flag del: putfs.simps) (auto simp: flag_def)

text \<open>A device with two multicast addresses configured and four address registers.\<close>

definition demo_device :: EqosDevice where
  "demo_device = \<lparr>irq = demo_dev, pool = demo_kernel, feature0 = push_bit 18 4, feature1 = 0x00040145,
     permanentMacAddress = [2, 0, 0, 0, 0, 1], currentMacAddress = [2, 0, 0, 0, 0, 1],
     config = \<lparr>pblX8 = True, pbl = 8, cfgTxPbl = 8, cfgRxPbl = 8, fixed_burst = False, mixed_burst = True,
       wr_osr_lmt = 4, rd_osr_lmt = 8, blen = 7, txFlowControl = True, rxFlowControl = True, jumboFrame = 1514, cfgVlanId = 0\<rparr>,
     updateLinkStateBusy = False, link = None, rxOwnDescriptors = 0, rxDoneFragments = 0, txDoneFragments = 0\<rparr>"

definition demo_mcast :: "mcast_address list" where
  "demo_mcast = [\<lparr>mcLength = 6, mcAddress = [1, 0, 0x5E, 0, 0, 1]\<rparr>, \<lparr>mcLength = 6, mcAddress = [1, 0, 0x5E, 0, 0, 2]\<rparr>]"

definition demo_filter :: packet_filter where
  "demo_filter = \<lparr>Promiscuous = False, AllMulticast = False, Broadcast = True, Directed = True, Multicast = True\<rparr>"

section \<open>Properties\<close>

text \<open>C34: Setting a receive filter, for any flags and any list of 6-byte addresses. With the promiscuous flag
  the filter accepts everything and no address register changes. Otherwise slot 0 holds the station address,
  enabled exactly if directed packets are asked for; slot \<open>k + 1\<close>, for every address register the hardware
  announces, holds the \<open>k\<close>-th multicast address of the list, enabled, if multicast packets are asked for, the
  list has a \<open>k\<close>-th address and its length says 6 bytes or more, and is otherwise disabled, so that addresses
  beyond the number of registers are not programmed; and the filter bits say what the flags ask for.\<close>

theorem receive_filter_programs:
  fixes d :: EqosDevice and flags mcast
  defines "m \<equiv> mregs (irq (AdapterSetReceiveFilter flags mcast d))"
  assumes "mcast_ok mcast" "length (currentMacAddress d) = 6"
  shows "isset MacPacketFilter_t ''PromiscuousMode'' (Read32 Mac_Packet_Filter m) = Promiscuous flags
    \<and> (if Promiscuous flags then \<forall>i. address_slot i m = address_slot i (mregs (irq d))
       else address_slot 0 m = (currentMacAddress d, Directed flags)
         \<and> list_all (\<lambda>k. address_slot (of_nat (Suc k)) m
               = (if Multicast flags \<and> k < length mcast \<and> 6 \<le> mcLength (mcast ! k)
                  then (mcAddress (mcast ! k), True) else (zero_address, False)))
             [0..<unat (getf MacHwFeature0_t ''MacAddrCount'' (feature0 d)) - 1]
         \<and> isset MacPacketFilter_t ''PassAllMulticast'' (Read32 Mac_Packet_Filter m) = AllMulticast flags
         \<and> isset MacPacketFilter_t ''DisableBroadcast'' (Read32 Mac_Packet_Filter m) = (\<not> Broadcast flags))"
proof (cases "Promiscuous flags")
  case True
  then show ?thesis by (simp add: m_def AdapterSetReceiveFilter_def set_regs_def Let_def filter_value_fields)
next
  case False
  define n where "n = getf MacHwFeature0_t ''MacAddrCount'' (feature0 d)"
  define l where "l = (if Multicast flags then mcast else [])"
  define m1 where "m1 = SetOneMacAddress 0 (currentMacAddress d) (Directed flags) (mregs (irq d))"
  have n: "unat n < 128" unfolding n_def by (rule mac_addr_count)
  have l: "mcast_ok l" using assms(2) by (simp add: l_def mcast_ok_def)
  have m: "m = Write32 Mac_Packet_Filter (filter_value flags) (filter_addresses l n 1 m1)"
    using False by (simp add: m_def AdapterSetReceiveFilter_def set_regs_def n_def m1_def l_def Let_def)
  have slot: "address_slot j m = (if 1 \<le> j \<and> j < n then mcast_slot l j else address_slot j m1)" for j
    using filter_slots [OF l, of 1 j n m1] by (simp add: m)
  have zero: "address_slot 0 m = (currentMacAddress d, Directed flags)"
    using slot [of 0] slot_SetOneMacAddress [OF assms(3)] by (simp add: m1_def)
  have each: "address_slot (of_nat (Suc k)) m
      = (if Multicast flags \<and> k < length mcast \<and> 6 \<le> mcLength (mcast ! k)
         then (mcAddress (mcast ! k), True) else (zero_address, False))"
    if k: "k < unat n - 1" for k
  proof -
    have small: "j < 128 \<Longrightarrow> unat (of_nat j :: u32) = j" for j
      by (simp add: unsigned_of_nat take_bit_nat_eq_self)
    then have u: "unat (of_nat (Suc k) :: u32) = Suc k" using k n small [of "Suc k"] by simp
    then have lt: "(of_nat (Suc k) :: u32) < n" "1 \<le> (of_nat (Suc k) :: u32)"
      using k by (simp_all add: word_less_nat_alt word_le_nat_alt del: of_nat_Suc)
    have "unat (of_nat (Suc k) - 1 :: u32) = k" using small [of k] n k by simp
    then show ?thesis using slot [of "of_nat (Suc k)"] lt by (auto simp: mcast_slot_def l_def)
  qed
  have "list_all (\<lambda>k. address_slot (of_nat (Suc k)) m
      = (if Multicast flags \<and> k < length mcast \<and> 6 \<le> mcLength (mcast ! k)
         then (mcAddress (mcast ! k), True) else (zero_address, False))) [0..<unat n - 1]"
    using each by (simp add: list_all_iff)
  then show ?thesis
    using zero False filter_value_fields(1) [of flags] filter_value_fields(2,3) [OF False] unfolding n_def by (simp add: m)
qed

theorem receive_filter_programs_witness:
  "address_slot 2 (mregs (irq (AdapterSetReceiveFilter demo_filter demo_mcast demo_device))) = ([1, 0, 0x5E, 0, 0, 2], True)
   \<and> address_slot 3 (mregs (irq (AdapterSetReceiveFilter demo_filter demo_mcast demo_device))) = (zero_address, False)"
proof -
  have n: "getf MacHwFeature0_t ''MacAddrCount'' (feature0 demo_device) = 4"
    by (simp add: demo_device_def getf_def MacHwFeature0_t_def get_bits_def)
  have h: "mcast_ok demo_mcast" "length (currentMacAddress demo_device) = 6" "\<not> Promiscuous demo_filter" "Multicast demo_filter"
    by (simp_all add: mcast_ok_def demo_mcast_def demo_device_def demo_filter_def)
  have l: "list_all (\<lambda>k. P k) [0..<3] \<Longrightarrow> P 1 \<and> P 2" for P :: "nat \<Rightarrow> bool" by (simp add: list_all_iff)
  have c: "length demo_mcast = 2" "mcAddress (demo_mcast ! Suc 0) = [1, 0, 0x5E, 0, 0, 2]" "mcLength (demo_mcast ! Suc 0) = 6"
    by (simp_all add: demo_mcast_def)
  from receive_filter_programs [OF h(1,2), of demo_filter] have
    "list_all (\<lambda>k. address_slot (of_nat (Suc k)) (mregs (irq (AdapterSetReceiveFilter demo_filter demo_mcast demo_device)))
        = (if k < length demo_mcast \<and> 6 \<le> mcLength (demo_mcast ! k) then (mcAddress (demo_mcast ! k), True) else (zero_address, False))) [0..<3]"
    unfolding n using h(3,4) by simp
  from l [OF this] show ?thesis by (simp add: c)
qed

text \<open>Whatever the flags, the list and the number of address registers the hardware announces, a
  receive filter writes inside the mapped register window; a promiscuous filter leaves every address as
  it was.\<close>

theorem receive_filter_stays_inside:
  "logs_valid (mregs (irq d)) (mregs (irq (AdapterSetReceiveFilter flags mcast d)))
   \<and> (if Promiscuous flags
      then address_slot i (mregs (irq (AdapterSetReceiveFilter flags mcast d))) = address_slot i (mregs (irq d))
         \<and> isset MacPacketFilter_t ''PromiscuousMode'' (Read32 Mac_Packet_Filter (mregs (irq (AdapterSetReceiveFilter flags mcast d))))
      else True)"
proof -
  have n: "unat (getf MacHwFeature0_t ''MacAddrCount'' (feature0 d)) \<le> 128" using mac_addr_count [of "feature0 d"] by simp
  show ?thesis
    by (simp add: AdapterSetReceiveFilter_def set_regs_def Let_def logs_valid_Write32 logs_valid_refl
        logs_valid_filter [OF n] logs_valid_SetOneMacAddress filter_value_fields)
qed

text \<open>An address written to a register pair is read back unchanged, with its enable bit, and writing
  one pair changes no other.\<close>

theorem mac_address_roundtrip:
  assumes "length addr = 6"
  shows "read_mac_address i (SetOneMacAddress i addr enable m) = addr
    \<and> isset MacAddressHigh_t ''AddressEnable'' (Read32 (Mac_Address_High i) (SetOneMacAddress i addr enable m)) = enable
    \<and> (if j = i then True else read_mac_address j (SetOneMacAddress i addr enable m) = read_mac_address j m)"
  using slot_SetOneMacAddress [OF assms, of i i enable m] slot_SetOneMacAddress [OF assms, of j i enable m]
  by (auto simp: address_slot_def)

theorem mac_address_roundtrip_witness:
  "read_mac_address 0 (SetOneMacAddress 0 [0xF2, 0, 1, 2, 3, 4] True (mregs demo_dev)) = [0xF2, 0, 1, 2, 3, 4]"
  using mac_address_roundtrip [of "[0xF2, 0, 1, 2, 3, 4]" 0 True "mregs demo_dev"] by simp

text \<open>The reset loop returns, and reports success exactly when the device clears the reset bit within
  2^32 - 1000 polls, not the 1000 the bound suggests: the counter runs down from 0. The code it returns
  otherwise, STATUS_TIMEOUT, is a success code, so NT_SUCCESS holds of the result either way.\<close>

theorem DeviceReset_spec:
  "DeviceReset dmaMode mac0 m
    = (if \<exists>k < 4294966296. dmaMode k AND 1 = 0
       then (STATUS_SUCCESS, SetOneMacAddress 0 mac0 True (Write32 Dma_Mode 1 m))
       else (STATUS_TIMEOUT, Write32 Dma_Mode 1 m))
   \<and> NT_SUCCESS (fst (DeviceReset dmaMode mac0 m))"
proof -
  have "unat (0 - 1000 :: u32) = 4294966296" by simp
  then have "reset_poll dmaMode 0 0 = None \<longleftrightarrow> \<not> (\<exists>k < 4294966296. dmaMode k AND 1 = 0)"
    using reset_poll_result [of dmaMode 0 0] by simp
  then show ?thesis by (auto simp: DeviceReset_def Let_def split: option.split)
qed

section \<open>Link state\<close>

text \<open>C33: After a link update the MAC runs at the speed and duplex mode the PHY reports (an unknown speed
  leaves the port speed alone), no other bit of the configuration has changed, the stack has been told
  the state, and the clock method's buffers have been released.\<close>

theorem UpdateLinkState_spec:
  assumes "acpi_layout (acpi pf)" "kernel_ok (pool d)"
  shows "getf MacConfiguration_t f (Read32 Mac_Configuration (mregs (irq (UpdateLinkState pf cs d))))
      = (if f = ''FullDuplex'' then getf MacPhyIfControlStatus_t ''FullDuplex'' cs
         else if f = ''PortSelectSpeed''
         then (let s = getf MacPhyIfControlStatus_t ''Speed'' cs
               in if s = 0 then 2 else if s = 1 then 3 else if s = 2 then 0
                  else getf MacConfiguration_t f (Read32 Mac_Configuration (mregs (irq d))))
         else getf MacConfiguration_t f (Read32 Mac_Configuration (mregs (irq d))))
    \<and> map_option linkConnected (link (UpdateLinkState pf cs d)) = Some (isset MacPhyIfControlStatus_t ''LinkUp'' cs)
    \<and> map_option linkFullDuplex (link (UpdateLinkState pf cs d)) = Some (isset MacPhyIfControlStatus_t ''FullDuplex'' cs)
    \<and> live (pool (UpdateLinkState pf cs d)) = live (pool d) \<and> kernel_ok (pool (UpdateLinkState pf cs d))"
proof -
  obtain speed clockVal ps where ls: "link_speed (getf MacPhyIfControlStatus_t ''Speed'' cs) = (speed, clockVal, ps)"
    by (metis prod_cases3)
  obtain st ret k where ex: "AcpiExecuteDsmFunction pf True (Some DsmGuid) DsmSetTxClockRevision DsmSetTxClockIndex
      (Some (INTEGER_ARGUMENT (acpi pf) clockVal)) (of_nat (sizeof_ARGUMENT (acpi pf))) True (pool d) = ((st, ret), k)"
    by (metis surj_pair)
  define r where "r = release_opt (map_option fst (Option.bind ret id)) k"
  have pool: "kernel_ok r \<and> live r = live (pool d)"
    using acpi_layout.dsm_pool [OF assms(1) ex assms(2) refl] release_live [of k]
    by (cases "NT_SUCCESS st") (auto simp: r_def)
  let ?old = "Read32 Mac_Configuration (mregs (irq d))"
  have upd: "pool (UpdateLinkState pf cs d) = r"
    "link (UpdateLinkState pf cs d) = Some \<lparr>linkSpeed = speed, linkConnected = isset MacPhyIfControlStatus_t ''LinkUp'' cs,
       linkFullDuplex = isset MacPhyIfControlStatus_t ''FullDuplex'' cs\<rparr>"
    "Read32 Mac_Configuration (mregs (irq (UpdateLinkState pf cs d))) = link_config cs ?old"
    by (simp_all add: UpdateLinkState_def Let_def ls ex r_def)
  have w: "take_bit (Suc 0) (getf MacPhyIfControlStatus_t ''FullDuplex'' cs) = getf MacPhyIfControlStatus_t ''FullDuplex'' cs"
    by (rule take_getf) (simp add: MacPhyIfControlStatus_t_def)
  have sz: "snd (member MacConfiguration_t ''FullDuplex'') = Suc 0" "snd (member MacConfiguration_t ''PortSelectSpeed'') = 2"
    by (simp_all add: MacConfiguration_t_def)
  have "getf MacConfiguration_t f (link_config cs ?old)
      = (if f = ''FullDuplex'' then getf MacPhyIfControlStatus_t ''FullDuplex'' cs
         else if f = ''PortSelectSpeed''
         then (let s = getf MacPhyIfControlStatus_t ''Speed'' cs
               in if s = 0 then 2 else if s = 1 then 3 else if s = 2 then 0 else getf MacConfiguration_t f ?old)
         else getf MacConfiguration_t f ?old)"
    by (simp add: link_config_def link_speed_def Let_def macConfiguration.getf_putf sz w [simplified])
  then show ?thesis using pool by (simp add: upd)
qed

theorem UpdateLinkState_spec_witness:
  "map_option linkConnected (link (UpdateLinkState demo_platform 0x000D0000 demo_device)) = Some True
   \<and> getf MacConfiguration_t ''PortSelectSpeed'' (Read32 Mac_Configuration (mregs (irq (UpdateLinkState demo_platform 0x000D0000 demo_device)))) = 0"
proof -
  have p: "kernel_ok (pool demo_device)" by (simp add: demo_device_def demo_kernel_ok)
  have f: "getf MacPhyIfControlStatus_t ''Speed'' (0x000D0000 :: u32) = 2"
    "isset MacPhyIfControlStatus_t ''LinkUp'' (0x000D0000 :: u32)"
    by (simp_all add: isset_def getf_def MacPhyIfControlStatus_t_def get_bits_def)
  from UpdateLinkState_spec [OF demo_layout p, of "''PortSelectSpeed''" "0x000D0000"] f show ?thesis by simp
qed

section \<open>Power up\<close>

lemma read_after_d0:
  assumes "r \<noteq> Mac_Configuration" "r \<noteq> Ch_Status" "r \<noteq> Mac_Interrupt_Enable" "r \<noteq> Ch_Interrupt_Enable"
  shows "Read32 r (mregs (irq (snd (DeviceD0Entry pf cs d)))) = Read32 r (d0_registers d (mregs (irq d)))"
  using assms
  by (simp add: DeviceD0Entry_def UpdateLinkState_def set_regs_def DeviceInterruptSet_Locked_def Let_def split: prod.split)

lemma d0_reads:
  "Read32 Mtl_Tx_Operation_Mode (d0_registers d m) = d0_tx_operation_mode (queue_size (fifo_size (getf MacHwFeature1_t ''TxFifoSize'' (feature1 d))))"
  "Read32 Mtl_Rx_Operation_Mode (d0_registers d m) = d0_rx_operation_mode (rxFlowControl (config d)) (queue_size (fifo_size (getf MacHwFeature1_t ''RxFifoSize'' (feature1 d))))"
  "Read32 Mac_Ext_Configuration (d0_registers d m) = d0_mac_ext_configuration (jumboFrame (config d))"
  "Read32 Mac_Watchdog_Timeout (d0_registers d m) = d0_watchdog (jumboFrame (config d))"
  by (simp_all add: d0_registers_def Let_def del: putfs.simps)

lemma fifo_features:
  "unat (getf MacHwFeature1_t ''TxFifoSize'' (x::u32)) < 32" "unat (getf MacHwFeature1_t ''RxFifoSize'' (x::u32)) < 32"
  using getf_less [of MacHwFeature1_t "''TxFifoSize''" x] getf_less [of MacHwFeature1_t "''RxFifoSize''" x]
  by (simp_all add: MacHwFeature1_t_def)

lemma below_32_mem:
  assumes "unat (f::u32) < 32"
  shows "f = 0 \<or> f = 1 \<or> f \<in> set (map of_nat [2..<32])"
proof -
  have f: "f = of_nat (unat f)" by simp
  show ?thesis
  proof (cases "unat f < 2")
    case True
    then have "unat f = 0 \<or> unat f = 1" by linarith
    then have "f = 0 \<or> f = 1" by (simp add: word_unat_eq_iff)
    then show ?thesis by blast
  next
    case False
    then have "unat f \<in> set [2..<32]" using assms by (simp only: set_upt atLeastLessThan_iff) simp
    then show ?thesis using f by (metis image_eqI set_map)
  qed
qed

lemmas below_32 = below_32_mem [unfolded upt_rec_numeral, simplified]

lemma queue_size_values:
  assumes "unat (f::u32) < 32"
  shows "queue_size (fifo_size f) = (if unat f < 13 then push_bit (unat f) 128 else 0x100000)"
  using below_32 [OF assms] by (elim disjE) (simp_all add: queue_size_def fifo_size_def QueuesSupported_def)

lemma queue_mode_widths:
  "snd (member MtlTxOperationMode_t ''QueueSize'') = 12" "snd (member MtlRxOperationMode_t ''QueueSize'') = 12"
  "snd (member MtlRxOperationMode_t ''FlowControlActivate'') = 6" "snd (member MtlRxOperationMode_t ''FlowControlDeactivate'') = 6"
  "snd (member MtlRxOperationMode_t ''HardwareFlowControl'') = Suc 0"
  by (simp_all add: MtlTxOperationMode_t_def MtlRxOperationMode_t_def)

lemma queue_mode_fields:
  "getf MtlTxOperationMode_t ''QueueSize'' (d0_tx_operation_mode q) = take_bit 12 (q div 256 - 1)"
  "getf MtlRxOperationMode_t ''QueueSize'' (d0_rx_operation_mode e q) = take_bit 12 (q div 256 - 1)"
  "getf MtlRxOperationMode_t ''FlowControlActivate'' (d0_rx_operation_mode e q) = take_bit 6 (flow_activate q div 512 - 2)"
  "getf MtlRxOperationMode_t ''FlowControlDeactivate'' (d0_rx_operation_mode e q) = take_bit 6 (flow_deactivate (flow_activate q) div 512 - 2)"
  by (simp_all add: d0_tx_operation_mode_def d0_rx_operation_mode_def mtlTxOperationMode.getf_putfs
      mtlRxOperationMode.getf_putfs queue_mode_widths del: putfs.simps)

lemma hardware_flow_control:
  "isset MtlRxOperationMode_t ''HardwareFlowControl'' (d0_rx_operation_mode e q) = (e \<and> 2048 \<le> q)"
  by (simp add: isset_def d0_rx_operation_mode_def mtlRxOperationMode.getf_putfs queue_mode_widths del: putfs.simps)
    (auto simp: flag_def)

lemma queue_size_codes:
  assumes "unat (f::u32) < 32" "f \<noteq> 0"
  shows "(unat (take_bit 12 (queue_size (fifo_size f) div 256 - 1)) + 1) * 256 = unat (queue_size (fifo_size f))
    \<and> unat (queue_size (fifo_size f)) \<le> 0x100000"
  using below_32 [OF assms(1)] assms(2) unfolding queue_size_values [OF assms(1)]
  by (elim disjE) (simp_all add: take_bit_eq_mask mask_numeral)

lemma flow_codes:
  assumes "unat (f::u32) < 32"
  shows "if 8 < unat f
     then take_bit 6 (flow_activate (queue_size (fifo_size f)) div 512 - 2) = 62
        \<and> take_bit 6 (flow_deactivate (flow_activate (queue_size (fifo_size f))) div 512 - 2) = 30
     else if 3 < unat f
     then (unat (take_bit 6 (flow_activate (queue_size (fifo_size f)) div 512 - 2)) + 2) * 1024 = unat (queue_size (fifo_size f))
        \<and> (unat (take_bit 6 (flow_deactivate (flow_activate (queue_size (fifo_size f))) div 512 - 2)) + 2) * 2048
            = 3 * unat (queue_size (fifo_size f))
     else queue_size (fifo_size f) < 2048"
  using below_32 [OF assms] unfolding queue_size_values [OF assms]
  by (elim disjE) (simp_all add: flow_activate_def flow_deactivate_def take_bit_eq_mask mask_numeral)

abbreviation d0_regs :: "platform \<Rightarrow> u32 \<Rightarrow> EqosDevice \<Rightarrow> mmio" where
  "d0_regs pf cs d \<equiv> mregs (irq (snd (DeviceD0Entry pf cs d)))"

text \<open>Power up gives both queues the size of their FIFO, at most 1 MB: the block count programmed into
  the 12-bit fields decodes to the intended size for every FIFO size code but 0.\<close>

theorem d0_queue_sizes:
  assumes "getf MacHwFeature1_t ''TxFifoSize'' (feature1 d) \<noteq> 0" "getf MacHwFeature1_t ''RxFifoSize'' (feature1 d) \<noteq> 0"
  shows "(unat (getf MtlTxOperationMode_t ''QueueSize'' (Read32 Mtl_Tx_Operation_Mode (d0_regs pf cs d))) + 1) * 256
      = unat (queue_size (fifo_size (getf MacHwFeature1_t ''TxFifoSize'' (feature1 d))))
    \<and> (unat (getf MtlRxOperationMode_t ''QueueSize'' (Read32 Mtl_Rx_Operation_Mode (d0_regs pf cs d))) + 1) * 256
      = unat (queue_size (fifo_size (getf MacHwFeature1_t ''RxFifoSize'' (feature1 d))))
    \<and> unat (queue_size (fifo_size (getf MacHwFeature1_t ''RxFifoSize'' (feature1 d)))) \<le> 0x100000"
  using queue_size_codes [OF fifo_features(1) assms(1)] queue_size_codes [OF fifo_features(2) assms(2)]
  by (simp add: read_after_d0 d0_reads queue_mode_fields)

lemma demo_fifo:
  "getf MacHwFeature1_t ''TxFifoSize'' (feature1 demo_device) = 5" "getf MacHwFeature1_t ''RxFifoSize'' (feature1 demo_device) = 5"
  by (simp_all add: demo_device_def getf_def MacHwFeature1_t_def get_bits_def take_bit_eq_mask mask_numeral)

theorem d0_queue_sizes_witness:
  "(unat (getf MtlRxOperationMode_t ''QueueSize'' (Read32 Mtl_Rx_Operation_Mode (d0_regs demo_platform 0 demo_device))) + 1) * 256 = 4096"
proof -
  have "unat (queue_size (fifo_size 5)) = 4096" by (simp add: queue_size_def fifo_size_def QueuesSupported_def)
  then show ?thesis using d0_queue_sizes [of demo_device demo_platform 0] by (simp add: demo_fifo)
qed

text \<open>Receive flow control pauses the sender when half of the queue is free and releases it at three
  quarters, for FIFOs of 2 KB to 32 KB, and is off below 2 KB; for 64 KB and more the release threshold
  does not fit its 6-bit field and is programmed below the pause threshold.\<close>

theorem d0_flow_control:
  "if 8 < unat (getf MacHwFeature1_t ''RxFifoSize'' (feature1 d))
   then getf MtlRxOperationMode_t ''FlowControlActivate'' (Read32 Mtl_Rx_Operation_Mode (d0_regs pf cs d)) = 62
      \<and> getf MtlRxOperationMode_t ''FlowControlDeactivate'' (Read32 Mtl_Rx_Operation_Mode (d0_regs pf cs d)) = 30
   else if 3 < unat (getf MacHwFeature1_t ''RxFifoSize'' (feature1 d))
   then (unat (getf MtlRxOperationMode_t ''FlowControlActivate'' (Read32 Mtl_Rx_Operation_Mode (d0_regs pf cs d))) + 2) * 1024
        = unat (queue_size (fifo_size (getf MacHwFeature1_t ''RxFifoSize'' (feature1 d))))
      \<and> (unat (getf MtlRxOperationMode_t ''FlowControlDeactivate'' (Read32 Mtl_Rx_Operation_Mode (d0_regs pf cs d))) + 2) * 2048
        = 3 * unat (queue_size (fifo_size (getf MacHwFeature1_t ''RxFifoSize'' (feature1 d))))
   else isset MtlRxOperationMode_t ''HardwareFlowControl'' (Read32 Mtl_Rx_Operation_Mode (d0_regs pf cs d)) = False"
  using flow_codes [OF fifo_features(2), of "feature1 d"]
  by (auto simp: read_after_d0 d0_reads queue_mode_fields hardware_flow_control split: if_splits)

lemma watchdog_value:
  assumes "1514 \<le> unat (j::u16)" "unat j \<le> 9014"
  shows "unat (getf MacWatchdogTimeout_t ''WatchdogTimeout'' (d0_watchdog j)) = (unat j + 1031) div 1024 - 2"
proof -
  let ?k = "(int (unat j) + 8 + 1023) div 1024 - 2"
  have gen: "0 \<le> (int n + 8 + 1023) div 1024 - 2 \<and> (int n + 8 + 1023) div 1024 - 2 < 256
      \<and> (int n + 8 + 1023) div 1024 - 2 = int ((n + 1031) div 1024 - 2)" if "1514 \<le> n" "n \<le> 9014" for n
  proof -
    have "2048 div 1024 \<le> (n + 1031) div 1024" by (rule div_le_mono) (use that in simp)
    moreover have "(n + 1031) div 1024 \<le> 10045 div 1024" by (rule div_le_mono) (use that in simp)
    ultimately have q: "2 \<le> (n + 1031) div 1024" "(n + 1031) div 1024 < 258" by simp_all
    have "(int n + 8 + 1023) div 1024 = int ((n + 1031) div 1024)" by (simp add: zdiv_int add.commute)
    then show ?thesis using q by (simp add: of_nat_diff)
  qed
  note b = gen [OF assms, THEN conjunct1] gen [OF assms, THEN conjunct2, THEN conjunct1]
  note k = gen [OF assms, THEN conjunct2, THEN conjunct2]
  have w: "snd (member MacWatchdogTimeout_t ''WatchdogTimeout'') = 8" by (simp add: MacWatchdogTimeout_t_def)
  have lt: "(unat j + 1031) div 1024 - 2 < 256" using b(2) k by linarith
  have v: "unat (word_of_int ?k :: u8) = (unat j + 1031) div 1024 - 2"
    unfolding k of_int_of_nat_eq unsigned_of_nat using lt by (simp add: take_bit_nat_eq_self)
  have "getf MacWatchdogTimeout_t ''WatchdogTimeout'' (d0_watchdog j) = take_bit 8 (ucast (word_of_int ?k :: u8))"
    by (simp add: d0_watchdog_def macWatchdogTimeout.getf_putfs w del: putfs.simps)
  then have "unat (getf MacWatchdogTimeout_t ''WatchdogTimeout'' (d0_watchdog j)) = unat (word_of_int ?k :: u8) mod 2 ^ 8"
    by (simp add: unat_field [where n = 8] del: unat_take_bit_small)
  then show ?thesis unfolding v using lt by (simp only: power_numeral) simp
qed

text \<open>For every configurable frame size the watchdog, whose unit is 1 KB above 2 KB, is at least a frame
  with its VLAN tag and checksum and less than 1 KB above it (or is the minimum), and the giant-packet
  limit is the frame with its checksum.\<close>

theorem d0_frame_limits:
  assumes "1514 \<le> unat (jumboFrame (config d))" "unat (jumboFrame (config d)) \<le> 9014"
  shows "unat (jumboFrame (config d)) + 8 \<le> unat (getf MacWatchdogTimeout_t ''WatchdogTimeout'' (Read32 Mac_Watchdog_Timeout (d0_regs pf cs d))) * 1024 + 2048
    \<and> unat (getf MacWatchdogTimeout_t ''WatchdogTimeout'' (Read32 Mac_Watchdog_Timeout (d0_regs pf cs d))) * 1024 + 2048
        < max 2049 (unat (jumboFrame (config d)) + 8 + 1024)
    \<and> unat (getf MacExtConfiguration_t ''GiantPacketSizeLimit'' (Read32 Mac_Ext_Configuration (d0_regs pf cs d)))
        = unat (jumboFrame (config d)) + 4"
proof -
  let ?j = "jumboFrame (config d)"
  have g: "unat (getf MacExtConfiguration_t ''GiantPacketSizeLimit'' (d0_mac_ext_configuration ?j)) = unat ?j + 4"
  proof -
    have w: "snd (member MacExtConfiguration_t ''GiantPacketSizeLimit'') = 14" by (simp add: MacExtConfiguration_t_def)
    have "unat (ucast ?j :: u32) = unat ?j" by (rule unat_ucast_widen) simp
    then have u: "unat (ucast ?j + 4 :: u32) = unat ?j + 4" using assms by (simp add: unat_word_ariths)
    then show ?thesis using assms
      by (simp add: d0_mac_ext_configuration_def macExtConfiguration.getf_putf_same w unat_take_bit_small)
  qed
  show ?thesis using assms
    unfolding read_after_d0 [of Mac_Watchdog_Timeout, simplified] read_after_d0 [of Mac_Ext_Configuration, simplified] d0_reads
      watchdog_value [OF assms] g
    by linarith
qed

theorem d0_frame_limits_witness:
  "1522 \<le> unat (getf MacWatchdogTimeout_t ''WatchdogTimeout'' (Read32 Mac_Watchdog_Timeout (d0_regs demo_platform 0 demo_device))) * 1024 + 2048"
  using d0_frame_limits [of demo_device demo_platform 0] by (simp add: demo_device_def)

text \<open>Power up leaves the interrupt path in its initial state, with exactly the state interrupts unmasked
  and no status pending in the device; power down masks everything and stops the receiver and the
  transmitter, changing no other bit of the MAC configuration.\<close>

theorem d0_interrupts:
  assumes "interruptStatus (irq d) = 0" "\<not> dpcQueued (irq d)" "rxQueue (irq d) = None" "txQueue (irq d) = None"
  shows "intr_initial \<lparr>dev = irq (snd (DeviceD0Entry pf cs d)), stage = DpcIdle, rxSet = SetIdle, txSet = SetIdle\<rparr>
    \<and> chStatus (irq (snd (DeviceD0Entry pf cs d))) = 0
    \<and> \<not> isset MacInterruptStatus_t ''LinkStatus'' (macStatus (irq (snd (DeviceD0Entry pf cs d))))
    \<and> masks_are InterruptsNone (irq (snd (DeviceD0Exit d))) \<and> interruptsWanted (irq (snd (DeviceD0Exit d))) = InterruptsNone
    \<and> getf MacConfiguration_t f (Read32 Mac_Configuration (mregs (irq (snd (DeviceD0Exit d)))))
      = (if f = ''ReceiverEnable'' \<or> f = ''TransmitterEnable'' then 0
         else getf MacConfiguration_t f (Read32 Mac_Configuration (mregs (irq d))))"
proof -
  obtain u where u: "u = UpdateLinkState pf cs (set_regs (d0_registers d (mregs (irq d))) d)" by blast
  have same: "interruptStatus (irq u) = 0" "\<not> dpcQueued (irq u)" "rxQueue (irq u) = None" "txQueue (irq u) = None"
    "\<not> isset MacInterruptStatus_t ''LinkStatus'' (macStatus (irq u))"
    using assms by (simp_all add: u UpdateLinkState_def set_regs_def Let_def isset_def macInterruptStatus.getf_putf_same split: prod.split)
  have "intr_initial \<lparr>dev = irq (snd (DeviceD0Entry pf cs d)), stage = DpcIdle, rxSet = SetIdle, txSet = SetIdle\<rparr>
    \<and> chStatus (irq (snd (DeviceD0Entry pf cs d))) = 0
    \<and> \<not> isset MacInterruptStatus_t ''LinkStatus'' (macStatus (irq (snd (DeviceD0Entry pf cs d))))"
    using same by (auto simp: DeviceD0Entry_def Let_def u [symmetric] intr_initial_def)
  moreover have "take_bit n (flag False) = (0::u32)" for n by (simp add: flag_def)
  then have "masks_are InterruptsNone (irq (snd (DeviceD0Exit d))) \<and> interruptsWanted (irq (snd (DeviceD0Exit d))) = InterruptsNone
    \<and> getf MacConfiguration_t f (Read32 Mac_Configuration (mregs (irq (snd (DeviceD0Exit d)))))
      = (if f = ''ReceiverEnable'' \<or> f = ''TransmitterEnable'' then 0
         else getf MacConfiguration_t f (Read32 Mac_Configuration (mregs (irq d))))"
    by (simp add: DeviceD0Exit_def Let_def masks_are_def DeviceInterruptSet_Locked_def macConfiguration.getf_putfs del: putfs.simps)
  ultimately show ?thesis by blast
qed

theorem d0_interrupts_witness:
  "intr_initial \<lparr>dev = irq (snd (DeviceD0Entry demo_platform 0x000D0000 demo_device)), stage = DpcIdle, rxSet = SetIdle, txSet = SetIdle\<rparr>"
  using d0_interrupts [of demo_device demo_platform "0x000D0000"] by (simp add: demo_device_def demo_dev_def)

end
