(* ===== verification/EqosPrepare.thy ===== *)
theory EqosPrepare imports EqosDevice TxQueue RxQueue begin

text \<open>
  Starting and releasing the Ethernet device: \<open>DevicePrepareHardware\<close> and \<open>DeviceReleaseHardware\<close> of
  src/drivers/net/dwc_eqos/device.cpp, block by block in the order of the code. Every \<open>goto Done\<close> ends
  the function with the status it sets; the trace messages are left out.
\<close>

section \<open>What the function is given\<close>

text \<open>
  The adapter's configuration as NetAdapterCx returns it: the status of opening it, the result of the
  link layer address query (status, length, bytes) and of the integer queries by name.
\<close>

record net_configuration =
  openStatus :: NTSTATUS
  linkLayerAddress :: "NTSTATUS \<times> u16 \<times> u8 list"
  queryUlong :: "string \<Rightarrow> NTSTATUS \<times> u32"

text \<open>
  A translated resource with what the framework does with it: a memory range has its length, its raw
  start address and whether mapping it succeeds; an interrupt has the status of creating it.
\<close>

datatype cm_resource =
    CmResourceTypeMemory u32 u64 bool
  | CmResourceTypeInterrupt NTSTATUS
  | CmResourceTypeOther u8

text \<open>
  The rest of the environment: the read-only version and feature registers, the two address macros of
  the network headers, the bytes \<open>BCryptGenRandom\<close> produces, the ACPI platform with the size of its
  simple input buffer, the outcomes of the framework calls, and the reads of \<open>Dma_Mode\<close> during reset.
\<close>

record prepare_env =
  netConfiguration :: net_configuration
  resourceList :: "cm_resource list"
  macVersion :: u32
  hwFeature0 :: u32
  hwFeature1 :: u32
  hwFeature2 :: u32
  hwFeature3 :: u32
  ETH_IS_MULTICAST :: "u8 list \<Rightarrow> bool"
  ETH_IS_BROADCAST :: "u8 list \<Rightarrow> bool"
  genRandom :: "u8 list"
  acpiPlatform :: platform
  sizeof_INPUT_BUFFER :: nat
  dmaEnablerStatus :: NTSTATUS
  dmaModeReads :: "nat \<Rightarrow> u32"
  adapterStartStatus :: NTSTATUS

text \<open>What the driver tells the network stack before it starts the adapter.\<close>

record adapter_capabilities =
  currentLinkLayerAddress :: "u8 list"
  permanentLinkLayerAddress :: "u8 list"
  maxLinkSpeed :: u32
  mtuSize :: int
  MaximumPhysicalAddress :: u64
  MaximumNumberOfFragments :: nat
  rxBufferSize :: u16
  MaximumMulticastAddresses :: u32
  SupportedPacketFilters :: packet_filter
  gsoMaximumOffloadSize :: nat
  gsoMinimumSegmentCount :: nat
  gsoLayer4HeaderOffsetLimit :: nat

text \<open>The device with the parts of \<open>DeviceContext\<close> only these two functions set.\<close>

record EqosHardware =
  eqos :: EqosDevice
  regsMapped :: bool
  interruptCreated :: bool
  perfCounterDeviceId :: u32
  feature2 :: u32
  feature3 :: u32
  dmaAddressWidth :: "u32 option"
  capabilities :: "adapter_capabilities option"
  adapterStarted :: bool

section \<open>Reading the configuration\<close>

definition config_address :: "prepare_env \<Rightarrow> u8 list option" where
  "config_address env =
     (case linkLayerAddress (netConfiguration env) of (status, len, addr) \<Rightarrow>
        if \<not> NT_SUCCESS status then None
        else if len \<noteq> 6 then None
        else if ETH_IS_MULTICAST env addr \<or> ETH_IS_BROADCAST env addr then None
        else Some (take 6 addr))"

definition config_ulong :: "prepare_env \<Rightarrow> string \<Rightarrow> u32 \<Rightarrow> u32" where
  "config_ulong env name dflt =
     (case queryUlong (netConfiguration env) name of (status, value) \<Rightarrow>
        if NT_SUCCESS status then value else dflt)"

definition flowControlConfiguration :: "prepare_env \<Rightarrow> u32" where
  "flowControlConfiguration env = config_ulong env ''*FlowControl'' 3"

definition jumboPacketConfiguration :: "prepare_env \<Rightarrow> u32" where
  "jumboPacketConfiguration env = config_ulong env ''*JumboPacket'' (ucast JumboPacketMin)"

definition vlanIdConfiguration :: "prepare_env \<Rightarrow> u32" where
  "vlanIdConfiguration env = config_ulong env ''VlanID'' 0"

section \<open>Resources\<close>

text \<open>
  The loop over the resource list; \<open>n\<close> is \<open>interruptsFound\<close>. The first component is the status of a
  \<open>goto Done\<close>.
\<close>

fun find_resources :: "cm_resource list \<Rightarrow> u32 \<Rightarrow> EqosHardware \<Rightarrow> NTSTATUS option \<times> EqosHardware" where
  "find_resources [] n h = (None, h)"
| "find_resources (CmResourceTypeMemory len rawStart mapped # rs) n h =
     (if regsMapped h then find_resources rs n h
      else if unat len < width MacRegisters then find_resources rs n h
      else if \<not> mapped then (Some STATUS_INSUFFICIENT_RESOURCES, h)
      else find_resources rs n (h\<lparr>regsMapped := True, perfCounterDeviceId := ucast (drop_bit 4 rawStart)\<rparr>))"
| "find_resources (CmResourceTypeInterrupt status # rs) n h =
     (if n = 0
      then if NT_SUCCESS status then find_resources rs (n + 1) (h\<lparr>interruptCreated := True\<rparr>) else (Some status, h)
      else find_resources rs (n + 1) h)"
| "find_resources (CmResourceTypeOther t # rs) n h = find_resources rs n h"

section \<open>MAC address and features\<close>

definition select_mac_address :: "u32 \<Rightarrow> u32 \<Rightarrow> u8 list \<Rightarrow> u8 list \<Rightarrow> u8 list" where
  "select_mac_address mac0lo mac0hi permanent random =
     (if mac0lo = 0xFFFFFFFF \<and> (ucast mac0hi :: u16) = 0xFFFF \<or> mac0lo = 0 \<and> (ucast mac0hi :: u16) = 0
      then [0xF2, 0x00] @ take 4 random
      else if permanent ! 0 AND 1 \<noteq> 0 then permanent[0 := permanent ! 0 AND NOT 1]
      else permanent)"

definition setup_mac_address :: "prepare_env \<Rightarrow> EqosDevice \<Rightarrow> EqosDevice" where
  "setup_mac_address env d =
     (let m = mregs (irq d);
          permanent = read_mac_address 0 m
      in d\<lparr>permanentMacAddress := permanent,
           currentMacAddress :=
             (case config_address env of
                Some addr \<Rightarrow> addr
              | None \<Rightarrow> select_mac_address (Read32 (Mac_Address_Low 0) m) (Read32 (Mac_Address_High 0) m) permanent (genRandom env))\<rparr>)"

definition read_features :: "prepare_env \<Rightarrow> EqosHardware \<Rightarrow> EqosHardware" where
  "read_features env h =
     h\<lparr>eqos := (eqos h)\<lparr>feature0 := hwFeature0 env, feature1 := hwFeature1 env\<rparr>,
       feature2 := hwFeature2 env, feature3 := hwFeature3 env\<rparr>"

definition features_supported :: "prepare_env \<Rightarrow> bool" where
  "features_supported env \<longleftrightarrow>
     \<not> (getf MacVersion_t ''RkVer'' (macVersion env) < 0x51 \<or> getf MacVersion_t ''UserVer'' (macVersion env) > 0x52)
     \<and> isset MacHwFeature0_t ''SaVlanIns'' (hwFeature0 env)
     \<and> isset MacHwFeature0_t ''TxChecksumOffload'' (hwFeature0 env)
     \<and> isset MacHwFeature0_t ''RxChecksumOffload'' (hwFeature0 env)
     \<and> isset MacHwFeature1_t ''TsoEn'' (hwFeature1 env)"

section \<open>Device configuration\<close>

definition default_config :: "u32 \<Rightarrow> u32 \<Rightarrow> u32 \<Rightarrow> DeviceConfig" where
  "default_config flow jumbo vlan =
     \<lparr>pblX8 = True, pbl = 8, cfgTxPbl = 8, cfgRxPbl = 8, fixed_burst = False, mixed_burst = True,
      wr_osr_lmt = 4, rd_osr_lmt = 8, blen = 0x7,
      txFlowControl = (if flow = 0 then False else if flow = 1 then True else if flow = 2 then False else True),
      rxFlowControl = (if flow = 0 then False else if flow = 1 then False else True),
      jumboFrame = ucast (if jumbo < ucast JumboPacketMin then ucast JumboPacketMin
                          else if jumbo > ucast JumboPacketMax then ucast JumboPacketMax else jumbo),
      cfgVlanId = ucast (if vlan \<le> 0xFFF then vlan else 0)\<rparr>"

text \<open>\<open>AcpiDevicePropertiesQueryIntegerValue\<close> followed by \<open>if (NT_SUCCESS(status) && valueI32 <= limit)\<close>.\<close>

definition integer_setting ::
    "acpi_api \<Rightarrow> u8 list \<Rightarrow> nat \<Rightarrow> string \<Rightarrow> u32 \<Rightarrow> (u32 \<Rightarrow> DeviceConfig \<Rightarrow> DeviceConfig) \<Rightarrow> DeviceConfig \<Rightarrow> DeviceConfig option" where
  "integer_setting api bytes props name limit upd c =
     map_option (\<lambda>r. case r of
         (status, Some v) \<Rightarrow> if NT_SUCCESS status \<and> v \<le> limit then upd v c else c
       | (status, None) \<Rightarrow> c)
       (AcpiDevicePropertiesQueryIntegerValue api (query_memory bytes name) (Some props) (Some (length bytes)) True)"

definition set_pbl :: "u32 \<Rightarrow> DeviceConfig \<Rightarrow> DeviceConfig" where
  "set_pbl v c = c\<lparr>pbl := ucast v, cfgTxPbl := ucast v, cfgRxPbl := ucast v\<rparr>"

definition dsd_settings :: "acpi_api \<Rightarrow> u8 list \<Rightarrow> nat \<Rightarrow> DeviceConfig \<Rightarrow> DeviceConfig option" where
  "dsd_settings api bytes props c0 =
     Option.bind (integer_setting api bytes props ''snps,pblx8'' 1 (\<lambda>v c. c\<lparr>pblX8 := v \<noteq> 0\<rparr>) c0)
      (\<lambda>c1. Option.bind (integer_setting api bytes props ''snps,pbl'' 0x3F set_pbl c1)
      (\<lambda>c2. Option.bind (integer_setting api bytes props ''snps,txpbl'' 0x3F (\<lambda>v c. c\<lparr>cfgTxPbl := ucast v\<rparr>) c2)
      (\<lambda>c3. Option.bind (integer_setting api bytes props ''snps,rxpbl'' 0x3F (\<lambda>v c. c\<lparr>cfgRxPbl := ucast v\<rparr>) c3)
      (\<lambda>c4. Option.bind (integer_setting api bytes props ''snps,fixed-burst'' 1 (\<lambda>v c. c\<lparr>fixed_burst := v \<noteq> 0\<rparr>) c4)
      (\<lambda>c5. integer_setting api bytes props ''snps,mixed-burst'' 1 (\<lambda>v c. c\<lparr>mixed_burst := v \<noteq> 0\<rparr>) c5)))))"

definition blen_bit :: "u32 \<Rightarrow> u8" where
  "blen_bit v = (if v = 4 then 0x1 else if v = 8 then 0x2 else if v = 16 then 0x4 else if v = 32 then 0x8
     else if v = 64 then 0x10 else if v = 128 then 0x20 else if v = 256 then 0x40 else 0)"

text \<open>The loop over the burst lengths; the result is \<open>blen\<close> and \<open>count\<close>.\<close>

partial_function (option) blen_scan ::
    "acpi_api \<Rightarrow> memory \<Rightarrow> nat \<Rightarrow> nat option \<Rightarrow> u8 \<Rightarrow> u32 \<Rightarrow> (u8 \<times> u32) option" where
  "blen_scan api mem pkg blenVal b count =
     (case AcpiPackageGetNextArgument api mem pkg blenVal of
        (STATUS_SUCCESS, Some a) \<Rightarrow>
          (if ArgType api mem a \<noteq> TYPE_INTEGER api \<or> ArgDataLength api mem a \<noteq> 4 then Some (b, count)
           else blen_scan api mem pkg (Some a) (b OR blen_bit (ArgArgument api mem a)) (count + 1))
      | _ \<Rightarrow> Some (b, count))"

definition blen_setting :: "acpi_api \<Rightarrow> u8 list \<Rightarrow> nat \<Rightarrow> DeviceConfig \<Rightarrow> DeviceConfig option" where
  "blen_setting api bytes props c =
     (let mem = query_memory bytes ''snps,blen'' in
      Option.bind (AcpiDevicePropertiesQueryValue api mem (Some props) (Some (length bytes)) True) (\<lambda>r. case r of
          (status, Some p) \<Rightarrow>
            if NT_SUCCESS status \<and> ArgType api mem p = TYPE_PACKAGE api
            then map_option (\<lambda>(b, count). if count \<noteq> 0 then c\<lparr>blen := b\<rparr> else c) (blen_scan api mem p None 0 0)
            else Some c
        | (status, None) \<Rightarrow> Some c))"

definition axi_settings :: "acpi_api \<Rightarrow> u8 list \<Rightarrow> nat \<Rightarrow> DeviceConfig \<Rightarrow> DeviceConfig option" where
  "axi_settings api bytes props c0 =
     Option.bind (integer_setting api bytes props ''snps,wr_osr_lmt'' 0x0F (\<lambda>v c. c\<lparr>wr_osr_lmt := ucast v\<rparr>) c0)
      (\<lambda>c1. Option.bind (integer_setting api bytes props ''snps,rd_osr_lmt'' 0x0F (\<lambda>v c. c\<lparr>rd_osr_lmt := ucast v\<rparr>) c1)
      (\<lambda>c2. blen_setting api bytes props c2))"

text \<open>The part after the method named by \<open>snps,axi-config\<close> was found; \<open>valueString\<close> is its name.\<close>

definition axi_config :: "platform \<Rightarrow> nat \<Rightarrow> u8 list \<Rightarrow> DeviceConfig \<Rightarrow> kernel \<Rightarrow> (DeviceConfig \<times> kernel) option" where
  "axi_config pf inputSize valueString c k =
     (case AcpiEvaluateMethod pf (SimpleInput (little_endian (take 4 valueString)), inputSize) k of
        ((status, out), k) \<Rightarrow>
          if \<not> NT_SUCCESS status then Some (c, k)
          else case Option.bind out id of
            None \<Rightarrow> Some (c, k)
          | Some (b, bytes) \<Rightarrow>
              (case AcpiParseDsdAsDeviceProperties (acpi pf) (as_memory bytes) (Some 0) True of
                 (status, Some props) \<Rightarrow>
                   if \<not> NT_SUCCESS status then Some (c, release b k)
                   else map_option (\<lambda>c. (c, release b k)) (axi_settings (acpi pf) bytes props c)
               | (status, None) \<Rightarrow> Some (c, release b k)))"

definition device_config :: "platform \<Rightarrow> nat \<Rightarrow> DeviceConfig \<Rightarrow> kernel \<Rightarrow> (DeviceConfig \<times> kernel) option" where
  "device_config pf inputSize c0 k =
     (case AcpiQueryDsd pf inputSize True True k of
        ((status, out), k) \<Rightarrow>
          if \<not> NT_SUCCESS status then Some (c0, k)
          else case Option.bind out id of
            None \<Rightarrow> Some (c0, k)
          | Some (b, bytes) \<Rightarrow>
              (case AcpiParseDsdAsDeviceProperties (acpi pf) (as_memory bytes) (Some 0) True of
                 (status, Some props) \<Rightarrow>
                   if \<not> NT_SUCCESS status then Some (c0, release b k)
                   else Option.bind (dsd_settings (acpi pf) bytes props c0) (\<lambda>c.
                     Option.bind (AcpiDevicePropertiesQueryStringValue (acpi pf) (query_memory bytes ''snps,axi-config'')
                         (Some props) (Some (length bytes)) 5 True True) (\<lambda>r. case r of
                       (status, Some valueLength, Some valueString) \<Rightarrow>
                         if \<not> NT_SUCCESS status \<or> valueLength \<noteq> 5 then Some (c, release b k)
                         else axi_config pf inputSize valueString c (release b k)
                     | _ \<Rightarrow> Some (c, release b k)))
               | (status, None) \<Rightarrow> Some (c0, release b k)))"

section \<open>DMA and capabilities\<close>

text \<open>\<open>AddressWidthOverride\<close> and \<open>maxPhysicalAddress\<close>.\<close>

definition AddressWidth_32 :: u32 where "AddressWidth_32 = 0"
definition AddressWidth_40 :: u32 where "AddressWidth_40 = 1"
definition AddressWidth_48 :: u32 where "AddressWidth_48 = 2"

definition dma_address_width :: "u32 \<Rightarrow> (u32 \<times> u64) option" where
  "dma_address_width addressWidth =
     (if addressWidth = AddressWidth_32 then Some (32, 0xFFFFFFFF)
      else if addressWidth = AddressWidth_40 then Some (40, 0xFFFFFFFFFF)
      else if addressWidth = AddressWidth_48 then Some (48, 0xFFFFFFFFFFFF)
      else None)"

definition max_multicast :: "u32 \<Rightarrow> u32" where
  "max_multicast macAddrCount = (if macAddrCount > 1 then macAddrCount - 1 else 0)"

definition adapter_update :: "u64 \<Rightarrow> EqosDevice \<Rightarrow> adapter_capabilities" where
  "adapter_update maxPhysicalAddress d =
     (let maxMcast = max_multicast (getf MacHwFeature0_t ''MacAddrCount'' (feature0 d)) in
      \<lparr>currentLinkLayerAddress = currentMacAddress d,
       permanentLinkLayerAddress = permanentMacAddress d,
       maxLinkSpeed = (if isset MacHwFeature0_t ''Gmii'' (feature0 d) then 1000000000 else 100000000),
       mtuSize = int (unat (jumboFrame (config d))) - 14,
       MaximumPhysicalAddress = maxPhysicalAddress,
       MaximumNumberOfFragments = TxMaximumNumberOfFragments,
       rxBufferSize = RxBufferSize (jumboFrame (config d)),
       MaximumMulticastAddresses = maxMcast,
       SupportedPacketFilters = \<lparr>Promiscuous = True, AllMulticast = True, Broadcast = True, Directed = True,
                                 Multicast = maxMcast \<noteq> 0\<rparr>,
       gsoMaximumOffloadSize = TxMaximumOffloadSize,
       gsoMinimumSegmentCount = 2,
       gsoLayer4HeaderOffsetLimit = TxLayer4HeaderOffsetLimit\<rparr>)"

section \<open>Initialising the adapter\<close>

definition DefaultCsrRate :: u32 where "DefaultCsrRate = 125000000"
definition BusBytes :: u32 where "BusBytes = 8"

definition sys_bus_mode :: "DeviceConfig \<Rightarrow> u32 \<Rightarrow> u32 \<Rightarrow> u32" where
  "sys_bus_mode c addressWidth oldMode = putfs DmaSysBusMode_t
     [(''EnableLpi'', flag True), (''UnlockOnPacket'', flag False),
      (''AxiMaxWriteOutstanding'', ucast (wr_osr_lmt c)), (''AxiMaxReadOutstanding'', ucast (rd_osr_lmt c)),
      (''Reserved14'', flag (mixed_burst c)), (''AddressAlignedBeats'', flag True), (''AutoAxiLpi'', flag True),
      (''BurstLengths'', ucast (blen c)), (''FixedBurst'', flag (fixed_burst c)),
      (''EnhancedAddressMode'', flag (addressWidth \<noteq> AddressWidth_32))] oldMode"

definition init_registers :: "DeviceConfig \<Rightarrow> u32 \<Rightarrow> mmio \<Rightarrow> mmio" where
  "init_registers c addressWidth m0 =
     (let m = Write32 Axi_Lpi_Entry_Interval 15 m0;
          m = Write32 Dma_SysBus_Mode (sys_bus_mode c addressWidth (Read32 Dma_SysBus_Mode m)) m;
          m = Write32 Mac_1us_Tic_Counter (DefaultCsrRate div 1000000 - 1) m;
          m = Write32 Ch_Control (putfs ChannelDmaControl_t
                [(''DescriptorSkipLength'', (QueueDescriptorSize - 16) div BusBytes), (''PblX8'', flag (pblX8 c))] 0) m;
          m = Write32 Mmc_Rx_Interrupt_Mask 0xFFFFFFFF m;
          m = Write32 Mmc_Tx_Interrupt_Mask 0xFFFFFFFF m;
          m = Write32 Mmc_Ipc_Rx_Interrupt_Mask 0xFFFFFFFF m;
          m = Write32 Mmc_Fpe_Tx_Interrupt_Mask 0xFFFFFFFF m
      in Write32 Mmc_Fpe_Rx_Interrupt_Mask 0xFFFFFFFF m)"

text \<open>From the DMA enabler to the end, once the configuration is known.\<close>

definition prepare_adapter :: "prepare_env \<Rightarrow> EqosHardware \<Rightarrow> NTSTATUS \<times> EqosHardware" where
  "prepare_adapter env h =
     (let addressWidth = getf MacHwFeature1_t ''AddressWidth'' (feature1 (eqos h)) in
      case dma_address_width addressWidth of
        None \<Rightarrow> (STATUS_DEVICE_CONFIGURATION_ERROR, h)
      | Some (bits, maxPhysicalAddress) \<Rightarrow>
          if \<not> NT_SUCCESS (dmaEnablerStatus env) then (dmaEnablerStatus env, h)
          else let h = h\<lparr>dmaAddressWidth := Some bits, capabilities := Some (adapter_update maxPhysicalAddress (eqos h)),
                         eqos := (eqos h)\<lparr>link := Some \<lparr>linkSpeed = 0, linkConnected = False, linkFullDuplex = False\<rparr>\<rparr>\<rparr>
               in case DeviceReset (dmaModeReads env) (currentMacAddress (eqos h)) (mregs (irq (eqos h))) of
                    (status, m) \<Rightarrow>
                      if \<not> NT_SUCCESS status then (status, h\<lparr>eqos := set_regs m (eqos h)\<rparr>)
                      else (adapterStartStatus env,
                            h\<lparr>eqos := set_regs (init_registers (config (eqos h)) addressWidth m) (eqos h),
                              adapterStarted := NT_SUCCESS (adapterStartStatus env)\<rparr>))"

section \<open>The two functions\<close>

definition DevicePrepareHardware :: "prepare_env \<Rightarrow> EqosHardware \<Rightarrow> (NTSTATUS \<times> EqosHardware) option" where
  "DevicePrepareHardware env h0 =
     (if \<not> NT_SUCCESS (openStatus (netConfiguration env)) then Some (openStatus (netConfiguration env), h0)
      else let h = (case config_address env of
                      Some addr \<Rightarrow> h0\<lparr>eqos := (eqos h0)\<lparr>currentMacAddress := addr\<rparr>\<rparr>
                    | None \<Rightarrow> h0)
           in case find_resources (resourceList env) 0 h of
                (Some status, h) \<Rightarrow> Some (status, h)
              | (None, h) \<Rightarrow>
                  if \<not> regsMapped h then Some (STATUS_DEVICE_CONFIGURATION_ERROR, h)
                  else if \<not> interruptCreated h then Some (STATUS_DEVICE_CONFIGURATION_ERROR, h)
                  else let h = read_features env (h\<lparr>eqos := setup_mac_address env (eqos h)\<rparr>)
                       in if \<not> features_supported env then Some (STATUS_DEVICE_CONFIGURATION_ERROR, h)
                          else map_option (\<lambda>(c, k). prepare_adapter env (h\<lparr>eqos := (eqos h)\<lparr>config := c, pool := k\<rparr>\<rparr>))
                                 (device_config (acpiPlatform env) (sizeof_INPUT_BUFFER env)
                                   (default_config (flowControlConfiguration env) (jumboPacketConfiguration env) (vlanIdConfiguration env))
                                   (pool (eqos h))))"

definition DeviceReleaseHardware :: "(nat \<Rightarrow> u32) \<Rightarrow> EqosHardware \<Rightarrow> NTSTATUS \<times> EqosHardware" where
  "DeviceReleaseHardware dmaMode h =
     (STATUS_SUCCESS,
      if regsMapped h
      then h\<lparr>eqos := set_regs (snd (DeviceReset dmaMode (permanentMacAddress (eqos h)) (mregs (irq (eqos h))))) (eqos h),
             regsMapped := False\<rparr>
      else h)"

end
