(* ===== verification/EqosPrepareProperties.thy ===== *)
theory EqosPrepareProperties imports EqosPrepare EqosDeviceProperties begin

text \<open>
  Starting the Ethernet device: the configuration it ends with is in range whatever the registry and the
  firmware say, the ACPI buffers are all given back, the function returns, and what a successful return
  means for the address, the DMA width and the reset.
\<close>

section \<open>A configuration in range\<close>

definition config_ok :: "DeviceConfig \<Rightarrow> bool" where
  "config_ok c \<longleftrightarrow> 1514 \<le> unat (jumboFrame c) \<and> unat (jumboFrame c) \<le> 9014 \<and> cfgVlanId c \<le> 0xFFF
     \<and> pbl c \<le> 0x3F \<and> cfgTxPbl c \<le> 0x3F \<and> cfgRxPbl c \<le> 0x3F
     \<and> wr_osr_lmt c \<le> 0x0F \<and> rd_osr_lmt c \<le> 0x0F \<and> blen c < 0x80"

text \<open>A configuration call returns, its configuration is in range and the pool is as it was before.\<close>

definition config_result :: "kernel \<Rightarrow> (DeviceConfig \<times> kernel) option \<Rightarrow> bool" where
  "config_result k r \<longleftrightarrow> (\<exists>c' k'. r = Some (c', k') \<and> config_ok c' \<and> kernel_ok k' \<and> live k' = live k)"

lemma ucast_small: "(v::u32) \<le> of_nat n \<Longrightarrow> n < 256 \<Longrightarrow> (ucast v :: u8) \<le> of_nat n"
proof -
  assume le: "v \<le> of_nat n" and n: "n < 256"
  have "unat (of_nat n :: u32) = n" using n by (simp add: unsigned_of_nat take_bit_nat_eq_self)
  then have v: "unat v \<le> n" using le by (simp add: word_le_nat_alt)
  have "unat (ucast v :: u8) = unat v" using v n by (simp add: unsigned_ucast_eq take_bit_nat_eq_self)
  moreover have "unat (of_nat n :: u8) = n" using n by (simp add: unsigned_of_nat take_bit_nat_eq_self)
  ultimately show ?thesis using v by (simp add: word_le_nat_alt)
qed

lemmas ucast_limits = ucast_small [of _ 63, simplified] ucast_small [of _ 15, simplified]

lemma jumbo_range:
  "1514 \<le> unat (jumboFrame (default_config f j v)) \<and> unat (jumboFrame (default_config f j v)) \<le> 9014"
proof -
  have j: "jumboFrame (default_config f j v) = ucast (if j < 1514 then 1514 else if j > 9014 then 9014 else j)"
    by (simp add: default_config_def JumboPacketMin_def JumboPacketMax_def)
  have "unat (ucast w :: u16) = unat w" if "unat w \<le> 9014" for w :: u32
    using that by (simp add: unsigned_ucast_eq take_bit_nat_eq_self)
  moreover have "unat (1514::u32) = 1514" "unat (9014::u32) = 9014" by simp_all
  ultimately show ?thesis unfolding j by (simp add: word_less_nat_alt)
qed

lemma default_config_ok: "config_ok (default_config f j v)"
proof -
  have "(ucast (if v \<le> 0xFFF then v else 0) :: u16) \<le> 0xFFF"
  proof (cases "v \<le> 0xFFF")
    case True
    then have "unat v \<le> 0xFFF" by (simp add: word_le_nat_alt)
    then show ?thesis using True by (simp add: word_le_nat_alt unsigned_ucast_eq take_bit_nat_eq_self)
  qed simp
  then show ?thesis using jumbo_range [of f j v] by (simp add: config_ok_def default_config_def)
qed

lemma blen_bit_small: "b < 0x80 \<Longrightarrow> b OR blen_bit v < 0x80"
proof -
  have iff: "(x < 0x80) = (take_bit 7 x = x)" for x :: u8
    using take_bit_nat_eq_self_iff [of 7 "unat x"]
    by (simp add: word_less_nat_alt word_unat_eq_iff unsigned_take_bit_eq)
  have "take_bit 7 (blen_bit v) = blen_bit v" by (simp add: blen_bit_def take_bit_eq_mask mask_numeral)
  then show "b < 0x80 \<Longrightarrow> b OR blen_bit v < 0x80" unfolding iff by (simp add: take_bit_or)
qed

section \<open>Reading the firmware's properties\<close>

context acpi_layout
begin

lemma next_inside:
  assumes "AcpiPackageGetNextArgument api mem pkg (Some c) = (STATUS_SUCCESS, Some n)"
  shows "c < n \<and> n < ArgData api pkg + unat (ArgDataLength api mem pkg)"
proof -
  have "n = next_argument api mem c" "n < ArgData api pkg + unat (ArgDataLength api mem pkg)"
    using assms by (auto simp: AcpiPackageGetNextArgument_def Let_def split: if_splits)
  then show ?thesis using next_greater [of c mem] by simp
qed

lemma blen_scan_step:
  assumes "\<And>n b count. AcpiPackageGetNextArgument api mem pkg c = (STATUS_SUCCESS, Some n) \<Longrightarrow> b < 0x80
      \<Longrightarrow> \<exists>b' count'. blen_scan api mem pkg (Some n) b count = Some (b', count') \<and> b' < 0x80"
    and b: "b < 0x80"
  shows "\<exists>b' count'. blen_scan api mem pkg c b count = Some (b', count') \<and> b' < 0x80"
proof (cases "\<exists>n. AcpiPackageGetNextArgument api mem pkg c = (STATUS_SUCCESS, Some n)")
  case True
  then obtain n where n: "AcpiPackageGetNextArgument api mem pkg c = (STATUS_SUCCESS, Some n)" by blast
  show ?thesis
    using assms(1) [OF n blen_bit_small [OF b]] b
    unfolding blen_scan.simps [of api mem pkg c] n by simp
next
  case False
  then show ?thesis using b
    unfolding blen_scan.simps [of api mem pkg c]
    by (auto split: prod.split NTSTATUS.split option.split)
qed

lemma blen_scan_from:
  "b < 0x80 \<Longrightarrow> \<exists>b' count'. blen_scan api mem pkg (Some c) b count = Some (b', count') \<and> b' < 0x80"
proof (induction "ArgData api pkg + unat (ArgDataLength api mem pkg) - c" arbitrary: c b count rule: less_induct)
  case less
  have "\<exists>b' count'. blen_scan api mem pkg (Some n) d cnt = Some (b', count') \<and> b' < 0x80"
    if n: "AcpiPackageGetNextArgument api mem pkg (Some c) = (STATUS_SUCCESS, Some n)" and d: "d < 0x80" for n d cnt
  proof -
    have "ArgData api pkg + unat (ArgDataLength api mem pkg) - n < ArgData api pkg + unat (ArgDataLength api mem pkg) - c"
      using next_inside [OF n] by linarith
    from less(1) [OF this d] show ?thesis .
  qed
  from blen_scan_step [OF this less(2)] show ?case by blast
qed

lemma blen_scan_bounded:
  "\<exists>b' count'. blen_scan api mem pkg None 0 0 = Some (b', count') \<and> b' < 0x80"
  by (rule blen_scan_step) (use blen_scan_from in \<open>blast, simp\<close>)

lemma blen_setting_ok: "config_ok c \<Longrightarrow> \<exists>c'. blen_setting api bytes props c = Some c' \<and> config_ok c'"
proof -
  assume ok: "config_ok c"
  let ?mem = "query_memory bytes ''snps,blen''"
  obtain r where r: "AcpiDevicePropertiesQueryValue api ?mem (Some props) (Some (length bytes)) True = Some r"
    using queries_total by blast
  obtain status p where rp: "r = (status, p)" by fastforce
  show ?thesis
  proof (cases p)
    case None
    then show ?thesis using ok by (simp add: blen_setting_def r rp)
  next
    case (Some a)
    obtain b count where b: "blen_scan api ?mem a None 0 0 = Some (b, count)" "b < 0x80"
      using blen_scan_bounded by blast
    have "config_ok (c\<lparr>blen := b\<rparr>)" using ok b by (simp add: config_ok_def)
    then show ?thesis using ok b by (simp add: blen_setting_def r rp Some Let_def)
  qed
qed

lemma integer_setting_ok:
  assumes "config_ok c" "\<And>v c. v \<le> limit \<Longrightarrow> config_ok c \<Longrightarrow> config_ok (upd v c)"
  shows "\<exists>c'. integer_setting api bytes props name limit upd c = Some c' \<and> config_ok c'"
proof -
  let ?mem = "query_memory bytes name"
  obtain r where r: "AcpiDevicePropertiesQueryValue api ?mem (Some props) (Some (length bytes)) True = Some r"
    using queries_total by blast
  then have "\<exists>q. AcpiDevicePropertiesQueryIntegerValue api ?mem (Some props) (Some (length bytes)) True = Some q"
    by (simp add: AcpiDevicePropertiesQueryIntegerValue_def)
  then obtain status v where "AcpiDevicePropertiesQueryIntegerValue api ?mem (Some props) (Some (length bytes)) True = Some (status, v)"
    by auto
  then show ?thesis using assms by (cases v) (simp_all add: integer_setting_def)
qed

lemma bind_ok: "\<exists>c'. m = Some c' \<and> P c' \<Longrightarrow> (\<And>c. P c \<Longrightarrow> \<exists>c'. f c = Some c' \<and> Q c') \<Longrightarrow> \<exists>c'. Option.bind m f = Some c' \<and> Q c'"
  by auto

lemma dsd_settings_ok: "config_ok c \<Longrightarrow> \<exists>c'. dsd_settings api bytes props c = Some c' \<and> config_ok c'"
  unfolding dsd_settings_def
  by (intro bind_ok [where P = config_ok] integer_setting_ok)
    (simp_all add: config_ok_def set_pbl_def ucast_limits)

lemma axi_settings_ok: "config_ok c \<Longrightarrow> \<exists>c'. axi_settings api bytes props c = Some c' \<and> config_ok c'"
  unfolding axi_settings_def
  by (intro bind_ok [where P = config_ok] integer_setting_ok blen_setting_ok)
    (simp_all add: config_ok_def ucast_limits)

section \<open>The buffers of the configuration calls\<close>

lemma axi_config_ok:
  assumes "acpi pf = api" "kernel_ok k" "config_ok c"
  shows "config_result k (axi_config pf n valueString c k)"
proof -
  obtain status out k1 where ev:
    "AcpiEvaluateMethod pf (SimpleInput (little_endian (take 4 valueString)), n) k = ((status, out), k1)"
    by (metis surj_pair)
  note pool = evaluate_pool [OF ev assms(2,1)]
  show ?thesis
  proof (cases "NT_SUCCESS status")
    case False
    then show ?thesis using pool assms(3) by (simp add: axi_config_def ev config_result_def)
  next
    case True
    then obtain b bytes where b: "out = Some (Some (b, bytes))" "live k1 = b # live k" "kernel_ok k1" using pool by auto
    have rel: "live (release b k1) = live k" "kernel_ok (release b k1)"
      using release_live [of k1 b] b by simp_all
    show ?thesis
      using True rel assms axi_settings_ok [of c bytes]
      by (fastforce simp: axi_config_def ev b config_result_def split: prod.split option.split)
  qed
qed

lemma device_config_ok:
  assumes "acpi pf = api" "kernel_ok k" "config_ok c0"
  shows "config_result k (device_config pf n c0 k)"
proof -
  obtain status out k1 where dsd: "AcpiQueryDsd pf n True True k = ((status, out), k1)" by (metis surj_pair)
  obtain status' out' where ev: "AcpiEvaluateMethod pf (SimpleInput ACPI_METHOD_ULONG_DSD, n) k = ((status', out'), k1)"
    "NT_SUCCESS status = NT_SUCCESS status'" "NT_SUCCESS status \<Longrightarrow> out = out'"
    using dsd by (auto simp: AcpiQueryDsd_def split: prod.splits if_splits)
  note pool = evaluate_pool [OF ev(1) assms(2,1)]
  show ?thesis
  proof (cases "NT_SUCCESS status")
    case False
    then show ?thesis using pool ev assms(3) by (simp add: device_config_def dsd config_result_def)
  next
    case True
    then obtain b bytes where b: "out = Some (Some (b, bytes))" "live k1 = b # live k" "kernel_ok k1"
      using pool ev by auto
    have rel: "live (release b k1) = live k" "kernel_ok (release b k1)"
      using release_live [of k1 b] b by simp_all
    have plain: "config_result k (Some (c, release b k1))" if "config_ok c" for c
      using that rel by (simp add: config_result_def)
    show ?thesis
    proof (cases "AcpiParseDsdAsDeviceProperties (acpi pf) (as_memory bytes) (Some 0) True")
      case (Pair st p)
      show ?thesis
      proof (cases "NT_SUCCESS st \<and> p \<noteq> None")
        case False
        then show ?thesis using True plain [OF assms(3)] by (auto simp: device_config_def dsd b Pair split: option.split)
      next
        case ok: True
        then obtain props where props: "p = Some props" by blast
        obtain c where c: "dsd_settings api bytes props c0 = Some c" "config_ok c"
          using dsd_settings_ok [OF assms(3)] by blast
        obtain v where "AcpiDevicePropertiesQueryValue api (query_memory bytes ''snps,axi-config'') (Some props) (Some (length bytes)) True = Some v"
          using queries_total by blast
        then have "\<exists>q. AcpiDevicePropertiesQueryStringValue api (query_memory bytes ''snps,axi-config'')
            (Some props) (Some (length bytes)) 5 True True = Some q"
          by (simp add: AcpiDevicePropertiesQueryStringValue_def del: split_paired_Ex)
        then obtain q where q: "AcpiDevicePropertiesQueryStringValue api (query_memory bytes ''snps,axi-config'')
            (Some props) (Some (length bytes)) 5 True True = Some q" by blast
        have axi: "config_result k (axi_config pf n s c (release b k1))" for s
          using axi_config_ok [OF assms(1) rel(2) c(2)] rel(1) by (simp add: config_result_def)
        show ?thesis
          using True ok axi plain [OF c(2)]
          by (simp add: device_config_def dsd b Pair [unfolded assms(1)] props assms(1) c(1) q split: prod.split option.split)
      qed
    qed
  qed
qed

end

section \<open>The stages\<close>

lemma find_resources_eqos: "eqos (snd (find_resources rs n h)) = eqos h"
  by (induction rs n h rule: find_resources.induct) auto

lemma find_resources_dma: "dmaAddressWidth (snd (find_resources rs n h)) = dmaAddressWidth h"
  by (induction rs n h rule: find_resources.induct) auto

lemma DeviceReset_pair:
  "DeviceReset dm a m = (case reset_poll dm 0 0 of
     Some k \<Rightarrow> (STATUS_SUCCESS, SetOneMacAddress 0 a True (Write32 Dma_Mode 1 m))
   | None \<Rightarrow> (STATUS_TIMEOUT, Write32 Dma_Mode 1 m))"
  by (simp add: DeviceReset_def Let_def)

lemma reset_ok: "NT_SUCCESS (fst (DeviceReset dm a m))"
  by (simp add: DeviceReset_pair split: option.split)

text \<open>Where a run that reaches the adapter stage gets to.\<close>

definition prepared :: "prepare_env \<Rightarrow> EqosHardware \<Rightarrow> EqosHardware \<Rightarrow> DeviceConfig \<Rightarrow> kernel \<Rightarrow> EqosHardware" where
  "prepared env h0 h1 c k =
     (let h = read_features env (h1\<lparr>eqos := setup_mac_address env (eqos h1)\<rparr>)
      in h\<lparr>eqos := (eqos h)\<lparr>config := c, pool := k\<rparr>\<rparr>)"

definition boot_config :: "prepare_env \<Rightarrow> DeviceConfig" where
  "boot_config env = default_config (flowControlConfiguration env) (jumboPacketConfiguration env) (vlanIdConfiguration env)"

definition prepare_reaches :: "prepare_env \<Rightarrow> EqosHardware \<Rightarrow> EqosHardware \<Rightarrow> DeviceConfig \<Rightarrow> kernel \<Rightarrow> bool" where
  "prepare_reaches env h0 h1 c k \<longleftrightarrow>
     NT_SUCCESS (openStatus (netConfiguration env))
     \<and> find_resources (resourceList env) 0
         (case config_address env of Some addr \<Rightarrow> h0\<lparr>eqos := (eqos h0)\<lparr>currentMacAddress := addr\<rparr>\<rparr> | None \<Rightarrow> h0) = (None, h1)
     \<and> regsMapped h1 \<and> interruptCreated h1 \<and> features_supported env
     \<and> device_config (acpiPlatform env) (sizeof_INPUT_BUFFER env) (boot_config env) (pool (eqos h1)) = Some (c, k)"

lemma prepare_runs:
  "prepare_reaches env h0 h1 c k \<Longrightarrow> DevicePrepareHardware env h0 = Some (prepare_adapter env (prepared env h0 h1 c k))"
  by (auto simp: prepare_reaches_def DevicePrepareHardware_def prepared_def boot_config_def Let_def
      read_features_def setup_mac_address_def split: option.splits)

lemma prepare_reaches_pool:
  "find_resources rs n (case a of Some addr \<Rightarrow> h0\<lparr>eqos := (eqos h0)\<lparr>currentMacAddress := addr\<rparr>\<rparr> | None \<Rightarrow> h0) = (s, h1)
     \<Longrightarrow> pool (eqos h1) = pool (eqos h0) \<and> mregs (irq (eqos h1)) = mregs (irq (eqos h0)) \<and> dmaAddressWidth h1 = dmaAddressWidth h0"
  using find_resources_eqos [of rs n "case a of Some addr \<Rightarrow> h0\<lparr>eqos := (eqos h0)\<lparr>currentMacAddress := addr\<rparr>\<rparr> | None \<Rightarrow> h0"]
    find_resources_dma [of rs n "case a of Some addr \<Rightarrow> h0\<lparr>eqos := (eqos h0)\<lparr>currentMacAddress := addr\<rparr>\<rparr> | None \<Rightarrow> h0"]
  by (cases a) auto

text \<open>Either the function stops early with an error, or it gets to the adapter stage.\<close>

lemma prepare_split:
  assumes "acpi_layout (acpi (acpiPlatform env))" "kernel_ok (pool (eqos h0))"
  shows "(\<exists>h1 c k. prepare_reaches env h0 h1 c k \<and> config_ok c \<and> kernel_ok k \<and> live k = live (pool (eqos h0))
            \<and> mregs (irq (eqos h1)) = mregs (irq (eqos h0)))
    \<or> (\<exists>status h. DevicePrepareHardware env h0 = Some (status, h) \<and> \<not> NT_SUCCESS status
          \<and> pool (eqos h) = pool (eqos h0) \<and> dmaAddressWidth h = dmaAddressWidth h0)"
proof -
  let ?h = "case config_address env of Some addr \<Rightarrow> h0\<lparr>eqos := (eqos h0)\<lparr>currentMacAddress := addr\<rparr>\<rparr> | None \<Rightarrow> h0"
  have ph: "pool (eqos ?h) = pool (eqos h0)" "dmaAddressWidth ?h = dmaAddressWidth h0" by (simp_all split: option.split)
  obtain s h1 where f: "find_resources (resourceList env) 0 ?h = (s, h1)" by fastforce
  note same = prepare_reaches_pool [OF f]
  have errs: "\<not> NT_SUCCESS st" if "s = Some st" for st
  proof -
    have "fst (find_resources rs n h) = Some st \<Longrightarrow> \<not> NT_SUCCESS st" for rs n h
      by (induction rs n h rule: find_resources.induct) (auto split: if_splits)
    then show ?thesis using f that by (metis fst_conv)
  qed
  obtain c k where d: "device_config (acpiPlatform env) (sizeof_INPUT_BUFFER env) (boot_config env) (pool (eqos h1)) = Some (c, k)"
    "config_ok c" "kernel_ok k" "live k = live (pool (eqos h1))"
    using acpi_layout.device_config_ok [OF assms(1) refl, of "pool (eqos h1)" "boot_config env" "sizeof_INPUT_BUFFER env"]
      same assms(2) default_config_ok by (auto simp: config_result_def boot_config_def)
  show ?thesis
  proof (cases "NT_SUCCESS (openStatus (netConfiguration env)) \<and> s = None \<and> regsMapped h1 \<and> interruptCreated h1 \<and> features_supported env")
    case True
    then have "prepare_reaches env h0 h1 c k" using f d by (simp add: prepare_reaches_def)
    then show ?thesis using d same by auto
  next
    case False
    have "\<exists>status h. DevicePrepareHardware env h0 = Some (status, h) \<and> \<not> NT_SUCCESS status
        \<and> pool (eqos h) = pool (eqos h0) \<and> dmaAddressWidth h = dmaAddressWidth h0"
    proof (cases s)
      case None
      then show ?thesis using False f same
        by (auto simp: DevicePrepareHardware_def Let_def read_features_def setup_mac_address_def)
    next
      case (Some st)
      then show ?thesis using False f same errs
        by (auto simp: DevicePrepareHardware_def Let_def)
    qed
    then show ?thesis by blast
  qed
qed

lemma prepare_adapter_keeps:
  "pool (eqos (snd (prepare_adapter env h))) = pool (eqos h)"
  "config (eqos (snd (prepare_adapter env h))) = config (eqos h)"
  "currentMacAddress (eqos (snd (prepare_adapter env h))) = currentMacAddress (eqos h)"
  "permanentMacAddress (eqos (snd (prepare_adapter env h))) = permanentMacAddress (eqos h)"
  by (auto simp: prepare_adapter_def Let_def set_regs_def split: option.split prod.split)

lemma prepared_fields:
  "pool (eqos (prepared env h0 h1 c k)) = k"
  "config (eqos (prepared env h0 h1 c k)) = c"
  "mregs (irq (eqos (prepared env h0 h1 c k))) = mregs (irq (eqos h1))"
  "feature1 (eqos (prepared env h0 h1 c k)) = hwFeature1 env"
  "permanentMacAddress (eqos (prepared env h0 h1 c k)) = read_mac_address 0 (mregs (irq (eqos h1)))"
  "currentMacAddress (eqos (prepared env h0 h1 c k)) = currentMacAddress (setup_mac_address env (eqos h1))"
  by (simp_all add: prepared_def Let_def read_features_def setup_mac_address_def)

section \<open>Properties\<close>

definition demo_prepare_env :: "u32 \<Rightarrow> prepare_env" where
  "demo_prepare_env v =
     \<lparr>netConfiguration = \<lparr>openStatus = STATUS_SUCCESS, linkLayerAddress = (STATUS_NOT_FOUND, 0, []),
                          queryUlong = (\<lambda>name. if name = ''*JumboPacket'' then (STATUS_SUCCESS, 20000) else (STATUS_NOT_FOUND, 0))\<rparr>,
      resourceList = [CmResourceTypeInterrupt STATUS_SUCCESS, CmResourceTypeMemory 0x10000 0x2A220000 True],
      macVersion = 0x1051, hwFeature0 = 0x08114000, hwFeature1 = 0x00044145, hwFeature2 = 0, hwFeature3 = 0,
      ETH_IS_MULTICAST = (\<lambda>a. odd (a ! 0)), ETH_IS_BROADCAST = (\<lambda>a. a ! 0 = 0xFF \<and> a ! 1 = 0xFF),
      genRandom = [1, 2, 3, 4], acpiPlatform = demo_platform, sizeof_INPUT_BUFFER = 12,
      dmaEnablerStatus = STATUS_SUCCESS, dmaModeReads = (\<lambda>k. v), adapterStartStatus = STATUS_SUCCESS\<rparr>"

definition demo_hardware :: EqosHardware where
  "demo_hardware = \<lparr>eqos = demo_device, regsMapped = False, interruptCreated = False, perfCounterDeviceId = 0,
     feature2 = 0, feature3 = 0, dmaAddressWidth = None, capabilities = None, adapterStarted = False\<rparr>"

text \<open>C38: Whatever the registry, the resources, the registers and the firmware contain, starting the device
  returns, and gives back every buffer the ACPI calls allocated, on every path.\<close>

theorem prepare_returns_and_frees:
  assumes "acpi_layout (acpi (acpiPlatform env))" "kernel_ok (pool (eqos h0))"
  shows "\<exists>status h. DevicePrepareHardware env h0 = Some (status, h) \<and> kernel_ok (pool (eqos h))
    \<and> live (pool (eqos h)) = live (pool (eqos h0))"
  using prepare_split [OF assms]
proof (elim disjE exE conjE)
  fix h1 c k
  assume "prepare_reaches env h0 h1 c k" "kernel_ok k" "live k = live (pool (eqos h0))"
  then show ?thesis
    using prepare_runs [of env h0 h1 c k] prepare_adapter_keeps(1) [of env "prepared env h0 h1 c k"]
    by (cases "prepare_adapter env (prepared env h0 h1 c k)") (simp add: prepared_fields)
qed (use assms(2) in simp)

lemma demo_pool: "acpi_layout (acpi (acpiPlatform (demo_prepare_env v)))" "kernel_ok (pool (eqos demo_hardware))"
  by (simp_all add: demo_prepare_env_def demo_platform_fields wdk.acpi_layout_axioms demo_hardware_def demo_device_def demo_kernel_ok)

lemma demo_hardware_pool: "pool (eqos demo_hardware) = demo_kernel"
  by (simp add: demo_hardware_def demo_device_def)

theorem prepare_returns_and_frees_witness:
  "\<exists>status h. DevicePrepareHardware (demo_prepare_env 1) demo_hardware = Some (status, h) \<and> live (pool (eqos h)) = live demo_kernel"
  using prepare_returns_and_frees [OF demo_pool, of 1] demo_hardware_pool by auto

text \<open>What a successful run looks like.\<close>

lemma prepare_success:
  assumes "acpi_layout (acpi (acpiPlatform env))" "kernel_ok (pool (eqos h0))"
    "DevicePrepareHardware env h0 = Some (status, h)" "NT_SUCCESS status"
  obtains h1 c k where "prepare_reaches env h0 h1 c k" "config_ok c" "prepare_adapter env (prepared env h0 h1 c k) = (status, h)"
    "mregs (irq (eqos h1)) = mregs (irq (eqos h0))"
  using prepare_split [OF assms(1,2)]
proof (elim disjE exE conjE)
  fix h1 c k
  assume "prepare_reaches env h0 h1 c k" "config_ok c" "mregs (irq (eqos h1)) = mregs (irq (eqos h0))"
  then show ?thesis using that prepare_runs [of env h0 h1 c k] assms(3) by simp
qed (use assms(3,4) in simp)

lemma demo_features: "features_supported (demo_prepare_env v)"
  by (simp add: features_supported_def demo_prepare_env_def isset_def getf_def MacVersion_t_def MacHwFeature0_t_def MacHwFeature1_t_def
      get_bits_def take_bit_eq_mask mask_numeral)

lemma demo_address_width: "getf MacHwFeature1_t ''AddressWidth'' (0x00044145 :: u32) = 1"
  by (simp add: getf_def MacHwFeature1_t_def get_bits_def take_bit_eq_mask mask_numeral)

lemma demo_env_fields:
  "dmaModeReads (demo_prepare_env v) = (\<lambda>k. v)" "adapterStartStatus (demo_prepare_env v) = STATUS_SUCCESS"
  "dmaEnablerStatus (demo_prepare_env v) = STATUS_SUCCESS" "hwFeature1 (demo_prepare_env v) = 0x00044145"
  "config_address (demo_prepare_env v) = None"
  by (simp_all add: demo_prepare_env_def config_address_def)

lemma demo_reaches: "\<exists>h1 c k. prepare_reaches (demo_prepare_env v) demo_hardware h1 c k"
proof -
  let ?r = "find_resources (resourceList (demo_prepare_env v)) 0 demo_hardware"
  have r: "fst ?r = None" "regsMapped (snd ?r)" "interruptCreated (snd ?r)" "pool (eqos (snd ?r)) = demo_kernel"
    by (simp_all add: demo_prepare_env_def demo_hardware_def demo_device_def mac_size)
  obtain c k where "device_config demo_platform 12 (boot_config (demo_prepare_env v)) demo_kernel = Some (c, k)"
    using acpi_layout.device_config_ok [OF wdk.acpi_layout_axioms demo_platform_fields(1) demo_kernel_ok, of "boot_config (demo_prepare_env v)" 12]
      default_config_ok by (auto simp: config_result_def boot_config_def)
  then have "prepare_reaches (demo_prepare_env v) demo_hardware (snd ?r) c k"
    using r demo_features
    by (auto simp: prepare_reaches_def demo_env_fields prod_eq_iff) (simp_all add: demo_prepare_env_def)
  then show ?thesis by blast
qed

lemma demo_prepare_success: "\<exists>h. DevicePrepareHardware (demo_prepare_env v) demo_hardware = Some (STATUS_SUCCESS, h)"
proof -
  obtain h1 c k where "prepare_reaches (demo_prepare_env v) demo_hardware h1 c k" using demo_reaches by blast
  from prepare_runs [OF this] show ?thesis
    using reset_ok
    by (auto simp: prepare_adapter_def Let_def prepared_fields demo_env_fields demo_address_width dma_address_width_def
        AddressWidth_32_def AddressWidth_40_def split: prod.split) (metis fst_conv)+
qed

text \<open>When starting the device succeeds, every configuration value is in range, whatever the registry
  and the firmware ask for: the frame size between 1514 and 9014, the VLAN tag in 12 bits, the burst and
  outstanding-request limits in the width of the register fields they go to.\<close>

theorem prepare_config_in_range:
  assumes "acpi_layout (acpi (acpiPlatform env))" "kernel_ok (pool (eqos h0))"
    "DevicePrepareHardware env h0 = Some (status, h)" "NT_SUCCESS status"
  shows "1514 \<le> unat (jumboFrame (config (eqos h))) \<and> unat (jumboFrame (config (eqos h))) \<le> 9014
    \<and> cfgVlanId (config (eqos h)) \<le> 0xFFF
    \<and> pbl (config (eqos h)) \<le> 0x3F \<and> cfgTxPbl (config (eqos h)) \<le> 0x3F \<and> cfgRxPbl (config (eqos h)) \<le> 0x3F
    \<and> wr_osr_lmt (config (eqos h)) \<le> 0x0F \<and> rd_osr_lmt (config (eqos h)) \<le> 0x0F \<and> blen (config (eqos h)) < 0x80"
proof -
  obtain h1 c k where "config_ok c" "prepare_adapter env (prepared env h0 h1 c k) = (status, h)"
    using prepare_success [OF assms] by blast
  then have "config_ok (config (eqos h))"
    using prepare_adapter_keeps(2) [of env "prepared env h0 h1 c k"] by (simp add: prepared_fields)
  then show ?thesis by (simp add: config_ok_def)
qed

theorem prepare_config_in_range_witness:
  "\<exists>h. DevicePrepareHardware (demo_prepare_env 1) demo_hardware = Some (STATUS_SUCCESS, h)
     \<and> unat (jumboFrame (config (eqos h))) \<le> 9014"
  using demo_prepare_success prepare_config_in_range [OF demo_pool, of 1 STATUS_SUCCESS] by auto

lemma bus_mode_widths:
  "snd (member DmaSysBusMode_t ''EnhancedAddressMode'') = 1" "snd (member DmaSysBusMode_t ''BurstLengths'') = 7"
  "snd (member DmaSysBusMode_t ''AxiMaxWriteOutstanding'') = 4" "snd (member DmaSysBusMode_t ''AxiMaxReadOutstanding'') = 4"
  by (simp_all add: DmaSysBusMode_t_def)

lemma bus_mode_fields:
  "isset DmaSysBusMode_t ''EnhancedAddressMode'' (sys_bus_mode c w m) = (w \<noteq> AddressWidth_32)"
  "getf DmaSysBusMode_t ''BurstLengths'' (sys_bus_mode c w m) = take_bit 7 (ucast (blen c))"
  "getf DmaSysBusMode_t ''AxiMaxWriteOutstanding'' (sys_bus_mode c w m) = take_bit 4 (ucast (wr_osr_lmt c))"
  "getf DmaSysBusMode_t ''AxiMaxReadOutstanding'' (sys_bus_mode c w m) = take_bit 4 (ucast (rd_osr_lmt c))"
proof -
  have "take_bit (Suc 0) (flag b) = (flag b :: u32)" for b by (simp add: flag_def)
  then show "isset DmaSysBusMode_t ''EnhancedAddressMode'' (sys_bus_mode c w m) = (w \<noteq> AddressWidth_32)"
    by (simp add: isset_def sys_bus_mode_def dmaSysBusMode.getf_putfs bus_mode_widths [simplified] del: putfs.simps)
      (simp add: flag_def)
qed (simp_all add: sys_bus_mode_def dmaSysBusMode.getf_putfs bus_mode_widths del: putfs.simps)

lemma init_bus_mode:
  "Read32 Dma_SysBus_Mode (init_registers c w m) = sys_bus_mode c w (Read32 Dma_SysBus_Mode m)"
  "read_mac_address i (init_registers c w m) = read_mac_address i m"
  by (simp_all add: init_registers_def Let_def read_mac_address_def)

text \<open>A successful run, with the configuration, the width code and the registers after the reset.\<close>

definition prepare_outcome :: "prepare_env \<Rightarrow> EqosHardware \<Rightarrow> EqosHardware \<Rightarrow> NTSTATUS \<Rightarrow> u8 list \<Rightarrow> u32 \<Rightarrow> u64 \<Rightarrow> mmio \<Rightarrow> bool" where
  "prepare_outcome env h0 h status mac bits maxAddr m \<longleftrightarrow>
     config_ok (config (eqos h))
     \<and> dma_address_width (getf MacHwFeature1_t ''AddressWidth'' (hwFeature1 env)) = Some (bits, maxAddr)
     \<and> mac = currentMacAddress (setup_mac_address env (eqos h0))
     \<and> m = snd (DeviceReset (dmaModeReads env) mac (mregs (irq (eqos h0))))
     \<and> status = adapterStartStatus env \<and> adapterStarted h \<and> dmaAddressWidth h = Some bits
     \<and> currentMacAddress (eqos h) = mac \<and> permanentMacAddress (eqos h) = read_mac_address 0 (mregs (irq (eqos h0)))
     \<and> (\<exists>caps. capabilities h = Some caps \<and> MaximumPhysicalAddress caps = maxAddr \<and> currentLinkLayerAddress caps = mac)
     \<and> mregs (irq (eqos h)) = init_registers (config (eqos h)) (getf MacHwFeature1_t ''AddressWidth'' (hwFeature1 env)) m"

lemma adapter_outcome:
  assumes "prepare_adapter env h = (status, h')" "NT_SUCCESS status"
  shows "\<exists>bits maxAddr. dma_address_width (getf MacHwFeature1_t ''AddressWidth'' (feature1 (eqos h))) = Some (bits, maxAddr)
    \<and> status = adapterStartStatus env \<and> adapterStarted h' \<and> dmaAddressWidth h' = Some bits
    \<and> capabilities h' = Some (adapter_update maxAddr (eqos h))
    \<and> mregs (irq (eqos h')) = init_registers (config (eqos h)) (getf MacHwFeature1_t ''AddressWidth'' (feature1 (eqos h)))
        (snd (DeviceReset (dmaModeReads env) (currentMacAddress (eqos h)) (mregs (irq (eqos h)))))"
proof -
  let ?w = "getf MacHwFeature1_t ''AddressWidth'' (feature1 (eqos h))"
  obtain bits maxAddr where w: "dma_address_width ?w = Some (bits, maxAddr)"
    using assms by (cases "dma_address_width ?w") (auto simp: prepare_adapter_def)
  obtain rs m where r: "DeviceReset (dmaModeReads env) (currentMacAddress (eqos h)) (mregs (irq (eqos h))) = (rs, m)" by fastforce
  have "NT_SUCCESS rs" using reset_ok [of "dmaModeReads env" "currentMacAddress (eqos h)" "mregs (irq (eqos h))"] r by simp
  moreover have "NT_SUCCESS (dmaEnablerStatus env)" using assms w by (auto simp: prepare_adapter_def split: if_splits)
  ultimately show ?thesis using assms w r
    by (auto simp: prepare_adapter_def Let_def set_regs_def split: if_splits)
qed

lemma prepare_outcomes:
  assumes "acpi_layout (acpi (acpiPlatform env))" "kernel_ok (pool (eqos h0))"
    "DevicePrepareHardware env h0 = Some (status, h)" "NT_SUCCESS status"
  shows "\<exists>mac bits maxAddr m. prepare_outcome env h0 h status mac bits maxAddr m"
proof -
  obtain h1 c k where c: "config_ok c" and p: "prepare_adapter env (prepared env h0 h1 c k) = (status, h)"
    and m: "mregs (irq (eqos h1)) = mregs (irq (eqos h0))"
    using prepare_success [OF assms] by blast
  have mac: "currentMacAddress (setup_mac_address env (eqos h1)) = currentMacAddress (setup_mac_address env (eqos h0))"
    by (simp add: setup_mac_address_def m Let_def)
  note keep = prepare_adapter_keeps [of env "prepared env h0 h1 c k", unfolded p prepared_fields snd_conv]
  from adapter_outcome [OF p assms(4), unfolded prepared_fields m mac] obtain bits maxAddr where
    "dma_address_width (getf MacHwFeature1_t ''AddressWidth'' (hwFeature1 env)) = Some (bits, maxAddr)"
    "status = adapterStartStatus env" "adapterStarted h" "dmaAddressWidth h = Some bits"
    "capabilities h = Some (adapter_update maxAddr (eqos (prepared env h0 h1 c k)))"
    "mregs (irq (eqos h)) = init_registers c (getf MacHwFeature1_t ''AddressWidth'' (hwFeature1 env))
        (snd (DeviceReset (dmaModeReads env) (currentMacAddress (setup_mac_address env (eqos h0))) (mregs (irq (eqos h0)))))"
    by blast
  then have "prepare_outcome env h0 h status (currentMacAddress (setup_mac_address env (eqos h0))) bits maxAddr
      (snd (DeviceReset (dmaModeReads env) (currentMacAddress (setup_mac_address env (eqos h0))) (mregs (irq (eqos h0)))))"
    using c keep mac by (simp add: prepare_outcome_def adapter_update_def Let_def prepared_fields m)
  then show ?thesis by blast
qed

text \<open>When starting the device succeeds, the DMA decodes as many address bits as the network stack is
  told it may use: the announced maximum address is 2^width - 1, the enhanced address mode is on exactly
  when the width exceeds 32, and the bus limits of the configuration are programmed without truncation.\<close>

theorem prepare_dma_addresses:
  assumes "acpi_layout (acpi (acpiPlatform env))" "kernel_ok (pool (eqos h0))"
    "DevicePrepareHardware env h0 = Some (status, h)" "NT_SUCCESS status"
  shows "\<exists>bits caps. dmaAddressWidth h = Some bits \<and> capabilities h = Some caps \<and> bits \<in> {32, 40, 48}
    \<and> unat (MaximumPhysicalAddress caps) + 1 = 2 ^ unat bits
    \<and> isset DmaSysBusMode_t ''EnhancedAddressMode'' (Read32 Dma_SysBus_Mode (mregs (irq (eqos h)))) = (32 < bits)
    \<and> unat (getf DmaSysBusMode_t ''BurstLengths'' (Read32 Dma_SysBus_Mode (mregs (irq (eqos h))))) = unat (blen (config (eqos h)))
    \<and> unat (getf DmaSysBusMode_t ''AxiMaxWriteOutstanding'' (Read32 Dma_SysBus_Mode (mregs (irq (eqos h))))) = unat (wr_osr_lmt (config (eqos h)))
    \<and> unat (getf DmaSysBusMode_t ''AxiMaxReadOutstanding'' (Read32 Dma_SysBus_Mode (mregs (irq (eqos h))))) = unat (rd_osr_lmt (config (eqos h)))"
proof -
  obtain mac bits maxAddr m where "prepare_outcome env h0 h status mac bits maxAddr m" using prepare_outcomes [OF assms] by blast
  then obtain caps where a:
    "dma_address_width (getf MacHwFeature1_t ''AddressWidth'' (hwFeature1 env)) = Some (bits, maxAddr)"
    "dmaAddressWidth h = Some bits" "capabilities h = Some caps" "MaximumPhysicalAddress caps = maxAddr" "config_ok (config (eqos h))"
    "mregs (irq (eqos h)) = init_registers (config (eqos h)) (getf MacHwFeature1_t ''AddressWidth'' (hwFeature1 env)) m"
    unfolding prepare_outcome_def by blast
  have w: "bits \<in> {32, 40, 48} \<and> unat maxAddr + 1 = 2 ^ unat bits
      \<and> (getf MacHwFeature1_t ''AddressWidth'' (hwFeature1 env) \<noteq> AddressWidth_32) = (32 < bits)"
    using a(1) by (auto simp: dma_address_width_def AddressWidth_32_def AddressWidth_40_def AddressWidth_48_def split: if_splits)
  have field: "unat (take_bit n (ucast (b::u8)) :: u32) = unat b" if "unat b < 2 ^ n" for b n
    using that by (simp add: unat_field unat_take_bit_small unat_ucast_widen)
  have small: "unat (blen (config (eqos h))) < 2 ^ 7" "unat (wr_osr_lmt (config (eqos h))) < 2 ^ 4" "unat (rd_osr_lmt (config (eqos h))) < 2 ^ 4"
    using a(5) by (simp_all add: config_ok_def word_less_nat_alt word_le_nat_alt)
  show ?thesis
    by (rule exI [of _ bits], rule exI [of _ caps])
      (simp only: a(2,3,4) w a(6) init_bus_mode bus_mode_fields field [OF small(1)] field [OF small(2)] field [OF small(3)] simp_thms)
qed

theorem prepare_dma_addresses_witness:
  "\<exists>h bits. DevicePrepareHardware (demo_prepare_env 1) demo_hardware = Some (STATUS_SUCCESS, h)
     \<and> dmaAddressWidth h = Some bits \<and> bits \<in> {32, 40, 48}"
  using demo_prepare_success prepare_dma_addresses [OF demo_pool, of 1 STATUS_SUCCESS] by fastforce

text \<open>Starting the device does not notice a reset that never completes: with the reset bit stuck, a run
  that gets as far as the DMA enabler returns whatever starting the adapter returns, and the MAC address
  it announces is never written to the device.\<close>

theorem prepare_misses_reset_timeout:
  assumes "acpi_layout (acpi (acpiPlatform env))" "kernel_ok (pool (eqos h0))"
    "DevicePrepareHardware env h0 = Some (status, h)" "NT_SUCCESS status" "\<And>k. dmaModeReads env k AND 1 \<noteq> 0"
  shows "status = adapterStartStatus env \<and> adapterStarted h
    \<and> read_mac_address 0 (mregs (irq (eqos h))) = read_mac_address 0 (mregs (irq (eqos h0)))"
proof -
  obtain mac bits maxAddr m where o: "prepare_outcome env h0 h status mac bits maxAddr m"
    using prepare_outcomes [OF assms(1-4)] by blast
  have "reset_poll (dmaModeReads env) 0 0 = None" using assms(5) by (simp add: reset_poll_result)
  then have "snd (DeviceReset (dmaModeReads env) mac (mregs (irq (eqos h0)))) = Write32 Dma_Mode 1 (mregs (irq (eqos h0)))"
    by (simp add: DeviceReset_pair)
  then have m: "m = Write32 Dma_Mode 1 (mregs (irq (eqos h0)))" using o by (simp add: prepare_outcome_def)
  have keep: "read_mac_address 0 (Write32 Dma_Mode 1 r) = read_mac_address 0 r" for r by (simp add: read_mac_address_def)
  have "status = adapterStartStatus env" "adapterStarted h"
    "mregs (irq (eqos h)) = init_registers (config (eqos h)) (getf MacHwFeature1_t ''AddressWidth'' (hwFeature1 env)) m"
    using o unfolding prepare_outcome_def by blast+
  then show ?thesis by (simp add: init_bus_mode(2) m keep)
qed

theorem prepare_misses_reset_timeout_witness:
  "\<exists>h. DevicePrepareHardware (demo_prepare_env 1) demo_hardware = Some (STATUS_SUCCESS, h) \<and> adapterStarted h"
  using demo_prepare_success prepare_misses_reset_timeout [OF demo_pool, of 1 STATUS_SUCCESS] by (auto simp: demo_env_fields)

text \<open>When starting the device succeeds and the reset completes, the device filters on the address the
  network stack is given, and that address is a unicast one of six bytes: the configured one if it is
  valid, otherwise the one the firmware left in the device, or a random locally administered one.\<close>

theorem prepare_mac_unicast:
  assumes "acpi_layout (acpi (acpiPlatform env))" "kernel_ok (pool (eqos h0))"
    "DevicePrepareHardware env h0 = Some (status, h)" "NT_SUCCESS status"
    "\<And>a. ETH_IS_MULTICAST env a = odd (a ! 0)" "length (genRandom env) = 4"
    "fst (snd (linkLayerAddress (netConfiguration env))) = 6 \<Longrightarrow> 6 \<le> length (snd (snd (linkLayerAddress (netConfiguration env))))"
    "reset_poll (dmaModeReads env) 0 0 = Some j"
  shows "length (currentMacAddress (eqos h)) = 6 \<and> even (currentMacAddress (eqos h) ! 0)
    \<and> read_mac_address 0 (mregs (irq (eqos h))) = currentMacAddress (eqos h)
    \<and> map_option currentLinkLayerAddress (capabilities h) = Some (currentMacAddress (eqos h))
    \<and> permanentMacAddress (eqos h) = read_mac_address 0 (mregs (irq (eqos h0)))"
proof -
  obtain mac bits maxAddr m where o: "prepare_outcome env h0 h status mac bits maxAddr m"
    using prepare_outcomes [OF assms(1-4)] by blast
  have perm: "length (read_mac_address 0 r) = 6" for r by (simp add: read_mac_address_def Let_def)
  have "length (select_mac_address lo hi (read_mac_address 0 r) (genRandom env)) = 6
      \<and> even (select_mac_address lo hi (read_mac_address 0 r) (genRandom env) ! 0)" for lo hi r
    using assms(6) perm [of r] by (auto simp: select_mac_address_def and_one_eq even_and_iff)
  moreover have "mac = currentMacAddress (setup_mac_address env (eqos h0))" using o by (simp add: prepare_outcome_def)
  ultimately have mac: "length mac = 6 \<and> even (mac ! 0)"
    using assms(5,7) by (auto simp: setup_mac_address_def Let_def config_address_def split: prod.splits if_splits option.splits)
  have "m = SetOneMacAddress 0 mac True (Write32 Dma_Mode 1 (mregs (irq (eqos h0))))"
    using o assms(8) by (simp add: prepare_outcome_def DeviceReset_pair)
  then have "read_mac_address 0 m = mac"
    using slot_SetOneMacAddress [of mac 0 0 True] mac by (simp add: address_slot_def)
  then show ?thesis using mac o by (auto simp: prepare_outcome_def init_bus_mode(2))
qed

theorem prepare_mac_unicast_witness:
  "\<exists>h. DevicePrepareHardware (demo_prepare_env 0) demo_hardware = Some (STATUS_SUCCESS, h)
     \<and> length (currentMacAddress (eqos h)) = 6 \<and> even (currentMacAddress (eqos h) ! 0)"
proof -
  obtain h where h: "DevicePrepareHardware (demo_prepare_env 0) demo_hardware = Some (STATUS_SUCCESS, h)"
    using demo_prepare_success by blast
  have "reset_poll (dmaModeReads (demo_prepare_env 0)) 0 0 = Some 0"
    by (simp add: demo_env_fields reset_poll.simps)
  from prepare_mac_unicast [OF demo_pool h, of 0] this h show ?thesis
    by (simp add: demo_prepare_env_def)
qed

end
