(* ===== verification/SdPort.thy ===== *)
theory SdPort imports NtStatus begin

text \<open>
  The interface of the Windows SD port driver (sdport.h) the SD host drivers are written against: the
  enumerations and the members of the structures they use, and the event and error codes. The values of
  the codes are not in this repository, so that they are a parameter (\<open>SDPORT_CODES\<close>) of the definitions
  that use them; what the drivers rely on is that the codes are different bits (\<open>sdport_codes_ok\<close>).
\<close>

section \<open>Tests of bits\<close>

text \<open>\<open>has v m\<close> is the test \<open>v & m\<close>; \<open>or_if b m v\<close> is \<open>if (b) v |= m\<close>.\<close>

definition has :: "u32 \<Rightarrow> u32 \<Rightarrow> bool" where
  "has v m \<longleftrightarrow> v AND m \<noteq> 0"

definition or_if :: "bool \<Rightarrow> u32 \<Rightarrow> u32 \<Rightarrow> u32" where
  "or_if b m v = (if b then v OR m else v)"

named_theorems has_simps "what is set in a word put together from masks"

lemma has_bit: "has v m \<longleftrightarrow> (\<exists>n. bit v n \<and> bit m n)"
proof -
  have "v AND m \<noteq> 0 \<longleftrightarrow> (\<exists>n. bit (v AND m) n)" by (metis bit_eqI bit_0_eq bot_apply bot_bool_def)
  then show ?thesis by (simp add: has_def bit_and_iff)
qed

lemma has_zero [simp]: "\<not> has 0 m" "\<not> has v 0"
  by (simp_all add: has_def)

lemma has_or [has_simps]: "has (v OR w) m \<longleftrightarrow> has v m \<or> has w m"
  by (auto simp: has_bit bit_or_iff)

lemma has_or_mask [has_simps]: "has v (m OR k) \<longleftrightarrow> has v m \<or> has v k"
  by (auto simp: has_bit bit_or_iff)

lemma has_or_if [has_simps]: "has (or_if b m v) k \<longleftrightarrow> has v k \<or> b \<and> has m k"
  by (simp add: or_if_def has_or)

lemma or_if_simps [simp]: "or_if True m v = v OR m" "or_if False m v = v"
  by (simp_all add: or_if_def)

lemma has_commute: "has v m \<longleftrightarrow> has m v"
  by (simp add: has_def and.commute)

lemma has_self: "has m m \<longleftrightarrow> m \<noteq> 0"
  by (simp add: has_def)

lemma has_clear [has_simps]: "has (v AND NOT m) k \<Longrightarrow> has v k"
  by (auto simp: has_bit bit_and_iff)

lemma has_clear_same [simp]: "\<not> has (v AND NOT m) m"
  by (auto simp: has_bit bit_and_iff bit_not_iff)

lemma has_single: "has w (push_bit n 1) \<longleftrightarrow> bit w n" "has w (2 ^ n) \<longleftrightarrow> bit w n"
proof -
  have "bit w n \<Longrightarrow> n < 32" using bit_imp_le_length [of w n] by simp
  then show "has w (push_bit n 1) \<longleftrightarrow> bit w n" unfolding has_bit bit_push_bit_iff bit_1_iff by fastforce
  then show "has w (2 ^ n) \<longleftrightarrow> bit w n" by simp
qed

lemma has_clear_other: "\<not> has m k \<Longrightarrow> has (v AND NOT m) k \<longleftrightarrow> has v k"
proof -
  have "bit v n \<Longrightarrow> n < 32" for n using bit_imp_le_length [of v n] by simp
  moreover assume "\<not> has m k"
  ultimately show ?thesis by (auto simp: has_bit bit_and_iff bit_not_iff)
qed

section \<open>Requests\<close>

text \<open>The enumerations of the SD port driver's interface the code distinguishes.\<close>

datatype SDPORT_RESPONSE_TYPE = SdResponseTypeUndefined | SdResponseTypeNone | SdResponseTypeR1 | SdResponseTypeR1B | SdResponseTypeR2
  | SdResponseTypeR3 | SdResponseTypeR4 | SdResponseTypeR5 | SdResponseTypeR5B | SdResponseTypeR6
datatype SDPORT_TRANSFER_TYPE = SdTransferTypeUndefined | SdTransferTypeNone | SdTransferTypeSingleBlock | SdTransferTypeMultiBlock
datatype SDPORT_TRANSFER_DIRECTION = SdTransferDirectionUndefined | SdTransferDirectionRead | SdTransferDirectionWrite
datatype SDPORT_TRANSFER_METHOD = SdTransferMethodUndefined | SdTransferMethodPio | SdTransferMethodSgDma
datatype SDPORT_REQUEST_TYPE = SdRequestTypeUnspecified | SdRequestTypeCommandNoTransfer | SdRequestTypeCommandWithTransfer | SdRequestTypeStartTransfer
datatype SDPORT_BUS_SPEED = SdBusSpeedUndefined | SdBusSpeedNormal | SdBusSpeedHigh | SdBusSpeedSDR12 | SdBusSpeedSDR25 | SdBusSpeedSDR50
  | SdBusSpeedDDR50 | SdBusSpeedSDR104 | SdBusSpeedHS200 | SdBusSpeedHS400
datatype SDPORT_BUS_WIDTH = SdBusWidthUndefined | SdBusWidth1Bit | SdBusWidth4Bit | SdBusWidth8Bit
datatype SDPORT_BUS_VOLTAGE = SdBusVoltage33 | SdBusVoltageOff | SdBusVoltageOther
datatype SDPORT_RESET_TYPE = SdResetTypeUndefined | SdResetTypeAll | SdResetTypeCmd | SdResetTypeDat
datatype SDPORT_SIGNALING_VOLTAGE = SdSignalingVoltageUndefined | SdSignalingVoltage33 | SdSignalingVoltage18

text \<open>
  A request with its command. \<open>Elements\<close> is the scatter-gather list (address and length of each
  element); \<open>DataBuffer\<close> is the memory of the buffer as words, word 0 the one \<open>DataBuffer\<close> pointed to when
  the request was made, and \<open>DataOffset\<close> the number of bytes the driver has advanced that pointer.
\<close>

record SDPORT_REQUEST =
  reqType :: SDPORT_REQUEST_TYPE
  cmdIndex :: u8
  Argument :: u32
  ResponseType :: SDPORT_RESPONSE_TYPE
  TransferType :: SDPORT_TRANSFER_TYPE
  TransferDirection :: SDPORT_TRANSFER_DIRECTION
  TransferMethod :: SDPORT_TRANSFER_METHOD
  UseAutoCmd12 :: bool
  BlockCount :: u16
  BlockSize :: u16
  Length :: u32
  DmaPhysicalAddress :: u64
  Elements :: "(u64 \<times> u32) list"
  DataBuffer :: "nat \<Rightarrow> u32"
  DataOffset :: nat
  RequiredEvents :: u32
  reqStatus :: NTSTATUS

section \<open>Capabilities\<close>

text \<open>
  The members of the port driver's capabilities the driver sets. The flags for driver types A to D and for the
  current limits are the sets of those that are set.
\<close>

record SDPORT_CAPABILITIES =
  SpecVersion :: u8
  MaximumOutstandingRequests :: u8
  MaximumBlockSize :: u16
  MaximumBlockCount :: u16
  DmaDescriptorSize :: u32
  AlignmentRequirement :: u32
  PioTransferMaxThreshold :: u32
  BaseClockFrequencyKhz :: u32
  UsePioForRead :: bool
  UsePioForWrite :: bool
  ScatterGatherDma :: bool
  Address64Bit :: bool
  AutoCmd12 :: bool
  AutoCmd23 :: bool
  SupportedBusWidth8Bit :: bool
  SupportedHighSpeed :: bool
  SupportedSDR50 :: bool
  SupportedSDR104 :: bool
  SupportedHS200 :: bool
  TuningForSDR50 :: bool
  SignalingVoltage18V :: bool
  SupportedVoltages :: "SDPORT_BUS_VOLTAGE set"
  SupportedDriverTypes :: "char set"
  CurrentLimits :: "nat set"

section \<open>Events and errors\<close>

record SDPORT_CODES =
  SDPORT_EVENT_CARD_RESPONSE :: u32
  SDPORT_EVENT_CARD_RW_END :: u32
  SDPORT_EVENT_BUFFER_EMPTY :: u32
  SDPORT_EVENT_BUFFER_FULL :: u32
  SDPORT_EVENT_CARD_CHANGE :: u32
  SDPORT_EVENT_DMA_COMPLETE :: u32
  SDPORT_EVENT_ERROR :: u32
  SDPORT_ERROR_CMD_TIMEOUT :: u32
  SDPORT_ERROR_CMD_CRC_ERROR :: u32
  SDPORT_ERROR_CMD_END_BIT_ERROR :: u32
  SDPORT_ERROR_CMD_INDEX_ERROR :: u32
  SDPORT_ERROR_DATA_TIMEOUT :: u32
  SDPORT_ERROR_DATA_CRC_ERROR :: u32
  SDPORT_ERROR_DATA_END_BIT_ERROR :: u32
  SDPORT_GENERIC_IO_ERROR :: u32
  SDPORT_ERROR_ADMA_ERROR :: u32
  SDPORT_ERROR_BUS_POWER_ERROR :: u32
  SDCMD_IO_RW_DIRECT :: u8

text \<open>The event codes by name, and the names set in a word of events.\<close>

datatype sd_event = CardResponse | CardRwEnd | BufferEmpty | BufferFull | CardChange | DmaComplete | ErrorEvent

fun event_code :: "SDPORT_CODES \<Rightarrow> sd_event \<Rightarrow> u32" where
  "event_code C CardResponse = SDPORT_EVENT_CARD_RESPONSE C"
| "event_code C CardRwEnd = SDPORT_EVENT_CARD_RW_END C"
| "event_code C BufferEmpty = SDPORT_EVENT_BUFFER_EMPTY C"
| "event_code C BufferFull = SDPORT_EVENT_BUFFER_FULL C"
| "event_code C CardChange = SDPORT_EVENT_CARD_CHANGE C"
| "event_code C DmaComplete = SDPORT_EVENT_DMA_COMPLETE C"
| "event_code C ErrorEvent = SDPORT_EVENT_ERROR C"

datatype sd_error = CmdTimeout | CmdCrc | CmdEndBit | CmdIndex | DataTimeout | DataCrc | DataEndBit | GenericIo | AdmaError | BusPower

fun error_code :: "SDPORT_CODES \<Rightarrow> sd_error \<Rightarrow> u32" where
  "error_code C CmdTimeout = SDPORT_ERROR_CMD_TIMEOUT C"
| "error_code C CmdCrc = SDPORT_ERROR_CMD_CRC_ERROR C"
| "error_code C CmdEndBit = SDPORT_ERROR_CMD_END_BIT_ERROR C"
| "error_code C CmdIndex = SDPORT_ERROR_CMD_INDEX_ERROR C"
| "error_code C DataTimeout = SDPORT_ERROR_DATA_TIMEOUT C"
| "error_code C DataCrc = SDPORT_ERROR_DATA_CRC_ERROR C"
| "error_code C DataEndBit = SDPORT_ERROR_DATA_END_BIT_ERROR C"
| "error_code C GenericIo = SDPORT_GENERIC_IO_ERROR C"
| "error_code C AdmaError = SDPORT_ERROR_ADMA_ERROR C"
| "error_code C BusPower = SDPORT_ERROR_BUS_POWER_ERROR C"

definition events_of :: "SDPORT_CODES \<Rightarrow> u32 \<Rightarrow> sd_event set" where
  "events_of C v = {e. has v (event_code C e)}"

definition errors_of :: "SDPORT_CODES \<Rightarrow> u32 \<Rightarrow> sd_error set" where
  "errors_of C v = {e. has v (error_code C e)}"

definition sdport_codes_ok :: "SDPORT_CODES \<Rightarrow> bool" where
  "sdport_codes_ok C \<longleftrightarrow> (\<forall>e f. has (event_code C e) (event_code C f) = (e = f)) \<and> (\<forall>e f. has (error_code C e) (error_code C f) = (e = f))"

lemma event_code_has:
  assumes "sdport_codes_ok C"
  shows "has (event_code C e) (event_code C f) = (e = f)" "has (error_code C a) (error_code C b) = (a = b)"
  using assms by (auto simp: sdport_codes_ok_def)

text \<open>An assignment of the codes to bits.\<close>

definition demo_codes :: SDPORT_CODES where
  "demo_codes = \<lparr>SDPORT_EVENT_CARD_RESPONSE = 0x1, SDPORT_EVENT_CARD_RW_END = 0x2, SDPORT_EVENT_BUFFER_EMPTY = 0x10,
     SDPORT_EVENT_BUFFER_FULL = 0x20, SDPORT_EVENT_CARD_CHANGE = 0xC0, SDPORT_EVENT_DMA_COMPLETE = 0x8, SDPORT_EVENT_ERROR = 0x8000,
     SDPORT_ERROR_CMD_TIMEOUT = 0x1, SDPORT_ERROR_CMD_CRC_ERROR = 0x2, SDPORT_ERROR_CMD_END_BIT_ERROR = 0x4,
     SDPORT_ERROR_CMD_INDEX_ERROR = 0x8, SDPORT_ERROR_DATA_TIMEOUT = 0x10, SDPORT_ERROR_DATA_CRC_ERROR = 0x20,
     SDPORT_ERROR_DATA_END_BIT_ERROR = 0x40, SDPORT_GENERIC_IO_ERROR = 0x1000, SDPORT_ERROR_ADMA_ERROR = 0x200,
     SDPORT_ERROR_BUS_POWER_ERROR = 0x80, SDCMD_IO_RW_DIRECT = 52\<rparr>"

lemma demo_codes_ok: "sdport_codes_ok demo_codes"
proof -
  have "has (event_code demo_codes e) (event_code demo_codes f) = (e = f)" for e f
    by (cases e; cases f) (simp_all add: demo_codes_def has_def)
  moreover have "has (error_code demo_codes e) (error_code demo_codes f) = (e = f)" for e f
    by (cases e; cases f) (simp_all add: demo_codes_def has_def)
  ultimately show ?thesis by (simp add: sdport_codes_ok_def)
qed

end
