(* ===== verification/MshcState.thy ===== *)
theory MshcState imports SdPort begin

text \<open>
  The SD/MMC host controller driver (src/drivers/sd/dwcmshc): the register offsets and field constants of
  dwcmshc.h the code uses, the slot extension, and register access.

  A register that keeps what was last written is read from \<open>mshcRegs\<close>. A register the controller changes
  by itself (status, self-clearing control bits) is read from \<open>mshcDevice\<close>: \<open>mshcDevice k r\<close> is what the
  k-th such read returns if it is a read of \<open>r\<close>; the value is kept in \<open>mshcRegs\<close> as well. \<open>mshcLog\<close> lists
  the writes in order.
\<close>

section \<open>Register offsets and fields\<close>

definition MSHC_CTRL :: nat where "MSHC_CTRL = 0x0000"
definition MSHC_PWREN :: nat where "MSHC_PWREN = 0x0004"
definition MSHC_CLKDIV :: nat where "MSHC_CLKDIV = 0x0008"
definition MSHC_CLKSRC :: nat where "MSHC_CLKSRC = 0x000c"
definition MSHC_CLKENA :: nat where "MSHC_CLKENA = 0x0010"
definition MSHC_TMOUT :: nat where "MSHC_TMOUT = 0x0014"
definition MSHC_CTYPE :: nat where "MSHC_CTYPE = 0x0018"
definition MSHC_BLKSIZ :: nat where "MSHC_BLKSIZ = 0x001c"
definition MSHC_BYTCNT :: nat where "MSHC_BYTCNT = 0x0020"
definition MSHC_INTMASK :: nat where "MSHC_INTMASK = 0x0024"
definition MSHC_CMDARG :: nat where "MSHC_CMDARG = 0x0028"
definition MSHC_CMD :: nat where "MSHC_CMD = 0x002c"
definition MSHC_RESP0 :: nat where "MSHC_RESP0 = 0x0030"
definition MSHC_RESP1 :: nat where "MSHC_RESP1 = 0x0034"
definition MSHC_RESP2 :: nat where "MSHC_RESP2 = 0x0038"
definition MSHC_RESP3 :: nat where "MSHC_RESP3 = 0x003c"
definition MSHC_RINTSTS :: nat where "MSHC_RINTSTS = 0x0044"
definition MSHC_STATUS :: nat where "MSHC_STATUS = 0x0048"
definition MSHC_FIFOTH :: nat where "MSHC_FIFOTH = 0x004c"
definition MSHC_CDETECT :: nat where "MSHC_CDETECT = 0x0050"
definition MSHC_WRTPRT :: nat where "MSHC_WRTPRT = 0x0054"
definition MSHC_VERID :: nat where "MSHC_VERID = 0x006c"
definition MSHC_HCON :: nat where "MSHC_HCON = 0x0070"
definition MSHC_UHS_REG :: nat where "MSHC_UHS_REG = 0x0074"
definition MSHC_BMOD :: nat where "MSHC_BMOD = 0x0080"
definition MSHC_DBADDR :: nat where "MSHC_DBADDR = 0x0088"
definition MSHC_IDSTS :: nat where "MSHC_IDSTS = 0x008c"
definition MSHC_IDINTEN :: nat where "MSHC_IDINTEN = 0x0090"
definition MSHC_FIFO_BASE :: nat where "MSHC_FIFO_BASE = 0x0200"

lemmas mshc_regs = MSHC_CTRL_def MSHC_PWREN_def MSHC_CLKDIV_def MSHC_CLKSRC_def MSHC_CLKENA_def MSHC_TMOUT_def MSHC_CTYPE_def
  MSHC_BLKSIZ_def MSHC_BYTCNT_def MSHC_INTMASK_def MSHC_CMDARG_def MSHC_CMD_def MSHC_RESP0_def MSHC_RESP1_def
  MSHC_RESP2_def MSHC_RESP3_def MSHC_RINTSTS_def MSHC_STATUS_def MSHC_FIFOTH_def MSHC_CDETECT_def MSHC_WRTPRT_def MSHC_VERID_def MSHC_HCON_def MSHC_UHS_REG_def
  MSHC_BMOD_def MSHC_DBADDR_def MSHC_IDSTS_def MSHC_IDINTEN_def MSHC_FIFO_BASE_def

definition MSHC_CTRL_USE_INTERNAL_DMAC :: u32 where "MSHC_CTRL_USE_INTERNAL_DMAC = push_bit 25 1"
definition MSHC_CTRL_INT_ENABLE :: u32 where "MSHC_CTRL_INT_ENABLE = push_bit 4 1"
definition MSHC_CTRL_DMA_RESET :: u32 where "MSHC_CTRL_DMA_RESET = push_bit 2 1"
definition MSHC_CTRL_FIFO_RESET :: u32 where "MSHC_CTRL_FIFO_RESET = push_bit 1 1"
definition MSHC_CTRL_CONTROLLER_RESET :: u32 where "MSHC_CTRL_CONTROLLER_RESET = push_bit 0 1"
definition MSHC_PWREN_POWER_ENABLE :: "nat \<Rightarrow> u32" where "MSHC_PWREN_POWER_ENABLE n = push_bit n 1"
definition MSHC_CLKENA_CCLK_LOW_POWER :: "nat \<Rightarrow> u32" where "MSHC_CLKENA_CCLK_LOW_POWER n = push_bit (16 + n) 1"
definition MSHC_CLKENA_CCLK_ENABLE :: "nat \<Rightarrow> u32" where "MSHC_CLKENA_CCLK_ENABLE n = push_bit n 1"
definition MSHC_CTYPE_CARD_WIDTH_MASK :: u32 where "MSHC_CTYPE_CARD_WIDTH_MASK = 0x00010001"
definition MSHC_CTYPE_CARD_WIDTH_8 :: u32 where "MSHC_CTYPE_CARD_WIDTH_8 = push_bit 16 1"
definition MSHC_CTYPE_CARD_WIDTH_4 :: u32 where "MSHC_CTYPE_CARD_WIDTH_4 = push_bit 0 1"
definition MSHC_CTYPE_CARD_WIDTH_1 :: u32 where "MSHC_CTYPE_CARD_WIDTH_1 = 0"

definition MSHC_INT_EBE :: u32 where "MSHC_INT_EBE = push_bit 15 1"
definition MSHC_INT_SBE :: u32 where "MSHC_INT_SBE = push_bit 13 1"
definition MSHC_INT_HLE :: u32 where "MSHC_INT_HLE = push_bit 12 1"
definition MSHC_INT_FRUN :: u32 where "MSHC_INT_FRUN = push_bit 11 1"
definition MSHC_INT_HTO :: u32 where "MSHC_INT_HTO = push_bit 10 1"
definition MSHC_INT_DRTO :: u32 where "MSHC_INT_DRTO = push_bit 9 1"
definition MSHC_INT_RTO :: u32 where "MSHC_INT_RTO = push_bit 8 1"
definition MSHC_INT_DCRC :: u32 where "MSHC_INT_DCRC = push_bit 7 1"
definition MSHC_INT_RCRC :: u32 where "MSHC_INT_RCRC = push_bit 6 1"
definition MSHC_INT_RXDR :: u32 where "MSHC_INT_RXDR = push_bit 5 1"
definition MSHC_INT_TXDR :: u32 where "MSHC_INT_TXDR = push_bit 4 1"
definition MSHC_INT_DTO :: u32 where "MSHC_INT_DTO = push_bit 3 1"
definition MSHC_INT_CMD :: u32 where "MSHC_INT_CMD = push_bit 2 1"
definition MSHC_INT_RE :: u32 where "MSHC_INT_RE = push_bit 1 1"
definition MSHC_INT_CD :: u32 where "MSHC_INT_CD = push_bit 0 1"

definition MSHC_INT_DATA_ERROR :: u32 where
  "MSHC_INT_DATA_ERROR = MSHC_INT_EBE OR MSHC_INT_SBE OR MSHC_INT_FRUN OR MSHC_INT_HTO OR MSHC_INT_DRTO OR MSHC_INT_DCRC"
definition MSHC_INT_CMD_ERROR :: u32 where
  "MSHC_INT_CMD_ERROR = MSHC_INT_HLE OR MSHC_INT_RTO OR MSHC_INT_RCRC OR MSHC_INT_RE"
definition MSHC_INT_ERROR :: u32 where
  "MSHC_INT_ERROR = MSHC_INT_DATA_ERROR OR MSHC_INT_CMD_ERROR"

definition MSHC_INT_ALL :: u32 where "MSHC_INT_ALL = 0xffffffff"

definition MSHC_IDINT_AIS :: u32 where "MSHC_IDINT_AIS = push_bit 9 1"
definition MSHC_IDINT_NIS :: u32 where "MSHC_IDINT_NIS = push_bit 8 1"
definition MSHC_IDINT_CES :: u32 where "MSHC_IDINT_CES = push_bit 5 1"
definition MSHC_IDINT_DUI :: u32 where "MSHC_IDINT_DUI = push_bit 4 1"
definition MSHC_IDINT_FBE :: u32 where "MSHC_IDINT_FBE = push_bit 2 1"
definition MSHC_IDINT_RI :: u32 where "MSHC_IDINT_RI = push_bit 1 1"
definition MSHC_IDINT_TI :: u32 where "MSHC_IDINT_TI = push_bit 0 1"

definition MSHC_IDINT_ALL :: u32 where
  "MSHC_IDINT_ALL = MSHC_IDINT_AIS OR MSHC_IDINT_NIS OR MSHC_IDINT_CES OR MSHC_IDINT_DUI OR MSHC_IDINT_FBE OR MSHC_IDINT_RI OR MSHC_IDINT_TI"

lemmas mshc_int_bits = MSHC_INT_EBE_def MSHC_INT_SBE_def MSHC_INT_HLE_def MSHC_INT_FRUN_def MSHC_INT_HTO_def
  MSHC_INT_DRTO_def MSHC_INT_RTO_def MSHC_INT_DCRC_def MSHC_INT_RCRC_def MSHC_INT_RXDR_def MSHC_INT_TXDR_def
  MSHC_INT_DTO_def MSHC_INT_CMD_def MSHC_INT_RE_def MSHC_INT_CD_def
lemmas mshc_idint_bits = MSHC_IDINT_AIS_def MSHC_IDINT_NIS_def MSHC_IDINT_CES_def MSHC_IDINT_DUI_def
  MSHC_IDINT_FBE_def MSHC_IDINT_RI_def MSHC_IDINT_TI_def

definition MSHC_CMD_START_CMD :: u32 where "MSHC_CMD_START_CMD = push_bit 31 1"
definition MSHC_CMD_USE_HOLD_REG :: u32 where "MSHC_CMD_USE_HOLD_REG = push_bit 29 1"
definition MSHC_CMD_VOLT_SWITCH :: u32 where "MSHC_CMD_VOLT_SWITCH = push_bit 28 1"
definition MSHC_CMD_UPDATE_CLOCK_REGS_ONLY :: u32 where "MSHC_CMD_UPDATE_CLOCK_REGS_ONLY = push_bit 21 1"
definition MSHC_CMD_SEND_INITIALIZATION :: u32 where "MSHC_CMD_SEND_INITIALIZATION = push_bit 15 1"
definition MSHC_CMD_STOP_ABORT_CMD :: u32 where "MSHC_CMD_STOP_ABORT_CMD = push_bit 14 1"
definition MSHC_CMD_WAIT_PRVDATA_COMPLETE :: u32 where "MSHC_CMD_WAIT_PRVDATA_COMPLETE = push_bit 13 1"
definition MSHC_CMD_SEND_AUTO_STOP :: u32 where "MSHC_CMD_SEND_AUTO_STOP = push_bit 12 1"
definition MSHC_CMD_WR :: u32 where "MSHC_CMD_WR = push_bit 10 1"
definition MSHC_CMD_DATA_EXPECTED :: u32 where "MSHC_CMD_DATA_EXPECTED = push_bit 9 1"
definition MSHC_CMD_CHECK_RESPONSE_CRC :: u32 where "MSHC_CMD_CHECK_RESPONSE_CRC = push_bit 8 1"
definition MSHC_CMD_RESPONSE_LENGTH :: u32 where "MSHC_CMD_RESPONSE_LENGTH = push_bit 7 1"
definition MSHC_CMD_RESPONSE_EXPECT :: u32 where "MSHC_CMD_RESPONSE_EXPECT = push_bit 6 1"
definition MSHC_CMD_INDEX_SHIFT :: nat where "MSHC_CMD_INDEX_SHIFT = 0"
definition MSHC_CMD_INDEX_MASK :: u32 where "MSHC_CMD_INDEX_MASK = push_bit 0 0x3f"

definition MSHC_STATUS_DATA_BUSY :: u32 where "MSHC_STATUS_DATA_BUSY = push_bit 9 1"
definition MSHC_FIFOTH_DMA_MULTIPLE_TRANSACTION_SIZE_SHIFT :: nat where "MSHC_FIFOTH_DMA_MULTIPLE_TRANSACTION_SIZE_SHIFT = 28"
definition MSHC_FIFOTH_DMA_MULTIPLE_TRANSACTION_SIZE_MASK :: u32 where "MSHC_FIFOTH_DMA_MULTIPLE_TRANSACTION_SIZE_MASK = push_bit 28 0x7"
definition MSHC_FIFOTH_RX_WMARK_SHIFT :: nat where "MSHC_FIFOTH_RX_WMARK_SHIFT = 16"
definition MSHC_FIFOTH_RX_WMARK_MASK :: u32 where "MSHC_FIFOTH_RX_WMARK_MASK = push_bit 16 0xfff"
definition MSHC_FIFOTH_TX_WMARK_SHIFT :: nat where "MSHC_FIFOTH_TX_WMARK_SHIFT = 0"
definition MSHC_FIFOTH_TX_WMARK_MASK :: u32 where "MSHC_FIFOTH_TX_WMARK_MASK = push_bit 0 0xfff"
definition MSHC_WRTPRT_WRITE_PROTECT :: "nat \<Rightarrow> u32" where "MSHC_WRTPRT_WRITE_PROTECT n = push_bit n 1"
definition MSHC_HCON_ADDR_CONFIG_IDMAC64 :: u32 where "MSHC_HCON_ADDR_CONFIG_IDMAC64 = push_bit 27 1"
definition MSHC_HCON_DMA_INTERFACE_SHIFT :: nat where "MSHC_HCON_DMA_INTERFACE_SHIFT = 16"
definition MSHC_HCON_DMA_INTERFACE_MASK :: u32 where "MSHC_HCON_DMA_INTERFACE_MASK = push_bit 16 0x3"
definition MSHC_HCON_DMA_INTERFACE_IDMAC :: u32 where "MSHC_HCON_DMA_INTERFACE_IDMAC = 0x0"
definition MSHC_UHS_REG_DDR_REG :: "nat \<Rightarrow> u32" where "MSHC_UHS_REG_DDR_REG n = push_bit (16 + n) 1"
definition MSHC_UHS_REG_VOLT_REG :: "nat \<Rightarrow> u32" where "MSHC_UHS_REG_VOLT_REG n = push_bit n 1"
definition MSHC_BMOD_DE :: u32 where "MSHC_BMOD_DE = push_bit 7 1"
definition MSHC_BMOD_FB :: u32 where "MSHC_BMOD_FB = push_bit 1 1"
definition MSHC_BMOD_SWR :: u32 where "MSHC_BMOD_SWR = push_bit 0 1"
definition MSHC_CDETECT_CARD_DETECT_N :: "nat \<Rightarrow> u32" where "MSHC_CDETECT_CARD_DETECT_N n = push_bit n 1"

definition MSHC_IDMAC_MAX_LENGTH_PER_ENTRY :: u32 where "MSHC_IDMAC_MAX_LENGTH_PER_ENTRY = 0x1000"
definition MSHC_DCRC_ERROR_RETUNING_THRESHOLD :: u32 where "MSHC_DCRC_ERROR_RETUNING_THRESHOLD = 10"
definition SDCMD_GO_IDLE_STATE :: u8 where "SDCMD_GO_IDLE_STATE = 0"
definition SDCMD_SEND_RELATIVE_ADDR :: u8 where "SDCMD_SEND_RELATIVE_ADDR = 3"
definition SDCMD_VOLTAGE_SWITCH :: u8 where "SDCMD_VOLTAGE_SWITCH = 11"
definition SDCMD_STOP_TRANSMISSION :: u8 where "SDCMD_STOP_TRANSMISSION = 12"
definition SDCMD_SEND_STATUS :: u8 where "SDCMD_SEND_STATUS = 13"
definition SDCMD_GO_INACTIVE_STATE :: u8 where "SDCMD_GO_INACTIVE_STATE = 15"
definition SDCMD_SEND_TUNING_BLOCK :: u8 where "SDCMD_SEND_TUNING_BLOCK = 19"
definition SDCMD_EMMC_SEND_TUNING_BLOCK :: u8 where "SDCMD_EMMC_SEND_TUNING_BLOCK = 21"
definition MSHC_OPTIMAL_FIFO_THRESHOLD :: "u32 \<Rightarrow> u32" where "MSHC_OPTIMAL_FIFO_THRESHOLD depth = depth div 2"

section \<open>Utility macros\<close>

definition ULONG_MIN :: "u32 \<Rightarrow> u32 \<Rightarrow> u32" where
  "ULONG_MIN x y = (if x > y then y else x)"

definition DIV_CEIL :: "u32 \<Rightarrow> u32 \<Rightarrow> u32" where
  "DIV_CEIL x y = (x + y - 1) div y"

section \<open>The slot extension\<close>

text \<open>What the platform reports of itself.\<close>

record MSHC_PLATFORM_CAPABILITIES =
  ClockFrequency :: u32
  MaxFrequency :: u32
  FifoDepth :: u32
  capBusWidth :: u32
  SupportHighSpeed :: u32
  SupportDdr50 :: u32
  SupportSdr50 :: u32
  SupportSdr104 :: u32
  SupportHs200 :: u32
  No18vRegulator :: u32
  BrokenCd :: u32

text \<open>
  \<open>MSHC_EXTENSION\<close> with the platform capabilities it points to. Requests are kept in a store and
  referred to by number, as the code refers to them by pointer; \<open>completedRequests\<close> lists what was handed
  to \<open>SdPortCompleteRequest\<close>, \<open>busyWorkQueued\<close> says that the busy work item is queued and
  \<open>localDpcQueued\<close> that the deferred procedure call for local requests is. \<open>hung\<close> says that a routine called on the way did
  not return, see \<open>MshcHost\<close>: what the model computes after that has no meaning.
\<close>

record MSHC_EXTENSION =
  mshcRegs :: "nat \<Rightarrow> u32"
  mshcDevice :: "nat \<Rightarrow> nat \<Rightarrow> u32"
  mshcTick :: nat
  mshcLog :: "(nat \<times> u32) list"
  mshcInitialized :: bool
  CoreVersion :: u32
  hostCaps :: SDPORT_CAPABILITIES
  platformCaps :: MSHC_PLATFORM_CAPABILITIES
  SlotId :: nat
  CardInitialized :: bool
  CardPowerControlSupported :: bool
  CardRca :: u16
  SignalingVoltage :: SDPORT_SIGNALING_VOLTAGE
  BusSpeed :: SDPORT_BUS_SPEED
  BusWidth :: SDPORT_BUS_WIDTH
  BusFrequencyKhz :: u32
  RkCruMapped :: bool
  RkCruClkSel :: u32
  RkCardClockHz :: u32
  requests :: "nat \<Rightarrow> SDPORT_REQUEST"
  OutstandingRequest :: "nat option"
  CurrentEvents :: u32
  CurrentErrors :: u32
  CurrentTransferRemainingLength :: u32
  LocalRequestPending :: bool
  localDpcQueued :: bool
  FifoThreshold :: u32
  FifoDmaBurstSize :: u32
  busyWorkItem :: bool
  busyWorkQueued :: bool
  TuningPerformed :: bool
  DataCrcErrorsSinceLastTuning :: u32
  completedRequests :: "(nat \<times> NTSTATUS) list"
  hung :: bool

text \<open>Writing and changing a request.\<close>

definition set_request :: "nat \<Rightarrow> SDPORT_REQUEST \<Rightarrow> MSHC_EXTENSION \<Rightarrow> MSHC_EXTENSION" where
  "set_request r q x = x\<lparr>requests := (requests x)(r := q)\<rparr>"

definition MshcReadRegister :: "nat \<Rightarrow> MSHC_EXTENSION \<Rightarrow> u32" where
  "MshcReadRegister r x = mshcRegs x r"

definition MshcWriteRegister :: "nat \<Rightarrow> u32 \<Rightarrow> MSHC_EXTENSION \<Rightarrow> MSHC_EXTENSION" where
  "MshcWriteRegister r v x = x\<lparr>mshcRegs := (mshcRegs x)(r := v), mshcLog := mshcLog x @ [(r, v)]\<rparr>"

definition MshcReadDevice :: "nat \<Rightarrow> MSHC_EXTENSION \<Rightarrow> u32 \<times> MSHC_EXTENSION" where
  "MshcReadDevice r x =
     (let v = mshcDevice x (mshcTick x) r
      in (v, x\<lparr>mshcTick := Suc (mshcTick x), mshcRegs := (mshcRegs x)(r := v)\<rparr>))"

text \<open>
  A loop that reads a register until a condition holds, at most \<open>n\<close> times, waiting between the reads.
\<close>

fun poll_register :: "nat \<Rightarrow> nat \<Rightarrow> (u32 \<Rightarrow> bool) \<Rightarrow> MSHC_EXTENSION \<Rightarrow> NTSTATUS \<times> MSHC_EXTENSION" where
  "poll_register 0 r ok x = (STATUS_IO_TIMEOUT, x)"
| "poll_register (Suc n) r ok x =
     (case MshcReadDevice r x of (v, x) \<Rightarrow> if ok v then (STATUS_SUCCESS, x) else poll_register n r ok x)"

lemma MshcReadRegister_write [simp]:
  "MshcReadRegister r (MshcWriteRegister s v x) = (if r = s then v else MshcReadRegister r x)"
  by (simp add: MshcReadRegister_def MshcWriteRegister_def)

end
