(* ===== verification/MshcEvents.thy ===== *)
theory MshcEvents imports MshcState begin

text \<open>
  Events and interrupts of the SD/MMC host driver (dwcmshc.cpp): the translation between the controller's
  interrupt status and the port driver's events, and the enabling, masking and acknowledging of interrupts.
\<close>

section \<open>Translation\<close>

definition MshcConvertIntStatusToStandardEvents :: "SDPORT_CODES \<Rightarrow> u32 \<Rightarrow> u32 \<Rightarrow> u32 \<times> u32" where
  "MshcConvertIntStatusToStandardEvents C intsts idsts =
     (let events = 0; errors = 0;
          events = or_if (has intsts MSHC_INT_CMD) (SDPORT_EVENT_CARD_RESPONSE C) events;
          events = or_if (has intsts MSHC_INT_DTO) (SDPORT_EVENT_CARD_RW_END C) events;
          events = or_if (has intsts MSHC_INT_TXDR) (SDPORT_EVENT_BUFFER_EMPTY C) events;
          events = or_if (has intsts MSHC_INT_RXDR) (SDPORT_EVENT_BUFFER_FULL C) events;
          events = or_if (has intsts MSHC_INT_CD) (SDPORT_EVENT_CARD_CHANGE C) events;
          events = or_if (has idsts (MSHC_IDINT_NIS OR MSHC_IDINT_TI OR MSHC_IDINT_RI)) (SDPORT_EVENT_DMA_COMPLETE C) events
      in if \<not> (has intsts MSHC_INT_ERROR \<or> has idsts MSHC_IDINT_AIS) then (events, errors)
         else let events = events OR SDPORT_EVENT_ERROR C;
                  errors = or_if (has intsts MSHC_INT_RTO) (SDPORT_ERROR_CMD_TIMEOUT C) errors;
                  errors = or_if (has intsts MSHC_INT_RCRC) (SDPORT_ERROR_CMD_CRC_ERROR C) errors;
                  errors = or_if (has intsts MSHC_INT_RE) (SDPORT_ERROR_CMD_END_BIT_ERROR C) errors;
                  errors = or_if (has intsts MSHC_INT_RE) (SDPORT_ERROR_CMD_INDEX_ERROR C) errors;
                  errors = or_if (has intsts MSHC_INT_DRTO) (SDPORT_ERROR_DATA_TIMEOUT C) errors;
                  errors = or_if (has intsts MSHC_INT_DCRC) (SDPORT_ERROR_DATA_CRC_ERROR C) errors;
                  errors = or_if (has intsts MSHC_INT_EBE) (SDPORT_ERROR_DATA_END_BIT_ERROR C) errors;
                  errors = or_if (has intsts (MSHC_INT_SBE OR MSHC_INT_HLE OR MSHC_INT_FRUN)) (SDPORT_GENERIC_IO_ERROR C) errors;
                  errors = or_if (has idsts (MSHC_IDINT_AIS OR MSHC_IDINT_CES OR MSHC_IDINT_DUI OR MSHC_IDINT_FBE)) (SDPORT_ERROR_ADMA_ERROR C) errors
              in (events, errors))"

definition MshcConvertStandardEventsToIntStatus :: "SDPORT_CODES \<Rightarrow> u32 \<Rightarrow> u32 \<Rightarrow> u32 \<times> u32" where
  "MshcConvertStandardEventsToIntStatus C events errors =
     (let intsts = 0; idsts = 0;
          intsts = or_if (has events (SDPORT_EVENT_CARD_RESPONSE C)) MSHC_INT_CMD intsts;
          intsts = or_if (has events (SDPORT_EVENT_CARD_RW_END C)) MSHC_INT_DTO intsts;
          intsts = or_if (has events (SDPORT_EVENT_BUFFER_EMPTY C)) MSHC_INT_TXDR intsts;
          intsts = or_if (has events (SDPORT_EVENT_BUFFER_FULL C)) MSHC_INT_RXDR intsts;
          intsts = or_if (has events (SDPORT_EVENT_CARD_CHANGE C)) MSHC_INT_CD intsts;
          idsts = or_if (has events (SDPORT_EVENT_DMA_COMPLETE C)) (MSHC_IDINT_NIS OR MSHC_IDINT_TI OR MSHC_IDINT_RI) idsts
      in if \<not> has events (SDPORT_EVENT_ERROR C) then (intsts, idsts)
         else let intsts = intsts OR MSHC_INT_ERROR;
                  intsts = or_if (has errors (SDPORT_ERROR_CMD_TIMEOUT C)) MSHC_INT_RTO intsts;
                  intsts = or_if (has errors (SDPORT_ERROR_CMD_CRC_ERROR C)) MSHC_INT_RCRC intsts;
                  intsts = or_if (has errors (SDPORT_ERROR_CMD_END_BIT_ERROR C OR SDPORT_ERROR_CMD_INDEX_ERROR C)) MSHC_INT_RE intsts;
                  intsts = or_if (has errors (SDPORT_ERROR_DATA_TIMEOUT C)) MSHC_INT_DRTO intsts;
                  intsts = or_if (has errors (SDPORT_ERROR_DATA_CRC_ERROR C)) MSHC_INT_DCRC intsts;
                  intsts = or_if (has errors (SDPORT_ERROR_DATA_END_BIT_ERROR C)) MSHC_INT_EBE intsts;
                  intsts = or_if (has errors (SDPORT_GENERIC_IO_ERROR C)) (MSHC_INT_SBE OR MSHC_INT_HLE OR MSHC_INT_FRUN) intsts;
                  intsts = or_if (has errors (SDPORT_ERROR_ADMA_ERROR C)) (MSHC_IDINT_AIS OR MSHC_IDINT_CES OR MSHC_IDINT_DUI OR MSHC_IDINT_FBE) intsts
              in (intsts, idsts))"

definition MshcConvertStandardErrorToStatus :: "SDPORT_CODES \<Rightarrow> u32 \<Rightarrow> NTSTATUS" where
  "MshcConvertStandardErrorToStatus C error =
     (if error = 0 then STATUS_SUCCESS
      else if has error (SDPORT_ERROR_CMD_TIMEOUT C OR SDPORT_ERROR_DATA_TIMEOUT C) then STATUS_IO_TIMEOUT
      else if has error (SDPORT_ERROR_CMD_CRC_ERROR C OR SDPORT_ERROR_DATA_CRC_ERROR C) then STATUS_CRC_ERROR
      else if has error (SDPORT_ERROR_CMD_END_BIT_ERROR C OR SDPORT_ERROR_DATA_END_BIT_ERROR C) then STATUS_DEVICE_DATA_ERROR
      else if has error (SDPORT_ERROR_CMD_INDEX_ERROR C) then STATUS_DEVICE_PROTOCOL_ERROR
      else if has error (SDPORT_ERROR_BUS_POWER_ERROR C) then STATUS_DEVICE_POWER_FAILURE
      else STATUS_IO_DEVICE_ERROR)"

section \<open>Interrupt masks\<close>

definition MshcEnableGlobalInterrupt :: "bool \<Rightarrow> MSHC_EXTENSION \<Rightarrow> MSHC_EXTENSION" where
  "MshcEnableGlobalInterrupt enable x =
     (let ctrl = MshcReadRegister MSHC_CTRL x
      in MshcWriteRegister MSHC_CTRL (if enable then ctrl OR MSHC_CTRL_INT_ENABLE else ctrl AND NOT MSHC_CTRL_INT_ENABLE) x)"

definition MshcEnableInterrupts :: "u32 \<Rightarrow> u32 \<Rightarrow> MSHC_EXTENSION \<Rightarrow> MSHC_EXTENSION" where
  "MshcEnableInterrupts intsts idsts x =
     (let x = MshcWriteRegister MSHC_INTMASK (MshcReadRegister MSHC_INTMASK x OR intsts) x
      in if idsts \<noteq> 0 then MshcWriteRegister MSHC_IDINTEN (MshcReadRegister MSHC_IDINTEN x OR idsts) x else x)"

definition MshcDisableInterrupts :: "u32 \<Rightarrow> u32 \<Rightarrow> MSHC_EXTENSION \<Rightarrow> MSHC_EXTENSION" where
  "MshcDisableInterrupts intsts idsts x =
     (let x = MshcWriteRegister MSHC_INTMASK (MshcReadRegister MSHC_INTMASK x AND NOT intsts) x
      in if idsts \<noteq> 0 then MshcWriteRegister MSHC_IDINTEN (MshcReadRegister MSHC_IDINTEN x AND NOT idsts) x else x)"

definition MshcAcknowledgeInterrupts :: "u32 \<Rightarrow> u32 \<Rightarrow> MSHC_EXTENSION \<Rightarrow> MSHC_EXTENSION" where
  "MshcAcknowledgeInterrupts intsts idsts x =
     (let x = MshcWriteRegister MSHC_RINTSTS intsts x
      in if idsts \<noteq> 0 then MshcWriteRegister MSHC_IDSTS idsts x else x)"

definition MshcSlotToggleEvents :: "SDPORT_CODES \<Rightarrow> u32 \<Rightarrow> bool \<Rightarrow> MSHC_EXTENSION \<Rightarrow> MSHC_EXTENSION" where
  "MshcSlotToggleEvents C eventMask enable x =
     (case MshcConvertStandardEventsToIntStatus C eventMask 0xFFFF of
        (intsts, idsts) \<Rightarrow>
          let intsts = intsts OR MSHC_INT_HTO;
              intsts = (if BrokenCd (platformCaps x) \<noteq> 0 then intsts AND NOT MSHC_INT_CD else intsts)
          in if enable then MshcEnableInterrupts intsts idsts x else MshcDisableInterrupts intsts idsts x)"

definition MshcSlotClearEvents :: "SDPORT_CODES \<Rightarrow> u32 \<Rightarrow> MSHC_EXTENSION \<Rightarrow> MSHC_EXTENSION" where
  "MshcSlotClearEvents C eventMask x =
     (case MshcConvertStandardEventsToIntStatus C eventMask 0xFFFF of
        (intsts, idsts) \<Rightarrow> MshcAcknowledgeInterrupts intsts idsts x)"

section \<open>The interrupt service routine\<close>

text \<open>
  The results are whether the interrupt was the driver's, the events and errors, and whether the card
  changed; the routine never reports an SDIO or a tuning interrupt. \<open>crashdump\<close> is \<open>gCrashdumpMode\<close>.
\<close>

definition MshcSlotInterrupt :: "SDPORT_CODES \<Rightarrow> bool \<Rightarrow> MSHC_EXTENSION \<Rightarrow> (bool \<times> u32 \<times> u32 \<times> bool) \<times> MSHC_EXTENSION" where
  "MshcSlotInterrupt C crashdump x0 =
     (case MshcReadDevice MSHC_RINTSTS x0 of (rintsts, x) \<Rightarrow>
      case MshcReadDevice MSHC_IDSTS x of (idsts, x) \<Rightarrow>
      let ctrl = MshcReadRegister MSHC_CTRL x
      in if rintsts = 0 \<and> idsts = 0 \<or> ctrl AND MSHC_CTRL_INT_ENABLE = 0 then ((False, 0, 0, False), x)
         else let x = MshcAcknowledgeInterrupts rintsts idsts x;
                  voltageSwitch = (case OutstandingRequest x of
                      Some r \<Rightarrow> cmdIndex (requests x r) = SDCMD_VOLTAGE_SWITCH | None \<Rightarrow> False);
                  rintsts = (if voltageSwitch \<and> has rintsts MSHC_INT_HTO
                             then (rintsts AND NOT MSHC_INT_HTO) OR MSHC_INT_CMD else rintsts);
                  x = (if has rintsts (MSHC_INT_RXDR OR MSHC_INT_TXDR)
                       then MshcDisableInterrupts (MSHC_INT_RXDR OR MSHC_INT_TXDR) 0 x else x);
                  cardChange = (has rintsts MSHC_INT_CD \<and> BrokenCd (platformCaps x) = 0);
                  rintsts = (if has rintsts MSHC_INT_CD then rintsts AND NOT MSHC_INT_CD else rintsts)
              in case MshcConvertIntStatusToStandardEvents C rintsts idsts of (events, errors) \<Rightarrow>
                 let handled = (events \<noteq> 0 \<or> errors \<noteq> 0 \<or> cardChange)
                 in if handled \<and> \<not> crashdump \<and> LocalRequestPending x
                    then ((cardChange, 0, 0, cardChange),
                          x\<lparr>CurrentEvents := CurrentEvents x OR events, CurrentErrors := CurrentErrors x OR errors,
                            localDpcQueued := True\<rparr>)
                    else ((handled, events, errors, cardChange), x))"

section \<open>What the translations do\<close>

lemma int_has [simp]:
  "has MSHC_INT_CMD MSHC_INT_CMD" "has MSHC_INT_DTO MSHC_INT_DTO" "has MSHC_INT_TXDR MSHC_INT_TXDR"
  "has MSHC_INT_RXDR MSHC_INT_RXDR" "has MSHC_INT_CD MSHC_INT_CD" "has MSHC_INT_HTO MSHC_INT_HTO"
  "\<not> has MSHC_INT_CMD MSHC_INT_DTO" "\<not> has MSHC_INT_CMD MSHC_INT_TXDR" "\<not> has MSHC_INT_CMD MSHC_INT_RXDR" "\<not> has MSHC_INT_CMD MSHC_INT_CD"
  "\<not> has MSHC_INT_DTO MSHC_INT_CMD" "\<not> has MSHC_INT_DTO MSHC_INT_TXDR" "\<not> has MSHC_INT_DTO MSHC_INT_RXDR" "\<not> has MSHC_INT_DTO MSHC_INT_CD"
  "\<not> has MSHC_INT_TXDR MSHC_INT_CMD" "\<not> has MSHC_INT_TXDR MSHC_INT_DTO" "\<not> has MSHC_INT_TXDR MSHC_INT_RXDR" "\<not> has MSHC_INT_TXDR MSHC_INT_CD"
  "\<not> has MSHC_INT_RXDR MSHC_INT_CMD" "\<not> has MSHC_INT_RXDR MSHC_INT_DTO" "\<not> has MSHC_INT_RXDR MSHC_INT_TXDR" "\<not> has MSHC_INT_RXDR MSHC_INT_CD"
  "\<not> has MSHC_INT_CD MSHC_INT_CMD" "\<not> has MSHC_INT_CD MSHC_INT_DTO" "\<not> has MSHC_INT_CD MSHC_INT_TXDR" "\<not> has MSHC_INT_CD MSHC_INT_RXDR"
  "\<not> has MSHC_INT_CMD MSHC_INT_ERROR" "\<not> has MSHC_INT_DTO MSHC_INT_ERROR" "\<not> has MSHC_INT_TXDR MSHC_INT_ERROR"
  "\<not> has MSHC_INT_RXDR MSHC_INT_ERROR" "\<not> has MSHC_INT_CD MSHC_INT_ERROR"
  by (simp_all add: has_def mshc_int_bits MSHC_INT_ERROR_def MSHC_INT_DATA_ERROR_def MSHC_INT_CMD_ERROR_def)

lemma idint_has [simp]:
  "has (MSHC_IDINT_NIS OR MSHC_IDINT_TI OR MSHC_IDINT_RI) (MSHC_IDINT_NIS OR MSHC_IDINT_TI OR MSHC_IDINT_RI)"
  "\<not> has MSHC_IDINT_NIS MSHC_IDINT_AIS" "\<not> has MSHC_IDINT_TI MSHC_IDINT_AIS" "\<not> has MSHC_IDINT_RI MSHC_IDINT_AIS"
  by (simp_all add: has_def mshc_idint_bits)

text \<open>What a status reports, by name.\<close>

fun status_event :: "u32 \<Rightarrow> u32 \<Rightarrow> sd_event \<Rightarrow> bool" where
  "status_event i d CardResponse = has i MSHC_INT_CMD"
| "status_event i d CardRwEnd = has i MSHC_INT_DTO"
| "status_event i d BufferEmpty = has i MSHC_INT_TXDR"
| "status_event i d BufferFull = has i MSHC_INT_RXDR"
| "status_event i d CardChange = has i MSHC_INT_CD"
| "status_event i d DmaComplete = has d (MSHC_IDINT_NIS OR MSHC_IDINT_TI OR MSHC_IDINT_RI)"
| "status_event i d ErrorEvent = (has i MSHC_INT_ERROR \<or> has d MSHC_IDINT_AIS)"

fun status_error :: "u32 \<Rightarrow> u32 \<Rightarrow> sd_error \<Rightarrow> bool" where
  "status_error i d CmdTimeout = has i MSHC_INT_RTO"
| "status_error i d CmdCrc = has i MSHC_INT_RCRC"
| "status_error i d CmdEndBit = has i MSHC_INT_RE"
| "status_error i d CmdIndex = has i MSHC_INT_RE"
| "status_error i d DataTimeout = has i MSHC_INT_DRTO"
| "status_error i d DataCrc = has i MSHC_INT_DCRC"
| "status_error i d DataEndBit = has i MSHC_INT_EBE"
| "status_error i d GenericIo = has i (MSHC_INT_SBE OR MSHC_INT_HLE OR MSHC_INT_FRUN)"
| "status_error i d AdmaError = (has d MSHC_IDINT_AIS \<or> has i MSHC_INT_ERROR \<and> has d (MSHC_IDINT_CES OR MSHC_IDINT_DUI OR MSHC_IDINT_FBE))"
| "status_error i d BusPower = False"

lemma convert_events:
  assumes "sdport_codes_ok C" "MshcConvertIntStatusToStandardEvents C i d = (events, errors)"
  shows "has events (event_code C k) = status_event i d k"
proof -
  note h = event_code_has(1) [OF assms(1)]
  have e: "events = or_if (has i MSHC_INT_ERROR \<or> has d MSHC_IDINT_AIS) (event_code C ErrorEvent)
    (or_if (has d (MSHC_IDINT_NIS OR MSHC_IDINT_TI OR MSHC_IDINT_RI)) (event_code C DmaComplete)
    (or_if (has i MSHC_INT_CD) (event_code C CardChange) (or_if (has i MSHC_INT_RXDR) (event_code C BufferFull)
    (or_if (has i MSHC_INT_TXDR) (event_code C BufferEmpty) (or_if (has i MSHC_INT_DTO) (event_code C CardRwEnd)
    (or_if (has i MSHC_INT_CMD) (event_code C CardResponse) 0))))))"
  proof (cases "has i MSHC_INT_ERROR \<or> has d MSHC_IDINT_AIS")
    case True
    then show ?thesis using assms(2) by (simp add: MshcConvertIntStatusToStandardEvents_def Let_def)
  next
    case False
    then show ?thesis using assms(2) by (simp add: MshcConvertIntStatusToStandardEvents_def Let_def)
  qed
  show ?thesis unfolding e has_or_if h by (cases k) simp_all
qed

lemma convert_errors:
  assumes "sdport_codes_ok C" "MshcConvertIntStatusToStandardEvents C i d = (events, errors)"
  shows "has errors (error_code C k) = (status_event i d ErrorEvent \<and> status_error i d k)"
proof (cases "has i MSHC_INT_ERROR \<or> has d MSHC_IDINT_AIS")
  case False
  then have "errors = 0" using assms(2) by (simp add: MshcConvertIntStatusToStandardEvents_def Let_def)
  then show ?thesis using False by simp
next
  case True
  note h = event_code_has(2) [OF assms(1)]
  have e: "errors = or_if (has d (MSHC_IDINT_AIS OR MSHC_IDINT_CES OR MSHC_IDINT_DUI OR MSHC_IDINT_FBE)) (error_code C AdmaError)
    (or_if (has i (MSHC_INT_SBE OR MSHC_INT_HLE OR MSHC_INT_FRUN)) (error_code C GenericIo)
    (or_if (has i MSHC_INT_EBE) (error_code C DataEndBit) (or_if (has i MSHC_INT_DCRC) (error_code C DataCrc)
    (or_if (has i MSHC_INT_DRTO) (error_code C DataTimeout) (or_if (has i MSHC_INT_RE) (error_code C CmdIndex)
    (or_if (has i MSHC_INT_RE) (error_code C CmdEndBit) (or_if (has i MSHC_INT_RCRC) (error_code C CmdCrc)
    (or_if (has i MSHC_INT_RTO) (error_code C CmdTimeout) 0))))))))"
    using assms(2) True by (simp add: MshcConvertIntStatusToStandardEvents_def Let_def)
  show ?thesis unfolding e has_or_if h using True by (cases k) (auto simp: has_or_mask)
qed

text \<open>C30: The events the port driver waits for survive the translation to interrupt status and back: the
  status that stands for a set of events without the error event is reported as exactly these events,
  with no error.
\<close>

theorem events_roundtrip:
  assumes "sdport_codes_ok C" "ErrorEvent \<notin> events_of C events"
  shows "case MshcConvertStandardEventsToIntStatus C events errors of (intsts, idsts) \<Rightarrow>
    case MshcConvertIntStatusToStandardEvents C intsts idsts of (events', errors') \<Rightarrow>
      events_of C events' = events_of C events \<and> errors' = 0"
proof -
  let ?h = "\<lambda>e. has events (event_code C e)"
  obtain intsts idsts where i: "MshcConvertStandardEventsToIntStatus C events errors = (intsts, idsts)" by fastforce
  have ne: "\<not> has events (SDPORT_EVENT_ERROR C)" using assms(2) by (simp add: events_of_def)
  have it: "intsts = or_if (?h CardChange) MSHC_INT_CD (or_if (?h BufferFull) MSHC_INT_RXDR (or_if (?h BufferEmpty) MSHC_INT_TXDR
      (or_if (?h CardRwEnd) MSHC_INT_DTO (or_if (?h CardResponse) MSHC_INT_CMD 0))))"
    and id: "idsts = or_if (?h DmaComplete) (MSHC_IDINT_NIS OR MSHC_IDINT_TI OR MSHC_IDINT_RI) 0"
    using i ne by (simp_all add: MshcConvertStandardEventsToIntStatus_def Let_def)
  have ii: "has intsts MSHC_INT_CMD = ?h CardResponse" "has intsts MSHC_INT_DTO = ?h CardRwEnd"
    "has intsts MSHC_INT_TXDR = ?h BufferEmpty" "has intsts MSHC_INT_RXDR = ?h BufferFull" "has intsts MSHC_INT_CD = ?h CardChange"
    "\<not> has intsts MSHC_INT_ERROR"
    unfolding it has_or_if by simp_all
  have ii2: "\<not> has idsts MSHC_IDINT_AIS" "has idsts (MSHC_IDINT_NIS OR MSHC_IDINT_TI OR MSHC_IDINT_RI) = ?h DmaComplete"
    unfolding id has_or_if using idint_has by (auto simp: has_or [of _ _ MSHC_IDINT_AIS])
  obtain events' errors' where e: "MshcConvertIntStatusToStandardEvents C intsts idsts = (events', errors')" by fastforce
  then have er: "errors' = 0" using ii(6) ii2(1) by (simp add: MshcConvertIntStatusToStandardEvents_def Let_def)
  have "has events' (event_code C k) = ?h k" for k
    unfolding convert_events [OF assms(1) e] using ii ii2 ne by (cases k) simp_all
  then show ?thesis using i e er by (simp add: events_of_def)
qed

theorem events_roundtrip_witness:
  "case MshcConvertStandardEventsToIntStatus demo_codes 0x1B 0xFFFF of (intsts, idsts) \<Rightarrow>
    case MshcConvertIntStatusToStandardEvents demo_codes intsts idsts of (events', errors') \<Rightarrow>
      events_of demo_codes events' = events_of demo_codes 0x1B \<and> errors' = 0"
  by (rule events_roundtrip [OF demo_codes_ok]) (simp add: events_of_def has_def demo_codes_def)

text \<open>Enabling the error event with every error leaves the abnormal interrupts of the DMA controller as
  they were, because its interrupt bits are put into the status of the other register: the receive and
  transmit data requests of a PIO transfer and the command interrupt are enabled instead. Masking the error
  event masks these.
\<close>

theorem error_event_toggles_data_requests:
  assumes "has eventMask (SDPORT_EVENT_ERROR C)" "has 0xFFFF (SDPORT_ERROR_ADMA_ERROR C)"
  shows "has (MshcReadRegister MSHC_IDINTEN (MshcSlotToggleEvents C eventMask enable x)) MSHC_IDINT_AIS
       = has (MshcReadRegister MSHC_IDINTEN x) MSHC_IDINT_AIS \<and>
    (\<forall>m \<in> {MSHC_INT_RXDR, MSHC_INT_TXDR, MSHC_INT_CMD}.
       has (MshcReadRegister MSHC_INTMASK (MshcSlotToggleEvents C eventMask enable x)) m = enable)"
proof -
  obtain i d where c: "MshcConvertStandardEventsToIntStatus C eventMask 0xFFFF = (i, d)" by fastforce
  let ?m = "MSHC_IDINT_AIS OR MSHC_IDINT_CES OR MSHC_IDINT_DUI OR MSHC_IDINT_FBE"
  have "j OR ?m = i \<Longrightarrow> i = i OR ?m" for j by (auto simp: or.assoc)
  then have i': "i = i OR ?m"
    using c assms unfolding MshcConvertStandardEventsToIntStatus_def Let_def by (simp only: if_False not_True_eq_False or_if_simps prod.inject simp_thms) blast
  have "has ?m MSHC_INT_RXDR" "has ?m MSHC_INT_TXDR" "has ?m MSHC_INT_CMD"
    by (simp_all add: has_def mshc_int_bits mshc_idint_bits)
  then have i: "\<forall>m \<in> {MSHC_INT_RXDR, MSHC_INT_TXDR, MSHC_INT_CMD}. has i m" by (subst (1) i') (simp add: has_or)
  have d: "\<not> has d MSHC_IDINT_AIS"
    using c assms by (auto simp: MshcConvertStandardEventsToIntStatus_def Let_def has_or_if has_or)
  define j where "j = (if BrokenCd (platformCaps x) \<noteq> 0 then (i OR MSHC_INT_HTO) AND NOT MSHC_INT_CD else i OR MSHC_INT_HTO)"
  have j: "\<forall>m \<in> {MSHC_INT_RXDR, MSHC_INT_TXDR, MSHC_INT_CMD}. has j m"
    using i unfolding j_def by (auto simp: has_or has_clear_other)
  have t: "MshcSlotToggleEvents C eventMask enable x = (if enable then MshcEnableInterrupts j d x else MshcDisableInterrupts j d x)"
    by (simp add: MshcSlotToggleEvents_def c Let_def j_def)
  have clear: "\<not> has (v AND NOT w) (push_bit n 1)" if "has w (push_bit n 1)" for v w n
    using that by (simp add: has_single bit_and_iff bit_not_iff)
  show ?thesis
  proof (cases enable)
    case True
    with t have "MshcSlotToggleEvents C eventMask True x = MshcEnableInterrupts j d x" by simp
    then show ?thesis using True j d by (auto simp: MshcEnableInterrupts_def Let_def has_or mshc_regs)
  next
    case False
    have "has j (push_bit 5 1)" "has j (push_bit 4 1)" "has j (push_bit 2 1)"
      using j by (simp_all only: MSHC_INT_RXDR_def MSHC_INT_TXDR_def MSHC_INT_CMD_def ball_simps)
    then have "\<forall>m \<in> {MSHC_INT_RXDR, MSHC_INT_TXDR, MSHC_INT_CMD}. \<not> has (v AND NOT j) m" for v
      by (simp only: MSHC_INT_RXDR_def MSHC_INT_TXDR_def MSHC_INT_CMD_def ball_simps clear) blast
    moreover have "has (v AND NOT d) MSHC_IDINT_AIS = has v MSHC_IDINT_AIS" for v by (rule has_clear_other [OF d])
    moreover have "MshcSlotToggleEvents C eventMask False x = MshcDisableInterrupts j d x" using t False by simp
    ultimately show ?thesis using False by (auto simp: MshcDisableInterrupts_def Let_def mshc_regs)
  qed
qed

theorem error_event_toggles_data_requests_witness:
  "has (MshcReadRegister MSHC_INTMASK (MshcSlotToggleEvents demo_codes 0x8000 True x)) MSHC_INT_RXDR"
  using error_event_toggles_data_requests [where eventMask = "0x8000" and C = demo_codes and enable = True and x = x] by (simp add: demo_codes_def has_def)

section \<open>What the interrupt service routine does\<close>

end
