(* ===== verification/RockchipOps.thy ===== *)
theory RockchipOps imports MshcState begin

text \<open>
  The RK3576 clock, phase and tuning routines of the SD host driver (src/drivers/sd/dwcmshc/rockchip_ops.cpp).
\<close>

section \<open>Constants\<close>

definition NUM_PHASES :: nat where "NUM_PHASES = 360"
definition BAD_PHASES_TO_SKIP :: nat where "BAD_PHASES_TO_SKIP = 20"
definition SAMPLE_PHASE_DEFAULT :: u32 where "SAMPLE_PHASE_DEFAULT = 0"
definition CRU_SD_CLKGEN_DIV :: u32 where "CRU_SD_CLKGEN_DIV = 2"
definition RK3576_SDMMC_WRITE_MASK :: u32 where
  "RK3576_SDMMC_WRITE_MASK = push_bit 16 (push_bit 13 0x3 OR push_bit 7 0x3F)"
definition RK3576_SDMMC_DIV_MAX :: u32 where "RK3576_SDMMC_DIV_MAX = 64"
definition MSHC_TIMING_CON0 :: nat where "MSHC_TIMING_CON0 = 0x130"
definition MSHC_TIMING_CON1 :: nat where "MSHC_TIMING_CON1 = 0x134"
definition ROCKCHIP_MMC_DELAY_SEL :: u32 where "ROCKCHIP_MMC_DELAY_SEL = push_bit 10 1"
definition ROCKCHIP_MMC_TIMING_FIELD :: u32 where "ROCKCHIP_MMC_TIMING_FIELD = 0x0FFE"
definition Rk3576SdmmcParentHz :: "u32 list" where "Rk3576SdmmcParentHz = [1188000000, 1000000000, 24000000]"

text \<open>\<open>RANGE_INDEX_TO_PHASE\<close> and \<open>PHASE_TO_RANGE_INDEX\<close>.\<close>

definition RANGE_INDEX_TO_PHASE :: "nat \<Rightarrow> nat \<Rightarrow> nat" where
  "RANGE_INDEX_TO_PHASE index n = (index * 360 + n - 1) div n"

definition PHASE_TO_RANGE_INDEX :: "nat \<Rightarrow> nat \<Rightarrow> nat" where
  "PHASE_TO_RANGE_INDEX phase n = (phase * n + 360 - 1) div 360"

section \<open>Phases\<close>

text \<open>The number of delay elements for a remainder in degrees at a card clock of \<open>rate\<close> Hz.\<close>

definition delay_num :: "u32 \<Rightarrow> u32 \<Rightarrow> u32" where
  "delay_num rate remainder =
     (let denominator = (ucast (rate div 1000) :: u64) * 36 * (60 div 10);
          delay = (10000000 * ucast remainder + denominator div 2) div denominator
      in if delay > 255 then 255 else ucast delay)"

definition phase_value :: "u32 \<Rightarrow> u32 \<Rightarrow> u32" where
  "phase_value rate degrees0 =
     (let degrees = degrees0 mod 360;
          delayNum = delay_num rate (degrees mod 90);
          rawValue = (if delayNum \<noteq> 0 then ROCKCHIP_MMC_DELAY_SEL else 0) OR push_bit 2 delayNum OR degrees div 90
      in (push_bit 1 rawValue AND ROCKCHIP_MMC_TIMING_FIELD) OR push_bit 16 ROCKCHIP_MMC_TIMING_FIELD)"

definition MshcRk3576SetPhase :: "bool \<Rightarrow> u32 \<Rightarrow> MSHC_EXTENSION \<Rightarrow> NTSTATUS \<times> MSHC_EXTENSION" where
  "MshcRk3576SetPhase sample degrees x =
     (if RkCardClockHz x < 1000 then (STATUS_INVALID_DEVICE_STATE, x)
      else (STATUS_SUCCESS,
            MshcWriteRegister (if sample then MSHC_TIMING_CON1 else MSHC_TIMING_CON0)
              (phase_value (RkCardClockHz x) degrees) x))"

section \<open>The card clock\<close>

text \<open>One turn of the loop over the parents; the state is \<open>BestHz\<close>, \<open>BestMux\<close>, \<open>BestDiv\<close>.\<close>

definition clock_divider :: "u32 \<Rightarrow> u32 \<Rightarrow> u32" where
  "clock_divider targetHz parentHz =
     (let d = (parentHz + targetHz - 1) div targetHz;
          d = (if d < 1 then 1 else d)
      in if d > RK3576_SDMMC_DIV_MAX then RK3576_SDMMC_DIV_MAX else d)"

definition clock_step :: "u32 \<Rightarrow> u32 \<times> u32 \<Rightarrow> u32 \<times> u32 \<times> u32 \<Rightarrow> u32 \<times> u32 \<times> u32" where
  "clock_step targetHz parent best =
     (case parent of (mux, parentHz) \<Rightarrow> case best of (bestHz, bestMux, bestDiv) \<Rightarrow>
        let d = clock_divider targetHz parentHz; hz = parentHz div d
        in if hz \<le> targetHz \<and> hz > bestHz then (hz, mux, d) else best)"

definition clock_best :: "u32 \<Rightarrow> u32 \<times> u32 \<times> u32" where
  "clock_best targetHz =
     (case fold (clock_step targetHz) [(0, Rk3576SdmmcParentHz ! 0), (1, Rk3576SdmmcParentHz ! 1), (2, Rk3576SdmmcParentHz ! 2)]
             (0, 2, RK3576_SDMMC_DIV_MAX) of
        (bestHz, bestMux, bestDiv) \<Rightarrow>
          (if bestHz = 0 then Rk3576SdmmcParentHz ! unat bestMux div bestDiv else bestHz, bestMux, bestDiv))"

text \<open>\<open>mapped\<close> says whether \<open>MmMapIoSpaceEx\<close> returns a mapping.\<close>

definition MshcRockchipSetClock :: "bool \<Rightarrow> bool \<Rightarrow> u32 \<Rightarrow> MSHC_EXTENSION \<Rightarrow> NTSTATUS \<times> MSHC_EXTENSION" where
  "MshcRockchipSetClock crashdumpMode mapped frequencyKhz x0 =
     (let x = (if \<not> RkCruMapped x0 \<and> \<not> crashdumpMode then x0\<lparr>RkCruMapped := mapped\<rparr> else x0)
      in if \<not> RkCruMapped x then (STATUS_NOT_SUPPORTED, x)
         else case clock_best (frequencyKhz * 1000 * CRU_SD_CLKGEN_DIV) of
           (bestHz, bestMux, bestDiv) \<Rightarrow>
             let x = x\<lparr>RkCruClkSel := RK3576_SDMMC_WRITE_MASK OR push_bit 13 bestMux OR push_bit 7 (bestDiv - 1),
                      RkCardClockHz := bestHz div CRU_SD_CLKGEN_DIV,
                      hostCaps := (hostCaps x)\<lparr>BaseClockFrequencyKhz := frequencyKhz\<rparr>\<rparr>;
                 x = (if frequencyKhz \<le> 400 then snd (MshcRk3576SetPhase True SAMPLE_PHASE_DEFAULT x) else x)
             in (STATUS_SUCCESS, snd (MshcRk3576SetPhase False (if frequencyKhz \<ge> 100000 then 180 else 90) x)))"

definition MshcRockchipSetVoltage :: NTSTATUS where
  "MshcRockchipSetVoltage = STATUS_NOT_SUPPORTED"

definition MshcRockchipSetSignalingVoltage :: "SDPORT_SIGNALING_VOLTAGE \<Rightarrow> NTSTATUS" where
  "MshcRockchipSetSignalingVoltage v = (if v = SdSignalingVoltage33 then STATUS_SUCCESS else STATUS_NOT_SUPPORTED)"

definition MshcRockchipCleanup :: "MSHC_EXTENSION \<Rightarrow> MSHC_EXTENSION" where
  "MshcRockchipCleanup x = (if RkCruMapped x then x\<lparr>RkCruMapped := False\<rparr> else x)"

section \<open>Tuning\<close>

text \<open>
  \<open>send x\<close> is \<open>MshcSendTuningCommand\<close>. A range of good phases is its start and end index.
\<close>

type_synonym tuning_command = "MSHC_EXTENSION \<Rightarrow> NTSTATUS \<times> MSHC_EXTENSION"

definition try_phase :: "tuning_command \<Rightarrow> nat \<Rightarrow> MSHC_EXTENSION \<Rightarrow> bool \<times> MSHC_EXTENSION" where
  "try_phase send index x =
     (case MshcRk3576SetPhase True (of_nat (RANGE_INDEX_TO_PHASE index NUM_PHASES)) x of
        (status, x) \<Rightarrow>
          if \<not> NT_SUCCESS status then (NT_SUCCESS status, x)
          else case send x of (status, x) \<Rightarrow> (NT_SUCCESS status, x))"

definition extend_ranges :: "bool \<Rightarrow> nat \<Rightarrow> (int \<times> int) list \<Rightarrow> (int \<times> int) list" where
  "extend_ranges previousOk index ranges =
     (if \<not> previousOk then ranges @ [(int index, int index)]
      else butlast ranges @ [(fst (last ranges), int index)])"

definition next_phase :: "bool \<Rightarrow> nat \<Rightarrow> nat" where
  "next_phase ok index =
     (if ok then index + 1
      else if index = NUM_PHASES - 1 then index + 1
      else let i = index + PHASE_TO_RANGE_INDEX BAD_PHASES_TO_SKIP NUM_PHASES
           in if i \<ge> NUM_PHASES then NUM_PHASES - 1 else i)"

lemma next_phase_greater: "index < NUM_PHASES \<Longrightarrow> index < next_phase ok index \<and> next_phase ok index \<le> NUM_PHASES"
  by (auto simp: next_phase_def NUM_PHASES_def PHASE_TO_RANGE_INDEX_def BAD_PHASES_TO_SKIP_def Let_def)

text \<open>
  The loop over the phases; the state is \<open>Index\<close>, \<open>CurrentTuneCmdOk\<close>, \<open>PreviousTuneCmdOk\<close>,
  \<open>FirstTuneCmdOk\<close>, the ranges and the extension.
\<close>

function tuning_scan ::
    "tuning_command \<Rightarrow> nat \<Rightarrow> bool \<Rightarrow> bool \<Rightarrow> bool \<Rightarrow> (int \<times> int) list \<Rightarrow> MSHC_EXTENSION
       \<Rightarrow> (bool \<times> bool \<times> (int \<times> int) list) \<times> MSHC_EXTENSION" where
  "tuning_scan send index current previous first ranges x =
     (if index < NUM_PHASES
      then case try_phase send index x of (ok, x) \<Rightarrow>
             tuning_scan send (next_phase ok index) ok ok (if index = 0 then ok else first)
               (if ok then extend_ranges previous index ranges else ranges) x
      else ((first, current, ranges), x))"
  by pat_completeness auto

termination
  by (relation "measure (\<lambda>(send, index, c, p, f, r, x). NUM_PHASES - index)")
    (use next_phase_greater in \<open>auto intro: diff_less_mono2 dest: less_le_trans\<close>)

declare tuning_scan.simps [simp del]

text \<open>Merging the ranges at both ends when phase 0 and the last phase are good.\<close>

definition merge_ranges :: "bool \<Rightarrow> bool \<Rightarrow> (int \<times> int) list \<Rightarrow> (int \<times> int) list" where
  "merge_ranges first current ranges =
     (if 1 < length ranges \<and> first \<and> current
      then butlast (ranges[0 := (fst (last ranges), snd (ranges ! 0))]) else ranges)"

definition range_length :: "int \<times> int \<Rightarrow> int" where
  "range_length r = (let n = snd r - fst r + 1 in if n < 0 then n + int NUM_PHASES else n)"

text \<open>The search for the longest range: index and length of the best one so far.\<close>

fun longest_range :: "(int \<times> int) list \<Rightarrow> nat \<Rightarrow> int \<times> int \<Rightarrow> int \<times> int" where
  "longest_range [] i best = best"
| "longest_range (r # rs) i (longestRange, longestLength) =
     longest_range rs (Suc i)
       (if longestLength < range_length r then (int i, range_length r) else (longestRange, longestLength))"

definition middle_phase :: "(int \<times> int) list \<Rightarrow> int" where
  "middle_phase ranges =
     (case longest_range ranges 0 (-1, -1) of (longestRange, longestLength) \<Rightarrow>
        (fst (ranges ! nat longestRange) + longestLength div 2) mod int NUM_PHASES)"

definition MshcRockchipExecuteTuning :: "tuning_command \<Rightarrow> MSHC_EXTENSION \<Rightarrow> NTSTATUS \<times> MSHC_EXTENSION" where
  "MshcRockchipExecuteTuning send x =
     (case tuning_scan send 0 False False False [] x of
        ((first, current, ranges0), x) \<Rightarrow>
          if ranges0 = [] then (STATUS_IO_DEVICE_ERROR, x)
          else let ranges = merge_ranges first current ranges0
               in if fst (ranges ! 0) = 0 \<and> snd (ranges ! 0) = int NUM_PHASES - 1
                  then (STATUS_SUCCESS, snd (MshcRk3576SetPhase True SAMPLE_PHASE_DEFAULT x))
                  else (STATUS_SUCCESS,
                        snd (MshcRk3576SetPhase True
                          (of_nat (RANGE_INDEX_TO_PHASE (nat (middle_phase ranges)) NUM_PHASES)) x)))"

end
