(* ===== verification/MshcBus.thy ===== *)
theory MshcBus imports MshcEvents RockchipOps begin

text \<open>
  The bus operations of the SD/MMC host driver (dwcmshc.cpp): polling the controller, card clock, bus width
  and speed, voltages, and card detection. \<open>crashdump\<close> is \<open>gCrashdumpMode\<close>.
\<close>

section \<open>Waiting for the controller\<close>

definition MshcIsDataBusy :: "MSHC_EXTENSION \<Rightarrow> bool \<times> MSHC_EXTENSION" where
  "MshcIsDataBusy x = (case MshcReadDevice MSHC_STATUS x of (v, x) \<Rightarrow> (has v MSHC_STATUS_DATA_BUSY, x))"

definition MshcWaitDataIdle :: "MSHC_EXTENSION \<Rightarrow> NTSTATUS \<times> MSHC_EXTENSION" where
  "MshcWaitDataIdle x = poll_register 100000 MSHC_STATUS (\<lambda>v. \<not> has v MSHC_STATUS_DATA_BUSY) x"

definition MshcCiuUpdateClock :: "u32 \<Rightarrow> MSHC_EXTENSION \<Rightarrow> NTSTATUS \<times> MSHC_EXTENSION" where
  "MshcCiuUpdateClock flags x =
     (let x = (if flags AND MSHC_CMD_VOLT_SWITCH = 0 then snd (MshcWaitDataIdle x) else x);
          x = MshcWriteRegister MSHC_CMDARG 0 x;
          cmd = MSHC_CMD_WAIT_PRVDATA_COMPLETE OR MSHC_CMD_UPDATE_CLOCK_REGS_ONLY OR MSHC_CMD_START_CMD OR flags;
          x = MshcWriteRegister MSHC_CMD cmd x
      in poll_register 200000 MSHC_CMD (\<lambda>v. \<not> has v MSHC_CMD_START_CMD) x)"

definition MshcResetWait :: "u32 \<Rightarrow> MSHC_EXTENSION \<Rightarrow> NTSTATUS \<times> MSHC_EXTENSION" where
  "MshcResetWait m x =
     (let x = MshcWriteRegister MSHC_CTRL (MshcReadRegister MSHC_CTRL x OR m) x
      in poll_register 300 MSHC_CTRL (\<lambda>v. \<not> has v m) x)"

section \<open>Card detection\<close>

definition MshcIsCardInserted :: "MSHC_EXTENSION \<Rightarrow> bool \<times> MSHC_EXTENSION" where
  "MshcIsCardInserted x =
     (if BrokenCd (platformCaps x) \<noteq> 0 then (True, x)
      else case MshcReadDevice MSHC_CDETECT x of (v, x) \<Rightarrow> (\<not> has v (MSHC_CDETECT_CARD_DETECT_N (SlotId x)), x))"

definition MshcIsCardWriteProtected :: "MSHC_EXTENSION \<Rightarrow> bool \<times> MSHC_EXTENSION" where
  "MshcIsCardWriteProtected x =
     (case MshcReadDevice MSHC_WRTPRT x of (v, x) \<Rightarrow> (has v (MSHC_WRTPRT_WRITE_PROTECT (SlotId x)), x))"

section \<open>The card clock\<close>

text \<open>The frequency the crashdump stack should have asked for, the platform's limit, and the divider.\<close>

definition crashdump_frequency :: "SDPORT_BUS_SPEED \<Rightarrow> u32 \<Rightarrow> u32" where
  "crashdump_frequency speed frequencyKhz =
     (case speed of
        SdBusSpeedNormal \<Rightarrow> 25000
      | SdBusSpeedHigh \<Rightarrow> 50000
      | SdBusSpeedDDR50 \<Rightarrow> 50000
      | SdBusSpeedSDR50 \<Rightarrow> 100000
      | _ \<Rightarrow> frequencyKhz)"

definition limit_frequency :: "u32 \<Rightarrow> u32 \<Rightarrow> u32" where
  "limit_frequency maxFrequency frequencyKhz =
     (if maxFrequency \<noteq> 0 \<and> maxFrequency div 1000 < frequencyKhz then maxFrequency div 1000 else frequencyKhz)"

definition clock_divisor :: "u32 \<Rightarrow> u32 \<Rightarrow> u32" where
  "clock_divisor baseKhz frequencyKhz =
     (if frequencyKhz \<noteq> baseKhz then DIV_CEIL baseKhz (frequencyKhz * 2) else 0)"

text \<open>\<open>setClock\<close> is the platform's \<open>SetClock\<close> operation, \<open>None\<close> if the platform has none.\<close>

type_synonym set_clock_operation = "u32 \<Rightarrow> MSHC_EXTENSION \<Rightarrow> NTSTATUS \<times> MSHC_EXTENSION"

definition clock_off :: "MSHC_EXTENSION \<Rightarrow> MSHC_EXTENSION" where
  "clock_off x =
     (let clkena = (MshcReadRegister MSHC_CLKENA x AND NOT (MSHC_CLKENA_CCLK_ENABLE (SlotId x))) AND NOT (MSHC_CLKENA_CCLK_LOW_POWER (SlotId x));
          x = MshcWriteRegister MSHC_CLKENA clkena x
      in MshcWriteRegister MSHC_CLKDIV 0 (MshcWriteRegister MSHC_CLKSRC 0 x))"

definition clock_on :: "u32 \<Rightarrow> u32 \<Rightarrow> MSHC_EXTENSION \<Rightarrow> NTSTATUS \<times> MSHC_EXTENSION" where
  "clock_on clkena frequencyKhz x =
     (let x = MshcWriteRegister MSHC_CLKDIV (clock_divisor (BaseClockFrequencyKhz (hostCaps x)) frequencyKhz) x
      in case MshcCiuUpdateClock 0 x of (status, x) \<Rightarrow>
         if \<not> NT_SUCCESS status then (status, x)
         else MshcCiuUpdateClock 0
                (MshcWriteRegister MSHC_CLKENA ((clkena OR MSHC_CLKENA_CCLK_ENABLE (SlotId x)) OR MSHC_CLKENA_CCLK_LOW_POWER (SlotId x)) x))"

definition MshcSetClock :: "set_clock_operation option \<Rightarrow> bool \<Rightarrow> u32 \<Rightarrow> MSHC_EXTENSION \<Rightarrow> NTSTATUS \<times> MSHC_EXTENSION" where
  "MshcSetClock setClock crashdump frequencyKhz x =
     (let clkena = MshcReadRegister MSHC_CLKENA (clock_off x)
      in case MshcCiuUpdateClock 0 (clock_off x) of (status, x) \<Rightarrow>
        if \<not> NT_SUCCESS status then (status, x)
        else if frequencyKhz = 0 then (STATUS_SUCCESS, x\<lparr>BusFrequencyKhz := frequencyKhz\<rparr>)
        else let frequencyKhz = (if crashdump then crashdump_frequency (BusSpeed x) frequencyKhz else frequencyKhz);
                 frequencyKhz = limit_frequency (MaxFrequency (platformCaps x)) frequencyKhz
             in case (case setClock of Some f \<Rightarrow> f frequencyKhz x | None \<Rightarrow> (STATUS_SUCCESS, x)) of (status, x) \<Rightarrow>
                if \<not> NT_SUCCESS status then (status, x)
                else case clock_on clkena frequencyKhz x of (status, x) \<Rightarrow>
                     if \<not> NT_SUCCESS status then (status, x)
                     else (STATUS_SUCCESS, x\<lparr>BusFrequencyKhz := frequencyKhz\<rparr>))"

section \<open>Bus width, speed and voltage\<close>

fun ctype_width :: "SDPORT_BUS_WIDTH \<Rightarrow> u32 option" where
  "ctype_width SdBusWidth1Bit = Some MSHC_CTYPE_CARD_WIDTH_1"
| "ctype_width SdBusWidth4Bit = Some MSHC_CTYPE_CARD_WIDTH_4"
| "ctype_width SdBusWidth8Bit = Some MSHC_CTYPE_CARD_WIDTH_8"
| "ctype_width SdBusWidthUndefined = None"

definition MshcSetBusWidth :: "SDPORT_BUS_WIDTH \<Rightarrow> MSHC_EXTENSION \<Rightarrow> NTSTATUS \<times> MSHC_EXTENSION" where
  "MshcSetBusWidth busWidth x =
     (case ctype_width busWidth of
        None \<Rightarrow> (STATUS_INVALID_PARAMETER, x)
      | Some ctypeWidth \<Rightarrow>
          let ctype = (MshcReadRegister MSHC_CTYPE x AND NOT (push_bit (SlotId x) MSHC_CTYPE_CARD_WIDTH_MASK)) OR push_bit (SlotId x) ctypeWidth
          in (STATUS_SUCCESS, (MshcWriteRegister MSHC_CTYPE ctype x)\<lparr>BusWidth := busWidth\<rparr>))"

definition MshcSetBusSpeed :: "SDPORT_BUS_SPEED \<Rightarrow> MSHC_EXTENSION \<Rightarrow> NTSTATUS \<times> MSHC_EXTENSION" where
  "MshcSetBusSpeed speed x =
     (let uhsReg = MshcReadRegister MSHC_UHS_REG x; ddr = MSHC_UHS_REG_DDR_REG (SlotId x)
      in if speed \<in> {SdBusSpeedNormal, SdBusSpeedHigh, SdBusSpeedSDR12, SdBusSpeedSDR25, SdBusSpeedSDR50, SdBusSpeedSDR104, SdBusSpeedHS200}
         then (STATUS_SUCCESS, (MshcWriteRegister MSHC_UHS_REG (uhsReg AND NOT ddr) x)\<lparr>BusSpeed := speed\<rparr>)
         else if speed \<in> {SdBusSpeedDDR50, SdBusSpeedHS400}
         then (STATUS_SUCCESS, (MshcWriteRegister MSHC_UHS_REG (uhsReg OR ddr) x)\<lparr>BusSpeed := speed\<rparr>)
         else (STATUS_INVALID_PARAMETER, x))"

text \<open>
  The power enable value is computed and not written; \<open>setVoltage\<close> is the platform's operation.
\<close>

definition MshcSetVoltage :: "(SDPORT_BUS_VOLTAGE \<Rightarrow> MSHC_EXTENSION \<Rightarrow> NTSTATUS \<times> MSHC_EXTENSION) option
    \<Rightarrow> SDPORT_BUS_VOLTAGE \<Rightarrow> MSHC_EXTENSION \<Rightarrow> NTSTATUS \<times> MSHC_EXTENSION" where
  "MshcSetVoltage setVoltage voltage x =
     (if voltage \<noteq> SdBusVoltage33 \<and> voltage \<noteq> SdBusVoltageOff then (STATUS_INVALID_PARAMETER, x)
      else let x = (if voltage = SdBusVoltage33 then x\<lparr>CardInitialized := False\<rparr> else x)
           in case (case setVoltage of Some f \<Rightarrow> f voltage x | None \<Rightarrow> (STATUS_SUCCESS, x)) of (status, x) \<Rightarrow>
              (STATUS_SUCCESS, x\<lparr>CardPowerControlSupported := NT_SUCCESS status\<rparr>))"

text \<open>
  Switching the signaling voltage. \<open>sendStatus\<close> is \<open>MshcSendStatusCommand\<close>, \<open>setSignaling\<close> the platform's
  operation.
\<close>

definition signaling_regulator :: "bool \<Rightarrow> MSHC_EXTENSION \<Rightarrow> MSHC_EXTENSION" where
  "signaling_regulator switch18v x =
     (let uhsReg = MshcReadRegister MSHC_UHS_REG x; volt = MSHC_UHS_REG_VOLT_REG (SlotId x)
      in MshcWriteRegister MSHC_UHS_REG (if switch18v then uhsReg OR volt else uhsReg AND NOT volt) x)"

definition clock_gate :: "bool \<Rightarrow> MSHC_EXTENSION \<Rightarrow> MSHC_EXTENSION" where
  "clock_gate on x =
     (let clkena = MshcReadRegister MSHC_CLKENA x; enable = MSHC_CLKENA_CCLK_ENABLE (SlotId x)
      in snd (MshcCiuUpdateClock MSHC_CMD_VOLT_SWITCH
               (MshcWriteRegister MSHC_CLKENA (if on then clkena OR enable else clkena AND NOT enable) x)))"

definition voltage_check :: "NTSTATUS \<Rightarrow> MSHC_EXTENSION \<Rightarrow> NTSTATUS \<times> MSHC_EXTENSION" where
  "voltage_check status x =
     (case MshcReadDevice MSHC_RINTSTS (clock_gate True x) of (rintsts, x) \<Rightarrow>
        (if rintsts AND (MSHC_INT_HTO OR MSHC_INT_CMD) \<noteq> (MSHC_INT_HTO OR MSHC_INT_CMD) then STATUS_IO_DEVICE_ERROR else status,
         MshcWriteRegister MSHC_RINTSTS rintsts x))"

definition MshcSetSignalingVoltage ::
    "(MSHC_EXTENSION \<Rightarrow> NTSTATUS \<times> MSHC_EXTENSION) \<Rightarrow> (SDPORT_SIGNALING_VOLTAGE \<Rightarrow> MSHC_EXTENSION \<Rightarrow> NTSTATUS \<times> MSHC_EXTENSION) option
       \<Rightarrow> SDPORT_SIGNALING_VOLTAGE \<Rightarrow> MSHC_EXTENSION \<Rightarrow> NTSTATUS \<times> MSHC_EXTENSION" where
  "MshcSetSignalingVoltage sendStatus setSignaling voltage x =
     (if voltage = SdSignalingVoltageUndefined then (STATUS_INVALID_PARAMETER, x)
      else let switch18v = (voltage = SdSignalingVoltage18);
               ask = (\<not> switch18v \<and> SignalingVoltage x = SdSignalingVoltage18 \<and> \<not> CardPowerControlSupported x)
           in case (if ask then sendStatus x else (STATUS_IO_DEVICE_ERROR, x)) of (cardStatus, x) \<Rightarrow>
              if ask \<and> NT_SUCCESS cardStatus then (STATUS_SUCCESS, x)
              else let x = (if switch18v then clock_gate False (MshcEnableGlobalInterrupt False x) else x);
                       x = signaling_regulator switch18v x
                   in case (case setSignaling of Some f \<Rightarrow> f voltage x | None \<Rightarrow> (STATUS_SUCCESS, x)) of (status, x) \<Rightarrow>
                      case (if switch18v \<and> NT_SUCCESS status then voltage_check status x else (status, x)) of (status, x) \<Rightarrow>
                      let x = (if switch18v then MshcEnableGlobalInterrupt True x else x)
                      in (status, if NT_SUCCESS status then x\<lparr>SignalingVoltage := voltage\<rparr> else x))"

definition MshcExecuteTuning :: "(MSHC_EXTENSION \<Rightarrow> NTSTATUS \<times> MSHC_EXTENSION) option \<Rightarrow> MSHC_EXTENSION \<Rightarrow> NTSTATUS \<times> MSHC_EXTENSION" where
  "MshcExecuteTuning executeTuning x =
     (let x = x\<lparr>TuningPerformed := False, DataCrcErrorsSinceLastTuning := 0\<rparr>
      in case (case executeTuning of Some f \<Rightarrow> f x | None \<Rightarrow> (STATUS_NOT_IMPLEMENTED, x)) of (status, x) \<Rightarrow>
         (status, x\<lparr>TuningPerformed := NT_SUCCESS status\<rparr>))"

end
