(* ===== verification/MshcIdmac.thy ===== *)
theory MshcIdmac imports MshcEvents begin

text \<open>
  The descriptor table of the internal DMA controller (MshcCreateIdmacDescriptorTable in dwcmshc.cpp), and
  what the controller transfers from it.
\<close>

section \<open>Descriptors\<close>

record MSHC_IDMAC_DESCRIPTOR =
  Des0 :: u32
  Des1 :: u32
  Des2 :: u32
  Des3 :: u32

definition MSHC_IDMAC_DES0_OWN :: u32 where "MSHC_IDMAC_DES0_OWN = push_bit 31 1"
definition MSHC_IDMAC_DES0_ER :: u32 where "MSHC_IDMAC_DES0_ER = push_bit 5 1"
definition MSHC_IDMAC_DES0_FS :: u32 where "MSHC_IDMAC_DES0_FS = push_bit 3 1"
definition MSHC_IDMAC_DES0_LD :: u32 where "MSHC_IDMAC_DES0_LD = push_bit 2 1"
definition MSHC_IDMAC_DES0_DIC :: u32 where "MSHC_IDMAC_DES0_DIC = push_bit 1 1"
definition MSHC_IDMAC_DES1_BS1_SHIFT :: nat where "MSHC_IDMAC_DES1_BS1_SHIFT = 0"
definition MSHC_IDMAC_DES1_BS1_MASK :: u32 where "MSHC_IDMAC_DES1_BS1_MASK = push_bit 0 0x1fff"

lemmas des0_bits = MSHC_IDMAC_DES0_OWN_def MSHC_IDMAC_DES0_ER_def MSHC_IDMAC_DES0_FS_def MSHC_IDMAC_DES0_LD_def MSHC_IDMAC_DES0_DIC_def

section \<open>Building the table\<close>

text \<open>The inner loop: the descriptors of one element from its remaining length and address on.\<close>

definition idmac_descriptor :: "u32 \<Rightarrow> u64 \<Rightarrow> MSHC_IDMAC_DESCRIPTOR" where
  "idmac_descriptor nextLength nextAddress =
     \<lparr>Des0 = MSHC_IDMAC_DES0_OWN OR MSHC_IDMAC_DES0_DIC,
      Des1 = push_bit MSHC_IDMAC_DES1_BS1_SHIFT nextLength AND MSHC_IDMAC_DES1_BS1_MASK,
      Des2 = ucast nextAddress, Des3 = 0\<rparr>"

lemma next_length: "remaining \<noteq> 0 \<Longrightarrow> unat (remaining - ULONG_MIN MSHC_IDMAC_MAX_LENGTH_PER_ENTRY remaining) < unat remaining"
proof -
  let ?n = "ULONG_MIN MSHC_IDMAC_MAX_LENGTH_PER_ENTRY remaining"
  assume r: "remaining \<noteq> 0"
  have "?n \<le> remaining" "?n \<noteq> 0"
    using r by (auto simp: ULONG_MIN_def MSHC_IDMAC_MAX_LENGTH_PER_ENTRY_def not_less)
  then show ?thesis using r by (simp add: unat_sub word_le_nat_alt unat_gt_0)
qed

function idmac_element :: "u32 \<Rightarrow> u64 \<Rightarrow> MSHC_IDMAC_DESCRIPTOR list" where
  "idmac_element remainingLength nextAddress =
     (if remainingLength = 0 then []
      else let nextLength = ULONG_MIN MSHC_IDMAC_MAX_LENGTH_PER_ENTRY remainingLength
           in idmac_descriptor nextLength nextAddress
              # idmac_element (remainingLength - nextLength) (nextAddress + ucast nextLength))"
  by pat_completeness auto
termination
  by (relation "measure (\<lambda>(r, a). unat r)") (simp_all add: next_length)

declare idmac_element.simps [simp del]

text \<open>The outer loop over the elements of the list.\<close>

fun idmac_elements :: "(u64 \<times> u32) list \<Rightarrow> MSHC_IDMAC_DESCRIPTOR list" where
  "idmac_elements [] = []"
| "idmac_elements ((address, len) # es) = idmac_element len address @ idmac_elements es"

text \<open>Marking the first descriptor and then the last one.\<close>

definition idmac_mark :: "MSHC_IDMAC_DESCRIPTOR list \<Rightarrow> MSHC_IDMAC_DESCRIPTOR list" where
  "idmac_mark ds =
     (let ds = ds[0 := (ds ! 0)\<lparr>Des0 := Des0 (ds ! 0) OR MSHC_IDMAC_DES0_FS\<rparr>];
          n = length ds - 1;
          ds = ds[n := (ds ! n)\<lparr>Des0 := Des0 (ds ! n) OR (MSHC_IDMAC_DES0_ER OR MSHC_IDMAC_DES0_LD)\<rparr>]
      in ds[n := (ds ! n)\<lparr>Des0 := Des0 (ds ! n) AND NOT MSHC_IDMAC_DES0_DIC\<rparr>])"

text \<open>
  The table of a request. \<open>None\<close> when there is no descriptor to mark: the code asserts that there is one, and
  writes in front of the table otherwise.
\<close>

definition MshcCreateIdmacDescriptorTable :: "SDPORT_REQUEST \<Rightarrow> MSHC_IDMAC_DESCRIPTOR list option" where
  "MshcCreateIdmacDescriptorTable request =
     (let ds = idmac_elements (Elements request) in if ds = [] then None else Some (idmac_mark ds))"

section \<open>The controller\<close>

text \<open>
  The controller fetches descriptors in order from the start of the table and transfers the bytes of each
  one's buffer, until one is marked as the last; it stops at a descriptor it does not own.
\<close>

definition idmac_bytes :: "MSHC_IDMAC_DESCRIPTOR \<Rightarrow> nat list" where
  "idmac_bytes d = [unat (Des2 d)..<unat (Des2 d) + unat (Des1 d AND MSHC_IDMAC_DES1_BS1_MASK)]"

fun idmac_run :: "MSHC_IDMAC_DESCRIPTOR list \<Rightarrow> nat list option" where
  "idmac_run [] = None"
| "idmac_run (d # ds) =
     (if \<not> has (Des0 d) MSHC_IDMAC_DES0_OWN then None
      else if has (Des0 d) MSHC_IDMAC_DES0_LD then Some (idmac_bytes d)
      else map_option (\<lambda>bs. idmac_bytes d @ bs) (idmac_run ds))"

text \<open>The bytes of a scatter-gather list in order.\<close>

definition sg_bytes :: "(u64 \<times> u32) list \<Rightarrow> nat list" where
  "sg_bytes es = concat (map (\<lambda>(a, l). [unat a..<unat a + unat l]) es)"

definition sg_ok :: "(u64 \<times> u32) list \<Rightarrow> bool" where
  "sg_ok es \<longleftrightarrow> es \<noteq> [] \<and> (\<forall>(a, l) \<in> set es. l \<noteq> 0 \<and> unat a + unat l \<le> 2 ^ 32)"

section \<open>The table covers the list\<close>

definition plain_descriptor :: "MSHC_IDMAC_DESCRIPTOR \<Rightarrow> bool" where
  "plain_descriptor d \<longleftrightarrow> Des0 d = MSHC_IDMAC_DES0_OWN OR MSHC_IDMAC_DES0_DIC \<and> Des3 d = 0 \<and> unat (Des1 d) \<le> 4096 \<and> Des1 d \<noteq> 0"

lemma next_length_nat:
  "unat (ULONG_MIN MSHC_IDMAC_MAX_LENGTH_PER_ENTRY r) = min 4096 (unat r)"
  by (simp add: ULONG_MIN_def MSHC_IDMAC_MAX_LENGTH_PER_ENTRY_def min_def word_less_nat_alt)

lemma bs1_small:
  assumes "unat n \<le> 4096"
  shows "push_bit MSHC_IDMAC_DES1_BS1_SHIFT n AND MSHC_IDMAC_DES1_BS1_MASK = n"
proof -
  have "(0x1fff :: u32) = mask 13" by (simp add: mask_numeral)
  then have "n AND 0x1fff = take_bit 13 n" by (simp add: take_bit_eq_mask)
  also have "\<dots> = n" using assms by (simp add: word_unat_eq_iff unat_take_bit_small)
  finally show ?thesis by (simp add: MSHC_IDMAC_DES1_BS1_SHIFT_def MSHC_IDMAC_DES1_BS1_MASK_def)
qed

lemma idmac_element_covers:
  assumes "unat a + unat l \<le> 2 ^ 32"
  shows "list_all plain_descriptor (idmac_element l a) \<and> concat (map idmac_bytes (idmac_element l a)) = [unat a..<unat a + unat l]
    \<and> (l \<noteq> 0 \<longrightarrow> idmac_element l a \<noteq> [])"
  using assms
proof (induction l a rule: idmac_element.induct)
  case (1 l a)
  show ?case
  proof (cases "l = 0")
    case True
    then show ?thesis by (simp add: idmac_element.simps)
  next
    case False
    define n where "n = ULONG_MIN MSHC_IDMAC_MAX_LENGTH_PER_ENTRY l"
    have n: "unat n = min 4096 (unat l)" unfolding n_def by (rule next_length_nat)
    have rest: "unat (l - n) = unat l - unat n" by (rule unat_sub) (simp add: word_le_nat_alt n)
    have n64: "unat (ucast n :: u64) = unat n" by (simp add: unat_ucast_widen)
    have addr: "unat (a + ucast n) = unat a + unat n"
    proof -
      have "unat a + unat n < 2 ^ 64" using "1.prems" n by simp
      then show ?thesis by (simp add: unat_word_ariths(1) n64)
    qed
    have e: "idmac_element l a = idmac_descriptor n a # idmac_element (l - n) (a + ucast n)"
      using False by (simp add: idmac_element.simps [of l] n_def Let_def)
    have IH: "list_all plain_descriptor (idmac_element (l - n) (a + ucast n))"
      "concat (map idmac_bytes (idmac_element (l - n) (a + ucast n))) = [unat a + unat n..<unat a + unat l]"
      using "1.IH" [OF False refl] "1.prems" n unfolding n_def [symmetric] rest addr by simp_all
    have d1: "Des1 (idmac_descriptor n a) = n" using n by (simp add: idmac_descriptor_def bs1_small)
    have n0: "n \<noteq> 0" using n False by (auto simp: unat_eq_0 min_def split: if_splits)
    have lt: "unat a < 2 ^ 32" using "1.prems" False unat_gt_0 [of l] by linarith
    have d2: "unat (Des2 (idmac_descriptor n a)) = unat a"
      using lt by (simp add: idmac_descriptor_def unsigned_ucast_eq take_bit_nat_eq_self)
    have "n AND MSHC_IDMAC_DES1_BS1_MASK = n" using bs1_small [of n] n by (simp add: MSHC_IDMAC_DES1_BS1_SHIFT_def)
    then have b: "idmac_bytes (idmac_descriptor n a) = [unat a..<unat a + unat n]" by (simp add: idmac_bytes_def d1 d2)
    have "plain_descriptor (idmac_descriptor n a)"
      using d1 n n0 by (simp add: plain_descriptor_def) (simp add: idmac_descriptor_def)
    moreover have "[unat a..<unat a + unat n] @ [unat a + unat n..<unat a + unat l] = [unat a..<unat a + unat l]"
      using upt_add_eq_append [of "unat a" "unat a + unat n" "unat l - unat n"] n by simp
    ultimately show ?thesis unfolding e by (simp add: IH b)
  qed
qed

lemma idmac_elements_cover:
  assumes "\<forall>(a, l) \<in> set es. l \<noteq> 0 \<and> unat a + unat l \<le> 2 ^ 32"
  shows "list_all plain_descriptor (idmac_elements es) \<and> concat (map idmac_bytes (idmac_elements es)) = sg_bytes es
    \<and> (es \<noteq> [] \<longrightarrow> idmac_elements es \<noteq> [])"
  using assms
proof (induction es)
  case Nil
  then show ?case by (simp add: sg_bytes_def)
next
  case (Cons e es)
  obtain a l where e: "e = (a, l)" by fastforce
  have "unat a + unat l \<le> 2 ^ 32" "l \<noteq> 0" using Cons.prems e by auto
  from idmac_element_covers [OF this(1)] this(2) Cons show ?case unfolding e by (simp add: sg_bytes_def)
qed

lemma idmac_run_marked:
  assumes "ds \<noteq> []" "\<forall>i < length ds. has (Des0 (ds ! i)) MSHC_IDMAC_DES0_OWN \<and> has (Des0 (ds ! i)) MSHC_IDMAC_DES0_LD = (Suc i = length ds)"
  shows "idmac_run ds = Some (concat (map idmac_bytes ds))"
  using assms
proof (induction ds)
  case (Cons d ds)
  have d: "has (Des0 d) MSHC_IDMAC_DES0_OWN" "has (Des0 d) MSHC_IDMAC_DES0_LD = (ds = [])"
    using Cons.prems(2)[rule_format, of 0] by simp_all
  show ?case
  proof (cases "ds = []")
    case False
    have "\<forall>i < length ds. has (Des0 (ds ! i)) MSHC_IDMAC_DES0_OWN \<and> has (Des0 (ds ! i)) MSHC_IDMAC_DES0_LD = (Suc i = length ds)"
      using Cons.prems(2) by (metis Suc_inject Suc_mono length_Cons nth_Cons_Suc)
    from Cons.IH [OF False this] d False show ?thesis by simp
  qed (use d in simp)
qed simp

text \<open>What marking does: the list is unchanged but for the flags of its first and last member.\<close>

definition marked_des0 :: "bool \<Rightarrow> bool \<Rightarrow> u32 \<Rightarrow> u32" where
  "marked_des0 is_first is_last v =
     (let v = (if is_first then v OR MSHC_IDMAC_DES0_FS else v)
      in if is_last then (v OR (MSHC_IDMAC_DES0_ER OR MSHC_IDMAC_DES0_LD)) AND NOT MSHC_IDMAC_DES0_DIC else v)"

lemma idmac_mark_nth:
  "length (idmac_mark ds) = length ds"
  "i < length ds \<Longrightarrow> idmac_mark ds ! i = (ds ! i)\<lparr>Des0 := marked_des0 (i = 0) (Suc i = length ds) (Des0 (ds ! i))\<rparr>"
  by (auto simp: idmac_mark_def Let_def marked_des0_def nth_list_update)

lemma marked_flags [simp]:
  "has (marked_des0 f l (MSHC_IDMAC_DES0_OWN OR MSHC_IDMAC_DES0_DIC)) MSHC_IDMAC_DES0_OWN"
  "has (marked_des0 f l (MSHC_IDMAC_DES0_OWN OR MSHC_IDMAC_DES0_DIC)) MSHC_IDMAC_DES0_FS = f"
  "has (marked_des0 f l (MSHC_IDMAC_DES0_OWN OR MSHC_IDMAC_DES0_DIC)) MSHC_IDMAC_DES0_LD = l"
  "has (marked_des0 f l (MSHC_IDMAC_DES0_OWN OR MSHC_IDMAC_DES0_DIC)) MSHC_IDMAC_DES0_DIC = (\<not> l)"
  by (cases f; cases l; simp add: marked_des0_def has_def des0_bits)+

text \<open>C23: The controller transfers exactly the scatter-gather list of a request: from the descriptor table of a
  list whose elements are not empty and lie below 4 GB, it fetches the bytes of every element in order and
  stops behind the last one. No descriptor covers more than 4096 bytes or none, every one belongs to the
  controller, the first and only the first is marked as first, the last and only the last as last, and
  only the last one raises the completion interrupt.
\<close>

theorem idmac_table_covers:
  assumes "sg_ok (Elements request)"
  shows "\<exists>ds. MshcCreateIdmacDescriptorTable request = Some ds \<and> idmac_run ds = Some (sg_bytes (Elements request)) \<and>
    (\<forall>i < length ds. let d = ds ! i in
       has (Des0 d) MSHC_IDMAC_DES0_OWN \<and> Des1 d \<noteq> 0 \<and> unat (Des1 d) \<le> 4096 \<and>
       has (Des0 d) MSHC_IDMAC_DES0_FS = (i = 0) \<and> has (Des0 d) MSHC_IDMAC_DES0_LD = (Suc i = length ds) \<and>
       has (Des0 d) MSHC_IDMAC_DES0_DIC = (Suc i \<noteq> length ds))"
proof -
  define ds where "ds = idmac_elements (Elements request)"
  have c: "list_all plain_descriptor ds" "concat (map idmac_bytes ds) = sg_bytes (Elements request)" "ds \<noteq> []"
    using idmac_elements_cover [of "Elements request"] assms unfolding ds_def sg_ok_def by blast+
  have t: "MshcCreateIdmacDescriptorTable request = Some (idmac_mark ds)"
    using c(3) by (simp add: MshcCreateIdmacDescriptorTable_def ds_def)
  have p: "Des0 (ds ! i) = MSHC_IDMAC_DES0_OWN OR MSHC_IDMAC_DES0_DIC" "Des1 (ds ! i) \<noteq> 0" "unat (Des1 (ds ! i)) \<le> 4096" if "i < length ds" for i
    using c(1) that by (simp_all add: list_all_length plain_descriptor_def)
  have each: "\<forall>i < length (idmac_mark ds). let d = idmac_mark ds ! i in
       has (Des0 d) MSHC_IDMAC_DES0_OWN \<and> Des1 d \<noteq> 0 \<and> unat (Des1 d) \<le> 4096 \<and>
       has (Des0 d) MSHC_IDMAC_DES0_FS = (i = 0) \<and> has (Des0 d) MSHC_IDMAC_DES0_LD = (Suc i = length (idmac_mark ds)) \<and>
       has (Des0 d) MSHC_IDMAC_DES0_DIC = (Suc i \<noteq> length (idmac_mark ds))"
    by (simp add: idmac_mark_nth p Let_def)
  have "map idmac_bytes (idmac_mark ds) = map idmac_bytes ds"
    by (rule nth_equalityI) (simp_all add: idmac_mark_nth idmac_bytes_def)
  moreover have "idmac_mark ds \<noteq> []" using c(3) idmac_mark_nth(1) [of ds] by force
  ultimately have run: "idmac_run (idmac_mark ds) = Some (concat (map idmac_bytes ds))"
    using idmac_run_marked [of "idmac_mark ds"] each by (simp add: Let_def)
  show ?thesis using t run each c(2) by auto
qed

definition demo_sg :: SDPORT_REQUEST where
  "demo_sg = \<lparr>reqType = SdRequestTypeCommandWithTransfer, cmdIndex = 18, Argument = 0, ResponseType = SdResponseTypeR1,
     TransferType = SdTransferTypeMultiBlock, TransferDirection = SdTransferDirectionRead, TransferMethod = SdTransferMethodSgDma,
     UseAutoCmd12 = True, BlockCount = 11, BlockSize = 512, Length = 5632, DmaPhysicalAddress = 0,
     Elements = [(0x1000, 0x1200), (0x8000, 0x400)], DataBuffer = (\<lambda>n. 0), DataOffset = 0, RequiredEvents = 0, reqStatus = STATUS_SUCCESS\<rparr>"

theorem idmac_table_covers_witness:
  "\<exists>ds. MshcCreateIdmacDescriptorTable demo_sg = Some ds \<and> idmac_run ds = Some ([0x1000..<0x2200] @ [0x8000..<0x8400])"
proof -
  have "sg_ok (Elements demo_sg)" by (simp add: sg_ok_def demo_sg_def)
  from idmac_table_covers [OF this] have "\<exists>ds. MshcCreateIdmacDescriptorTable demo_sg = Some ds \<and> idmac_run ds = Some (sg_bytes (Elements demo_sg))"
    by blast
  then show ?thesis by (simp add: sg_bytes_def demo_sg_def del: upt_Suc upt_rec_numeral)
qed

end
