(* ===== verification/MshcRequest.thy ===== *)
theory MshcRequest imports MshcBus MshcIdmac begin

text \<open>
  Requests of the SD/MMC host driver (dwcmshc.cpp): issuing a command, PIO and DMA transfers, and the
  completion of requests from the deferred procedure call and the busy work item.

  A request is referred to by its number in the store. A result of \<open>None\<close> says that the routine does not
  return normally: it follows the outstanding request pointer while it is NULL, or the completion and the
  busy worker call each other more often than the fuel allows. \<open>dispatch\<close> says whether
  \<open>KeGetCurrentIrql()\<close> is \<open>DISPATCH_LEVEL\<close>.
\<close>

abbreviation change_request :: "nat \<Rightarrow> (SDPORT_REQUEST \<Rightarrow> SDPORT_REQUEST) \<Rightarrow> MSHC_EXTENSION \<Rightarrow> MSHC_EXTENSION" where
  "change_request r f x \<equiv> set_request r (f (requests x r)) x"

section \<open>Completion\<close>

text \<open>What follows the test for a busy card.\<close>

definition finish_request :: "nat \<Rightarrow> MSHC_EXTENSION \<Rightarrow> MSHC_EXTENSION" where
  "finish_request r x =
     (let status = reqStatus (requests x r);
          x = (if status = STATUS_SUCCESS \<or> status = STATUS_MORE_PROCESSING_REQUIRED then x\<lparr>OutstandingRequest := None\<rparr> else x)
      in case MshcIsCardInserted x of (inserted, x) \<Rightarrow>
         let x = (if inserted then x else change_request r (\<lambda>q. q\<lparr>reqStatus := STATUS_IO_DEVICE_ERROR\<rparr>) x)
         in if LocalRequestPending x then x\<lparr>LocalRequestPending := False\<rparr>
            else x\<lparr>completedRequests := completedRequests x @ [(r, reqStatus (requests x r))]\<rparr>)"

definition waits_for_card :: "SDPORT_REQUEST \<Rightarrow> bool" where
  "waits_for_card q \<longleftrightarrow> reqStatus q = STATUS_SUCCESS \<and> RequiredEvents q = 0 \<and>
     (ResponseType q = SdResponseTypeR1B \<or> ResponseType q = SdResponseTypeR5B \<or> TransferDirection q = SdTransferDirectionWrite)"

fun MshcCompleteRequest :: "nat \<Rightarrow> bool \<Rightarrow> nat \<Rightarrow> NTSTATUS \<Rightarrow> MSHC_EXTENSION \<Rightarrow> MSHC_EXTENSION option"
and MshcCompleteRequestBusyWorker :: "nat \<Rightarrow> bool \<Rightarrow> MSHC_EXTENSION \<Rightarrow> MSHC_EXTENSION option" where
  "MshcCompleteRequest 0 dispatch r status x = None"
| "MshcCompleteRequest (Suc n) dispatch r status x0 =
     (let x = change_request r (\<lambda>q. q\<lparr>reqStatus := status\<rparr>) x0
      in if \<not> waits_for_card (requests x r) then Some (finish_request r x)
         else case MshcIsDataBusy x of (busy, x) \<Rightarrow>
              if \<not> busy then Some (finish_request r x)
              else if busyWorkItem x \<and> dispatch then Some (x\<lparr>busyWorkQueued := True\<rparr>)
              else MshcCompleteRequestBusyWorker n dispatch x)"
| "MshcCompleteRequestBusyWorker n dispatch x =
     (case MshcWaitDataIdle x of (status, x) \<Rightarrow>
      case OutstandingRequest x of None \<Rightarrow> None | Some r \<Rightarrow> MshcCompleteRequest n dispatch r status x)"

text \<open>The work item runs at PASSIVE_LEVEL.\<close>

definition run_busy_work_item :: "nat \<Rightarrow> MSHC_EXTENSION \<Rightarrow> MSHC_EXTENSION option" where
  "run_busy_work_item n x = MshcCompleteRequestBusyWorker n False (x\<lparr>busyWorkQueued := False\<rparr>)"

section \<open>The deferred procedure call\<close>

definition MshcRequestDpc :: "nat \<Rightarrow> SDPORT_CODES \<Rightarrow> nat \<Rightarrow> u32 \<Rightarrow> u32 \<Rightarrow> MSHC_EXTENSION \<Rightarrow> MSHC_EXTENSION option" where
  "MshcRequestDpc n C r events errors0 x0 =
     (if events = 0 \<and> errors0 = 0 \<or> RequiredEvents (requests x0 r) = 0 then Some x0
      else let x = x0\<lparr>CurrentEvents := CurrentEvents x0 OR events, CurrentErrors := CurrentErrors x0 OR errors0\<rparr>
           in if OutstandingRequest x = None then Some x
              else let x = change_request r (\<lambda>q. q\<lparr>RequiredEvents := RequiredEvents q AND NOT events\<rparr>) x;
                       errors = CurrentErrors x
                   in if errors \<noteq> 0 then
                        (if has errors (SDPORT_ERROR_CMD_TIMEOUT C) \<and> \<not> has events (SDPORT_EVENT_CARD_RESPONSE C) \<or>
                            has errors (SDPORT_ERROR_DATA_TIMEOUT C) \<and> \<not> has events (SDPORT_EVENT_CARD_RW_END C)
                         then Some x
                         else let x = (if TuningPerformed x \<and> has errors (SDPORT_ERROR_DATA_CRC_ERROR C)
                                       then x\<lparr>DataCrcErrorsSinceLastTuning := DataCrcErrorsSinceLastTuning x + 1\<rparr> else x);
                                  status = MshcConvertStandardErrorToStatus C errors;
                                  x = change_request r (\<lambda>q. q\<lparr>RequiredEvents := 0, reqStatus := status\<rparr>)
                                        (x\<lparr>CurrentEvents := 0, CurrentErrors := 0\<rparr>)
                              in MshcCompleteRequest n True r status x)
                      else if RequiredEvents (requests x r) = 0 then
                        (let x = (if reqStatus (requests x r) \<noteq> STATUS_MORE_PROCESSING_REQUIRED
                                  then change_request r (\<lambda>q. q\<lparr>reqStatus := STATUS_SUCCESS\<rparr>) x else x)
                         in MshcCompleteRequest n True r (reqStatus (requests x r)) x)
                      else Some x)"

definition MshcLocalRequestDpc :: "nat \<Rightarrow> SDPORT_CODES \<Rightarrow> MSHC_EXTENSION \<Rightarrow> MSHC_EXTENSION option" where
  "MshcLocalRequestDpc n C x0 =
     (let x = x0\<lparr>localDpcQueued := False\<rparr>
      in case OutstandingRequest x of
           None \<Rightarrow> Some x
         | Some r \<Rightarrow> MshcRequestDpc n C r (CurrentEvents x) (CurrentErrors x) x)"

section \<open>Transfers\<close>

definition MshcSetTransferMode :: "SDPORT_REQUEST \<Rightarrow> MSHC_EXTENSION \<Rightarrow> MSHC_EXTENSION" where
  "MshcSetTransferMode q x =
     (let x = MshcWriteRegister MSHC_BLKSIZ (ucast (BlockSize q)) x;
          x = MshcWriteRegister MSHC_BYTCNT (ucast (BlockCount q) * ucast (BlockSize q)) x;
          fifoth = push_bit MSHC_FIFOTH_DMA_MULTIPLE_TRANSACTION_SIZE_SHIFT (FifoDmaBurstSize x) AND MSHC_FIFOTH_DMA_MULTIPLE_TRANSACTION_SIZE_MASK;
          fifoth = fifoth OR (push_bit MSHC_FIFOTH_RX_WMARK_SHIFT (FifoThreshold x - 1) AND MSHC_FIFOTH_RX_WMARK_MASK);
          fifoth = fifoth OR (push_bit MSHC_FIFOTH_TX_WMARK_SHIFT (FifoThreshold x) AND MSHC_FIFOTH_TX_WMARK_MASK)
      in MshcWriteRegister MSHC_FIFOTH fifoth x)"

definition MshcBuildPioTransfer :: "SDPORT_REQUEST \<Rightarrow> MSHC_EXTENSION \<Rightarrow> NTSTATUS \<times> MSHC_EXTENSION" where
  "MshcBuildPioTransfer q x =
     (let x = x\<lparr>FifoThreshold := ULONG_MIN (Length q div 4) (MSHC_OPTIMAL_FIFO_THRESHOLD (FifoDepth (platformCaps x))), FifoDmaBurstSize := 0\<rparr>;
          ctrl = MshcReadRegister MSHC_CTRL x;
          x = (if has ctrl MSHC_CTRL_USE_INTERNAL_DMAC
               then MshcWriteRegister MSHC_BMOD 0 (MshcWriteRegister MSHC_CTRL (ctrl AND NOT MSHC_CTRL_USE_INTERNAL_DMAC) x) else x)
      in (STATUS_SUCCESS, MshcSetTransferMode q x))"

text \<open>\<open>None\<close> when the table has no descriptor, see \<open>MshcCreateIdmacDescriptorTable\<close>.\<close>

definition MshcBuildDmaTransfer :: "SDPORT_REQUEST \<Rightarrow> MSHC_EXTENSION \<Rightarrow> (NTSTATUS \<times> MSHC_EXTENSION) option" where
  "MshcBuildDmaTransfer q x =
     (let x = x\<lparr>FifoThreshold := MSHC_OPTIMAL_FIFO_THRESHOLD (FifoDepth (platformCaps x)), FifoDmaBurstSize := 2\<rparr>;
          x = MshcSetTransferMode q x
      in case MshcCreateIdmacDescriptorTable q of
           None \<Rightarrow> None
         | Some ds \<Rightarrow>
             let x = MshcWriteRegister MSHC_DBADDR (ucast (DmaPhysicalAddress q)) x;
                 x = MshcWriteRegister MSHC_CTRL (MshcReadRegister MSHC_CTRL x OR MSHC_CTRL_USE_INTERNAL_DMAC) x
             in Some (STATUS_SUCCESS, MshcWriteRegister MSHC_BMOD (MSHC_BMOD_DE OR MSHC_BMOD_FB) x))"

definition MshcBuildTransfer :: "SDPORT_REQUEST \<Rightarrow> MSHC_EXTENSION \<Rightarrow> (NTSTATUS \<times> MSHC_EXTENSION) option" where
  "MshcBuildTransfer q x0 =
     (let x = x0\<lparr>CurrentTransferRemainingLength := Length q\<rparr>
      in case TransferMethod q of
           SdTransferMethodPio \<Rightarrow> Some (MshcBuildPioTransfer q x)
         | SdTransferMethodSgDma \<Rightarrow> MshcBuildDmaTransfer q x
         | _ \<Rightarrow> Some (STATUS_NOT_SUPPORTED, x))"

text \<open>The data port: \<open>n\<close> words to or from the buffer of request \<open>r\<close> from word \<open>pos\<close> on.\<close>

fun MshcReadDataPort :: "nat \<Rightarrow> nat \<Rightarrow> nat \<Rightarrow> MSHC_EXTENSION \<Rightarrow> MSHC_EXTENSION" where
  "MshcReadDataPort r pos 0 x = x"
| "MshcReadDataPort r pos (Suc n) x =
     (case MshcReadDevice MSHC_FIFO_BASE x of (v, x) \<Rightarrow>
        MshcReadDataPort r (Suc pos) n (change_request r (\<lambda>q. q\<lparr>DataBuffer := (DataBuffer q)(pos := v)\<rparr>) x))"

fun MshcWriteDataPort :: "nat \<Rightarrow> nat \<Rightarrow> nat \<Rightarrow> MSHC_EXTENSION \<Rightarrow> MSHC_EXTENSION" where
  "MshcWriteDataPort r pos 0 x = x"
| "MshcWriteDataPort r pos (Suc n) x =
     MshcWriteDataPort r (Suc pos) n (MshcWriteRegister MSHC_FIFO_BASE (DataBuffer (requests x r) pos) x)"

definition buffer_event :: "SDPORT_CODES \<Rightarrow> SDPORT_REQUEST \<Rightarrow> u32" where
  "buffer_event C q = (if TransferDirection q = SdTransferDirectionRead then SDPORT_EVENT_BUFFER_FULL C else SDPORT_EVENT_BUFFER_EMPTY C)"

definition MshcStartPioTransfer :: "nat \<Rightarrow> bool \<Rightarrow> SDPORT_CODES \<Rightarrow> bool \<Rightarrow> nat \<Rightarrow> MSHC_EXTENSION \<Rightarrow> (NTSTATUS \<times> MSHC_EXTENSION) option" where
  "MshcStartPioTransfer n dispatch C crashdump r x0 =
     (let currentEvents = CurrentEvents x0;
          x = x0\<lparr>CurrentEvents := 0\<rparr>;
          subTransferLength = FifoThreshold x * 4;
          q = requests x r;
          x = (if TransferDirection q = SdTransferDirectionRead
               then MshcReadDataPort r (DataOffset q div 4) (unat (FifoThreshold x)) x
               else MshcWriteDataPort r (DataOffset q div 4) (unat (FifoThreshold x)) x);
          x = (if crashdump then x else MshcAcknowledgeInterrupts (MSHC_INT_RXDR OR MSHC_INT_TXDR) 0 x);
          x = x\<lparr>CurrentTransferRemainingLength := CurrentTransferRemainingLength x - subTransferLength\<rparr>
      in if CurrentTransferRemainingLength x > 0 then
           Some (STATUS_PENDING,
             MshcEnableInterrupts (MSHC_INT_RXDR OR MSHC_INT_TXDR) 0
               (change_request r (\<lambda>q. q\<lparr>DataOffset := DataOffset q + unat subTransferLength,
                  RequiredEvents := RequiredEvents q OR buffer_event C q, reqStatus := STATUS_MORE_PROCESSING_REQUIRED\<rparr>) x))
         else let x = change_request r (\<lambda>q. q\<lparr>reqStatus := STATUS_SUCCESS\<rparr>) x
              in if has currentEvents (SDPORT_EVENT_CARD_RW_END C)
                 then map_option (Pair STATUS_PENDING) (MshcCompleteRequest n dispatch r STATUS_SUCCESS x)
                 else Some (STATUS_PENDING,
                   change_request r (\<lambda>q. q\<lparr>RequiredEvents := RequiredEvents q OR SDPORT_EVENT_CARD_RW_END C\<rparr>) x))"

definition MshcStartDmaTransfer :: "nat \<Rightarrow> bool \<Rightarrow> nat \<Rightarrow> MSHC_EXTENSION \<Rightarrow> (NTSTATUS \<times> MSHC_EXTENSION) option" where
  "MshcStartDmaTransfer n dispatch r x =
     map_option (Pair STATUS_SUCCESS)
       (MshcCompleteRequest n dispatch r STATUS_SUCCESS
         (change_request r (\<lambda>q. q\<lparr>reqStatus := STATUS_SUCCESS\<rparr>) (x\<lparr>CurrentTransferRemainingLength := 0\<rparr>)))"

definition MshcStartTransfer :: "nat \<Rightarrow> bool \<Rightarrow> SDPORT_CODES \<Rightarrow> bool \<Rightarrow> nat \<Rightarrow> MSHC_EXTENSION \<Rightarrow> (NTSTATUS \<times> MSHC_EXTENSION) option" where
  "MshcStartTransfer n dispatch C crashdump r x =
     (case TransferMethod (requests x r) of
        SdTransferMethodPio \<Rightarrow> MshcStartPioTransfer n dispatch C crashdump r x
      | SdTransferMethodSgDma \<Rightarrow> MshcStartDmaTransfer n dispatch r x
      | _ \<Rightarrow> Some (STATUS_NOT_SUPPORTED, x))"

section \<open>Commands\<close>

fun response_bits :: "SDPORT_RESPONSE_TYPE \<Rightarrow> u32 option" where
  "response_bits SdResponseTypeNone = Some 0"
| "response_bits SdResponseTypeR1 = Some (MSHC_CMD_RESPONSE_EXPECT OR MSHC_CMD_CHECK_RESPONSE_CRC)"
| "response_bits SdResponseTypeR5 = Some (MSHC_CMD_RESPONSE_EXPECT OR MSHC_CMD_CHECK_RESPONSE_CRC)"
| "response_bits SdResponseTypeR6 = Some (MSHC_CMD_RESPONSE_EXPECT OR MSHC_CMD_CHECK_RESPONSE_CRC)"
| "response_bits SdResponseTypeR1B = Some (MSHC_CMD_RESPONSE_EXPECT OR MSHC_CMD_CHECK_RESPONSE_CRC)"
| "response_bits SdResponseTypeR5B = Some (MSHC_CMD_RESPONSE_EXPECT OR MSHC_CMD_CHECK_RESPONSE_CRC)"
| "response_bits SdResponseTypeR2 = Some (MSHC_CMD_RESPONSE_EXPECT OR MSHC_CMD_CHECK_RESPONSE_CRC OR MSHC_CMD_RESPONSE_LENGTH)"
| "response_bits SdResponseTypeR3 = Some MSHC_CMD_RESPONSE_EXPECT"
| "response_bits SdResponseTypeR4 = Some MSHC_CMD_RESPONSE_EXPECT"
| "response_bits SdResponseTypeUndefined = None"

definition has_transfer :: "SDPORT_REQUEST \<Rightarrow> bool" where
  "has_transfer q \<longleftrightarrow> TransferType q \<noteq> SdTransferTypeNone \<and> TransferType q \<noteq> SdTransferTypeUndefined"

text \<open>The command register for a request whose response type sets \<open>response\<close>, up to the initialization bit.\<close>

definition command_word :: "SDPORT_CODES \<Rightarrow> SDPORT_REQUEST \<Rightarrow> u32 \<Rightarrow> u32" where
  "command_word C q response =
     (let cmd = push_bit MSHC_CMD_INDEX_SHIFT (ucast (cmdIndex q)) AND MSHC_CMD_INDEX_MASK;
          cmd = cmd OR MSHC_CMD_START_CMD;
          cmd = cmd OR response;
          cmd = or_if (cmdIndex q \<in> {SDCMD_GO_IDLE_STATE, SDCMD_STOP_TRANSMISSION, SDCMD_GO_INACTIVE_STATE, SDCMD_IO_RW_DIRECT C})
                  MSHC_CMD_STOP_ABORT_CMD cmd;
          cmd = or_if (cmdIndex q = SDCMD_VOLTAGE_SWITCH) MSHC_CMD_VOLT_SWITCH cmd;
          cmd = or_if (has_transfer q) (MSHC_CMD_DATA_EXPECTED OR MSHC_CMD_WAIT_PRVDATA_COMPLETE) cmd;
          cmd = or_if (has_transfer q \<and> TransferDirection q = SdTransferDirectionWrite) MSHC_CMD_WR cmd;
          cmd = or_if (has_transfer q \<and> UseAutoCmd12 q \<and> TransferType q = SdTransferTypeMultiBlock) MSHC_CMD_SEND_AUTO_STOP cmd
      in cmd OR MSHC_CMD_USE_HOLD_REG)"

definition required_events :: "SDPORT_CODES \<Rightarrow> SDPORT_REQUEST \<Rightarrow> u32" where
  "required_events C q =
     (let events = SDPORT_EVENT_CARD_RESPONSE C
      in if TransferMethod q = SdTransferMethodSgDma then events OR SDPORT_EVENT_CARD_RW_END C
         else if TransferMethod q = SdTransferMethodPio then events OR buffer_event C q
         else events)"

definition send_command :: "SDPORT_CODES \<Rightarrow> nat \<Rightarrow> u32 \<Rightarrow> MSHC_EXTENSION \<Rightarrow> MSHC_EXTENSION" where
  "send_command C r response x =
     (let q = requests x r;
          x = (if cmdIndex q = SDCMD_VOLTAGE_SWITCH
               then snd (MshcCiuUpdateClock 0
                      (MshcWriteRegister MSHC_CLKENA (MshcReadRegister MSHC_CLKENA x AND NOT (MSHC_CLKENA_CCLK_LOW_POWER (SlotId x))) x))
               else x);
          cmd = or_if (\<not> CardInitialized x) MSHC_CMD_SEND_INITIALIZATION (command_word C q response);
          x = x\<lparr>CardInitialized := True, CurrentEvents := 0, CurrentErrors := 0\<rparr>;
          x = change_request r (\<lambda>q. q\<lparr>RequiredEvents := required_events C q\<rparr>) x;
          x = (if TransferMethod q = SdTransferMethodPio then MshcEnableInterrupts (MSHC_INT_RXDR OR MSHC_INT_TXDR) 0 x else x)
      in MshcWriteRegister MSHC_CMD cmd (MshcWriteRegister MSHC_CMDARG (Argument q) x))"

definition MshcSendCommand :: "SDPORT_CODES \<Rightarrow> nat \<Rightarrow> MSHC_EXTENSION \<Rightarrow> (NTSTATUS \<times> MSHC_EXTENSION) option" where
  "MshcSendCommand C r x =
     (case (if has_transfer (requests x r) then MshcBuildTransfer (requests x r) x else Some (STATUS_SUCCESS, x)) of
        None \<Rightarrow> None
      | Some (status, x) \<Rightarrow>
          if \<not> NT_SUCCESS status then Some (status, x)
          else case response_bits (ResponseType (requests x r)) of
                 None \<Rightarrow> Some (STATUS_INVALID_PARAMETER, x)
               | Some response \<Rightarrow> Some (STATUS_PENDING, send_command C r response x))"

definition MshcSlotIssueRequest :: "nat \<Rightarrow> bool \<Rightarrow> SDPORT_CODES \<Rightarrow> bool \<Rightarrow> nat \<Rightarrow> MSHC_EXTENSION \<Rightarrow> (NTSTATUS \<times> MSHC_EXTENSION) option" where
  "MshcSlotIssueRequest n dispatch C crashdump r x0 =
     (let x = x0\<lparr>OutstandingRequest := Some r\<rparr>
      in case reqType (requests x r) of
           SdRequestTypeCommandNoTransfer \<Rightarrow> MshcSendCommand C r x
         | SdRequestTypeCommandWithTransfer \<Rightarrow> MshcSendCommand C r x
         | SdRequestTypeStartTransfer \<Rightarrow> MshcStartTransfer n dispatch C crashdump r x
         | _ \<Rightarrow> Some (STATUS_NOT_SUPPORTED, x))"

section \<open>Responses\<close>

text \<open>
  The response of a command as the bytes of the caller's 16-byte buffer, which is \<open>old\<close> before. The
  136-bit response is moved by one byte, which drops its checksum.
\<close>

definition word_bytes :: "u32 \<Rightarrow> u8 list" where
  "word_bytes w = map (\<lambda>i. ucast (drop_bit (8 * i) w)) [0..<4]"

definition short_response :: "u8 list \<Rightarrow> MSHC_EXTENSION \<Rightarrow> u8 list \<times> MSHC_EXTENSION" where
  "short_response old x = (case MshcReadDevice MSHC_RESP0 x of (v, x) \<Rightarrow> (word_bytes v @ drop 4 old, x))"

definition long_response :: "u8 list \<Rightarrow> MSHC_EXTENSION \<Rightarrow> u8 list \<times> MSHC_EXTENSION" where
  "long_response old x =
     (case MshcReadDevice MSHC_RESP0 x of (r0, x) \<Rightarrow>
      case MshcReadDevice MSHC_RESP1 x of (r1, x) \<Rightarrow>
      case MshcReadDevice MSHC_RESP2 x of (r2, x) \<Rightarrow>
      case MshcReadDevice MSHC_RESP3 x of (r3, x) \<Rightarrow>
        (drop 1 (concat (map word_bytes [r0, r1, r2, r3])) @ drop 15 old, x))"

definition MshcSlotGetResponse :: "SDPORT_REQUEST \<Rightarrow> u8 list \<Rightarrow> MSHC_EXTENSION \<Rightarrow> u8 list \<times> MSHC_EXTENSION" where
  "MshcSlotGetResponse q old x =
     (let clear = word_bytes 0 @ drop 4 old
      in case (case ResponseType q of
                 SdResponseTypeR2 \<Rightarrow> long_response clear x
               | SdResponseTypeNone \<Rightarrow> (clear, x)
               | SdResponseTypeUndefined \<Rightarrow> (clear, x)
               | _ \<Rightarrow> short_response clear x) of (response, x) \<Rightarrow>
         (response,
          if cmdIndex q = SDCMD_SEND_RELATIVE_ADDR
          then x\<lparr>CardRca := ucast (response ! 2) OR push_bit 8 (ucast (response ! 3))\<rparr> else x))"

end
