(* ===== verification/MshcHost.thy ===== *)
theory MshcHost imports MshcRequest begin

text \<open>
  The host operations of the SD/MMC host driver (dwcmshc.cpp) that issue commands of their own: requests
  issued by the driver and waited for (\<open>MshcIssueRequestSynchronously\<close>), the stop, status and tuning
  commands, resetting the host, and the dispatch of the port driver's bus operations.

  These call each other in a circle: a local request that fails resets the host, resetting the host sends a
  stop or a status command, and may tune again, which sends tuning commands. Each routine takes the reset
  (\<open>reset\<close>) as an argument, and \<open>MshcResetHost\<close> ties the knot with the depth of nested resets as fuel;
  theory MshcHostProofs shows that three levels are enough.
\<close>

section \<open>The environment\<close>

record MSHC_PLATFORM_OPERATIONS =
  opSetClock :: "set_clock_operation option"
  opSetVoltage :: "(SDPORT_BUS_VOLTAGE \<Rightarrow> MSHC_EXTENSION \<Rightarrow> NTSTATUS \<times> MSHC_EXTENSION) option"
  opSetSignalingVoltage :: "(SDPORT_SIGNALING_VOLTAGE \<Rightarrow> MSHC_EXTENSION \<Rightarrow> NTSTATUS \<times> MSHC_EXTENSION) option"
  opExecuteTuning :: "(tuning_command \<Rightarrow> MSHC_EXTENSION \<Rightarrow> NTSTATUS \<times> MSHC_EXTENSION) option"

text \<open>
  What the routines run in: the port driver's codes, the fuel for completing a request, \<open>gCrashdumpMode\<close>, the
  platform's operations, and what interrupts and deferred procedure calls do to the slot while the driver
  waits for \<open>PollWaitUs\<close> microseconds.
\<close>

record MSHC_ENVIRONMENT =
  envCodes :: SDPORT_CODES
  envFuel :: nat
  gCrashdumpMode :: bool
  envWait :: "MSHC_EXTENSION \<Rightarrow> MSHC_EXTENSION"
  PlatformOperations :: MSHC_PLATFORM_OPERATIONS

text \<open>A routine that may not return, as a step of one that goes on with its status.\<close>

definition returning :: "(NTSTATUS \<times> MSHC_EXTENSION) option \<Rightarrow> MSHC_EXTENSION \<Rightarrow> NTSTATUS \<times> MSHC_EXTENSION" where
  "returning result x = (case result of Some r \<Rightarrow> r | None \<Rightarrow> (STATUS_OTHER 0xC0000001, x\<lparr>hung := True\<rparr>))"

section \<open>Requests of the driver's own\<close>

definition PollWaitUs :: u32 where "PollWaitUs = 10"

text \<open>The interrupt and the deferred procedure call the crashdump stack has to run itself.\<close>

definition local_poll :: "MSHC_ENVIRONMENT \<Rightarrow> nat \<Rightarrow> MSHC_EXTENSION \<Rightarrow> MSHC_EXTENSION" where
  "local_poll E r x =
     (case MshcSlotInterrupt (envCodes E) (gCrashdumpMode E) x of ((handled, events, errors, cardChange), x) \<Rightarrow>
        if handled
        then snd (returning (map_option (Pair STATUS_SUCCESS) (MshcRequestDpc (envFuel E) (envCodes E) r events errors x)) x)
        else x)"

text \<open>The loop that waits for the completion; the result says whether it came in time.\<close>

fun local_wait :: "MSHC_ENVIRONMENT \<Rightarrow> nat \<Rightarrow> nat \<Rightarrow> MSHC_EXTENSION \<Rightarrow> bool \<times> MSHC_EXTENSION" where
  "local_wait E r 0 x = (False, x)"
| "local_wait E r (Suc retry) x0 =
     (let x = (if gCrashdumpMode E then local_poll E r x0 else x0)
      in if \<not> LocalRequestPending x then (True, x) else local_wait E r retry (envWait E x))"

type_synonym reset_operation = "SDPORT_RESET_TYPE \<Rightarrow> MSHC_EXTENSION \<Rightarrow> NTSTATUS \<times> MSHC_EXTENSION"

text \<open>\<open>MshcSlotIssueBusOperation\<close> for \<open>SdResetHost\<close>.\<close>

definition slot_reset :: "reset_operation \<Rightarrow> reset_operation" where
  "slot_reset reset resetType x =
     (if \<not> mshcInitialized x then (STATUS_DEVICE_CONFIGURATION_ERROR, x) else reset resetType x)"

definition error_recovery :: "reset_operation \<Rightarrow> nat \<Rightarrow> MSHC_EXTENSION \<Rightarrow> MSHC_EXTENSION" where
  "error_recovery reset r x =
     (let x = snd (slot_reset reset SdResetTypeCmd x)
      in if has_transfer (requests x r) then snd (slot_reset reset SdResetTypeDat x) else x)"

definition MshcIssueRequestSynchronously ::
    "MSHC_ENVIRONMENT \<Rightarrow> reset_operation \<Rightarrow> nat \<Rightarrow> u32 \<Rightarrow> bool \<Rightarrow> MSHC_EXTENSION \<Rightarrow> NTSTATUS \<times> MSHC_EXTENSION" where
  "MshcIssueRequestSynchronously E reset r timeoutUs errorRecovery x0 =
     (let x = x0\<lparr>LocalRequestPending := True\<rparr>
      in case returning (MshcSlotIssueRequest (envFuel E) False (envCodes E) (gCrashdumpMode E) r x) x of (status, x) \<Rightarrow>
         if status \<noteq> STATUS_PENDING then (status, x)
         else case local_wait E r (if timeoutUs = 0 then envFuel E else unat (DIV_CEIL timeoutUs PollWaitUs)) x of (finished, x) \<Rightarrow>
              let x = (if timeoutUs = 0 \<and> \<not> finished then x\<lparr>hung := True\<rparr> else x);
                  x = x\<lparr>LocalRequestPending := False\<rparr>;
                  x = (if timeoutUs \<noteq> 0 \<and> \<not> finished then change_request r (\<lambda>q. q\<lparr>reqStatus := STATUS_IO_TIMEOUT\<rparr>) x else x);
                  x = (if errorRecovery \<and> \<not> NT_SUCCESS (reqStatus (requests x r)) then error_recovery reset r x else x)
              in (reqStatus (requests x r), x))"

section \<open>Local commands\<close>

text \<open>
  A request is a local variable of the function that issues it. No function issues a request while another
  one of its own is alive, so that each has one number.
\<close>

definition stop_frame :: nat where "stop_frame = 1001"
definition status_frame :: nat where "status_frame = 1002"
definition tuning_frame :: nat where "tuning_frame = 1003"

text \<open>\<open>RtlZeroMemory\<close> on a request.\<close>

definition zero_request :: SDPORT_REQUEST where
  "zero_request = \<lparr>reqType = SdRequestTypeUnspecified, cmdIndex = 0, Argument = 0, ResponseType = SdResponseTypeUndefined,
     TransferType = SdTransferTypeUndefined, TransferDirection = SdTransferDirectionUndefined, TransferMethod = SdTransferMethodUndefined,
     UseAutoCmd12 = False, BlockCount = 0, BlockSize = 0, Length = 0, DmaPhysicalAddress = 0, Elements = [],
     DataBuffer = (\<lambda>i. 0), DataOffset = 0, RequiredEvents = 0, reqStatus = STATUS_SUCCESS\<rparr>"

definition MshcSendStopCommand :: "MSHC_ENVIRONMENT \<Rightarrow> reset_operation \<Rightarrow> MSHC_EXTENSION \<Rightarrow> NTSTATUS \<times> MSHC_EXTENSION" where
  "MshcSendStopCommand E reset x =
     MshcIssueRequestSynchronously E reset stop_frame 1000000 False
       (set_request stop_frame
         (zero_request\<lparr>cmdIndex := SDCMD_STOP_TRANSMISSION, ResponseType := SdResponseTypeR1B, TransferType := SdTransferTypeNone,
            Argument := 0, reqType := SdRequestTypeCommandNoTransfer\<rparr>) x)"

text \<open>The second result is the response stored through \<open>StatusRegister\<close>, which is not assigned on failure.\<close>

definition MshcSendStatusCommand :: "MSHC_ENVIRONMENT \<Rightarrow> reset_operation \<Rightarrow> MSHC_EXTENSION \<Rightarrow> (NTSTATUS \<times> u8 list option) \<times> MSHC_EXTENSION" where
  "MshcSendStatusCommand E reset x =
     (case MshcIssueRequestSynchronously E reset status_frame 50000 True
             (set_request status_frame
               (zero_request\<lparr>cmdIndex := SDCMD_SEND_STATUS, ResponseType := SdResponseTypeR1, TransferType := SdTransferTypeNone,
                  Argument := push_bit 16 (ucast (CardRca x)), reqType := SdRequestTypeCommandNoTransfer\<rparr>) x) of
        (status, x) \<Rightarrow>
          if \<not> NT_SUCCESS status then ((status, None), x)
          else case MshcSlotGetResponse (requests x status_frame) (word_bytes 0) x of (response, x) \<Rightarrow> ((status, Some response), x))"

definition TuningBlock4BitPattern :: "u8 list" where
  "TuningBlock4BitPattern = [
     0xff, 0x0f, 0xff, 0x00, 0xff, 0xcc, 0xc3, 0xcc,  0xc3, 0x3c, 0xcc, 0xff, 0xfe, 0xff, 0xfe, 0xef,
     0xff, 0xdf, 0xff, 0xdd, 0xff, 0xfb, 0xff, 0xfb,  0xbf, 0xff, 0x7f, 0xff, 0x77, 0xf7, 0xbd, 0xef,
     0xff, 0xf0, 0xff, 0xf0, 0x0f, 0xfc, 0xcc, 0x3c,  0xcc, 0x33, 0xcc, 0xcf, 0xff, 0xef, 0xff, 0xee,
     0xff, 0xfd, 0xff, 0xfd, 0xdf, 0xff, 0xbf, 0xff,  0xbb, 0xff, 0xf7, 0xff, 0xf7, 0x7f, 0x7b, 0xde]"

definition TuningBlock8BitPattern :: "u8 list" where
  "TuningBlock8BitPattern = [
     0xff, 0xff, 0x00, 0xff, 0xff, 0xff, 0x00, 0x00,  0xff, 0xff, 0xcc, 0xcc, 0xcc, 0x33, 0xcc, 0xcc,
     0xcc, 0x33, 0x33, 0xcc, 0xcc, 0xcc, 0xff, 0xff,  0xff, 0xee, 0xff, 0xff, 0xff, 0xee, 0xee, 0xff,
     0xff, 0xff, 0xdd, 0xff, 0xff, 0xff, 0xdd, 0xdd,  0xff, 0xff, 0xff, 0xbb, 0xff, 0xff, 0xff, 0xbb,
     0xbb, 0xff, 0xff, 0xff, 0x77, 0xff, 0xff, 0xff,  0x77, 0x77, 0xff, 0x77, 0xbb, 0xdd, 0xee, 0xff,
     0xff, 0xff, 0xff, 0x00, 0xff, 0xff, 0xff, 0x00,  0x00, 0xff, 0xff, 0xcc, 0xcc, 0xcc, 0x33, 0xcc,
     0xcc, 0xcc, 0x33, 0x33, 0xcc, 0xcc, 0xcc, 0xff,  0xff, 0xff, 0xee, 0xff, 0xff, 0xff, 0xee, 0xee,
     0xff, 0xff, 0xff, 0xdd, 0xff, 0xff, 0xff, 0xdd,  0xdd, 0xff, 0xff, 0xff, 0xbb, 0xff, 0xff, 0xff,
     0xbb, 0xbb, 0xff, 0xff, 0xff, 0x77, 0xff, 0xff,  0xff, 0x77, 0x77, 0xff, 0x77, 0xbb, 0xdd, 0xee]"

definition tuning_index :: "SDPORT_BUS_SPEED \<Rightarrow> u8 option" where
  "tuning_index speed =
     (if speed \<in> {SdBusSpeedSDR50, SdBusSpeedSDR104} then Some SDCMD_SEND_TUNING_BLOCK
      else if speed \<in> {SdBusSpeedHS200, SdBusSpeedHS400} then Some SDCMD_EMMC_SEND_TUNING_BLOCK
      else None)"

definition tuning_request :: "u8 \<Rightarrow> u16 \<Rightarrow> SDPORT_REQUEST" where
  "tuning_request index blockSize = zero_request\<lparr>cmdIndex := index, ResponseType := SdResponseTypeR1,
     TransferType := SdTransferTypeSingleBlock, TransferDirection := SdTransferDirectionRead, TransferMethod := SdTransferMethodPio,
     Argument := 0, BlockSize := blockSize, BlockCount := 1, Length := ucast blockSize, reqType := SdRequestTypeCommandWithTransfer\<rparr>"

text \<open>The loop that starts the transfer again while more processing is required.\<close>

fun tuning_transfer :: "MSHC_ENVIRONMENT \<Rightarrow> reset_operation \<Rightarrow> nat \<Rightarrow> MSHC_EXTENSION \<Rightarrow> NTSTATUS \<times> MSHC_EXTENSION" where
  "tuning_transfer E reset 0 x = (STATUS_MORE_PROCESSING_REQUIRED, x\<lparr>hung := True\<rparr>)"
| "tuning_transfer E reset (Suc n) x =
     (case MshcIssueRequestSynchronously E reset tuning_frame 1000000 True x of (status, x) \<Rightarrow>
        if status = STATUS_MORE_PROCESSING_REQUIRED then tuning_transfer E reset n x else (status, x))"

text \<open>The bytes \<open>DataBuffer\<close> points to, \<open>Length\<close> of them.\<close>

definition buffer_bytes :: "SDPORT_REQUEST \<Rightarrow> u8 list" where
  "buffer_bytes q = concat (map (\<lambda>i. word_bytes (DataBuffer q (DataOffset q div 4 + i))) [0..<unat (Length q) div 4])"

definition MshcSendTuningCommand :: "MSHC_ENVIRONMENT \<Rightarrow> reset_operation \<Rightarrow> tuning_command" where
  "MshcSendTuningCommand E reset x =
     (case tuning_index (BusSpeed x) of
        None \<Rightarrow> (STATUS_INVALID_PARAMETER, x)
      | Some index \<Rightarrow>
          let pattern = (if BusWidth x = SdBusWidth8Bit then TuningBlock8BitPattern else TuningBlock4BitPattern);
              blockSize = (if BusWidth x = SdBusWidth8Bit then 128 else 64)
          in case MshcIssueRequestSynchronously E reset tuning_frame 1000000 True (set_request tuning_frame (tuning_request index blockSize) x) of
               (status, x) \<Rightarrow>
                 if \<not> NT_SUCCESS status then (status, x)
                 else case tuning_transfer E reset (envFuel E) (change_request tuning_frame (\<lambda>q. q\<lparr>reqType := SdRequestTypeStartTransfer\<rparr>) x) of
                        (status, x) \<Rightarrow>
                          if \<not> NT_SUCCESS status then (status, x)
                          else (if buffer_bytes (requests x tuning_frame) \<noteq> pattern then STATUS_IO_DEVICE_ERROR else STATUS_SUCCESS, x))"

definition execute_tuning :: "MSHC_ENVIRONMENT \<Rightarrow> reset_operation \<Rightarrow> MSHC_EXTENSION \<Rightarrow> NTSTATUS \<times> MSHC_EXTENSION" where
  "execute_tuning E reset = MshcExecuteTuning (map_option (\<lambda>f. f (MshcSendTuningCommand E reset)) (opExecuteTuning (PlatformOperations E)))"

definition set_signaling_voltage :: "MSHC_ENVIRONMENT \<Rightarrow> reset_operation \<Rightarrow> SDPORT_SIGNALING_VOLTAGE \<Rightarrow> MSHC_EXTENSION \<Rightarrow> NTSTATUS \<times> MSHC_EXTENSION" where
  "set_signaling_voltage E reset =
     MshcSetSignalingVoltage (\<lambda>x. case MshcSendStatusCommand E reset x of ((status, response), x) \<Rightarrow> (status, x))
       (opSetSignalingVoltage (PlatformOperations E))"

section \<open>Resetting the host\<close>

definition reset_controller :: "u32 \<Rightarrow> MSHC_EXTENSION \<Rightarrow> NTSTATUS \<times> MSHC_EXTENSION" where
  "reset_controller resetMask x =
     (case MshcResetWait resetMask x of (status, x) \<Rightarrow>
        if \<not> NT_SUCCESS status then (status, x)
        else let x = (if resetMask AND MSHC_CTRL_CONTROLLER_RESET \<noteq> 0 then snd (MshcCiuUpdateClock 0 x) else x);
                 x = (if resetMask AND MSHC_CTRL_DMA_RESET \<noteq> 0
                      then let x = MshcWriteRegister MSHC_BMOD MSHC_BMOD_SWR x
                           in MshcWriteRegister MSHC_CTRL (MshcReadRegister MSHC_CTRL x AND NOT MSHC_CTRL_USE_INTERNAL_DMAC) x
                      else x)
             in (STATUS_SUCCESS, x))"

text \<open>What \<open>SdResetTypeAll\<close> does to the bus.\<close>

definition reset_bus :: "MSHC_ENVIRONMENT \<Rightarrow> reset_operation \<Rightarrow> MSHC_EXTENSION \<Rightarrow> MSHC_EXTENSION" where
  "reset_bus E reset x =
     (let x = (if gCrashdumpMode E then x
               else snd (set_signaling_voltage E reset SdSignalingVoltage33
                      (snd (MshcSetVoltage (opSetVoltage (PlatformOperations E)) SdBusVoltageOff x))));
          x = snd (MshcSetClock (opSetClock (PlatformOperations E)) (gCrashdumpMode E) 0 x);
          x = snd (MshcSetBusWidth SdBusWidth1Bit x);
          x = MshcDisableInterrupts MSHC_INT_ALL MSHC_IDINT_ALL x;
          x = MshcWriteRegister MSHC_CTRL MSHC_CTRL_INT_ENABLE x
      in MshcWriteRegister MSHC_TMOUT 0xffffffff x)"

definition reset_host :: "MSHC_ENVIRONMENT \<Rightarrow> reset_operation \<Rightarrow> reset_operation" where
  "reset_host E reset resetType x0 =
     (let request = OutstandingRequest x0;
          x = x0\<lparr>OutstandingRequest := None\<rparr>;
          resetMask = or_if (ScatterGatherDma (hostCaps x)) MSHC_CTRL_DMA_RESET (MSHC_CTRL_CONTROLLER_RESET OR MSHC_CTRL_FIFO_RESET)
      in if resetType = SdResetTypeUndefined then (STATUS_INVALID_PARAMETER, x)
         else if resetType = SdResetTypeCmd \<and> (case request of Some r \<Rightarrow> has_transfer (requests x r) | None \<Rightarrow> False) then (STATUS_SUCCESS, x)
         else let x = (if resetType = SdResetTypeDat then snd (MshcSendStopCommand E reset x) else x)
              in case (if resetMask \<noteq> 0 then reset_controller resetMask x else (STATUS_SUCCESS, x)) of (status, x) \<Rightarrow>
                 if \<not> NT_SUCCESS status then (status, x)
                 else let x = (if resetType = SdResetTypeAll then reset_bus E reset x else x);
                          x = MshcAcknowledgeInterrupts MSHC_INT_ALL MSHC_IDINT_ALL x;
                          x = (if resetType = SdResetTypeDat \<and> TuningPerformed x \<and> DataCrcErrorsSinceLastTuning x \<ge> MSHC_DCRC_ERROR_RETUNING_THRESHOLD
                               then snd (execute_tuning E reset x) else x)
                      in (STATUS_SUCCESS, x))"

primrec MshcResetHost :: "nat \<Rightarrow> MSHC_ENVIRONMENT \<Rightarrow> reset_operation" where
  "MshcResetHost 0 E = (\<lambda>resetType x. (STATUS_OTHER 0xC0000001, x\<lparr>hung := True\<rparr>))"
| "MshcResetHost (Suc n) E = reset_host E (MshcResetHost n E)"

section \<open>Bus operations\<close>

datatype SDPORT_BUS_OPERATION = SdResetHw | SdResetHost SDPORT_RESET_TYPE | SdSetClock u32 | SdSetVoltage SDPORT_BUS_VOLTAGE | SdSetPower
  | SdSetBusWidth SDPORT_BUS_WIDTH | SdSetBusSpeed SDPORT_BUS_SPEED | SdSetSignalingVoltage SDPORT_SIGNALING_VOLTAGE | SdSetDriveStrength
  | SdSetDriverType | SdSetPresetValue | SdSetBlockGapInterrupt | SdExecuteTuning | SdBusOperationOther

definition MshcSlotIssueBusOperation :: "nat \<Rightarrow> MSHC_ENVIRONMENT \<Rightarrow> SDPORT_BUS_OPERATION \<Rightarrow> MSHC_EXTENSION \<Rightarrow> NTSTATUS \<times> MSHC_EXTENSION" where
  "MshcSlotIssueBusOperation n E busOperation x =
     (let ops = PlatformOperations E; reset = MshcResetHost n E
      in if \<not> mshcInitialized x then (STATUS_DEVICE_CONFIGURATION_ERROR, x)
         else case busOperation of
             SdResetHost resetType \<Rightarrow> reset resetType x
           | SdSetClock frequencyKhz \<Rightarrow> MshcSetClock (opSetClock ops) (gCrashdumpMode E) frequencyKhz x
           | SdSetVoltage voltage \<Rightarrow> MshcSetVoltage (opSetVoltage ops) voltage x
           | SdSetBusWidth busWidth \<Rightarrow> MshcSetBusWidth busWidth x
           | SdSetBusSpeed busSpeed \<Rightarrow> MshcSetBusSpeed busSpeed x
           | SdSetSignalingVoltage voltage \<Rightarrow> set_signaling_voltage E reset voltage x
           | SdExecuteTuning \<Rightarrow> execute_tuning E reset x
           | SdBusOperationOther \<Rightarrow> (STATUS_INVALID_PARAMETER, x)
           | _ \<Rightarrow> (STATUS_NOT_SUPPORTED, x))"

definition MshcSlotGetCardDetectState :: "MSHC_EXTENSION \<Rightarrow> bool \<times> MSHC_EXTENSION" where
  "MshcSlotGetCardDetectState x = MshcIsCardInserted x"

definition MshcSlotGetWriteProtectState :: "MSHC_EXTENSION \<Rightarrow> bool \<times> MSHC_EXTENSION" where
  "MshcSlotGetWriteProtectState x = MshcIsCardWriteProtected x"

text \<open>The RK3576's operations.\<close>

definition rockchip_operations :: "bool \<Rightarrow> bool \<Rightarrow> MSHC_PLATFORM_OPERATIONS" where
  "rockchip_operations crashdump mapped =
     \<lparr>opSetClock = Some (MshcRockchipSetClock crashdump mapped), opSetVoltage = Some (\<lambda>voltage x. (MshcRockchipSetVoltage, x)),
      opSetSignalingVoltage = Some (\<lambda>voltage x. (MshcRockchipSetSignalingVoltage voltage, x)), opExecuteTuning = Some MshcRockchipExecuteTuning\<rparr>"

end
