(* ===== verification/MshcRequestProofs.thy ===== *)
theory MshcRequestProofs imports MshcRequest begin

text \<open>
  What the routines of the request path change, and that each request handed to the driver is completed
  exactly once.
\<close>

section \<open>Frames\<close>

text \<open>
  Two extensions that differ only in registers, the log of writes and the count of reads: what the routines
  that only talk to the controller do.
\<close>

definition same_driver :: "MSHC_EXTENSION \<Rightarrow> MSHC_EXTENSION \<Rightarrow> bool" where
  "same_driver x y \<longleftrightarrow> (\<exists>regs tick log. y = x\<lparr>mshcRegs := regs, mshcTick := tick, mshcLog := log\<rparr>)"

named_theorems frame "routines that leave the driver's own state unchanged"

lemma same_driver_refl [simp]: "same_driver x x"
  unfolding same_driver_def by (rule exI [of _ "mshcRegs x"], rule exI [of _ "mshcTick x"], rule exI [of _ "mshcLog x"]) simp

lemma same_driver_trans [trans]: "same_driver x y \<Longrightarrow> same_driver y z \<Longrightarrow> same_driver x z"
  unfolding same_driver_def by (auto, blast)

lemma same_driver_fields:
  assumes "same_driver x y"
  shows "requests y = requests x" "OutstandingRequest y = OutstandingRequest x" "CurrentEvents y = CurrentEvents x"
    "CurrentErrors y = CurrentErrors x" "completedRequests y = completedRequests x" "busyWorkQueued y = busyWorkQueued x"
    "busyWorkItem y = busyWorkItem x" "LocalRequestPending y = LocalRequestPending x" "mshcDevice y = mshcDevice x"
    "platformCaps y = platformCaps x" "SlotId y = SlotId x" "localDpcQueued y = localDpcQueued x"
    "CurrentTransferRemainingLength y = CurrentTransferRemainingLength x" "FifoThreshold y = FifoThreshold x"
    "CardInitialized y = CardInitialized x" "hostCaps y = hostCaps x" "TuningPerformed y = TuningPerformed x"
  using assms by (auto simp: same_driver_def)

lemma same_write [frame]: "same_driver x (MshcWriteRegister r v x)"
  unfolding same_driver_def MshcWriteRegister_def
  by (rule exI [of _ "(mshcRegs x)(r := v)"], rule exI [of _ "mshcTick x"], rule exI [of _ "mshcLog x @ [(r, v)]"]) simp

lemma same_read [frame]: "same_driver x (snd (MshcReadDevice r x))"
  unfolding same_driver_def MshcReadDevice_def Let_def
  by (rule exI [of _ "(mshcRegs x)(r := mshcDevice x (mshcTick x) r)"], rule exI [of _ "Suc (mshcTick x)"], rule exI [of _ "mshcLog x"]) simp

lemma same_write2: "same_driver x y \<Longrightarrow> same_driver x (MshcWriteRegister r v y)"
  by (rule same_driver_trans [OF _ same_write])

lemma same_poll [frame]: "same_driver x (snd (poll_register n r ok x))"
proof (induction n arbitrary: x)
  case (Suc n)
  obtain v y where r: "MshcReadDevice r x = (v, y)" by fastforce
  then have "same_driver x y" using same_read [of x r] by simp
  then show ?case using Suc.IH [of y] same_driver_trans by (auto simp: r)
qed simp

lemma same_ciu [frame]: "same_driver x (snd (MshcCiuUpdateClock flags x))"
proof -
  let ?a = "if flags AND MSHC_CMD_VOLT_SWITCH = 0 then snd (MshcWaitDataIdle x) else x"
  have "same_driver x ?a" by (simp add: MshcWaitDataIdle_def same_poll)
  then have "same_driver x (MshcWriteRegister MSHC_CMD c (MshcWriteRegister MSHC_CMDARG 0 ?a))" for c
    by (intro same_write2)
  then show ?thesis unfolding MshcCiuUpdateClock_def Let_def using same_driver_trans same_poll by blast
qed

lemma same_ack [frame]: "same_driver x (MshcAcknowledgeInterrupts i d x)"
  by (simp add: MshcAcknowledgeInterrupts_def Let_def same_write2)

lemma same_enable [frame]: "same_driver x (MshcEnableInterrupts i d x)"
  by (simp add: MshcEnableInterrupts_def Let_def same_write2)

lemma same_disable [frame]: "same_driver x (MshcDisableInterrupts i d x)"
  by (simp add: MshcDisableInterrupts_def Let_def same_write2)

lemma same_inserted [frame]: "same_driver x (snd (MshcIsCardInserted x))"
  using same_read [of x MSHC_CDETECT] by (auto simp: MshcIsCardInserted_def split: prod.split)

lemma same_busy [frame]: "same_driver x (snd (MshcIsDataBusy x))"
  using same_read [of x MSHC_STATUS] by (auto simp: MshcIsDataBusy_def split: prod.split)

lemma same_idle [frame]: "same_driver x (snd (MshcWaitDataIdle x))"
  by (simp add: MshcWaitDataIdle_def same_poll)

lemma same_mode [frame]: "same_driver x (MshcSetTransferMode q x)"
  by (simp add: MshcSetTransferMode_def Let_def same_write2)

section \<open>Completion\<close>

text \<open>
  What completing a request does to the bookkeeping: either the request is handed back, or the work item is
  queued with the request outstanding. The events a request waits for are not changed.
\<close>

definition handed_back :: "nat \<Rightarrow> MSHC_EXTENSION \<Rightarrow> MSHC_EXTENSION \<Rightarrow> bool" where
  "handed_back r x y \<longleftrightarrow> (\<exists>status. completedRequests y = completedRequests x @ [(r, status)]) \<and> \<not> busyWorkQueued y
     \<and> OutstandingRequest y \<in> {None, Some r}"

definition deferred :: "nat \<Rightarrow> MSHC_EXTENSION \<Rightarrow> MSHC_EXTENSION \<Rightarrow> bool" where
  "deferred r x y \<longleftrightarrow> completedRequests y = completedRequests x \<and> busyWorkQueued y \<and> OutstandingRequest y = Some r"

lemma set_request_fields [simp]:
  "requests (set_request r q x) = (requests x)(r := q)" "OutstandingRequest (set_request r q x) = OutstandingRequest x"
  "completedRequests (set_request r q x) = completedRequests x" "busyWorkQueued (set_request r q x) = busyWorkQueued x"
  "busyWorkItem (set_request r q x) = busyWorkItem x" "LocalRequestPending (set_request r q x) = LocalRequestPending x"
  "platformCaps (set_request r q x) = platformCaps x" "SlotId (set_request r q x) = SlotId x"
  "mshcDevice (set_request r q x) = mshcDevice x" "mshcTick (set_request r q x) = mshcTick x" "mshcRegs (set_request r q x) = mshcRegs x"
  "CurrentErrors (set_request r q x) = CurrentErrors x" "CurrentEvents (set_request r q x) = CurrentEvents x"
  "CurrentTransferRemainingLength (set_request r q x) = CurrentTransferRemainingLength x" "FifoThreshold (set_request r q x) = FifoThreshold x"
  "TuningPerformed (set_request r q x) = TuningPerformed x"
  by (simp_all add: set_request_def)

lemma finish_request_effect:
  assumes "OutstandingRequest x = Some r" "\<not> LocalRequestPending x" "\<not> busyWorkQueued x"
  shows "handed_back r x (finish_request r x) \<and> \<not> LocalRequestPending (finish_request r x)
    \<and> (\<forall>k. RequiredEvents (requests (finish_request r x) k) = RequiredEvents (requests x k))"
proof -
  define a where "a = (if reqStatus (requests x r) = STATUS_SUCCESS \<or> reqStatus (requests x r) = STATUS_MORE_PROCESSING_REQUIRED
    then x\<lparr>OutstandingRequest := None\<rparr> else x)"
  obtain ins b where b: "MshcIsCardInserted a = (ins, b)" by fastforce
  then have s: "same_driver a b" using same_inserted [of a] by simp
  have a: "requests a = requests x" "completedRequests a = completedRequests x" "\<not> busyWorkQueued a" "\<not> LocalRequestPending a"
    "OutstandingRequest a \<in> {None, Some r}" using assms by (simp_all add: a_def)
  have "finish_request r x = (let x = (if ins then b else change_request r (\<lambda>q. q\<lparr>reqStatus := STATUS_IO_DEVICE_ERROR\<rparr>) b)
         in x\<lparr>completedRequests := completedRequests x @ [(r, reqStatus (requests x r))]\<rparr>)"
    using b a(4) same_driver_fields(8) [OF s] by (simp add: finish_request_def Let_def a_def)
  then show ?thesis using a same_driver_fields [OF s] by (auto simp: handed_back_def Let_def)
qed

lemma complete_request_effect:
  assumes "MshcCompleteRequest n dispatch r status x = Some y"
    "OutstandingRequest x = Some r" "\<not> LocalRequestPending x" "\<not> busyWorkQueued x"
  shows "(handed_back r x y \<or> deferred r x y) \<and> \<not> LocalRequestPending y \<and> (\<forall>k. RequiredEvents (requests y k) = RequiredEvents (requests x k))"
  using assms
proof (induction n arbitrary: status x)
  case (Suc n)
  define a where "a = change_request r (\<lambda>q. q\<lparr>reqStatus := status\<rparr>) x"
  have a: "OutstandingRequest a = Some r" "\<not> LocalRequestPending a" "\<not> busyWorkQueued a" "completedRequests a = completedRequests x"
    "\<forall>k. RequiredEvents (requests a k) = RequiredEvents (requests x k)" using Suc.prems by (simp_all add: a_def)
  have fin: ?case if f: "y = finish_request r z" and z: "same_driver a z" for z
    using finish_request_effect [of z r] a same_driver_fields [OF z] unfolding f by (simp add: handed_back_def deferred_def)
  show ?case
  proof (cases "waits_for_card (requests a r)")
    case False
    then show ?thesis using Suc.prems(1) fin [of a] by (simp add: a_def [symmetric] Let_def)
  next
    case True
    obtain busy b where b: "MshcIsDataBusy a = (busy, b)" by fastforce
    have s: "same_driver a b" using same_busy [of a] b by simp
    note sf = same_driver_fields [OF s]
    have eq: "(if \<not> busy then Some (finish_request r b) else if busyWorkItem b \<and> dispatch then Some (b\<lparr>busyWorkQueued := True\<rparr>)
        else MshcCompleteRequestBusyWorker n dispatch b) = Some y"
      using Suc.prems(1) True b by (simp add: a_def [symmetric] Let_def)
    consider "\<not> busy" | "busy" "busyWorkItem b \<and> dispatch" | "busy" "\<not> (busyWorkItem b \<and> dispatch)" by blast
    then show ?thesis
    proof cases
      case 1
      then show ?thesis using eq fin [OF _ s] by simp
    next
      case 2
      then have "y = b\<lparr>busyWorkQueued := True\<rparr>" using eq by simp
      then show ?thesis using a sf by (simp add: deferred_def)
    next
      case 3
      obtain st c where c: "MshcWaitDataIdle b = (st, c)" by fastforce
      have sc: "same_driver b c" using same_idle [of b] c by simp
      note cf = same_driver_fields [OF sc]
      have "MshcCompleteRequest n dispatch r st c = Some y" using eq 3 c cf(2) sf(2) a(1) by simp
      from Suc.IH [OF this] show ?thesis using cf sf a by (simp add: handed_back_def deferred_def)
    qed
  qed
qed simp

section \<open>The bookkeeping of one outstanding request\<close>

text \<open>
  \<open>owed C r x\<close>: the request is still to be handed back, because it waits for events or the work item is
  queued.
\<close>

definition owed :: "nat \<Rightarrow> MSHC_EXTENSION \<Rightarrow> bool" where
  "owed r x \<longleftrightarrow> RequiredEvents (requests x r) \<noteq> 0 \<or> busyWorkQueued x"

definition books :: "nat \<Rightarrow> nat \<Rightarrow> bool \<Rightarrow> MSHC_EXTENSION \<Rightarrow> bool" where
  "books r issued lost x \<longleftrightarrow> \<not> LocalRequestPending x \<and> \<not> (RequiredEvents (requests x r) \<noteq> 0 \<and> busyWorkQueued x)
     \<and> length (completedRequests x) + (if owed r x then 1 else 0) \<le> issued
     \<and> (lost \<or> issued = length (completedRequests x) + (if owed r x then 1 else 0))
     \<and> (owed r x \<longrightarrow> OutstandingRequest x = Some r)"

text \<open>
  The deferred procedure call loses a request that gets its last event together with a timeout whose own
  final event is still to come: it waits for that event, but does not look at a request that requires none.
\<close>

definition dpc_loses :: "SDPORT_CODES \<Rightarrow> nat \<Rightarrow> u32 \<Rightarrow> u32 \<Rightarrow> MSHC_EXTENSION \<Rightarrow> bool" where
  "dpc_loses C r events errors x \<longleftrightarrow>
     (let e = CurrentErrors x OR errors
      in RequiredEvents (requests x r) \<noteq> 0 \<and> RequiredEvents (requests x r) AND NOT events = 0 \<and>
         (has e (SDPORT_ERROR_CMD_TIMEOUT C) \<and> \<not> has events (SDPORT_EVENT_CARD_RESPONSE C) \<or>
          has e (SDPORT_ERROR_DATA_TIMEOUT C) \<and> \<not> has events (SDPORT_EVENT_CARD_RW_END C)))"

lemma books_same:
  assumes "books r n l x" "requests y = requests x" "OutstandingRequest y = OutstandingRequest x" "completedRequests y = completedRequests x"
    "busyWorkQueued y = busyWorkQueued x" "LocalRequestPending y = LocalRequestPending x"
  shows "books r n l y"
  using assms by (simp add: books_def owed_def)

lemma books_complete:
  assumes "MshcCompleteRequest n dispatch r status x = Some y" "OutstandingRequest x = Some r" "\<not> LocalRequestPending x"
    "\<not> busyWorkQueued x" "RequiredEvents (requests x r) = 0" "Suc (length (completedRequests x)) \<le> issued"
    "lost \<or> issued = Suc (length (completedRequests x))"
  shows "books r issued lost y"
  using complete_request_effect [OF assms(1-4)] assms(5-7) by (auto simp: books_def owed_def handed_back_def deferred_def)

lemma books_weaken: "books r n l x \<Longrightarrow> books r n (l \<or> m) x"
  by (auto simp: books_def)

lemma books_dpc:
  assumes "MshcRequestDpc n C r events errors x = Some y" "books r issued lost x"
  shows "books r issued (lost \<or> dpc_loses C r events errors x) y"
proof (cases "events = 0 \<and> errors = 0 \<or> RequiredEvents (requests x r) = 0")
  case True
  then show ?thesis using assms books_weaken by (auto simp: MshcRequestDpc_def)
next
  case False
  then have o: "OutstandingRequest x = Some r" "\<not> busyWorkQueued x" "\<not> LocalRequestPending x"
    "Suc (length (completedRequests x)) \<le> issued" "lost \<or> issued = Suc (length (completedRequests x))" using assms(2) by (auto simp: books_def owed_def)
  define a where "a = change_request r (\<lambda>q. q\<lparr>RequiredEvents := RequiredEvents q AND NOT events\<rparr>)
    (x\<lparr>CurrentEvents := CurrentEvents x OR events, CurrentErrors := CurrentErrors x OR errors\<rparr>)"
  have a: "OutstandingRequest a = Some r" "\<not> busyWorkQueued a" "\<not> LocalRequestPending a" "completedRequests a = completedRequests x"
    using o by (simp_all add: a_def)
  define b where "b = change_request r (\<lambda>q. q\<lparr>RequiredEvents := 0, reqStatus := MshcConvertStandardErrorToStatus C (CurrentErrors a)\<rparr>)
    ((if TuningPerformed a \<and> has (CurrentErrors a) (SDPORT_ERROR_DATA_CRC_ERROR C)
      then a\<lparr>DataCrcErrorsSinceLastTuning := DataCrcErrorsSinceLastTuning a + 1\<rparr> else a)\<lparr>CurrentEvents := 0, CurrentErrors := 0\<rparr>)"
  define c where "c = (if reqStatus (requests a r) \<noteq> STATUS_MORE_PROCESSING_REQUIRED
    then change_request r (\<lambda>q. q\<lparr>reqStatus := STATUS_SUCCESS\<rparr>) a else a)"
  have b: "OutstandingRequest b = Some r" "\<not> busyWorkQueued b" "\<not> LocalRequestPending b" "completedRequests b = completedRequests x"
    "RequiredEvents (requests b r) = 0" using a by (simp_all add: b_def)
  have c: "OutstandingRequest c = Some r" "\<not> busyWorkQueued c" "\<not> LocalRequestPending c" "completedRequests c = completedRequests x"
    "RequiredEvents (requests c r) = RequiredEvents (requests a r)" using a by (simp_all add: c_def)
  have "Some y = (if CurrentErrors a \<noteq> 0 then
        (if has (CurrentErrors a) (SDPORT_ERROR_CMD_TIMEOUT C) \<and> \<not> has events (SDPORT_EVENT_CARD_RESPONSE C) \<or>
            has (CurrentErrors a) (SDPORT_ERROR_DATA_TIMEOUT C) \<and> \<not> has events (SDPORT_EVENT_CARD_RW_END C)
         then Some a else MshcCompleteRequest n True r (MshcConvertStandardErrorToStatus C (CurrentErrors a)) b)
      else if RequiredEvents (requests a r) = 0 then MshcCompleteRequest n True r (reqStatus (requests c r)) c
      else Some a)"
    using assms(1) False o(1) by (simp add: MshcRequestDpc_def Let_def a_def b_def c_def cong: if_cong)
  moreover have "books r issued (lost \<or> dpc_loses C r events errors x) a"
    if "RequiredEvents (requests a r) \<noteq> 0 \<or> dpc_loses C r events errors x"
    using that o a by (auto simp: books_def owed_def)
  moreover have "dpc_loses C r events errors x"
    if "RequiredEvents (requests a r) = 0" "has (CurrentErrors a) (SDPORT_ERROR_CMD_TIMEOUT C) \<and> \<not> has events (SDPORT_EVENT_CARD_RESPONSE C) \<or>
            has (CurrentErrors a) (SDPORT_ERROR_DATA_TIMEOUT C) \<and> \<not> has events (SDPORT_EVENT_CARD_RW_END C)"
    using that False by (simp add: dpc_loses_def a_def Let_def)
  moreover have "books r issued (lost \<or> dpc_loses C r events errors x) y"
    if "MshcCompleteRequest n True r st z = Some y" "z = b \<or> z = c \<and> RequiredEvents (requests a r) = 0" for st z
    using that books_complete [of n True r st z y issued lost] b c o(4,5) books_weaken by auto
  ultimately show ?thesis by (auto split: if_splits)
qed

lemma or_nonzero: "m \<noteq> 0 \<Longrightarrow> v OR m \<noteq> (0 :: u32)"
  by (simp add: or_eq_0_iff)

lemma codes_nonzero:
  assumes "sdport_codes_ok C"
  shows "SDPORT_EVENT_CARD_RESPONSE C \<noteq> 0" "SDPORT_EVENT_CARD_RW_END C \<noteq> 0" "buffer_event C q \<noteq> 0"
  using event_code_has(1) [OF assms, of CardResponse CardResponse] event_code_has(1) [OF assms, of CardRwEnd CardRwEnd]
    event_code_has(1) [OF assms, of BufferFull BufferFull] event_code_has(1) [OF assms, of BufferEmpty BufferEmpty]
  by (auto simp: has_self buffer_event_def)

lemma required_nonzero: "sdport_codes_ok C \<Longrightarrow> required_events C q \<noteq> 0"
  using codes_nonzero by (simp add: required_events_def Let_def or_nonzero)

text \<open>Building a transfer and sending a command leave the completions and the work item alone.\<close>

definition same_books :: "MSHC_EXTENSION \<Rightarrow> MSHC_EXTENSION \<Rightarrow> bool" where
  "same_books x y \<longleftrightarrow> requests y = requests x \<and> OutstandingRequest y = OutstandingRequest x \<and> completedRequests y = completedRequests x
     \<and> busyWorkQueued y = busyWorkQueued x \<and> LocalRequestPending y = LocalRequestPending x"

lemma same_driver_books: "same_driver x y \<Longrightarrow> same_books x y"
  by (simp add: same_books_def same_driver_fields)

lemma build_pio_books: "same_books x (snd (MshcBuildPioTransfer q x))"
proof -
  define a where "a = x\<lparr>FifoThreshold := ULONG_MIN (Length q div 4) (MSHC_OPTIMAL_FIFO_THRESHOLD (FifoDepth (platformCaps x))), FifoDmaBurstSize := 0\<rparr>"
  define b where "b = (if has (MshcReadRegister MSHC_CTRL a) MSHC_CTRL_USE_INTERNAL_DMAC
    then MshcWriteRegister MSHC_BMOD 0 (MshcWriteRegister MSHC_CTRL (MshcReadRegister MSHC_CTRL a AND NOT MSHC_CTRL_USE_INTERNAL_DMAC) a) else a)"
  have "same_driver a b" unfolding b_def by (auto intro!: same_write2)
  then have "same_driver a (MshcSetTransferMode q b)" using same_mode same_driver_trans by blast
  moreover have "snd (MshcBuildPioTransfer q x) = MshcSetTransferMode q b"
    by (simp add: MshcBuildPioTransfer_def Let_def a_def b_def)
  ultimately have "same_books a (snd (MshcBuildPioTransfer q x))" using same_driver_books by simp
  then show ?thesis by (simp add: same_books_def a_def)
qed

lemma build_dma_books: "MshcBuildDmaTransfer q x = Some (st, y) \<Longrightarrow> same_books x y"
proof -
  assume b: "MshcBuildDmaTransfer q x = Some (st, y)"
  have *: "same_books x y" if "same_driver (x\<lparr>FifoThreshold := t, FifoDmaBurstSize := b\<rparr>) y" for t b y
    using same_driver_books [OF that] by (simp add: same_books_def)
  show ?thesis using b same_mode
    by (auto simp: MshcBuildDmaTransfer_def Let_def split: option.splits intro!: * same_write2)
qed

lemma build_books: "MshcBuildTransfer q x = Some (st, y) \<Longrightarrow> same_books x y"
  using build_pio_books [of "x\<lparr>CurrentTransferRemainingLength := Length q\<rparr>" q]
    build_dma_books [of q "x\<lparr>CurrentTransferRemainingLength := Length q\<rparr>" st y]
  by (auto simp: MshcBuildTransfer_def Let_def same_books_def split: SDPORT_TRANSFER_METHOD.splits)

lemma send_command_books:
  "requests (send_command C r response x) = (requests x)(r := (requests x r)\<lparr>RequiredEvents := required_events C (requests x r)\<rparr>)"
  "OutstandingRequest (send_command C r response x) = OutstandingRequest x"
  "completedRequests (send_command C r response x) = completedRequests x"
  "busyWorkQueued (send_command C r response x) = busyWorkQueued x"
  "LocalRequestPending (send_command C r response x) = LocalRequestPending x"
proof -
  define a where "a = (if cmdIndex (requests x r) = SDCMD_VOLTAGE_SWITCH
               then snd (MshcCiuUpdateClock 0
                      (MshcWriteRegister MSHC_CLKENA (MshcReadRegister MSHC_CLKENA x AND NOT (MSHC_CLKENA_CCLK_LOW_POWER (SlotId x))) x))
               else x)"
  have a: "same_driver x a" unfolding a_def by (auto intro: same_driver_trans [OF same_write same_ciu])
  define b where "b = change_request r (\<lambda>q. q\<lparr>RequiredEvents := required_events C q\<rparr>)
     (a\<lparr>CardInitialized := True, CurrentEvents := 0, CurrentErrors := 0\<rparr>)"
  define c where "c = (if TransferMethod (requests x r) = SdTransferMethodPio then MshcEnableInterrupts (MSHC_INT_RXDR OR MSHC_INT_TXDR) 0 b else b)"
  have "same_driver b c" unfolding c_def by (auto intro: same_enable)
  then have s: "same_driver b (send_command C r response x)"
    unfolding send_command_def Let_def a_def [symmetric] by (auto simp: b_def c_def intro!: same_write2 same_enable)
  note f = same_driver_fields [OF s] and g = same_driver_fields [OF a]
  show "requests (send_command C r response x) = (requests x)(r := (requests x r)\<lparr>RequiredEvents := required_events C (requests x r)\<rparr>)"
    "OutstandingRequest (send_command C r response x) = OutstandingRequest x"
    "completedRequests (send_command C r response x) = completedRequests x"
    "busyWorkQueued (send_command C r response x) = busyWorkQueued x"
    "LocalRequestPending (send_command C r response x) = LocalRequestPending x"
    unfolding f by (simp_all add: b_def g)
qed

text \<open>Issuing a command: the request owes its events, unless it is refused.\<close>

lemma books_send_command:
  assumes "MshcSendCommand C r x = Some (status, y)" "sdport_codes_ok C" "books r issued lost x" "\<not> owed r x" "OutstandingRequest x = Some r"
  shows "books r (if status = STATUS_PENDING then Suc issued else issued) lost y \<and> status \<noteq> STATUS_SUCCESS"
proof -
  obtain st a where b: "(if has_transfer (requests x r) then MshcBuildTransfer (requests x r) x else Some (STATUS_SUCCESS, x)) = Some (st, a)"
    using assms(1) by (auto simp: MshcSendCommand_def split: option.splits)
  have a: "same_books x a" using b build_books by (auto simp: same_books_def split: if_splits)
  have st: "st = STATUS_SUCCESS \<or> st = STATUS_NOT_SUPPORTED"
    using b by (auto simp: MshcBuildTransfer_def MshcBuildPioTransfer_def MshcBuildDmaTransfer_def Let_def
      split: if_splits SDPORT_TRANSFER_METHOD.splits option.splits)
  have ba: "books r issued lost a" using assms(3) books_same a unfolding same_books_def by blast
  show ?thesis
  proof (cases "st = STATUS_SUCCESS \<and> response_bits (ResponseType (requests a r)) \<noteq> None")
    case True
    then obtain response where "response_bits (ResponseType (requests a r)) = Some response" by auto
    then have y: "status = STATUS_PENDING" "y = send_command C r response a" using assms(1) b True by (auto simp: MshcSendCommand_def)
    show ?thesis using assms(3-5) a required_nonzero [OF assms(2)]
      by (auto simp: y books_def owed_def send_command_books same_books_def)
  next
    case False
    then have "y = a \<and> (status = STATUS_NOT_SUPPORTED \<or> status = STATUS_INVALID_PARAMETER)"
      using assms(1) b st by (auto simp: MshcSendCommand_def)
    then show ?thesis using ba by auto
  qed
qed

lemma read_port_books:
  "RequiredEvents (requests (MshcReadDataPort r pos n x) k) = RequiredEvents (requests x k)"
  "OutstandingRequest (MshcReadDataPort r pos n x) = OutstandingRequest x"
  "completedRequests (MshcReadDataPort r pos n x) = completedRequests x"
  "busyWorkQueued (MshcReadDataPort r pos n x) = busyWorkQueued x"
  "LocalRequestPending (MshcReadDataPort r pos n x) = LocalRequestPending x"
  by (induction r pos n x rule: MshcReadDataPort.induct) (simp_all add: MshcReadDevice_def Let_def)

lemma same_write_port: "same_driver x (MshcWriteDataPort r pos n x)"
proof (induction n arbitrary: pos x)
  case (Suc n)
  then show ?case using same_write same_driver_trans by (simp, blast)
qed simp

lemma books_start_pio:
  assumes "MshcStartPioTransfer n dispatch C crashdump r x = Some (status, y)" "sdport_codes_ok C" "books r issued lost x" "\<not> owed r x"
    "OutstandingRequest x = Some r"
  shows "books r (Suc issued) lost y \<and> status = STATUS_PENDING"
proof -
  define a where "a = (if TransferDirection (requests x r) = SdTransferDirectionRead
               then MshcReadDataPort r (DataOffset (requests x r) div 4) (unat (FifoThreshold x)) (x\<lparr>CurrentEvents := 0\<rparr>)
               else MshcWriteDataPort r (DataOffset (requests x r) div 4) (unat (FifoThreshold x)) (x\<lparr>CurrentEvents := 0\<rparr>))"
  define b where "b = (if crashdump then a else MshcAcknowledgeInterrupts (MSHC_INT_RXDR OR MSHC_INT_TXDR) 0 a)"
  define c where "c = b\<lparr>CurrentTransferRemainingLength := CurrentTransferRemainingLength b - FifoThreshold x * 4\<rparr>"
  have a: "RequiredEvents (requests a r) = RequiredEvents (requests x r)" "OutstandingRequest a = OutstandingRequest x"
    "completedRequests a = completedRequests x" "busyWorkQueued a = busyWorkQueued x" "LocalRequestPending a = LocalRequestPending x"
    using same_driver_fields [OF same_write_port] by (simp_all add: a_def read_port_books)
  have "same_driver a b" by (simp add: b_def same_ack)
  note bf = same_driver_fields [OF this]
  have c: "RequiredEvents (requests c r) = 0" "OutstandingRequest c = Some r" "completedRequests c = completedRequests x"
    "\<not> busyWorkQueued c" "\<not> LocalRequestPending c" "issued = length (completedRequests x) \<or> lost" "length (completedRequests x) \<le> issued"
    using assms(3-5) by (auto simp: c_def bf a books_def owed_def)
  have eq: "Some (status, y) = (if CurrentTransferRemainingLength c > 0 then
           Some (STATUS_PENDING,
             MshcEnableInterrupts (MSHC_INT_RXDR OR MSHC_INT_TXDR) 0
               (change_request r (\<lambda>q. q\<lparr>DataOffset := DataOffset q + unat (FifoThreshold x * 4),
                  RequiredEvents := RequiredEvents q OR buffer_event C q, reqStatus := STATUS_MORE_PROCESSING_REQUIRED\<rparr>) c))
         else let x' = change_request r (\<lambda>q. q\<lparr>reqStatus := STATUS_SUCCESS\<rparr>) c
              in if has (CurrentEvents x) (SDPORT_EVENT_CARD_RW_END C)
                 then map_option (Pair STATUS_PENDING) (MshcCompleteRequest n dispatch r STATUS_SUCCESS x')
                 else Some (STATUS_PENDING,
                   change_request r (\<lambda>q. q\<lparr>RequiredEvents := RequiredEvents q OR SDPORT_EVENT_CARD_RW_END C\<rparr>) x'))"
    using assms(1) by (simp add: MshcStartPioTransfer_def Let_def a_def b_def c_def cong: if_cong)
  have fin: "books r (Suc issued) lost z" if "MshcCompleteRequest n dispatch r STATUS_SUCCESS (change_request r (\<lambda>q. q\<lparr>reqStatus := STATUS_SUCCESS\<rparr>) c) = Some z" for z
    by (rule books_complete [OF that]) (use c in auto)
  note ef = same_driver_fields [OF same_enable]
  consider "CurrentTransferRemainingLength c > 0"
    | "\<not> CurrentTransferRemainingLength c > 0" "has (CurrentEvents x) (SDPORT_EVENT_CARD_RW_END C)"
    | "\<not> CurrentTransferRemainingLength c > 0" "\<not> has (CurrentEvents x) (SDPORT_EVENT_CARD_RW_END C)" by blast
  then show ?thesis
  proof cases
    case 1
    then show ?thesis using eq c codes_nonzero [OF assms(2)] by (auto simp: books_def owed_def ef)
  next
    case 2
    then show ?thesis using eq [symmetric] fin by (auto simp: Let_def)
  next
    case 3
    then show ?thesis using eq c codes_nonzero [OF assms(2)] by (auto simp: Let_def books_def owed_def)
  qed
qed

lemma books_start_dma:
  assumes "MshcStartDmaTransfer n dispatch r x = Some (status, y)" "books r issued lost x" "\<not> owed r x" "OutstandingRequest x = Some r"
  shows "books r (Suc issued) lost y \<and> status = STATUS_SUCCESS"
proof -
  obtain z where z: "MshcCompleteRequest n dispatch r STATUS_SUCCESS
         (change_request r (\<lambda>q. q\<lparr>reqStatus := STATUS_SUCCESS\<rparr>) (x\<lparr>CurrentTransferRemainingLength := 0\<rparr>)) = Some z" "y = z" "status = STATUS_SUCCESS"
    using assms(1) by (auto simp: MshcStartDmaTransfer_def)
  have "books r (Suc issued) lost z"
    by (rule books_complete [OF z(1)]) (use assms(2-4) in \<open>auto simp: books_def owed_def\<close>)
  then show ?thesis using z by simp
qed

text \<open>What the port driver learns: a request counts as handed over when the status is pending or success.\<close>

definition accepted :: "NTSTATUS \<Rightarrow> bool" where
  "accepted status \<longleftrightarrow> status = STATUS_PENDING \<or> status = STATUS_SUCCESS"

lemma books_issue:
  assumes "MshcSlotIssueRequest n dispatch C crashdump r x = Some (status, y)" "sdport_codes_ok C"
    "books q issued lost x" "issued = length (completedRequests x)" "RequiredEvents (requests x r) = 0"
  shows "books r (if accepted status then Suc issued else issued) lost y"
proof -
  have x: "\<not> busyWorkQueued x" "\<not> LocalRequestPending x" using assms(3,4) by (auto simp: books_def owed_def split: if_splits)
  then have b: "books r issued lost (x\<lparr>OutstandingRequest := Some r\<rparr>)" "\<not> owed r (x\<lparr>OutstandingRequest := Some r\<rparr>)"
    using assms(4,5) by (auto simp: books_def owed_def)
  let ?x = "x\<lparr>OutstandingRequest := Some r\<rparr>"
  have o: "OutstandingRequest ?x = Some r" by simp
  note send = books_send_command [OF _ assms(2) b o]
  have "books r (if accepted status then Suc issued else issued) lost y" if "MshcSendCommand C r ?x = Some (status, y)"
    using send [OF that] by (auto simp: accepted_def split: if_splits)
  moreover have "books r (if accepted status then Suc issued else issued) lost y" if "MshcStartTransfer n dispatch C crashdump r ?x = Some (status, y)"
    using that books_start_pio [OF _ assms(2) b o] books_start_dma [OF _ b o] b(1)
    by (auto simp: MshcStartTransfer_def accepted_def split: SDPORT_TRANSFER_METHOD.splits)
  ultimately show ?thesis using assms(1) b(1)
    by (auto simp: MshcSlotIssueRequest_def Let_def accepted_def split: SDPORT_REQUEST_TYPE.splits)
qed

lemma books_interrupt:
  assumes "books r issued lost x" "MshcSlotInterrupt C crashdump x = (res, y)"
  shows "books r issued lost y"
proof -
  obtain i a where a: "MshcReadDevice MSHC_RINTSTS x = (i, a)" by fastforce
  obtain d b where b: "MshcReadDevice MSHC_IDSTS a = (d, b)" by fastforce
  have "same_driver x b" using same_read [of x MSHC_RINTSTS] same_read [of a MSHC_IDSTS] a b same_driver_trans by auto
  then have "same_driver x (MshcAcknowledgeInterrupts i d b)" "same_driver x b" using same_ack same_driver_trans by blast+
  then have s: "same_driver x (MshcAcknowledgeInterrupts i d b)" "same_driver x b"
    "same_driver x (MshcDisableInterrupts m 0 (MshcAcknowledgeInterrupts i d b))" for m
    using same_disable same_driver_trans by blast+
  have l: "\<not> LocalRequestPending x" using assms(1) by (simp add: books_def)
  have "same_books x y" using assms(2) s [THEN same_driver_books] l same_driver_fields(8) [OF s(1)] same_driver_fields(8) [OF s(3)]
    by (auto simp: MshcSlotInterrupt_def a b Let_def split: if_splits prod.splits)
  then show ?thesis using assms(1) books_same unfolding same_books_def by blast
qed

lemma books_worker:
  assumes "run_busy_work_item n x = Some y" "busyWorkQueued x" "books r issued lost x"
  shows "books r issued lost y"
proof -
  let ?x = "x\<lparr>busyWorkQueued := False\<rparr>"
  obtain st a where a: "MshcWaitDataIdle ?x = (st, a)" by fastforce
  note f = same_driver_fields [OF same_idle [of ?x, unfolded a snd_conv]]
  have o: "OutstandingRequest a = Some r" using assms(2,3) f(2) by (simp add: books_def owed_def)
  have "MshcCompleteRequest n False r st a = Some y" using assms(1) a o by (simp add: run_busy_work_item_def)
  then show ?thesis by (rule books_complete [OF _ o]) (use assms(2,3) f in \<open>auto simp: books_def owed_def\<close>)
qed

end
