(* ===== verification/RockchipTuning.thy ===== *)
theory RockchipTuning imports RockchipOps begin

text \<open>
  Tuning finds a working sample phase: the trials of the scan over the phases, its invariant, what merging the
  ends and choosing the middle of the longest range give, and the result of the whole routine for any tuning
  command that keeps the card clock. Theory MshcTuning applies it to the driver's own tuning command.
\<close>

section \<open>The trials\<close>

text \<open>The tuning command leaves the card clock alone.\<close>

definition keeps_clock :: "tuning_command \<Rightarrow> bool" where
  "keeps_clock send \<longleftrightarrow> (\<forall>y. RkCardClockHz (snd (send y)) = RkCardClockHz y)"

text \<open>
  The tuning commands of a scan from phase \<open>i\<close> on: each phase that is tried, with the slot at which the command
  is sent, the sample register set to that phase. After a failure phases are skipped.
\<close>

function tuning_trials :: "tuning_command \<Rightarrow> nat \<Rightarrow> MSHC_EXTENSION \<Rightarrow> (nat \<times> MSHC_EXTENSION) list" where
  "tuning_trials send i x =
     (if i < NUM_PHASES
      then let y = MshcWriteRegister MSHC_TIMING_CON1 (phase_value (RkCardClockHz x) (of_nat i)) x
           in (i, y) # tuning_trials send (next_phase (NT_SUCCESS (fst (send y))) i) (snd (send y))
      else [])"
  by pat_completeness auto

termination
  by (relation "measure (\<lambda>(send, i, x). NUM_PHASES - i)")
    (use next_phase_greater in \<open>auto intro: diff_less_mono2 dest: less_le_trans\<close>)

declare tuning_trials.simps [simp del]

definition trial_works :: "tuning_command \<Rightarrow> (nat \<times> MSHC_EXTENSION) list \<Rightarrow> nat \<Rightarrow> bool" where
  "trial_works send T i \<longleftrightarrow> (\<exists>y. map_of T i = Some y \<and> NT_SUCCESS (fst (send y)))"

definition trial_fails :: "tuning_command \<Rightarrow> (nat \<times> MSHC_EXTENSION) list \<Rightarrow> nat \<Rightarrow> bool" where
  "trial_fails send T i \<longleftrightarrow> (\<exists>y. map_of T i = Some y \<and> \<not> NT_SUCCESS (fst (send y)))"

lemma trials_from:
  "(j, y) \<in> set (tuning_trials send i x) \<Longrightarrow> keeps_clock send \<Longrightarrow>
     i \<le> j \<and> RkCardClockHz y = RkCardClockHz x \<and> MshcReadRegister MSHC_TIMING_CON1 y = phase_value (RkCardClockHz x) (of_nat j)"
proof (induction send i x rule: tuning_trials.induct)
  case (1 send i x)
  let ?y = "MshcWriteRegister MSHC_TIMING_CON1 (phase_value (RkCardClockHz x) (of_nat i)) x"
  have i: "i < NUM_PHASES" using "1.prems"(1) by (subst (asm) tuning_trials.simps) (auto split: if_splits)
  have clock: "RkCardClockHz ?y = RkCardClockHz x" by (simp add: MshcWriteRegister_def)
  then have later: "RkCardClockHz (snd (send ?y)) = RkCardClockHz x" using "1.prems"(2) by (simp add: keeps_clock_def)
  show ?case
  proof (cases "(j, y) = (i, ?y)")
    case True
    then show ?thesis using clock by simp
  next
    case False
    then have "(j, y) \<in> set (tuning_trials send (next_phase (NT_SUCCESS (fst (send ?y))) i) (snd (send ?y)))"
      using "1.prems"(1) i by (subst (asm) tuning_trials.simps) (auto simp: Let_def)
    from "1.IH" [OF i refl this "1.prems"(2)] show ?thesis
      using later next_phase_greater [OF i, of "NT_SUCCESS (fst (send ?y))"] by auto
  qed
qed

lemma index_phase: "RANGE_INDEX_TO_PHASE i NUM_PHASES = i"
  by (simp add: RANGE_INDEX_TO_PHASE_def NUM_PHASES_def)

lemma try_phase_sends:
  fixes i x
  assumes "1000 \<le> RkCardClockHz x"
  defines "y \<equiv> MshcWriteRegister MSHC_TIMING_CON1 (phase_value (RkCardClockHz x) (of_nat i)) x"
  shows "try_phase send i x = (NT_SUCCESS (fst (send y)), snd (send y))"
  using leD [OF assms(1)] by (simp add: y_def try_phase_def MshcRk3576SetPhase_def index_phase split: prod.split)

section \<open>The scan\<close>

definition all_good :: "(nat \<Rightarrow> bool) \<Rightarrow> int \<Rightarrow> int \<Rightarrow> bool" where
  "all_good g s e \<longleftrightarrow> (\<forall>i. s \<le> i \<longrightarrow> i \<le> e \<longrightarrow> g (nat i))"

definition plain_range :: "(nat \<Rightarrow> bool) \<Rightarrow> nat \<Rightarrow> int \<times> int \<Rightarrow> bool" where
  "plain_range g n r \<longleftrightarrow> 0 \<le> fst r \<and> fst r \<le> snd r \<and> snd r < int n \<and> all_good g (fst r) (snd r)"

definition scan_inv :: "(nat \<Rightarrow> bool) \<Rightarrow> nat \<Rightarrow> bool \<Rightarrow> bool \<Rightarrow> bool \<Rightarrow> (int \<times> int) list \<Rightarrow> bool" where
  "scan_inv g index current previous first ranges \<longleftrightarrow>
     index \<le> NUM_PHASES \<and> current = previous
     \<and> list_all (plain_range g index) ranges
     \<and> (if previous then ranges \<noteq> [] \<and> snd (last ranges) = int index - 1
        else ranges = [] \<or> snd (last ranges) + 1 < int index)
     \<and> (first \<longrightarrow> ranges \<noteq> [] \<and> fst (hd ranges) = 0)
     \<and> (1 < length ranges \<longrightarrow> snd (hd ranges) + 1 < fst (last ranges))
     \<and> 2 * length ranges \<le> index + (if previous then 1 else 0)"

lemma plain_range_mono: "plain_range g n r \<Longrightarrow> n \<le> m \<Longrightarrow> plain_range g m r"
  by (simp add: plain_range_def)

lemma scan_inv_bad:
  assumes "scan_inv g i c p f ranges" "i < NUM_PHASES" "\<not> g i"
  shows "scan_inv g (next_phase False i) False False (if i = 0 then False else f) ranges"
proof -
  let ?n = "next_phase False i"
  have n: "i < ?n" "?n \<le> NUM_PHASES" using next_phase_greater [OF assms(2)] by blast+
  have "list_all (plain_range g ?n) ranges"
    using assms(1) n(1) by (auto simp: scan_inv_def list_all_iff intro: plain_range_mono)
  then show ?thesis using assms(1) n by (auto simp: scan_inv_def split: if_splits)
qed

lemma scan_inv_good:
  assumes "scan_inv g i c p f ranges" "i < NUM_PHASES" "g i"
  shows "scan_inv g (i + 1) True True (if i = 0 then True else f) (extend_ranges p i ranges)"
proof (cases p)
  case False
  have one: "plain_range g (i + 1) (int i, int i)" using assms(3) by (simp add: plain_range_def all_good_def)
  have "snd (hd ranges) + 1 < int i" if "ranges \<noteq> []"
  proof (cases "1 < length ranges")
    case True
    then have "last ranges \<in> set ranges" by (intro last_in_set) auto
    then have "fst (last ranges) \<le> snd (last ranges)" using assms(1) by (auto simp: scan_inv_def list_all_iff plain_range_def)
    then show ?thesis using assms(1) that True False by (auto simp: scan_inv_def)
  next
    case 2: False
    then have "hd ranges = last ranges" using that by (cases ranges) auto
    then show ?thesis using assms(1) that False by (auto simp: scan_inv_def)
  qed
  moreover have "ranges = []" if "i = 0"
    using assms(1) that by (cases ranges) (auto simp: scan_inv_def plain_range_def)
  ultimately show ?thesis using assms one False
    by (auto simp: scan_inv_def extend_ranges_def list_all_iff hd_append intro: plain_range_mono)
next
  case True
  then have r: "ranges \<noteq> []" "snd (last ranges) = int i - 1" using assms(1) by (auto simp: scan_inv_def)
  then have split: "ranges = butlast ranges @ [last ranges]" by simp
  have old: "plain_range g i (last ranges)" using assms(1) r by (auto simp: scan_inv_def list_all_iff)
  then have i0: "i \<noteq> 0" using r by (auto simp: plain_range_def)
  have "g (nat j)" if "fst (last ranges) \<le> j" "j \<le> int i" for j
  proof (cases "j = int i")
    case False
    then show ?thesis using old that r by (auto simp: plain_range_def all_good_def)
  qed (use assms(3) in simp)
  then have new: "plain_range g (i + 1) (fst (last ranges), int i)"
    using old by (auto simp: plain_range_def all_good_def)
  have "plain_range g (i + 1) r" if "r \<in> set (butlast ranges)" for r
    using plain_range_mono [of g i r "i + 1"] in_set_butlastD [OF that] assms(1) by (simp add: scan_inv_def list_all_iff)
  then have rest: "list_all (plain_range g (i + 1)) (butlast ranges)" by (simp add: list_all_iff)
  have hd: "hd (butlast ranges @ [(fst (last ranges), int i)]) = (if length ranges = 1 then (fst (last ranges), int i) else hd ranges)"
    using r by (cases ranges rule: rev_cases) (auto simp: hd_append)
  have "fst (hd ranges) = 0 \<Longrightarrow> length ranges = 1 \<Longrightarrow> fst (last ranges) = 0" by (cases ranges) auto
  then show ?thesis using assms(1,2) True i0 new rest hd r
    by (auto simp: scan_inv_def extend_ranges_def)
qed

lemma next_phase_ok: "next_phase True i = Suc i"
  by (simp add: next_phase_def)

text \<open>The whole scan, with what it says when no range was found.\<close>

definition none_found :: "(nat \<Rightarrow> bool) \<Rightarrow> nat \<Rightarrow> (int \<times> int) list \<Rightarrow> bool" where
  "none_found g index ranges \<longleftrightarrow>
     (ranges = [] \<longrightarrow> (index < NUM_PHASES \<longrightarrow> index mod 20 = 0 \<or> index = 359)
        \<and> (\<forall>j < index. j mod 20 = 0 \<or> j = 359 \<longrightarrow> \<not> g j))"

lemma none_found_bad:
  assumes "none_found g i ranges" "i < NUM_PHASES" "\<not> g i"
  shows "none_found g (next_phase False i) ranges"
proof (cases "ranges = []")
  case True
  have skip: "PHASE_TO_RANGE_INDEX BAD_PHASES_TO_SKIP NUM_PHASES = 20"
    by (simp add: PHASE_TO_RANGE_INDEX_def BAD_PHASES_TO_SKIP_def NUM_PHASES_def)
  have i: "i mod 20 = 0 \<or> i = 359" and old: "\<And>j. j < i \<Longrightarrow> j mod 20 = 0 \<or> j = 359 \<Longrightarrow> \<not> g j"
    using assms(1,2) True by (auto simp: none_found_def)
  let ?n = "next_phase False i"
  have n: "(?n < NUM_PHASES \<longrightarrow> ?n mod 20 = 0 \<or> ?n = 359) \<and> (\<forall>j. i < j \<and> j < ?n \<longrightarrow> j mod 20 \<noteq> 0 \<and> j \<noteq> 359)"
  proof (cases "i = 359")
    case True
    then show ?thesis by (simp add: next_phase_def NUM_PHASES_def)
  next
    case False
    then obtain k where k: "i = 20 * k" using i by fastforce
    then have "k < 18" using assms(2) by (simp add: NUM_PHASES_def)
    then have "?n = (if k = 17 then 359 else 20 * k + 20)"
      using False k by (auto simp: next_phase_def skip [unfolded NUM_PHASES_def] NUM_PHASES_def Let_def)
    moreover have "j mod 20 \<noteq> 0" if "20 * k < j" "j < 20 * k + 20" for j
      using that mod_add_self1 [of 20] by (metis add.commute dvd_def less_mult_imp_div_less mod_0_imp_dvd mult.commute
          mult_Suc_right nat_mult_less_cancel1 not_less_eq zero_less_numeral)
    ultimately show ?thesis using k \<open>k < 18\<close> by (auto simp: NUM_PHASES_def)
  qed
  have "\<not> g j" if "j < ?n" "j mod 20 = 0 \<or> j = 359" for j
    using old [of j] n that assms(3) by (metis linorder_neqE_nat)
  then show ?thesis using n True by (simp add: none_found_def)
qed (simp add: none_found_def)

lemma none_found_good: "none_found g j (extend_ranges p i ranges)"
  by (simp add: none_found_def extend_ranges_def)

lemma scan_result:
  fixes T send
  defines "g \<equiv> trial_works send T" and "h \<equiv> \<lambda>j. \<not> trial_fails send T j"
  assumes "keeps_clock send" "1000 \<le> rate" "RkCardClockHz x = rate"
    "\<And>j. i \<le> j \<Longrightarrow> map_of T j = map_of (tuning_trials send i x) j"
    "scan_inv g i c p f ranges" "none_found h i ranges"
    "tuning_scan send i c p f ranges x = ((f', c', ranges'), x')"
  shows "scan_inv g NUM_PHASES c' c' f' ranges' \<and> none_found h NUM_PHASES ranges' \<and> RkCardClockHz x' = rate"
  using assms(5-)
proof (induction "NUM_PHASES - i" arbitrary: i c p f ranges x rule: less_induct)
  case less
  show ?case
  proof (cases "i < NUM_PHASES")
    case False
    then have "tuning_scan send i c p f ranges x = ((f, c, ranges), x)" by (simp add: tuning_scan.simps [of send i])
    moreover have "i = NUM_PHASES" "c = p" using False less.prems(3) by (auto simp: scan_inv_def)
    ultimately show ?thesis using less.prems by simp
  next
    case True
    let ?y = "MshcWriteRegister MSHC_TIMING_CON1 (phase_value (RkCardClockHz x) (of_nat i)) x"
    let ?ok = "NT_SUCCESS (fst (send ?y))" and ?z = "snd (send ?y)"
    have rate: "1000 \<le> RkCardClockHz x" using assms(4) less.prems(1) by simp
    have T: "tuning_trials send i x = (i, ?y) # tuning_trials send (next_phase ?ok i) ?z"
      using True by (subst tuning_trials.simps) (simp add: Let_def)
    then have "map_of T i = Some ?y" using less.prems(2) [of i] by simp
    then have good: "g i = ?ok" and bad: "h i = ?ok" by (simp_all add: g_def h_def trial_works_def trial_fails_def)
    have next_i: "i < next_phase ?ok i" using next_phase_greater [OF True] by blast
    have clock: "RkCardClockHz ?z = rate" using assms(3) less.prems(1) by (simp add: keeps_clock_def MshcWriteRegister_def)
    have rest: "map_of T j = map_of (tuning_trials send (next_phase ?ok i) ?z) j" if "next_phase ?ok i \<le> j" for j
      using less.prems(2) [of j] that next_i by (simp add: T)
    have rec: "tuning_scan send (next_phase ?ok i) ?ok ?ok (if i = 0 then ?ok else f)
        (if ?ok then extend_ranges p i ranges else ranges) ?z = ((f', c', ranges'), x')"
      using less.prems(5) True try_phase_sends [OF rate, of send i] by (simp add: tuning_scan.simps [of send i])
    have step: "NUM_PHASES - next_phase ?ok i < NUM_PHASES - i" using next_i True by linarith
    have inv: "scan_inv g (next_phase ?ok i) ?ok ?ok (if i = 0 then ?ok else f) (if ?ok then extend_ranges p i ranges else ranges)"
      using scan_inv_bad [OF less.prems(3) True] scan_inv_good [OF less.prems(3) True] good
      by (cases ?ok; cases "i = 0") (simp_all add: next_phase_ok)
    have nf: "none_found h (next_phase ?ok i) (if ?ok then extend_ranges p i ranges else ranges)"
      using none_found_bad [OF less.prems(4) True] none_found_good bad by (cases ?ok) simp_all
    show ?thesis by (rule less.hyps [OF step clock rest inv nf rec])
  qed
qed

section \<open>Merging and choosing\<close>

text \<open>A range after merging: a plain one, or one that wraps around behind the last phase.\<close>

definition good_range :: "(nat \<Rightarrow> bool) \<Rightarrow> int \<times> int \<Rightarrow> bool" where
  "good_range g r \<longleftrightarrow> 0 \<le> fst r \<and> fst r < 360 \<and> 0 \<le> snd r \<and> snd r < 360
     \<and> (fst r \<le> snd r \<and> all_good g (fst r) (snd r)
        \<or> snd r + 1 < fst r \<and> all_good g (fst r) 359 \<and> all_good g 0 (snd r))"

lemma plain_good: "plain_range g NUM_PHASES r \<Longrightarrow> good_range g r"
  by (auto simp: plain_range_def good_range_def NUM_PHASES_def)

lemma merge_good:
  assumes "scan_inv g NUM_PHASES c c f ranges" "ranges \<noteq> []"
  shows "merge_ranges f c ranges \<noteq> []" "list_all (good_range g) (merge_ranges f c ranges)"
proof -
  show "merge_ranges f c ranges \<noteq> []" using assms(2)
    by (auto simp: merge_ranges_def simp flip: length_greater_0_conv)
  have plain: "list_all (plain_range g NUM_PHASES) ranges" using assms(1) by (simp add: scan_inv_def)
  then have good: "list_all (good_range g) ranges" by (auto simp: list_all_iff intro: plain_good)
  show "list_all (good_range g) (merge_ranges f c ranges)"
  proof (cases "1 < length ranges \<and> f \<and> c")
    case False
    then have "merge_ranges f c ranges = ranges" unfolding merge_ranges_def by (simp only: if_False)
    then show ?thesis using good by simp
  next
    case True
    then obtain r rs l where r: "ranges = r # rs @ [l]"
      by (metis append_butlast_last_id assms(2) length_0_conv length_Cons less_Suc_eq_0_disj list.collapse list.size(3) nat_neq_iff One_nat_def)
    have inv: "fst r = 0" "snd l = 359" "snd r + 1 < fst l"
      using assms(1) True r by (auto simp: scan_inv_def NUM_PHASES_def)
    have pr: "plain_range g NUM_PHASES r" "plain_range g NUM_PHASES l" using plain r by simp_all
    have "good_range g (fst l, snd r)"
      using inv pr by (auto simp: good_range_def plain_range_def NUM_PHASES_def)
    then show ?thesis using True good r by (simp add: merge_ranges_def butlast_append)
  qed
qed

lemma range_length_pos: "good_range g r \<Longrightarrow> 0 < range_length r"
  by (auto simp: good_range_def range_length_def NUM_PHASES_def Let_def)

lemma middle_good:
  assumes "good_range g r"
  shows "g (nat ((fst r + range_length r div 2) mod 360))"
proof (cases "fst r \<le> snd r")
  case True
  then have len: "range_length r = snd r - fst r + 1" by (simp add: range_length_def)
  have "fst r \<le> fst r + range_length r div 2" "fst r + range_length r div 2 \<le> snd r" using True unfolding len by presburger+
  moreover from this have "(fst r + range_length r div 2) mod 360 = fst r + range_length r div 2"
    using assms by (intro mod_pos_pos_trivial) (auto simp: good_range_def)
  ultimately show ?thesis using assms True by (auto simp: good_range_def all_good_def)
next
  case False
  then have wrap: "snd r + 1 < fst r" "all_good g (fst r) 359" "all_good g 0 (snd r)" "0 \<le> fst r" "fst r < 360" "0 \<le> snd r"
    using assms by (auto simp: good_range_def)
  have len: "range_length r = snd r - fst r + 361" using wrap by (simp add: range_length_def NUM_PHASES_def)
  let ?m = "fst r + range_length r div 2"
  have m: "fst r \<le> ?m" "?m \<le> snd r + 360" using wrap unfolding len by presburger+
  show ?thesis
  proof (cases "?m < 360")
    case True
    then have "?m mod 360 = ?m" using m wrap by (intro mod_pos_pos_trivial) auto
    then show ?thesis using m wrap True by (auto simp: all_good_def)
  next
    case False
    then have "?m mod 360 = ?m - 360" using m wrap by (subst minus_mod_self2 [symmetric], intro mod_pos_pos_trivial) auto
    then show ?thesis using m wrap False by (auto simp: all_good_def)
  qed
qed

lemma longest_range_spec:
  assumes "longest_range rs i (b, l) = (b', l')"
  shows "(b' = b \<and> l' = l \<or> (\<exists>j < length rs. b' = int (i + j) \<and> l' = range_length (rs ! j)))
    \<and> l \<le> l' \<and> (\<forall>r \<in> set rs. range_length r \<le> l')"
  using assms
proof (induction rs arbitrary: i b l)
  case (Cons r rs)
  have shift: "(\<exists>j < length rs. x = int (Suc i + j) \<and> y = range_length (rs ! j)) \<Longrightarrow>
      \<exists>j < length (r # rs). x = int (i + j) \<and> y = range_length ((r # rs) ! j)" for x y
    by (metis Suc_less_eq add_Suc_shift length_Cons nth_Cons_Suc)
  show ?case
  proof (cases "l < range_length r")
    case True
    then have "longest_range rs (Suc i) (int i, range_length r) = (b', l')" using Cons.prems by simp
    from Cons.IH [OF this] show ?thesis using True shift [of b' l']
      by (auto intro: exI [of _ 0])
  next
    case False
    then have "longest_range rs (Suc i) (b, l) = (b', l')" using Cons.prems by simp
    from Cons.IH [OF this] show ?thesis using False shift [of b' l'] by auto
  qed
qed simp

text \<open>The middle phase lies in a longest range.\<close>

lemma middle_phase_range:
  assumes "ranges \<noteq> []" "list_all (good_range g) ranges"
  shows "\<exists>r \<in> set ranges. middle_phase ranges = (fst r + range_length r div 2) mod 360
    \<and> (\<forall>q \<in> set ranges. range_length q \<le> range_length r)"
proof -
  obtain b l where bl: "longest_range ranges 0 (-1, -1) = (b, l)" by fastforce
  note spec = longest_range_spec [OF bl]
  obtain r0 where "r0 \<in> set ranges" using assms(1) by (cases ranges) auto
  then have "0 < l" using spec range_length_pos assms(2) by (fastforce simp: list_all_iff)
  then obtain j where j: "j < length ranges" "b = int j" "l = range_length (ranges ! j)" using spec by auto
  then have "middle_phase ranges = (fst (ranges ! j) + range_length (ranges ! j) div 2) mod 360"
    by (simp add: middle_phase_def bl NUM_PHASES_def)
  then show ?thesis using j spec by (metis nth_mem)
qed

section \<open>The result\<close>

lemma range_run:
  assumes "good_range g r" "k < nat (range_length r)"
  shows "g ((nat (fst r) + k) mod 360)"
proof (cases "fst r \<le> snd r")
  case True
  then have b: "int k < snd r - fst r + 1" "0 \<le> fst r" "snd r < 360" using assms by (auto simp: range_length_def good_range_def)
  then have "(nat (fst r) + k) mod 360 = nat (fst r + int k)" by (intro mod_less [THEN trans]) (auto simp: nat_add_distrib)
  then show ?thesis using assms(1) True b by (auto simp: good_range_def all_good_def)
next
  case False
  then have wrap: "snd r + 1 < fst r" "all_good g (fst r) 359" "all_good g 0 (snd r)" "0 \<le> fst r" "fst r < 360" "0 \<le> snd r"
    using assms(1) by (auto simp: good_range_def)
  have len: "range_length r = snd r - fst r + 361" using wrap by (simp add: range_length_def NUM_PHASES_def)
  show ?thesis
  proof (cases "nat (fst r) + k < 360")
    case True
    then have "(nat (fst r) + k) mod 360 = nat (fst r + int k)" using wrap by (simp add: nat_add_distrib)
    moreover have "fst r \<le> fst r + int k" "fst r + int k \<le> 359" using True wrap by auto
    ultimately show ?thesis using wrap(2) by (simp add: all_good_def)
  next
    case 2: False
    have "(nat (fst r) + k) mod 360 = nat (fst r + int k - 360)"
    proof -
      have "nat (fst r) + k < 720" "360 \<le> nat (fst r) + k" using 2 wrap assms(2) by (auto simp: len)
      then have "(nat (fst r) + k) mod 360 = nat (fst r) + k - 360" by (simp add: mod_if)
      then show ?thesis using wrap(4) by arith
    qed
    moreover have "0 \<le> fst r + int k - 360" "fst r + int k - 360 \<le> snd r" using 2 wrap assms(2) by (auto simp: len)
    ultimately show ?thesis using wrap(3) by (simp add: all_good_def)
  qed
qed

lemma range_middle:
  assumes "good_range g r"
  shows "nat ((fst r + range_length r div 2) mod 360) = (nat (fst r) + nat (range_length r) div 2) mod 360"
proof -
  have "0 \<le> fst r" "0 < range_length r" using assms range_length_pos [OF assms] by (simp_all add: good_range_def)
  then have "fst r + range_length r div 2 = int (nat (fst r) + nat (range_length r) div 2)" by simp
  then show ?thesis by (metis nat_int of_nat_mod of_nat_numeral)
qed

lemma range_at_most: "good_range g r \<Longrightarrow> range_length r \<le> 360"
  by (auto simp: good_range_def range_length_def NUM_PHASES_def Let_def)

text \<open>
  On success the sample register is set to the middle of a run of phases, which may wrap around 360 degrees, at all of
  which the trial worked; on failure the trials at the phases 0, 20, ..., 340 and 359 have been made, and failed.
\<close>

lemma tuning_result:
  assumes "keeps_clock send" "1000 \<le> RkCardClockHz x" "MshcRockchipExecuteTuning send x = (status, x')"
  defines "T \<equiv> tuning_trials send 0 x"
  shows "if NT_SUCCESS status
    then \<exists>s n. 0 < n \<and> n \<le> 360 \<and> (\<forall>k<n. trial_works send T ((s + k) mod 360))
         \<and> MshcReadRegister MSHC_TIMING_CON1 x' = phase_value (RkCardClockHz x) (of_nat ((s + n div 2) mod 360))
    else \<forall>j<360. j mod 20 = 0 \<or> j = 359 \<longrightarrow> trial_fails send T j"
proof -
  let ?rate = "RkCardClockHz x" let ?g = "trial_works send T"
  obtain f c ranges x1 where scan: "tuning_scan send 0 False False False [] x = ((f, c, ranges), x1)"
    by (metis prod_cases3 surj_pair)
  have init: "scan_inv ?g 0 False False False []" "none_found (\<lambda>j. \<not> trial_fails send T j) 0 []"
    by (simp_all add: scan_inv_def none_found_def)
  note res = scan_result [OF assms(1,2) refl _ init scan, unfolded T_def, OF refl, folded T_def]
  have set: "MshcRk3576SetPhase True d x1 = (STATUS_SUCCESS, MshcWriteRegister MSHC_TIMING_CON1 (phase_value ?rate d) x1)" for d
    using res leD [OF assms(2)] by (simp add: MshcRk3576SetPhase_def)
  show ?thesis
  proof (cases "ranges = []")
    case True
    then have "status = STATUS_IO_DEVICE_ERROR" using assms(3) scan by (simp add: MshcRockchipExecuteTuning_def)
    then show ?thesis using res True by (simp add: none_found_def NUM_PHASES_def)
  next
    case False
    let ?m = "merge_ranges f c ranges"
    have ne: "?m \<noteq> []" and good: "list_all (good_range ?g) ?m" using merge_good res False by blast+
    show ?thesis
    proof (cases "fst (?m ! 0) = 0 \<and> snd (?m ! 0) = int NUM_PHASES - 1")
      case True
      have all: "good_range ?g (?m ! 0)" using good ne by (simp add: list_all_iff)
      moreover have len: "nat (range_length (?m ! 0)) = 360" using True by (simp add: range_length_def NUM_PHASES_def)
      ultimately have g: "?g ((180 + k) mod 360)" if "k < 360" for k
        using range_run [OF all, of "(180 + k) mod 360"] True by simp
      have st: "status = STATUS_SUCCESS" "MshcReadRegister MSHC_TIMING_CON1 x' = phase_value ?rate (of_nat ((180 + 360 div 2) mod 360))"
        using assms(3) scan False True by (auto simp: MshcRockchipExecuteTuning_def Let_def set SAMPLE_PHASE_DEFAULT_def)
      have "\<exists>s n. 0 < n \<and> n \<le> 360 \<and> (\<forall>k<n. ?g ((s + k) mod 360))
          \<and> MshcReadRegister MSHC_TIMING_CON1 x' = phase_value ?rate (of_nat ((s + n div 2) mod 360))"
        by (rule exI [of _ 180], rule exI [of _ 360]) (use g st(2) in auto)
      then show ?thesis using st(1) by simp
    next
      case False
      obtain r where r: "middle_phase ?m = (fst r + range_length r div 2) mod 360" "r \<in> set ?m"
        using middle_phase_range [OF ne good] by blast
      then have g: "good_range ?g r" using good by (simp add: list_all_iff)
      have "status = STATUS_SUCCESS \<and> MshcReadRegister MSHC_TIMING_CON1 x' = phase_value ?rate (of_nat (nat (middle_phase ?m)))"
        using assms(3) scan \<open>ranges \<noteq> []\<close> False by (auto simp: MshcRockchipExecuteTuning_def Let_def set index_phase)
      moreover have "\<forall>k<nat (range_length r). ?g ((nat (fst r) + k) mod 360)" using range_run [OF g] by blast
      moreover have "0 < nat (range_length r)" "nat (range_length r) \<le> 360" using range_length_pos [OF g] range_at_most [OF g] by simp_all
      ultimately have "status = STATUS_SUCCESS" "\<exists>s n. 0 < n \<and> n \<le> 360 \<and> (\<forall>k<n. ?g ((s + k) mod 360))
          \<and> MshcReadRegister MSHC_TIMING_CON1 x' = phase_value ?rate (of_nat ((s + n div 2) mod 360))"
        unfolding r(1) range_middle [OF g] by blast+
      then show ?thesis by simp
    qed
  qed
qed

definition demo_request :: SDPORT_REQUEST where
  "demo_request = \<lparr>reqType = SdRequestTypeCommandNoTransfer, cmdIndex = 0, Argument = 0, ResponseType = SdResponseTypeNone,
     TransferType = SdTransferTypeNone, TransferDirection = SdTransferDirectionUndefined, TransferMethod = SdTransferMethodUndefined,
     UseAutoCmd12 = False, BlockCount = 0, BlockSize = 0, Length = 0, DmaPhysicalAddress = 0, Elements = [],
     DataBuffer = (\<lambda>n. 0), DataOffset = 0, RequiredEvents = 0, reqStatus = STATUS_SUCCESS\<rparr>"

definition demo_mshc :: MSHC_EXTENSION where
  "demo_mshc = \<lparr>mshcRegs = (\<lambda>r. 0), mshcDevice = (\<lambda>k r. 0), mshcTick = 0, mshcLog = [], mshcInitialized = True, CoreVersion = 0,
     hostCaps = \<lparr>SpecVersion = 3, MaximumOutstandingRequests = 1, MaximumBlockSize = 0xFFFF, MaximumBlockCount = 0xFFFF,
       DmaDescriptorSize = 16, AlignmentRequirement = 3, PioTransferMaxThreshold = 64, BaseClockFrequencyKhz = 50000,
       UsePioForRead = True, UsePioForWrite = True,
       ScatterGatherDma = True, Address64Bit = False, AutoCmd12 = True, AutoCmd23 = False, SupportedBusWidth8Bit = False, SupportedHighSpeed = True,
       SupportedSDR50 = False, SupportedSDR104 = False, SupportedHS200 = False, TuningForSDR50 = False, SignalingVoltage18V = False,
       SupportedVoltages = {SdBusVoltage33}, SupportedDriverTypes = {CHR ''A'', CHR ''B'', CHR ''C'', CHR ''D''}, CurrentLimits = {200, 400, 600, 800}\<rparr>,
     platformCaps = \<lparr>ClockFrequency = 50000000, MaxFrequency = 50000000, FifoDepth = 256, capBusWidth = 4, SupportHighSpeed = 1,
       SupportDdr50 = 0, SupportSdr50 = 0, SupportSdr104 = 0, SupportHs200 = 0, No18vRegulator = 1, BrokenCd = 0\<rparr>,
     SlotId = 0, CardInitialized = False, CardPowerControlSupported = False, CardRca = 0,
     SignalingVoltage = SdSignalingVoltage33, BusSpeed = SdBusSpeedHigh, BusWidth = SdBusWidth4Bit,
     BusFrequencyKhz = 50000, RkCruMapped = True, RkCruClkSel = 0, RkCardClockHz = 50000000,
     requests = (\<lambda>n. demo_request), OutstandingRequest = None, CurrentEvents = 0, CurrentErrors = 0,
     CurrentTransferRemainingLength = 0, LocalRequestPending = False, localDpcQueued = False, FifoThreshold = 128,
     FifoDmaBurstSize = 2, busyWorkItem = True, busyWorkQueued = False, TuningPerformed = False,
     DataCrcErrorsSinceLastTuning = 0, completedRequests = [], hung = False\<rparr>"

lemma scan_fits:
  assumes "tuning_scan send i c p f ranges x = ((f', c', ranges'), x')" "i \<le> NUM_PHASES"
    "2 * length ranges \<le> i + (if p then 1 else 0)" "p \<longrightarrow> ranges \<noteq> []"
    "list_all (\<lambda>r. 0 \<le> fst r \<and> fst r \<le> snd r \<and> snd r < int i) ranges"
  shows "2 * length ranges' \<le> NUM_PHASES + 1 \<and> list_all (\<lambda>r. 0 \<le> fst r \<and> fst r \<le> snd r \<and> snd r < int NUM_PHASES) ranges'"
  using assms
proof (induction "NUM_PHASES - i" arbitrary: i c p f ranges x rule: less_induct)
  case less
  show ?case
  proof (cases "i < NUM_PHASES")
    case False
    then have "tuning_scan send i c p f ranges x = ((f, c, ranges), x)" by (simp add: tuning_scan.simps [of send i])
    then have "ranges' = ranges" "i = NUM_PHASES" using less.prems(1,2) False by simp_all
    then show ?thesis using less.prems(3,5) by (auto split: if_splits)
  next
    case True
    obtain ok x1 where t: "try_phase send i x = (ok, x1)" by fastforce
    have rec: "tuning_scan send (next_phase ok i) ok ok (if i = 0 then ok else f)
        (if ok then extend_ranges p i ranges else ranges) x1 = ((f', c', ranges'), x')"
      using less.prems(1) True t by (simp add: tuning_scan.simps [of send i])
    have n: "i < next_phase ok i" "next_phase ok i \<le> NUM_PHASES" using next_phase_greater [OF True] by blast+
    have ext: "length (extend_ranges p i ranges) = (if p then length ranges else Suc (length ranges))"
      "extend_ranges p i ranges \<noteq> []"
      using less.prems(4) by (auto simp: extend_ranges_def Suc_leI)
    have "0 \<le> fst (last ranges) \<and> fst (last ranges) \<le> int i" if p
    proof -
      have "last ranges \<in> set ranges" using less.prems(4) that by simp
      then show ?thesis using less.prems(5) by (auto simp: list_all_iff)
    qed
    then have upd: "list_all (\<lambda>r. 0 \<le> fst r \<and> fst r \<le> snd r \<and> snd r < int i + 1) (extend_ranges p i ranges)"
      using less.prems(4,5) by (auto simp: extend_ranges_def list_all_iff dest!: in_set_butlastD)
    have all: "list_all (\<lambda>r. 0 \<le> fst r \<and> fst r \<le> snd r \<and> snd r < int (next_phase ok i)) (if ok then extend_ranges p i ranges else ranges)"
      using upd less.prems(5) n(1) by (cases ok) (fastforce simp: list_all_iff)+
    show ?thesis
      by (rule less.hyps [OF _ rec n(2) _ _ all]) (use n less.prems(3) ext in \<open>auto simp: next_phase_ok split: if_splits\<close>)
  qed
qed

text \<open>Whatever the tuning commands return, the ranges the scan records are in order and within 0..359, and
  there are never more of them than the array on the stack has room for.\<close>

theorem tuning_ranges_fit:
  "\<exists>first current ranges x'. tuning_scan send 0 False False False [] x = ((first, current, ranges), x')
    \<and> length ranges \<le> NUM_PHASES div 2 + 1
    \<and> list_all (\<lambda>r. 0 \<le> fst r \<and> fst r \<le> snd r \<and> snd r < int NUM_PHASES) ranges"
proof -
  obtain f c ranges x1 where scan: "tuning_scan send 0 False False False [] x = ((f, c, ranges), x1)"
    by (metis prod_cases3 surj_pair)
  from scan_fits [OF this] show ?thesis using scan by (auto simp: NUM_PHASES_def)
qed

end
