(* ===== verification/MshcSystem.thy ===== *)
theory MshcSystem imports MshcRequestProofs RockchipTuning begin

text \<open>
  The SD/MMC host driver under the port driver: requests issued one at a time, interrupts, deferred
  procedure calls and the busy work item in any order, and what holds of every reachable state.
\<close>

section \<open>The system\<close>

text \<open>
  \<open>current\<close> is the request the port driver passes to the deferred procedure call, \<open>issued\<close> the number of
  requests the driver has accepted, \<open>lostRequest\<close> whether a deferred procedure call has lost one
  (\<open>dpc_loses\<close>).
\<close>

record sd_system =
  slot :: MSHC_EXTENSION
  current :: nat
  issued :: nat
  lostRequest :: bool

inductive sd_step :: "SDPORT_CODES \<Rightarrow> sd_system \<Rightarrow> sd_system \<Rightarrow> bool" for C where
  issue: "sd_step C s \<lparr>slot = x, current = r, issued = (if accepted status then Suc (issued s) else issued s), lostRequest = lostRequest s\<rparr>"
    if "issued s = length (completedRequests (slot s))" "RequiredEvents (requests (slot s) r) = 0"
      "MshcSlotIssueRequest n dispatch C crashdump r (slot s) = Some (status, x)"
| interrupt: "sd_step C s (s\<lparr>slot := x\<rparr>)" if "MshcSlotInterrupt C crashdump (slot s) = (res, x)"
| dpc: "sd_step C s (s\<lparr>slot := x, lostRequest := lostRequest s \<or> dpc_loses C (current s) events errors (slot s)\<rparr>)"
    if "MshcRequestDpc n C (current s) events errors (slot s) = Some x"
| toggle: "sd_step C s (s\<lparr>slot := MshcSlotToggleEvents C events enable (slot s)\<rparr>)"
| clear: "sd_step C s (s\<lparr>slot := MshcSlotClearEvents C events (slot s)\<rparr>)"
| worker: "sd_step C s (s\<lparr>slot := x\<rparr>)" if "busyWorkQueued (slot s)" "run_busy_work_item n (slot s) = Some x"

inductive_cases sd_stepE: "sd_step C s t"

definition sd_start :: "sd_system \<Rightarrow> bool" where
  "sd_start s \<longleftrightarrow> completedRequests (slot s) = [] \<and> issued s = 0 \<and> \<not> lostRequest s \<and> \<not> busyWorkQueued (slot s)
     \<and> \<not> LocalRequestPending (slot s) \<and> RequiredEvents (requests (slot s) (current s)) = 0"

lemma sd_step_books:
  assumes "sd_step C s t" "sdport_codes_ok C" "books (current s) (issued s) (lostRequest s) (slot s)"
  shows "books (current t) (issued t) (lostRequest t) (slot t)"
  using assms(1)
proof cases
  case (issue r n dispatch crashdump status x)
  then show ?thesis using books_issue [OF issue(4) assms(2,3)] by simp
next
  case (interrupt crashdump res x)
  then show ?thesis using books_interrupt [OF assms(3)] by simp
next
  case (dpc n events errors x)
  then show ?thesis using books_dpc [OF _ assms(3)] by simp
next
  case (toggle events enable)
  have "same_driver (slot s) (MshcSlotToggleEvents C events enable (slot s))"
    by (simp add: MshcSlotToggleEvents_def same_enable same_disable Let_def split: prod.split)
  then have "same_books (slot s) (MshcSlotToggleEvents C events enable (slot s))" by (rule same_driver_books)
  then show ?thesis using toggle assms(3) by (auto simp: same_books_def intro: books_same)
next
  case (clear events)
  have "same_driver (slot s) (MshcSlotClearEvents C events (slot s))"
    by (simp add: MshcSlotClearEvents_def same_ack split: prod.split)
  then have "same_books (slot s) (MshcSlotClearEvents C events (slot s))" by (rule same_driver_books)
  then show ?thesis using clear assms(3) by (auto simp: same_books_def intro: books_same)
next
  case (worker x n)
  then show ?thesis using books_worker [OF _ _ assms(3)] by simp
qed

lemma sd_reachable_books:
  assumes "(sd_step C)\<^sup>*\<^sup>* s t" "sd_start s" "sdport_codes_ok C"
  shows "books (current t) (issued t) (lostRequest t) (slot t)"
  using assms(1)
proof induction
  case base
  show ?case using assms(2) by (simp add: sd_start_def books_def owed_def)
next
  case (step t u)
  then show ?case using sd_step_books assms(3) by blast
qed

text \<open>C22: No request is completed twice, and none is completed that was not issued: in every state reachable
  from an idle driver, whatever the order of requests, interrupts, deferred procedure calls and the busy
  work item, the requests handed back and the one still owed are together at most as many as the requests
  issued, and as many as these unless a deferred procedure call has lost one. A request that is owed is the
  outstanding one, it waits either for events or for the work item.
\<close>

theorem requests_completed_once:
  assumes "(sd_step C)\<^sup>*\<^sup>* s t" "sd_start s" "sdport_codes_ok C"
  shows "(let done' = length (completedRequests (slot t)) + (if owed (current t) (slot t) then 1 else 0)
          in done' \<le> issued t \<and> (if lostRequest t then True else done' = issued t)) \<and>
    (if owed (current t) (slot t) then OutstandingRequest (slot t) = Some (current t) else True) \<and>
    \<not> (RequiredEvents (requests (slot t) (current t)) \<noteq> 0 \<and> busyWorkQueued (slot t))"
  using sd_reachable_books [OF assms] by (auto simp: books_def Let_def)

definition demo_sd :: sd_system where
  "demo_sd = \<lparr>slot = demo_mshc, current = 0, issued = 0, lostRequest = False\<rparr>"

text \<open>A command issued and answered.\<close>

definition demo_issued :: MSHC_EXTENSION where
  "demo_issued = send_command demo_codes 0 0 (demo_mshc\<lparr>OutstandingRequest := Some 0\<rparr>)"

lemma demo_issue: "MshcSlotIssueRequest (Suc 0) True demo_codes False 0 demo_mshc = Some (STATUS_PENDING, demo_issued)"
  by (simp add: MshcSlotIssueRequest_def MshcSendCommand_def has_transfer_def demo_issued_def Let_def demo_mshc_def demo_request_def)

lemma demo_issued_state:
  "requests demo_issued = (\<lambda>n. demo_request)(0 := demo_request\<lparr>RequiredEvents := 1\<rparr>)" "OutstandingRequest demo_issued = Some 0"
  "completedRequests demo_issued = []" "\<not> LocalRequestPending demo_issued" "\<not> busyWorkQueued demo_issued"
  unfolding demo_issued_def send_command_books
  by (simp_all add: demo_mshc_def demo_request_def required_events_def demo_codes_def Let_def)

lemma demo_issued_more: "CurrentErrors demo_issued = 0" "mshcDevice demo_issued = (\<lambda>k r. 0)" "SlotId demo_issued = 0" "platformCaps demo_issued = platformCaps demo_mshc"
  by (simp_all add: demo_issued_def send_command_def demo_mshc_def demo_request_def MshcWriteRegister_def set_request_def Let_def SDCMD_VOLTAGE_SWITCH_def)

lemma demo_dpc: "\<exists>x. MshcRequestDpc (Suc 0) demo_codes 0 1 0 demo_issued = Some x"
  by (simp add: MshcRequestDpc_def Let_def demo_issued_state demo_issued_more demo_request_def waits_for_card_def)

theorem requests_completed_once_witness:
  "\<exists>t. (sd_step demo_codes)\<^sup>*\<^sup>* demo_sd t \<and> length (completedRequests (slot t)) + (if owed 0 (slot t) then 1 else 0) = 1 \<and> issued t = 1"
proof -
  have i: "sd_step demo_codes demo_sd \<lparr>slot = demo_issued, current = 0,
      issued = (if accepted STATUS_PENDING then Suc (issued demo_sd) else issued demo_sd), lostRequest = lostRequest demo_sd\<rparr>"
    by (rule sd_step.issue [where n = "Suc 0" and dispatch = True and crashdump = False])
      (simp_all add: demo_sd_def demo_issue demo_mshc_def [THEN arg_cong, of completedRequests] demo_mshc_def [THEN arg_cong, of requests] demo_request_def)
  obtain x where x: "MshcRequestDpc (Suc 0) demo_codes 0 1 0 demo_issued = Some x" using demo_dpc by blast
  define s where "s = \<lparr>slot = demo_issued, current = 0, issued = 1, lostRequest = False\<rparr>"
  have s: "sd_step demo_codes demo_sd s" using i by (simp add: s_def demo_sd_def accepted_def)
  define t where "t = s\<lparr>slot := x, lostRequest := lostRequest s \<or> dpc_loses demo_codes (current s) 1 0 (slot s)\<rparr>"
  have "sd_step demo_codes s t" unfolding t_def by (rule sd_step.dpc [where n = "Suc 0"]) (simp add: s_def x)
  with s have r: "(sd_step demo_codes)\<^sup>*\<^sup>* demo_sd t" by simp
  have "sd_start demo_sd" by (simp add: sd_start_def demo_sd_def demo_mshc_def demo_request_def)
  from requests_completed_once [OF r this demo_codes_ok] have "length (completedRequests x) + (if owed 0 x then 1 else 0) = 1"
    by (simp add: t_def s_def dpc_loses_def demo_issued_more Let_def split: if_splits)
  then show ?thesis using r by (intro exI [of _ t]) (simp add: t_def s_def)
qed

end
