(* ===== verification/MshcTransfers.thy ===== *)
theory MshcTransfers imports MshcSystem begin

text \<open>
  What the request path of the SD/MMC host driver delivers: completion returns and is not missed, a PIO
  transfer moves the words of the request and no others, and the cases in which it goes wrong.
\<close>

section \<open>Completion returns\<close>

lemma poll_tick: "mshcTick x \<le> mshcTick (snd (poll_register n r ok x)) \<and> (0 < n \<longrightarrow> mshcTick x < mshcTick (snd (poll_register n r ok x)))"
proof (induction n arbitrary: x)
  case (Suc n)
  obtain v y where r: "MshcReadDevice r x = (v, y)" by fastforce
  then have "mshcTick y = Suc (mshcTick x)" by (auto simp: MshcReadDevice_def Let_def)
  then show ?case using Suc.IH [of y] by (auto simp: r)
qed simp

text \<open>Completing a request returns if the card stops being busy: when every status read from the K-th on
  finds the card idle, the completion and the busy worker call each other at most once per read before
  that, so that more fuel than the reads left until then is enough, provided a request is outstanding.
\<close>

theorem complete_request_returns:
  assumes "\<forall>k \<ge> K. \<not> has (mshcDevice x k MSHC_STATUS) MSHC_STATUS_DATA_BUSY" "OutstandingRequest x \<noteq> None" "K - mshcTick x < n"
  shows "\<exists>y. MshcCompleteRequest n dispatch r status x = Some y"
  using assms
proof (induction n arbitrary: r status x)
  case (Suc n)
  define a where "a = change_request r (\<lambda>q. q\<lparr>reqStatus := status\<rparr>) x"
  have ax: "mshcTick a = mshcTick x" "mshcDevice a = mshcDevice x" "OutstandingRequest a = OutstandingRequest x" by (simp_all add: a_def)
  obtain busy b where b: "MshcIsDataBusy a = (busy, b)" by fastforce
  have sb: "same_driver a b" using same_busy [of a] b by simp
  have bt: "busy = has (mshcDevice x (mshcTick x) MSHC_STATUS) MSHC_STATUS_DATA_BUSY" "mshcTick b = Suc (mshcTick x)"
    using b ax by (auto simp: MshcIsDataBusy_def MshcReadDevice_def Let_def)
  obtain st c where c: "MshcWaitDataIdle b = (st, c)" by fastforce
  have sc: "same_driver b c" using same_idle [of b] c by simp
  have ct: "mshcTick b < mshcTick c" using poll_tick [of b 100000] c unfolding MshcWaitDataIdle_def by (metis snd_conv zero_less_numeral)
  note cf = same_driver_fields [OF sc] and bf = same_driver_fields [OF sb]
  have "\<exists>y. MshcCompleteRequestBusyWorker n dispatch b = Some y" if "busy"
  proof -
    have "mshcTick x < K" using that bt(1) Suc.prems(1) by (metis not_le)
    then have k: "K - mshcTick c < n" using Suc.prems(3) bt(2) ct by linarith
    have o: "OutstandingRequest c = OutstandingRequest x" "mshcDevice c = mshcDevice x" using cf bf ax by simp_all
    obtain r' where r': "OutstandingRequest c = Some r'" using o(1) Suc.prems(2) by auto
    have "\<exists>y. MshcCompleteRequest n dispatch r' st c = Some y"
      by (rule Suc.IH) (use Suc.prems(1,2) k o in simp_all)
    then show ?thesis by (simp add: c r')
  qed
  then show ?case using b by (simp add: a_def [symmetric] Let_def)
qed simp

theorem complete_request_returns_witness:
  "\<exists>y. MshcCompleteRequest 3 False 0 STATUS_SUCCESS (demo_mshc\<lparr>OutstandingRequest := Some 0, mshcDevice := (\<lambda>k r. if k < 2 then 0xFFFFFFFF else 0)\<rparr>) = Some y"
  by (rule complete_request_returns [where K = 2]) (simp_all add: demo_mshc_def)

section \<open>Events are not missed\<close>

lemma finish_request_status:
  assumes "reqStatus (requests x r) \<in> {STATUS_SUCCESS, STATUS_MORE_PROCESSING_REQUIRED}" "\<not> LocalRequestPending x"
  shows "\<exists>status \<in> {reqStatus (requests x r), STATUS_IO_DEVICE_ERROR}.
      completedRequests (finish_request r x) = completedRequests x @ [(r, status)] \<and> OutstandingRequest (finish_request r x) = None"
proof -
  define a where "a = x\<lparr>OutstandingRequest := None\<rparr>"
  obtain ins b where b: "MshcIsCardInserted a = (ins, b)" by fastforce
  then have "same_driver a b" using same_inserted [of a] by simp
  note f = same_driver_fields [OF this]
  have "finish_request r x = (let x = (if ins then b else change_request r (\<lambda>q. q\<lparr>reqStatus := STATUS_IO_DEVICE_ERROR\<rparr>) b)
         in x\<lparr>completedRequests := completedRequests x @ [(r, reqStatus (requests x r))]\<rparr>)"
    using b assms f(8) by (auto simp: finish_request_def Let_def a_def)
  then show ?thesis using f by (auto simp: a_def Let_def)
qed

text \<open>A deferred procedure call that brings the last events a request waits for hands it back or queues the
  work item: with no error recorded, either the request is among the completed ones with success, or with
  its own status if more processing is required (or as failed, if the card is gone), or the card is busy
  and the work item is queued for it.
\<close>

theorem dpc_completes:
  assumes "OutstandingRequest x = Some r" "\<not> LocalRequestPending x" "\<not> busyWorkQueued x" "busyWorkItem x"
    "RequiredEvents (requests x r) \<noteq> 0" "RequiredEvents (requests x r) AND NOT events = 0" "CurrentErrors x = 0"
  shows "\<exists>y. MshcRequestDpc (Suc n) C r events 0 x = Some y \<and>
    ((\<exists>status \<in> {STATUS_SUCCESS, STATUS_MORE_PROCESSING_REQUIRED, STATUS_IO_DEVICE_ERROR}.
        completedRequests y = completedRequests x @ [(r, status)] \<and> OutstandingRequest y = None)
     \<or> busyWorkQueued y \<and> OutstandingRequest y = Some r)"
proof -
  define a where "a = change_request r (\<lambda>q. q\<lparr>RequiredEvents := RequiredEvents q AND NOT events\<rparr>)
    (x\<lparr>CurrentEvents := CurrentEvents x OR events, CurrentErrors := CurrentErrors x OR 0\<rparr>)"
  define c where "c = (if reqStatus (requests a r) \<noteq> STATUS_MORE_PROCESSING_REQUIRED
    then change_request r (\<lambda>q. q\<lparr>reqStatus := STATUS_SUCCESS\<rparr>) a else a)"
  define st where "st = reqStatus (requests c r)"
  define d where "d = change_request r (\<lambda>q. q\<lparr>reqStatus := st\<rparr>) c"
  have "events \<noteq> 0" using assms(5,6) by auto
  then have m: "MshcRequestDpc (Suc n) C r events 0 x = MshcCompleteRequest (Suc n) True r st c"
    using assms(1,5-7) by (simp add: MshcRequestDpc_def Let_def a_def c_def st_def cong: if_cong)
  have d: "reqStatus (requests d r) \<in> {STATUS_SUCCESS, STATUS_MORE_PROCESSING_REQUIRED}" "\<not> LocalRequestPending d" "busyWorkItem d"
    "completedRequests d = completedRequests x" "OutstandingRequest d = Some r"
    using assms(1-4) by (simp_all add: d_def c_def a_def st_def)
  obtain busy b where b: "MshcIsDataBusy d = (busy, b)" by fastforce
  have "same_driver d b" using same_busy [of d] b by simp
  note f = same_driver_fields [OF this]
  have fin: "\<exists>status \<in> {STATUS_SUCCESS, STATUS_MORE_PROCESSING_REQUIRED, STATUS_IO_DEVICE_ERROR}.
      completedRequests (finish_request r z) = completedRequests x @ [(r, status)] \<and> OutstandingRequest (finish_request r z) = None"
    if "z = d \<or> z = b" for z
    using that finish_request_status [of z r] d f by auto
  have "MshcCompleteRequest (Suc n) True r st c
    = Some (if \<not> waits_for_card (requests d r) then finish_request r d else if \<not> busy then finish_request r b else b\<lparr>busyWorkQueued := True\<rparr>)"
    using b d f by (simp add: d_def [symmetric] Let_def)
  then show ?thesis unfolding m using fin [of d] fin [of b] d(5) f(2) by auto
qed

theorem dpc_completes_witness:
  "\<exists>y. MshcRequestDpc 1 demo_codes 0 1 0 (set_request 0 (demo_request\<lparr>RequiredEvents := 1\<rparr>) (demo_mshc\<lparr>OutstandingRequest := Some 0\<rparr>)) = Some y \<and>
    ((\<exists>status \<in> {STATUS_SUCCESS, STATUS_MORE_PROCESSING_REQUIRED, STATUS_IO_DEVICE_ERROR}. completedRequests y = [(0, status)] \<and> OutstandingRequest y = None)
     \<or> busyWorkQueued y \<and> OutstandingRequest y = Some 0)"
  using dpc_completes [of "set_request 0 (demo_request\<lparr>RequiredEvents := 1\<rparr>) (demo_mshc\<lparr>OutstandingRequest := Some 0\<rparr>)" 0 1 0 demo_codes]
  by (simp add: demo_mshc_def)

section \<open>A request that is lost\<close>

text \<open>C28: A request whose last event comes together with a timeout that is still to be ended by its own event is
  never completed: the deferred procedure call returns without completing it, and every later one ignores
  it, because it requires no events any more.
\<close>

theorem timeout_loses_request:
  assumes "dpc_loses C r events errors x" "OutstandingRequest x \<noteq> None"
  shows "\<exists>y. MshcRequestDpc n C r events errors x = Some y \<and> completedRequests y = completedRequests x \<and>
    busyWorkQueued y = busyWorkQueued x \<and> OutstandingRequest y = OutstandingRequest x \<and>
    (\<forall>m events' errors'. MshcRequestDpc m C r events' errors' y = Some y)"
proof -
  define a where "a = change_request r (\<lambda>q. q\<lparr>RequiredEvents := RequiredEvents q AND NOT events\<rparr>)
    (x\<lparr>CurrentEvents := CurrentEvents x OR events, CurrentErrors := CurrentErrors x OR errors\<rparr>)"
  have l: "RequiredEvents (requests x r) \<noteq> 0" "RequiredEvents (requests x r) AND NOT events = 0"
    "has (CurrentErrors a) (SDPORT_ERROR_CMD_TIMEOUT C) \<and> \<not> has events (SDPORT_EVENT_CARD_RESPONSE C) \<or>
      has (CurrentErrors a) (SDPORT_ERROR_DATA_TIMEOUT C) \<and> \<not> has events (SDPORT_EVENT_CARD_RW_END C)"
    using assms(1) by (auto simp: dpc_loses_def Let_def a_def)
  then have e: "CurrentErrors a \<noteq> 0" "events \<noteq> 0" by auto
  obtain k where "OutstandingRequest x = Some k" using assms(2) by auto
  then have "MshcRequestDpc n C r events errors x = Some a"
    using l e by (simp add: MshcRequestDpc_def Let_def a_def cong: if_cong)
  moreover have "RequiredEvents (requests a r) = 0" using l by (simp add: a_def)
  then have "\<forall>m events' errors'. MshcRequestDpc m C r events' errors' a = Some a" by (simp add: MshcRequestDpc_def)
  ultimately show ?thesis by (intro exI [of _ a]) (simp add: a_def)
qed

theorem timeout_loses_request_witness:
  "\<exists>y. MshcRequestDpc 1 demo_codes 0 2 1 (set_request 0 (demo_request\<lparr>RequiredEvents := 2\<rparr>) (demo_mshc\<lparr>OutstandingRequest := Some 0\<rparr>)) = Some y
    \<and> completedRequests y = []"
proof -
  let ?x = "set_request 0 (demo_request\<lparr>RequiredEvents := 2\<rparr>) (demo_mshc\<lparr>OutstandingRequest := Some 0\<rparr>)"
  have "dpc_loses demo_codes 0 2 1 ?x" by (simp add: dpc_loses_def demo_codes_def demo_mshc_def has_def Let_def)
  from timeout_loses_request [OF this, of 1] show ?thesis by (auto simp: demo_mshc_def)
qed

section \<open>PIO transfers\<close>

text \<open>A buffer with \<open>n\<close> words from \<open>pos\<close> on replaced by \<open>w 0\<close>, \<open>w 1\<close>, ...\<close>

definition fill :: "(nat \<Rightarrow> u32) \<Rightarrow> nat \<Rightarrow> nat \<Rightarrow> (nat \<Rightarrow> u32) \<Rightarrow> nat \<Rightarrow> u32" where
  "fill buffer pos n w = (\<lambda>i. if pos \<le> i \<and> i < pos + n then w (i - pos) else buffer i)"

lemma fill_none [simp]: "fill buffer pos 0 w = buffer"
  by (rule ext) (auto simp: fill_def)

lemma fill_step: "fill (buffer(pos := w 0)) (Suc pos) n (\<lambda>i. w (Suc i)) = fill buffer pos (Suc n) w"
proof
  fix i
  have "i = pos \<or> Suc pos \<le> i \<and> i - pos = Suc (i - Suc pos) \<or> i < pos" by arith
  then show "fill (buffer(pos := w 0)) (Suc pos) n (\<lambda>i. w (Suc i)) i = fill buffer pos (Suc n) w i" by (auto simp: fill_def)
qed

lemma fill_append: "fill (fill buffer pos n w) (pos + n) m (\<lambda>i. w (n + i)) = fill buffer pos (n + m) w"
  by (rule ext) (auto simp: fill_def)

definition fifo :: "MSHC_EXTENSION \<Rightarrow> nat \<Rightarrow> u32" where
  "fifo x i = mshcDevice x (mshcTick x + i) MSHC_FIFO_BASE"

lemma read_port_effect:
  "requests (MshcReadDataPort r pos n x) r = (requests x r)\<lparr>DataBuffer := fill (DataBuffer (requests x r)) pos n (fifo x)\<rparr>
   \<and> mshcTick (MshcReadDataPort r pos n x) = mshcTick x + n \<and> mshcDevice (MshcReadDataPort r pos n x) = mshcDevice x
   \<and> CurrentTransferRemainingLength (MshcReadDataPort r pos n x) = CurrentTransferRemainingLength x
   \<and> FifoThreshold (MshcReadDataPort r pos n x) = FifoThreshold x"
proof (induction n arbitrary: pos x)
  case 0
  show ?case by simp
next
  case (Suc n)
  define b where "b = change_request r (\<lambda>q. q\<lparr>DataBuffer := (DataBuffer q)(pos := fifo x 0)\<rparr>) (snd (MshcReadDevice MSHC_FIFO_BASE x))"
  have m: "MshcReadDataPort r pos (Suc n) x = MshcReadDataPort r (Suc pos) n b"
    by (simp add: MshcReadDevice_def fifo_def b_def Let_def)
  have b: "mshcDevice b = mshcDevice x" "mshcTick b = Suc (mshcTick x)"
    "requests b r = (requests x r)\<lparr>DataBuffer := (DataBuffer (requests x r))(pos := fifo x 0)\<rparr>"
    "CurrentTransferRemainingLength b = CurrentTransferRemainingLength x" "FifoThreshold b = FifoThreshold x"
    by (simp_all add: b_def MshcReadDevice_def Let_def)
  have f: "fifo b = (\<lambda>i. fifo x (Suc i))" by (rule ext) (simp add: fifo_def b(1,2))
  show ?case unfolding m using Suc.IH [of "Suc pos" b] unfolding b f by (simp add: fill_step del: fun_upd_apply)
qed

text \<open>Completing a request leaves the buffers alone.\<close>

lemma finish_keeps_buffer: "DataBuffer (requests (finish_request r x) k) = DataBuffer (requests x k)
    \<and> CurrentTransferRemainingLength (finish_request r x) = CurrentTransferRemainingLength x"
proof -
  define a where "a = (if reqStatus (requests x r) = STATUS_SUCCESS \<or> reqStatus (requests x r) = STATUS_MORE_PROCESSING_REQUIRED
    then x\<lparr>OutstandingRequest := None\<rparr> else x)"
  obtain ins b where b: "MshcIsCardInserted a = (ins, b)" by fastforce
  then have "same_driver a b" using same_inserted [of a] by simp
  note f = same_driver_fields [OF this]
  have "requests a = requests x" "CurrentTransferRemainingLength a = CurrentTransferRemainingLength x" by (simp_all add: a_def)
  then show ?thesis using b f by (simp add: finish_request_def Let_def a_def [symmetric])
qed

lemma complete_keeps_buffer:
  "MshcCompleteRequest n dispatch r status x = Some y \<Longrightarrow> DataBuffer (requests y k) = DataBuffer (requests x k)
    \<and> CurrentTransferRemainingLength y = CurrentTransferRemainingLength x"
proof (induction n arbitrary: r status x)
  case (Suc n)
  define a where "a = change_request r (\<lambda>q. q\<lparr>reqStatus := status\<rparr>) x"
  have a: "DataBuffer (requests a k) = DataBuffer (requests x k)" "CurrentTransferRemainingLength a = CurrentTransferRemainingLength x" by (simp_all add: a_def)
  obtain busy b where b: "MshcIsDataBusy a = (busy, b)" by fastforce
  have "same_driver a b" using same_busy [of a] b by simp
  note bf = same_driver_fields [OF this]
  obtain st c where c: "MshcWaitDataIdle b = (st, c)" by fastforce
  have "same_driver b c" using same_idle [of b] c by simp
  note cf = same_driver_fields [OF this]
  have "MshcCompleteRequest (Suc n) dispatch r status x = (if \<not> waits_for_card (requests a r) then Some (finish_request r a)
      else if \<not> busy then Some (finish_request r b) else if busyWorkItem b \<and> dispatch then Some (b\<lparr>busyWorkQueued := True\<rparr>)
      else case OutstandingRequest c of None \<Rightarrow> None | Some r' \<Rightarrow> MshcCompleteRequest n dispatch r' st c)"
    using b c by (simp add: a_def [symmetric] Let_def)
  then have eq: "(if \<not> waits_for_card (requests a r) then Some (finish_request r a)
      else if \<not> busy then Some (finish_request r b) else if busyWorkItem b \<and> dispatch then Some (b\<lparr>busyWorkQueued := True\<rparr>)
      else case OutstandingRequest c of None \<Rightarrow> None | Some r' \<Rightarrow> MshcCompleteRequest n dispatch r' st c) = Some y"
    using Suc.prems by simp
  have fin: ?case if "y = finish_request r a \<or> y = finish_request r b"
    using that finish_keeps_buffer [of r a k] finish_keeps_buffer [of r b k] a bf(1,13) by auto
  consider "\<not> waits_for_card (requests a r)" | "waits_for_card (requests a r)" "\<not> busy"
    | "waits_for_card (requests a r)" "busy" "busyWorkItem b \<and> dispatch" | "waits_for_card (requests a r)" "busy" "\<not> (busyWorkItem b \<and> dispatch)"
    by blast
  then show ?case
  proof cases
    case 1
    then show ?thesis using eq by (intro fin) simp
  next
    case 2
    then show ?thesis using eq by (intro fin) simp
  next
    case 3
    then have "y = b\<lparr>busyWorkQueued := True\<rparr>" using eq by simp
    then show ?thesis using a bf(1,13) by simp
  next
    case 4
    then have "(case OutstandingRequest c of None \<Rightarrow> None | Some r' \<Rightarrow> MshcCompleteRequest n dispatch r' st c) = Some y"
      using eq by (simp only: if_False not_True_eq_False)
    then obtain r' where "MshcCompleteRequest n dispatch r' st c = Some y" by (cases "OutstandingRequest c") simp_all
    from Suc.IH [OF this] show ?thesis using a bf(1,13) cf(1,13) by simp
  qed
qed simp

text \<open>One turn of a PIO read.\<close>

lemma start_pio_read:
  assumes "MshcStartPioTransfer n dispatch C crashdump r x = Some (status, y)" "TransferDirection (requests x r) = SdTransferDirectionRead"
  defines "remaining \<equiv> CurrentTransferRemainingLength x - FifoThreshold x * 4"
  shows "DataBuffer (requests y r) = fill (DataBuffer (requests x r)) (DataOffset (requests x r) div 4) (unat (FifoThreshold x)) (fifo x)"
    "CurrentTransferRemainingLength y = remaining"
    "remaining \<noteq> 0 \<Longrightarrow> DataOffset (requests y r) = DataOffset (requests x r) + unat (FifoThreshold x * 4)
       \<and> RequiredEvents (requests y r) = RequiredEvents (requests x r) OR SDPORT_EVENT_BUFFER_FULL C
       \<and> reqStatus (requests y r) = STATUS_MORE_PROCESSING_REQUIRED \<and> FifoThreshold y = FifoThreshold x
       \<and> TransferDirection (requests y r) = SdTransferDirectionRead"
proof -
  define a where "a = MshcReadDataPort r (DataOffset (requests x r) div 4) (unat (FifoThreshold x)) (x\<lparr>CurrentEvents := 0\<rparr>)"
  define b where "b = (if crashdump then a else MshcAcknowledgeInterrupts (MSHC_INT_RXDR OR MSHC_INT_TXDR) 0 a)"
  define c where "c = b\<lparr>CurrentTransferRemainingLength := CurrentTransferRemainingLength b - FifoThreshold x * 4\<rparr>"
  have fx: "fifo (x\<lparr>CurrentEvents := 0\<rparr>) = fifo x" by (rule ext) (simp add: fifo_def)
  note e = read_port_effect [of r "DataOffset (requests x r) div 4" "unat (FifoThreshold x)" "x\<lparr>CurrentEvents := 0\<rparr>", folded a_def, unfolded fx, simplified]
  have "same_driver a b" by (simp add: b_def same_ack)
  note bf = same_driver_fields [OF this]
  have c: "requests c r = (requests x r)\<lparr>DataBuffer := fill (DataBuffer (requests x r)) (DataOffset (requests x r) div 4) (unat (FifoThreshold x)) (fifo x)\<rparr>"
    "CurrentTransferRemainingLength c = remaining" "FifoThreshold c = FifoThreshold x"
    using e bf by (simp_all add: c_def remaining_def)
  have eq: "Some (status, y) = (if CurrentTransferRemainingLength c > 0 then
           Some (STATUS_PENDING,
             MshcEnableInterrupts (MSHC_INT_RXDR OR MSHC_INT_TXDR) 0
               (change_request r (\<lambda>q. q\<lparr>DataOffset := DataOffset q + unat (FifoThreshold x * 4),
                  RequiredEvents := RequiredEvents q OR buffer_event C q, reqStatus := STATUS_MORE_PROCESSING_REQUIRED\<rparr>) c))
         else let x' = change_request r (\<lambda>q. q\<lparr>reqStatus := STATUS_SUCCESS\<rparr>) c
              in if has (CurrentEvents x) (SDPORT_EVENT_CARD_RW_END C)
                 then map_option (Pair STATUS_PENDING) (MshcCompleteRequest n dispatch r STATUS_SUCCESS x')
                 else Some (STATUS_PENDING,
                   change_request r (\<lambda>q. q\<lparr>RequiredEvents := RequiredEvents q OR SDPORT_EVENT_CARD_RW_END C\<rparr>) x'))"
    using assms(1,2) by (simp add: MshcStartPioTransfer_def Let_def a_def b_def c_def cong: if_cong)
  note ef = same_driver_fields [OF same_enable]
  have fin: "DataBuffer (requests z r) = DataBuffer (requests c r)" "CurrentTransferRemainingLength z = remaining"
    if "MshcCompleteRequest n dispatch r STATUS_SUCCESS (change_request r (\<lambda>q. q\<lparr>reqStatus := STATUS_SUCCESS\<rparr>) c) = Some z" for z
    using complete_keeps_buffer [OF that, of r] c by simp_all
  have gt: "(CurrentTransferRemainingLength c > 0) = (remaining \<noteq> 0)" using c by (simp add: word_neq_0_conv)
  show "remaining \<noteq> 0 \<Longrightarrow> DataOffset (requests y r) = DataOffset (requests x r) + unat (FifoThreshold x * 4)
       \<and> RequiredEvents (requests y r) = RequiredEvents (requests x r) OR SDPORT_EVENT_BUFFER_FULL C
       \<and> reqStatus (requests y r) = STATUS_MORE_PROCESSING_REQUIRED \<and> FifoThreshold y = FifoThreshold x
       \<and> TransferDirection (requests y r) = SdTransferDirectionRead"
    using eq c assms(2) unfolding gt by (simp add: ef buffer_event_def)
  have "DataBuffer (requests y r) = DataBuffer (requests c r) \<and> CurrentTransferRemainingLength y = remaining"
    using eq [symmetric] c(2) fin unfolding gt by (auto simp: ef Let_def split: if_splits)
  then show "DataBuffer (requests y r) = fill (DataBuffer (requests x r)) (DataOffset (requests x r) div 4) (unat (FifoThreshold x)) (fifo x)"
    "CurrentTransferRemainingLength y = remaining" using c(1) by simp_all
qed

text \<open>
  A PIO read: the transfer is started again and again until nothing remains. In between, the completion of
  the turn, interrupts and deferred procedure calls may change everything but the transfer itself.
\<close>

definition same_transfer :: "nat \<Rightarrow> MSHC_EXTENSION \<Rightarrow> MSHC_EXTENSION \<Rightarrow> bool" where
  "same_transfer r x y \<longleftrightarrow> DataBuffer (requests y r) = DataBuffer (requests x r) \<and> DataOffset (requests y r) = DataOffset (requests x r)
     \<and> TransferDirection (requests y r) = TransferDirection (requests x r)
     \<and> CurrentTransferRemainingLength y = CurrentTransferRemainingLength x \<and> FifoThreshold y = FifoThreshold x"

inductive pio_run :: "SDPORT_CODES \<Rightarrow> nat \<Rightarrow> MSHC_EXTENSION \<Rightarrow> nat \<Rightarrow> u32 list \<Rightarrow> MSHC_EXTENSION \<Rightarrow> bool" for C r where
  last: "pio_run C r x 1 (map (fifo x) [0..<unat (FifoThreshold x)]) y"
    if "MshcStartPioTransfer n dispatch C crashdump r x = Some (status, y)" "CurrentTransferRemainingLength y = 0"
| more: "pio_run C r x (Suc k) (map (fifo x) [0..<unat (FifoThreshold x)] @ ws) t"
    if "MshcStartPioTransfer n dispatch C crashdump r x = Some (status, y)" "CurrentTransferRemainingLength y \<noteq> 0"
      "same_transfer r y z" "pio_run C r z k ws t"

lemma fill_words: "length ws = n \<Longrightarrow> (\<And>i. i < n \<Longrightarrow> ws ! i = w i) \<Longrightarrow> fill buffer pos n w = fill buffer pos n (\<lambda>i. ws ! i)"
  by (rule ext) (auto simp: fill_def)

lemma pio_run_delivers:
  assumes "pio_run C r x turns ws y" "TransferDirection (requests x r) = SdTransferDirectionRead" "0 < unat (FifoThreshold x)"
    "unat (CurrentTransferRemainingLength x) = 4 * unat (FifoThreshold x) * k" "0 < k" "DataOffset (requests x r) = 4 * p"
  shows "turns = k \<and> length ws = unat (FifoThreshold x) * k
    \<and> DataBuffer (requests y r) = fill (DataBuffer (requests x r)) p (unat (FifoThreshold x) * k) (\<lambda>i. ws ! i)
    \<and> CurrentTransferRemainingLength y = 0"
  using assms
proof (induction arbitrary: k p rule: pio_run.induct)
  case (last n dispatch crashdump x status y)
  note s = start_pio_read [OF last(1,3)]
  have t: "unat (FifoThreshold x * 4) = 4 * unat (FifoThreshold x)"
  proof -
    have "4 * unat (FifoThreshold x) \<le> unat (CurrentTransferRemainingLength x)" using last(5,6) by (cases k) simp_all
    also have "\<dots> < 2 ^ 32" using unsigned_less [of "CurrentTransferRemainingLength x"] by simp
    finally show ?thesis by (simp add: unat_word_ariths mult.commute)
  qed
  have "CurrentTransferRemainingLength x = FifoThreshold x * 4" using s(2) last(2) by simp
  then have "4 * unat (FifoThreshold x) * k = 4 * unat (FifoThreshold x)" using last(5) t by metis
  then have k: "k = 1" using last(4) by simp
  have "DataBuffer (requests y r) = fill (DataBuffer (requests x r)) p (unat (FifoThreshold x)) (fifo x)"
    using s(1) last(7) by simp
  also have "\<dots> = fill (DataBuffer (requests x r)) p (unat (FifoThreshold x)) (\<lambda>i. map (fifo x) [0..<unat (FifoThreshold x)] ! i)"
    by (rule fill_words) simp_all
  finally show ?case using k last(2) by simp
next
  case (more n dispatch crashdump x status y z k' ws t)
  let ?T = "unat (FifoThreshold x)"
  note s = start_pio_read [OF more(1,6)]
  have t: "unat (FifoThreshold x * 4) = 4 * ?T" "4 * ?T \<le> unat (CurrentTransferRemainingLength x)"
  proof -
    show le: "4 * ?T \<le> unat (CurrentTransferRemainingLength x)" using more(8,9) by (cases k) simp_all
    also have "\<dots> < 2 ^ 32" using unsigned_less [of "CurrentTransferRemainingLength x"] by simp
    finally show "unat (FifoThreshold x * 4) = 4 * ?T" by (simp add: unat_word_ariths mult.commute)
  qed
  have rem: "unat (CurrentTransferRemainingLength x - FifoThreshold x * 4) = unat (CurrentTransferRemainingLength x) - 4 * ?T"
    using t by (simp add: unat_sub word_le_nat_alt)
  have nz: "CurrentTransferRemainingLength x - FifoThreshold x * 4 \<noteq> 0" using s(2) more(2) by simp
  note m = s(3) [OF nz]
  have k1: "k \<noteq> 1" using rem nz more(8) by (auto simp: unat_eq_0 [symmetric])
  then obtain j where j: "k = Suc j" "0 < j" using more(9) by (cases k) auto
  have z: "TransferDirection (requests z r) = SdTransferDirectionRead" "FifoThreshold z = FifoThreshold x"
    "unat (CurrentTransferRemainingLength z) = 4 * ?T * j" "DataOffset (requests z r) = 4 * (p + ?T)"
    "DataBuffer (requests z r) = fill (DataBuffer (requests x r)) p ?T (fifo x)"
    using more(3) m s(1,2) rem more(8,10) j(1) t(1) by (simp_all add: same_transfer_def)
  have IH: "k' = j" "length ws = ?T * j" "DataBuffer (requests t r) = fill (DataBuffer (requests z r)) (p + ?T) (?T * j) (\<lambda>i. ws ! i)"
    "CurrentTransferRemainingLength t = 0"
    using more(5) [of j "p + ?T"] z more(7) j(2) by simp_all
  let ?ws = "map (fifo x) [0..<?T] @ ws"
  have "fill (DataBuffer (requests x r)) p ?T (fifo x) = fill (DataBuffer (requests x r)) p ?T (\<lambda>i. ?ws ! i)"
    by (rule ext) (auto simp: fill_def nth_append)
  moreover have "(\<lambda>i. ws ! i) = (\<lambda>i. ?ws ! (?T + i))" by (rule ext) (simp add: nth_append)
  ultimately have "DataBuffer (requests t r) = fill (DataBuffer (requests x r)) p (?T + ?T * j) (\<lambda>i. ?ws ! i)"
    using IH(3) z(5) fill_append [of "DataBuffer (requests x r)" p ?T "\<lambda>i. ?ws ! i" "?T * j"] by simp
  then show ?case using IH j by simp
qed

text \<open>C26: A PIO read whose length is a multiple of the FIFO threshold delivers the request: it takes exactly
  length / (4 * threshold) turns, each reading a threshold of words, and in the end the buffer holds, from
  the start of the request on, exactly the words read from the FIFO in order, and is unchanged everywhere
  else; nothing remains of the transfer.
\<close>

theorem pio_read_delivers:
  assumes "pio_run C r x turns ws y" "TransferDirection (requests x r) = SdTransferDirectionRead" "0 < unat (FifoThreshold x)"
    "unat (CurrentTransferRemainingLength x) mod (4 * unat (FifoThreshold x)) = 0" "CurrentTransferRemainingLength x \<noteq> 0"
    "DataOffset (requests x r) = 4 * p"
  shows "turns = unat (CurrentTransferRemainingLength x) div (4 * unat (FifoThreshold x)) \<and>
    length ws = unat (CurrentTransferRemainingLength x) div 4 \<and>
    DataBuffer (requests y r) = (\<lambda>i. if p \<le> i \<and> i < p + length ws then ws ! (i - p) else DataBuffer (requests x r) i) \<and>
    CurrentTransferRemainingLength y = 0"
proof -
  define k where "k = unat (CurrentTransferRemainingLength x) div (4 * unat (FifoThreshold x))"
  have e: "unat (CurrentTransferRemainingLength x) = 4 * unat (FifoThreshold x) * k" using assms(4) by (auto simp: k_def)
  moreover have "0 < k" using e assms(5) by (cases k) (auto simp: unat_eq_0)
  ultimately show ?thesis using pio_run_delivers [OF assms(1-3) _ _ assms(6), of k] k_def assms(3) by (auto simp: fill_def)
qed

definition demo_pio :: "u32 \<Rightarrow> MSHC_EXTENSION" where
  "demo_pio remaining = demo_mshc\<lparr>requests := (\<lambda>n. demo_request\<lparr>TransferDirection := SdTransferDirectionRead, TransferMethod := SdTransferMethodPio\<rparr>),
     mshcDevice := (\<lambda>k r. of_nat k), CurrentTransferRemainingLength := remaining, FifoThreshold := 2\<rparr>"

lemma demo_pio_fields:
  "TransferDirection (requests (demo_pio n) 0) = SdTransferDirectionRead" "CurrentTransferRemainingLength (demo_pio n) = n"
  "FifoThreshold (demo_pio n) = 2" "DataOffset (requests (demo_pio n) 0) = 4 * 0" "CurrentEvents (demo_pio n) = 0" "RequiredEvents (requests (demo_pio n) 0) = 0"
  by (simp_all add: demo_pio_def demo_mshc_def demo_request_def)

lemma start_pio_some: "CurrentEvents x = 0 \<Longrightarrow> \<exists>status y. MshcStartPioTransfer n dispatch C crashdump r x = Some (status, y)"
  by (simp add: MshcStartPioTransfer_def Let_def)

theorem pio_read_delivers_witness:
  "\<exists>ws y. pio_run demo_codes 0 (demo_pio 8) 1 ws y \<and> DataBuffer (requests y 0) = (\<lambda>i. if i < 2 then ws ! i else DataBuffer (requests (demo_pio 8) 0) i)"
proof -
  obtain st y where y: "MshcStartPioTransfer 1 True demo_codes False 0 (demo_pio 8) = Some (st, y)"
    using start_pio_some [OF demo_pio_fields(5)] by blast
  have "CurrentTransferRemainingLength y = 0" using start_pio_read(2) [OF y demo_pio_fields(1)] by (simp add: demo_pio_fields)
  from pio_run.last [OF y this] obtain ws where r: "pio_run demo_codes 0 (demo_pio 8) 1 ws y" by blast
  have h: "0 < unat (FifoThreshold (demo_pio 8))"
    "unat (CurrentTransferRemainingLength (demo_pio 8)) mod (4 * unat (FifoThreshold (demo_pio 8))) = 0"
    "CurrentTransferRemainingLength (demo_pio 8) \<noteq> 0" by (simp_all add: demo_pio_fields)
  note d = pio_read_delivers [OF r demo_pio_fields(1) h demo_pio_fields(4)]
  then have l: "length ws = 2" by (simp add: demo_pio_fields)
  from d have "DataBuffer (requests y 0) = (\<lambda>i. if i < 2 then ws ! i else DataBuffer (requests (demo_pio 8) 0) i)"
    by (auto simp: l)
  then show ?thesis using r by blast
qed

text \<open>A PIO read overruns the buffer when less remains than a threshold: a whole threshold of words is
  stored, the ones behind the end of the request among them, and the remaining length wraps around to more
  than before, so that the transfer goes on.
\<close>

theorem pio_read_overruns:
  assumes "MshcStartPioTransfer n dispatch C crashdump r x = Some (status, y)" "TransferDirection (requests x r) = SdTransferDirectionRead"
    "CurrentTransferRemainingLength x < FifoThreshold x * 4" "unat (FifoThreshold x) \<le> 2048"
  shows "unat (CurrentTransferRemainingLength y) = 2 ^ 32 + unat (CurrentTransferRemainingLength x) - 4 * unat (FifoThreshold x) \<and>
    DataBuffer (requests y r) (DataOffset (requests x r) div 4 + unat (FifoThreshold x) - 1) = fifo x (unat (FifoThreshold x) - 1) \<and>
    DataOffset (requests x r) div 4 + unat (CurrentTransferRemainingLength x) div 4 < DataOffset (requests x r) div 4 + unat (FifoThreshold x) \<and>
    RequiredEvents (requests y r) = RequiredEvents (requests x r) OR SDPORT_EVENT_BUFFER_FULL C"
proof -
  let ?T = "unat (FifoThreshold x)" and ?R = "CurrentTransferRemainingLength x"
  note s = start_pio_read [OF assms(1,2)]
  have t: "unat (FifoThreshold x * 4) = 4 * ?T" using assms(4) by (simp add: unat_word_ariths mult.commute)
  have lt: "unat ?R < 4 * ?T" using assms(3) t by (simp add: word_less_nat_alt)
  have "unat (?R - FifoThreshold x * 4) = 2 ^ 32 + unat ?R - 4 * ?T"
    using unat_sub_if' [of ?R "FifoThreshold x * 4"] t lt assms(4) by simp
  moreover have "?R - FifoThreshold x * 4 \<noteq> 0" using assms(3) by auto
  moreover have "0 < ?T" using lt by simp
  ultimately show ?thesis using s lt by (auto simp: fill_def)
qed

theorem pio_read_overruns_witness:
  "\<exists>y :: MSHC_EXTENSION. unat (CurrentTransferRemainingLength y) = 4294967292 \<and> DataBuffer (requests y 0) 1 = 1"
proof -
  obtain st y where y: "MshcStartPioTransfer 1 True demo_codes False 0 (demo_pio 4) = Some (st, y)"
    using start_pio_some [OF demo_pio_fields(5)] by blast
  have "fifo (demo_pio 4) 1 = 1" by (simp add: fifo_def demo_pio_def demo_mshc_def)
  then show ?thesis using pio_read_overruns [OF y demo_pio_fields(1)]
    by (intro exI [of _ y]) (simp add: demo_pio_fields)
qed

end
