(* ===== verification/RockchipClock.thy ===== *)
theory RockchipClock imports RockchipTuning begin

text \<open>
  The RK3576 card clock and phase delays: the clock the driver selects is the fastest one of the CRU that
  does not exceed the requested one, and the delay it programs is the requested phase to half a delay
  element.
\<close>

section \<open>Phases\<close>

lemma delay_num_nat:
  assumes "1000 \<le> unat rate" "unat rem < 90"
  shows "unat (delay_num rate rem)
    = min 255 ((10000000 * unat rem + 216 * (unat rate div 1000) div 2) div (216 * (unat rate div 1000)))"
proof -
  let ?k = "unat rate div 1000"
  have "unat rate < 2 ^ LENGTH(32)" by (rule unsigned_less)
  then have k: "?k \<le> 4294967" by simp
  have k0: "0 < ?k" using assms(1) by (simp add: div_greater_zero_iff)
  have r: "unat (ucast (rate div 1000) :: u64) = ?k" by (simp add: unat_ucast_widen unat_div_distrib)
  have d: "unat ((ucast (rate div 1000) :: u64) * 36 * (60 div 10)) = 216 * ?k"
    using k by (simp add: unat_word_ariths r)
  have rem64: "unat (ucast rem :: u64) = unat rem" by (simp add: unat_ucast_widen)
  have n: "unat (10000000 * ucast rem :: u64) = 10000000 * unat rem"
    using assms(2) by (simp add: unat_word_ariths rem64)
  let ?d = "(ucast (rate div 1000) :: u64) * 36 * (60 div 10)"
  have half: "unat (?d div 2) = 216 * ?k div 2" by (simp only: unat_div_distrib d) simp
  have sum: "unat (10000000 * ucast rem + ?d div 2) = 10000000 * unat rem + 216 * ?k div 2"
    unfolding unat_word_ariths(1) n half by (rule mod_less) (use assms(2) k in simp)
  have q: "unat ((10000000 * ucast rem + ?d div 2) div ?d) = (10000000 * unat rem + 216 * ?k div 2) div (216 * ?k)"
    by (simp only: unat_div_distrib sum d)
  let ?q = "(10000000 * ucast rem + ?d div 2) div ?d"
  have "unat (if ?q > 255 then 255 else ucast ?q :: u32) = min 255 (unat ?q)"
  proof (cases "?q > 255")
    case True
    then show ?thesis by (simp add: word_less_nat_alt)
  next
    case False
    then have "unat ?q \<le> 255" by (simp add: word_less_nat_alt)
    then show ?thesis using False by (simp add: unsigned_ucast_eq take_bit_nat_eq_self)
  qed
  then show ?thesis unfolding delay_num_def Let_def q .
qed

text \<open>The members of the timing registers, from the least significant bit.\<close>

definition MSHC_TIMING_t :: layout where
  "MSHC_TIMING_t = [(''Reserved0'', 1), (''Quadrant'', 2), (''DelayNum'', 8), (''DelaySel'', 1), (''Reserved12'', 4), (''WriteMask'', 16)]"

lemma phase_fields:
  assumes "unat d < 256" "unat q < 4"
  shows "getf MSHC_TIMING_t ''Quadrant'' ((push_bit 1 ((if d \<noteq> 0 then ROCKCHIP_MMC_DELAY_SEL else 0) OR push_bit 2 d OR q) AND ROCKCHIP_MMC_TIMING_FIELD) OR push_bit 16 ROCKCHIP_MMC_TIMING_FIELD) = q"
    "getf MSHC_TIMING_t ''DelayNum'' ((push_bit 1 ((if d \<noteq> 0 then ROCKCHIP_MMC_DELAY_SEL else 0) OR push_bit 2 d OR q) AND ROCKCHIP_MMC_TIMING_FIELD) OR push_bit 16 ROCKCHIP_MMC_TIMING_FIELD) = d"
    "isset MSHC_TIMING_t ''DelaySel'' ((push_bit 1 ((if d \<noteq> 0 then ROCKCHIP_MMC_DELAY_SEL else 0) OR push_bit 2 d OR q) AND ROCKCHIP_MMC_TIMING_FIELD) OR push_bit 16 ROCKCHIP_MMC_TIMING_FIELD) = (d \<noteq> 0)"
    "getf MSHC_TIMING_t ''WriteMask'' ((push_bit 1 ((if d \<noteq> 0 then ROCKCHIP_MMC_DELAY_SEL else 0) OR push_bit 2 d OR q) AND ROCKCHIP_MMC_TIMING_FIELD) OR push_bit 16 ROCKCHIP_MMC_TIMING_FIELD) = 0x0FFE"
proof -
  have dhi: "\<not> bit d n" if "8 \<le> n" for n using high_bit_clear [of d 8 n] assms(1) that by simp
  have qhi: "\<not> bit q n" if "2 \<le> n" for n using high_bit_clear [of q 2 n] assms(2) that by simp
  have field: "bit ROCKCHIP_MMC_TIMING_FIELD n = (1 \<le> n \<and> n \<le> 11)" for n
  proof -
    have eq: "ROCKCHIP_MMC_TIMING_FIELD = push_bit 1 (mask 11)" by (simp add: ROCKCHIP_MMC_TIMING_FIELD_def mask_numeral)
    show ?thesis unfolding eq bit_push_bit_iff bit_mask_iff by auto
  qed
  have sel: "bit ROCKCHIP_MMC_DELAY_SEL n = (n = 10)" for n
    unfolding ROCKCHIP_MMC_DELAY_SEL_def bit_push_bit_iff bit_1_iff by auto
  have lim: "bit q n \<Longrightarrow> n < 2" "bit d n \<Longrightarrow> n < 8" for n using qhi dhi by (metis not_le)+
  let ?v = "(push_bit 1 ((if d \<noteq> 0 then ROCKCHIP_MMC_DELAY_SEL else 0) OR push_bit 2 d OR q) AND ROCKCHIP_MMC_TIMING_FIELD) OR push_bit 16 ROCKCHIP_MMC_TIMING_FIELD"
  have s: "bit (if d \<noteq> 0 then ROCKCHIP_MMC_DELAY_SEL else 0) m = (d \<noteq> 0 \<and> m = 10)" for m by (simp add: sel)
  have v: "bit ?v n = (n < 32 \<and> (n = 11 \<and> d \<noteq> 0 \<or> 3 \<le> n \<and> n < 11 \<and> bit d (n - 3) \<or> 1 \<le> n \<and> n < 3 \<and> bit q (n - 1) \<or> 17 \<le> n \<and> n < 28))" for n
    unfolding bit_or_iff bit_and_iff bit_push_bit_iff field s using lim [of "n - 3"] lim [of "n - 1"] by (auto simp: numeral_3_eq_3)
  define w where "w = ?v"
  have w: "bit w n = (n < 32 \<and> (n = 11 \<and> d \<noteq> 0 \<or> 3 \<le> n \<and> n < 11 \<and> bit d (n - 3) \<or> 1 \<le> n \<and> n < 3 \<and> bit q (n - 1) \<or> 17 \<le> n \<and> n < 28))" for n
    unfolding w_def by (rule v)
  have one: "(take_bit (Suc 0) u = 0) = (\<not> bit u 0)" for u :: u32 by (simp add: bit_0 even_iff_mod_2_eq_zero flip: take_bit_eq_mod)
  have "getf MSHC_TIMING_t ''Quadrant'' w = q"
    by (rule bit_word_eqI) (auto simp: getf_def MSHC_TIMING_t_def get_bits_def bit_take_bit_iff bit_drop_bit_eq w dest: lim)
  moreover have "getf MSHC_TIMING_t ''DelayNum'' w = d"
    by (rule bit_word_eqI) (auto simp: getf_def MSHC_TIMING_t_def get_bits_def bit_take_bit_iff bit_drop_bit_eq w dest: lim)
  moreover have "isset MSHC_TIMING_t ''DelaySel'' w = (d \<noteq> 0)"
    using w [of 11] by (simp add: isset_def getf_def MSHC_TIMING_t_def get_bits_def bit_iff_odd_drop_bit odd_iff_mod_2_eq_one)
  moreover have "getf MSHC_TIMING_t ''WriteMask'' w = 0x0FFE"
  proof (rule bit_word_eqI)
    fix n assume n: "n < LENGTH(32)"
    have "bit (0x0FFE :: u32) n = (1 \<le> n \<and> n \<le> 11)" using field [of n] by (simp add: ROCKCHIP_MMC_TIMING_FIELD_def)
    then show "bit (getf MSHC_TIMING_t ''WriteMask'' w) n = bit (0x0FFE :: u32) n"
      using n by (auto simp: getf_def MSHC_TIMING_t_def get_bits_def bit_take_bit_iff bit_drop_bit_eq w)
  qed
  ultimately show "getf MSHC_TIMING_t ''Quadrant'' ?v = q" "getf MSHC_TIMING_t ''DelayNum'' ?v = d"
    "isset MSHC_TIMING_t ''DelaySel'' ?v = (d \<noteq> 0)" "getf MSHC_TIMING_t ''WriteMask'' ?v = 0x0FFE"
    unfolding w_def by blast+
qed

lemma rounded_quotient:
  fixes n m q :: nat
  assumes "0 < m" "q = (n + m div 2) div m"
  shows "2 * \<bar>int (q * m) - int n\<bar> \<le> int m"
proof -
  have "q * m \<le> n + m div 2" using assms(2) div_times_less_eq_dividend by metis
  moreover have "n + m div 2 < q * m + m"
    using assms dividend_less_div_times [of m "n + m div 2"] by (simp add: add.commute)
  ultimately have "\<bar>int (q * m) - int n\<bar> \<le> int (m div 2)" using assms(1) unfolding abs_le_iff by linarith
  then have "2 * \<bar>int (q * m) - int n\<bar> \<le> 2 * int (m div 2)" by (rule mult_left_mono) simp
  also have "\<dots> \<le> int m" by linarith
  finally show ?thesis .
qed

text \<open>A phase set at a card clock of at least 1 kHz is programmed to the nearest point the hardware can
  reach: the quadrant is the whole multiple of 90 degrees, the delay line is selected exactly when its
  length is not zero, and, unless the line is too short (255 elements), its length is within half an
  element of the rest: an element takes 60 ps, so that with D = 216 times the clock in kHz the error of
  delay * D against the rest in units of 10^-7 degrees is at most D / 2. Only the bits of the field are
  enabled for writing.
\<close>

theorem phase_accuracy:
  assumes "1000 \<le> unat (RkCardClockHz x)"
  shows "fst (MshcRk3576SetPhase sample degrees x) = STATUS_SUCCESS \<and>
    (let v = MshcReadRegister (if sample then MSHC_TIMING_CON1 else MSHC_TIMING_CON0) (snd (MshcRk3576SetPhase sample degrees x));
         d = unat (getf MSHC_TIMING_t ''DelayNum'' v);
         D = 216 * (unat (RkCardClockHz x) div 1000)
     in getf MSHC_TIMING_t ''WriteMask'' v = 0x0FFE \<and>
        unat (getf MSHC_TIMING_t ''Quadrant'' v) = unat degrees mod 360 div 90 \<and>
        isset MSHC_TIMING_t ''DelaySel'' v = (d \<noteq> 0) \<and>
        (d = 255 \<or> 2 * \<bar>int (d * D) - int (10000000 * (unat degrees mod 360 mod 90))\<bar> \<le> int D))"
proof -
  let ?rate = "RkCardClockHz x" and ?deg = "degrees mod 360"
  let ?rem = "?deg mod 90" and ?D = "216 * (unat (RkCardClockHz x) div 1000)"
  have deg: "unat ?deg = unat degrees mod 360" by (simp add: unat_mod_distrib)
  have rem: "unat ?rem = unat degrees mod 360 mod 90" by (simp add: unat_mod_distrib deg)
  have q: "unat (?deg div 90) = unat degrees mod 360 div 90" by (simp add: unat_div_distrib deg)
  have q4: "unat (?deg div 90) < 4" unfolding q by simp
  let ?d = "delay_num ?rate ?rem"
  have dn: "unat ?d = min 255 ((10000000 * unat ?rem + ?D div 2) div ?D)"
    by (rule delay_num_nat) (use assms in \<open>simp_all add: rem\<close>)
  have d256: "unat ?d < 256" unfolding dn by simp
  have D0: "0 < ?D" using assms by (simp add: div_greater_zero_iff)
  have acc: "unat ?d = 255 \<or> 2 * \<bar>int (unat ?d * ?D) - int (10000000 * unat ?rem)\<bar> \<le> int ?D"
  proof (cases "unat ?d = 255")
    case False
    then have "unat ?d = (10000000 * unat ?rem + ?D div 2) div ?D" using dn by (simp add: min_def split: if_splits)
    then show ?thesis using rounded_quotient [OF D0] by blast
  qed simp
  have r: "\<not> ?rate < 1000" using assms by (simp add: word_less_nat_alt)
  note f = phase_fields [OF d256 q4]
  have v: "MshcReadRegister (if sample then MSHC_TIMING_CON1 else MSHC_TIMING_CON0) (snd (MshcRk3576SetPhase sample degrees x))
    = phase_value ?rate degrees" using r by (simp add: MshcRk3576SetPhase_def)
  have s: "fst (MshcRk3576SetPhase sample degrees x) = STATUS_SUCCESS" using r by (simp add: MshcRk3576SetPhase_def)
  have pv: "getf MSHC_TIMING_t ''DelayNum'' (phase_value ?rate degrees) = ?d"
    "getf MSHC_TIMING_t ''Quadrant'' (phase_value ?rate degrees) = ?deg div 90"
    "getf MSHC_TIMING_t ''WriteMask'' (phase_value ?rate degrees) = 0x0FFE"
    "isset MSHC_TIMING_t ''DelaySel'' (phase_value ?rate degrees) = (?d \<noteq> 0)"
    unfolding phase_value_def Let_def by (simp_all only: f)
  have z: "(?d \<noteq> 0) = (unat ?d \<noteq> 0)" by (simp add: unat_eq_0)
  show ?thesis unfolding v s Let_def pv q z using acc unfolding rem by blast
qed

theorem phase_accuracy_witness:
  "fst (MshcRk3576SetPhase True 135 demo_mshc) = STATUS_SUCCESS
    \<and> unat (getf MSHC_TIMING_t ''Quadrant'' (MshcReadRegister MSHC_TIMING_CON1 (snd (MshcRk3576SetPhase True 135 demo_mshc)))) = 1"
proof -
  have "1000 \<le> unat (RkCardClockHz demo_mshc)" by (simp add: demo_mshc_def)
  from phase_accuracy [OF this, of True 135] show ?thesis by (simp add: Let_def)
qed

section \<open>The card clock\<close>

text \<open>The divider of a parent: the smallest one that does not exceed the target, if it is in range.\<close>

lemma clock_divider_nat:
  assumes "0 < unat T" "0 < unat P" "unat P + unat T \<le> 4294967296"
  shows "unat (clock_divider T P) = min 64 ((unat P + unat T - 1) div unat T)"
    "1 \<le> unat (clock_divider T P)" "unat (clock_divider T P) \<le> 64"
proof -
  have "unat (P + T - 1) = unat P + unat T - 1"
  proof -
    have "T \<noteq> 0" using assms(1) by auto
    then have m: "unat (T - 1) = unat T - 1" by (rule unat_minus_one)
    have "unat (P + (T - 1)) = unat P + unat (T - 1)"
      by (rule unat_add_lem [THEN iffD1]) (use assms m in auto)
    then show ?thesis using assms(1) m by (simp add: algebra_simps)
  qed
  then have q: "unat ((P + T - 1) div T) = (unat P + unat T - 1) div unat T" by (simp add: unat_div_distrib)
  have "unat T \<le> unat P + unat T - 1" using assms(2) by simp
  then have one: "1 \<le> (unat P + unat T - 1) div unat T" using div_le_mono [of "unat T" _ "unat T"] assms(1) by simp
  then have "\<not> (P + T - 1) div T < 1" by (simp add: word_less_nat_alt q)
  then have d: "clock_divider T P = (if (P + T - 1) div T > 64 then 64 else (P + T - 1) div T)"
    by (simp add: clock_divider_def RK3576_SDMMC_DIV_MAX_def Let_def)
  show "unat (clock_divider T P) = min 64 ((unat P + unat T - 1) div unat T)"
    unfolding d by (simp add: word_less_nat_alt q min_def)
  then show "1 \<le> unat (clock_divider T P)" "unat (clock_divider T P) \<le> 64" using one by simp_all
qed

lemma clock_divider_best:
  assumes "0 < unat T" "0 < unat P" "unat P + unat T \<le> 4294967296" "1 \<le> e" "e \<le> 64" "unat P \<le> unat T * e"
  shows "unat P div e \<le> unat P div unat (clock_divider T P)" "unat P div unat (clock_divider T P) \<le> unat T"
proof -
  let ?c = "(unat P + unat T - 1) div unat T"
  have "unat P + unat T - 1 \<le> unat T * e + (unat T - 1)" using assms(1,6) by simp
  then have "?c \<le> (unat T * e + (unat T - 1)) div unat T" by (rule div_le_mono)
  also have "\<dots> = e" by (rule div_nat_eqI) (use assms(1) in \<open>simp_all add: mult.commute\<close>)
  finally have ce: "?c \<le> e" .
  then have d: "unat (clock_divider T P) = ?c" using clock_divider_nat(1) [OF assms(1-3)] assms(5) by simp
  have "unat P + unat T - 1 < unat T * ?c + unat T" 
    using dividend_less_times_div [OF assms(1), of "unat P + unat T - 1"] by (simp only: add.commute)
  then have "unat P \<le> unat T * ?c" using assms(1) by simp
  then show "unat P div unat (clock_divider T P) \<le> unat T"
    unfolding d using div_le_mono [of "unat P" "?c * unat T" ?c] clock_divider_nat(2) [OF assms(1-3)] d by (simp add: mult.commute)
  show "unat P div e \<le> unat P div unat (clock_divider T P)"
    unfolding d by (rule div_le_mono2) (use clock_divider_nat(2) [OF assms(1-3)] d ce in simp_all)
qed

text \<open>The loop over the parents keeps the fastest candidate that does not exceed the target.\<close>

lemma fold_clock_step:
  assumes "fold (clock_step T) ps (b, m, d) = (b', m', d')"
  shows "b \<le> b' \<and> (\<forall>(mux, P) \<in> set ps. P div clock_divider T P \<le> T \<longrightarrow> P div clock_divider T P \<le> b')
    \<and> ((b', m', d') = (b, m, d) \<or> (\<exists>P. (m', P) \<in> set ps \<and> d' = clock_divider T P \<and> b' = P div d' \<and> b' \<le> T))"
  using assms
proof (induction ps arbitrary: b m d)
  case Nil
  then show ?case by simp
next
  case (Cons p ps)
  obtain mux P where p: "p = (mux, P)" by fastforce
  let ?d = "clock_divider T P"
  have step: "clock_step T (mux, P) (b, m, d) = (if P div ?d \<le> T \<and> P div ?d > b then (P div ?d, mux, ?d) else (b, m, d))"
    by (simp add: clock_step_def Let_def)
  show ?case
  proof (cases "P div ?d \<le> T \<and> P div ?d > b")
    case True
    then have "fold (clock_step T) ps (P div ?d, mux, ?d) = (b', m', d')"
      using Cons.prems p step by simp
    from Cons.IH [OF this] True show ?thesis unfolding p by auto
  next
    case False
    then have "fold (clock_step T) ps (b, m, d) = (b', m', d')"
      using Cons.prems p step by (simp only: fold_simps if_False)
    from Cons.IH [OF this] False show ?thesis unfolding p by auto
  qed
qed

lemma clock_best_spec:
  assumes "376000 \<le> unat T" "unat T \<le> 3106000000"
  obtains mux where "mux < 3" "clock_best T = (let d = clock_divider T (Rk3576SdmmcParentHz ! mux) in (Rk3576SdmmcParentHz ! mux div d, of_nat mux, d))"
    "Rk3576SdmmcParentHz ! mux div clock_divider T (Rk3576SdmmcParentHz ! mux) \<le> T"
    "\<And>n. n < 3 \<Longrightarrow> Rk3576SdmmcParentHz ! n div clock_divider T (Rk3576SdmmcParentHz ! n) \<le> T
       \<Longrightarrow> Rk3576SdmmcParentHz ! n div clock_divider T (Rk3576SdmmcParentHz ! n) \<le> Rk3576SdmmcParentHz ! mux div clock_divider T (Rk3576SdmmcParentHz ! mux)"
proof -
  let ?P = "\<lambda>n. Rk3576SdmmcParentHz ! n"
  let ?ps = "[(0, ?P 0), (1, ?P 1), (2, ?P 2)] :: (u32 \<times> u32) list"
  obtain b m d where f: "fold (clock_step T) ?ps (0, 2, RK3576_SDMMC_DIV_MAX) = (b, m, d)" by (metis prod_cases3)
  note s = fold_clock_step [OF f]
  have le: "?P n div clock_divider T (?P n) \<le> b" if "n < 3" "?P n div clock_divider T (?P n) \<le> T" for n
  proof -
    have "n = 0 \<or> n = 1 \<or> n = 2" using that(1) by auto
    then show ?thesis using s that(2) by auto
  qed
  have P2: "?P 2 = 24000000" by (simp add: Rk3576SdmmcParentHz_def)
  have h2: "24000000 div 64 \<le> unat (?P 2) div unat (clock_divider T (?P 2))" "unat (?P 2) div unat (clock_divider T (?P 2)) \<le> unat T"
    using clock_divider_best [of T "?P 2" 64] assms by (simp_all add: P2)
  have "0 < b"
  proof -
    have "?P 2 div clock_divider T (?P 2) \<le> T" using h2(2) by (simp add: word_le_nat_alt unat_div_distrib)
    then have "?P 2 div clock_divider T (?P 2) \<le> b" using le [of 2] by simp
    then have "unat (?P 2) div unat (clock_divider T (?P 2)) \<le> unat b" by (simp add: word_le_nat_alt unat_div_distrib)
    then have "0 < unat b" using h2(1) by simp
    then show ?thesis by (simp add: word_greater_zero_iff unat_gt_0)
  qed
  then obtain P where P: "(m, P) \<in> set ?ps" "d = clock_divider T P" "b = P div d" "b \<le> T" using s by auto
  then obtain mux where mux: "mux < 3" "m = of_nat mux" "P = ?P mux"
  proof -
    assume *: "\<And>mux. mux < 3 \<Longrightarrow> m = of_nat mux \<Longrightarrow> P = ?P mux \<Longrightarrow> thesis"
    show thesis using P(1) * [of 0] * [of 1] * [of 2] by auto
  qed
  have "clock_best T = (b, m, d)" using f \<open>0 < b\<close> by (auto simp: clock_best_def)
  then show thesis using that [of mux] mux P(2,3,4) le by (simp add: Let_def)
qed

text \<open>The members of \<open>CCLK_SRC_SDMMC0\<close>, from the least significant bit.\<close>

definition CCLK_SRC_t :: layout where
  "CCLK_SRC_t = [(''Reserved0'', 7), (''Div'', 6), (''Mux'', 2), (''Reserved15'', 1), (''WriteMask'', 16)]"

lemma clksel_fields:
  assumes "unat m < 4" "unat d < 64"
  shows "getf CCLK_SRC_t ''Mux'' (RK3576_SDMMC_WRITE_MASK OR push_bit 13 m OR push_bit 7 d) = m"
    "getf CCLK_SRC_t ''Div'' (RK3576_SDMMC_WRITE_MASK OR push_bit 13 m OR push_bit 7 d) = d"
proof -
  have mhi: "bit m n \<Longrightarrow> n < 2" for n using high_bit_clear [of m 2 n] assms(1) by fastforce
  have dhi: "bit d n \<Longrightarrow> n < 6" for n using high_bit_clear [of d 6 n] assms(2) by fastforce
  have eq: "RK3576_SDMMC_WRITE_MASK = push_bit 16 (push_bit 7 (mask 6) OR push_bit 13 (mask 2))"
    by (simp add: RK3576_SDMMC_WRITE_MASK_def mask_numeral)
  have v: "bit (RK3576_SDMMC_WRITE_MASK OR push_bit 13 m OR push_bit 7 d) n
    = (n < 32 \<and> (23 \<le> n \<and> n < 31 \<or> 13 \<le> n \<and> bit m (n - 13) \<or> 7 \<le> n \<and> bit d (n - 7)))" for n
    unfolding eq bit_or_iff bit_push_bit_iff bit_mask_iff by auto
  define w where "w = RK3576_SDMMC_WRITE_MASK OR push_bit 13 m OR push_bit 7 d"
  have w: "bit w n = (n < 32 \<and> (23 \<le> n \<and> n < 31 \<or> 13 \<le> n \<and> bit m (n - 13) \<or> 7 \<le> n \<and> bit d (n - 7)))" for n
    unfolding w_def by (rule v)
  have "getf CCLK_SRC_t ''Mux'' w = m"
    by (rule bit_word_eqI) (auto simp: getf_def CCLK_SRC_t_def get_bits_def bit_take_bit_iff bit_drop_bit_eq w dest: mhi dhi)
  moreover have "getf CCLK_SRC_t ''Div'' w = d"
    by (rule bit_word_eqI) (auto simp: getf_def CCLK_SRC_t_def get_bits_def bit_take_bit_iff bit_drop_bit_eq w dest: mhi dhi)
  ultimately show "getf CCLK_SRC_t ''Mux'' (RK3576_SDMMC_WRITE_MASK OR push_bit 13 m OR push_bit 7 d) = m"
    "getf CCLK_SRC_t ''Div'' (RK3576_SDMMC_WRITE_MASK OR push_bit 13 m OR push_bit 7 d) = d"
    unfolding w_def by blast+
qed

lemma set_phase_state [simp]:
  "RkCardClockHz (snd (MshcRk3576SetPhase s deg x)) = RkCardClockHz x"
  "RkCruClkSel (snd (MshcRk3576SetPhase s deg x)) = RkCruClkSel x"
  "hostCaps (snd (MshcRk3576SetPhase s deg x)) = hostCaps x"
  by (simp_all add: MshcRk3576SetPhase_def MshcWriteRegister_def)

text \<open>C37: For every card clock from 188 kHz to 1553 MHz the CRU register is programmed with a parent (of the
  three) and a divider (1 to 64) whose clock, twice the card clock, is the fastest one of all parents and
  dividers that does not exceed the request; the card clock the driver remembers is half of it and the
  base clock is what the caller asked for.
\<close>

theorem card_clock_optimal:
  assumes "188 \<le> unat F" "unat F \<le> 1553000" "RkCruMapped x \<or> (\<not> crashdump \<and> mapped)"
  shows "fst (MshcRockchipSetClock crashdump mapped F x) = STATUS_SUCCESS \<and>
    (let y = snd (MshcRockchipSetClock crashdump mapped F x);
         mux = unat (getf CCLK_SRC_t ''Mux'' (RkCruClkSel y));
         divisor = unat (getf CCLK_SRC_t ''Div'' (RkCruClkSel y)) + 1;
         clock = unat (Rk3576SdmmcParentHz ! mux) div divisor
     in mux < 3 \<and> divisor \<le> 64 \<and> clock \<le> 2000 * unat F \<and> unat (RkCardClockHz y) = clock div 2 \<and> BaseClockFrequencyKhz (hostCaps y) = F \<and>
        (\<forall>m < 3. \<forall>d \<in> {1..64}. unat (Rk3576SdmmcParentHz ! m) \<le> 2000 * unat F * d
           \<longrightarrow> unat (Rk3576SdmmcParentHz ! m) div d \<le> clock))"
proof -
  let ?T = "F * 1000 * CRU_SD_CLKGEN_DIV" and ?P = "\<lambda>n. Rk3576SdmmcParentHz ! n"
  have T: "unat ?T = 2000 * unat F"
    using assms(2) by (simp add: CRU_SD_CLKGEN_DIV_def unat_word_ariths)
  have T1: "376000 \<le> unat ?T" "unat ?T \<le> 3106000000" unfolding T using assms(1,2) by simp_all
  obtain mux where mux: "mux < 3" "clock_best ?T = (let d = clock_divider ?T (?P mux) in (?P mux div d, of_nat mux, d))"
    "?P mux div clock_divider ?T (?P mux) \<le> ?T"
    "\<And>n. n < 3 \<Longrightarrow> ?P n div clock_divider ?T (?P n) \<le> ?T \<Longrightarrow> ?P n div clock_divider ?T (?P n) \<le> ?P mux div clock_divider ?T (?P mux)"
    using clock_best_spec [OF T1] by blast
  have P: "0 < unat (?P n) \<and> unat (?P n) \<le> 1188000000" if "n < 3" for n
  proof -
    have "n = 0 \<or> n = 1 \<or> n = 2" using that by auto
    then show ?thesis by (auto simp: Rk3576SdmmcParentHz_def)
  qed
  have cd: "0 < unat ?T" "0 < unat (?P n)" "unat (?P n) + unat ?T \<le> 4294967296" if "n < 3" for n
    using T1 P [OF that] by simp_all
  let ?d = "clock_divider ?T (?P mux)"
  note d = clock_divider_nat [OF cd [OF mux(1)]]
  have d1: "unat (?d - 1) = unat ?d - 1" using d(2) by (intro unat_minus_one) auto
  have m: "unat (of_nat mux :: u32) = mux" using mux(1) by (simp add: unsigned_of_nat take_bit_nat_eq_self)
  define y where "y = snd (MshcRockchipSetClock crashdump mapped F x)"
  have st: "fst (MshcRockchipSetClock crashdump mapped F x) = STATUS_SUCCESS"
    "RkCruClkSel y = RK3576_SDMMC_WRITE_MASK OR push_bit 13 (of_nat mux) OR push_bit 7 (?d - 1)"
    "RkCardClockHz y = ?P mux div ?d div CRU_SD_CLKGEN_DIV" "BaseClockFrequencyKhz (hostCaps y) = F"
    using assms(3) unfolding y_def by (auto simp: MshcRockchipSetClock_def Let_def mux(2))
  have f: "unat (getf CCLK_SRC_t ''Mux'' (RkCruClkSel y)) = mux" "unat (getf CCLK_SRC_t ''Div'' (RkCruClkSel y)) + 1 = unat ?d"
    unfolding st(2) using clksel_fields [of "of_nat mux" "?d - 1"] mux(1) m d d1 by simp_all
  let ?c = "unat (?P mux) div unat ?d"
  have c: "?c \<le> 2000 * unat F" using mux(3) T by (simp add: word_le_nat_alt unat_div_distrib)
  have hz: "unat (RkCardClockHz y) = ?c div 2" by (simp add: st(3) unat_div_distrib CRU_SD_CLKGEN_DIV_def)
  have best: "unat (?P n) div e \<le> ?c" if n: "n < 3" and e: "1 \<le> e" "e \<le> 64" "unat (?P n) \<le> 2000 * unat F * e" for n e
  proof -
    note b = clock_divider_best [OF cd [OF n] e(1,2), unfolded T, OF e(3)]
    have "?P n div clock_divider ?T (?P n) \<le> ?T" using b(2) by (simp add: word_le_nat_alt unat_div_distrib T)
    from mux(4) [OF n this] have "unat (?P n) div unat (clock_divider ?T (?P n)) \<le> ?c" by (simp add: word_le_nat_alt unat_div_distrib)
    with b(1) show ?thesis by simp
  qed
  show ?thesis using st(1,4) mux(1) d(3) c hz best unfolding y_def [symmetric] Let_def f by simp
qed

theorem card_clock_optimal_witness:
  "fst (MshcRockchipSetClock False True 400 demo_mshc) = STATUS_SUCCESS
    \<and> unat (RkCardClockHz (snd (MshcRockchipSetClock False True 400 demo_mshc))) \<le> 400000"
proof -
  have "RkCruMapped demo_mshc" by (simp add: demo_mshc_def)
  then show ?thesis using card_clock_optimal [of 400 demo_mshc False True] by (auto simp: Let_def)
qed

end
