(* ===== verification/MshcBusProofs.thy ===== *)
theory MshcBusProofs imports MshcTransfers RockchipClock begin

text \<open>
  The interface between the SD/MMC host driver and the platform's clock operation (\<open>platform_clock\<close>), what
  changing the card clock does to the controller, and what the interrupt service routine reports.
\<close>

section \<open>Polling\<close>

lemma poll_regs: "s \<noteq> r \<Longrightarrow> MshcReadRegister s (snd (poll_register n r ok x)) = MshcReadRegister s x"
  by (induction n arbitrary: x) (auto simp: MshcReadDevice_def MshcReadRegister_def Let_def)

lemma poll_log: "mshcLog (snd (poll_register n r ok x)) = mshcLog x"
  by (induction n arbitrary: x) (auto simp: MshcReadDevice_def Let_def)

lemma poll_status: "fst (poll_register n r ok x) \<in> {STATUS_SUCCESS, STATUS_IO_TIMEOUT}"
  by (induction n arbitrary: x) (auto simp: MshcReadDevice_def Let_def)

definition ciu_command :: "u32 \<Rightarrow> u32" where
  "ciu_command flags = MSHC_CMD_WAIT_PRVDATA_COMPLETE OR MSHC_CMD_UPDATE_CLOCK_REGS_ONLY OR MSHC_CMD_START_CMD OR flags"

lemma ciu_effect:
  "r \<notin> {MSHC_STATUS, MSHC_CMD, MSHC_CMDARG} \<Longrightarrow> MshcReadRegister r (snd (MshcCiuUpdateClock flags x)) = MshcReadRegister r x"
  "mshcLog (snd (MshcCiuUpdateClock flags x)) = mshcLog x @ [(MSHC_CMDARG, 0), (MSHC_CMD, ciu_command flags)]"
  "fst (MshcCiuUpdateClock flags x) \<in> {STATUS_SUCCESS, STATUS_IO_TIMEOUT}"
proof -
  let ?a = "if flags AND MSHC_CMD_VOLT_SWITCH = 0 then snd (MshcWaitDataIdle x) else x"
  let ?b = "MshcWriteRegister MSHC_CMD (ciu_command flags) (MshcWriteRegister MSHC_CMDARG 0 ?a)"
  have e: "MshcCiuUpdateClock flags x = poll_register 200000 MSHC_CMD (\<lambda>v. \<not> has v MSHC_CMD_START_CMD) ?b"
    unfolding MshcCiuUpdateClock_def Let_def ciu_command_def ..
  have a: "mshcLog ?a = mshcLog x" "s \<noteq> MSHC_STATUS \<Longrightarrow> MshcReadRegister s ?a = MshcReadRegister s x" for s
    by (simp_all add: MshcWaitDataIdle_def poll_log poll_regs)
  show "r \<notin> {MSHC_STATUS, MSHC_CMD, MSHC_CMDARG} \<Longrightarrow> MshcReadRegister r (snd (MshcCiuUpdateClock flags x)) = MshcReadRegister r x"
    unfolding e using a(2) by (simp add: poll_regs)
  have "mshcLog ?b = mshcLog x @ [(MSHC_CMDARG, 0), (MSHC_CMD, ciu_command flags)]"
    using a(1) by (simp add: MshcWriteRegister_def)
  then show "mshcLog (snd (MshcCiuUpdateClock flags x)) = mshcLog x @ [(MSHC_CMDARG, 0), (MSHC_CMD, ciu_command flags)]"
    unfolding e poll_log .
  show "fst (MshcCiuUpdateClock flags x) \<in> {STATUS_SUCCESS, STATUS_IO_TIMEOUT}" unfolding e by (rule poll_status)
qed

lemma poll_holds: "fst (poll_register n r ok x) = STATUS_SUCCESS \<Longrightarrow> ok (MshcReadRegister r (snd (poll_register n r ok x)))"
  by (induction n arbitrary: x) (auto simp: MshcReadDevice_def MshcReadRegister_def Let_def split: if_splits)

lemma ciu_taken:
  assumes "NT_SUCCESS (fst (MshcCiuUpdateClock flags x))"
  shows "\<not> has (MshcReadRegister MSHC_CMD (snd (MshcCiuUpdateClock flags x))) MSHC_CMD_START_CMD"
proof -
  have "fst (MshcCiuUpdateClock flags x) = STATUS_SUCCESS" using assms ciu_effect(3) [of flags x] by auto
  then show ?thesis unfolding MshcCiuUpdateClock_def Let_def by (rule poll_holds)
qed

lemma same_ciu_fields: "SlotId (snd (MshcCiuUpdateClock flags x)) = SlotId x" "hostCaps (snd (MshcCiuUpdateClock flags x)) = hostCaps x"
  "platformCaps (snd (MshcCiuUpdateClock flags x)) = platformCaps x"
  using same_driver_fields [OF same_ciu [of x flags]] by simp_all

section \<open>The clock registers\<close>

text \<open>
  In a list of register writes, the divider and the source of the card clock are written only while the clock
  of the slot is off; \<open>on\<close> says whether it may be on before.
\<close>

fun clock_writes_gated :: "nat \<Rightarrow> bool \<Rightarrow> (nat \<times> u32) list \<Rightarrow> bool" where
  "clock_writes_gated slot_id on [] = True"
| "clock_writes_gated slot_id on ((r, v) # ws) =
     (if r = MSHC_CLKENA then clock_writes_gated slot_id (has v (MSHC_CLKENA_CCLK_ENABLE slot_id)) ws
      else (r = MSHC_CLKDIV \<or> r = MSHC_CLKSRC \<longrightarrow> \<not> on) \<and> clock_writes_gated slot_id on ws)"

definition clock_enabled :: "MSHC_EXTENSION \<Rightarrow> bool" where
  "clock_enabled x \<longleftrightarrow> has (MshcReadRegister MSHC_CLKENA x) (MSHC_CLKENA_CCLK_ENABLE (SlotId x))"

definition other_writes :: "(nat \<times> u32) list \<Rightarrow> bool" where
  "other_writes ws \<longleftrightarrow> (\<forall>(r, v) \<in> set ws. r \<notin> {MSHC_CLKENA, MSHC_CLKDIV, MSHC_CLKSRC})"

lemma gated_append_other: "other_writes ws \<Longrightarrow> clock_writes_gated k on (ws @ vs) = clock_writes_gated k on vs"
  by (induction ws) (auto simp: other_writes_def)

text \<open>The frequency the driver settles on.\<close>

definition chosen_frequency :: "bool \<Rightarrow> u32 \<Rightarrow> MSHC_EXTENSION \<Rightarrow> u32" where
  "chosen_frequency crashdump f x = limit_frequency (MaxFrequency (platformCaps x)) (if crashdump then crashdump_frequency (BusSpeed x) f else f)"

lemma clock_off_effect:
  "SlotId (clock_off x) = SlotId x" "\<not> clock_enabled (clock_off x)"
  "\<exists>v. mshcLog (clock_off x) = mshcLog x @ [(MSHC_CLKENA, v), (MSHC_CLKSRC, 0), (MSHC_CLKDIV, 0)] \<and> \<not> has v (MSHC_CLKENA_CCLK_ENABLE (SlotId x))"
  "MshcReadRegister MSHC_CLKSRC (clock_off x) = 0"
proof -
  define v where "v = (MshcReadRegister MSHC_CLKENA x AND NOT (MSHC_CLKENA_CCLK_ENABLE (SlotId x))) AND NOT (MSHC_CLKENA_CCLK_LOW_POWER (SlotId x))"
  have v: "\<not> has v (MSHC_CLKENA_CCLK_ENABLE (SlotId x))"
    unfolding v_def by (meson has_clear has_clear_same)
  have e: "clock_off x = MshcWriteRegister MSHC_CLKDIV 0 (MshcWriteRegister MSHC_CLKSRC 0 (MshcWriteRegister MSHC_CLKENA v x))"
    by (simp add: clock_off_def v_def Let_def)
  show "SlotId (clock_off x) = SlotId x" by (simp add: e MshcWriteRegister_def)
  then show "\<not> clock_enabled (clock_off x)" using v by (simp add: clock_enabled_def e mshc_regs)
  show "\<exists>v. mshcLog (clock_off x) = mshcLog x @ [(MSHC_CLKENA, v), (MSHC_CLKSRC, 0), (MSHC_CLKDIV, 0)] \<and> \<not> has v (MSHC_CLKENA_CCLK_ENABLE (SlotId x))"
    using v by (simp add: e MshcWriteRegister_def)
  show "MshcReadRegister MSHC_CLKSRC (clock_off x) = 0" by (simp add: e mshc_regs)
qed

lemma other_ciu: "other_writes [(MSHC_CMDARG, 0), (MSHC_CMD, c)]"
  by (simp add: other_writes_def mshc_regs)

lemma clock_on_effect:
  assumes "clock_on clkena f x = (status, y)"
  shows "\<exists>ws. mshcLog y = mshcLog x @ ws \<and> clock_writes_gated (SlotId x) False ws"
    "NT_SUCCESS status \<Longrightarrow> SlotId x < 32 \<Longrightarrow> clock_enabled y"
    "NT_SUCCESS status \<Longrightarrow> MshcReadRegister MSHC_CLKSRC y = MshcReadRegister MSHC_CLKSRC x
       \<and> MshcReadRegister MSHC_CLKDIV y = clock_divisor (BaseClockFrequencyKhz (hostCaps x)) f"
proof -
  define a where "a = MshcWriteRegister MSHC_CLKDIV (clock_divisor (BaseClockFrequencyKhz (hostCaps x)) f) x"
  obtain st b where b: "MshcCiuUpdateClock 0 a = (st, b)" by fastforce
  define v where "v = (clkena OR MSHC_CLKENA_CCLK_ENABLE (SlotId b)) OR MSHC_CLKENA_CCLK_LOW_POWER (SlotId b)"
  define c where "c = MshcWriteRegister MSHC_CLKENA v b"
  have y: "(status, y) = (if \<not> NT_SUCCESS st then (st, b) else MshcCiuUpdateClock 0 c)"
    using assms [symmetric] by (simp add: clock_on_def Let_def a_def [symmetric] b v_def c_def cong: if_cong)
  have la: "mshcLog a = mshcLog x @ [(MSHC_CLKDIV, clock_divisor (BaseClockFrequencyKhz (hostCaps x)) f)]" "SlotId a = SlotId x"
    by (simp_all add: a_def MshcWriteRegister_def)
  have lc: "mshcLog c = mshcLog b @ [(MSHC_CLKENA, v)]" by (simp add: c_def MshcWriteRegister_def)
  have lb: "mshcLog b = mshcLog x @ [(MSHC_CLKDIV, clock_divisor (BaseClockFrequencyKhz (hostCaps x)) f), (MSHC_CMDARG, 0), (MSHC_CMD, ciu_command 0)]"
    using ciu_effect(2) [of 0 a] b la by simp
  have slot: "SlotId b = SlotId x" using same_ciu_fields(1) [of 0 a] b la by simp
  have gated: "clock_writes_gated (SlotId x) False (ws @ [(MSHC_CLKENA, v), (MSHC_CMDARG, 0), (MSHC_CMD, ciu_command 0)])" 
    "clock_writes_gated (SlotId x) False ws" if "ws = [(MSHC_CLKDIV, d), (MSHC_CMDARG, 0), (MSHC_CMD, ciu_command 0)]" for d ws
    unfolding that by (simp_all add: mshc_regs)
  show "\<exists>ws. mshcLog y = mshcLog x @ ws \<and> clock_writes_gated (SlotId x) False ws"
  proof (cases "NT_SUCCESS st")
    case True
    then have "mshcLog y = mshcLog b @ [(MSHC_CLKENA, v), (MSHC_CMDARG, 0), (MSHC_CMD, ciu_command 0)]"
      using y ciu_effect(2) [of 0 c] by (simp add: lc flip: surjective_pairing) (metis snd_conv)
    then show ?thesis unfolding lb using gated(1) [OF refl] by (simp only: append_assoc) blast
  next
    case False
    then have "y = b" using y by simp
    then show ?thesis unfolding lb using gated(2) [OF refl] lb by blast
  qed
  assume ok: "NT_SUCCESS status"
  then have y': "MshcCiuUpdateClock 0 c = (status, y)" using y by (auto split: if_splits)
  have yc: "MshcReadRegister r y = MshcReadRegister r c" if "r \<notin> {MSHC_STATUS, MSHC_CMD, MSHC_CMDARG}" for r
    using ciu_effect(1) [OF that, of 0 c] y' by simp
  have sy: "SlotId y = SlotId x" using same_ciu_fields(1) [of 0 c] y' slot by (simp add: c_def MshcWriteRegister_def)
  show "clock_enabled y" if "SlotId x < 32"
  proof -
    have "has v (MSHC_CLKENA_CCLK_ENABLE (SlotId x))" using that slot
      unfolding v_def has_or by (auto simp: has_self MSHC_CLKENA_CCLK_ENABLE_def)
    moreover have "MshcReadRegister MSHC_CLKENA y = v" using yc [of MSHC_CLKENA] by (simp add: c_def mshc_regs)
    ultimately show ?thesis by (simp add: clock_enabled_def sy)
  qed
  have bc: "MshcReadRegister r b = MshcReadRegister r a" if "r \<notin> {MSHC_STATUS, MSHC_CMD, MSHC_CMDARG}" for r
    using ciu_effect(1) [OF that, of 0 a] b by simp
  show "MshcReadRegister MSHC_CLKSRC y = MshcReadRegister MSHC_CLKSRC x
       \<and> MshcReadRegister MSHC_CLKDIV y = clock_divisor (BaseClockFrequencyKhz (hostCaps x)) f"
    using yc [of MSHC_CLKSRC] yc [of MSHC_CLKDIV] bc [of MSHC_CLKSRC] bc [of MSHC_CLKDIV]
    by (simp add: c_def a_def mshc_regs)
qed

text \<open>
  The slots at which the source of the card clock may change, after \<open>x\<close>: the slot's clock has been switched off, the
  update command that makes it so is the last thing the controller was given, and the controller has taken it.
\<close>

definition clock_gated_after :: "MSHC_EXTENSION \<Rightarrow> MSHC_EXTENSION \<Rightarrow> bool" where
  "clock_gated_after x y \<longleftrightarrow> \<not> clock_enabled y \<and> SlotId y = SlotId x
     \<and> (\<exists>v. mshcLog y = mshcLog x @ [(MSHC_CLKENA, v), (MSHC_CLKSRC, 0), (MSHC_CLKDIV, 0), (MSHC_CMDARG, 0), (MSHC_CMD, ciu_command 0)]
            \<and> \<not> has v (MSHC_CLKENA_CCLK_ENABLE (SlotId x)))
     \<and> \<not> has (MshcReadRegister MSHC_CMD y) MSHC_CMD_START_CMD"

lemma off_gated:
  assumes "NT_SUCCESS (fst (MshcCiuUpdateClock 0 (clock_off x)))"
  shows "clock_gated_after x (snd (MshcCiuUpdateClock 0 (clock_off x)))"
proof -
  let ?a = "clock_off x" let ?b = "snd (MshcCiuUpdateClock 0 ?a)"
  have slot: "SlotId ?b = SlotId x" using same_ciu_fields(1) clock_off_effect(1) by simp
  have "MshcReadRegister MSHC_CLKENA ?b = MshcReadRegister MSHC_CLKENA ?a" by (rule ciu_effect(1)) (simp add: mshc_regs)
  then have "\<not> clock_enabled ?b" using clock_off_effect(1,2) [of x] slot by (simp add: clock_enabled_def)
  moreover obtain v where "mshcLog ?a = mshcLog x @ [(MSHC_CLKENA, v), (MSHC_CLKSRC, 0), (MSHC_CLKDIV, 0)]"
    "\<not> has v (MSHC_CLKENA_CCLK_ENABLE (SlotId x))" using clock_off_effect(3) [of x] by blast
  moreover from this(1) have "mshcLog ?b = mshcLog x @ [(MSHC_CLKENA, v), (MSHC_CLKSRC, 0), (MSHC_CLKDIV, 0), (MSHC_CMDARG, 0), (MSHC_CMD, ciu_command 0)]"
    using ciu_effect(2) [of 0 ?a] by simp
  ultimately show ?thesis using slot ciu_taken [OF assms] unfolding clock_gated_after_def by blast
qed

text \<open>The platform's operation is consulted at such a slot only.\<close>

lemma set_clock_stages:
  fixes crashdump f x p
  defines "a \<equiv> clock_off x"
  defines "b \<equiv> snd (MshcCiuUpdateClock 0 a)"
  defines "g \<equiv> chosen_frequency crashdump f b"
  defines "c \<equiv> snd (p g b)"
  shows "MshcSetClock (Some p) crashdump f x =
    (if \<not> NT_SUCCESS (fst (MshcCiuUpdateClock 0 a)) then (fst (MshcCiuUpdateClock 0 a), b)
     else if f = 0 then (STATUS_SUCCESS, b\<lparr>BusFrequencyKhz := 0\<rparr>)
     else if \<not> NT_SUCCESS (fst (p g b)) then (fst (p g b), c)
     else case clock_on (MshcReadRegister MSHC_CLKENA a) g c of (st, w) \<Rightarrow>
        if NT_SUCCESS st then (STATUS_SUCCESS, w\<lparr>BusFrequencyKhz := g\<rparr>) else (st, w))"
  unfolding MshcSetClock_def Let_def g_def c_def b_def a_def chosen_frequency_def
  by (auto split: prod.splits)

lemma platform_called_gated:
  assumes "\<And>k y. clock_gated_after x y \<Longrightarrow> p k y = q k y"
  shows "MshcSetClock (Some p) crashdump f x = MshcSetClock (Some q) crashdump f x"
proof (cases "NT_SUCCESS (fst (MshcCiuUpdateClock 0 (clock_off x)))")
  case True
  then have eq: "p k (snd (MshcCiuUpdateClock 0 (clock_off x))) = q k (snd (MshcCiuUpdateClock 0 (clock_off x)))" for k
    using assms [OF off_gated] by blast
  show ?thesis unfolding set_clock_stages eq ..
next
  case False
  then show ?thesis unfolding set_clock_stages by (simp only: if_True not_False_eq_True)
qed

text \<open>
  What the driver relies on of a platform's clock operation: it writes no core register, it leaves the slot
  and the platform's capabilities alone, and after success the base clock is the one asked for.
\<close>

locale platform_clock =
  fixes set_clock :: set_clock_operation
  assumes keeps: "r < 0x100 \<Longrightarrow> MshcReadRegister r (snd (set_clock f x)) = MshcReadRegister r x"
    and slot: "SlotId (snd (set_clock f x)) = SlotId x"
    and log: "\<exists>ws. mshcLog (snd (set_clock f x)) = mshcLog x @ ws \<and> other_writes ws"
    and base: "NT_SUCCESS (fst (set_clock f x)) \<Longrightarrow> BaseClockFrequencyKhz (hostCaps (snd (set_clock f x))) = f"
begin

lemmas stages = set_clock_stages [where p = set_clock]

lemma set_clock_gated:
  assumes "MshcSetClock (Some set_clock) crashdump f x = (status, y)"
  shows "\<exists>ws. mshcLog y = mshcLog x @ ws \<and> clock_writes_gated (SlotId x) (clock_enabled x) ws"
proof -
  define a where "a = clock_off x"
  define b where "b = snd (MshcCiuUpdateClock 0 a)"
  define g where "g = chosen_frequency crashdump f b"
  define c where "c = snd (set_clock g b)"
  note st = stages [of crashdump f x, folded a_def, folded b_def, folded g_def, folded c_def]
  obtain v where v: "mshcLog a = mshcLog x @ [(MSHC_CLKENA, v), (MSHC_CLKSRC, 0), (MSHC_CLKDIV, 0)]" "\<not> has v (MSHC_CLKENA_CCLK_ENABLE (SlotId x))"
    using clock_off_effect(3) [of x] by (auto simp: a_def)
  let ?off = "[(MSHC_CLKENA, v), (MSHC_CLKSRC, 0), (MSHC_CLKDIV, 0), (MSHC_CMDARG, 0), (MSHC_CMD, ciu_command 0)]"
  have lb: "mshcLog b = mshcLog x @ ?off" using ciu_effect(2) [of 0 a] v(1) by (simp add: b_def)
  obtain ws where ws: "mshcLog c = mshcLog b @ ws" "other_writes ws" using log [of g b] by (auto simp: c_def)
  have slot: "SlotId c = SlotId x" using slot [of g b] same_ciu_fields(1) [of 0 a] clock_off_effect(1) [of x] by (simp add: a_def b_def c_def)
  have off: "clock_writes_gated (SlotId x) (clock_enabled x) (?off @ vs) = clock_writes_gated (SlotId x) False vs" for vs
    using v(2) by (simp add: mshc_regs)
  have b: "\<exists>ws. mshcLog b = mshcLog x @ ws \<and> clock_writes_gated (SlotId x) (clock_enabled x) ws"
    using lb off [of "[]"] by (intro exI [of _ ?off]) simp
  have c: "\<exists>ws. mshcLog c = mshcLog x @ ws \<and> clock_writes_gated (SlotId x) (clock_enabled x) ws"
    using lb ws off [of ws] gated_append_other [OF ws(2), of "SlotId x" False "[]"] by (intro exI [of _ "?off @ ws"]) simp
  obtain st w where w: "clock_on (MshcReadRegister MSHC_CLKENA a) g c = (st, w)" by fastforce
  obtain us where us: "mshcLog w = mshcLog c @ us" "clock_writes_gated (SlotId x) False us" using clock_on_effect(1) [OF w] slot by auto
  have w': "\<exists>ws. mshcLog w = mshcLog x @ ws \<and> clock_writes_gated (SlotId x) (clock_enabled x) ws"
    using lb ws us off [of "ws @ us"] gated_append_other [OF ws(2), of "SlotId x" False us] by (intro exI [of _ "?off @ ws @ us"]) simp
  show ?thesis using assms b c w' unfolding st w by (auto split: if_splits)
qed

lemma set_clock_result:
  assumes "MshcSetClock (Some set_clock) crashdump f x = (status, y)" "NT_SUCCESS status" "SlotId x < 32"
  shows "if f = 0 then \<not> clock_enabled y \<and> BusFrequencyKhz y = 0
    else clock_enabled y \<and> MshcReadRegister MSHC_CLKSRC y = 0 \<and> MshcReadRegister MSHC_CLKDIV y = 0 \<and> BusFrequencyKhz y = chosen_frequency crashdump f x"
proof -
  define a where "a = clock_off x"
  define b where "b = snd (MshcCiuUpdateClock 0 a)"
  define g where "g = chosen_frequency crashdump f b"
  define c where "c = snd (set_clock g b)"
  note st = stages [of crashdump f x, folded a_def, folded b_def, folded g_def, folded c_def]
  have "same_driver x a" unfolding a_def clock_off_def Let_def by (intro same_write2) simp
  then have ab: "same_driver x b" using same_ciu same_driver_trans unfolding b_def by blast
  have bs: "BusSpeed b = BusSpeed x" using ab by (auto simp: same_driver_def)
  have g: "g = chosen_frequency crashdump f x" using same_driver_fields [OF ab] bs by (simp add: g_def chosen_frequency_def)
  have rb: "MshcReadRegister r b = MshcReadRegister r a" if "r \<notin> {MSHC_STATUS, MSHC_CMD, MSHC_CMDARG}" for r
    using ciu_effect(1) [OF that] by (simp add: b_def)
  have slots: "SlotId a = SlotId x" "SlotId b = SlotId x" "SlotId c = SlotId x"
    using slot [of g b] same_driver_fields(11) [OF ab] clock_off_effect(1) [of x] by (simp_all add: a_def c_def)
  have off: "\<not> clock_enabled b" using clock_off_effect(2) [of x] rb [of MSHC_CLKENA] slots
    by (simp add: clock_enabled_def a_def mshc_regs)
  have src: "MshcReadRegister MSHC_CLKSRC c = 0"
    using keeps [of MSHC_CLKSRC g b] rb [of MSHC_CLKSRC] clock_off_effect(4) [of x] by (simp add: c_def a_def mshc_regs)
  obtain st w where w: "clock_on (MshcReadRegister MSHC_CLKENA a) g c = (st, w)" by fastforce
  note won = clock_on_effect(2,3) [OF w]
  show ?thesis
  proof (cases "f = 0")
    case True
    then show ?thesis using assms off unfolding st by (auto simp: clock_enabled_def MshcReadRegister_def split: if_splits)
  next
    case False
    then have "NT_SUCCESS (fst (set_clock g b))" "NT_SUCCESS st" "y = w\<lparr>BusFrequencyKhz := g\<rparr>"
      using assms unfolding st w by (auto split: if_splits)
    then show ?thesis using won slots assms(3) src base [of g b] False
      by (simp add: g clock_enabled_def MshcReadRegister_def clock_divisor_def c_def)
  qed
qed

end

section \<open>The RK3576 platform\<close>

lemma set_phase_effect:
  "r < 0x100 \<Longrightarrow> MshcReadRegister r (snd (MshcRk3576SetPhase sample d x)) = MshcReadRegister r x"
  "SlotId (snd (MshcRk3576SetPhase sample d x)) = SlotId x" "hostCaps (snd (MshcRk3576SetPhase sample d x)) = hostCaps x"
  "\<exists>ws. mshcLog (snd (MshcRk3576SetPhase sample d x)) = mshcLog x @ ws \<and> other_writes ws"
  by (auto simp: MshcRk3576SetPhase_def MshcWriteRegister_def MshcReadRegister_def MSHC_TIMING_CON0_def MSHC_TIMING_CON1_def other_writes_def mshc_regs)

lemma other_writes_append: "other_writes (ws @ vs) \<longleftrightarrow> other_writes ws \<and> other_writes vs"
  by (auto simp: other_writes_def)

lemma phases_log:
  "\<exists>ws. mshcLog (snd (MshcRk3576SetPhase s d (if p then snd (MshcRk3576SetPhase t e x) else x))) = mshcLog x @ ws \<and> other_writes ws"
proof -
  obtain us where us: "mshcLog (if p then snd (MshcRk3576SetPhase t e x) else x) = mshcLog x @ us" "other_writes us"
    using set_phase_effect(4) [of t e x] by (cases p) (auto simp: other_writes_def)
  obtain vs where "mshcLog (snd (MshcRk3576SetPhase s d (if p then snd (MshcRk3576SetPhase t e x) else x)))
      = mshcLog (if p then snd (MshcRk3576SetPhase t e x) else x) @ vs" "other_writes vs" using set_phase_effect(4) by blast
  then show ?thesis using us by (intro exI [of _ "us @ vs"]) (simp add: other_writes_append)
qed

interpretation rockchip: platform_clock "MshcRockchipSetClock crashdump mapped" for crashdump mapped
proof
  fix r f and x :: MSHC_EXTENSION
  let ?x = "if \<not> RkCruMapped x \<and> \<not> crashdump then x\<lparr>RkCruMapped := mapped\<rparr> else x"
  obtain h m d where best: "clock_best (f * 1000 * CRU_SD_CLKGEN_DIV) = (h, m, d)" by (metis prod_cases3)
  define z where "z = ?x\<lparr>RkCruClkSel := RK3576_SDMMC_WRITE_MASK OR push_bit 13 m OR push_bit 7 (d - 1), RkCardClockHz := h div CRU_SD_CLKGEN_DIV,
      hostCaps := (hostCaps ?x)\<lparr>BaseClockFrequencyKhz := f\<rparr>\<rparr>"
  have e: "MshcRockchipSetClock crashdump mapped f x = (if \<not> RkCruMapped ?x then (STATUS_NOT_SUPPORTED, ?x)
    else (STATUS_SUCCESS, snd (MshcRk3576SetPhase False (if f \<ge> 100000 then 180 else 90) (if f \<le> 400 then snd (MshcRk3576SetPhase True SAMPLE_PHASE_DEFAULT z) else z))))"
    unfolding MshcRockchipSetClock_def Let_def best by (simp add: z_def cong: if_cong)
  have zx: "mshcRegs z = mshcRegs x" "mshcLog z = mshcLog x" "SlotId z = SlotId x" "mshcRegs ?x = mshcRegs x" "mshcLog ?x = mshcLog x" "SlotId ?x = SlotId x"
    "BaseClockFrequencyKhz (hostCaps z) = f" by (simp_all add: z_def)
  show "MshcReadRegister r (snd (MshcRockchipSetClock crashdump mapped f x)) = MshcReadRegister r x" if "r < 0x100"
    using that zx unfolding e by (auto simp: set_phase_effect MshcReadRegister_def [of _ z] MshcReadRegister_def [of _ x] MshcReadRegister_def [of _ ?x])
  show "SlotId (snd (MshcRockchipSetClock crashdump mapped f x)) = SlotId x"
    using zx unfolding e by (auto simp: set_phase_effect)
  show "\<exists>ws. mshcLog (snd (MshcRockchipSetClock crashdump mapped f x)) = mshcLog x @ ws \<and> other_writes ws"
    using zx phases_log [where x = z and s = False and t = True and e = SAMPLE_PHASE_DEFAULT] unfolding e by (auto simp: other_writes_def)
  show "BaseClockFrequencyKhz (hostCaps (snd (MshcRockchipSetClock crashdump mapped f x))) = f"
    if "NT_SUCCESS (fst (MshcRockchipSetClock crashdump mapped f x))"
    using that zx unfolding e by (auto simp: set_phase_effect split: if_splits)
qed

text \<open>C25: Setting the card clock on the RK3576 is glitch free: whatever the outcome, the divider and the source of the card
  clock in the controller are written only while the clock of the slot is switched off; the platform's operation,
  which changes the clock that feeds the controller, is consulted only with the slot's clock switched off, after the
  controller has taken the update command that switches it off (so that any operation that agrees with the RK3576's at
  such slots gives the same result); and when setting the clock succeeds, the clock is off for frequency 0, and
  otherwise on, taken from source 0 without division, at the frequency asked for limited by the platform's maximum.
  The slot is one of 32.
\<close>

theorem set_clock_glitch_free:
  assumes "SlotId x < 32"
  shows "(\<forall>p. (\<forall>k y. clock_gated_after x y \<longrightarrow> p k y = MshcRockchipSetClock crashdump mapped k y) \<longrightarrow>
      MshcSetClock (Some p) crashdump f x = MshcSetClock (Some (MshcRockchipSetClock crashdump mapped)) crashdump f x) \<and>
    (case MshcSetClock (Some (MshcRockchipSetClock crashdump mapped)) crashdump f x of (status, y) \<Rightarrow>
    (\<exists>ws. mshcLog y = mshcLog x @ ws \<and> clock_writes_gated (SlotId x) (clock_enabled x) ws) \<and>
    (if \<not> NT_SUCCESS status then True
     else if f = 0 then \<not> clock_enabled y \<and> BusFrequencyKhz y = 0
     else clock_enabled y \<and> MshcReadRegister MSHC_CLKSRC y = 0 \<and> MshcReadRegister MSHC_CLKDIV y = 0 \<and>
          BusFrequencyKhz y = chosen_frequency crashdump f x))"
proof
  show "\<forall>p. (\<forall>k y. clock_gated_after x y \<longrightarrow> p k y = MshcRockchipSetClock crashdump mapped k y) \<longrightarrow>
      MshcSetClock (Some p) crashdump f x = MshcSetClock (Some (MshcRockchipSetClock crashdump mapped)) crashdump f x"
    using platform_called_gated by blast
  show "case MshcSetClock (Some (MshcRockchipSetClock crashdump mapped)) crashdump f x of (status, y) \<Rightarrow>
    (\<exists>ws. mshcLog y = mshcLog x @ ws \<and> clock_writes_gated (SlotId x) (clock_enabled x) ws) \<and>
    (if \<not> NT_SUCCESS status then True
     else if f = 0 then \<not> clock_enabled y \<and> BusFrequencyKhz y = 0
     else clock_enabled y \<and> MshcReadRegister MSHC_CLKSRC y = 0 \<and> MshcReadRegister MSHC_CLKDIV y = 0 \<and>
          BusFrequencyKhz y = chosen_frequency crashdump f x)"
    using rockchip.set_clock_gated rockchip.set_clock_result assms by (auto split: prod.splits)
qed

theorem set_clock_glitch_free_witness:
  "(case MshcSetClock (Some (MshcRockchipSetClock False True)) False 50000 demo_mshc of (status, y) \<Rightarrow>
    \<exists>ws. mshcLog y = mshcLog demo_mshc @ ws \<and> clock_writes_gated 0 (clock_enabled demo_mshc) ws) \<and>
   MshcSetClock (Some (\<lambda>k y. if clock_enabled y then (STATUS_NOT_SUPPORTED, y) else MshcRockchipSetClock False True k y)) False 50000 demo_mshc
     = MshcSetClock (Some (MshcRockchipSetClock False True)) False 50000 demo_mshc"
proof -
  have slot: "SlotId demo_mshc = 0" by (simp add: demo_mshc_def)
  then have "SlotId demo_mshc < 32" by simp
  note free = set_clock_glitch_free [OF this, of False True 50000]
  have "MshcSetClock (Some (\<lambda>k y. if clock_enabled y then (STATUS_NOT_SUPPORTED, y) else MshcRockchipSetClock False True k y)) False 50000 demo_mshc
     = MshcSetClock (Some (MshcRockchipSetClock False True)) False 50000 demo_mshc"
    by (rule free [THEN conjunct1, rule_format]) (simp add: clock_gated_after_def)
  then show ?thesis using free [THEN conjunct2] slot by (auto split: prod.splits)
qed

end
