(* ===== verification/MshcHostProofs.thy ===== *)
theory MshcHostProofs imports MshcHost MshcBusProofs begin

text \<open>
  What resetting the host does: the circle of resets and local commands ends after three resets
  (\<open>platform_tuning\<close> is what that relies on of a platform's tuning), a full reset leaves the slot quiet, and
  a stop command that gets no answer leaves a pointer to a dead request behind.
\<close>

section \<open>The request path leaves the tuning state alone\<close>

named_theorems tuning_kept "routines that leave TuningPerformed unchanged"

lemma tuning_same_driver: "same_driver x y \<Longrightarrow> TuningPerformed y = TuningPerformed x"
  by (rule same_driver_fields(17))

lemmas tuning_frame [tuning_kept] = frame [THEN tuning_same_driver]

lemma tuning_write [tuning_kept]: "TuningPerformed (MshcWriteRegister r v x) = TuningPerformed x"
  by (rule tuning_same_driver [OF same_write])

lemma finish_tuning [tuning_kept]: "TuningPerformed (finish_request r x) = TuningPerformed x"
proof -
  define a where "a = (if reqStatus (requests x r) = STATUS_SUCCESS \<or> reqStatus (requests x r) = STATUS_MORE_PROCESSING_REQUIRED
    then x\<lparr>OutstandingRequest := None\<rparr> else x)"
  obtain ins b where b: "MshcIsCardInserted a = (ins, b)" by fastforce
  then have "TuningPerformed b = TuningPerformed a" using tuning_same_driver [OF same_inserted [of a]] by simp
  then have b: "MshcIsCardInserted a = (ins, b)" "TuningPerformed b = TuningPerformed x" using b by (simp_all add: a_def)
  then show ?thesis by (simp add: finish_request_def Let_def a_def [symmetric])
qed

lemma complete_tuning: "MshcCompleteRequest n dispatch r status x = Some y \<Longrightarrow> TuningPerformed y = TuningPerformed x"
proof (induction n arbitrary: r status x)
  case (Suc n)
  define a where "a = change_request r (\<lambda>q. q\<lparr>reqStatus := status\<rparr>) x"
  obtain busy b where b: "MshcIsDataBusy a = (busy, b)" by fastforce
  obtain st c where c: "MshcWaitDataIdle b = (st, c)" by fastforce
  have t: "TuningPerformed a = TuningPerformed x" "TuningPerformed b = TuningPerformed a" "TuningPerformed c = TuningPerformed b"
    using tuning_same_driver [OF same_busy [of a]] tuning_same_driver [OF same_idle [of b]] b c by (simp_all add: a_def)
  show ?case using Suc.prems Suc.IH t b c
    by (auto simp: a_def [symmetric] Let_def finish_tuning split: if_splits option.splits)
qed simp

lemma dpc_tuning: "MshcRequestDpc n C r events errors x = Some y \<Longrightarrow> TuningPerformed y = TuningPerformed x"
  by (auto simp: MshcRequestDpc_def Let_def dest!: complete_tuning split: if_splits)

lemma build_tuning: "MshcBuildTransfer q x = Some (status, y) \<Longrightarrow> TuningPerformed y = TuningPerformed x"
  by (auto simp: MshcBuildTransfer_def MshcBuildPioTransfer_def MshcBuildDmaTransfer_def Let_def tuning_kept
    split: SDPORT_TRANSFER_METHOD.splits option.splits if_splits)

lemma send_tuning [tuning_kept]: "TuningPerformed (send_command C r response x) = TuningPerformed x"
  by (simp add: send_command_def Let_def tuning_kept)

lemma command_tuning: "MshcSendCommand C r x = Some (status, y) \<Longrightarrow> TuningPerformed y = TuningPerformed x"
  by (auto simp: MshcSendCommand_def tuning_kept dest!: build_tuning split: option.splits if_splits)

lemma read_port_tuning [tuning_kept]: "TuningPerformed (MshcReadDataPort r pos n x) = TuningPerformed x"
  by (induction r pos n x rule: MshcReadDataPort.induct) (simp_all add: MshcReadDevice_def Let_def)

lemma write_port_tuning [tuning_kept]: "TuningPerformed (MshcWriteDataPort r pos n x) = TuningPerformed x"
  by (rule tuning_same_driver [OF same_write_port])

lemma pio_tuning: "MshcStartPioTransfer n dispatch C crashdump r x = Some (status, y) \<Longrightarrow> TuningPerformed y = TuningPerformed x"
  by (auto simp: MshcStartPioTransfer_def Let_def tuning_kept dest!: complete_tuning split: if_splits)

lemma issue_tuning: "MshcSlotIssueRequest n dispatch C crashdump r x = Some (status, y) \<Longrightarrow> TuningPerformed y = TuningPerformed x"
  by (auto simp: MshcSlotIssueRequest_def MshcStartTransfer_def MshcStartDmaTransfer_def Let_def dest!: complete_tuning pio_tuning command_tuning
    split: SDPORT_REQUEST_TYPE.splits SDPORT_TRANSFER_METHOD.splits)

lemma interrupt_tuning [tuning_kept]: "TuningPerformed (snd (MshcSlotInterrupt C crashdump x)) = TuningPerformed x"
proof -
  obtain i a where a: "MshcReadDevice MSHC_RINTSTS x = (i, a)" by fastforce
  obtain d b where b: "MshcReadDevice MSHC_IDSTS a = (d, b)" by fastforce
  have "TuningPerformed a = TuningPerformed x" "TuningPerformed b = TuningPerformed a"
    using tuning_same_driver [OF same_read [of x MSHC_RINTSTS]] tuning_same_driver [OF same_read [of a MSHC_IDSTS]] a b by simp_all
  then have t: "TuningPerformed (MshcAcknowledgeInterrupts i d b) = TuningPerformed x"
    "TuningPerformed (MshcDisableInterrupts m 0 (MshcAcknowledgeInterrupts i d b)) = TuningPerformed x" for m
    by (simp_all add: tuning_frame)
  show ?thesis unfolding MshcSlotInterrupt_def Let_def a b prod.case
    using t \<open>TuningPerformed a = TuningPerformed x\<close> \<open>TuningPerformed b = TuningPerformed a\<close>
    by (simp split: prod.split)
qed


lemma returning_tuning: "(\<And>status y. result = Some (status, y) \<Longrightarrow> TuningPerformed y = TuningPerformed x) \<Longrightarrow> TuningPerformed (snd (returning result x)) = TuningPerformed x"
  by (auto simp: returning_def split: option.split)

lemma poll_tuning [tuning_kept]: "TuningPerformed (local_poll E r x) = TuningPerformed x"
proof -
  obtain q y where "MshcSlotInterrupt (envCodes E) (gCrashdumpMode E) x = (q, y)" by fastforce
  moreover obtain h e d c where "q = (h, e, d, c)" by (metis prod_cases4)
  ultimately have y: "MshcSlotInterrupt (envCodes E) (gCrashdumpMode E) x = ((h, e, d, c), y)" by simp
  then have ty: "TuningPerformed y = TuningPerformed x" using interrupt_tuning [of "envCodes E" "gCrashdumpMode E" x] by simp
  have "TuningPerformed (snd (returning (map_option (Pair STATUS_SUCCESS) (MshcRequestDpc (envFuel E) (envCodes E) r e d y)) y)) = TuningPerformed y"
    by (rule returning_tuning) (auto dest: dpc_tuning)
  then show ?thesis using ty by (simp add: local_poll_def y)
qed

section \<open>Nested resets\<close>

text \<open>Interrupts and deferred procedure calls do not make the slot a tuned one.\<close>

definition waits_untuned :: "MSHC_ENVIRONMENT \<Rightarrow> bool" where
  "waits_untuned E \<longleftrightarrow> (\<forall>x. \<not> TuningPerformed x \<longrightarrow> \<not> TuningPerformed (envWait E x))"

lemma wait_untuned: "waits_untuned E \<Longrightarrow> \<not> TuningPerformed x \<Longrightarrow> \<not> TuningPerformed (snd (local_wait E r n x))"
  by (induction n arbitrary: x) (simp_all add: Let_def poll_tuning waits_untuned_def)

text \<open>The part of a synchronous request that does not depend on the reset: issuing it, and waiting for it.\<close>

definition issued_request :: "MSHC_ENVIRONMENT \<Rightarrow> nat \<Rightarrow> MSHC_EXTENSION \<Rightarrow> NTSTATUS \<times> MSHC_EXTENSION" where
  "issued_request E r x =
     returning (MshcSlotIssueRequest (envFuel E) False (envCodes E) (gCrashdumpMode E) r (x\<lparr>LocalRequestPending := True\<rparr>)) (x\<lparr>LocalRequestPending := True\<rparr>)"

definition waited_request :: "MSHC_ENVIRONMENT \<Rightarrow> nat \<Rightarrow> u32 \<Rightarrow> MSHC_EXTENSION \<Rightarrow> MSHC_EXTENSION" where
  "waited_request E r timeoutUs x =
     (case local_wait E r (if timeoutUs = 0 then envFuel E else unat (DIV_CEIL timeoutUs PollWaitUs)) x of (finished, x) \<Rightarrow>
        let x = (if timeoutUs = 0 \<and> \<not> finished then x\<lparr>hung := True\<rparr> else x); x = x\<lparr>LocalRequestPending := False\<rparr>
        in if timeoutUs \<noteq> 0 \<and> \<not> finished then change_request r (\<lambda>q. q\<lparr>reqStatus := STATUS_IO_TIMEOUT\<rparr>) x else x)"

lemma issue_stages:
  "MshcIssueRequestSynchronously E reset r t recovery x =
     (let (status, a) = issued_request E r x; c = waited_request E r t a;
          y = (if recovery \<and> \<not> NT_SUCCESS (reqStatus (requests c r)) then error_recovery reset r c else c)
      in if status \<noteq> STATUS_PENDING then (status, a) else (reqStatus (requests y r), y))"
  by (simp add: MshcIssueRequestSynchronously_def issued_request_def waited_request_def Let_def split: prod.split)

lemma issued_tuning: "TuningPerformed (snd (issued_request E r x)) = TuningPerformed x"
proof -
  have "TuningPerformed (snd (issued_request E r x)) = TuningPerformed (x\<lparr>LocalRequestPending := True\<rparr>)"
    unfolding issued_request_def by (rule returning_tuning) (auto dest: issue_tuning)
  then show ?thesis by simp
qed

lemma waited_untuned: "waits_untuned E \<Longrightarrow> \<not> TuningPerformed x \<Longrightarrow> \<not> TuningPerformed (waited_request E r t x)"
proof -
  assume a: "waits_untuned E" "\<not> TuningPerformed x"
  obtain fin y where y: "local_wait E r (if t = 0 then envFuel E else unat (DIV_CEIL t PollWaitUs)) x = (fin, y)" by fastforce
  then have "\<not> TuningPerformed y" using wait_untuned [OF a, of r "if t = 0 then envFuel E else unat (DIV_CEIL t PollWaitUs)"] by simp
  then show ?thesis by (simp add: waited_request_def y Let_def)
qed

text \<open>Two resets that agree wherever a local command of an untuned slot may call them.\<close>

definition agree :: "reset_operation \<Rightarrow> reset_operation \<Rightarrow> bool" where
  "agree p q \<longleftrightarrow> (\<forall>x. p SdResetTypeCmd x = q SdResetTypeCmd x \<and> (\<not> TuningPerformed x \<longrightarrow>
     \<not> TuningPerformed (snd (q SdResetTypeCmd x)) \<and> p SdResetTypeDat x = q SdResetTypeDat x \<and> \<not> TuningPerformed (snd (q SdResetTypeDat x))))"

lemma recovery_agree:
  assumes "agree p q" "\<not> TuningPerformed x"
  shows "error_recovery p r x = error_recovery q r x \<and> \<not> TuningPerformed (error_recovery q r x)"
proof -
  define y where "y = snd (slot_reset q SdResetTypeCmd x)"
  have "snd (slot_reset p SdResetTypeCmd x) = y" "\<not> TuningPerformed y"
    using assms by (simp_all add: agree_def slot_reset_def y_def)
  then show ?thesis using assms(1) by (simp add: agree_def error_recovery_def y_def [symmetric] Let_def slot_reset_def [of _ SdResetTypeDat])
qed

lemma issue_agree:
  assumes "agree p q" "waits_untuned E" "\<not> TuningPerformed x"
  shows "MshcIssueRequestSynchronously E p r t recovery x = MshcIssueRequestSynchronously E q r t recovery x
    \<and> \<not> TuningPerformed (snd (MshcIssueRequestSynchronously E q r t recovery x))"
proof -
  obtain status a where a: "issued_request E r x = (status, a)" by fastforce
  then have "\<not> TuningPerformed a" using issued_tuning [of E r x] assms(3) by simp
  then have c: "\<not> TuningPerformed (waited_request E r t a)" by (rule waited_untuned [OF assms(2)])
  show ?thesis using recovery_agree [OF assms(1) c, of r] c \<open>\<not> TuningPerformed a\<close> by (simp add: issue_stages a Let_def)
qed

lemma transfer_agree:
  assumes "agree p q" "waits_untuned E" "\<not> TuningPerformed x"
  shows "tuning_transfer E p n x = tuning_transfer E q n x \<and> \<not> TuningPerformed (snd (tuning_transfer E q n x))"
  using assms(3)
proof (induction n arbitrary: x)
  case (Suc n)
  obtain status y where y: "MshcIssueRequestSynchronously E q tuning_frame 1000000 True x = (status, y)" by fastforce
  from issue_agree [OF assms(1,2) Suc.prems, of tuning_frame 1000000 True] y
  have "MshcIssueRequestSynchronously E p tuning_frame 1000000 True x = (status, y)" "\<not> TuningPerformed y" by simp_all
  then show ?case using y Suc.IH by simp
qed simp

lemma tuning_command_agree:
  assumes "agree p q" "waits_untuned E" "\<not> TuningPerformed x"
  shows "MshcSendTuningCommand E p x = MshcSendTuningCommand E q x \<and> \<not> TuningPerformed (snd (MshcSendTuningCommand E q x))"
proof (cases "tuning_index (BusSpeed x)")
  case (Some index)
  let ?b = "if BusWidth x = SdBusWidth8Bit then 128 else 64"
  let ?x = "set_request tuning_frame (tuning_request index ?b) x"
  obtain status y where y: "MshcIssueRequestSynchronously E q tuning_frame 1000000 True ?x = (status, y)" by fastforce
  have t: "\<not> TuningPerformed ?x" using assms(3) by simp
  from issue_agree [OF assms(1,2) t, of tuning_frame 1000000 True] y
  have q: "MshcIssueRequestSynchronously E p tuning_frame 1000000 True ?x = (status, y)" "\<not> TuningPerformed y" by simp_all
  let ?y = "change_request tuning_frame (\<lambda>q. q\<lparr>reqType := SdRequestTypeStartTransfer\<rparr>) y"
  obtain st z where z: "tuning_transfer E q (envFuel E) ?y = (st, z)" by fastforce
  have "\<not> TuningPerformed ?y" using q by simp
  with transfer_agree [OF assms(1,2) this, of "envFuel E"] z have "tuning_transfer E p (envFuel E) ?y = (st, z)" "\<not> TuningPerformed z" by simp_all
  then show ?thesis using Some y z q by (simp add: MshcSendTuningCommand_def Let_def)
qed (use assms in \<open>simp add: MshcSendTuningCommand_def\<close>)


section \<open>The platform's tuning\<close>

text \<open>Tuning commands that agree on untuned slots and leave them untuned.\<close>

definition commands_agree :: "tuning_command \<Rightarrow> tuning_command \<Rightarrow> bool" where
  "commands_agree f g \<longleftrightarrow> (\<forall>x. \<not> TuningPerformed x \<longrightarrow> f x = g x \<and> \<not> TuningPerformed (snd (g x)))"

text \<open>
  What the driver relies on of a platform's tuning routine: what it does depends on the tuning command only at
  the slots it reaches, so that two commands that agree on untuned slots give the same tuning.
\<close>

locale platform_tuning =
  fixes tuning :: "tuning_command \<Rightarrow> MSHC_EXTENSION \<Rightarrow> NTSTATUS \<times> MSHC_EXTENSION"
  assumes local: "commands_agree f g \<Longrightarrow> \<not> TuningPerformed x \<Longrightarrow> tuning f x = tuning g x"
begin

lemma tuning_agree:
  assumes "agree p q" "waits_untuned E"
  shows "MshcExecuteTuning (Some (tuning (MshcSendTuningCommand E p))) x = MshcExecuteTuning (Some (tuning (MshcSendTuningCommand E q))) x"
proof -
  have "tuning (MshcSendTuningCommand E p) y = tuning (MshcSendTuningCommand E q) y" if "\<not> TuningPerformed y" for y
    by (rule local) (use tuning_command_agree [OF assms] that in \<open>auto simp: commands_agree_def\<close>)
  then show ?thesis by (simp add: MshcExecuteTuning_def Let_def)
qed

end

lemma phase_tuning: "TuningPerformed (snd (MshcRk3576SetPhase sample d x)) = TuningPerformed x"
  by (simp add: MshcRk3576SetPhase_def MshcWriteRegister_def)

lemma try_phase_agree:
  assumes "commands_agree f g" "\<not> TuningPerformed x"
  shows "try_phase f i x = try_phase g i x \<and> \<not> TuningPerformed (snd (try_phase g i x))"
proof -
  obtain st y where y: "MshcRk3576SetPhase True (of_nat (RANGE_INDEX_TO_PHASE i NUM_PHASES)) x = (st, y)" by fastforce
  then have "\<not> TuningPerformed y" using phase_tuning [of True "of_nat (RANGE_INDEX_TO_PHASE i NUM_PHASES)" x] assms(2) by simp
  moreover from this have "f y = g y" "\<not> TuningPerformed (snd (g y))" using assms(1) by (simp_all add: commands_agree_def)
  ultimately show ?thesis by (cases "g y") (simp add: try_phase_def y)
qed

lemma scan_agree:
  assumes "commands_agree f g" "\<not> TuningPerformed x"
  shows "tuning_scan f i c pr fs rs x = tuning_scan g i c pr fs rs x"
  using assms(2)
proof (induction "NUM_PHASES - i" arbitrary: i c pr fs rs x rule: less_induct)
  case less
  show ?case
  proof (cases "i < NUM_PHASES")
    case True
    obtain ok y where y: "try_phase g i x = (ok, y)" by fastforce
    from try_phase_agree [OF assms(1) less.prems, of i] y
    have "try_phase f i x = (ok, y)" "\<not> TuningPerformed y" by simp_all
    moreover have "NUM_PHASES - next_phase ok i < NUM_PHASES - i" using next_phase_greater [OF True, of ok] True by linarith
    ultimately show ?thesis using less.hyps y by (simp add: tuning_scan.simps [of _ i])
  qed (simp add: tuning_scan.simps)
qed

interpretation rockchip_tuning: platform_tuning MshcRockchipExecuteTuning
proof
  fix f g and x :: MSHC_EXTENSION
  assume "commands_agree f g" "\<not> TuningPerformed x"
  from scan_agree [OF this] show "MshcRockchipExecuteTuning f x = MshcRockchipExecuteTuning g x"
    by (simp add: MshcRockchipExecuteTuning_def)
qed

section \<open>Three resets\<close>

lemma stop_agree: "MshcSendStopCommand E p x = MshcSendStopCommand E q x"
  by (simp add: MshcSendStopCommand_def issue_stages Let_def)

lemma reset_cmd_agree: "reset_host E p SdResetTypeCmd x = reset_host E q SdResetTypeCmd x"
  by (simp add: reset_host_def Let_def split: prod.split)

lemma stop_untuned: "waits_untuned E \<Longrightarrow> \<not> TuningPerformed x \<Longrightarrow> \<not> TuningPerformed (snd (MshcSendStopCommand E p x))"
proof -
  assume a: "waits_untuned E" "\<not> TuningPerformed x"
  define y where "y = set_request stop_frame (zero_request\<lparr>cmdIndex := SDCMD_STOP_TRANSMISSION, ResponseType := SdResponseTypeR1B,
    TransferType := SdTransferTypeNone, Argument := 0, reqType := SdRequestTypeCommandNoTransfer\<rparr>) x"
  obtain st z where z: "issued_request E stop_frame y = (st, z)" by fastforce
  have "\<not> TuningPerformed z" using issued_tuning [of E stop_frame y] z a(2) by (simp add: y_def)
  then show ?thesis using waited_untuned [OF a(1), of z]
    by (simp add: MshcSendStopCommand_def issue_stages y_def [symmetric] z Let_def)
qed

lemma controller_tuning: "TuningPerformed (snd (reset_controller m x)) = TuningPerformed x"
proof -
  obtain st y where y: "MshcResetWait m x = (st, y)" by fastforce
  have "TuningPerformed y = TuningPerformed x"
    using tuning_same_driver [OF same_driver_trans [OF same_write same_poll]] y unfolding MshcResetWait_def Let_def by (metis snd_conv)
  then show ?thesis by (simp add: reset_controller_def y Let_def tuning_kept)
qed

text \<open>A reset up to the last step, whether to tune again.\<close>

definition reset_start :: "MSHC_ENVIRONMENT \<Rightarrow> reset_operation \<Rightarrow> SDPORT_RESET_TYPE \<Rightarrow> MSHC_EXTENSION \<Rightarrow> NTSTATUS \<times> MSHC_EXTENSION" where
  "reset_start E reset resetType x0 =
     (let x = x0\<lparr>OutstandingRequest := None\<rparr>;
          resetMask = or_if (ScatterGatherDma (hostCaps x)) MSHC_CTRL_DMA_RESET (MSHC_CTRL_CONTROLLER_RESET OR MSHC_CTRL_FIFO_RESET);
          x = (if resetType = SdResetTypeDat then snd (MshcSendStopCommand E reset x) else x)
      in if resetMask \<noteq> 0 then reset_controller resetMask x else (STATUS_SUCCESS, x))"

lemma reset_host_start:
  "reset_host E reset resetType x =
     (if resetType = SdResetTypeUndefined then (STATUS_INVALID_PARAMETER, x\<lparr>OutstandingRequest := None\<rparr>)
      else if resetType = SdResetTypeCmd \<and> (case OutstandingRequest x of Some r \<Rightarrow> has_transfer (requests x r) | None \<Rightarrow> False)
      then (STATUS_SUCCESS, x\<lparr>OutstandingRequest := None\<rparr>)
      else case reset_start E reset resetType x of (status, x) \<Rightarrow>
         if \<not> NT_SUCCESS status then (status, x)
         else let x = (if resetType = SdResetTypeAll then reset_bus E reset x else x);
                  x = MshcAcknowledgeInterrupts MSHC_INT_ALL MSHC_IDINT_ALL x
              in (STATUS_SUCCESS, if resetType = SdResetTypeDat \<and> TuningPerformed x \<and> DataCrcErrorsSinceLastTuning x \<ge> MSHC_DCRC_ERROR_RETUNING_THRESHOLD
                               then snd (execute_tuning E reset x) else x))"
  by (simp add: reset_host_def reset_start_def Let_def cong: if_cong option.case_cong split: prod.split option.split)

lemma start_agree: "reset_start E p resetType x = reset_start E q resetType x"
  using stop_agree [of E p _ q] by (simp add: reset_start_def Let_def)

lemma start_untuned:
  assumes "waits_untuned E" "\<not> TuningPerformed x"
  shows "\<not> TuningPerformed (snd (reset_start E p resetType x))"
  using assms stop_untuned [OF assms(1), of "x\<lparr>OutstandingRequest := None\<rparr>" p] by (simp add: reset_start_def Let_def controller_tuning)

lemma reset_untuned:
  assumes "waits_untuned E" "\<not> TuningPerformed x" "resetType \<noteq> SdResetTypeAll"
  shows "reset_host E p resetType x = reset_host E q resetType x \<and> \<not> TuningPerformed (snd (reset_host E q resetType x))"
proof -
  obtain st y where y: "reset_start E q resetType x = (st, y)" by fastforce
  then have "reset_start E p resetType x = (st, y)" using start_agree by metis
  moreover have "\<not> TuningPerformed y" using start_untuned [OF assms(1,2), of q resetType] y by simp
  moreover from this have "\<not> TuningPerformed (MshcAcknowledgeInterrupts MSHC_INT_ALL MSHC_IDINT_ALL y)" by (simp add: tuning_frame)
  ultimately show ?thesis using y assms(2,3) by (simp add: reset_host_start Let_def)
qed

lemma first_agree: "waits_untuned E \<Longrightarrow> agree (reset_host E p) (reset_host E q)"
  using reset_untuned [of E _ _ p q] reset_cmd_agree [of E p _ q] unfolding agree_def by blast

lemma second_agree:
  assumes "agree p q" "waits_untuned E" "opExecuteTuning (PlatformOperations E) = Some MshcRockchipExecuteTuning" "resetType \<noteq> SdResetTypeAll"
  shows "reset_host E p resetType x = reset_host E q resetType x"
proof -
  have "execute_tuning E p y = execute_tuning E q y" for y
    using rockchip_tuning.tuning_agree [OF assms(1,2)] assms(3) by (simp add: execute_tuning_def)
  then show ?thesis using assms(4) start_agree [of E p resetType x q] by (simp add: reset_host_start Let_def split: prod.split)
qed

lemma third_agree:
  assumes "\<And>resetType x. resetType \<noteq> SdResetTypeAll \<Longrightarrow> p resetType x = q resetType x" "agree p q" "waits_untuned E"
    "opExecuteTuning (PlatformOperations E) = Some MshcRockchipExecuteTuning"
  shows "reset_host E p resetType x = reset_host E q resetType x"
proof -
  have "error_recovery p r y = error_recovery q r y" for r y
    using assms(1) by (simp add: error_recovery_def slot_reset_def Let_def)
  then have "MshcIssueRequestSynchronously E p r t rec y = MshcIssueRequestSynchronously E q r t rec y" for r t rec y
    by (simp add: issue_stages Let_def split: prod.split)
  then have "reset_bus E p y = reset_bus E q y" for y
    by (simp add: reset_bus_def set_signaling_voltage_def MshcSendStatusCommand_def Let_def)
  then have "reset_host E p SdResetTypeAll x = reset_host E q SdResetTypeAll x"
    using start_agree [of E p SdResetTypeAll x q] by (simp add: reset_host_start Let_def split: prod.split)
  then show ?thesis using second_agree [OF assms(2-4)] by (cases "resetType = SdResetTypeAll") simp_all
qed

text \<open>C24: Resetting the host ends: on the RK3576, a reset never nests more than three resets, whatever the
  requests, the device and the interrupts in between do, as long as interrupts do not declare the slot tuned.
  Local commands that fail reset the host, which sends commands and may tune again; but tuning starts by
  forgetting that it was performed, so that a reset within it does not tune.
\<close>

theorem reset_nests_at_most_three:
  assumes "waits_untuned E" "PlatformOperations E = rockchip_operations crashdump mapped"
  shows "MshcResetHost (n + 3) E resetType x = MshcResetHost 3 E resetType x"
proof -
  have t: "opExecuteTuning (PlatformOperations E) = Some MshcRockchipExecuteTuning" using assms(2) by (simp add: rockchip_operations_def)
  let ?R = "\<lambda>n. MshcResetHost (Suc n) E"
  have 1: "agree (?R n) (?R m)" for n m using first_agree [OF assms(1)] by simp
  have 2: "k \<noteq> SdResetTypeAll \<Longrightarrow> ?R (Suc n) k y = ?R (Suc m) k y" for n m k y
    using second_agree [OF 1 assms(1) t, of k] by simp
  have 3: "?R (Suc (Suc n)) resetType x = ?R (Suc (Suc m)) resetType x" for n m
    unfolding MshcResetHost.simps(2) [of "Suc (Suc n)"] MshcResetHost.simps(2) [of "Suc (Suc m)"]
    by (rule third_agree [OF 2 1 assms(1) t])
  have "MshcResetHost (n + 3) E resetType x = ?R (Suc (Suc n)) resetType x" "MshcResetHost 3 E resetType x = ?R (Suc (Suc 0)) resetType x"
    by (simp_all only: numeral_3_eq_3 add_Suc_right add_0_right)
  then show ?thesis using 3 [of n 0] by (simp only:)
qed

definition demo_environment :: MSHC_ENVIRONMENT where
  "demo_environment = \<lparr>envCodes = demo_codes, envFuel = 3, gCrashdumpMode = False, envWait = (\<lambda>x. x), PlatformOperations = rockchip_operations False True\<rparr>"

theorem reset_nests_at_most_three_witness:
  "MshcResetHost 5 demo_environment SdResetTypeDat demo_mshc = MshcResetHost 3 demo_environment SdResetTypeDat demo_mshc"
proof -
  have "MshcResetHost (2 + 3) demo_environment SdResetTypeDat demo_mshc = MshcResetHost 3 demo_environment SdResetTypeDat demo_mshc"
    by (rule reset_nests_at_most_three [where crashdump = False and mapped = True]) (simp_all add: demo_environment_def waits_untuned_def)
  then show ?thesis by (simp only: add_numeral_left numeral_plus_numeral semiring_norm)
qed


section \<open>A full reset\<close>

lemma ack_regs: "r \<notin> {MSHC_RINTSTS, MSHC_IDSTS} \<Longrightarrow> MshcReadRegister r (MshcAcknowledgeInterrupts i d x) = MshcReadRegister r x"
  by (auto simp: MshcAcknowledgeInterrupts_def Let_def)

lemma set_clock_zero: "\<not> clock_enabled (snd (MshcSetClock op crashdump 0 x))"
proof -
  obtain st b where b: "MshcCiuUpdateClock 0 (clock_off x) = (st, b)" by fastforce
  have "MshcReadRegister MSHC_CLKENA b = MshcReadRegister MSHC_CLKENA (clock_off x)"
    using ciu_effect(1) [of MSHC_CLKENA 0 "clock_off x"] b by (simp add: mshc_regs)
  moreover have "SlotId b = SlotId (clock_off x)" using same_ciu_fields(1) [of 0 "clock_off x"] b by simp
  ultimately have "\<not> clock_enabled b" using clock_off_effect(2) [of x] by (simp add: clock_enabled_def)
  then show ?thesis by (simp add: MshcSetClock_def b clock_enabled_def MshcReadRegister_def)
qed

lemma same_driver_width: "same_driver x y \<Longrightarrow> BusWidth y = BusWidth x"
  by (auto simp: same_driver_def)

lemma int_all: "MSHC_INT_ALL = - 1"
  by (simp add: MSHC_INT_ALL_def)

lemma reset_bus_effect:
  "MshcReadRegister MSHC_INTMASK (reset_bus E reset x) = 0" "MshcReadRegister MSHC_CTRL (reset_bus E reset x) = MSHC_CTRL_INT_ENABLE"
  "MshcReadRegister MSHC_TMOUT (reset_bus E reset x) = 0xffffffff" "\<not> clock_enabled (reset_bus E reset x)"
  "BusWidth (reset_bus E reset x) = SdBusWidth1Bit" "\<not> has (MshcReadRegister MSHC_IDINTEN (reset_bus E reset x)) MSHC_IDINT_ALL"
  "\<not> has (MshcReadRegister MSHC_CTYPE (reset_bus E reset x)) (push_bit (SlotId (reset_bus E reset x)) MSHC_CTYPE_CARD_WIDTH_MASK)"
proof -
  define a where "a = snd (MshcSetClock (opSetClock (PlatformOperations E)) (gCrashdumpMode E) 0
     (if gCrashdumpMode E then x else snd (set_signaling_voltage E reset SdSignalingVoltage33
                      (snd (MshcSetVoltage (opSetVoltage (PlatformOperations E)) SdBusVoltageOff x)))))"
  have off: "\<not> clock_enabled a" unfolding a_def by (rule set_clock_zero)
  define b where "b = snd (MshcSetBusWidth SdBusWidth1Bit a)"
  have b: "SlotId b = SlotId a" "BusWidth b = SdBusWidth1Bit" "MshcReadRegister MSHC_CLKENA b = MshcReadRegister MSHC_CLKENA a"
    "MshcReadRegister MSHC_CTYPE b = MshcReadRegister MSHC_CTYPE a AND NOT (push_bit (SlotId a) MSHC_CTYPE_CARD_WIDTH_MASK)"
    by (simp_all add: b_def MshcSetBusWidth_def Let_def MshcWriteRegister_def MshcReadRegister_def mshc_regs MSHC_CTYPE_CARD_WIDTH_1_def)
  define c where "c = MshcDisableInterrupts MSHC_INT_ALL MSHC_IDINT_ALL b"
  have nz: "MSHC_IDINT_ALL \<noteq> 0" by (simp add: MSHC_IDINT_ALL_def mshc_idint_bits)
  have sb: "same_driver b c" unfolding c_def by (rule same_disable)
  have c: "MshcReadRegister MSHC_INTMASK c = 0" "MshcReadRegister MSHC_IDINTEN c = MshcReadRegister MSHC_IDINTEN b AND NOT MSHC_IDINT_ALL"
    "MshcReadRegister MSHC_CLKENA c = MshcReadRegister MSHC_CLKENA b" "MshcReadRegister MSHC_CTYPE c = MshcReadRegister MSHC_CTYPE b"
    "SlotId c = SlotId b" "BusWidth c = BusWidth b"
    using nz same_driver_fields(11) [OF sb] same_driver_width [OF sb]
    by (simp_all add: c_def MshcDisableInterrupts_def Let_def mshc_regs int_all)
  have e: "reset_bus E reset x = MshcWriteRegister MSHC_TMOUT 0xffffffff (MshcWriteRegister MSHC_CTRL MSHC_CTRL_INT_ENABLE c)"
    by (simp add: reset_bus_def Let_def a_def b_def c_def)
  have f: "SlotId (MshcWriteRegister r v z) = SlotId z" "BusWidth (MshcWriteRegister r v z) = BusWidth z" for r v z by (simp_all add: MshcWriteRegister_def)
  show "MshcReadRegister MSHC_INTMASK (reset_bus E reset x) = 0" "MshcReadRegister MSHC_CTRL (reset_bus E reset x) = MSHC_CTRL_INT_ENABLE"
    "MshcReadRegister MSHC_TMOUT (reset_bus E reset x) = 0xffffffff" using c(1) by (simp_all add: e mshc_regs)
  show "BusWidth (reset_bus E reset x) = SdBusWidth1Bit" using b(2) c(6) by (simp add: e f)
  have "MshcReadRegister MSHC_IDINTEN (reset_bus E reset x) = MshcReadRegister MSHC_IDINTEN b AND NOT MSHC_IDINT_ALL"
    using c(2) by (simp add: e mshc_regs)
  then show "\<not> has (MshcReadRegister MSHC_IDINTEN (reset_bus E reset x)) MSHC_IDINT_ALL" by simp
  have "MshcReadRegister MSHC_CTYPE (reset_bus E reset x) = MshcReadRegister MSHC_CTYPE a AND NOT (push_bit (SlotId a) MSHC_CTYPE_CARD_WIDTH_MASK)"
    "SlotId (reset_bus E reset x) = SlotId a" using c(4,5) b(1,4) by (simp_all add: e f mshc_regs)
  then show "\<not> has (MshcReadRegister MSHC_CTYPE (reset_bus E reset x)) (push_bit (SlotId (reset_bus E reset x)) MSHC_CTYPE_CARD_WIDTH_MASK)" by simp
  show "\<not> clock_enabled (reset_bus E reset x)" using off b(1,3) c(3,5) by (simp add: clock_enabled_def e f mshc_regs)
qed

text \<open>C27: A full reset that succeeds leaves the slot quiet, whatever happened before and during it: all
  interrupts are masked, the control register holds only the global interrupt enable (the DMA engine is not
  in use), the time-outs are at their maximum, the card clock is off, and the bus is one bit wide.
\<close>

theorem reset_all_quiet:
  assumes "MshcResetHost (Suc n) E SdResetTypeAll x = (status, y)" "NT_SUCCESS status"
  shows "MshcReadRegister MSHC_INTMASK y = 0 \<and> \<not> has (MshcReadRegister MSHC_IDINTEN y) MSHC_IDINT_ALL \<and>
    MshcReadRegister MSHC_CTRL y = MSHC_CTRL_INT_ENABLE \<and> MshcReadRegister MSHC_TMOUT y = 0xffffffff \<and> \<not> clock_enabled y \<and>
    BusWidth y = SdBusWidth1Bit \<and> \<not> has (MshcReadRegister MSHC_CTYPE y) (push_bit (SlotId y) MSHC_CTYPE_CARD_WIDTH_MASK)"
proof -
  obtain st z where z: "reset_start E (MshcResetHost n E) SdResetTypeAll x = (st, z)" by fastforce
  let ?b = "reset_bus E (MshcResetHost n E) z"
  have y: "y = MshcAcknowledgeInterrupts MSHC_INT_ALL MSHC_IDINT_ALL ?b"
    using assms by (auto simp: reset_host_start z Let_def split: if_splits)
  have "same_driver ?b y" unfolding y by (rule same_ack)
  then have "SlotId y = SlotId ?b" "BusWidth y = BusWidth ?b" by (auto simp: same_driver_def)
  moreover have "MshcReadRegister r y = MshcReadRegister r ?b" if "r \<notin> {MSHC_RINTSTS, MSHC_IDSTS}" for r
    unfolding y by (rule ack_regs [OF that])
  ultimately show ?thesis using reset_bus_effect [of E "MshcResetHost n E" z] by (simp add: clock_enabled_def mshc_regs)
qed

lemma poll_first: "0 < n \<Longrightarrow> ok (mshcDevice x (mshcTick x) r) \<Longrightarrow> fst (poll_register n r ok x) = STATUS_SUCCESS"
  by (cases n) (simp_all add: MshcReadDevice_def Let_def)

lemma reset_all_demo: "NT_SUCCESS (fst (MshcResetHost (Suc 0) demo_environment SdResetTypeAll demo_mshc))"
proof -
  have wait: "fst (MshcResetWait m (demo_mshc\<lparr>OutstandingRequest := None\<rparr>)) = STATUS_SUCCESS" for m
    unfolding MshcResetWait_def Let_def
    by (rule poll_first) (simp_all add: MshcWriteRegister_def demo_mshc_def)
  have "fst (reset_controller m (demo_mshc\<lparr>OutstandingRequest := None\<rparr>)) = STATUS_SUCCESS" for m
    using wait [of m] by (auto simp: reset_controller_def Let_def split: prod.splits)
  then have start: "fst (reset_start E p SdResetTypeAll demo_mshc) = STATUS_SUCCESS" for E p
    by (simp add: reset_start_def Let_def)
  obtain st z where z: "reset_start demo_environment (MshcResetHost 0 demo_environment) SdResetTypeAll demo_mshc = (st, z)" by fastforce
  with start [of demo_environment "MshcResetHost 0 demo_environment"] have "st = STATUS_SUCCESS" by simp
  then show ?thesis by (simp only: MshcResetHost.simps(2)) (simp add: reset_host_start z Let_def del: MshcResetHost.simps)
qed

theorem reset_all_quiet_witness:
  "case MshcResetHost (Suc 0) demo_environment SdResetTypeAll demo_mshc of (status, y) \<Rightarrow>
     MshcReadRegister MSHC_INTMASK y = 0 \<and> MshcReadRegister MSHC_CTRL y = MSHC_CTRL_INT_ENABLE \<and> \<not> clock_enabled y"
proof -
  obtain status y where y: "MshcResetHost (Suc 0) demo_environment SdResetTypeAll demo_mshc = (status, y)" by fastforce
  then have "NT_SUCCESS status" using reset_all_demo by simp
  from reset_all_quiet [OF y this] show ?thesis by (simp add: y del: MshcResetHost.simps)
qed

section \<open>A stop command without an answer\<close>

text \<open>No interrupt comes while the driver waits.\<close>

definition silent :: "MSHC_ENVIRONMENT \<Rightarrow> bool" where
  "silent E \<longleftrightarrow> \<not> gCrashdumpMode E \<and> (\<forall>x. LocalRequestPending (envWait E x) = LocalRequestPending x \<and> OutstandingRequest (envWait E x) = OutstandingRequest x)"

lemma silent_wait:
  assumes "silent E" "LocalRequestPending x"
  shows "fst (local_wait E r n x) = False \<and> OutstandingRequest (snd (local_wait E r n x)) = OutstandingRequest x"
  using assms(2) by (induction n arbitrary: x) (use assms(1) in \<open>auto simp: silent_def Let_def\<close>)

lemma stop_times_out:
  assumes "silent E"
  shows "fst (MshcSendStopCommand E reset x) = STATUS_IO_TIMEOUT \<and> OutstandingRequest (snd (MshcSendStopCommand E reset x)) = Some stop_frame"
proof -
  define q where "q = zero_request\<lparr>cmdIndex := SDCMD_STOP_TRANSMISSION, ResponseType := SdResponseTypeR1B,
    TransferType := SdTransferTypeNone, Argument := 0, reqType := SdRequestTypeCommandNoTransfer\<rparr>"
  define a where "a = (set_request stop_frame q x)\<lparr>LocalRequestPending := True, OutstandingRequest := Some stop_frame\<rparr>"
  define b where "b = send_command (envCodes E) stop_frame (MSHC_CMD_RESPONSE_EXPECT OR MSHC_CMD_CHECK_RESPONSE_CRC) a"
  have "requests a stop_frame = q" by (simp add: a_def set_request_def)
  then have "MshcSendCommand (envCodes E) stop_frame a = Some (STATUS_PENDING, b)"
    by (simp add: MshcSendCommand_def b_def q_def has_transfer_def)
  then have i: "issued_request E stop_frame (set_request stop_frame q x) = (STATUS_PENDING, b)"
    by (simp add: issued_request_def returning_def MshcSlotIssueRequest_def Let_def a_def q_def set_request_def zero_request_def)
  have "LocalRequestPending b" "OutstandingRequest b = Some stop_frame" by (simp_all add: b_def send_command_books a_def)
  obtain fin z where z: "local_wait E stop_frame (unat (DIV_CEIL 1000000 PollWaitUs)) b = (fin, z)" by fastforce
  with silent_wait [OF assms \<open>LocalRequestPending b\<close>] have "\<not> fin" "OutstandingRequest z = Some stop_frame"
    using \<open>OutstandingRequest b = Some stop_frame\<close> by (metis fst_conv, metis snd_conv)
  then show ?thesis by (simp add: MshcSendStopCommand_def issue_stages q_def [symmetric] i Let_def waited_request_def z)
qed

text \<open>A stop command that the card does not answer leaves a dangling pointer: after the reset of the data
  lines, whether it succeeds or not, the outstanding request is the stop command's, which was a local
  variable of a function that has returned.
\<close>

theorem stop_timeout_dangles:
  assumes "silent E" "waits_untuned E" "\<not> TuningPerformed x"
  shows "OutstandingRequest (snd (MshcResetHost (Suc n) E SdResetTypeDat x)) = Some stop_frame"
proof -
  let ?R = "MshcResetHost n E" and ?x = "x\<lparr>OutstandingRequest := None\<rparr>"
  define s where "s = snd (MshcSendStopCommand E ?R ?x)"
  have s: "OutstandingRequest s = Some stop_frame" using stop_times_out [OF assms(1), of ?R ?x] by (simp add: s_def)
  have "same_driver s (snd (MshcResetWait m s))" for m
    unfolding MshcResetWait_def Let_def by (rule same_driver_trans [OF same_write same_poll])
  then have w: "OutstandingRequest (snd (MshcResetWait m s)) = Some stop_frame" for m using same_driver_fields(2) s by metis
  have c: "OutstandingRequest (snd (MshcCiuUpdateClock f z)) = OutstandingRequest z" for f z using same_driver_fields(2) [OF same_ciu] .
  have wr: "OutstandingRequest (MshcWriteRegister r v z) = OutstandingRequest z" for r v z by (simp add: MshcWriteRegister_def)
  have rc: "OutstandingRequest (snd (reset_controller m s)) = Some stop_frame" for m
    using w [of m] by (cases "MshcResetWait m s") (simp add: reset_controller_def Let_def c wr)
  obtain st y where y: "reset_start E ?R SdResetTypeDat x = (st, y)" by fastforce
  have oy: "OutstandingRequest y = Some stop_frame"
    using y rc s by (auto simp: reset_start_def Let_def s_def [symmetric] split: if_splits) (metis snd_conv)+
  have "\<not> TuningPerformed y" using start_untuned [OF assms(2,3), of ?R SdResetTypeDat] y by simp
  then have "\<not> TuningPerformed (MshcAcknowledgeInterrupts MSHC_INT_ALL MSHC_IDINT_ALL y)" by (simp add: tuning_frame)
  then show ?thesis using oy same_driver_fields(2) [OF same_ack] by (simp add: reset_host_start y Let_def)
qed

theorem stop_timeout_dangles_witness:
  "OutstandingRequest (snd (MshcResetHost 1 demo_environment SdResetTypeDat demo_mshc)) = Some stop_frame"
proof -
  have "OutstandingRequest (snd (MshcResetHost (Suc 0) demo_environment SdResetTypeDat demo_mshc)) = Some stop_frame"
    by (rule stop_timeout_dangles) (simp_all add: demo_environment_def silent_def waits_untuned_def demo_mshc_def)
  then show ?thesis by simp
qed

end
