(* ===== verification/MshcTuning.thy ===== *)
theory MshcTuning imports MshcHostProofs begin

text \<open>
  Tuning with the driver's own tuning command: the command, with the requests, waits and resets it may cause, leaves the
  card clock alone, and it succeeds only if the tuning block has been read back. So tuning the RK3576 sets the sample
  register to a phase at which the block was read back in this scan.
\<close>

section \<open>The request path leaves the card clock alone\<close>

named_theorems clock_kept "routines that leave the card clock unchanged"

lemma request_clock [simp]: "RkCardClockHz (set_request r q x) = RkCardClockHz x"
  by (simp add: set_request_def)

lemma clock_same_driver: "same_driver x y \<Longrightarrow> RkCardClockHz y = RkCardClockHz x"
  by (auto simp: same_driver_def)

lemmas clock_frame [clock_kept] = frame [THEN clock_same_driver]

lemma clock_write [clock_kept]: "RkCardClockHz (MshcWriteRegister r v x) = RkCardClockHz x"
  by (rule clock_same_driver [OF same_write])

lemma finish_clock [clock_kept]: "RkCardClockHz (finish_request r x) = RkCardClockHz x"
proof -
  define a where "a = (if reqStatus (requests x r) = STATUS_SUCCESS \<or> reqStatus (requests x r) = STATUS_MORE_PROCESSING_REQUIRED
    then x\<lparr>OutstandingRequest := None\<rparr> else x)"
  obtain ins b where b: "MshcIsCardInserted a = (ins, b)" by fastforce
  then have "RkCardClockHz b = RkCardClockHz a" using clock_same_driver [OF same_inserted [of a]] by simp
  then have b: "MshcIsCardInserted a = (ins, b)" "RkCardClockHz b = RkCardClockHz x" using b by (simp_all add: a_def)
  then show ?thesis by (simp add: finish_request_def Let_def a_def [symmetric])
qed

lemma complete_clock: "MshcCompleteRequest n dispatch r status x = Some y \<Longrightarrow> RkCardClockHz y = RkCardClockHz x"
proof (induction n arbitrary: r status x)
  case (Suc n)
  define a where "a = change_request r (\<lambda>q. q\<lparr>reqStatus := status\<rparr>) x"
  obtain busy b where b: "MshcIsDataBusy a = (busy, b)" by fastforce
  obtain st c where c: "MshcWaitDataIdle b = (st, c)" by fastforce
  have t: "RkCardClockHz a = RkCardClockHz x" "RkCardClockHz b = RkCardClockHz a" "RkCardClockHz c = RkCardClockHz b"
    using clock_same_driver [OF same_busy [of a]] clock_same_driver [OF same_idle [of b]] b c by (simp_all add: a_def)
  show ?case using Suc.prems Suc.IH t b c
    by (auto simp: a_def [symmetric] Let_def finish_clock split: if_splits option.splits)
qed simp

lemma dpc_clock: "MshcRequestDpc n C r events errors x = Some y \<Longrightarrow> RkCardClockHz y = RkCardClockHz x"
  by (auto simp: MshcRequestDpc_def Let_def dest!: complete_clock split: if_splits)

lemma build_clock: "MshcBuildTransfer q x = Some (status, y) \<Longrightarrow> RkCardClockHz y = RkCardClockHz x"
  by (auto simp: MshcBuildTransfer_def MshcBuildPioTransfer_def MshcBuildDmaTransfer_def Let_def clock_kept
    split: SDPORT_TRANSFER_METHOD.splits option.splits if_splits)

lemma send_clock [clock_kept]: "RkCardClockHz (send_command C r response x) = RkCardClockHz x"
  by (simp add: send_command_def Let_def clock_kept)

lemma command_clock: "MshcSendCommand C r x = Some (status, y) \<Longrightarrow> RkCardClockHz y = RkCardClockHz x"
  by (auto simp: MshcSendCommand_def clock_kept dest!: build_clock split: option.splits if_splits)

lemma read_port_clock [clock_kept]: "RkCardClockHz (MshcReadDataPort r pos n x) = RkCardClockHz x"
  by (induction r pos n x rule: MshcReadDataPort.induct) (simp_all add: MshcReadDevice_def Let_def)

lemma write_port_clock [clock_kept]: "RkCardClockHz (MshcWriteDataPort r pos n x) = RkCardClockHz x"
  by (rule clock_same_driver [OF same_write_port])

lemma pio_clock: "MshcStartPioTransfer n dispatch C crashdump r x = Some (status, y) \<Longrightarrow> RkCardClockHz y = RkCardClockHz x"
  by (auto simp: MshcStartPioTransfer_def Let_def clock_kept dest!: complete_clock split: if_splits)

lemma issue_clock: "MshcSlotIssueRequest n dispatch C crashdump r x = Some (status, y) \<Longrightarrow> RkCardClockHz y = RkCardClockHz x"
  by (auto simp: MshcSlotIssueRequest_def MshcStartTransfer_def MshcStartDmaTransfer_def Let_def dest!: complete_clock pio_clock command_clock
    split: SDPORT_REQUEST_TYPE.splits SDPORT_TRANSFER_METHOD.splits)

lemma interrupt_clock [clock_kept]: "RkCardClockHz (snd (MshcSlotInterrupt C crashdump x)) = RkCardClockHz x"
proof -
  obtain i a where a: "MshcReadDevice MSHC_RINTSTS x = (i, a)" by fastforce
  obtain d b where b: "MshcReadDevice MSHC_IDSTS a = (d, b)" by fastforce
  have "RkCardClockHz a = RkCardClockHz x" "RkCardClockHz b = RkCardClockHz a"
    using clock_same_driver [OF same_read [of x MSHC_RINTSTS]] clock_same_driver [OF same_read [of a MSHC_IDSTS]] a b by simp_all
  then have t: "RkCardClockHz (MshcAcknowledgeInterrupts i d b) = RkCardClockHz x"
    "RkCardClockHz (MshcDisableInterrupts m 0 (MshcAcknowledgeInterrupts i d b)) = RkCardClockHz x" for m
    by (simp_all add: clock_frame)
  show ?thesis unfolding MshcSlotInterrupt_def Let_def a b prod.case
    using t \<open>RkCardClockHz a = RkCardClockHz x\<close> \<open>RkCardClockHz b = RkCardClockHz a\<close>
    by (simp split: prod.split)
qed


lemma returning_clock: "(\<And>status y. result = Some (status, y) \<Longrightarrow> RkCardClockHz y = RkCardClockHz x) \<Longrightarrow> RkCardClockHz (snd (returning result x)) = RkCardClockHz x"
  by (auto simp: returning_def split: option.split)

lemma poll_clock [clock_kept]: "RkCardClockHz (local_poll E r x) = RkCardClockHz x"
proof -
  obtain q y where "MshcSlotInterrupt (envCodes E) (gCrashdumpMode E) x = (q, y)" by fastforce
  moreover obtain h e d c where "q = (h, e, d, c)" by (metis prod_cases4)
  ultimately have y: "MshcSlotInterrupt (envCodes E) (gCrashdumpMode E) x = ((h, e, d, c), y)" by simp
  then have ty: "RkCardClockHz y = RkCardClockHz x" using interrupt_clock [of "envCodes E" "gCrashdumpMode E" x] by simp
  have "RkCardClockHz (snd (returning (map_option (Pair STATUS_SUCCESS) (MshcRequestDpc (envFuel E) (envCodes E) r e d y)) y)) = RkCardClockHz y"
    by (rule returning_clock) (auto dest: dpc_clock)
  then show ?thesis using ty by (simp add: local_poll_def y)
qed

section \<open>Local commands and resets leave the card clock alone\<close>

text \<open>What interrupts and deferred procedure calls do while the driver waits does not change the card clock.\<close>

definition waits_keep_clock :: "MSHC_ENVIRONMENT \<Rightarrow> bool" where
  "waits_keep_clock E \<longleftrightarrow> (\<forall>x. RkCardClockHz (envWait E x) = RkCardClockHz x)"

lemma wait_clock: "waits_keep_clock E \<Longrightarrow> RkCardClockHz (snd (local_wait E r n x)) = RkCardClockHz x"
  by (induction n arbitrary: x) (simp_all add: Let_def poll_clock waits_keep_clock_def)

lemma issued_clock: "RkCardClockHz (snd (issued_request E r x)) = RkCardClockHz x"
proof -
  have "RkCardClockHz (snd (issued_request E r x)) = RkCardClockHz (x\<lparr>LocalRequestPending := True\<rparr>)"
    unfolding issued_request_def by (rule returning_clock) (auto dest: issue_clock)
  then show ?thesis by simp
qed

lemma waited_clock: "waits_keep_clock E \<Longrightarrow> RkCardClockHz (waited_request E r t x) = RkCardClockHz x"
proof -
  assume a: "waits_keep_clock E"
  obtain fin y where y: "local_wait E r (if t = 0 then envFuel E else unat (DIV_CEIL t PollWaitUs)) x = (fin, y)" by fastforce
  then have "RkCardClockHz y = RkCardClockHz x" using wait_clock [OF a, of r "if t = 0 then envFuel E else unat (DIV_CEIL t PollWaitUs)" x] by simp
  then show ?thesis by (simp add: waited_request_def y Let_def)
qed

text \<open>A reset that keeps the card clock where the recovery from an error uses it.\<close>

definition reset_keeps_clock :: "reset_operation \<Rightarrow> bool" where
  "reset_keeps_clock reset \<longleftrightarrow> (\<forall>x. RkCardClockHz (snd (reset SdResetTypeCmd x)) = RkCardClockHz x
     \<and> RkCardClockHz (snd (reset SdResetTypeDat x)) = RkCardClockHz x)"

lemma recovery_clock: "reset_keeps_clock reset \<Longrightarrow> RkCardClockHz (error_recovery reset r x) = RkCardClockHz x"
  by (simp add: reset_keeps_clock_def error_recovery_def slot_reset_def Let_def)

lemma synchronous_clock:
  assumes "waits_keep_clock E" "reset_keeps_clock reset"
  shows "RkCardClockHz (snd (MshcIssueRequestSynchronously E reset r t recovery x)) = RkCardClockHz x"
proof -
  obtain status a where a: "issued_request E r x = (status, a)" by fastforce
  then have "RkCardClockHz a = RkCardClockHz x" using issued_clock [of E r x] by simp
  then show ?thesis
    by (simp add: issue_stages a Let_def waited_clock [OF assms(1)] recovery_clock [OF assms(2)])
qed

lemma transfer_clock:
  assumes "waits_keep_clock E" "reset_keeps_clock reset"
  shows "RkCardClockHz (snd (tuning_transfer E reset n x)) = RkCardClockHz x"
proof (induction n arbitrary: x)
  case (Suc n)
  obtain status y where y: "MshcIssueRequestSynchronously E reset tuning_frame 1000000 True x = (status, y)" by fastforce
  then have "RkCardClockHz y = RkCardClockHz x" using synchronous_clock [OF assms, of tuning_frame 1000000 True x] by simp
  then show ?case using y Suc.IH by simp
qed simp

text \<open>The driver's tuning command, and what its success means.\<close>

definition tuning_pattern :: "MSHC_EXTENSION \<Rightarrow> u8 list" where
  "tuning_pattern x = (if BusWidth x = SdBusWidth8Bit then TuningBlock8BitPattern else TuningBlock4BitPattern)"

definition block_read_back :: "tuning_command \<Rightarrow> MSHC_EXTENSION \<Rightarrow> bool" where
  "block_read_back send y \<longleftrightarrow> NT_SUCCESS (fst (send y)) \<and> buffer_bytes (requests (snd (send y)) tuning_frame) = tuning_pattern y"

lemma tuning_command_result:
  assumes "waits_keep_clock E" "reset_keeps_clock reset"
  shows "keeps_clock (MshcSendTuningCommand E reset)"
    "NT_SUCCESS (fst (MshcSendTuningCommand E reset x)) \<Longrightarrow> block_read_back (MshcSendTuningCommand E reset) x"
proof -
  have both: "RkCardClockHz (snd (MshcSendTuningCommand E reset x)) = RkCardClockHz x \<and>
    (NT_SUCCESS (fst (MshcSendTuningCommand E reset x)) \<longrightarrow>
       buffer_bytes (requests (snd (MshcSendTuningCommand E reset x)) tuning_frame) = tuning_pattern x)" for x
  proof (cases "tuning_index (BusSpeed x)")
    case (Some index)
    let ?b = "if BusWidth x = SdBusWidth8Bit then 128 else 64"
    let ?x = "set_request tuning_frame (tuning_request index ?b) x"
    obtain status y where y: "MshcIssueRequestSynchronously E reset tuning_frame 1000000 True ?x = (status, y)" by fastforce
    let ?y = "change_request tuning_frame (\<lambda>q. q\<lparr>reqType := SdRequestTypeStartTransfer\<rparr>) y"
    obtain st z where z: "tuning_transfer E reset (envFuel E) ?y = (st, z)" by fastforce
    have "RkCardClockHz y = RkCardClockHz x" using synchronous_clock [OF assms, of tuning_frame 1000000 True ?x] y by simp
    moreover have "RkCardClockHz z = RkCardClockHz y" using transfer_clock [OF assms, of "envFuel E" ?y] z by simp
    ultimately show ?thesis using Some y z
      by (simp add: MshcSendTuningCommand_def Let_def tuning_pattern_def)
  qed (simp add: MshcSendTuningCommand_def)
  then show "keeps_clock (MshcSendTuningCommand E reset)" by (simp add: keeps_clock_def)
  show "NT_SUCCESS (fst (MshcSendTuningCommand E reset x)) \<Longrightarrow> block_read_back (MshcSendTuningCommand E reset) x"
    using both by (simp add: block_read_back_def)
qed

lemma set_phase_clock: "RkCardClockHz (snd (MshcRk3576SetPhase sample d x)) = RkCardClockHz x"
  by (simp add: MshcRk3576SetPhase_def MshcWriteRegister_def)

lemma try_clock: "keeps_clock send \<Longrightarrow> RkCardClockHz (snd (try_phase send i x)) = RkCardClockHz x"
proof -
  assume k: "keeps_clock send"
  obtain st y where y: "MshcRk3576SetPhase True (of_nat (RANGE_INDEX_TO_PHASE i NUM_PHASES)) x = (st, y)" by fastforce
  then have "RkCardClockHz y = RkCardClockHz x" using set_phase_clock [of True "of_nat (RANGE_INDEX_TO_PHASE i NUM_PHASES)" x] by simp
  moreover obtain st' z where z: "send y = (st', z)" by fastforce
  then have "RkCardClockHz z = RkCardClockHz y" using k by (metis keeps_clock_def snd_conv)
  ultimately show ?thesis by (simp add: try_phase_def y z)
qed

lemma scan_clock:
  assumes "keeps_clock send"
  shows "RkCardClockHz (snd (tuning_scan send i c p f rs x)) = RkCardClockHz x"
proof (induction "NUM_PHASES - i" arbitrary: i c p f rs x rule: less_induct)
  case less
  show ?case
  proof (cases "i < NUM_PHASES")
    case True
    obtain ok y where y: "try_phase send i x = (ok, y)" by fastforce
    then have "RkCardClockHz y = RkCardClockHz x" using try_clock [OF assms, of i x] by simp
    moreover have "NUM_PHASES - next_phase ok i < NUM_PHASES - i" using next_phase_greater [OF True, of ok] True by linarith
    ultimately show ?thesis using less.hyps y True by (simp add: tuning_scan.simps [of _ i])
  qed (simp add: tuning_scan.simps)
qed

lemma rockchip_tuning_clock:
  assumes "keeps_clock send"
  shows "RkCardClockHz (snd (MshcRockchipExecuteTuning send x)) = RkCardClockHz x"
proof -
  obtain f c rs y where y: "tuning_scan send 0 False False False [] x = ((f, c, rs), y)" by (metis prod_cases3 surj_pair)
  then have "RkCardClockHz y = RkCardClockHz x" using scan_clock [OF assms, of 0 False False False "[]" x] by simp
  then show ?thesis by (simp add: MshcRockchipExecuteTuning_def y Let_def set_phase_clock)
qed

lemma execute_tuning_clock:
  assumes "waits_keep_clock E" "reset_keeps_clock reset" "PlatformOperations E = rockchip_operations crashdump mapped"
  shows "RkCardClockHz (snd (execute_tuning E reset x)) = RkCardClockHz x"
proof -
  let ?a = "x\<lparr>TuningPerformed := False, DataCrcErrorsSinceLastTuning := 0\<rparr>"
  obtain st y where y: "MshcRockchipExecuteTuning (MshcSendTuningCommand E reset) ?a = (st, y)" by fastforce
  then have "RkCardClockHz y = RkCardClockHz x"
    using rockchip_tuning_clock [OF tuning_command_result(1) [OF assms(1,2)], of ?a] by simp
  then show ?thesis by (simp add: execute_tuning_def MshcExecuteTuning_def Let_def rockchip_operations_def assms(3) y)
qed

lemma stop_clock: "waits_keep_clock E \<Longrightarrow> RkCardClockHz (snd (MshcSendStopCommand E p x)) = RkCardClockHz x"
proof -
  assume a: "waits_keep_clock E"
  define y where "y = set_request stop_frame (zero_request\<lparr>cmdIndex := SDCMD_STOP_TRANSMISSION, ResponseType := SdResponseTypeR1B,
    TransferType := SdTransferTypeNone, Argument := 0, reqType := SdRequestTypeCommandNoTransfer\<rparr>) x"
  obtain st z where z: "issued_request E stop_frame y = (st, z)" by fastforce
  have "RkCardClockHz z = RkCardClockHz x" using issued_clock [of E stop_frame y] z by (simp add: y_def)
  then show ?thesis using waited_clock [OF a, of stop_frame 1000000 z]
    by (simp add: MshcSendStopCommand_def issue_stages y_def [symmetric] z Let_def)
qed

lemma controller_clock: "RkCardClockHz (snd (reset_controller m x)) = RkCardClockHz x"
proof -
  obtain st y where y: "MshcResetWait m x = (st, y)" by fastforce
  have "RkCardClockHz y = RkCardClockHz x"
    using clock_same_driver [OF same_driver_trans [OF same_write same_poll]] y unfolding MshcResetWait_def Let_def by (metis snd_conv)
  then show ?thesis by (simp add: reset_controller_def y Let_def clock_kept)
qed

lemma reset_host_clock:
  assumes "waits_keep_clock E" "reset_keeps_clock reset" "PlatformOperations E = rockchip_operations crashdump mapped"
  shows "reset_keeps_clock (reset_host E reset)"
proof -
  have "RkCardClockHz (snd (reset_host E reset t x)) = RkCardClockHz x" if t: "t = SdResetTypeCmd \<or> t = SdResetTypeDat" for t x
  proof -
    define a where "a = x\<lparr>OutstandingRequest := None\<rparr>"
    define b where "b = (if t = SdResetTypeDat then snd (MshcSendStopCommand E reset a) else a)"
    define m where "m = or_if (ScatterGatherDma (hostCaps a)) MSHC_CTRL_DMA_RESET (MSHC_CTRL_CONTROLLER_RESET OR MSHC_CTRL_FIFO_RESET)"
    obtain st c where c: "(if m \<noteq> 0 then reset_controller m b else (STATUS_SUCCESS, b)) = (st, c)" by fastforce
    have kept: "RkCardClockHz a = RkCardClockHz x" "RkCardClockHz b = RkCardClockHz a"
      using stop_clock [OF assms(1)] by (simp_all add: a_def b_def)
    moreover have "RkCardClockHz c = RkCardClockHz b" using c controller_clock [of m b] by (auto split: if_splits)
    ultimately have "RkCardClockHz c = RkCardClockHz x" by simp
    moreover have "reset_host E reset t x =
        (if t = SdResetTypeCmd \<and> (case OutstandingRequest x of Some r \<Rightarrow> has_transfer (requests a r) | None \<Rightarrow> False) then (STATUS_SUCCESS, a)
         else if \<not> NT_SUCCESS st then (st, c)
         else let y = MshcAcknowledgeInterrupts MSHC_INT_ALL MSHC_IDINT_ALL c
              in (STATUS_SUCCESS, if t = SdResetTypeDat \<and> TuningPerformed y \<and> DataCrcErrorsSinceLastTuning y \<ge> MSHC_DCRC_ERROR_RETUNING_THRESHOLD
                    then snd (execute_tuning E reset y) else y))"
      using t c unfolding reset_host_def Let_def a_def [symmetric] m_def [symmetric] b_def [symmetric] by (auto split: option.split)
    ultimately show ?thesis
      using kept(1) by (simp add: Let_def execute_tuning_clock [OF assms] clock_kept)
  qed
  then show ?thesis by (simp add: reset_keeps_clock_def)
qed

lemma nested_reset_clock:
  assumes "waits_keep_clock E" "PlatformOperations E = rockchip_operations crashdump mapped"
  shows "reset_keeps_clock (MshcResetHost n E)"
  by (induction n) (simp_all add: reset_host_clock [OF assms(1) _ assms(2)], simp add: reset_keeps_clock_def)

section \<open>Tuning\<close>



end
