(* ===== verification/MshcPlatform.thy ===== *)
theory MshcPlatform imports MshcHost AcpiEvaluate begin

text \<open>
  Platforms of the SD/MMC host driver (dwcmshc.cpp): what the firmware reports of a controller, the list of
  platform informations shared with the crashdump stack, and the initialization of a miniport and of a slot.
\<close>

section \<open>Platform information\<close>

definition MshcPlatformUnknown :: u32 where "MshcPlatformUnknown = 0"
definition MshcPlatformRockchip :: u32 where "MshcPlatformRockchip = 1"

record MSHC_PLATFORM_INFO =
  infoType :: u32
  Capabilities :: MSHC_PLATFORM_CAPABILITIES

text \<open>An entry of the list; \<open>entryPool\<close> is the allocation it lives in.\<close>

record MSHC_PLATFORM_INFO_LIST_ENTRY =
  MiniportFdo :: nat
  PlatformInfo :: MSHC_PLATFORM_INFO
  entryPool :: nat

definition zero_capabilities :: MSHC_PLATFORM_CAPABILITIES where
  "zero_capabilities = \<lparr>ClockFrequency = 0, MaxFrequency = 0, FifoDepth = 0, capBusWidth = 0, SupportHighSpeed = 0, SupportDdr50 = 0,
     SupportSdr50 = 0, SupportSdr104 = 0, SupportHs200 = 0, No18vRegulator = 0, BrokenCd = 0\<rparr>"

text \<open>\<open>SupportedPlatforms\<close>, with the operations of each; the search for the data of a platform type.\<close>

type_synonym platform_data = "MSHC_PLATFORM_INFO \<times> MSHC_PLATFORM_OPERATIONS"

definition SupportedPlatforms :: "bool \<Rightarrow> bool \<Rightarrow> platform_data list" where
  "SupportedPlatforms crashdump mapped =
     [(\<lparr>infoType = MshcPlatformRockchip, Capabilities = zero_capabilities\<rparr>, rockchip_operations crashdump mapped)]"

fun MshcGetPlatformDriverData :: "platform_data list \<Rightarrow> u32 \<Rightarrow> platform_data option" where
  "MshcGetPlatformDriverData [] platformType = None"
| "MshcGetPlatformDriverData (d # ds) platformType =
     (if platformType = infoType (fst d) then Some d else MshcGetPlatformDriverData ds platformType)"

text \<open>\<open>registry\<close> is the value read from the device's registry key, if it can be opened and holds one.\<close>

definition MshcGetPlatformType :: "u32 option \<Rightarrow> u32" where
  "MshcGetPlatformType registry = (case registry of Some v \<Rightarrow> v | None \<Rightarrow> MshcPlatformUnknown)"

section \<open>Capabilities from ACPI\<close>

definition query_capability ::
    "acpi_api \<Rightarrow> u8 list \<Rightarrow> nat \<Rightarrow> string \<Rightarrow> (u32 \<Rightarrow> MSHC_PLATFORM_CAPABILITIES \<Rightarrow> MSHC_PLATFORM_CAPABILITIES)
       \<Rightarrow> MSHC_PLATFORM_CAPABILITIES \<Rightarrow> (NTSTATUS \<times> MSHC_PLATFORM_CAPABILITIES) option" where
  "query_capability api bytes props name upd c =
     map_option (\<lambda>r. case r of (status, Some v) \<Rightarrow> (status, upd v c) | (status, None) \<Rightarrow> (status, c))
       (AcpiDevicePropertiesQueryIntegerValue api (query_memory bytes name) (Some props) (Some (length bytes)) True)"

fun query_capabilities ::
    "acpi_api \<Rightarrow> u8 list \<Rightarrow> nat \<Rightarrow> (string \<times> (u32 \<Rightarrow> MSHC_PLATFORM_CAPABILITIES \<Rightarrow> MSHC_PLATFORM_CAPABILITIES)) list
       \<Rightarrow> MSHC_PLATFORM_CAPABILITIES \<Rightarrow> MSHC_PLATFORM_CAPABILITIES option" where
  "query_capabilities api bytes props [] c = Some c"
| "query_capabilities api bytes props ((name, upd) # qs) c =
     Option.bind (query_capability api bytes props name upd c) (\<lambda>(status, c). query_capabilities api bytes props qs c)"

definition query_high_speed :: "acpi_api \<Rightarrow> u8 list \<Rightarrow> nat \<Rightarrow> MSHC_PLATFORM_CAPABILITIES \<Rightarrow> MSHC_PLATFORM_CAPABILITIES option" where
  "query_high_speed api bytes props c =
     Option.bind (query_capability api bytes props ''cap-sd-highspeed'' (\<lambda>v c. c\<lparr>SupportHighSpeed := v\<rparr>) c)
       (\<lambda>(status, c). if NT_SUCCESS status then Some c
          else query_capabilities api bytes props [(''cap-mmc-highspeed'', \<lambda>v c. c\<lparr>SupportHighSpeed := v\<rparr>)] c)"

definition read_capabilities :: "acpi_api \<Rightarrow> u8 list \<Rightarrow> nat \<Rightarrow> MSHC_PLATFORM_CAPABILITIES \<Rightarrow> MSHC_PLATFORM_CAPABILITIES option" where
  "read_capabilities api bytes props c =
     Option.bind (query_capabilities api bytes props
        [(''clock-frequency'', \<lambda>v c. c\<lparr>ClockFrequency := v\<rparr>), (''max-frequency'', \<lambda>v c. c\<lparr>MaxFrequency := v\<rparr>),
         (''fifo-depth'', \<lambda>v c. c\<lparr>FifoDepth := v\<rparr>), (''bus-width'', \<lambda>v c. c\<lparr>capBusWidth := v\<rparr>)] c)
      (\<lambda>c. Option.bind (query_high_speed api bytes props c)
      (query_capabilities api bytes props
        [(''sd-uhs-ddr50'', \<lambda>v c. c\<lparr>SupportDdr50 := v\<rparr>), (''sd-uhs-sdr50'', \<lambda>v c. c\<lparr>SupportSdr50 := v\<rparr>),
         (''sd-uhs-sdr104'', \<lambda>v c. c\<lparr>SupportSdr104 := v\<rparr>), (''mmc-hs200-1_8v'', \<lambda>v c. c\<lparr>SupportHs200 := v\<rparr>),
         (''no-1-8-v'', \<lambda>v c. c\<lparr>No18vRegulator := v\<rparr>), (''broken-cd'', \<lambda>v c. c\<lparr>BrokenCd := v\<rparr>)]))"

text \<open>\<open>None\<close>: a query does not return (\<open>AcpiProperties\<close> shows that each does).\<close>

definition MshcQueryAcpiPlatformCapabilities ::
    "platform \<Rightarrow> nat \<Rightarrow> MSHC_PLATFORM_CAPABILITIES \<Rightarrow> kernel \<Rightarrow> ((NTSTATUS \<times> MSHC_PLATFORM_CAPABILITIES) \<times> kernel) option" where
  "MshcQueryAcpiPlatformCapabilities pf inputSize c k =
     (case AcpiQueryDsd pf inputSize True True k of
        ((status, out), k) \<Rightarrow>
          let buffer = Option.bind out id; cleanup = release_opt (map_option fst buffer) k
          in if \<not> NT_SUCCESS status then Some ((status, c), cleanup)
             else case buffer of None \<Rightarrow> Some ((STATUS_INVALID_PARAMETER_1, c), cleanup)
             | Some (b, bytes) \<Rightarrow>
                 (case AcpiParseDsdAsDeviceProperties (acpi pf) (as_memory bytes) (Some 0) True of
                    (status, Some props) \<Rightarrow>
                      if \<not> NT_SUCCESS status then Some ((status, c), cleanup)
                      else map_option (\<lambda>c. ((STATUS_SUCCESS, c), cleanup)) (read_capabilities (acpi pf) bytes props c)
                  | (status, None) \<Rightarrow> Some ((status, c), cleanup)))"

section \<open>Initialization of a miniport\<close>

text \<open>
  \<open>platforms\<close> is \<open>gPlatformInfoList\<close>, in order. The device's PDO is given by what its registry key and its
  firmware hold.
\<close>

definition MshcMiniportInitialize ::
    "platform \<Rightarrow> nat \<Rightarrow> platform_data list \<Rightarrow> u32 option \<Rightarrow> nat \<Rightarrow> MSHC_PLATFORM_INFO_LIST_ENTRY list \<Rightarrow> kernel
       \<Rightarrow> ((NTSTATUS \<times> MSHC_PLATFORM_INFO_LIST_ENTRY list) \<times> kernel) option" where
  "MshcMiniportInitialize pf inputSize supported registry fdo platforms k =
     (case allocate pf k of
        (None, k) \<Rightarrow> Some ((STATUS_INSUFFICIENT_RESOURCES, platforms), k)
      | (Some e, k) \<Rightarrow>
          (case MshcGetPlatformDriverData supported (MshcGetPlatformType registry) of
             None \<Rightarrow> Some ((STATUS_NOT_SUPPORTED, platforms), release e k)
           | Some (info, operations) \<Rightarrow>
               Option.bind (MshcQueryAcpiPlatformCapabilities pf inputSize (Capabilities info) k) (\<lambda>((status, c), k).
                 if \<not> NT_SUCCESS status then Some ((STATUS_ACPI_INVALID_DATA, platforms), release e k)
                 else if ClockFrequency c = 0 \<and> opSetClock operations = None
                 then Some ((STATUS_ACPI_INVALID_DATA, platforms), release e k)
                 else Some ((STATUS_SUCCESS, platforms @ [\<lparr>MiniportFdo = fdo, PlatformInfo = info\<lparr>Capabilities := c\<rparr>, entryPool = e\<rparr>]), k))))"

definition MshcGetSlotCount ::
    "bool \<Rightarrow> platform \<Rightarrow> nat \<Rightarrow> platform_data list \<Rightarrow> u32 option \<Rightarrow> nat \<Rightarrow> MSHC_PLATFORM_INFO_LIST_ENTRY list \<Rightarrow> kernel
       \<Rightarrow> (((NTSTATUS \<times> u8) \<times> MSHC_PLATFORM_INFO_LIST_ENTRY list) \<times> kernel) option" where
  "MshcGetSlotCount isAcpi pf inputSize supported registry fdo platforms k =
     (if isAcpi
      then map_option (\<lambda>((status, platforms), k). (((status, 1), platforms), k))
             (MshcMiniportInitialize pf inputSize supported registry fdo platforms k)
      else Some (((STATUS_INVALID_PARAMETER, 0), platforms), k))"

section \<open>Initialization of a slot\<close>

text \<open>
  The search for the entry of the device: it goes on behind a match, so that the last one counts, and
  computes the FIFO depth of every match that has none from the register.
\<close>

definition detect_fifo_depth :: "u32 \<Rightarrow> MSHC_PLATFORM_INFO_LIST_ENTRY \<Rightarrow> MSHC_PLATFORM_INFO_LIST_ENTRY" where
  "detect_fifo_depth fifoth e =
     (let info = PlatformInfo e; c = Capabilities info
      in if FifoDepth c = 0
         then e\<lparr>PlatformInfo := info\<lparr>Capabilities :=
                c\<lparr>FifoDepth := drop_bit MSHC_FIFOTH_RX_WMARK_SHIFT (fifoth AND MSHC_FIFOTH_RX_WMARK_MASK) + 1\<rparr>\<rparr>\<rparr>
         else e)"

fun find_platform :: "u32 \<Rightarrow> nat option \<Rightarrow> MSHC_PLATFORM_INFO_LIST_ENTRY list \<Rightarrow> MSHC_PLATFORM_INFO option
    \<Rightarrow> MSHC_PLATFORM_INFO_LIST_ENTRY list \<times> MSHC_PLATFORM_INFO option" where
  "find_platform fifoth fdo [] found = ([], found)"
| "find_platform fifoth fdo (e # es) found =
     (if Some (MiniportFdo e) \<noteq> fdo then (case find_platform fifoth fdo es found of (es, found) \<Rightarrow> (e # es, found))
      else let e = detect_fifo_depth fifoth e
           in case find_platform fifoth fdo es (Some (PlatformInfo e)) of (es, found) \<Rightarrow> (e # es, found))"

definition slot_capabilities :: "MSHC_PLATFORM_CAPABILITIES \<Rightarrow> u32 \<Rightarrow> SDPORT_CAPABILITIES \<Rightarrow> SDPORT_CAPABILITIES" where
  "slot_capabilities pc hconReg c0 =
     (let c = c0\<lparr>SpecVersion := 3, MaximumOutstandingRequests := 1, MaximumBlockSize := 0xFFFF, MaximumBlockCount := 0xFFFF\<rparr>;
          dmaInterface = drop_bit MSHC_HCON_DMA_INTERFACE_SHIFT (hconReg AND MSHC_HCON_DMA_INTERFACE_MASK);
          c = (if dmaInterface = MSHC_HCON_DMA_INTERFACE_IDMAC \<and> hconReg AND MSHC_HCON_ADDR_CONFIG_IDMAC64 = 0
               then c\<lparr>DmaDescriptorSize := 16, ScatterGatherDma := True, Address64Bit := False\<rparr> else c);
          c = c\<lparr>AlignmentRequirement := 4 - 1, PioTransferMaxThreshold := 64, UsePioForRead := True, UsePioForWrite := True,
                AutoCmd12 := True, AutoCmd23 := False, BaseClockFrequencyKhz := ClockFrequency pc div 1000\<rparr>;
          c = (if capBusWidth pc = 8 then c\<lparr>SupportedBusWidth8Bit := True\<rparr> else c);
          c = (if SupportHighSpeed pc \<noteq> 0 then c\<lparr>SupportedHighSpeed := True\<rparr> else c);
          c = (if SupportSdr50 pc \<noteq> 0 then c\<lparr>SupportedSDR50 := True\<rparr> else c);
          c = (if SupportSdr104 pc \<noteq> 0 then c\<lparr>SupportedSDR104 := True\<rparr> else c);
          c = (if SupportHs200 pc = 0 then c\<lparr>SupportedHS200 := True\<rparr> else c);
          c = c\<lparr>TuningForSDR50 := False\<rparr>;
          c = (if No18vRegulator pc = 0 then c\<lparr>SignalingVoltage18V := True\<rparr> else c)
      in c\<lparr>SupportedVoltages := {SdBusVoltage33}, SupportedDriverTypes := {CHR ''A'', CHR ''B'', CHR ''C'', CHR ''D''},
           CurrentLimits := {800, 600, 400, 200}\<rparr>)"

text \<open>
  \<open>platforms\<close> is \<open>gPlatformInfoList\<close>, \<open>None\<close> if it is NULL; \<open>recovered\<close> is the one the normal driver left
  in the driver object, if the device object is known. \<open>workItem\<close> says whether a work item could be
  allocated. The routine returns \<open>STATUS_SUCCESS\<close> in any case.
\<close>

definition MshcSlotInitialize ::
    "nat \<Rightarrow> MSHC_ENVIRONMENT \<Rightarrow> platform_data list \<Rightarrow> bool \<Rightarrow> nat option \<Rightarrow> MSHC_PLATFORM_INFO_LIST_ENTRY list option
       \<Rightarrow> MSHC_PLATFORM_INFO_LIST_ENTRY list option \<Rightarrow> MSHC_EXTENSION \<Rightarrow> MSHC_PLATFORM_INFO_LIST_ENTRY list option \<times> MSHC_EXTENSION" where
  "MshcSlotInitialize n E supported workItem fdo recovered platforms x0 =
     (let crashdump = gCrashdumpMode E;
          x = (if crashdump then x0 else x0\<lparr>busyWorkItem := workItem\<rparr>);
          platforms = (if crashdump \<and> platforms = None \<and> fdo \<noteq> None then recovered else platforms)
      in case platforms of
           None \<Rightarrow> (None, x\<lparr>mshcInitialized := False\<rparr>)
         | Some es \<Rightarrow>
             (case find_platform (MshcReadRegister MSHC_FIFOTH x) fdo es None of
                (es, None) \<Rightarrow> (Some es, x\<lparr>mshcInitialized := False\<rparr>)
              | (es, Some info) \<Rightarrow>
                  let x = x\<lparr>platformCaps := Capabilities info\<rparr>
                  in case MshcGetPlatformDriverData supported (infoType info) of
                       None \<Rightarrow> (Some es, x\<lparr>mshcInitialized := False\<rparr>)
                     | Some (i, operations) \<Rightarrow>
                         let x = x\<lparr>CoreVersion := MshcReadRegister MSHC_VERID x,
                                   hostCaps := slot_capabilities (Capabilities info) (MshcReadRegister MSHC_HCON x) (hostCaps x),
                                   SlotId := 0, OutstandingRequest := None\<rparr>;
                             x = snd (MshcResetHost n (E\<lparr>PlatformOperations := operations\<rparr>) SdResetTypeAll x)
                         in (Some es, x\<lparr>mshcInitialized := True\<rparr>)))"

definition MshcGetSlotCapabilities :: "MSHC_EXTENSION \<Rightarrow> SDPORT_CAPABILITIES" where
  "MshcGetSlotCapabilities x = hostCaps x"

section \<open>Cleanup\<close>

text \<open>
  The loop over the list: it frees each entry of the device and then reads the link to the next one from the
  entry it has freed. The first result says that it did; the rest of the list is then unknown.
\<close>

fun cleanup_entries :: "nat \<Rightarrow> MSHC_PLATFORM_INFO_LIST_ENTRY list \<Rightarrow> kernel \<Rightarrow> bool \<times> kernel" where
  "cleanup_entries fdo [] k = (False, k)"
| "cleanup_entries fdo (e # es) k =
     (if MiniportFdo e \<noteq> fdo then cleanup_entries fdo es k else (True, release (entryPool e) k))"

text \<open>\<open>None\<close>: the routine reads freed memory. Otherwise the list is unchanged, and the slots' extensions are cleaned up.\<close>

definition MshcCleanup :: "nat \<Rightarrow> MSHC_PLATFORM_INFO_LIST_ENTRY list \<Rightarrow> MSHC_EXTENSION list \<Rightarrow> kernel
    \<Rightarrow> (MSHC_EXTENSION list \<times> kernel) option" where
  "MshcCleanup fdo platforms slots k =
     (case cleanup_entries fdo platforms k of
        (True, k) \<Rightarrow> None
      | (False, k) \<Rightarrow> Some (map MshcRockchipCleanup slots, k))"

end
