(* ===== verification/MshcPlatformProofs.thy ===== *)
theory MshcPlatformProofs imports MshcPlatform AcpiReports begin

text \<open>
  Initialization of a miniport of the SD/MMC host driver returns and keeps the books of the pool; cleaning up
  after a miniport that was initialized reads a freed list entry.
\<close>

context acpi_layout
begin

lemma query_capability_total: "\<exists>r. query_capability api bytes props name upd c = Some r"
proof -
  let ?mem = "query_memory bytes name"
  obtain r where "AcpiDevicePropertiesQueryValue api ?mem (Some props) (Some (length bytes)) True = Some r"
    using queries_total by blast
  then have "\<exists>q. AcpiDevicePropertiesQueryIntegerValue api ?mem (Some props) (Some (length bytes)) True = Some q"
    by (simp add: AcpiDevicePropertiesQueryIntegerValue_def)
  then show ?thesis by (auto simp: query_capability_def)
qed

lemma query_capabilities_total: "\<exists>r. query_capabilities api bytes props qs c = Some r"
proof (induction qs arbitrary: c)
  case (Cons q qs)
  obtain name upd where q: "q = (name, upd)" by fastforce
  obtain st d where "query_capability api bytes props name upd c = Some (st, d)"
    using query_capability_total by fastforce
  then show ?case using Cons.IH by (simp add: q)
qed simp

lemma read_capabilities_total: "\<exists>r. read_capabilities api bytes props c = Some r"
proof -
  have hs: "\<exists>r. query_high_speed api bytes props c = Some r" for c
  proof -
    obtain st d where "query_capability api bytes props ''cap-sd-highspeed'' (\<lambda>v c. c\<lparr>SupportHighSpeed := v\<rparr>) c = Some (st, d)"
      using query_capability_total by fastforce
    then show ?thesis using query_capabilities_total unfolding query_high_speed_def by (simp del: query_capabilities.simps)
  qed
  obtain d where d: "query_capabilities api bytes props
        [(''clock-frequency'', \<lambda>v c. c\<lparr>ClockFrequency := v\<rparr>), (''max-frequency'', \<lambda>v c. c\<lparr>MaxFrequency := v\<rparr>),
         (''fifo-depth'', \<lambda>v c. c\<lparr>FifoDepth := v\<rparr>), (''bus-width'', \<lambda>v c. c\<lparr>capBusWidth := v\<rparr>)] c = Some d"
    using query_capabilities_total by blast
  obtain e where e: "query_high_speed api bytes props d = Some e" using hs by blast
  show ?thesis unfolding read_capabilities_def d bind.bind_lunit e by (rule query_capabilities_total)
qed

lemma query_platform_pool:
  assumes "acpi pf = api" "kernel_ok k"
  shows "\<exists>status d k'. MshcQueryAcpiPlatformCapabilities pf n c k = Some ((status, d), k') \<and> kernel_ok k' \<and> live k' = live k"
proof -
  obtain status out k1 where dsd: "AcpiQueryDsd pf n True True k = ((status, out), k1)" by (metis surj_pair)
  obtain status' out' where ev: "AcpiEvaluateMethod pf (SimpleInput ACPI_METHOD_ULONG_DSD, n) k = ((status', out'), k1)"
    "NT_SUCCESS status = NT_SUCCESS status'" "NT_SUCCESS status \<Longrightarrow> out = out'" "\<not> NT_SUCCESS status \<Longrightarrow> out = None"
    using dsd by (auto simp: AcpiQueryDsd_def split: prod.splits if_splits)
  note pool = evaluate_pool [OF ev(1) assms(2,1)]
  show ?thesis
  proof (cases "NT_SUCCESS status")
    case False
    then show ?thesis using pool ev by (simp add: MshcQueryAcpiPlatformCapabilities_def dsd Let_def)
  next
    case True
    then obtain b bytes where b: "out = Some (Some (b, bytes))" "live k1 = b # live k" "kernel_ok k1" using pool ev by auto
    have rel: "live (release b k1) = live k" "kernel_ok (release b k1)" using release_live [of k1 b] b by simp_all
    obtain st p where p: "AcpiParseDsdAsDeviceProperties (acpi pf) (as_memory bytes) (Some 0) True = (st, p)" by fastforce
    show ?thesis
    proof (cases p)
      case None
      then show ?thesis using True rel by (simp add: MshcQueryAcpiPlatformCapabilities_def dsd b p Let_def)
    next
      case (Some props)
      obtain d where "read_capabilities (acpi pf) bytes props c = Some d" using read_capabilities_total assms(1) by blast
      then show ?thesis using True rel Some by (simp add: MshcQueryAcpiPlatformCapabilities_def dsd b p Let_def)
    qed
  qed
qed

end

text \<open>C29: Initializing a miniport returns whatever the registry and the firmware contain, and keeps the books of
  the pool: on success exactly the new list entry is allocated, and it is the last of the list; on every
  failure the list and the pool are as before.
\<close>

theorem miniport_initialize_ownership:
  assumes "acpi_layout (acpi pf)" "kernel_ok k"
  shows "\<exists>status ps k'. MshcMiniportInitialize pf n supported registry fdo platforms k = Some ((status, ps), k') \<and> kernel_ok k' \<and>
    (if NT_SUCCESS status then \<exists>e. ps = platforms @ [e] \<and> MiniportFdo e = fdo \<and> live k' = entryPool e # live k
     else ps = platforms \<and> live k' = live k)"
proof -
  obtain o1 k1 where al: "allocate pf k = (o1, k1)" by fastforce
  show ?thesis
  proof (cases o1)
    case None
    then show ?thesis using al allocate_None [of pf k k1] assms(2) by (simp add: MshcMiniportInitialize_def)
  next
    case (Some e)
    have a: "live k1 = e # live k" "kernel_ok k1" using allocate_Some [of pf k e k1] al Some assms(2) by simp_all
    have r: "live (release e z) = live k \<and> kernel_ok (release e z)" if "live z = e # live k" "kernel_ok z" for z
      using release_live [OF that(2), of e] that(1) by simp
    show ?thesis
    proof (cases "MshcGetPlatformDriverData supported (MshcGetPlatformType registry)")
      case None
      then show ?thesis using al Some r [OF a] by (simp add: MshcMiniportInitialize_def)
    next
      case p: (Some d)
      obtain info operations where d: "d = (info, operations)" by fastforce
      obtain st c k2 where q: "MshcQueryAcpiPlatformCapabilities pf n (Capabilities info) k1 = Some ((st, c), k2)" "kernel_ok k2" "live k2 = live k1"
        using acpi_layout.query_platform_pool [OF assms(1) refl a(2)] by blast
      then show ?thesis using al Some p d r [of k2] a by (simp add: MshcMiniportInitialize_def cong: if_cong)
    qed
  qed
qed

theorem miniport_initialize_ownership_witness:
  "\<exists>status ps k'. MshcMiniportInitialize demo_platform 12 (SupportedPlatforms False True) (Some 1) 7 [] demo_kernel = Some ((status, ps), k')
     \<and> kernel_ok k' \<and> (if NT_SUCCESS status then \<exists>e. ps = [] @ [e] \<and> MiniportFdo e = 7 \<and> live k' = entryPool e # live demo_kernel
     else ps = [] \<and> live k' = live demo_kernel)"
  by (rule miniport_initialize_ownership) (simp_all add: demo_platform_fields wdk.acpi_layout_axioms demo_kernel_ok)

lemma cleanup_frees: "\<exists>k'. cleanup_entries fdo (es @ (e\<lparr>MiniportFdo := fdo\<rparr>) # fs) k = (True, k')"
  by (induction es) auto

text \<open>Cleaning up a miniport reads a freed list entry whenever the list holds an entry of the device, which
  is what initialization puts there: the loop frees the entry and then follows the link in it.
\<close>

theorem cleanup_reads_freed_entry: "MshcCleanup fdo (es @ (e\<lparr>MiniportFdo := fdo\<rparr>) # fs) slots k = None"
  using cleanup_frees [of fdo es e fs k] by (auto simp: MshcCleanup_def)

end
