(* ===== verification/Pl330Insn.thy ===== *)
theory Pl330Insn imports Prelude begin

unbundle bit_operations_syntax

text \<open>
  Microcode of the PL330 DMA controller (opcodes.h, insn.c): the emitters of single instructions, and the
  generator of the program for a cyclic transfer between memory and a peripheral.

  An emitter stores the bytes of an instruction at the start of a buffer and returns their number; here it
  returns the bytes, and calls at increasing offsets are concatenation. The dry run, which stores nothing,
  is never asked for by the driver.
\<close>

section \<open>Opcodes\<close>

datatype pl330_dst = SRC | DST
datatype dmamov_dst = SAR | CCR | DAR
datatype pl330_cond = SINGLE | BURST | ALWAYS

definition CMD_DMAADDH :: u8 where "CMD_DMAADDH = 0x54"
definition CMD_DMAEND :: u8 where "CMD_DMAEND = 0x00"
definition CMD_DMAFLUSHP :: u8 where "CMD_DMAFLUSHP = 0x35"
definition CMD_DMAGO :: u8 where "CMD_DMAGO = 0xa0"
definition CMD_DMALD :: u8 where "CMD_DMALD = 0x04"
definition CMD_DMALDP :: u8 where "CMD_DMALDP = 0x25"
definition CMD_DMALP :: u8 where "CMD_DMALP = 0x20"
definition CMD_DMALPEND :: u8 where "CMD_DMALPEND = 0x28"
definition CMD_DMAKILL :: u8 where "CMD_DMAKILL = 0x01"
definition CMD_DMAMOV :: u8 where "CMD_DMAMOV = 0xbc"
definition CMD_DMARMB :: u8 where "CMD_DMARMB = 0x12"
definition CMD_DMASEV :: u8 where "CMD_DMASEV = 0x34"
definition CMD_DMAST :: u8 where "CMD_DMAST = 0x08"
definition CMD_DMASTP :: u8 where "CMD_DMASTP = 0x29"
definition CMD_DMAWFP :: u8 where "CMD_DMAWFP = 0x30"
definition CMD_DMAWMB :: u8 where "CMD_DMAWMB = 0x13"

lemmas cmd_defs = CMD_DMAADDH_def CMD_DMAEND_def CMD_DMAFLUSHP_def CMD_DMAGO_def CMD_DMALD_def CMD_DMALDP_def CMD_DMALP_def
  CMD_DMALPEND_def CMD_DMAKILL_def CMD_DMAMOV_def CMD_DMARMB_def CMD_DMASEV_def CMD_DMAST_def CMD_DMASTP_def CMD_DMAWFP_def CMD_DMAWMB_def

text \<open>The bytes of a 32-bit operand, and a peripheral or event number in its field.\<close>

definition operand_bytes :: "u32 \<Rightarrow> u8 list" where
  "operand_bytes v = [ucast (v AND 0xff), ucast (drop_bit 8 v AND 0xff), ucast (drop_bit 16 v AND 0xff), ucast (drop_bit 24 v AND 0xff)]"

definition number_field :: "u8 \<Rightarrow> u8" where
  "number_field n = push_bit 3 (n AND 0x1f)"

text \<open>The condition bits of a load, a store or the end of a loop.\<close>

fun cond_bits :: "pl330_cond \<Rightarrow> u8" where
  "cond_bits SINGLE = push_bit 1 0 OR push_bit 0 1"
| "cond_bits BURST = push_bit 1 1 OR push_bit 0 1"
| "cond_bits ALWAYS = 0"

section \<open>Emitters\<close>

definition emit_ADDH :: "pl330_dst \<Rightarrow> u16 \<Rightarrow> u8 list" where
  "emit_ADDH da val = [CMD_DMAADDH OR push_bit 1 (case da of SRC \<Rightarrow> 0 | DST \<Rightarrow> 1), ucast val, ucast (drop_bit 8 val)]"

definition emit_END :: "u8 list" where "emit_END = [CMD_DMAEND]"

definition emit_FLUSHP :: "u8 \<Rightarrow> u8 list" where
  "emit_FLUSHP peri = [CMD_DMAFLUSHP, number_field peri]"

definition emit_LD :: "pl330_cond \<Rightarrow> u8 list" where
  "emit_LD c = [CMD_DMALD OR cond_bits c]"

definition emit_LDP :: "pl330_cond \<Rightarrow> u8 \<Rightarrow> u8 list" where
  "emit_LDP c peri = [CMD_DMALDP OR (if c = BURST then push_bit 1 1 else 0), number_field peri]"

definition emit_LP :: "bool \<Rightarrow> u8 \<Rightarrow> u8 list" where
  "emit_LP loop cnt = [CMD_DMALP OR (if loop then push_bit 1 1 else 0), cnt - 1]"

definition emit_LPEND :: "pl330_cond \<Rightarrow> bool \<Rightarrow> bool \<Rightarrow> u8 \<Rightarrow> u8 list" where
  "emit_LPEND c forever loop bjump =
     [CMD_DMALPEND OR (if loop then push_bit 2 1 else 0) OR (if \<not> forever then push_bit 4 1 else 0) OR cond_bits c, bjump]"

definition emit_KILL :: "u8 list" where "emit_KILL = [CMD_DMAKILL]"

definition emit_MOV :: "dmamov_dst \<Rightarrow> u32 \<Rightarrow> u8 list" where
  "emit_MOV dst val = [CMD_DMAMOV, case dst of SAR \<Rightarrow> 0 | CCR \<Rightarrow> 1 | DAR \<Rightarrow> 2] @ operand_bytes val"

definition emit_RMB :: "u8 list" where "emit_RMB = [CMD_DMARMB]"

definition emit_SEV :: "u8 \<Rightarrow> u8 list" where
  "emit_SEV ev = [CMD_DMASEV, number_field ev]"

definition emit_ST :: "pl330_cond \<Rightarrow> u8 list" where
  "emit_ST c = [CMD_DMAST OR cond_bits c]"

definition emit_STP :: "pl330_cond \<Rightarrow> u8 \<Rightarrow> u8 list" where
  "emit_STP c peri = [CMD_DMASTP OR (if c = BURST then push_bit 1 1 else 0), number_field peri]"

definition emit_WFP :: "pl330_cond \<Rightarrow> u8 \<Rightarrow> u8 list" where
  "emit_WFP c peri =
     [CMD_DMAWFP OR (case c of SINGLE \<Rightarrow> push_bit 1 0 OR push_bit 0 0 | BURST \<Rightarrow> push_bit 1 1 OR push_bit 0 0 | ALWAYS \<Rightarrow> push_bit 1 0 OR push_bit 0 1),
      number_field peri]"

definition emit_WMB :: "u8 list" where "emit_WMB = [CMD_DMAWMB]"

definition emit_GO :: "u8 \<Rightarrow> u32 \<Rightarrow> u32 \<Rightarrow> u8 list" where
  "emit_GO chan address ns = [CMD_DMAGO OR ucast (push_bit 1 ns), chan AND 0x7] @ operand_bytes address"

section \<open>The channel control register\<close>

definition CC_SRCINC :: u32 where "CC_SRCINC = push_bit 0 1"
definition CC_DSTINC :: u32 where "CC_DSTINC = push_bit 14 1"
definition CC_SRCNS :: u32 where "CC_SRCNS = push_bit 9 1"
definition CC_DSTNS :: u32 where "CC_DSTNS = push_bit 23 1"
definition CC_SRCBRSTLEN_SHFT :: nat where "CC_SRCBRSTLEN_SHFT = 4"
definition CC_DSTBRSTLEN_SHFT :: nat where "CC_DSTBRSTLEN_SHFT = 18"
definition CC_SRCBRSTSIZE_SHFT :: nat where "CC_SRCBRSTSIZE_SHFT = 1"
definition CC_DSTBRSTSIZE_SHFT :: nat where "CC_DSTBRSTSIZE_SHFT = 15"
definition CC_SRCCCTRL_SHFT :: nat where "CC_SRCCCTRL_SHFT = 11"
definition CC_DSTCCTRL_SHFT :: nat where "CC_DSTCCTRL_SHFT = 25"
definition CC_SWAP_SHFT :: nat where "CC_SWAP_SHFT = 28"
definition CCTRL0 :: u32 where "CCTRL0 = 0"
definition SWAP_NO :: u32 where "SWAP_NO = 0"

lemmas cc_defs = CC_SRCINC_def CC_DSTINC_def CC_SRCNS_def CC_DSTNS_def CC_SRCBRSTLEN_SHFT_def CC_DSTBRSTLEN_SHFT_def
  CC_SRCBRSTSIZE_SHFT_def CC_DSTBRSTSIZE_SHFT_def CC_SRCCCTRL_SHFT_def CC_DSTCCTRL_SHFT_def CC_SWAP_SHFT_def CCTRL0_def SWAP_NO_def

definition BRST_LEN :: "u32 \<Rightarrow> u32" where
  "BRST_LEN ccr = (drop_bit CC_SRCBRSTLEN_SHFT ccr AND 0xf) + 1"

definition BRST_SIZE :: "u32 \<Rightarrow> u32" where
  "BRST_SIZE ccr = push_bit (unat (drop_bit CC_SRCBRSTSIZE_SHFT ccr AND 0x7)) 1"

definition BYTE_TO_BURST :: "u32 \<Rightarrow> u32 \<Rightarrow> u32" where
  "BYTE_TO_BURST b ccr = b div BRST_SIZE ccr div BRST_LEN ccr"

definition BYTE_MOD_BURST_LEN :: "u32 \<Rightarrow> u32 \<Rightarrow> u32" where
  "BYTE_MOD_BURST_LEN b ccr = (b div BRST_SIZE ccr) mod BRST_LEN ccr"

section \<open>The generator\<close>

record XFER_SPEC =
  xferCcr :: u32
  involvesDevice :: bool
  toDevice :: bool
  Peripheral :: u8
  numPeriods :: nat
  srcAddr :: u32
  dstAddr :: u32
  periodBytes :: u32

text \<open>Loops that emit the same code a number of times.\<close>

definition ldst_memtomem :: "nat \<Rightarrow> u8 list" where
  "ldst_memtomem cyc = concat (replicate cyc (emit_LD ALWAYS @ emit_ST ALWAYS))"

definition emit_load :: "pl330_cond \<Rightarrow> XFER_SPEC \<Rightarrow> u8 list" where
  "emit_load c pxs =
     (if \<not> involvesDevice pxs \<or> (involvesDevice pxs \<and> toDevice pxs) then emit_LD c
      else if c = ALWAYS then emit_LDP SINGLE (Peripheral pxs) @ emit_LDP BURST (Peripheral pxs)
      else emit_LDP c (Peripheral pxs))"

definition emit_store :: "pl330_cond \<Rightarrow> XFER_SPEC \<Rightarrow> u8 list" where
  "emit_store c pxs =
     (if \<not> involvesDevice pxs \<or> (involvesDevice pxs \<and> \<not> toDevice pxs) then emit_ST c
      else if c = ALWAYS then emit_STP SINGLE (Peripheral pxs) @ emit_STP BURST (Peripheral pxs)
      else emit_STP c (Peripheral pxs))"

definition ldst_peripheral :: "XFER_SPEC \<Rightarrow> nat \<Rightarrow> pl330_cond \<Rightarrow> u8 list" where
  "ldst_peripheral pxs cyc c =
     emit_FLUSHP (Peripheral pxs)
     @ concat (replicate cyc (emit_WFP c (Peripheral pxs) @ emit_load c pxs @ emit_store c pxs))"

definition bursts_code :: "XFER_SPEC \<Rightarrow> nat \<Rightarrow> u8 list" where
  "bursts_code pxs cyc = (if involvesDevice pxs then ldst_peripheral pxs cyc BURST else ldst_memtomem cyc)"

definition dregs_ccr :: "u32 \<Rightarrow> u32 \<Rightarrow> u32" where
  "dregs_ccr c transferLength =
     (let c = c AND NOT (push_bit CC_SRCBRSTLEN_SHFT 0xf OR push_bit CC_DSTBRSTLEN_SHFT 0xf);
          c = c OR push_bit CC_SRCBRSTLEN_SHFT ((transferLength - 1) AND 0xf)
      in c OR push_bit CC_DSTBRSTLEN_SHFT ((transferLength - 1) AND 0xf))"

definition dregs_code :: "XFER_SPEC \<Rightarrow> u32 \<Rightarrow> u8 list" where
  "dregs_code pxs transferLength =
     (if transferLength = 0 then []
      else emit_MOV CCR (dregs_ccr (xferCcr pxs) transferLength)
        @ (if involvesDevice pxs then ldst_peripheral pxs 1 BURST else ldst_memtomem 1))"

text \<open>A loop with counter 1: its body with the instructions around it.\<close>

definition loop_code :: "bool \<Rightarrow> u8 \<Rightarrow> u8 list \<Rightarrow> u8 list" where
  "loop_code loop cnt body = emit_LP loop cnt @ body @ emit_LPEND ALWAYS False loop (of_nat (length body))"

definition period_code :: "XFER_SPEC \<Rightarrow> u32 \<Rightarrow> u8 \<Rightarrow> u8 list" where
  "period_code pxs bursts ev =
     (let lcnt1 = (if bursts > 256 then 256 else bursts);
          cyc = (if bursts > 256 then unat (bursts div 256) else 1);
          code = loop_code True (ucast lcnt1) (bursts_code pxs cyc);
          rest = bursts - lcnt1 * of_nat cyc;
          code = code @ (if rest \<noteq> 0 then loop_code True (ucast rest) (bursts_code pxs 1) else []);
          dregs = BYTE_MOD_BURST_LEN (periodBytes pxs) (xferCcr pxs);
          code = code @ (if dregs \<noteq> 0 then dregs_code pxs dregs @ emit_MOV CCR (xferCcr pxs) else [])
      in code @ emit_SEV ev)"

text \<open>
  How many copies of the period's code a pass through the loop makes, from \<open>periods\<close> on, so that the count of
  the loop fits.
\<close>

function split_periods :: "nat \<Rightarrow> nat \<Rightarrow> nat" where
  "split_periods n periods = (if 256 < n div periods then split_periods n (Suc periods) else periods)"
  by pat_completeness auto
termination
proof (relation "measure (\<lambda>(n, p). n - p)")
  fix n p :: nat
  assume "256 < n div p"
  then have "p < n"
    by (metis div_less div_self less_numeral_extra(3) linorder_neqE_nat not_less_zero one_less_numeral_iff order.strict_trans semiring_norm(76) neq0_conv div_by_0)
  then show "((n, Suc p), (n, p)) \<in> measure (\<lambda>(n, p). n - p)" by simp
qed simp

declare split_periods.simps [simp del]

definition loop_cyclic :: "u32 \<Rightarrow> XFER_SPEC \<Rightarrow> u8 \<Rightarrow> u8 list" where
  "loop_cyclic bursts pxs ev =
     (let periods = split_periods (numPeriods pxs) 1;
          lcnt0 = numPeriods pxs div periods;
          residue = numPeriods pxs mod periods;
          code = emit_MOV SAR (srcAddr pxs) @ emit_MOV DAR (dstAddr pxs);
          code = code @ loop_code False (of_nat lcnt0) (concat (replicate periods (period_code pxs bursts ev)));
          code = code @ concat (replicate residue (period_code pxs bursts ev))
      in code @ emit_LPEND ALWAYS True True (of_nat (length code)))"

section \<open>The cyclic transfer of audio data\<close>

text \<open>The intrinsic \<open>_BitScanForward\<close>: the position of the least significant set bit.\<close>

definition BitScanForward :: "u32 \<Rightarrow> u32" where
  "BitScanForward w = (case filter (bit w) [0..<32] of [] \<Rightarrow> 0 | i # _ \<Rightarrow> of_nat i)"

definition audio_ccr :: "bool \<Rightarrow> u32" where
  "audio_ccr fromDevice =
     (let ccr = (if fromDevice then CC_DSTINC else CC_SRCINC);
          ccr = ccr OR (CC_SRCNS OR CC_DSTNS);
          addrWidth = 4; maxBurst = 8;
          ccr = ccr OR push_bit CC_SRCBRSTLEN_SHFT (maxBurst - 1);
          ccr = ccr OR push_bit CC_DSTBRSTLEN_SHFT (maxBurst - 1);
          burstSz = BitScanForward addrWidth;
          ccr = ccr OR push_bit CC_SRCBRSTSIZE_SHFT burstSz;
          ccr = ccr OR push_bit CC_DSTBRSTSIZE_SHFT burstSz;
          ccr = ccr OR push_bit CC_SRCCCTRL_SHFT CCTRL0;
          ccr = ccr OR push_bit CC_DSTCCTRL_SHFT CCTRL0
      in ccr OR push_bit CC_SWAP_SHFT SWAP_NO)"

definition audio_xfer :: "bool \<Rightarrow> u8 \<Rightarrow> u32 \<Rightarrow> u32 \<Rightarrow> u32 \<Rightarrow> u32 \<Rightarrow> XFER_SPEC" where
  "audio_xfer fromDevice channel src dst len periodLen =
     \<lparr>xferCcr = audio_ccr fromDevice, involvesDevice = True, toDevice = \<not> fromDevice, Peripheral = channel,
      numPeriods = unat (len div periodLen), srcAddr = src, dstAddr = dst, periodBytes = periodLen\<rparr>"

text \<open>The program \<open>SubmitAudioDMA\<close> stores in the microcode buffer of a channel.\<close>

definition audio_program :: "bool \<Rightarrow> u8 \<Rightarrow> u32 \<Rightarrow> u32 \<Rightarrow> u32 \<Rightarrow> u32 \<Rightarrow> u8 list" where
  "audio_program fromDevice channel src dst len periodLen =
     (let ccr = audio_ccr fromDevice; pxs = audio_xfer fromDevice channel src dst len periodLen
      in emit_MOV CCR ccr @ loop_cyclic (BYTE_TO_BURST periodLen ccr) pxs channel)"

end
