(* ===== verification/Pl330Device.thy ===== *)
theory Pl330Device imports Pl330Insn NtStatus begin

text \<open>
  The PL330 driver around its microcode (pl330.h, driver.h, dmacontroller.c): registers, the device context, the
  configuration, the state of a thread, and how instructions are given to the controller: stopping a channel
  and starting the program in its buffer.
\<close>

unbundle bit_operations_syntax

section \<open>Registers\<close>

definition DS :: u32 where "DS = 0x0"
definition DS_ST_STOP :: u32 where "DS_ST_STOP = 0x0"
definition DS_ST_EXEC :: u32 where "DS_ST_EXEC = 0x1"
definition DS_ST_CMISS :: u32 where "DS_ST_CMISS = 0x2"
definition DS_ST_UPDTPC :: u32 where "DS_ST_UPDTPC = 0x3"
definition DS_ST_WFE :: u32 where "DS_ST_WFE = 0x4"
definition DS_ST_ATBRR :: u32 where "DS_ST_ATBRR = 0x5"
definition DS_ST_QBUSY :: u32 where "DS_ST_QBUSY = 0x6"
definition DS_ST_WFP :: u32 where "DS_ST_WFP = 0x7"
definition DS_ST_KILL :: u32 where "DS_ST_KILL = 0x8"
definition DS_ST_CMPLT :: u32 where "DS_ST_CMPLT = 0x9"
definition DS_ST_FLTCMP :: u32 where "DS_ST_FLTCMP = 0xe"
definition DS_ST_FAULT :: u32 where "DS_ST_FAULT = 0xf"

definition INTEN :: u32 where "INTEN = 0x20"
definition ES :: u32 where "ES = 0x24"
definition INTCLR :: u32 where "INTCLR = 0x2c"
definition FSM :: u32 where "FSM = 0x30"
definition FSC :: u32 where "FSC = 0x34"
definition CS :: "nat \<Rightarrow> u32" where "CS n = 0x100 + of_nat n * 0x8"
definition CPC :: "nat \<Rightarrow> u32" where "CPC n = 0x104 + of_nat n * 0x8"
definition SA :: "nat \<Rightarrow> u32" where "SA n = 0x400 + of_nat n * 0x20"
definition DA :: "nat \<Rightarrow> u32" where "DA n = 0x404 + of_nat n * 0x20"
definition DBGSTATUS :: u32 where "DBGSTATUS = 0xd00"
definition DBG_BUSY :: u32 where "DBG_BUSY = push_bit 0 1"
definition DBGCMD :: u32 where "DBGCMD = 0xd04"
definition DBGINST0 :: u32 where "DBGINST0 = 0xd08"
definition DBGINST1 :: u32 where "DBGINST1 = 0xd0c"
definition CR0 :: u32 where "CR0 = 0xe00"
definition CR3 :: u32 where "CR3 = 0xe0c"
definition CR4 :: u32 where "CR4 = 0xe10"
definition CRD :: u32 where "CRD = 0xe14"

definition CR0_PERIPH_REQ_SET :: u32 where "CR0_PERIPH_REQ_SET = push_bit 0 1"
definition CR0_BOOT_MAN_NS :: u32 where "CR0_BOOT_MAN_NS = push_bit 2 1"
definition CR0_NUM_CHANS_SHIFT :: nat where "CR0_NUM_CHANS_SHIFT = 4"
definition CR0_NUM_CHANS_MASK :: u32 where "CR0_NUM_CHANS_MASK = 0x7"
definition CR0_NUM_PERIPH_SHIFT :: nat where "CR0_NUM_PERIPH_SHIFT = 12"
definition CR0_NUM_PERIPH_MASK :: u32 where "CR0_NUM_PERIPH_MASK = 0x1f"
definition CR0_NUM_EVENTS_SHIFT :: nat where "CR0_NUM_EVENTS_SHIFT = 17"
definition CR0_NUM_EVENTS_MASK :: u32 where "CR0_NUM_EVENTS_MASK = 0x1f"
definition CRD_DATA_WIDTH_SHIFT :: nat where "CRD_DATA_WIDTH_SHIFT = 0"
definition CRD_DATA_WIDTH_MASK :: u32 where "CRD_DATA_WIDTH_MASK = 0x7"
definition CRD_DATA_BUFF_SHIFT :: nat where "CRD_DATA_BUFF_SHIFT = 20"
definition CRD_DATA_BUFF_MASK :: u32 where "CRD_DATA_BUFF_MASK = 0x3ff"

definition PL330_STATE_STOPPED :: u32 where "PL330_STATE_STOPPED = push_bit 0 1"
definition PL330_STATE_EXECUTING :: u32 where "PL330_STATE_EXECUTING = push_bit 1 1"
definition PL330_STATE_WFE :: u32 where "PL330_STATE_WFE = push_bit 2 1"
definition PL330_STATE_FAULTING :: u32 where "PL330_STATE_FAULTING = push_bit 3 1"
definition PL330_STATE_COMPLETING :: u32 where "PL330_STATE_COMPLETING = push_bit 4 1"
definition PL330_STATE_WFP :: u32 where "PL330_STATE_WFP = push_bit 5 1"
definition PL330_STATE_KILLING :: u32 where "PL330_STATE_KILLING = push_bit 6 1"
definition PL330_STATE_FAULT_COMPLETING :: u32 where "PL330_STATE_FAULT_COMPLETING = push_bit 7 1"
definition PL330_STATE_CACHEMISS :: u32 where "PL330_STATE_CACHEMISS = push_bit 8 1"
definition PL330_STATE_UPDTPC :: u32 where "PL330_STATE_UPDTPC = push_bit 9 1"
definition PL330_STATE_ATBARRIER :: u32 where "PL330_STATE_ATBARRIER = push_bit 10 1"
definition PL330_STATE_QUEUEBUSY :: u32 where "PL330_STATE_QUEUEBUSY = push_bit 11 1"
definition PL330_STATE_INVALID :: u32 where "PL330_STATE_INVALID = push_bit 15 1"

definition MCODE_BUFF_PER_REQ :: nat where "MCODE_BUFF_PER_REQ = 256"
definition MAX_NOTIF_EVENTS :: nat where "MAX_NOTIF_EVENTS = 16"
definition DMAC_MODE_NS :: u32 where "DMAC_MODE_NS = push_bit 0 1"

text \<open>Two status codes only this driver returns.\<close>

definition STATUS_NO_MEMORY :: NTSTATUS where "STATUS_NO_MEMORY = STATUS_OTHER 0xC0000017"
definition STATUS_UNSUCCESSFUL :: NTSTATUS where "STATUS_UNSUCCESSFUL = STATUS_OTHER 0xC0000001"

section \<open>The device context\<close>

record PL330DMA_CONFIG =
  Mode :: u32
  DataBusWidth :: nat
  DataBufDepth :: nat
  NumChan :: nat
  NumPeripherals :: nat
  PeripheralNS :: u32
  NumEvents :: nat
  IrqNS :: u32

text \<open>A callback: the device object that is referenced while it is registered, the routine and its context.\<close>

record PL330DMA_THREAD_CALLBACK =
  InUse :: bool
  Fdo :: "nat option"
  NotificationCallback :: nat
  CallbackContext :: nat

definition zero_callback :: PL330DMA_THREAD_CALLBACK where
  "zero_callback = \<lparr>InUse = False, Fdo = None, NotificationCallback = 0, CallbackContext = 0\<rparr>"

text \<open>The microcode buffer of a thread: its offset in the memory of all of them, and its bus address.\<close>

record PL330DMA_THREAD =
  Id :: u8
  ev :: nat
  Free :: bool
  MCcpu :: nat
  MCbus :: u32
  Xfer :: "XFER_SPEC option"
  registeredCallbacks :: "PL330DMA_THREAD_CALLBACK list"
  ReqRunning :: bool

definition zero_thread :: PL330DMA_THREAD where
  "zero_thread = \<lparr>Id = 0, ev = 0, Free = False, MCcpu = 0, MCbus = 0, Xfer = None,
     registeredCallbacks = replicate MAX_NOTIF_EVENTS zero_callback, ReqRunning = False\<rparr>"

text \<open>
  A thread is named by its index in \<open>Channels\<close>, where the manager comes last. \<open>MCodeBus\<close> is the bus address of
  the contiguous memory \<open>MCode\<close>.

  The last fields are the driver's surroundings. The \<open>n\<close>-th read of a register gives \<open>dmacDevice n\<close> of it, but
  \<open>INTEN\<close> holds what was written to it; \<open>dmacClock\<close> is the system time at its \<open>n\<close>-th query. Writes are logged,
  and calls of callbacks, and \<open>references\<close> counts the references of device objects.
\<close>

record PL330DMA_CONTEXT =
  Config :: PL330DMA_CONFIG
  MCBufSz :: nat
  MCode :: "u8 list option"
  MCodeBus :: u32
  Channels :: "PL330DMA_THREAD list option"
  irqLastEvents :: u32
  dmacDevice :: "nat \<Rightarrow> u32 \<Rightarrow> u32"
  dmacTick :: nat
  dmacInten :: u32
  dmacLog :: "(u32 \<times> u32) list"
  dmacClock :: "nat \<Rightarrow> int"
  clockTick :: nat
  called :: "(nat \<times> nat) list"
  references :: "nat \<Rightarrow> int"

definition read32 :: "u32 \<Rightarrow> PL330DMA_CONTEXT \<Rightarrow> u32 \<times> PL330DMA_CONTEXT" where
  "read32 reg x = (if reg = INTEN then dmacInten x else dmacDevice x (dmacTick x) reg, x\<lparr>dmacTick := Suc (dmacTick x)\<rparr>)"

definition write32 :: "u32 \<Rightarrow> u32 \<Rightarrow> PL330DMA_CONTEXT \<Rightarrow> PL330DMA_CONTEXT" where
  "write32 reg v x = x\<lparr>dmacLog := dmacLog x @ [(reg, v)], dmacInten := (if reg = INTEN then v else dmacInten x)\<rparr>"

definition query_time :: "PL330DMA_CONTEXT \<Rightarrow> int \<times> PL330DMA_CONTEXT" where
  "query_time x = (dmacClock x (clockTick x), x\<lparr>clockTick := Suc (clockTick x)\<rparr>)"

text \<open>A thread's fields; a thread that is not there is a wild pointer, which no operation is given.\<close>

definition thread_of :: "nat \<Rightarrow> PL330DMA_CONTEXT \<Rightarrow> PL330DMA_THREAD" where
  "thread_of i x = (case Channels x of Some ts \<Rightarrow> if i < length ts then ts ! i else zero_thread | None \<Rightarrow> zero_thread)"

definition update_thread :: "nat \<Rightarrow> (PL330DMA_THREAD \<Rightarrow> PL330DMA_THREAD) \<Rightarrow> PL330DMA_CONTEXT \<Rightarrow> PL330DMA_CONTEXT" where
  "update_thread i f x = x\<lparr>Channels := map_option (\<lambda>ts. if i < length ts then ts[i := f (ts ! i)] else ts) (Channels x)\<rparr>"

text \<open>The bit of an event, \<open>1 << ev\<close>.\<close>

definition event_bit :: "nat \<Rightarrow> u32" where
  "event_bit e = push_bit e 1"

section \<open>Configuration\<close>

text \<open>The bit fields keep the low bits of what is assigned to them.\<close>

definition ReadDmacConfiguration :: "PL330DMA_CONTEXT \<Rightarrow> PL330DMA_CONTEXT" where
  "ReadDmacConfiguration x =
     (let (crd, x) = read32 CRD x;
          (cr0, x) = read32 CR0 x;
          x = x\<lparr>Config := (Config x)\<lparr>DataBusWidth := unat (8 * push_bit (unat (drop_bit CRD_DATA_WIDTH_SHIFT crd AND CRD_DATA_WIDTH_MASK)) (1 :: u32)) mod 2 ^ 10\<rparr>\<rparr>;
          x = x\<lparr>Config := (Config x)\<lparr>DataBufDepth := unat ((drop_bit CRD_DATA_BUFF_SHIFT crd AND CRD_DATA_BUFF_MASK) + 1) mod 2 ^ 11\<rparr>\<rparr>;
          x = x\<lparr>Config := (Config x)\<lparr>NumChan := unat ((drop_bit CR0_NUM_CHANS_SHIFT crd AND CR0_NUM_CHANS_MASK) + 1) mod 2 ^ 4\<rparr>\<rparr>;
          x = (if cr0 AND CR0_PERIPH_REQ_SET \<noteq> 0
               then (let x = x\<lparr>Config := (Config x)\<lparr>NumPeripherals := unat ((drop_bit CR0_NUM_PERIPH_SHIFT cr0 AND CR0_NUM_PERIPH_MASK) + 1) mod 2 ^ 6\<rparr>\<rparr>;
                         (v, x) = read32 CR4 x
                     in x\<lparr>Config := (Config x)\<lparr>PeripheralNS := v\<rparr>\<rparr>)
               else x\<lparr>Config := (Config x)\<lparr>NumPeripherals := 0\<rparr>\<rparr>);
          x = (if cr0 AND CR0_BOOT_MAN_NS \<noteq> 0 then x\<lparr>Config := (Config x)\<lparr>Mode := Mode (Config x) OR DMAC_MODE_NS\<rparr>\<rparr>
               else x\<lparr>Config := (Config x)\<lparr>Mode := Mode (Config x) AND NOT DMAC_MODE_NS\<rparr>\<rparr>);
          x = x\<lparr>Config := (Config x)\<lparr>NumEvents := unat ((drop_bit CR0_NUM_EVENTS_SHIFT cr0 AND CR0_NUM_EVENTS_MASK) + 1) mod 2 ^ 6\<rparr>\<rparr>;
          (v, x) = read32 CR3 x
      in x\<lparr>Config := (Config x)\<lparr>IrqNS := v\<rparr>\<rparr>)"

section \<open>Threads\<close>

definition IsManager :: "nat \<Rightarrow> PL330DMA_CONTEXT \<Rightarrow> bool" where
  "IsManager i x \<longleftrightarrow> i = NumChan (Config x)"

definition state_code :: "bool \<Rightarrow> u32 \<Rightarrow> u32" where
  "state_code manager val =
     (if val = DS_ST_STOP then PL330_STATE_STOPPED
      else if val = DS_ST_EXEC then PL330_STATE_EXECUTING
      else if val = DS_ST_CMISS then PL330_STATE_CACHEMISS
      else if val = DS_ST_UPDTPC then PL330_STATE_UPDTPC
      else if val = DS_ST_WFE then PL330_STATE_WFE
      else if val = DS_ST_FAULT then PL330_STATE_FAULTING
      else if manager then PL330_STATE_INVALID
      else if val = DS_ST_ATBRR then PL330_STATE_ATBARRIER
      else if val = DS_ST_QBUSY then PL330_STATE_QUEUEBUSY
      else if val = DS_ST_WFP then PL330_STATE_WFP
      else if val = DS_ST_KILL then PL330_STATE_KILLING
      else if val = DS_ST_CMPLT then PL330_STATE_COMPLETING
      else if val = DS_ST_FLTCMP then PL330_STATE_FAULT_COMPLETING
      else PL330_STATE_INVALID)"

definition dma_state :: "nat \<Rightarrow> PL330DMA_CONTEXT \<Rightarrow> u32 \<times> PL330DMA_CONTEXT" where
  "dma_state i x =
     (let (val, x) = (if IsManager i x then read32 DS x else read32 (CS (unat (Id (thread_of i x)))) x)
      in (state_code (IsManager i x) (val AND 0xf), x))"

text \<open>\<open>UNTIL\<close>: read the state until it is one of a set. \<open>None\<close>: it never is.\<close>

partial_function (option) until_state :: "nat \<Rightarrow> u32 \<Rightarrow> PL330DMA_CONTEXT \<Rightarrow> PL330DMA_CONTEXT option" where
  "until_state i s x = (case dma_state i x of (v, x) \<Rightarrow> if v AND s \<noteq> 0 then Some x else until_state i s x)"

text \<open>\<open>UntilDmacIdle\<close>: until the controller takes instructions, for 5 ms of system time.\<close>

partial_function (option) wait_idle :: "int \<Rightarrow> PL330DMA_CONTEXT \<Rightarrow> (NTSTATUS \<times> PL330DMA_CONTEXT) option" where
  "wait_idle start x =
     (case read32 DBGSTATUS x of (v, x) \<Rightarrow>
        if v AND DBG_BUSY = 0 then Some (STATUS_SUCCESS, x)
        else (case query_time x of (now, x) \<Rightarrow>
          if (now - start) div 10 > 5 * 1000 then Some (STATUS_IO_TIMEOUT, x) else wait_idle start x))"

definition UntilDmacIdle :: "PL330DMA_CONTEXT \<Rightarrow> (NTSTATUS \<times> PL330DMA_CONTEXT) option" where
  "UntilDmacIdle x = (case query_time x of (start, x) \<Rightarrow> wait_idle start x)"

definition execute_DBGINSN :: "nat \<Rightarrow> u8 list \<Rightarrow> bool \<Rightarrow> PL330DMA_CONTEXT \<Rightarrow> PL330DMA_CONTEXT option" where
  "execute_DBGINSN i insn AsManager x =
     Option.bind (UntilDmacIdle x) (\<lambda>(status, x).
       if \<not> NT_SUCCESS status then Some x
       else (let val = push_bit 16 (ucast (insn ! 0)) OR push_bit 24 (ucast (insn ! 1));
                 val = (if AsManager then val else (val OR push_bit 0 1) OR push_bit 8 (ucast (Id (thread_of i x))));
                 x = write32 DBGINST0 val x;
                 val = ucast (insn ! 2) OR push_bit 8 (ucast (insn ! 3)) OR push_bit 16 (ucast (insn ! 4)) OR push_bit 24 (ucast (insn ! 5));
                 x = write32 DBGINST1 val x
             in Some (write32 DBGCMD 0 x)))"

text \<open>An emitter at the start of a zeroed buffer of six bytes.\<close>

definition insn_buffer :: "u8 list \<Rightarrow> u8 list" where
  "insn_buffer code = code @ replicate (6 - length code) 0"

definition dma_stop :: "nat \<Rightarrow> PL330DMA_CONTEXT \<Rightarrow> PL330DMA_CONTEXT option" where
  "dma_stop i x =
     (let (inten, x) = read32 INTEN x;
          (s, x) = dma_state i x
      in Option.bind (if s = PL330_STATE_FAULT_COMPLETING then until_state i (PL330_STATE_FAULTING OR PL330_STATE_KILLING) x else Some x) (\<lambda>x.
           let (s1, x) = dma_state i x
           in if s1 = PL330_STATE_COMPLETING then Some x
              else let (s2, x) = dma_state i x
                   in if s2 = PL330_STATE_KILLING then Some x
                      else let (s3, x) = dma_state i x
                           in if s3 = PL330_STATE_STOPPED then Some x
                              else Option.bind (execute_DBGINSN i (insn_buffer emit_KILL) (IsManager i x) x) (\<lambda>x.
                                let b = event_bit (ev (thread_of i x));
                                    x = (if inten AND b \<noteq> 0 then write32 INTCLR b x else x);
                                    x = write32 INTEN (inten AND NOT b) x
                                in Some (update_thread i (\<lambda>t. t\<lparr>ReqRunning := False\<rparr>) x))))"

definition dma_trigger :: "nat \<Rightarrow> PL330DMA_CONTEXT \<Rightarrow> (bool \<times> PL330DMA_CONTEXT) option" where
  "dma_trigger i x =
     (let (s, x) = dma_state i x
      in if s \<noteq> PL330_STATE_STOPPED then Some (True, x)
         else if ReqRunning (thread_of i x) then Some (True, x)
         else let t = thread_of i x;
                  insn = insn_buffer (emit_GO (Id t) (MCbus t) 1);
                  (inten, x) = read32 INTEN x;
                  x = write32 INTEN (inten OR event_bit (ev t)) x
              in Option.bind (execute_DBGINSN i insn True x) (\<lambda>x.
                   Some (True, update_thread i (\<lambda>t. t\<lparr>ReqRunning := True\<rparr>) x)))"

text \<open>The cases of \<open>_start\<close> fall through from top to bottom.\<close>

definition start_stopped :: "nat \<Rightarrow> PL330DMA_CONTEXT \<Rightarrow> (bool \<times> PL330DMA_CONTEXT) option" where
  "start_stopped i x = Option.bind (until_state i PL330_STATE_STOPPED x) (dma_trigger i)"

definition start_faulting :: "nat \<Rightarrow> PL330DMA_CONTEXT \<Rightarrow> (bool \<times> PL330DMA_CONTEXT) option" where
  "start_faulting i x = Option.bind (dma_stop i x) (start_stopped i)"

definition start_fault_completing :: "nat \<Rightarrow> PL330DMA_CONTEXT \<Rightarrow> (bool \<times> PL330DMA_CONTEXT) option" where
  "start_fault_completing i x =
     Option.bind (until_state i (PL330_STATE_FAULTING OR PL330_STATE_KILLING) x) (\<lambda>x.
       let (s, x) = dma_state i x
       in Option.bind (if s = PL330_STATE_KILLING then until_state i PL330_STATE_STOPPED x else Some x) (start_faulting i))"

definition dma_start :: "nat \<Rightarrow> PL330DMA_CONTEXT \<Rightarrow> (bool \<times> PL330DMA_CONTEXT) option" where
  "dma_start i x =
     (let (s, x) = dma_state i x
      in if s = PL330_STATE_FAULT_COMPLETING then start_fault_completing i x
         else if s = PL330_STATE_FAULTING then start_faulting i x
         else if s = PL330_STATE_KILLING \<or> s = PL330_STATE_COMPLETING then start_stopped i x
         else if s = PL330_STATE_STOPPED then dma_trigger i x
         else if s \<in> {PL330_STATE_WFP, PL330_STATE_QUEUEBUSY, PL330_STATE_ATBARRIER, PL330_STATE_UPDTPC, PL330_STATE_CACHEMISS,
                       PL330_STATE_EXECUTING} then Some (True, x)
         else Some (False, x))"

end
