(* ===== verification/Pl330Threads.thy ===== *)
theory Pl330Threads imports Pl330Device begin

text \<open>
  The operations of the PL330 driver for its clients (threads.c, dmacontroller.c, insn.c, pl330.c): the threads and
  their microcode buffers, giving out and taking back channels, starting audio transfers, notification callbacks, and
  the interrupt.
\<close>

unbundle bit_operations_syntax

section \<open>Resources\<close>

definition ResetThread :: "nat \<Rightarrow> PL330DMA_CONTEXT \<Rightarrow> PL330DMA_CONTEXT" where
  "ResetThread i x = update_thread i (\<lambda>t.
     let off = unat (Id t) * MCBufSz x
     in t\<lparr>MCcpu := off, MCbus := MCodeBus x + of_nat off, Xfer := None,
          registeredCallbacks := map (\<lambda>c. c\<lparr>InUse := False\<rparr>) (registeredCallbacks t), ReqRunning := False\<rparr>) x"

text \<open>The loop over the channels, from channel \<open>i\<close> on.\<close>

definition init_thread :: "nat \<Rightarrow> PL330DMA_CONTEXT \<Rightarrow> PL330DMA_CONTEXT" where
  "init_thread i x =
     (let x = update_thread i (\<lambda>t. t\<lparr>Id := of_nat i, ev := i\<rparr>) x;
          x = ResetThread i x
      in update_thread i (\<lambda>t. t\<lparr>Free := True\<rparr>) x)"

text \<open>\<open>alloc\<close> says whether the pool and the contiguous memory have room.\<close>

definition AllocThreads :: "bool \<Rightarrow> PL330DMA_CONTEXT \<Rightarrow> NTSTATUS \<times> PL330DMA_CONTEXT" where
  "AllocThreads alloc x =
     (let chans = NumChan (Config x)
      in if \<not> alloc then (STATUS_NO_MEMORY, x\<lparr>Channels := None\<rparr>)
         else let x = x\<lparr>Channels := Some (replicate (1 + chans) zero_thread)\<rparr>;
                  x = fold init_thread [0..<chans] x
              in (STATUS_SUCCESS, update_thread chans (\<lambda>t. t\<lparr>Id := of_nat chans, Free := False\<rparr>) x))"

definition AllocResources :: "bool \<Rightarrow> (u32 \<times> u8 list) option \<Rightarrow> PL330DMA_CONTEXT \<Rightarrow> NTSTATUS \<times> PL330DMA_CONTEXT" where
  "AllocResources alloc memory x =
     (let x = x\<lparr>MCBufSz := MCODE_BUFF_PER_REQ * 2\<rparr>
      in case memory of
           None \<Rightarrow> (STATUS_NO_MEMORY, x\<lparr>MCode := None\<rparr>)
         | Some (bus, bytes) \<Rightarrow> AllocThreads alloc (x\<lparr>MCodeBus := bus, MCode := Some (take (NumChan (Config x) * MCBufSz x) bytes)\<rparr>))"

fun stop_first :: "nat \<Rightarrow> PL330DMA_CONTEXT \<Rightarrow> PL330DMA_CONTEXT option" where
  "stop_first 0 x = Some x"
| "stop_first (Suc n) x = Option.bind (dma_stop 0 x) (stop_first n)"

text \<open>
  The first result says which memory is freed, that of the threads and that of the microcode. The pointers to
  it are left as they are: the structures of the model then stand for memory that is gone, and a second call
  would free both again.
\<close>

definition FreeResources :: "PL330DMA_CONTEXT \<Rightarrow> ((bool \<times> bool) \<times> PL330DMA_CONTEXT) option" where
  "FreeResources x =
     Option.bind (case Channels x of None \<Rightarrow> Some x | Some _ \<Rightarrow> stop_first (NumChan (Config x)) x)
       (\<lambda>y. Some ((Channels x \<noteq> None, MCode y \<noteq> None), y))"

section \<open>Channels\<close>

text \<open>The first free channel from \<open>i\<close> on that the client accepts; \<open>- 1\<close> accepts any.\<close>

function find_free :: "nat \<Rightarrow> int \<Rightarrow> PL330DMA_CONTEXT \<Rightarrow> nat option" where
  "find_free i Idx x =
     (if i < NumChan (Config x)
      then (if \<not> Free (thread_of i x) then find_free (Suc i) Idx x
            else if int i = Idx \<or> Idx = -1 then Some i
            else find_free (Suc i) Idx x)
      else None)"
  by pat_completeness auto
termination by (relation "measure (\<lambda>(i, Idx, x). NumChan (Config x) - i)") auto

declare find_free.simps [simp del]

definition GetHandle :: "int \<Rightarrow> PL330DMA_CONTEXT \<Rightarrow> nat option \<times> PL330DMA_CONTEXT" where
  "GetHandle Idx x =
     (case find_free 0 Idx x of None \<Rightarrow> (None, x) | Some i \<Rightarrow> (Some i, update_thread i (\<lambda>t. t\<lparr>Free := False\<rparr>) x))"

definition StopThread :: "nat option \<Rightarrow> PL330DMA_CONTEXT \<Rightarrow> PL330DMA_CONTEXT option" where
  "StopThread Thread x = (case Thread of None \<Rightarrow> Some x | Some i \<Rightarrow> dma_stop i x)"

text \<open>The registers of a thread, those asked for.\<close>

definition GetThreadRegisters :: "nat option \<Rightarrow> bool \<Rightarrow> bool \<Rightarrow> bool \<Rightarrow> PL330DMA_CONTEXT \<Rightarrow> (u32 option \<times> u32 option \<times> u32 option) \<times> PL330DMA_CONTEXT" where
  "GetThreadRegisters Thread cpc sa da x =
     (case Thread of None \<Rightarrow> ((None, None, None), x)
      | Some i \<Rightarrow>
          let n = unat (Id (thread_of i x));
              (c, x) = (if cpc then (case read32 (CPC n) x of (v, x) \<Rightarrow> (Some v, x)) else (None, x));
              (s, x) = (if sa then (case read32 (SA n) x of (v, x) \<Rightarrow> (Some v, x)) else (None, x));
              (d, x) = (if da then (case read32 (DA n) x of (v, x) \<Rightarrow> (Some v, x)) else (None, x))
          in ((c, s, d), x))"

definition FreeHandle :: "nat option \<Rightarrow> PL330DMA_CONTEXT \<Rightarrow> bool \<times> PL330DMA_CONTEXT" where
  "FreeHandle Thread x =
     (case Thread of None \<Rightarrow> (False, x)
      | Some i \<Rightarrow> if ReqRunning (thread_of i x) then (False, x) else (True, update_thread i (\<lambda>t. t\<lparr>Free := True\<rparr>) x))"

section \<open>Audio transfers\<close>

text \<open>Bytes stored in the microcode memory; outside of it the driver would destroy other memory.\<close>

definition store_code :: "nat \<Rightarrow> u8 list \<Rightarrow> u8 list \<Rightarrow> u8 list option" where
  "store_code off code mem =
     (if off + length code \<le> length mem then Some (take off mem @ code @ drop (off + length code) mem) else None)"

definition SubmitAudioDMA :: "nat \<Rightarrow> bool \<Rightarrow> u32 \<Rightarrow> u32 \<Rightarrow> u32 \<Rightarrow> u32 \<Rightarrow> PL330DMA_CONTEXT \<Rightarrow> (NTSTATUS \<times> PL330DMA_CONTEXT) option" where
  "SubmitAudioDMA i fromDevice src dst len periodLen x =
     (if periodLen = 0 then None
      else let t = thread_of i x;
               code = audio_program fromDevice (Id t) src dst len periodLen
           in Option.bind (MCode x) (\<lambda>mem. Option.bind (store_code (MCcpu t) code mem) (\<lambda>mem.
                let x = x\<lparr>MCode := Some mem\<rparr>;
                    x = update_thread i (\<lambda>t. t\<lparr>Xfer := Some (audio_xfer fromDevice (Id t) src dst len periodLen)\<rparr>) x
                in Option.bind (dma_start i x) (\<lambda>(started, x). Some (if started then STATUS_SUCCESS else STATUS_UNSUCCESSFUL, x)))))"

section \<open>Notification callbacks\<close>

text \<open>The slots of a thread from \<open>j\<close> on: a slot to fill, or to clear.\<close>

function free_slot :: "nat \<Rightarrow> PL330DMA_THREAD \<Rightarrow> nat option" where
  "free_slot j t =
     (if j < MAX_NOTIF_EVENTS
      then (if InUse (registeredCallbacks t ! j) then free_slot (Suc j) t else Some j)
      else None)"
  by pat_completeness auto
termination by (relation "measure (\<lambda>(j, t). MAX_NOTIF_EVENTS - j)") auto

declare free_slot.simps [simp del]

definition RegisterNotificationCallback :: "nat option \<Rightarrow> nat \<Rightarrow> nat \<Rightarrow> nat \<Rightarrow> PL330DMA_CONTEXT \<Rightarrow> NTSTATUS \<times> PL330DMA_CONTEXT" where
  "RegisterNotificationCallback Thread fdo callback cbContext x =
     (case Thread of None \<Rightarrow> (STATUS_INVALID_PARAMETER, x)
      | Some i \<Rightarrow>
          case free_slot 0 (thread_of i x) of
            None \<Rightarrow> (STATUS_INSUFFICIENT_RESOURCES, x)
          | Some j \<Rightarrow>
              let x = update_thread i (\<lambda>t. t\<lparr>registeredCallbacks := (registeredCallbacks t)
                        [j := \<lparr>InUse = True, Fdo = Some fdo, NotificationCallback = callback, CallbackContext = cbContext\<rparr>]\<rparr>) x
              in (STATUS_SUCCESS, x\<lparr>references := (references x)(fdo := references x fdo + 1)\<rparr>))"

function slot_to_clear :: "nat \<Rightarrow> nat \<Rightarrow> nat \<Rightarrow> PL330DMA_THREAD \<Rightarrow> nat option" where
  "slot_to_clear j callback cbContext t =
     (if j < MAX_NOTIF_EVENTS
      then (let c = registeredCallbacks t ! j
            in if InUse c \<and> NotificationCallback c \<noteq> callback \<and> CallbackContext c \<noteq> cbContext
               then slot_to_clear (Suc j) callback cbContext t
               else Some j)
      else None)"
  by pat_completeness auto
termination by (relation "measure (\<lambda>(j, callback, cbContext, t). MAX_NOTIF_EVENTS - j)") auto

declare slot_to_clear.simps [simp del]

text \<open>\<open>None\<close>: the reference count of a null device object is decremented.\<close>

definition UnregisterNotificationCallback :: "nat option \<Rightarrow> nat \<Rightarrow> nat \<Rightarrow> PL330DMA_CONTEXT \<Rightarrow> (NTSTATUS \<times> PL330DMA_CONTEXT) option" where
  "UnregisterNotificationCallback Thread callback cbContext x =
     (case Thread of None \<Rightarrow> Some (STATUS_INVALID_PARAMETER, x)
      | Some i \<Rightarrow>
          case slot_to_clear 0 callback cbContext (thread_of i x) of
            None \<Rightarrow> Some (STATUS_INVALID_PARAMETER, x)
          | Some j \<Rightarrow>
              case Fdo (registeredCallbacks (thread_of i x) ! j) of
                None \<Rightarrow> None
              | Some fdo \<Rightarrow>
                  let x = x\<lparr>references := (references x)(fdo := references x fdo - 1)\<rparr>
                  in Some (STATUS_SUCCESS, update_thread i (\<lambda>t. t\<lparr>registeredCallbacks := (registeredCallbacks t)[j := zero_callback]\<rparr>) x))"

section \<open>The interrupt\<close>

text \<open>The loop over the events from \<open>e\<close> on: clears those whose interrupt is enabled, and says whether there was one.\<close>

function irq_events :: "nat \<Rightarrow> u32 \<Rightarrow> bool \<Rightarrow> PL330DMA_CONTEXT \<Rightarrow> bool \<times> PL330DMA_CONTEXT" where
  "irq_events e val queueDPC x =
     (if e < NumEvents (Config x)
      then (if val AND event_bit e \<noteq> 0
            then (let (intEn, x') = read32 INTEN x
                  in if intEn AND event_bit e \<noteq> 0 then irq_events (Suc e) val True (write32 INTCLR (event_bit e) x')
                     else irq_events (Suc e) val queueDPC x')
            else irq_events (Suc e) val queueDPC x)
      else (queueDPC, x))"
  by pat_completeness auto
termination
  by (relation "measure (\<lambda>(e, val, q, x). NumEvents (Config x) - e)") (auto simp: read32_def write32_def)

declare irq_events.simps [simp del]

text \<open>The interrupt is always claimed; the other result is whether the deferred procedure is queued.\<close>

definition pl330_dma_irq :: "PL330DMA_CONTEXT \<Rightarrow> bool \<times> bool \<times> PL330DMA_CONTEXT" where
  "pl330_dma_irq x =
     (let (_, x) = read32 FSM x;
          (_, x) = read32 FSC x;
          (val, x) = read32 ES x;
          x = x\<lparr>irqLastEvents := val\<rparr>;
          (queueDPC, x) = irq_events 0 val False x
      in (True, queueDPC, x))"

text \<open>
  The callbacks of an event's thread, in the order of their slots; they do not change the driver's state. The
  threads are indexed up to the number of events: \<open>None\<close> is a thread beyond the end.
\<close>

definition event_callbacks :: "PL330DMA_THREAD \<Rightarrow> (nat \<times> nat) list" where
  "event_callbacks t = map (\<lambda>c. (NotificationCallback c, CallbackContext c)) (filter InUse (registeredCallbacks t))"

fun dpc_events :: "nat list \<Rightarrow> u32 \<Rightarrow> PL330DMA_CONTEXT \<Rightarrow> PL330DMA_CONTEXT option" where
  "dpc_events [] val x = Some x"
| "dpc_events (e # es) val x =
     (if val AND event_bit e \<noteq> 0
      then (case Channels x of None \<Rightarrow> None
            | Some ts \<Rightarrow> if e < length ts then dpc_events es val (x\<lparr>called := called x @ event_callbacks (ts ! e)\<rparr>) else None)
      else dpc_events es val x)"

definition pl330_dma_dpc :: "PL330DMA_CONTEXT \<Rightarrow> PL330DMA_CONTEXT option" where
  "pl330_dma_dpc x = dpc_events [0..<NumEvents (Config x)] (irqLastEvents x) x"

section \<open>The device\<close>

text \<open>
  \<open>mmio\<close> is the mapping of the first memory resource, if there is one and it can be mapped.
\<close>

definition OnPrepareHardware :: "bool \<Rightarrow> bool \<Rightarrow> (u32 \<times> u8 list) option \<Rightarrow> PL330DMA_CONTEXT \<Rightarrow> NTSTATUS \<times> PL330DMA_CONTEXT" where
  "OnPrepareHardware mmio alloc memory x =
     (if \<not> mmio then (STATUS_NOT_FOUND, x) else AllocResources alloc memory (ReadDmacConfiguration x))"

definition OnReleaseHardware :: "PL330DMA_CONTEXT \<Rightarrow> ((NTSTATUS \<times> bool \<times> bool) \<times> PL330DMA_CONTEXT) option" where
  "OnReleaseHardware x = map_option (\<lambda>(freed, y). ((STATUS_SUCCESS, freed), y)) (FreeResources x)"

end
