(* ===== verification/Pl330Machine.thy ===== *)
theory Pl330Machine imports Pl330Insn begin

text \<open>
  The PL330's side of the microcode, after ARM's technical reference manual: the decoding of instructions
  and a channel thread that executes them. It is the specification the generated programs are judged by.
\<close>

section \<open>Instructions\<close>

datatype insn = DMAADDH pl330_dst u16 | DMAEND | DMAFLUSHP u8 | DMAGO bool u8 u32 | DMALD pl330_cond | DMALDP bool u8
  | DMALP bool u8 | DMALPEND pl330_cond bool bool u8 | DMAKILL | DMAMOV dmamov_dst u32 | DMARMB | DMASEV u8
  | DMAST pl330_cond | DMASTP bool u8 | DMAWFP pl330_cond u8 | DMAWMB

text \<open>The fields of an instruction.\<close>

definition field_number :: "u8 \<Rightarrow> u8" where "field_number b = drop_bit 3 b"

definition word_of_bytes :: "u8 \<Rightarrow> u8 \<Rightarrow> u8 \<Rightarrow> u8 \<Rightarrow> u32" where
  "word_of_bytes a b c d = ucast a OR push_bit 8 (ucast b) OR push_bit 16 (ucast c) OR push_bit 24 (ucast d)"

text \<open>Loop end: forever or not, the loop counter, the condition; operand bytes after the opcode.\<close>

definition decode :: "u8 list \<Rightarrow> (insn \<times> nat) option" where
  "decode code =
     (case code of [] \<Rightarrow> None | op # args \<Rightarrow>
        if op = 0x00 then Some (DMAEND, 1)
        else if op = 0x01 then Some (DMAKILL, 1)
        else if op = 0x12 then Some (DMARMB, 1)
        else if op = 0x13 then Some (DMAWMB, 1)
        else if op = 0x04 then Some (DMALD ALWAYS, 1)
        else if op = 0x05 then Some (DMALD SINGLE, 1)
        else if op = 0x07 then Some (DMALD BURST, 1)
        else if op = 0x08 then Some (DMAST ALWAYS, 1)
        else if op = 0x09 then Some (DMAST SINGLE, 1)
        else if op = 0x0b then Some (DMAST BURST, 1)
        else (case args of [] \<Rightarrow> None | a # args2 \<Rightarrow>
          if op = 0x35 then Some (DMAFLUSHP (field_number a), 2)
          else if op = 0x25 then Some (DMALDP False (field_number a), 2)
          else if op = 0x27 then Some (DMALDP True (field_number a), 2)
          else if op = 0x29 then Some (DMASTP False (field_number a), 2)
          else if op = 0x2b then Some (DMASTP True (field_number a), 2)
          else if op = 0x30 then Some (DMAWFP SINGLE (field_number a), 2)
          else if op = 0x31 then Some (DMAWFP ALWAYS (field_number a), 2)
          else if op = 0x32 then Some (DMAWFP BURST (field_number a), 2)
          else if op = 0x34 then Some (DMASEV (field_number a), 2)
          else if op = 0x20 then Some (DMALP False a, 2)
          else if op = 0x22 then Some (DMALP True a, 2)
          else if op = 0x28 then Some (DMALPEND ALWAYS True False a, 2)
          else if op = 0x2c then Some (DMALPEND ALWAYS True True a, 2)
          else if op = 0x38 then Some (DMALPEND ALWAYS False False a, 2)
          else if op = 0x39 then Some (DMALPEND SINGLE False False a, 2)
          else if op = 0x3b then Some (DMALPEND BURST False False a, 2)
          else if op = 0x3c then Some (DMALPEND ALWAYS False True a, 2)
          else if op = 0x3d then Some (DMALPEND SINGLE False True a, 2)
          else if op = 0x3f then Some (DMALPEND BURST False True a, 2)
          else if op = 0x54 \<or> op = 0x56 then
            (case args2 of b # _ \<Rightarrow> Some (DMAADDH (if op = 0x54 then SRC else DST) (ucast a OR push_bit 8 (ucast b)), 3) | _ \<Rightarrow> None)
          else (case args2 of b # c # d # e # _ \<Rightarrow>
              if op = 0xbc then
                (if a = 0 then Some (DMAMOV SAR (word_of_bytes b c d e), 6)
                 else if a = 1 then Some (DMAMOV CCR (word_of_bytes b c d e), 6)
                 else if a = 2 then Some (DMAMOV DAR (word_of_bytes b c d e), 6)
                 else None)
              else if op = 0xa0 then Some (DMAGO False (a AND 7) (word_of_bytes b c d e), 6)
              else if op = 0xa2 then Some (DMAGO True (a AND 7) (word_of_bytes b c d e), 6)
              else None
            | _ \<Rightarrow> None)))"

section \<open>A channel thread\<close>

text \<open>
  What a thread does to the outside: data loaded from an address, data stored to one, an event signalled.
  The addresses are those in the source and destination registers; \<open>Some p\<close> says that peripheral \<open>p\<close> is
  told of the transfer.
\<close>

datatype dma_action = Load "u8 option" u32 nat | Store "u8 option" u32 nat | Signal u8

text \<open>
  \<open>fifo_bytes\<close> is the number of bytes loaded and not stored yet; \<open>request\<close> is the type of the last request of
  the peripheral a \<open>DMAWFP\<close> waited for, on which conditional instructions depend. The program counter, an
  offset in the program, stands beside these registers.
\<close>

record channel_regs =
  sar :: u32
  dar :: u32
  ccr :: u32
  counter0 :: u8
  counter1 :: u8
  fifo_bytes :: nat
  request :: pl330_cond
  actions :: "dma_action list"

type_synonym dma_thread = "nat \<times> channel_regs"

definition src_bytes :: "u32 \<Rightarrow> nat" where
  "src_bytes c = (unat (drop_bit 4 c AND 0xf) + 1) * 2 ^ unat (drop_bit 1 c AND 7)"

definition dst_bytes :: "u32 \<Rightarrow> nat" where
  "dst_bytes c = (unat (drop_bit 18 c AND 0xf) + 1) * 2 ^ unat (drop_bit 15 c AND 7)"

definition condition_holds :: "pl330_cond \<Rightarrow> pl330_cond \<Rightarrow> bool" where
  "condition_holds c r \<longleftrightarrow> c = ALWAYS \<or> c = r"

definition load_data :: "u8 option \<Rightarrow> channel_regs \<Rightarrow> channel_regs" where
  "load_data p t =
     (let n = src_bytes (ccr t)
      in t\<lparr>fifo_bytes := fifo_bytes t + n, sar := (if bit (ccr t) 0 then sar t + of_nat n else sar t),
           actions := actions t @ [Load p (sar t) n]\<rparr>)"

definition store_data :: "u8 option \<Rightarrow> channel_regs \<Rightarrow> channel_regs option" where
  "store_data p t =
     (let n = dst_bytes (ccr t)
      in if fifo_bytes t < n then None
         else Some (t\<lparr>fifo_bytes := fifo_bytes t - n, dar := (if bit (ccr t) 14 then dar t + of_nat n else dar t),
           actions := actions t @ [Store p (dar t) n]\<rparr>))"

text \<open>The end of a loop at \<open>p\<close>: jump back, or go on.\<close>

definition jump_back :: "nat \<Rightarrow> u8 \<Rightarrow> channel_regs \<Rightarrow> dma_thread option" where
  "jump_back p j t = (if p < unat j then None else Some (p - unat j, t))"

text \<open>
  One instruction of size \<open>n\<close> at \<open>p\<close>. \<open>None\<close>: the thread stops, faults or waits for data that never comes. A
  \<open>DMAWFP\<close> for bursts returns when the peripheral asks for a burst.
\<close>

fun execute :: "insn \<Rightarrow> nat \<Rightarrow> dma_thread \<Rightarrow> dma_thread option" where
  "execute (DMAMOV SAR v) n (p, t) = Some (p + n, t\<lparr>sar := v\<rparr>)"
| "execute (DMAMOV DAR v) n (p, t) = Some (p + n, t\<lparr>dar := v\<rparr>)"
| "execute (DMAMOV CCR v) n (p, t) = Some (p + n, t\<lparr>ccr := v\<rparr>)"
| "execute (DMAADDH SRC v) n (p, t) = Some (p + n, t\<lparr>sar := sar t + ucast v\<rparr>)"
| "execute (DMAADDH DST v) n (p, t) = Some (p + n, t\<lparr>dar := dar t + ucast v\<rparr>)"
| "execute (DMAFLUSHP peri) n (p, t) = Some (p + n, t)"
| "execute DMARMB n (p, t) = Some (p + n, t)"
| "execute DMAWMB n (p, t) = Some (p + n, t)"
| "execute (DMAWFP c peri) n (p, t) = Some (p + n, t\<lparr>request := c\<rparr>)"
| "execute (DMALD c) n (p, t) = Some (p + n, if condition_holds c (request t) then load_data None t else t)"
| "execute (DMALDP burst peri) n (p, t) =
     Some (p + n, if request t = (if burst then BURST else SINGLE) then load_data (Some peri) t else t)"
| "execute (DMAST c) n (p, t) =
     map_option (Pair (p + n)) (if condition_holds c (request t) then store_data None t else Some t)"
| "execute (DMASTP burst peri) n (p, t) =
     map_option (Pair (p + n)) (if request t = (if burst then BURST else SINGLE) then store_data (Some peri) t else Some t)"
| "execute (DMASEV e) n (p, t) = Some (p + n, t\<lparr>actions := actions t @ [Signal e]\<rparr>)"
| "execute (DMALP False v) n (p, t) = Some (p + n, t\<lparr>counter0 := v\<rparr>)"
| "execute (DMALP True v) n (p, t) = Some (p + n, t\<lparr>counter1 := v\<rparr>)"
| "execute (DMALPEND c True loop j) n (p, t) = jump_back p j t"
| "execute (DMALPEND c False False j) n (p, t) =
     (if \<not> condition_holds c (request t) \<or> counter0 t = 0 then Some (p + n, t)
      else jump_back p j (t\<lparr>counter0 := counter0 t - 1\<rparr>))"
| "execute (DMALPEND c False True j) n (p, t) =
     (if \<not> condition_holds c (request t) \<or> counter1 t = 0 then Some (p + n, t)
      else jump_back p j (t\<lparr>counter1 := counter1 t - 1\<rparr>))"
| "execute DMAEND n t = None"
| "execute DMAKILL n t = None"
| "execute (DMAGO ns c a) n t = None"

definition step :: "u8 list \<Rightarrow> dma_thread \<Rightarrow> dma_thread option" where
  "step code t = (case decode (drop (fst t) code) of None \<Rightarrow> None | Some (i, n) \<Rightarrow> execute i n t)"

fun run :: "u8 list \<Rightarrow> nat \<Rightarrow> dma_thread \<Rightarrow> dma_thread option" where
  "run code 0 t = Some t"
| "run code (Suc n) t = Option.bind (step code t) (run code n)"

section \<open>Decoding what the emitters wrote\<close>

text \<open>The emitter of an instruction, and the operands the encoding can hold.\<close>

fun emit_insn :: "insn \<Rightarrow> u8 list" where
  "emit_insn (DMAADDH d v) = emit_ADDH d v"
| "emit_insn DMAEND = emit_END"
| "emit_insn (DMAFLUSHP p) = emit_FLUSHP p"
| "emit_insn (DMAGO ns c a) = emit_GO c a (if ns then 1 else 0)"
| "emit_insn (DMALD c) = emit_LD c"
| "emit_insn (DMALDP b p) = emit_LDP (if b then BURST else SINGLE) p"
| "emit_insn (DMALP l n) = emit_LP l (n + 1)"
| "emit_insn (DMALPEND c f l j) = emit_LPEND c f l j"
| "emit_insn DMAKILL = emit_KILL"
| "emit_insn (DMAMOV d v) = emit_MOV d v"
| "emit_insn DMARMB = emit_RMB"
| "emit_insn (DMASEV e) = emit_SEV e"
| "emit_insn (DMAST c) = emit_ST c"
| "emit_insn (DMASTP b p) = emit_STP (if b then BURST else SINGLE) p"
| "emit_insn (DMAWFP c p) = emit_WFP c p"
| "emit_insn DMAWMB = emit_WMB"

fun encodable :: "insn \<Rightarrow> bool" where
  "encodable (DMAFLUSHP p) \<longleftrightarrow> p < 32"
| "encodable (DMAGO ns c a) \<longleftrightarrow> c < 8"
| "encodable (DMALDP b p) \<longleftrightarrow> p < 32"
| "encodable (DMALPEND c f l j) \<longleftrightarrow> (f \<longrightarrow> c = ALWAYS)"
| "encodable (DMASEV e) \<longleftrightarrow> e < 32"
| "encodable (DMASTP b p) \<longleftrightarrow> p < 32"
| "encodable (DMAWFP c p) \<longleftrightarrow> p < 32"
| "encodable _ \<longleftrightarrow> True"

end
