(* ===== verification/Pl330Decode.thy ===== *)
theory Pl330Decode imports Pl330Machine begin

text \<open>
  The controller reads back what the emitters write, and the rules by which a piece of microcode is
  executed: pieces in sequence, and loops.
\<close>

unbundle bit_operations_syntax

section \<open>Operands\<close>

lemma take_bit_below: "unat w < 2 ^ k \<Longrightarrow> take_bit k w = (w :: 'a::len word)"
  by (simp add: word_unat_eq_iff unat_take_bit_small)

lemma number_field_read: "n < 32 \<Longrightarrow> field_number (number_field n) = n"
proof -
  assume "n < 32"
  have m: "(0x1f :: u8) = mask 5" by (simp add: mask_eq_exp_minus_1)
  have "field_number (number_field n) = take_bit 5 n"
    unfolding field_number_def number_field_def m take_bit_eq_mask [symmetric]
    by (rule bit_word_eqI) (auto simp: bit_simps)
  with \<open>n < 32\<close> show ?thesis by (simp add: take_bit_below word_less_nat_alt)
qed

lemma operand_bytes_read:
  "word_of_bytes (ucast (v AND 0xff)) (ucast (drop_bit 8 v AND 0xff)) (ucast (drop_bit 16 v AND 0xff)) (ucast (drop_bit 24 v AND 0xff)) = v"
proof -
  have ff: "(0xff :: u32) = mask 8" by (simp add: mask_eq_exp_minus_1)
  show ?thesis
    unfolding word_of_bytes_def ff take_bit_eq_mask [symmetric]
  proof (rule bit_word_eqI)
    fix n :: nat
    assume "n < LENGTH(32)"
    then consider "n < 8" | "8 \<le> n" "n < 16" | "16 \<le> n" "n < 24" | "24 \<le> n" "n < 32" by force
    then show "bit (ucast (ucast (take_bit 8 v) :: u8) OR push_bit 8 (ucast (ucast (take_bit 8 (drop_bit 8 v)) :: u8))
        OR push_bit 16 (ucast (ucast (take_bit 8 (drop_bit 16 v)) :: u8)) OR push_bit 24 (ucast (ucast (take_bit 8 (drop_bit 24 v)) :: u8)) :: u32) n = bit v n"
      by cases (simp_all add: bit_simps less_diff_conv2)
  qed
qed

lemma address_bytes_read:
  "ucast (ucast (v :: u16) :: u8) OR push_bit 8 (ucast (ucast (drop_bit 8 v) :: u8)) = v"
  by (rule bit_word_eqI) (auto simp: bit_simps)

lemma channel_read: "c < 8 \<Longrightarrow> c AND 7 = (c :: u8)"
proof -
  assume "c < 8"
  then have "take_bit 3 c = c" by (simp add: take_bit_below word_less_nat_alt)
  moreover have "(7 :: u8) = mask 3" by (simp add: mask_eq_exp_minus_1)
  ultimately show ?thesis by (simp add: take_bit_eq_mask)
qed

lemmas emit_defs = emit_ADDH_def emit_END_def emit_FLUSHP_def emit_GO_def emit_LD_def emit_LDP_def emit_LP_def emit_LPEND_def
  emit_KILL_def emit_MOV_def emit_RMB_def emit_SEV_def emit_ST_def emit_STP_def emit_WFP_def emit_WMB_def operand_bytes_def cmd_defs


named_theorems decoded

lemma decode_ADDH [decoded]: "decode (emit_ADDH d v @ r) = Some (DMAADDH d v, 3)"
  by (cases d) (simp_all add: decode_def emit_defs address_bytes_read)
lemma decode_LD [decoded]: "decode (emit_LD c @ r) = Some (DMALD c, 1)"
  by (cases c) (simp_all add: decode_def emit_defs)
lemma decode_LDP [decoded]: "p < 32 \<Longrightarrow> decode (emit_LDP (if b then BURST else SINGLE) p @ r) = Some (DMALDP b p, 2)"
  by (cases b) (simp_all add: decode_def emit_defs number_field_read)
lemma decode_MOV [decoded]: "decode (emit_MOV d v @ r) = Some (DMAMOV d v, 6)"
  by (cases d) (simp_all add: decode_def emit_defs operand_bytes_read)
lemma decode_END [decoded]: "decode (emit_END @ r) = Some (DMAEND, 1)"
  by (simp add: decode_def emit_defs)
lemma decode_KILL [decoded]: "decode (emit_KILL @ r) = Some (DMAKILL, 1)"
  by (simp add: decode_def emit_defs)
lemma decode_RMB [decoded]: "decode (emit_RMB @ r) = Some (DMARMB, 1)"
  by (simp add: decode_def emit_defs)
lemma decode_WMB [decoded]: "decode (emit_WMB @ r) = Some (DMAWMB, 1)"
  by (simp add: decode_def emit_defs)
lemma decode_FLUSHP [decoded]: "p < 32 \<Longrightarrow> decode (emit_FLUSHP p @ r) = Some (DMAFLUSHP p, 2)"
  by (simp add: decode_def emit_defs number_field_read)
lemma decode_SEV [decoded]: "e < 32 \<Longrightarrow> decode (emit_SEV e @ r) = Some (DMASEV e, 2)"
  by (simp add: decode_def emit_defs number_field_read)
lemma decode_ST [decoded]: "decode (emit_ST c @ r) = Some (DMAST c, 1)"
  by (cases c) (simp_all add: decode_def emit_defs)
lemma decode_STP [decoded]: "p < 32 \<Longrightarrow> decode (emit_STP (if b then BURST else SINGLE) p @ r) = Some (DMASTP b p, 2)"
  by (cases b) (simp_all add: decode_def emit_defs number_field_read)
lemma decode_WFP [decoded]: "p < 32 \<Longrightarrow> decode (emit_WFP c p @ r) = Some (DMAWFP c p, 2)"
  by (cases c) (simp_all add: decode_def emit_defs number_field_read)
lemma decode_LP [decoded]: "decode (emit_LP l n @ r) = Some (DMALP l (n - 1), 2)"
  by (cases l) (simp_all add: decode_def emit_defs)
lemma decode_LPEND [decoded]: "f \<longrightarrow> c = ALWAYS \<Longrightarrow> decode (emit_LPEND c f l j @ r) = Some (DMALPEND c f l j, 2)"
  by (cases f; cases l; cases c) (simp_all add: decode_def emit_defs)
lemma decode_GO [decoded]: "c < 8 \<Longrightarrow> decode (emit_GO c a (if ns then 1 else 0) @ r) = Some (DMAGO ns c a, 6)"
  by (cases ns) (simp_all add: decode_def emit_defs operand_bytes_read channel_read)

text \<open>The emitters write what the controller decodes to the instruction meant.\<close>

lemma decode_emitted: "encodable i \<Longrightarrow> decode (emit_insn i @ r) = Some (i, length (emit_insn i))"
  by (cases i) (auto simp: decoded, simp_all add: emit_defs split: dmamov_dst.split)

section \<open>Pieces of microcode\<close>

definition placed :: "u8 list \<Rightarrow> nat \<Rightarrow> u8 list \<Rightarrow> bool" where
  "placed code p piece \<longleftrightarrow> take (length piece) (drop p code) = piece"

definition reaches :: "u8 list \<Rightarrow> dma_thread \<Rightarrow> dma_thread \<Rightarrow> bool" where
  "reaches code t u \<longleftrightarrow> (\<exists>n. run code n t = Some u)"

text \<open>
  Wherever the piece stands, a thread with \<open>P\<close> at its start gets to its end, with the registers \<open>f\<close> gives and
  with \<open>Q\<close>.
\<close>

definition performs :: "(channel_regs \<Rightarrow> bool) \<Rightarrow> u8 list \<Rightarrow> (channel_regs \<Rightarrow> channel_regs) \<Rightarrow> (channel_regs \<Rightarrow> bool) \<Rightarrow> bool" where
  "performs P piece f Q \<longleftrightarrow>
     (\<forall>code p t. placed code p piece \<longrightarrow> P t \<longrightarrow> reaches code (p, t) (p + length piece, f t) \<and> Q (f t))"

lemma placed_append: "placed code p (a @ b) \<longleftrightarrow> placed code p a \<and> placed code (p + length a) b"
proof -
  have "take (length (a @ b)) (drop p code) = take (length a) (drop p code) @ take (length b) (drop (p + length a) code)"
    by (simp add: take_add add.commute)
  moreover have "length (take (length a) (drop p code)) = length a" if "take (length a) (drop p code) = a" using that by simp
  moreover have "length (take (length a) (drop p code)) = length a"
    if "take (length a) (drop p code) @ take (length b) (drop (p + length a) code) = a @ b"
    using arg_cong [OF that, of length] by simp
  ultimately show ?thesis
    unfolding placed_def by (metis append_eq_append_conv)
qed

lemma placed_drop: "placed code p a \<Longrightarrow> drop p code = a @ drop (p + length a) code"
  unfolding placed_def by (metis add.commute append_take_drop_id drop_drop)

lemma reaches_refl: "reaches code t t"
  unfolding reaches_def by (rule exI [of _ 0]) simp

lemma run_add: "run code (m + n) t = Option.bind (run code m t) (run code n)"
proof (induction m arbitrary: t)
  case (Suc m)
  then show ?case by (cases "step code t") simp_all
qed simp

lemma reaches_trans: "reaches code t u \<Longrightarrow> reaches code u v \<Longrightarrow> reaches code t v"
  unfolding reaches_def by (metis run_add bind.bind_lunit)

lemma reaches_step: "step code t = Some u \<Longrightarrow> reaches code t u"
  unfolding reaches_def by (rule exI [of _ 1]) simp

lemma step_placed: "placed code p (emit_insn i) \<Longrightarrow> encodable i \<Longrightarrow> step code (p, t) = execute i (length (emit_insn i)) (p, t)"
  by (simp add: step_def placed_drop decode_emitted)

lemma performsD:
  "performs P a f Q \<Longrightarrow> placed code p a \<Longrightarrow> P t \<Longrightarrow> reaches code (p, t) (p + length a, f t)"
  "performs P a f Q \<Longrightarrow> placed code p a \<Longrightarrow> P t \<Longrightarrow> Q (f t)"
  unfolding performs_def by blast+

lemma performs_step:
  assumes "encodable i"
    and "\<And>p t. P t \<Longrightarrow> execute i (length (emit_insn i)) (p, t) = Some (p + length (emit_insn i), f t) \<and> Q (f t)"
  shows "performs P (emit_insn i) f Q"
  unfolding performs_def using assms by (auto simp: step_placed intro!: reaches_step)

lemma performs_nil: "performs P [] id P"
  unfolding performs_def by (simp add: reaches_refl)

lemma performs_append:
  assumes "performs P a f Q" "performs Q b g R"
  shows "performs P (a @ b) (g \<circ> f) R"
  unfolding performs_def
proof (intro allI impI)
  fix code p t
  assume "placed code p (a @ b)" "P t"
  then have a: "placed code p a" and b: "placed code (p + length a) b" by (auto simp: placed_append)
  have "Q (f t)" using performsD(2) [OF assms(1) a \<open>P t\<close>] .
  from reaches_trans [OF performsD(1) [OF assms(1) a \<open>P t\<close>] performsD(1) [OF assms(2) b this]] performsD(2) [OF assms(2) b this]
  show "reaches code (p, t) (p + length (a @ b), (g \<circ> f) t) \<and> R ((g \<circ> f) t)" by (simp add: add.assoc)
qed

lemma performs_effect: "performs P a f Q \<Longrightarrow> (\<And>t. P t \<Longrightarrow> f t = g t) \<Longrightarrow> performs P a g Q"
  unfolding performs_def by metis

lemma performs_replicate: "performs P a f P \<Longrightarrow> performs P (concat (replicate n a)) (f ^^ n) P"
proof (induction n)
  case 0
  show ?case using performs_nil by (simp add: id_def)
next
  case (Suc n)
  have "performs P (a @ concat (replicate n a)) (f ^^ n \<circ> f) P"
    by (rule performs_append [OF Suc.prems Suc.IH [OF Suc.prems]])
  then show ?case by (simp add: funpow_Suc_right o_def del: funpow.simps)
qed

section \<open>Loops\<close>

definition set_counter :: "bool \<Rightarrow> u8 \<Rightarrow> channel_regs \<Rightarrow> channel_regs" where
  "set_counter loop v t = (if loop then t\<lparr>counter1 := v\<rparr> else t\<lparr>counter0 := v\<rparr>)"

text \<open>A body that leaves the loop's counter alone, and does not look at it.\<close>

definition ignores_counter :: "bool \<Rightarrow> (channel_regs \<Rightarrow> channel_regs) \<Rightarrow> bool" where
  "ignores_counter loop f \<longleftrightarrow> (\<forall>t v. f (set_counter loop v t) = set_counter loop v (f t))"

lemma set_counter_twice [simp]: "set_counter l v (set_counter l w t) = set_counter l v t"
  by (simp add: set_counter_def)

lemma size_LP: "length (emit_LP l v) = 2" and size_LPEND: "length (emit_LPEND c f l j) = 2"
  by (simp_all add: emit_LP_def emit_LPEND_def)

lemma execute_loop_end:
  "execute (DMALPEND ALWAYS False l j) n (p, set_counter l v t) =
     (if v = 0 then Some (p + n, set_counter l 0 t) else jump_back p j (set_counter l (v - 1) t))"
  by (cases l) (simp_all add: set_counter_def condition_holds_def)

lemma execute_loop_start: "execute (DMALP l v) n (p, t) = Some (p + n, set_counter l v t)"
  by (cases l) (simp_all add: set_counter_def)

lemma loop_reaches:
  assumes body: "performs P body f P" "length body < 256" "ignores_counter l f" "\<And>t v. P t \<Longrightarrow> P (set_counter l v t)"
    and at: "placed code q (body @ emit_LPEND ALWAYS False l (of_nat (length body)))"
  shows "P t \<Longrightarrow> reaches code (q, set_counter l v t) (q + length body + 2, set_counter l 0 ((f ^^ Suc (unat v)) t))
     \<and> P ((f ^^ Suc (unat v)) t)"
proof -
  have at_body: "placed code q body" and at_end: "placed code (q + length body) (emit_insn (DMALPEND ALWAYS False l (of_nat (length body))))"
    using at by (simp_all add: placed_append)
  have pass: "reaches code (q, set_counter l v t) (q + length body, set_counter l v (f t)) \<and> P (f t)" if "P t" for v t
  proof -
    have "f (set_counter l v t) = set_counter l v (f t)" "P (set_counter l v t)"
      using body(3,4) that by (simp_all add: ignores_counter_def)
    then show ?thesis
      using performsD(1) [OF body(1) at_body, of "set_counter l v t"] performsD(2) [OF body(1) at_body that] by simp
  qed
  have end_of_loop: "reaches code (q + length body, set_counter l v t)
      (if v = 0 then (q + length body + 2, set_counter l 0 t) else (q, set_counter l (v - 1) t))" for v t
    using step_placed [OF at_end] body(2)
    by (intro reaches_step) (simp add: execute_loop_end size_LPEND jump_back_def unat_of_nat)
  show "P t \<Longrightarrow> reaches code (q, set_counter l v t) (q + length body + 2, set_counter l 0 ((f ^^ Suc (unat v)) t))
     \<and> P ((f ^^ Suc (unat v)) t)"
  proof (induction "unat v" arbitrary: v t)
    case 0
    then have v: "v = 0" by (metis unat_eq_zero)
    from pass [OF \<open>P t\<close>] end_of_loop [of v "f t"] show ?case
      by (auto simp: v intro: reaches_trans)
  next
    case (Suc k)
    have nz: "v \<noteq> 0" using Suc.hyps(2) by auto
    with Suc.hyps(2) have v: "unat (v - 1) = k" by (simp add: unat_minus_one [OF nz])
    have once: "reaches code (q, set_counter l v t) (q, set_counter l (v - 1) (f t))"
      using pass [OF \<open>P t\<close>] end_of_loop [of v "f t"] nz by (auto intro: reaches_trans)
    have "P (f t)" using pass [OF \<open>P t\<close>] by simp
    note more = Suc.hyps(1) [OF v [symmetric] this]
    have "(f ^^ Suc (unat v)) t = (f ^^ Suc (unat (v - 1))) (f t)"
      unfolding v Suc.hyps(2) [symmetric] by (simp only: funpow_Suc_right o_apply)
    with reaches_trans [OF once conjunct1 [OF more]] conjunct2 [OF more] show ?case by (simp only:)
  qed
qed

lemma performs_loop:
  assumes body: "performs P body f P" "length body < 256" "ignores_counter l f" "\<And>t v. P t \<Longrightarrow> P (set_counter l v t)"
  shows "performs P (loop_code l cnt body) (\<lambda>t. set_counter l 0 ((f ^^ Suc (unat (cnt - 1))) t)) P"
  unfolding performs_def
proof (intro allI impI)
  fix code p t
  assume at: "placed code p (loop_code l cnt body)" and "P t"
  then have start: "placed code p (emit_insn (DMALP l (cnt - 1)))"
    and rest: "placed code (p + 2) (body @ emit_LPEND ALWAYS False l (of_nat (length body)))"
    by (simp_all add: loop_code_def placed_append size_LP)
  have "reaches code (p, t) (p + 2, set_counter l (cnt - 1) t)"
    using step_placed [OF start] by (intro reaches_step) (simp add: execute_loop_start size_LP)
  from reaches_trans [OF this conjunct1 [OF loop_reaches [OF body rest \<open>P t\<close>]]] loop_reaches [OF body rest \<open>P t\<close>, of "cnt - 1"]
  show "reaches code (p, t) (p + length (loop_code l cnt body), set_counter l 0 ((f ^^ Suc (unat (cnt - 1))) t))
     \<and> P (set_counter l 0 ((f ^^ Suc (unat (cnt - 1))) t))"
    using body(4) by (simp add: loop_code_def size_LP size_LPEND add.assoc)
qed

end
