(* ===== verification/Pl330Audio.thy ===== *)
theory Pl330Audio imports Pl330Decode begin

text \<open>
  What the microcode of a cyclic audio transfer does when the controller runs it. The specification lists the
  accesses and events of one pass through the audio buffer; the lemmas show that the generated program makes
  just these, pass after pass.
\<close>

unbundle bit_operations_syntax

section \<open>The specification\<close>

text \<open>An address that moves with the transfer, or a port that does not.\<close>

definition advance :: "bool \<Rightarrow> u32 \<Rightarrow> nat \<Rightarrow> u32" where
  "advance moves a n = (if moves then a + of_nat n else a)"

text \<open>The actions \<open>A\<close> at the addresses of source and destination, \<open>k\<close> times, \<open>n\<close> bytes further each time.\<close>

definition repeated :: "bool \<Rightarrow> nat \<Rightarrow> (u32 \<Rightarrow> u32 \<Rightarrow> dma_action list) \<Rightarrow> nat \<Rightarrow> u32 \<Rightarrow> u32 \<Rightarrow> dma_action list" where
  "repeated fromDevice n A k s d =
     concat (map (\<lambda>j. A (advance (\<not> fromDevice) s (j * n)) (advance fromDevice d (j * n))) [0..<k])"

definition burst_actions :: "bool \<Rightarrow> u8 \<Rightarrow> nat \<Rightarrow> u32 \<Rightarrow> u32 \<Rightarrow> dma_action list" where
  "burst_actions fromDevice peri n s d =
     [Load (if fromDevice then Some peri else None) s n, Store (if fromDevice then None else Some peri) d n]"

text \<open>
  A period of \<open>len\<close> bytes: bursts of eight words, the words left over in one burst, the event. The count of
  a loop is one byte that stands for 256 when it is 0, so a period without a single burst makes 256 of them.
\<close>

definition period_bursts :: "nat \<Rightarrow> nat" where
  "period_bursts len = (if len < 32 then 256 else len div 32)"

definition period_words :: "nat \<Rightarrow> nat" where
  "period_words len = len div 4 mod 8"

definition period_step :: "nat \<Rightarrow> nat" where
  "period_step len = 32 * period_bursts len + 4 * period_words len"

definition period_actions :: "bool \<Rightarrow> u8 \<Rightarrow> nat \<Rightarrow> u32 \<Rightarrow> u32 \<Rightarrow> dma_action list" where
  "period_actions fromDevice peri len s d =
     repeated fromDevice 32 (burst_actions fromDevice peri 32) (period_bursts len) s d
     @ (if period_words len = 0 then []
        else burst_actions fromDevice peri (4 * period_words len)
               (advance (\<not> fromDevice) s (32 * period_bursts len)) (advance fromDevice d (32 * period_bursts len)))
     @ [Signal peri]"

definition cycle_actions :: "bool \<Rightarrow> u8 \<Rightarrow> nat \<Rightarrow> nat \<Rightarrow> u32 \<Rightarrow> u32 \<Rightarrow> dma_action list" where
  "cycle_actions fromDevice peri len = repeated fromDevice (period_step len) (period_actions fromDevice peri len)"

lemma advance_add: "advance f (advance f a m) n = advance f a (m + n)"
  by (simp add: advance_def)

lemma advance_0 [simp]: "advance f a 0 = a"
  by (simp add: advance_def)

lemma repeated_0 [simp]: "repeated f n A 0 s d = []"
  by (simp add: repeated_def)

lemma repeated_Suc:
  "repeated f n A (Suc k) s d = repeated f n A k s d @ A (advance (\<not> f) s (k * n)) (advance f d (k * n))"
  by (simp add: repeated_def)

lemma repeated_add:
  "repeated f n A (a + b) s d = repeated f n A a s d @ repeated f n A b (advance (\<not> f) s (a * n)) (advance f d (a * n))"
proof (induction b)
  case (Suc b)
  then show ?case by (simp add: repeated_Suc advance_add add_mult_distrib)
qed simp

lemma repeated_repeated: "repeated f (m * n) (repeated f n A m) k = repeated f n A (k * m)"
proof (induction k)
  case (Suc k)
  show ?case
  proof (intro ext)
    fix s d
    have "repeated f (m * n) (repeated f n A m) (Suc k) s d = repeated f n A (k * m + m) s d"
      unfolding repeated_Suc [of f "m * n"] repeated_add Suc by (simp add: mult.assoc)
    then show "repeated f (m * n) (repeated f n A m) (Suc k) s d = repeated f n A (Suc k * m) s d"
      by (simp add: add.commute)
  qed
qed (simp add: fun_eq_iff)

section \<open>Pieces that transfer\<close>

text \<open>A piece of the program transfers \<open>n\<close> bytes with the actions \<open>A\<close>, of the addresses at its start.\<close>

definition emits :: "bool \<Rightarrow> nat \<Rightarrow> (u32 \<Rightarrow> u32 \<Rightarrow> dma_action list) \<Rightarrow> (channel_regs \<Rightarrow> channel_regs) \<Rightarrow> bool" where
  "emits fromDevice n A f \<longleftrightarrow>
     (\<forall>t. sar (f t) = advance (\<not> fromDevice) (sar t) n \<and> dar (f t) = advance fromDevice (dar t) n
        \<and> actions (f t) = actions t @ A (sar t) (dar t))"

definition transfers :: "bool \<Rightarrow> u32 \<Rightarrow> u8 list \<Rightarrow> u32 \<Rightarrow> bool set \<Rightarrow> nat \<Rightarrow> (u32 \<Rightarrow> u32 \<Rightarrow> dma_action list) \<Rightarrow> bool" where
  "transfers fromDevice c piece c' L n A \<longleftrightarrow>
     (\<exists>f. performs (\<lambda>t. ccr t = c) piece f (\<lambda>t. ccr t = c') \<and> emits fromDevice n A f \<and> (\<forall>l\<in>L. ignores_counter l f))"

lemma ccr_set_counter [simp]: "ccr (set_counter l v t) = ccr t"
  by (simp add: set_counter_def)

lemma emits_compose:
  "emits fd n A f \<Longrightarrow> emits fd m B g \<Longrightarrow>
   emits fd (n + m) (\<lambda>s d. A s d @ B (advance (\<not> fd) s n) (advance fd d n)) (g \<circ> f)"
  by (simp add: emits_def advance_add)

lemma emits_funpow: "emits fd n A f \<Longrightarrow> emits fd (k * n) (repeated fd n A k) (f ^^ k)"
proof (induction k)
  case (Suc k)
  from emits_compose [OF Suc.IH [OF Suc.prems] Suc.prems]
  show ?case
    unfolding emits_def by (simp add: repeated_Suc add.commute)
qed (simp add: emits_def)

lemma ignores_compose: "ignores_counter l f \<Longrightarrow> ignores_counter l g \<Longrightarrow> ignores_counter l (g \<circ> f)"
  by (simp add: ignores_counter_def)

lemma ignores_funpow: "ignores_counter l f \<Longrightarrow> ignores_counter l (f ^^ k)"
  by (induction k) (auto simp: ignores_counter_def)

lemma ignores_set: "m \<noteq> l \<Longrightarrow> ignores_counter m (set_counter l v)"
  by (cases m; cases l) (simp_all add: ignores_counter_def set_counter_def)

lemma transfers_nil: "transfers fd c [] c L 0 (\<lambda>s d. [])"
  unfolding transfers_def
  by (rule exI [of _ id]) (simp add: performs_nil emits_def ignores_counter_def)

lemma transfers_append:
  assumes "transfers fd c a c1 L n A" "transfers fd c1 b c2 L m B"
  shows "transfers fd c (a @ b) c2 L (n + m) (\<lambda>s d. A s d @ B (advance (\<not> fd) s n) (advance fd d n))"
proof -
  obtain f g where "performs (\<lambda>t. ccr t = c) a f (\<lambda>t. ccr t = c1)" "emits fd n A f" "\<forall>l\<in>L. ignores_counter l f"
    "performs (\<lambda>t. ccr t = c1) b g (\<lambda>t. ccr t = c2)" "emits fd m B g" "\<forall>l\<in>L. ignores_counter l g"
    using assms unfolding transfers_def by blast
  then show ?thesis
    unfolding transfers_def by (intro exI [of _ "g \<circ> f"]) (auto intro: performs_append emits_compose ignores_compose)
qed

lemma transfers_replicate:
  assumes "transfers fd c a c L n A"
  shows "transfers fd c (concat (replicate k a)) c L (k * n) (repeated fd n A k)"
proof -
  obtain f where "performs (\<lambda>t. ccr t = c) a f (\<lambda>t. ccr t = c)" "emits fd n A f" "\<forall>l\<in>L. ignores_counter l f"
    using assms unfolding transfers_def by blast
  then show ?thesis
    unfolding transfers_def by (intro exI [of _ "f ^^ k"]) (auto intro: performs_replicate emits_funpow ignores_funpow)
qed

text \<open>How often a loop with a count goes round.\<close>

definition rounds :: "u8 \<Rightarrow> nat" where
  "rounds cnt = Suc (unat (cnt - 1))"

lemma rounds_of_nat: "b \<le> 256 \<Longrightarrow> rounds (of_nat b) = (if b = 0 then 256 else b)"
proof (cases "b = 0 \<or> b = 256")
  case False
  assume "b \<le> 256"
  with False have "unat (of_nat b :: u8) = b" by (simp add: unat_of_nat)
  moreover from this False have "(of_nat b :: u8) \<noteq> 0" by (metis unat_0)
  ultimately show ?thesis using False by (simp add: rounds_def unat_minus_one)
qed (auto simp: rounds_def unsigned_minus_1_eq_mask mask_eq_exp_minus_1)

lemma transfers_loop:
  assumes "transfers fd c body c L n A" "length body < 256" "l \<in> L"
  shows "transfers fd c (loop_code l cnt body) c (L - {l}) (rounds cnt * n) (repeated fd n A (rounds cnt))"
proof -
  obtain f where f: "performs (\<lambda>t. ccr t = c) body f (\<lambda>t. ccr t = c)" "emits fd n A f" "\<forall>l\<in>L. ignores_counter l f"
    using assms(1) unfolding transfers_def by blast
  define g where "g = set_counter l 0 \<circ> f ^^ rounds cnt"
  have "performs (\<lambda>t. ccr t = c) (loop_code l cnt body) g (\<lambda>t. ccr t = c)"
    unfolding g_def rounds_def using performs_loop [OF f(1) assms(2)] f(3) assms(3) by (simp add: o_def)
  moreover have "emits fd (rounds cnt * n) (repeated fd n A (rounds cnt)) g"
    using emits_funpow [OF f(2), of "rounds cnt"] by (simp add: emits_def g_def set_counter_def)
  moreover have "ignores_counter m g" if "m \<in> L - {l}" for m
    unfolding g_def using that f(3) by (intro ignores_compose ignores_funpow ignores_set) auto
  ultimately show ?thesis unfolding transfers_def by blast
qed

section \<open>The generated code\<close>

text \<open>A control register that transfers \<open>n\<close> bytes a burst, with the address of the memory side moving.\<close>

definition tuned :: "bool \<Rightarrow> nat \<Rightarrow> u32 \<Rightarrow> bool" where
  "tuned fromDevice n c \<longleftrightarrow> bit c 0 = (\<not> fromDevice) \<and> bit c 14 = fromDevice \<and> src_bytes c = n \<and> dst_bytes c = n"

lemma transfers_step:
  assumes "encodable i"
    and "\<And>p t. ccr t = c \<Longrightarrow> execute i (length (emit_insn i)) (p, t) = Some (p + length (emit_insn i), f t)"
    and "\<And>t. ccr t = c \<Longrightarrow> ccr (f t) = c'" "emits fd 0 A f" "\<forall>l\<in>L. ignores_counter l f"
  shows "transfers fd c (emit_insn i) c' L 0 A"
  unfolding transfers_def
  by (rule exI [of _ f]) (use assms in \<open>auto intro!: performs_step\<close>)

lemma transfers_event: "e < 32 \<Longrightarrow> transfers fd c (emit_SEV e) c L 0 (\<lambda>s d. [Signal e])"
  using transfers_step [of "DMASEV e" c "\<lambda>t. t\<lparr>actions := actions t @ [Signal e]\<rparr>"]
  by (simp add: emits_def ignores_counter_def set_counter_def)

lemma transfers_control: "transfers fd c (emit_MOV CCR c') c' L 0 (\<lambda>s d. [])"
  using transfers_step [of "DMAMOV CCR c'" c "\<lambda>t. t\<lparr>ccr := c'\<rparr>"]
  by (simp add: emits_def ignores_counter_def set_counter_def)

lemma transfers_flush: "p < 32 \<Longrightarrow> transfers fd c (emit_FLUSHP p) c L 0 (\<lambda>s d. [])"
  using transfers_step [of "DMAFLUSHP p" c id]
  by (simp add: emits_def ignores_counter_def)

definition burst_effect :: "bool \<Rightarrow> u8 \<Rightarrow> nat \<Rightarrow> channel_regs \<Rightarrow> channel_regs" where
  "burst_effect fromDevice peri n t =
     t\<lparr>request := BURST, sar := advance (\<not> fromDevice) (sar t) n, dar := advance fromDevice (dar t) n,
       actions := actions t @ burst_actions fromDevice peri n (sar t) (dar t)\<rparr>"

lemma performs_burst:
  assumes "tuned fd n c" "peri < 32" "involvesDevice pxs" "toDevice pxs = (\<not> fd)" "Peripheral pxs = peri"
  shows "performs (\<lambda>t. ccr t = c) (emit_WFP BURST peri @ emit_load BURST pxs @ emit_store BURST pxs) (burst_effect fd peri n) (\<lambda>t. ccr t = c)"
proof -
  have "performs (\<lambda>t. ccr t = c) (emit_insn (DMAWFP BURST peri)) (request_update (\<lambda>_. BURST)) (\<lambda>t. ccr t = c \<and> request t = BURST)"
    using assms(2) by (intro performs_step) simp_all
  moreover have "performs (\<lambda>t. ccr t = c \<and> request t = BURST) (emit_load BURST pxs) (load_data (if fd then Some peri else None))
      (\<lambda>t. ccr t = c \<and> request t = BURST \<and> n \<le> fifo_bytes t)"
    using performs_step [of "if fd then DMALDP True peri else DMALD BURST" "\<lambda>t. ccr t = c \<and> request t = BURST"
        "load_data (if fd then Some peri else None)" "\<lambda>t. ccr t = c \<and> request t = BURST \<and> n \<le> fifo_bytes t"] assms
    by (cases fd) (simp_all add: emit_load_def load_data_def tuned_def condition_holds_def)
  moreover have "performs (\<lambda>t. ccr t = c \<and> request t = BURST \<and> n \<le> fifo_bytes t) (emit_store BURST pxs)
      (\<lambda>t. the (store_data (if fd then None else Some peri) t)) (\<lambda>t. ccr t = c)"
    using performs_step [of "if fd then DMAST BURST else DMASTP True peri" "\<lambda>t. ccr t = c \<and> request t = BURST \<and> n \<le> fifo_bytes t"
        "\<lambda>t. the (store_data (if fd then None else Some peri) t)" "\<lambda>t. ccr t = c"] assms
    by (cases fd) (simp_all add: emit_store_def store_data_def tuned_def condition_holds_def)
  ultimately have "performs (\<lambda>t. ccr t = c) (emit_insn (DMAWFP BURST peri) @ emit_load BURST pxs @ emit_store BURST pxs)
      ((\<lambda>t. the (store_data (if fd then None else Some peri) t)) \<circ> load_data (if fd then Some peri else None) \<circ> request_update (\<lambda>_. BURST))
      (\<lambda>t. ccr t = c)"
    using performs_append by blast
  from performs_effect [OF this] assms(1) show ?thesis
    by (auto simp: burst_effect_def load_data_def store_data_def tuned_def advance_def burst_actions_def)
qed

lemma transfers_bursts:
  assumes "tuned fd n c" "peri < 32" "involvesDevice pxs" "toDevice pxs = (\<not> fd)" "Peripheral pxs = peri"
  shows "transfers fd c (ldst_peripheral pxs k BURST) c L (k * n) (repeated fd n (burst_actions fd peri n) k)"
proof -
  have "emits fd n (burst_actions fd peri n) (burst_effect fd peri n)" "\<forall>l\<in>L. ignores_counter l (burst_effect fd peri n)"
    by (simp_all add: emits_def ignores_counter_def burst_effect_def set_counter_def)
  with performs_burst [OF assms] have "transfers fd c (emit_WFP BURST peri @ emit_load BURST pxs @ emit_store BURST pxs) c L n (burst_actions fd peri n)"
    unfolding transfers_def by blast
  from transfers_append [OF transfers_flush [OF assms(2)] transfers_replicate [OF this, of k]] assms(5)
  show ?thesis by (simp add: ldst_peripheral_def)
qed

lemma size_burst: "involvesDevice pxs \<Longrightarrow> length (ldst_peripheral pxs k BURST) = 2 + 5 * k"
  by (simp add: ldst_peripheral_def emit_load_def emit_store_def emit_FLUSHP_def emit_WFP_def emit_LD_def emit_LDP_def emit_ST_def
      emit_STP_def length_concat sum_list_replicate)

lemma tuned_registers:
  "list_all (\<lambda>fd. tuned fd 32 (audio_ccr fd) \<and> list_all (\<lambda>r. tuned fd (4 * unat r) (dregs_ccr (audio_ccr fd) r)) [1, 2, 3, 4, 5, 6, 7])
     [False, True]"
  by code_simp

lemma tuned_audio: "tuned fd 32 (audio_ccr fd)"
  using tuned_registers by (cases fd) simp_all

lemma tuned_dregs: "r \<in> set [1, 2, 3, 4, 5, 6, 7] \<Longrightarrow> tuned fd (4 * unat r) (dregs_ccr (audio_ccr fd) r)"
  using tuned_registers unfolding list_all_iff by (cases fd) auto

end
