(* ===== verification/Pl330Cycle.thy ===== *)
theory Pl330Cycle imports Pl330Audio begin

text \<open>
  The generated program period by period: each period's code transfers the period, the loop over the periods
  makes one pass through the buffer, and the jump at the end starts the next one.
\<close>

unbundle bit_operations_syntax

section \<open>One period\<close>

lemma size_simps:
  "length (emit_MOV d v) = 6" "length (emit_SEV e) = 2" "length (emit_LP l n) = 2" "length (emit_LPEND c f l j) = 2"
  by (simp_all add: emit_MOV_def operand_bytes_def emit_SEV_def emit_LP_def emit_LPEND_def)

lemma audio_burst_shape: "BRST_SIZE (audio_ccr fd) = 4 \<and> BRST_LEN (audio_ccr fd) = 8"
proof -
  have "list_all (\<lambda>fd. BRST_SIZE (audio_ccr fd) = 4 \<and> BRST_LEN (audio_ccr fd) = 8) [False, True]" by code_simp
  then show ?thesis by (cases fd) simp_all
qed

lemma bursts_of_bytes: "unat (BYTE_TO_BURST b (audio_ccr fd)) = unat b div 32"
  by (simp add: BYTE_TO_BURST_def audio_burst_shape unat_div div_mult2_eq flip: div_mult2_eq)

lemma words_of_bytes: "unat (BYTE_MOD_BURST_LEN b (audio_ccr fd)) = period_words (unat b)"
  by (simp add: BYTE_MOD_BURST_LEN_def audio_burst_shape unat_div unat_mod period_words_def)

text \<open>The transfers of the program generated for device direction \<open>fd\<close> and peripheral \<open>peri\<close>.\<close>

definition audio_spec :: "bool \<Rightarrow> u8 \<Rightarrow> XFER_SPEC \<Rightarrow> bool" where
  "audio_spec fd peri pxs \<longleftrightarrow>
     involvesDevice pxs \<and> toDevice pxs = (\<not> fd) \<and> Peripheral pxs = peri \<and> peri < 32 \<and> xferCcr pxs = audio_ccr fd"

lemma transfers_round:
  assumes "audio_spec fd peri pxs" "k < 51"
  shows "transfers fd (audio_ccr fd) (loop_code True cnt (bursts_code pxs k)) (audio_ccr fd) {False}
     (rounds cnt * k * 32) (repeated fd 32 (burst_actions fd peri 32) (rounds cnt * k))"
proof -
  have "transfers fd (audio_ccr fd) (bursts_code pxs k) (audio_ccr fd) UNIV (k * 32) (repeated fd 32 (burst_actions fd peri 32) k)"
    using transfers_bursts [OF tuned_audio] assms(1) by (simp add: audio_spec_def bursts_code_def)
  from transfers_loop [OF this, of True cnt] assms
  show ?thesis by (simp add: repeated_repeated size_burst bursts_code_def audio_spec_def UNIV_bool mult.assoc insert_Diff_if)
qed

lemma repeated_none: "repeated f n A 0 = (\<lambda>s d. [])"
  by (simp add: fun_eq_iff)

lemma repeated_once: "repeated f n A (Suc 0) = A"
  by (simp add: fun_eq_iff repeated_def)

lemma rounds_ucast: "unat (b :: u32) \<le> 256 \<Longrightarrow> rounds (ucast b) = (if b = 0 then 256 else unat b)"
  using rounds_of_nat [of "unat b"] by (simp add: unat_eq_0)

lemma transfers_period_bursts:
  assumes "audio_spec fd peri pxs" "unat bursts < 51 * 256"
  defines "lcnt1 \<equiv> if bursts > 256 then 256 else (bursts :: u32)"
    and "cyc \<equiv> if bursts > 256 then unat (bursts div 256) else 1"
  shows "transfers fd (audio_ccr fd)
     (loop_code True (ucast lcnt1) (bursts_code pxs cyc)
      @ (if bursts - lcnt1 * of_nat cyc \<noteq> 0 then loop_code True (ucast (bursts - lcnt1 * of_nat cyc)) (bursts_code pxs 1) else []))
     (audio_ccr fd) {False} (32 * (if bursts = 0 then 256 else unat bursts))
     (repeated fd 32 (burst_actions fd peri 32) (if bursts = 0 then 256 else unat bursts))"
proof (cases "256 < bursts")
  case False
  then have b: "unat bursts \<le> 256" by (simp add: word_less_nat_alt not_less)
  from transfers_round [OF assms(1), of 1 "ucast bursts"] rounds_ucast [OF b] False show ?thesis
    by (simp add: lcnt1_def cyc_def mult.commute)
next
  case True
  then have b: "256 < unat bursts" by (simp add: word_less_nat_alt)
  define rest where "rest = bursts - lcnt1 * of_nat cyc"
  have cyc: "cyc = unat bursts div 256" "lcnt1 = 256" using True by (simp_all add: cyc_def lcnt1_def unat_div)
  have rest: "unat rest = unat bursts mod 256"
  proof -
    have "256 * cyc \<le> unat bursts" by (simp add: cyc)
    then have "256 * cyc < 2 ^ 32" using unsigned_less [of bursts, where ?'a = nat] by simp
    moreover have "(256 * of_nat cyc :: u32) = of_nat (256 * cyc)" by simp
    ultimately have "unat (256 * of_nat cyc :: u32) = 256 * cyc" by (simp only: unat_of_nat) simp
    moreover from this have "256 * of_nat cyc \<le> bursts" by (simp add: word_le_nat_alt cyc)
    ultimately show ?thesis by (simp add: rest_def cyc(2) unat_sub) (simp add: cyc(1) minus_mult_div_eq_mod)
  qed
  have "unat rest \<le> 256" by (simp add: rest less_imp_le)
  note r = rounds_ucast [OF this]
  have first: "transfers fd (audio_ccr fd) (loop_code True (ucast lcnt1) (bursts_code pxs cyc)) (audio_ccr fd) {False}
      (cyc * 256 * 32) (repeated fd 32 (burst_actions fd peri 32) (cyc * 256))"
    using transfers_round [OF assms(1), of cyc "ucast lcnt1"] rounds_of_nat [of 256] assms(2) by (simp add: cyc mult.commute)
  have second: "transfers fd (audio_ccr fd) (if rest \<noteq> 0 then loop_code True (ucast rest) (bursts_code pxs 1) else [])
      (audio_ccr fd) {False} (unat rest * 32) (repeated fd 32 (burst_actions fd peri 32) (unat rest))"
    using transfers_round [OF assms(1), of 1 "ucast rest"] r transfers_nil by (cases "rest = 0") (simp_all add: repeated_none)
  have total: "cyc * 256 + unat rest = unat bursts" by (simp add: cyc rest)
  then have bytes: "cyc * 256 * 32 + unat rest * 32 = 32 * unat bursts" by simp
  have nonzero: "bursts \<noteq> 0" using b by auto
  from transfers_append [OF first second] have "transfers fd (audio_ccr fd)
     (loop_code True (ucast lcnt1) (bursts_code pxs cyc) @ (if rest \<noteq> 0 then loop_code True (ucast rest) (bursts_code pxs 1) else []))
     (audio_ccr fd) {False} (32 * unat bursts) (repeated fd 32 (burst_actions fd peri 32) (unat bursts))"
    by (simp only: repeated_add [symmetric] total bytes)
  with nonzero show ?thesis unfolding rest_def by simp
qed

lemma transfers_dregs:
  assumes "audio_spec fd peri pxs" "unat r = k" "k < 8" "r \<noteq> 0"
  shows "transfers fd (audio_ccr fd) (dregs_code pxs r @ emit_MOV CCR (audio_ccr fd)) (audio_ccr fd) L
     (4 * k) (burst_actions fd peri (4 * k))"
proof -
  have "0 < k" using assms(2,4) by (metis unat_gt_0)
  then have "k \<in> {1, 2, 3, 4, 5, 6, 7}" using assms(3) by auto
  then have "r \<in> set [1, 2, 3, 4, 5, 6, 7]"
    using assms(2) by (auto simp: word_unat_eq_iff)
  from transfers_bursts [OF tuned_dregs [OF this, of fd], where k = 1 and L = L and pxs = pxs and peri = peri] assms(1)
  have bursts: "transfers fd (dregs_ccr (audio_ccr fd) r) (ldst_peripheral pxs 1 BURST) (dregs_ccr (audio_ccr fd) r) L (4 * k)
      (burst_actions fd peri (4 * k))"
    by (simp add: audio_spec_def repeated_once assms(2))
  show ?thesis
    using transfers_append [OF transfers_append [OF transfers_control bursts] transfers_control] assms(1,4)
    by (simp add: dregs_code_def audio_spec_def)
qed

lemma transfers_period:
  assumes "audio_spec fd peri pxs" "unat (periodBytes pxs) < 51 * 8192"
  shows "transfers fd (audio_ccr fd) (period_code pxs (BYTE_TO_BURST (periodBytes pxs) (audio_ccr fd)) peri) (audio_ccr fd) {False}
     (period_step (unat (periodBytes pxs))) (period_actions fd peri (unat (periodBytes pxs)))"
proof -
  define len where "len = unat (periodBytes pxs)"
  define bursts where "bursts = BYTE_TO_BURST (periodBytes pxs) (audio_ccr fd)"
  define r where "r = BYTE_MOD_BURST_LEN (periodBytes pxs) (audio_ccr fd)"
  have b: "unat bursts = len div 32" by (simp add: bursts_def bursts_of_bytes len_def)
  have r: "unat r = period_words len" by (simp add: r_def words_of_bytes len_def)
  have count: "(if bursts = 0 then 256 else unat bursts) = period_bursts len"
    using b by (auto simp: period_bursts_def unat_eq_0 [symmetric])
  have "unat bursts < 51 * 256" using assms(2) by (simp add: b len_def)
  note bursts = transfers_period_bursts [OF assms(1) this, unfolded count]
  have dregs: "transfers fd (audio_ccr fd) (if r \<noteq> 0 then dregs_code pxs r @ emit_MOV CCR (xferCcr pxs) else []) (audio_ccr fd) {False}
      (4 * period_words len) (\<lambda>s d. if period_words len = 0 then [] else burst_actions fd peri (4 * period_words len) s d)"
  proof (cases "r = 0")
    case True
    then have "period_words len = 0" using r by simp
    with True show ?thesis by (simp add: transfers_nil)
  next
    case False
    then have "period_words len \<noteq> 0" using r by (metis unat_eq_zero)
    with False transfers_dregs [OF assms(1) r _ False] assms(1) show ?thesis
      by (simp add: audio_spec_def period_words_def)
  qed
  have "peri < 32" and ccr: "xferCcr pxs = audio_ccr fd" using assms(1) by (simp_all add: audio_spec_def)
  have "period_actions fd peri len = (\<lambda>s d. repeated fd 32 (burst_actions fd peri 32) (period_bursts len) s d
      @ (if period_words len = 0 then [] else burst_actions fd peri (4 * period_words len)
           (advance (\<not> fd) s (32 * period_bursts len)) (advance fd d (32 * period_bursts len))) @ [Signal peri])"
    by (simp add: period_actions_def fun_eq_iff)
  with transfers_append [OF bursts transfers_append [OF dregs transfers_event [OF \<open>peri < 32\<close>]]] show ?thesis
    unfolding period_code_def Let_def bursts_def [symmetric] ccr r_def [symmetric] len_def [symmetric] period_step_def
    by (simp only: append_assoc add_0_right)
qed

section \<open>A pass through the buffer\<close>

lemma split_periods_bounds:
  assumes "1 \<le> p" "p \<le> n"
  shows "p \<le> split_periods n p \<and> split_periods n p \<le> n \<and> n div split_periods n p \<le> 256"
  using assms
proof (induction n p rule: split_periods.induct)
  case (1 n p)
  show ?case
  proof (cases "256 < n div p")
    case True
    then have "Suc p \<le> n" using 1(2) by (metis Suc_leI div_self le_neq_implies_less less_numeral_extra(3) not_less_iff_gr_or_eq
        nat_neq_iff one_less_numeral_iff order.strict_trans semiring_norm(76) 1(3) div_self not_one_le_zero)
    with 1(1) [OF True] True show ?thesis by (subst (1 2 3) split_periods.simps) simp
  next
    case False
    with 1(2,3) show ?thesis by (subst (1 2 3) split_periods.simps) simp
  qed
qed

text \<open>The code of one pass: all of the loop but the jump back.\<close>

definition pass_code :: "u32 \<Rightarrow> XFER_SPEC \<Rightarrow> u8 \<Rightarrow> u8 list" where
  "pass_code bursts pxs ev =
     (let periods = split_periods (numPeriods pxs) 1
      in emit_MOV SAR (srcAddr pxs) @ emit_MOV DAR (dstAddr pxs)
         @ loop_code False (of_nat (numPeriods pxs div periods)) (concat (replicate periods (period_code pxs bursts ev)))
         @ concat (replicate (numPeriods pxs mod periods) (period_code pxs bursts ev)))"

lemma loop_cyclic_pass: "loop_cyclic bursts pxs ev = pass_code bursts pxs ev @ emit_LPEND ALWAYS True True (of_nat (length (pass_code bursts pxs ev)))"
  by (simp add: loop_cyclic_def pass_code_def Let_def add.assoc)

lemma transfers_periods:
  assumes "audio_spec fd peri pxs" "unat (periodBytes pxs) < 51 * 8192" "1 \<le> numPeriods pxs"
    and "length (pass_code (BYTE_TO_BURST (periodBytes pxs) (audio_ccr fd)) pxs peri) < 256"
  defines "len \<equiv> unat (periodBytes pxs)" and "code \<equiv> period_code pxs (BYTE_TO_BURST (periodBytes pxs) (audio_ccr fd)) peri"
    and "periods \<equiv> split_periods (numPeriods pxs) 1"
  shows "transfers fd (audio_ccr fd)
     (loop_code False (of_nat (numPeriods pxs div periods)) (concat (replicate periods code)) @ concat (replicate (numPeriods pxs mod periods) code))
     (audio_ccr fd) {} (numPeriods pxs * period_step len) (cycle_actions fd peri len (numPeriods pxs))"
proof -
  note period = transfers_period [OF assms(1,2), folded code_def len_def]
  have p: "1 \<le> periods" "periods \<le> numPeriods pxs" "numPeriods pxs div periods \<le> 256"
    using split_periods_bounds [of 1 "numPeriods pxs"] assms(3) by (simp_all add: periods_def)
  have "0 < numPeriods pxs div periods" using p by (simp add: div_greater_zero_iff)
  then have r: "rounds (of_nat (numPeriods pxs div periods)) = numPeriods pxs div periods"
    using rounds_of_nat [OF p(3)] by simp
  have "length (concat (replicate periods code)) < 256"
    using assms(4) by (simp add: pass_code_def Let_def code_def periods_def loop_code_def)
  from transfers_loop [OF transfers_replicate [OF period, of periods] this, of False "of_nat (numPeriods pxs div periods)"]
  have loop: "transfers fd (audio_ccr fd) (loop_code False (of_nat (numPeriods pxs div periods)) (concat (replicate periods code))) (audio_ccr fd) {}
      (numPeriods pxs div periods * periods * period_step len)
      (repeated fd (period_step len) (period_actions fd peri len) (numPeriods pxs div periods * periods))"
    by (simp add: r repeated_repeated mult.assoc)
  have rest: "transfers fd (audio_ccr fd) (concat (replicate (numPeriods pxs mod periods) code)) (audio_ccr fd) {}
      (numPeriods pxs mod periods * period_step len) (repeated fd (period_step len) (period_actions fd peri len) (numPeriods pxs mod periods))"
    using transfers_replicate [OF period] by (auto simp: transfers_def)
  from transfers_append [OF loop rest] show ?thesis
    unfolding repeated_add [symmetric] add_mult_distrib [symmetric] div_mult_mod_eq cycle_actions_def by simp
qed

text \<open>From offset 6, after the control register is set, the program makes a pass and comes back.\<close>

lemma audio_pass:
  assumes "audio_spec fd peri pxs" "unat (periodBytes pxs) < 51 * 8192" "1 \<le> numPeriods pxs"
    and short: "length (pass_code (BYTE_TO_BURST (periodBytes pxs) (audio_ccr fd)) pxs peri) < 256"
    and t: "ccr t = audio_ccr fd"
  defines "prog \<equiv> emit_MOV CCR (audio_ccr fd) @ loop_cyclic (BYTE_TO_BURST (periodBytes pxs) (audio_ccr fd)) pxs peri"
  shows "\<exists>u. reaches prog (6, t) (6, u) \<and> ccr u = audio_ccr fd
     \<and> actions u = actions t @ cycle_actions fd peri (unat (periodBytes pxs)) (numPeriods pxs) (srcAddr pxs) (dstAddr pxs)"
proof -
  define pass where "pass = pass_code (BYTE_TO_BURST (periodBytes pxs) (audio_ccr fd)) pxs peri"
  obtain f where f: "performs (\<lambda>t. ccr t = audio_ccr fd) (drop 12 pass) f (\<lambda>t. ccr t = audio_ccr fd)"
    and e: "emits fd (numPeriods pxs * period_step (unat (periodBytes pxs))) (cycle_actions fd peri (unat (periodBytes pxs)) (numPeriods pxs)) f"
    using transfers_periods [OF assms(1-3) short] unfolding transfers_def
    by (auto simp: pass_def pass_code_def Let_def emit_MOV_def operand_bytes_def)
  have start: "pass = emit_MOV SAR (srcAddr pxs) @ emit_MOV DAR (dstAddr pxs) @ drop 12 pass"
    by (simp add: pass_def pass_code_def Let_def emit_MOV_def operand_bytes_def)
  have "performs (\<lambda>t. ccr t = audio_ccr fd) (emit_insn (DMAMOV SAR (srcAddr pxs)) @ emit_insn (DMAMOV DAR (dstAddr pxs)) @ drop 12 pass)
      (f \<circ> dar_update (\<lambda>_. dstAddr pxs) \<circ> sar_update (\<lambda>_. srcAddr pxs)) (\<lambda>t. ccr t = audio_ccr fd)"
    by (intro performs_append [where Q = "\<lambda>t. ccr t = audio_ccr fd"] performs_step f) simp_all
  then have run: "performs (\<lambda>t. ccr t = audio_ccr fd) pass
      (f \<circ> dar_update (\<lambda>_. dstAddr pxs) \<circ> sar_update (\<lambda>_. srcAddr pxs)) (\<lambda>t. ccr t = audio_ccr fd)"
    by (subst start) simp
  have "placed prog 0 (emit_MOV CCR (audio_ccr fd) @ pass @ emit_insn (DMALPEND ALWAYS True True (of_nat (length pass))))"
    by (simp add: prog_def loop_cyclic_pass pass_def placed_def)
  then have at: "placed prog 6 pass" "placed prog (6 + length pass) (emit_insn (DMALPEND ALWAYS True True (of_nat (length pass))))"
    unfolding placed_append by (simp_all add: size_simps)
  define u where "u = f (t\<lparr>sar := srcAddr pxs, dar := dstAddr pxs\<rparr>)"
  have "reaches prog (6, t) (6 + length pass, u)" "ccr u = audio_ccr fd"
    using performsD [OF run at(1), of t] t by (simp_all add: u_def)
  moreover have "reaches prog (6 + length pass, u) (6, u)"
    using step_placed [OF at(2)] short by (intro reaches_step) (simp add: jump_back_def unat_of_nat pass_def)
  moreover have "actions u = actions t @ cycle_actions fd peri (unat (periodBytes pxs)) (numPeriods pxs) (srcAddr pxs) (dstAddr pxs)"
    using e by (simp add: u_def emits_def)
  ultimately show ?thesis by (blast intro: reaches_trans)
qed

lemma audio_passes:
  assumes "audio_spec fd peri pxs" "unat (periodBytes pxs) < 51 * 8192" "1 \<le> numPeriods pxs"
    and "length (pass_code (BYTE_TO_BURST (periodBytes pxs) (audio_ccr fd)) pxs peri) < 256" "ccr t = audio_ccr fd"
  defines "prog \<equiv> emit_MOV CCR (audio_ccr fd) @ loop_cyclic (BYTE_TO_BURST (periodBytes pxs) (audio_ccr fd)) pxs peri"
    and "acts \<equiv> cycle_actions fd peri (unat (periodBytes pxs)) (numPeriods pxs) (srcAddr pxs) (dstAddr pxs)"
  shows "\<exists>u. reaches prog (6, t) (6, u) \<and> ccr u = audio_ccr fd \<and> actions u = actions t @ concat (replicate n acts)"
proof (induction n)
  case 0
  show ?case using assms(5) by (auto intro: reaches_refl)
next
  case (Suc n)
  then obtain u where u: "reaches prog (6, t) (6, u)" "ccr u = audio_ccr fd" "actions u = actions t @ concat (replicate n acts)" by blast
  from audio_pass [OF assms(1-4) u(2)] obtain v where "reaches prog (6, u) (6, v)" "ccr v = audio_ccr fd" "actions v = actions u @ acts"
    unfolding prog_def acts_def by blast
  then show ?case
    using u by (intro exI [of _ v]) (auto intro: reaches_trans simp flip: replicate_append_same)
qed

section \<open>The size of the program\<close>

lemma size_period:
  assumes "involvesDevice pxs" "unat bursts < 41 * 256"
  shows "length (period_code pxs bursts ev) < 240"
proof -
  have "(if bursts > 256 then unat (bursts div 256) else 1) \<le> 40"
    using assms(2) by (auto simp: unat_div)
  then show ?thesis
    by (auto simp: period_code_def Let_def loop_code_def size_simps bursts_code_def assms(1) size_burst dregs_code_def)
qed

lemma size_pass:
  assumes "involvesDevice pxs" "unat (periodBytes pxs) < 41 * 8192" "numPeriods pxs \<le> 256"
  shows "length (pass_code (BYTE_TO_BURST (periodBytes pxs) (audio_ccr fd)) pxs ev) < 256"
proof -
  have "split_periods (numPeriods pxs) 1 = 1" using assms(3) by (subst split_periods.simps) simp
  moreover have "unat (BYTE_TO_BURST (periodBytes pxs) (audio_ccr fd)) < 41 * 256"
    using assms(2) by (simp add: bursts_of_bytes)
  note size_period [OF assms(1) this, of ev]
  ultimately show ?thesis by (simp add: pass_code_def Let_def size_simps loop_code_def)
qed

end
