(* ===== verification/Pl330Properties.thy ===== *)
theory Pl330Properties imports Pl330Cycle begin

text \<open>
  The properties of the microcode generator: instructions are decoded as they were meant, and the program of an
  audio transfer runs through the buffer for ever, period by period. The last ones say what happens with periods
  too short for a burst.
\<close>

section \<open>The bytes of the buffer\<close>

text \<open>The memory addresses an action touches, and all addresses of a list of actions in order.\<close>

fun memory_bytes_of :: "dma_action \<Rightarrow> u32 list" where
  "memory_bytes_of (Load None a n) = map (\<lambda>i. a + of_nat i) [0..<n]"
| "memory_bytes_of (Store None a n) = map (\<lambda>i. a + of_nat i) [0..<n]"
| "memory_bytes_of _ = []"

definition memory_bytes :: "dma_action list \<Rightarrow> u32 list" where
  "memory_bytes acts = concat (map memory_bytes_of acts)"

fun is_signal :: "dma_action \<Rightarrow> bool" where
  "is_signal (Signal _) = True"
| "is_signal _ = False"

definition memory_range :: "u32 \<Rightarrow> nat \<Rightarrow> u32 list" where
  "memory_range a n = map (\<lambda>i. a + of_nat i) [0..<n]"

text \<open>The address of the memory side.\<close>

definition memory_side :: "bool \<Rightarrow> u32 \<Rightarrow> u32 \<Rightarrow> u32" where
  "memory_side fromDevice s d = (if fromDevice then d else s)"

lemma memory_bytes_Nil [simp]: "memory_bytes [] = []"
  by (simp add: memory_bytes_def)

lemma memory_bytes_append: "memory_bytes (a @ b) = memory_bytes a @ memory_bytes b"
  by (simp add: memory_bytes_def)

lemma memory_range_append: "memory_range a m @ memory_range (a + of_nat m) n = memory_range a (m + n)"
  using upt_add_eq_append [of 0 m n] by (simp add: memory_range_def map_upt_shift add.assoc)

text \<open>Actions that touch the next \<open>n\<close> bytes, repeated, touch the next \<open>k * n\<close> bytes.\<close>

lemma repeated_contiguous:
  assumes "\<And>s d. memory_bytes (A s d) = memory_range (memory_side fd s d) n"
  shows "memory_bytes (repeated fd n A k s d) = memory_range (memory_side fd s d) (k * n)"
proof (induction k)
  case (Suc k)
  have "memory_side fd (advance (\<not> fd) s (k * n)) (advance fd d (k * n)) = memory_side fd s d + of_nat (k * n)"
    by (simp add: memory_side_def advance_def)
  then show ?case
    using Suc memory_range_append [of "memory_side fd s d" "k * n" n]
    by (simp add: repeated_Suc memory_bytes_append assms add.commute)
qed (simp add: memory_bytes_def memory_range_def)

lemma burst_contiguous: "memory_bytes (burst_actions fd peri n s d) = memory_range (memory_side fd s d) n"
  by (simp add: memory_bytes_def burst_actions_def memory_range_def memory_side_def)

lemma period_contiguous: "memory_bytes (period_actions fd peri len s d) = memory_range (memory_side fd s d) (period_step len)"
proof -
  have "memory_side fd (advance (\<not> fd) s n) (advance fd d n) = memory_side fd s d + of_nat n" for n
    by (simp add: memory_side_def advance_def)
  moreover have "memory_bytes [Signal peri] = []" by (simp add: memory_bytes_def)
  ultimately show ?thesis
    using memory_range_append [of "memory_side fd s d" "32 * period_bursts len" "4 * period_words len"]
    by (simp add: period_actions_def memory_bytes_append repeated_contiguous burst_contiguous period_step_def mult.commute)
qed

lemma cycle_contiguous: "memory_bytes (cycle_actions fd peri len n s d) = memory_range (memory_side fd s d) (n * period_step len)"
  unfolding cycle_actions_def by (rule repeated_contiguous) (rule period_contiguous)

lemma period_step_exact: "32 \<le> len \<Longrightarrow> 4 dvd len \<Longrightarrow> period_step len = len"
proof -
  assume "32 \<le> len" "4 dvd len"
  moreover have "len mod 32 = 4 * (len div 4 mod 8)" if "4 dvd len"
    using that by (elim dvdE) (simp add: mult_mod_right)
  ultimately show ?thesis by (simp add: period_step_def period_bursts_def period_words_def) (metis mult_div_mod_eq)
qed

lemma burst_signals: "filter is_signal (burst_actions fd peri n s d) = []"
  by (simp add: burst_actions_def)

lemma repeated_signals:
  "(\<And>s d. filter is_signal (A s d) = S) \<Longrightarrow> filter is_signal (repeated fd n A k s d) = concat (replicate k S)"
  by (induction k) (simp_all add: repeated_Suc flip: replicate_append_same)

lemma period_signals: "filter is_signal (period_actions fd peri len s d) = [Signal peri]"
  by (simp add: period_actions_def burst_signals repeated_signals [OF burst_signals])

lemma cycle_signals: "filter is_signal (cycle_actions fd peri len n s d) = replicate n (Signal peri)"
  unfolding cycle_actions_def by (subst repeated_signals [OF period_signals]) simp

section \<open>Audio transfers\<close>

text \<open>
  A buffer of up to 256 periods, none longer than 40 loops of 256 bursts: then every jump of the program fits in
  its byte.
\<close>

definition audio_limits :: "u8 \<Rightarrow> u32 \<Rightarrow> u32 \<Rightarrow> bool" where
  "audio_limits peri len periodLen \<longleftrightarrow>
     peri < 32 \<and> 0 < periodLen \<and> periodLen \<le> len \<and> len div periodLen \<le> 256 \<and> periodLen < 41 * 8192"

definition passes :: "u8 list \<Rightarrow> channel_regs \<Rightarrow> nat \<Rightarrow> dma_action list \<Rightarrow> bool" where
  "passes prog t n acts \<longleftrightarrow> (\<exists>u. reaches prog (6, t) (6, u) \<and> actions u = actions t @ concat (replicate n acts))"

lemma audio_start:
  "reaches (audio_program fd peri s d len periodLen) (0, t) (6, t\<lparr>ccr := audio_ccr fd\<rparr>)"
proof -
  have "placed (audio_program fd peri s d len periodLen) 0 (emit_insn (DMAMOV CCR (audio_ccr fd)))"
    by (simp add: audio_program_def Let_def placed_def)
  from step_placed [OF this] show ?thesis by (intro reaches_step) (simp add: size_simps)
qed

lemma audio_program_passes:
  assumes "audio_limits peri len periodLen" "ccr t = audio_ccr fd"
  shows "passes (audio_program fd peri s d len periodLen) t n
     (cycle_actions fd peri (unat periodLen) (unat len div unat periodLen) s d)"
proof -
  define pxs where "pxs = audio_xfer fd peri s d len periodLen"
  have limits: "peri < 32" "unat periodLen < 41 * 8192" "unat len div unat periodLen \<le> 256" "unat periodLen \<noteq> 0"
      "unat periodLen \<le> unat len"
    using assms(1) by (auto simp: audio_limits_def word_less_nat_alt word_le_nat_alt unat_div)
  have "0 < unat len div unat periodLen" using limits by (simp add: div_greater_zero_iff)
  moreover have pxs: "audio_spec fd peri pxs" "periodBytes pxs = periodLen" "numPeriods pxs = unat len div unat periodLen"
      "srcAddr pxs = s" "dstAddr pxs = d" "involvesDevice pxs"
    using limits by (simp_all add: pxs_def audio_xfer_def audio_spec_def unat_div)
  moreover have "audio_program fd peri s d len periodLen = emit_MOV CCR (audio_ccr fd) @ loop_cyclic (BYTE_TO_BURST periodLen (audio_ccr fd)) pxs peri"
    by (simp add: audio_program_def Let_def pxs_def)
  ultimately show ?thesis
    using audio_passes [OF pxs(1) _ _ size_pass assms(2), of n] limits by (auto simp: passes_def)
qed

text \<open>C39: The controller decodes every instruction an emitter writes, whatever follows it, to the instruction that was
  meant, and finds the next one right behind it: opcodes, conditions, loop counters, jumps, peripheral and event
  numbers, and the bytes of 16- and 32-bit operands.
\<close>

theorem emitted_instruction_decodes: "encodable i \<Longrightarrow> decode (emit_insn i @ r) = Some (i, length (emit_insn i))"
  by (rule decode_emitted)

theorem emitted_instruction_decodes_witness:
  "decode (emit_insn (DMAMOV DAR 0xFE4700A8) @ [0x38]) = Some (DMAMOV DAR 0xFE4700A8, 6)
   \<and> decode (emit_insn (DMALPEND BURST False True 9) @ []) = Some (DMALPEND BURST False True 9, 2)
   \<and> decode (emit_insn (DMASTP True 17) @ [0, 1]) = Some (DMASTP True 17, 2)"
  using emitted_instruction_decodes [of "DMAMOV DAR 0xFE4700A8" "[0x38]"]
    emitted_instruction_decodes [of "DMALPEND BURST False True 9" "[]"] emitted_instruction_decodes [of "DMASTP True 17" "[0, 1]"]
  by (simp add: size_simps emit_STP_def)

text \<open>C9: The program stored for a cyclic audio transfer refines its specification, within the limits \<open>audio_limits\<close>: the
  peripheral is one of 32, the period is not empty, no longer than the buffer and shorter than 41 * 8192 bytes, and
  there are at most 256 periods (beyond these limits a backward jump of the generated code can be truncated to a
  byte and miss its loop, insn.c:170).
  Started at its first instruction the program gets behind the setting of the control register, and from there it
  makes any number of passes: each pass makes exactly the loads, stores and events of \<open>cycle_actions\<close>, for each
  period in turn its bursts, the words left over and the event of the channel, and comes back to the same place with
  the addresses set anew.
\<close>

theorem audio_program_refines_cycles:
  assumes "audio_limits peri len periodLen"
  shows "\<exists>t. reaches (audio_program fd peri s d len periodLen) (0, t0) (6, t) \<and> actions t = actions t0
     \<and> (\<forall>n. passes (audio_program fd peri s d len periodLen) t n
              (cycle_actions fd peri (unat periodLen) (unat len div unat periodLen) s d))"
  using audio_start [of fd peri s d len periodLen t0] audio_program_passes [OF assms, of "t0\<lparr>ccr := audio_ccr fd\<rparr>"]
  by (intro exI [of _ "t0\<lparr>ccr := audio_ccr fd\<rparr>"]) simp

definition idle_channel :: channel_regs where
  "idle_channel = \<lparr>sar = 0, dar = 0, ccr = 0, counter0 = 0, counter1 = 0, fifo_bytes = 0, request = SINGLE, actions = []\<rparr>"

lemma audio_program_refines_cycles_witness:
  "\<exists>t. reaches (audio_program False 3 0x40000000 0xFE470024 0x3840 0x1C20) (0, idle_channel) (6, t) \<and> actions t = []
     \<and> (\<forall>n. passes (audio_program False 3 0x40000000 0xFE470024 0x3840 0x1C20) t n (cycle_actions False 3 0x1C20 2 0x40000000 0xFE470024))"
  using audio_program_refines_cycles [of 3 "0x3840" "0x1C20" False "0x40000000" "0xFE470024" idle_channel]
  by (simp add: audio_limits_def idle_channel_def)

text \<open>C10: Within the same limits, and with periods of at least one burst (32 bytes) and of whole words, a pass of the
  program, once the control register is set, goes through the whole periods of the audio buffer exactly once, byte
  after byte: the memory side of the accesses is, in order, the address range of \<open>len div periodLen\<close> periods from the
  start of the buffer, and the channel's event is signalled once for each of these periods and for nothing else. When
  the buffer's length is no multiple of the period, the tail that does not fill a period is never reached.
\<close>

theorem audio_pass_covers_buffer:
  assumes "audio_limits peri len periodLen" "32 \<le> periodLen" "4 dvd unat periodLen" "ccr t = audio_ccr fd"
  shows "\<exists>acts. passes (audio_program fd peri s d len periodLen) t 1 acts
     \<and> memory_bytes acts = memory_range (if fd then d else s) (unat len div unat periodLen * unat periodLen)
     \<and> filter is_signal acts = replicate (unat len div unat periodLen) (Signal peri)"
proof -
  have "32 \<le> unat periodLen" using assms(2) by (simp add: word_le_nat_alt)
  with audio_program_passes [OF assms(1,4), of s d 1] assms(3) show ?thesis
    by (intro exI [of _ "cycle_actions fd peri (unat periodLen) (unat len div unat periodLen) s d"])
      (simp add: cycle_contiguous cycle_signals period_step_exact memory_side_def)
qed

lemma audio_pass_covers_buffer_witness:
  "\<exists>acts. passes (audio_program True 5 0xFE470028 0x40000000 0x3840 0x1C20) (idle_channel\<lparr>ccr := audio_ccr True\<rparr>) 1 acts
     \<and> memory_bytes acts = memory_range 0x40000000 0x3840 \<and> filter is_signal acts = replicate 2 (Signal 5)"
  using audio_pass_covers_buffer [of 5 "0x3840" "0x1C20" "idle_channel\<lparr>ccr := audio_ccr True\<rparr>" True "0xFE470028" "0x40000000"]
  by (simp add: audio_limits_def)

text \<open>A period shorter than a burst is not refused. The generator writes a loop count of zero, the controller takes
  it for 256, and each period transfers 8192 bytes and more: a pass runs far beyond the end of the buffer it was
  given.
\<close>

theorem short_period_overruns:
  assumes "audio_limits peri len periodLen" "periodLen < 32" "ccr t = audio_ccr fd"
  shows "\<exists>acts n. passes (audio_program fd peri s d len periodLen) t 1 acts
     \<and> memory_bytes acts = memory_range (if fd then d else s) n \<and> unat len + 8000 < n"
proof -
  define k where "k = unat len div unat periodLen"
  have p: "unat periodLen < 32" "0 < unat periodLen" "unat periodLen \<le> unat len"
    using assms(1,2) by (auto simp: audio_limits_def word_less_nat_alt word_le_nat_alt unat_gt_0)
  then have "8192 \<le> period_step (unat periodLen)" by (simp add: period_step_def period_bursts_def)
  moreover have "0 < k" unfolding k_def using p by (simp add: div_greater_zero_iff)
  moreover have "unat len < (k + 1) * 32"
  proof -
    have "unat len < (k + 1) * unat periodLen" unfolding k_def using p(2) by (simp add: dividend_less_div_times)
    also have "\<dots> \<le> (k + 1) * 32" using p(1) by (intro mult_le_mono2) simp
    finally show ?thesis .
  qed
  ultimately have "unat len + 8000 < k * 8192" "k * 8192 \<le> k * period_step (unat periodLen)" by simp_all
  then have "unat len + 8000 < k * period_step (unat periodLen)" by linarith
  with audio_program_passes [OF assms(1,3), of s d 1] show ?thesis
    by (intro exI [of _ "cycle_actions fd peri (unat periodLen) k s d"] exI [of _ "k * period_step (unat periodLen)"])
      (simp add: cycle_contiguous memory_side_def k_def)
qed

lemma short_period_overruns_witness:
  "\<exists>acts n. passes (audio_program False 3 0x40000000 0xFE470024 64 16) (idle_channel\<lparr>ccr := audio_ccr False\<rparr>) 1 acts
     \<and> memory_bytes acts = memory_range 0x40000000 n \<and> 8064 < n"
  using short_period_overruns [of 3 64 16 "idle_channel\<lparr>ccr := audio_ccr False\<rparr>" False "0x40000000" "0xFE470024"]
  by (simp add: audio_limits_def)

end
