(* ===== verification/Pl330ThreadProofs.thy ===== *)
theory Pl330ThreadProofs imports Pl330Threads Pl330Properties begin

text \<open>
  What the operations of the PL330 driver leave alone, the well-formedness of its threads, and which client holds
  which channel.
\<close>

section \<open>Frames\<close>

text \<open>Reading registers and the clock changes nothing but their counters.\<close>

definition untimed :: "PL330DMA_CONTEXT \<Rightarrow> PL330DMA_CONTEXT" where
  "untimed x = x\<lparr>dmacTick := 0, clockTick := 0\<rparr>"

lemma untimed_read: "read32 r x = (v, y) \<Longrightarrow> untimed y = untimed x"
  by (auto simp: read32_def untimed_def)

lemma untimed_time: "query_time x = (v, y) \<Longrightarrow> untimed y = untimed x"
  by (auto simp: query_time_def untimed_def)

lemma untimed_state: "dma_state i x = (v, y) \<Longrightarrow> untimed y = untimed x"
  by (auto simp: dma_state_def Let_def dest: untimed_read split: prod.splits if_splits)

lemma untimed_until: "until_state i s x = Some y \<Longrightarrow> untimed y = untimed x"
proof (rule until_state.raw_induct [of "\<lambda>i s x y. untimed y = untimed x" "((i, s), x)" y, unfolded prod.case])
  fix rest :: "nat \<Rightarrow> u32 \<Rightarrow> PL330DMA_CONTEXT \<Rightarrow> PL330DMA_CONTEXT option" and i s x y
  assume "\<And>i s x y. rest i s x = Some y \<Longrightarrow> untimed y = untimed x"
    and "(case dma_state i x of (v, x) \<Rightarrow> if v AND s \<noteq> 0 then Some x else rest i s x) = Some y"
  then show "untimed y = untimed x" by (auto split: prod.splits if_splits dest!: untimed_state)
qed

lemma untimed_wait: "wait_idle start x = Some r \<Longrightarrow> untimed (snd r) = untimed x"
proof (rule wait_idle.raw_induct [of "\<lambda>start x r. untimed (snd r) = untimed x" "(start, x)" r, unfolded prod.case])
  fix rest :: "int \<Rightarrow> PL330DMA_CONTEXT \<Rightarrow> (NTSTATUS \<times> PL330DMA_CONTEXT) option" and start x r
  assume rest: "\<And>start x r. rest start x = Some r \<Longrightarrow> untimed (snd r) = untimed x"
    and body: "(case read32 DBGSTATUS x of (v, x) \<Rightarrow>
        if v AND DBG_BUSY = 0 then Some (STATUS_SUCCESS, x)
        else (case query_time x of (now, x) \<Rightarrow>
          if 5 * 1000 < (now - start) div 10 then Some (STATUS_IO_TIMEOUT, x) else rest start x)) = Some r"
  obtain v y now z where "read32 DBGSTATUS x = (v, y)" "query_time y = (now, z)" by fastforce
  with body rest [of start z r] untimed_read [of DBGSTATUS x v y] untimed_time [of y now z]
  show "untimed (snd r) = untimed x" by (auto split: if_splits)
qed

lemma untimed_idle: "UntilDmacIdle x = Some (st, y) \<Longrightarrow> untimed y = untimed x"
  using untimed_wait [of _ _ "(st, y)"] by (fastforce simp: UntilDmacIdle_def dest: untimed_time split: prod.splits)

text \<open>Stopping and starting change, beyond that, registers of the controller and which threads run a request.\<close>

definition core :: "PL330DMA_CONTEXT \<Rightarrow> PL330DMA_CONTEXT" where
  "core x = (untimed x)\<lparr>dmacLog := [], dmacInten := 0, Channels := map_option (map (\<lambda>t. t\<lparr>ReqRunning := False\<rparr>)) (Channels x)\<rparr>"

lemma core_untimed: "untimed y = untimed x \<Longrightarrow> core y = core x"
proof -
  assume eq: "untimed y = untimed x"
  have "Channels y = Channels (untimed y)" "Channels x = Channels (untimed x)" by (simp_all add: untimed_def)
  with eq show ?thesis by (simp add: core_def)
qed

lemma core_write: "core (write32 r v x) = core x"
  by (simp add: core_def untimed_def write32_def)

lemma map_update_same: "(map f xs)[i := f (xs ! i)] = map f xs"
  by (metis list_update_id map_update)

lemma core_running: "core (update_thread i (\<lambda>t. t\<lparr>ReqRunning := b\<rparr>) x) = core x"
  using map_update_same [of "\<lambda>t::PL330DMA_THREAD. t\<lparr>ReqRunning := False\<rparr>"]
  by (cases "Channels x") (auto simp: core_def untimed_def update_thread_def map_update)

lemma core_execute: "execute_DBGINSN i insn m x = Some y \<Longrightarrow> core y = core x"
  by (auto simp: execute_DBGINSN_def Let_def core_write dest!: untimed_idle core_untimed split: bind_splits if_splits)

lemma core_state: "dma_state i x = (v, y) \<Longrightarrow> core y = core x"
  by (rule core_untimed) (rule untimed_state)

lemma core_read: "read32 r x = (v, y) \<Longrightarrow> core y = core x"
  by (rule core_untimed) (rule untimed_read)

lemma core_until: "until_state i s x = Some y \<Longrightarrow> core y = core x"
  by (rule core_untimed) (rule untimed_until)

lemmas core_rules = core_write core_running core_read core_state core_until core_execute

lemma core_stop: "dma_stop i x = Some y \<Longrightarrow> core y = core x"
proof -
  obtain inten a where a: "read32 INTEN x = (inten, a)" by fastforce
  obtain s b where b: "dma_state i a = (s, b)" by fastforce
  assume "dma_stop i x = Some y"
  with a b obtain c where c: "core c = core x" and
    rest: "(let (s1, x) = dma_state i c
           in if s1 = PL330_STATE_COMPLETING then Some x
              else let (s2, x) = dma_state i x
                   in if s2 = PL330_STATE_KILLING then Some x
                      else let (s3, x) = dma_state i x
                           in if s3 = PL330_STATE_STOPPED then Some x
                              else Option.bind (execute_DBGINSN i (insn_buffer emit_KILL) (IsManager i x) x) (\<lambda>x.
                                let b = event_bit (ev (thread_of i x));
                                    x = (if inten AND b \<noteq> 0 then write32 INTCLR b x else x);
                                    x = write32 INTEN (inten AND NOT b) x
                                in Some (update_thread i (\<lambda>t. t\<lparr>ReqRunning := False\<rparr>) x))) = Some y"
    using core_read [OF a] core_state [OF b]
    by (auto simp: dma_stop_def Let_def split: bind_splits if_splits dest: core_until)
  show ?thesis
    using rest c by (auto simp: Let_def core_write core_running split: prod.splits bind_splits if_splits dest!: core_state core_execute)
qed

lemma core_trigger: "dma_trigger i x = Some (r, y) \<Longrightarrow> core y = core x"
  by (auto simp: dma_trigger_def Let_def core_write core_running split: prod.splits bind_splits if_splits
    dest!: core_state core_execute core_read)

lemma core_start_stopped: "start_stopped i x = Some (r, y) \<Longrightarrow> core y = core x"
  by (auto simp: start_stopped_def split: bind_splits dest!: core_until core_trigger)

lemma core_start_faulting: "start_faulting i x = Some (r, y) \<Longrightarrow> core y = core x"
  by (auto simp: start_faulting_def split: bind_splits dest!: core_stop core_start_stopped)

lemma core_start_fault_completing: "start_fault_completing i x = Some (r, y) \<Longrightarrow> core y = core x"
  by (auto simp: start_fault_completing_def Let_def split: bind_splits prod.splits if_splits
    dest!: core_state core_until core_start_faulting)

lemma core_start: "dma_start i x = Some (r, y) \<Longrightarrow> core y = core x"
  unfolding dma_start_def Let_def
  by (auto split: prod.splits if_splits
    dest!: core_state core_start_stopped core_start_faulting core_start_fault_completing core_trigger)

section \<open>Well-formed threads\<close>

text \<open>A channel's number, event, and its part of the microcode memory.\<close>

definition thread_wf :: "nat \<Rightarrow> u32 \<Rightarrow> nat \<Rightarrow> PL330DMA_THREAD \<Rightarrow> bool" where
  "thread_wf size_of bus i t \<longleftrightarrow>
     Id t = of_nat i \<and> ev t = i \<and> MCcpu t = i * size_of \<and> MCbus t = bus + of_nat (i * size_of)
     \<and> length (registeredCallbacks t) = MAX_NOTIF_EVENTS"

definition dmac_wf :: "PL330DMA_CONTEXT \<Rightarrow> bool" where
  "dmac_wf x \<longleftrightarrow>
     NumChan (Config x) \<le> 8 \<and> MCBufSz x = 512
     \<and> (case Channels x of None \<Rightarrow> False
        | Some ts \<Rightarrow> length ts = Suc (NumChan (Config x)) \<and> (\<forall>i<NumChan (Config x). thread_wf 512 (MCodeBus x) i (ts ! i)))
     \<and> map_option length (MCode x) = Some (NumChan (Config x) * 512)"

text \<open>The channels that are free.\<close>

definition free_channels :: "PL330DMA_CONTEXT \<Rightarrow> nat set" where
  "free_channels x = {i. i < NumChan (Config x) \<and> Free (thread_of i x)}"

lemma thread_wf_running [simp]: "thread_wf n b i (t\<lparr>ReqRunning := r\<rparr>) = thread_wf n b i t"
  by (simp add: thread_wf_def)

lemma thread_wf_free [simp]: "thread_wf n b i (t\<lparr>Free := r\<rparr>) = thread_wf n b i t"
  by (simp add: thread_wf_def)

lemma wf_core: "dmac_wf (core x) = dmac_wf x"
  by (cases "Channels x") (auto simp: dmac_wf_def core_def untimed_def)

lemma free_core: "free_channels (core x) = free_channels x"
  by (cases "Channels x") (auto simp: free_channels_def thread_of_def core_def untimed_def zero_thread_def)

lemma core_cong: "core y = core x \<Longrightarrow> dmac_wf y = dmac_wf x \<and> free_channels y = free_channels x \<and> Config y = Config x"
proof -
  have "Config (core z) = Config z" for z by (simp add: core_def untimed_def)
  then show "core y = core x \<Longrightarrow> ?thesis" by (metis wf_core free_core)
qed

lemma thread_of_update:
  "thread_of j (update_thread i f x) = (if i = j \<and> (\<exists>ts. Channels x = Some ts \<and> i < length ts) then f (thread_of j x) else thread_of j x)"
  by (cases "Channels x") (auto simp: thread_of_def update_thread_def)

lemma wf_thread: "dmac_wf x \<Longrightarrow> i < NumChan (Config x) \<Longrightarrow> thread_wf 512 (MCodeBus x) i (thread_of i x)"
  by (auto simp: dmac_wf_def thread_of_def split: option.splits)

lemma wf_update:
  assumes "dmac_wf x" "thread_wf 512 (MCodeBus x) i (thread_of i x) \<Longrightarrow> thread_wf 512 (MCodeBus x) i (f (thread_of i x))"
  shows "dmac_wf (update_thread i f x)"
  using assms by (cases "Channels x") (auto simp: dmac_wf_def update_thread_def nth_list_update thread_of_def)

lemma update_selects [simp]:
  "Config (update_thread i f x) = Config x" "MCode (update_thread i f x) = MCode x" "MCodeBus (update_thread i f x) = MCodeBus x"
  "MCBufSz (update_thread i f x) = MCBufSz x" "references (update_thread i f x) = references x"
  by (simp_all add: update_thread_def)

lemma wf_channel: "dmac_wf x \<Longrightarrow> i \<le> NumChan (Config x) \<Longrightarrow> \<exists>ts. Channels x = Some ts \<and> i < length ts"
  by (auto simp: dmac_wf_def split: option.splits)

lemma free_update:
  assumes "dmac_wf x" "i < NumChan (Config x)"
  shows "free_channels (update_thread i f x) = (if Free (f (thread_of i x)) then insert i (free_channels x) else free_channels x - {i})"
  using assms wf_channel [OF assms(1), of i] by (auto simp: free_channels_def thread_of_update)

section \<open>Giving out channels\<close>

lemma find_free_some: "find_free j Idx x = Some i \<Longrightarrow> i \<in> free_channels x \<and> j \<le> i \<and> (Idx = -1 \<or> int i = Idx)"
proof (induction j Idx x rule: find_free.induct)
  case (1 j Idx x)
  show ?case
    using 1(3) 1(1) 1(2) by (subst (asm) find_free.simps) (fastforce simp: free_channels_def split: if_splits)
qed

lemma find_free_none: "find_free j Idx x = None \<Longrightarrow> k \<in> free_channels x \<Longrightarrow> j \<le> k \<Longrightarrow> Idx \<noteq> -1 \<and> int k \<noteq> Idx"
proof (induction j Idx x rule: find_free.induct)
  case (1 j Idx x)
  have k: "k < NumChan (Config x)" "Free (thread_of k x)" using 1(4) by (simp_all add: free_channels_def)
  show ?case
  proof (cases "j = k")
    case True
    then show ?thesis using 1(3) k by (subst (asm) find_free.simps) (auto split: if_splits)
  next
    case False
    with 1(5) have "Suc j \<le> k" by simp
    moreover have "find_free (Suc j) Idx x = None" "j < NumChan (Config x)" "Free (thread_of j x) \<Longrightarrow> \<not> (int j = Idx \<or> Idx = - 1)"
      using 1(3) k \<open>Suc j \<le> k\<close> by (subst (asm) find_free.simps; auto split: if_splits)+
    ultimately show ?thesis using 1(1,2) 1(4) by (cases "Free (thread_of j x)") auto
  qed
qed

lemma GetHandle_some:
  assumes "dmac_wf x" "GetHandle Idx x = (Some i, y)"
  shows "i \<in> free_channels x \<and> free_channels y = free_channels x - {i} \<and> dmac_wf y \<and> Config y = Config x"
proof -
  have f: "find_free 0 Idx x = Some i" "y = update_thread i (\<lambda>t. t\<lparr>Free := False\<rparr>) x"
    using assms(2) by (auto simp: GetHandle_def split: option.splits)
  from find_free_some [OF f(1)] have i: "i \<in> free_channels x" by simp
  then have "i < NumChan (Config x)" by (simp add: free_channels_def)
  with i assms(1) show ?thesis by (simp add: f(2) free_update) (rule wf_update; simp)
qed

lemma GetHandle_none: "GetHandle Idx x = (None, y) \<Longrightarrow> y = x"
  by (auto simp: GetHandle_def split: option.splits)

lemma FreeHandle_result:
  assumes "dmac_wf x" "i < NumChan (Config x)" "FreeHandle (Some i) x = (b, y)"
  shows "dmac_wf y \<and> Config y = Config x \<and> free_channels y = (if b then insert i (free_channels x) else free_channels x)"
  using assms by (auto simp: FreeHandle_def free_update split: if_splits intro!: wf_update)

section \<open>The other operations\<close>

text \<open>What clients do with a channel apart from getting it and giving it back, and the interrupt.\<close>

inductive dmac_other :: "PL330DMA_CONTEXT \<Rightarrow> PL330DMA_CONTEXT \<Rightarrow> bool" where
  submit: "i < NumChan (Config x) \<Longrightarrow> SubmitAudioDMA i fd s d len periodLen x = Some (st, y) \<Longrightarrow> dmac_other x y"
| stop: "StopThread (Some i) x = Some y \<Longrightarrow> dmac_other x y"
| registers: "GetThreadRegisters Thread c s d x = (v, y) \<Longrightarrow> dmac_other x y"
| register_callback: "RegisterNotificationCallback (Some i) fdo cb cx x = (st, y) \<Longrightarrow> dmac_other x y"
| unregister_callback: "UnregisterNotificationCallback (Some i) cb cx x = Some (st, y) \<Longrightarrow> dmac_other x y"
| irq: "pl330_dma_irq x = (b, q, y) \<Longrightarrow> dmac_other x y"
| dpc: "pl330_dma_dpc x = Some y \<Longrightarrow> dmac_other x y"

definition keeps_pool :: "PL330DMA_CONTEXT \<Rightarrow> PL330DMA_CONTEXT \<Rightarrow> bool" where
  "keeps_pool x y \<longleftrightarrow> (dmac_wf x \<longrightarrow> dmac_wf y) \<and> free_channels y = free_channels x \<and> Config y = Config x"

lemma keeps_core: "core y = core x \<Longrightarrow> keeps_pool x y"
  unfolding keeps_pool_def by (drule core_cong) simp

lemma keeps_trans: "keeps_pool x y \<Longrightarrow> keeps_pool y z \<Longrightarrow> keeps_pool x z"
  by (simp add: keeps_pool_def)

lemma keeps_update:
  assumes "\<And>t. Free (f t) = Free t" "\<And>n b t. thread_wf n b i t \<Longrightarrow> thread_wf n b i (f t)"
  shows "keeps_pool x (update_thread i f x)"
proof -
  have "Free (thread_of j (update_thread i f x)) = Free (thread_of j x)" for j
    by (simp add: thread_of_update assms(1))
  moreover have "dmac_wf x \<Longrightarrow> dmac_wf (update_thread i f x)" using wf_update assms(2) by blast
  ultimately show ?thesis by (simp add: keeps_pool_def free_channels_def)
qed

lemma keeps_refl: "keeps_pool x x"
  by (simp add: keeps_pool_def)

lemma keeps_slot: "keeps_pool x (update_thread i (\<lambda>t. t\<lparr>registeredCallbacks := (registeredCallbacks t)[j := c]\<rparr>) x)"
  by (rule keeps_update) (simp_all add: thread_wf_def)

lemma keeps_fields:
  "keeps_pool x (x\<lparr>references := r\<rparr>)" "keeps_pool x (x\<lparr>called := c\<rparr>)" "keeps_pool x (x\<lparr>irqLastEvents := v\<rparr>)"
  by (simp_all add: keeps_pool_def dmac_wf_def free_channels_def thread_of_def split: option.splits)

lemma keeps_code: "MCode x = Some mem \<Longrightarrow> length mem' = length mem \<Longrightarrow> keeps_pool x (x\<lparr>MCode := Some mem'\<rparr>)"
  by (simp add: keeps_pool_def dmac_wf_def free_channels_def thread_of_def split: option.splits)

lemma store_code_length: "store_code off code mem = Some mem' \<Longrightarrow> length mem' = length mem"
  by (auto simp: store_code_def split: if_splits)

lemma keeps_submit: "SubmitAudioDMA i fd s d len periodLen x = Some (st, y) \<Longrightarrow> keeps_pool x y"
proof -
  assume "SubmitAudioDMA i fd s d len periodLen x = Some (st, y)"
  then obtain mem mem' g r where m: "MCode x = Some mem" "length mem' = length mem"
    and start: "dma_start i (update_thread i (\<lambda>t. t\<lparr>Xfer := g t\<rparr>) (x\<lparr>MCode := Some mem'\<rparr>)) = Some (r, y)"
    by (auto simp: SubmitAudioDMA_def Let_def split: if_splits bind_splits dest: store_code_length)
  have "keeps_pool x (update_thread i (\<lambda>t. t\<lparr>Xfer := g t\<rparr>) (x\<lparr>MCode := Some mem'\<rparr>))"
    by (rule keeps_trans [OF keeps_code [OF m] keeps_update]) (simp_all add: thread_wf_def)
  from keeps_trans [OF this keeps_core [OF core_start [OF start]]] show ?thesis .
qed

lemma core_irq_events: "irq_events e val q x = (r, y) \<Longrightarrow> core y = core x"
proof (induction e val q x rule: irq_events.induct)
  case (1 e val q x)
  obtain v z where z: "read32 INTEN x = (v, z)" by fastforce
  with 1 show ?case
    by (subst (asm) (3) irq_events.simps) (auto simp: core_write core_read split: if_splits prod.splits)
qed

lemma keeps_irq: "pl330_dma_irq x = (b, q, y) \<Longrightarrow> keeps_pool x y"
proof -
  obtain v1 x1 where 1: "read32 FSM x = (v1, x1)" by fastforce
  obtain v2 x2 where 2: "read32 FSC x1 = (v2, x2)" by fastforce
  obtain v3 x3 where 3: "read32 ES x2 = (v3, x3)" by fastforce
  obtain q' y' where 4: "irq_events 0 v3 False (x3\<lparr>irqLastEvents := v3\<rparr>) = (q', y')" by fastforce
  assume "pl330_dma_irq x = (b, q, y)"
  with 1 2 3 4 have "y' = y" by (simp add: pl330_dma_irq_def)
  moreover have "keeps_pool x x3" using 1 2 3 by (metis core_read keeps_core)
  ultimately show ?thesis
    using keeps_core [OF core_irq_events [OF 4]] keeps_fields(3) keeps_trans by blast
qed

lemma keeps_dpc_events: "dpc_events es val x = Some y \<Longrightarrow> keeps_pool x y"
proof (induction es val x rule: dpc_events.induct)
  case (2 e es val x)
  then show ?case
    using keeps_fields(2) keeps_trans by (auto split: if_splits option.splits) blast
qed (simp add: keeps_refl)

lemma other_keeps_pool: "dmac_other x y \<Longrightarrow> keeps_pool x y"
proof (induction rule: dmac_other.induct)
  case (registers Thread c s d x v y)
  then have "core y = core x"
    by (auto simp: GetThreadRegisters_def Let_def split: option.splits if_splits prod.splits dest!: core_read)
  then show ?case by (rule keeps_core)
next
  case (register_callback i fdo cb cx x st y)
  then show ?case
    using keeps_trans [OF keeps_slot keeps_fields(1)] keeps_refl
    by (auto simp: RegisterNotificationCallback_def Let_def split: option.splits)
next
  case (unregister_callback i cb cx x st y)
  then show ?case
    using keeps_trans [OF keeps_fields(1) keeps_slot] keeps_refl
    by (auto simp: UnregisterNotificationCallback_def Let_def split: option.splits)
qed (auto simp: StopThread_def pl330_dma_dpc_def intro: keeps_submit keeps_core core_stop keeps_irq keeps_dpc_events)

end
