(* ===== verification/Pl330ChannelProperties.thy ===== *)
theory Pl330ChannelProperties imports Pl330ThreadProofs begin

text \<open>
  The properties of the PL330 driver's operations: a channel is held by one client at a time, a transfer that is
  submitted is started with its own microcode, waiting for the controller ends, what the interrupt tells the clients,
  and where the driver goes wrong.
\<close>

unbundle bit_operations_syntax

section \<open>A pool of numbered channels\<close>

text \<open>
  Clients take a channel from a pool and give it back, while other operations go on. The state of the run is that of
  the pool with the channels the clients hold.
\<close>

inductive pool_step :: "(int \<Rightarrow> 's \<Rightarrow> nat option \<times> 's) \<Rightarrow> (nat \<Rightarrow> 's \<Rightarrow> bool \<times> 's) \<Rightarrow> ('s \<Rightarrow> 's \<Rightarrow> bool)
    \<Rightarrow> 's \<times> nat list \<Rightarrow> 's \<times> nat list \<Rightarrow> bool"
  for take_one give_back others where
  taken: "take_one k s = (Some i, s') \<Longrightarrow> pool_step take_one give_back others (s, held) (s', i # held)"
| refused: "take_one k s = (None, s') \<Longrightarrow> pool_step take_one give_back others (s, held) (s', held)"
| given_back: "i \<in> set held \<Longrightarrow> give_back i s = (True, s') \<Longrightarrow> pool_step take_one give_back others (s, held) (s', remove1 i held)"
| kept: "i \<in> set held \<Longrightarrow> give_back i s = (False, s') \<Longrightarrow> pool_step take_one give_back others (s, held) (s', held)"
| other: "others s s' \<Longrightarrow> pool_step take_one give_back others (s, held) (s', held)"

locale channel_pool =
  fixes take_one :: "int \<Rightarrow> 's \<Rightarrow> nat option \<times> 's"
    and give_back :: "nat \<Rightarrow> 's \<Rightarrow> bool \<times> 's"
    and others :: "'s \<Rightarrow> 's \<Rightarrow> bool"
    and ok :: "'s \<Rightarrow> bool"
    and channels :: "'s \<Rightarrow> nat set"
    and available :: "'s \<Rightarrow> nat set"
  assumes take_some: "ok s \<Longrightarrow> take_one k s = (Some i, s') \<Longrightarrow>
      i \<in> available s \<and> available s' = available s - {i} \<and> ok s' \<and> channels s' = channels s"
    and take_none: "ok s \<Longrightarrow> take_one k s = (None, s') \<Longrightarrow> s' = s"
    and give: "ok s \<Longrightarrow> i \<in> channels s \<Longrightarrow> give_back i s = (b, s') \<Longrightarrow>
      ok s' \<and> channels s' = channels s \<and> available s' = (if b then insert i (available s) else available s)"
    and others_keep: "ok s \<Longrightarrow> others s s' \<Longrightarrow> ok s' \<and> channels s' = channels s \<and> available s' = available s"
    and available_channels: "ok s \<Longrightarrow> available s \<subseteq> channels s"
begin

lemma step_exclusive:
  assumes "pool_step take_one give_back others a b"
    and "ok (fst a)" "distinct (snd a)" "set (snd a) = channels (fst a) - available (fst a)"
  shows "ok (fst b) \<and> distinct (snd b) \<and> set (snd b) = channels (fst b) - available (fst b)"
  using assms
proof (induction rule: pool_step.induct)
  case (taken k s i s' held)
  then show ?case using take_some [OF _ taken(1)] available_channels [of s] by auto
next
  case (refused k s s' held)
  then show ?case using take_none [OF _ refused(1)] by auto
next
  case (given_back i held s s')
  then show ?case using give [OF _ _ given_back(2)] by (auto simp: set_remove1_eq)
next
  case (kept i held s s')
  then show ?case using give [OF _ _ kept(2)] by auto
next
  case (other s s' held)
  then show ?case using others_keep [OF _ other(1)] by auto
qed

lemma run_exclusive:
  assumes "(pool_step take_one give_back others)\<^sup>*\<^sup>* a b"
    and "ok (fst a)" "distinct (snd a)" "set (snd a) = channels (fst a) - available (fst a)"
  shows "ok (fst b) \<and> distinct (snd b) \<and> set (snd b) = channels (fst b) - available (fst b)"
  using assms by (induction rule: rtranclp_induct) (use step_exclusive in \<open>blast+\<close>)

text \<open>Whoever takes a channel gets one that nobody holds.\<close>

lemma taken_is_new:
  assumes "(pool_step take_one give_back others)\<^sup>*\<^sup>* (s0, []) (s, held)" "ok s0" "available s0 = channels s0"
    and "take_one k s = (Some i, s')"
  shows "ok s \<and> distinct held \<and> i \<in> channels s \<and> i \<notin> set held"
proof -
  have "ok s \<and> distinct held \<and> set held = channels s - available s"
    using run_exclusive [OF assms(1)] assms(2,3) by simp
  with take_some [OF _ assms(4)] available_channels [of s] show ?thesis by auto
qed

end

definition channel_numbers :: "PL330DMA_CONTEXT \<Rightarrow> nat set" where
  "channel_numbers x = {..<NumChan (Config x)}"

interpretation dmac: channel_pool GetHandle "\<lambda>i. FreeHandle (Some i)" dmac_other dmac_wf channel_numbers free_channels
proof (unfold_locales, goal_cases)
  case (1 s k i s')
  then show ?case using GetHandle_some [OF 1] by (simp add: channel_numbers_def)
next
  case (2 s k s')
  then show ?case using GetHandle_none by blast
next
  case (3 s i b s')
  then show ?case using FreeHandle_result [OF 3(1) _ 3(3)] by (simp add: channel_numbers_def)
next
  case (4 s s')
  then show ?case using other_keeps_pool [OF 4(2)] by (simp add: keeps_pool_def channel_numbers_def)
next
  case (5 s)
  then show ?case by (auto simp: channel_numbers_def free_channels_def)
qed

section \<open>The start of the device\<close>

lemma config_chans: "NumChan (Config (ReadDmacConfiguration x)) \<le> 8"
proof -
  have "unat ((drop_bit CR0_NUM_CHANS_SHIFT w AND CR0_NUM_CHANS_MASK) + 1) \<le> 8" for w :: u32
  proof -
    have "v AND 7 = take_bit 3 v" for v :: u32 by (simp add: take_bit_eq_mask mask_eq_exp_minus_1)
    then have "unat (drop_bit CR0_NUM_CHANS_SHIFT w AND CR0_NUM_CHANS_MASK) < 8"
      using take_bit_nat_less_exp [of 3 "unat (drop_bit CR0_NUM_CHANS_SHIFT w)"]
      by (simp add: CR0_NUM_CHANS_MASK_def unsigned_take_bit_eq)
    then show ?thesis by (simp add: unat_word_ariths)
  qed
  note le = this
  have "unat ((drop_bit CR0_NUM_CHANS_SHIFT w AND CR0_NUM_CHANS_MASK) + 1) mod 16 \<le> 8" for w :: u32
    using le [of w] by (meson le_trans mod_less_eq_dividend)
  then show ?thesis
    by (simp add: ReadDmacConfiguration_def Let_def read32_def split: prod.splits)
qed

text \<open>The threads are set up one after the other.\<close>

definition threads_set_up :: "nat \<Rightarrow> PL330DMA_CONTEXT \<Rightarrow> bool" where
  "threads_set_up k x \<longleftrightarrow>
     MCBufSz x = 512 \<and> (\<exists>ts. Channels x = Some ts \<and> length ts = Suc (NumChan (Config x))
       \<and> (\<forall>j. length (registeredCallbacks (thread_of j x)) = MAX_NOTIF_EVENTS)
       \<and> (\<forall>j<k. thread_wf 512 (MCodeBus x) j (thread_of j x) \<and> Free (thread_of j x)))"

lemma init_thread_sets_up:
  assumes "threads_set_up k x" "k < NumChan (Config x)" "NumChan (Config x) \<le> 8"
  shows "threads_set_up (Suc k) (init_thread k x) \<and> Config (init_thread k x) = Config x \<and> MCode (init_thread k x) = MCode x"
proof -
  have k: "unat (of_nat k :: u8) = k" using assms(2,3) by (simp add: unat_of_nat)
  have kk: "ucast (of_nat k :: u8) = (of_nat k :: u32)" using arg_cong [OF k, of "of_nat :: nat \<Rightarrow> u32"] by simp
  obtain ts where ts: "Channels x = Some ts" "length ts = Suc (NumChan (Config x))" using assms(1) by (auto simp: threads_set_up_def)
  have "Channels (init_thread k x) \<noteq> None \<and> length (the (Channels (init_thread k x))) = Suc (NumChan (Config x))"
    by (simp add: init_thread_def ResetThread_def Let_def update_thread_def ts)
  moreover have "thread_of j (init_thread k x) =
      (if j = k then (thread_of k x)\<lparr>Id := of_nat k, ev := k, MCcpu := k * 512, MCbus := MCodeBus x + of_nat (k * 512), Xfer := None,
           registeredCallbacks := map (\<lambda>c. c\<lparr>InUse := False\<rparr>) (registeredCallbacks (thread_of k x)), ReqRunning := False, Free := True\<rparr>
       else thread_of j x)" for j
    using assms by (auto simp: init_thread_def ResetThread_def Let_def update_thread_def thread_of_def ts k kk threads_set_up_def)
  moreover have "MCBufSz (init_thread k x) = MCBufSz x" "MCodeBus (init_thread k x) = MCodeBus x" "Config (init_thread k x) = Config x"
      "MCode (init_thread k x) = MCode x"
    by (simp_all add: init_thread_def ResetThread_def Let_def)
  ultimately show ?thesis
    using assms(1) by (auto simp: threads_set_up_def thread_wf_def less_Suc_eq)
qed

lemma init_threads_set_up:
  "threads_set_up 0 x \<Longrightarrow> k \<le> NumChan (Config x) \<Longrightarrow> NumChan (Config x) \<le> 8 \<Longrightarrow>
   threads_set_up k (fold init_thread [0..<k] x) \<and> Config (fold init_thread [0..<k] x) = Config x \<and> MCode (fold init_thread [0..<k] x) = MCode x"
proof (induction k)
  case (Suc k)
  then show ?case using init_thread_sets_up [of k "fold init_thread [0..<k] x"] by simp
qed simp

lemma AllocResources_wf:
  assumes "AllocResources alloc (Some (bus, mem)) x = (STATUS_SUCCESS, y)" "NumChan (Config x) \<le> 8" "NumChan (Config x) * 512 \<le> length mem"
  shows "dmac_wf y \<and> free_channels y = channel_numbers y"
proof -
  define z where "z = x\<lparr>MCBufSz := 512, MCodeBus := bus, MCode := Some (take (NumChan (Config x) * 512) mem),
      Channels := Some (replicate (1 + NumChan (Config x)) zero_thread)\<rparr>"
  define w where "w = fold init_thread [0..<NumChan (Config x)] z"
  have y: "y = update_thread (NumChan (Config x)) (\<lambda>t. t\<lparr>Id := of_nat (NumChan (Config x)), Free := False\<rparr>) w"
    using assms(1) by (simp add: AllocResources_def AllocThreads_def Let_def w_def z_def MCODE_BUFF_PER_REQ_def split: if_splits)
      (simp add: STATUS_NO_MEMORY_def)
  have "thread_of j z = zero_thread" for j by (simp add: thread_of_def z_def del: replicate_Suc)
  then have "threads_set_up 0 z" by (simp add: threads_set_up_def) (simp add: z_def zero_thread_def)
  then have w: "threads_set_up (NumChan (Config x)) w" "Config w = Config x" "MCode w = Some (take (NumChan (Config x) * 512) mem)"
    using init_threads_set_up [of z "NumChan (Config x)"] assms(2) by (simp_all add: w_def z_def)
  then obtain ts where ts: "Channels w = Some ts" "length ts = Suc (NumChan (Config x))" by (auto simp: threads_set_up_def)
  have th: "thread_of j y = thread_of j w" if "j < NumChan (Config x)" for j
    using that by (simp add: y thread_of_update)
  have "Channels y = Some (ts[NumChan (Config x) := (ts ! NumChan (Config x))\<lparr>Id := of_nat (NumChan (Config x)), Free := False\<rparr>])"
    by (simp add: y update_thread_def ts)
  with w ts th assms(2,3) show ?thesis
    by (auto simp: dmac_wf_def free_channels_def channel_numbers_def y threads_set_up_def thread_of_def)
qed

lemma OnPrepareHardware_wf:
  assumes "OnPrepareHardware mmio alloc (Some (bus, mem)) x = (STATUS_SUCCESS, y)" "8 * 512 \<le> length mem"
  shows "dmac_wf y \<and> free_channels y = channel_numbers y"
proof -
  have "NumChan (Config (ReadDmacConfiguration x)) * 512 \<le> length mem"
    using config_chans [of x] assms(2) by linarith
  with assms(1) config_chans [of x] show ?thesis
    using AllocResources_wf by (auto simp: OnPrepareHardware_def split: if_splits)
qed

section \<open>Channels\<close>

text \<open>C11: However clients take channels, use them and give them back, in whatever order and with interrupts in between,
  the channel a client gets is one of the controller's and is held by nobody else; the threads keep their numbers,
  events and parts of the microcode memory.
\<close>

theorem handles_exclusive:
  assumes "OnPrepareHardware mmio alloc (Some (bus, mem)) x0 = (STATUS_SUCCESS, x)" "8 * 512 \<le> length mem"
    and "(pool_step GetHandle (\<lambda>i. FreeHandle (Some i)) dmac_other)\<^sup>*\<^sup>* (x, []) (y, held)"
    and "GetHandle Idx y = (Some i, z)"
  shows "dmac_wf y \<and> distinct held \<and> i < NumChan (Config y) \<and> i \<notin> set held"
  using dmac.taken_is_new [OF assms(3) _ _ assms(4)] OnPrepareHardware_wf [OF assms(1,2)]
  by (simp add: channel_numbers_def)

definition demo_dmac0 :: PL330DMA_CONTEXT where
  "demo_dmac0 = \<lparr>Config = \<lparr>Mode = 0, DataBusWidth = 0, DataBufDepth = 0, NumChan = 0, NumPeripherals = 0, PeripheralNS = 0, NumEvents = 0, IrqNS = 0\<rparr>,
     MCBufSz = 0, MCode = None, MCodeBus = 0, Channels = None, irqLastEvents = 0, dmacDevice = (\<lambda>n r. if r = CRD then 0x10 else 0), dmacTick = 0,
     dmacInten = 0, dmacLog = [], dmacClock = (\<lambda>n. 0), clockTick = 0, called = [], references = (\<lambda>d. 0)\<rparr>"

definition demo_dmac :: PL330DMA_CONTEXT where
  "demo_dmac = snd (OnPrepareHardware True True (Some (0x10000000, replicate 4096 0)) demo_dmac0)"

lemma demo_dmac: "OnPrepareHardware True True (Some (0x10000000, replicate 4096 0)) demo_dmac0 = (STATUS_SUCCESS, demo_dmac)"
  by (simp add: demo_dmac_def OnPrepareHardware_def AllocResources_def AllocThreads_def Let_def)

lemma demo_dmac_ok: "dmac_wf demo_dmac" "free_channels demo_dmac = channel_numbers demo_dmac" "NumChan (Config demo_dmac) = 2"
proof -
  show "dmac_wf demo_dmac" "free_channels demo_dmac = channel_numbers demo_dmac"
    using OnPrepareHardware_wf [OF demo_dmac] by simp_all
  have "Config (fold init_thread ks z) = Config z" for ks z
    by (induction ks arbitrary: z) (simp_all add: init_thread_def ResetThread_def Let_def)
  then show "NumChan (Config demo_dmac) = 2"
    by (simp add: demo_dmac_def OnPrepareHardware_def AllocResources_def AllocThreads_def Let_def ReadDmacConfiguration_def read32_def
        demo_dmac0_def CRD_def CR0_def CR3_def CR4_def INTEN_def CR0_NUM_CHANS_SHIFT_def CR0_NUM_CHANS_MASK_def CR0_PERIPH_REQ_SET_def)
qed

lemma take_some_channel: "k \<in> free_channels x \<Longrightarrow> \<exists>i y. GetHandle (-1) x = (Some i, y)"
  using find_free_none [of 0 "-1" x k] by (auto simp: GetHandle_def split: option.splits)

lemma handles_exclusive_witness:
  "\<exists>i y j z. GetHandle (-1) demo_dmac = (Some i, y) \<and> GetHandle (-1) y = (Some j, z) \<and> j < 2 \<and> j \<noteq> i"
proof -
  have "0 \<in> free_channels demo_dmac" using demo_dmac_ok by (simp add: channel_numbers_def)
  from take_some_channel [OF this] obtain i y where i: "GetHandle (-1) demo_dmac = (Some i, y)" by blast
  note y = GetHandle_some [OF demo_dmac_ok(1) i]
  have "(if i = 0 then 1 else 0) \<in> free_channels y" using y demo_dmac_ok by (auto simp: channel_numbers_def)
  from take_some_channel [OF this] obtain j z where j: "GetHandle (-1) y = (Some j, z)" by blast
  have "(pool_step GetHandle (\<lambda>i. FreeHandle (Some i)) dmac_other)\<^sup>*\<^sup>* (demo_dmac, []) (y, [i])"
    using i by (intro r_into_rtranclp pool_step.taken)
  from handles_exclusive [OF demo_dmac _ this j] y demo_dmac_ok(3) i j show ?thesis by simp
qed

section \<open>Waiting for the controller\<close>

lemma wait_idle_returns:
  assumes "clockTick x \<le> k" "(dmacClock x k - start) div 10 > 5 * 1000"
  shows "\<exists>st y. wait_idle start x = Some (st, y) \<and> (st = STATUS_SUCCESS \<or> st = STATUS_IO_TIMEOUT)"
  using assms
proof (induction "k - clockTick x" arbitrary: x rule: less_induct)
  case less
  let ?y = "x\<lparr>dmacTick := Suc (dmacTick x)\<rparr>"
  let ?z = "?y\<lparr>clockTick := Suc (clockTick x)\<rparr>"
  show ?case
  proof (cases "fst (read32 DBGSTATUS x) AND DBG_BUSY = 0 \<or> (dmacClock x (clockTick x) - start) div 10 > 5 * 1000")
    case True
    then show ?thesis by (subst wait_idle.simps) (auto simp: read32_def query_time_def split: if_splits)
  next
    case False
    then have "clockTick x \<noteq> k" using less.prems(2) by auto
    with less.prems have "\<exists>st y. wait_idle start ?z = Some (st, y) \<and> (st = STATUS_SUCCESS \<or> st = STATUS_IO_TIMEOUT)"
      by (intro less.hyps) auto
    with False show ?thesis by (subst wait_idle.simps) (auto simp: read32_def query_time_def split: if_splits)
  qed
qed

text \<open>Waiting for the controller always ends, provided the system time some day is more than 5 ms past the start: with
  success or with a time-out, and having changed nothing.
\<close>

theorem idle_wait_returns:
  assumes "clockTick x < k" "(dmacClock x k - dmacClock x (clockTick x)) div 10 > 5 * 1000"
  shows "\<exists>st y. UntilDmacIdle x = Some (st, y) \<and> (if st = STATUS_SUCCESS then True else st = STATUS_IO_TIMEOUT) \<and> untimed y = untimed x"
proof -
  let ?x = "x\<lparr>clockTick := Suc (clockTick x)\<rparr>"
  have "UntilDmacIdle x = wait_idle (dmacClock x (clockTick x)) ?x" by (simp add: UntilDmacIdle_def query_time_def)
  moreover obtain st y where "wait_idle (dmacClock x (clockTick x)) ?x = Some (st, y)" "st = STATUS_SUCCESS \<or> st = STATUS_IO_TIMEOUT"
    using wait_idle_returns [of ?x k "dmacClock x (clockTick x)"] assms by auto
  ultimately show ?thesis using untimed_idle [of x st y] by auto
qed

lemma idle_wait_returns_witness:
  "\<exists>st y. UntilDmacIdle (demo_dmac0\<lparr>dmacDevice := \<lambda>n r. 1, dmacClock := \<lambda>n. int n * 1000\<rparr>) = Some (st, y)
     \<and> (if st = STATUS_SUCCESS then True else st = STATUS_IO_TIMEOUT)"
  using idle_wait_returns [of "demo_dmac0\<lparr>dmacDevice := \<lambda>n r. 1, dmacClock := \<lambda>n. int n * 1000\<rparr>" 51] by (auto simp: demo_dmac0_def)

section \<open>Starting a transfer\<close>

text \<open>What the device says about a channel that stands still.\<close>

definition stands_still :: "nat \<Rightarrow> PL330DMA_CONTEXT \<Rightarrow> bool" where
  "stands_still i x \<longleftrightarrow> (\<forall>n. dmacDevice x n (CS i) AND 0xf = DS_ST_STOP)"

definition always_idle :: "PL330DMA_CONTEXT \<Rightarrow> bool" where
  "always_idle x \<longleftrightarrow> (\<forall>n. dmacDevice x n DBGSTATUS AND DBG_BUSY = 0)"

definition always_busy :: "PL330DMA_CONTEXT \<Rightarrow> bool" where
  "always_busy x \<longleftrightarrow> (\<forall>n. dmacDevice x n DBGSTATUS AND DBG_BUSY \<noteq> 0)"

lemma channel_id:
  assumes "dmac_wf x" "i < NumChan (Config x)"
  shows "Id (thread_of i x) = of_nat i" "unat (of_nat i :: u8) = i" "(of_nat i :: u8) < 8" "\<not> IsManager i x" "ev (thread_of i x) = i"
    "MCcpu (thread_of i x) = i * 512" "MCbus (thread_of i x) = MCodeBus x + of_nat (i * 512)" "i < 8"
proof -
  have "i < 8" using assms by (auto simp: dmac_wf_def)
  then show "unat (of_nat i :: u8) = i" "(of_nat i :: u8) < 8" "i < 8" by (simp_all add: unat_of_nat word_less_nat_alt)
qed (use wf_thread [OF assms] assms(2) in \<open>auto simp: thread_wf_def IsManager_def\<close>)

lemma CS_not_INTEN: "i < 8 \<Longrightarrow> CS i \<noteq> INTEN"
proof -
  assume "i < 8"
  then have "i \<in> {0, 1, 2, 3, 4, 5, 6, 7}" by auto
  then show ?thesis by (auto simp: CS_def INTEN_def)
qed

text \<open>The same thread, whatever became of the rest of the context.\<close>

lemma state_stopped:
  assumes "stands_still i x" "Id (thread_of i x) = of_nat i" "i < 8" "i \<noteq> NumChan (Config x)"
  shows "dma_state i x = (PL330_STATE_STOPPED, x\<lparr>dmacTick := Suc (dmacTick x)\<rparr>)"
proof -
  have "unat (of_nat i :: u8) = i" using assms(3) by (simp add: unat_of_nat)
  then show ?thesis
    using assms CS_not_INTEN [OF assms(3)]
    by (simp add: dma_state_def IsManager_def Let_def read32_def stands_still_def state_code_def)
qed

lemma thread_of_tick [simp]:
  "thread_of i (x\<lparr>dmacTick := m\<rparr>) = thread_of i x" "thread_of i (x\<lparr>clockTick := m\<rparr>) = thread_of i x"
  "thread_of i (write32 r v x) = thread_of i x"
  by (simp_all add: thread_of_def write32_def)

lemma stands_still_frame [simp]:
  "stands_still i (x\<lparr>dmacTick := m\<rparr>) = stands_still i x" "stands_still i (x\<lparr>clockTick := m\<rparr>) = stands_still i x"
  "stands_still i (x\<lparr>MCode := c\<rparr>) = stands_still i x" "stands_still i (write32 r v x) = stands_still i x"
  "stands_still i (update_thread j f x) = stands_still i x"
  by (simp_all add: stands_still_def write32_def update_thread_def)

text \<open>A stopped channel that runs a request is left as it is.\<close>

lemma trigger_running:
  assumes "stands_still i x" "Id (thread_of i x) = of_nat i" "i < 8" "i \<noteq> NumChan (Config x)" "ReqRunning (thread_of i x)"
  shows "dma_start i x = Some (True, x\<lparr>dmacTick := dmacTick x + 2\<rparr>)"
  using state_stopped [OF assms(1-4)] state_stopped [of i "x\<lparr>dmacTick := Suc (dmacTick x)\<rparr>"] assms
  by (simp add: dma_start_def dma_trigger_def PL330_STATE_STOPPED_def PL330_STATE_FAULT_COMPLETING_def PL330_STATE_FAULTING_def
      PL330_STATE_KILLING_def PL330_STATE_COMPLETING_def)

lemma trigger_stopped:
  assumes "stands_still i x" "Id (thread_of i x) = of_nat i" "i < 8" "i \<noteq> NumChan (Config x)" "\<not> ReqRunning (thread_of i x)"
  defines "t \<equiv> thread_of i x"
  shows "dma_start i x =
     Option.bind (execute_DBGINSN i (insn_buffer (emit_GO (of_nat i) (MCbus t) 1)) True
        (write32 INTEN (dmacInten x OR event_bit (ev t)) (x\<lparr>dmacTick := Suc (Suc (Suc (dmacTick x)))\<rparr>)))
       (\<lambda>x. Some (True, update_thread i (\<lambda>t. t\<lparr>ReqRunning := True\<rparr>) x))"
  using state_stopped [OF assms(1-4)] state_stopped [of i "x\<lparr>dmacTick := Suc (dmacTick x)\<rparr>"] assms
  by (simp add: dma_start_def dma_trigger_def PL330_STATE_STOPPED_def PL330_STATE_FAULT_COMPLETING_def PL330_STATE_FAULTING_def
      PL330_STATE_KILLING_def PL330_STATE_COMPLETING_def read32_def Let_def)

lemma byte_in_word:
  "ucast (drop_bit 16 (push_bit 16 (ucast (b :: u8)) OR push_bit 24 (ucast (c :: u8)) :: u32)) = b"
  "ucast (drop_bit 24 (push_bit 16 (ucast (b :: u8)) OR push_bit 24 (ucast (c :: u8)) :: u32)) = c"
  "take_bit 16 (push_bit 16 (ucast (b :: u8)) OR push_bit 24 (ucast (c :: u8)) :: u32) = 0"
proof -
  show "ucast (drop_bit 16 (push_bit 16 (ucast (b :: u8)) OR push_bit 24 (ucast (c :: u8)) :: u32)) = b"
    by (rule bit_word_eqI) (auto simp: bit_simps)
  show "ucast (drop_bit 24 (push_bit 16 (ucast (b :: u8)) OR push_bit 24 (ucast (c :: u8)) :: u32)) = c"
    by (rule bit_word_eqI) (auto simp: bit_simps dest: bit_imp_le_length)
  show "take_bit 16 (push_bit 16 (ucast (b :: u8)) OR push_bit 24 (ucast (c :: u8)) :: u32) = 0"
    by (rule bit_word_eqI) (auto simp: bit_simps)
qed

text \<open>What the manager is given, when the controller is idle.\<close>

lemma execute_idle:
  assumes "always_idle x"
  shows "execute_DBGINSN i insn True x =
     Some (write32 DBGCMD 0 (write32 DBGINST1 (ucast (insn ! 2) OR push_bit 8 (ucast (insn ! 3)) OR push_bit 16 (ucast (insn ! 4)) OR push_bit 24 (ucast (insn ! 5)))
       (write32 DBGINST0 (push_bit 16 (ucast (insn ! 0)) OR push_bit 24 (ucast (insn ! 1)))
         (x\<lparr>clockTick := Suc (clockTick x), dmacTick := Suc (dmacTick x)\<rparr>))))"
proof -
  have "wait_idle start y = Some (STATUS_SUCCESS, y\<lparr>dmacTick := Suc (dmacTick y)\<rparr>)" if "always_idle y" for start y
    using that by (subst wait_idle.simps) (simp add: read32_def always_idle_def DBGSTATUS_def INTEN_def)
  moreover have "always_idle (x\<lparr>clockTick := Suc (clockTick x)\<rparr>)" using assms by (simp add: always_idle_def)
  ultimately have "UntilDmacIdle x = Some (STATUS_SUCCESS, x\<lparr>clockTick := Suc (clockTick x), dmacTick := Suc (dmacTick x)\<rparr>)"
    by (simp add: UntilDmacIdle_def query_time_def)
  then show ?thesis by (simp add: execute_DBGINSN_def Let_def)
qed

lemma emit_GO_bytes: "c < 8 \<Longrightarrow> insn_buffer (emit_GO c a 1) = [0xa2, c] @ operand_bytes a"
  by (simp add: insn_buffer_def emit_GO_def operand_bytes_def CMD_DMAGO_def channel_read)

lemma audio_program_size:
  assumes "audio_limits peri len periodLen"
  shows "length (audio_program fd peri s d len periodLen) \<le> 263"
proof -
  let ?pxs = "audio_xfer fd peri s d len periodLen"
  have "involvesDevice ?pxs" "unat (periodBytes ?pxs) < 41 * 8192" "numPeriods ?pxs \<le> 256"
    using assms by (auto simp: audio_xfer_def audio_limits_def word_less_nat_alt word_le_nat_alt)
  from size_pass [OF this, of fd peri] have "length (pass_code (BYTE_TO_BURST periodLen (audio_ccr fd)) ?pxs peri) < 256"
    by (simp add: audio_xfer_def)
  then show ?thesis by (simp add: audio_program_def Let_def loop_cyclic_pass size_simps)
qed

lemma store_code_effect:
  assumes "store_code off code mem = Some mem'" "length code \<le> 512" "512 dvd off"
  shows "placed mem' off code" "512 dvd o2 \<Longrightarrow> o2 \<noteq> off \<Longrightarrow> take 512 (drop o2 mem') = take 512 (drop o2 mem)"
proof -
  have m: "off + length code \<le> length mem" "mem' = take off mem @ code @ drop (off + length code) mem"
    using assms(1) by (auto simp: store_code_def split: if_splits)
  then show "placed mem' off code" by (simp add: placed_def)
  assume "512 dvd o2" "o2 \<noteq> off"
  then consider "o2 + 512 \<le> off" | "off + 512 \<le> o2"
    using assms(3) by (auto elim!: dvdE) (metis Suc_leI linorder_neqE_nat mult_Suc_right mult_le_mono2 add.commute)
  then show "take 512 (drop o2 mem') = take 512 (drop o2 mem)"
  proof cases
    case 1
    then have "drop o2 mem' = drop o2 (take off mem) @ (code @ drop (off + length code) mem)" using m by simp
    with 1 m(1) show ?thesis by (simp add: drop_take)
  next
    case 2
    then have "drop o2 mem' = drop o2 mem" using m assms(2) by (simp add: drop_append)
    then show ?thesis by simp
  qed
qed

text \<open>The state a submitted transfer is started in.\<close>

definition submitted :: "nat \<Rightarrow> bool \<Rightarrow> u32 \<Rightarrow> u32 \<Rightarrow> u32 \<Rightarrow> u32 \<Rightarrow> u8 list \<Rightarrow> PL330DMA_CONTEXT \<Rightarrow> PL330DMA_CONTEXT" where
  "submitted i fd s d len periodLen mem x =
     update_thread i (\<lambda>t. t\<lparr>Xfer := Some (audio_xfer fd (of_nat i) s d len periodLen)\<rparr>) (x\<lparr>MCode := Some mem\<rparr>)"

lemma submitted_frame:
  assumes "dmac_wf x" "i < NumChan (Config x)"
  shows "dmacLog (submitted i fd s d len periodLen mem x) = dmacLog x" "dmacInten (submitted i fd s d len periodLen mem x) = dmacInten x"
    "MCode (submitted i fd s d len periodLen mem x) = Some mem" "stands_still i (submitted i fd s d len periodLen mem x) = stands_still i x"
    "Config (submitted i fd s d len periodLen mem x) = Config x" "dmacDevice (submitted i fd s d len periodLen mem x) = dmacDevice x"
    "dmacClock (submitted i fd s d len periodLen mem x) = dmacClock x" "clockTick (submitted i fd s d len periodLen mem x) = clockTick x"
    "thread_of i (submitted i fd s d len periodLen mem x) =
       (thread_of i x)\<lparr>Xfer := Some (audio_xfer fd (of_nat i) s d len periodLen)\<rparr>"
proof -
  obtain ts where "Channels x = Some ts" "i < length ts" using wf_channel [OF assms(1), of i] assms(2) by auto
  then show "thread_of i (submitted i fd s d len periodLen mem x) = (thread_of i x)\<lparr>Xfer := Some (audio_xfer fd (of_nat i) s d len periodLen)\<rparr>"
    by (simp add: submitted_def thread_of_def update_thread_def)
qed (simp_all add: submitted_def update_thread_def stands_still_def)

lemma submit_starts:
  assumes "dmac_wf x" "i < NumChan (Config x)" "audio_limits (of_nat i) len periodLen"
  obtains mem mem' where "MCode x = Some mem" "store_code (i * 512) (audio_program fd (of_nat i) s d len periodLen) mem = Some mem'"
    "SubmitAudioDMA i fd s d len periodLen x = Option.bind (dma_start i (submitted i fd s d len periodLen mem' x))
       (\<lambda>(started, x). Some (if started then STATUS_SUCCESS else STATUS_UNSUCCESSFUL, x))"
proof -
  obtain mem where mem: "MCode x = Some mem" "length mem = NumChan (Config x) * 512" using assms(1) by (auto simp: dmac_wf_def)
  have "i * 512 + length (audio_program fd (of_nat i) s d len periodLen) \<le> length mem"
    using audio_program_size [OF assms(3), of fd s d] assms(2) mem(2) by linarith
  then obtain mem' where m: "store_code (i * 512) (audio_program fd (of_nat i) s d len periodLen) mem = Some mem'"
    by (simp add: store_code_def)
  have "periodLen \<noteq> 0" using assms(3) by (auto simp: audio_limits_def)
  obtain ts where ts: "Channels x = Some ts" "i < length ts" using wf_channel [OF assms(1), of i] assms(2) by auto
  then have "update_thread i (\<lambda>t. t\<lparr>Xfer := Some (audio_xfer fd (Id (thread_of i x)) s d len periodLen)\<rparr>) (x\<lparr>MCode := Some mem'\<rparr>)
      = submitted i fd s d len periodLen mem' x"
    by (simp add: submitted_def channel_id [OF assms(1,2)])
  then have "SubmitAudioDMA i fd s d len periodLen x = Option.bind (dma_start i (submitted i fd s d len periodLen mem' x))
       (\<lambda>(started, x). Some (if started then STATUS_SUCCESS else STATUS_UNSUCCESSFUL, x))"
    using \<open>periodLen \<noteq> 0\<close> mem m channel_id [OF assms(1,2)] ts
    by (simp add: SubmitAudioDMA_def Let_def update_thread_def submitted_def thread_of_def)
  with that mem(1) m show ?thesis by blast
qed

text \<open>C12: Submitting an audio transfer starts it, provided the channel stands still and no request is thought to run on it,
  the controller's debug interface is idle, the driver's structures are well formed (as \<open>handles_exclusive\<close> shows they stay),
  and the transfer is within the limits of the microcode: at most 256 periods, a period of fewer than 41 * 8192 bytes and no
  longer than the buffer. The driver's writes are then, in order: the channel's interrupt is enabled, and the controller's
  manager is given, in the two halves of the debug instruction, a \<open>DMAGO\<close> for this channel and the bus address of its part
  of the microcode memory; there the program of the transfer stands, and the programs of the other channels are what they
  were. (A channel on which an earlier start was lost is thought to run a request; nothing is started on it.)
\<close>

theorem submit_launches_program:
  assumes "dmac_wf x" "i < NumChan (Config x)" "audio_limits (of_nat i) len periodLen"
    and "stands_still i x" "always_idle x" "\<not> ReqRunning (thread_of i x)" "MCode x = Some mem"
  shows "\<exists>y mem' v w. SubmitAudioDMA i fd s d len periodLen x = Some (STATUS_SUCCESS, y) \<and> ReqRunning (thread_of i y)
     \<and> dmacLog y = dmacLog x @ [(INTEN, dmacInten x OR event_bit i), (DBGINST0, v), (DBGINST1, w), (DBGCMD, 0)]
     \<and> take_bit 16 v = 0
     \<and> decode ([ucast (drop_bit 16 v), ucast (drop_bit 24 v)] @ operand_bytes w) = Some (DMAGO True (of_nat i) (MCodeBus x + of_nat (i * 512)), 6)
     \<and> MCode y = Some mem' \<and> placed mem' (i * 512) (audio_program fd (of_nat i) s d len periodLen)
     \<and> (\<forall>j. take 512 (drop (j * 512) mem') = (if j = i then take 512 (drop (i * 512) mem') else take 512 (drop (j * 512) mem)))"
proof -
  obtain mem0 mem' where "MCode x = Some mem0" "store_code (i * 512) (audio_program fd (of_nat i) s d len periodLen) mem0 = Some mem'"
    and submit: "SubmitAudioDMA i fd s d len periodLen x = Option.bind (dma_start i (submitted i fd s d len periodLen mem' x))
       (\<lambda>(started, x). Some (if started then STATUS_SUCCESS else STATUS_UNSUCCESSFUL, x))"
    by (rule submit_starts [OF assms(1-3), of fd s d])
  then have m: "store_code (i * 512) (audio_program fd (of_nat i) s d len periodLen) mem = Some mem'" using assms(7) by simp
  define b where "b = submitted i fd s d len periodLen mem' x"
  note b_frame = submitted_frame [OF assms(1,2), of fd s d len periodLen mem', folded b_def]
  note id = channel_id [OF assms(1,2)]
  define a where "a = MCodeBus x + of_nat (i * 512)"
  have t: "Id (thread_of i b) = of_nat i" "MCbus (thread_of i b) = a" "ev (thread_of i b) = i" "\<not> ReqRunning (thread_of i b)"
    using id assms(6) by (simp_all add: b_frame a_def)
  define c where "c = write32 INTEN (dmacInten x OR event_bit i) (b\<lparr>dmacTick := Suc (Suc (Suc (dmacTick b)))\<rparr>)"
  have "always_idle c" using assms(5) by (simp add: always_idle_def c_def write32_def b_frame)
  have start: "dma_start i b = Option.bind (execute_DBGINSN i ([0xa2, of_nat i] @ operand_bytes a) True c)
       (\<lambda>x. Some (True, update_thread i (\<lambda>t. t\<lparr>ReqRunning := True\<rparr>) x))"
    using trigger_stopped [of i b] assms(4) t id assms(2) b_frame emit_GO_bytes [OF id(3), of a]
    by (simp add: c_def)
  define w where "w = word_of_bytes (ucast (a AND 0xff)) (ucast (drop_bit 8 a AND 0xff)) (ucast (drop_bit 16 a AND 0xff)) (ucast (drop_bit 24 a AND 0xff))"
  have w: "w = a" by (simp only: w_def operand_bytes_read)
  define v where "v = (push_bit 16 (ucast (0xa2 :: u8)) OR push_bit 24 (ucast (of_nat i :: u8)) :: u32)"
  define y where "y = update_thread i (\<lambda>t. t\<lparr>ReqRunning := True\<rparr>) (write32 DBGCMD 0 (write32 DBGINST1 w (write32 DBGINST0 v
      (c\<lparr>clockTick := Suc (clockTick c), dmacTick := Suc (dmacTick c)\<rparr>))))"
  have "dma_start i b = Some (True, y)"
    using start execute_idle [OF \<open>always_idle c\<close>, of i "[0xa2, of_nat i] @ operand_bytes a"]
    by (simp add: y_def v_def w_def word_of_bytes_def operand_bytes_def)
  then have done1: "SubmitAudioDMA i fd s d len periodLen x = Some (STATUS_SUCCESS, y)" using submit by (simp add: b_def)
  have log: "dmacLog y = dmacLog x @ [(INTEN, dmacInten x OR event_bit i), (DBGINST0, v), (DBGINST1, w), (DBGCMD, 0)]"
    by (simp add: y_def c_def write32_def update_thread_def b_frame)
  have manager: "take_bit 16 v = 0" and bytes: "ucast (drop_bit 16 v) = (0xa2 :: u8)" "ucast (drop_bit 24 v) = (of_nat i :: u8)"
    unfolding v_def by (rule byte_in_word)+
  have "decode ([0xa2, of_nat i] @ operand_bytes a) = Some (DMAGO True (of_nat i) a, 6)"
    using decode_GO [OF id(3), of a True "[]"] emit_GO_bytes [OF id(3), of a]
    by (simp add: insn_buffer_def emit_GO_def operand_bytes_def)
  then have go: "decode ([ucast (drop_bit 16 v), ucast (drop_bit 24 v)] @ operand_bytes w) = Some (DMAGO True (of_nat i) (MCodeBus x + of_nat (i * 512)), 6)"
    by (simp only: bytes w a_def)
  have code: "MCode y = Some mem'" by (simp add: y_def c_def write32_def b_frame)
  have running: "ReqRunning (thread_of i y)"
  proof -
    obtain ts where "Channels x = Some ts" "i < length ts" using wf_channel [OF assms(1), of i] assms(2) by auto
    then show ?thesis by (simp add: y_def thread_of_update c_def write32_def b_def submitted_def update_thread_def thread_of_def)
  qed
  have "length (audio_program fd (of_nat i) s d len periodLen) \<le> 512" using audio_program_size [OF assms(3), of fd s d] by simp
  from store_code_effect [OF m this] have "placed mem' (i * 512) (audio_program fd (of_nat i) s d len periodLen)"
    "\<forall>j. take 512 (drop (j * 512) mem') = (if j = i then take 512 (drop (i * 512) mem') else take 512 (drop (j * 512) mem))"
    by simp_all
  with done1 running log manager go code show ?thesis by blast
qed

text \<open>The demonstration device, with its second channel.\<close>

lemma ReadDmacConfiguration_device: "dmacDevice (ReadDmacConfiguration x) = dmacDevice x"
  by (simp add: ReadDmacConfiguration_def Let_def read32_def split: prod.splits)

lemma AllocResources_device:
  assumes "AllocResources True (Some (bus, mem)) x = (st, y)"
  shows "dmacDevice y = dmacDevice x \<and> MCode y = Some (take (NumChan (Config x) * 512) mem) \<and> \<not> ReqRunning (thread_of i y)"
proof -
  have "dmacDevice (fold init_thread ks z) = dmacDevice z" "MCode (fold init_thread ks z) = MCode z" for ks z
    by (induction ks arbitrary: z) (simp_all add: init_thread_def ResetThread_def Let_def update_thread_def)
  moreover have "\<not> ReqRunning (thread_of i (fold init_thread ks z))" if "\<not> ReqRunning (thread_of i z)" for ks z
    using that by (induction ks arbitrary: z) (simp_all add: init_thread_def ResetThread_def Let_def thread_of_update)
  moreover have "\<not> ReqRunning (thread_of i (z\<lparr>Channels := Some (replicate n zero_thread)\<rparr>))" for n z
    by (simp add: thread_of_def zero_thread_def)
  moreover have "dmacDevice (update_thread k f z) = dmacDevice z" for k f z by (simp add: update_thread_def)
  ultimately show ?thesis
    using assms by (auto simp: AllocResources_def AllocThreads_def Let_def thread_of_update MCODE_BUFF_PER_REQ_def simp del: replicate_Suc split: if_split_asm)
qed

lemma demo_thread: "\<not> ReqRunning (thread_of i demo_dmac)" "dmacDevice demo_dmac = dmacDevice demo_dmac0" "MCode demo_dmac \<noteq> None"
  using AllocResources_device [of "0x10000000" "replicate 4096 0" "ReadDmacConfiguration demo_dmac0" STATUS_SUCCESS demo_dmac i] demo_dmac
  by (simp_all add: OnPrepareHardware_def ReadDmacConfiguration_device)

lemma submit_launches_program_witness:
  "\<exists>y. SubmitAudioDMA 1 False 0x40000000 0xFE470024 0x3840 0x1C20 demo_dmac = Some (STATUS_SUCCESS, y) \<and> ReqRunning (thread_of 1 y)"
proof -
  obtain mem where "MCode demo_dmac = Some mem" using demo_thread(3) by blast
  moreover have "stands_still 1 demo_dmac" "always_idle demo_dmac"
    by (simp_all add: stands_still_def always_idle_def demo_thread demo_dmac0_def CS_def CRD_def DS_ST_STOP_def DBGSTATUS_def)
  moreover have "audio_limits (of_nat 1) 0x3840 0x1C20" by (simp add: audio_limits_def)
  ultimately show ?thesis
    using submit_launches_program [OF demo_dmac_ok(1), of 1 "0x3840" "0x1C20" mem False "0x40000000" "0xFE470024"] demo_thread demo_dmac_ok(3)
    by (auto simp del: of_nat_1)
qed

section \<open>A start that is lost\<close>

text \<open>System time goes on: from any query some later one is more than 5 ms away.\<close>

definition time_passes :: "PL330DMA_CONTEXT \<Rightarrow> bool" where
  "time_passes x \<longleftrightarrow> (\<forall>n. \<exists>k. n < k \<and> (dmacClock x k - dmacClock x n) div 10 > 5 * 1000)"

lemma wait_busy:
  assumes "clockTick x \<le> k" "(dmacClock x k - start) div 10 > 5 * 1000" "always_busy x"
  shows "\<exists>y. wait_idle start x = Some (STATUS_IO_TIMEOUT, y)"
  using assms
proof (induction "k - clockTick x" arbitrary: x rule: less_induct)
  case less
  let ?z = "x\<lparr>dmacTick := Suc (dmacTick x), clockTick := Suc (clockTick x)\<rparr>"
  have busy: "dmacDevice x (dmacTick x) DBGSTATUS AND DBG_BUSY \<noteq> 0" using less.prems(3) by (simp add: always_busy_def)
  have reg: "DBGSTATUS \<noteq> INTEN" by (simp add: DBGSTATUS_def INTEN_def)
  show ?case
  proof (cases "(dmacClock x (clockTick x) - start) div 10 > 5 * 1000")
    case True
    then show ?thesis using busy reg by (subst wait_idle.simps) (simp add: read32_def query_time_def)
  next
    case False
    then have "clockTick x \<noteq> k" using less.prems(2) by auto
    with less.prems have "\<exists>y. wait_idle start ?z = Some (STATUS_IO_TIMEOUT, y)"
      by (intro less.hyps) (auto simp: always_busy_def)
    with False busy reg show ?thesis by (subst wait_idle.simps) (simp add: read32_def query_time_def)
  qed
qed

text \<open>A busy controller is given nothing.\<close>

lemma execute_busy:
  assumes "always_busy x" "time_passes x"
  shows "\<exists>y. execute_DBGINSN i insn m x = Some y \<and> untimed y = untimed x"
proof -
  let ?x = "x\<lparr>clockTick := Suc (clockTick x)\<rparr>"
  obtain k where "clockTick x < k" "(dmacClock x k - dmacClock x (clockTick x)) div 10 > 5 * 1000"
    using assms(2) by (auto simp: time_passes_def)
  then have "\<exists>y. wait_idle (dmacClock x (clockTick x)) ?x = Some (STATUS_IO_TIMEOUT, y)"
    using assms(1) by (intro wait_busy [where k = k]) (auto simp: always_busy_def)
  then obtain y where "UntilDmacIdle x = Some (STATUS_IO_TIMEOUT, y)" by (auto simp: UntilDmacIdle_def query_time_def)
  with untimed_idle [OF this] show ?thesis by (simp add: execute_DBGINSN_def)
qed

text \<open>A request that is thought to run on a channel that stands still.\<close>

definition wedged :: "nat \<Rightarrow> PL330DMA_CONTEXT \<Rightarrow> bool" where
  "wedged i x \<longleftrightarrow> dmac_wf x \<and> i < NumChan (Config x) \<and> stands_still i x \<and> ReqRunning (thread_of i x)"

lemma wedged_submit:
  assumes "wedged i x" "audio_limits (of_nat i) len periodLen"
  shows "\<exists>y. SubmitAudioDMA i fd s d len periodLen x = Some (STATUS_SUCCESS, y) \<and> dmacLog y = dmacLog x \<and> wedged i y"
proof -
  have x: "dmac_wf x" "i < NumChan (Config x)" "stands_still i x" "ReqRunning (thread_of i x)" using assms(1) by (simp_all add: wedged_def)
  obtain mem mem' where submit: "SubmitAudioDMA i fd s d len periodLen x = Option.bind (dma_start i (submitted i fd s d len periodLen mem' x))
       (\<lambda>(started, x). Some (if started then STATUS_SUCCESS else STATUS_UNSUCCESSFUL, x))"
    by (rule submit_starts [OF x(1,2) assms(2), of fd s d])
  note b = submitted_frame [OF x(1,2), of fd s d len periodLen mem']
  have "dma_start i (submitted i fd s d len periodLen mem' x) = Some (True, (submitted i fd s d len periodLen mem' x)
      \<lparr>dmacTick := dmacTick (submitted i fd s d len periodLen mem' x) + 2\<rparr>)"
    using x channel_id [OF x(1,2)] by (intro trigger_running) (simp_all add: b)
  with submit have y: "SubmitAudioDMA i fd s d len periodLen x = Some (STATUS_SUCCESS, (submitted i fd s d len periodLen mem' x)
      \<lparr>dmacTick := dmacTick (submitted i fd s d len periodLen mem' x) + 2\<rparr>)" by simp
  have "dmac_wf ((submitted i fd s d len periodLen mem' x)\<lparr>dmacTick := dmacTick (submitted i fd s d len periodLen mem' x) + 2\<rparr>)"
    using keeps_submit [OF y] x(1) by (simp add: keeps_pool_def)
  with x y b show ?thesis by (simp add: wedged_def)
qed

lemma wedged_stop:
  assumes "wedged i x"
  shows "\<exists>y. StopThread (Some i) x = Some y \<and> dmacLog y = dmacLog x \<and> wedged i y"
proof -
  have x: "stands_still i x" "Id (thread_of i x) = of_nat i" "i < 8" "i \<noteq> NumChan (Config x)" "ReqRunning (thread_of i x)"
    using assms channel_id [of x i] by (auto simp: wedged_def)
  have still: "dma_state i (x\<lparr>dmacTick := n\<rparr>) = (PL330_STATE_STOPPED, x\<lparr>dmacTick := Suc n\<rparr>)" for n
    using state_stopped [of i "x\<lparr>dmacTick := n\<rparr>"] x by simp
  obtain n where y: "StopThread (Some i) x = Some (x\<lparr>dmacTick := n\<rparr>)"
    using x(5) by (simp add: StopThread_def dma_stop_def read32_def still Let_def PL330_STATE_STOPPED_def
      PL330_STATE_FAULT_COMPLETING_def PL330_STATE_COMPLETING_def PL330_STATE_KILLING_def)
  have "dmac_wf (x\<lparr>dmacTick := n\<rparr>)"
    using other_keeps_pool [OF dmac_other.stop [OF y]] assms by (simp add: keeps_pool_def wedged_def)
  with y assms show ?thesis by (simp add: wedged_def)
qed

lemma wedged_give: "wedged i x \<Longrightarrow> FreeHandle (Some i) x = (False, x)"
  by (simp add: wedged_def FreeHandle_def)

text \<open>What the client of a channel may try: submit transfers, stop the channel, give it back.\<close>

inductive client_attempt :: "nat \<Rightarrow> PL330DMA_CONTEXT \<Rightarrow> PL330DMA_CONTEXT \<Rightarrow> bool" for i where
  submit: "audio_limits (of_nat i) len periodLen \<Longrightarrow> SubmitAudioDMA i fd s d len periodLen x = Some (st, y) \<Longrightarrow> client_attempt i x y"
| stop: "StopThread (Some i) x = Some y \<Longrightarrow> client_attempt i x y"
| give: "FreeHandle (Some i) x = (b, y) \<Longrightarrow> client_attempt i x y"

lemma wedged_attempt: "client_attempt i x y \<Longrightarrow> wedged i x \<Longrightarrow> wedged i y \<and> dmacLog y = dmacLog x"
proof (induction rule: client_attempt.induct)
  case (submit len periodLen fd s d x st y)
  then show ?case using wedged_submit [OF submit(3,1), of fd s d] by auto
next
  case (stop x y)
  then show ?case using wedged_stop [OF stop(2)] by auto
next
  case (give x b y)
  then show ?case using wedged_give [OF give(2)] by auto
qed

lemma wedged_run: "(client_attempt i)\<^sup>*\<^sup>* x y \<Longrightarrow> wedged i x \<Longrightarrow> wedged i y \<and> dmacLog y = dmacLog x"
  by (induction rule: rtranclp_induct) (use wedged_attempt in fastforce)+

text \<open>C13: A start that the controller is too busy to take is lost, and the channel with it. Take a channel that stands
  still and runs no request, a controller whose debug interface stays busy, and a system time that goes on. The
  submission of an audio transfer reports success, though nothing but the interrupt enable was written. From then on,
  whatever the channel's client tries, in any order (submit transfers, stop the channel, give it back), nothing is
  written to the controller, every further submission reports success, and the channel cannot be given back. The
  transfers are within the limits of the microcode (at most 256 periods, a period of fewer than 41 * 8192 bytes and no longer
  than the buffer).
\<close>

theorem lost_start_wedges_channel:
  assumes "dmac_wf x" "i < NumChan (Config x)" "audio_limits (of_nat i) len periodLen"
    and "stands_still i x" "always_busy x" "time_passes x" "\<not> ReqRunning (thread_of i x)"
  shows "\<exists>y. SubmitAudioDMA i fd s d len periodLen x = Some (STATUS_SUCCESS, y)
     \<and> dmacLog y = dmacLog x @ [(INTEN, dmacInten x OR event_bit i)]
     \<and> (\<forall>z. (client_attempt i)\<^sup>*\<^sup>* y z \<longrightarrow> dmacLog z = dmacLog y
          \<and> (\<forall>fd' s' d' len' periodLen'. audio_limits (of_nat i) len' periodLen' \<longrightarrow>
               (\<exists>w. SubmitAudioDMA i fd' s' d' len' periodLen' z = Some (STATUS_SUCCESS, w)))
          \<and> StopThread (Some i) z \<noteq> None \<and> FreeHandle (Some i) z = (False, z))"
proof -
  obtain mem mem' where submit: "SubmitAudioDMA i fd s d len periodLen x = Option.bind (dma_start i (submitted i fd s d len periodLen mem' x))
       (\<lambda>(started, x). Some (if started then STATUS_SUCCESS else STATUS_UNSUCCESSFUL, x))"
    by (rule submit_starts [OF assms(1-3), of fd s d])
  define b where "b = submitted i fd s d len periodLen mem' x"
  note b_frame = submitted_frame [OF assms(1,2), of fd s d len periodLen mem', folded b_def]
  note id = channel_id [OF assms(1,2)]
  define c where "c = write32 INTEN (dmacInten x OR event_bit i) (b\<lparr>dmacTick := Suc (Suc (Suc (dmacTick b)))\<rparr>)"
  have "always_busy c" "time_passes c" using assms(5,6) by (simp_all add: always_busy_def time_passes_def c_def write32_def b_frame)
  from execute_busy [OF this] obtain e where e: "execute_DBGINSN i (insn_buffer (emit_GO (of_nat i) (MCbus (thread_of i b)) 1)) True c = Some e"
    and u: "untimed e = untimed c" by blast
  define y where "y = update_thread i (\<lambda>t. t\<lparr>ReqRunning := True\<rparr>) e"
  have start: "dma_start i b = Some (True, y)"
    using trigger_stopped [of i b] assms(2,4,7) id b_frame e by (simp add: c_def y_def)
  then have y: "SubmitAudioDMA i fd s d len periodLen x = Some (STATUS_SUCCESS, y)" using submit by (simp add: b_def)
  have "dmacLog (untimed e) = dmacLog (untimed c)" "Channels (untimed e) = Channels (untimed c)" by (simp_all add: u)
  then have fields: "dmacLog e = dmacLog c" "Channels e = Channels b" by (simp_all add: untimed_def c_def write32_def)
  then have log: "dmacLog y = dmacLog x @ [(INTEN, dmacInten x OR event_bit i)]"
    by (simp add: y_def update_thread_def c_def write32_def b_frame)
  have "dmacDevice (core y) = dmacDevice (core b)" using core_start [OF start] by simp
  then have "stands_still i y" using assms(4) by (simp add: stands_still_def core_def untimed_def b_frame)
  moreover have "dmac_wf y" "Config y = Config x" using keeps_submit [OF y] assms(1) by (simp_all add: keeps_pool_def)
  moreover have "ReqRunning (thread_of i y)"
  proof -
    obtain ts where "Channels x = Some ts" "i < length ts" using wf_channel [OF assms(1), of i] assms(2) by auto
    then show ?thesis by (simp add: y_def fields b_def submitted_def update_thread_def thread_of_def)
  qed
  ultimately have "wedged i y" using assms(2) by (simp add: wedged_def)
  then have later: "dmacLog z = dmacLog y
      \<and> (\<forall>fd' s' d' len' periodLen'. audio_limits (of_nat i) len' periodLen' \<longrightarrow>
           (\<exists>w. SubmitAudioDMA i fd' s' d' len' periodLen' z = Some (STATUS_SUCCESS, w)))
      \<and> StopThread (Some i) z \<noteq> None \<and> FreeHandle (Some i) z = (False, z)" if "(client_attempt i)\<^sup>*\<^sup>* y z" for z
    using wedged_run [OF that] wedged_submit [of i z] wedged_stop [of i z] wedged_give [of i z] by blast
  show ?thesis using y log later by blast
qed

definition busy_dmac :: PL330DMA_CONTEXT where
  "busy_dmac = demo_dmac\<lparr>dmacDevice := (\<lambda>n r. if r = DBGSTATUS then 1 else 0), dmacClock := (\<lambda>n. 100000 * int n)\<rparr>"

lemma lost_start_wedges_channel_witness:
  "\<exists>y z. SubmitAudioDMA 1 False 0x40000000 0xFE470024 0x3840 0x1C20 busy_dmac = Some (STATUS_SUCCESS, y)
     \<and> StopThread (Some 1) y = Some z \<and> FreeHandle (Some 1) z = (False, z) \<and> dmacLog z = dmacLog y
     \<and> (\<exists>w. SubmitAudioDMA 1 True 0x40000000 0xFE470024 0x7080 0x1C20 z = Some (STATUS_SUCCESS, w))"
proof -
  have "dmac_wf busy_dmac" "NumChan (Config busy_dmac) = 2" "\<not> ReqRunning (thread_of 1 busy_dmac)"
    using demo_dmac_ok demo_thread(1) [of 1] by (auto simp: busy_dmac_def dmac_wf_def thread_of_def split: option.splits)
  moreover have "stands_still 1 busy_dmac" "always_busy busy_dmac"
    by (simp_all add: stands_still_def always_busy_def busy_dmac_def CS_def DBGSTATUS_def DS_ST_STOP_def DBG_BUSY_def)
  moreover have "time_passes busy_dmac"
    unfolding time_passes_def by (intro allI exI [of _ "_ + 1"]) (auto simp: busy_dmac_def)
  moreover have "audio_limits (of_nat 1) 0x3840 0x1C20" by (simp add: audio_limits_def)
  ultimately obtain y where y: "SubmitAudioDMA 1 False 0x40000000 0xFE470024 0x3840 0x1C20 busy_dmac = Some (STATUS_SUCCESS, y)"
    and later: "\<forall>z. (client_attempt 1)\<^sup>*\<^sup>* y z \<longrightarrow> dmacLog z = dmacLog y
          \<and> (\<forall>fd' s' d' len' periodLen'. audio_limits (of_nat 1) len' periodLen' \<longrightarrow>
               (\<exists>w. SubmitAudioDMA 1 fd' s' d' len' periodLen' z = Some (STATUS_SUCCESS, w)))
          \<and> StopThread (Some 1) z \<noteq> None \<and> FreeHandle (Some 1) z = (False, z)"
    using lost_start_wedges_channel [of busy_dmac 1 "0x3840" "0x1C20" False "0x40000000" "0xFE470024"] by (auto simp del: of_nat_1)
  obtain z where z: "StopThread (Some 1) y = Some z" using later by blast
  have "(client_attempt 1)\<^sup>*\<^sup>* y z" using client_attempt.stop [OF z] by (rule r_into_rtranclp)
  moreover have "audio_limits (of_nat 1) 0x7080 0x1C20" by (simp add: audio_limits_def)
  ultimately show ?thesis using y z later by blast
qed

section \<open>The interrupt\<close>

text \<open>The events from \<open>e\<close> on that are pending and enabled.\<close>

definition enabled_events :: "nat \<Rightarrow> u32 \<Rightarrow> PL330DMA_CONTEXT \<Rightarrow> nat list" where
  "enabled_events e v x = filter (\<lambda>k. v AND event_bit k \<noteq> 0 \<and> dmacInten x AND event_bit k \<noteq> 0) [e..<NumEvents (Config x)]"

lemma irq_events_effect:
  "irq_events e v q x = (r, y) \<Longrightarrow>
   dmacLog y = dmacLog x @ map (\<lambda>k. (INTCLR, event_bit k)) (enabled_events e v x) \<and> r = (q \<or> enabled_events e v x \<noteq> [])"
proof (induction e v q x rule: irq_events.induct)
  case (1 e v q x)
  show ?case
  proof (cases "e < NumEvents (Config x)")
    case False
    with 1(4) show ?thesis by (subst (asm) irq_events.simps) (simp add: enabled_events_def)
  next
    case True
    let ?y = "x\<lparr>dmacTick := Suc (dmacTick x)\<rparr>"
    have read: "read32 INTEN x = (dmacInten x, ?y)" by (simp add: read32_def)
    have clear: "dmacLog (write32 INTCLR c ?y) = dmacLog x @ [(INTCLR, c)]" for c by (simp add: write32_def)
    have ends: "enabled_events e v x = (if v AND event_bit e \<noteq> 0 \<and> dmacInten x AND event_bit e \<noteq> 0 then [e] else []) @ enabled_events (Suc e) v x"
      "enabled_events (Suc e) v ?y = enabled_events (Suc e) v x"
      "enabled_events (Suc e) v (write32 INTCLR c ?y) = enabled_events (Suc e) v x" for c
      using True by (simp_all add: enabled_events_def upt_conv_Cons write32_def INTCLR_def INTEN_def)
    from 1(4) True read
    consider "v AND event_bit e = 0" "irq_events (Suc e) v q x = (r, y)"
      | "v AND event_bit e \<noteq> 0" "dmacInten x AND event_bit e = 0" "irq_events (Suc e) v q ?y = (r, y)"
      | "v AND event_bit e \<noteq> 0" "dmacInten x AND event_bit e \<noteq> 0"
        "irq_events (Suc e) v True (write32 INTCLR (event_bit e) ?y) = (r, y)"
      by (subst (asm) irq_events.simps) (auto split: if_splits)
    then show ?thesis
    proof cases
      case a: 1
      with 1(3) [OF True] show ?thesis by (simp add: ends)
    next
      case a: 2
      with 1(2) [OF True _ read [symmetric]] show ?thesis by (simp add: ends)
    next
      case a: 3
      with 1(1) [OF True _ read [symmetric]] show ?thesis by (simp add: ends clear)
    qed
  qed
qed

lemma irq_effect:
  assumes "pl330_dma_irq x = (b, q, y)"
  defines "v \<equiv> dmacDevice x (dmacTick x + 2) ES"
  defines "es \<equiv> enabled_events 0 v x"
  shows "b \<and> q = (es \<noteq> []) \<and> irqLastEvents y = v \<and> dmacLog y = dmacLog x @ map (\<lambda>k. (INTCLR, event_bit k)) es \<and> Config y = Config x
     \<and> Channels (core y) = Channels (core x) \<and> called y = called x"
proof -
  let ?x = "x\<lparr>dmacTick := Suc (Suc (Suc (dmacTick x))), irqLastEvents := v\<rparr>"
  obtain q' y' where e: "irq_events 0 v False ?x = (q', y')" by fastforce
  have "pl330_dma_irq x = (True, q', y')"
    using e by (simp add: pl330_dma_irq_def read32_def Let_def FSM_def FSC_def ES_def INTEN_def v_def)
  with assms(1) have y: "b" "q' = q" "y' = y" by auto
  have c: "core y = core ?x" using core_irq_events [OF e] y by simp
  have "irqLastEvents (core y) = irqLastEvents (core ?x)" "Config (core y) = Config (core ?x)" "called (core y) = called (core ?x)"
    "Channels (core y) = Channels (core ?x)" by (simp_all add: c)
  then have "irqLastEvents y = v" "Config y = Config x" "called y = called x" "Channels (core y) = Channels (core x)"
    by (simp_all add: core_def untimed_def)
  moreover have "enabled_events 0 v ?x = es" by (simp add: es_def enabled_events_def)
  ultimately show ?thesis using irq_events_effect [OF e] y by simp
qed

lemma event_callbacks_core: "event_callbacks (t\<lparr>ReqRunning := r\<rparr>) = event_callbacks t"
  by (simp add: event_callbacks_def)

lemma dpc_events_effect:
  assumes "Channels x = Some ts" "\<forall>e\<in>set es. v AND event_bit e \<noteq> 0 \<longrightarrow> e < length ts"
  shows "\<exists>y. dpc_events es v x = Some y \<and> called y = called x @ concat (map (\<lambda>e. event_callbacks (ts ! e)) (filter (\<lambda>e. v AND event_bit e \<noteq> 0) es))"
  using assms
proof (induction es arbitrary: x)
  case (Cons e es)
  from Cons.IH [of x] Cons.IH [of "x\<lparr>called := called x @ event_callbacks (ts ! e)\<rparr>"] Cons.prems show ?case by auto
qed simp

text \<open>The callbacks of all pending events, thread by thread.\<close>

definition pending_callbacks :: "u32 \<Rightarrow> nat \<Rightarrow> PL330DMA_THREAD list \<Rightarrow> (nat \<times> nat) list" where
  "pending_callbacks v n ts = concat (map (\<lambda>e. event_callbacks (ts ! e)) (filter (\<lambda>e. v AND event_bit e \<noteq> 0) [0..<n]))"

definition events_have_threads :: "u32 \<Rightarrow> nat \<Rightarrow> PL330DMA_THREAD list \<Rightarrow> bool" where
  "events_have_threads v n ts \<longleftrightarrow> filter (\<lambda>e. v AND event_bit e \<noteq> 0 \<and> length ts \<le> e) [0..<n] = []"

lemma channels_core:
  assumes "Channels x = Some ts" "Channels (core y) = Channels (core x)"
  obtains us where "Channels y = Some us" "length us = length ts" "\<And>e. e < length ts \<Longrightarrow> event_callbacks (us ! e) = event_callbacks (ts ! e)"
proof -
  from assms obtain us where us: "Channels y = Some us" "map (\<lambda>t. t\<lparr>ReqRunning := False\<rparr>) us = map (\<lambda>t. t\<lparr>ReqRunning := False\<rparr>) ts"
    by (auto simp: core_def untimed_def)
  then have len: "length us = length ts" by (metis length_map)
  have "event_callbacks (us ! e) = event_callbacks (ts ! e)" if "e < length ts" for e
  proof -
    have "(us ! e)\<lparr>ReqRunning := False\<rparr> = (ts ! e)\<lparr>ReqRunning := False\<rparr>"
      using arg_cong [OF us(2), of "\<lambda>l. l ! e"] that len by simp
    then show ?thesis by (metis event_callbacks_core)
  qed
  with us(1) len show ?thesis by (rule that)
qed

lemma dpc_effect:
  assumes "Channels x = Some ts" "Channels (core y) = Channels (core x)" "events_have_threads (irqLastEvents y) (NumEvents (Config y)) ts"
  shows "\<exists>z. pl330_dma_dpc y = Some z \<and> called z = called y @ pending_callbacks (irqLastEvents y) (NumEvents (Config y)) ts"
proof -
  obtain us where us: "Channels y = Some us" "length us = length ts" "\<And>e. e < length ts \<Longrightarrow> event_callbacks (us ! e) = event_callbacks (ts ! e)"
    using channels_core [OF assms(1,2)] by blast
  have small: "\<forall>e\<in>set [0..<NumEvents (Config y)]. irqLastEvents y AND event_bit e \<noteq> 0 \<longrightarrow> e < length us"
    using assms(3) us(2) by (auto simp: events_have_threads_def filter_empty_conv)
  have "map (\<lambda>e. event_callbacks (us ! e)) (filter (\<lambda>e. irqLastEvents y AND event_bit e \<noteq> 0) [0..<NumEvents (Config y)]) =
      map (\<lambda>e. event_callbacks (ts ! e)) (filter (\<lambda>e. irqLastEvents y AND event_bit e \<noteq> 0) [0..<NumEvents (Config y)])"
    using small us(2,3) by (intro map_cong) auto
  with dpc_events_effect [OF us(1) small] show ?thesis
    unfolding pl330_dma_dpc_def pending_callbacks_def by simp
qed

text \<open>C40: An interrupt clears exactly the events that are pending and enabled, lowest first, and asks for the deferred
  procedure exactly when there is one. The deferred procedure then calls, thread by thread and slot by slot, every
  callback registered on the channel of a pending event, enabled or not, provided every pending event has a thread.
\<close>

theorem interrupt_notifies_clients:
  assumes "pl330_dma_irq x = (b, q, y)" "Channels x = Some ts"
  defines "v \<equiv> dmacDevice x (dmacTick x + 2) ES" and "n \<equiv> NumEvents (Config x)"
  assumes "events_have_threads v n ts"
  shows "b \<and> dmacLog y = dmacLog x @ map (\<lambda>k. (INTCLR, event_bit k)) (enabled_events 0 v x) \<and> q = (enabled_events 0 v x \<noteq> [])
     \<and> (\<exists>z. pl330_dma_dpc y = Some z \<and> called z = called x @ pending_callbacks v n ts)"
  using irq_effect [OF assms(1)] dpc_effect [OF assms(2), of y] assms(5) unfolding v_def n_def by simp

definition ringing_dmac :: PL330DMA_CONTEXT where
  "ringing_dmac = demo_dmac0\<lparr>Config := (Config demo_dmac0)\<lparr>NumChan := 1, NumEvents := 1\<rparr>, dmacInten := 1,
     Channels := Some [zero_thread\<lparr>registeredCallbacks := [\<lparr>InUse = True, Fdo = Some 1, NotificationCallback = 7, CallbackContext = 9\<rparr>]\<rparr>],
     dmacDevice := (\<lambda>n r. if n < 3 then 1 else 0)\<rparr>"

lemma interrupt_notifies_clients_witness:
  "case pl330_dma_irq ringing_dmac of (b, q, y) \<Rightarrow> q \<and> (\<exists>z. pl330_dma_dpc y = Some z \<and> called z = [(7, 9)])"
proof -
  obtain b q y where y: "pl330_dma_irq ringing_dmac = (b, q, y)" by (metis prod_cases3)
  have "q \<and> (\<exists>z. pl330_dma_dpc y = Some z \<and> called z = [(7, 9)])"
    using interrupt_notifies_clients [OF y, of "the (Channels ringing_dmac)"]
    by (simp add: ringing_dmac_def demo_dmac0_def events_have_threads_def pending_callbacks_def enabled_events_def event_bit_def event_callbacks_def)
  then show ?thesis by (simp add: y)
qed

text \<open>Events are not kept for the deferred procedure. When a second interrupt comes before it runs, the events of the
  first have been cleared in the controller and are forgotten by the driver: only the callbacks of the second
  interrupt's events are called.
\<close>

theorem second_interrupt_hides_first:
  assumes "pl330_dma_irq x = (b, q, y)" "pl330_dma_irq y = (b', q', z)" "Channels x = Some ts"
  defines "v \<equiv> dmacDevice x (dmacTick x + 2) ES" and "w \<equiv> dmacDevice y (dmacTick y + 2) ES" and "n \<equiv> NumEvents (Config x)"
  assumes "events_have_threads w n ts"
  shows "(\<exists>cs. dmacLog z = dmacLog x @ map (\<lambda>k. (INTCLR, event_bit k)) (enabled_events 0 v x) @ cs)
     \<and> (\<exists>u. pl330_dma_dpc z = Some u \<and> called u = called x @ pending_callbacks w n ts)"
proof -
  note first = irq_effect [OF assms(1), folded v_def] and second = irq_effect [OF assms(2), folded w_def]
  have "Channels (core z) = Channels (core x)" using first second by simp
  from dpc_effect [OF assms(3) this] assms(7) first second show ?thesis by (simp add: n_def)
qed

lemma second_interrupt_hides_first_witness:
  "case pl330_dma_irq ringing_dmac of (b, q, y) \<Rightarrow> q \<and> (case pl330_dma_irq y of (b', q', z) \<Rightarrow>
     \<exists>u. pl330_dma_dpc z = Some u \<and> called u = [])"
proof -
  obtain b q y where y: "pl330_dma_irq ringing_dmac = (b, q, y)" by (metis prod_cases3)
  obtain b' q' z where z: "pl330_dma_irq y = (b', q', z)" by (metis prod_cases3)
  have "y = snd (snd (pl330_dma_irq ringing_dmac))" "q = fst (snd (pl330_dma_irq ringing_dmac))" by (simp_all add: y)
  then have d: "dmacDevice y (dmacTick y + 2) ES = 0" and q: "q"
    by (simp_all add: pl330_dma_irq_def irq_events.simps read32_def write32_def Let_def ringing_dmac_def demo_dmac0_def event_bit_def
        FSM_def FSC_def ES_def INTEN_def)
  have "\<exists>u. pl330_dma_dpc z = Some u \<and> called u = []"
    using second_interrupt_hides_first [OF y z, of "the (Channels ringing_dmac)"] d
    by (simp add: ringing_dmac_def demo_dmac0_def events_have_threads_def pending_callbacks_def)
  with q show ?thesis by (simp add: y z)
qed

section \<open>Callbacks\<close>

lemma first_slot_cleared:
  assumes "if InUse c then NotificationCallback c = callback \<or> CallbackContext c = cx else True" "registeredCallbacks t ! 0 = c"
  shows "slot_to_clear 0 callback cx t = Some 0"
  using assms by (subst slot_to_clear.simps) (auto simp: MAX_NOTIF_EVENTS_def Let_def split: if_splits)

text \<open>Taking back a callback hits the wrong one. The first slot is cleared not only for the callback and context that
  are taken back, but also when only one of them is the same, and when the slot is not in use at all; if that slot was
  never used, the driver goes through its null device object.
\<close>

theorem unregister_hits_first_slot:
  fixes x :: PL330DMA_CONTEXT and i :: nat
  defines "c \<equiv> registeredCallbacks (thread_of i x) ! 0"
  assumes "if InUse c then NotificationCallback c = callback \<or> CallbackContext c = cx else True"
  shows "UnregisterNotificationCallback (Some i) callback cx x =
     (case Fdo c of None \<Rightarrow> None
      | Some fdo \<Rightarrow> Some (STATUS_SUCCESS, update_thread i (\<lambda>t. t\<lparr>registeredCallbacks := (registeredCallbacks t)[0 := zero_callback]\<rparr>)
                           (x\<lparr>references := (references x)(fdo := references x fdo - 1)\<rparr>)))"
proof -
  have "slot_to_clear 0 callback cx (thread_of i x) = Some 0" by (rule first_slot_cleared [OF assms(2)]) (simp add: c_def)
  then show ?thesis by (simp add: UnregisterNotificationCallback_def c_def Let_def split: option.split)
qed

lemma unregister_hits_first_slot_witness:
  "UnregisterNotificationCallback (Some 0) 7 1234 ringing_dmac \<noteq> None
   \<and> UnregisterNotificationCallback (Some 0) 7 9 (ringing_dmac\<lparr>Channels := Some [zero_thread]\<rparr>) = None"
  using unregister_hits_first_slot [of 0 ringing_dmac 7 1234]
    unregister_hits_first_slot [of 0 "ringing_dmac\<lparr>Channels := Some [zero_thread]\<rparr>" 7 9]
  by (simp add: ringing_dmac_def thread_of_def zero_thread_def zero_callback_def MAX_NOTIF_EVENTS_def)

end
