(* ===== verification/SpiDevice.thy ===== *)
theory SpiDevice imports NtStatus begin

text \<open>
  The SPI controller (src/drivers/spi/rk3xspi): its registers (rk3xspi_regs.h), the driver's contexts (rk3xspi.h), and
  the controller's side of a transfer, after the description at the head of hw.c: in transmit and receive mode every
  frame clocked out of the transmit FIFO brings one frame into the receive FIFO.

  The controller works at its own pace: \<open>pace k\<close> frames are clocked before the k-th register access, and
  \<open>lingers k\<close> lets it report itself busy a while longer. The device at the other end of the wires is \<open>slave\<close>: what
  it answers to a frame depends on all that happened on the wires so far. A chip select is active while the
  controller is enabled and selects it; disabling the controller drops it (spb.c says so) and empties the FIFOs.
\<close>

unbundle bit_operations_syntax

section \<open>Registers\<close>

definition RKSPI_CTRLR0 :: u32 where "RKSPI_CTRLR0 = 0x0000"
definition RKSPI_CTRLR1 :: u32 where "RKSPI_CTRLR1 = 0x0004"
definition RKSPI_SSIENR :: u32 where "RKSPI_SSIENR = 0x0008"
definition RKSPI_SER :: u32 where "RKSPI_SER = 0x000C"
definition RKSPI_BAUDR :: u32 where "RKSPI_BAUDR = 0x0010"
definition RKSPI_SR :: u32 where "RKSPI_SR = 0x0024"
definition RKSPI_IMR :: u32 where "RKSPI_IMR = 0x002C"
definition RKSPI_DMACR :: u32 where "RKSPI_DMACR = 0x003C"
definition RKSPI_TXDR :: u32 where "RKSPI_TXDR = 0x0400"
definition RKSPI_RXDR :: u32 where "RKSPI_RXDR = 0x0800"

definition RKSPI_CR0_DFS_8BIT :: u32 where "RKSPI_CR0_DFS_8BIT = push_bit 0 0x1"
definition RKSPI_CR0_SCPH :: u32 where "RKSPI_CR0_SCPH = push_bit 6 1"
definition RKSPI_CR0_SCPOL :: u32 where "RKSPI_CR0_SCPOL = push_bit 7 1"
definition RKSPI_CR0_CSM_KEEP :: u32 where "RKSPI_CR0_CSM_KEEP = push_bit 8 0"
definition RKSPI_CR0_FBM_MSB :: u32 where "RKSPI_CR0_FBM_MSB = push_bit 12 0"
definition RKSPI_CR0_FRF_SPI :: u32 where "RKSPI_CR0_FRF_SPI = push_bit 16 0"
definition RKSPI_CR0_XFM_TR :: u32 where "RKSPI_CR0_XFM_TR = push_bit 18 0"
definition RKSPI_CR0_OPM_MASTER :: u32 where "RKSPI_CR0_OPM_MASTER = push_bit 20 0"

definition RKSPI_SR_BUSY :: u32 where "RKSPI_SR_BUSY = push_bit 0 1"
definition RKSPI_SR_TF_FULL :: u32 where "RKSPI_SR_TF_FULL = push_bit 1 1"
definition RKSPI_SR_RF_EMPTY :: u32 where "RKSPI_SR_RF_EMPTY = push_bit 3 1"

definition RKSPI_SSIENR_ENABLE :: u32 where "RKSPI_SSIENR_ENABLE = push_bit 0 1"
definition RKSPI_SER_CS :: "u32 \<Rightarrow> u32" where "RKSPI_SER_CS n = push_bit (unat n) 1"

definition RKSPI_BAUDR_MIN :: u32 where "RKSPI_BAUDR_MIN = 2"
definition RKSPI_BAUDR_MAX :: u32 where "RKSPI_BAUDR_MAX = 65534"
definition RKSPI_FIFO_DEPTH :: u32 where "RKSPI_FIFO_DEPTH = 32"
definition RKSPI_MAX_FRAMES :: u32 where "RKSPI_MAX_FRAMES = 0xFFFF"

definition RK3XSPI_INPUT_CLK_HZ :: u32 where "RK3XSPI_INPUT_CLK_HZ = 200000000"
definition RK3XSPI_DEFAULT_HZ :: u32 where "RK3XSPI_DEFAULT_HZ = 1000000"
definition RK3XSPI_XFER_TIMEOUT_US :: int where "RK3XSPI_XFER_TIMEOUT_US = 1000000"

lemmas spi_offsets = RKSPI_CTRLR0_def RKSPI_CTRLR1_def RKSPI_SSIENR_def RKSPI_SER_def RKSPI_BAUDR_def RKSPI_SR_def
  RKSPI_IMR_def RKSPI_DMACR_def RKSPI_TXDR_def RKSPI_RXDR_def

section \<open>The controller and the wires\<close>

datatype spi_event = Select u32 | Frame u8 | Deselect

record SPI_STATE =
  spiRegs :: "u32 \<Rightarrow> u32"
  spiWrites :: "(u32 \<times> u32) list"
  txFifo :: "u8 list"
  rxFifo :: "u8 list"
  wires :: "spi_event list"
  spiTime :: nat
  spiQueries :: nat

record SPI_ENVIRONMENT =
  pace :: "nat \<Rightarrow> nat"
  lingers :: "nat \<Rightarrow> bool"
  slave :: "spi_event list \<Rightarrow> u8"
  fifoDepth :: nat
  PerformanceCounter :: "nat \<Rightarrow> int"
  PerformanceFrequency :: int

text \<open>The chip selects the controller drives.\<close>

definition selection :: "SPI_STATE \<Rightarrow> u32" where
  "selection s = (if bit (spiRegs s RKSPI_SSIENR) 0 then spiRegs s RKSPI_SER else 0)"

definition clock_frame :: "SPI_ENVIRONMENT \<Rightarrow> SPI_STATE \<Rightarrow> SPI_STATE" where
  "clock_frame E s =
     (if selection s = 0 then s
      else (case txFifo s of [] \<Rightarrow> s
        | b # bs \<Rightarrow>
            let w = wires s @ [Frame b]
            in s\<lparr>wires := w, txFifo := bs,
                 rxFifo := (if length (rxFifo s) < fifoDepth E then rxFifo s @ [slave E w] else rxFifo s)\<rparr>))"

definition status_register :: "SPI_ENVIRONMENT \<Rightarrow> SPI_STATE \<Rightarrow> u32" where
  "status_register E s =
     (if txFifo s \<noteq> [] \<or> lingers E (spiTime s) then RKSPI_SR_BUSY else 0)
     OR (if fifoDepth E \<le> length (txFifo s) then RKSPI_SR_TF_FULL else 0)
     OR (if rxFifo s = [] then RKSPI_SR_RF_EMPTY else 0)"

section \<open>Register access\<close>

text \<open>The controller has moved on by the time of an access; reading the data register takes a frame.\<close>

definition move_on :: "SPI_ENVIRONMENT \<Rightarrow> SPI_STATE \<Rightarrow> SPI_STATE" where
  "move_on E s = ((clock_frame E ^^ pace E (spiTime s)) s)\<lparr>spiTime := Suc (spiTime s)\<rparr>"

definition RkSpiRead :: "SPI_ENVIRONMENT \<Rightarrow> u32 \<Rightarrow> SPI_STATE \<Rightarrow> u32 \<times> SPI_STATE" where
  "RkSpiRead E Off s0 =
     (let s = move_on E s0
      in if Off = RKSPI_SR then (status_register E s, s)
         else if Off = RKSPI_RXDR
           then (case rxFifo s of [] \<Rightarrow> (0, s) | b # bs \<Rightarrow> (ucast b, s\<lparr>rxFifo := bs\<rparr>))
         else (spiRegs s Off, s))"

definition selected :: "u32 \<Rightarrow> u32 \<Rightarrow> spi_event list" where
  "selected old new = (if old = new then [] else (if old = 0 then [] else [Deselect]) @ (if new = 0 then [] else [Select new]))"

definition RkSpiWrite :: "SPI_ENVIRONMENT \<Rightarrow> u32 \<Rightarrow> u32 \<Rightarrow> SPI_STATE \<Rightarrow> SPI_STATE" where
  "RkSpiWrite E Off Value s0 =
     (let s = move_on E s0;
          t = s\<lparr>spiRegs := (spiRegs s)(Off := Value), spiWrites := spiWrites s @ [(Off, Value)]\<rparr>;
          t = t\<lparr>wires := wires s @ selected (selection s) (selection t)\<rparr>
      in if Off = RKSPI_TXDR
           then (if length (txFifo s) < fifoDepth E \<and> bit (spiRegs s RKSPI_SSIENR) 0
                 then t\<lparr>txFifo := txFifo s @ [ucast Value]\<rparr> else t)
         else if Off = RKSPI_SSIENR \<and> \<not> bit Value 0 then t\<lparr>txFifo := [], rxFifo := []\<rparr>
         else t)"

section \<open>Contexts\<close>

record RK3XSPI_TARGET =
  ChipSelect :: u32
  ConnectionSpeed :: u32
  Baudr :: u32
  CpolHigh :: bool
  CphaSecond :: bool

section \<open>The divider\<close>

definition Rk3xSpiComputeBaudr :: "u32 \<Rightarrow> u32 \<Rightarrow> u32" where
  "Rk3xSpiComputeBaudr InputClockHz TargetHz0 =
     (let TargetHz = (if TargetHz0 = 0 then RK3XSPI_DEFAULT_HZ else TargetHz0);
          baudr = (InputClockHz + TargetHz - 1) div TargetHz;
          baudr = (if baudr < RKSPI_BAUDR_MIN then RKSPI_BAUDR_MIN else baudr);
          baudr = (baudr + 1) AND NOT 1
      in if baudr > RKSPI_BAUDR_MAX then RKSPI_BAUDR_MAX else baudr)"

definition Rk3xSpiHwInit :: "SPI_ENVIRONMENT \<Rightarrow> SPI_STATE \<Rightarrow> SPI_STATE" where
  "Rk3xSpiHwInit E s = RkSpiWrite E RKSPI_DMACR 0 (RkSpiWrite E RKSPI_IMR 0 (RkSpiWrite E RKSPI_SSIENR 0 s))"

end
