(* ===== verification/SpiTransfer.thy ===== *)
theory SpiTransfer imports SpiDevice begin

text \<open>
  The transfer engine of the SPI driver (hw.c): frames are pushed while the transmit FIFO takes them and at most 32 are
  on their way, received frames are drained, chunk by chunk of at most 65535 frames, and every loop is watched by the
  performance counter.
\<close>

unbundle bit_operations_syntax

definition query_counter :: "SPI_ENVIRONMENT \<Rightarrow> SPI_STATE \<Rightarrow> int \<times> SPI_STATE" where
  "query_counter E s = (PerformanceCounter E (spiQueries s), s\<lparr>spiQueries := Suc (spiQueries s)\<rparr>)"

definition timed_out_at :: "SPI_ENVIRONMENT \<Rightarrow> int \<Rightarrow> int \<Rightarrow> bool" where
  "timed_out_at E Start now \<longleftrightarrow> (now - Start) * 1000000 div PerformanceFrequency E > RK3XSPI_XFER_TIMEOUT_US"

definition Rk3xSpiTimedOut :: "SPI_ENVIRONMENT \<Rightarrow> int \<Rightarrow> SPI_STATE \<Rightarrow> bool \<times> SPI_STATE" where
  "Rk3xSpiTimedOut E Start s = (case query_counter E s of (now, s) \<Rightarrow> (timed_out_at E Start now, s))"

text \<open>A NULL buffer clocks zeros out; it takes nothing in.\<close>

definition tx_byte :: "u8 list option \<Rightarrow> u32 \<Rightarrow> u8" where
  "tx_byte Tx i = (case Tx of Some buf \<Rightarrow> buf ! unat i | None \<Rightarrow> 0)"

definition rx_store :: "u8 list option \<Rightarrow> u32 \<Rightarrow> u8 \<Rightarrow> u8 list option" where
  "rx_store Rx i b = map_option (\<lambda>buf. buf[unat i := b]) Rx"

text \<open>The loop that pushes frames. The status register is read only if the other conditions hold.\<close>

function push_frames :: "SPI_ENVIRONMENT \<Rightarrow> u8 list option \<Rightarrow> u32 \<Rightarrow> u32 \<Rightarrow> u32 \<Rightarrow> u32 \<Rightarrow> SPI_STATE \<Rightarrow> u32 \<times> SPI_STATE" where
  "push_frames E Tx count chunk rxi txi s =
     (if txi < chunk \<and> txi - rxi < RKSPI_FIFO_DEPTH
      then (case RkSpiRead E RKSPI_SR s of (sr, s) \<Rightarrow>
        if sr AND RKSPI_SR_TF_FULL = 0
        then push_frames E Tx count chunk rxi (txi + 1) (RkSpiWrite E RKSPI_TXDR (ucast (tx_byte Tx (count + txi))) s)
        else (txi, s))
      else (txi, s))"
  by pat_completeness auto
termination
  by (relation "measure (\<lambda>(E, Tx, count, chunk, rxi, txi, s). unat chunk - unat txi)")
    (auto simp: unat_plus_one word_less_nat_alt)

text \<open>The loop that drains received frames; \<open>sr\<close> is the status read before the test.\<close>

function drain_frames :: "SPI_ENVIRONMENT \<Rightarrow> u32 \<Rightarrow> u32 \<Rightarrow> u32 \<Rightarrow> u32 \<Rightarrow> u8 list option \<Rightarrow> SPI_STATE \<Rightarrow> u32 \<times> u8 list option \<times> SPI_STATE" where
  "drain_frames E count chunk sr rxi Rx s =
     (if rxi < chunk \<and> sr AND RKSPI_SR_RF_EMPTY = 0
      then (case RkSpiRead E RKSPI_RXDR s of (v, s) \<Rightarrow>
            case RkSpiRead E RKSPI_SR s of (sr, s) \<Rightarrow>
              drain_frames E count chunk sr (rxi + 1) (rx_store Rx (count + rxi) (ucast v)) s)
      else (rxi, Rx, s))"
  by pat_completeness auto
termination
  by (relation "measure (\<lambda>(E, count, chunk, sr, rxi, Rx, s). unat chunk - unat rxi)")
    (auto simp: unat_plus_one word_less_nat_alt)

text \<open>One chunk: \<open>while (rxi < chunk)\<close>. \<open>None\<close>: the loop does not end.\<close>

partial_function (option) pump_chunk ::
  "SPI_ENVIRONMENT \<Rightarrow> int \<Rightarrow> u8 list option \<Rightarrow> u32 \<Rightarrow> u32 \<Rightarrow> u32 \<Rightarrow> u32 \<Rightarrow> u8 list option \<Rightarrow> SPI_STATE
     \<Rightarrow> (NTSTATUS \<times> u8 list option \<times> SPI_STATE) option" where
  "pump_chunk E start Tx count chunk txi rxi Rx s =
     (if rxi < chunk
      then (case push_frames E Tx count chunk rxi txi s of (txi, s) \<Rightarrow>
            case RkSpiRead E RKSPI_SR s of (sr, s) \<Rightarrow>
            case drain_frames E count chunk sr rxi Rx s of (rxi, Rx, s) \<Rightarrow>
            case Rk3xSpiTimedOut E start s of (late, s) \<Rightarrow>
              if late then Some (STATUS_IO_TIMEOUT, Rx, s)
              else pump_chunk E start Tx count chunk txi rxi Rx s)
      else Some (STATUS_SUCCESS, Rx, s))"

text \<open>\<open>while (RkSpiRead(regs, RKSPI_SR) & RKSPI_SR_BUSY)\<close>.\<close>

partial_function (option) wait_shifted :: "SPI_ENVIRONMENT \<Rightarrow> int \<Rightarrow> SPI_STATE \<Rightarrow> (NTSTATUS \<times> SPI_STATE) option" where
  "wait_shifted E start s =
     (case RkSpiRead E RKSPI_SR s of (sr, s) \<Rightarrow>
        if sr AND RKSPI_SR_BUSY = 0 then Some (STATUS_SUCCESS, s)
        else (case Rk3xSpiTimedOut E start s of (late, s) \<Rightarrow>
          if late then Some (STATUS_IO_TIMEOUT, s) else wait_shifted E start s))"

definition start_chunk :: "SPI_ENVIRONMENT \<Rightarrow> RK3XSPI_TARGET \<Rightarrow> u32 \<Rightarrow> SPI_STATE \<Rightarrow> SPI_STATE" where
  "start_chunk E Target chunk s =
     (let s = RkSpiWrite E RKSPI_SSIENR 0 s;
          s = RkSpiWrite E RKSPI_CTRLR1 (chunk - 1) s;
          s = RkSpiWrite E RKSPI_SSIENR RKSPI_SSIENR_ENABLE s
      in RkSpiWrite E RKSPI_SER (RKSPI_SER_CS (ChipSelect Target)) s)"

definition chunk_of :: "u32 \<Rightarrow> u32 \<Rightarrow> u32" where
  "chunk_of Length count = (let chunk = Length - count in if chunk > RKSPI_MAX_FRAMES then RKSPI_MAX_FRAMES else chunk)"

partial_function (option) transfer_chunks ::
  "SPI_ENVIRONMENT \<Rightarrow> RK3XSPI_TARGET \<Rightarrow> int \<Rightarrow> u8 list option \<Rightarrow> u32 \<Rightarrow> u32 \<Rightarrow> u8 list option \<Rightarrow> SPI_STATE
     \<Rightarrow> (NTSTATUS \<times> u8 list option \<times> SPI_STATE) option" where
  "transfer_chunks E Target start Tx Length count Rx s =
     (if count < Length
      then Option.bind (pump_chunk E start Tx count (chunk_of Length count) 0 0 Rx (start_chunk E Target (chunk_of Length count) s))
        (\<lambda>(status, Rx, s).
          if status \<noteq> STATUS_SUCCESS then Some (status, Rx, s)
          else Option.bind (wait_shifted E start s) (\<lambda>(status, s).
            if status \<noteq> STATUS_SUCCESS then Some (status, Rx, s)
            else transfer_chunks E Target start Tx Length (count + chunk_of Length count) Rx s))
      else Some (STATUS_SUCCESS, Rx, s))"

definition control_register :: "RK3XSPI_TARGET \<Rightarrow> u32" where
  "control_register Target =
     (let cr0 = RKSPI_CR0_DFS_8BIT OR RKSPI_CR0_FRF_SPI OR RKSPI_CR0_XFM_TR OR RKSPI_CR0_OPM_MASTER OR RKSPI_CR0_FBM_MSB OR RKSPI_CR0_CSM_KEEP;
          cr0 = (if CpolHigh Target then cr0 OR RKSPI_CR0_SCPOL else cr0)
      in if CphaSecond Target then cr0 OR RKSPI_CR0_SCPH else cr0)"

definition Rk3xSpiTransfer ::
  "SPI_ENVIRONMENT \<Rightarrow> RK3XSPI_TARGET \<Rightarrow> u8 list option \<Rightarrow> u8 list option \<Rightarrow> u32 \<Rightarrow> SPI_STATE
     \<Rightarrow> (NTSTATUS \<times> u8 list option \<times> SPI_STATE) option" where
  "Rk3xSpiTransfer E Target Tx Rx Length s =
     (if Length = 0 then Some (STATUS_SUCCESS, Rx, s)
      else let s = RkSpiWrite E RKSPI_SSIENR 0 s;
               s = RkSpiWrite E RKSPI_CTRLR0 (control_register Target) s;
               s = RkSpiWrite E RKSPI_BAUDR (Baudr Target) s
           in case query_counter E s of (start, s) \<Rightarrow>
              Option.bind (transfer_chunks E Target start Tx Length 0 Rx s) (\<lambda>(status, Rx, s).
                let s = RkSpiWrite E RKSPI_SER 0 s;
                    s = RkSpiWrite E RKSPI_SSIENR 0 s
                in Some (status, Rx, s)))"

end
