(* ===== verification/SpiRequests.thy ===== *)
theory SpiRequests imports SpiTransfer begin

text \<open>
  The requests of the SPI driver (spb.c): connecting a target, reads, writes, sequences and full-duplex transfers, and
  mapping the controller (driver.c).

  A transfer of a request is a segment: its length, its direction, and the memory its descriptor list is mapped to
  (\<open>None\<close>: there is none, or it cannot be mapped). Copying outside a buffer is the result \<open>Overrun\<close>.
\<close>

unbundle bit_operations_syntax

record SPB_SEGMENT =
  TransferLength :: u64
  ToDevice :: bool
  Mapped :: "u8 list option"

record SPB_REQUEST =
  Transfers :: "SPB_SEGMENT list"
  Information :: u32
  Completions :: "NTSTATUS list"

definition SpbRequestComplete :: "NTSTATUS \<Rightarrow> SPB_REQUEST \<Rightarrow> SPB_REQUEST" where
  "SpbRequestComplete status r = r\<lparr>Completions := Completions r @ [status]\<rparr>"

definition complete_with :: "NTSTATUS \<Rightarrow> u32 \<Rightarrow> SPB_REQUEST \<Rightarrow> SPB_REQUEST" where
  "complete_with status len r = SpbRequestComplete status (r\<lparr>Information := (if NT_SUCCESS status then len else 0)\<rparr>)"

text \<open>What \<open>Rk3xSpiMapTransfer\<close> finds of a segment: the buffer, the length as a ULONG, and whether it is a write.\<close>

definition Rk3xSpiMapTransfer :: "SPB_SEGMENT \<Rightarrow> u8 list option \<times> u32 \<times> bool" where
  "Rk3xSpiMapTransfer seg = (Mapped seg, ucast (TransferLength seg), ToDevice seg)"

definition put_mapped :: "nat \<Rightarrow> u8 list option \<Rightarrow> SPB_REQUEST \<Rightarrow> SPB_REQUEST" where
  "put_mapped i buf r = r\<lparr>Transfers := (Transfers r)[i := (Transfers r ! i)\<lparr>Mapped := buf\<rparr>]\<rparr>"

section \<open>Connecting a target\<close>

record SPI_CONNECTION =
  PropertiesLength :: u32
  SerialBusType :: u8
  RequestedSpeed :: u32
  DataBitLength :: u8
  Phase :: u8
  Polarity :: u8
  DeviceSelection :: u16

definition SPI_SERIAL_BUS_TYPE :: u8 where "SPI_SERIAL_BUS_TYPE = 0x02"

text \<open>
  \<open>descriptorSize\<close> is the size of the framework's \<open>PNP_SERIAL_BUS_DESCRIPTOR\<close>, \<open>allocated\<close> the status of allocating the
  target's context.
\<close>

definition Rk3xSpiEvtTargetConnect :: "nat \<Rightarrow> NTSTATUS \<Rightarrow> SPI_CONNECTION \<Rightarrow> NTSTATUS \<times> RK3XSPI_TARGET option" where
  "Rk3xSpiEvtTargetConnect descriptorSize allocated connection =
     (if unat (PropertiesLength connection) < descriptorSize then (STATUS_INVALID_PARAMETER, None)
      else if SerialBusType connection \<noteq> SPI_SERIAL_BUS_TYPE then (STATUS_NOT_SUPPORTED, None)
      else if DataBitLength connection \<noteq> 8 then (STATUS_NOT_SUPPORTED, None)
      else if \<not> NT_SUCCESS allocated then (allocated, None)
      else let speed = (if RequestedSpeed connection = 0 then RK3XSPI_DEFAULT_HZ else RequestedSpeed connection)
           in (STATUS_SUCCESS, Some \<lparr>ChipSelect = ucast (DeviceSelection connection), ConnectionSpeed = speed,
                Baudr = Rk3xSpiComputeBaudr RK3XSPI_INPUT_CLK_HZ speed,
                CpolHigh = Polarity connection \<noteq> 0, CphaSecond = Phase connection \<noteq> 0\<rparr>))"

section \<open>Single transfers\<close>

definition Rk3xSpiEvtIoRead :: "SPI_ENVIRONMENT \<Rightarrow> RK3XSPI_TARGET \<Rightarrow> SPB_REQUEST \<Rightarrow> SPI_STATE \<Rightarrow> (SPB_REQUEST \<times> SPI_STATE) option" where
  "Rk3xSpiEvtIoRead E target r s =
     (case Rk3xSpiMapTransfer (Transfers r ! 0) of (None, len, w) \<Rightarrow> Some (SpbRequestComplete STATUS_INSUFFICIENT_RESOURCES r, s)
      | (Some buffer, len, w) \<Rightarrow>
          Option.bind (Rk3xSpiTransfer E target None (Some buffer) len s)
            (\<lambda>(status, rx, s). Some (complete_with status len (put_mapped 0 rx r), s)))"

definition Rk3xSpiEvtIoWrite :: "SPI_ENVIRONMENT \<Rightarrow> RK3XSPI_TARGET \<Rightarrow> SPB_REQUEST \<Rightarrow> SPI_STATE \<Rightarrow> (SPB_REQUEST \<times> SPI_STATE) option" where
  "Rk3xSpiEvtIoWrite E target r s =
     (case Rk3xSpiMapTransfer (Transfers r ! 0) of (None, len, w) \<Rightarrow> Some (SpbRequestComplete STATUS_INSUFFICIENT_RESOURCES r, s)
      | (Some buffer, len, w) \<Rightarrow>
          Option.bind (Rk3xSpiTransfer E target (Some buffer) None len s)
            (\<lambda>(status, rx, s). Some (complete_with status len r, s)))"

text \<open>\<open>fullDuplex\<close>: the control code is \<open>IOCTL_SPB_FULL_DUPLEX\<close>.\<close>

definition Rk3xSpiEvtIoOther :: "SPI_ENVIRONMENT \<Rightarrow> RK3XSPI_TARGET \<Rightarrow> bool \<Rightarrow> SPB_REQUEST \<Rightarrow> SPI_STATE \<Rightarrow> (SPB_REQUEST \<times> SPI_STATE) option" where
  "Rk3xSpiEvtIoOther E target fullDuplex r s =
     (if \<not> fullDuplex then Some (SpbRequestComplete STATUS_NOT_SUPPORTED r, s)
      else case (Rk3xSpiMapTransfer (Transfers r ! 0), Rk3xSpiMapTransfer (Transfers r ! 1)) of
        ((Some tx, txLen, w), (Some rx, rxLen, w')) \<Rightarrow>
          if txLen \<noteq> rxLen then Some (SpbRequestComplete STATUS_INVALID_PARAMETER r, s)
          else Option.bind (Rk3xSpiTransfer E target (Some tx) (Some rx) txLen s)
            (\<lambda>(status, rx, s). Some (complete_with status txLen (put_mapped 1 rx r), s))
      | _ \<Rightarrow> Some (SpbRequestComplete STATUS_INVALID_PARAMETER r, s))"

section \<open>Sequences\<close>

datatype 'a access = Overrun | Within 'a

definition copy_into :: "nat \<Rightarrow> u8 list \<Rightarrow> u8 list \<Rightarrow> u8 list access" where
  "copy_into off bytes dest =
     (if off + length bytes \<le> length dest then Within (take off dest @ bytes @ drop (off + length bytes) dest) else Overrun)"

definition read_from :: "nat \<Rightarrow> nat \<Rightarrow> u8 list \<Rightarrow> u8 list access" where
  "read_from off len src = (if off + len \<le> length src then Within (take len (drop off src)) else Overrun)"

definition total_length :: "SPB_SEGMENT list \<Rightarrow> u32" where
  "total_length segs = foldl (\<lambda>total seg. total + ucast (TransferLength seg)) 0 segs"

text \<open>The bytes of the write segments put into the transmit buffer; \<open>None\<close>: a segment is not mapped.\<close>

fun gather :: "SPB_SEGMENT list \<Rightarrow> u32 \<Rightarrow> u8 list \<Rightarrow> u8 list option access" where
  "gather [] offset txBuf = Within (Some txBuf)"
| "gather (seg # segs) offset txBuf =
     (case Rk3xSpiMapTransfer seg of (None, len, w) \<Rightarrow> Within None
      | (Some buf, len, w) \<Rightarrow>
          if w then (case read_from 0 (unat len) buf of Overrun \<Rightarrow> Overrun
                     | Within bytes \<Rightarrow> (case copy_into (unat offset) bytes txBuf of Overrun \<Rightarrow> Overrun
                                        | Within txBuf \<Rightarrow> gather segs (offset + len) txBuf))
          else gather segs (offset + len) txBuf)"

text \<open>The received bytes put into the read segments.\<close>

fun scatter :: "SPB_SEGMENT list \<Rightarrow> u32 \<Rightarrow> u8 list \<Rightarrow> SPB_SEGMENT list access" where
  "scatter [] offset rxBuf = Within []"
| "scatter (seg # segs) offset rxBuf =
     (case Rk3xSpiMapTransfer seg of (buf, len, w) \<Rightarrow>
        let put = (case buf of None \<Rightarrow> Within seg
                   | Some b \<Rightarrow> if w then Within seg
                       else (case read_from (unat offset) (unat len) rxBuf of Overrun \<Rightarrow> Overrun
                             | Within bytes \<Rightarrow> (case copy_into 0 bytes b of Overrun \<Rightarrow> Overrun
                                                | Within b \<Rightarrow> Within (seg\<lparr>Mapped := Some b\<rparr>))))
        in case put of Overrun \<Rightarrow> Overrun
           | Within seg \<Rightarrow> (case scatter segs (offset + len) rxBuf of Overrun \<Rightarrow> Overrun | Within segs \<Rightarrow> Within (seg # segs)))"

text \<open>
  \<open>tx\<close> and \<open>rx\<close> say whether the pool has memory for the two buffers, which it gives out zeroed. The last component of the
  result counts the buffers allocated and not freed.
\<close>

definition cleanup :: "bool \<Rightarrow> bool \<Rightarrow> nat \<Rightarrow> nat" where
  "cleanup tx rx pool = (let pool = (if tx then pool - 1 else pool) in if rx then pool - 1 else pool)"

definition Rk3xSpiEvtIoSequence ::
  "SPI_ENVIRONMENT \<Rightarrow> RK3XSPI_TARGET \<Rightarrow> bool \<Rightarrow> bool \<Rightarrow> SPB_REQUEST \<Rightarrow> SPI_STATE \<Rightarrow> nat \<Rightarrow> (SPB_REQUEST \<times> SPI_STATE \<times> nat) access option" where
  "Rk3xSpiEvtIoSequence E target tx rx r s pool =
     (let total = total_length (Transfers r)
      in if total = 0 then Some (Within (SpbRequestComplete STATUS_INVALID_PARAMETER r, s, pool))
         else let pool = pool + (if tx then 1 else 0) + (if rx then 1 else 0)
              in if \<not> tx \<or> \<not> rx then Some (Within (complete_with STATUS_INSUFFICIENT_RESOURCES total r, s, cleanup tx rx pool))
                 else case gather (Transfers r) 0 (replicate (unat total) 0) of
                   Overrun \<Rightarrow> Some Overrun
                 | Within None \<Rightarrow> Some (Within (complete_with STATUS_INSUFFICIENT_RESOURCES total r, s, cleanup tx rx pool))
                 | Within (Some txBuf) \<Rightarrow>
                     Option.bind (Rk3xSpiTransfer E target (Some txBuf) (Some (replicate (unat total) 0)) total s)
                       (\<lambda>(status, rxBuf, s).
                         if \<not> NT_SUCCESS status then Some (Within (complete_with status total r, s, cleanup tx rx pool))
                         else case scatter (Transfers r) 0 (the rxBuf) of
                           Overrun \<Rightarrow> Some Overrun
                         | Within segs \<Rightarrow> Some (Within (complete_with status total (r\<lparr>Transfers := segs\<rparr>), s, cleanup tx rx pool))))"

section \<open>Mapping the controller\<close>

record SPI_RESOURCE =
  resourceIsMemory :: bool
  resourceStart :: u64
  resourceLength :: u32

record RK3XSPI_CONTEXT =
  Regs :: "u64 option"
  RegsPhysical :: u64
  RegsLength :: u32

text \<open>
  \<open>map_io\<close> is the framework's mapping of a physical range; a descriptor may be NULL. The first component is \<open>None\<close> if the
  loop ends, otherwise the status it returns at once.
\<close>

fun find_registers :: "(u64 \<Rightarrow> u32 \<Rightarrow> u64 option) \<Rightarrow> SPI_RESOURCE option list \<Rightarrow> bool \<Rightarrow> RK3XSPI_CONTEXT
    \<Rightarrow> NTSTATUS option \<times> bool \<times> RK3XSPI_CONTEXT" where
  "find_registers map_io [] memoryFound ctx = (None, memoryFound, ctx)"
| "find_registers map_io (None # ds) memoryFound ctx = find_registers map_io ds memoryFound ctx"
| "find_registers map_io (Some d # ds) memoryFound ctx =
     (if resourceIsMemory d \<and> \<not> memoryFound
      then let ctx = ctx\<lparr>RegsPhysical := resourceStart d, RegsLength := resourceLength d, Regs := map_io (resourceStart d) (resourceLength d)\<rparr>
           in if Regs ctx = None then (Some STATUS_INSUFFICIENT_RESOURCES, memoryFound, ctx)
              else find_registers map_io ds True ctx
      else find_registers map_io ds memoryFound ctx)"

definition Rk3xSpiEvtPrepareHardware ::
  "(u64 \<Rightarrow> u32 \<Rightarrow> u64 option) \<Rightarrow> SPI_ENVIRONMENT \<Rightarrow> SPI_RESOURCE option list \<Rightarrow> RK3XSPI_CONTEXT \<Rightarrow> SPI_STATE \<Rightarrow> NTSTATUS \<times> RK3XSPI_CONTEXT \<times> SPI_STATE" where
  "Rk3xSpiEvtPrepareHardware map_io E ResourcesTranslated ctx s =
     (case find_registers map_io ResourcesTranslated False ctx of
        (Some status, memoryFound, ctx) \<Rightarrow> (status, ctx, s)
      | (None, memoryFound, ctx) \<Rightarrow>
          if \<not> memoryFound then (STATUS_DEVICE_CONFIGURATION_ERROR, ctx, s)
          else (STATUS_SUCCESS, ctx, Rk3xSpiHwInit E s))"

definition Rk3xSpiEvtReleaseHardware :: "RK3XSPI_CONTEXT \<Rightarrow> NTSTATUS \<times> u64 option \<times> RK3XSPI_CONTEXT" where
  "Rk3xSpiEvtReleaseHardware ctx =
     (case Regs ctx of Some a \<Rightarrow> (STATUS_SUCCESS, Some a, ctx\<lparr>Regs := None\<rparr>) | None \<Rightarrow> (STATUS_SUCCESS, None, ctx))"

end
