(* ===== verification/SpiProofs.thy ===== *)
theory SpiProofs imports SpiTransfer begin

text \<open>
  The SPI engine against its specification: the bytes of a transfer go out in order, chunk by chunk under one chip
  select, every answer of the device is stored at its place, and no frame is lost in a FIFO.
\<close>

unbundle bit_operations_syntax

section \<open>Specification\<close>

text \<open>The answers to frames sent after what happened so far.\<close>

definition frame_answers :: "SPI_ENVIRONMENT \<Rightarrow> spi_event list \<Rightarrow> u8 list \<Rightarrow> u8 list" where
  "frame_answers E W F = map (\<lambda>i. slave E (W @ map Frame (take (Suc i) F))) [0..<length F]"

text \<open>A transfer on the wires: what has happened at its end, and the answers. A chip select covers at most 65535 frames.\<close>

function spi_session :: "SPI_ENVIRONMENT \<Rightarrow> u32 \<Rightarrow> spi_event list \<Rightarrow> u8 list \<Rightarrow> spi_event list \<times> u8 list" where
  "spi_session E cs W F =
     (if F = [] then (W, [])
      else let C = take 65535 F; W1 = W @ [Select cs]
           in case spi_session E cs (W1 @ map Frame C @ [Deselect]) (drop 65535 F) of
                (W', A) \<Rightarrow> (W', frame_answers E W1 C @ A))"
  by pat_completeness auto
termination by (relation "measure (\<lambda>(E, cs, W, F). length F)") auto

declare spi_session.simps [simp del] push_frames.simps [simp del] drain_frames.simps [simp del]

text \<open>A buffer with bytes put at a position.\<close>

definition overlay :: "u8 list option \<Rightarrow> nat \<Rightarrow> u8 list \<Rightarrow> u8 list option" where
  "overlay Rx p bs = map_option (\<lambda>buf. take p buf @ bs @ drop (p + length bs) buf) Rx"

lemma overlay_nil [simp]: "overlay Rx p [] = Rx"
  by (cases Rx) (simp_all add: overlay_def)

lemma overlay_snoc:
  assumes "\<And>buf. Rx = Some buf \<Longrightarrow> p + length bs < length buf"
  shows "map_option (\<lambda>buf. buf[p + length bs := b]) (overlay Rx p bs) = overlay Rx p (bs @ [b])"
proof (cases Rx)
  case (Some buf)
  have "drop (p + length bs) buf = buf ! (p + length bs) # drop (Suc (p + length bs)) buf"
    using assms [OF Some] by (simp add: Cons_nth_drop_Suc)
  then show ?thesis using assms [OF Some] Some by (simp add: overlay_def list_update_append)
qed (simp add: overlay_def)

lemma overlay_append: "(\<And>buf. Rx = Some buf \<Longrightarrow> p + length as \<le> length buf) \<Longrightarrow>
   overlay (overlay Rx p as) (p + length as) bs = overlay Rx p (as @ bs)"
  by (cases Rx) (auto simp: overlay_def ac_simps)

lemma overlay_none [simp]: "overlay Rx p bs = None \<longleftrightarrow> Rx = None"
  by (simp add: overlay_def)

lemma overlay_length: "overlay Rx p bs = Some buf \<Longrightarrow> Rx = Some old \<Longrightarrow> p + length bs \<le> length old \<Longrightarrow> length buf = length old"
  by (auto simp: overlay_def)

section \<open>Frames in flight\<close>

text \<open>
  Within a chunk of frames \<open>F\<close>, after what happened before (\<open>W\<close>, up to the chip select): \<open>p\<close> frames have been pushed, \<open>k\<close> of them clocked,
  and \<open>d\<close> answers drained.
\<close>

definition in_flight :: "SPI_ENVIRONMENT \<Rightarrow> spi_event list \<Rightarrow> u8 list \<Rightarrow> nat \<Rightarrow> nat \<Rightarrow> nat \<Rightarrow> SPI_STATE \<Rightarrow> bool" where
  "in_flight E W F d k p s \<longleftrightarrow>
     d \<le> k \<and> k \<le> p \<and> p \<le> length F \<and> p - d \<le> 32 \<and> 32 \<le> fifoDepth E \<and>
     wires s = W @ map Frame (take k F) \<and> txFifo s = drop k (take p F) \<and>
     rxFifo s = drop d (take k (frame_answers E W F)) \<and>
     bit (spiRegs s RKSPI_SSIENR) 0 \<and> spiRegs s RKSPI_SER \<noteq> 0 \<and> W \<noteq> [] \<and> last W = Select (spiRegs s RKSPI_SER)"

lemma length_answers [simp]: "length (frame_answers E W F) = length F"
  by (simp add: frame_answers_def)

lemma nth_answers: "i < length F \<Longrightarrow> frame_answers E W F ! i = slave E (W @ map Frame (take (Suc i) F))"
  by (simp add: frame_answers_def)

lemma drop_take_Cons: "k < p \<Longrightarrow> p \<le> length F \<Longrightarrow> drop k (take p F) = F ! k # drop (Suc k) (take p F)"
  by (subst Cons_nth_drop_Suc [symmetric]) auto

lemma drop_take_snoc: "d \<le> k \<Longrightarrow> k < length A \<Longrightarrow> drop d (take (Suc k) A) = drop d (take k A) @ [A ! k]"
  by (simp add: take_Suc_conv_app_nth)

lemma flight_clock:
  assumes "in_flight E W F d k p s"
  shows "in_flight E W F d (if k < p then Suc k else k) p (clock_frame E s)"
proof (cases "k < p")
  case True
  let ?s = "clock_frame E s"
  note i = assms [unfolded in_flight_def]
  have sel: "selection s \<noteq> 0" using i by (simp add: selection_def)
  have tx: "txFifo s = F ! k # drop (Suc k) (take p F)" using i True drop_take_Cons [of k p F] by simp
  have kl: "k < length F" using i True by linarith
  have "k - d < 32" using i True by linarith
  then have "length (rxFifo s) < fifoDepth E" using i kl by simp
  then have "?s = s\<lparr>wires := W @ map Frame (take (Suc k) F), txFifo := drop (Suc k) (take p F),
      rxFifo := rxFifo s @ [slave E (W @ map Frame (take (Suc k) F))]\<rparr>"
    using sel tx i kl by (simp add: clock_frame_def Let_def take_Suc_conv_app_nth)
  moreover have "rxFifo s @ [slave E (W @ map Frame (take (Suc k) F))] = drop d (take (Suc k) (frame_answers E W F))"
    using i kl by (subst drop_take_snoc) (simp_all add: nth_answers)
  ultimately show ?thesis using i True by (simp add: in_flight_def)
next
  case False
  then have "txFifo s = []" using assms by (simp add: in_flight_def)
  then have "clock_frame E s = s" by (simp add: clock_frame_def)
  then show ?thesis using assms False by simp
qed

lemma clock_frame_other: "spiRegs (clock_frame E s) = spiRegs s" "spiTime (clock_frame E s) = spiTime s"
  "spiQueries (clock_frame E s) = spiQueries s" "spiWrites (clock_frame E s) = spiWrites s"
  by (simp_all add: clock_frame_def Let_def split: list.split)

lemma clock_frames_other: "spiRegs ((clock_frame E ^^ n) s) = spiRegs s" "spiTime ((clock_frame E ^^ n) s) = spiTime s"
  "spiQueries ((clock_frame E ^^ n) s) = spiQueries s" "spiWrites ((clock_frame E ^^ n) s) = spiWrites s"
  by (induction n) (simp_all add: clock_frame_other)

lemma move_on_other [simp]: "spiRegs (move_on E s) = spiRegs s" "spiQueries (move_on E s) = spiQueries s"
  "spiTime (move_on E s) = Suc (spiTime s)"
  by (simp_all add: move_on_def clock_frames_other)

lemma flight_clocks: "in_flight E W F d k p s \<Longrightarrow> in_flight E W F d (min p (k + n)) p ((clock_frame E ^^ n) s)"
proof (induction n)
  case 0
  then have "k \<le> p" by (simp add: in_flight_def)
  then show ?case using 0 by (simp add: min_absorb2)
next
  case (Suc n)
  have "(if min p (k + n) < p then Suc (min p (k + n)) else min p (k + n)) = min p (k + Suc n)" by auto
  then show ?case using flight_clock [OF Suc.IH [OF Suc.prems]] by simp
qed

lemma flight_time [simp]: "in_flight E W F d k p (s\<lparr>spiTime := t\<rparr>) = in_flight E W F d k p s"
  "in_flight E W F d k p (s\<lparr>spiQueries := t\<rparr>) = in_flight E W F d k p s"
  by (simp_all add: in_flight_def)

lemma flight_move: "in_flight E W F d k p s \<Longrightarrow> in_flight E W F d (min p (k + pace E (spiTime s))) p (move_on E s)"
  using flight_clocks by (simp add: move_on_def)

lemma flight_le: "in_flight E W F d k p s \<Longrightarrow> d \<le> k \<and> k \<le> p \<and> p \<le> length F \<and> p - d \<le> 32 \<and> 32 \<le> fifoDepth E"
  by (simp add: in_flight_def)

text \<open>Reading the status, reading a frame, pushing a frame.\<close>

lemma rk_and_or: "(a OR b OR c) AND m = (a AND m) OR (b AND m) OR (c AND (m :: u32))"
  by (simp add: bit.conj_disj_distrib2)

lemma status_bits:
  "status_register E s AND RKSPI_SR_BUSY = 0 \<longleftrightarrow> txFifo s = [] \<and> \<not> lingers E (spiTime s)"
  "status_register E s AND RKSPI_SR_TF_FULL = 0 \<longleftrightarrow> length (txFifo s) < fifoDepth E"
  "status_register E s AND RKSPI_SR_RF_EMPTY = 0 \<longleftrightarrow> rxFifo s \<noteq> []"
  by (auto simp: status_register_def rk_and_or RKSPI_SR_BUSY_def RKSPI_SR_TF_FULL_def RKSPI_SR_RF_EMPTY_def)

lemma read_status: "RkSpiRead E RKSPI_SR s = (status_register E (move_on E s), move_on E s)"
  by (simp add: RkSpiRead_def Let_def)

lemma flight_read_frame:
  assumes f: "in_flight E W F d k p s" and "rxFifo s \<noteq> []"
  obtains s' where "RkSpiRead E RKSPI_RXDR s = (ucast (frame_answers E W F ! d), s')"
    "in_flight E W F (Suc d) (min p (k + pace E (spiTime s))) p s'" "spiQueries s' = spiQueries s" "spiTime s' = Suc (spiTime s)"
proof -
  let ?m = "move_on E s" and ?k = "min p (k + pace E (spiTime s))"
  have m: "in_flight E W F d ?k p ?m" by (rule flight_move [OF f])
  have "d < k" using assms by (simp add: in_flight_def)
  then have dk: "d < ?k" "?k \<le> length F" using flight_le [OF f] by auto
  then have rx: "rxFifo ?m = frame_answers E W F ! d # drop (Suc d) (take ?k (frame_answers E W F))"
    using m drop_take_Cons [of d ?k "frame_answers E W F"] by (simp add: in_flight_def)
  show ?thesis
  proof (rule that)
    show "RkSpiRead E RKSPI_RXDR s = (ucast (frame_answers E W F ! d), ?m\<lparr>rxFifo := drop (Suc d) (take ?k (frame_answers E W F))\<rparr>)"
      using rx by (simp add: RkSpiRead_def Let_def spi_offsets)
    have "p - Suc d \<le> 32" using flight_le [OF f] by linarith
    then show "in_flight E W F (Suc d) ?k p (?m\<lparr>rxFifo := drop (Suc d) (take ?k (frame_answers E W F))\<rparr>)"
      using m dk by (simp add: in_flight_def)
  qed simp_all
qed

lemma byte_word [simp]: "ucast (ucast (b :: u8) :: u32) = b"
  by (rule bit_word_eqI) (auto simp: bit_simps)

lemma flight_push:
  assumes f: "in_flight E W F d k p s" and "p < length F" "p - d < 32"
  shows "in_flight E W F d (min p (k + pace E (spiTime s))) (Suc p) (RkSpiWrite E RKSPI_TXDR (ucast (F ! p)) s)"
    "spiQueries (RkSpiWrite E RKSPI_TXDR v s) = spiQueries s" "spiTime (RkSpiWrite E RKSPI_TXDR v s) = Suc (spiTime s)"
proof -
  let ?m = "move_on E s" and ?k = "min p (k + pace E (spiTime s))"
  have m: "in_flight E W F d ?k p ?m" by (rule flight_move [OF f])
  have dk: "d \<le> ?k" using m by (simp add: in_flight_def)
  then have "length (txFifo ?m) < fifoDepth E" using m assms(2,3) by (auto simp: in_flight_def)
  moreover have "drop ?k (take p F) @ [F ! p] = drop ?k (take (Suc p) F)" using assms(2) by (simp add: take_Suc_conv_app_nth)
  ultimately show "in_flight E W F d ?k (Suc p) (RkSpiWrite E RKSPI_TXDR (ucast (F ! p)) s)"
    using m assms(2,3) dk
    by (auto simp: in_flight_def RkSpiWrite_def Let_def selection_def selected_def spi_offsets)
  show "spiQueries (RkSpiWrite E RKSPI_TXDR v s) = spiQueries s" "spiTime (RkSpiWrite E RKSPI_TXDR v s) = Suc (spiTime s)"
    by (simp_all add: RkSpiWrite_def Let_def spi_offsets)
qed

section \<open>The loops of a chunk\<close>

text \<open>The frames the code takes from its buffer for a chunk.\<close>

definition chunk_frames :: "u8 list option \<Rightarrow> u32 \<Rightarrow> u32 \<Rightarrow> u8 list" where
  "chunk_frames Tx count chunk = map (\<lambda>i. tx_byte Tx (count + of_nat i)) [0..<unat chunk]"

lemma chunk_frames_simps [simp]: "length (chunk_frames Tx count chunk) = unat chunk"
  "i < unat chunk \<Longrightarrow> chunk_frames Tx count chunk ! i = tx_byte Tx (count + of_nat i)"
  by (simp_all add: chunk_frames_def)

lemma window_small:
  assumes "rxi \<le> txi"
  shows "txi - rxi < RKSPI_FIFO_DEPTH \<longleftrightarrow> unat txi - unat rxi < 32"
  using assms by (simp add: word_less_nat_alt unat_sub RKSPI_FIFO_DEPTH_def)

lemma push_flight:
  assumes "in_flight E W (chunk_frames Tx count chunk) (unat rxi) k (unat txi) s"
  shows "\<exists>k' txi' s'. push_frames E Tx count chunk rxi txi s = (txi', s') \<and>
    in_flight E W (chunk_frames Tx count chunk) (unat rxi) k' (unat txi') s' \<and> spiQueries s' = spiQueries s \<and>
    unat txi \<le> unat txi' \<and> (txi = rxi \<and> rxi < chunk \<longrightarrow> txi < txi')"
  using assms
proof (induction E Tx count chunk rxi txi s arbitrary: k rule: push_frames.induct)
  case (1 E Tx count chunk rxi txi s)
  let ?F = "chunk_frames Tx count chunk" and ?m = "move_on E s"
  define k1 where "k1 = min (unat txi) (k + pace E (spiTime s))"
  have le: "unat rxi \<le> unat txi" "rxi \<le> txi" using flight_le [OF 1(2)] by (auto simp: word_le_nat_alt)
  have m: "in_flight E W ?F (unat rxi) k1 (unat txi) ?m" unfolding k1_def by (rule flight_move [OF 1(2)])
  show ?case
  proof (cases "txi < chunk \<and> txi - rxi < RKSPI_FIFO_DEPTH")
    case go: True
    then have lt: "unat txi < unat chunk" "unat txi - unat rxi < 32" "unat (txi + 1) = Suc (unat txi)"
      using window_small [OF le(2)] by (simp_all add: word_less_nat_alt unat_plus_one [of txi chunk])
    show ?thesis
    proof (cases "status_register E ?m AND RKSPI_SR_TF_FULL = 0")
      case room: True
      let ?w = "RkSpiWrite E RKSPI_TXDR (ucast (tx_byte Tx (count + txi))) ?m"
      have "?F ! unat txi = tx_byte Tx (count + txi)" using lt by simp
      then have "in_flight E W ?F (unat rxi) (min (unat txi) (k1 + pace E (spiTime ?m))) (unat (txi + 1)) ?w"
        using flight_push(1) [OF m] lt by simp
      from 1(1) [OF go read_status [symmetric] room this] obtain k' txi' s' where
        "push_frames E Tx count chunk rxi (txi + 1) ?w = (txi', s')" "in_flight E W ?F (unat rxi) k' (unat txi') s'"
        "spiQueries s' = spiQueries ?w" "unat (txi + 1) \<le> unat txi'" by blast
      then show ?thesis using go room lt
        by (subst push_frames.simps) (auto simp: read_status flight_push(2) [OF m] word_less_nat_alt)
    next
      case full: False
      then have "txi \<noteq> rxi" using m by (auto simp: status_bits in_flight_def)
      moreover have "push_frames E Tx count chunk rxi txi s = (txi, ?m)"
        using go full by (subst push_frames.simps) (simp add: read_status)
      ultimately show ?thesis using m by auto
    qed
  next
    case stop: False
    then have "\<not> (txi = rxi \<and> rxi < chunk)" by (auto simp: RKSPI_FIFO_DEPTH_def)
    then show ?thesis using stop 1(2) by (subst push_frames.simps) auto
  qed
qed

lemma of_nat_store: "unat count + unat i < 2 ^ 32 \<Longrightarrow> unat (count + i :: u32) = unat count + unat i"
  by (simp add: unat_word_ariths)

lemma drain_flight:
  assumes "in_flight E W F (unat rxi) k p s" "length F = unat chunk" "unat count + unat chunk < 2 ^ 32"
    "\<And>buf. Rx0 = Some buf \<Longrightarrow> unat count + unat chunk \<le> length buf"
    "sr AND RKSPI_SR_RF_EMPTY = 0 \<longrightarrow> rxFifo s \<noteq> []"
    "Rx = overlay Rx0 (unat count) (take (unat rxi) (frame_answers E W F))"
  shows "\<exists>k' rxi' s'. drain_frames E count chunk sr rxi Rx s = (rxi', overlay Rx0 (unat count) (take (unat rxi') (frame_answers E W F)), s') \<and>
    in_flight E W F (unat rxi') k' p s' \<and> spiQueries s' = spiQueries s \<and> unat rxi \<le> unat rxi' \<and>
    (sr AND RKSPI_SR_RF_EMPTY = 0 \<and> rxi < chunk \<longrightarrow> rxi < rxi')"
  using assms
proof (induction E count chunk sr rxi Rx s arbitrary: k rule: drain_frames.induct)
  case (1 E count chunk sr rxi Rx s)
  let ?A = "frame_answers E W F"
  show ?case
  proof (cases "rxi < chunk \<and> sr AND RKSPI_SR_RF_EMPTY = 0")
    case go: True
    then have lt: "unat rxi < unat chunk" "unat (rxi + 1) = Suc (unat rxi)" by (simp_all add: word_less_nat_alt unat_plus_one [of rxi chunk])
    obtain t where t: "RkSpiRead E RKSPI_RXDR s = (ucast (?A ! unat rxi), t)"
      "in_flight E W F (Suc (unat rxi)) (min p (k + pace E (spiTime s))) p t" "spiQueries t = spiQueries s"
      using flight_read_frame [OF 1(2)] 1(6) go by blast
    let ?u = "move_on E t"
    have u: "in_flight E W F (unat (rxi + 1)) (min p (min p (k + pace E (spiTime s)) + pace E (spiTime t))) p ?u"
      using flight_move [OF t(2)] lt by simp
    have "rx_store Rx (count + rxi) (?A ! unat rxi) = overlay Rx0 (unat count) (take (unat rxi) ?A @ [?A ! unat rxi])"
      unfolding rx_store_def 1(7) using 1(3-5) lt overlay_snoc [of Rx0 "unat count" "take (unat rxi) ?A"]
      by (fastforce simp: of_nat_store min_absorb2)
    then have ov: "rx_store Rx (count + rxi) (?A ! unat rxi) = overlay Rx0 (unat count) (take (unat (rxi + 1)) ?A)"
      using lt 1(3) by (simp add: take_Suc_conv_app_nth)
    have e: "status_register E ?u AND RKSPI_SR_RF_EMPTY = 0 \<longrightarrow> rxFifo ?u \<noteq> []" by (simp add: status_bits)
    have "ucast (ucast (?A ! unat rxi) :: u32) = ?A ! unat rxi" by simp
    with 1(1) [OF go t(1) [symmetric] read_status [symmetric], of "min p (min p (k + pace E (spiTime s)) + pace E (spiTime t))"] u 1(3-5) e ov
    obtain k' rxi' s' where r: "drain_frames E count chunk (status_register E ?u) (rxi + 1) (rx_store Rx (count + rxi) (?A ! unat rxi)) ?u =
        (rxi', overlay Rx0 (unat count) (take (unat rxi') ?A), s')"
      "in_flight E W F (unat rxi') k' p s'" "spiQueries s' = spiQueries ?u" "unat (rxi + 1) \<le> unat rxi'" by auto
    show ?thesis using go t(1,3) r lt
      by (subst drain_frames.simps) (auto simp: read_status word_less_nat_alt)
  next
    case False
    then show ?thesis using 1(2,7) by (subst drain_frames.simps) auto
  qed
qed

lemma flight_round:
  assumes "in_flight E W (chunk_frames Tx count chunk) (unat rxi) k (unat txi) s" "rxi < chunk"
    "unat count + unat chunk < 2 ^ 32" "\<And>buf. Rx0 = Some buf \<Longrightarrow> unat count + unat chunk \<le> length buf"
    "Rx = overlay Rx0 (unat count) (take (unat rxi) (frame_answers E W (chunk_frames Tx count chunk)))"
  obtains txi' s1 k' rxi' s3 where "push_frames E Tx count chunk rxi txi s = (txi', s1)"
    "drain_frames E count chunk (status_register E (move_on E s1)) rxi Rx (move_on E s1) =
       (rxi', overlay Rx0 (unat count) (take (unat rxi') (frame_answers E W (chunk_frames Tx count chunk))), s3)"
    "in_flight E W (chunk_frames Tx count chunk) (unat rxi') k' (unat txi') s3" "spiQueries s3 = spiQueries s"
    "unat rxi \<le> unat rxi'" "(\<forall>t. 1 \<le> pace E t) \<longrightarrow> rxi < rxi'"
proof -
  let ?F = "chunk_frames Tx count chunk"
  obtain k1 txi' s1 where p: "push_frames E Tx count chunk rxi txi s = (txi', s1)" "in_flight E W ?F (unat rxi) k1 (unat txi') s1"
    "spiQueries s1 = spiQueries s" "unat txi \<le> unat txi'" "txi = rxi \<and> rxi < chunk \<longrightarrow> txi < txi'"
    using push_flight [OF assms(1)] by blast
  let ?m = "move_on E s1"
  have m: "in_flight E W ?F (unat rxi) (min (unat txi') (k1 + pace E (spiTime s1))) (unat txi') ?m" by (rule flight_move [OF p(2)])
  have e: "status_register E ?m AND RKSPI_SR_RF_EMPTY = 0 \<longrightarrow> rxFifo ?m \<noteq> []" by (simp add: status_bits)
  obtain k' rxi' s3 where d: "drain_frames E count chunk (status_register E ?m) rxi Rx ?m =
       (rxi', overlay Rx0 (unat count) (take (unat rxi') (frame_answers E W ?F)), s3)" "in_flight E W ?F (unat rxi') k' (unat txi') s3"
    "spiQueries s3 = spiQueries ?m" "unat rxi \<le> unat rxi'"
    "status_register E ?m AND RKSPI_SR_RF_EMPTY = 0 \<and> rxi < chunk \<longrightarrow> rxi < rxi'"
    using drain_flight [OF m _ assms(3) assms(4) e assms(5)] by auto
  have "rxi < rxi'" if pace: "\<forall>t. 1 \<le> pace E t"
  proof -
    have "txi \<noteq> rxi \<Longrightarrow> unat txi \<noteq> unat rxi" by (simp add: word_unat_eq_iff)
    then have "unat rxi < unat txi'" using p(4,5) assms(2) flight_le [OF assms(1)]
      by (cases "txi = rxi") (auto simp: word_less_nat_alt intro: le_neq_trans)
    moreover have "1 \<le> pace E (spiTime s1)" using pace by blast
    ultimately have "unat rxi < min (unat txi') (k1 + pace E (spiTime s1))" using flight_le [OF p(2)] by auto
    then have "rxFifo ?m \<noteq> []" using m by (auto simp: in_flight_def)
    then show ?thesis using d(5) assms(2) by (simp add: status_bits)
  qed
  then show ?thesis using that [OF p(1) d(1,2)] d(3,4) p(3) by simp
qed

text \<open>However a chunk ends, what has been stored are the answers to the frames drained; if it succeeds, to all of them.\<close>

lemma pump_flight:
  assumes "pump_chunk E start Tx count chunk txi rxi Rx s = Some (status, Rx', s')"
    "in_flight E W (chunk_frames Tx count chunk) (unat rxi) k (unat txi) s"
    "unat count + unat chunk < 2 ^ 32" "\<And>buf. Rx0 = Some buf \<Longrightarrow> unat count + unat chunk \<le> length buf"
    "Rx = overlay Rx0 (unat count) (take (unat rxi) (frame_answers E W (chunk_frames Tx count chunk)))"
  shows "\<exists>d k p. in_flight E W (chunk_frames Tx count chunk) d k p s' \<and>
    Rx' = overlay Rx0 (unat count) (take d (frame_answers E W (chunk_frames Tx count chunk))) \<and>
    (status = STATUS_SUCCESS \<and> d = unat chunk \<or> status = STATUS_IO_TIMEOUT)"
proof -
  define P where "P = (\<lambda>E (start :: int) Tx count chunk (txi :: u32) (rxi :: u32) Rx s r. \<forall>W k Rx0.
     in_flight E W (chunk_frames Tx count chunk) (unat rxi) k (unat txi) s \<longrightarrow> unat count + unat chunk < 2 ^ 32 \<longrightarrow>
     (\<forall>buf. Rx0 = Some buf \<longrightarrow> unat count + unat chunk \<le> length buf) \<longrightarrow>
     Rx = overlay Rx0 (unat count) (take (unat rxi) (frame_answers E W (chunk_frames Tx count chunk))) \<longrightarrow>
     (\<exists>d k p. in_flight E W (chunk_frames Tx count chunk) d k p (snd (snd r)) \<and>
       fst (snd r) = overlay Rx0 (unat count) (take d (frame_answers E W (chunk_frames Tx count chunk))) \<and>
       (fst r = STATUS_SUCCESS \<and> d = unat chunk \<or> fst r = STATUS_IO_TIMEOUT)))"
  have "P E start Tx count chunk txi rxi Rx s (status, Rx', s')"
  proof (rule pump_chunk.raw_induct [where P = P])
    fix rest E start Tx and count chunk txi rxi :: u32 and Rx s r
    assume rest: "\<And>E start Tx count chunk txi rxi Rx s r. rest E start Tx count chunk txi rxi Rx s = Some r \<Longrightarrow> P E start Tx count chunk txi rxi Rx s r"
      and body: "(if rxi < chunk
      then (case push_frames E Tx count chunk rxi txi s of (txi, s) \<Rightarrow>
            case RkSpiRead E RKSPI_SR s of (sr, s) \<Rightarrow>
            case drain_frames E count chunk sr rxi Rx s of (rxi, Rx, s) \<Rightarrow>
            case Rk3xSpiTimedOut E start s of (late, s) \<Rightarrow>
              if late then Some (STATUS_IO_TIMEOUT, Rx, s)
              else rest E start Tx count chunk txi rxi Rx s)
      else Some (STATUS_SUCCESS, Rx, s)) = Some r"
    show "P E start Tx count chunk txi rxi Rx s r"
      unfolding P_def
    proof (intro allI impI)
      fix W k Rx0
      assume f: "in_flight E W (chunk_frames Tx count chunk) (unat rxi) k (unat txi) s" and c: "unat count + unat chunk < 2 ^ 32"
        and b: "\<forall>buf. Rx0 = Some buf \<longrightarrow> unat count + unat chunk \<le> length buf"
        and o: "Rx = overlay Rx0 (unat count) (take (unat rxi) (frame_answers E W (chunk_frames Tx count chunk)))"
      show "\<exists>d k p. in_flight E W (chunk_frames Tx count chunk) d k p (snd (snd r)) \<and>
        fst (snd r) = overlay Rx0 (unat count) (take d (frame_answers E W (chunk_frames Tx count chunk))) \<and>
        (fst r = STATUS_SUCCESS \<and> d = unat chunk \<or> fst r = STATUS_IO_TIMEOUT)"
      proof (cases "rxi < chunk")
        case True
        from b have b': "\<And>buf. Rx0 = Some buf \<Longrightarrow> unat count + unat chunk \<le> length buf" by blast
        from f True c b' o obtain txi' s1 k' rxi' s3 where r: "push_frames E Tx count chunk rxi txi s = (txi', s1)"
          "drain_frames E count chunk (status_register E (move_on E s1)) rxi Rx (move_on E s1) =
             (rxi', overlay Rx0 (unat count) (take (unat rxi') (frame_answers E W (chunk_frames Tx count chunk))), s3)"
          "in_flight E W (chunk_frames Tx count chunk) (unat rxi') k' (unat txi') s3" by (rule flight_round)
        let ?q = "s3\<lparr>spiQueries := Suc (spiQueries s3)\<rparr>"
        show ?thesis
        proof (cases "timed_out_at E start (PerformanceCounter E (spiQueries s3))")
          case True
          then show ?thesis using body \<open>rxi < chunk\<close> r by (fastforce simp: read_status Rk3xSpiTimedOut_def query_counter_def)
        next
          case False
          then have "rest E start Tx count chunk txi' rxi'
              (overlay Rx0 (unat count) (take (unat rxi') (frame_answers E W (chunk_frames Tx count chunk)))) ?q = Some r"
            using body \<open>rxi < chunk\<close> r by (simp add: read_status Rk3xSpiTimedOut_def query_counter_def)
          from rest [OF this, unfolded P_def, rule_format, of W k' Rx0] r(3) c b show ?thesis by simp
        qed
      next
        case False
        then have "unat rxi = unat chunk" using flight_le [OF f] by (simp add: word_less_nat_alt)
        then show ?thesis using body False f o by (intro exI [of _ "unat rxi"] exI [of _ k] exI [of _ "unat txi"]) auto
      qed
    qed
  qed (rule assms(1))
  then show ?thesis using assms(2-5) unfolding P_def by fastforce
qed

text \<open>A chunk ends once the counter passes the limit, and without that if the controller keeps moving.\<close>

lemma pump_returns:
  assumes "timed_out_at E start (PerformanceCounter E (spiQueries s + n))" "32 \<le> fifoDepth E"
    "in_flight E W (chunk_frames Tx count chunk) (unat rxi) k (unat txi) s"
    "unat count + unat chunk < 2 ^ 32" "\<And>buf. Rx0 = Some buf \<Longrightarrow> unat count + unat chunk \<le> length buf"
    "Rx = overlay Rx0 (unat count) (take (unat rxi) (frame_answers E W (chunk_frames Tx count chunk)))"
  shows "\<exists>r. pump_chunk E start Tx count chunk txi rxi Rx s = Some r"
  using assms
proof (induction n arbitrary: rxi txi k Rx s)
  case (0 rxi txi k Rx s)
  show ?case
  proof (cases "rxi < chunk")
    case True
    obtain txi' s1 k' rxi' s3 where "push_frames E Tx count chunk rxi txi s = (txi', s1)"
      "drain_frames E count chunk (status_register E (move_on E s1)) rxi Rx (move_on E s1) =
         (rxi', overlay Rx0 (unat count) (take (unat rxi') (frame_answers E W (chunk_frames Tx count chunk))), s3)"
      "in_flight E W (chunk_frames Tx count chunk) (unat rxi') k' (unat txi') s3" "spiQueries s3 = spiQueries s"
      "unat rxi \<le> unat rxi'" "(\<forall>t. 1 \<le> pace E t) \<longrightarrow> rxi < rxi'"
      by (rule flight_round [OF 0(3) True 0(4-6)])
    then show ?thesis using True 0(1) by (subst pump_chunk.simps) (simp add: read_status Rk3xSpiTimedOut_def query_counter_def)
  qed (subst pump_chunk.simps, simp)
next
  case (Suc n rxi txi k Rx s)
  show ?case
  proof (cases "rxi < chunk")
    case True
    obtain txi' s1 k' rxi' s3 where r: "push_frames E Tx count chunk rxi txi s = (txi', s1)"
      "drain_frames E count chunk (status_register E (move_on E s1)) rxi Rx (move_on E s1) =
         (rxi', overlay Rx0 (unat count) (take (unat rxi') (frame_answers E W (chunk_frames Tx count chunk))), s3)"
      "in_flight E W (chunk_frames Tx count chunk) (unat rxi') k' (unat txi') s3"
      "spiQueries s3 = spiQueries s" "unat rxi \<le> unat rxi'" "(\<forall>t. 1 \<le> pace E t) \<longrightarrow> rxi < rxi'"
      by (rule flight_round [OF Suc.prems(3) True Suc.prems(4-6)])
    have "\<exists>r. pump_chunk E start Tx count chunk txi' rxi' (overlay Rx0 (unat count) (take (unat rxi') (frame_answers E W (chunk_frames Tx count chunk))))
      (s3\<lparr>spiQueries := Suc (spiQueries s3)\<rparr>) = Some r"
      by (rule Suc.IH) (use Suc.prems r in auto)
    then show ?thesis using True r by (subst pump_chunk.simps) (simp add: read_status Rk3xSpiTimedOut_def query_counter_def)
  qed (subst pump_chunk.simps, simp)
qed

lemma pump_succeeds:
  assumes "\<forall>t. 1 \<le> pace E t" "\<forall>i \<le> unat chunk - unat rxi. \<not> timed_out_at E start (PerformanceCounter E (spiQueries s + i))"
    "in_flight E W (chunk_frames Tx count chunk) (unat rxi) k (unat txi) s"
    "unat count + unat chunk < 2 ^ 32" "\<And>buf. Rx0 = Some buf \<Longrightarrow> unat count + unat chunk \<le> length buf"
    "Rx = overlay Rx0 (unat count) (take (unat rxi) (frame_answers E W (chunk_frames Tx count chunk)))"
  shows "\<exists>Rx' s'. pump_chunk E start Tx count chunk txi rxi Rx s = Some (STATUS_SUCCESS, Rx', s') \<and>
    spiQueries s \<le> spiQueries s' \<and> spiQueries s' \<le> spiQueries s + (unat chunk - unat rxi)"
  using assms
proof (induction "unat chunk - unat rxi" arbitrary: rxi txi k Rx s rule: less_induct)
  case (less rxi txi k Rx s)
  show ?case
  proof (cases "rxi < chunk")
    case True
    obtain txi' s1 k' rxi' s3 where r: "push_frames E Tx count chunk rxi txi s = (txi', s1)"
      "drain_frames E count chunk (status_register E (move_on E s1)) rxi Rx (move_on E s1) =
         (rxi', overlay Rx0 (unat count) (take (unat rxi') (frame_answers E W (chunk_frames Tx count chunk))), s3)"
      "in_flight E W (chunk_frames Tx count chunk) (unat rxi') k' (unat txi') s3"
      "spiQueries s3 = spiQueries s" "unat rxi \<le> unat rxi'" "(\<forall>t. 1 \<le> pace E t) \<longrightarrow> rxi < rxi'"
      by (rule flight_round [OF less.prems(3) True less.prems(4-6)])
    let ?q = "s3\<lparr>spiQueries := Suc (spiQueries s3)\<rparr>"
    have lt: "unat rxi < unat chunk" "unat rxi < unat rxi'" using True r(6) less.prems(1) by (simp_all add: word_less_nat_alt)
    have no: "\<forall>i \<le> unat chunk - unat rxi'. \<not> timed_out_at E start (PerformanceCounter E (spiQueries ?q + i))"
    proof (intro allI impI)
      fix i assume "i \<le> unat chunk - unat rxi'"
      moreover have "unat rxi' \<le> unat chunk" using flight_le [OF r(3)] by simp
      ultimately have "Suc i \<le> unat chunk - unat rxi" using lt by linarith
      then show "\<not> timed_out_at E start (PerformanceCounter E (spiQueries ?q + i))" using less.prems(2) [rule_format, of "Suc i"] r(4) by simp
    qed
    have "\<exists>Rx' s'. pump_chunk E start Tx count chunk txi' rxi' (overlay Rx0 (unat count) (take (unat rxi') (frame_answers E W (chunk_frames Tx count chunk)))) ?q
        = Some (STATUS_SUCCESS, Rx', s') \<and> spiQueries ?q \<le> spiQueries s' \<and> spiQueries s' \<le> spiQueries ?q + (unat chunk - unat rxi')"
    proof (rule less.hyps)
      show "unat chunk - unat rxi' < unat chunk - unat rxi" using lt by linarith
      show "in_flight E W (chunk_frames Tx count chunk) (unat rxi') k' (unat txi') ?q" using r(3) by simp
    qed (use less.prems no in auto)
    then obtain Rx' s' where "pump_chunk E start Tx count chunk txi' rxi' (overlay Rx0 (unat count) (take (unat rxi') (frame_answers E W (chunk_frames Tx count chunk)))) ?q
        = Some (STATUS_SUCCESS, Rx', s')" "spiQueries s \<le> spiQueries s'" "spiQueries s' \<le> Suc (spiQueries s) + (unat chunk - unat rxi')" using r(4) by auto
    moreover have "Suc (spiQueries s) + (unat chunk - unat rxi') \<le> spiQueries s + (unat chunk - unat rxi)"
      using lt flight_le [OF r(3)] diff_less_mono2 [of "unat rxi" "unat rxi'" "unat chunk"] by simp
    moreover have "\<not> timed_out_at E start (PerformanceCounter E (spiQueries s3))" using less.prems(2) r(4) by force
    ultimately show ?thesis using True r(1,2)
      by (subst pump_chunk.simps) (auto simp: read_status Rk3xSpiTimedOut_def query_counter_def)
  qed (subst pump_chunk.simps, simp)
qed

section \<open>Chunks\<close>

lemma move_still: "selection s = 0 \<or> txFifo s = [] \<Longrightarrow> move_on E s = s\<lparr>spiTime := Suc (spiTime s)\<rparr>"
proof -
  assume a: "selection s = 0 \<or> txFifo s = []"
  have "clock_frame E s = s" using a by (auto simp: clock_frame_def)
  then have "(clock_frame E ^^ n) s = s" for n by (induction n) simp_all
  then show ?thesis by (simp add: move_on_def)
qed

text \<open>Between two chunks: what the wires have seen when the chip select is gone.\<close>

definition between :: "u32 \<Rightarrow> spi_event list \<Rightarrow> SPI_STATE \<Rightarrow> bool" where
  "between cs W s \<longleftrightarrow> cs \<noteq> 0 \<and> spiRegs s RKSPI_SER \<in> {0, cs} \<and>
     (selection s = 0 \<and> W = wires s \<or> selection s = cs \<and> txFifo s = [] \<and> W = wires s @ [Deselect])"

lemma between_start:
  assumes "between (RKSPI_SER_CS (ChipSelect Target)) W s" "32 \<le> fifoDepth E"
  shows "in_flight E (W @ [Select (RKSPI_SER_CS (ChipSelect Target))]) F 0 0 0 (start_chunk E Target chunk s)"
    "spiQueries (start_chunk E Target chunk s) = spiQueries s"
proof -
  let ?cs = "RKSPI_SER_CS (ChipSelect Target)"
  define a where "a = RkSpiWrite E RKSPI_SSIENR 0 s"
  define b where "b = RkSpiWrite E RKSPI_CTRLR1 (chunk - 1) a"
  define c where "c = RkSpiWrite E RKSPI_SSIENR RKSPI_SSIENR_ENABLE b"
  note i = assms(1) [unfolded between_def]
  have still: "move_on E s = s\<lparr>spiTime := Suc (spiTime s)\<rparr>" using i by (intro move_still) auto
  have a: "wires a = W" "txFifo a = []" "rxFifo a = []" "\<not> bit (spiRegs a RKSPI_SSIENR) 0" "spiRegs a RKSPI_SER = spiRegs s RKSPI_SER" "spiQueries a = spiQueries s"
    using i by (auto simp: a_def RkSpiWrite_def Let_def still selection_def selected_def spi_offsets)
  have b: "wires b = W" "txFifo b = []" "rxFifo b = []" "\<not> bit (spiRegs b RKSPI_SSIENR) 0" "spiRegs b RKSPI_SER = spiRegs s RKSPI_SER" "spiQueries b = spiQueries s"
    using a by (auto simp: b_def RkSpiWrite_def Let_def move_still selection_def selected_def spi_offsets)
  have en: "bit RKSPI_SSIENR_ENABLE 0" by (simp add: RKSPI_SSIENR_ENABLE_def)
  have c: "wires c = W @ (if spiRegs s RKSPI_SER = 0 then [] else [Select ?cs])" "txFifo c = []" "rxFifo c = []"
    "bit (spiRegs c RKSPI_SSIENR) 0" "spiRegs c RKSPI_SER = spiRegs s RKSPI_SER" "spiQueries c = spiQueries s"
    using b i en by (auto simp: c_def RkSpiWrite_def Let_def move_still selection_def selected_def spi_offsets)
  have d: "start_chunk E Target chunk s = RkSpiWrite E RKSPI_SER ?cs c" by (simp add: start_chunk_def a_def b_def c_def)
  show "in_flight E (W @ [Select ?cs]) F 0 0 0 (start_chunk E Target chunk s)"
    using c i assms(2) unfolding d
    by (auto simp: in_flight_def RkSpiWrite_def Let_def move_still selection_def selected_def spi_offsets)
  show "spiQueries (start_chunk E Target chunk s) = spiQueries s" using c(6) unfolding d
    by (simp add: RkSpiWrite_def Let_def spi_offsets)
qed

text \<open>At the end of a chunk nothing is in flight any more.\<close>

lemma flight_over:
  assumes "in_flight E W F (length F) k p s"
  shows "wires s = W @ map Frame F" "txFifo s = []" "last W = Select (spiRegs s RKSPI_SER)" "selection s = spiRegs s RKSPI_SER"
  using assms by (auto simp: in_flight_def selection_def)

lemma same_queries: "s\<lparr>spiTime := t, spiQueries := spiQueries s\<rparr> = s\<lparr>spiTime := t\<rparr>" for s :: SPI_STATE
  by (rule SPI_STATE.equality) simp_all

lemma wait_over:
  assumes "txFifo s = []" "wait_shifted E start s = Some (status, s')"
  shows "(\<exists>t q. s' = s\<lparr>spiTime := t, spiQueries := q\<rparr>) \<and> status \<in> {STATUS_SUCCESS, STATUS_IO_TIMEOUT}"
proof -
  define P where "P = (\<lambda>(E :: SPI_ENVIRONMENT) (start :: int) (s :: SPI_STATE) r. txFifo s = [] \<longrightarrow>
    (\<exists>t q. snd r = s\<lparr>spiTime := t, spiQueries := q\<rparr>) \<and> fst r \<in> {STATUS_SUCCESS, STATUS_IO_TIMEOUT})"
  have "P E start s (status, s')"
  proof (rule wait_shifted.raw_induct [where P = P])
    fix rest E start s r
    assume rest: "\<And>E start s r. rest E start s = Some r \<Longrightarrow> P E start s r"
      and body: "(case RkSpiRead E RKSPI_SR s of (sr, s) \<Rightarrow>
        if sr AND RKSPI_SR_BUSY = 0 then Some (STATUS_SUCCESS, s)
        else (case Rk3xSpiTimedOut E start s of (late, s) \<Rightarrow>
          if late then Some (STATUS_IO_TIMEOUT, s) else rest E start s)) = Some r"
    show "P E start s r" unfolding P_def
    proof
      assume tx: "txFifo s = []"
      have m: "move_on E s = s\<lparr>spiTime := Suc (spiTime s)\<rparr>" using tx by (intro move_still) simp
      let ?q = "(move_on E s)\<lparr>spiQueries := Suc (spiQueries s)\<rparr>"
      have "(if status_register E (move_on E s) AND RKSPI_SR_BUSY = 0 then Some (STATUS_SUCCESS, move_on E s)
          else if timed_out_at E start (PerformanceCounter E (spiQueries s)) then Some (STATUS_IO_TIMEOUT, ?q) else rest E start ?q) = Some r"
        using body by (simp add: read_status Rk3xSpiTimedOut_def query_counter_def cong: if_cong)
      then consider "r = (STATUS_SUCCESS, move_on E s)" | "r = (STATUS_IO_TIMEOUT, ?q)" | "rest E start ?q = Some r"
        by (metis option.inject)
      then show "(\<exists>t q. snd r = s\<lparr>spiTime := t, spiQueries := q\<rparr>) \<and> fst r \<in> {STATUS_SUCCESS, STATUS_IO_TIMEOUT}"
      proof cases
        case 1
        have "snd r = s\<lparr>spiTime := Suc (spiTime s), spiQueries := spiQueries s\<rparr>" "fst r = STATUS_SUCCESS"
          by (simp_all add: 1 m same_queries)
        then show ?thesis by blast
      next
        case 2
        then show ?thesis unfolding m by auto
      next
        case 3
        have "txFifo ?q = []" using m tx by simp
        with rest [OF 3, unfolded P_def] obtain t q where "snd r = ?q\<lparr>spiTime := t, spiQueries := q\<rparr>" "fst r \<in> {STATUS_SUCCESS, STATUS_IO_TIMEOUT}"
          by blast
        then show ?thesis unfolding m by auto
      qed
    qed
  qed (rule assms(2))
  then show ?thesis using assms(1) by (simp add: P_def)
qed

end
