(* ===== verification/SpiProperties.thy ===== *)
theory SpiProperties imports SpiProofs begin

text \<open>
  The properties of the SPI engine: what a transfer does on the wires and in its buffers, that it ends, that the chip
  select is released however it ends, and the divider.
\<close>

unbundle bit_operations_syntax

declare spi_session.simps [simp del] push_frames.simps [simp del] drain_frames.simps [simp del]

section \<open>All chunks\<close>

fun frames_of :: "spi_event list \<Rightarrow> u8 list" where
  "frames_of [] = []"
| "frames_of (Frame b # w) = b # frames_of w"
| "frames_of (Select c # w) = frames_of w"
| "frames_of (Deselect # w) = frames_of w"

lemma frames_append [simp]: "frames_of (v @ w) = frames_of v @ frames_of w"
  by (induction v rule: frames_of.induct) simp_all

lemma frames_map [simp]: "frames_of (map Frame bs) = bs"
  by (induction bs) simp_all

definition spi_frames :: "u8 list option \<Rightarrow> u32 \<Rightarrow> u8 list" where
  "spi_frames Tx Length = map (\<lambda>i. tx_byte Tx (of_nat i)) [0..<unat Length]"

lemma length_frames [simp]: "length (spi_frames Tx Length) = unat Length"
  by (simp add: spi_frames_def)

lemma chunk_bounds:
  assumes "count < Length"
  shows "unat (chunk_of Length count) = min 65535 (unat Length - unat count)" "unat (count + chunk_of Length count) = unat count + unat (chunk_of Length count)"
    "unat count + unat (chunk_of Length count) \<le> unat Length" "0 < chunk_of Length count"
    "unat Length - unat (count + chunk_of Length count) < unat Length - unat count"
proof -
  have d: "unat (Length - count) = unat Length - unat count" using assms by (simp add: unat_sub)
  show c: "unat (chunk_of Length count) = min 65535 (unat Length - unat count)"
    using d by (auto simp: chunk_of_def Let_def RKSPI_MAX_FRAMES_def word_less_nat_alt)
  show le: "unat count + unat (chunk_of Length count) \<le> unat Length" using assms c by (simp add: word_less_nat_alt)
  moreover have "unat Length < 2 ^ 32" using unsigned_less [of Length] by simp
  ultimately show "unat (count + chunk_of Length count) = unat count + unat (chunk_of Length count)" by (simp add: of_nat_store)
  then show "unat Length - unat (count + chunk_of Length count) < unat Length - unat count"
    using assms c by (simp add: word_less_nat_alt)
  show "0 < chunk_of Length count" using assms c by (simp add: word_less_nat_alt)
qed

lemma chunk_is_taken:
  assumes "count < Length"
  shows "chunk_frames Tx count (chunk_of Length count) = take 65535 (drop (unat count) (spi_frames Tx Length))"
    "drop 65535 (drop (unat count) (spi_frames Tx Length)) = drop (unat (count + chunk_of Length count)) (spi_frames Tx Length)"
proof -
  note c = chunk_bounds(1-4) [OF assms]
  show "chunk_frames Tx count (chunk_of Length count) = take 65535 (drop (unat count) (spi_frames Tx Length))"
    by (rule nth_equalityI) (use c in \<open>auto simp: spi_frames_def min.commute\<close>)
  show "drop 65535 (drop (unat count) (spi_frames Tx Length)) = drop (unat (count + chunk_of Length count)) (spi_frames Tx Length)"
    using c by (cases "65535 \<le> unat Length - unat count") (auto simp: ac_simps min_def)
qed

text \<open>A transfer that failed: what went out is a beginning of what should have, and some of it may still be on its way.\<close>

definition broken_off :: "SPI_ENVIRONMENT \<Rightarrow> u8 list \<Rightarrow> u8 list \<Rightarrow> SPI_STATE \<Rightarrow> bool" where
  "broken_off E G F s \<longleftrightarrow> (\<exists>W C d k p n. in_flight E W C d k p s \<and> frames_of W @ C = G @ take n F \<and> length G \<le> length (frames_of W))"

lemma broken_offI: "in_flight E W C d k p s \<Longrightarrow> frames_of W @ C = G @ take n F \<Longrightarrow> length G \<le> length (frames_of W) \<Longrightarrow> broken_off E G F s"
  unfolding broken_off_def by blast

lemma between_time [simp]: "between cs W (s\<lparr>spiTime := t\<rparr>) = between cs W s"
  by (simp add: between_def selection_def)

lemma between_queries [simp]: "between cs W (s\<lparr>spiQueries := q\<rparr>) = between cs W s"
  by (simp add: between_def selection_def)

text \<open>One chunk that went through.\<close>

lemma chunk_done:
  assumes f: "in_flight E (W @ [Select cs]) (chunk_frames Tx count (chunk_of Length count)) (unat (chunk_of Length count)) k p s"
    and lt: "count < Length"
  shows "between cs (W @ Select cs # map Frame (chunk_frames Tx count (chunk_of Length count)) @ [Deselect]) s"
    "txFifo s = []" "spi_session E cs W (drop (unat count) (spi_frames Tx Length)) =
       (case spi_session E cs (W @ Select cs # map Frame (chunk_frames Tx count (chunk_of Length count)) @ [Deselect])
               (drop (unat (count + chunk_of Length count)) (spi_frames Tx Length)) of
          (W', A) \<Rightarrow> (W', frame_answers E (W @ [Select cs]) (chunk_frames Tx count (chunk_of Length count)) @ A))"
proof -
  let ?C = "chunk_frames Tx count (chunk_of Length count)"
  have "in_flight E (W @ [Select cs]) ?C (length ?C) k p s" using f by simp
  note o = flight_over [OF this]
  show "txFifo s = []" by (rule o)
  have "spiRegs s RKSPI_SER = cs" "cs \<noteq> 0" using o(3) f by (auto simp: in_flight_def)
  then show "between cs (W @ Select cs # map Frame ?C @ [Deselect]) s" using o by (simp add: between_def)
  have "drop (unat count) (spi_frames Tx Length) \<noteq> []" using lt by (simp add: word_less_nat_alt)
  then show "spi_session E cs W (drop (unat count) (spi_frames Tx Length)) =
       (case spi_session E cs (W @ Select cs # map Frame ?C @ [Deselect]) (drop (unat (count + chunk_of Length count)) (spi_frames Tx Length)) of
          (W', A) \<Rightarrow> (W', frame_answers E (W @ [Select cs]) ?C @ A))"
    by (subst spi_session.simps) (simp only: Let_def chunk_is_taken [OF lt] if_False append_assoc append_Cons append_Nil)
qed

lemma session_frames: "frames_of (fst (spi_session E cs W F)) = frames_of W @ F"
proof (induction E cs W F rule: spi_session.induct)
  case (1 E cs W F)
  show ?case
  proof (cases "F = []")
    case True
    then show ?thesis by (subst spi_session.simps) simp
  next
    case False
    from 1 [OF this refl refl] False show ?thesis by (subst spi_session.simps) (simp add: Let_def split_beta)
  qed
qed

lemma chunks_exchange:
  assumes "transfer_chunks E Target start Tx Length count Rx s = Some (status, Rx', s')"
    "between (RKSPI_SER_CS (ChipSelect Target)) W s" "32 \<le> fifoDepth E" "count \<le> Length"
    "\<And>buf. Rx0 = Some buf \<Longrightarrow> unat Length \<le> length buf" "Rx = overlay Rx0 0 A" "length A = unat count"
    "frames_of W = G @ take (unat count) (spi_frames Tx Length)"
  shows "status = STATUS_SUCCESS \<and>
      between (RKSPI_SER_CS (ChipSelect Target)) (fst (spi_session E (RKSPI_SER_CS (ChipSelect Target)) W (drop (unat count) (spi_frames Tx Length)))) s' \<and>
      Rx' = overlay Rx0 0 (A @ snd (spi_session E (RKSPI_SER_CS (ChipSelect Target)) W (drop (unat count) (spi_frames Tx Length))))
    \<or> status = STATUS_IO_TIMEOUT \<and> broken_off E G (spi_frames Tx Length) s'"
proof -
  define P where "P = (\<lambda>E (Target :: RK3XSPI_TARGET) (start :: int) Tx (Length :: u32) (count :: u32) (Rx :: u8 list option) (s :: SPI_STATE) r. \<forall>W A Rx0 G.
     between (RKSPI_SER_CS (ChipSelect Target)) W s \<longrightarrow> 32 \<le> fifoDepth E \<longrightarrow> count \<le> Length \<longrightarrow>
     (\<forall>buf. Rx0 = Some buf \<longrightarrow> unat Length \<le> length buf) \<longrightarrow> Rx = overlay Rx0 0 A \<longrightarrow> length A = unat count \<longrightarrow>
     frames_of W = G @ take (unat count) (spi_frames Tx Length) \<longrightarrow>
     (fst r = STATUS_SUCCESS \<and>
      between (RKSPI_SER_CS (ChipSelect Target)) (fst (spi_session E (RKSPI_SER_CS (ChipSelect Target)) W (drop (unat count) (spi_frames Tx Length)))) (snd (snd r)) \<and>
      fst (snd r) = overlay Rx0 0 (A @ snd (spi_session E (RKSPI_SER_CS (ChipSelect Target)) W (drop (unat count) (spi_frames Tx Length))))
    \<or> fst r = STATUS_IO_TIMEOUT \<and> broken_off E G (spi_frames Tx Length) (snd (snd r))))"
  have "P E Target start Tx Length count Rx s (status, Rx', s')"
  proof (rule transfer_chunks.raw_induct [where P = P])
    fix rest E Target start Tx and Length count :: u32 and Rx s r
    assume rest: "\<And>E Target start Tx Length count Rx s r. rest E Target start Tx Length count Rx s = Some r \<Longrightarrow> P E Target start Tx Length count Rx s r"
      and body: "(if count < Length
        then Option.bind (pump_chunk E start Tx count (chunk_of Length count) 0 0 Rx (start_chunk E Target (chunk_of Length count) s))
          (\<lambda>(status, Rx, s).
            if status \<noteq> STATUS_SUCCESS then Some (status, Rx, s)
            else Option.bind (wait_shifted E start s) (\<lambda>(status, s).
              if status \<noteq> STATUS_SUCCESS then Some (status, Rx, s)
              else rest E Target start Tx Length (count + chunk_of Length count) Rx s))
        else Some (STATUS_SUCCESS, Rx, s)) = Some r"
    show "P E Target start Tx Length count Rx s r"
      unfolding P_def
    proof (intro allI impI)
      fix W A Rx0 G
      let ?cs = "RKSPI_SER_CS (ChipSelect Target)" and ?F = "spi_frames Tx Length" and ?n = "chunk_of Length count"
      let ?C = "chunk_frames Tx count ?n"
      let ?W' = "W @ Select ?cs # map Frame ?C @ [Deselect]"
      assume b: "between ?cs W s" and depth: "32 \<le> fifoDepth E" and cl: "count \<le> Length"
        and big: "\<forall>buf. Rx0 = Some buf \<longrightarrow> unat Length \<le> length buf" and o: "Rx = overlay Rx0 0 A" and A: "length A = unat count"
        and fr: "frames_of W = G @ take (unat count) ?F"
      show "fst r = STATUS_SUCCESS \<and> between ?cs (fst (spi_session E ?cs W (drop (unat count) ?F))) (snd (snd r)) \<and>
          fst (snd r) = overlay Rx0 0 (A @ snd (spi_session E ?cs W (drop (unat count) ?F)))
        \<or> fst r = STATUS_IO_TIMEOUT \<and> broken_off E G ?F (snd (snd r))"
      proof (cases "count < Length")
        case False
        then have c: "unat count = unat Length" using cl by (simp add: word_less_nat_alt word_le_nat_alt)
        have "spi_session E ?cs W (drop (unat count) ?F) = (W, [])" by (subst spi_session.simps) (simp add: c)
        then show ?thesis using body False b o by auto
      next
        case lt: True
        note cb = chunk_bounds(1-4) [OF lt]
        have l32: "unat Length < 2 ^ 32" using unsigned_less [of Length] by simp
        have start: "in_flight E (W @ [Select ?cs]) ?C 0 0 0 (start_chunk E Target ?n s)" by (rule between_start [OF b depth])
        obtain st1 Rx1 s1 where p: "pump_chunk E start Tx count ?n 0 0 Rx (start_chunk E Target ?n s) = Some (st1, Rx1, s1)"
          and after: "(if st1 \<noteq> STATUS_SUCCESS then Some (st1, Rx1, s1)
            else Option.bind (wait_shifted E start s1) (\<lambda>(status, s).
              if status \<noteq> STATUS_SUCCESS then Some (status, Rx1, s)
              else rest E Target start Tx Length (count + ?n) Rx1 s)) = Some r"
          using body lt by (auto split: Option.bind_splits)
        have room: "unat count + unat ?n \<le> length buf" if "overlay Rx0 0 A = Some buf" for buf
          using that big cb(3) A by (cases Rx0) (auto simp: overlay_def)
        obtain d k q where fl: "in_flight E (W @ [Select ?cs]) ?C d k q s1"
          "Rx1 = overlay (overlay Rx0 0 A) (unat count) (take d (frame_answers E (W @ [Select ?cs]) ?C))"
          "st1 = STATUS_SUCCESS \<and> d = unat ?n \<or> st1 = STATUS_IO_TIMEOUT"
          using pump_flight [OF p, of "W @ [Select ?cs]" 0 "overlay Rx0 0 A"] start cb(3) l32 room o by auto
        have sent: "frames_of (W @ [Select ?cs]) @ ?C = G @ take (unat (count + ?n)) ?F" "length G \<le> length (frames_of (W @ [Select ?cs]))"
          using fr chunk_is_taken(1) [OF lt, of Tx] cb by (simp_all add: take_add [symmetric] min_def not_le)
        show ?thesis
        proof (cases "st1 = STATUS_SUCCESS")
          case False
          then have "r = (STATUS_IO_TIMEOUT, Rx1, s1)" using after fl(3) by auto
          then show ?thesis using broken_offI [OF fl(1) sent] by simp
        next
          case True
          then have d: "d = unat ?n" using fl(3) by auto
          note over = chunk_done [OF fl(1) [unfolded d] lt]
          obtain st2 s2 where w: "wait_shifted E start s1 = Some (st2, s2)"
            and after2: "(if st2 \<noteq> STATUS_SUCCESS then Some (st2, Rx1, s2) else rest E Target start Tx Length (count + ?n) Rx1 s2) = Some r"
            using after True by (auto split: Option.bind_splits)
          from wait_over [OF over(2) w] obtain t q' where s2: "s2 = s1\<lparr>spiTime := t, spiQueries := q'\<rparr>"
            "st2 \<in> {STATUS_SUCCESS, STATUS_IO_TIMEOUT}" by blast
          show ?thesis
          proof (cases "st2 = STATUS_SUCCESS")
            case False
            then have r: "r = (STATUS_IO_TIMEOUT, Rx1, s2)" using after2 s2(2) by auto
            have "in_flight E (W @ [Select ?cs]) ?C d k q s2" using fl(1) s2(1) by simp
            from broken_offI [OF this sent] r show ?thesis by simp
          next
            case True
            have small: "\<And>buf. Rx0 = Some buf \<Longrightarrow> 0 + length A \<le> length buf" using big cb(3) A by fastforce
            have Rx1: "Rx1 = overlay Rx0 0 (A @ frame_answers E (W @ [Select ?cs]) ?C)"
              using overlay_append [OF small] A by (simp add: fl(2) d)
            have b2: "between ?cs ?W' s2" using over(1) s2(1) by simp
            have "rest E Target start Tx Length (count + ?n) Rx1 s2 = Some r" using after2 True by simp
            from rest [OF this, unfolded P_def, rule_format, of ?W' Rx0 "A @ frame_answers E (W @ [Select ?cs]) ?C" G]
            have "fst r = STATUS_SUCCESS \<and> between ?cs (fst (spi_session E ?cs ?W' (drop (unat (count + ?n)) ?F))) (snd (snd r)) \<and>
                fst (snd r) = overlay Rx0 0 ((A @ frame_answers E (W @ [Select ?cs]) ?C) @ snd (spi_session E ?cs ?W' (drop (unat (count + ?n)) ?F)))
              \<or> fst r = STATUS_IO_TIMEOUT \<and> broken_off E G ?F (snd (snd r))"
              using b2 depth cb big Rx1 A sent by (simp add: word_le_nat_alt)
            then show ?thesis unfolding over(3) by (simp add: split_beta)
          qed
        qed
      qed
    qed
  qed (rule assms(1))
  then show ?thesis using assms(2-) unfolding P_def by auto
qed

lemma wait_returns:
  assumes "timed_out_at E start (PerformanceCounter E (spiQueries s + n))"
  shows "\<exists>r. wait_shifted E start s = Some r"
  using assms
proof (induction n arbitrary: s)
  case (0 s)
  then show ?case by (subst wait_shifted.simps) (simp add: read_status Rk3xSpiTimedOut_def query_counter_def cong: if_cong)
next
  case (Suc n s)
  have "\<exists>r. wait_shifted E start ((move_on E s)\<lparr>spiQueries := Suc (spiQueries s)\<rparr>) = Some r"
    by (rule Suc.IH) (use Suc.prems in simp)
  then show ?case by (subst wait_shifted.simps) (auto simp: read_status Rk3xSpiTimedOut_def query_counter_def cong: if_cong)
qed

lemma chunks_return:
  assumes "\<forall>n. \<exists>m \<ge> n. timed_out_at E start (PerformanceCounter E m)"
    "between (RKSPI_SER_CS (ChipSelect Target)) W s" "32 \<le> fifoDepth E" "count \<le> Length"
    "\<And>buf. Rx = Some buf \<Longrightarrow> unat Length \<le> length buf"
  shows "\<exists>r. transfer_chunks E Target start Tx Length count Rx s = Some r"
  using assms
proof (induction "unat Length - unat count" arbitrary: W count Rx s rule: less_induct)
  case (less count W Rx s)
  let ?cs = "RKSPI_SER_CS (ChipSelect Target)" and ?n = "chunk_of Length count"
  let ?C = "chunk_frames Tx count ?n"
  have l32: "unat Length < 2 ^ 32" using unsigned_less [of Length] by simp
  have soon: "\<exists>n. timed_out_at E start (PerformanceCounter E (spiQueries t + n))" for t
    using less.prems(1) [rule_format, of "spiQueries t"] by (metis le_Suc_ex)
  show ?case
  proof (cases "count < Length")
    case lt: True
    note cb = chunk_bounds(1-4) [OF lt]
    let ?s = "start_chunk E Target ?n s"
    have start: "in_flight E (W @ [Select ?cs]) ?C 0 0 0 ?s" by (rule between_start [OF less.prems(2,3)])
    have room: "\<And>buf. Rx = Some buf \<Longrightarrow> unat count + unat ?n \<le> length buf" using less.prems(5) cb(3) by fastforce
    obtain n where n: "timed_out_at E start (PerformanceCounter E (spiQueries ?s + n))" using soon by blast
    obtain st1 Rx1 s1 where p: "pump_chunk E start Tx count ?n 0 0 Rx ?s = Some (st1, Rx1, s1)"
      using pump_returns [OF n less.prems(3), of "W @ [Select ?cs]" Tx count ?n 0 0 0 Rx Rx] start cb(3) l32 room by auto
    obtain d k q where fl: "in_flight E (W @ [Select ?cs]) ?C d k q s1"
      "Rx1 = overlay Rx (unat count) (take d (frame_answers E (W @ [Select ?cs]) ?C))"
      "st1 = STATUS_SUCCESS \<and> d = unat ?n \<or> st1 = STATUS_IO_TIMEOUT"
      using pump_flight [OF p, of "W @ [Select ?cs]" 0 Rx] start cb(3) l32 room by auto
    obtain m where "timed_out_at E start (PerformanceCounter E (spiQueries s1 + m))" using soon by blast
    then obtain st2 s2 where w: "wait_shifted E start s1 = Some (st2, s2)" using wait_returns by fastforce
    have "\<exists>r. transfer_chunks E Target start Tx Length (count + ?n) Rx1 s2 = Some r" if ok: "st1 = STATUS_SUCCESS"
    proof (rule less.hyps)
      have d: "d = unat ?n" using fl(3) ok by auto
      note over = chunk_done [OF fl(1) [unfolded d] lt]
      obtain t q' where "s2 = s1\<lparr>spiTime := t, spiQueries := q'\<rparr>" using wait_over [OF over(2) w] by blast
      then show "between ?cs (W @ Select ?cs # map Frame ?C @ [Deselect]) s2" using over(1) by simp
      show "unat Length - unat (count + ?n) < unat Length - unat count" by (rule chunk_bounds(5) [OF lt])
      show "count + ?n \<le> Length" using cb by (simp add: word_le_nat_alt)
      show "unat Length \<le> length buf" if "Rx1 = Some buf" for buf
        using that less.prems(5) room fl(2) by (cases Rx) (auto simp: overlay_def)
    qed (use less.prems in auto)
    then show ?thesis using lt p w by (subst transfer_chunks.simps) auto
  qed (subst transfer_chunks.simps, simp)
qed

lemma chunks_succeed:
  assumes "\<forall>t. 1 \<le> pace E t" "\<forall>t. \<not> lingers E t" "32 \<le> fifoDepth E"
    "\<forall>i \<le> unat Length - unat count. \<not> timed_out_at E start (PerformanceCounter E (spiQueries s + i))"
    "between (RKSPI_SER_CS (ChipSelect Target)) W s" "count \<le> Length"
    "\<And>buf. Rx = Some buf \<Longrightarrow> unat Length \<le> length buf"
  shows "\<exists>Rx' s'. transfer_chunks E Target start Tx Length count Rx s = Some (STATUS_SUCCESS, Rx', s')"
  using assms
proof (induction "unat Length - unat count" arbitrary: W count Rx s rule: less_induct)
  case (less count W Rx s)
  let ?cs = "RKSPI_SER_CS (ChipSelect Target)" and ?n = "chunk_of Length count"
  let ?C = "chunk_frames Tx count ?n"
  have l32: "unat Length < 2 ^ 32" using unsigned_less [of Length] by simp
  show ?case
  proof (cases "count < Length")
    case lt: True
    note cb = chunk_bounds(1-4) [OF lt]
    let ?s = "start_chunk E Target ?n s"
    note start = between_start [OF less.prems(5,3)]
    have room: "\<And>buf. Rx = Some buf \<Longrightarrow> unat count + unat ?n \<le> length buf" using less.prems(7) cb(3) by fastforce
    have "\<forall>i \<le> unat ?n. \<not> timed_out_at E start (PerformanceCounter E (spiQueries ?s + i))"
      using less.prems(4) cb(3) by (simp add: start(2))
    then obtain Rx1 s1 where p: "pump_chunk E start Tx count ?n 0 0 Rx ?s = Some (STATUS_SUCCESS, Rx1, s1)" "spiQueries s \<le> spiQueries s1" "spiQueries s1 \<le> spiQueries s + unat ?n"
      using pump_succeeds [OF less.prems(1), of ?n 0 start ?s "W @ [Select ?cs]" Tx count 0 0 Rx Rx] start cb(3) l32 room by (auto simp: start(2))
    obtain d k q where fl: "in_flight E (W @ [Select ?cs]) ?C d k q s1"
      "Rx1 = overlay Rx (unat count) (take d (frame_answers E (W @ [Select ?cs]) ?C))" "d = unat ?n"
      using pump_flight [OF p(1), of "W @ [Select ?cs]" 0 Rx] start(1) cb(3) l32 room by auto
    note over = chunk_done [OF fl(1) [unfolded fl(3)] lt]
    have m: "move_on E s1 = s1\<lparr>spiTime := Suc (spiTime s1)\<rparr>" using over(2) by (intro move_still) simp
    have w: "wait_shifted E start s1 = Some (STATUS_SUCCESS, move_on E s1)"
      using over(2) less.prems(2) by (subst wait_shifted.simps) (simp add: read_status status_bits m)
    have "\<exists>Rx' s'. transfer_chunks E Target start Tx Length (count + ?n) Rx1 (move_on E s1) = Some (STATUS_SUCCESS, Rx', s')"
    proof (rule less.hyps)
      show "between ?cs (W @ Select ?cs # map Frame ?C @ [Deselect]) (move_on E s1)"
        using over(1) unfolding m by simp
      show "unat Length - unat (count + ?n) < unat Length - unat count" by (rule chunk_bounds(5) [OF lt])
      show "count + ?n \<le> Length" using cb by (simp add: word_le_nat_alt)
      show "unat Length \<le> length buf" if "Rx1 = Some buf" for buf
        using that less.prems(7) room fl(2) by (cases Rx) (auto simp: overlay_def)
      show "\<forall>i \<le> unat Length - unat (count + ?n). \<not> timed_out_at E start (PerformanceCounter E (spiQueries (move_on E s1) + i))"
      proof (intro allI impI)
        fix i assume "i \<le> unat Length - unat (count + ?n)"
        then have "spiQueries s1 - spiQueries s + i \<le> unat Length - unat count" using p(2,3) cb(2,3) by linarith
        then show "\<not> timed_out_at E start (PerformanceCounter E (spiQueries (move_on E s1) + i))"
          using less.prems(4) [rule_format, of "spiQueries s1 - spiQueries s + i"] p(2) by simp
      qed
    qed (use less.prems in auto)
    then show ?thesis using lt p(1) w by (subst transfer_chunks.simps) simp
  qed (subst transfer_chunks.simps, simp)
qed

section \<open>Transfers\<close>

text \<open>What the last two writes make of the wires.\<close>

definition spi_release :: "SPI_ENVIRONMENT \<Rightarrow> SPI_STATE \<Rightarrow> SPI_STATE" where
  "spi_release E s = RkSpiWrite E RKSPI_SSIENR 0 (RkSpiWrite E RKSPI_SER 0 s)"

lemma release_regs: "spiRegs (spi_release E s) RKSPI_SER = 0" "spiRegs (spi_release E s) RKSPI_SSIENR = 0"
  by (simp_all add: spi_release_def RkSpiWrite_def Let_def spi_offsets)

lemma release_wires: "selection s \<noteq> 0 \<Longrightarrow> wires (spi_release E s) = wires (move_on E s) @ [Deselect]"
  "selection s = 0 \<Longrightarrow> wires (spi_release E s) = wires s"
  by (auto simp: spi_release_def RkSpiWrite_def Let_def move_still selection_def selected_def spi_offsets split: if_splits)

lemma release_between: "between cs W s \<Longrightarrow> wires (spi_release E s) = W"
  by (auto simp: between_def release_wires move_still)

lemma release_broken:
  assumes "broken_off E G F s"
  shows "\<exists>n. frames_of (wires (spi_release E s)) = G @ take n F"
proof -
  obtain W C d k p n where i: "in_flight E W C d k p s" "frames_of W @ C = G @ take n F" "length G \<le> length (frames_of W)"
    using assms unfolding broken_off_def by blast
  let ?k = "min p (k + pace E (spiTime s))"
  have "selection s \<noteq> 0" using i(1) by (simp add: in_flight_def selection_def)
  then have "frames_of (wires (spi_release E s)) = frames_of W @ take ?k C"
    using flight_move [OF i(1)] by (simp add: release_wires in_flight_def)
  also have "\<dots> = take (length (frames_of W) + ?k) (frames_of W @ C)" by simp
  also have "\<dots> = G @ take (length (frames_of W) + ?k - length G) (take n F)" unfolding i(2) using i(3) by simp
  finally show ?thesis by (metis take_take)
qed

definition spi_prepared :: "SPI_ENVIRONMENT \<Rightarrow> RK3XSPI_TARGET \<Rightarrow> SPI_STATE \<Rightarrow> SPI_STATE" where
  "spi_prepared E Target s = RkSpiWrite E RKSPI_BAUDR (Baudr Target) (RkSpiWrite E RKSPI_CTRLR0 (control_register Target) (RkSpiWrite E RKSPI_SSIENR 0 s))"

lemma transfer_eq:
  assumes "Length \<noteq> 0"
  shows "Rk3xSpiTransfer E Target Tx Rx Length s = Option.bind
    (transfer_chunks E Target (PerformanceCounter E (spiQueries s)) Tx Length 0 Rx
      ((spi_prepared E Target s)\<lparr>spiQueries := Suc (spiQueries s)\<rparr>)) (\<lambda>(status, Rx, s). Some (status, Rx, spi_release E s))"
  using assms by (simp add: Rk3xSpiTransfer_def query_counter_def spi_prepared_def spi_release_def Let_def)
    (simp add: RkSpiWrite_def Let_def spi_offsets)

lemma prepared_between:
  assumes "spiRegs s RKSPI_SER = 0" "cs \<noteq> 0"
  shows "between cs (wires s) ((spi_prepared E Target s)\<lparr>spiQueries := q\<rparr>)"
  using assms by (auto simp: between_def spi_prepared_def RkSpiWrite_def Let_def move_still selection_def selected_def spi_offsets)

lemma select_nonzero: "n < 32 \<Longrightarrow> RKSPI_SER_CS n \<noteq> 0"
proof -
  assume "n < 32"
  then have "bit (RKSPI_SER_CS n) (unat n)" by (simp add: RKSPI_SER_CS_def bit_simps word_less_nat_alt)
  then show ?thesis by auto
qed

lemma transfer_cases:
  assumes "Rk3xSpiTransfer E Target Tx Rx Length s = Some (status, Rx', s')" "Length \<noteq> 0" "spiRegs s RKSPI_SER = 0"
    "ChipSelect Target < 32" "32 \<le> fifoDepth E" "\<And>buf. Rx = Some buf \<Longrightarrow> unat Length \<le> length buf"
  obtains t where "s' = spi_release E t" "status = STATUS_SUCCESS \<and>
      between (RKSPI_SER_CS (ChipSelect Target)) (fst (spi_session E (RKSPI_SER_CS (ChipSelect Target)) (wires s) (spi_frames Tx Length))) t \<and>
      Rx' = overlay Rx 0 (snd (spi_session E (RKSPI_SER_CS (ChipSelect Target)) (wires s) (spi_frames Tx Length)))
    \<or> status = STATUS_IO_TIMEOUT \<and> broken_off E (frames_of (wires s)) (spi_frames Tx Length) t"
proof -
  obtain t where t: "transfer_chunks E Target (PerformanceCounter E (spiQueries s)) Tx Length 0 Rx
      ((spi_prepared E Target s)\<lparr>spiQueries := Suc (spiQueries s)\<rparr>) = Some (status, Rx', t)" "s' = spi_release E t"
    using assms(1) transfer_eq [OF assms(2)] by (auto split: Option.bind_splits)
  show ?thesis
    using chunks_exchange [OF t(1) prepared_between [OF assms(3) select_nonzero [OF assms(4)]] assms(5) _ assms(6), where A = "[]" and G = "frames_of (wires s)"]
    by (intro that [OF t(2)]) auto
qed

text \<open>A controller that clocks one frame per access, a device that counts, and a counter that ticks in microseconds.\<close>

definition demo_spi :: SPI_ENVIRONMENT where
  "demo_spi = \<lparr>pace = \<lambda>_. 1, lingers = \<lambda>_. False, slave = \<lambda>w. of_nat (length w), fifoDepth = 64,
     PerformanceCounter = int, PerformanceFrequency = 1000000\<rparr>"

definition demo_spi_state :: SPI_STATE where
  "demo_spi_state = \<lparr>spiRegs = \<lambda>_. 0, spiWrites = [], txFifo = [], rxFifo = [], wires = [], spiTime = 0, spiQueries = 0\<rparr>"

definition demo_spi_target :: RK3XSPI_TARGET where
  "demo_spi_target = \<lparr>ChipSelect = 1, ConnectionSpeed = 1000000, Baudr = 200, CpolHigh = False, CphaSecond = False\<rparr>"

lemmas spi_demos = demo_spi_def demo_spi_state_def demo_spi_target_def

lemma transfer_goes:
  assumes "\<forall>t. 1 \<le> pace E t" "\<forall>t. \<not> lingers E t" "32 \<le> fifoDepth E" "ChipSelect Target < 32" "spiRegs s RKSPI_SER = 0"
    "\<forall>i \<le> unat Length. \<not> timed_out_at E (PerformanceCounter E (spiQueries s)) (PerformanceCounter E (Suc (spiQueries s) + i))"
    "\<And>buf. Rx = Some buf \<Longrightarrow> unat Length \<le> length buf"
  shows "\<exists>Rx' s'. Rk3xSpiTransfer E Target Tx Rx Length s = Some (STATUS_SUCCESS, Rx', s')"
proof (cases "Length = 0")
  case False
  let ?p = "(spi_prepared E Target s)\<lparr>spiQueries := Suc (spiQueries s)\<rparr>"
  note b = prepared_between [OF assms(5) select_nonzero [OF assms(4)], where E = E and Target = Target and q = "Suc (spiQueries s)"]
  have "\<exists>Rx' s'. transfer_chunks E Target (PerformanceCounter E (spiQueries s)) Tx Length 0 Rx ?p = Some (STATUS_SUCCESS, Rx', s')"
    by (rule chunks_succeed [OF assms(1-3) _ b]) (use assms(6,7) in auto)
  then show ?thesis unfolding transfer_eq [OF False] by fastforce
qed (simp add: Rk3xSpiTransfer_def)

lemma session_small:
  assumes "F \<noteq> []" "length F \<le> 65535"
  shows "spi_session E cs W F = (W @ Select cs # map Frame F @ [Deselect], frame_answers E (W @ [Select cs]) F)"
proof -
  have "spi_session E cs (W @ Select cs # map Frame F @ [Deselect]) [] = (W @ Select cs # map Frame F @ [Deselect], [])"
    by (subst spi_session.simps) simp
  then show ?thesis using assms by (subst spi_session.simps) (simp add: Let_def)
qed

text \<open>C14: A transfer that succeeds does on the wires what an exchange of its bytes is: under the chip select of the target
  the bytes go out in order, zeros if there is no transmit buffer, and the receive buffer starts with the device's
  answers, one per byte, whatever the pace of the controller and however the loops interleave. For up to 65535 bytes
  the chip select stays active from the first frame to the last.
\<close>

theorem spi_transfer_exchanges:
  assumes "Rk3xSpiTransfer E Target Tx Rx Length s = Some (STATUS_SUCCESS, Rx', s')" "Length \<noteq> 0" "spiRegs s RKSPI_SER = 0"
    "ChipSelect Target < 32" "32 \<le> fifoDepth E" "\<forall>buf. Rx = Some buf \<longrightarrow> unat Length \<le> length buf"
  defines "cs \<equiv> RKSPI_SER_CS (ChipSelect Target)"
  shows "wires s' = fst (spi_session E cs (wires s) (spi_frames Tx Length)) \<and>
    Rx' = overlay Rx 0 (snd (spi_session E cs (wires s) (spi_frames Tx Length))) \<and>
    (unat Length \<le> 65535 \<longrightarrow> wires s' = wires s @ Select cs # map Frame (spi_frames Tx Length) @ [Deselect] \<and>
       Rx' = overlay Rx 0 (frame_answers E (wires s @ [Select cs]) (spi_frames Tx Length)))"
proof -
  have big: "\<And>buf. Rx = Some buf \<Longrightarrow> unat Length \<le> length buf" using assms(6) by blast
  obtain t where t: "s' = spi_release E t" "between cs (fst (spi_session E cs (wires s) (spi_frames Tx Length))) t"
    "Rx' = overlay Rx 0 (snd (spi_session E cs (wires s) (spi_frames Tx Length)))"
    using transfer_cases [OF assms(1-5) big] unfolding cs_def by blast
  have w: "wires s' = fst (spi_session E cs (wires s) (spi_frames Tx Length))"
    unfolding t(1) by (rule release_between [OF t(2)])
  have "0 < length (spi_frames Tx Length)" using assms(2) by (simp add: unat_gt_0)
  then have "spi_frames Tx Length \<noteq> []" by blast
  then have "unat Length \<le> 65535 \<longrightarrow> wires s' = wires s @ Select cs # map Frame (spi_frames Tx Length) @ [Deselect] \<and>
       Rx' = overlay Rx 0 (frame_answers E (wires s @ [Select cs]) (spi_frames Tx Length))"
    unfolding w t(3) by (simp add: session_small)
  then show ?thesis using w t(3) by blast
qed

lemma demo_goes: "\<exists>Rx' s'. Rk3xSpiTransfer demo_spi demo_spi_target (Some [0x9F, 0]) (Some [7, 7, 7]) 2 demo_spi_state = Some (STATUS_SUCCESS, Rx', s')"
  by (rule transfer_goes) (auto simp: spi_demos timed_out_at_def RK3XSPI_XFER_TIMEOUT_US_def)

theorem spi_transfer_exchanges_witness:
  "\<exists>s'. Rk3xSpiTransfer demo_spi demo_spi_target (Some [0x9F, 0]) (Some [7, 7, 7]) 2 demo_spi_state = Some (STATUS_SUCCESS, Some [2, 3, 7], s') \<and>
     wires s' = [Select 2, Frame 0x9F, Frame 0, Deselect]"
proof -
  obtain Rx' s' where r: "Rk3xSpiTransfer demo_spi demo_spi_target (Some [0x9F, 0]) (Some [7, 7, 7]) 2 demo_spi_state = Some (STATUS_SUCCESS, Rx', s')"
    using demo_goes by blast
  have f: "spi_frames (Some [0x9F, 0]) 2 = [0x9F, 0]" by (simp add: spi_frames_def tx_byte_def upt_rec)
  from spi_transfer_exchanges [OF r] have "wires s' = [Select 2, Frame 0x9F, Frame 0, Deselect]" "Rx' = Some [2, 3, 7]"
    by (auto simp: f spi_demos RKSPI_SER_CS_def frame_answers_def overlay_def upt_rec)
  then show ?thesis using r by blast
qed

text \<open>C16: However a transfer of at least one byte ends, the slave enable register is 0 (the chip select is released) and the
  enable register is 0 (the controller is disabled); it ends with success or with a timeout, and then what has gone out on
  the wires is a beginning of what should have, each byte once and in order. The transfer starts with no chip selected,
  the chip select is one of the 32 bits of the register, the FIFO holds at least 32 frames (the driver's limit) and the
  receive buffer is long enough.
\<close>

theorem spi_transfer_releases:
  assumes "Rk3xSpiTransfer E Target Tx Rx Length s = Some (status, Rx', s')" "Length \<noteq> 0" "spiRegs s RKSPI_SER = 0"
    "ChipSelect Target < 32" "32 \<le> fifoDepth E" "\<forall>buf. Rx = Some buf \<longrightarrow> unat Length \<le> length buf"
  shows "spiRegs s' RKSPI_SER = 0 \<and> spiRegs s' RKSPI_SSIENR = 0 \<and> selection s' = 0 \<and> status \<in> {STATUS_SUCCESS, STATUS_IO_TIMEOUT} \<and>
    (\<exists>n. frames_of (wires s') = frames_of (wires s) @ take n (spi_frames Tx Length) \<and> (status = STATUS_SUCCESS \<longrightarrow> n = unat Length))"
proof -
  have big: "\<And>buf. Rx = Some buf \<Longrightarrow> unat Length \<le> length buf" using assms(6) by blast
  let ?S = "spi_session E (RKSPI_SER_CS (ChipSelect Target)) (wires s) (spi_frames Tx Length)"
  obtain t where t: "s' = spi_release E t" "status = STATUS_SUCCESS \<and> between (RKSPI_SER_CS (ChipSelect Target)) (fst ?S) t
    \<or> status = STATUS_IO_TIMEOUT \<and> broken_off E (frames_of (wires s)) (spi_frames Tx Length) t"
    using transfer_cases [OF assms(1-5) big] by metis
  have r: "spiRegs s' RKSPI_SER = 0" "spiRegs s' RKSPI_SSIENR = 0" "selection s' = 0" unfolding t(1) selection_def by (simp_all add: release_regs)
  from t(2) show ?thesis
  proof
    assume a: "status = STATUS_SUCCESS \<and> between (RKSPI_SER_CS (ChipSelect Target)) (fst ?S) t"
    then have "wires s' = fst ?S" unfolding t(1) using release_between by blast
    then have "frames_of (wires s') = frames_of (wires s) @ take (unat Length) (spi_frames Tx Length)" by (simp add: session_frames)
    then show ?thesis using r a by blast
  next
    assume "status = STATUS_IO_TIMEOUT \<and> broken_off E (frames_of (wires s)) (spi_frames Tx Length) t"
    then show ?thesis using r release_broken unfolding t(1) by fastforce
  qed
qed

theorem spi_transfer_releases_witness:
  "\<exists>Rx' s'. Rk3xSpiTransfer demo_spi demo_spi_target (Some [0x9F, 0]) (Some [7, 7, 7]) 2 demo_spi_state = Some (STATUS_SUCCESS, Rx', s') \<and>
     spiRegs s' RKSPI_SER = 0 \<and> spiRegs s' RKSPI_SSIENR = 0"
proof -
  obtain Rx' s' where r: "Rk3xSpiTransfer demo_spi demo_spi_target (Some [0x9F, 0]) (Some [7, 7, 7]) 2 demo_spi_state = Some (STATUS_SUCCESS, Rx', s')"
    using demo_goes by blast
  from spi_transfer_releases [OF r] have "spiRegs s' RKSPI_SER = 0 \<and> spiRegs s' RKSPI_SSIENR = 0" by (simp add: spi_demos)
  then show ?thesis using r by blast
qed

text \<open>C17: A transfer returns, whatever the controller does, once the performance counter passes the limit of a second (or
  if the controller is responsive in the following sense); and it succeeds if the controller clocks at least one frame per
  register access, never goes on reporting that it is busy after its last frame (\<open>lingers\<close>), and the counter stays below
  the limit for as many queries as there are bytes.
\<close>

theorem spi_transfer_returns:
  assumes "spiRegs s RKSPI_SER = 0" "ChipSelect Target < 32" "32 \<le> fifoDepth E" "\<forall>buf. Rx = Some buf \<longrightarrow> unat Length \<le> length buf"
    "(\<forall>n. \<exists>m \<ge> n. timed_out_at E (PerformanceCounter E (spiQueries s)) (PerformanceCounter E m)) \<or>
     (\<forall>t. 1 \<le> pace E t \<and> \<not> lingers E t) \<and>
     (\<forall>i \<le> unat Length. \<not> timed_out_at E (PerformanceCounter E (spiQueries s)) (PerformanceCounter E (Suc (spiQueries s) + i)))"
  shows "\<exists>status Rx' s'. Rk3xSpiTransfer E Target Tx Rx Length s = Some (status, Rx', s') \<and>
    ((\<forall>t. 1 \<le> pace E t \<and> \<not> lingers E t) \<and>
     (\<forall>i \<le> unat Length. \<not> timed_out_at E (PerformanceCounter E (spiQueries s)) (PerformanceCounter E (Suc (spiQueries s) + i)))
     \<longrightarrow> status = STATUS_SUCCESS)"
proof -
  have big: "\<And>buf. Rx = Some buf \<Longrightarrow> unat Length \<le> length buf" using assms(4) by blast
  show ?thesis
  proof (cases "(\<forall>t. 1 \<le> pace E t \<and> \<not> lingers E t) \<and>
     (\<forall>i \<le> unat Length. \<not> timed_out_at E (PerformanceCounter E (spiQueries s)) (PerformanceCounter E (Suc (spiQueries s) + i)))")
    case True
    then show ?thesis using transfer_goes [of E Target s Length Rx Tx] assms(1-3) big by auto
  next
    case False
    then have late: "\<forall>n. \<exists>m \<ge> n. timed_out_at E (PerformanceCounter E (spiQueries s)) (PerformanceCounter E m)" using assms(5) by blast
    have "\<exists>r. Rk3xSpiTransfer E Target Tx Rx Length s = Some r"
    proof (cases "Length = 0")
      case False
      let ?p = "(spi_prepared E Target s)\<lparr>spiQueries := Suc (spiQueries s)\<rparr>"
      note b = prepared_between [OF assms(1) select_nonzero [OF assms(2)], where E = E and Target = Target and q = "Suc (spiQueries s)"]
      show ?thesis using chunks_return [OF late b assms(3) _ big, where count = 0 and Tx = Tx] unfolding transfer_eq [OF False] by fastforce
    qed (simp add: Rk3xSpiTransfer_def)
    then show ?thesis using False by fastforce
  qed
qed

theorem spi_transfer_returns_witness:
  "\<exists>Rx' s'. Rk3xSpiTransfer demo_spi demo_spi_target None (Some [7, 7, 7]) 3 demo_spi_state = Some (STATUS_SUCCESS, Rx', s')"
  using spi_transfer_returns [of demo_spi_state demo_spi_target demo_spi "Some [7, 7, 7]" 3 None]
  by (auto simp: spi_demos timed_out_at_def RK3XSPI_XFER_TIMEOUT_US_def)

end
