(* ===== verification/SpiClock.thy ===== *)
theory SpiClock imports SpiDevice begin

text \<open>
  The divider of the SPI clock (Rk3xSpiComputeBaudr in hw.c): it is even and in range, never makes the clock faster than
  asked, and is the smallest that does so.
\<close>

unbundle bit_operations_syntax

lemma clear_low: "(x :: u32) AND NOT (mask n) = push_bit n (drop_bit n x)"
  by (rule bit_word_eqI) (auto simp: bit_simps)

lemma unat_clear_lowest: "unat ((x :: u32) AND NOT 1) = 2 * (unat x div 2)"
proof -
  have "x AND NOT 1 = push_bit 1 (drop_bit 1 x)"
    using clear_low [of x 1] by (simp add: mask_eq_exp_minus_1)
  moreover have "push_bit 1 (unat (drop_bit 1 x)) < 2 ^ 32"
    using unsigned_less [of x, where 'a = nat] by (simp add: unsigned_drop_bit_eq drop_bit_eq_div push_bit_eq_mult unat_div)
  ultimately show ?thesis
    by (simp add: unat_word_ariths(2) unat_div drop_bit_eq_div push_bit_eq_mult)
qed

text \<open>The quotient rounded up, on \<open>nat\<close>, for the driver's input clock; a sum that wraps has the quotient 0.\<close>

lemma baudr_quotient:
  assumes "t \<noteq> (0 :: u32)"
  shows "unat ((200000000 + t - 1) div t) = (if 200000000 + unat t \<le> 2 ^ 32 then (200000000 + unat t - 1) div unat t else 0)"
proof -
  have t: "0 < unat t" "unat t < 2 ^ 32" using assms unsigned_less [of t] by (simp_all add: unat_gt_0)
  have s: "unat (199999999 + t) = (199999999 + unat t) mod 2 ^ 32" by (simp add: unat_word_ariths)
  have "200000000 + t - 1 = 199999999 + t" by simp
  then have "unat ((200000000 + t - 1) div t) = ((199999999 + unat t) mod 2 ^ 32) div unat t" using s by (simp add: unat_div)
  also have "\<dots> = (if 200000000 + unat t \<le> 2 ^ 32 then (200000000 + unat t - 1) div unat t else 0)"
  proof (cases "200000000 + unat t \<le> 2 ^ 32")
    case False
    then have "(199999999 + unat t) mod 2 ^ 32 = 199999999 + unat t - 2 ^ 32" using t by (simp add: mod_if)
    then show ?thesis using False t by simp
  qed simp
  finally show ?thesis .
qed

lemma baudr_value:
  assumes "TargetHz \<noteq> 0"
  defines "q \<equiv> (if 200000000 + unat TargetHz \<le> 2 ^ 32 then (200000000 + unat TargetHz - 1) div unat TargetHz else 0)"
  shows "unat (Rk3xSpiComputeBaudr RK3XSPI_INPUT_CLK_HZ TargetHz) = min 65534 (2 * ((max 2 q + 1) div 2))"
proof -
  define b where "b = (200000000 + TargetHz - 1) div TargetHz"
  define m where "m = (if b < 2 then 2 else b)"
  have ub: "unat b = q" unfolding b_def q_def by (rule baudr_quotient [OF assms(1)])
  have "0 < unat TargetHz" using assms(1) by (simp add: unat_gt_0)
  then have "q \<le> 200000000" unfolding q_def by (auto intro!: less_Suc_eq_le [THEN iffD1] less_mult_imp_div_less)
  moreover have "unat m = max 2 q" using ub by (auto simp: m_def word_less_nat_alt)
  ultimately have m1: "unat (m + 1) = max 2 q + 1" by (simp add: unat_word_ariths)
  have "Rk3xSpiComputeBaudr RK3XSPI_INPUT_CLK_HZ TargetHz = (if (m + 1) AND NOT 1 > 65534 then 65534 else (m + 1) AND NOT 1)"
    using assms(1) by (simp add: Rk3xSpiComputeBaudr_def Let_def RK3XSPI_INPUT_CLK_HZ_def RKSPI_BAUDR_MIN_def RKSPI_BAUDR_MAX_def b_def m_def)
  moreover have "unat ((m + 1) AND NOT 1) = 2 * ((max 2 q + 1) div 2)" unfolding unat_clear_lowest m1 ..
  ultimately show ?thesis by (auto simp: word_less_nat_alt min_def simp del: max.bounded_iff)
qed

text \<open>C18: The divider of the SPI clock is even, between 2 and 65534, and never makes the clock faster than the target
  asked for (down to 3052 Hz, which is as slow as it gets), although the sum the driver rounds with wraps around for
  targets near 4 GHz. It is the smallest such divider: with the next smaller even one the clock would be too fast.
\<close>

theorem baudr_never_too_fast:
  assumes "TargetHz \<noteq> 0"
  defines "b \<equiv> unat (Rk3xSpiComputeBaudr RK3XSPI_INPUT_CLK_HZ TargetHz)"
  shows "even b \<and> 2 \<le> b \<and> b \<le> 65534 \<and>
    (3052 \<le> TargetHz \<longrightarrow> unat RK3XSPI_INPUT_CLK_HZ \<le> b * unat TargetHz) \<and>
    (2 < b \<longrightarrow> (b - 2) * unat TargetHz < unat RK3XSPI_INPUT_CLK_HZ)"
proof -
  let ?t = "unat TargetHz"
  define q where "q = (if 200000000 + ?t \<le> 2 ^ 32 then (200000000 + ?t - 1) div ?t else 0)"
  have b: "b = min 65534 (2 * ((max 2 q + 1) div 2))" unfolding b_def q_def by (rule baudr_value [OF assms(1)])
  have t: "0 < ?t" using assms(1) by (simp add: unat_gt_0)
  have even: "even b" unfolding b by (simp add: min_def)
  have range: "2 \<le> b" "b \<le> 65534" unfolding b by (auto simp: min_def max_def)
  have upper: "b \<le> max 2 q + 1" "b \<le> 65534 \<or> q \<le> b" unfolding b by (auto simp: min_def)
  have fast: "200000000 \<le> b * ?t" if "3052 \<le> TargetHz"
  proof (cases "b = 65534")
    case True
    have "3052 \<le> ?t" using that by (simp add: word_le_nat_alt)
    then show ?thesis using True by simp
  next
    case False
    then have "q \<le> b" unfolding b by (auto simp: min_def max_def)
    show ?thesis
    proof (cases "200000000 + ?t \<le> 2 ^ 32")
      case True
      have "200000000 + ?t - 1 < (q + 1) * ?t" unfolding q_def using True t
        by (simp add: dividend_less_div_times)
      then have "200000000 \<le> q * ?t" using t by (simp add: algebra_simps)
      also have "\<dots> \<le> b * ?t" using \<open>q \<le> b\<close> by simp
      finally show ?thesis .
    next
      case False
      then have "200000000 \<le> 2 * ?t" by simp
      also have "\<dots> \<le> b * ?t" using range by simp
      finally show ?thesis .
    qed
  qed
  have slow: "(b - 2) * ?t < 200000000" if "2 < b"
  proof -
    have "b - 2 < q" using that unfolding b by (auto simp: min_def max_def split: if_splits)
    then have q: "200000000 + ?t \<le> 2 ^ 32" "q = (200000000 + ?t - 1) div ?t" unfolding q_def by (auto split: if_splits)
    have "q * ?t \<le> 200000000 + ?t - 1" unfolding q(2) by simp
    moreover have "(b - 2) * ?t + ?t \<le> q * ?t" using \<open>b - 2 < q\<close> mult_le_mono1 [of "Suc (b - 2)" q ?t] by simp
    ultimately show ?thesis using t by linarith
  qed
  have "unat RK3XSPI_INPUT_CLK_HZ = 200000000" by (simp add: RK3XSPI_INPUT_CLK_HZ_def)
  then show ?thesis using even range fast slow by simp
qed

theorem baudr_never_too_fast_witness:
  "even (unat (Rk3xSpiComputeBaudr RK3XSPI_INPUT_CLK_HZ 0xFFFFFFFF)) \<and> 200000000 \<le> unat (Rk3xSpiComputeBaudr RK3XSPI_INPUT_CLK_HZ 0xFFFFFFFF) * unat (0xFFFFFFFF :: u32)"
  using baudr_never_too_fast [of "0xFFFFFFFF"] by (simp add: RK3XSPI_INPUT_CLK_HZ_def)

end
