(* ===== verification/SpiRequestProperties.thy ===== *)
theory SpiRequestProperties imports SpiRequests SpiProperties SpiClock begin

text \<open>
  The properties of the SPI driver's requests: a sequence is one exchange of the concatenation of its segments, every
  request is completed once, and what happens if the lengths of a sequence add up to more than 32 bits hold.
\<close>

unbundle bit_operations_syntax

section \<open>Gathering and scattering\<close>

lemma replicate_two: "replicate 2 x = [x, x]"
  by (simp add: numeral_2_eq_2)

abbreviation seg_len :: "SPB_SEGMENT \<Rightarrow> nat" where
  "seg_len seg \<equiv> unat (ucast (TransferLength seg) :: u32)"

abbreviation seg_sum :: "SPB_SEGMENT list \<Rightarrow> nat" where
  "seg_sum segs \<equiv> sum_list (map seg_len segs)"

text \<open>A segment is mapped, and as long as it says.\<close>

definition seg_ok :: "SPB_SEGMENT \<Rightarrow> bool" where
  "seg_ok seg \<longleftrightarrow> (case Mapped seg of None \<Rightarrow> False | Some buf \<Rightarrow> seg_len seg \<le> length buf)"

definition seg_bytes :: "SPB_SEGMENT \<Rightarrow> u8 list" where
  "seg_bytes seg = (if ToDevice seg then take (seg_len seg) (the (Mapped seg)) else replicate (seg_len seg) 0)"

text \<open>What a sequence sends, and what it leaves in its segments.\<close>

definition sequence_bytes :: "SPB_SEGMENT list \<Rightarrow> u8 list" where
  "sequence_bytes segs = concat (map seg_bytes segs)"

fun sequence_results :: "SPB_SEGMENT list \<Rightarrow> u8 list \<Rightarrow> SPB_SEGMENT list" where
  "sequence_results [] A = []"
| "sequence_results (seg # segs) A =
     (if ToDevice seg then seg else seg\<lparr>Mapped := Some (take (seg_len seg) A @ drop (seg_len seg) (the (Mapped seg)))\<rparr>)
     # sequence_results segs (drop (seg_len seg) A)"

lemma seg_okE: "seg_ok seg \<Longrightarrow> (\<And>buf. Mapped seg = Some buf \<Longrightarrow> seg_len seg \<le> length buf \<Longrightarrow> thesis) \<Longrightarrow> thesis"
  by (auto simp: seg_ok_def split: option.splits)

lemma length_seg_bytes: "seg_ok seg \<Longrightarrow> length (seg_bytes seg) = seg_len seg"
  by (auto simp: seg_bytes_def seg_ok_def split: option.splits)

lemma length_sequence: "\<forall>seg \<in> set segs. seg_ok seg \<Longrightarrow> length (sequence_bytes segs) = seg_sum segs"
  by (induction segs) (auto simp: sequence_bytes_def length_seg_bytes)

lemma foldl_total: "unat t + seg_sum segs < 2 ^ 32 \<Longrightarrow>
   unat (foldl (\<lambda>total seg. total + ucast (TransferLength seg)) (t :: u32) segs) = unat t + seg_sum segs"
proof (induction segs arbitrary: t)
  case (Cons seg segs)
  have "unat (t + ucast (TransferLength seg)) = unat t + seg_len seg"
    by (rule of_nat_store) (use Cons.prems in simp)
  then show ?case using Cons.IH [of "t + ucast (TransferLength seg)"] Cons.prems by simp
qed simp

lemma unat_total: "seg_sum segs < 2 ^ 32 \<Longrightarrow> unat (total_length segs) = seg_sum segs"
  using foldl_total [of 0 segs] by (simp add: total_length_def)

lemma gather_sequence:
  assumes "\<forall>seg \<in> set segs. seg_ok seg" "unat offset + seg_sum segs < 2 ^ 32" "length P = unat offset"
  shows "gather segs offset (P @ replicate (seg_sum segs) 0) = Within (Some (P @ sequence_bytes segs))"
  using assms
proof (induction segs arbitrary: offset P)
  case Nil
  then show ?case by (simp add: sequence_bytes_def)
next
  case (Cons seg segs)
  let ?n = "seg_len seg"
  have ok: "seg_ok seg" using Cons.prems(1) by simp
  from seg_okE [OF ok] obtain buf where b: "Mapped seg = Some buf" "?n \<le> length buf" by blast
  have off: "unat (offset + ucast (TransferLength seg)) = unat offset + ?n" by (rule of_nat_store) (use Cons.prems(2) in simp)
  have "gather segs (offset + ucast (TransferLength seg)) ((P @ seg_bytes seg) @ replicate (seg_sum segs) 0) =
      Within (Some ((P @ seg_bytes seg) @ sequence_bytes segs))"
    by (rule Cons.IH) (use Cons.prems off length_seg_bytes [OF ok] in auto)
  then have rest: "gather segs (offset + ucast (TransferLength seg)) (P @ seg_bytes seg @ replicate (seg_sum segs) 0) =
      Within (Some (P @ sequence_bytes (seg # segs)))" by (simp add: sequence_bytes_def)
  show ?case
  proof (cases "ToDevice seg")
    case True
    then have s: "seg_bytes seg = take ?n buf" using b by (simp add: seg_bytes_def)
    have "copy_into (unat offset) (take ?n buf) (P @ replicate (seg_sum (seg # segs)) 0) =
        Within (P @ take ?n buf @ replicate (seg_sum segs) 0)"
      using b Cons.prems(3) by (simp add: copy_into_def replicate_add drop_append min_absorb2)
    then show ?thesis using True b rest unfolding s
      by (simp add: Rk3xSpiMapTransfer_def read_from_def)
  next
    case False
    then have s: "seg_bytes seg = replicate ?n 0" by (simp add: seg_bytes_def)
    show ?thesis using False b rest unfolding s by (simp add: Rk3xSpiMapTransfer_def replicate_add)
  qed
qed

lemma scatter_sequence:
  assumes "\<forall>seg \<in> set segs. seg_ok seg" "unat offset + seg_sum segs < 2 ^ 32" "length A = unat offset + seg_sum segs"
  shows "scatter segs offset A = Within (sequence_results segs (drop (unat offset) A))"
  using assms
proof (induction segs arbitrary: offset)
  case (Cons seg segs)
  let ?n = "seg_len seg"
  have ok: "seg_ok seg" using Cons.prems(1) by simp
  from seg_okE [OF ok] obtain buf where b: "Mapped seg = Some buf" "?n \<le> length buf" by blast
  have off: "unat (offset + ucast (TransferLength seg)) = unat offset + ?n" by (rule of_nat_store) (use Cons.prems(2) in simp)
  have rest: "scatter segs (offset + ucast (TransferLength seg)) A = Within (sequence_results segs (drop ?n (drop (unat offset) A)))"
    using Cons.IH [of "offset + ucast (TransferLength seg)"] Cons.prems off by (simp add: add.commute)
  show ?case
    using rest b Cons.prems(3)
    by (auto simp: Rk3xSpiMapTransfer_def read_from_def copy_into_def Let_def min_absorb2)
qed simp

lemma session_answers: "length (snd (spi_session E cs W F)) = length F"
proof (induction E cs W F rule: spi_session.induct)
  case (1 E cs W F)
  show ?case
  proof (cases "F = []")
    case True
    then show ?thesis by (subst spi_session.simps) simp
  next
    case False
    from 1 [OF this refl refl] False show ?thesis by (subst spi_session.simps) (simp add: Let_def split_beta)
  qed
qed

lemma frames_of_buffer: "length F = unat Length \<Longrightarrow> spi_frames (Some F) Length = F"
proof -
  assume l: "length F = unat Length"
  show "spi_frames (Some F) Length = F"
  proof (rule nth_equalityI)
    fix i assume "i < length (spi_frames (Some F) Length)"
    then have "i < unat Length" by simp
    moreover have "unat Length < 2 ^ 32" using unsigned_less [of Length, where 'a = nat] by simp
    ultimately have "unat (of_nat i :: u32) = i" by (simp add: unat_of_nat)
    then show "spi_frames (Some F) Length ! i = F ! i" using \<open>i < unat Length\<close> by (simp add: spi_frames_def tx_byte_def)
  qed (simp add: l)
qed

section \<open>Sequences\<close>

text \<open>C15: A sequence whose segments are mapped and together shorter than 4 GB never copies outside a buffer, completes its
  request exactly once and returns every buffer it took. If it completes with success, the wires have seen one exchange
  of the segments' bytes in order (zeros for the read segments), each read segment begins with the answers to its own
  bytes, the write segments are as they were, and the number of bytes reported is the sum of the lengths. The exchange
  is that of \<open>spi_session\<close>: above 65535 bytes the chip select drops between the chunks, contrary to what the head of
  spb.c says of it (as in C14). No chip select is set at the start, the target's is below 32, and the FIFO holds at
  least 32 frames.
\<close>

theorem spi_sequence_exchanges:
  assumes "Rk3xSpiEvtIoSequence E target tx rx r s pool = Some res" "\<forall>seg \<in> set (Transfers r). seg_ok seg"
    "seg_sum (Transfers r) < 2 ^ 32" "spiRegs s RKSPI_SER = 0" "ChipSelect target < 32" "32 \<le> fifoDepth E"
  defines "S \<equiv> spi_session E (RKSPI_SER_CS (ChipSelect target)) (wires s) (sequence_bytes (Transfers r))"
  shows "\<exists>r' s' status. res = Within (r', s', pool) \<and> Completions r' = Completions r @ [status] \<and>
    (status = STATUS_SUCCESS \<longrightarrow> wires s' = fst S \<and> Transfers r' = sequence_results (Transfers r) (snd S) \<and>
       unat (Information r') = seg_sum (Transfers r))"
proof -
  let ?segs = "Transfers r" and ?total = "total_length (Transfers r)"
  let ?z = "replicate (unat ?total) (0 :: u8)" and ?F = "sequence_bytes (Transfers r)"
  have tot: "unat ?total = seg_sum ?segs" by (rule unat_total [OF assms(3)])
  note body = assms(1) [unfolded Rk3xSpiEvtIoSequence_def Let_def]
  show ?thesis
  proof (cases "?total = 0 \<or> \<not> tx \<or> \<not> rx")
    case True
    then show ?thesis using body
      by (auto simp: complete_with_def SpbRequestComplete_def cleanup_def Let_def split: if_splits)
  next
    case False
    then have go: "?total \<noteq> 0" "tx" "rx" by auto
    have g: "gather ?segs 0 ?z = Within (Some ?F)"
      using gather_sequence [OF assms(2), of 0 "[]"] assms(3) tot by simp
    obtain status rxBuf s' where t: "Rk3xSpiTransfer E target (Some ?F) (Some ?z) ?total s = Some (status, rxBuf, s')"
      and after: "(if \<not> NT_SUCCESS status then Some (Within (complete_with status ?total r, s', cleanup tx rx (pool + (if tx then 1 else 0) + (if rx then 1 else 0))))
         else case scatter ?segs 0 (the rxBuf) of Overrun \<Rightarrow> Some Overrun
           | Within segs \<Rightarrow> Some (Within (complete_with status ?total (r\<lparr>Transfers := segs\<rparr>), s', cleanup tx rx (pool + (if tx then 1 else 0) + (if rx then 1 else 0))))) = Some res"
      using body go g by (auto split: Option.bind_splits)
    have pool: "cleanup tx rx (pool + (if tx then 1 else 0) + (if rx then 1 else 0)) = pool" using go by (simp add: cleanup_def Let_def)
    show ?thesis
    proof (cases "NT_SUCCESS status")
      case fail: False
      then have "res = Within (complete_with status ?total r, s', pool)" using after pool by simp
      then show ?thesis using fail by (auto simp: complete_with_def SpbRequestComplete_def)
    next
      case ok: True
      have big: "\<And>buf. Some ?z = Some buf \<Longrightarrow> unat ?total \<le> length buf" by auto
      let ?S = "spi_session E (RKSPI_SER_CS (ChipSelect target)) (wires s) (spi_frames (Some ?F) ?total)"
      obtain u where u0: "s' = spi_release E u" "status = STATUS_SUCCESS \<and> between (RKSPI_SER_CS (ChipSelect target)) (fst ?S) u \<and> rxBuf = overlay (Some ?z) 0 (snd ?S)
        \<or> status = STATUS_IO_TIMEOUT \<and> broken_off E (frames_of (wires s)) (spi_frames (Some ?F) ?total) u"
        by (rule transfer_cases [OF t go(1) assms(4-6) big])
      then have u: "s' = spi_release E u" "status = STATUS_SUCCESS" "between (RKSPI_SER_CS (ChipSelect target)) (fst ?S) u" "rxBuf = overlay (Some ?z) 0 (snd ?S)"
        using ok by auto
      have F: "spi_frames (Some ?F) ?total = ?F" by (rule frames_of_buffer) (simp add: length_sequence [OF assms(2)] tot)
      have la: "length (snd S) = seg_sum ?segs" unfolding S_def by (simp add: session_answers length_sequence [OF assms(2)])
      have rx: "rxBuf = Some (snd S)" using u(4) la tot unfolding F S_def [symmetric] by (simp add: overlay_def)
      have "scatter ?segs 0 (snd S) = Within (sequence_results ?segs (snd S))"
        using scatter_sequence [OF assms(2), of 0 "snd S"] assms(3) la by simp
      then have "res = Within (complete_with status ?total (r\<lparr>Transfers := sequence_results ?segs (snd S)\<rparr>), s', pool)"
        using after ok rx pool by simp
      moreover have "wires s' = fst S" unfolding u(1) using release_between [OF u(3)] by (simp add: F S_def)
      ultimately show ?thesis using u(2) tot by (auto simp: complete_with_def SpbRequestComplete_def)
    qed
  qed
qed

definition demo_sequence :: SPB_REQUEST where
  "demo_sequence = \<lparr>Transfers = [\<lparr>TransferLength = 1, ToDevice = True, Mapped = Some [0x9F]\<rparr>, \<lparr>TransferLength = 2, ToDevice = False, Mapped = Some [7, 7, 7]\<rparr>],
     Information = 0, Completions = []\<rparr>"

lemma demo_sequence_facts: "\<forall>seg \<in> set (Transfers demo_sequence). seg_ok seg" "seg_sum (Transfers demo_sequence) = 3"
  "sequence_bytes (Transfers demo_sequence) = [0x9F, 0, 0]" "total_length (Transfers demo_sequence) = 3" "Completions demo_sequence = []"
  "sequence_results (Transfers demo_sequence) [2, 3, 4] =
     [\<lparr>TransferLength = 1, ToDevice = True, Mapped = Some [0x9F]\<rparr>, \<lparr>TransferLength = 2, ToDevice = False, Mapped = Some [3, 4, 7]\<rparr>]"
  by (simp_all add: demo_sequence_def seg_ok_def sequence_bytes_def seg_bytes_def total_length_def replicate_two)

lemma demo_spi_facts: "fifoDepth demo_spi = 64" "spiRegs demo_spi_state RKSPI_SER = 0" "wires demo_spi_state = []" "ChipSelect demo_spi_target = 1"
  "RKSPI_SER_CS 1 = 2"
  by (simp_all add: spi_demos RKSPI_SER_CS_def)

lemma demo_sequence_runs:
  "\<exists>r' s'. Rk3xSpiEvtIoSequence demo_spi demo_spi_target True True demo_sequence demo_spi_state 0 = Some (Within (r', s', 0)) \<and> Completions r' = [STATUS_SUCCESS]"
proof -
  let ?z = "replicate (unat (3 :: u32)) 0"
  have g: "gather (Transfers demo_sequence) 0 ?z = Within (Some [0x9F, 0, 0])"
    using gather_sequence [OF demo_sequence_facts(1), of 0 "[]"] by (simp add: demo_sequence_facts)
  obtain Rx' s' where x: "Rk3xSpiTransfer demo_spi demo_spi_target (Some [0x9F, 0, 0]) (Some ?z) 3 demo_spi_state = Some (STATUS_SUCCESS, Rx', s')"
    using transfer_goes [of demo_spi demo_spi_target demo_spi_state 3 "Some ?z" "Some [0x9F, 0, 0]"]
    by (auto simp: spi_demos timed_out_at_def RK3XSPI_XFER_TIMEOUT_US_def)
  have "\<exists>A. Rx' = Some A \<and> length A = 3"
  proof (rule transfer_cases [OF x])
    show "unat (3 :: u32) \<le> length buf" if "Some ?z = Some buf" for buf using that by auto
  qed (auto simp: demo_spi_facts overlay_def session_answers)
  then obtain A where "Rx' = Some A" "length A = 3" by blast
  then have "scatter (Transfers demo_sequence) 0 (the Rx') = Within (sequence_results (Transfers demo_sequence) A)"
    using scatter_sequence [OF demo_sequence_facts(1), of 0 A] by (simp add: demo_sequence_facts)
  then show ?thesis using g x
    by (simp add: Rk3xSpiEvtIoSequence_def Let_def cleanup_def complete_with_def SpbRequestComplete_def demo_sequence_facts)
qed

theorem spi_sequence_exchanges_witness:
  "\<exists>r' s'. Rk3xSpiEvtIoSequence demo_spi demo_spi_target True True demo_sequence demo_spi_state 0 = Some (Within (r', s', 0)) \<and>
     wires s' = [Select 2, Frame 0x9F, Frame 0, Frame 0, Deselect] \<and> map Mapped (Transfers r') = [Some [0x9F], Some [3, 4, 7]]"
proof -
  obtain r' s' where x: "Rk3xSpiEvtIoSequence demo_spi demo_spi_target True True demo_sequence demo_spi_state 0 = Some (Within (r', s', 0))"
    "Completions r' = [STATUS_SUCCESS]" using demo_sequence_runs by blast
  have S: "spi_session demo_spi 2 [] [0x9F, 0, 0] = ([Select 2, Frame 0x9F, Frame 0, Frame 0, Deselect], [2, 3, 4])"
    by (subst session_small) (simp_all add: frame_answers_def spi_demos upt_rec)
  have "wires s' = [Select 2, Frame 0x9F, Frame 0, Frame 0, Deselect]" "map Mapped (Transfers r') = [Some [0x9F], Some [3, 4, 7]]"
    using spi_sequence_exchanges [OF x(1) demo_sequence_facts(1)] x(2) by (simp_all add: demo_sequence_facts demo_spi_facts S)
  with x(1) show ?thesis by (intro exI conjI)
qed

text \<open>The driver adds the lengths of a sequence in 32 bits: of two mapped write segments whose lengths together exceed
  4 GB by less than 4 GB, the buffers are allocated for the remainder, and copying the first segment overruns them.
\<close>

theorem sequence_total_wraps:
  assumes "Transfers r = [a, b]" "seg_ok a" "ToDevice a" "2 ^ 32 < seg_len a + seg_len b"
  shows "total_length (Transfers r) \<noteq> 0 \<and> unat (total_length (Transfers r)) < seg_len a \<and>
    Rk3xSpiEvtIoSequence E target True True r s pool = Some Overrun"
proof -
  have lb: "seg_len b < 2 ^ 32" "seg_len a < 2 ^ 32" using unsigned_less [where 'a = nat, of "ucast (TransferLength _) :: u32"] by simp_all
  have "unat (total_length (Transfers r)) = (seg_len a + seg_len b) mod 2 ^ 32"
    using assms(1) by (simp add: total_length_def unat_word_ariths)
  also have "\<dots> = seg_len a + seg_len b - 2 ^ 32" using assms(4) lb by (simp add: mod_if)
  finally have t: "unat (total_length (Transfers r)) = seg_len a + seg_len b - 2 ^ 32" .
  then have small: "unat (total_length (Transfers r)) < seg_len a" "total_length (Transfers r) \<noteq> 0"
    using lb assms(4) by (auto simp: unat_gt_0 [symmetric])
  from seg_okE [OF assms(2)] obtain buf where "Mapped a = Some buf" "seg_len a \<le> length buf" by blast
  then have "gather (Transfers r) 0 (replicate (unat (total_length (Transfers r))) 0) = Overrun"
    using assms(1,3) small(1) by (simp add: Rk3xSpiMapTransfer_def read_from_def copy_into_def)
  then show ?thesis using small by (simp add: Rk3xSpiEvtIoSequence_def Let_def)
qed

definition huge_segment :: "u64 \<Rightarrow> SPB_SEGMENT" where
  "huge_segment n = \<lparr>TransferLength = n, ToDevice = True, Mapped = Some (replicate (unat n) 0)\<rparr>"

lemma sequence_total_wraps_witness:
  "Rk3xSpiEvtIoSequence demo_spi demo_spi_target True True (demo_sequence\<lparr>Transfers := [huge_segment 0x80000001, huge_segment 0x80000000]\<rparr>) demo_spi_state 0
     = Some Overrun"
  using sequence_total_wraps [of "demo_sequence\<lparr>Transfers := [huge_segment 0x80000001, huge_segment 0x80000000]\<rparr>" "huge_segment 0x80000001" "huge_segment 0x80000000"]
  by (simp add: seg_ok_def huge_segment_def)

section \<open>Mapping\<close>

lemma prepared_controller:
  assumes "Rk3xSpiEvtPrepareHardware map_io E ds ctx s = (STATUS_SUCCESS, ctx', s')"
  shows "Regs ctx' \<noteq> None \<and> Regs ctx' = map_io (RegsPhysical ctx') (RegsLength ctx') \<and> s' = Rk3xSpiHwInit E s"
proof -
  have "find_registers map_io ds found c = (None, True, c') \<Longrightarrow> (found \<longrightarrow> (\<exists>a. Regs c = Some a \<and> map_io (RegsPhysical c) (RegsLength c) = Some a)) \<Longrightarrow>
      \<exists>a. Regs c' = Some a \<and> map_io (RegsPhysical c') (RegsLength c') = Some a" for found c c'
    by (induction map_io ds found c rule: find_registers.induct) (auto simp: Let_def split: if_splits)
  moreover have "find_registers map_io ds found c = (Some status, f, c') \<Longrightarrow> status = STATUS_INSUFFICIENT_RESOURCES" for found c status f c'
    by (induction map_io ds found c rule: find_registers.induct) (auto simp: Let_def split: if_splits)
  ultimately show ?thesis using assms
    by (fastforce simp: Rk3xSpiEvtPrepareHardware_def split: prod.splits option.splits if_splits)
qed

end
