(* ===== verification/RkSip.thy ===== *)
theory RkSip imports NtStatus begin

text \<open>
  The Rockchip SDMMC service library (src/drivers/sd/rk_sip_sdmmc_lib) over the SMC call (src/drivers/lib/arm_smc_lib):
  clock rates and phases and regulators of an SD controller are read and set by calls into the firmware.

  The firmware is a parameter: a function from the eight argument registers and its own state to the eight registers
  afterwards, of which \<open>ArmCallSmc\<close> stores the first four back.
\<close>

unbundle bit_operations_syntax

record ARM_SMC_ARGS =
  Arg0 :: u64
  Arg1 :: u64
  Arg2 :: u64
  Arg3 :: u64
  Arg4 :: u64
  Arg5 :: u64
  Arg6 :: u64
  Arg7 :: u64

type_synonym 'f firmware = "ARM_SMC_ARGS \<Rightarrow> 'f \<Rightarrow> ARM_SMC_ARGS \<times> 'f"

definition ArmCallSmc :: "'f firmware \<Rightarrow> ARM_SMC_ARGS \<Rightarrow> 'f \<Rightarrow> ARM_SMC_ARGS \<times> 'f" where
  "ArmCallSmc smc a f = (case smc a f of (b, f) \<Rightarrow> (a\<lparr>Arg0 := Arg0 b, Arg1 := Arg1 b, Arg2 := Arg2 b, Arg3 := Arg3 b\<rparr>, f))"

definition RK_SIP_SDMMC_CLOCK_RATE_GET :: u32 where "RK_SIP_SDMMC_CLOCK_RATE_GET = 0x82000020"
definition RK_SIP_SDMMC_CLOCK_RATE_SET :: u32 where "RK_SIP_SDMMC_CLOCK_RATE_SET = 0x82000021"
definition RK_SIP_SDMMC_CLOCK_PHASE_GET :: u32 where "RK_SIP_SDMMC_CLOCK_PHASE_GET = 0x82000022"
definition RK_SIP_SDMMC_CLOCK_PHASE_SET :: u32 where "RK_SIP_SDMMC_CLOCK_PHASE_SET = 0x82000023"
definition RK_SIP_SDMMC_REGULATOR_VOLTAGE_GET :: u32 where "RK_SIP_SDMMC_REGULATOR_VOLTAGE_GET = 0x82000024"
definition RK_SIP_SDMMC_REGULATOR_VOLTAGE_SET :: u32 where "RK_SIP_SDMMC_REGULATOR_VOLTAGE_SET = 0x82000025"
definition RK_SIP_SDMMC_REGULATOR_ENABLE_GET :: u32 where "RK_SIP_SDMMC_REGULATOR_ENABLE_GET = 0x82000026"
definition RK_SIP_SDMMC_REGULATOR_ENABLE_SET :: u32 where "RK_SIP_SDMMC_REGULATOR_ENABLE_SET = 0x82000027"

text \<open>On ARM64 the identifiers are those of the 64-bit calling convention.\<close>

definition ARCH_SMC_ID :: "u32 \<Rightarrow> u32" where "ARCH_SMC_ID ident = ident OR push_bit 30 1"

text \<open>The error codes are of type \<open>int\<close>; the comparison with \<open>Arg0\<close> extends their sign.\<close>

definition RK_SIP_E_SUCCESS :: u64 where "RK_SIP_E_SUCCESS = 0"
definition RK_SIP_E_NOT_SUPPORTED :: u64 where "RK_SIP_E_NOT_SUPPORTED = -1"
definition RK_SIP_E_INVALID_PARAM :: u64 where "RK_SIP_E_INVALID_PARAM = -2"
definition RK_SIP_E_NOT_IMPLEMENTED :: u64 where "RK_SIP_E_NOT_IMPLEMENTED = -3"

text \<open>\<open>STATUS_UNSUCCESSFUL\<close> is the code 0xC0000001.\<close>

definition SmcReturnToStatus :: "ARM_SMC_ARGS \<Rightarrow> NTSTATUS" where
  "SmcReturnToStatus SmcArgs =
     (if Arg0 SmcArgs = RK_SIP_E_SUCCESS then STATUS_SUCCESS
      else if Arg0 SmcArgs = RK_SIP_E_NOT_SUPPORTED then STATUS_NOT_SUPPORTED
      else if Arg0 SmcArgs = RK_SIP_E_INVALID_PARAM then STATUS_INVALID_PARAMETER
      else if Arg0 SmcArgs = RK_SIP_E_NOT_IMPLEMENTED then STATUS_NOT_IMPLEMENTED
      else STATUS_OTHER 0xC0000001)"

definition smc_args :: "u32 \<Rightarrow> u64 \<Rightarrow> u8 \<Rightarrow> u64 \<Rightarrow> ARM_SMC_ARGS" where
  "smc_args call ControllerAddress ident v =
     \<lparr>Arg0 = ucast (ARCH_SMC_ID call), Arg1 = ControllerAddress, Arg2 = ucast ident, Arg3 = v, Arg4 = 0, Arg5 = 0, Arg6 = 0, Arg7 = 0\<rparr>"

text \<open>The functions that read a value return it whatever the status is.\<close>

definition RkSipSdmmcClockRateGet :: "'f firmware \<Rightarrow> u64 \<Rightarrow> u8 \<Rightarrow> 'f \<Rightarrow> NTSTATUS \<times> u32 \<times> 'f" where
  "RkSipSdmmcClockRateGet smc ControllerAddress ident f =
     (case ArmCallSmc smc (smc_args RK_SIP_SDMMC_CLOCK_RATE_GET ControllerAddress ident 0) f of (a, f) \<Rightarrow> (SmcReturnToStatus a, ucast (Arg1 a), f))"

definition RkSipSdmmcClockRateSet :: "'f firmware \<Rightarrow> u64 \<Rightarrow> u8 \<Rightarrow> u32 \<Rightarrow> 'f \<Rightarrow> NTSTATUS \<times> 'f" where
  "RkSipSdmmcClockRateSet smc ControllerAddress ident RateHz f =
     (case ArmCallSmc smc (smc_args RK_SIP_SDMMC_CLOCK_RATE_SET ControllerAddress ident (ucast RateHz)) f of (a, f) \<Rightarrow> (SmcReturnToStatus a, f))"

definition RkSipSdmmcClockPhaseGet :: "'f firmware \<Rightarrow> u64 \<Rightarrow> u8 \<Rightarrow> 'f \<Rightarrow> NTSTATUS \<times> u32 \<times> 'f" where
  "RkSipSdmmcClockPhaseGet smc ControllerAddress ident f =
     (case ArmCallSmc smc (smc_args RK_SIP_SDMMC_CLOCK_PHASE_GET ControllerAddress ident 0) f of (a, f) \<Rightarrow> (SmcReturnToStatus a, ucast (Arg1 a), f))"

definition RkSipSdmmcClockPhaseSet :: "'f firmware \<Rightarrow> u64 \<Rightarrow> u8 \<Rightarrow> u32 \<Rightarrow> 'f \<Rightarrow> NTSTATUS \<times> 'f" where
  "RkSipSdmmcClockPhaseSet smc ControllerAddress ident PhaseDegrees f =
     (case ArmCallSmc smc (smc_args RK_SIP_SDMMC_CLOCK_PHASE_SET ControllerAddress ident (ucast PhaseDegrees)) f of (a, f) \<Rightarrow> (SmcReturnToStatus a, f))"

definition RkSipSdmmcRegulatorVoltageGet :: "'f firmware \<Rightarrow> u64 \<Rightarrow> u8 \<Rightarrow> 'f \<Rightarrow> NTSTATUS \<times> u32 \<times> 'f" where
  "RkSipSdmmcRegulatorVoltageGet smc ControllerAddress ident f =
     (case ArmCallSmc smc (smc_args RK_SIP_SDMMC_REGULATOR_VOLTAGE_GET ControllerAddress ident 0) f of (a, f) \<Rightarrow> (SmcReturnToStatus a, ucast (Arg1 a), f))"

definition RkSipSdmmcRegulatorVoltageSet :: "'f firmware \<Rightarrow> u64 \<Rightarrow> u8 \<Rightarrow> u32 \<Rightarrow> 'f \<Rightarrow> NTSTATUS \<times> 'f" where
  "RkSipSdmmcRegulatorVoltageSet smc ControllerAddress ident Microvolts f =
     (case ArmCallSmc smc (smc_args RK_SIP_SDMMC_REGULATOR_VOLTAGE_SET ControllerAddress ident (ucast Microvolts)) f of (a, f) \<Rightarrow> (SmcReturnToStatus a, f))"

text \<open>A \<open>BOOLEAN\<close> is a byte: the low byte of the firmware's answer.\<close>

definition RkSipSdmmcRegulatorEnableGet :: "'f firmware \<Rightarrow> u64 \<Rightarrow> u8 \<Rightarrow> 'f \<Rightarrow> NTSTATUS \<times> u8 \<times> 'f" where
  "RkSipSdmmcRegulatorEnableGet smc ControllerAddress ident f =
     (case ArmCallSmc smc (smc_args RK_SIP_SDMMC_REGULATOR_ENABLE_GET ControllerAddress ident 0) f of (a, f) \<Rightarrow> (SmcReturnToStatus a, ucast (Arg1 a), f))"

definition RkSipSdmmcRegulatorEnableSet :: "'f firmware \<Rightarrow> u64 \<Rightarrow> u8 \<Rightarrow> u8 \<Rightarrow> 'f \<Rightarrow> NTSTATUS \<times> 'f" where
  "RkSipSdmmcRegulatorEnableSet smc ControllerAddress ident Enable f =
     (case ArmCallSmc smc (smc_args RK_SIP_SDMMC_REGULATOR_ENABLE_SET ControllerAddress ident (ucast Enable)) f of (a, f) \<Rightarrow> (SmcReturnToStatus a, f))"

section \<open>Against a firmware that keeps the values\<close>

text \<open>
  What the library expects of the firmware: a value per controller, identifier and kind of setting, written by the calls
  with odd function numbers and read by those with even ones. Other calls are not supported.
\<close>

definition sip_firmware :: "(u64 \<times> u64 \<times> nat \<Rightarrow> u64) firmware" where
  "sip_firmware a store =
     (let n = unat (Arg0 a) - 0xC2000020
      in if Arg0 a < 0xC2000020 \<or> 0xC2000027 < Arg0 a then (a\<lparr>Arg0 := -1\<rparr>, store)
         else if even n then (a\<lparr>Arg0 := 0, Arg1 := store (Arg1 a, Arg2 a, n div 2)\<rparr>, store)
         else (a\<lparr>Arg0 := 0\<rparr>, store((Arg1 a, Arg2 a, n div 2) := Arg3 a)))"

lemmas sip_calls = RK_SIP_SDMMC_CLOCK_RATE_GET_def RK_SIP_SDMMC_CLOCK_RATE_SET_def RK_SIP_SDMMC_CLOCK_PHASE_GET_def
  RK_SIP_SDMMC_CLOCK_PHASE_SET_def RK_SIP_SDMMC_REGULATOR_VOLTAGE_GET_def RK_SIP_SDMMC_REGULATOR_VOLTAGE_SET_def
  RK_SIP_SDMMC_REGULATOR_ENABLE_GET_def RK_SIP_SDMMC_REGULATOR_ENABLE_SET_def

lemma arch_ids: "ARCH_SMC_ID 0x82000020 = 0xC2000020" "ARCH_SMC_ID 0x82000021 = 0xC2000021" "ARCH_SMC_ID 0x82000022 = 0xC2000022"
  "ARCH_SMC_ID 0x82000023 = 0xC2000023" "ARCH_SMC_ID 0x82000024 = 0xC2000024" "ARCH_SMC_ID 0x82000025 = 0xC2000025"
  "ARCH_SMC_ID 0x82000026 = 0xC2000026" "ARCH_SMC_ID 0x82000027 = 0xC2000027"
  by (simp_all add: ARCH_SMC_ID_def)

lemma widened [simp]: "ucast (ucast (v :: u32) :: u64) = v" "ucast (ucast (b :: u8) :: u64) = b"
  by (rule bit_word_eqI, auto simp: bit_simps)+

lemmas sip_defs = ArmCallSmc_def sip_firmware_def smc_args_def sip_calls arch_ids SmcReturnToStatus_def RK_SIP_E_SUCCESS_def Let_def

text \<open>With a firmware that keeps the values, what is set is what is read afterwards, for each kind of setting, and
  setting one kind leaves the others of the controller as they were.
\<close>

theorem sip_settings_roundtrip:
  "snd (RkSipSdmmcClockRateSet sip_firmware c i rate f) = g \<Longrightarrow> RkSipSdmmcClockRateGet sip_firmware c i g = (STATUS_SUCCESS, rate, g) \<and>
     RkSipSdmmcClockPhaseGet sip_firmware c i g = (STATUS_SUCCESS, fst (snd (RkSipSdmmcClockPhaseGet sip_firmware c i f)), g) \<and>
   (snd (RkSipSdmmcClockPhaseSet sip_firmware c i degrees g) = h \<longrightarrow>
     RkSipSdmmcClockPhaseGet sip_firmware c i h = (STATUS_SUCCESS, degrees, h) \<and> RkSipSdmmcClockRateGet sip_firmware c i h = (STATUS_SUCCESS, rate, h)) \<and>
   (snd (RkSipSdmmcRegulatorVoltageSet sip_firmware c i uv g) = v \<longrightarrow> RkSipSdmmcRegulatorVoltageGet sip_firmware c i v = (STATUS_SUCCESS, uv, v)) \<and>
   (snd (RkSipSdmmcRegulatorEnableSet sip_firmware c i on g) = e \<longrightarrow> RkSipSdmmcRegulatorEnableGet sip_firmware c i e = (STATUS_SUCCESS, on, e))"
  by (auto simp: sip_defs RkSipSdmmcClockRateSet_def RkSipSdmmcClockRateGet_def RkSipSdmmcClockPhaseGet_def RkSipSdmmcClockPhaseSet_def
    RkSipSdmmcRegulatorVoltageSet_def RkSipSdmmcRegulatorVoltageGet_def RkSipSdmmcRegulatorEnableSet_def RkSipSdmmcRegulatorEnableGet_def)

lemma sip_settings_roundtrip_witness:
  "RkSipSdmmcClockRateGet sip_firmware 0x2A310000 0 (snd (RkSipSdmmcClockRateSet sip_firmware 0x2A310000 0 50000000 (\<lambda>_. 0)))
     = (STATUS_SUCCESS, 50000000, snd (RkSipSdmmcClockRateSet sip_firmware 0x2A310000 0 50000000 (\<lambda>_. 0)))"
  using sip_settings_roundtrip [OF refl, of "0x2A310000" 0 50000000 "\<lambda>_. 0"] by blast

lemma sip_unsupported:
  assumes "\<And>a f. smc a f = (a\<lparr>Arg0 := -1\<rparr>, f)"
  shows "RkSipSdmmcClockRateSet smc c i rate f = (STATUS_NOT_SUPPORTED, f)"
  by (simp add: assms RkSipSdmmcClockRateSet_def ArmCallSmc_def SmcReturnToStatus_def RK_SIP_E_SUCCESS_def RK_SIP_E_NOT_SUPPORTED_def)

end
