(* ===== verification/Spec2Isabelle.thy ===== *)
theory Spec2Isabelle
  imports TxLifecycle RxReports EqosDeviceProperties EqosPrepareProperties MshcHostProofs MshcTuning MshcPlatformProofs Pl330ChannelProperties SpiRequestProperties RkSip
begin

text \<open>
  The drivers of the RK3576 board for Windows on ARM (src/drivers): a model of the drivers that carry logic of
  their own, translated function by function from the C and C++ sources, and the theorems that make them correct.

  \<^bold>\<open>The program.\<close> The repository is a set of kernel drivers that do not call each other: each is loaded for
  its own device, is called by a Windows framework, and drives the registers and the memory of one controller.
  Modelled are the Ethernet driver (net/dwc_eqos, under NetAdapterCx), the helper library that reads ACPI objects
  (shared/acpiutil.cpp, linked into the Ethernet driver), the SD/MMC host driver (sd/dwcmshc, a miniport of sdport)
  with the routines of the RK3576 (rockchip_ops.cpp), the PL330 DMA driver (dma/pl330dma), which the audio drivers use
  through its call interface, the SPI controller driver (spi/rk3xspi, under SpbCx), and the small library that asks
  the secure firmware for card clocks (sd/rk_sip_sdmmc_lib over lib/arm_smc_lib).

  \<^bold>\<open>Conventions.\<close> A context structure of the driver is a record with the source's member names; a union of bit
  fields is a \<open>layout\<close> (theory Prelude) read by \<open>getf\<close> and written by \<open>putf\<close>; a C integer is a word of its width, so
  that additions wrap where the code's do; a status is an NTSTATUS value (theory NtStatus). A function that changes
  its context returns the new one. A device is the record's register store together with the ordered list of the
  writes, or an argument that gives the value of each read where the device changes the register by itself. What the
  frameworks do (NetAdapterCx, sdport, WDF, ACPI) is a parameter of the definitions, and what the drivers rely on is
  the \<open>assumes\<close> of a locale or a named hypothesis.

  \<^bold>\<open>Loops.\<close> A loop that the source bounds is a recursive function with its measure. A loop that ends only if the
  device, the framework or the data are as expected is a \<open>partial_function (option)\<close>: \<open>None\<close> is the loop that does not
  end, and the theorems say when the result is \<open>Some\<close>. Fuel occurs in two places. \<open>MshcCompleteRequest\<close> and the
  busy worker (theory MshcRequest) call each other while the card stays busy; \<open>complete_request_returns\<close> shows that
  one unit per status read is enough, and \<open>dpc_completes\<close> that one unit is enough where the busy worker is queued as a
  work item. \<open>MshcResetHost\<close> (theory MshcHost) sends a stop command that may reset the host again;
  \<open>reset_nests_at_most_three\<close> shows that more than three levels are never used with the RK3576's operations.

  \<^bold>\<open>Theories.\<close>
  \<^item> Prelude: words, bit-field layouts with the locale \<open>bitfields\<close> (reading after writing), and the locale
    \<open>index_ring\<close> (counting and slicing on an index that wraps). NtStatus: status codes.
  \<^item> dwc_eqos, registers.h and descriptors.h: EqosRegisters, EqosRegisterMap and EqosDescriptors. Every layout is an
    interpretation of \<open>bitfields\<close>, which proves that its members are disjoint and fill the word.
  \<^item> dwc_eqos, the rings: QueueCommon (queue_common.h and .cpp; the descriptor ring is \<open>index_ring\<close>) and NetRings
    (the rings of NetAdapterCx; locale \<open>net_rings\<close> extends \<open>index_ring\<close> with the framework's index functions).
  \<^item> dwc_eqos, transmit: TxQueue has the handlers of txqueue.cpp. TxQueueProofs shows that each filling loop writes
    the descriptors a specification lists for the packet, TxQueueCorrect puts the handler together, TxAccounting and
    TxInvariant hold the invariant, TxSafety its preservation, TxSystem the queue with its framework and device, and
    TxProperties, TxFormats and TxLifecycle the properties: what every reachable state satisfies, refinement of a
    first-in-first-out specification, progress, the bytes the descriptors announce.
  \<^item> dwc_eqos, receive: RxQueue (rxqueue.cpp), RxQueueProofs, RxProperties and RxReports, in the same order.
  \<^item> dwc_eqos, device.cpp: EqosInterrupts and InterruptSystem (the service routine, the deferred procedure and the
    arming of notifications as critical sections, interleaved: every notification owed is delivered exactly once, and
    no mask stays off);
    EqosDevice and EqosDeviceProperties (addresses, reset, link, filter, power); EqosPrepare and
    EqosPrepareProperties (preparing and releasing the hardware, with what is allocated and freed).
  \<^item> acpiutil.cpp: AcpiUtil (walking arguments and packages), AcpiEvaluate (evaluating methods), AcpiProperties (the
    walk against a lookup on the objects, in the locale \<open>acpi_layout\<close> over the WDK's buffer layout) and AcpiReports.
  \<^item> dwcmshc: SdPort (what sdport.h declares), MshcState (registers and slot), MshcEvents (events and interrupts),
    MshcBus with MshcBusProofs (clock, width, speed, voltage), MshcIdmac (the DMA table and the transfers it
    describes), MshcRequest with MshcRequestProofs, MshcTransfers and MshcSystem (requests and their completion),
    MshcHost with MshcHostProofs (resets, stop, tuning and synchronous requests), MshcPlatform with
    MshcPlatformProofs (initialization). RockchipOps, RockchipClock and RockchipTuning are rockchip_ops.cpp, and
    MshcTuning joins the tuning scan to the tuning command the driver sends. What the driver asks of a platform are
    the locales \<open>platform_clock\<close> and \<open>platform_tuning\<close>, interpreted by the Rockchip routines.
  \<^item> pl330dma: Pl330Insn (the emitters of opcodes.h and the program generator of insn.c), Pl330Machine (the
    controller's side of the microcode, after its manual: the specification), Pl330Decode, Pl330Audio, Pl330Cycle and
    Pl330Properties (the generated program, run by the controller, goes through the audio buffer period by period and
    starts again); Pl330Device and Pl330Threads (dmacontroller.c, threads.c, pl330.c), Pl330ThreadProofs and
    Pl330ChannelProperties (the locale \<open>channel_pool\<close>, interpreted by the driver's operations: a channel has one owner).
  \<^item> rk3xspi: SpiDevice (rk3xspi.h, the registers and a model of the controller, which shifts frames at a pace of its
    own), SpiTransfer (hw.c), SpiRequests (spb.c and driver.c); SpiClock (the divider), SpiProofs, SpiProperties and
    SpiRequestProperties (a transfer is the exchange of its bytes on the wires, it ends, and it leaves the controller
    disabled; a sequence gathers and scatters its segments). RkSip has rk_sip_sdmmc_lib.c and the 64-bit call routine
    of ArmSmcLib, over the firmware as a parameter.

  \<^bold>\<open>Where the code is not what it means to be.\<close> Some theorems state a defect, as the code has it:
  \<open>tx_oversized_stalls\<close> (a packet needing more descriptors than the ring holds blocks the queue), \<open>DeviceReset_spec\<close>
  (the retry counter counts down from 0), \<open>prepare_misses_reset_timeout\<close> (a timeout reported as a success code),
  \<open>timeout_loses_request\<close> (a request that is never completed), \<open>lost_start_wedges_channel\<close> (a transfer marked as
  running that was never started, after which nothing the driver offers starts the channel again),
  \<open>short_period_overruns\<close> (a loop count of 0 that the controller takes for 256).

  \<^bold>\<open>Not modelled.\<close> Creating and destroying framework objects, the registration of callbacks, tracing and performance
  counters: they only call the frameworks. In pl330.c, a second interrupt is registered with the same service routine
  and no deferred procedure: only the first one is modelled. Of ArmSmcLib, the routine for 32-bit machines. The SD host
  driver dwcsdhc (for another controller, a port of the WDK's sample), the GPIO and I2C controllers, the ES8323 codec
  (tables of register writes), the I2S bus enumerator and the audio miniport (both derived from samples, and mostly
  calls of their frameworks) are separate drivers, independent of those above, and are left out.
  Within the modelled drivers, the memory ordering of register and descriptor accesses is that of the source's
  program order, and power and plug-and-play callbacks run one at a time, as WDF promises.
\<close>

end
